(* ===== verification/C_Prelude.thy ===== *)
theory C_Prelude
  imports Main "HOL-Library.Word"
begin

text \<open>
  The prelude of the development: names for the C types the sources of wspy use, the
  character classes and string operations of the C library that the parsers and printers
  call, and the generic lemmas on lists and options that the component theories share.

  A C string is a \<open>string\<close> (a list of 8-bit characters) without its terminating zero
  byte: reading the terminator is reading past the end of the list, which
  \<open>peek\<close> makes explicit by returning the zero character there.
\<close>

section \<open>Names for C types\<close>

type_synonym u8 = "8 word"
type_synonym u16 = "16 word"
type_synonym u32 = "32 word"
type_synonym u64 = "64 word"

text \<open>
  The collections of facts the component proofs use: \<open>cstr_simps\<close> for the string
  operations, \<open>step_simps\<close> for the one-step equations of the components' operations.
\<close>

named_theorems cstr_simps
named_theorems step_simps

section \<open>Characters\<close>

definition NUL :: char where
  "NUL = CHR 0x00"

definition char_code :: "char \<Rightarrow> nat" where
  "char_code c = of_char c"

definition is_digit :: "char \<Rightarrow> bool" where
  "is_digit c \<longleftrightarrow> 48 \<le> char_code c \<and> char_code c \<le> 57"

text \<open>\<open>isspace\<close> of the C locale: tab, newline, vertical tab, form feed, return, blank.\<close>

definition is_space :: "char \<Rightarrow> bool" where
  "is_space c \<longleftrightarrow> (9 \<le> char_code c \<and> char_code c \<le> 13) \<or> char_code c = 32"

definition hex_value :: "char \<Rightarrow> nat option" where
  "hex_value c =
     (let n = char_code c in
      if 48 \<le> n \<and> n \<le> 57 then Some (n - 48)
      else if 97 \<le> n \<and> n \<le> 102 then Some (n - 97 + 10)
      else if 65 \<le> n \<and> n \<le> 70 then Some (n - 65 + 10)
      else None)"

lemma char_code_less [simp]: "char_code c < 256"
  using nat_of_char_less_256 by (simp add: char_code_def)

lemma char_code_inject [simp]: "char_code c = char_code d \<longleftrightarrow> c = d"
  by (simp add: char_code_def)

lemma char_code_char_of [simp]: "n < 256 \<Longrightarrow> char_code (char_of n) = n"
  by (simp add: char_code_def)

lemma char_code_Char [simp]:
  "char_code (Char b0 b1 b2 b3 b4 b5 b6 b7) =
     of_bool b0 + 2 * (of_bool b1 + 2 * (of_bool b2 + 2 * (of_bool b3 + 2 * (of_bool b4 +
     2 * (of_bool b5 + 2 * (of_bool b6 + 2 * of_bool b7))))))"
  by (simp add: char_code_def)

lemma class_Char [simp]:
  "is_digit (Char b0 b1 b2 b3 b4 b5 b6 b7) \<longleftrightarrow>
     48 \<le> char_code (Char b0 b1 b2 b3 b4 b5 b6 b7) \<and> char_code (Char b0 b1 b2 b3 b4 b5 b6 b7) \<le> 57"
  "is_space (Char b0 b1 b2 b3 b4 b5 b6 b7) \<longleftrightarrow>
     (9 \<le> char_code (Char b0 b1 b2 b3 b4 b5 b6 b7) \<and> char_code (Char b0 b1 b2 b3 b4 b5 b6 b7) \<le> 13)
     \<or> char_code (Char b0 b1 b2 b3 b4 b5 b6 b7) = 32"
  by (simp_all only: is_digit_def is_space_def)

lemma char_code_NUL [simp]: "char_code NUL = 0"
  by (simp add: NUL_def)

lemma NUL_eq_iff: "c = NUL \<longleftrightarrow> char_code c = 0"
  by (subst char_code_inject [symmetric]) (simp add: NUL_def char_code_def)

lemma is_digit_not_space [simp]: "is_digit c \<Longrightarrow> \<not> is_space c"
  by (auto simp: is_digit_def is_space_def)

lemma is_digit_not_NUL [simp]: "is_digit c \<Longrightarrow> c \<noteq> NUL"
  by (auto simp: is_digit_def NUL_eq_iff)

lemma is_space_not_NUL [simp]: "is_space c \<Longrightarrow> c \<noteq> NUL"
  by (auto simp: is_space_def NUL_eq_iff)

lemma not_NUL_class [simp]: "\<not> is_digit NUL" "\<not> is_space NUL" "hex_value NUL = None"
  by (simp_all add: is_digit_def is_space_def hex_value_def NUL_def char_code_def)

lemma hex_value_bound: "hex_value c = Some n \<Longrightarrow> n < 16"
  by (auto simp: hex_value_def Let_def split: if_splits)

lemma hex_value_digit: "is_digit c \<Longrightarrow> hex_value c = Some (char_code c - 48)"
  by (auto simp: hex_value_def is_digit_def Let_def)

section \<open>Strings\<close>

text \<open>The character a pointer into a string is at: the terminator past the end.\<close>

definition peek :: "string \<Rightarrow> char" where
  "peek s = (case s of [] \<Rightarrow> NUL | c # _ \<Rightarrow> c)"

lemma peek_simps [simp, cstr_simps]: "peek [] = NUL" "peek (c # s) = c"
  by (simp_all add: peek_def)

text \<open>The C string that a buffer of bytes holds: everything before the first zero byte.\<close>

definition cstr :: "string \<Rightarrow> string" where
  "cstr s = takeWhile (\<lambda>c. c \<noteq> NUL) s"

definition no_nul :: "string \<Rightarrow> bool" where
  "no_nul s \<longleftrightarrow> NUL \<notin> set s"

lemma no_nul_simps [simp, cstr_simps]:
  "no_nul []" "no_nul (c # s) \<longleftrightarrow> c \<noteq> NUL \<and> no_nul s"
  "no_nul (s @ t) \<longleftrightarrow> no_nul s \<and> no_nul t"
  by (auto simp: no_nul_def)

lemma cstr_no_nul [simp]: "no_nul (cstr s)"
  by (auto simp: cstr_def no_nul_def dest: set_takeWhileD)

lemma cstr_id [simp]: "no_nul s \<Longrightarrow> cstr s = s"
  by (auto simp: cstr_def no_nul_def takeWhile_eq_all_conv)

lemma cstr_append_nul: "no_nul s \<Longrightarrow> cstr (s @ NUL # t) = s"
  by (induction s) (simp_all add: cstr_def)

text \<open>\<open>strncmp(s,p,strlen(p)) == 0\<close>.\<close>

definition starts_with :: "string \<Rightarrow> string \<Rightarrow> bool" where
  "starts_with p s \<longleftrightarrow> take (length p) s = p"

lemma starts_with_simps [simp, cstr_simps]:
  "starts_with [] s"
  "starts_with (a # p) [] = False"
  "starts_with (a # p) (b # s) \<longleftrightarrow> a = b \<and> starts_with p s"
  by (auto simp: starts_with_def)

lemma starts_with_append: "starts_with p (p @ s)"
  by (simp add: starts_with_def)

text \<open>
  \<open>strcmp\<close> as an order on strings: the sign of the first difference of the bytes, read
  as unsigned characters; a proper prefix is smaller.
\<close>

fun strcmp_lt :: "string \<Rightarrow> string \<Rightarrow> bool" where
  "strcmp_lt _ [] = False"
| "strcmp_lt [] (_ # _) = True"
| "strcmp_lt (a # s) (b # t) =
     (char_code a < char_code b \<or> (a = b \<and> strcmp_lt s t))"

lemma strcmp_lt_irrefl [simp]: "\<not> strcmp_lt s s"
  by (induction s) auto

lemma strcmp_lt_trans: "strcmp_lt s t \<Longrightarrow> strcmp_lt t u \<Longrightarrow> strcmp_lt s u"
proof (induction s t arbitrary: u rule: strcmp_lt.induct)
  case (1 s)
  then show ?case by simp
next
  case (2 b t)
  then show ?case by (cases u) auto
next
  case (3 a s b t)
  then show ?case by (cases u) auto
qed

lemma strcmp_lt_total: "s \<noteq> t \<Longrightarrow> strcmp_lt s t \<or> strcmp_lt t s"
proof (induction s t rule: strcmp_lt.induct)
  case (1 s)
  then show ?case by (cases s) auto
next
  case (2 b t)
  then show ?case by simp
next
  case (3 a s b t)
  then show ?case
    by (cases "a = b") (auto simp: less_le)
qed

text \<open>\<open>strchr(s,c)\<close>: the text before the first \<open>c\<close> and the text after it.\<close>

fun split_at :: "char \<Rightarrow> string \<Rightarrow> (string \<times> string) option" where
  "split_at c [] = None"
| "split_at c (d # s) =
     (if d = c then Some ([], s)
      else map_option (\<lambda>(a, b). (d # a, b)) (split_at c s))"

lemma split_at_append [simp, cstr_simps]:
  "c \<notin> set a \<Longrightarrow> split_at c (a @ c # b) = Some (a, b)"
  by (induction a) auto

lemma split_at_Some: "split_at c s = Some (a, b) \<Longrightarrow> s = a @ c # b \<and> c \<notin> set a"
  by (induction s arbitrary: a) (auto split: if_splits)

lemma split_at_None: "split_at c s = None \<longleftrightarrow> c \<notin> set s"
  by (induction s) auto

text \<open>\<open>strstr(h,n)\<close>: the suffix of \<open>h\<close> that starts at the first occurrence of \<open>n\<close>.\<close>

fun strstr :: "string \<Rightarrow> string \<Rightarrow> string option" where
  "strstr [] n = (if n = [] then Some [] else None)"
| "strstr (c # h) n = (if starts_with n (c # h) then Some (c # h) else strstr h n)"

lemma strstr_Some_iff: "(\<exists>r. strstr h n = Some r) \<longleftrightarrow> (\<exists>a b. h = a @ n @ b)"
proof (induction h)
  case Nil
  then show ?case by simp
next
  case (Cons c h)
  show ?case
  proof (cases "starts_with n (c # h)")
    case True
    then have "c # h = [] @ n @ drop (length n) (c # h)"
      by (simp add: starts_with_def) (metis append_take_drop_id)
    with True show ?thesis by (metis strstr.simps(2))
  next
    case False
    then have no: "\<nexists>b. c # h = n @ b"
      by (metis starts_with_append)
    have "(\<exists>a b. c # h = a @ n @ b) \<longleftrightarrow> (\<exists>a b. h = a @ n @ b)"
    proof
      assume "\<exists>a b. c # h = a @ n @ b"
      then obtain a b where ab: "c # h = a @ n @ b" by blast
      with no show "\<exists>a b. h = a @ n @ b" by (cases a) auto
    next
      assume "\<exists>a b. h = a @ n @ b"
      then show "\<exists>a b. c # h = a @ n @ b" by (metis append_Cons)
    qed
    with False Cons.IH show ?thesis by simp
  qed
qed

text \<open>\<open>strtok\<close> with a set of delimiters: the maximal runs of other characters.\<close>

fun tokens_aux :: "(char \<Rightarrow> bool) \<Rightarrow> string \<Rightarrow> string \<Rightarrow> string list" where
  "tokens_aux d acc [] = (if acc = [] then [] else [rev acc])"
| "tokens_aux d acc (c # s) =
     (if d c then (if acc = [] then [] else [rev acc]) @ tokens_aux d [] s
      else tokens_aux d (c # acc) s)"

definition tokens :: "(char \<Rightarrow> bool) \<Rightarrow> string \<Rightarrow> string list" where
  "tokens d s = tokens_aux d [] s"

lemma tokens_aux_run:
  "\<forall>c \<in> set t. \<not> d c \<Longrightarrow> tokens_aux d acc (t @ s) = tokens_aux d (rev t @ acc) s"
  by (induction t arbitrary: acc) auto

lemma tokens_word:
  "t \<noteq> [] \<Longrightarrow> \<forall>c \<in> set t. \<not> d c \<Longrightarrow> tokens d t = [t]"
  using tokens_aux_run [of t d "[]" "[]"] by (simp add: tokens_def)

lemma tokens_word_sep:
  "t \<noteq> [] \<Longrightarrow> \<forall>c \<in> set t. \<not> d c \<Longrightarrow> d e \<Longrightarrow> tokens d (t @ e # s) = t # tokens d s"
  using tokens_aux_run [of t d "[]" "e # s"] by (simp add: tokens_def)

section \<open>Generic lemmas\<close>

lemma list_update_append_tl: "i < length xs \<Longrightarrow> (xs @ ys)[i := v] = xs[i := v] @ ys"
  by (simp add: list_update_append)

lemma sum_list_map_update:
  fixes f :: "'a \<Rightarrow> nat"
  assumes "i < length xs"
  shows "sum_list (map f (xs[i := v])) + f (xs ! i) = sum_list (map f xs) + f v"
  using assms
proof (induction xs arbitrary: i)
  case Nil
  then show ?case by simp
next
  case (Cons x xs)
  then show ?case by (cases i) auto
qed

lemma filter_length_split:
  "length (filter P xs) + length (filter (\<lambda>x. \<not> P x) xs) = length xs"
  by (induction xs) auto

lemma dropWhile_length_le [simp]: "length (dropWhile P s) \<le> length s"
  by (rule length_dropWhile_le)

lemma no_nul_dropWhile [simp]: "no_nul s \<Longrightarrow> no_nul (dropWhile P s)"
  by (auto simp: no_nul_def dest: set_dropWhileD)

lemma no_nul_drop [simp]: "no_nul s \<Longrightarrow> no_nul (drop n s)"
  by (auto simp: no_nul_def dest: in_set_dropD)

lemma no_nul_take [simp]: "no_nul s \<Longrightarrow> no_nul (take n s)"
  by (auto simp: no_nul_def dest: in_set_takeD)

lemma enumerate_eq_Nil [simp]: "enumerate n xs = [] \<longleftrightarrow> xs = []"
  by (cases xs) simp_all

section \<open>Output formats\<close>

text \<open>\<open>enum output_format\<close> of src/wspy.h; what a function prints is the string it appends to the stream.\<close>

datatype output_format = PRINT_NORMAL | PRINT_CSV | PRINT_CSV_HEADER

definition newline :: string where "newline = [CHR 0x0A]"

end
