(* ===== verification/C_Numbers.thy ===== *)
theory C_Numbers
  imports C_Prelude
begin

text \<open>
  Decimal and hexadecimal text: the integer conversions of \<open>printf\<close>
  (\<open>%d\<close>, \<open>%u\<close>, \<open>%lu\<close>, \<open>%llu\<close>, \<open>%lx\<close>) and the integer readers of the C library the sources call
  (\<open>strtol\<close>, \<open>strtoul\<close>, \<open>strtoull\<close>, \<open>atoi\<close>, \<open>atoll\<close> and the integer conversions of \<open>sscanf\<close>), with
  their round trips. A 64-bit \<open>long\<close> is assumed, as on every platform wspy builds on.
\<close>

section \<open>Printing\<close>

definition digit_char :: "nat \<Rightarrow> char" where
  "digit_char d = (if d < 10 then char_of (48 + d) else char_of (87 + d))"

text \<open>The digits of a number in a base, most significant first.\<close>

fun digits_in :: "nat \<Rightarrow> nat \<Rightarrow> string" where
  "digits_in b n =
     (if b < 2 \<or> n < b then [digit_char n]
      else digits_in b (n div b) @ [digit_char (n mod b)])"

declare digits_in.simps [simp del]

definition dec :: "nat \<Rightarrow> string" where
  "dec n = digits_in 10 n"

definition hex :: "nat \<Rightarrow> string" where
  "hex n = digits_in 16 n"

definition dec_int :: "int \<Rightarrow> string" where
  "dec_int i = (if i < 0 then CHR ''-'' # dec (nat (- i)) else dec (nat i))"

text \<open>Field widths: \<open>%5s\<close> pads on the left, \<open>%-5s\<close> on the right, \<open>%04x\<close> with zeros.\<close>

definition pad_left :: "char \<Rightarrow> nat \<Rightarrow> string \<Rightarrow> string" where
  "pad_left c w s = replicate (w - length s) c @ s"

definition pad_right :: "nat \<Rightarrow> string \<Rightarrow> string" where
  "pad_right w s = s @ replicate (w - length s) (CHR '' '')"

lemma digit_char_class [simp]: "d < 10 \<Longrightarrow> is_digit (digit_char d)"
  by (simp add: digit_char_def is_digit_def)

lemma digit_char_value [simp]: "d < 16 \<Longrightarrow> hex_value (digit_char d) = Some d"
  by (auto simp: digit_char_def hex_value_def Let_def)

lemma digit_char_code [simp]: "d < 10 \<Longrightarrow> char_code (digit_char d) = 48 + d"
  by (simp add: digit_char_def)

lemma digits_in_nonempty [simp]: "digits_in b n \<noteq> []"
  by (subst digits_in.simps) simp

lemma dec_nonempty [simp]: "dec n \<noteq> []" and hex_nonempty [simp]: "hex n \<noteq> []"
  by (simp_all add: dec_def hex_def)

lemma digits_in_valid:
  assumes "2 \<le> b" and "b \<le> 16"
  shows "\<forall>c \<in> set (digits_in b n). \<exists>d < b. c = digit_char d"
  using assms
proof (induction b n rule: digits_in.induct)
  case (1 b n)
  show ?case
  proof (cases "n < b")
    case True
    then show ?thesis by (subst digits_in.simps) auto
  next
    case False
    with 1 have ih: "\<forall>c \<in> set (digits_in b (n div b)). \<exists>d < b. c = digit_char d" by simp
    have "n mod b < b" using 1(2) by simp
    then have "\<exists>d < b. digit_char (n mod b) = digit_char d" by blast
    with ih False 1(2) show ?thesis by (subst digits_in.simps) simp
  qed
qed

lemma dec_digits: "\<forall>c \<in> set (dec n). is_digit c"
  using digits_in_valid [of 10 n] by (auto simp: dec_def)

lemma hex_digits: "\<forall>c \<in> set (hex n). hex_value c \<noteq> None"
  using digits_in_valid [of 16 n] by (auto simp: hex_def)

lemma dec_no_nul [simp]: "no_nul (dec n)"
  using dec_digits [of n] is_digit_not_NUL by (auto simp: no_nul_def)

lemma dec_int_no_nul [simp]: "no_nul (dec_int n)"
  by (simp add: dec_int_def NUL_def)

lemma dec_hd: "\<exists>c s. dec n = c # s \<and> is_digit c"
  using dec_digits [of n] by (cases "dec n") auto

section \<open>Reading digits\<close>

text \<open>
  The longest prefix of digits of the base and its value; \<open>span_digits\<close> is the scan all the
  integer readers share.
\<close>

definition digit_in :: "nat \<Rightarrow> char \<Rightarrow> bool" where
  "digit_in b c \<longleftrightarrow> (case hex_value c of None \<Rightarrow> False | Some d \<Rightarrow> d < b)"

definition span_digits :: "nat \<Rightarrow> string \<Rightarrow> string \<times> string" where
  "span_digits b s = (takeWhile (digit_in b) s, dropWhile (digit_in b) s)"

definition digits_value :: "nat \<Rightarrow> string \<Rightarrow> nat" where
  "digits_value b ds = foldl (\<lambda>a c. b * a + the (hex_value c)) 0 ds"

lemma digits_value_snoc [simp]:
  "digits_value b (ds @ [c]) = b * digits_value b ds + the (hex_value c)"
  by (simp add: digits_value_def)

lemma digits_value_Nil [simp]: "digits_value b [] = 0"
  by (simp add: digits_value_def)

lemma digits_value_single [simp]: "digits_value b [c] = the (hex_value c)"
  by (simp add: digits_value_def)

lemma digits_value_digits_in:
  assumes "2 \<le> b" and "b \<le> 16"
  shows "digits_value b (digits_in b n) = n"
  using assms
proof (induction b n rule: digits_in.induct)
  case (1 b n)
  show ?case
  proof (cases "n < b")
    case True
    with 1(3) show ?thesis by (subst digits_in.simps) (simp add: digits_value_def)
  next
    case False
    have m: "n mod b < 16" using 1(2,3) by (meson less_le_trans mod_less_divisor not_less not_numeral_le_zero le_trans)
    have ih: "digits_value b (digits_in b (n div b)) = n div b"
      using 1 False by simp
    have step: "digits_in b n = digits_in b (n div b) @ [digit_char (n mod b)]"
      using False 1(2) by (subst digits_in.simps) simp
    show ?thesis
      unfolding step digits_value_snoc ih by (simp add: digit_char_value [OF m])
  qed
qed

lemma digits_in_digit_in:
  assumes "2 \<le> b" and "b \<le> 16"
  shows "\<forall>c \<in> set (digits_in b n). digit_in b c"
  using digits_in_valid [OF assms, of n] assms
  by (auto simp: digit_in_def split: option.splits)

lemma digit_in_10 [simp]: "digit_in 10 c \<longleftrightarrow> is_digit c"
  by (auto simp: digit_in_def is_digit_def hex_value_def Let_def)

lemma span_digits_append:
  assumes "2 \<le> b" and "b \<le> 16" and "s = [] \<or> \<not> digit_in b (hd s)"
  shows "span_digits b (digits_in b n @ s) = (digits_in b n, s)"
proof -
  have tw: "takeWhile (digit_in b) s = []" and dw: "dropWhile (digit_in b) s = s"
    using assms(3) by (cases s; simp)+
  show ?thesis
    using digits_in_digit_in [OF assms(1,2), of n]
    by (simp add: span_digits_def takeWhile_append2 dropWhile_append2 tw dw)
qed

lemma span_digits_length: "span_digits b s = (d, r) \<Longrightarrow> length d + length r = length s"
  by (auto simp: span_digits_def simp flip: length_append)

section \<open>The integer readers\<close>

text \<open>
  \<open>strto_raw\<close> is the scan of the \<open>strtol\<close> family: white space, an optional sign, for base 16 an
  optional \<open>0x\<close> that counts only when a hexadecimal digit follows, and the digits.
  \<open>None\<close> is "no conversion" (\<open>endptr == nptr\<close>, value 0).
\<close>

definition skip_spaces :: "string \<Rightarrow> string" where
  "skip_spaces s = dropWhile is_space s"

definition take_sign :: "string \<Rightarrow> bool \<times> string" where
  "take_sign s =
     (case s of
        c # r \<Rightarrow> if c = CHR ''-'' then (True, r) else if c = CHR ''+'' then (False, r) else (False, s)
      | [] \<Rightarrow> (False, s))"

definition skip_0x :: "nat \<Rightarrow> string \<Rightarrow> string" where
  "skip_0x b s =
     (case s of
        z # x # h # r \<Rightarrow>
          if b = 16 \<and> z = CHR ''0'' \<and> (x = CHR ''x'' \<or> x = CHR ''X'') \<and> hex_value h \<noteq> None
          then h # r else s
      | _ \<Rightarrow> s)"

definition strto_raw :: "nat \<Rightarrow> string \<Rightarrow> (bool \<times> nat \<times> string) option" where
  "strto_raw b s =
     (let (neg, t) = take_sign (skip_spaces s);
          (ds, r) = span_digits b (skip_0x b t)
      in if ds = [] then None else Some (neg, digits_value b ds, r))"

definition LONG_MAX :: int where "LONG_MAX = 9223372036854775807"
definition LONG_MIN :: int where "LONG_MIN = - 9223372036854775808"
definition ULONG_MAX :: nat where "ULONG_MAX = 18446744073709551615"

text \<open>\<open>strtol\<close>: clamps to the range of \<open>long\<close>; the second component is what \<open>endptr\<close> points at.\<close>

definition strtol :: "nat \<Rightarrow> string \<Rightarrow> int \<times> string" where
  "strtol b s =
     (case strto_raw b s of
        None \<Rightarrow> (0, s)
      | Some (neg, m, r) \<Rightarrow>
          (if neg then max LONG_MIN (- int m) else min LONG_MAX (int m), r))"

text \<open>\<open>strtoul\<close> and \<open>strtoull\<close>: out of range is \<open>ULONG_MAX\<close>, a minus sign negates modulo \<open>2^64\<close>.\<close>

definition strtoul_word :: "bool \<Rightarrow> nat \<Rightarrow> u64" where
  "strtoul_word neg m =
     (if m > ULONG_MAX then of_nat ULONG_MAX else if neg then - of_nat m else of_nat m)"

definition strtoul :: "nat \<Rightarrow> string \<Rightarrow> u64 \<times> string" where
  "strtoul b s =
     (case strto_raw b s of None \<Rightarrow> (0, s) | Some (neg, m, r) \<Rightarrow> (strtoul_word neg m, r))"

text \<open>\<open>atoi\<close> is \<open>(int) strtol(s,NULL,10)\<close> in the C library wspy links: the low 32 bits.\<close>

definition atoi :: "string \<Rightarrow> u32" where
  "atoi s = word_of_int (fst (strtol 10 s))"

definition atoll :: "string \<Rightarrow> u64" where
  "atoll s = word_of_int (fst (strtol 10 s))"

text \<open>One \<open>%lu\<close>, \<open>%llu\<close> or \<open>%lx\<close> conversion of \<open>sscanf\<close>: \<open>None\<close> is a matching failure.\<close>

definition scan_ul :: "nat \<Rightarrow> string \<Rightarrow> (u64 \<times> string) option" where
  "scan_ul b s =
     (case strto_raw b s of None \<Rightarrow> None | Some (neg, m, r) \<Rightarrow> Some (strtoul_word neg m, r))"

text \<open>
  One \<open>%<n>s\<close> conversion: leading white space is skipped, then at most \<open>n\<close> characters that are
  not white space; at least one is needed.
\<close>

definition scan_word :: "nat \<Rightarrow> string \<Rightarrow> (string \<times> string) option" where
  "scan_word n s =
     (let t = skip_spaces s; w = take n (takeWhile (\<lambda>c. \<not> is_space c) t)
      in if w = [] then None else Some (w, drop (length w) t))"

lemma skip_spaces_nonspace [simp]:
  "s = [] \<or> \<not> is_space (hd s) \<Longrightarrow> skip_spaces s = s"
  by (cases s) (auto simp: skip_spaces_def)

lemma skip_spaces_space [simp]: "is_space c \<Longrightarrow> skip_spaces (c # s) = skip_spaces s"
  by (simp add: skip_spaces_def)

lemma skip_spaces_length [simp]: "length (skip_spaces s) \<le> length s"
  by (simp add: skip_spaces_def)

lemma take_sign_digit [simp]: "is_digit c \<Longrightarrow> take_sign (c # s) = (False, c # s)"
  by (auto simp: take_sign_def is_digit_def char_code_def)

lemma skip_0x_10 [simp]: "skip_0x 10 s = s"
  by (auto simp: skip_0x_def split: list.splits)

lemma strto_raw_dec:
  assumes "s = [] \<or> \<not> is_digit (hd s)"
  shows "strto_raw 10 (dec n @ s) = Some (False, n, s)"
proof -
  obtain c t where d: "dec n = c # t" and c: "is_digit c"
    using dec_hd by blast
  have sp: "span_digits 10 (dec n @ s) = (dec n, s)"
    using span_digits_append [of 10 s n] assms by (simp add: dec_def)
  have sk: "skip_spaces (dec n @ s) = dec n @ s"
    using c by (simp add: d)
  have sg: "take_sign (dec n @ s) = (False, dec n @ s)"
    using c by (simp add: d)
  have val: "digits_value 10 (dec n) = n"
    using digits_value_digits_in [of 10 n] by (simp add: dec_def)
  show ?thesis
    by (simp add: strto_raw_def sk sg sp val)
qed

lemma strto_raw_space [simp]: "is_space c \<Longrightarrow> strto_raw b (c # s) = strto_raw b s"
  by (simp add: strto_raw_def)

lemma scan_ul_space [simp]: "is_space c \<Longrightarrow> scan_ul b (c # s) = scan_ul b s"
  by (simp add: scan_ul_def)

text \<open>Round trips: what \<open>%u\<close>, \<open>%lu\<close>, \<open>%llu\<close> print is read back exactly.\<close>

lemma scan_ul_dec:
  assumes "s = [] \<or> \<not> is_digit (hd s)"
  shows "scan_ul 10 (dec (unat (w :: u64)) @ s) = Some (w, s)"
proof -
  have "unat w \<le> ULONG_MAX"
    using unsigned_less [of w, where 'a = nat] by (simp add: ULONG_MAX_def)
  then show ?thesis
    by (simp add: scan_ul_def strto_raw_dec [OF assms] strtoul_word_def)
qed

lemma atoi_dec:
  assumes "s = [] \<or> \<not> is_digit (hd s)" and "n < 2 ^ 32"
  shows "atoi (dec n @ s) = of_nat n"
proof -
  have "int n \<le> LONG_MAX" using assms(2) by (simp add: LONG_MAX_def)
  then show ?thesis
    by (simp add: atoi_def strtol_def strto_raw_dec [OF assms(1)] min.absorb2)
qed

lemma atoll_dec:
  assumes "s = [] \<or> \<not> is_digit (hd s)" and "n < 2 ^ 63"
  shows "atoll (dec n @ s) = of_nat n"
proof -
  have "int n \<le> LONG_MAX" using assms(2) by (simp add: LONG_MAX_def)
  then show ?thesis
    by (simp add: atoll_def strtol_def strto_raw_dec [OF assms(1)] min.absorb2)
qed

lemma strtol_dec:
  assumes "s = [] \<or> \<not> is_digit (hd s)" and "n < 2 ^ 63"
  shows "strtol 10 (dec n @ s) = (int n, s)"
proof -
  have "int n \<le> LONG_MAX" using assms(2) by (simp add: LONG_MAX_def)
  then show ?thesis
    by (simp add: strtol_def strto_raw_dec [OF assms(1)] min.absorb2)
qed

lemma scan_word_word:
  assumes "w \<noteq> []" and "length w \<le> n" and "\<forall>c \<in> set w. \<not> is_space c"
    and "s = [] \<or> is_space (hd s)"
  shows "scan_word n (w @ s) = Some (w, s)"
proof -
  have sk: "skip_spaces (w @ s) = w @ s"
    using assms(1,3) by (cases w) auto
  have "takeWhile (\<lambda>c. \<not> is_space c) s = []"
    using assms(4) by (cases s) auto
  then have tw: "takeWhile (\<lambda>c. \<not> is_space c) (w @ s) = w"
    using assms(3) by (simp add: takeWhile_append2)
  show ?thesis
    using assms(1,2) by (simp add: scan_word_def sk tw) (cases w; simp)
qed

lemma strto_raw_length: "strto_raw b s = Some (neg, m, r) \<Longrightarrow> length r < length s"
proof -
  assume a: "strto_raw b s = Some (neg, m, r)"
  obtain n1 t where t: "take_sign (skip_spaces s) = (n1, t)" by fastforce
  obtain ds r' where d: "span_digits b (skip_0x b t) = (ds, r')" by fastforce
  have lt: "length t \<le> length s"
    using t skip_spaces_length [of s]
    by (cases "skip_spaces s") (auto simp: take_sign_def split: if_splits)
  have l0: "length (skip_0x b t) \<le> length t"
    by (auto simp: skip_0x_def split: list.splits)
  from a have "ds \<noteq> []" and "r = r'"
    by (auto simp: strto_raw_def t d split: if_splits)
  with span_digits_length [OF d] lt l0 show ?thesis
    by (cases ds) auto
qed

end
