(* ===== verification/Json_Writer.thy ===== *)
theory Json_Writer
  imports C_Numbers
begin

text \<open>
  The JSON writer of \<open>src/json_util.c\<close>: \<open>json_write_string\<close>, which every JSON producer of wspy
  (the run manifest, the run index, the \<open>--json\<close> export of proctree) calls for its strings.
  The stream argument is the text written.
\<close>

definition QUOTE :: char where "QUOTE = CHR 0x22"
definition BACKSLASH :: char where "BACKSLASH = CHR 0x5C"
definition LF :: char where "LF = CHR 0x0A"
definition CR :: char where "CR = CHR 0x0D"
definition TAB :: char where "TAB = CHR 0x09"

text \<open>One iteration of the loop of \<open>json_write_string\<close>: the text for one byte.\<close>

definition json_escape :: "char \<Rightarrow> string" where
  "json_escape c =
     (if c = QUOTE then [BACKSLASH, QUOTE]
      else if c = BACKSLASH then [BACKSLASH, BACKSLASH]
      else if c = LF then [BACKSLASH, CHR ''n'']
      else if c = CR then [BACKSLASH, CHR ''r'']
      else if c = TAB then [BACKSLASH, CHR ''t'']
      else if char_code c < 32 then
        BACKSLASH # CHR ''u'' # pad_left (CHR ''0'') 4 (hex (char_code c))
      else [c])"

text \<open>\<open>None\<close> is a null pointer, written as the empty string.\<close>

definition json_write_string :: "string option \<Rightarrow> string" where
  "json_write_string s =
     QUOTE # concat (map json_escape (cstr (case s of None \<Rightarrow> [] | Some t \<Rightarrow> t))) @ [QUOTE]"

lemma special_codes [simp]:
  "char_code QUOTE = 34" "char_code BACKSLASH = 92" "char_code LF = 10"
  "char_code CR = 13" "char_code TAB = 9"
  by (simp_all add: QUOTE_def BACKSLASH_def LF_def CR_def TAB_def char_code_def)

lemma special_class [simp]:
  "\<not> is_space QUOTE" "\<not> is_digit QUOTE" "\<not> is_space BACKSLASH" "is_space LF" "is_space CR" "is_space TAB"
  by (simp_all add: QUOTE_def BACKSLASH_def LF_def CR_def TAB_def)

lemma special_distinct [simp]:
  "QUOTE \<noteq> BACKSLASH" "BACKSLASH \<noteq> QUOTE" "QUOTE \<noteq> LF" "BACKSLASH \<noteq> LF"
  "QUOTE \<noteq> NUL" "BACKSLASH \<noteq> NUL" "LF \<noteq> NUL"
  by (simp_all add: QUOTE_def BACKSLASH_def LF_def NUL_def)

lemma zero_digit_char: "CHR ''0'' = digit_char 0"
  by (subst char_code_inject [symmetric]) (simp only: digit_char_code, simp add: char_code_def)

lemma code_char_literals [simp]:
  "char_code (CHR ''n'') = 110" "char_code (CHR ''r'') = 114" "char_code (CHR ''t'') = 116"
  "char_code (CHR ''u'') = 117" "char_code (CHR ''0'') = 48"
  by (simp_all add: char_code_def)

text \<open>
  The \<open>%04x\<close> of a control character is two zeros and its two hexadecimal digits.
\<close>

lemma hex_of_control:
  assumes "n < 32"
  shows "pad_left (CHR ''0'') 4 (hex n) =
    [CHR ''0'', CHR ''0'', digit_char (n div 16), digit_char (n mod 16)]"
proof (cases "n < 16")
  case True
  then show ?thesis
    by (simp add: hex_def digits_in.simps [of 16 n] pad_left_def zero_digit_char numeral_3_eq_3)
next
  case False
  with assms have "n div 16 < 16" by simp
  with False show ?thesis
    by (simp add: hex_def digits_in.simps [of 16 n] digits_in.simps [of 16 "n div 16"]
        pad_left_def numeral_2_eq_2)
qed

lemma pad_hex_no_nul: "no_nul (pad_left (CHR ''0'') w (hex n))"
proof -
  have "NUL \<notin> set (hex n)" using hex_digits [of n] not_NUL_class(3) by auto
  then show ?thesis by (auto simp: pad_left_def no_nul_def NUL_def)
qed

lemma json_escape_no_nul: "c \<noteq> NUL \<Longrightarrow> no_nul (json_escape c)"
  by (simp add: json_escape_def pad_hex_no_nul) (simp add: NUL_eq_iff)

end
