(* ===== verification/C_Double.thy ===== *)
theory C_Double
  imports C_Numbers Complex_Main
begin

text \<open>
  The C type \<open>double\<close> as IEEE 754 binary64: a value is a finite rational, an infinity or a
  NaN, and every operation is the exact operation on rationals followed by one rounding to
  nearest, ties to even. Negative zero is identified with zero (no code modelled here divides by a
  zero or prints one where the sign would show). The decimal reader \<open>strtod\<close> and the printer
  \<open>%.<n>f\<close> are the correctly rounded ones of the C library.
\<close>

section \<open>Rounding\<close>

text \<open>Round half to even, the default rounding mode, on an exact rational.\<close>

definition round_half_even :: "rat \<Rightarrow> int" where
  "round_half_even q =
     (let f = \<lfloor>q\<rfloor>; d = q - of_int f in
      if d < 1 / 2 then f else if d > 1 / 2 then f + 1 else if even f then f else f + 1)"

text \<open>\<open>bit_length n\<close> is the number of binary digits of \<open>n\<close>.\<close>

fun bit_length :: "nat \<Rightarrow> nat" where
  "bit_length n = (if n = 0 then 0 else Suc (bit_length (n div 2)))"

declare bit_length.simps [simp del]

definition pow2 :: "int \<Rightarrow> rat" where
  "pow2 e = (if 0 \<le> e then 2 ^ nat e else 1 / 2 ^ nat (- e))"

text \<open>The exponent of the leading binary digit of a positive rational.\<close>

definition ilog2 :: "rat \<Rightarrow> int" where
  "ilog2 q =
     (let (n, d) = quotient_of q; e = int (bit_length (nat n)) - int (bit_length (nat d))
      in if pow2 e \<le> q then e else e - 1)"

datatype double = Fin rat | Inf bool \<comment> \<open>\<open>True\<close>: negative\<close> | NaN

text \<open>The least magnitude that overflows, \<open>2^1024\<close>.\<close>

definition double_limit :: rat where
  "double_limit = 2 ^ 1024"

definition double_round :: "rat \<Rightarrow> double" where
  "double_round q =
     (if q = 0 then Fin 0
      else let e = max (ilog2 \<bar>q\<bar> - 52) (- 1074);
               r = of_int (round_half_even (q / pow2 e)) * pow2 e
           in if \<bar>r\<bar> \<ge> double_limit then Inf (q < 0) else Fin r)"

text \<open>Conversion of an integer, and the arithmetic operators.\<close>

definition double_of_int :: "int \<Rightarrow> double" where
  "double_of_int i = double_round (of_int i)"

fun dneg :: "double \<Rightarrow> double" where
  "dneg (Fin a) = Fin (- a)"
| "dneg (Inf s) = Inf (\<not> s)"
| "dneg NaN = NaN"

fun dadd :: "double \<Rightarrow> double \<Rightarrow> double" where
  "dadd (Fin a) (Fin b) = double_round (a + b)"
| "dadd NaN _ = NaN"
| "dadd _ NaN = NaN"
| "dadd (Inf s) (Inf t) = (if s = t then Inf s else NaN)"
| "dadd (Inf s) (Fin _) = Inf s"
| "dadd (Fin _) (Inf s) = Inf s"

definition dsub :: "double \<Rightarrow> double \<Rightarrow> double" where
  "dsub x y = dadd x (dneg y)"

fun dmul :: "double \<Rightarrow> double \<Rightarrow> double" where
  "dmul (Fin a) (Fin b) = double_round (a * b)"
| "dmul NaN _ = NaN"
| "dmul _ NaN = NaN"
| "dmul (Inf s) (Inf t) = Inf (s \<noteq> t)"
| "dmul (Inf s) (Fin b) = (if b = 0 then NaN else Inf (s \<noteq> (b < 0)))"
| "dmul (Fin a) (Inf s) = (if a = 0 then NaN else Inf (s \<noteq> (a < 0)))"

fun ddiv :: "double \<Rightarrow> double \<Rightarrow> double" where
  "ddiv (Fin a) (Fin b) =
     (if b = 0 then (if a = 0 then NaN else Inf (a < 0)) else double_round (a / b))"
| "ddiv NaN _ = NaN"
| "ddiv _ NaN = NaN"
| "ddiv (Inf _) (Inf _) = NaN"
| "ddiv (Inf s) (Fin b) = Inf (s \<noteq> (b < 0))"
| "ddiv (Fin _) (Inf _) = Fin 0"

fun dabs :: "double \<Rightarrow> double" where
  "dabs (Fin a) = Fin \<bar>a\<bar>"
| "dabs (Inf _) = Inf False"
| "dabs NaN = NaN"

text \<open>Comparisons: every comparison with a NaN is false.\<close>

fun dlt :: "double \<Rightarrow> double \<Rightarrow> bool" where
  "dlt (Fin a) (Fin b) = (a < b)"
| "dlt (Inf s) (Inf t) = (s \<and> \<not> t)"
| "dlt (Inf s) (Fin _) = s"
| "dlt (Fin _) (Inf t) = (\<not> t)"
| "dlt _ _ = False"

fun dle :: "double \<Rightarrow> double \<Rightarrow> bool" where
  "dle (Fin a) (Fin b) = (a \<le> b)"
| "dle (Inf s) (Inf t) = (s \<or> \<not> t)"
| "dle (Inf s) (Fin _) = s"
| "dle (Fin _) (Inf t) = (\<not> t)"
| "dle _ _ = False"

definition is_nan :: "double \<Rightarrow> bool" where
  "is_nan x \<longleftrightarrow> x = NaN"

definition is_inf :: "double \<Rightarrow> bool" where
  "is_inf x \<longleftrightarrow> (\<exists>s \<in> {True, False}. x = Inf s)"

section \<open>Facts about rounding\<close>

lemma bit_length_bounds: "0 < n \<Longrightarrow> 2 ^ (bit_length n - 1) \<le> n \<and> n < 2 ^ bit_length n"
proof (induction n rule: bit_length.induct)
  case (1 n)
  show ?case
  proof (cases "n = 1")
    case True
    have "bit_length 0 = 0" by (simp add: bit_length.simps)
    then have "bit_length (Suc 0) = 1" by (simp add: bit_length.simps [of "Suc 0"])
    with True show ?thesis by simp
  next
    case False
    with "1.prems" have two: "0 < n div 2" by auto
    define k where "k = bit_length (n div 2)"
    have ih: "2 ^ (k - 1) \<le> n div 2" "n div 2 < 2 ^ k"
      using "1.IH" "1.prems" two by (auto simp: k_def)
    have k0: "0 < k" using ih(2) two by (cases k) auto
    have bl: "bit_length n = Suc k"
      using "1.prems" by (simp add: k_def bit_length.simps [of n])
    have "2 ^ k \<le> n"
    proof -
      have "(2::nat) ^ k = 2 * 2 ^ (k - 1)" using k0 by (cases k) auto
      with ih(1) show ?thesis by linarith
    qed
    moreover have "n < 2 ^ Suc k" using ih(2) by simp
    ultimately show ?thesis by (simp add: bl)
  qed
qed

lemma bit_length_le: "0 < n \<Longrightarrow> n < 2 ^ k \<Longrightarrow> bit_length n \<le> k"
proof -
  assume "0 < n" "n < 2 ^ k"
  then have "(2::nat) ^ (bit_length n - 1) < 2 ^ k"
    using bit_length_bounds le_less_trans by blast
  then have "bit_length n - 1 < k" by simp
  then show ?thesis by simp
qed

lemma pow2_pos [simp]: "0 < pow2 e"
  by (simp add: pow2_def)

lemma round_half_even_int [simp]: "round_half_even (of_int i) = i"
  by (simp add: round_half_even_def)

text \<open>An integer of at most 53 binary digits is represented exactly.\<close>

lemma double_of_int_exact:
  assumes "\<bar>i\<bar> < 2 ^ 53"
  shows "double_of_int i = Fin (of_int i)"
proof (cases "i = 0")
  case True
  then show ?thesis by (simp add: double_of_int_def double_round_def)
next
  case False
  let ?q = "of_int i :: rat"
  have quo: "quotient_of \<bar>?q\<bar> = (\<bar>i\<bar>, 1)"
    unfolding of_int_abs [symmetric] by (rule quotient_of_int [unfolded Rat.of_int_def])
  have "bit_length (nat \<bar>i\<bar>) \<le> 53"
    using bit_length_le [of "nat \<bar>i\<bar>" 53] assms False by simp
  moreover have "bit_length (nat 1) = 1"
  proof -
    have "bit_length 0 = 0" by (simp add: bit_length.simps)
    then show ?thesis by (simp add: bit_length.simps [of "Suc 0"])
  qed
  ultimately have il: "ilog2 \<bar>?q\<bar> \<le> 52"
    unfolding ilog2_def quo by (auto simp: Let_def)
  define e where "e = max (ilog2 \<bar>?q\<bar> - 52) (- 1074)"
  have e0: "e \<le> 0" using il by (simp add: e_def)
  have div_eq: "?q / pow2 e = of_int (i * 2 ^ nat (- e))"
    using e0 by (auto simp: pow2_def)
  have r: "of_int (round_half_even (?q / pow2 e)) * pow2 e = ?q"
    unfolding div_eq round_half_even_int using e0 by (auto simp: pow2_def)
  have "\<bar>?q\<bar> < 2 ^ 53"
    unfolding of_int_abs [symmetric] using assms
    by (metis of_int_less_iff of_int_numeral of_int_power)
  also have "(2::rat) ^ 53 \<le> double_limit"
    unfolding double_limit_def by (rule power_increasing) simp_all
  finally have small: "\<not> \<bar>?q\<bar> \<ge> double_limit" by simp
  have nz: "?q \<noteq> 0" using False by simp
  have "double_round ?q = (if \<bar>?q\<bar> \<ge> double_limit then Inf (?q < 0) else Fin ?q)"
    unfolding double_round_def Let_def e_def [symmetric] r using nz by simp
  with small show ?thesis by (simp add: double_of_int_def)
qed

lemma double_round_0 [simp]: "double_round 0 = Fin 0"
  by (simp add: double_round_def)

lemma dsub_self: "dsub x x = Fin 0 \<or> dsub x x = NaN"
  by (cases x) (simp_all add: dsub_def)

lemma dlt_irrefl [simp]: "\<not> dlt x x"
  by (cases x) simp_all

lemma dlt_imp_dle: "dlt x y \<Longrightarrow> dle x y"
  by (cases x; cases y) auto

lemma dlt_trans: "dlt x y \<Longrightarrow> dlt y z \<Longrightarrow> dlt x z"
  by (cases x; cases y; cases z) auto

lemma dle_trans: "dle x y \<Longrightarrow> dle y z \<Longrightarrow> dle x z"
  by (cases x; cases y; cases z) auto

lemma not_dlt_dle: "\<not> is_nan x \<Longrightarrow> \<not> is_nan y \<Longrightarrow> \<not> dlt x y \<longleftrightarrow> dle y x"
  by (cases x; cases y) (auto simp: is_nan_def)

lemma is_inf_simps [simp]: "is_inf (Fin q) = False" "is_inf (Inf s) = True" "is_inf NaN = False"
  by (auto simp: is_inf_def)

lemma is_nan_simps [simp]: "is_nan (Fin q) = False" "is_nan (Inf s) = False" "is_nan NaN = True"
  by (simp_all add: is_nan_def)

section \<open>Reading: strtod\<close>

text \<open>
  The decimal form of \<open>strtod\<close>: digits with an optional point, at least one digit, and an
  exponent that counts only when digits follow it. \<open>scan_decimal\<close> returns the exact value.
\<close>

definition pow10 :: "int \<Rightarrow> rat" where
  "pow10 e = (if 0 \<le> e then 10 ^ nat e else 1 / 10 ^ nat (- e))"

text \<open>The exponent part after the letter: an optional sign and at least one digit.\<close>

definition scan_exponent :: "string \<Rightarrow> (int \<times> string) option" where
  "scan_exponent s =
     (let (neg, t) = take_sign s; (ds, r) = span_digits 10 t
      in if ds = [] then None
         else Some (if neg then - int (digits_value 10 ds) else int (digits_value 10 ds), r))"

definition scan_mantissa :: "nat \<Rightarrow> string \<Rightarrow> (nat \<times> nat \<times> string) option" where
  \<comment> \<open>the digits read as one integer, the number of digits after the point, the rest\<close>
  "scan_mantissa b s =
     (let (ip, r) = span_digits b s;
          (fp, r') = (case r of c # t \<Rightarrow> if c = CHR ''.'' then span_digits b t else ([], r)
                              | [] \<Rightarrow> ([], r));
          r'' = (if ip = [] \<and> fp = [] then r else r')
      in if ip = [] \<and> fp = [] then None
         else Some (digits_value b (ip @ fp), length fp, r''))"

definition scan_decimal :: "string \<Rightarrow> (rat \<times> string) option" where
  "scan_decimal s =
     (case scan_mantissa 10 s of
        None \<Rightarrow> None
      | Some (m, f, r) \<Rightarrow>
          (case r of
             c # t \<Rightarrow>
               if c = CHR ''e'' \<or> c = CHR ''E'' then
                 (case scan_exponent t of
                    None \<Rightarrow> Some (of_nat m * pow10 (- int f), r)
                  | Some (e, r') \<Rightarrow> Some (of_nat m * pow10 (e - int f), r'))
               else Some (of_nat m * pow10 (- int f), r)
           | [] \<Rightarrow> Some (of_nat m * pow10 (- int f), r)))"

text \<open>The hexadecimal form after its \<open>0x\<close>: the exponent is a power of two after \<open>p\<close>.\<close>

definition scan_hexadecimal :: "string \<Rightarrow> (rat \<times> string) option" where
  "scan_hexadecimal s =
     (case scan_mantissa 16 s of
        None \<Rightarrow> None
      | Some (m, f, r) \<Rightarrow>
          (case r of
             c # t \<Rightarrow>
               if c = CHR ''p'' \<or> c = CHR ''P'' then
                 (case scan_exponent t of
                    None \<Rightarrow> Some (of_nat m * pow2 (- 4 * int f), r)
                  | Some (e, r') \<Rightarrow> Some (of_nat m * pow2 (e - 4 * int f), r'))
               else Some (of_nat m * pow2 (- 4 * int f), r)
           | [] \<Rightarrow> Some (of_nat m * pow2 (- 4 * int f), r)))"

definition lower :: "char \<Rightarrow> char" where
  "lower c = (if 65 \<le> char_code c \<and> char_code c \<le> 90 then char_of (char_code c + 32) else c)"

definition starts_with_ci :: "string \<Rightarrow> string \<Rightarrow> bool" where
  "starts_with_ci p s \<longleftrightarrow> starts_with p (map lower s)"

text \<open>After \<open>nan\<close> an optional \<open>(chars)\<close> of letters, digits and underscores is consumed.\<close>

definition nan_tail :: "string \<Rightarrow> string" where
  "nan_tail s =
     (let word = (\<lambda>c. is_digit c \<or> (97 \<le> char_code (lower c) \<and> char_code (lower c) \<le> 122)
                      \<or> c = CHR ''_'')
      in case s of
           c # t \<Rightarrow>
             if c = CHR ''('' then
               (case dropWhile word t of d # r \<Rightarrow> if d = CHR '')'' then r else s | [] \<Rightarrow> s)
             else s
         | [] \<Rightarrow> s)"

definition strtod_abs :: "string \<Rightarrow> (double \<times> string) option" where
  \<comment> \<open>the part of \<open>strtod\<close> after white space and sign\<close>
  "strtod_abs s =
     (if starts_with_ci ''infinity'' s then Some (Inf False, drop 8 s)
      else if starts_with_ci ''inf'' s then Some (Inf False, drop 3 s)
      else if starts_with_ci ''nan'' s then Some (NaN, nan_tail (drop 3 s))
      else if starts_with_ci ''0x'' s \<and> scan_hexadecimal (drop 2 s) \<noteq> None
        then map_option (\<lambda>(q, r). (double_round q, r)) (scan_hexadecimal (drop 2 s))
      else map_option (\<lambda>(q, r). (double_round q, r)) (scan_decimal s))"

text \<open>\<open>None\<close> is "no conversion": \<open>endptr == nptr\<close>.\<close>

definition strtod :: "string \<Rightarrow> (double \<times> string) option" where
  "strtod s =
     (let (neg, t) = take_sign (skip_spaces s)
      in map_option (\<lambda>(d, r). (if neg then dneg d else d, r)) (strtod_abs t))"

section \<open>Printing: \<open>%.<n>f\<close>\<close>

definition fmt_fixed :: "nat \<Rightarrow> double \<Rightarrow> string" where
  "fmt_fixed p x =
     (case x of
        NaN \<Rightarrow> ''nan''
      | Inf s \<Rightarrow> (if s then ''-inf'' else ''inf'')
      | Fin q \<Rightarrow>
          (let n = nat (round_half_even (\<bar>q\<bar> * 10 ^ p));
               ip = dec (n div 10 ^ p);
               fp = pad_left (CHR ''0'') p (dec (n mod 10 ^ p))
           in (if q < 0 then ''-'' else '''') @ ip @ (if p = 0 then '''' else CHR ''.'' # fp)))"

definition fmt_fixed_w :: "nat \<Rightarrow> nat \<Rightarrow> double \<Rightarrow> string" where
  \<comment> \<open>\<open>%<w>.<p>f\<close>\<close>
  "fmt_fixed_w w p x = pad_left (CHR '' '') w (fmt_fixed p x)"

section \<open>Reading back what was printed\<close>

text \<open>An unsigned integer printed in decimal is read by \<open>strtod\<close> as that integer.\<close>

definition number_end :: "string \<Rightarrow> bool" where
  \<comment> \<open>what follows a printed number in the sources: nothing that continues it\<close>
  "number_end s \<longleftrightarrow>
     (case s of [] \<Rightarrow> True
      | c # _ \<Rightarrow> \<not> is_digit c \<and> c \<noteq> CHR ''.'' \<and> lower c \<noteq> CHR ''e'' \<and> lower c \<noteq> CHR ''x'')"

lemma starts_with_ci_digit:
  "is_digit c \<Longrightarrow> p \<noteq> [] \<Longrightarrow> \<not> is_digit (hd p) \<Longrightarrow> \<not> starts_with_ci p (c # s)"
  by (cases p) (auto simp: starts_with_ci_def lower_def is_digit_def)

lemma lower_e: "c = CHR ''e'' \<or> c = CHR ''E'' \<Longrightarrow> lower c = CHR ''e''"
  by (subst char_code_inject [symmetric]) (auto simp: lower_def char_code_def)

lemma scan_decimal_dec:
  assumes "number_end s"
  shows "scan_decimal (dec n @ s) = Some (of_nat n, s)"
proof -
  have nd: "s = [] \<or> \<not> digit_in 10 (hd s)"
    using assms by (cases s) (auto simp: number_end_def)
  have sp: "span_digits 10 (dec n @ s) = (dec n, s)"
    using span_digits_append [of 10 s n] nd by (simp add: dec_def)
  have val: "digits_value 10 (dec n) = n"
    using digits_value_digits_in [of 10 n] by (simp add: dec_def)
  have mant: "scan_mantissa 10 (dec n @ s) = Some (n, 0, s)"
    using assms unfolding scan_mantissa_def sp
    by (cases s) (auto simp: val number_end_def)
  show ?thesis
  proof (cases s)
    case Nil
    then show ?thesis using mant by (simp add: scan_decimal_def pow10_def)
  next
    case (Cons c t)
    then have "\<not> (c = CHR ''e'' \<or> c = CHR ''E'')"
      using assms lower_e by (auto simp: number_end_def)
    with Cons mant show ?thesis by (simp add: scan_decimal_def pow10_def)
  qed
qed

lemma dec_starts_with_0:
  assumes "dec n = CHR ''0'' # t"
  shows "t = []"
proof (rule ccontr)
  assume t: "t \<noteq> []"
  have *: "digits_in 10 m = CHR ''0'' # u \<Longrightarrow> u \<noteq> [] \<Longrightarrow> False" for m u
  proof (induction m arbitrary: u rule: less_induct)
    case (less m)
    show ?case
    proof (cases "m < 10")
      case True
      with less.prems show ?thesis by (simp add: digits_in.simps [of 10 m])
    next
      case False
      then have eq: "digits_in 10 m = digits_in 10 (m div 10) @ [digit_char (m mod 10)]"
        by (simp add: digits_in.simps [of 10 m])
      obtain c v where d: "digits_in 10 (m div 10) = c # v"
        using digits_in_nonempty by (cases "digits_in 10 (m div 10)") auto
      with eq less.prems have c: "c = CHR ''0''" by simp
      show ?thesis
      proof (cases "v = []")
        case False
        with d c less.IH [of "m div 10" v] \<open>\<not> m < 10\<close> show ?thesis by simp
      next
        case True
        have "digits_value 10 (digits_in 10 (m div 10)) = m div 10"
          by (rule digits_value_digits_in) simp_all
        then have "m div 10 = 0"
          by (simp add: d c True hex_value_def char_code_def)
        with False show ?thesis by simp
      qed
    qed
  qed
  from * [of n t] assms t show False by (simp add: dec_def)
qed

lemma strtod_dec:
  assumes "number_end s"
  shows "strtod (dec n @ s) = Some (double_of_int (int n), s)"
proof -
  obtain c t where d: "dec n = c # t" and c: "is_digit c"
    using dec_hd by blast
  have no0x: "\<not> starts_with_ci ''0x'' (dec n @ s)"
  proof
    assume a: "starts_with_ci ''0x'' (dec n @ s)"
    have low: "lower c = c" using c by (auto simp: lower_def is_digit_def)
    from a low have c0: "c = CHR ''0''" by (simp add: starts_with_ci_def d)
    with d have "t = []" using dec_starts_with_0 by simp
    with a assms show False
      by (cases s) (auto simp: starts_with_ci_def d number_end_def)
  qed
  have letters: "\<not> starts_with_ci p (dec n @ s)"
    if "p \<noteq> []" "\<not> is_digit (hd p)" for p
    using starts_with_ci_digit [OF c that] by (simp add: d)
  have cls: "\<not> is_digit (CHR ''i'')" "\<not> is_digit (CHR ''n'')"
    by (simp_all add: is_digit_def char_code_def)
  have abs: "strtod_abs (dec n @ s) = Some (double_of_int (int n), s)"
    using no0x letters [of "''infinity''"] letters [of "''inf''"] letters [of "''nan''"] cls
    by (simp add: strtod_abs_def scan_decimal_dec [OF assms] double_of_int_def)
  have sk: "skip_spaces (dec n @ s) = dec n @ s" and sg: "take_sign (dec n @ s) = (False, dec n @ s)"
    using c by (simp_all add: d)
  show ?thesis by (simp add: strtod_def sk sg abs)
qed

end
