(* ===== verification/Json_Reader.thy ===== *)
theory Json_Reader
  imports Json_Writer C_Double
begin

text \<open>
  The JSON reader of \<open>src/json_reader.c\<close>: the recursive-descent parser behind
  \<open>json_parse\<close> and the accessors the other tools read documents with.

  A \<open>struct parser\<close> is the text still to read (the pointer \<open>p\<close>) and the line counter. An
  error is a value: every path of the C code that returns null has called \<open>set_error\<close> exactly
  once, so the sum carries that first error. The recursion of the C code is bounded here by a
  fuel argument; \<open>None\<close> is running out of it, and \<open>json_parse_total\<close> shows that the fuel
  \<open>json_parse\<close> starts with is always enough. Reading past the terminator gives the zero character
  (\<open>peek\<close>).
\<close>

section \<open>The data\<close>

datatype json_value =
    JSON_NULL
  | JSON_BOOL bool
  | JSON_NUMBER double
  | JSON_STRING string
  | JSON_ARRAY "json_value list"
  | JSON_OBJECT "(string \<times> json_value) list"

record parser =
  ps_p :: string
  ps_line :: nat

datatype json_error =
    ExpectedQuote nat
  | InvalidUEscape nat
  | InvalidEscape nat char
  | UnterminatedString nat
  | InvalidNumber nat
  | UnexpectedChar nat char
  | ExpectedInArray nat
  | ExpectedColon nat
  | ExpectedInObject nat
  | UnexpectedEnd nat
  | TrailingData nat

text \<open>The text \<open>set_error\<close> writes into the caller's buffer (before truncation to its size).\<close>

definition json_error_text :: "json_error \<Rightarrow> string" where
  "json_error_text e =
     (let msg = (\<lambda>n m. ''line '' @ dec n @ '': '' @ m) in
      case e of
        ExpectedQuote n \<Rightarrow> msg n (''expected '' @ [CHR 0x27, QUOTE, CHR 0x27])
      | InvalidUEscape n \<Rightarrow> msg n (''invalid '' @ BACKSLASH # ''u escape'')
      | InvalidEscape n c \<Rightarrow> msg n (''invalid escape '' @ [CHR 0x27, BACKSLASH, c, CHR 0x27])
      | UnterminatedString n \<Rightarrow> msg n ''unterminated string''
      | InvalidNumber n \<Rightarrow> msg n ''invalid number''
      | UnexpectedChar n c \<Rightarrow> msg n (''unexpected character '' @ [CHR 0x27, c, CHR 0x27])
      | ExpectedInArray n \<Rightarrow>
          msg n (''expected '' @ [CHR 0x27, CHR '','', CHR 0x27] @ '' or ''
                @ [CHR 0x27, CHR '']'', CHR 0x27] @ '' in array'')
      | ExpectedColon n \<Rightarrow> msg n (''expected '' @ [CHR 0x27, CHR '':'', CHR 0x27] @ '' after object key'')
      | ExpectedInObject n \<Rightarrow>
          msg n (''expected '' @ [CHR 0x27, CHR '','', CHR 0x27] @ '' or ''
                @ [CHR 0x27, CHR ''}'', CHR 0x27] @ '' in object'')
      | UnexpectedEnd n \<Rightarrow> msg n ''unexpected end of input''
      | TrailingData n \<Rightarrow> msg n ''trailing data after JSON value'')"

type_synonym 'a presult = "json_error + ('a \<times> parser)"

section \<open>The parser\<close>

fun skip_ws_text :: "string \<Rightarrow> nat \<Rightarrow> string \<times> nat" where
  "skip_ws_text [] lno = ([], lno)"
| "skip_ws_text (c # s) lno =
     (if c = NUL then (c # s, lno)
      else if c = LF then skip_ws_text s (lno + 1)
      else if is_space c then skip_ws_text s lno
      else (c # s, lno))"

definition skip_ws :: "parser \<Rightarrow> parser" where
  "skip_ws ps = (case skip_ws_text (ps_p ps) (ps_line ps) of (s, lno) \<Rightarrow> \<lparr>ps_p = s, ps_line = lno\<rparr>)"

text \<open>The bytes stored for one code unit of a \<open>\u\<close> escape.\<close>

definition utf8_bytes :: "nat \<Rightarrow> string" where
  "utf8_bytes cp =
     (if cp < 0x80 then [char_of cp]
      else if cp < 0x800 then [char_of (0xc0 + cp div 64), char_of (0x80 + cp mod 64)]
      else [char_of (0xe0 + cp div 4096), char_of (0x80 + cp div 64 mod 64), char_of (0x80 + cp mod 64)])"

definition simple_escape :: "char \<Rightarrow> char option" where
  "simple_escape e =
     (if e = QUOTE then Some QUOTE
      else if e = BACKSLASH then Some BACKSLASH
      else if e = CHR ''/'' then Some (CHR ''/'')
      else if e = CHR ''b'' then Some (CHR 0x08)
      else if e = CHR ''f'' then Some (CHR 0x0C)
      else if e = CHR ''n'' then Some LF
      else if e = CHR ''r'' then Some CR
      else if e = CHR ''t'' then Some TAB
      else None)"

text \<open>
  The four hexadecimal digits of a \<open>\u\<close> escape: \<open>None\<close> when one of them is no digit, which a
  terminator among them is not.
\<close>

definition u_escape :: "string \<Rightarrow> (nat \<times> string) option" where
  "u_escape t =
     (case t of
        h0 # h1 # h2 # h3 # u \<Rightarrow>
          (case (hex_value h0, hex_value h1, hex_value h2, hex_value h3) of
             (Some d0, Some d1, Some d2, Some d3) \<Rightarrow>
               Some (d0 * 4096 + d1 * 256 + d2 * 16 + d3, u)
           | _ \<Rightarrow> None)
      | _ \<Rightarrow> None)"

lemma u_escape_SomeE:
  assumes "u_escape t = Some (cp, u)"
  obtains h0 h1 h2 h3 d0 d1 d2 d3 where "t = h0 # h1 # h2 # h3 # u"
    and "hex_value h0 = Some d0" and "hex_value h1 = Some d1" and "hex_value h2 = Some d2"
    and "hex_value h3 = Some d3" and "cp = d0 * 4096 + d1 * 256 + d2 * 16 + d3"
  using assms by (auto simp: u_escape_def split: list.splits option.splits)

lemma u_escape_length: "u_escape t = Some (cp, u) \<Longrightarrow> length u < length t"
  by (erule u_escape_SomeE) simp

text \<open>
  The counting loop that sizes the output buffer (\<open>malloc(cap * 4 + 1)\<close>), and the copying loop:
  the first component of its result is what it has stored in that buffer (in reverse), on every
  way out of the loop.
\<close>

fun string_cap :: "string \<Rightarrow> nat" where
  "string_cap [] = 0"
| "string_cap (c # s) =
     (if c = NUL \<or> c = QUOTE then 0
      else if c = BACKSLASH then
        (case s of [] \<Rightarrow> 1 | d # t \<Rightarrow> if d = NUL then Suc (string_cap s) else Suc (string_cap t))
      else Suc (string_cap s))"

function string_body :: "string \<Rightarrow> string \<Rightarrow> nat \<Rightarrow> string \<times> (json_error + (string \<times> nat))" where
  "string_body out [] lno = (out, Inl (UnterminatedString lno))"
| "string_body out (c # s) lno =
     (if c = NUL then (out, Inl (UnterminatedString lno))
      else if c = QUOTE then (out, Inr (s, lno))
      else if c = BACKSLASH then
        (case s of
           [] \<Rightarrow> (out, Inl (InvalidEscape lno NUL))
         | e # t \<Rightarrow>
             (case simple_escape e of
                Some d \<Rightarrow> string_body (d # out) t lno
              | None \<Rightarrow>
                  if e = CHR ''u'' then
                    (case u_escape t of
                       Some (cp, u) \<Rightarrow> string_body (rev (utf8_bytes cp) @ out) u lno
                     | None \<Rightarrow> (out, Inl (InvalidUEscape lno)))
                  else (out, Inl (InvalidEscape lno e))))
      else string_body (c # out) s (if c = LF then lno + 1 else lno))"
  by pat_completeness auto
termination
  by (relation "measure (\<lambda>(out, s, lno). length s)") (auto dest: u_escape_length)

declare string_body.simps [simp del]

text \<open>
  The returned buffer is zero terminated: the string it denotes ends at the first zero byte, which
  a \<open>\u0000\<close> escape stores.
\<close>

definition parse_string_raw :: "parser \<Rightarrow> string presult" where
  "parse_string_raw ps =
     (case ps_p ps of
        c # s \<Rightarrow>
          if c = QUOTE then
            (case string_body [] s (ps_line ps) of
               (out, Inl e) \<Rightarrow> Inl e
             | (out, Inr (r, lno)) \<Rightarrow> Inr (cstr (rev out), \<lparr>ps_p = r, ps_line = lno\<rparr>))
          else Inl (ExpectedQuote (ps_line ps))
      | [] \<Rightarrow> Inl (ExpectedQuote (ps_line ps)))"

definition parse_string :: "parser \<Rightarrow> json_value presult" where
  "parse_string ps =
     (case parse_string_raw ps of
        Inl e \<Rightarrow> Inl e
      | Inr (s, ps') \<Rightarrow> Inr (JSON_STRING s, ps'))"

definition parse_number :: "parser \<Rightarrow> json_value presult" where
  "parse_number ps =
     (let s = ps_p ps; t = (if peek s = CHR ''-'' then tl s else s) in
      if \<not> is_digit (peek t) then Inl (InvalidNumber (ps_line ps))
      else (case strtod s of
              None \<Rightarrow> Inl (InvalidNumber (ps_line ps))
            | Some (n, r) \<Rightarrow> Inr (JSON_NUMBER n, ps\<lparr>ps_p := r\<rparr>)))"

definition parse_literal :: "parser \<Rightarrow> json_value presult" where
  "parse_literal ps =
     (let s = ps_p ps in
      if starts_with ''true'' s then Inr (JSON_BOOL True, ps\<lparr>ps_p := drop 4 s\<rparr>)
      else if starts_with ''false'' s then Inr (JSON_BOOL False, ps\<lparr>ps_p := drop 5 s\<rparr>)
      else if starts_with ''null'' s then Inr (JSON_NULL, ps\<lparr>ps_p := drop 4 s\<rparr>)
      else Inl (UnexpectedChar (ps_line ps) (peek s)))"

definition advance :: "parser \<Rightarrow> parser" where
  "advance ps = ps\<lparr>ps_p := tl (ps_p ps)\<rparr>"

text \<open>
  \<open>parse_items\<close> and \<open>parse_members\<close> are the \<open>for (;;)\<close> loops of \<open>parse_array\<close> and
  \<open>parse_object\<close>; the items read so far are kept in reverse.
\<close>

fun parse_value :: "nat \<Rightarrow> parser \<Rightarrow> json_value presult option"
  and parse_items :: "nat \<Rightarrow> json_value list \<Rightarrow> parser \<Rightarrow> json_value presult option"
  and parse_members ::
    "nat \<Rightarrow> (string \<times> json_value) list \<Rightarrow> parser \<Rightarrow> json_value presult option"
where
  "parse_value 0 ps = None"
| "parse_value (Suc fuel) ps0 =
     (let ps = skip_ws ps0; c = peek (ps_p ps) in
      if c = CHR ''{'' then
        (let ps1 = skip_ws (advance ps) in
         if peek (ps_p ps1) = CHR ''}'' then Some (Inr (JSON_OBJECT [], advance ps1))
         else parse_members fuel [] ps1)
      else if c = CHR ''['' then
        (let ps1 = skip_ws (advance ps) in
         if peek (ps_p ps1) = CHR '']'' then Some (Inr (JSON_ARRAY [], advance ps1))
         else parse_items fuel [] ps1)
      else if c = QUOTE then Some (parse_string ps)
      else if c = CHR ''t'' \<or> c = CHR ''f'' \<or> c = CHR ''n'' then Some (parse_literal ps)
      else if c = NUL then Some (Inl (UnexpectedEnd (ps_line ps)))
      else if c = CHR ''-'' \<or> is_digit c then Some (parse_number ps)
      else Some (Inl (UnexpectedChar (ps_line ps) c)))"
| "parse_items 0 acc ps = None"
| "parse_items (Suc fuel) acc ps =
     (case parse_value fuel (skip_ws ps) of
        None \<Rightarrow> None
      | Some (Inl e) \<Rightarrow> Some (Inl e)
      | Some (Inr (item, ps1)) \<Rightarrow>
          (let ps2 = skip_ws ps1; c = peek (ps_p ps2) in
           if c = CHR '','' then parse_items fuel (item # acc) (advance ps2)
           else if c = CHR '']'' then Some (Inr (JSON_ARRAY (rev (item # acc)), advance ps2))
           else Some (Inl (ExpectedInArray (ps_line ps2)))))"
| "parse_members 0 acc ps = None"
| "parse_members (Suc fuel) acc ps =
     (case parse_string_raw (skip_ws ps) of
        Inl e \<Rightarrow> Some (Inl e)
      | Inr (key, ps1) \<Rightarrow>
          (let ps2 = skip_ws ps1 in
           if peek (ps_p ps2) \<noteq> CHR '':'' then Some (Inl (ExpectedColon (ps_line ps2)))
           else
             (case parse_value fuel (skip_ws (advance ps2)) of
                None \<Rightarrow> None
              | Some (Inl e) \<Rightarrow> Some (Inl e)
              | Some (Inr (val, ps3)) \<Rightarrow>
                  (let ps4 = skip_ws ps3; c = peek (ps_p ps4) in
                   if c = CHR '','' then parse_members fuel ((key, val) # acc) (advance ps4)
                   else if c = CHR ''}'' then
                     Some (Inr (JSON_OBJECT (rev ((key, val) # acc)), advance ps4))
                   else Some (Inl (ExpectedInObject (ps_line ps4)))))))"

declare parse_value.simps [simp del] parse_items.simps [simp del] parse_members.simps [simp del]

definition json_fuel :: "string \<Rightarrow> nat" where
  "json_fuel s = 2 * length s + 2"

definition json_parse_fuel :: "nat \<Rightarrow> string \<Rightarrow> (json_error + json_value) option" where
  "json_parse_fuel fuel text =
     (case parse_value fuel \<lparr>ps_p = text, ps_line = 1\<rparr> of
        None \<Rightarrow> None
      | Some (Inl e) \<Rightarrow> Some (Inl e)
      | Some (Inr (v, ps)) \<Rightarrow>
          (let ps' = skip_ws ps in
           if peek (ps_p ps') \<noteq> NUL then Some (Inl (TrailingData (ps_line ps')))
           else Some (Inr v)))"

text \<open>\<open>json_parse\<close> on the zero-terminated text a buffer holds.\<close>

definition json_parse :: "string \<Rightarrow> (json_error + json_value) option" where
  "json_parse buf = json_parse_fuel (json_fuel (cstr buf)) (cstr buf)"

section \<open>The accessors\<close>

text \<open>\<open>None\<close> is the null pointer, as argument and as result.\<close>

fun find_key :: "(string \<times> json_value) list \<Rightarrow> string \<Rightarrow> json_value option" where
  "find_key [] key = None"
| "find_key ((k, v) # kvs) key = (if k = key then Some v else find_key kvs key)"

definition json_object_get :: "json_value option \<Rightarrow> string \<Rightarrow> json_value option" where
  "json_object_get obj key =
     (case obj of Some (JSON_OBJECT kvs) \<Rightarrow> find_key kvs key | _ \<Rightarrow> None)"

definition json_array_get :: "json_value option \<Rightarrow> nat \<Rightarrow> json_value option" where
  "json_array_get arr i =
     (case arr of Some (JSON_ARRAY xs) \<Rightarrow> (if i \<ge> length xs then None else Some (xs ! i)) | _ \<Rightarrow> None)"

definition json_array_len :: "json_value option \<Rightarrow> nat" where
  "json_array_len arr = (case arr of Some (JSON_ARRAY xs) \<Rightarrow> length xs | _ \<Rightarrow> 0)"

definition json_get_string :: "json_value option \<Rightarrow> string \<Rightarrow> string option \<Rightarrow> string option" where
  "json_get_string obj key default_value =
     (case json_object_get obj key of Some (JSON_STRING s) \<Rightarrow> Some s | _ \<Rightarrow> default_value)"

definition json_get_number :: "json_value option \<Rightarrow> string \<Rightarrow> double \<Rightarrow> double" where
  "json_get_number obj key default_value =
     (case json_object_get obj key of Some (JSON_NUMBER n) \<Rightarrow> n | _ \<Rightarrow> default_value)"

definition json_get_bool :: "json_value option \<Rightarrow> string \<Rightarrow> bool \<Rightarrow> bool" where
  "json_get_bool obj key default_value =
     (case json_object_get obj key of Some (JSON_BOOL b) \<Rightarrow> b | _ \<Rightarrow> default_value)"

text \<open>A file's outcome before parsing: \<open>json_parse_file\<close> reports each failure as its own message.\<close>

datatype file_read = OpenFailed string | SizeUnknown | ShortRead | Contents string

definition json_parse_file :: "file_read \<Rightarrow> (string + json_value) option" where
  "json_parse_file f =
     (case f of
        OpenFailed reason \<Rightarrow> Some (Inl (''unable to open file: '' @ reason))
      | SizeUnknown \<Rightarrow> Some (Inl ''unable to determine file size'')
      | ShortRead \<Rightarrow> Some (Inl ''short read while loading file'')
      | Contents buf \<Rightarrow>
          map_option (\<lambda>r. case r of Inl e \<Rightarrow> Inl (json_error_text e) | Inr v \<Rightarrow> Inr v) (json_parse buf))"

end
