(* ===== verification/Json_Facts.thy ===== *)
theory Json_Facts
  imports Json_Reader
begin

text \<open>
  Facts about the JSON reader and writer: every successful parse consumes input, the fuel of
  \<open>json_parse\<close> is enough, the string buffer is large enough, and what the writers of wspy produce
  is read back.
\<close>

section \<open>Progress\<close>

abbreviation ps_len :: "parser \<Rightarrow> nat" where
  "ps_len ps \<equiv> length (ps_p ps)"

lemma skip_ws_text_length: "skip_ws_text s n = (t, m) \<Longrightarrow> length t \<le> length s"
  by (induction s n arbitrary: t m rule: skip_ws_text.induct) (fastforce split: if_splits)+

lemma skip_ws_len [simp]: "ps_len (skip_ws ps) \<le> ps_len ps"
  using skip_ws_text_length by (auto simp: skip_ws_def split: prod.splits)

lemma advance_len: "peek (ps_p ps) \<noteq> NUL \<Longrightarrow> ps_len (advance ps) < ps_len ps"
  by (cases "ps_p ps") (simp_all add: advance_def)

lemma string_body_length:
  "string_body out s n = (out', Inr (r, m)) \<Longrightarrow> length r < length s"
proof (induction out s n arbitrary: out' r m rule: string_body.induct)
  case (1 out n)
  then show ?case by (simp add: string_body.simps)
next
  case (2 out c s n)
  from "2.prems" consider (quote) "r = s"
    | (esc) e t d where "c = BACKSLASH" "s = e # t" "simple_escape e = Some d"
        "string_body (d # out) t n = (out', Inr (r, m))"
    | (u) t cp v where "c = BACKSLASH" "s = CHR ''u'' # t" "simple_escape (CHR ''u'') = None"
        "u_escape t = Some (cp, v)"
        "string_body (rev (utf8_bytes cp) @ out) v n = (out', Inr (r, m))"
    | (plain) "c \<noteq> NUL" "c \<noteq> QUOTE" "c \<noteq> BACKSLASH"
        "string_body (c # out) s (if c = LF then n + 1 else n) = (out', Inr (r, m))"
    by (auto simp: string_body.simps split: if_splits list.splits option.splits)
  then show ?case
  proof cases
    case esc
    from "2.IH"(2) [OF _ _ esc(1) esc(2) esc(3) esc(4)] esc show ?thesis by simp
  next
    case u
    from "2.IH"(1) [OF _ _ u(1) u(2) u(3) refl u(4) refl u(5)] u u_escape_length [OF u(4)]
    show ?thesis by simp
  next
    case plain
    from "2.IH"(3) [OF plain(1-3) plain(4)] show ?thesis by simp
  qed simp
qed

lemma parse_string_raw_len: "parse_string_raw ps = Inr (s, ps') \<Longrightarrow> ps_len ps' < ps_len ps"
  using string_body_length
  by (fastforce simp: parse_string_raw_def split: list.splits if_splits prod.splits sum.splits)

lemma parse_string_len: "parse_string ps = Inr (v, ps') \<Longrightarrow> ps_len ps' < ps_len ps"
  using parse_string_raw_len by (auto simp: parse_string_def split: sum.splits prod.splits)

lemma parse_literal_len: "parse_literal ps = Inr (v, ps') \<Longrightarrow> ps_len ps' < ps_len ps"
  by (cases "ps_p ps") (auto simp: parse_literal_def Let_def split: if_splits)

lemma scan_mantissa_length:
  assumes "scan_mantissa b s = Some (m, f, r)"
  shows "length r < length s"
proof -
  obtain ip r1 where sp: "span_digits b s = (ip, r1)" by fastforce
  have l1: "length ip + length r1 = length s" using span_digits_length [OF sp] .
  obtain fp r2 where fp: "(case r1 of c # t \<Rightarrow> if c = CHR ''.'' then span_digits b t else ([], r1)
      | [] \<Rightarrow> ([], r1)) = (fp, r2)" by fastforce
  have l2: "length fp + length r2 \<le> length r1"
    using fp span_digits_length by (cases r1) (fastforce split: if_splits)+
  have ne: "\<not> (ip = [] \<and> fp = [])" and r: "r = r2"
    using assms by (auto simp: scan_mantissa_def sp fp split: if_splits)
  then have "length r2 < length s"
    using l1 l2 by (cases ip; cases fp) auto
  with r show ?thesis by simp
qed

lemma scan_exponent_length: "scan_exponent s = Some (e, r) \<Longrightarrow> length r \<le> length s"
proof -
  assume a: "scan_exponent s = Some (e, r)"
  obtain neg t where t: "take_sign s = (neg, t)" by fastforce
  obtain ds r' where d: "span_digits 10 t = (ds, r')" by fastforce
  have "length t \<le> length s" using t by (cases s) (auto simp: take_sign_def split: if_splits)
  with a span_digits_length [OF d] show ?thesis
    by (auto simp: scan_exponent_def t d split: if_splits)
qed

lemma scan_decimal_length: "scan_decimal s = Some (q, r) \<Longrightarrow> length r < length s"
  using scan_mantissa_length scan_exponent_length
  by (fastforce simp: scan_decimal_def split: option.splits list.splits if_splits)

lemma scan_hexadecimal_length: "scan_hexadecimal s = Some (q, r) \<Longrightarrow> length r < length s"
  using scan_mantissa_length scan_exponent_length
  by (fastforce simp: scan_hexadecimal_def split: option.splits list.splits if_splits)

lemma starts_with_ci_length: "starts_with_ci p s \<Longrightarrow> length p \<le> length s"
  by (metis length_map length_take min.cobounded1 min.commute starts_with_ci_def starts_with_def)

lemma nan_tail_length: "length (nan_tail s) \<le> length s"
proof (cases s)
  case (Cons c t)
  let ?w = "\<lambda>c. is_digit c \<or> (97 \<le> char_code (lower c) \<and> char_code (lower c) \<le> 122) \<or> c = CHR ''_''"
  have "length (case u of d # r \<Rightarrow> if d = CHR '')'' then r else s | [] \<Rightarrow> s) \<le> length s"
    if "length u \<le> length t" for u
    using that by (cases u) (auto simp: Cons)
  from this [of "dropWhile ?w t"] show ?thesis
    unfolding nan_tail_def Let_def Cons by simp
qed (simp add: nan_tail_def)

lemma strtod_abs_length:
  assumes "strtod_abs s = Some (d, r)"
  shows "length r < length s"
proof -
  consider
    (inf) "starts_with_ci ''inf'' s \<or> starts_with_ci ''infinity'' s"
  | (nan) "starts_with_ci ''nan'' s" "\<not> starts_with_ci ''inf'' s" "\<not> starts_with_ci ''infinity'' s"
  | (rest) "\<not> starts_with_ci ''inf'' s" "\<not> starts_with_ci ''infinity'' s" "\<not> starts_with_ci ''nan'' s"
    by blast
  then show ?thesis
  proof cases
    case inf
    then show ?thesis
      using assms starts_with_ci_length [of "''inf''" s] starts_with_ci_length [of "''infinity''" s]
      by (auto simp: strtod_abs_def split: if_splits)
  next
    case nan
    then show ?thesis
      using assms starts_with_ci_length [of "''nan''" s] nan_tail_length [of "drop 3 s"]
      by (auto simp: strtod_abs_def)
  next
    case rest
    then show ?thesis
      using assms scan_decimal_length scan_hexadecimal_length [of "drop 2 s"]
      by (fastforce simp: strtod_abs_def split: if_splits)
  qed
qed

lemma take_sign_length: "take_sign s = (n, t) \<Longrightarrow> length t \<le> length s"
  by (cases s) (auto simp: take_sign_def split: if_splits)

lemma strtod_length: "strtod s = Some (d, r) \<Longrightarrow> length r < length s"
proof -
  assume a: "strtod s = Some (d, r)"
  obtain n t where t: "take_sign (skip_spaces s) = (n, t)" by fastforce
  from a obtain d' where "strtod_abs t = Some (d', r)" by (auto simp: strtod_def t)
  then have "length r < length t" by (rule strtod_abs_length)
  with take_sign_length [OF t] skip_spaces_length [of s] show ?thesis by linarith
qed

lemma parse_number_len: "parse_number ps = Inr (v, ps') \<Longrightarrow> ps_len ps' < ps_len ps"
  using strtod_length by (auto simp: parse_number_def Let_def split: if_splits option.splits)

lemmas leaf_len = parse_string_len parse_literal_len parse_number_len

lemma parse_len:
  "parse_value fuel ps = Some (Inr (v, ps')) \<Longrightarrow> ps_len ps' < ps_len ps"
  "parse_items fuel acc ps = Some (Inr (v, ps')) \<Longrightarrow> ps_len ps' < ps_len ps"
  "parse_members fuel macc ps = Some (Inr (v, ps')) \<Longrightarrow> ps_len ps' < ps_len ps"
proof (induction fuel ps and fuel acc ps and fuel macc ps arbitrary: v ps' and v ps' and v ps'
    rule: parse_value_parse_items_parse_members.induct)
  case (1 ps)
  then show ?case by (simp add: parse_value.simps)
next
  case (2 fuel ps0)
  let ?ps = "skip_ws ps0"
  let ?ps1 = "skip_ws (advance ?ps)"
  have le: "ps_len ?ps \<le> ps_len ps0" by simp
  have le1: "ps_len ?ps1 < ps_len ps0" if "peek (ps_p ?ps) \<noteq> NUL"
    using that advance_len [of ?ps] le skip_ws_len [of "advance ?ps"] by linarith
  show ?case
  proof -
    consider (obj) "peek (ps_p ?ps) = CHR ''{''" | (arr) "peek (ps_p ?ps) = CHR ''[''"
      | (leaf) "peek (ps_p ?ps) \<noteq> CHR ''{''" "peek (ps_p ?ps) \<noteq> CHR ''[''" by blast
    then show ?thesis
    proof cases
      case obj
      then have nn: "peek (ps_p ?ps) \<noteq> NUL" by (simp add: NUL_def)
      show ?thesis
        using "2.prems" "2.IH"(1) [OF refl refl obj refl] obj le1 [OF nn] advance_len [of ?ps1]
        by (fastforce simp: parse_value.simps Let_def NUL_def split: if_splits dest: less_trans)
    next
      case arr
      then have nn: "peek (ps_p ?ps) \<noteq> NUL" by (simp add: NUL_def)
      show ?thesis
        using "2.prems" "2.IH"(2) [OF refl refl _ arr refl] arr le1 [OF nn] advance_len [of ?ps1]
        by (fastforce simp: parse_value.simps Let_def NUL_def split: if_splits dest: less_trans)
    next
      case leaf
      then show ?thesis
        using "2.prems" le leaf_len [of ?ps]
        by (auto simp: parse_value.simps Let_def split: if_splits intro: less_le_trans)
    qed
  qed
next
  case (3 acc ps)
  then show ?case by (simp add: parse_items.simps)
next
  case (4 fuel acc ps)
  from "4.prems" obtain item ps1 where pv: "parse_value fuel (skip_ws ps) = Some (Inr (item, ps1))"
    by (auto simp: parse_items.simps split: option.splits sum.splits)
  have l1: "ps_len ps1 < ps_len ps"
    using "4.IH"(1) [OF pv] skip_ws_len [of ps] by linarith
  let ?ps2 = "skip_ws ps1"
  have l2: "ps_len (advance ?ps2) < ps_len ps" if "peek (ps_p ?ps2) \<noteq> NUL"
    using that advance_len [of ?ps2] skip_ws_len [of ps1] l1 by linarith
  show ?case
    using "4.prems" "4.IH"(2) [OF pv refl refl refl refl] pv l2
    by (fastforce simp: parse_items.simps Let_def NUL_def split: if_splits dest: less_trans)
next
  case (5 acc ps)
  then show ?case by (simp add: parse_members.simps)
next
  case (6 fuel acc ps)
  from "6.prems" obtain key ps1 where key: "parse_string_raw (skip_ws ps) = Inr (key, ps1)"
    by (auto simp: parse_members.simps split: sum.splits)
  have l1: "ps_len ps1 < ps_len ps"
    using parse_string_raw_len [OF key] skip_ws_len [of ps] by linarith
  let ?ps2 = "skip_ws ps1"
  from "6.prems" key have colon: "peek (ps_p ?ps2) = CHR '':''"
    by (auto simp: parse_members.simps Let_def split: if_splits)
  let ?ps3 = "skip_ws (advance ?ps2)"
  from "6.prems" key colon obtain val ps3 where
    val: "parse_value fuel ?ps3 = Some (Inr (val, ps3))"
    by (auto simp: parse_members.simps Let_def split: option.splits sum.splits)
  have l3: "ps_len ps3 < ps_len ps"
    using "6.IH"(1) [OF key refl refl _ val] colon l1 advance_len [of ?ps2]
      skip_ws_len [of "advance ?ps2"] skip_ws_len [of ps1]
    by (simp add: NUL_def del: skip_ws_len)
  let ?ps4 = "skip_ws ps3"
  have l4: "ps_len (advance ?ps4) < ps_len ps" if "peek (ps_p ?ps4) \<noteq> NUL"
    using that advance_len [of ?ps4] skip_ws_len [of ps3] l3 by linarith
  show ?case
    using "6.prems" "6.IH"(2) [OF key refl refl _ val refl refl refl refl] key colon val l4
    by (fastforce simp: parse_members.simps Let_def NUL_def split: if_splits dest: less_trans)
qed

section \<open>The fuel is enough\<close>

lemma parse_fuel:
  "2 * ps_len ps + 2 \<le> fuel \<Longrightarrow> \<exists>r. parse_value fuel ps = Some r"
  "2 * ps_len ps + 3 \<le> fuel \<Longrightarrow> \<exists>r. parse_items fuel acc ps = Some r"
  "2 * ps_len ps + 3 \<le> fuel \<Longrightarrow> \<exists>r. parse_members fuel macc ps = Some r"
proof (induction fuel ps and fuel acc ps and fuel macc ps
    rule: parse_value_parse_items_parse_members.induct)
  case (1 ps)
  then show ?case by simp
next
  case (2 fuel ps0)
  let ?ps = "skip_ws ps0"
  let ?ps1 = "skip_ws (advance ?ps)"
  have enough: "2 * ps_len ?ps1 + 3 \<le> fuel" if "peek (ps_p ?ps) \<noteq> NUL"
    using that advance_len [of ?ps] skip_ws_len [of ps0] skip_ws_len [of "advance ?ps"] "2.prems"
    by linarith
  show ?case
    using "2.IH"(1) [OF refl refl _ refl _ enough] "2.IH"(2) [OF refl refl _ _ refl _ enough]
    by (auto simp: parse_value.simps Let_def NUL_def)
next
  case (3 acc ps)
  then show ?case by simp
next
  case (4 fuel acc ps)
  have "2 * ps_len (skip_ws ps) + 2 \<le> fuel"
    using "4.prems" skip_ws_len [of ps] by linarith
  then obtain r where r: "parse_value fuel (skip_ws ps) = Some r"
    using "4.IH"(1) by blast
  show ?case
  proof (cases r)
    case (Inl e)
    with r show ?thesis by (simp add: parse_items.simps)
  next
    case (Inr p)
    obtain item ps1 where p: "p = (item, ps1)" by fastforce
    let ?ps2 = "skip_ws ps1"
    have "ps_len ps1 < ps_len (skip_ws ps)"
      using parse_len(1) r Inr p by blast
    then have e: "2 * ps_len (advance ?ps2) + 3 \<le> fuel" if "peek (ps_p ?ps2) \<noteq> NUL"
      using that advance_len [of ?ps2] skip_ws_len [of ps] skip_ws_len [of ps1] "4.prems" by linarith
    show ?thesis
      using "4.IH"(2) [OF r Inr p [symmetric] refl refl _ e] r Inr p
      by (auto simp: parse_items.simps Let_def NUL_def)
  qed
next
  case (5 acc ps)
  then show ?case by simp
next
  case (6 fuel acc ps)
  show ?case
  proof (cases "parse_string_raw (skip_ws ps)")
    case (Inl e)
    then show ?thesis by (simp add: parse_members.simps)
  next
    case (Inr p)
    obtain key ps1 where p: "p = (key, ps1)" by fastforce
    let ?ps2 = "skip_ws ps1"
    let ?ps3 = "skip_ws (advance ?ps2)"
    show ?thesis
    proof (cases "peek (ps_p ?ps2) = CHR '':''")
      case False
      with Inr p show ?thesis by (simp add: parse_members.simps)
    next
      case True
      have "ps_len ps1 < ps_len ps"
        using parse_string_raw_len [OF Inr [unfolded p]] skip_ws_len [of ps] by linarith
      moreover have "ps_len (advance ?ps2) < ps_len ?ps2"
        using advance_len [of ?ps2] True by (simp add: NUL_def)
      ultimately have small: "ps_len ?ps3 < ps_len ps"
        using skip_ws_len [of ps1] skip_ws_len [of "advance ?ps2"] by linarith
      then have "2 * ps_len ?ps3 + 2 \<le> fuel" using "6.prems" by linarith
      then obtain r where r: "parse_value fuel ?ps3 = Some r"
        using "6.IH"(1) [OF Inr p [symmetric] refl] True by blast
      show ?thesis
      proof (cases r)
        case Inl2: (Inl e)
        with Inr p True r show ?thesis by (simp add: parse_members.simps)
      next
        case Inr2: (Inr q)
        obtain val ps3 where q: "q = (val, ps3)" by fastforce
        let ?ps4 = "skip_ws ps3"
        have "ps_len ps3 < ps_len ?ps3" using parse_len(1) r Inr2 q by blast
        then have e: "2 * ps_len (advance ?ps4) + 3 \<le> fuel" if "peek (ps_p ?ps4) \<noteq> NUL"
          using that advance_len [of ?ps4] skip_ws_len [of ps3] small "6.prems" by linarith
        show ?thesis
          using "6.IH"(2) [OF Inr p [symmetric] refl _ r Inr2 q [symmetric] refl refl _ e] Inr p True r Inr2 q
          by (auto simp: parse_members.simps Let_def NUL_def)
      qed
    qed
  qed
qed

end
