(* ===== verification/Json_Roundtrip.thy ===== *)
theory Json_Roundtrip
  imports Json_Facts
begin

text \<open>
  What \<open>json_write_string\<close> writes is read back, first for one string and then for whole documents:
  \<open>json_doc\<close> is the shape of the documents wspy's producers write (values separated by commas, with
  optional white space between the tokens), and every such document parses to the value it denotes.
\<close>

section \<open>The string buffer\<close>

lemma utf8_bytes_length: "length (utf8_bytes cp) \<le> 3"
  by (simp add: utf8_bytes_def)

lemma hex_value_not_special:
  "hex_value c = Some d \<Longrightarrow> c \<noteq> QUOTE \<and> c \<noteq> BACKSLASH \<and> c \<noteq> NUL"
  by (auto simp: hex_value_def Let_def NUL_eq_iff split: if_splits
      simp flip: char_code_inject)

lemma u_escape_cap: "u_escape t = Some (cp, v) \<Longrightarrow> string_cap t = 4 + string_cap v"
  by (erule u_escape_SomeE) (simp add: hex_value_not_special)

lemma simple_escape_not_NUL: "simple_escape e = Some d \<Longrightarrow> e \<noteq> NUL"
  by (auto simp: simple_escape_def NUL_def QUOTE_def BACKSLASH_def split: if_splits)

lemma string_body_writes:
  "string_body out s n = (out', res) \<Longrightarrow> length out' \<le> length out + string_cap s"
proof (induction out s n arbitrary: out' res rule: string_body.induct)
  case (1 out n)
  then show ?case by (simp add: string_body.simps)
next
  case (2 out c s n)
  from "2.prems" consider (stop) "out' = out"
    | (esc) e t d where "c = BACKSLASH" "s = e # t" "simple_escape e = Some d"
        "string_body (d # out) t n = (out', res)"
    | (u) t cp v where "c = BACKSLASH" "s = CHR ''u'' # t" "simple_escape (CHR ''u'') = None"
        "u_escape t = Some (cp, v)" "string_body (rev (utf8_bytes cp) @ out) v n = (out', res)"
    | (plain) "c \<noteq> NUL" "c \<noteq> QUOTE" "c \<noteq> BACKSLASH"
        "string_body (c # out) s (if c = LF then n + 1 else n) = (out', res)"
    by (auto simp: string_body.simps split: if_splits list.splits option.splits)
  then show ?case
  proof cases
    case esc
    from "2.IH"(2) [OF _ _ esc(1-4)] esc simple_escape_not_NUL [OF esc(3)] show ?thesis by simp
  next
    case u
    have "CHR ''u'' \<noteq> NUL" by (simp add: NUL_eq_iff)
    with "2.IH"(1) [OF _ _ u(1-3) refl u(4) refl u(5)] u u_escape_cap [OF u(4)]
      utf8_bytes_length [of cp]
    show ?thesis by simp
  next
    case plain
    from "2.IH"(3) [OF plain(1-4)] plain show ?thesis by simp
  qed simp
qed

section \<open>One string\<close>

lemma simple_escape_simps [simp]:
  "simple_escape QUOTE = Some QUOTE" "simple_escape BACKSLASH = Some BACKSLASH"
  "simple_escape (CHR ''n'') = Some LF" "simple_escape (CHR ''r'') = Some CR"
  "simple_escape (CHR ''t'') = Some TAB" "simple_escape (CHR ''u'') = None"
  by (simp_all add: simple_escape_def QUOTE_def BACKSLASH_def)

lemma string_body_escape1:
  assumes "c \<noteq> NUL"
  shows "string_body out (json_escape c @ t) n = string_body (c # out) t n"
proof -
  consider (simple) "c = QUOTE \<or> c = BACKSLASH \<or> c = LF \<or> c = CR \<or> c = TAB"
    | (control) "c \<noteq> QUOTE" "c \<noteq> BACKSLASH" "c \<noteq> LF" "c \<noteq> CR" "c \<noteq> TAB" "char_code c < 32"
    | (plain) "c \<noteq> QUOTE" "c \<noteq> BACKSLASH" "c \<noteq> LF" "c \<noteq> CR" "c \<noteq> TAB" "\<not> char_code c < 32"
    by blast
  then show ?thesis
  proof cases
    case simple
    moreover have "CR \<noteq> QUOTE" "CR \<noteq> BACKSLASH" "CR \<noteq> LF" "TAB \<noteq> QUOTE" "TAB \<noteq> BACKSLASH"
      "TAB \<noteq> LF" "TAB \<noteq> CR" "LF \<noteq> QUOTE" "LF \<noteq> BACKSLASH"
      by (simp_all flip: char_code_inject)
    ultimately show ?thesis
      by (auto simp: json_escape_def string_body.simps)
  next
    case control
    let ?n = "char_code c"
    have z: "hex_value (CHR ''0'') = Some 0"
      by (simp add: hex_value_def)
    have esc: "u_escape (CHR ''0'' # CHR ''0'' # digit_char (?n div 16) # digit_char (?n mod 16) # t)
      = Some (?n, t)"
      using control(6) by (simp add: u_escape_def z)
    have "utf8_bytes ?n = [c]"
      using control(6) by (simp add: utf8_bytes_def char_code_def)
    with control esc show ?thesis
      by (simp add: json_escape_def hex_of_control string_body.simps)
  next
    case plain
    with assms show ?thesis by (simp add: json_escape_def string_body.simps)
  qed
qed

lemma string_body_escape:
  "no_nul s \<Longrightarrow> string_body out (concat (map json_escape s) @ QUOTE # r) n = (rev s @ out, Inr (r, n))"
proof (induction s arbitrary: out)
  case Nil
  then show ?case by (simp add: string_body.simps)
next
  case (Cons c s)
  then show ?case by (simp add: string_body_escape1)
qed

lemma parse_string_raw_written:
  assumes "no_nul s"
  shows "parse_string_raw \<lparr>ps_p = json_write_string (Some s) @ r, ps_line = n\<rparr>
    = Inr (s, \<lparr>ps_p = r, ps_line = n\<rparr>)"
  using assms
  by (simp add: parse_string_raw_def json_write_string_def string_body_escape no_nul_def)

section \<open>Whole documents\<close>

definition json_ws :: "string \<Rightarrow> bool" where
  "json_ws w \<longleftrightarrow> (\<forall>c \<in> set w. is_space c)"

text \<open>A printed number: it starts like one and \<open>strtod\<close> stops where it ends.\<close>

definition number_text :: "string \<Rightarrow> double \<Rightarrow> bool" where
  "number_text s d \<longleftrightarrow>
     s \<noteq> [] \<and> (is_digit (hd s) \<or> (hd s = CHR ''-'' \<and> is_digit (peek (tl s)))) \<and>
     (\<forall>r. number_end r \<longrightarrow> strtod (s @ r) = Some (d, r))"

inductive json_doc :: "string \<Rightarrow> json_value \<Rightarrow> bool"
  and doc_items :: "string \<Rightarrow> json_value list \<Rightarrow> bool"
  and doc_members :: "string \<Rightarrow> (string \<times> json_value) list \<Rightarrow> bool"
where
  doc_null: "json_doc ''null'' JSON_NULL"
| doc_true: "json_doc ''true'' (JSON_BOOL True)"
| doc_false: "json_doc ''false'' (JSON_BOOL False)"
| doc_number: "number_text s d \<Longrightarrow> json_doc s (JSON_NUMBER d)"
| doc_string: "no_nul s \<Longrightarrow> json_doc (json_write_string (Some s)) (JSON_STRING s)"
| doc_empty_array: "json_ws w \<Longrightarrow> json_doc (''['' @ w @ '']'') (JSON_ARRAY [])"
| doc_array: "doc_items t xs \<Longrightarrow> json_doc (''['' @ t @ '']'') (JSON_ARRAY xs)"
| doc_empty_object: "json_ws w \<Longrightarrow> json_doc (''{'' @ w @ ''}'') (JSON_OBJECT [])"
| doc_object: "doc_members t xs \<Longrightarrow> json_doc (''{'' @ t @ ''}'') (JSON_OBJECT xs)"
| item_last: "json_ws w1 \<Longrightarrow> json_doc s v \<Longrightarrow> json_ws w2 \<Longrightarrow> doc_items (w1 @ s @ w2) [v]"
| item_more:
    "json_ws w1 \<Longrightarrow> json_doc s v \<Longrightarrow> json_ws w2 \<Longrightarrow> doc_items t vs \<Longrightarrow>
     doc_items (w1 @ s @ w2 @ '','' @ t) (v # vs)"
| member_last:
    "json_ws w1 \<Longrightarrow> no_nul k \<Longrightarrow> json_ws w2 \<Longrightarrow> json_ws w3 \<Longrightarrow> json_doc s v \<Longrightarrow> json_ws w4 \<Longrightarrow>
     doc_members (w1 @ json_write_string (Some k) @ w2 @ '':'' @ w3 @ s @ w4) [(k, v)]"
| member_more:
    "json_ws w1 \<Longrightarrow> no_nul k \<Longrightarrow> json_ws w2 \<Longrightarrow> json_ws w3 \<Longrightarrow> json_doc s v \<Longrightarrow> json_ws w4 \<Longrightarrow>
     doc_members t vs \<Longrightarrow>
     doc_members (w1 @ json_write_string (Some k) @ w2 @ '':'' @ w3 @ s @ w4 @ '','' @ t) ((k, v) # vs)"

lemma skip_ws_text_ws:
  "json_ws w \<Longrightarrow> \<exists>m. skip_ws_text (w @ s) n = skip_ws_text s m"
proof (induction w arbitrary: n)
  case (Cons c w)
  then show ?case
    by (cases "c = LF") (auto simp: json_ws_def)
qed auto

definition token_start :: "string \<Rightarrow> bool" where
  "token_start s \<longleftrightarrow> s \<noteq> [] \<and> \<not> is_space (hd s)"

lemma skip_ws_text_token: "token_start s \<Longrightarrow> skip_ws_text s n = (s, n)"
  by (cases s) (auto simp: token_start_def is_space_def)

lemma skip_ws_to:
  assumes "json_ws w" and "token_start s"
  shows "\<exists>m. skip_ws \<lparr>ps_p = w @ s, ps_line = n\<rparr> = \<lparr>ps_p = s, ps_line = m\<rparr>"
proof -
  obtain m where "skip_ws_text (w @ s) n = skip_ws_text s m"
    using skip_ws_text_ws [OF assms(1)] by blast
  then show ?thesis
    by (simp add: skip_ws_def skip_ws_text_token [OF assms(2)])
qed

lemma json_ws_Nil [simp]: "json_ws []"
  by (simp add: json_ws_def)

lemma punct_token [simp]:
  "token_start (CHR '','' # s)" "token_start (CHR '':'' # s)" "token_start (CHR '']'' # s)"
  "token_start (CHR ''}'' # s)" "token_start (CHR ''['' # s)" "token_start (CHR ''{'' # s)"
  by (simp_all add: token_start_def is_space_def)

lemma write_string_token [simp]: "token_start (json_write_string s @ r)"
  by (simp add: token_start_def json_write_string_def is_space_def)

lemma json_doc_token: "json_doc s v \<Longrightarrow> token_start (s @ r)"
  by (cases s v rule: json_doc.cases)
    (auto simp: token_start_def number_text_def json_write_string_def)

lemma number_end_space: "is_space c \<Longrightarrow> number_end (c # s)"
  by (auto simp: number_end_def is_space_def is_digit_def lower_def)

lemma number_end_punct:
  "c \<in> {CHR '','', CHR '']'', CHR ''}''} \<Longrightarrow> json_ws w \<Longrightarrow> number_end (w @ c # s)"
proof (cases w)
  case Nil
  assume "c \<in> {CHR '','', CHR '']'', CHR ''}''}"
  then have "number_end (c # s)" by (auto simp: number_end_def lower_def)
  with Nil show ?thesis by simp
next
  case (Cons d u)
  assume "json_ws w"
  then show ?thesis by (simp add: Cons json_ws_def number_end_space)
qed

lemma peek_append: "s \<noteq> [] \<Longrightarrow> peek (s @ r) = hd s"
  by (cases s) simp_all

lemma parse_number_text:
  assumes "number_text s d" and "number_end r"
  shows "parse_number \<lparr>ps_p = s @ r, ps_line = n\<rparr> = Inr (JSON_NUMBER d, \<lparr>ps_p = r, ps_line = n\<rparr>)"
proof -
  have dig: "\<not> is_digit (CHR ''-'')" by (simp add: is_digit_def)
  have "is_digit (peek (if peek (s @ r) = CHR ''-'' then tl (s @ r) else s @ r))"
    using assms(1) dig by (cases s; cases "tl s") (auto simp: number_text_def)
  with assms show ?thesis
    by (simp add: parse_number_def number_text_def Let_def)
qed

lemma parse_string_written:
  "no_nul s \<Longrightarrow> parse_string \<lparr>ps_p = json_write_string (Some s) @ r, ps_line = n\<rparr>
    = Inr (JSON_STRING s, \<lparr>ps_p = r, ps_line = n\<rparr>)"
  by (simp add: parse_string_def parse_string_raw_written)

lemma skip_ws_id [simp]: "token_start s \<Longrightarrow> skip_ws \<lparr>ps_p = s, ps_line = n\<rparr> = \<lparr>ps_p = s, ps_line = n\<rparr>"
  by (simp add: skip_ws_def skip_ws_text_token)

lemma advance_simp [simp]: "advance \<lparr>ps_p = c # s, ps_line = n\<rparr> = \<lparr>ps_p = s, ps_line = n\<rparr>"
  by (simp add: advance_def)

lemma skip_ws_text_idem: "skip_ws_text s n = (t, m) \<Longrightarrow> skip_ws_text t k = (t, k)"
  by (induction s n arbitrary: t m rule: skip_ws_text.induct) (auto split: if_splits)

lemma skip_ws_idem [simp]: "skip_ws (skip_ws ps) = skip_ws ps"
  using skip_ws_text_idem by (auto simp: skip_ws_def split: prod.splits)

lemma parse_items_skip [simp]: "parse_items (Suc f) acc (skip_ws ps) = parse_items (Suc f) acc ps"
  by (simp add: parse_items.simps)

lemma parse_members_skip [simp]: "parse_members (Suc f) acc (skip_ws ps) = parse_members (Suc f) acc ps"
  by (simp add: parse_members.simps)

lemma json_doc_hd: "json_doc s v \<Longrightarrow> s \<noteq> [] \<and> hd s \<noteq> CHR '']''"
  by (cases s v rule: json_doc.cases)
    (auto simp: number_text_def json_write_string_def QUOTE_def)

lemma skip_ws_peek:
  assumes "json_ws w" and "token_start (s @ r)" and "s \<noteq> []"
  shows "peek (ps_p (skip_ws \<lparr>ps_p = w @ s @ r, ps_line = n\<rparr>)) = hd s"
  using skip_ws_to [OF assms(1,2), of n] assms(3) by (auto simp: peek_append)

lemma doc_items_peek:
  assumes "doc_items t xs"
  shows "peek (ps_p (skip_ws \<lparr>ps_p = t @ r, ps_line = n\<rparr>)) \<noteq> CHR '']''"
  using assms
proof (cases rule: doc_items.cases)
  case (item_last w1 s v w2)
  with skip_ws_peek [of w1 s "w2 @ r" n] json_doc_token json_doc_hd show ?thesis by fastforce
next
  case (item_more w1 s v w2 u vs)
  with skip_ws_peek [of w1 s "w2 @ '','' @ u @ r" n] json_doc_token json_doc_hd show ?thesis
    by fastforce
qed

lemma doc_members_peek:
  assumes "doc_members t xs"
  shows "peek (ps_p (skip_ws \<lparr>ps_p = t @ r, ps_line = n\<rparr>)) \<noteq> CHR ''}''"
  using assms
proof (cases rule: doc_members.cases)
  case (member_last w1 k w2 w3 s v w4)
  with skip_ws_peek [of w1 "json_write_string (Some k)" "w2 @ '':'' @ w3 @ s @ w4 @ r" n]
  show ?thesis by (simp add: json_write_string_def QUOTE_def token_start_def)
next
  case (member_more w1 k w2 w3 s v w4 u vs)
  with skip_ws_peek [of w1 "json_write_string (Some k)" "w2 @ '':'' @ w3 @ s @ w4 @ '','' @ u @ r" n]
  show ?thesis by (simp add: json_write_string_def QUOTE_def token_start_def)
qed

text \<open>The loops, one round each: the item or member is read and the separator after it decides.\<close>

lemma parse_items_step:
  assumes "json_ws w1" and "json_doc s v" and "json_ws w2" and "c = CHR '','' \<or> c = CHR '']''"
    and ih: "\<And>r n. number_end r \<Longrightarrow>
      \<exists>m. parse_value f \<lparr>ps_p = s @ r, ps_line = n\<rparr> = Some (Inr (v, \<lparr>ps_p = r, ps_line = m\<rparr>))"
  shows "\<exists>m. parse_items (Suc f) acc \<lparr>ps_p = w1 @ s @ w2 @ c # r, ps_line = n\<rparr> =
    (if c = CHR '','' then parse_items f (v # acc) \<lparr>ps_p = r, ps_line = m\<rparr>
     else Some (Inr (JSON_ARRAY (rev (v # acc)), \<lparr>ps_p = r, ps_line = m\<rparr>)))"
proof -
  have ne: "number_end (w2 @ c # r)" using number_end_punct assms(3,4) by auto
  obtain m1 where m1: "skip_ws \<lparr>ps_p = w1 @ s @ w2 @ c # r, ps_line = n\<rparr>
      = \<lparr>ps_p = s @ w2 @ c # r, ps_line = m1\<rparr>"
    using skip_ws_to [OF assms(1) json_doc_token [OF assms(2)]] by blast
  obtain m2 where m2: "parse_value f \<lparr>ps_p = s @ w2 @ c # r, ps_line = m1\<rparr>
      = Some (Inr (v, \<lparr>ps_p = w2 @ c # r, ps_line = m2\<rparr>))"
    using ih [OF ne] by blast
  have "token_start (c # r)" using assms(4) by auto
  then obtain m3 where m3: "skip_ws \<lparr>ps_p = w2 @ c # r, ps_line = m2\<rparr> = \<lparr>ps_p = c # r, ps_line = m3\<rparr>"
    using skip_ws_to [OF assms(3)] by blast
  show ?thesis
    using assms(4) by (intro exI [of _ m3]) (auto simp: parse_items.simps m1 m2 m3)
qed

lemma parse_members_step:
  assumes "json_ws w1" and "no_nul k" and "json_ws w2" and "json_ws w3" and "json_doc s v"
    and "json_ws w4" and "c = CHR '','' \<or> c = CHR ''}''"
    and ih: "\<And>r n. number_end r \<Longrightarrow>
      \<exists>m. parse_value f \<lparr>ps_p = s @ r, ps_line = n\<rparr> = Some (Inr (v, \<lparr>ps_p = r, ps_line = m\<rparr>))"
  shows "\<exists>m. parse_members (Suc f) acc
      \<lparr>ps_p = w1 @ json_write_string (Some k) @ w2 @ '':'' @ w3 @ s @ w4 @ c # r, ps_line = n\<rparr> =
    (if c = CHR '','' then parse_members f ((k, v) # acc) \<lparr>ps_p = r, ps_line = m\<rparr>
     else Some (Inr (JSON_OBJECT (rev ((k, v) # acc)), \<lparr>ps_p = r, ps_line = m\<rparr>)))"
proof -
  let ?t4 = "w4 @ c # r"
  let ?t3 = "w3 @ s @ ?t4"
  let ?t2 = "w2 @ CHR '':'' # ?t3"
  obtain m1 where m1: "skip_ws \<lparr>ps_p = w1 @ json_write_string (Some k) @ ?t2, ps_line = n\<rparr>
      = \<lparr>ps_p = json_write_string (Some k) @ ?t2, ps_line = m1\<rparr>"
    using skip_ws_to [OF assms(1) write_string_token] by blast
  obtain m2 where m2: "skip_ws \<lparr>ps_p = ?t2, ps_line = m1\<rparr> = \<lparr>ps_p = CHR '':'' # ?t3, ps_line = m2\<rparr>"
    using skip_ws_to [OF assms(3)] punct_token(2) by blast
  obtain m3 where m3: "skip_ws \<lparr>ps_p = ?t3, ps_line = m2\<rparr> = \<lparr>ps_p = s @ ?t4, ps_line = m3\<rparr>"
    using skip_ws_to [OF assms(4) json_doc_token [OF assms(5)]] by blast
  have ne: "number_end ?t4" using number_end_punct assms(6,7) by auto
  obtain m4 where m4: "parse_value f \<lparr>ps_p = s @ ?t4, ps_line = m3\<rparr>
      = Some (Inr (v, \<lparr>ps_p = ?t4, ps_line = m4\<rparr>))"
    using ih [OF ne] by blast
  have "token_start (c # r)" using assms(7) by auto
  then obtain m5 where m5: "skip_ws \<lparr>ps_p = ?t4, ps_line = m4\<rparr> = \<lparr>ps_p = c # r, ps_line = m5\<rparr>"
    using skip_ws_to [OF assms(6)] by blast
  show ?thesis
    using assms(7)
    by (intro exI [of _ m5])
      (auto simp: parse_members.simps m1 parse_string_raw_written [OF assms(2)] m2 m3 m4 m5)
qed

text \<open>Reading a written document, value by value.\<close>

lemma doc_parses:
  "json_doc s v \<Longrightarrow> (\<And>fuel r n. number_end r \<Longrightarrow> 2 * length s + 2 \<le> fuel \<Longrightarrow>
     \<exists>m. parse_value fuel \<lparr>ps_p = s @ r, ps_line = n\<rparr> = Some (Inr (v, \<lparr>ps_p = r, ps_line = m\<rparr>)))"
  "doc_items t xs \<Longrightarrow> (\<And>fuel r n acc. 2 * length t + 3 \<le> fuel \<Longrightarrow>
     \<exists>m. parse_items fuel acc \<lparr>ps_p = t @ CHR '']'' # r, ps_line = n\<rparr>
       = Some (Inr (JSON_ARRAY (rev acc @ xs), \<lparr>ps_p = r, ps_line = m\<rparr>)))"
  "doc_members u kvs \<Longrightarrow> (\<And>fuel r n acc. 2 * length u + 3 \<le> fuel \<Longrightarrow>
     \<exists>m. parse_members fuel acc \<lparr>ps_p = u @ CHR ''}'' # r, ps_line = n\<rparr>
       = Some (Inr (JSON_OBJECT (rev acc @ kvs), \<lparr>ps_p = r, ps_line = m\<rparr>)))"
proof (induction s v and t xs and u kvs rule: json_doc_doc_items_doc_members.inducts)
  case doc_null
  then show ?case
    by (cases fuel) (auto simp: parse_value.simps parse_literal_def starts_with_def token_start_def is_space_def
        Let_def QUOTE_def)
next
  case doc_true
  then show ?case
    by (cases fuel) (auto simp: parse_value.simps parse_literal_def starts_with_def token_start_def is_space_def
        Let_def QUOTE_def)
next
  case doc_false
  then show ?case
    by (cases fuel) (auto simp: parse_value.simps parse_literal_def starts_with_def token_start_def is_space_def
        Let_def QUOTE_def)
next
  case (doc_number s d)
  then obtain f where f: "fuel = Suc f" by (cases fuel) auto
  have ts: "token_start (s @ r)"
    using json_doc_token [OF json_doc_doc_items_doc_members.doc_number [OF doc_number(1)]] .
  have "s \<noteq> []" and hd: "is_digit (hd s) \<or> hd s = CHR ''-''"
    using doc_number(1) by (auto simp: number_text_def)
  with hd show ?case
    by (auto simp: f parse_value.simps ts peek_append parse_number_text [OF doc_number(1,2)] Let_def
        is_digit_def QUOTE_def NUL_def)
next
  case (doc_string s)
  then obtain f where f: "fuel = Suc f" by (cases fuel) auto
  have "peek (json_write_string (Some s) @ r) = QUOTE" by (simp add: json_write_string_def)
  then show ?case
    by (simp add: f parse_value.simps parse_string_written [OF doc_string(1)] Let_def QUOTE_def)
next
  case (doc_empty_array w)
  then obtain f where f: "fuel = Suc f" by (cases fuel) auto
  obtain m where "skip_ws \<lparr>ps_p = w @ CHR '']'' # r, ps_line = n\<rparr> = \<lparr>ps_p = CHR '']'' # r, ps_line = m\<rparr>"
    using skip_ws_to [OF doc_empty_array(1) punct_token(3)] by blast
  then show ?case by (simp add: f parse_value.simps Let_def)
next
  case (doc_array t xs)
  from doc_array.prems obtain f where f: "fuel = Suc (Suc f)" by (cases fuel; cases "fuel - 1") auto
  have "2 * length t + 3 \<le> Suc f" using doc_array.prems f by simp
  from doc_array.IH [OF this, of "[]" r n] doc_items_peek [OF doc_array(1)] show ?case
    by (simp add: f parse_value.simps Let_def)
next
  case (doc_empty_object w)
  then obtain f where f: "fuel = Suc f" by (cases fuel) auto
  obtain m where "skip_ws \<lparr>ps_p = w @ CHR ''}'' # r, ps_line = n\<rparr> = \<lparr>ps_p = CHR ''}'' # r, ps_line = m\<rparr>"
    using skip_ws_to [OF doc_empty_object(1) punct_token(4)] by blast
  then show ?case by (simp add: f parse_value.simps Let_def)
next
  case (doc_object t xs)
  from doc_object.prems obtain f where f: "fuel = Suc (Suc f)" by (cases fuel; cases "fuel - 1") auto
  have "2 * length t + 3 \<le> Suc f" using doc_object.prems f by simp
  from doc_object.IH [OF this, of "[]" r n] doc_members_peek [OF doc_object(1)] show ?case
    by (simp add: f parse_value.simps Let_def)
next
  case (item_last w1 s v w2)
  then obtain f where f: "fuel = Suc f" by (cases fuel) auto
  have le: "2 * length s + 2 \<le> f" using item_last.prems f by simp
  from parse_items_step [OF item_last(1-3), of "CHR '']''" f acc r n] item_last.IH [OF _ le]
  show ?case by (simp add: f)
next
  case (item_more w1 s v w2 t vs)
  then obtain f where f: "fuel = Suc f" by (cases fuel) auto
  have le: "2 * length s + 2 \<le> f" "2 * length t + 3 \<le> f" using item_more.prems f by simp_all
  from parse_items_step [OF item_more(1-3), of "CHR '',''" f acc "t @ CHR '']'' # r" n]
    item_more.IH(1) [OF _ le(1)]
  obtain m where "parse_items (Suc f) acc \<lparr>ps_p = w1 @ s @ w2 @ CHR '','' # t @ CHR '']'' # r, ps_line = n\<rparr>
      = parse_items f (v # acc) \<lparr>ps_p = t @ CHR '']'' # r, ps_line = m\<rparr>" by auto
  with item_more.IH(2) [OF le(2), of "v # acc" r m] show ?case by (simp add: f)
next
  case (member_last w1 k w2 w3 s v w4)
  then obtain f where f: "fuel = Suc f" by (cases fuel) auto
  have le: "2 * length s + 2 \<le> f" using member_last.prems f by simp
  from parse_members_step [OF member_last(1-6), of "CHR ''}''" f acc r n] member_last.IH [OF _ le]
  show ?case by (simp add: f)
next
  case (member_more w1 k w2 w3 s v w4 t vs)
  then obtain f where f: "fuel = Suc f" by (cases fuel) auto
  have le: "2 * length s + 2 \<le> f" "2 * length t + 3 \<le> f" using member_more.prems f by simp_all
  from parse_members_step [OF member_more(1-6), of "CHR '',''" f acc "t @ CHR ''}'' # r" n]
    member_more.IH(1) [OF _ le(1)]
  obtain m where "parse_members (Suc f) acc
      \<lparr>ps_p = w1 @ json_write_string (Some k) @ w2 @ '':'' @ w3 @ s @ w4 @ CHR '','' # t @ CHR ''}'' # r, ps_line = n\<rparr>
      = parse_members f ((k, v) # acc) \<lparr>ps_p = t @ CHR ''}'' # r, ps_line = m\<rparr>" by auto
  with member_more.IH(2) [OF le(2), of "(k, v) # acc" r m] show ?case by (simp add: f)
qed

lemma number_text_dec: "number_text (dec n) (double_of_int (int n))"
proof -
  obtain c t where d: "dec n = c # t" and "is_digit c" using dec_hd by blast
  then have "is_digit (hd (dec n))" by simp
  then show ?thesis by (simp add: number_text_def strtod_dec)
qed

lemma number_end_ws: "json_ws w \<Longrightarrow> number_end w"
proof (cases w)
  case (Cons c u)
  assume "json_ws w"
  then show ?thesis by (simp add: Cons json_ws_def number_end_space)
qed (simp add: number_end_def)

lemma json_write_string_no_nul: "no_nul s \<Longrightarrow> no_nul (json_write_string (Some s))"
  by (induction s) (simp_all add: json_write_string_def json_escape_no_nul NUL_def QUOTE_def)

section \<open>Properties\<close>

text \<open>C13: a document of the grammar \<open>json_doc\<close>, every string in it written by
  \<open>json_write_string\<close>, with white space around it and anything behind the terminating zero byte, is
  parsed to exactly the value it denotes: no error and no byte of it left over.\<close>
theorem json_parse_document:
  assumes "json_doc s v" and "no_nul s" and "json_ws w1" and "json_ws w2"
  shows "json_parse (w1 @ s @ w2 @ NUL # garbage) = Some (Inr v)"
proof -
  have "no_nul w1" "no_nul w2"
    using assms(3,4) by (auto simp: json_ws_def no_nul_def NUL_def is_space_def)
  with assms(2) have c: "cstr (w1 @ s @ w2 @ NUL # garbage) = w1 @ s @ w2"
    using cstr_append_nul [of "w1 @ s @ w2" garbage] by simp
  obtain m where m: "skip_ws \<lparr>ps_p = w1 @ s @ w2, ps_line = 1\<rparr> = \<lparr>ps_p = s @ w2, ps_line = m\<rparr>"
    using skip_ws_to [OF assms(3) json_doc_token [OF assms(1)]] by blast
  let ?f = "Suc (2 * length (w1 @ s @ w2) + 1)"
  have "parse_value ?f (skip_ws \<lparr>ps_p = w1 @ s @ w2, ps_line = 1\<rparr>)
      = parse_value ?f \<lparr>ps_p = w1 @ s @ w2, ps_line = 1\<rparr>"
    by (simp add: parse_value.simps)
  moreover have "\<exists>k. parse_value ?f \<lparr>ps_p = s @ w2, ps_line = m\<rparr> = Some (Inr (v, \<lparr>ps_p = w2, ps_line = k\<rparr>))"
    by (rule doc_parses(1) [OF assms(1) number_end_ws [OF assms(4)]]) simp
  ultimately obtain k where k: "parse_value ?f \<lparr>ps_p = w1 @ s @ w2, ps_line = 1\<rparr>
      = Some (Inr (v, \<lparr>ps_p = w2, ps_line = k\<rparr>))"
    unfolding m by auto
  obtain j where j: "skip_ws \<lparr>ps_p = w2, ps_line = k\<rparr> = \<lparr>ps_p = [], ps_line = j\<rparr>"
    using skip_ws_text_ws [OF assms(4), of "[]" k] by (auto simp: skip_ws_def)
  show ?thesis
    using k by (simp add: json_parse_def json_parse_fuel_def json_fuel_def c j)
qed

lemma json_parse_document_witness:
  "json_parse ('' {'' @ json_write_string (Some ''a'') @ '':['' @ dec 7 @ '',null]} '' @ NUL # ''x'')
   = Some (Inr (JSON_OBJECT [(''a'', JSON_ARRAY [JSON_NUMBER (double_of_int 7), JSON_NULL])]))"
proof -
  have i: "doc_items ([] @ dec 7 @ [] @ '','' @ [] @ ''null'' @ []) [JSON_NUMBER (double_of_int 7), JSON_NULL]"
    using doc_number [OF number_text_dec [of 7]]
    by (intro item_more item_last doc_null) (simp_all add: json_ws_def)
  have "json_doc (''{'' @ ([] @ json_write_string (Some ''a'') @ [] @ '':'' @ [] @
      (''['' @ ([] @ dec 7 @ [] @ '','' @ [] @ ''null'' @ []) @ '']'') @ []) @ ''}'')
      (JSON_OBJECT [(''a'', JSON_ARRAY [JSON_NUMBER (double_of_int 7), JSON_NULL])])"
    by (intro doc_object member_last doc_array i) (simp_all add: NUL_def)
  from json_parse_document [OF this, of "'' ''" "'' ''" "''x''"] show ?thesis
    by (simp add: json_ws_def json_write_string_def json_escape_def NUL_def QUOTE_def BACKSLASH_def LF_def CR_def TAB_def)
qed

text \<open>C29: \<open>json_parse\<close> returns on every buffer: the recursion of \<open>parse_value\<close>, \<open>parse_array\<close>
  and \<open>parse_object\<close> consumes input, so twice the text's length is enough fuel.\<close>
theorem json_parse_total: "\<exists>r. json_parse buf = Some r"
  using parse_fuel(1) [of "\<lparr>ps_p = cstr buf, ps_line = 1\<rparr>" "json_fuel (cstr buf)"]
  by (auto simp: json_parse_def json_parse_fuel_def json_fuel_def split: sum.splits prod.splits)
     (auto simp: Let_def)

text \<open>Whatever text follows the opening quote, and however the copying loop ends (closing quote,
  unterminated, bad escape), it has stored at most as many bytes as the counting loop before it
  counted: the output buffer is never overrun.\<close>
theorem string_body_bounded:
  "length (fst (string_body [] s lno)) \<le> string_cap s"
  using string_body_writes [of "[]" s lno] by (cases "string_body [] s lno") simp

text \<open>\<open>json_parse\<close> on what \<open>json_write_string\<close> wrote is the string that was written, for every
  C string: quotes, backslashes, newlines and all control characters included.\<close>
theorem json_string_roundtrip:
  assumes "no_nul s"
  shows "json_parse (json_write_string (Some s)) = Some (Inr (JSON_STRING s))"
proof -
  have n: "no_nul (json_write_string (Some s))"
    using json_write_string_no_nul assms by simp
  have "\<exists>m. parse_value (json_fuel (json_write_string (Some s)))
      \<lparr>ps_p = json_write_string (Some s) @ [], ps_line = 1\<rparr> = Some (Inr (JSON_STRING s, \<lparr>ps_p = [], ps_line = m\<rparr>))"
    by (rule doc_parses(1) [OF doc_string [OF assms]]) (simp_all add: number_end_ws json_fuel_def)
  with n show ?thesis by (auto simp: json_parse_def json_parse_fuel_def skip_ws_def)
qed

lemma json_string_roundtrip_witness:
  "json_parse (json_write_string (Some [QUOTE, CHR ''x'', LF])) = Some (Inr (JSON_STRING [QUOTE, CHR ''x'', LF]))"
  using json_string_roundtrip [of "[QUOTE, CHR ''x'', LF]"]
  by (simp add: NUL_def QUOTE_def LF_def)

end
