(* ===== verification/Perf_Ring.thy ===== *)
theory Perf_Ring
  imports C_Prelude
begin

text \<open>
  The perf sampling ring buffer (src/perf_ring.c): the wrap-around copy \<open>ring_read\<close>, the walk of
  \<open>perf_ring_drain\<close> over the unread records, and the contract a capture's callback keeps
  (\<open>locale ring_client\<close>, interpreted by the two captures of src/symbol_sample.c and src/ibs_sample.c).
  Stream positions are 64-bit words, as in the kernel's \<open>perf_event_mmap_page\<close>; the mapped memory is
  a list of bytes.
\<close>

section \<open>The ring\<close>

text \<open>The mapping: its bytes, and the fields of the header page the walk reads and writes.\<close>

record perf_ring =
  rm_mem :: "u8 list"
  rm_data_head :: u64
  rm_data_tail :: u64
  rm_data_offset :: u64
  rm_data_size :: u64

definition le_value :: "u8 list \<Rightarrow> nat" where
  "le_value bs = foldr (\<lambda>b n. unat b + 256 * n) bs 0"

fun le_bytes :: "nat \<Rightarrow> nat \<Rightarrow> u8 list" where
  "le_bytes 0 n = []"
| "le_bytes (Suc k) n = word_of_nat n # le_bytes k (n div 256)"

definition ring_read :: "u8 list \<Rightarrow> u64 \<Rightarrow> u64 \<Rightarrow> nat \<Rightarrow> u8 list" where
  "ring_read data_base data_size offset len =
     (let pos = unat (offset mod data_size); first = unat data_size - pos in
      if first \<ge> len then take len (drop pos data_base)
      else take first (drop pos data_base) @ take (len - first) data_base)"

definition PERF_RING_MAX_PAYLOAD :: nat where "PERF_RING_MAX_PAYLOAD = 160"
definition PERF_RECORD_LOST :: nat where "PERF_RECORD_LOST = 2"
definition PERF_RECORD_SAMPLE :: nat where "PERF_RECORD_SAMPLE = 9"

text \<open>\<open>struct perf_event_header\<close>: type (4 bytes), misc (2 bytes), size (2 bytes).\<close>

definition hdr_type :: "u8 list \<Rightarrow> nat" where "hdr_type h = le_value (take 4 h)"
definition hdr_size :: "u8 list \<Rightarrow> nat" where "hdr_size h = le_value (take 2 (drop 6 h))"

record 's drain =
  dr_tail :: u64
  dr_seen :: u64
  dr_lost :: "u64 option"
  dr_ctx :: 's

text \<open>One round of the \<open>while\<close> loop; \<open>None\<close> is a \<open>break\<close>.\<close>

definition drain_step ::
  "(u8 list \<Rightarrow> 's \<Rightarrow> 's) option \<Rightarrow> u8 list \<Rightarrow> u64 \<Rightarrow> u64 \<Rightarrow> 's drain \<Rightarrow> 's drain option"
where
  "drain_step cb data_base data_size head d =
     (if head - dr_tail d < 8 then None
      else
        (let hdr = ring_read data_base data_size (dr_tail d) 8; size = hdr_size hdr in
         if size < 8 then None
         else
           (let d1 =
              (if hdr_type hdr = PERF_RECORD_SAMPLE then
                 (let copy_len = min (size - 8) PERF_RING_MAX_PAYLOAD;
                      payload = ring_read data_base data_size (dr_tail d + 8) copy_len
                  in d\<lparr>dr_seen := dr_seen d + 1,
                       dr_ctx := (case cb of None \<Rightarrow> dr_ctx d | Some f \<Rightarrow> f payload (dr_ctx d))\<rparr>)
               else if hdr_type hdr = PERF_RECORD_LOST then
                 (let lost =
                    (if size \<ge> 24 then le_value (drop 8 (ring_read data_base data_size (dr_tail d + 8) 16))
                     else 0)
                  in d\<lparr>dr_lost := map_option (\<lambda>l. l + word_of_nat lost) (dr_lost d)\<rparr>)
               else d)
            in Some (d1\<lparr>dr_tail := dr_tail d + word_of_nat size\<rparr>))))"

fun drain_loop ::
  "nat \<Rightarrow> (u8 list \<Rightarrow> 's \<Rightarrow> 's) option \<Rightarrow> u8 list \<Rightarrow> u64 \<Rightarrow> u64 \<Rightarrow> 's drain \<Rightarrow> 's drain option"
where
  "drain_loop 0 cb data_base data_size head d = None"
| "drain_loop (Suc fuel) cb data_base data_size head d =
     (if dr_tail d < head then
        (case drain_step cb data_base data_size head d of
           None \<Rightarrow> Some d
         | Some d' \<Rightarrow> drain_loop fuel cb data_base data_size head d')
      else Some d)"

declare drain_loop.simps [simp del]

lemma drain_loop_numeral:
  "drain_loop (numeral k) cb data_base data_size head d =
     (if dr_tail d < head then
        (case drain_step cb data_base data_size head d of
           None \<Rightarrow> Some d
         | Some d' \<Rightarrow> drain_loop (pred_numeral k) cb data_base data_size head d')
      else Some d)"
  by (subst numeral_eq_Suc) (rule drain_loop.simps(2))

text \<open>Where the data region lies: as the header page says, or the pages after it on kernels that do
  not say. \<open>page_size\<close> is what \<open>sysconf(_SC_PAGESIZE)\<close> returned.\<close>

definition ring_region :: "int \<Rightarrow> perf_ring \<Rightarrow> u8 list \<times> u64" where
  "ring_region page_size r =
     (if rm_data_size r \<noteq> 0 then (drop (unat (rm_data_offset r)) (rm_mem r), rm_data_size r)
      else
        (let p = (if page_size \<le> 0 then 4096 else page_size) in
         (drop (nat p) (rm_mem r), word_of_nat (length (rm_mem r)) - word_of_int p)))"

text \<open>
  The number of samples, the context, the lost count and the ring with its \<open>data_tail\<close> published.
  Every round of the loop consumes at least a header, so the distance from tail to head is enough
  fuel; \<open>None\<close> would be a walk that goes past the end of the 64-bit position space.
\<close>

definition perf_ring_drain ::
  "int \<Rightarrow> perf_ring option \<Rightarrow> (u8 list \<Rightarrow> 's \<Rightarrow> 's) option \<Rightarrow> 's \<Rightarrow> u64 option \<Rightarrow>
   (u64 \<times> 's \<times> u64 option \<times> perf_ring option) option"
where
  "perf_ring_drain page_size ring cb ctx lost_count =
     (case ring of
        None \<Rightarrow> Some (0, ctx, lost_count, None)
      | Some r \<Rightarrow>
          (let (data_base, data_size) = ring_region page_size r in
           map_option (\<lambda>d. (dr_seen d, dr_ctx d, dr_lost d, Some (r\<lparr>rm_data_tail := dr_tail d\<rparr>)))
             (drain_loop (unat (rm_data_head r) - unat (rm_data_tail r) + 1) cb data_base data_size
                (rm_data_head r)
                \<lparr>dr_tail = rm_data_tail r, dr_seen = 0, dr_lost = lost_count, dr_ctx = ctx\<rparr>)))"

text \<open>\<open>perf_ring_mmap\<close>: the length it maps, for \<open>mmap\<close>'s outcome.\<close>

definition perf_ring_len :: "int \<Rightarrow> nat \<Rightarrow> nat" where
  "perf_ring_len page_size data_pages =
     nat (if page_size \<le> 0 then 4096 else page_size) * (1 + data_pages)"

definition perf_ring_mmap :: "int \<Rightarrow> nat \<Rightarrow> (nat \<Rightarrow> perf_ring option) \<Rightarrow> (perf_ring \<times> nat) option" where
  "perf_ring_mmap page_size data_pages mmap =
     (let ring_len = perf_ring_len page_size data_pages in
      map_option (\<lambda>r. (r, ring_len)) (mmap ring_len))"

section \<open>The copy\<close>

text \<open>The ring as a stream: the byte at a position is the one at that position modulo the size.\<close>

definition ring_byte :: "u8 list \<Rightarrow> u64 \<Rightarrow> nat \<Rightarrow> u8" where
  "ring_byte data_base data_size i = data_base ! (i mod unat data_size)"

definition ring_stream :: "u8 list \<Rightarrow> u64 \<Rightarrow> nat \<Rightarrow> nat \<Rightarrow> u8 list" where
  "ring_stream data_base data_size pos len = map (ring_byte data_base data_size) [pos..<pos + len]"

lemma ring_stream_length [simp]: "length (ring_stream b s pos len) = len"
  by (simp add: ring_stream_def)

lemma ring_stream_append:
  "ring_stream b s pos (m + n) = ring_stream b s pos m @ ring_stream b s (pos + m) n"
proof -
  have "[pos..<pos + (m + n)] = [pos..<pos + m] @ [pos + m..<pos + m + n]"
    using upt_add_eq_append [of pos "pos + m" n] by (simp add: add.assoc)
  then show ?thesis by (simp add: ring_stream_def add.assoc)
qed

lemma mod_in_block:
  fixes x s :: nat
  assumes "i < s - x mod s" and "0 < s"
  shows "(x + i) mod s = x mod s + i"
proof -
  have "(x + i) mod s = (x mod s + i) mod s" by (simp add: mod_add_left_eq)
  also have "\<dots> = x mod s + i" using assms by (simp add: less_diff_conv add.commute)
  finally show ?thesis .
qed

lemma mod_next_block:
  fixes x s :: nat
  assumes "s - x mod s \<le> i" and "i < 2 * s - x mod s" and "0 < s"
  shows "(x + i) mod s = i - (s - x mod s)"
proof -
  have lt: "x mod s < s" using assms(3) by simp
  have "(x + i) mod s = (x mod s + i) mod s" by (simp add: mod_add_left_eq)
  also have "\<dots> = (x mod s + i - s) mod s"
    using assms lt by (simp add: le_mod_geq)
  also have "\<dots> = i - (s - x mod s)" using assms lt by simp
  finally show ?thesis .
qed

lemma ring_read_stream:
  assumes "length data_base = unat data_size" and "0 < data_size" and "len \<le> unat data_size"
  shows "ring_read data_base data_size offset len = ring_stream data_base data_size (unat offset) len"
proof (rule nth_equalityI)
  let ?s = "unat data_size" and ?x = "unat offset"
  have s: "0 < ?s" using assms(2) by (simp add: word_less_nat_alt)
  have lt: "?x mod ?s < ?s" using s by simp
  show len: "length (ring_read data_base data_size offset len) = length (ring_stream data_base data_size ?x len)"
    using assms(1,3) lt by (auto simp: ring_read_def Let_def unat_mod)
  fix i assume "i < length (ring_read data_base data_size offset len)"
  with len have i: "i < len" by simp
  show "ring_read data_base data_size offset len ! i = ring_stream data_base data_size ?x len ! i"
  proof (cases "i < ?s - ?x mod ?s")
    case True
    with i assms(1) lt mod_in_block [OF True s] show ?thesis
      by (auto simp: ring_read_def Let_def unat_mod ring_stream_def ring_byte_def nth_append)
  next
    case False
    have "(?x + i) mod ?s = i - (?s - ?x mod ?s)"
      using False i assms(3) s lt by (intro mod_next_block) linarith+
    with False i assms(1,3) lt show ?thesis
      by (auto simp: ring_read_def Let_def unat_mod ring_stream_def ring_byte_def nth_append)
  qed
qed

section \<open>The walk\<close>

text \<open>What a walk is about: the records between tail and head, as the kernel lays them out.\<close>

record ring_record =
  rr_type :: nat
  rr_misc :: nat
  rr_payload :: "u8 list"

definition ring_record_ok :: "ring_record \<Rightarrow> bool" where
  "ring_record_ok r \<longleftrightarrow> rr_type r < 2 ^ 32 \<and> rr_misc r < 2 ^ 16 \<and> 8 + length (rr_payload r) < 2 ^ 16"

definition record_bytes :: "ring_record \<Rightarrow> u8 list" where
  "record_bytes r =
     le_bytes 4 (rr_type r) @ le_bytes 2 (rr_misc r) @ le_bytes 2 (8 + length (rr_payload r)) @ rr_payload r"

definition record_lost :: "ring_record \<Rightarrow> u64" where
  "record_lost r =
     (if length (rr_payload r) \<ge> 16 then word_of_nat (le_value (take 8 (drop 8 (rr_payload r)))) else 0)"

definition record_effect ::
  "(u8 list \<Rightarrow> 's \<Rightarrow> 's) option \<Rightarrow> ring_record \<Rightarrow> 's drain \<Rightarrow> 's drain"
where
  "record_effect cb r d =
     (if rr_type r = PERF_RECORD_SAMPLE then
        d\<lparr>dr_seen := dr_seen d + 1,
          dr_ctx := (case cb of None \<Rightarrow> dr_ctx d
                     | Some f \<Rightarrow> f (take PERF_RING_MAX_PAYLOAD (rr_payload r)) (dr_ctx d))\<rparr>
      else if rr_type r = PERF_RECORD_LOST then
        d\<lparr>dr_lost := map_option (\<lambda>l. l + record_lost r) (dr_lost d)\<rparr>
      else d)"

lemma le_value_simps [simp]: "le_value [] = 0" "le_value (b # bs) = unat b + 256 * le_value bs"
  by (simp_all add: le_value_def)

lemma le_bytes_length [simp]: "length (le_bytes k n) = k"
  by (induction k arbitrary: n) simp_all

lemma le_bytes_numeral:
  "le_bytes (numeral k) n = word_of_nat n # le_bytes (pred_numeral k) (n div 256)"
  by (subst numeral_eq_Suc) (rule le_bytes.simps(2))

lemma le_value_bytes: "le_value (le_bytes k n) = n mod 256 ^ k"
proof (induction k arbitrary: n)
  case (Suc k)
  have "n mod (256 * 256 ^ k) = 256 * (n div 256 mod 256 ^ k) + n mod 256"
    by (rule mod_mult2_eq)
  with Suc show ?case by (simp add: unat_of_nat)
qed simp

lemma record_bytes_length [simp]: "length (record_bytes r) = 8 + length (rr_payload r)"
  by (simp add: record_bytes_def)

lemma record_bytes_hdr:
  assumes "ring_record_ok r"
  shows "hdr_type (take 8 (record_bytes r)) = rr_type r"
    and "hdr_size (take 8 (record_bytes r)) = 8 + length (rr_payload r)"
    and "drop 8 (record_bytes r) = rr_payload r"
  using assms
  by (simp_all add: record_bytes_def hdr_type_def hdr_size_def ring_record_ok_def le_value_bytes)

lemma ring_stream_take:
  "k \<le> len \<Longrightarrow> ring_stream b s pos k = take k (ring_stream b s pos len)"
  using ring_stream_append [of b s pos k "len - k"] by simp

lemma ring_stream_drop:
  "k \<le> len \<Longrightarrow> ring_stream b s (pos + k) (len - k) = drop k (ring_stream b s pos len)"
  using ring_stream_append [of b s pos k "len - k"] by simp

text \<open>One round reads exactly the record at the tail.\<close>

lemma drain_step_record:
  assumes len: "length data_base = unat data_size" and pos: "0 < data_size"
    and ok: "ring_record_ok r"
    and room: "length (record_bytes r) \<le> unat data_size"
    and head: "unat (dr_tail d) + length (record_bytes r) \<le> unat head"
    and bytes: "ring_stream data_base data_size (unat (dr_tail d)) (length (record_bytes r)) = record_bytes r"
  shows "drain_step cb data_base data_size head d
    = Some ((record_effect cb r d)\<lparr>dr_tail := dr_tail d + word_of_nat (length (record_bytes r))\<rparr>)"
proof -
  let ?t = "unat (dr_tail d)" and ?n = "length (rr_payload r)"
  have t8: "unat (dr_tail d + 8) = ?t + 8"
    using head unsigned_less [of head, where 'a = nat] by (subst unat_add_lem [THEN iffD1]) simp_all
  have far: "\<not> head - dr_tail d < 8"
    using head by (simp add: word_less_nat_alt unat_sub_if')
  have rd: "ring_read data_base data_size (dr_tail d) 8 = take 8 (record_bytes r)"
  proof -
    have "ring_read data_base data_size (dr_tail d) 8 = ring_stream data_base data_size ?t 8"
      using room by (intro ring_read_stream [OF len pos]) simp
    also have "\<dots> = take 8 (ring_stream data_base data_size ?t (length (record_bytes r)))"
      by (rule ring_stream_take) simp
    finally show ?thesis by (simp only: bytes)
  qed
  have pay: "ring_read data_base data_size (dr_tail d + 8) k = take k (rr_payload r)" if "k \<le> ?n" for k
  proof -
    have "ring_read data_base data_size (dr_tail d + 8) k = ring_stream data_base data_size (?t + 8) k"
      using room that by (simp add: ring_read_stream [OF len pos] t8)
    also have "\<dots> = take k (ring_stream data_base data_size (?t + 8) ?n)"
      using that by (rule ring_stream_take)
    also have "ring_stream data_base data_size (?t + 8) ?n = rr_payload r"
      using ring_stream_drop [of 8 "8 + ?n" data_base data_size ?t] bytes record_bytes_hdr(3) [OF ok]
      by simp
    finally show ?thesis .
  qed
  have sample: "ring_read data_base data_size (dr_tail d + 8) (min ?n PERF_RING_MAX_PAYLOAD)
      = take PERF_RING_MAX_PAYLOAD (rr_payload r)"
    using pay [of "min ?n PERF_RING_MAX_PAYLOAD"] by (simp add: min_def)
  show ?thesis
    using far pay [of 16]
    by (simp add: drain_step_def rd record_bytes_hdr [OF ok] record_effect_def record_lost_def Let_def
        drop_take sample split: option.split)
qed

definition all_effects ::
  "(u8 list \<Rightarrow> 's \<Rightarrow> 's) option \<Rightarrow> ring_record list \<Rightarrow> 's drain \<Rightarrow> 's drain"
where
  "all_effects cb rs d = fold (record_effect cb) rs d"

lemma record_effect_tail [simp]: "dr_tail (record_effect cb r d) = dr_tail d"
  by (simp add: record_effect_def)

lemma record_effect_update_tail:
  "record_effect cb r (d\<lparr>dr_tail := t\<rparr>) = (record_effect cb r d)\<lparr>dr_tail := t\<rparr>"
  by (simp add: record_effect_def split: option.split)

lemma all_effects_update_tail:
  "all_effects cb rs (d\<lparr>dr_tail := t\<rparr>) = (all_effects cb rs d)\<lparr>dr_tail := t\<rparr>"
  by (induction rs arbitrary: d) (simp_all add: all_effects_def record_effect_update_tail)

definition records_bytes :: "ring_record list \<Rightarrow> u8 list" where
  "records_bytes rs = concat (map record_bytes rs)"

lemma drain_loop_records:
  assumes "length data_base = unat data_size" and "0 < data_size"
    and "\<forall>r \<in> set rs. ring_record_ok r"
    and "length (records_bytes rs) \<le> unat data_size"
    and "unat head = unat (dr_tail d) + length (records_bytes rs)"
    and "ring_stream data_base data_size (unat (dr_tail d)) (length (records_bytes rs)) = records_bytes rs"
    and "length rs < fuel"
  shows "drain_loop fuel cb data_base data_size head d = Some ((all_effects cb rs d)\<lparr>dr_tail := head\<rparr>)"
  using assms(3-7)
proof (induction rs arbitrary: d fuel)
  case Nil
  then have "unat head = unat (dr_tail d)" by (simp add: records_bytes_def)
  then have "dr_tail d = head" by (simp only: word_unat_eq_iff)
  with Nil show ?case by (cases fuel) (auto simp: drain_loop.simps all_effects_def)
next
  case (Cons r rs)
  let ?k = "length (record_bytes r)" and ?m = "length (records_bytes rs)"
  have split: "records_bytes (r # rs) = record_bytes r @ records_bytes rs"
    by (simp add: records_bytes_def)
  from Cons.prems(5) obtain f where f: "fuel = Suc f" by (cases fuel) auto
  have stream: "ring_stream data_base data_size (unat (dr_tail d)) ?k = record_bytes r
      \<and> ring_stream data_base data_size (unat (dr_tail d) + ?k) ?m = records_bytes rs"
    using Cons.prems(4) ring_stream_append [of data_base data_size "unat (dr_tail d)" ?k ?m]
    by (simp del: record_bytes_length add: split)
  let ?d = "(record_effect cb r d)\<lparr>dr_tail := dr_tail d + word_of_nat ?k\<rparr>"
  have step: "drain_step cb data_base data_size head d = Some ?d"
    using Cons.prems(1-3) stream
    by (intro drain_step_record [OF assms(1,2)]) (simp_all add: split)
  have "unat (word_of_nat ?k :: u64) = ?k"
    using Cons.prems(2) unsigned_less [of data_size, where 'a = nat]
    by (simp del: record_bytes_length of_nat_add add: split unat_of_nat)
  then have t: "unat (dr_tail ?d) = unat (dr_tail d) + ?k"
    using Cons.prems(3) unsigned_less [of head, where 'a = nat]
    by (simp add: split unat_add_lem [THEN iffD1])
  have "dr_tail d < head" using Cons.prems(3) by (simp add: split word_less_nat_alt)
  moreover have "drain_loop f cb data_base data_size head ?d = Some ((all_effects cb rs ?d)\<lparr>dr_tail := head\<rparr>)"
    using Cons.prems f stream t by (intro Cons.IH) (simp_all add: split)
  ultimately show ?case
    by (simp add: f drain_loop.simps step all_effects_update_tail) (simp add: all_effects_def)
qed

text \<open>The walk ends within its fuel, whatever the bytes are, away from the end of the position space.\<close>

lemma drain_step_tail:
  assumes "drain_step cb data_base data_size head d = Some d'"
    and "dr_tail d < head" and "unat head + 2 ^ 16 \<le> 2 ^ 64"
  shows "unat (dr_tail d) + 8 \<le> unat (dr_tail d')"
proof -
  obtain n where n: "dr_tail d' = dr_tail d + word_of_nat n" "8 \<le> n" "n < 2 ^ 16"
  proof -
    let ?h = "ring_read data_base data_size (dr_tail d) 8"
    have "hdr_size ?h < 2 ^ 16"
    proof -
      have "le_value bs < 256 ^ length bs" for bs
      proof (induction bs)
        case (Cons b bs)
        then show ?case using unsigned_less [of b, where 'a = nat] by simp
      qed simp
      from this [of "take 2 (drop 6 ?h)"] have "hdr_size ?h < 256 ^ length (take 2 (drop 6 ?h))"
        by (simp add: hdr_size_def)
      also have "\<dots> \<le> 256 ^ 2" by (rule power_increasing) simp_all
      finally show ?thesis by simp
    qed
    moreover have "dr_tail d' = dr_tail d + word_of_nat (hdr_size ?h) \<and> 8 \<le> hdr_size ?h"
      using assms(1) by (auto simp: drain_step_def Let_def split: if_splits)
    ultimately show thesis using that by blast
  qed
  have "unat (dr_tail d) < unat head" using assms(2) by (simp add: word_less_nat_alt)
  with n assms(3) show ?thesis
    by (simp add: unat_of_nat unat_add_lem [THEN iffD1])
qed

lemma drain_loop_returns:
  assumes "unat head + 2 ^ 16 \<le> 2 ^ 64" and "unat head - unat (dr_tail d) < fuel"
  shows "\<exists>d'. drain_loop fuel cb data_base data_size head d = Some d'"
  using assms(2)
proof (induction fuel arbitrary: d)
  case (Suc f)
  show ?case
  proof (cases "dr_tail d < head")
    case True
    show ?thesis
    proof (cases "drain_step cb data_base data_size head d")
      case (Some d')
      have "unat head - unat (dr_tail d') < f"
        using drain_step_tail [OF Some True assms(1)] Suc.prems True by (simp add: word_less_nat_alt)
      with Suc.IH True Some show ?thesis by (simp add: drain_loop.simps)
    qed (simp add: drain_loop.simps True)
  qed (simp add: drain_loop.simps)
qed simp

section \<open>What a capture's callback promises\<close>

text \<open>
  A capture accounts for each record it is handed exactly once: \<open>tally\<close>, its own count of records,
  grows by one, and its invariant is kept.
\<close>

locale ring_client =
  fixes cb :: "u8 list \<Rightarrow> 's \<Rightarrow> 's"
    and tally :: "'s \<Rightarrow> u64"
    and inv :: "'s \<Rightarrow> bool"
  assumes tally_step: "inv s \<Longrightarrow> tally (cb p s) = tally s + 1"
    and inv_step: "inv s \<Longrightarrow> inv (cb p s)"
begin

lemma drain_step_tally:
  assumes "drain_step (Some cb) data_base data_size head d = Some d'" and "inv (dr_ctx d)"
  shows "inv (dr_ctx d') \<and> tally (dr_ctx d') - dr_seen d' = tally (dr_ctx d) - dr_seen d"
  using assms inv_step tally_step by (auto simp: drain_step_def Let_def split: if_splits)

lemma drain_loop_tally:
  assumes "drain_loop fuel (Some cb) data_base data_size head d = Some d'" and "inv (dr_ctx d)"
  shows "inv (dr_ctx d') \<and> tally (dr_ctx d') - dr_seen d' = tally (dr_ctx d) - dr_seen d"
  using assms
proof (induction fuel arbitrary: d)
  case (Suc f)
  then show ?case
    using drain_step_tally by (fastforce simp: drain_loop.simps split: if_splits option.splits)
qed (simp add: drain_loop.simps)

lemma ring_drain_tally:
  assumes "perf_ring_drain page_size (Some r) (Some cb) ctx lost = Some (seen, ctx', lost', ring')"
    and "inv ctx"
  shows "inv ctx' \<and> tally ctx' = tally ctx + seen"
  using assms drain_loop_tally
  by (fastforce simp: perf_ring_drain_def algebra_simps split: prod.splits)

end

text \<open>
  A capture whose counts are bounded by the number of records it was handed: \<open>level n\<close> holds of a
  context that has seen at most \<open>n\<close>. No drain hands over \<open>2 ^ 64\<close> records, so no count wraps.
\<close>

locale ring_counter = ring_client +
  fixes level :: "nat \<Rightarrow> 's \<Rightarrow> bool"
  assumes level_step: "inv s \<Longrightarrow> level n s \<Longrightarrow> n + 1 < 2 ^ 64 \<Longrightarrow> level (n + 1) (cb p s)"
begin

lemma drain_loop_level:
  assumes "drain_loop fuel (Some cb) data_base data_size head d = Some d'"
    and "inv (dr_ctx d)" and "level n (dr_ctx d)" and "n + fuel \<le> 2 ^ 64"
  shows "\<exists>m < 2 ^ 64. level m (dr_ctx d')"
  using assms
proof (induction fuel arbitrary: d n)
  case (Suc f)
  have n: "n < 2 ^ 64" using Suc.prems(4) by simp
  show ?case
  proof (cases "dr_tail d < head \<and> drain_step (Some cb) data_base data_size head d \<noteq> None")
    case False
    with Suc.prems(1,3) n show ?thesis by (auto simp: drain_loop.simps split: if_splits)
  next
    case True
    then obtain d1 where d1: "drain_step (Some cb) data_base data_size head d = Some d1" by blast
    have rest: "drain_loop f (Some cb) data_base data_size head d1 = Some d'"
      using Suc.prems(1) True d1 by (simp add: drain_loop.simps)
    then obtain g where f: "f = Suc g" by (cases f) (simp_all add: drain_loop.simps)
    have inv1: "inv (dr_ctx d1)" using drain_step_tally [OF d1 Suc.prems(2)] by simp
    have "dr_ctx d1 = dr_ctx d \<or> (\<exists>p. dr_ctx d1 = cb p (dr_ctx d))"
      using d1 by (auto simp: drain_step_def Let_def split: if_splits)
    then have "\<exists>k \<le> n + 1. level k (dr_ctx d1)"
      using level_step [OF Suc.prems(2,3)] Suc.prems(3,4) f
      by (elim disjE exE) (auto intro: exI [of _ n] exI [of _ "n + 1"])
    then obtain k where "k \<le> n + 1" "level k (dr_ctx d1)" by blast
    with Suc.IH [OF rest inv1 this(2)] Suc.prems(4) show ?thesis by simp
  qed
qed (simp add: drain_loop.simps)

lemma ring_drain_level:
  assumes "perf_ring_drain page_size (Some r) (Some cb) ctx lost = Some (seen, ctx', lost', ring')"
    and "inv ctx" and "level 0 ctx"
  shows "\<exists>m < 2 ^ 64. level m ctx'"
proof -
  obtain b s where "ring_region page_size r = (b, s)" by fastforce
  with assms(1) obtain d' where d: "drain_loop (unat (rm_data_head r) - unat (rm_data_tail r) + 1) (Some cb) b s
      (rm_data_head r) \<lparr>dr_tail = rm_data_tail r, dr_seen = 0, dr_lost = lost, dr_ctx = ctx\<rparr> = Some d'"
    and "ctx' = dr_ctx d'"
    by (auto simp: perf_ring_drain_def)
  moreover have "0 + (unat (rm_data_head r) - unat (rm_data_tail r) + 1) \<le> 2 ^ 64"
    using unsigned_less [of "rm_data_head r", where 'a = nat] by simp
  ultimately show ?thesis using drain_loop_level [OF d] assms(2,3) by simp
qed

end

lemma ring_drain_returns:
  assumes "unat (rm_data_head r) + 2 ^ 16 \<le> 2 ^ 64"
  shows "\<exists>x. perf_ring_drain page_size (Some r) cb ctx lost = Some x"
proof -
  obtain b s where r: "ring_region page_size r = (b, s)" by fastforce
  from drain_loop_returns [OF assms,
      of "\<lparr>dr_tail = rm_data_tail r, dr_seen = 0, dr_lost = lost, dr_ctx = ctx\<rparr>"]
  show ?thesis by (fastforce simp: perf_ring_drain_def r)
qed

definition samples_of :: "ring_record list \<Rightarrow> ring_record list" where
  "samples_of rs = filter (\<lambda>r. rr_type r = PERF_RECORD_SAMPLE) rs"

definition losts_of :: "ring_record list \<Rightarrow> ring_record list" where
  "losts_of rs = filter (\<lambda>r. rr_type r = PERF_RECORD_LOST) rs"

lemma all_effects_eq:
  "all_effects (Some cb) rs \<lparr>dr_tail = t, dr_seen = n, dr_lost = Some l, dr_ctx = ctx\<rparr> =
   \<lparr>dr_tail = t, dr_seen = n + word_of_nat (length (samples_of rs)),
     dr_lost = Some (l + sum_list (map record_lost (losts_of rs))),
     dr_ctx = fold (\<lambda>r. cb (take PERF_RING_MAX_PAYLOAD (rr_payload r))) (samples_of rs) ctx\<rparr>"
proof (induction rs arbitrary: n l ctx)
  case (Cons r rs)
  then show ?case
    by (simp add: all_effects_def record_effect_def samples_of_def losts_of_def algebra_simps
        PERF_RECORD_SAMPLE_def PERF_RECORD_LOST_def)
qed (simp add: all_effects_def samples_of_def losts_of_def)

lemma records_bytes_ge: "length rs \<le> length (records_bytes rs)"
  by (induction rs) (simp_all add: records_bytes_def)

text \<open>C17: a drain of a ring whose bytes between tail and head (wherever the region's end splits them)
  are well-formed records hands every sample's payload, cut to 160 bytes, to the callback in order and
  exactly once, counts the samples, adds up the lost counts, and publishes the head as the new tail.\<close>
theorem perf_ring_drain_records:
  assumes "ring_region page_size r = (data_base, data_size)"
    and "length data_base = unat data_size" and "0 < data_size"
    and "\<forall>x \<in> set rs. ring_record_ok x"
    and "length (records_bytes rs) \<le> unat data_size"
    and "unat (rm_data_head r) = unat (rm_data_tail r) + length (records_bytes rs)"
    and "ring_stream data_base data_size (unat (rm_data_tail r)) (length (records_bytes rs)) = records_bytes rs"
  shows "perf_ring_drain page_size (Some r) (Some cb) ctx (Some lost) =
    Some (word_of_nat (length (samples_of rs)),
      fold (\<lambda>x. cb (take PERF_RING_MAX_PAYLOAD (rr_payload x))) (samples_of rs) ctx,
      Some (lost + sum_list (map record_lost (losts_of rs))),
      Some (r\<lparr>rm_data_tail := rm_data_head r\<rparr>))"
proof -
  let ?d = "\<lparr>dr_tail = rm_data_tail r, dr_seen = 0, dr_lost = Some lost, dr_ctx = ctx\<rparr>"
  have "drain_loop (unat (rm_data_head r) - unat (rm_data_tail r) + 1) (Some cb) data_base data_size
      (rm_data_head r) ?d = Some ((all_effects (Some cb) rs ?d)\<lparr>dr_tail := rm_data_head r\<rparr>)"
    using assms records_bytes_ge [of rs] by (intro drain_loop_records) simp_all
  then show ?thesis by (simp add: perf_ring_drain_def assms(1) all_effects_eq)
qed

text \<open>A sample record that straddles the end of a 16-byte region.\<close>

lemma perf_ring_drain_records_witness:
  "perf_ring_drain 4096
     (Some \<lparr>rm_mem = [1, 2, 3, 4, 5, 6, 7, 8, 9, 0, 0, 0, 0, 0, 16, 0], rm_data_head = 24,
        rm_data_tail = 8, rm_data_offset = 0, rm_data_size = 16\<rparr>)
     (Some (\<lambda>p ps. p # ps)) [] (Some 0)
   = Some (1, [[1, 2, 3, 4, 5, 6, 7, 8]], Some 0,
       Some \<lparr>rm_mem = [1, 2, 3, 4, 5, 6, 7, 8, 9, 0, 0, 0, 0, 0, 16, 0], rm_data_head = 24,
        rm_data_tail = 24, rm_data_offset = 0, rm_data_size = 16\<rparr>)"
  using perf_ring_drain_records [of 4096
      "\<lparr>rm_mem = [1, 2, 3, 4, 5, 6, 7, 8, 9, 0, 0, 0, 0, 0, 16, 0], rm_data_head = 24,
        rm_data_tail = 8, rm_data_offset = 0, rm_data_size = 16\<rparr>"
      "[1, 2, 3, 4, 5, 6, 7, 8, 9, 0, 0, 0, 0, 0, 16, 0]" 16
      "[\<lparr>rr_type = 9, rr_misc = 0, rr_payload = [1, 2, 3, 4, 5, 6, 7, 8]\<rparr>]" "\<lambda>p ps. p # ps" "[]" 0]
  by (simp add: ring_region_def ring_record_ok_def records_bytes_def record_bytes_def ring_stream_def
      ring_byte_def samples_of_def losts_of_def PERF_RECORD_SAMPLE_def PERF_RECORD_LOST_def
      PERF_RING_MAX_PAYLOAD_def le_bytes_numeral)

end
