(* ===== verification/Symbol_Sample.thy ===== *)
theory Symbol_Sample
  imports Perf_Ring
begin

text \<open>
  Symbol-level sampling (src/symbol_sample.c): the address histogram, the callback that decodes a
  sample's instruction pointer into it, the drain of a process's ring, and the event names.
  Addresses and counts are 64-bit words. \<open>can_grow\<close> is \<open>realloc\<close>'s outcome for a capacity: a failed
  one drops the sample.
\<close>

record addr_count =
  ac_addr :: u64
  ac_count :: u64

record symbol_sample_state =
  ss_ring :: "perf_ring option"
  ss_drained :: bool
  ss_samples_seen :: u64
  ss_samples_lost :: u64
  ss_decode_skipped :: u64
  ss_addrs :: "addr_count list"
  ss_addrs_cap :: nat

definition SYMBOL_SAMPLE_MMAP_DATA_PAGES :: nat where "SYMBOL_SAMPLE_MMAP_DATA_PAGES = 64"
definition SYMBOL_SAMPLE_INITIAL_CAPACITY :: nat where "SYMBOL_SAMPLE_INITIAL_CAPACITY = 64"

definition symbol_sample_mmap :: "int \<Rightarrow> (nat \<Rightarrow> perf_ring option) \<Rightarrow> symbol_sample_state option" where
  "symbol_sample_mmap page_size mmap =
     (case perf_ring_mmap page_size SYMBOL_SAMPLE_MMAP_DATA_PAGES mmap of
        None \<Rightarrow> None
      | Some (base, ring_len) \<Rightarrow>
          Some \<lparr>ss_ring = Some base, ss_drained = False, ss_samples_seen = 0, ss_samples_lost = 0,
            ss_decode_skipped = 0, ss_addrs = [], ss_addrs_cap = SYMBOL_SAMPLE_INITIAL_CAPACITY\<rparr>)"

text \<open>The linear scan: the histogram with the address's bucket incremented, if it has one.\<close>

fun bump_addr :: "addr_count list \<Rightarrow> u64 \<Rightarrow> addr_count list option" where
  "bump_addr [] addr = None"
| "bump_addr (b # bs) addr =
     (if ac_addr b = addr then Some (b\<lparr>ac_count := ac_count b + 1\<rparr> # bs)
      else map_option (\<lambda>bs'. b # bs') (bump_addr bs addr))"

definition symbol_sample_record_addr ::
  "(nat \<Rightarrow> bool) \<Rightarrow> u64 \<Rightarrow> symbol_sample_state \<Rightarrow> symbol_sample_state"
where
  "symbol_sample_record_addr can_grow addr s =
     (case bump_addr (ss_addrs s) addr of
        Some addrs \<Rightarrow> s\<lparr>ss_addrs := addrs\<rparr>
      | None \<Rightarrow>
          (let full = (length (ss_addrs s) = ss_addrs_cap s);
               new_cap = (if ss_addrs_cap s > 0 then ss_addrs_cap s * 2 else SYMBOL_SAMPLE_INITIAL_CAPACITY)
           in if full \<and> \<not> can_grow new_cap then s
              else s\<lparr>ss_addrs := ss_addrs s @ [\<lparr>ac_addr = addr, ac_count = 1\<rparr>],
                     ss_addrs_cap := (if full then new_cap else ss_addrs_cap s)\<rparr>))"

definition symbol_sample_record_cb ::
  "(nat \<Rightarrow> bool) \<Rightarrow> u8 list \<Rightarrow> symbol_sample_state \<Rightarrow> symbol_sample_state"
where
  "symbol_sample_record_cb can_grow payload s =
     (if length payload < 8 then s\<lparr>ss_decode_skipped := ss_decode_skipped s + 1\<rparr>
      else symbol_sample_record_addr can_grow (word_of_nat (le_value (take 8 payload))) s)"

definition symbol_sample_drain ::
  "(nat \<Rightarrow> bool) \<Rightarrow> int \<Rightarrow> symbol_sample_state option \<Rightarrow> symbol_sample_state option option"
where
  "symbol_sample_drain can_grow page_size state =
     (case state of
        None \<Rightarrow> Some None
      | Some s \<Rightarrow>
          if ss_ring s = None \<or> ss_drained s then Some (Some s)
          else
            (case perf_ring_drain page_size (ss_ring s) (Some (symbol_sample_record_cb can_grow))
                (s\<lparr>ss_drained := True\<rparr>) (Some (ss_samples_lost s)) of
               None \<Rightarrow> None
             | Some (seen, s', lost, ring) \<Rightarrow>
                 Some (Some (s'\<lparr>ss_samples_seen := seen,
                   ss_samples_lost := (case lost of Some l \<Rightarrow> l | None \<Rightarrow> ss_samples_lost s'),
                   ss_ring := ring\<rparr>))))"

section \<open>Event names\<close>

datatype symbol_sample_event =
  SYMBOL_SAMPLE_EVENT_CYCLES | SYMBOL_SAMPLE_EVENT_INSTRUCTIONS
| SYMBOL_SAMPLE_EVENT_CACHE_MISSES | SYMBOL_SAMPLE_EVENT_BRANCH_MISSES

record symbol_sample_event_info =
  si_event :: symbol_sample_event
  si_config :: u64
  si_name :: string
  si_default_period :: u64

text \<open>The configs are the kernel's \<open>PERF_COUNT_HW_CPU_CYCLES\<close> and its neighbours.\<close>

definition symbol_sample_events :: "symbol_sample_event_info list" where
  "symbol_sample_events =
     [\<lparr>si_event = SYMBOL_SAMPLE_EVENT_CYCLES, si_config = 0, si_name = ''cycles'', si_default_period = 1000000\<rparr>,
      \<lparr>si_event = SYMBOL_SAMPLE_EVENT_INSTRUCTIONS, si_config = 1, si_name = ''instructions'', si_default_period = 1000000\<rparr>,
      \<lparr>si_event = SYMBOL_SAMPLE_EVENT_CACHE_MISSES, si_config = 3, si_name = ''cache-misses'', si_default_period = 10000\<rparr>,
      \<lparr>si_event = SYMBOL_SAMPLE_EVENT_BRANCH_MISSES, si_config = 5, si_name = ''branch-misses'', si_default_period = 10000\<rparr>]"

text \<open>\<open>None\<close>: the \<open>-1\<close> return, with \<open>*out\<close> untouched.\<close>

definition symbol_sample_parse_event :: "string option \<Rightarrow> symbol_sample_event option" where
  "symbol_sample_parse_event arg =
     (if arg = None \<or> arg = Some [] then Some SYMBOL_SAMPLE_EVENT_CYCLES
      else map_option si_event (find (\<lambda>e. Some (si_name e) = arg) symbol_sample_events))"

definition symbol_sample_event_info :: "symbol_sample_event \<Rightarrow> symbol_sample_event_info" where
  "symbol_sample_event_info ev =
     symbol_sample_events !
       (case ev of SYMBOL_SAMPLE_EVENT_CYCLES \<Rightarrow> 0 | SYMBOL_SAMPLE_EVENT_INSTRUCTIONS \<Rightarrow> 1
        | SYMBOL_SAMPLE_EVENT_CACHE_MISSES \<Rightarrow> 2 | SYMBOL_SAMPLE_EVENT_BRANCH_MISSES \<Rightarrow> 3)"

definition symbol_sample_event_name :: "symbol_sample_event \<Rightarrow> string" where
  "symbol_sample_event_name ev = si_name (symbol_sample_event_info ev)"

lemma parse_event_name: "symbol_sample_parse_event (Some (symbol_sample_event_name ev)) = Some ev"
  by (cases ev)
    (simp_all add: symbol_sample_parse_event_def symbol_sample_event_name_def symbol_sample_event_info_def
      symbol_sample_events_def)

section \<open>The histogram\<close>

definition hist_total :: "addr_count list \<Rightarrow> u64" where
  "hist_total bs = sum_list (map ac_count bs)"

definition hist_lookup :: "addr_count list \<Rightarrow> u64 \<Rightarrow> u64" where
  "hist_lookup bs addr = (case find (\<lambda>b. ac_addr b = addr) bs of None \<Rightarrow> 0 | Some b \<Rightarrow> ac_count b)"

definition hist_inv :: "symbol_sample_state \<Rightarrow> bool" where
  "hist_inv s \<longleftrightarrow> distinct (map ac_addr (ss_addrs s)) \<and> length (ss_addrs s) \<le> ss_addrs_cap s"

lemma bump_addr_None: "bump_addr bs addr = None \<longleftrightarrow> addr \<notin> set (map ac_addr bs)"
  by (induction bs) auto

lemma hist_simps [simp]:
  "hist_total [] = 0" "hist_total (b # bs) = ac_count b + hist_total bs"
  "hist_lookup [] a = 0"
  "hist_lookup (b # bs) a = (if ac_addr b = a then ac_count b else hist_lookup bs a)"
  by (simp_all add: hist_total_def hist_lookup_def)

lemma bump_addr_Some:
  "bump_addr bs addr = Some bs' \<Longrightarrow>
   map ac_addr bs' = map ac_addr bs \<and> hist_total bs' = hist_total bs + 1 \<and>
   (\<forall>a. hist_lookup bs' a = hist_lookup bs a + (if a = addr then 1 else 0))"
proof (induction bs arbitrary: bs')
  case (Cons b bs)
  show ?case
  proof (cases "ac_addr b = addr")
    case True
    with Cons.prems show ?thesis by auto
  next
    case False
    with Cons.prems obtain bs1 where "bump_addr bs addr = Some bs1" "bs' = b # bs1" by auto
    with Cons.IH [OF this(1)] False show ?thesis by simp
  qed
qed simp

lemma hist_append_new:
  "a \<notin> set (map ac_addr bs) \<Longrightarrow>
   hist_lookup (bs @ [\<lparr>ac_addr = a, ac_count = 1\<rparr>]) x = hist_lookup bs x + (if x = a then 1 else 0)"
  "hist_total (bs @ [\<lparr>ac_addr = a, ac_count = 1\<rparr>]) = hist_total bs + 1"
  by (induction bs) auto

text \<open>With memory to grow, recording an address adds one to that address's count and to no other.\<close>

lemma record_addr_effect:
  assumes "hist_inv s" and "\<And>n. can_grow n"
  shows "hist_inv (symbol_sample_record_addr can_grow addr s)"
    and "hist_total (ss_addrs (symbol_sample_record_addr can_grow addr s)) = hist_total (ss_addrs s) + 1"
    and "hist_lookup (ss_addrs (symbol_sample_record_addr can_grow addr s)) a
           = hist_lookup (ss_addrs s) a + (if a = addr then 1 else 0)"
    and "ss_decode_skipped (symbol_sample_record_addr can_grow addr s) = ss_decode_skipped s"
proof -
  let ?s = "symbol_sample_record_addr can_grow addr s"
  have "hist_inv ?s \<and> hist_total (ss_addrs ?s) = hist_total (ss_addrs s) + 1 \<and>
    hist_lookup (ss_addrs ?s) a = hist_lookup (ss_addrs s) a + (if a = addr then 1 else 0) \<and>
    ss_decode_skipped ?s = ss_decode_skipped s"
  proof (cases "bump_addr (ss_addrs s) addr")
    case None
    then have new: "addr \<notin> set (map ac_addr (ss_addrs s))" using bump_addr_None by blast
    with assms show ?thesis
      by (simp add: symbol_sample_record_addr_def None Let_def hist_inv_def hist_append_new
          SYMBOL_SAMPLE_INITIAL_CAPACITY_def)
  next
    case (Some bs)
    have "length bs = length (ss_addrs s)"
      using bump_addr_Some [OF Some] map_eq_imp_length_eq by blast
    with Some bump_addr_Some [OF Some] assms(1) show ?thesis
      by (simp add: symbol_sample_record_addr_def hist_inv_def)
  qed
  then show "hist_inv ?s" "hist_total (ss_addrs ?s) = hist_total (ss_addrs s) + 1"
    "hist_lookup (ss_addrs ?s) a = hist_lookup (ss_addrs s) a + (if a = addr then 1 else 0)"
    "ss_decode_skipped ?s = ss_decode_skipped s" by blast+
qed

definition symbol_tally :: "symbol_sample_state \<Rightarrow> u64" where
  "symbol_tally s = hist_total (ss_addrs s) + ss_decode_skipped s"

text \<open>The capture keeps the ring's contract: no sample is lost between the ring and the histogram.\<close>

interpretation symbol_ring: ring_client "symbol_sample_record_cb (\<lambda>_. True)" symbol_tally hist_inv
proof
  fix s p
  assume "hist_inv s"
  then show "symbol_tally (symbol_sample_record_cb (\<lambda>_. True) p s) = symbol_tally s + 1"
    by (simp add: symbol_sample_record_cb_def symbol_tally_def record_addr_effect)
  show "hist_inv (symbol_sample_record_cb (\<lambda>_. True) p s)"
    using \<open>hist_inv s\<close> record_addr_effect(1) [of s "\<lambda>_. True"]
    by (simp add: symbol_sample_record_cb_def hist_inv_def)
qed

text \<open>After a drain of a fresh state, whatever the ring held, the number of samples seen is the sum
  of the histogram's counts and the records too short to decode; each address has one bucket, and the
  array is not over its capacity.\<close>
theorem symbol_sample_drain_accounts:
  assumes "symbol_sample_mmap page_size mmap = Some s"
    and "symbol_sample_drain (\<lambda>_. True) page_size (Some s) = Some (Some s')"
  shows "ss_samples_seen s' = hist_total (ss_addrs s') + ss_decode_skipped s' \<and>
    distinct (map ac_addr (ss_addrs s')) \<and> length (ss_addrs s') \<le> ss_addrs_cap s'"
proof -
  obtain base where s: "s = \<lparr>ss_ring = Some base, ss_drained = False, ss_samples_seen = 0,
      ss_samples_lost = 0, ss_decode_skipped = 0, ss_addrs = [],
      ss_addrs_cap = SYMBOL_SAMPLE_INITIAL_CAPACITY\<rparr>"
    using assms(1) by (auto simp: symbol_sample_mmap_def split: option.splits)
  let ?s = "s\<lparr>ss_drained := True\<rparr>"
  obtain seen s1 lost ring where d: "perf_ring_drain page_size (Some base)
      (Some (symbol_sample_record_cb (\<lambda>_. True))) ?s (Some 0) = Some (seen, s1, lost, ring)"
    and s': "s' = s1\<lparr>ss_samples_seen := seen,
      ss_samples_lost := (case lost of Some l \<Rightarrow> l | None \<Rightarrow> ss_samples_lost s1), ss_ring := ring\<rparr>"
    using assms(2) by (auto simp: s symbol_sample_drain_def split: option.splits prod.splits)
  have "hist_inv ?s" by (simp add: s hist_inv_def)
  from symbol_ring.ring_drain_tally [OF d this] show ?thesis
    by (simp add: s s' symbol_tally_def hist_inv_def hist_total_def)
qed

text \<open>Two samples at the same address and one at another.\<close>

lemma symbol_sample_drain_accounts_witness:
  "\<exists>s s'. symbol_sample_mmap 4096 (\<lambda>_. Some \<lparr>rm_mem =
        [9, 0, 0, 0, 0, 0, 16, 0, 5, 0, 0, 0, 0, 0, 0, 0, 9, 0, 0, 0, 0, 0, 8, 0,
         9, 0, 0, 0, 0, 0, 16, 0, 5, 0, 0, 0, 0, 0, 0, 0],
        rm_data_head = 40, rm_data_tail = 0, rm_data_offset = 0, rm_data_size = 40\<rparr>) = Some s \<and>
     symbol_sample_drain (\<lambda>_. True) 4096 (Some s) = Some (Some s') \<and>
     ss_addrs s' = [\<lparr>ac_addr = 5, ac_count = 2\<rparr>] \<and> ss_decode_skipped s' = 1 \<and>
     ss_samples_seen s' = hist_total (ss_addrs s') + ss_decode_skipped s'"
proof -
  let ?r = "\<lparr>rm_mem =
        [9, 0, 0, 0, 0, 0, 16, 0, 5, 0, 0, 0, 0, 0, 0, 0, 9, 0, 0, 0, 0, 0, 8, 0,
         9, 0, 0, 0, 0, 0, 16, 0, 5, 0, 0, 0, 0, 0, 0, 0],
        rm_data_head = 40, rm_data_tail = 0, rm_data_offset = 0, rm_data_size = 40\<rparr>"
  obtain s where s: "symbol_sample_mmap 4096 (\<lambda>_. Some ?r) = Some s" "s = \<lparr>ss_ring = Some ?r,
      ss_drained = False, ss_samples_seen = 0, ss_samples_lost = 0, ss_decode_skipped = 0, ss_addrs = [],
      ss_addrs_cap = 64\<rparr>"
    by (simp add: symbol_sample_mmap_def perf_ring_mmap_def perf_ring_len_def Let_def
        SYMBOL_SAMPLE_INITIAL_CAPACITY_def)
  obtain s' where s': "symbol_sample_drain (\<lambda>_. True) 4096 (Some s) = Some (Some s')"
    "ss_addrs s' = [\<lparr>ac_addr = 5, ac_count = 2\<rparr>]" "ss_decode_skipped s' = 1"
    by (simp add: s(2) symbol_sample_drain_def perf_ring_drain_def ring_region_def drain_loop_numeral
        drain_step_def ring_read_def hdr_size_def hdr_type_def PERF_RECORD_SAMPLE_def Let_def
        PERF_RING_MAX_PAYLOAD_def symbol_sample_record_cb_def symbol_sample_record_addr_def)
  from symbol_sample_drain_accounts [OF s(1) s'(1)] s(1) s' show ?thesis by blast
qed

end
