(* ===== verification/Ibs_Sample.thy ===== *)
theory Ibs_Sample
  imports Perf_Ring C_Double
begin

text \<open>
  AMD IBS sampling (src/ibs_sample.c): the decode of one record's words into the aggregate counts,
  the ring callback that finds those words in a raw payload, the drain, and the report of the rates.
  What \<open>ibs_probe\<close> reads from sysfs at print time, the \<open>zen4_ibs_extensions\<close> capability, is a
  parameter of the report.
\<close>

record ibs_sample_state =
  is_ring :: "perf_ring option"
  is_is_op :: bool
  is_drained :: bool
  is_samples_seen :: u64
  is_samples_lost :: u64
  is_decode_skipped :: u64
  is_op_count :: u64
  is_op_brn_ret_count :: u64
  is_op_brn_misp_count :: u64
  is_op_dc_miss_count :: u64
  is_op_dc_l1tlb_miss_count :: u64
  is_op_dc_l2tlb_miss_count :: u64
  is_op_dram_count :: u64
  is_op_remote_node_count :: u64
  is_op_data_src_count :: "u64 list"
  is_op_data_src_other_count :: u64
  is_fetch_count :: u64
  is_fetch_ic_miss_count :: u64
  is_fetch_l1tlb_miss_count :: u64
  is_fetch_l2tlb_miss_count :: u64

definition IBS_SAMPLE_MMAP_DATA_PAGES :: nat where "IBS_SAMPLE_MMAP_DATA_PAGES = 64"
definition IBS_SAMPLE_DATA_SRC_TABLE_SIZE :: nat where "IBS_SAMPLE_DATA_SRC_TABLE_SIZE = 13"
definition IBS_SAMPLE_MAX_WORDS :: nat where "IBS_SAMPLE_MAX_WORDS = 16"

text \<open>\<open>calloc\<close>: every count zero.\<close>

definition ibs_sample_zero :: "perf_ring option \<Rightarrow> bool \<Rightarrow> ibs_sample_state" where
  "ibs_sample_zero ring op =
     \<lparr>is_ring = ring, is_is_op = op, is_drained = False, is_samples_seen = 0, is_samples_lost = 0,
      is_decode_skipped = 0, is_op_count = 0, is_op_brn_ret_count = 0, is_op_brn_misp_count = 0,
      is_op_dc_miss_count = 0, is_op_dc_l1tlb_miss_count = 0, is_op_dc_l2tlb_miss_count = 0,
      is_op_dram_count = 0, is_op_remote_node_count = 0,
      is_op_data_src_count = replicate IBS_SAMPLE_DATA_SRC_TABLE_SIZE 0,
      is_op_data_src_other_count = 0, is_fetch_count = 0, is_fetch_ic_miss_count = 0,
      is_fetch_l1tlb_miss_count = 0, is_fetch_l2tlb_miss_count = 0\<rparr>"

definition ibs_sample_mmap :: "int \<Rightarrow> (nat \<Rightarrow> perf_ring option) \<Rightarrow> bool \<Rightarrow> ibs_sample_state option" where
  "ibs_sample_mmap page_size mmap op =
     (case perf_ring_mmap page_size IBS_SAMPLE_MMAP_DATA_PAGES mmap of
        None \<Rightarrow> None
      | Some (base, ring_len) \<Rightarrow> Some (ibs_sample_zero (Some base) op))"

definition bump :: "bool \<Rightarrow> u64 \<Rightarrow> u64" where
  "bump b n = (if b then n + 1 else n)"

text \<open>\<open>words\<close> holds exactly the \<open>nwords\<close> words present. \<open>bit w n\<close> is \<open>(w >> n) & 1\<close>.\<close>

definition decode_op_data :: "u64 \<Rightarrow> ibs_sample_state \<Rightarrow> ibs_sample_state" where
  "decode_op_data w s =
     (if bit w 37 then
        s\<lparr>is_op_brn_ret_count := is_op_brn_ret_count s + 1,
          is_op_brn_misp_count := bump (bit w 36) (is_op_brn_misp_count s)\<rparr>
      else s)"

definition decode_op_data3 :: "u64 \<Rightarrow> ibs_sample_state \<Rightarrow> ibs_sample_state" where
  "decode_op_data3 w s =
     s\<lparr>is_op_dc_miss_count := bump (bit w 7) (is_op_dc_miss_count s),
       is_op_dc_l1tlb_miss_count := bump (bit w 2) (is_op_dc_l1tlb_miss_count s),
       is_op_dc_l2tlb_miss_count := bump (bit w 3) (is_op_dc_l2tlb_miss_count s)\<rparr>"

definition data_src_index :: "u64 \<Rightarrow> nat" where
  "data_src_index w =
     unat (or (push_bit 3 (and (drop_bit 6 w) 3)) (and w 7))"

definition decode_op_data2 :: "u64 \<Rightarrow> ibs_sample_state \<Rightarrow> ibs_sample_state" where
  "decode_op_data2 w s =
     (let data_src = data_src_index w;
          s1 = s\<lparr>is_op_remote_node_count := bump (bit w 4) (is_op_remote_node_count s),
                 is_op_dram_count := bump (data_src = 3) (is_op_dram_count s)\<rparr>
      in if data_src < IBS_SAMPLE_DATA_SRC_TABLE_SIZE then
           s1\<lparr>is_op_data_src_count :=
             (is_op_data_src_count s1)[data_src := is_op_data_src_count s1 ! data_src + 1]\<rparr>
         else s1\<lparr>is_op_data_src_other_count := is_op_data_src_other_count s1 + 1\<rparr>)"

definition ibs_sample_decode_op :: "u64 list \<Rightarrow> ibs_sample_state \<Rightarrow> ibs_sample_state" where
  "ibs_sample_decode_op words s =
     (let nwords = length words in
      if nwords = 0 then s
      else
        (let s1 = s\<lparr>is_op_count := is_op_count s + 1\<rparr>;
             s2 = (if nwords > 2 then decode_op_data (words ! 2) s1 else s1);
             s3 = (if nwords > 4 then decode_op_data3 (words ! 4) s2 else s2)
         in if nwords > 3 then decode_op_data2 (words ! 3) s3 else s3))"

definition ibs_sample_decode_fetch :: "u64 list \<Rightarrow> ibs_sample_state \<Rightarrow> ibs_sample_state" where
  "ibs_sample_decode_fetch words s =
     (case words of
        [] \<Rightarrow> s
      | w # _ \<Rightarrow>
          s\<lparr>is_fetch_count := is_fetch_count s + 1,
            is_fetch_ic_miss_count := bump (bit w 51) (is_fetch_ic_miss_count s),
            is_fetch_l1tlb_miss_count := bump (bit w 55) (is_fetch_l1tlb_miss_count s),
            is_fetch_l2tlb_miss_count := bump (bit w 56) (is_fetch_l2tlb_miss_count s)\<rparr>)"

fun words_of :: "nat \<Rightarrow> u8 list \<Rightarrow> u64 list" where
  "words_of 0 bs = []"
| "words_of (Suc n) bs = word_of_nat (le_value (take 8 bs)) # words_of n (drop 8 bs)"

lemma words_of_numeral:
  "words_of (numeral k) bs = word_of_nat (le_value (take 8 bs)) # words_of (pred_numeral k) (drop 8 bs)"
  by (subst numeral_eq_Suc) (rule words_of.simps(2))

text \<open>The words the payload really holds: what \<open>raw_size\<close> announces, cut to what was copied and to
  the scratch buffer.\<close>

definition ibs_sample_words :: "u8 list \<Rightarrow> u64 list" where
  "ibs_sample_words payload =
     (let raw_size = (if length payload \<ge> 4 then le_value (take 4 payload) else 0) in
      if raw_size > 4 \<and> length payload > 8 then
        words_of
          (min (min ((raw_size - 4) div 8) ((length payload - 8) div 8)) IBS_SAMPLE_MAX_WORDS)
          (drop 8 payload)
      else [])"

definition ibs_sample_record_cb :: "u8 list \<Rightarrow> ibs_sample_state \<Rightarrow> ibs_sample_state" where
  "ibs_sample_record_cb payload s =
     (let words = ibs_sample_words payload in
      if words \<noteq> [] then
        (if is_is_op s then ibs_sample_decode_op words s else ibs_sample_decode_fetch words s)
      else s\<lparr>is_decode_skipped := is_decode_skipped s + 1\<rparr>)"

definition ibs_sample_drain :: "int \<Rightarrow> ibs_sample_state option \<Rightarrow> ibs_sample_state option option" where
  "ibs_sample_drain page_size state =
     (case state of
        None \<Rightarrow> Some None
      | Some s \<Rightarrow>
          if is_ring s = None \<or> is_drained s then Some (Some s)
          else
            (case perf_ring_drain page_size (is_ring s) (Some ibs_sample_record_cb)
                (s\<lparr>is_drained := True\<rparr>) (Some (is_samples_lost s)) of
               None \<Rightarrow> None
             | Some (seen, s', lost, ring) \<Rightarrow>
                 Some (Some (s'\<lparr>is_samples_seen := seen,
                   is_samples_lost := (case lost of Some l \<Rightarrow> l | None \<Rightarrow> is_samples_lost s'),
                   is_ring := ring\<rparr>))))"

section \<open>The contract with the ring\<close>

definition ibs_tally :: "ibs_sample_state \<Rightarrow> u64" where
  "ibs_tally s = (if is_is_op s then is_op_count s else is_fetch_count s) + is_decode_skipped s"

text \<open>A decode only touches the counts of its own side.\<close>

definition same_fetch_side :: "ibs_sample_state \<Rightarrow> ibs_sample_state \<Rightarrow> bool" where
  "same_fetch_side s s' \<longleftrightarrow>
     is_fetch_count s' = is_fetch_count s \<and> is_fetch_ic_miss_count s' = is_fetch_ic_miss_count s \<and>
     is_fetch_l1tlb_miss_count s' = is_fetch_l1tlb_miss_count s \<and>
     is_fetch_l2tlb_miss_count s' = is_fetch_l2tlb_miss_count s \<and>
     is_is_op s' = is_is_op s \<and> is_decode_skipped s' = is_decode_skipped s \<and> is_ring s' = is_ring s"

definition op_step :: "ibs_sample_state \<Rightarrow> u64 \<Rightarrow> ibs_sample_state \<Rightarrow> bool" where
  "op_step s n t \<longleftrightarrow> same_fetch_side s t \<and> is_op_count t = n"

lemma op_step_parts:
  "op_step s n t \<Longrightarrow> op_step s n (decode_op_data w t)"
  "op_step s n t \<Longrightarrow> op_step s n (decode_op_data2 w t)"
  "op_step s n t \<Longrightarrow> op_step s n (decode_op_data3 w t)"
  by (simp_all add: op_step_def same_fetch_side_def decode_op_data_def decode_op_data2_def
      decode_op_data3_def Let_def)

lemma op_step_if: "op_step s n t \<Longrightarrow> op_step s n u \<Longrightarrow> op_step s n (if b then u else t)"
  by simp

lemma decode_op_side:
  "words \<noteq> [] \<Longrightarrow> op_step s (is_op_count s + 1) (ibs_sample_decode_op words s)"
  unfolding ibs_sample_decode_op_def Let_def
  by (simp only: length_0_conv if_False)
    (intro op_step_if op_step_parts; simp add: op_step_def same_fetch_side_def)

definition data_src_total :: "ibs_sample_state \<Rightarrow> u64" where
  "data_src_total s = sum_list (is_op_data_src_count s) + is_op_data_src_other_count s"

definition ibs_inv :: "ibs_sample_state \<Rightarrow> bool" where
  "ibs_inv s \<longleftrightarrow> length (is_op_data_src_count s) = IBS_SAMPLE_DATA_SRC_TABLE_SIZE"

lemma ibs_inv_decode:
  "ibs_inv s \<Longrightarrow> ibs_inv (ibs_sample_decode_op words s)"
  "ibs_inv s \<Longrightarrow> ibs_inv (ibs_sample_decode_fetch words s)"
  by (simp_all add: ibs_inv_def ibs_sample_decode_op_def ibs_sample_decode_fetch_def decode_op_data_def
      decode_op_data2_def decode_op_data3_def Let_def split: list.split)

definition ibs_level :: "nat \<Rightarrow> ibs_sample_state \<Rightarrow> bool" where
  "ibs_level n s \<longleftrightarrow>
     unat (is_op_count s) \<le> n \<and>
     unat (is_op_brn_misp_count s) \<le> unat (is_op_brn_ret_count s) \<and>
     unat (is_op_brn_ret_count s) \<le> unat (is_op_count s) \<and>
     unat (is_op_dc_miss_count s) \<le> unat (is_op_count s) \<and>
     unat (is_op_dc_l1tlb_miss_count s) \<le> unat (is_op_count s) \<and>
     unat (is_op_dc_l2tlb_miss_count s) \<le> unat (is_op_count s) \<and>
     unat (is_op_dram_count s) \<le> unat (is_op_count s) \<and>
     unat (is_op_remote_node_count s) \<le> unat (is_op_count s) \<and>
     sum_list (map unat (is_op_data_src_count s)) + unat (is_op_data_src_other_count s)
       \<le> unat (is_op_count s) \<and>
     unat (is_fetch_count s) \<le> n \<and>
     unat (is_fetch_ic_miss_count s) \<le> unat (is_fetch_count s) \<and>
     unat (is_fetch_l1tlb_miss_count s) \<le> unat (is_fetch_count s) \<and>
     unat (is_fetch_l2tlb_miss_count s) \<le> unat (is_fetch_count s)"

text \<open>One more on a count below the top does not wrap.\<close>

lemma unat_inc: "unat (n :: u64) + 1 < 2 ^ 64 \<Longrightarrow> unat (n + 1) = unat n + 1"
  by (subst unat_add_lem [THEN iffD1]) simp_all

lemma bump_le: "unat (bump b n) \<le> unat n + 1"
  by (simp add: bump_def unat_word_ariths)

lemma sum_list_inc:
  "i < length xs \<Longrightarrow> sum_list (map unat (xs[i := xs ! i + 1])) \<le> sum_list (map unat (xs :: u64 list)) + 1"
proof (induction xs arbitrary: i)
  case (Cons x xs)
  then show ?case using bump_le [of True x] by (cases i) (auto simp: bump_def)
qed simp

text \<open>Every count of a decode, as the old one bumped or not.\<close>

lemma decode_op_counts:
  assumes "words \<noteq> []"
  shows "is_op_dc_miss_count (ibs_sample_decode_op words s)
      = bump (length words > 4 \<and> bit (words ! 4) 7) (is_op_dc_miss_count s)"
    and "is_op_dc_l1tlb_miss_count (ibs_sample_decode_op words s)
      = bump (length words > 4 \<and> bit (words ! 4) 2) (is_op_dc_l1tlb_miss_count s)"
    and "is_op_dc_l2tlb_miss_count (ibs_sample_decode_op words s)
      = bump (length words > 4 \<and> bit (words ! 4) 3) (is_op_dc_l2tlb_miss_count s)"
    and "is_op_brn_ret_count (ibs_sample_decode_op words s)
      = bump (length words > 2 \<and> bit (words ! 2) 37) (is_op_brn_ret_count s)"
    and "is_op_brn_misp_count (ibs_sample_decode_op words s)
      = bump (length words > 2 \<and> bit (words ! 2) 37 \<and> bit (words ! 2) 36) (is_op_brn_misp_count s)"
    and "is_op_dram_count (ibs_sample_decode_op words s)
      = bump (length words > 3 \<and> data_src_index (words ! 3) = 3) (is_op_dram_count s)"
    and "is_op_remote_node_count (ibs_sample_decode_op words s)
      = bump (length words > 3 \<and> bit (words ! 3) 4) (is_op_remote_node_count s)"
  using assms
  by (simp_all add: ibs_sample_decode_op_def decode_op_data_def decode_op_data2_def decode_op_data3_def
      Let_def bump_def)

lemma decode_op_sources:
  assumes "ibs_inv s"
  shows "sum_list (map unat (is_op_data_src_count (ibs_sample_decode_op words s)))
      + unat (is_op_data_src_other_count (ibs_sample_decode_op words s))
    \<le> sum_list (map unat (is_op_data_src_count s)) + unat (is_op_data_src_other_count s) + 1"
proof -
  have step: "sum_list (map unat (is_op_data_src_count (decode_op_data2 w t)))
      + unat (is_op_data_src_other_count (decode_op_data2 w t))
    \<le> sum_list (map unat (is_op_data_src_count t)) + unat (is_op_data_src_other_count t) + 1"
    if "ibs_inv t" for w t
    using that sum_list_inc [of "data_src_index w" "is_op_data_src_count t"]
      bump_le [of True "is_op_data_src_other_count t"]
    by (simp add: decode_op_data2_def Let_def ibs_inv_def bump_def)
  obtain t where t: "t = (let s1 = s\<lparr>is_op_count := is_op_count s + 1\<rparr>;
      s2 = (if length words > 2 then decode_op_data (words ! 2) s1 else s1)
    in (if length words > 4 then decode_op_data3 (words ! 4) s2 else s2))"
    by blast
  have same: "is_op_data_src_count t = is_op_data_src_count s"
    "is_op_data_src_other_count t = is_op_data_src_other_count s" "ibs_inv t"
    using assms by (simp_all add: t Let_def decode_op_data_def decode_op_data3_def ibs_inv_def)
  have "ibs_sample_decode_op words s =
    (if words = [] then s else if length words > 3 then decode_op_data2 (words ! 3) t else t)"
    by (simp add: ibs_sample_decode_op_def Let_def t)
  with step [OF same(3), of "words ! 3"] same show ?thesis by simp
qed

lemma ibs_level_op:
  assumes "ibs_inv s" and "ibs_level n s" and "n + 1 < 2 ^ 64" and "words \<noteq> []"
  shows "ibs_level (n + 1) (ibs_sample_decode_op words s)"
proof -
  let ?t = "ibs_sample_decode_op words s"
  have c: "unat (is_op_count ?t) = unat (is_op_count s) + 1"
    using decode_op_side [OF assms(4)] assms(2,3) by (simp add: op_step_def unat_inc ibs_level_def)
  have b: "unat (is_op_brn_misp_count ?t) \<le> unat (is_op_brn_ret_count ?t)"
    using assms(2,3) bump_le [of True "is_op_brn_misp_count s"]
    by (auto simp: decode_op_counts [OF assms(4)] bump_def ibs_level_def unat_inc)
  have f: "same_fetch_side s ?t"
    using decode_op_side [OF assms(4)] by (simp add: op_step_def)
  have d: "unat (bump x m) \<le> Suc (unat (is_op_count s))" if "unat m \<le> unat (is_op_count s)" for x m
    using that bump_le [of x m] c by linarith
  have e: "sum_list (map unat (is_op_data_src_count ?t)) + unat (is_op_data_src_other_count ?t)
      \<le> unat (is_op_count ?t)"
    using decode_op_sources [OF assms(1), of words] assms(2) c by (simp add: ibs_level_def)
  from assms(2) c b f e show ?thesis
    by (simp add: ibs_level_def same_fetch_side_def decode_op_counts [OF assms(4)] d)
qed

lemma ibs_level_fetch:
  assumes "ibs_level n s" and "n + 1 < 2 ^ 64"
  shows "ibs_level (n + 1) (ibs_sample_decode_fetch words s)"
proof (cases words)
  case (Cons w ws)
  have c: "unat (is_fetch_count s + 1) = unat (is_fetch_count s) + 1"
    using assms by (simp add: unat_inc ibs_level_def)
  have d: "unat (bump x m) \<le> Suc (unat (is_fetch_count s))" if "unat m \<le> unat (is_fetch_count s)" for x m
    using that bump_le [of x m] by linarith
  from assms(1) d show ?thesis by (simp add: ibs_level_def Cons ibs_sample_decode_fetch_def c)
qed (use assms(1) in \<open>simp add: ibs_level_def ibs_sample_decode_fetch_def\<close>)

interpretation ibs_ring: ring_counter ibs_sample_record_cb ibs_tally ibs_inv ibs_level
proof
  fix s p n
  assume inv: "ibs_inv s"
  show "ibs_tally (ibs_sample_record_cb p s) = ibs_tally s + 1"
  proof (cases "ibs_sample_words p")
    case Nil
    then show ?thesis by (simp add: ibs_sample_record_cb_def ibs_tally_def)
  next
    case (Cons w ws)
    with decode_op_side [of "w # ws" s] show ?thesis
      by (simp add: ibs_sample_record_cb_def ibs_tally_def op_step_def same_fetch_side_def
          ibs_sample_decode_fetch_def)
  qed
  show "ibs_inv (ibs_sample_record_cb p s)"
    using inv ibs_inv_decode by (simp add: ibs_sample_record_cb_def Let_def) (simp add: ibs_inv_def)
  show "ibs_level (n + 1) (ibs_sample_record_cb p s)" if "ibs_level n s" "n + 1 < 2 ^ 64"
    using ibs_level_op [OF inv that] ibs_level_fetch [OF that] that
    by (simp add: ibs_sample_record_cb_def Let_def) (simp add: ibs_level_def)
qed

section \<open>The report\<close>

definition sample_rate :: "u64 \<Rightarrow> u64 \<Rightarrow> double" where
  "sample_rate numerator denominator =
     (if denominator = 0 then Fin 0
      else ddiv (double_of_int (int (unat numerator))) (double_of_int (int (unat denominator))))"

definition ibs_data_src_names_default :: "string option list" where
  "ibs_data_src_names_default =
     [None, None, Some ''Local node cache'', Some ''DRAM'', Some ''Remote node cache'', None, None,
      Some ''Other'', None, None, None, None, None]"

definition ibs_data_src_names_zen4_ext :: "string option list" where
  "ibs_data_src_names_zen4_ext =
     [None, Some ''Local L3 or other L1/L2 in CCX'', Some ''Another CCX cache in the same NUMA node'',
      Some ''DRAM'', None, Some ''Another CCX cache in a different NUMA node'', Some ''Long-latency DIMM'',
      Some ''MMIO/Config/PCI/APIC'', Some ''Extension Memory'', None, None, None,
      Some ''Coherent Memory of a different processor type'']"

text \<open>A breakdown row: \<open>"  %-46s %5.1f%%\n"\<close>.\<close>

definition percent :: "u64 \<Rightarrow> u64 \<Rightarrow> string" where
  "percent n d = fmt_fixed_w 5 1 (dmul (sample_rate n d) (Fin 100)) @ ''%''"

definition breakdown_row :: "string \<Rightarrow> u64 \<Rightarrow> u64 \<Rightarrow> string" where
  "breakdown_row name n d = ''  '' @ pad_right 46 name @ '' '' @ percent n d @ newline"

text \<open>The loop over the histogram, index 0 skipped: the rows printed and the rest added up.\<close>

fun breakdown_loop :: "(string option \<times> u64) list \<Rightarrow> u64 \<Rightarrow> u64 \<Rightarrow> string \<times> u64" where
  "breakdown_loop [] op_count other = ([], other)"
| "breakdown_loop ((name, n) # rest) op_count other =
     (if n = 0 then breakdown_loop rest op_count other
      else (case name of
              None \<Rightarrow> breakdown_loop rest op_count (other + n)
            | Some s \<Rightarrow>
                (let (text, total) = breakdown_loop rest op_count other
                 in (breakdown_row s n op_count @ text, total))))"

definition print_ibs_sample_data_src_breakdown :: "bool \<Rightarrow> ibs_sample_state \<Rightarrow> string" where
  "print_ibs_sample_data_src_breakdown zen4_ext os =
     (let names = (if zen4_ext then ibs_data_src_names_zen4_ext else ibs_data_src_names_default);
          (rows, other) = breakdown_loop (tl (zip names (is_op_data_src_count os))) (is_op_count os)
            (is_op_data_src_other_count os)
      in ''ibs_sample_data_src_breakdown (scheme: '' @
         (if zen4_ext then ''zen4_ibs_extensions'' else ''default'') @ ''):'' @ newline @ rows @
         (if other \<noteq> 0 then breakdown_row ''(reserved/unrecognized)'' other (is_op_count os) else []))"

definition opt_count :: "(ibs_sample_state \<Rightarrow> u64) \<Rightarrow> ibs_sample_state option \<Rightarrow> u64" where
  "opt_count f s = (case s of None \<Rightarrow> 0 | Some x \<Rightarrow> f x)"

definition csv_rate ::
  "(ibs_sample_state \<Rightarrow> u64) \<Rightarrow> (ibs_sample_state \<Rightarrow> u64) \<Rightarrow> ibs_sample_state option \<Rightarrow> string" where
  "csv_rate n d s =
     fmt_fixed 4 (case s of None \<Rightarrow> Fin 0 | Some x \<Rightarrow> sample_rate (n x) (d x)) @ '',''"

definition ulong_text :: "u64 \<Rightarrow> string" where
  "ulong_text n = dec (unat n)"

text \<open>\<open>fs\<close> and \<open>os\<close> are the sampling states found under the two labels, if any.\<close>

definition print_ibs_sample_states ::
  "bool \<Rightarrow> ibs_sample_state option \<Rightarrow> ibs_sample_state option \<Rightarrow> output_format \<Rightarrow> string"
where
  "print_ibs_sample_states zen4_ext fs os oformat =
     (let samples_lost = opt_count is_samples_lost fs + opt_count is_samples_lost os in
      case oformat of
        PRINT_CSV_HEADER \<Rightarrow>
          ''ibs_sample_fetch_count,ibs_sample_ic_miss_rate,ibs_sample_l1tlb_miss_rate,'' @
          ''ibs_sample_l2tlb_miss_rate,ibs_sample_op_count,ibs_sample_dc_miss_rate,'' @
          ''ibs_sample_dc_l1tlb_miss_rate,ibs_sample_dc_l2tlb_miss_rate,ibs_sample_brn_misp_rate,'' @
          ''ibs_sample_lost,ibs_sample_dram_rate,ibs_sample_remote_node_rate,''
      | PRINT_CSV \<Rightarrow>
          ulong_text (opt_count is_fetch_count fs) @ '','' @
          csv_rate is_fetch_ic_miss_count is_fetch_count fs @
          csv_rate is_fetch_l1tlb_miss_count is_fetch_count fs @
          csv_rate is_fetch_l2tlb_miss_count is_fetch_count fs @
          ulong_text (opt_count is_op_count os) @ '','' @
          csv_rate is_op_dc_miss_count is_op_count os @
          csv_rate is_op_dc_l1tlb_miss_count is_op_count os @
          csv_rate is_op_dc_l2tlb_miss_count is_op_count os @
          csv_rate is_op_brn_misp_count is_op_brn_ret_count os @
          ulong_text samples_lost @ '','' @
          csv_rate is_op_dram_count is_op_count os @
          csv_rate is_op_remote_node_count is_op_count os
      | PRINT_NORMAL \<Rightarrow>
          ''ibs_sample_fetch_count     '' @ pad_right 10 (ulong_text (opt_count is_fetch_count fs)) @ newline @
          (case fs of None \<Rightarrow> []
           | Some f \<Rightarrow> if is_fetch_count f = 0 then [] else
               ''ibs_sample_ic_miss_rate    '' @ percent (is_fetch_ic_miss_count f) (is_fetch_count f) @ newline @
               ''ibs_sample_l1tlb_miss_rate '' @ percent (is_fetch_l1tlb_miss_count f) (is_fetch_count f) @ newline @
               ''ibs_sample_l2tlb_miss_rate '' @ percent (is_fetch_l2tlb_miss_count f) (is_fetch_count f) @ newline) @
          ''ibs_sample_op_count        '' @ pad_right 10 (ulong_text (opt_count is_op_count os)) @ newline @
          (case os of None \<Rightarrow> []
           | Some x \<Rightarrow> if is_op_count x = 0 then [] else
               ''ibs_sample_dc_miss_rate       '' @ percent (is_op_dc_miss_count x) (is_op_count x) @ newline @
               ''ibs_sample_dc_l1tlb_miss_rate '' @ percent (is_op_dc_l1tlb_miss_count x) (is_op_count x) @ newline @
               ''ibs_sample_dc_l2tlb_miss_rate '' @ percent (is_op_dc_l2tlb_miss_count x) (is_op_count x) @ newline @
               (if is_op_brn_ret_count x = 0 then [] else
                  ''ibs_sample_brn_misp_rate      '' @ percent (is_op_brn_misp_count x) (is_op_brn_ret_count x) @
                  ''          # of '' @ ulong_text (is_op_brn_ret_count x) @ '' branch-retiring ops'' @ newline) @
               ''ibs_sample_dram_rate          '' @ percent (is_op_dram_count x) (is_op_count x) @ newline @
               ''ibs_sample_remote_node_rate   '' @ percent (is_op_remote_node_count x) (is_op_count x) @ newline @
               print_ibs_sample_data_src_breakdown zen4_ext x) @
          (if samples_lost = 0 then [] else
             ''# warning: '' @ ulong_text samples_lost @
             '' IBS sample(s) lost (ring buffer overrun) -- rates above are a lower bound'' @ newline) @
          ''# note: --ibs-sample rates are computed once at end-of-run; combined with --interval, '' @
          ''periodic rows show 0 here and only the final row is populated (see INVESTIGATION.md's 4.3 '' @
          ''\"AMD IBS sampling-mode support\")'' @ newline)"

text \<open>The header and the row have the same columns.\<close>

lemma fmt_fixed_no_comma: "CHR '','' \<notin> set (fmt_fixed p x)"
proof -
  have "CHR '','' \<notin> set (dec n)" for n
    using dec_digits [of n] by (auto simp: is_digit_def)
  then show ?thesis by (auto simp: fmt_fixed_def pad_left_def Let_def split: double.split)
qed

section \<open>Property\<close>

text \<open>After the drain of a fresh IBS state, the samples seen are those decoded on the state's own
  side plus those skipped, and every numerator of a reported rate is at most its denominator; the
  data-source histogram never counts more than the op samples.\<close>
theorem ibs_sample_drain_counts:
  assumes "ibs_sample_mmap page_size mmap op = Some s"
    and "ibs_sample_drain page_size (Some s) = Some (Some s')"
  shows "is_samples_seen s' = (if is_is_op s' then is_op_count s' else is_fetch_count s') + is_decode_skipped s' \<and>
    is_op_dc_miss_count s' \<le> is_op_count s' \<and> is_op_dc_l1tlb_miss_count s' \<le> is_op_count s' \<and>
    is_op_dc_l2tlb_miss_count s' \<le> is_op_count s' \<and> is_op_dram_count s' \<le> is_op_count s' \<and>
    is_op_remote_node_count s' \<le> is_op_count s' \<and> is_op_brn_misp_count s' \<le> is_op_brn_ret_count s' \<and>
    is_op_brn_ret_count s' \<le> is_op_count s' \<and>
    sum_list (map unat (is_op_data_src_count s')) + unat (is_op_data_src_other_count s') \<le> unat (is_op_count s') \<and>
    is_fetch_ic_miss_count s' \<le> is_fetch_count s' \<and> is_fetch_l1tlb_miss_count s' \<le> is_fetch_count s' \<and>
    is_fetch_l2tlb_miss_count s' \<le> is_fetch_count s'"
proof -
  obtain base where s: "s = ibs_sample_zero (Some base) op"
    using assms(1) by (auto simp: ibs_sample_mmap_def split: option.splits)
  let ?s = "s\<lparr>is_drained := True\<rparr>"
  obtain seen s1 lost ring where d: "perf_ring_drain page_size (Some base) (Some ibs_sample_record_cb) ?s (Some 0)
      = Some (seen, s1, lost, ring)"
    and s': "s' = s1\<lparr>is_samples_seen := seen,
      is_samples_lost := (case lost of Some l \<Rightarrow> l | None \<Rightarrow> is_samples_lost s1), is_ring := ring\<rparr>"
    using assms(2) by (auto simp: s ibs_sample_zero_def ibs_sample_drain_def split: option.splits prod.splits)
  have inv: "ibs_inv ?s" and zero: "ibs_level 0 ?s" and "ibs_tally ?s = 0"
    by (cases op; simp add: s ibs_inv_def ibs_level_def ibs_tally_def ibs_sample_zero_def sum_list_replicate)+
  then have "is_samples_seen s' = ibs_tally s'"
    using ibs_ring.ring_drain_tally [OF d inv] by (auto simp: s' ibs_tally_def)
  moreover obtain m where "ibs_level m s1" using ibs_ring.ring_drain_level [OF d inv zero] by blast
  ultimately show ?thesis
    by (cases "is_is_op s1") (simp_all add: s' ibs_tally_def ibs_level_def word_le_nat_alt)
qed

text \<open>One op record of five words: a data-cache miss served from DRAM.\<close>

lemma ibs_sample_drain_counts_witness:
  "\<exists>s s'. ibs_sample_mmap 4096 (\<lambda>_. Some \<lparr>rm_mem =
        [9, 0, 0, 0, 0, 0, 56, 0, 44, 0, 0, 0, 0, 0, 0, 0,
         0, 0, 0, 0, 0, 0, 0, 0, 0, 0, 0, 0, 0, 0, 0, 0, 0, 0, 0, 0, 0, 0, 0, 0,
         3, 0, 0, 0, 0, 0, 0, 0, 128, 0, 0, 0, 0, 0, 0, 0],
        rm_data_head = 56, rm_data_tail = 0, rm_data_offset = 0, rm_data_size = 56\<rparr>) True = Some s \<and>
     ibs_sample_drain 4096 (Some s) = Some (Some s') \<and> is_op_dram_count s' = 1 \<and>
     is_op_dc_miss_count s' = 1 \<and> is_op_dc_miss_count s' \<le> is_op_count s' \<and> is_samples_seen s' = 1"
proof -
  let ?r = "\<lparr>rm_mem =
        [9, 0, 0, 0, 0, 0, 56, 0, 44, 0, 0, 0, 0, 0, 0, 0,
         0, 0, 0, 0, 0, 0, 0, 0, 0, 0, 0, 0, 0, 0, 0, 0, 0, 0, 0, 0, 0, 0, 0, 0,
         3, 0, 0, 0, 0, 0, 0, 0, 128, 0, 0, 0, 0, 0, 0, 0],
        rm_data_head = 56, rm_data_tail = 0, rm_data_offset = 0, rm_data_size = 56\<rparr>"
  have s: "ibs_sample_mmap 4096 (\<lambda>_. Some ?r) True = Some (ibs_sample_zero (Some ?r) True)"
    by (simp add: ibs_sample_mmap_def perf_ring_mmap_def Let_def)
  have w: "ibs_sample_words [44, 0, 0, 0, 0, 0, 0, 0, 0, 0, 0, 0, 0, 0, 0, 0, 0, 0, 0, 0, 0, 0, 0, 0,
      0, 0, 0, 0, 0, 0, 0, 0, 3, 0, 0, 0, 0, 0, 0, 0, 128, 0, 0, 0, 0, 0, 0, 0] = [0, 0, 0, 3, 128]"
    by (simp add: ibs_sample_words_def IBS_SAMPLE_MAX_WORDS_def Let_def words_of_numeral)
  obtain s' where s': "ibs_sample_drain 4096 (Some (ibs_sample_zero (Some ?r) True)) = Some (Some s')"
    "is_op_dram_count s' = 1" "is_op_dc_miss_count s' = 1" "is_samples_seen s' = 1"
    by (simp add: ibs_sample_zero_def ibs_sample_drain_def perf_ring_drain_def ring_region_def drain_loop_numeral
        drain_step_def ring_read_def hdr_size_def hdr_type_def PERF_RECORD_SAMPLE_def Let_def
        PERF_RING_MAX_PAYLOAD_def ibs_sample_record_cb_def w ibs_sample_decode_op_def decode_op_data_def
        decode_op_data2_def decode_op_data3_def data_src_index_def bump_def IBS_SAMPLE_DATA_SRC_TABLE_SIZE_def)
  from ibs_sample_drain_counts [OF s s'(1)] s s' show ?thesis by blast
qed

end
