(* ===== verification/Counter_Model.thy ===== *)
theory Counter_Model
  imports Symbol_Sample Ibs_Sample
begin

unbundle bit_operations_syntax

text \<open>
  The data of the counter code: the \<open>COUNTER_*\<close> bits of src/wspy.h, and the structs of src/cpu_info.h
  (\<open>raw_event\<close>, \<open>cache_event\<close>, \<open>counter_info\<close>, \<open>counter_group\<close>). A linked list of counter groups is a
  HOL list with the head first; \<open>cinfo\<close> with its \<open>ncounters\<close> is a list. The field \<open>cdef\<close> of
  \<open>counter_info\<close>, which nothing reads, is left out.
\<close>

section \<open>Constants\<close>

abbreviation COUNTER_IPC :: u32 where "COUNTER_IPC \<equiv> 0x1"
abbreviation COUNTER_TOPDOWN :: u32 where "COUNTER_TOPDOWN \<equiv> 0x2"
abbreviation COUNTER_TOPDOWN2 :: u32 where "COUNTER_TOPDOWN2 \<equiv> 0x4"
abbreviation COUNTER_TOPDOWN_FE :: u32 where "COUNTER_TOPDOWN_FE \<equiv> 0x8"
abbreviation COUNTER_TOPDOWN_BE :: u32 where "COUNTER_TOPDOWN_BE \<equiv> 0x10"
abbreviation COUNTER_TOPDOWN_OP :: u32 where "COUNTER_TOPDOWN_OP \<equiv> 0x20"
abbreviation COUNTER_BRANCH :: u32 where "COUNTER_BRANCH \<equiv> 0x40"
abbreviation COUNTER_DCACHE :: u32 where "COUNTER_DCACHE \<equiv> 0x80"
abbreviation COUNTER_ICACHE :: u32 where "COUNTER_ICACHE \<equiv> 0x100"
abbreviation COUNTER_L1CACHE :: u32 where "COUNTER_L1CACHE \<equiv> 0x200"
abbreviation COUNTER_L2CACHE :: u32 where "COUNTER_L2CACHE \<equiv> 0x400"
abbreviation COUNTER_L3CACHE :: u32 where "COUNTER_L3CACHE \<equiv> 0x800"
abbreviation COUNTER_MEMORY :: u32 where "COUNTER_MEMORY \<equiv> 0x1000"
abbreviation COUNTER_TLB :: u32 where "COUNTER_TLB \<equiv> 0x2000"
abbreviation COUNTER_OPCACHE :: u32 where "COUNTER_OPCACHE \<equiv> 0x4000"
abbreviation COUNTER_SOFTWARE :: u32 where "COUNTER_SOFTWARE \<equiv> 0x8000"
abbreviation COUNTER_FLOAT :: u32 where "COUNTER_FLOAT \<equiv> 0x10000"
abbreviation COUNTER_IBS :: u32 where "COUNTER_IBS \<equiv> 0x20000"
abbreviation COUNTER_ARM_DCACHE_MEM :: u32 where "COUNTER_ARM_DCACHE_MEM \<equiv> 0x40000"
abbreviation COUNTER_ARM_ICACHE_TLB :: u32 where "COUNTER_ARM_ICACHE_TLB \<equiv> 0x80000"
abbreviation COUNTER_ARM_MEM_ALIGN_TLB :: u32 where "COUNTER_ARM_MEM_ALIGN_TLB \<equiv> 0x100000"
abbreviation COUNTER_POWER :: u32 where "COUNTER_POWER \<equiv> 0x200000"
abbreviation COUNTER_POWER_CORE :: u32 where "COUNTER_POWER_CORE \<equiv> 0x400000"
abbreviation COUNTER_IBS_SAMPLE :: u32 where "COUNTER_IBS_SAMPLE \<equiv> 0x800000"
abbreviation COUNTER_DEFAULT_MASK :: u32 where "COUNTER_DEFAULT_MASK \<equiv> COUNTER_IPC"

text \<open>\<open>enum perf_type_id\<close> of the kernel, and the device type this code adds for AMD's L3.\<close>

abbreviation PERF_TYPE_HARDWARE :: u32 where "PERF_TYPE_HARDWARE \<equiv> 0"
abbreviation PERF_TYPE_SOFTWARE :: u32 where "PERF_TYPE_SOFTWARE \<equiv> 1"
abbreviation PERF_TYPE_HW_CACHE :: u32 where "PERF_TYPE_HW_CACHE \<equiv> 3"
abbreviation PERF_TYPE_RAW :: u32 where "PERF_TYPE_RAW \<equiv> 4"
abbreviation PERF_TYPE_L3 :: u32 where "PERF_TYPE_L3 \<equiv> 0xe"

datatype cpu_vendor = VENDOR_UNKNOWN | VENDOR_AMD | VENDOR_INTEL | VENDOR_ARM

datatype cpu_core_type =
  CORE_UNKNOWN | CORE_ARM_GENERIC | CORE_ARM_CORTEX_A53 | CORE_ARM_CORTEX_A57 | CORE_ARM_CORTEX_A72
| CORE_ARM_NEOVERSE_N1 | CORE_ARM_NEOVERSE_V1 | CORE_ARM_NEOVERSE_N2 | CORE_ARM_NEOVERSE_V2
| CORE_ARM_CORTEX_A78 | CORE_ARM_CORTEX_X1 | CORE_ARM_CORTEX_A710 | CORE_ARM_CORTEX_X2
| CORE_ARM_CORTEX_A510 | CORE_ARM_CORTEX_A520 | CORE_ARM_CORTEX_A720 | CORE_ARM_CORTEX_X4
| CORE_AMD_UNKNOWN | CORE_AMD_ZEN | CORE_AMD_ZEN5 | CORE_AMD_ZEN5C
| CORE_INTEL_UNKNOWN | CORE_INTEL_ATOM | CORE_INTEL_CORE

section \<open>Structs\<close>

record raw_event =
  re_name :: string
  re_description :: string
  re_device_type :: u32
  re_use :: u32
  re_config :: u64

record cache_event =
  ce_type_id :: u32
  ce_name :: string
  ce_config :: u64
  ce_group_id :: u32
  ce_use :: u32

record counter_info =
  ci_label :: string
  ci_corenum :: int
  ci_is_group_leader :: bool
  ci_requires_system_wide :: bool
  ci_is_ibs_sample :: bool
  ci_is_symbol_sample :: bool
  ci_device_type :: u32
  ci_config :: u64
  ci_config1 :: u64
  ci_config2 :: u64
  ci_sample_period :: u64
  ci_fd :: int
  ci_value :: u64
  ci_last_read :: u64
  ci_prev_read :: u64
  ci_time_running :: u64
  ci_time_enabled :: u64
  ci_last_time_running :: u64
  ci_last_time_enabled :: u64
  ci_scale :: double
  ci_scaled_value :: double
  ci_ibs_sample_state :: "ibs_sample_state option"
  ci_symbol_sample_state :: "symbol_sample_state option"

record counter_group =
  cg_label :: string
  cg_type_id :: u32
  cg_target_cpu :: int
  cg_mask :: u32
  cg_cinfo :: "counter_info list"

text \<open>\<open>calloc\<close>: all fields zero.\<close>

definition counter_info_zero :: counter_info where
  "counter_info_zero =
     \<lparr>ci_label = [], ci_corenum = 0, ci_is_group_leader = False, ci_requires_system_wide = False,
      ci_is_ibs_sample = False, ci_is_symbol_sample = False, ci_device_type = 0, ci_config = 0,
      ci_config1 = 0, ci_config2 = 0, ci_sample_period = 0, ci_fd = 0, ci_value = 0, ci_last_read = 0,
      ci_prev_read = 0, ci_time_running = 0, ci_time_enabled = 0, ci_last_time_running = 0,
      ci_last_time_enabled = 0, ci_scale = Fin 0, ci_scaled_value = Fin 0, ci_ibs_sample_state = None,
      ci_symbol_sample_state = None\<rparr>"

text \<open>What the process knows of the host: \<open>cpu_info\<close> and the global \<open>nmi_running\<close>.\<close>

record host =
  h_vendor :: cpu_vendor
  h_is_hybrid :: bool
  h_nmi_running :: bool

section \<open>Masks\<close>

definition has_bit :: "u32 \<Rightarrow> u32 \<Rightarrow> bool" where
  "has_bit m b \<longleftrightarrow> m AND b \<noteq> 0"

lemma has_bit_or: "has_bit (m OR n) b \<longleftrightarrow> has_bit m b \<or> has_bit n b"
proof -
  have "(m OR n) AND b = (m AND b) OR (n AND b)" by (rule bit.conj_disj_distrib2)
  moreover have "x OR y = 0 \<longleftrightarrow> x = 0 \<and> y = 0" for x y :: u32
    by (metis or.right_neutral or_eq_0_iff)
  ultimately show ?thesis by (simp add: has_bit_def)
qed

lemma has_bit_zero [simp]: "\<not> has_bit 0 b" "\<not> has_bit m 0"
  by (simp_all add: has_bit_def)

lemma has_bit_pow: "has_bit m (2 ^ k) \<longleftrightarrow> bit m k"
proof -
  have "m AND push_bit k 1 = (if bit m k then push_bit k 1 else 0)"
    by (rule bit_eqI) (auto simp: bit_simps)
  moreover have "bit m k \<Longrightarrow> (2 :: u32) ^ k \<noteq> 0"
    using bit_imp_le_length [of m k] by (simp add: exp_eq_zero_iff)
  ultimately show ?thesis by (auto simp: has_bit_def push_bit_eq_mult)
qed

end
