(* ===== verification/Counter_Events.thy ===== *)
theory Counter_Events
  imports Counter_Model C_Numbers
begin

text \<open>
  The raw event tables of src/topdown.c, the parsers that turn an event description
  (\<open>event=0xc4,umask=0x8\<close>) into a \<open>perf_event_open\<close> config, and \<open>setup_raw_events\<close>, which parses the
  requested entries of the host's table. \<open>fatal\<close> ends the process: it is the left side of a sum. Which
  sysfs paths exist is a parameter, as is every result of \<open>stat\<close>.
\<close>

section \<open>The tables\<close>

definition raw_event_row :: "string \<Rightarrow> string \<Rightarrow> u32 \<Rightarrow> u32 \<Rightarrow> raw_event" where
  "raw_event_row name description device_type use =
     \<lparr>re_name = name, re_description = description, re_device_type = device_type, re_use = use,
      re_config = 0\<rparr>"

definition intel_raw_events :: "raw_event list" where
  "intel_raw_events =
     [raw_event_row ''instructions'' ''event=0xc0'' PERF_TYPE_RAW
        (COUNTER_IPC OR COUNTER_BRANCH OR COUNTER_L2CACHE),
      raw_event_row ''cpu-cycles'' ''event=0x3c'' PERF_TYPE_RAW
        (COUNTER_IPC OR COUNTER_TOPDOWN_BE),
      raw_event_row ''slots'' ''event=0x00,umask=0x4'' PERF_TYPE_RAW
        (COUNTER_TOPDOWN OR COUNTER_TOPDOWN2),
      raw_event_row ''core.topdown-retiring'' ''event=0x00,umask=0x80'' PERF_TYPE_RAW
        (COUNTER_TOPDOWN OR COUNTER_TOPDOWN2),
      raw_event_row ''core.topdown-bad-spec'' ''event=0x00,umask=0x81'' PERF_TYPE_RAW
        (COUNTER_TOPDOWN OR COUNTER_TOPDOWN2),
      raw_event_row ''core.topdown-fe-bound'' ''event=0x00,umask=0x82'' PERF_TYPE_RAW
        (COUNTER_TOPDOWN OR COUNTER_TOPDOWN2),
      raw_event_row ''core.topdown-be-bound'' ''event=0x00,umask=0x83'' PERF_TYPE_RAW
        (COUNTER_TOPDOWN OR COUNTER_TOPDOWN2),
      raw_event_row ''core.topdown-heavy-ops'' ''event=0x00,umask=0x84'' PERF_TYPE_RAW
        (COUNTER_TOPDOWN2),
      raw_event_row ''core.topdown-br-mispredict'' ''event=0x00,umask=0x85'' PERF_TYPE_RAW
        (COUNTER_TOPDOWN2),
      raw_event_row ''core.topdown-fetch-lat'' ''event=0x00,umask=0x86'' PERF_TYPE_RAW
        (COUNTER_TOPDOWN2),
      raw_event_row ''core.topdown-mem-bound'' ''event=0x00,umask=0x87'' PERF_TYPE_RAW
        (COUNTER_TOPDOWN2),
      raw_event_row ''br_inst_retired.all_branches'' ''event=0xc4,period=0x61a89'' PERF_TYPE_RAW
        (COUNTER_BRANCH),
      raw_event_row ''br_misp_retired.all_branches'' ''event=0xc5,period=0x61a89'' PERF_TYPE_RAW
        (COUNTER_BRANCH),
      raw_event_row ''br_inst_retired.cond'' ''event=0xc4,period=0x61a89'' PERF_TYPE_RAW
        (COUNTER_BRANCH),
      raw_event_row ''br_inst_retired.indirect'' ''event=0xc4,period=0x186a3,umask=0x80'' PERF_TYPE_RAW
        (COUNTER_BRANCH),
      raw_event_row ''l2_request.all'' ''event=0x24,period=0x30d43,umask=0xff'' PERF_TYPE_RAW
        (COUNTER_L2CACHE),
      raw_event_row ''l2_request.miss'' ''event=0x24,period=0x30d43,umask=0x3f'' PERF_TYPE_RAW
        (COUNTER_L2CACHE),
      raw_event_row ''exe_activity.bound_on_loads'' ''event=0xa6,cmask=0x5,period=0x1e8483,umask=0x21'' PERF_TYPE_RAW
        (COUNTER_TOPDOWN_BE),
      raw_event_row ''exe_activity.bound_on_stores'' ''event=0xa6,cmask=0x2,period=0x1e8483,umask=0x40'' PERF_TYPE_RAW
        (COUNTER_TOPDOWN_BE),
      raw_event_row ''memory_activity.stalls_l1d_miss'' ''event=0x47,cmask=0x2,period=0xf4243,umask=0x3'' PERF_TYPE_RAW
        (COUNTER_TOPDOWN_BE),
      raw_event_row ''memory_activity.stalls_l2_miss'' ''event=0x47,cmask=0x5,period=0xf4243,umask=0x5'' PERF_TYPE_RAW
        (COUNTER_TOPDOWN_BE),
      raw_event_row ''memory_activity.stalls_l3_miss'' ''event=0x47,cmask=0x9,period=0xf4243,umask=0x9'' PERF_TYPE_RAW
        (COUNTER_TOPDOWN_BE)]"

definition intel_atom_raw_events :: "raw_event list" where
  "intel_atom_raw_events =
     [raw_event_row ''instructions'' ''event=0xc0'' PERF_TYPE_RAW
        (COUNTER_IPC OR COUNTER_BRANCH OR COUNTER_L2CACHE),
      raw_event_row ''cpu-cycles'' ''event=0x3c'' PERF_TYPE_RAW
        (COUNTER_IPC OR COUNTER_TOPDOWN OR COUNTER_TOPDOWN2),
      raw_event_row ''core.topdown-retiring'' ''event=0xc2,umask=0x0'' PERF_TYPE_RAW
        (COUNTER_TOPDOWN OR COUNTER_TOPDOWN2),
      raw_event_row ''core.topdown-bad-spec'' ''event=0x73,umask=0x0'' PERF_TYPE_RAW
        (COUNTER_TOPDOWN OR COUNTER_TOPDOWN2),
      raw_event_row ''core.topdown-fe-bound'' ''event=0x71,umask=0x0'' PERF_TYPE_RAW
        (COUNTER_TOPDOWN OR COUNTER_TOPDOWN2),
      raw_event_row ''core.topdown-be-bound'' ''event=0x74,umask=0x0'' PERF_TYPE_RAW
        (COUNTER_TOPDOWN OR COUNTER_TOPDOWN2),
      raw_event_row ''br_inst_retired.all_branches'' ''event=0xc4'' PERF_TYPE_RAW
        (COUNTER_BRANCH),
      raw_event_row ''br_misp_retired.all_branches'' ''event=0xc5'' PERF_TYPE_RAW
        (COUNTER_BRANCH),
      raw_event_row ''br_inst_retired.cond'' ''event=0xc4,umask=0x7e'' PERF_TYPE_RAW
        (COUNTER_BRANCH),
      raw_event_row ''br_inst_retired.indirect'' ''event=0xc4,umask=0xeb'' PERF_TYPE_RAW
        (COUNTER_BRANCH),
      raw_event_row ''l2_request.all'' ''event=0x24,umask=0x0'' PERF_TYPE_RAW
        (COUNTER_L2CACHE),
      raw_event_row ''l2_request.miss'' ''event=0x24,umask=0x1'' PERF_TYPE_RAW
        (COUNTER_L2CACHE)]"

definition amd_raw_events :: "raw_event list" where
  "amd_raw_events =
     [raw_event_row ''instructions'' ''event=0xc0'' PERF_TYPE_RAW
        (COUNTER_IPC OR COUNTER_BRANCH OR COUNTER_OPCACHE OR COUNTER_TLB OR COUNTER_L2CACHE OR COUNTER_L3CACHE OR COUNTER_FLOAT OR COUNTER_TOPDOWN_FE OR COUNTER_TOPDOWN_OP),
      raw_event_row ''cpu-cycles'' ''event=0x76'' PERF_TYPE_RAW
        (COUNTER_IPC OR COUNTER_BRANCH OR COUNTER_TOPDOWN OR COUNTER_TOPDOWN2),
      raw_event_row ''ex_ret_ops'' ''event=0xc1'' PERF_TYPE_RAW
        (COUNTER_IPC OR COUNTER_TOPDOWN OR COUNTER_TOPDOWN2),
      raw_event_row ''de_no_dispatch_per_slot.no_ops_from_frontend'' ''event=0x1a0,umask=0x1'' PERF_TYPE_RAW
        (COUNTER_TOPDOWN OR COUNTER_TOPDOWN2),
      raw_event_row ''de_no_dispatch_per_slot.backend_stalls'' ''event=0x1a0,umask=0x1e'' PERF_TYPE_RAW
        (COUNTER_TOPDOWN OR COUNTER_TOPDOWN2),
      raw_event_row ''de_src_op_disp.all'' ''event=0xaa,umask=0x7'' PERF_TYPE_RAW
        (COUNTER_TOPDOWN OR COUNTER_TOPDOWN2),
      raw_event_row ''de_no_dispatch_per_slot.smt_contention'' ''event=0x1a0,umask=0x60'' PERF_TYPE_RAW
        (COUNTER_TOPDOWN OR COUNTER_TOPDOWN2),
      raw_event_row ''ex_no_retire.load_not_complete'' ''event=0xd6,umask=0xa2'' PERF_TYPE_RAW
        (COUNTER_TOPDOWN2),
      raw_event_row ''ex_no_retire.not_complete'' ''event=0xd6,umask=0x2'' PERF_TYPE_RAW
        (COUNTER_TOPDOWN2),
      raw_event_row ''ex_ret_brn_misp'' ''event=0xc3'' PERF_TYPE_RAW
        (COUNTER_TOPDOWN2),
      raw_event_row ''resyncs_or_nc_redirects'' ''event=0x96'' PERF_TYPE_RAW
        (COUNTER_TOPDOWN2),
      raw_event_row ''de_no_dispatch_per_slot.no_ops_from_frontend.cmask_0x6'' ''event=0x1a0,umask=0x1,cmask=0x6'' PERF_TYPE_RAW
        (COUNTER_TOPDOWN2),
      raw_event_row ''ex_ret_ucode_ops'' ''event=0x1c1'' PERF_TYPE_RAW
        (COUNTER_TOPDOWN2),
      raw_event_row ''branch-instructions'' ''event=0xc2'' PERF_TYPE_RAW
        (COUNTER_BRANCH),
      raw_event_row ''branch-misses'' ''event=0xc3'' PERF_TYPE_RAW
        (COUNTER_BRANCH),
      raw_event_row ''conditional-branches'' ''event=0xd1'' PERF_TYPE_RAW
        (COUNTER_BRANCH),
      raw_event_row ''indirect-branches'' ''event=0xcc'' PERF_TYPE_RAW
        (COUNTER_BRANCH),
      raw_event_row ''near-return'' ''event=0xc8'' PERF_TYPE_RAW
        (COUNTER_BRANCH),
      raw_event_row ''near-return-mispredicted'' ''event=0xc9'' PERF_TYPE_RAW
        (COUNTER_BRANCH),
      raw_event_row ''indirect-branch-mispredicted'' ''event=0xca'' PERF_TYPE_RAW
        (COUNTER_BRANCH),
      raw_event_row ''op_cache_hit_miss.all_op_cache_accesses'' ''event=0x28f,umask=0x7'' PERF_TYPE_RAW
        (COUNTER_OPCACHE OR COUNTER_TOPDOWN_OP),
      raw_event_row ''op_cache_hit_miss.op_cache_miss'' ''event=0x28f,umask=0x4'' PERF_TYPE_RAW
        (COUNTER_OPCACHE OR COUNTER_TOPDOWN_OP),
      raw_event_row ''l2_request_g1.all_no_prefetch'' ''event=0x60,umask=0xf9'' PERF_TYPE_RAW
        (COUNTER_L2CACHE),
      raw_event_row ''l2_pf_hit_l2'' ''event=0x70,umask=0x1f'' PERF_TYPE_RAW
        (COUNTER_L2CACHE),
      raw_event_row ''l2_pf_miss_l2_hit_l3'' ''event=0x71,umask=0x1f'' PERF_TYPE_RAW
        (COUNTER_L2CACHE),
      raw_event_row ''l2_pf_miss_l2_l3'' ''event=0x72,umask=0x1f'' PERF_TYPE_RAW
        (COUNTER_L2CACHE),
      raw_event_row ''l2_cache_req_stat.ic_dc_miss_in_l2'' ''event=0x64,umask=0x9'' PERF_TYPE_RAW
        (COUNTER_L2CACHE),
      raw_event_row ''ls_data_cache_refills.local_all'' ''event=0x43,umask=0xf,requires=/sys/devices/system/node/node1'' PERF_TYPE_RAW
        (COUNTER_MEMORY),
      raw_event_row ''ls_data_cache_refills.remote_all'' ''event=0x43,umask=0x50,requires=/sys/devices/system/node/node1'' PERF_TYPE_RAW
        (COUNTER_MEMORY),
      raw_event_row ''ls_hwpref_data_cache_refills.local_all'' ''event=0x50,umask=0xf,requires=/sys/devices/system/node/node1'' PERF_TYPE_RAW
        (COUNTER_MEMORY),
      raw_event_row ''ls_hwpref_data_cache_refills.remote_all'' ''event=0x50,umask=0x50,requires=/sys/devices/system/node/node1'' PERF_TYPE_RAW
        (COUNTER_MEMORY),
      raw_event_row ''fp_ret_fops_AVX512'' ''event=0x20,umask=0x8'' PERF_TYPE_RAW
        (COUNTER_FLOAT),
      raw_event_row ''fp_ret_fops_AVX256'' ''event=0x10,umask=0x8'' PERF_TYPE_RAW
        (COUNTER_FLOAT),
      raw_event_row ''fp_ret_fops_AVX128'' ''event=0x8,umask=0x8'' PERF_TYPE_RAW
        (COUNTER_FLOAT),
      raw_event_row ''fp_ret_fops_MMX'' ''event=0x2,umask=0x8'' PERF_TYPE_RAW
        (COUNTER_FLOAT),
      raw_event_row ''fp_ret_fops_scalar'' ''event=0x5,umask=0x8'' PERF_TYPE_RAW
        (COUNTER_FLOAT),
      raw_event_row ''l3_lookup_state.all_coherent_accesses_to_l3'' ''event=0x4,umask=0xff,requires=/sys/devices/amd_l3/type'' PERF_TYPE_L3
        (COUNTER_L3CACHE),
      raw_event_row ''l3_lookup_state.l3_miss'' ''event=0x4,umask=0x1,requires=/sys/devices/amd_l3/type'' PERF_TYPE_L3
        (COUNTER_L3CACHE),
      raw_event_row ''ic_tag_hit_miss.instruction_cache_miss'' ''event=0x18e,umask=0x18'' PERF_TYPE_RAW
        (COUNTER_TOPDOWN_FE),
      raw_event_row ''ic_tag_hit_miss.instruction_cache_accesses'' ''event=0x18e,umask=0x1f'' PERF_TYPE_RAW
        (COUNTER_TOPDOWN_FE),
      raw_event_row ''bp_l1_tlb_miss_l2_tlb_hit'' ''event=0x84'' PERF_TYPE_RAW
        (COUNTER_TOPDOWN_FE),
      raw_event_row ''bp_l1_tlb_miss_l2_tlb_miss.all'' ''event=0xf'' PERF_TYPE_RAW
        (COUNTER_TOPDOWN_FE),
      raw_event_row ''ls_tlb_flush.all'' ''event=0x78,umask=0xff'' PERF_TYPE_RAW
        (COUNTER_TOPDOWN_FE),
      raw_event_row ''ls_l1_d_tlb_miss.all'' ''event=0x45,umask=0xff'' PERF_TYPE_RAW
        (COUNTER_TOPDOWN_OP),
      raw_event_row ''ls_l1_d_tlb_miss.all_l2_miss'' ''event=0x45,umask=0xf0'' PERF_TYPE_RAW
        (COUNTER_TOPDOWN_OP)]"

definition arm_raw_events :: "raw_event list" where
  "arm_raw_events =
     [raw_event_row ''instructions'' ''event=0x08'' PERF_TYPE_RAW
        (COUNTER_IPC OR COUNTER_BRANCH OR COUNTER_L2CACHE OR COUNTER_ARM_DCACHE_MEM OR COUNTER_ARM_ICACHE_TLB OR COUNTER_ARM_MEM_ALIGN_TLB),
      raw_event_row ''cpu-cycles'' ''event=0x11'' PERF_TYPE_RAW
        (COUNTER_IPC OR COUNTER_TOPDOWN_BE),
      raw_event_row ''op_retired'' ''event=0x3a'' PERF_TYPE_RAW
        (COUNTER_TOPDOWN OR COUNTER_TOPDOWN2),
      raw_event_row ''op_spec'' ''event=0x3b'' PERF_TYPE_RAW
        (COUNTER_TOPDOWN OR COUNTER_TOPDOWN2),
      raw_event_row ''stall_slot'' ''event=0x3f'' PERF_TYPE_RAW
        (COUNTER_TOPDOWN OR COUNTER_TOPDOWN2),
      raw_event_row ''stall_slot_frontend'' ''event=0x3e'' PERF_TYPE_RAW
        (COUNTER_TOPDOWN OR COUNTER_TOPDOWN2),
      raw_event_row ''stall_slot_backend'' ''event=0x3d'' PERF_TYPE_RAW
        (COUNTER_TOPDOWN OR COUNTER_TOPDOWN2),
      raw_event_row ''stall_frontend'' ''event=0x23'' PERF_TYPE_RAW
        (COUNTER_TOPDOWN_FE OR COUNTER_TOPDOWN2),
      raw_event_row ''stall_backend'' ''event=0x24'' PERF_TYPE_RAW
        (COUNTER_TOPDOWN_BE OR COUNTER_TOPDOWN2),
      raw_event_row ''stall_backend_mem'' ''event=0x4005'' PERF_TYPE_RAW
        (COUNTER_TOPDOWN_BE OR COUNTER_TOPDOWN2),
      raw_event_row ''br_retired'' ''event=0x21'' PERF_TYPE_RAW
        (COUNTER_BRANCH OR COUNTER_TOPDOWN2),
      raw_event_row ''br_mis_pred_retired'' ''event=0x22'' PERF_TYPE_RAW
        (COUNTER_BRANCH OR COUNTER_TOPDOWN2),
      raw_event_row ''l2d_cache'' ''event=0x16'' PERF_TYPE_RAW
        (COUNTER_L2CACHE),
      raw_event_row ''l2d_cache_lmiss_rd'' ''event=0x4009'' PERF_TYPE_RAW
        (COUNTER_L2CACHE),
      raw_event_row ''mem_access'' ''event=0x13'' PERF_TYPE_RAW
        (COUNTER_MEMORY),
      raw_event_row ''bus_access'' ''event=0x19'' PERF_TYPE_RAW
        (COUNTER_MEMORY),
      raw_event_row ''l1d_cache_refill'' ''event=0x03'' PERF_TYPE_RAW
        (COUNTER_ARM_DCACHE_MEM),
      raw_event_row ''l1d_tlb_refill'' ''event=0x05'' PERF_TYPE_RAW
        (COUNTER_ARM_DCACHE_MEM),
      raw_event_row ''l2d_cache_refill'' ''event=0x17'' PERF_TYPE_RAW
        (COUNTER_ARM_DCACHE_MEM),
      raw_event_row ''l2d_tlb_refill'' ''event=0x2d'' PERF_TYPE_RAW
        (COUNTER_ARM_DCACHE_MEM),
      raw_event_row ''l1i_cache_refill'' ''event=0x01'' PERF_TYPE_RAW
        (COUNTER_ARM_ICACHE_TLB),
      raw_event_row ''l1i_tlb_refill'' ''event=0x02'' PERF_TYPE_RAW
        (COUNTER_ARM_ICACHE_TLB),
      raw_event_row ''l2i_tlb_refill'' ''event=0x2e'' PERF_TYPE_RAW
        (COUNTER_ARM_ICACHE_TLB),
      raw_event_row ''br_immed_retired'' ''event=0x0d'' PERF_TYPE_RAW
        (COUNTER_BRANCH),
      raw_event_row ''br_return_retired'' ''event=0x0e'' PERF_TYPE_RAW
        (COUNTER_BRANCH),
      raw_event_row ''br_pred'' ''event=0x12'' PERF_TYPE_RAW
        (COUNTER_BRANCH),
      raw_event_row ''br_mis_pred'' ''event=0x10'' PERF_TYPE_RAW
        (COUNTER_BRANCH),
      raw_event_row ''dtlb_walk'' ''event=0x34'' PERF_TYPE_RAW
        (COUNTER_ARM_MEM_ALIGN_TLB),
      raw_event_row ''itlb_walk'' ''event=0x35'' PERF_TYPE_RAW
        (COUNTER_ARM_MEM_ALIGN_TLB),
      raw_event_row ''ld_align_lat'' ''event=0x4002'' PERF_TYPE_RAW
        (COUNTER_ARM_MEM_ALIGN_TLB),
      raw_event_row ''st_align_lat'' ''event=0x4003'' PERF_TYPE_RAW
        (COUNTER_ARM_MEM_ALIGN_TLB)]"

section \<open>Parsing a description\<close>

text \<open>The bit fields of \<open>union intel_raw_cpu_format\<close> and \<open>union amd_raw_cpu_format\<close> the parsers set.\<close>

record raw_format =
  rf_event :: u64
  rf_umask :: u64
  rf_cmask :: u64
  rf_event2 :: u64

definition raw_format_zero :: raw_format where
  "raw_format_zero = \<lparr>rf_event = 0, rf_umask = 0, rf_cmask = 0, rf_event2 = 0\<rparr>"

definition intel_config :: "raw_format \<Rightarrow> u64" where
  "intel_config f =
     take_bit 8 (rf_event f) OR push_bit 8 (take_bit 8 (rf_umask f)) OR push_bit 24 (take_bit 8 (rf_cmask f))"

definition amd_config :: "raw_format \<Rightarrow> u64" where
  "amd_config f =
     take_bit 8 (rf_event f) OR push_bit 8 (take_bit 8 (rf_umask f)) OR
     push_bit 24 (take_bit 8 (rf_cmask f)) OR push_bit 32 (take_bit 4 (rf_event2 f))"

definition is_separator :: "char \<Rightarrow> bool" where
  "is_separator c \<longleftrightarrow> c = CHR '','' \<or> c = CHR 0x0A"

text \<open>The \<open>strtok\<close> loop: each \<open>name=value\<close> token in turn, a token without \<open>=\<close> ignored.\<close>

fun parse_tokens ::
  "(string \<Rightarrow> string \<Rightarrow> 'f \<Rightarrow> string + 'f) \<Rightarrow> string list \<Rightarrow> 'f \<Rightarrow> string + 'f"
where
  "parse_tokens set_field [] f = Inr f"
| "parse_tokens set_field (t # ts) f =
     (case split_at (CHR ''='') t of
        None \<Rightarrow> parse_tokens set_field ts f
      | Some (name, val) \<Rightarrow>
          (case set_field name val f of
             Inl e \<Rightarrow> Inl e
           | Inr f' \<Rightarrow> parse_tokens set_field ts f'))"

definition intel_field :: "string \<Rightarrow> string \<Rightarrow> raw_format \<Rightarrow> string + raw_format" where
  "intel_field name val f =
     (let value = word_of_int (fst (strtol 16 val)) in
      if name = ''event'' then Inr (f\<lparr>rf_event := value\<rparr>)
      else if name = ''umask'' then Inr (f\<lparr>rf_umask := value\<rparr>)
      else if name = ''cmask'' then Inr (f\<lparr>rf_cmask := value\<rparr>)
      else if name = ''period'' then Inr f
      else Inl (''unimplemented '' @ name @ '' in parse_intel_event''))"

definition parse_intel_event :: "string \<Rightarrow> string + u64" where
  "parse_intel_event description =
     map_sum id intel_config (parse_tokens intel_field (tokens is_separator description) raw_format_zero)"

text \<open>A \<open>requires=\<close> path that has vanished is only warned about.\<close>

definition amd_field :: "string \<Rightarrow> string \<Rightarrow> raw_format \<Rightarrow> string + raw_format" where
  "amd_field name val f =
     (let value = word_of_int (fst (strtol 16 val)) in
      if name = ''event'' then Inr (f\<lparr>rf_event := value, rf_event2 := drop_bit 8 value\<rparr>)
      else if name = ''umask'' then Inr (f\<lparr>rf_umask := value\<rparr>)
      else if name = ''cmask'' then Inr (f\<lparr>rf_cmask := value\<rparr>)
      else if name = ''requires'' then Inr f
      else Inl (''unimplemented '' @ name @ '' in parse_amd_event''))"

definition parse_amd_event :: "string \<Rightarrow> string + u64" where
  "parse_amd_event description =
     map_sum id amd_config (parse_tokens amd_field (tokens is_separator description) raw_format_zero)"

definition arm_field :: "string \<Rightarrow> string \<Rightarrow> u64 \<Rightarrow> string + u64" where
  "arm_field name val config =
     (if name = ''event'' \<or> name = ''config'' then Inr (fst (strtoul 16 val))
      else if name = ''period'' then Inr config
      else Inl (''unimplemented '' @ name @ '' in parse_arm_event''))"

definition parse_arm_event :: "string \<Rightarrow> string + u64" where
  "parse_arm_event description = parse_tokens arm_field (tokens is_separator description) 0"

section \<open>Setting the tables up\<close>

definition raw_event_requires_available :: "(string \<Rightarrow> bool) \<Rightarrow> raw_event \<Rightarrow> bool" where
  "raw_event_requires_available path_exists ev =
     (case strstr (re_description ev) ''requires='' of
        None \<Rightarrow> True
      | Some req \<Rightarrow> path_exists (take 255 (takeWhile (\<lambda>c. \<not> is_separator c) (drop 9 req))))"

text \<open>The four tables are globals: \<open>setup_raw_events\<close> updates them in place.\<close>

record raw_tables =
  rt_intel :: "raw_event list"
  rt_intel_atom :: "raw_event list"
  rt_amd :: "raw_event list"
  rt_arm :: "raw_event list"

definition raw_tables_initial :: raw_tables where
  "raw_tables_initial =
     \<lparr>rt_intel = intel_raw_events, rt_intel_atom = intel_atom_raw_events, rt_amd = amd_raw_events,
      rt_arm = arm_raw_events\<rparr>"

definition set_config :: "(string \<Rightarrow> string + u64) \<Rightarrow> raw_event \<Rightarrow> string + raw_event" where
  "set_config parse ev = map_sum id (\<lambda>c. ev\<lparr>re_config := c\<rparr>) (parse (re_description ev))"

definition setup_event :: "(string \<Rightarrow> string + u64) \<Rightarrow> u32 \<Rightarrow> raw_event \<Rightarrow> string + raw_event" where
  "setup_event parse cmask ev = (if has_bit (re_use ev) cmask then set_config parse ev else Inr ev)"

definition setup_amd_event :: "(string \<Rightarrow> bool) \<Rightarrow> u32 \<Rightarrow> raw_event \<Rightarrow> string + raw_event" where
  "setup_amd_event path_exists cmask ev =
     (if has_bit (re_use ev) cmask then
        (if \<not> raw_event_requires_available path_exists ev then Inr (ev\<lparr>re_use := 0\<rparr>)
         else set_config parse_amd_event ev)
      else Inr ev)"

fun map_result :: "('a \<Rightarrow> 'e + 'b) \<Rightarrow> 'a list \<Rightarrow> 'e + 'b list" where
  "map_result f [] = Inr []"
| "map_result f (x # xs) =
     (case f x of
        Inl e \<Rightarrow> Inl e
      | Inr y \<Rightarrow> (case map_result f xs of Inl e \<Rightarrow> Inl e | Inr ys \<Rightarrow> Inr (y # ys)))"

definition setup_raw_events :: "host \<Rightarrow> (string \<Rightarrow> bool) \<Rightarrow> u32 \<Rightarrow> raw_tables \<Rightarrow> string + raw_tables" where
  "setup_raw_events h path_exists counter_mask rt =
     (case h_vendor h of
        VENDOR_ARM \<Rightarrow>
          map_sum id (\<lambda>es. rt\<lparr>rt_arm := es\<rparr>) (map_result (setup_event parse_arm_event counter_mask) (rt_arm rt))
      | VENDOR_AMD \<Rightarrow>
          map_sum id (\<lambda>es. rt\<lparr>rt_amd := es\<rparr>) (map_result (setup_amd_event path_exists counter_mask) (rt_amd rt))
      | VENDOR_INTEL \<Rightarrow>
          (case map_result (setup_event parse_intel_event counter_mask) (rt_intel rt) of
             Inl e \<Rightarrow> Inl e
           | Inr es \<Rightarrow>
               (let rt1 = rt\<lparr>rt_intel := es\<rparr> in
                if h_is_hybrid h then
                  map_sum id (\<lambda>as. rt1\<lparr>rt_intel_atom := as\<rparr>)
                    (map_result (setup_event parse_intel_event counter_mask) (rt_intel_atom rt1))
                else Inr rt1))
      | VENDOR_UNKNOWN \<Rightarrow> Inr rt)"

section \<open>Every entry parses\<close>

text \<open>Whether a description parses is decided by the names in it.\<close>

definition names_ok :: "string list \<Rightarrow> raw_event \<Rightarrow> bool" where
  "names_ok names ev \<longleftrightarrow>
     list_all (\<lambda>t. case split_at (CHR ''='') t of None \<Rightarrow> True | Some (n, v) \<Rightarrow> n \<in> set names)
       (tokens is_separator (re_description ev))"

definition intel_names :: "string list" where "intel_names = [''event'', ''umask'', ''cmask'', ''period'']"
definition amd_names :: "string list" where "amd_names = [''event'', ''umask'', ''cmask'', ''requires'']"
definition arm_names :: "string list" where "arm_names = [''event'', ''config'', ''period'']"

lemma parse_tokens_ok:
  assumes "\<And>n v f. n \<in> set names \<Longrightarrow> \<exists>g. set_field n v f = Inr g"
    and "list_all (\<lambda>t. case split_at (CHR ''='') t of None \<Rightarrow> True | Some (n, v) \<Rightarrow> n \<in> set names) ts"
  shows "\<exists>g. parse_tokens set_field ts f = Inr g"
  using assms(2)
proof (induction ts arbitrary: f)
  case (Cons t ts)
  show ?case
  proof (cases "split_at (CHR ''='') t")
    case None
    with Cons show ?thesis by simp
  next
    case (Some nv)
    obtain n v where nv: "nv = (n, v)" by fastforce
    with Cons.prems Some have "n \<in> set names" by simp
    then obtain g where "set_field n v f = Inr g" using assms(1) by blast
    with Some nv Cons show ?thesis by simp
  qed
qed simp

lemma parse_intel_ok:
  assumes "names_ok intel_names ev"
  shows "\<exists>c. parse_intel_event (re_description ev) = Inr c"
proof -
  have "\<exists>g. parse_tokens intel_field (tokens is_separator (re_description ev)) f = Inr g" for f
    using assms unfolding names_ok_def
    by (intro parse_tokens_ok [where names = intel_names])
      (auto simp: intel_names_def intel_field_def Let_def)
  from this [of raw_format_zero] show ?thesis by (auto simp: parse_intel_event_def)
qed

lemma parse_amd_ok:
  assumes "names_ok amd_names ev"
  shows "\<exists>c. parse_amd_event (re_description ev) = Inr c"
proof -
  have "\<exists>g. parse_tokens amd_field (tokens is_separator (re_description ev)) f = Inr g" for f
    using assms unfolding names_ok_def
    by (intro parse_tokens_ok [where names = amd_names])
      (auto simp: amd_names_def amd_field_def Let_def)
  from this [of raw_format_zero] show ?thesis by (auto simp: parse_amd_event_def)
qed

lemma parse_arm_ok:
  assumes "names_ok arm_names ev"
  shows "\<exists>c. parse_arm_event (re_description ev) = Inr c"
proof -
  have "\<exists>g. parse_tokens arm_field (tokens is_separator (re_description ev)) f = Inr g" for f
    using assms unfolding names_ok_def
    by (intro parse_tokens_ok [where names = arm_names])
      (auto simp: arm_names_def arm_field_def Let_def)
  from this [of 0] show ?thesis by (auto simp: parse_arm_event_def)
qed

lemma intel_names_ok: "list_all (names_ok intel_names) intel_raw_events"
  by code_simp

lemma atom_names_ok: "list_all (names_ok intel_names) intel_atom_raw_events"
  by code_simp

lemma amd_names_ok: "list_all (names_ok amd_names) amd_raw_events"
  by code_simp

lemma arm_names_ok: "list_all (names_ok arm_names) arm_raw_events"
  by code_simp

text \<open>A table is usable if each description parses; the set-up keeps it so.\<close>

definition tables_ok :: "raw_tables \<Rightarrow> bool" where
  "tables_ok rt \<longleftrightarrow>
     list_all (names_ok intel_names) (rt_intel rt) \<and> list_all (names_ok intel_names) (rt_intel_atom rt) \<and>
     list_all (names_ok amd_names) (rt_amd rt) \<and> list_all (names_ok arm_names) (rt_arm rt)"

lemma tables_ok_initial: "tables_ok raw_tables_initial"
  by (simp add: tables_ok_def raw_tables_initial_def intel_names_ok atom_names_ok amd_names_ok arm_names_ok)

lemma map_result_ok:
  assumes "\<And>x. x \<in> set xs \<Longrightarrow> \<exists>y. f x = Inr y \<and> P x y"
  shows "\<exists>ys. map_result f xs = Inr ys \<and> list_all2 P xs ys"
  using assms
proof (induction xs)
  case (Cons x xs)
  then obtain y ys where "f x = Inr y" "P x y" "map_result f xs = Inr ys" "list_all2 P xs ys"
    by (metis list.set_intros)
  then show ?case by simp
qed simp

text \<open>What the set-up does to one entry: a requested one gets the config its description denotes, or
  loses its uses when its path is missing; any other is untouched.\<close>

definition entry_set_up :: "(string \<Rightarrow> string + u64) \<Rightarrow> (raw_event \<Rightarrow> bool) \<Rightarrow> u32 \<Rightarrow> raw_event \<Rightarrow> raw_event \<Rightarrow> bool" where
  "entry_set_up parse available m ev ev' \<longleftrightarrow>
     re_name ev' = re_name ev \<and> re_description ev' = re_description ev \<and>
     re_device_type ev' = re_device_type ev \<and>
     (if \<not> has_bit (re_use ev) m then ev' = ev
      else if available ev then re_use ev' = re_use ev \<and> parse (re_description ev) = Inr (re_config ev')
      else re_use ev' = 0 \<and> re_config ev' = re_config ev)"

lemma setup_event_entry:
  "\<exists>c. parse (re_description ev) = Inr c \<Longrightarrow>
   \<exists>ev'. setup_event parse m ev = Inr ev' \<and> entry_set_up parse (\<lambda>_. True) m ev ev'"
  by (auto simp: setup_event_def set_config_def entry_set_up_def)

lemma setup_amd_event_entry:
  "\<exists>c. parse_amd_event (re_description ev) = Inr c \<Longrightarrow>
   \<exists>ev'. setup_amd_event path_exists m ev = Inr ev' \<and>
     entry_set_up parse_amd_event (raw_event_requires_available path_exists) m ev ev'"
  by (auto simp: setup_amd_event_def set_config_def entry_set_up_def)

lemma setup_table:
  assumes "list_all (names_ok names) es"
    and "\<And>ev. names_ok names ev \<Longrightarrow> \<exists>ev'. f ev = Inr ev' \<and> entry_set_up parse av m ev ev'"
  shows "\<exists>es'. map_result f es = Inr es' \<and> list_all2 (entry_set_up parse av m) es es'"
  using assms by (intro map_result_ok) (auto simp: list_all_iff)

text \<open>C30: on every host and for every counter mask, \<open>setup_raw_events\<close> succeeds on the shipped tables:
  no description has an unknown key, each requested entry of the host's table gets exactly the config
  its description denotes, an AMD entry whose \<open>requires=\<close> path is missing is masked out instead, and
  nothing else changes.\<close>
theorem setup_raw_events_configures:
  "\<exists>rt. setup_raw_events h path_exists m raw_tables_initial = Inr rt \<and>
    (if h_vendor h = VENDOR_ARM
     then list_all2 (entry_set_up parse_arm_event (\<lambda>_. True) m) arm_raw_events (rt_arm rt)
     else rt_arm rt = arm_raw_events) \<and>
    (if h_vendor h = VENDOR_AMD
     then list_all2 (entry_set_up parse_amd_event (raw_event_requires_available path_exists) m)
       amd_raw_events (rt_amd rt)
     else rt_amd rt = amd_raw_events) \<and>
    (if h_vendor h = VENDOR_INTEL
     then list_all2 (entry_set_up parse_intel_event (\<lambda>_. True) m) intel_raw_events (rt_intel rt)
     else rt_intel rt = intel_raw_events) \<and>
    (if h_vendor h = VENDOR_INTEL \<and> h_is_hybrid h
     then list_all2 (entry_set_up parse_intel_event (\<lambda>_. True) m) intel_atom_raw_events (rt_intel_atom rt)
     else rt_intel_atom rt = intel_atom_raw_events)"
proof -
  obtain es where arm: "map_result (setup_event parse_arm_event m) arm_raw_events = Inr es"
    "list_all2 (entry_set_up parse_arm_event (\<lambda>_. True) m) arm_raw_events es"
    using setup_table [OF arm_names_ok, OF setup_event_entry] parse_arm_ok by blast
  obtain ds where amd: "map_result (setup_amd_event path_exists m) amd_raw_events = Inr ds"
    "list_all2 (entry_set_up parse_amd_event (raw_event_requires_available path_exists) m) amd_raw_events ds"
    using setup_table [OF amd_names_ok, OF setup_amd_event_entry] parse_amd_ok by blast
  obtain ps where intel: "map_result (setup_event parse_intel_event m) intel_raw_events = Inr ps"
    "list_all2 (entry_set_up parse_intel_event (\<lambda>_. True) m) intel_raw_events ps"
    using setup_table [OF intel_names_ok, OF setup_event_entry] parse_intel_ok by blast
  obtain as where atom: "map_result (setup_event parse_intel_event m) intel_atom_raw_events = Inr as"
    "list_all2 (entry_set_up parse_intel_event (\<lambda>_. True) m) intel_atom_raw_events as"
    using setup_table [OF atom_names_ok, OF setup_event_entry] parse_intel_ok by blast
  show ?thesis
    using arm amd intel atom
    by (cases "h_vendor h"; cases "h_is_hybrid h") (simp_all add: setup_raw_events_def raw_tables_initial_def)
qed

end
