(* ===== verification/Counter_Groups.thy ===== *)
theory Counter_Groups
  imports Counter_Events
begin

text \<open>
  The constructors of counter groups (src/topdown.c, and the one of src/symbol_sample.c), and
  \<open>setup_counter_groups\<close>, which builds the list of groups a counter mask asks for. The groups' sizes and
  the choice of group leaders decide what \<open>perf_event_open\<close> is asked to schedule together.
\<close>

section \<open>Software and generic hardware groups\<close>

definition plain_counter :: "string \<times> u64 \<Rightarrow> counter_info" where
  "plain_counter lc = counter_info_zero\<lparr>ci_label := fst lc, ci_config := snd lc\<rparr>"

definition sw_counters :: "(string \<times> u64) list" where
  "sw_counters =
     [(''cpu-clock'', 0), (''task-clock'', 1), (''page faults'', 2), (''context switches'', 3),
      (''cpu migrations'', 4), (''major page faults'', 6), (''minor page faults'', 5),
      (''alignment faults'', 7), (''emulation faults'', 8)]"

definition software_counter_group :: "string \<Rightarrow> counter_group" where
  "software_counter_group name =
     \<lparr>cg_label = name, cg_type_id = PERF_TYPE_SOFTWARE, cg_target_cpu = -1, cg_mask = 0,
      cg_cinfo = map plain_counter sw_counters\<rparr>"

definition hw_counters :: "(string \<times> u64) list" where
  "hw_counters = [(''cpu-cycles'', 0), (''instructions'', 1), (''branches'', 4), (''branch-misses'', 5)]"

definition generic_hardware_counter_group :: "string \<Rightarrow> counter_group" where
  "generic_hardware_counter_group name =
     \<lparr>cg_label = name, cg_type_id = PERF_TYPE_HARDWARE, cg_target_cpu = -1, cg_mask = 0,
      cg_cinfo = map plain_counter hw_counters\<rparr>"

definition symbol_sample_counter_group :: "string \<Rightarrow> symbol_sample_event \<Rightarrow> counter_group" where
  "symbol_sample_counter_group name event =
     (let ev = symbol_sample_event_info event in
      \<lparr>cg_label = name, cg_type_id = PERF_TYPE_HARDWARE, cg_target_cpu = -1, cg_mask = 0,
       cg_cinfo = [counter_info_zero\<lparr>ci_label := si_name ev, ci_config := si_config ev,
         ci_sample_period := si_default_period ev, ci_is_group_leader := True,
         ci_is_symbol_sample := True\<rparr>]\<rparr>)"

section \<open>The cache group\<close>

text \<open>\<open>PERF_COUNT_HW_CACHE_L1D\<close> is 0, L1I 1, DTLB 3, ITLB 4; a miss is result 1, shifted by 16.\<close>

definition cache_config :: "u64 \<Rightarrow> u64 \<Rightarrow> u64" where
  "cache_config unit result = unit OR push_bit 8 0 OR push_bit 16 result"

definition cache_row :: "string \<Rightarrow> u64 \<Rightarrow> u64 \<Rightarrow> u32 \<Rightarrow> cache_event" where
  "cache_row name unit result use =
     \<lparr>ce_type_id = PERF_TYPE_HW_CACHE, ce_name = name, ce_config = cache_config unit result,
      ce_group_id = ucast unit, ce_use = use\<rparr>"

definition cache_events :: "cache_event list" where
  "cache_events =
     [cache_row ''l1d-read'' 0 0 COUNTER_DCACHE, cache_row ''l1d-read-miss'' 0 1 COUNTER_DCACHE,
      cache_row ''l1i-read'' 1 0 COUNTER_ICACHE, cache_row ''l1i-read-miss'' 1 1 COUNTER_ICACHE,
      cache_row ''dTLB-loads'' 3 0 COUNTER_TLB, cache_row ''dTLB-load-misses'' 3 1 COUNTER_TLB,
      cache_row ''iTLB-loads'' 4 0 COUNTER_TLB, cache_row ''iTLB-load-misses'' 4 1 COUNTER_TLB,
      \<lparr>ce_type_id = PERF_TYPE_HARDWARE, ce_name = ''instructions'', ce_config = 1, ce_group_id = 0,
       ce_use = COUNTER_DCACHE OR COUNTER_ICACHE OR COUNTER_TLB\<rparr>]"

definition available_slots :: "host \<Rightarrow> nat" where
  "available_slots h = (if h_nmi_running h then 5 else 6)"

definition cache_counter :: "host \<Rightarrow> nat \<times> cache_event \<Rightarrow> counter_info" where
  "cache_counter h ce =
     (let (count, ev) = ce in
      counter_info_zero\<lparr>ci_label := ce_name ev, ci_config := ce_config ev, ci_device_type := ce_type_id ev,
        ci_is_group_leader :=
          (h_vendor h = VENDOR_AMD \<or> h_vendor h = VENDOR_ARM \<or> h_vendor h = VENDOR_INTEL) \<and>
          count mod available_slots h = 0\<rparr>)"

definition cache_counter_group :: "host \<Rightarrow> string \<Rightarrow> u32 \<Rightarrow> counter_group option" where
  "cache_counter_group h name cmask =
     (let evs = filter (\<lambda>ev. has_bit cmask (ce_use ev)) cache_events in
      if evs = [] then None
      else Some \<lparr>cg_label = ''cache'', cg_type_id = PERF_TYPE_HW_CACHE, cg_target_cpu = -1, cg_mask = cmask,
        cg_cinfo = map (cache_counter h) (enumerate 0 evs)\<rparr>)"

section \<open>Raw groups\<close>

definition raw_table :: "host \<Rightarrow> raw_tables \<Rightarrow> cpu_core_type \<Rightarrow> raw_event list" where
  "raw_table h rt core_class =
     (case h_vendor h of
        VENDOR_ARM \<Rightarrow> rt_arm rt
      | VENDOR_AMD \<Rightarrow> rt_amd rt
      | VENDOR_INTEL \<Rightarrow> (if core_class = CORE_INTEL_ATOM then rt_intel_atom rt else rt_intel rt)
      | VENDOR_UNKNOWN \<Rightarrow> [])"

definition raw_leader :: "host \<Rightarrow> u32 \<Rightarrow> cpu_core_type \<Rightarrow> nat \<Rightarrow> raw_event \<Rightarrow> bool" where
  "raw_leader h cmask core_class count ev =
     (let chunked = (count mod available_slots h = 0 \<or> re_device_type ev \<noteq> PERF_TYPE_RAW) in
      case h_vendor h of
        VENDOR_AMD \<Rightarrow> chunked
      | VENDOR_ARM \<Rightarrow> chunked
      | VENDOR_INTEL \<Rightarrow>
          (if has_bit cmask (COUNTER_TOPDOWN OR COUNTER_TOPDOWN2) \<and> core_class \<noteq> CORE_INTEL_ATOM
           then count = 0 else chunked)
      | VENDOR_UNKNOWN \<Rightarrow> False)"

definition raw_counter :: "host \<Rightarrow> u32 \<Rightarrow> cpu_core_type \<Rightarrow> nat \<times> raw_event \<Rightarrow> counter_info" where
  "raw_counter h cmask core_class ce =
     (let (count, ev) = ce in
      counter_info_zero\<lparr>ci_label := re_name ev, ci_config := re_config ev,
        ci_device_type := re_device_type ev,
        ci_requires_system_wide := (re_device_type ev = PERF_TYPE_L3),
        ci_is_group_leader := raw_leader h cmask core_class count ev\<rparr>)"

definition raw_counter_group ::
  "host \<Rightarrow> raw_tables \<Rightarrow> string \<Rightarrow> u32 \<Rightarrow> cpu_core_type \<Rightarrow> counter_group option"
where
  "raw_counter_group h rt name cmask core_class =
     (let evs = filter (\<lambda>ev. has_bit (re_use ev) cmask) (raw_table h rt core_class) in
      if evs = [] then None
      else Some \<lparr>cg_label = name, cg_type_id = PERF_TYPE_RAW, cg_target_cpu = -1, cg_mask = cmask,
        cg_cinfo = map (raw_counter h cmask core_class) (enumerate 0 evs)\<rparr>)"

section \<open>All the groups a mask asks for\<close>

text \<open>The raw groups in the order their \<open>if\<close> blocks push them.\<close>

definition raw_group_requests :: "(string \<times> u32) list" where
  "raw_group_requests =
     [(''arm-dcache-mem'', COUNTER_ARM_DCACHE_MEM), (''arm-icache-tlb'', COUNTER_ARM_ICACHE_TLB),
      (''arm-mem-align-tlb'', COUNTER_ARM_MEM_ALIGN_TLB), (''float'', COUNTER_FLOAT),
      (''op cache'', COUNTER_OPCACHE), (''memory'', COUNTER_MEMORY), (''l3 cache'', COUNTER_L3CACHE),
      (''l2 cache'', COUNTER_L2CACHE), (''branch'', COUNTER_BRANCH), (''topdown-op'', COUNTER_TOPDOWN_OP),
      (''topdown-fe'', COUNTER_TOPDOWN_FE), (''topdown-be'', COUNTER_TOPDOWN_BE),
      (''topdown2'', COUNTER_TOPDOWN2), (''topdown'', COUNTER_TOPDOWN), (''ipc'', COUNTER_IPC)]"

definition push_group :: "counter_group option \<Rightarrow> counter_group list \<Rightarrow> counter_group list" where
  "push_group g list = (case g of None \<Rightarrow> list | Some cgroup \<Rightarrow> cgroup # list)"

definition push_raw ::
  "host \<Rightarrow> raw_tables \<Rightarrow> u32 \<Rightarrow> cpu_core_type \<Rightarrow> string \<times> u32 \<Rightarrow> counter_group list \<Rightarrow> counter_group list"
where
  "push_raw h rt counter_mask core_class req list =
     (if has_bit counter_mask (snd req)
      then push_group (raw_counter_group h rt (fst req) (snd req) core_class) list else list)"

definition CACHE_BITS :: u32 where "CACHE_BITS = COUNTER_DCACHE OR COUNTER_ICACHE OR COUNTER_TLB"

definition setup_counter_groups ::
  "host \<Rightarrow> raw_tables \<Rightarrow> u32 \<Rightarrow> cpu_core_type \<Rightarrow> counter_group list \<Rightarrow> counter_group list"
where
  "setup_counter_groups h rt counter_mask core_class list =
     fold (push_raw h rt counter_mask core_class) raw_group_requests
       (if has_bit counter_mask CACHE_BITS
        then push_group (cache_counter_group h ''cache'' (counter_mask AND CACHE_BITS)) list else list)"

section \<open>Finding a counter and the IBS sampling report\<close>

definition find_ci_label :: "counter_group \<Rightarrow> string \<Rightarrow> counter_info option" where
  "find_ci_label cgroup label = find (\<lambda>c. ci_label c = label) (cg_cinfo cgroup)"

definition print_ibs_sample :: "bool \<Rightarrow> counter_group \<Rightarrow> output_format \<Rightarrow> string" where
  "print_ibs_sample zen4_ext cgroup oformat =
     print_ibs_sample_states zen4_ext
       (Option.bind (find_ci_label cgroup ''ibs_sample_fetch'') ci_ibs_sample_state)
       (Option.bind (find_ci_label cgroup ''ibs_sample_op'') ci_ibs_sample_state) oformat"

section \<open>Leaders\<close>

lemma available_slots_pos [simp]: "0 < available_slots h" "available_slots h \<noteq> 0"
  by (simp_all add: available_slots_def)

text \<open>Every counter lies in a chunk: a leader at most \<open>slots - 1\<close> places before it.\<close>

definition chunked :: "nat \<Rightarrow> counter_info list \<Rightarrow> bool" where
  "chunked slots cs \<longleftrightarrow>
     (\<forall>i < length cs. \<exists>j \<le> i. i - j < slots \<and> ci_is_group_leader (cs ! j))"

lemma chunked_enumerate:
  assumes "0 < slots"
    and "\<And>n x. n mod slots = 0 \<Longrightarrow> ci_is_group_leader (f (n, x))"
  shows "chunked slots (map f (enumerate 0 xs))"
  unfolding chunked_def
proof (intro allI impI)
  fix i assume i: "i < length (map f (enumerate 0 xs))"
  let ?j = "i - i mod slots"
  have "?j \<le> i" "i - ?j < slots" using assms(1) by simp_all
  moreover have "?j mod slots = 0" by (simp add: minus_mod_eq_mult_div)
  then have "ci_is_group_leader (map f (enumerate 0 xs) ! ?j)"
    using i assms(2) by (simp add: nth_enumerate_eq)
  ultimately show "\<exists>j \<le> i. i - j < slots \<and> ci_is_group_leader (map f (enumerate 0 xs) ! j)" by blast
qed

definition topdown_family :: "host \<Rightarrow> u32 \<Rightarrow> cpu_core_type \<Rightarrow> bool" where
  "topdown_family h cmask core_class \<longleftrightarrow>
     h_vendor h = VENDOR_INTEL \<and> core_class \<noteq> CORE_INTEL_ATOM \<and>
     has_bit cmask (COUNTER_TOPDOWN OR COUNTER_TOPDOWN2)"

lemma raw_group_cases:
  assumes "raw_counter_group h rt name m cc = Some g"
  obtains evs where "evs = filter (\<lambda>ev. has_bit (re_use ev) m) (raw_table h rt cc)" and "evs \<noteq> []"
    and "g = \<lparr>cg_label = name, cg_type_id = PERF_TYPE_RAW, cg_target_cpu = -1, cg_mask = m,
      cg_cinfo = map (raw_counter h m cc) (enumerate 0 evs)\<rparr>"
  using assms by (auto simp: raw_counter_group_def Let_def split: if_splits)

lemma raw_group_vendor:
  "raw_counter_group h rt name m cc = Some g \<Longrightarrow> h_vendor h \<noteq> VENDOR_UNKNOWN"
  by (auto simp: raw_counter_group_def raw_table_def)

lemma raw_group_chunked:
  assumes "raw_counter_group h rt name m cc = Some g" and "\<not> topdown_family h m cc"
  shows "chunked (available_slots h) (cg_cinfo g)"
proof -
  obtain evs where g: "g = \<lparr>cg_label = name, cg_type_id = PERF_TYPE_RAW, cg_target_cpu = -1, cg_mask = m,
      cg_cinfo = map (raw_counter h m cc) (enumerate 0 evs)\<rparr>"
    using raw_group_cases [OF assms(1)] by metis
  have "ci_is_group_leader (raw_counter h m cc (n, x))" if "n mod available_slots h = 0" for n x
    using that assms(2) raw_group_vendor [OF assms(1)]
    by (cases "h_vendor h") (auto simp: raw_counter_def raw_leader_def topdown_family_def counter_info_zero_def)
  then show ?thesis unfolding g by (simp add: chunked_enumerate)
qed

text \<open>The counters of a raw group are the table's entries with the group's use, in table order.\<close>

lemma raw_group_counters:
  assumes "raw_counter_group h rt name m cc = Some g"
  shows "map (\<lambda>c. (ci_label c, ci_config c, ci_device_type c)) (cg_cinfo g)
    = map (\<lambda>e. (re_name e, re_config e, re_device_type e))
        (filter (\<lambda>ev. has_bit (re_use ev) m) (raw_table h rt cc))"
proof -
  have "map (\<lambda>c. (ci_label c, ci_config c, ci_device_type c)) (map (raw_counter h m cc) (enumerate n evs))
    = map (\<lambda>e. (re_name e, re_config e, re_device_type e)) evs" for n evs
    by (induction evs arbitrary: n) (simp_all add: raw_counter_def counter_info_zero_def)
  moreover obtain evs where "evs = filter (\<lambda>ev. has_bit (re_use ev) m) (raw_table h rt cc)"
    and "cg_cinfo g = map (raw_counter h m cc) (enumerate 0 evs)"
    by (rule raw_group_cases [OF assms]) simp
  ultimately show ?thesis by (simp only:)
qed

section \<open>What the list holds\<close>

lemma fold_push_member:
  "g \<in> set (fold (push_raw h rt m cc) reqs list) \<longleftrightarrow>
     g \<in> set list \<or>
     (\<exists>r \<in> set reqs. has_bit m (snd r) \<and> raw_counter_group h rt (fst r) (snd r) cc = Some g)"
proof (induction reqs arbitrary: list)
  case (Cons r reqs)
  have "g \<in> set (push_raw h rt m cc r list) \<longleftrightarrow>
      g \<in> set list \<or> (has_bit m (snd r) \<and> raw_counter_group h rt (fst r) (snd r) cc = Some g)"
    by (auto simp: push_raw_def push_group_def split: option.split)
  with Cons show ?case by auto
qed simp

lemma setup_groups_member:
  "g \<in> set (setup_counter_groups h rt m cc list) \<longleftrightarrow>
     g \<in> set list \<or>
     (has_bit m CACHE_BITS \<and> cache_counter_group h ''cache'' (m AND CACHE_BITS) = Some g) \<or>
     (\<exists>r \<in> set raw_group_requests. has_bit m (snd r) \<and> raw_counter_group h rt (fst r) (snd r) cc = Some g)"
proof -
  have "g \<in> set (push_group x list) \<longleftrightarrow> g \<in> set list \<or> x = Some g" for x
    by (auto simp: push_group_def split: option.split)
  then show ?thesis
    unfolding setup_counter_groups_def fold_push_member by (cases "has_bit m CACHE_BITS") auto
qed

text \<open>The mask matters only through the bits the blocks test.\<close>

lemma setup_groups_mask:
  assumes "m AND CACHE_BITS = m' AND CACHE_BITS"
    and "\<And>b. b \<in> snd ` set raw_group_requests \<Longrightarrow> has_bit m b = has_bit m' b"
  shows "setup_counter_groups h rt m cc list = setup_counter_groups h rt m' cc list"
proof -
  have "fold (push_raw h rt m cc) reqs l = fold (push_raw h rt m' cc) reqs l"
    if "set reqs \<subseteq> set raw_group_requests" for reqs l
    using that assms(2) by (induction reqs arbitrary: l) (auto simp: push_raw_def)
  then show ?thesis
    using assms(1) by (simp add: setup_counter_groups_def has_bit_def)
qed

section \<open>Properties\<close>

lemma cache_group_chunked:
  assumes "cache_counter_group h name m = Some g" and "h_vendor h \<noteq> VENDOR_UNKNOWN"
  shows "chunked (available_slots h) (cg_cinfo g) \<and> cg_cinfo g \<noteq> []"
proof -
  have "ci_is_group_leader (cache_counter h (n, x))" if "n mod available_slots h = 0" for n x
    using that assms(2) by (cases "h_vendor h") (auto simp: cache_counter_def counter_info_zero_def)
  then show ?thesis
    using assms(1) by (auto simp: cache_counter_group_def Let_def chunked_enumerate split: if_splits)
qed

section \<open>What the shipped tables ask for\<close>

lemma has_bit_exp: "has_bit u (2 ^ i) \<longleftrightarrow> bit u i"
  by (simp add: has_bit_def and_exp_eq_0_iff_not_bit)

text \<open>The bits that have a raw group.\<close>

definition requested_bits :: u32 where
  "requested_bits = foldr (OR) (map snd raw_group_requests) 0"

lemma bit_foldr_or: "bit (foldr (OR) us (0 :: u32)) i \<longleftrightarrow> (\<exists>u \<in> set us. bit u i)"
  by (induction us) (auto simp: bit_or_iff)

lemma request_bits: "list_all (\<lambda>r. \<exists>k \<in> set [0..<32]. snd r = 2 ^ k) raw_group_requests"
  by (simp add: raw_group_requests_def upt_rec)

lemma requested_bit:
  assumes "bit requested_bits i"
  shows "2 ^ i \<in> snd ` set raw_group_requests"
proof -
  obtain r where r: "r \<in> set raw_group_requests" "bit (snd r) i"
    using assms by (auto simp: requested_bits_def bit_foldr_or)
  then obtain k where "snd r = 2 ^ k" using request_bits by (auto simp: list_all_iff)
  with r(2) have "snd r = 2 ^ i" by (simp add: bit_exp_iff)
  with r(1) show ?thesis by force
qed

text \<open>Every use of an event of the tables has a raw group, except the one of the AMD instructions for the TLB counters,
  which are generic cache events.\<close>

definition use_requested :: "u32 \<Rightarrow> bool" where
  "use_requested u \<longleftrightarrow> u AND NOT (requested_bits OR COUNTER_TLB) = 0"

lemma requested_bits_value: "requested_bits = 0x1d5c7f"
  by (simp add: requested_bits_def raw_group_requests_def)

lemma shipped_uses:
  "list_all (\<lambda>ev. use_requested (re_use ev)) arm_raw_events" "list_all (\<lambda>ev. use_requested (re_use ev)) amd_raw_events"
  "list_all (\<lambda>ev. use_requested (re_use ev)) intel_raw_events"
  "list_all (\<lambda>ev. use_requested (re_use ev)) intel_atom_raw_events"
  by (simp_all add: arm_raw_events_def amd_raw_events_def intel_raw_events_def intel_atom_raw_events_def
      raw_event_row_def use_requested_def requested_bits_value)

lemma use_requested_0 [simp]: "use_requested 0"
  by (simp add: use_requested_def)

lemma and_not_bit:
  assumes "u AND NOT v = (0 :: u32)" "bit u i"
  shows "bit v i"
proof -
  have "\<not> bit (u AND NOT v) i" unfolding assms(1) by simp
  then show ?thesis using assms(2) bit_imp_le_length [OF assms(2)] by (simp add: bit_and_iff bit_not_iff)
qed

lemma use_requested_bit:
  assumes "use_requested u" "bit u i" "2 ^ i \<noteq> COUNTER_TLB"
  shows "2 ^ i \<in> snd ` set raw_group_requests"
proof -
  have "bit (requested_bits OR COUNTER_TLB) i" using assms(1,2) unfolding use_requested_def by (rule and_not_bit)
  then have "bit requested_bits i \<or> bit COUNTER_TLB i" by (simp only: bit_or_iff)
  moreover have "\<not> bit COUNTER_TLB i"
  proof
    assume "bit COUNTER_TLB i"
    then have "bit (2 ^ 13 :: u32) i" by simp
    then have "i = 13" by (simp only: bit_exp_iff)
    with assms(3) show False by simp
  qed
  ultimately show ?thesis using requested_bit by blast
qed

lemma map_result_member: "map_result f xs = Inr ys \<Longrightarrow> y \<in> set ys \<Longrightarrow> \<exists>x \<in> set xs. f x = Inr y"
  by (induction xs arbitrary: ys) (auto split: sum.splits)

lemma set_up_uses:
  assumes "list_all (\<lambda>ev. use_requested (re_use ev)) xs"
  shows "map_result (setup_event parse m) xs = Inr ys \<Longrightarrow> list_all (\<lambda>ev. use_requested (re_use ev)) ys"
    and "map_result (setup_amd_event path_exists m) xs = Inr ys \<Longrightarrow> list_all (\<lambda>ev. use_requested (re_use ev)) ys"
proof -
  have e: "use_requested (re_use ev')" if "use_requested (re_use ev)" "setup_event parse m ev = Inr ev'" for ev ev'
    using that by (cases "parse (re_description ev)") (auto simp: setup_event_def set_config_def split: if_splits)
  have a: "use_requested (re_use ev')" if "use_requested (re_use ev)" "setup_amd_event path_exists m ev = Inr ev'" for ev ev'
    using that by (cases "parse_amd_event (re_description ev)") (auto simp: setup_amd_event_def set_config_def split: if_splits)
  show "map_result (setup_event parse m) xs = Inr ys \<Longrightarrow> list_all (\<lambda>ev. use_requested (re_use ev)) ys"
    "map_result (setup_amd_event path_exists m) xs = Inr ys \<Longrightarrow> list_all (\<lambda>ev. use_requested (re_use ev)) ys"
    using assms e a unfolding list_all_iff by (blast dest: map_result_member)+
qed

lemma host_table_uses:
  assumes "setup_raw_events h path_exists m raw_tables_initial = Inr rt" "ev \<in> set (raw_table h rt cc)"
  shows "use_requested (re_use ev)"
proof -
  note done_setup = assms(1) [unfolded setup_raw_events_def raw_tables_initial_def]
  have "list_all (\<lambda>ev. use_requested (re_use ev)) (raw_table h rt cc)"
  proof (cases "h_vendor h")
    case VENDOR_UNKNOWN
    then show ?thesis by (simp add: raw_table_def)
  next
    case VENDOR_ARM
    then obtain es where "map_result (setup_event parse_arm_event m) arm_raw_events = Inr es" "rt_arm rt = es"
      using done_setup by (cases "map_result (setup_event parse_arm_event m) arm_raw_events") auto
    then show ?thesis using set_up_uses(1) [OF shipped_uses(1)] VENDOR_ARM by (simp add: raw_table_def)
  next
    case VENDOR_AMD
    then obtain es where "map_result (setup_amd_event path_exists m) amd_raw_events = Inr es" "rt_amd rt = es"
      using done_setup by (cases "map_result (setup_amd_event path_exists m) amd_raw_events") auto
    then show ?thesis using set_up_uses(2) [OF shipped_uses(2)] VENDOR_AMD by (simp add: raw_table_def)
  next
    case VENDOR_INTEL
    then obtain es where es: "map_result (setup_event parse_intel_event m) intel_raw_events = Inr es" "rt_intel rt = es"
      and "rt_intel_atom rt = intel_atom_raw_events \<or>
        map_result (setup_event parse_intel_event m) intel_atom_raw_events = Inr (rt_intel_atom rt)"
      using done_setup
      by (cases "map_result (setup_event parse_intel_event m) intel_raw_events";
          cases "map_result (setup_event parse_intel_event m) intel_atom_raw_events") (auto simp: Let_def split: if_splits)
    then have "list_all (\<lambda>ev. use_requested (re_use ev)) (rt_intel_atom rt)"
      using set_up_uses(1) [OF shipped_uses(4)] shipped_uses(4) by auto
    then show ?thesis using set_up_uses(1) [OF shipped_uses(3) es(1)] es(2) VENDOR_INTEL by (simp add: raw_table_def)
  qed
  then show ?thesis using assms(2) by (simp add: list_all_iff)
qed

lemma requested_group:
  assumes "ev \<in> set (raw_table h rt cc)" and "(name, b) \<in> set raw_group_requests"
    and "has_bit m b" and "has_bit (re_use ev) b"
  shows "\<exists>g \<in> set (setup_counter_groups h rt m cc list). cg_mask g = b \<and> cg_label g = name \<and>
    map (\<lambda>c. (ci_label c, ci_config c, ci_device_type c)) (cg_cinfo g) = map (\<lambda>e. (re_name e, re_config e, re_device_type e)) (filter (\<lambda>e. has_bit (re_use e) b) (raw_table h rt cc))"
proof -
  let ?evs = "filter (\<lambda>ev. has_bit (re_use ev) b) (raw_table h rt cc)"
  have "ev \<in> set ?evs" using assms(1,4) by simp
  then have "?evs \<noteq> []" by force
  then obtain g where g: "raw_counter_group h rt name b cc = Some g" "cg_mask g = b" "cg_label g = name"
    by (simp add: raw_counter_group_def Let_def del: filter_empty_conv)
  moreover have "g \<in> set (setup_counter_groups h rt m cc list)"
    using assms(2,3) g(1) by (force simp: setup_groups_member)
  moreover have "map (\<lambda>c. (ci_label c, ci_config c, ci_device_type c)) (cg_cinfo g) = map (\<lambda>e. (re_name e, re_config e, re_device_type e)) ?evs"
    by (rule raw_group_counters [OF g(1)])
  ultimately show ?thesis by blast
qed

lemma cache_event_use: "ce \<in> set cache_events \<Longrightarrow> ce_use ce AND CACHE_BITS = ce_use ce"
  by (auto simp: cache_events_def cache_row_def CACHE_BITS_def)

lemma cache_group_counters:
  assumes "cache_counter_group h name m = Some g"
  shows "map (\<lambda>c. (ci_label c, ci_config c, ci_device_type c)) (cg_cinfo g) =
    map (\<lambda>ce. (ce_name ce, ce_config ce, ce_type_id ce)) (filter (\<lambda>ce. has_bit m (ce_use ce)) cache_events)"
proof -
  have "map (\<lambda>c. (ci_label c, ci_config c, ci_device_type c)) (map (cache_counter h) (enumerate n evs)) = map (\<lambda>ce. (ce_name ce, ce_config ce, ce_type_id ce)) evs"
    for n evs
    by (induction evs arbitrary: n) (simp_all add: cache_counter_def counter_info_zero_def)
  then show ?thesis using assms by (auto simp: cache_counter_group_def Let_def split: if_splits)
qed

lemma requested_cache_group:
  assumes "ce \<in> set cache_events" "has_bit m (ce_use ce)"
  shows "\<exists>g \<in> set (setup_counter_groups h rt m cc list). cg_mask g = m AND CACHE_BITS \<and>
    map (\<lambda>c. (ci_label c, ci_config c, ci_device_type c)) (cg_cinfo g) =
      map (\<lambda>ce. (ce_name ce, ce_config ce, ce_type_id ce)) (filter (\<lambda>ce. has_bit m (ce_use ce)) cache_events)"
proof -
  have b: "has_bit (m AND CACHE_BITS) (ce_use e) = has_bit m (ce_use e)" if "e \<in> set cache_events" for e
    using cache_event_use [OF that] unfolding has_bit_def by (metis and.assoc and.commute)
  let ?evs = "filter (\<lambda>e. has_bit (m AND CACHE_BITS) (ce_use e)) cache_events"
  have evs: "?evs = filter (\<lambda>e. has_bit m (ce_use e)) cache_events" by (rule filter_cong) (simp_all add: b)
  have "ce \<in> set ?evs" using assms by (simp add: b)
  then have "?evs \<noteq> []" by force
  then obtain g where g: "cache_counter_group h ''cache'' (m AND CACHE_BITS) = Some g" "cg_mask g = m AND CACHE_BITS"
    by (simp add: cache_counter_group_def Let_def del: filter_empty_conv)
  have "m AND CACHE_BITS \<noteq> 0"
  proof
    assume "m AND CACHE_BITS = 0"
    with b [OF assms(1)] assms(2) show False by (simp add: has_bit_def)
  qed
  then have "g \<in> set (setup_counter_groups h rt m cc list)" using g(1) by (simp add: setup_groups_member has_bit_def)
  then show ?thesis using g(2) cache_group_counters [OF g(1)] evs by auto
qed

text \<open>C31: with the shipped tables, as \<open>setup_raw_events\<close> leaves them, nothing that a counter mask asks for is lost. For
  each bit of the mask that some event of the host's table is tagged with, the list has a group of exactly the events
  tagged with it, in the order of the table; the only exception is the bit of the TLB counters. And if a bit asks for a
  generic cache event (data, instruction or TLB), the list has a group of exactly the cache events asked for.\<close>
theorem setup_counter_groups_complete:
  assumes "setup_raw_events h path_exists m' raw_tables_initial = Inr rt"
  shows "(\<forall>ev \<in> set (raw_table h rt cc). \<forall>i. bit m i \<longrightarrow> bit (re_use ev) i \<longrightarrow> 2 ^ i \<noteq> COUNTER_TLB \<longrightarrow>
      (\<exists>g \<in> set (setup_counter_groups h rt m cc list). cg_mask g = 2 ^ i \<and>
        map (\<lambda>c. (ci_label c, ci_config c, ci_device_type c)) (cg_cinfo g) =
          map (\<lambda>e. (re_name e, re_config e, re_device_type e)) (filter (\<lambda>e. bit (re_use e) i) (raw_table h rt cc)))) \<and>
    (\<forall>ce \<in> set cache_events. has_bit m (ce_use ce) \<longrightarrow>
      (\<exists>g \<in> set (setup_counter_groups h rt m cc list). cg_mask g = m AND (COUNTER_DCACHE OR COUNTER_ICACHE OR COUNTER_TLB) \<and>
        map (\<lambda>c. (ci_label c, ci_config c, ci_device_type c)) (cg_cinfo g) =
          map (\<lambda>e. (ce_name e, ce_config e, ce_type_id e)) (filter (\<lambda>e. has_bit m (ce_use e)) cache_events)))"
proof -
  have raw: "\<exists>g \<in> set (setup_counter_groups h rt m cc list). cg_mask g = 2 ^ i \<and>
      map (\<lambda>c. (ci_label c, ci_config c, ci_device_type c)) (cg_cinfo g) = map (\<lambda>e. (re_name e, re_config e, re_device_type e)) (filter (\<lambda>e. bit (re_use e) i) (raw_table h rt cc))"
    if ev: "ev \<in> set (raw_table h rt cc)" "bit m i" "bit (re_use ev) i" "2 ^ i \<noteq> COUNTER_TLB" for ev i
  proof -
    obtain name where "(name, 2 ^ i) \<in> set raw_group_requests"
      using use_requested_bit [OF host_table_uses [OF assms ev(1)] ev(3,4)] by force
    from requested_group [OF ev(1) this, of m "list"] show ?thesis using ev(2,3) by (auto simp: has_bit_exp)
  qed
  moreover note requested_cache_group [of _ m h rt cc "list", unfolded CACHE_BITS_def]
  ultimately show ?thesis by blast
qed

text \<open>Branches and TLB misses on an AMD host.\<close>

lemma setup_counter_groups_complete_witness:
  "\<exists>rt. setup_raw_events \<lparr>h_vendor = VENDOR_AMD, h_is_hybrid = False, h_nmi_running = True\<rparr> (\<lambda>_. True) COUNTER_IPC
      raw_tables_initial = Inr rt \<and>
    (\<exists>g \<in> set (setup_counter_groups \<lparr>h_vendor = VENDOR_AMD, h_is_hybrid = False, h_nmi_running = True\<rparr>
      rt (COUNTER_TLB OR COUNTER_BRANCH) CORE_UNKNOWN []). cg_mask g = COUNTER_BRANCH) \<and>
    (\<exists>g \<in> set (setup_counter_groups \<lparr>h_vendor = VENDOR_AMD, h_is_hybrid = False, h_nmi_running = True\<rparr>
      rt (COUNTER_TLB OR COUNTER_BRANCH) CORE_UNKNOWN []). cg_mask g = COUNTER_TLB \<and> length (cg_cinfo g) = 5)"
proof -
  let ?h = "\<lparr>h_vendor = VENDOR_AMD, h_is_hybrid = False, h_nmi_running = True\<rparr>"
  let ?b = "raw_event_row ''conditional-branches'' ''event=0xd1'' PERF_TYPE_RAW COUNTER_BRANCH"
  have "\<exists>es'. map_result (setup_amd_event (\<lambda>_. True) COUNTER_IPC) amd_raw_events = Inr es' \<and>
      list_all2 (entry_set_up parse_amd_event (raw_event_requires_available (\<lambda>_. True)) COUNTER_IPC) amd_raw_events es'"
    using setup_table [OF amd_names_ok, OF setup_amd_event_entry] parse_amd_ok by blast
  then obtain es where es: "map_result (setup_amd_event (\<lambda>_. True) COUNTER_IPC) amd_raw_events = Inr es"
    "list_all2 (entry_set_up parse_amd_event (raw_event_requires_available (\<lambda>_. True)) COUNTER_IPC) amd_raw_events es"
    by blast
  let ?rt = "raw_tables_initial\<lparr>rt_amd := es\<rparr>"
  have rt: "setup_raw_events ?h (\<lambda>_. True) COUNTER_IPC raw_tables_initial = Inr ?rt"
    using es(1) by (simp add: setup_raw_events_def raw_tables_initial_def)
  have "?b \<in> set amd_raw_events" by (simp add: amd_raw_events_def raw_event_row_def)
  then obtain i where i: "i < length amd_raw_events" "amd_raw_events ! i = ?b" unfolding in_set_conv_nth by blast
  then have "entry_set_up parse_amd_event (raw_event_requires_available (\<lambda>_. True)) COUNTER_IPC ?b (es ! i)"
    "es ! i \<in> set es"
    using list_all2_nthD [OF es(2) i(1)] list_all2_lengthD [OF es(2)] by simp_all
  then have e: "?b \<in> set (raw_table ?h ?rt CORE_UNKNOWN)"
    by (simp add: entry_set_up_def raw_event_row_def has_bit_def raw_table_def)
  let ?i = "\<lparr>ce_type_id = PERF_TYPE_HARDWARE, ce_name = ''instructions'', ce_config = 1, ce_group_id = 0,
       ce_use = COUNTER_DCACHE OR COUNTER_ICACHE OR COUNTER_TLB\<rparr>"
  have i: "?i \<in> set cache_events" "has_bit (COUNTER_TLB OR COUNTER_BRANCH) (ce_use ?i)"
    by (simp_all add: cache_events_def has_bit_def)
  note all = setup_counter_groups_complete [OF rt, of CORE_UNKNOWN "COUNTER_TLB OR COUNTER_BRANCH" "[]"]
  have "\<exists>g \<in> set (setup_counter_groups ?h ?rt (COUNTER_TLB OR COUNTER_BRANCH) CORE_UNKNOWN []). cg_mask g = COUNTER_BRANCH"
    using all [THEN conjunct1, rule_format, OF e, of 6] by (auto simp: raw_event_row_def)
  moreover have "length (filter (\<lambda>e. has_bit (COUNTER_TLB OR COUNTER_BRANCH) (ce_use e)) cache_events) = 5"
    by (simp add: cache_events_def cache_row_def has_bit_def)
  then have "\<exists>g \<in> set (setup_counter_groups ?h ?rt (COUNTER_TLB OR COUNTER_BRANCH) CORE_UNKNOWN []).
      cg_mask g = COUNTER_TLB \<and> length (cg_cinfo g) = 5"
    using all [THEN conjunct2, rule_format, OF i] by simp (metis (no_types, lifting) length_map)
  ultimately show ?thesis using rt by blast
qed

section \<open>The size of groups\<close>

text \<open>In every group a mask asks for, except Intel's single topdown group, no perf event group that
  starts at a leader is longer than the PMU slots available (5 with the NMI watchdog, 6 without): each
  counter has a leader fewer than that many places before it.\<close>
theorem setup_counter_groups_chunked:
  assumes "g \<in> set (setup_counter_groups h rt m cc [])" and "h_vendor h \<noteq> VENDOR_UNKNOWN"
    and "\<not> topdown_family h (cg_mask g) cc"
  shows "cg_cinfo g \<noteq> [] \<and> chunked (available_slots h) (cg_cinfo g)"
proof -
  from assms(1) consider
      (cache) "cache_counter_group h ''cache'' (m AND CACHE_BITS) = Some g"
    | (raw) name b where "raw_counter_group h rt name b cc = Some g"
    by (auto simp: setup_groups_member)
  then show ?thesis
  proof cases
    case raw
    then obtain evs where "evs \<noteq> []" "cg_mask g = b" "cg_cinfo g = map (raw_counter h b cc) (enumerate 0 evs)"
      by (rule raw_group_cases) simp
    with raw_group_chunked [OF raw] assms(3) show ?thesis
      by (metis Nil_is_map_conv length_0_conv length_enumerate)
  qed (use cache_group_chunked assms(2) in blast)
qed

lemma setup_counter_groups_chunked_witness:
  "\<exists>g \<in> set (setup_counter_groups \<lparr>h_vendor = VENDOR_AMD, h_is_hybrid = False, h_nmi_running = True\<rparr>
      raw_tables_initial COUNTER_TLB CORE_UNKNOWN []). chunked 5 (cg_cinfo g)"
proof -
  let ?h = "\<lparr>h_vendor = VENDOR_AMD, h_is_hybrid = False, h_nmi_running = True\<rparr>"
  obtain g where g: "cache_counter_group ?h ''cache'' (COUNTER_TLB AND CACHE_BITS) = Some g"
    by (simp add: cache_counter_group_def Let_def cache_events_def cache_row_def has_bit_def CACHE_BITS_def)
  then have "g \<in> set (setup_counter_groups ?h raw_tables_initial COUNTER_TLB CORE_UNKNOWN [])"
    by (simp add: setup_groups_member has_bit_def CACHE_BITS_def)
  with setup_counter_groups_chunked [OF this] show ?thesis
    by (auto simp: topdown_family_def available_slots_def)
qed

end
