(* ===== verification/Preflight.thy ===== *)
theory Preflight
  imports Counter_Groups "HOL-Library.Multiset"
begin

text \<open>
  The counter-fit preflight (src/preflight.c): how many general-purpose PMU slots the groups of a mask
  take, group by group with the largest first, whether they fit, and the report and the warning with
  their suggestions. \<open>outfile\<close> and the warning stream are the strings written; \<open>aflag\<close> (--per-core) and
  whether \<open>cpu_info\<close> is set are arguments.
\<close>

record group_usage =
  gu_label :: string
  gu_mask :: u32
  gu_count :: int

record preflight_result =
  pf_requested :: int
  pf_available :: int
  pf_nmi_watchdog_active :: bool
  pf_fits :: bool
  pf_groups :: "group_usage list"

definition preflight_available_slots :: "host \<Rightarrow> int" where
  "preflight_available_slots h = (if h_nmi_running h then 5 else 6)"

definition includes_intel_topdown_family :: "preflight_result \<Rightarrow> bool" where
  "includes_intel_topdown_family r =
     list_ex (\<lambda>u. has_bit (gu_mask u) (COUNTER_TOPDOWN OR COUNTER_TOPDOWN2)) (pf_groups r)"

definition counter_disable_hints :: "(u32 \<times> string) list" where
  "counter_disable_hints =
     [(COUNTER_IPC, ''--no-ipc''), (COUNTER_TOPDOWN, ''--no-topdown''), (COUNTER_TOPDOWN2, ''--no-topdown2''),
      (COUNTER_TOPDOWN_FE, ''--no-topdown-frontend''), (COUNTER_TOPDOWN_BE, ''--no-topdown-backend''),
      (COUNTER_TOPDOWN_OP, ''--no-topdown-optlb''), (COUNTER_BRANCH, ''--no-branch''),
      (COUNTER_DCACHE, ''--no-cache''), (COUNTER_ICACHE, ''--no-icache''), (COUNTER_L1CACHE, ''--no-cache1''),
      (COUNTER_L2CACHE, ''--no-cache2''), (COUNTER_L3CACHE, ''--no-cache3''), (COUNTER_MEMORY, ''--no-memory''),
      (COUNTER_TLB, ''--no-tlb''), (COUNTER_OPCACHE, ''--no-opcache''),
      (COUNTER_FLOAT, ''(omit --float; no --no-float flag exists yet)'')]"

text \<open>\<open>snprintf\<close> into what is left of \<open>buf[256]\<close>: \<open>used\<close> grows by the full length of the piece, so the
  loop stops once the buffer is full, its text cut to 255 characters.\<close>

fun join_hints :: "string list \<Rightarrow> nat \<Rightarrow> string \<Rightarrow> string" where
  "join_hints [] used buf = buf"
| "join_hints (h # hs) used buf =
     (let piece = (if used \<noteq> 0 then '', '' else '''') @ h;
          buf' = buf @ take (256 - used - 1) piece; used' = used + length piece
      in if used' \<ge> 256 then buf' else join_hints hs used' buf')"

definition disable_hints_for :: "u32 \<Rightarrow> string" where
  "disable_hints_for gmask =
     join_hints (map snd (filter (\<lambda>h. has_bit gmask (fst h)) counter_disable_hints)) 0 []"

text \<open>What one group takes of the general-purpose budget.\<close>

definition group_slots :: "counter_group \<Rightarrow> int" where
  "group_slots g =
     (if cg_type_id g = PERF_TYPE_HW_CACHE then int (length (cg_cinfo g))
      else if cg_type_id g = PERF_TYPE_RAW then
        int (length (filter (\<lambda>c. ci_device_type c = PERF_TYPE_RAW) (cg_cinfo g)))
      else 0)"

text \<open>The insertion: at the head if the head is smaller, else past everything at least as large.\<close>

fun insert_after :: "group_usage \<Rightarrow> group_usage list \<Rightarrow> group_usage list" where
  "insert_after u [] = [u]"
| "insert_after u (v # vs) = (if gu_count v \<ge> gu_count u then v # insert_after u vs else u # v # vs)"

definition insert_usage :: "group_usage \<Rightarrow> group_usage list \<Rightarrow> group_usage list" where
  "insert_usage u us =
     (case us of
        [] \<Rightarrow> [u]
      | v # vs \<Rightarrow> if gu_count v < gu_count u then u # us else v # insert_after u vs)"

definition add_group :: "counter_group \<Rightarrow> preflight_result \<Rightarrow> preflight_result" where
  "add_group g r =
     (let count = group_slots g in
      if count = 0 then r
      else r\<lparr>pf_groups := insert_usage \<lparr>gu_label = cg_label g, gu_mask = cg_mask g, gu_count = count\<rparr> (pf_groups r),
             pf_requested := pf_requested r + count\<rparr>)"

definition preflight_evaluate_groups :: "host \<Rightarrow> counter_group list \<Rightarrow> preflight_result" where
  "preflight_evaluate_groups h list =
     (let r = fold add_group list
        \<lparr>pf_requested = 0, pf_available = preflight_available_slots h,
         pf_nmi_watchdog_active = h_nmi_running h, pf_fits = False, pf_groups = []\<rparr>
      in r\<lparr>pf_fits := (pf_requested r \<le> pf_available r)\<rparr>)"

definition preflight_evaluate :: "host \<Rightarrow> raw_tables \<Rightarrow> u32 \<Rightarrow> preflight_result" where
  "preflight_evaluate h rt cmask =
     preflight_evaluate_groups h (setup_counter_groups h rt cmask CORE_UNKNOWN [])"

section \<open>The reports\<close>

text \<open>The suggestion loop: groups from the largest on, until the excess is covered.\<close>

fun suggested :: "group_usage list \<Rightarrow> int \<Rightarrow> group_usage list" where
  "suggested [] remaining = []"
| "suggested (u # us) remaining =
     (if remaining > 0 then u # suggested us (remaining - gu_count u) else [])"

definition int_text :: "int \<Rightarrow> string" where "int_text n = dec_int n"

definition nmi_note :: "preflight_result \<Rightarrow> string" where
  "nmi_note r = (if pf_nmi_watchdog_active r then '' (nmi_watchdog reserves 1)'' else '''')"

definition print_preflight_report :: "host option \<Rightarrow> bool \<Rightarrow> preflight_result \<Rightarrow> string" where
  "print_preflight_report cpu_info aflag r =
     ''counter-fit preflight: '' @ int_text (pf_requested r) @ ''/'' @ int_text (pf_available r) @
     '' general-purpose hardware PMU counter slot(s) requested'' @ nmi_note r @ newline @
     concat (map (\<lambda>u. ''  group               '' @ pad_right 12 (gu_label u) @ '' '' @ int_text (gu_count u) @
       '' counter(s), disable: '' @ disable_hints_for (gu_mask u) @ newline) (pf_groups r)) @
     (if pf_fits r then
        ''  fit                 OK -- should run without hardware-PMU multiplexing'' @ newline
      else
        ''  fit                 WILL MULTIPLEX -- '' @ int_text (pf_requested r - pf_available r) @
        '' slot(s) over budget'' @ newline @
        (if map_option h_vendor cpu_info = Some VENDOR_INTEL \<and> includes_intel_topdown_family r then
           ''  note                topdown/topdown2 is a single kernel-enforced perf event group on'' @
           '' Intel (topdown.c's raw_counter_group()); if it alone exceeds the budget above, expect'' @
           '' all-or-nothing behavior for that family specifically -- every other Intel group now'' @
           '' multiplexes the same way AMD/ARM's already do'' @ newline
         else []) @
        (if pf_nmi_watchdog_active r then
           ''  suggestion          stop the NMI watchdog to free 1 more slot ('' @
           int_text (pf_available r + 1) @ '' instead of '' @ int_text (pf_available r) @
           ''): scripts/setup_perf.sh or `sudo sysctl -w kernel.nmi_watchdog=0`'' @ newline
         else []) @
        (if aflag then
           ''  note                --per-core is active -- this budget applies independently to'' @
           '' each core, not shared across cores'' @ newline
         else []) @
        concat (map (\<lambda>u. ''  suggestion          drop '' @ gu_label u @ '' ('' @ int_text (gu_count u) @
          '' counter(s)): '' @ disable_hints_for (gu_mask u) @ newline)
          (suggested (pf_groups r) (pf_requested r - pf_available r))))"

text \<open>The warning before a run: its messages, one per call of \<open>warning\<close> or \<open>notice\<close>.\<close>

definition preflight_warn_if_tight :: "host option \<Rightarrow> bool \<Rightarrow> preflight_result \<Rightarrow> string list" where
  "preflight_warn_if_tight cpu_info aflag r =
     (if pf_fits r then []
      else
        [''counter-fit preflight: '' @ int_text (pf_requested r) @ '' counter(s) requested but only '' @
         int_text (pf_available r) @ '' general-purpose hardware PMU slot(s) available'' @ nmi_note r @
         '' -- this run will multiplex'' @ newline] @
        (if map_option h_vendor cpu_info = Some VENDOR_INTEL \<and> includes_intel_topdown_family r then
           [''  note: topdown/topdown2 is a single kernel-enforced perf event group on Intel -- if it'' @
            '' alone exceeds the budget above, expect all-or-nothing behavior for that family'' @
            '' specifically -- every other Intel group now multiplexes the same way AMD/ARM's already'' @
            '' do'' @ newline]
         else []) @
        (if pf_nmi_watchdog_active r then
           [''  tip: stop the NMI watchdog to free 1 more slot ('' @ int_text (pf_available r + 1) @
            '' instead of '' @ int_text (pf_available r) @ ''): scripts/setup_perf.sh'' @
            '' or `sudo sysctl -w kernel.nmi_watchdog=0`'' @ newline]
         else []) @
        (if aflag then
           [''  note: --per-core is active -- this budget applies independently to each core, not'' @
            '' shared across cores'' @ newline]
         else []) @
        map (\<lambda>u. ''  suggestion: drop '' @ gu_label u @ '' ('' @ int_text (gu_count u) @ '' counter(s)): '' @
          disable_hints_for (gu_mask u) @ newline)
          (suggested (pf_groups r) (pf_requested r - pf_available r)))"

section \<open>The breakdown is a stable sort\<close>

definition contributions :: "counter_group list \<Rightarrow> group_usage list" where
  "contributions gs =
     map (\<lambda>g. \<lparr>gu_label = cg_label g, gu_mask = cg_mask g, gu_count = group_slots g\<rparr>)
       (filter (\<lambda>g. group_slots g \<noteq> 0) gs)"

lemma insert_usage_after: "insert_usage u us = insert_after u us"
  by (simp add: insert_usage_def split: list.split)

lemma insert_after_mset: "mset (insert_after u us) = add_mset u (mset us)"
  by (induction us) simp_all

lemma insert_after_sorted:
  "sorted (map (\<lambda>v. - gu_count v) us) \<Longrightarrow> sorted (map (\<lambda>v. - gu_count v) (insert_after u us))"
proof (induction us)
  case (Cons v vs)
  have "set (insert_after u vs) = insert u (set vs)"
    using arg_cong [OF insert_after_mset [of u vs], of set_mset] by simp
  with Cons show ?case by auto
qed simp

lemma insert_after_stable:
  "sorted (map (\<lambda>v. - gu_count v) us) \<Longrightarrow>
   filter (\<lambda>v. gu_count v = k) (insert_after u us) = filter (\<lambda>v. gu_count v = k) (us @ [u])"
proof (induction us)
  case (Cons v vs)
  show ?case
  proof (cases "gu_count v \<ge> gu_count u")
    case True
    with Cons show ?thesis by simp
  next
    case False
    with Cons.prems have "\<forall>w \<in> set (v # vs). gu_count w < gu_count u" by force
    then have "gu_count u = k \<Longrightarrow> filter (\<lambda>v. gu_count v = k) (v # vs) = []"
      by (auto simp: filter_empty_conv)
    with False show ?thesis by auto
  qed
qed simp

definition insert_all :: "group_usage list \<Rightarrow> group_usage list \<Rightarrow> group_usage list" where
  "insert_all us acc = fold insert_after us acc"

lemma insert_all_sorted:
  "sorted (map (\<lambda>v. - gu_count v) acc) \<Longrightarrow> sorted (map (\<lambda>v. - gu_count v) (insert_all us acc))"
  by (induction us arbitrary: acc) (simp_all add: insert_all_def insert_after_sorted)

lemma insert_all_mset: "mset (insert_all us acc) = mset us + mset acc"
  by (induction us arbitrary: acc) (simp_all add: insert_all_def insert_after_mset)

lemma insert_all_stable:
  "sorted (map (\<lambda>v. - gu_count v) acc) \<Longrightarrow>
   filter (\<lambda>v. gu_count v = k) (insert_all us acc) = filter (\<lambda>v. gu_count v = k) (acc @ us)"
proof (induction us arbitrary: acc)
  case (Cons u us)
  then show ?case
    using Cons.IH [OF insert_after_sorted [OF Cons.prems, of u]]
    by (simp add: insert_all_def insert_after_stable)
qed (simp add: insert_all_def)

lemma insert_all_sort: "insert_all us [] = sort_key (\<lambda>v. - gu_count v) us"
proof (rule sym, rule properties_for_sort_key)
  show "mset (insert_all us []) = mset us" by (simp add: insert_all_mset)
  show "filter (\<lambda>x. - gu_count k = - gu_count x) (insert_all us [])
      = filter (\<lambda>x. - gu_count k = - gu_count x) us" for k
    using insert_all_stable [of "[]" "gu_count k" us] by (simp add: eq_commute)
  show "sorted (map (\<lambda>v. - gu_count v) (insert_all us []))" by (simp add: insert_all_sorted)
qed

lemma fold_add_group:
  "fold add_group gs r =
   r\<lparr>pf_groups := insert_all (contributions gs) (pf_groups r),
     pf_requested := pf_requested r + sum_list (map group_slots gs)\<rparr>"
  by (induction gs arbitrary: r)
    (simp_all add: add_group_def insert_usage_after insert_all_def contributions_def Let_def)

text \<open>C32: the preflight verdict: the groups listed are the groups with a non-zero cost, stably sorted with
  the largest cost first, the number requested is the sum of all groups' costs, and it fits exactly if
  that is at most the slots available.\<close>
theorem preflight_evaluate_groups_sorted:
  "preflight_evaluate_groups h gs =
     \<lparr>pf_requested = sum_list (map group_slots gs), pf_available = preflight_available_slots h,
      pf_nmi_watchdog_active = h_nmi_running h,
      pf_fits = (sum_list (map group_slots gs) \<le> preflight_available_slots h),
      pf_groups = sort_key (\<lambda>u. - gu_count u) (contributions gs)\<rparr>"
  by (simp add: preflight_evaluate_groups_def fold_add_group insert_all_sort)

section \<open>The suggestions are enough\<close>

lemma contributions_sum: "sum_list (map gu_count (contributions gs)) = sum_list (map group_slots gs)"
  by (induction gs) (simp_all add: contributions_def)

lemma sort_key_sum:
  "sum_list (map gu_count (sort_key (\<lambda>u. - gu_count u) us)) = sum_list (map gu_count us)"
  by (metis (no_types) mset_map mset_sort sum_mset_sum_list)

lemma suggested_covers:
  "remaining \<le> sum_list (map gu_count us) \<Longrightarrow> remaining \<le> sum_list (map gu_count (suggested us remaining))"
  by (induction us remaining rule: suggested.induct) auto

lemma suggested_prefix: "\<exists>rest. us = suggested us remaining @ rest"
  by (induction us remaining rule: suggested.induct) auto

lemma suggested_minimal:
  "suggested us remaining \<noteq> [] \<Longrightarrow>
   sum_list (map gu_count (butlast (suggested us remaining))) < remaining"
proof (induction us remaining rule: suggested.induct)
  case (2 u us remaining)
  then show ?case
    by (cases "suggested us (remaining - gu_count u) = []") (auto split: if_splits)
qed simp

text \<open>C34: dropping the groups a report suggests is enough to fit, and the list is not longer than needed:
  without its last group the rest would still be over budget.\<close>
theorem suggestions_make_it_fit:
  assumes "\<not> pf_fits (preflight_evaluate h rt m)"
  shows "let r = preflight_evaluate h rt m; drop = suggested (pf_groups r) (pf_requested r - pf_available r) in
    pf_requested r - sum_list (map gu_count drop) \<le> pf_available r \<and>
    pf_requested r - sum_list (map gu_count (butlast drop)) > pf_available r \<and>
    (\<exists>rest. pf_groups r = drop @ rest)"
proof -
  let ?gs = "setup_counter_groups h rt m CORE_UNKNOWN []"
  let ?us = "sort_key (\<lambda>u. - gu_count u) (contributions ?gs)"
  let ?n = "sum_list (map group_slots ?gs)" and ?a = "preflight_available_slots h"
  have r: "preflight_evaluate h rt m = \<lparr>pf_requested = ?n, pf_available = ?a,
      pf_nmi_watchdog_active = h_nmi_running h, pf_fits = (?n \<le> ?a), pf_groups = ?us\<rparr>"
    by (simp add: preflight_evaluate_def preflight_evaluate_groups_def fold_add_group insert_all_sort)
  with assms have over: "?a < ?n" by simp
  have sum: "sum_list (map gu_count ?us) = ?n" by (simp add: sort_key_sum contributions_sum)
  have "0 \<le> ?a" by (simp add: preflight_available_slots_def)
  then have cover: "?n - ?a \<le> sum_list (map gu_count (suggested ?us (?n - ?a)))"
    by (intro suggested_covers) (simp add: sum)
  then have "suggested ?us (?n - ?a) \<noteq> []" using over by auto
  from suggested_minimal [OF this] cover suggested_prefix [of ?us "?n - ?a"] show ?thesis
    by (simp add: r)
qed

text \<open>AMD's branch group alone asks for nine counters of five slots.\<close>

lemma suggestions_make_it_fit_witness:
  "let r = preflight_evaluate \<lparr>h_vendor = VENDOR_AMD, h_is_hybrid = False, h_nmi_running = True\<rparr>
        raw_tables_initial COUNTER_BRANCH;
      drop = suggested (pf_groups r) (pf_requested r - pf_available r) in
    pf_requested r = 9 \<and> pf_requested r - sum_list (map gu_count drop) \<le> pf_available r"
proof -
  let ?h = "\<lparr>h_vendor = VENDOR_AMD, h_is_hybrid = False, h_nmi_running = True\<rparr>"
  have r: "pf_requested (preflight_evaluate ?h raw_tables_initial COUNTER_BRANCH) = 9"
    "pf_available (preflight_evaluate ?h raw_tables_initial COUNTER_BRANCH) = 5"
    "\<not> pf_fits (preflight_evaluate ?h raw_tables_initial COUNTER_BRANCH)"
    by (simp_all add: preflight_evaluate_def preflight_evaluate_groups_def add_group_def insert_usage_def
        setup_counter_groups_def raw_group_requests_def push_raw_def push_group_def raw_counter_group_def
        raw_table_def raw_tables_initial_def amd_raw_events_def raw_event_row_def has_bit_def CACHE_BITS_def
        group_slots_def raw_counter_def counter_info_zero_def preflight_available_slots_def Let_def)
  from suggestions_make_it_fit [OF r(3)] r(1) show ?thesis by (simp add: Let_def)
qed

end
