(* ===== verification/Multipass.thy ===== *)
theory Multipass
  imports Preflight
begin

text \<open>
  Multi-pass planning (src/multipass.c): the table of group names and the greedy packing of the
  requested bits into passes. The packing is written over an evaluation function, the interface
  \<open>locale fit_oracle\<close>; \<open>multipass_plan_build\<close> uses the preflight of the host, and the interpretation
  at the end of this theory shows that the preflight keeps the interface's laws.
\<close>

definition multipass_group_names :: "(string \<times> u32) list" where
  "multipass_group_names =
     [(''ipc'', COUNTER_IPC), (''topdown'', COUNTER_TOPDOWN), (''topdown2'', COUNTER_TOPDOWN2),
      (''topdown-frontend'', COUNTER_TOPDOWN_FE), (''topdown-backend'', COUNTER_TOPDOWN_BE),
      (''topdown-optlb'', COUNTER_TOPDOWN_OP), (''branch'', COUNTER_BRANCH), (''dcache'', COUNTER_DCACHE),
      (''icache'', COUNTER_ICACHE), (''cache1'', COUNTER_L1CACHE), (''cache2'', COUNTER_L2CACHE),
      (''cache3'', COUNTER_L3CACHE), (''memory'', COUNTER_MEMORY), (''tlb'', COUNTER_TLB),
      (''opcache'', COUNTER_OPCACHE), (''software'', COUNTER_SOFTWARE), (''float'', COUNTER_FLOAT),
      (''arm-dcache-mem'', COUNTER_ARM_DCACHE_MEM), (''arm-icache-tlb'', COUNTER_ARM_ICACHE_TLB),
      (''arm-mem-align-tlb'', COUNTER_ARM_MEM_ALIGN_TLB)]"

definition multipass_lookup_group_name :: "string \<Rightarrow> u32 option" where
  "multipass_lookup_group_name name = map_option snd (find (\<lambda>e. fst e = name) multipass_group_names)"

definition multipass_print_group_list :: string where
  "multipass_print_group_list =
     concat (map (\<lambda>(name, b). pad_right 18 name @ '' '' @
       (if has_bit b COUNTER_DEFAULT_MASK then ''default-on'' else ''default-off'') @ newline)
       multipass_group_names)"

text \<open>The loop's variables: the passes closed so far (\<open>pass_mask[0 .. pass_idx)\<close>), the mask of the pass
  being filled (0 when none is open), and the warnings written.\<close>

record plan_state =
  pl_passes :: "u32 list"
  pl_current :: u32
  pl_warnings :: "string list"

definition overflow_warning :: "nat \<Rightarrow> string \<Rightarrow> string" where
  "overflow_warning pass_number name =
     ''--passes: pass '' @ dec pass_number @ '' ('' @ [CHR 0x27] @ name @ [CHR 0x27] @
     '') alone requests more counters than fit -- it will multiplex'' @ newline"

definition plan_step ::
  "(u32 \<Rightarrow> preflight_result) \<Rightarrow> (preflight_result \<Rightarrow> string list) \<Rightarrow> u32 \<Rightarrow> string \<times> u32 \<Rightarrow>
   plan_state \<Rightarrow> plan_state"
where
  "plan_step eval warn requested_mask entry p =
     (let (name, b) = entry in
      if \<not> has_bit requested_mask b then p
      else if b = COUNTER_SOFTWARE then
        (if pl_current p = 0 then p\<lparr>pl_passes := pl_passes p @ [b]\<rparr>
         else p\<lparr>pl_current := pl_current p OR b\<rparr>)
      else
        (let (passes, current) =
           (if pl_current p \<noteq> 0 \<and> \<not> pf_fits (eval (pl_current p OR b))
            then (pl_passes p @ [pl_current p], b) else (pl_passes p, pl_current p OR b));
             pf = eval current
         in p\<lparr>pl_passes := passes, pl_current := current,
              pl_warnings := pl_warnings p @
                (if pf_fits pf then [] else overflow_warning (length passes + 1) name # warn pf)\<rparr>))"

definition plan_passes :: "plan_state \<Rightarrow> u32 list" where
  "plan_passes p = pl_passes p @ (if pl_current p \<noteq> 0 then [pl_current p] else [])"

definition plan_loop ::
  "(u32 \<Rightarrow> preflight_result) \<Rightarrow> (preflight_result \<Rightarrow> string list) \<Rightarrow> u32 \<Rightarrow> plan_state"
where
  "plan_loop eval warn requested_mask =
     fold (plan_step eval warn requested_mask) multipass_group_names
       \<lparr>pl_passes = [], pl_current = 0, pl_warnings = []\<rparr>"

text \<open>\<open>__builtin_popcount\<close>, which sizes the plan's array (at least one entry).\<close>

definition popcount :: "u32 \<Rightarrow> nat" where
  "popcount m = length (filter (bit m) [0..<32])"

definition plan_capacity :: "u32 \<Rightarrow> nat" where
  "plan_capacity m = (if popcount m = 0 then 1 else popcount m)"

definition multipass_plan_build :: "host \<Rightarrow> raw_tables \<Rightarrow> bool \<Rightarrow> u32 \<Rightarrow> u32 list" where
  "multipass_plan_build h rt aflag requested_mask =
     plan_passes (plan_loop (preflight_evaluate h rt) (preflight_warn_if_tight (Some h) aflag) requested_mask)"

definition multipass_plan_build_multiplexed :: "host \<Rightarrow> raw_tables \<Rightarrow> bool \<Rightarrow> u32 \<Rightarrow> u32 list \<times> string list" where
  "multipass_plan_build_multiplexed h rt aflag requested_mask =
     (let pf = preflight_evaluate h rt requested_mask in
      ([requested_mask],
       if pf_fits pf then []
       else (''--passes --multiplex: requested counter groups (0x'' @ hex (unat requested_mask) @
         '') exceed the general-purpose hardware PMU budget -- this run will multiplex'' @ newline)
         # preflight_warn_if_tight (Some h) aflag pf))"

section \<open>The plan as a split of the requested bits\<close>

definition or_all :: "u32 list \<Rightarrow> u32" where
  "or_all bs = foldr (OR) bs 0"

definition requested_bits :: "u32 \<Rightarrow> u32 list" where
  "requested_bits m = filter (has_bit m) (map snd multipass_group_names)"

definition hardware_bits :: "u32 list \<Rightarrow> u32 list" where
  "hardware_bits bs = filter (\<lambda>b. b \<noteq> COUNTER_SOFTWARE) bs"

lemma or_all_simps [simp]: "or_all [] = 0" "or_all (b # bs) = b OR or_all bs"
  by (simp_all add: or_all_def)

lemma or_all_append [simp]: "or_all (xs @ ys) = or_all xs OR or_all ys"
  by (induction xs) (simp_all add: or.assoc)

lemma or_eq_0: "(x :: u32) OR y = 0 \<longleftrightarrow> x = 0 \<and> y = 0"
  by (metis or.right_neutral or_eq_0_iff)

text \<open>A block of bits that shares a pass either fits or has one hardware group.\<close>

definition good_block :: "(u32 \<Rightarrow> bool) \<Rightarrow> u32 list \<Rightarrow> bool" where
  "good_block fits bs \<longleftrightarrow> bs \<noteq> [] \<and> (fits (or_all bs) \<or> length (hardware_bits bs) = 1)"

text \<open>No block could have taken the next one's first group.\<close>

fun maximal :: "(u32 \<Rightarrow> bool) \<Rightarrow> u32 list list \<Rightarrow> bool" where
  "maximal fits (b1 # b2 # bs) \<longleftrightarrow>
     (b1 = [COUNTER_SOFTWARE] \<or> \<not> fits (or_all b1 OR hd b2)) \<and> maximal fits (b2 # bs)"
| "maximal fits _ \<longleftrightarrow> True"

lemma maximal_snoc:
  "maximal fits (bs @ [b, c]) \<longleftrightarrow>
     maximal fits (bs @ [b]) \<and> (b = [COUNTER_SOFTWARE] \<or> \<not> fits (or_all b OR hd c))"
  by (induction fits bs rule: maximal.induct) (auto simp: neq_Nil_conv)

lemma maximal_last:
  "hd c = hd c' \<Longrightarrow> maximal fits (bs @ [c]) = maximal fits (bs @ [c'])"
  by (induction fits bs rule: maximal.induct) auto

lemma maximal_nth:
  "maximal fits bs \<Longrightarrow> Suc i < length bs \<Longrightarrow>
   bs ! i = [COUNTER_SOFTWARE] \<or> \<not> fits (or_all (bs ! i) OR hd (bs ! Suc i))"
proof (induction fits bs arbitrary: i rule: maximal.induct)
  case (1 fits b1 b2 bs)
  then show ?case by (cases i) auto
qed simp_all

locale fit_oracle =
  fixes eval :: "u32 \<Rightarrow> preflight_result"
  assumes fits_nothing: "pf_fits (eval 0)"
    and software_is_free: "pf_fits (eval (m OR COUNTER_SOFTWARE)) = pf_fits (eval m)"
begin

abbreviation fits :: "u32 \<Rightarrow> bool" where "fits m \<equiv> pf_fits (eval m)"

text \<open>The passes' masks are those of \<open>blocks\<close>, the last of which is still open if \<open>pl_current\<close> is set.\<close>

definition plan_inv :: "plan_state \<Rightarrow> u32 list list \<Rightarrow> u32 list \<Rightarrow> bool" where
  "plan_inv p blocks cur \<longleftrightarrow>
     pl_passes p = map or_all blocks \<and> pl_current p = or_all cur \<and> (cur = [] \<longleftrightarrow> pl_current p = 0) \<and>
     list_all (good_block fits) blocks \<and> (cur \<noteq> [] \<longrightarrow> good_block fits cur \<and> hardware_bits cur \<noteq> []) \<and>
     (if cur = [] then blocks = [] \<or> blocks = [[COUNTER_SOFTWARE]] else maximal fits (blocks @ [cur]))"

lemma plan_step_inv:
  assumes inv: "plan_inv p blocks cur" and b: "b \<noteq> 0"
    and once: "cur = [] \<Longrightarrow> b = COUNTER_SOFTWARE \<Longrightarrow> blocks = []"
  shows "\<exists>blocks' cur'. plan_inv (plan_step eval warn req (name, b) p) blocks' cur' \<and>
    concat blocks' @ cur' = concat blocks @ cur @ (if has_bit req b then [b] else [])"
proof (cases "has_bit req b")
  case False
  with inv show ?thesis by (auto simp: plan_step_def)
next
  case True
  note p = inv [unfolded plan_inv_def]
  consider (own) "b = COUNTER_SOFTWARE" "cur = []"
    | (join) "b = COUNTER_SOFTWARE" "cur \<noteq> []"
    | (close) "b \<noteq> COUNTER_SOFTWARE" "cur \<noteq> []" "\<not> fits (pl_current p OR b)"
    | (add) "b \<noteq> COUNTER_SOFTWARE" "cur = [] \<or> fits (pl_current p OR b)"
    by blast
  then show ?thesis
  proof cases
    case own
    then have "plan_inv (plan_step eval warn req (name, b) p) [[COUNTER_SOFTWARE]] []"
      using True p once software_is_free [of 0] fits_nothing
      by (simp add: plan_step_def plan_inv_def good_block_def)
    with own True once show ?thesis by (intro exI [of _ "[[COUNTER_SOFTWARE]]"] exI [of _ "[]"]) simp
  next
    case join
    then have "plan_inv (plan_step eval warn req (name, b) p) blocks (cur @ [b])"
      using True p software_is_free [of "or_all cur"] maximal_last [of "cur @ [b]" cur]
      by (auto simp: plan_step_def plan_inv_def good_block_def hardware_bits_def or_eq_0)
    with True show ?thesis by (intro exI [of _ blocks] exI [of _ "cur @ [b]"]) simp
  next
    case close
    then have "plan_inv (plan_step eval warn req (name, b) p) (blocks @ [cur]) [b]"
      using True p b by (simp add: plan_step_def plan_inv_def good_block_def hardware_bits_def Let_def maximal_snoc)
    with True show ?thesis by (intro exI [of _ "blocks @ [cur]"] exI [of _ "[b]"]) simp
  next
    case add
    then have "plan_inv (plan_step eval warn req (name, b) p) blocks (cur @ [b])"
      using True p b maximal_last [of "cur @ [b]" cur]
      by (cases "cur = []")
        (auto simp: plan_step_def plan_inv_def good_block_def hardware_bits_def Let_def or_eq_0)
    with True show ?thesis by (intro exI [of _ blocks] exI [of _ "cur @ [b]"]) simp
  qed
qed

lemma plan_fold_inv:
  assumes "plan_inv p blocks cur" and "\<forall>e \<in> set es. snd e \<noteq> 0" and "distinct (map snd es)"
    and "COUNTER_SOFTWARE \<in> snd ` set es \<Longrightarrow> cur = [] \<Longrightarrow> blocks = []"
  shows "\<exists>blocks' cur'. plan_inv (fold (plan_step eval warn req) es p) blocks' cur' \<and>
    concat blocks' @ cur' = concat blocks @ cur @ filter (has_bit req) (map snd es)"
  using assms
proof (induction es arbitrary: p blocks cur)
  case (Cons e es)
  obtain name b where e: "e = (name, b)" by fastforce
  have "\<exists>blocks' cur'. plan_inv (plan_step eval warn req (name, b) p) blocks' cur' \<and>
    concat blocks' @ cur' = concat blocks @ cur @ (if has_bit req b then [b] else [])"
    using Cons.prems e by (intro plan_step_inv) auto
  then obtain blocks1 cur1 where 1: "plan_inv (plan_step eval warn req (name, b) p) blocks1 cur1"
    "concat blocks1 @ cur1 = concat blocks @ cur @ (if has_bit req b then [b] else [])" by blast
  have later: "blocks1 = []" if "COUNTER_SOFTWARE \<in> snd ` set es" "cur1 = []"
  proof -
    have "False" if "blocks1 = [[COUNTER_SOFTWARE]]"
    proof -
      have "b \<noteq> COUNTER_SOFTWARE" using Cons.prems(3) \<open>COUNTER_SOFTWARE \<in> snd ` set es\<close> e by auto
      then have "concat blocks @ cur = [COUNTER_SOFTWARE]"
        using 1(2) that \<open>cur1 = []\<close> by (auto split: if_splits simp flip: append_assoc)
      moreover have "cur \<noteq> [COUNTER_SOFTWARE]"
        using Cons.prems(1) by (auto simp: plan_inv_def hardware_bits_def)
      ultimately have "cur = []" by (auto simp: append_eq_Cons_conv)
      moreover from this have "blocks = []" using Cons.prems(4) \<open>COUNTER_SOFTWARE \<in> snd ` set es\<close> by simp
      ultimately show False using \<open>concat blocks @ cur = [COUNTER_SOFTWARE]\<close> by simp
    qed
    with 1(1) that(2) show ?thesis by (auto simp: plan_inv_def)
  qed
  have rest: "\<forall>e \<in> set es. snd e \<noteq> 0" "distinct (map snd es)" using Cons.prems(2,3) by simp_all
  obtain blocks2 cur2 where
    "plan_inv (fold (plan_step eval warn req) es (plan_step eval warn req (name, b) p)) blocks2 cur2"
    "concat blocks2 @ cur2 = concat blocks1 @ cur1 @ filter (has_bit req) (map snd es)"
    using Cons.IH [OF 1(1) rest later] by blast
  moreover have "concat blocks1 @ cur1 @ filter (has_bit req) (map snd es)
      = concat blocks @ cur @ filter (has_bit req) (map snd (e # es))"
    using 1(2) e by (simp split: if_splits flip: append_assoc)
  ultimately show ?case unfolding e fold_simps by (intro exI [of _ blocks2] exI [of _ cur2]) simp
qed auto

end

section \<open>The preflight is such an oracle\<close>

lemma software_bit_apart: "b \<in> snd ` set raw_group_requests \<Longrightarrow> \<not> has_bit COUNTER_SOFTWARE b"
  by (auto simp: raw_group_requests_def has_bit_def)

lemma preflight_software_free:
  "preflight_evaluate h rt (m OR COUNTER_SOFTWARE) = preflight_evaluate h rt m"
proof -
  have "(m OR COUNTER_SOFTWARE) AND CACHE_BITS = m AND CACHE_BITS"
    by (simp add: bit.conj_disj_distrib2 CACHE_BITS_def)
  then have "setup_counter_groups h rt (m OR COUNTER_SOFTWARE) CORE_UNKNOWN []
      = setup_counter_groups h rt m CORE_UNKNOWN []"
    by (rule setup_groups_mask) (simp add: has_bit_or software_bit_apart)
  then show ?thesis by (simp add: preflight_evaluate_def)
qed

lemma preflight_nothing: "pf_fits (preflight_evaluate h rt 0)"
  by (simp add: preflight_evaluate_def preflight_evaluate_groups_def setup_counter_groups_def
      raw_group_requests_def push_raw_def preflight_available_slots_def)

interpretation preflight: fit_oracle "preflight_evaluate h rt" for h rt
  by unfold_locales (simp_all add: preflight_nothing preflight_software_free)

section \<open>How many passes\<close>

definition table_shifts :: "nat list" where
  "table_shifts = [0, 1, 2, 3, 4, 5, 6, 7, 8, 9, 10, 11, 12, 13, 14, 15, 16, 18, 19, 20]"

lemma table_bits: "map snd multipass_group_names = map (\<lambda>k. push_bit k 1) table_shifts"
  by (simp add: multipass_group_names_def table_shifts_def push_bit_eq_mult)

lemma requested_bits_popcount: "length (requested_bits m) \<le> popcount m"
proof -
  have "requested_bits m = map (\<lambda>k. push_bit k 1) (filter (bit m) table_shifts)"
    unfolding requested_bits_def table_bits by (simp add: filter_map o_def has_bit_pow push_bit_eq_mult)
  moreover have "distinct table_shifts" by (simp add: table_shifts_def)
  ultimately have "length (requested_bits m) = card (set (filter (bit m) table_shifts))"
    using distinct_card [of "filter (bit m) table_shifts"] by simp
  also have "\<dots> \<le> card (set (filter (bit m) [0..<32]))"
  proof (rule card_mono)
    have "set table_shifts \<subseteq> set [0..<32]" by (simp add: table_shifts_def)
    then show "set (filter (bit m) table_shifts) \<subseteq> set (filter (bit m) [0..<32])" by auto
  qed simp
  also have "\<dots> = popcount m" unfolding popcount_def by (rule distinct_card) simp
  finally show ?thesis .
qed

lemma blocks_le_concat: "list_all (\<lambda>b. b \<noteq> []) bs \<Longrightarrow> length bs \<le> length (concat bs)"
proof (induction bs)
  case (Cons b bs)
  then show ?case by (cases b) auto
qed simp

section \<open>Properties\<close>

lemma plan_blocks:
  "\<exists>blocks. multipass_plan_build h rt aflag m = map or_all blocks \<and> concat blocks = requested_bits m \<and>
    list_all (good_block (\<lambda>x. pf_fits (preflight_evaluate h rt x))) blocks \<and>
    maximal (\<lambda>x. pf_fits (preflight_evaluate h rt x)) blocks"
proof -
  let ?p0 = "\<lparr>pl_passes = [], pl_current = 0, pl_warnings = []\<rparr>"
  have "preflight.plan_inv h rt ?p0 [] []" by (simp add: preflight.plan_inv_def)
  moreover have "\<forall>e \<in> set multipass_group_names. snd e \<noteq> 0" "distinct (map snd multipass_group_names)"
    by (simp_all add: multipass_group_names_def)
  ultimately obtain blocks cur where
    inv: "preflight.plan_inv h rt (plan_loop (preflight_evaluate h rt) (preflight_warn_if_tight (Some h) aflag) m) blocks cur"
    and split: "concat blocks @ cur = requested_bits m"
    using preflight.plan_fold_inv [where h = h and rt = rt and p = ?p0 and blocks = "[]" and cur = "[]"
        and es = multipass_group_names and warn = "preflight_warn_if_tight (Some h) aflag" and req = m]
    by (auto simp: plan_loop_def requested_bits_def)
  show ?thesis
  proof (cases "cur = []")
    case True
    with inv have "maximal (\<lambda>x. pf_fits (preflight_evaluate h rt x)) blocks"
      by (auto simp: preflight.plan_inv_def)
    with True inv split show ?thesis
      by (intro exI [of _ blocks]) (simp add: preflight.plan_inv_def multipass_plan_build_def plan_passes_def)
  next
    case False
    with inv split show ?thesis
      by (intro exI [of _ "blocks @ [cur]"])
        (auto simp: preflight.plan_inv_def multipass_plan_build_def plan_passes_def)
  qed
qed

text \<open>C18: the plan splits the requested group bits, in table order, into consecutive non-empty blocks, one
  pass each: nothing requested is lost, repeated or added; each pass fits the PMU budget or has a single
  hardware group; and no pass could also have taken the group the next one starts with.\<close>
theorem multipass_plan_blocks:
  "\<exists>blocks. multipass_plan_build h rt aflag m = map or_all blocks \<and> concat blocks = requested_bits m \<and>
    (\<forall>b. b \<in> set blocks \<longrightarrow> b \<noteq> [] \<and>
      (pf_fits (preflight_evaluate h rt (or_all b)) \<or> length (hardware_bits b) = 1)) \<and>
    (\<forall>i. Suc i < length blocks \<longrightarrow> blocks ! i = [COUNTER_SOFTWARE] \<or>
      \<not> pf_fits (preflight_evaluate h rt (or_all (blocks ! i) OR hd (blocks ! Suc i))))"
proof -
  obtain blocks where b: "multipass_plan_build h rt aflag m = map or_all blocks"
    "concat blocks = requested_bits m"
    "list_all (good_block (\<lambda>x. pf_fits (preflight_evaluate h rt x))) blocks"
    "maximal (\<lambda>x. pf_fits (preflight_evaluate h rt x)) blocks"
    using plan_blocks [of h rt aflag m] by blast
  show ?thesis
  proof (intro exI [of _ blocks] conjI allI impI)
    fix i assume "Suc i < length blocks"
    with b(4) show "blocks ! i = [COUNTER_SOFTWARE] \<or>
        \<not> pf_fits (preflight_evaluate h rt (or_all (blocks ! i) OR hd (blocks ! Suc i)))"
      by (rule maximal_nth)
  qed (use b in \<open>auto simp: list_all_iff good_block_def\<close>)
qed

text \<open>On an AMD host with the NMI watchdog on, IPC, software and branch counters take two passes.\<close>

lemma multipass_plan_blocks_witness:
  "\<exists>blocks. multipass_plan_build \<lparr>h_vendor = VENDOR_AMD, h_is_hybrid = False, h_nmi_running = True\<rparr>
      raw_tables_initial False 0x8041 = map or_all blocks \<and>
    concat blocks = [COUNTER_IPC, COUNTER_BRANCH, COUNTER_SOFTWARE]"
  using multipass_plan_blocks [of "\<lparr>h_vendor = VENDOR_AMD, h_is_hybrid = False, h_nmi_running = True\<rparr>"
      raw_tables_initial False "0x8041"]
  by (auto simp: requested_bits_def multipass_group_names_def has_bit_def)

text \<open>The plan never writes past the array \<open>calloc\<close> sized from the mask's population count, and each
  pass has something to count.\<close>
theorem multipass_plan_capacity:
  "length (multipass_plan_build h rt aflag m) \<le> plan_capacity m \<and> 0 \<notin> set (multipass_plan_build h rt aflag m)"
proof -
  obtain blocks where b: "multipass_plan_build h rt aflag m = map or_all blocks" "concat blocks = requested_bits m"
    and ne: "list_all (\<lambda>b. b \<noteq> []) blocks"
    using plan_blocks [of h rt aflag m] by (auto simp: list_all_iff good_block_def)
  have "length blocks \<le> popcount m"
    using blocks_le_concat [OF ne] requested_bits_popcount [of m] by (simp add: b(2))
  moreover have "or_all x \<noteq> 0" if "x \<in> set blocks" for x
  proof -
    have "x \<noteq> []" using that ne by (auto simp: list_all_iff)
    then obtain y ys where x: "x = y # ys" by (cases x) auto
    then have "y \<in> set (requested_bits m)" using that by (simp flip: b(2)) (force)
    then have "y \<noteq> 0" by (auto simp: requested_bits_def)
    then show ?thesis by (simp add: x or_eq_0)
  qed
  ultimately show ?thesis by (auto simp: b(1) plan_capacity_def)
qed

text \<open>Every group name is found again with the bit it stands for, and no other name is accepted.\<close>
theorem multipass_names_roundtrip:
  "(name, b) \<in> set multipass_group_names \<longleftrightarrow> multipass_lookup_group_name name = Some b"
proof -
  have d: "distinct (map fst multipass_group_names)" by (simp add: multipass_group_names_def)
  have "map_option snd (find (\<lambda>e. fst e = name) es) = Some b \<longleftrightarrow> (name, b) \<in> set es"
    if "distinct (map fst es)" for es :: "(string \<times> u32) list"
    using that by (induction es) force+
  with d show ?thesis by (simp add: multipass_lookup_group_name_def)
qed

text \<open>\<open>cache1\<close> is a name of the table, but no group is ever built for its bit.\<close>

lemma cache1_builds_no_group: "setup_counter_groups h rt COUNTER_L1CACHE cc [] = []"
  by (simp add: setup_counter_groups_def raw_group_requests_def push_raw_def has_bit_def CACHE_BITS_def)

end
