(* ===== verification/Proc_Model.thy ===== *)
theory Proc_Model
  imports C_Double
begin

text \<open>
  The data of src/proctree.c: the readings attached to a process, the process record and the state of the
  parser. A \<open>struct process_info *\<close> is the index of the process in \<open>st_heap\<close>, the processes in the order
  they were allocated; \<open>None\<close> is the null pointer. Text fields are \<open>None\<close> until a line sets them.
\<close>

record target_counter_reading =
  tc_group :: string
  tc_label :: string
  tc_value :: u64

record target_sample_reading =
  ts_event :: string
  ts_addr :: u64
  ts_count :: u64

record target_map_region =
  tm_start :: u64
  tm_end :: u64
  tm_file_offset :: u64
  tm_path :: string

record process_info =
  pi_pid :: u32
  pi_comm :: "string option"
  pi_cmdline :: "string option"
  pi_start :: double
  pi_finish :: double
  pi_utime :: u32
  pi_stime :: u32
  pi_starttime :: u64
  pi_vsize :: u32
  pi_processor :: u32
  pi_exit_code :: u32
  pi_ppid :: u32
  pi_num_threads :: u32
  pi_rss :: u64
  pi_futex_wait_count :: u64
  pi_futex_wait_seconds :: double
  pi_io_read_wait_count :: u64
  pi_io_read_wait_seconds :: double
  pi_io_write_wait_count :: u64
  pi_io_write_wait_seconds :: double
  pi_io_rchar :: u64
  pi_io_wchar :: u64
  pi_io_syscr :: u64
  pi_io_syscw :: u64
  pi_io_read_bytes :: u64
  pi_io_write_bytes :: u64
  pi_io_cancelled_write_bytes :: u64
  pi_sched_cpu_seconds :: double
  pi_sched_rundelay_seconds :: double
  pi_sched_nr_timeslices :: u64
  pi_vm_hwm_kb :: u64
  pi_rss_anon_kb :: u64
  pi_rss_file_kb :: u64
  pi_rss_shmem_kb :: u64
  pi_vm_swap_kb :: u64
  pi_connect_count :: u64
  pi_connect_seconds :: double
  pi_nanosleep_count :: u64
  pi_nanosleep_seconds :: double
  pi_wait_count :: u64
  pi_wait_seconds :: double
  pi_poll_count :: u64
  pi_poll_seconds :: double
  pi_target_counters :: "target_counter_reading list"
  pi_target_samples :: "target_sample_reading list"
  pi_target_samples_lost :: u64
  pi_target_maps :: "target_map_region list"
  pi_parent :: "nat option"
  pi_children :: "nat option"
  pi_older_sibling :: "nat option"
  pi_younger_sibling :: "nat option"

text \<open>What \<open>calloc\<close> leaves: every number zero, every pointer null.\<close>

definition process_info_zero :: process_info where
  "process_info_zero =
     \<lparr>pi_pid = 0, pi_comm = None, pi_cmdline = None, pi_start = Fin 0, pi_finish = Fin 0,
      pi_utime = 0, pi_stime = 0, pi_starttime = 0, pi_vsize = 0, pi_processor = 0, pi_exit_code = 0,
      pi_ppid = 0, pi_num_threads = 0, pi_rss = 0,
      pi_futex_wait_count = 0, pi_futex_wait_seconds = Fin 0,
      pi_io_read_wait_count = 0, pi_io_read_wait_seconds = Fin 0,
      pi_io_write_wait_count = 0, pi_io_write_wait_seconds = Fin 0,
      pi_io_rchar = 0, pi_io_wchar = 0, pi_io_syscr = 0, pi_io_syscw = 0,
      pi_io_read_bytes = 0, pi_io_write_bytes = 0, pi_io_cancelled_write_bytes = 0,
      pi_sched_cpu_seconds = Fin 0, pi_sched_rundelay_seconds = Fin 0, pi_sched_nr_timeslices = 0,
      pi_vm_hwm_kb = 0, pi_rss_anon_kb = 0, pi_rss_file_kb = 0, pi_rss_shmem_kb = 0, pi_vm_swap_kb = 0,
      pi_connect_count = 0, pi_connect_seconds = Fin 0,
      pi_nanosleep_count = 0, pi_nanosleep_seconds = Fin 0,
      pi_wait_count = 0, pi_wait_seconds = Fin 0, pi_poll_count = 0, pi_poll_seconds = Fin 0,
      pi_target_counters = [], pi_target_samples = [], pi_target_samples_lost = 0, pi_target_maps = [],
      pi_parent = None, pi_children = None, pi_older_sibling = None, pi_younger_sibling = None\<rparr>"

type_synonym proc_heap = "process_info list"

text \<open>A write through a pointer to a process.\<close>

definition set_node :: "nat \<Rightarrow> (process_info \<Rightarrow> process_info) \<Rightarrow> proc_heap \<Rightarrow> proc_heap" where
  "set_node a f h = h[a := f (h ! a)]"

record proctree =
  st_root :: "nat option"
  st_heap :: proc_heap
  st_table :: "(u32 \<times> nat) list list"
  st_num_processes :: int
  st_total_processes :: int
  st_max_num_processes :: int

lemma set_node_length [simp]: "length (set_node a f h) = length h"
  by (simp add: set_node_def)

lemma set_node_nth: "b < length h \<Longrightarrow> set_node a f h ! b = (if b = a then f (h ! a) else h ! b)"
  by (simp add: set_node_def nth_list_update)

end
