(* ===== verification/Pid_Table.thy ===== *)
theory Pid_Table
  imports C_Prelude
begin

text \<open>
  The hash tables keyed by process id: chains of entries in a fixed number of buckets, new entries at the
  head. proctree's \<open>proc_table\<close> (src/proctree.c) and the tracer's \<open>ptrace_pid_table\<close> (src/topdown.c) are both
  of this shape; \<open>pid_table\<close> states what their clients rely on and proves what follows from it.
\<close>

section \<open>Chained buckets\<close>

type_synonym 'a buckets = "(u32 \<times> 'a) list list"

definition bucket_of :: "'a buckets \<Rightarrow> u32 \<Rightarrow> nat" where
  "bucket_of t pid = unat pid mod length t"

text \<open>The walk along a chain: the first entry with the id.\<close>

fun chain_find :: "u32 \<Rightarrow> (u32 \<times> 'a) list \<Rightarrow> 'a option" where
  "chain_find pid [] = None"
| "chain_find pid ((p, a) # es) = (if p = pid then Some a else chain_find pid es)"

text \<open>Unlinking that entry: its neighbours are linked to each other, or its successor becomes the head.\<close>

fun chain_unlink :: "u32 \<Rightarrow> (u32 \<times> 'a) list \<Rightarrow> (u32 \<times> 'a) list" where
  "chain_unlink pid [] = []"
| "chain_unlink pid ((p, a) # es) = (if p = pid then es else (p, a) # chain_unlink pid es)"

definition table_find :: "'a buckets \<Rightarrow> u32 \<Rightarrow> 'a option" where
  "table_find t pid = chain_find pid (t ! bucket_of t pid)"

definition table_push :: "u32 \<Rightarrow> 'a \<Rightarrow> 'a buckets \<Rightarrow> 'a buckets" where
  "table_push pid a t = t[bucket_of t pid := (pid, a) # t ! bucket_of t pid]"

definition table_unlink :: "u32 \<Rightarrow> 'a buckets \<Rightarrow> 'a buckets" where
  "table_unlink pid t = t[bucket_of t pid := chain_unlink pid (t ! bucket_of t pid)]"

definition table_size :: "'a buckets \<Rightarrow> nat" where
  "table_size t = sum_list (map length t)"

text \<open>Every entry is in the bucket of its id, and no id has two entries.\<close>

definition table_ok :: "'a buckets \<Rightarrow> bool" where
  "table_ok t \<longleftrightarrow> t \<noteq> [] \<and>
     (\<forall>i < length t. (\<forall>e \<in> set (t ! i). bucket_of t (fst e) = i) \<and> distinct (map fst (t ! i)))"

lemma chain_find_map_of: "chain_find pid es = map_of es pid"
  by (induction es) auto

lemma chain_unlink_filter:
  "distinct (map fst es) \<Longrightarrow> chain_unlink pid es = filter (\<lambda>e. fst e \<noteq> pid) es"
proof (induction es)
  case (Cons e es)
  show ?case
  proof (cases "fst e = pid")
    case True
    with Cons.prems have "filter (\<lambda>e. fst e \<noteq> pid) es = es"
      by (auto simp: filter_id_conv rev_image_eqI)
    with True show ?thesis by (cases e) simp
  next
    case False
    with Cons show ?thesis by (cases e) simp
  qed
qed simp

lemma chain_unlink_set:
  "distinct (map fst es) \<Longrightarrow> set (chain_unlink pid es) = {e \<in> set es. fst e \<noteq> pid}"
  by (simp add: chain_unlink_filter)

lemma chain_unlink_distinct: "distinct (map fst es) \<Longrightarrow> distinct (map fst (chain_unlink pid es))"
  by (simp add: chain_unlink_filter distinct_map_filter)

lemma chain_find_filter:
  "chain_find q (filter (\<lambda>e. fst e \<noteq> pid) es) = (if q = pid then None else chain_find q es)"
  by (induction es) auto

lemma chain_find_unlink:
  "distinct (map fst es) \<Longrightarrow> chain_find q (chain_unlink pid es) = (if q = pid then None else chain_find q es)"
  by (simp add: chain_unlink_filter chain_find_filter)

lemma chain_unlink_length:
  "chain_find pid es \<noteq> None \<Longrightarrow> Suc (length (chain_unlink pid es)) = length es"
  by (induction pid es rule: chain_find.induct) auto

lemma bucket_of_bound: "table_ok t \<Longrightarrow> bucket_of t pid < length t"
  by (simp add: table_ok_def bucket_of_def)

lemma bucket_of_update [simp]: "bucket_of (t[i := x]) pid = bucket_of t pid"
  by (simp add: bucket_of_def)

lemma table_push_length [simp]: "length (table_push pid a t) = length t"
  and table_unlink_length [simp]: "length (table_unlink pid t) = length t"
  by (simp_all add: table_push_def table_unlink_def)

lemma table_find_push:
  "table_ok t \<Longrightarrow> table_find (table_push pid a t) q = (if q = pid then Some a else table_find t q)"
  using bucket_of_bound [of t] by (auto simp: table_find_def table_push_def nth_list_update)

lemma table_push_ok: "table_ok t \<Longrightarrow> table_find t pid = None \<Longrightarrow> table_ok (table_push pid a t)"
  using bucket_of_bound [of t pid]
  by (auto simp: table_ok_def table_push_def nth_list_update table_find_def chain_find_map_of map_of_eq_None_iff)

lemma table_bucket_distinct: "table_ok t \<Longrightarrow> distinct (map fst (t ! bucket_of t pid))"
  using bucket_of_bound [of t pid] by (simp add: table_ok_def)

lemma table_find_unlink:
  "table_ok t \<Longrightarrow> table_find (table_unlink pid t) q = (if q = pid then None else table_find t q)"
  using bucket_of_bound [of t] table_bucket_distinct [of t]
  by (auto simp: table_find_def table_unlink_def nth_list_update chain_find_unlink)

lemma table_unlink_ok: "table_ok t \<Longrightarrow> table_ok (table_unlink pid t)"
  using bucket_of_bound [of t pid] table_bucket_distinct [of t pid]
  by (auto simp: table_ok_def table_unlink_def nth_list_update chain_unlink_set chain_unlink_distinct)

lemma table_size_push: "table_ok t \<Longrightarrow> table_size (table_push pid a t) = Suc (table_size t)"
  using sum_list_map_update [of "bucket_of t pid" t length "(pid, a) # t ! bucket_of t pid"]
    bucket_of_bound [of t pid]
  by (simp add: table_size_def table_push_def)

lemma table_size_unlink:
  assumes "table_ok t" and "table_find t pid \<noteq> None"
  shows "Suc (table_size (table_unlink pid t)) = table_size t"
  using sum_list_map_update [of "bucket_of t pid" t length "chain_unlink pid (t ! bucket_of t pid)"]
    bucket_of_bound [OF assms(1), of pid] chain_unlink_length [of pid "t ! bucket_of t pid"] assms(2)
  by (simp add: table_size_def table_unlink_def table_find_def)

text \<open>The size is the number of ids that are found.\<close>

lemma table_dom:
  assumes "table_ok t"
  shows "dom (table_find t) = (\<Union>i \<in> {..<length t}. fst ` set (t ! i))"
proof (rule set_eqI)
  fix pid
  have "pid \<in> dom (table_find t) \<longleftrightarrow> pid \<in> fst ` set (t ! bucket_of t pid)"
    by (metis chain_find_map_of domIff map_of_eq_None_iff table_find_def)
  also have "\<dots> \<longleftrightarrow> pid \<in> (\<Union>i \<in> {..<length t}. fst ` set (t ! i))"
    using assms bucket_of_bound [OF assms, of pid] by (fastforce simp: table_ok_def)
  finally show "pid \<in> dom (table_find t) \<longleftrightarrow> pid \<in> (\<Union>i \<in> {..<length t}. fst ` set (t ! i))" .
qed

lemma table_size_card:
  assumes "table_ok t"
  shows "table_size t = card (dom (table_find t))"
proof -
  have "card (fst ` set (t ! i)) = length (t ! i)" if "i < length t" for i
    using assms that distinct_card [of "map fst (t ! i)"] by (simp add: table_ok_def)
  moreover have "fst ` set (t ! i) \<inter> fst ` set (t ! j) = {}" if "i < length t" "j < length t" "i \<noteq> j" for i j
  proof -
    have home: "bucket_of t x = k" if "k < length t" "x \<in> fst ` set (t ! k)" for x k
      using assms that by (auto simp: table_ok_def)
    show ?thesis
    proof (rule ccontr)
      assume "fst ` set (t ! i) \<inter> fst ` set (t ! j) \<noteq> {}"
      then obtain x where "x \<in> fst ` set (t ! i)" "x \<in> fst ` set (t ! j)" by blast
      with home [of i x] home [of j x] that show False by simp
    qed
  qed
  ultimately have "card (\<Union>i \<in> {..<length t}. fst ` set (t ! i)) = (\<Sum>i<length t. length (t ! i))"
    by (subst card_UN_disjoint) auto
  then show ?thesis
    by (simp add: table_dom [OF assms] table_size_def sum_list_sum_nth atLeast0LessThan)
qed

lemma table_empty:
  "0 < n \<Longrightarrow> table_ok (replicate n [])" "0 < n \<Longrightarrow> table_find (replicate n []) pid = None"
  "table_size (replicate n []) = 0"
  by (simp_all add: table_ok_def table_find_def bucket_of_def table_size_def sum_list_replicate)

section \<open>The contract\<close>

text \<open>
  \<open>pid_index\<close> is a table that grows; \<open>pid_table\<close> one that also forgets. The clients insert an id only after
  a lookup that failed.
\<close>

locale pid_index =
  fixes find :: "'t \<Rightarrow> u32 \<Rightarrow> 'a option"
    and push :: "u32 \<Rightarrow> 'a \<Rightarrow> 't \<Rightarrow> 't"
    and size_of :: "'t \<Rightarrow> nat"
    and ok :: "'t \<Rightarrow> bool"
  assumes find_push: "ok t \<Longrightarrow> find (push p a t) q = (if q = p then Some a else find t q)"
    and push_ok: "ok t \<Longrightarrow> find t p = None \<Longrightarrow> ok (push p a t)"
    and size_push: "ok t \<Longrightarrow> find t p = None \<Longrightarrow> size_of (push p a t) = Suc (size_of t)"
begin

text \<open>Find-or-insert: what is there stays there, and the id is there afterwards.\<close>

definition ensure :: "u32 \<Rightarrow> 'a \<Rightarrow> 't \<Rightarrow> 't" where
  "ensure p a t = (if find t p = None then push p a t else t)"

lemma ensure_ok: "ok t \<Longrightarrow> ok (ensure p a t)"
  by (simp add: ensure_def push_ok)

lemma find_ensure:
  "ok t \<Longrightarrow> find (ensure p a t) q = (if q = p \<and> find t p = None then Some a else find t q)"
  by (simp add: ensure_def find_push)

lemma ensure_present: "ok t \<Longrightarrow> find (ensure p a t) p \<noteq> None"
  by (simp add: find_ensure)

lemma ensure_keeps: "ok t \<Longrightarrow> find t q = Some b \<Longrightarrow> find (ensure p a t) q = Some b"
  by (auto simp: find_ensure)

lemma size_ensure: "ok t \<Longrightarrow> size_of (ensure p a t) = size_of t + of_bool (find t p = None)"
  by (simp add: ensure_def size_push)

text \<open>Any sequence of find-or-insert calls leaves the first value each id came with.\<close>

lemma ensure_run_ok: "ok t \<Longrightarrow> ok (fold (\<lambda>(p, a). ensure p a) es t)"
  by (induction es arbitrary: t) (auto simp: ensure_ok split: prod.splits)

lemma find_ensure_run:
  "ok t \<Longrightarrow> find (fold (\<lambda>(p, a). ensure p a) es t) q =
     (case find t q of Some b \<Rightarrow> Some b | None \<Rightarrow> map_of es q)"
proof (induction es arbitrary: t)
  case (Cons e es)
  then show ?case
    by (cases e) (auto simp: ensure_ok find_ensure split: option.splits)
qed (simp split: option.splits)

end

locale pid_table = pid_index find push size_of ok
  for find :: "'t \<Rightarrow> u32 \<Rightarrow> 'a option" and push size_of ok +
  fixes unlink :: "u32 \<Rightarrow> 't \<Rightarrow> 't"
  assumes find_unlink: "ok t \<Longrightarrow> find (unlink p t) q = (if q = p then None else find t q)"
    and unlink_ok: "ok t \<Longrightarrow> ok (unlink p t)"
    and size_unlink: "ok t \<Longrightarrow> find t p \<noteq> None \<Longrightarrow> Suc (size_of (unlink p t)) = size_of t"
begin

text \<open>A process id that is reused after its entry went is a new entry: nothing of the old one is found.\<close>

lemma reuse: "ok t \<Longrightarrow> find (ensure p b (unlink p t)) p = Some b"
  by (simp add: find_ensure unlink_ok find_unlink)

lemma unlink_ensure: "ok t \<Longrightarrow> find t p = None \<Longrightarrow> find (unlink p (ensure p a t)) = find t"
  by (rule ext) (auto simp: find_unlink find_ensure ensure_ok)

lemma size_bound: "ok t \<Longrightarrow> find t p \<noteq> None \<Longrightarrow> 0 < size_of t"
  using size_unlink [of t p] by simp

end

interpretation buckets: pid_table "table_find :: 'a buckets \<Rightarrow> _" table_push table_size table_ok table_unlink
  by unfold_locales
    (auto simp: table_find_push table_push_ok table_size_push table_find_unlink table_unlink_ok table_size_unlink)

end
