(* ===== verification/C_Text.thy ===== *)
theory C_Text
  imports C_Double Json_Writer
begin

text \<open>
  Text as several components of the sources read and write it: lines of a file, integers in decimal and in
  hexadecimal.
\<close>

section \<open>Writing numbers\<close>

definition u_text :: "'a :: len word \<Rightarrow> string" where
  "u_text w = dec (unat w)"

definition d_text :: "u32 \<Rightarrow> string" where
  "d_text w = dec_int (sint w)"

text \<open>\<open>%lx\<close>.\<close>

definition lx_text :: "'a :: len word \<Rightarrow> string" where
  "lx_text w = hex (unat w)"

section \<open>Reading numbers\<close>

text \<open>\<open>%d\<close> of \<open>sscanf\<close>, the value truncated to 32 bits.\<close>

definition scan_d :: "string \<Rightarrow> int option" where
  "scan_d s = map_option (\<lambda>_. sint (atoi s)) (strto_raw 10 s)"

section \<open>Conversions\<close>

text \<open>The cast of a \<open>double\<close> to \<open>unsigned long\<close>: towards zero; the C standard leaves values out of range
  undefined, here they are taken modulo \<open>2 ^ 64\<close>, infinities and NaN as 0.\<close>

definition double_to_ulong :: "double \<Rightarrow> u64" where
  "double_to_ulong d = (case d of Fin q \<Rightarrow> word_of_int (if q < 0 then \<lceil>q\<rceil> else \<lfloor>q\<rfloor>) | _ \<Rightarrow> 0)"

definition ulong_to_double :: "u64 \<Rightarrow> double" where
  "ulong_to_double w = double_of_int (int (unat w))"

section \<open>Lines\<close>

text \<open>\<open>fgets\<close> with a buffer of \<open>n + 1\<close> bytes: at most \<open>n\<close> characters, up to and with a newline.\<close>

fun fgets :: "nat \<Rightarrow> string \<Rightarrow> string \<times> string" where
  "fgets n [] = ([], [])"
| "fgets 0 (c # s) = ([], c # s)"
| "fgets (Suc n) (c # s) = (if c = LF then ([c], s) else let (l, r) = fgets n s in (c # l, r))"

lemma fgets_append: "fst (fgets n s) @ snd (fgets n s) = s"
  by (induction n s rule: fgets.induct) (auto simp: Let_def split: prod.splits)

lemma fgets_progress: "0 < n \<Longrightarrow> s \<noteq> [] \<Longrightarrow> length (snd (fgets n s)) < length s"
proof -
  assume "0 < n" "s \<noteq> []"
  then have "fst (fgets n s) \<noteq> []"
    by (cases n; cases s) (auto simp: Let_def split: prod.splits)
  then show ?thesis
    using arg_cong [OF fgets_append [of n s], of length] by (cases "fst (fgets n s)") auto
qed

lemma fgets_short: "LF \<notin> set s \<Longrightarrow> length s \<le> n \<Longrightarrow> fgets n s = (s, [])"
  by (induction n s rule: fgets.induct) auto

text \<open>The lines \<open>fgets\<close> reads with a buffer of \<open>n + 2\<close> bytes, as C strings.\<close>

function proc_lines :: "nat \<Rightarrow> string \<Rightarrow> string list" where
  "proc_lines n s = (if s = [] then [] else let (l, r) = fgets (Suc n) s in cstr l # proc_lines n r)"
  by auto
termination
  by (relation "measure (length \<circ> snd)") (simp, metis comp_apply fgets_progress in_measure snd_conv zero_less_Suc)

declare proc_lines.simps [simp del]

end
