(* ===== verification/Proc_Parse.thy ===== *)
theory Proc_Parse
  imports Proc_Model Pid_Table C_Text
begin

text \<open>
  The parser of src/proctree.c: the table of running processes, one handler per kind of line, and the loop
  over the lines of the file. Warnings and debug messages are left out; the counts are mathematical
  integers (they are C \<open>int\<close>s, so a file of fewer than \<open>2 ^ 31\<close> process lines is assumed).
\<close>

section \<open>The table of running processes\<close>

definition NUM_PROC_TABLE_BUCKETS :: nat where "NUM_PROC_TABLE_BUCKETS = 101"

definition proctree_initial :: proctree where
  "proctree_initial =
     \<lparr>st_root = None, st_heap = [], st_table = replicate NUM_PROC_TABLE_BUCKETS [],
      st_num_processes = 0, st_total_processes = 0, st_max_num_processes = 0\<rparr>"

text \<open>The entry found or made, as the process it points at.\<close>

definition lookup_pid :: "u32 \<Rightarrow> bool \<Rightarrow> proctree \<Rightarrow> nat option \<times> proctree" where
  "lookup_pid pid ins s =
     (case table_find (st_table s) pid of
        Some a \<Rightarrow> (Some a, s)
      | None \<Rightarrow>
          if \<not> ins then (None, s)
          else
            (let a = length (st_heap s); n = st_num_processes s + 1 in
             (Some a,
              s\<lparr>st_heap := st_heap s @ [process_info_zero\<lparr>pi_pid := pid\<rparr>],
                st_table := table_push pid a (st_table s),
                st_num_processes := n,
                st_total_processes := st_total_processes s + 1,
                st_max_num_processes :=
                  (if n > st_max_num_processes s then n else st_max_num_processes s)\<rparr>)))"

definition remove_pid :: "u32 \<Rightarrow> proctree \<Rightarrow> int \<times> proctree" where
  "remove_pid pid s =
     (case table_find (st_table s) pid of
        None \<Rightarrow> (1, s)
      | Some _ \<Rightarrow>
          (0, s\<lparr>st_table := table_unlink pid (st_table s), st_num_processes := st_num_processes s - 1\<rparr>))"

section \<open>The handlers\<close>

definition handle_root :: "u32 \<Rightarrow> proctree \<Rightarrow> proctree" where
  "handle_root pid s = (let (e, s1) = lookup_pid pid True s in s1\<lparr>st_root := e\<rparr>)"

text \<open>The edge from parent to child: the child becomes the youngest.\<close>

definition link_child :: "nat \<Rightarrow> nat \<Rightarrow> proc_heap \<Rightarrow> proc_heap" where
  "link_child p c h =
     (let h1 = set_node c (\<lambda>n. n\<lparr>pi_parent := Some p\<rparr>) h;
          h2 = (case pi_children (h1 ! p) of
                  None \<Rightarrow> h1
                | Some y \<Rightarrow>
                    set_node y (\<lambda>n. n\<lparr>pi_younger_sibling := Some c\<rparr>)
                      (set_node c (\<lambda>n. n\<lparr>pi_older_sibling := Some y\<rparr>) h1))
      in set_node p (\<lambda>n. n\<lparr>pi_children := Some c\<rparr>) h2)"

definition handle_fork :: "double \<Rightarrow> u32 \<Rightarrow> string \<Rightarrow> proctree \<Rightarrow> proctree" where
  "handle_fork elapsed pid child s =
     (let (pentry, s1) = lookup_pid (atoi child) True s;
          (parent_pentry, s2) = lookup_pid pid True s1
      in case (pentry, parent_pentry) of
           (Some c, Some p) \<Rightarrow>
             (let h = set_node c (\<lambda>n. n\<lparr>pi_start := elapsed\<rparr>) (st_heap s2) in
              if pi_parent (h ! c) \<noteq> None then s2\<lparr>st_heap := h\<rparr>
              else s2\<lparr>st_heap := link_child p c h\<rparr>)
         | _ \<Rightarrow> s2)"

definition NUM_STAT_FIELDS :: nat where "NUM_STAT_FIELDS = 52"

text \<open>A field of the line, if it has that many, converted and stored.\<close>

definition stat_field ::
  "string list \<Rightarrow> nat \<Rightarrow> (string \<Rightarrow> process_info \<Rightarrow> process_info) \<Rightarrow> process_info \<Rightarrow> process_info"
where
  "stat_field fs i store n = (if i < length fs then store (fs ! i) n else n)"

definition parse_stat :: "string \<Rightarrow> process_info \<Rightarrow> process_info" where
  "parse_stat stat n0 =
     (let fs = take NUM_STAT_FIELDS (tokens (\<lambda>c. c = CHR '' '' \<or> c = LF) stat);
          n1 = stat_field fs 3 (\<lambda>t n. n\<lparr>pi_ppid := atoi t\<rparr>) n0;
          n2 = stat_field fs 13 (\<lambda>t n. n\<lparr>pi_utime := atoi t\<rparr>) n1;
          n3 = stat_field fs 14 (\<lambda>t n. n\<lparr>pi_stime := atoi t\<rparr>) n2;
          n4 = stat_field fs 19 (\<lambda>t n. n\<lparr>pi_num_threads := atoi t\<rparr>) n3;
          n5 = stat_field fs 21 (\<lambda>t n. n\<lparr>pi_starttime := atoll t\<rparr>) n4;
          n6 = stat_field fs 22 (\<lambda>t n. n\<lparr>pi_vsize := atoi t\<rparr>) n5;
          n7 = stat_field fs 23 (\<lambda>t n. n\<lparr>pi_rss := atoll t\<rparr>) n6;
          n8 = stat_field fs 38 (\<lambda>t n. n\<lparr>pi_processor := atoi t\<rparr>) n7
      in stat_field fs 51 (\<lambda>t n. n\<lparr>pi_exit_code := atoi t\<rparr>) n8)"

text \<open>
  \<open>sscanf\<close> into fields of the process: the conversions are tried in order and the first that does not match
  ends the call, leaving the later fields as they were. \<open>Conv_lf\<close> is \<open>%lf\<close>, read as \<open>strtod\<close> reads.
\<close>

datatype conv =
    Conv_u "u64 \<Rightarrow> process_info \<Rightarrow> process_info"
  | Conv_lf "double \<Rightarrow> process_info \<Rightarrow> process_info"

fun sscanf :: "conv list \<Rightarrow> string \<Rightarrow> process_info \<Rightarrow> process_info" where
  "sscanf [] r n = n"
| "sscanf (Conv_u store # cs) r n =
     (case scan_ul 10 r of None \<Rightarrow> n | Some (v, r') \<Rightarrow> sscanf cs r' (store v n))"
| "sscanf (Conv_lf store # cs) r n =
     (case strtod r of None \<Rightarrow> n | Some (v, r') \<Rightarrow> sscanf cs r' (store v n))"

text \<open>The handlers that only look a process up: nothing happens if it is not in the table.\<close>

definition on_pid :: "u32 \<Rightarrow> (process_info \<Rightarrow> process_info) \<Rightarrow> proctree \<Rightarrow> proctree" where
  "on_pid pid f s =
     (case fst (lookup_pid pid False s) of
        None \<Rightarrow> s
      | Some a \<Rightarrow> s\<lparr>st_heap := set_node a f (st_heap s)\<rparr>)"

definition handle_futex :: "u32 \<Rightarrow> string \<Rightarrow> proctree \<Rightarrow> proctree" where
  "handle_futex pid rest = on_pid pid (sscanf
     [Conv_u (\<lambda>v n. n\<lparr>pi_futex_wait_count := v\<rparr>), Conv_lf (\<lambda>v n. n\<lparr>pi_futex_wait_seconds := v\<rparr>)] rest)"

definition handle_io_wait :: "u32 \<Rightarrow> string \<Rightarrow> proctree \<Rightarrow> proctree" where
  "handle_io_wait pid rest = on_pid pid (sscanf
     [Conv_u (\<lambda>v n. n\<lparr>pi_io_read_wait_count := v\<rparr>), Conv_lf (\<lambda>v n. n\<lparr>pi_io_read_wait_seconds := v\<rparr>),
      Conv_u (\<lambda>v n. n\<lparr>pi_io_write_wait_count := v\<rparr>), Conv_lf (\<lambda>v n. n\<lparr>pi_io_write_wait_seconds := v\<rparr>)] rest)"

definition handle_io :: "u32 \<Rightarrow> string \<Rightarrow> proctree \<Rightarrow> proctree" where
  "handle_io pid rest = on_pid pid (sscanf
     [Conv_u (\<lambda>v n. n\<lparr>pi_io_rchar := v\<rparr>), Conv_u (\<lambda>v n. n\<lparr>pi_io_wchar := v\<rparr>),
      Conv_u (\<lambda>v n. n\<lparr>pi_io_syscr := v\<rparr>), Conv_u (\<lambda>v n. n\<lparr>pi_io_syscw := v\<rparr>),
      Conv_u (\<lambda>v n. n\<lparr>pi_io_read_bytes := v\<rparr>), Conv_u (\<lambda>v n. n\<lparr>pi_io_write_bytes := v\<rparr>),
      Conv_u (\<lambda>v n. n\<lparr>pi_io_cancelled_write_bytes := v\<rparr>)] rest)"

definition handle_schedstat :: "u32 \<Rightarrow> string \<Rightarrow> proctree \<Rightarrow> proctree" where
  "handle_schedstat pid rest = on_pid pid (sscanf
     [Conv_lf (\<lambda>v n. n\<lparr>pi_sched_cpu_seconds := v\<rparr>), Conv_lf (\<lambda>v n. n\<lparr>pi_sched_rundelay_seconds := v\<rparr>),
      Conv_u (\<lambda>v n. n\<lparr>pi_sched_nr_timeslices := v\<rparr>)] rest)"

definition handle_vmdetail :: "u32 \<Rightarrow> string \<Rightarrow> proctree \<Rightarrow> proctree" where
  "handle_vmdetail pid rest = on_pid pid (sscanf
     [Conv_u (\<lambda>v n. n\<lparr>pi_vm_hwm_kb := v\<rparr>), Conv_u (\<lambda>v n. n\<lparr>pi_rss_anon_kb := v\<rparr>),
      Conv_u (\<lambda>v n. n\<lparr>pi_rss_file_kb := v\<rparr>), Conv_u (\<lambda>v n. n\<lparr>pi_rss_shmem_kb := v\<rparr>),
      Conv_u (\<lambda>v n. n\<lparr>pi_vm_swap_kb := v\<rparr>)] rest)"

definition handle_connect :: "u32 \<Rightarrow> string \<Rightarrow> proctree \<Rightarrow> proctree" where
  "handle_connect pid rest = on_pid pid (sscanf
     [Conv_u (\<lambda>v n. n\<lparr>pi_connect_count := v\<rparr>), Conv_lf (\<lambda>v n. n\<lparr>pi_connect_seconds := v\<rparr>)] rest)"

definition handle_nanosleep :: "u32 \<Rightarrow> string \<Rightarrow> proctree \<Rightarrow> proctree" where
  "handle_nanosleep pid rest = on_pid pid (sscanf
     [Conv_u (\<lambda>v n. n\<lparr>pi_nanosleep_count := v\<rparr>), Conv_lf (\<lambda>v n. n\<lparr>pi_nanosleep_seconds := v\<rparr>)] rest)"

definition handle_wait :: "u32 \<Rightarrow> string \<Rightarrow> proctree \<Rightarrow> proctree" where
  "handle_wait pid rest = on_pid pid (sscanf
     [Conv_u (\<lambda>v n. n\<lparr>pi_wait_count := v\<rparr>), Conv_lf (\<lambda>v n. n\<lparr>pi_wait_seconds := v\<rparr>)] rest)"

definition handle_poll :: "u32 \<Rightarrow> string \<Rightarrow> proctree \<Rightarrow> proctree" where
  "handle_poll pid rest = on_pid pid (sscanf
     [Conv_u (\<lambda>v n. n\<lparr>pi_poll_count := v\<rparr>), Conv_lf (\<lambda>v n. n\<lparr>pi_poll_seconds := v\<rparr>)] rest)"

definition handle_targetcounter :: "u32 \<Rightarrow> string \<Rightarrow> proctree \<Rightarrow> proctree" where
  "handle_targetcounter pid rest s =
     (case scan_word 63 rest of
        None \<Rightarrow> s
      | Some (grp, r1) \<Rightarrow>
          (case scan_word 63 r1 of
             None \<Rightarrow> s
           | Some (label, r2) \<Rightarrow>
               (case scan_ul 10 r2 of
                  None \<Rightarrow> s
                | Some (v, _) \<Rightarrow>
                    on_pid pid (\<lambda>n. n\<lparr>pi_target_counters :=
                      \<lparr>tc_group = grp, tc_label = label, tc_value = v\<rparr> # pi_target_counters n\<rparr>) s)))"

definition handle_targetsample :: "u32 \<Rightarrow> string \<Rightarrow> proctree \<Rightarrow> proctree" where
  "handle_targetsample pid rest s =
     (case scan_word 63 rest of
        None \<Rightarrow> s
      | Some (event, r1) \<Rightarrow>
          (case scan_ul 16 r1 of
             None \<Rightarrow> s
           | Some (a, r2) \<Rightarrow>
               (case scan_ul 10 r2 of
                  None \<Rightarrow> s
                | Some (cnt, _) \<Rightarrow>
                    on_pid pid (\<lambda>n. n\<lparr>pi_target_samples :=
                      \<lparr>ts_event = event, ts_addr = a, ts_count = cnt\<rparr> # pi_target_samples n\<rparr>) s)))"

definition handle_targetsamplelost :: "u32 \<Rightarrow> string \<Rightarrow> proctree \<Rightarrow> proctree" where
  "handle_targetsamplelost pid rest s =
     (case scan_word 63 rest of
        None \<Rightarrow> s
      | Some (event, r1) \<Rightarrow>
          (case scan_ul 10 r1 of
             None \<Rightarrow> s
           | Some (lost, _) \<Rightarrow>
               on_pid pid (\<lambda>n. n\<lparr>pi_target_samples_lost := pi_target_samples_lost n + lost\<rparr>) s))"

definition handle_targetmap :: "u32 \<Rightarrow> string \<Rightarrow> proctree \<Rightarrow> proctree" where
  "handle_targetmap pid rest s =
     (case scan_ul 16 rest of
        None \<Rightarrow> s
      | Some (a, r1) \<Rightarrow>
          (case scan_ul 16 r1 of
             None \<Rightarrow> s
           | Some (e, r2) \<Rightarrow>
               (case scan_ul 16 r2 of
                  None \<Rightarrow> s
                | Some (off, r3) \<Rightarrow>
                    (let path = skip_spaces r3 in
                     if path = [] then s
                     else
                       on_pid pid (\<lambda>n. n\<lparr>pi_target_maps :=
                         \<lparr>tm_start = a, tm_end = e, tm_file_offset = off, tm_path = path\<rparr>
                           # pi_target_maps n\<rparr>) s))))"

definition handle_exit :: "double \<Rightarrow> u32 \<Rightarrow> string \<Rightarrow> proctree \<Rightarrow> proctree" where
  "handle_exit elapsed pid stat s =
     (case fst (lookup_pid pid False s) of
        None \<Rightarrow> s
      | Some a \<Rightarrow>
          snd (remove_pid pid
            (s\<lparr>st_heap := set_node a (\<lambda>n. parse_stat stat (n\<lparr>pi_finish := elapsed\<rparr>)) (st_heap s)\<rparr>)))"

definition handle_comm :: "u32 \<Rightarrow> string \<Rightarrow> proctree \<Rightarrow> proctree" where
  "handle_comm pid comm = on_pid pid (\<lambda>n. n\<lparr>pi_comm := Some comm\<rparr>)"

definition handle_cmdline :: "u32 \<Rightarrow> string \<Rightarrow> proctree \<Rightarrow> proctree" where
  "handle_cmdline pid cmdline = on_pid pid (\<lambda>n. n\<lparr>pi_cmdline := Some cmdline\<rparr>)"

text \<open>What follows the last slash, the whole text if there is none.\<close>

definition after_slash :: "string \<Rightarrow> string" where
  "after_slash path = rev (takeWhile (\<lambda>c. c \<noteq> CHR ''/'') (rev path))"

definition handle_exec :: "u32 \<Rightarrow> string \<Rightarrow> proctree \<Rightarrow> proctree" where
  "handle_exec pid path = on_pid pid (\<lambda>n. n\<lparr>pi_comm := Some (after_slash path)\<rparr>)"

section \<open>The lines\<close>

text \<open>
  The text a handler gets, one character past a keyword of length \<open>k\<close>. After a keyword alone on its line
  that is the byte after the newline, which \<open>fgets\<close> made the terminator; with no newline (an unterminated
  last line, or one cut at the buffer's size) it lies past the terminator and the code reads what an
  earlier line left there: \<open>None\<close>.
\<close>

definition event_text :: "string \<Rightarrow> string" where
  "event_text p = takeWhile (\<lambda>c. c \<noteq> LF) p"

definition event_arg :: "nat \<Rightarrow> string \<Rightarrow> string option" where
  "event_arg k p =
     (if k < length (event_text p) then Some (drop (Suc k) (event_text p))
      else if LF \<in> set p then Some [] else None)"

definition handle_event :: "double \<Rightarrow> u32 \<Rightarrow> string \<Rightarrow> proctree \<Rightarrow> proctree option" where
  "handle_event elapsed pid p s =
     (let is_event = (\<lambda>k. starts_with k (event_text p));
          call = (\<lambda>k f. map_option (\<lambda>arg. f arg s) (event_arg (length (k :: string)) p))
      in if is_event ''fork'' then call ''fork'' (handle_fork elapsed pid)
         else if is_event ''root'' then Some (handle_root pid s)
         else if is_event ''comm'' then call ''comm'' (handle_comm pid)
         else if is_event ''cmdline'' then call ''cmdline'' (handle_cmdline pid)
         else if is_event ''exec'' then call ''exec'' (handle_exec pid)
         else if is_event ''exited'' then Some s
         else if is_event ''unknown'' then Some s
         else if is_event ''signal'' then Some s
         else if is_event ''futex'' then call ''futex'' (handle_futex pid)
         else if is_event ''io_wait'' then call ''io_wait'' (handle_io_wait pid)
         else if is_event ''io'' then call ''io'' (handle_io pid)
         else if is_event ''schedstat'' then call ''schedstat'' (handle_schedstat pid)
         else if is_event ''vmsize'' then call ''vmsize'' (handle_vmdetail pid)
         else if is_event ''connect'' then call ''connect'' (handle_connect pid)
         else if is_event ''nanosleep'' then call ''nanosleep'' (handle_nanosleep pid)
         else if is_event ''wait'' then call ''wait'' (handle_wait pid)
         else if is_event ''poll'' then call ''poll'' (handle_poll pid)
         else if is_event ''targetcounter'' then call ''targetcounter'' (handle_targetcounter pid)
         else if is_event ''targetsamplelost'' then call ''targetsamplelost'' (handle_targetsamplelost pid)
         else if is_event ''targetsample'' then call ''targetsample'' (handle_targetsample pid)
         else if is_event ''targetmap'' then call ''targetmap'' (handle_targetmap pid)
         else if is_event ''exit'' then call ''exit'' (handle_exit elapsed pid)
         else Some s)"

text \<open>The time and the process id in front of the event: lines without them are skipped.\<close>

definition line_head :: "string \<Rightarrow> (double \<times> u32 \<times> string) option" where
  "line_head buf =
     (case split_at (CHR '' '') buf of
        None \<Rightarrow> None
      | Some (t, r) \<Rightarrow>
          (case strtod t of
             None \<Rightarrow> None
           | Some (elapsed, _) \<Rightarrow>
               (case split_at (CHR '' '') r of
                  None \<Rightarrow> None
                | Some (q, p) \<Rightarrow> if sint (atoi q) \<le> 0 then None else Some (elapsed, atoi q, p))))"

definition parse_line :: "string \<Rightarrow> proctree \<Rightarrow> proctree option" where
  "parse_line buf s =
     (case line_head buf of None \<Rightarrow> Some s | Some (elapsed, pid, p) \<Rightarrow> handle_event elapsed pid p s)"

fun parse_lines :: "string list \<Rightarrow> proctree \<Rightarrow> proctree option" where
  "parse_lines [] s = Some s"
| "parse_lines (l # ls) s = (case parse_line l s of None \<Rightarrow> None | Some s' \<Rightarrow> parse_lines ls s')"

definition LINE_MAX :: nat where "LINE_MAX = 8191"

function file_lines :: "string \<Rightarrow> string list" where
  "file_lines bs =
     (if bs = [] then [] else let (l, r) = fgets LINE_MAX bs in l # file_lines r)"
  by auto
termination
  by (relation "measure length") (simp, metis LINE_MAX_def fgets_progress in_measure snd_conv zero_less_numeral)

declare file_lines.simps [simp del]

definition parse_file :: "string \<Rightarrow> proctree option" where
  "parse_file bs = parse_lines (map cstr (file_lines bs)) proctree_initial"

end
