(* ===== verification/Proc_Links.thy ===== *)
theory Proc_Links
  imports Proc_Parse
begin

text \<open>
  The pointers of the process tree (src/proctree.c) and what they stand for: \<open>es\<close> lists the accepted fork edges
  \<open>(parent, child)\<close> in the order of their lines, and \<open>links_ok\<close> says that the four pointers of every
  process are the ones these edges give.
\<close>

section \<open>Edges\<close>

definition kids :: "(nat \<times> nat) list \<Rightarrow> nat \<Rightarrow> nat list" where
  "kids es p = map snd (filter (\<lambda>e. fst e = p) es)"

definition parent_of :: "(nat \<times> nat) list \<Rightarrow> nat \<Rightarrow> nat option" where
  "parent_of es a = map_of (map (\<lambda>(p, c). (c, p)) es) a"

text \<open>The neighbours of an element of a list without repetitions.\<close>

fun before :: "nat \<Rightarrow> nat list \<Rightarrow> nat option" where
  "before a (x # y # zs) = (if y = a then Some x else before a (y # zs))"
| "before a _ = None"

fun after :: "nat \<Rightarrow> nat list \<Rightarrow> nat option" where
  "after a (x # y # zs) = (if x = a then Some y else after a (y # zs))"
| "after a _ = None"

definition sibling :: "(nat \<Rightarrow> nat list \<Rightarrow> nat option) \<Rightarrow> (nat \<times> nat) list \<Rightarrow> nat \<Rightarrow> nat option" where
  "sibling side es a = (case parent_of es a of None \<Rightarrow> None | Some p \<Rightarrow> side a (kids es p))"

definition last_of :: "nat list \<Rightarrow> nat option" where
  "last_of xs = (if xs = [] then None else Some (last xs))"

lemma last_of_simps [simp]: "last_of [] = None" "last_of (xs @ [x]) = Some x"
  by (simp_all add: last_of_def)

definition edges_ok :: "nat \<Rightarrow> (nat \<times> nat) list \<Rightarrow> bool" where
  "edges_ok n es \<longleftrightarrow> (\<forall>(p, c) \<in> set es. p < n \<and> c < n) \<and> distinct (map snd es)"

definition links_ok :: "proc_heap \<Rightarrow> (nat \<times> nat) list \<Rightarrow> bool" where
  "links_ok h es \<longleftrightarrow> edges_ok (length h) es \<and>
     (\<forall>a < length h.
        pi_parent (h ! a) = parent_of es a \<and>
        pi_children (h ! a) = last_of (kids es a) \<and>
        pi_older_sibling (h ! a) = sibling before es a \<and>
        pi_younger_sibling (h ! a) = sibling after es a)"

lemma kids_append [simp]: "kids (es @ [(p, c)]) q = (if q = p then kids es q @ [c] else kids es q)"
  by (simp add: kids_def)

lemma kids_Nil [simp]: "kids [] p = []"
  by (simp add: kids_def)

lemma in_kids: "c \<in> set (kids es p) \<longleftrightarrow> (p, c) \<in> set es"
  by (force simp: kids_def)

lemma kids_distinct: "distinct (map snd es) \<Longrightarrow> distinct (kids es p)"
  by (simp add: kids_def distinct_map_filter)

lemma parent_of_Some: "distinct (map snd es) \<Longrightarrow> parent_of es a = Some p \<longleftrightarrow> (p, a) \<in> set es"
proof -
  assume "distinct (map snd es)"
  moreover have "map fst (map (\<lambda>(p, c). (c, p)) es) = map snd es" by (induction es) auto
  ultimately have "parent_of es a = Some p \<longleftrightarrow> (a, p) \<in> set (map (\<lambda>(p, c). (c, p)) es)"
    unfolding parent_of_def by (metis map_of_eq_Some_iff)
  then show ?thesis by force
qed

lemma parent_of_None: "parent_of es a = None \<longleftrightarrow> a \<notin> snd ` set es"
proof -
  have "fst ` set (map (\<lambda>(p, c). (c, p)) es) = snd ` set es" by force
  then show ?thesis by (simp add: parent_of_def map_of_eq_None_iff)
qed

lemma parent_of_append:
  "c \<notin> snd ` set es \<Longrightarrow> parent_of (es @ [(p, c)]) a = (if a = c then Some p else parent_of es a)"
  using parent_of_None [of es c] by (auto simp: parent_of_def map_add_def split: option.splits)

lemma before_append:
  "c \<notin> set xs \<Longrightarrow> before a (xs @ [c]) = (if a = c then last_of xs else before a xs)"
  by (induction a xs rule: before.induct) (auto simp: last_of_def)

lemma before_absent: "a \<notin> set xs \<Longrightarrow> before a xs = None"
  by (induction a xs rule: before.induct) auto

lemma after_absent: "a \<notin> set xs \<Longrightarrow> after a xs = None"
  by (induction a xs rule: after.induct) auto

lemma after_append:
  "distinct xs \<Longrightarrow> a \<noteq> c \<Longrightarrow> after a (xs @ [c]) = (if last_of xs = Some a then Some c else after a xs)"
  by (induction a xs rule: after.induct) (auto simp: last_of_def)

lemma after_split: "distinct (us @ y # vs) \<Longrightarrow> after y (us @ y # vs) = (if vs = [] then None else Some (hd vs))"
proof (induction us)
  case Nil
  then show ?case by (cases vs) auto
next
  case (Cons u us)
  then show ?case by (cases us) auto
qed

lemma before_split: "distinct (us @ y # vs) \<Longrightarrow> before y (us @ y # vs) = last_of us"
proof (induction us)
  case Nil
  then show ?case by (cases vs) (auto simp: before_absent)
next
  case (Cons u us)
  then show ?case by (cases us) (auto simp: last_of_def)
qed

section \<open>The fork edge\<close>

lemma link_child_length [simp]: "length (link_child p c h) = length h"
  by (simp add: link_child_def Let_def split: option.splits)

lemma link_child_fields:
  assumes "a < length h" and "p < length h" and "c < length h"
    and "\<forall>y. pi_children (h ! p) = Some y \<longrightarrow> y < length h"
  shows "pi_parent (link_child p c h ! a) = (if a = c then Some p else pi_parent (h ! a))"
    and "pi_children (link_child p c h ! a) = (if a = p then Some c else pi_children (h ! a))"
    and "pi_older_sibling (link_child p c h ! a) =
      (if a = c \<and> pi_children (h ! p) \<noteq> None then pi_children (h ! p) else pi_older_sibling (h ! a))"
    and "pi_younger_sibling (link_child p c h ! a) =
      (if pi_children (h ! p) = Some a then Some c else pi_younger_sibling (h ! a))"
  using assms by (auto simp: link_child_def Let_def set_node_nth split: option.splits)

lemma link_child_pid [simp]:
  assumes "a < length h" and "p < length h" and "c < length h"
    and "\<forall>y. pi_children (h ! p) = Some y \<longrightarrow> y < length h"
  shows "pi_pid (link_child p c h ! a) = pi_pid (h ! a)"
  using assms by (auto simp: link_child_def Let_def set_node_nth split: option.splits)

lemma kids_bound: "edges_ok n es \<Longrightarrow> c \<in> set (kids es p) \<Longrightarrow> c < n"
  by (auto simp: edges_ok_def in_kids)

lemma links_children_bound:
  assumes "links_ok h es" and "p < length h"
  shows "\<forall>y. pi_children (h ! p) = Some y \<longrightarrow> y < length h"
proof (intro allI impI)
  fix y assume "pi_children (h ! p) = Some y"
  with assms have "kids es p \<noteq> []" "y = last (kids es p)"
    by (auto simp: links_ok_def last_of_def split: if_splits)
  with assms(1) show "y < length h"
    using kids_bound [of "length h" es y p] by (simp add: links_ok_def)
qed

lemma link_child_links:
  assumes ok: "links_ok h es" and p: "p < length h" and c: "c < length h" and new: "c \<notin> snd ` set es"
  shows "links_ok (link_child p c h) (es @ [(p, c)])"
proof -
  from ok have e: "edges_ok (length h) es" by (simp add: links_ok_def)
  then have d: "distinct (map snd es)" by (simp add: edges_ok_def)
  have nk: "c \<notin> set (kids es q)" for q
    using new by (force simp: in_kids)
  have fields: "pi_parent (link_child p c h ! a) = parent_of (es @ [(p, c)]) a \<and>
    pi_children (link_child p c h ! a) = last_of (kids (es @ [(p, c)]) a) \<and>
    pi_older_sibling (link_child p c h ! a) = sibling before (es @ [(p, c)]) a \<and>
    pi_younger_sibling (link_child p c h ! a) = sibling after (es @ [(p, c)]) a"
    if a: "a < length h" for a
  proof -
    note f = link_child_fields [OF a p c links_children_bound [OF ok p]]
    have o: "pi_parent (h ! a) = parent_of es a" "pi_children (h ! a) = last_of (kids es a)"
      "pi_older_sibling (h ! a) = sibling before es a" "pi_younger_sibling (h ! a) = sibling after es a"
      "pi_children (h ! p) = last_of (kids es p)"
      using ok a p by (simp_all add: links_ok_def)
    have par: "parent_of es c = None" using new by (simp add: parent_of_None)
    have cs: "last_of (kids es a @ [c]) = Some c" by (simp add: last_of_def)
    have older: "sibling before (es @ [(p, c)]) a =
        (if a = c \<and> last_of (kids es p) \<noteq> None then last_of (kids es p) else sibling before es a)"
      using nk par by (auto simp: sibling_def parent_of_append [OF new] before_append split: option.splits)
    have lastp: "parent_of es a = Some p" if "last_of (kids es p) = Some a"
    proof -
      from that have "a \<in> set (kids es p)" by (auto simp: last_of_def split: if_splits)
      with d show ?thesis by (simp add: parent_of_Some in_kids)
    qed
    have younger: "sibling after (es @ [(p, c)]) a =
        (if last_of (kids es p) = Some a then Some c else sibling after es a)"
    proof (cases "a = c")
      case True
      have "after c (kids es p @ [c]) = None"
        using after_split [of "kids es p" c "[]"] kids_distinct [OF d] nk by auto
      moreover have "last_of (kids es p) \<noteq> Some c" using lastp par True by auto
      ultimately show ?thesis
        using True par by (simp add: sibling_def parent_of_append [OF new])
    next
      case False
      then show ?thesis
        using lastp kids_distinct [OF d]
        by (auto simp: sibling_def parent_of_append [OF new] after_append split: option.splits)
    qed
    show ?thesis
      unfolding f o older younger by (simp add: parent_of_append [OF new] cs)
  qed
  have "edges_ok (length h) (es @ [(p, c)])"
    using e p c new by (auto simp: edges_ok_def)
  with fields show ?thesis by (simp add: links_ok_def)
qed

text \<open>Writes to other fields, and new processes, leave the links alone.\<close>

definition same_links :: "process_info \<Rightarrow> process_info \<Rightarrow> bool" where
  "same_links m n \<longleftrightarrow> pi_pid m = pi_pid n \<and> pi_parent m = pi_parent n \<and> pi_children m = pi_children n \<and>
     pi_older_sibling m = pi_older_sibling n \<and> pi_younger_sibling m = pi_younger_sibling n"

lemma set_node_links:
  assumes "links_ok h es" and "a < length h" and "same_links (f (h ! a)) (h ! a)"
  shows "links_ok (set_node a f h) es"
  using assms by (simp add: links_ok_def set_node_nth same_links_def)

lemma fresh_node_links:
  assumes "links_ok h es"
  shows "links_ok (h @ [process_info_zero\<lparr>pi_pid := pid\<rparr>]) es"
proof -
  from assms have e: "edges_ok (length h) es" by (simp add: links_ok_def)
  then have "length h \<notin> snd ` set es" by (auto simp: edges_ok_def)
  then have n: "parent_of es (length h) = None" by (simp add: parent_of_None)
  have "kids es (length h) = []"
    using e by (force simp: kids_def filter_empty_conv edges_ok_def)
  with assms e n show ?thesis
    by (auto simp: links_ok_def edges_ok_def nth_append less_Suc_eq process_info_zero_def sibling_def last_of_def)
qed

section \<open>Walking the siblings\<close>

text \<open>
  The loops over a chain of siblings, with fuel: \<open>walk\<close> follows one pointer field to its end, \<open>eldest\<close>
  finds the last one of the older siblings.
\<close>

fun walk :: "nat \<Rightarrow> (process_info \<Rightarrow> nat option) \<Rightarrow> proc_heap \<Rightarrow> nat option \<Rightarrow> nat list option" where
  "walk f nxt h None = Some []"
| "walk 0 nxt h (Some a) = None"
| "walk (Suc f) nxt h (Some a) = map_option (Cons a) (walk f nxt h (nxt (h ! a)))"

fun eldest :: "nat \<Rightarrow> proc_heap \<Rightarrow> nat \<Rightarrow> nat option" where
  "eldest 0 h a = None"
| "eldest (Suc f) h a = (case pi_older_sibling (h ! a) of None \<Rightarrow> Some a | Some b \<Rightarrow> eldest f h b)"

definition eldest_first :: "nat \<Rightarrow> proc_heap \<Rightarrow> nat \<Rightarrow> nat list option" where
  "eldest_first f h a =
     (case pi_children (h ! a) of
        None \<Rightarrow> Some []
      | Some y \<Rightarrow>
          (case eldest f h y of None \<Rightarrow> None | Some e \<Rightarrow> walk f pi_younger_sibling h (Some e)))"

definition youngest_first :: "nat \<Rightarrow> proc_heap \<Rightarrow> nat \<Rightarrow> nat list option" where
  "youngest_first f h a = walk f pi_older_sibling h (pi_children (h ! a))"

lemma links_kid:
  assumes "links_ok h es" and "kids es p = us @ y # vs"
  shows "pi_older_sibling (h ! y) = last_of us"
    and "pi_younger_sibling (h ! y) = (if vs = [] then None else Some (hd vs))"
proof -
  have e: "edges_ok (length h) es" using assms(1) by (simp add: links_ok_def)
  then have d: "distinct (map snd es)" by (simp add: edges_ok_def)
  have y: "y \<in> set (kids es p)" using assms(2) by simp
  with e have b: "y < length h" by (rule kids_bound)
  have par: "parent_of es y = Some p" using y d by (simp add: parent_of_Some in_kids)
  have "distinct (us @ y # vs)" using kids_distinct [OF d, of p] assms(2) by simp
  then show "pi_older_sibling (h ! y) = last_of us"
    and "pi_younger_sibling (h ! y) = (if vs = [] then None else Some (hd vs))"
    using assms(1) b par assms(2) before_split [of us y vs] after_split [of us y vs]
    by (simp_all add: links_ok_def sibling_def)
qed

lemma walk_older:
  assumes "links_ok h es" and "kids es p = us @ vs" and "length us \<le> f"
  shows "walk f pi_older_sibling h (last_of us) = Some (rev us)"
  using assms(2,3)
proof (induction us arbitrary: f vs rule: rev_induct)
  case Nil
  then show ?case by (simp add: last_of_def)
next
  case (snoc y us)
  then obtain f' where f: "f = Suc f'" by (cases f) auto
  have "pi_older_sibling (h ! y) = last_of us"
    using links_kid(1) [OF assms(1), of p us y vs] snoc.prems by simp
  with snoc f show ?case by (simp add: last_of_def)
qed

lemma walk_younger:
  assumes "links_ok h es" and "kids es p = us @ vs" and "length vs \<le> f"
  shows "walk f pi_younger_sibling h (if vs = [] then None else Some (hd vs)) = Some vs"
  using assms(2,3)
proof (induction vs arbitrary: f us)
  case (Cons y vs)
  then obtain f' where f: "f = Suc f'" by (cases f) auto
  have "pi_younger_sibling (h ! y) = (if vs = [] then None else Some (hd vs))"
    using links_kid(2) [OF assms(1), of p us y vs] Cons.prems by simp
  with Cons.IH [of "us @ [y]" f'] Cons.prems f show ?case by auto
qed simp

lemma eldest_hd:
  assumes "links_ok h es" and "kids es p = us @ y # vs" and "length us < f"
  shows "eldest f h y = Some (hd (us @ [y]))"
  using assms(2,3)
proof (induction us arbitrary: f y vs rule: rev_induct)
  case Nil
  then show ?case
    using links_kid(1) [OF assms(1), of p "[]" y vs] by (cases f) (auto simp: last_of_def)
next
  case (snoc x us)
  then obtain f' where f: "f = Suc f'" by (cases f) auto
  have "pi_older_sibling (h ! y) = Some x"
    using links_kid(1) [OF assms(1), of p "us @ [x]" y vs] snoc.prems by (simp add: last_of_def)
  with snoc.IH [of x "y # vs" f'] snoc.prems f show ?case by (simp add: hd_append)
qed

lemma kids_length: "length (kids es p) \<le> length es"
  by (simp add: kids_def)

lemma edges_length: "edges_ok n es \<Longrightarrow> length es \<le> n"
proof -
  assume a: "edges_ok n es"
  then have "length es = card (snd ` set es)"
    by (metis edges_ok_def distinct_card length_map set_map)
  also have "\<dots> \<le> card {..<n}"
    using a by (intro card_mono) (auto simp: edges_ok_def)
  finally show ?thesis by simp
qed

lemma sibling_walks:
  assumes "links_ok h es" and "a < length h" and "length h \<le> f"
  shows "youngest_first f h a = Some (rev (kids es a))"
    and "eldest_first f h a = Some (kids es a)"
proof -
  have e: "edges_ok (length h) es" and c: "pi_children (h ! a) = last_of (kids es a)"
    using assms(1,2) by (simp_all add: links_ok_def)
  have len: "length (kids es a) \<le> f"
    using edges_length [OF e] kids_length [of es a] assms(3) by linarith
  show "youngest_first f h a = Some (rev (kids es a))"
    using walk_older [OF assms(1) _ len, of a "[]"] by (simp add: youngest_first_def c)
  show "eldest_first f h a = Some (kids es a)"
  proof (cases "kids es a" rule: rev_cases)
    case Nil
    then show ?thesis by (simp add: eldest_first_def c last_of_def)
  next
    case (snoc us y)
    then have "eldest f h y = Some (hd (kids es a))"
      using eldest_hd [OF assms(1), of a us y "[]" f] len by simp
    with snoc walk_younger [OF assms(1) _ len, of a "[]"] show ?thesis
      by (simp add: eldest_first_def c last_of_def)
  qed
qed

end
