(* ===== verification/Proc_Refine.thy ===== *)
theory Proc_Refine
  imports Proc_Links
begin

text \<open>
  What the parser of src/proctree.c promises, as a machine over the events of the lines: a map from process
  ids to the running instance, the number of instances made and the list of fork edges. The hash table and
  the four pointers of every process implement it.
\<close>

section \<open>The abstract machine\<close>

datatype tree_event = Fork u32 u32 | Root u32 | Exit u32 | Reading

record proc_spec =
  sp_live :: "u32 \<Rightarrow> nat option"
  sp_made :: nat
  sp_edges :: "(nat \<times> nat) list"
  sp_root :: "nat option"

definition spec_initial :: proc_spec where
  "spec_initial = \<lparr>sp_live = (\<lambda>_. None), sp_made = 0, sp_edges = [], sp_root = None\<rparr>"

text \<open>The running instance of a process id: a new one if there is none.\<close>

definition instance_of :: "u32 \<Rightarrow> proc_spec \<Rightarrow> nat \<times> proc_spec" where
  "instance_of pid sp =
     (case sp_live sp pid of
        Some a \<Rightarrow> (a, sp)
      | None \<Rightarrow> (sp_made sp, sp\<lparr>sp_live := (sp_live sp)(pid \<mapsto> sp_made sp), sp_made := Suc (sp_made sp)\<rparr>))"

text \<open>A process keeps the first parent it is given.\<close>

fun spec_step :: "tree_event \<Rightarrow> proc_spec \<Rightarrow> proc_spec" where
  "spec_step (Fork pid child) sp =
     (let (c, sp1) = instance_of child sp; (p, sp2) = instance_of pid sp1 in
      if c \<in> snd ` set (sp_edges sp2) then sp2 else sp2\<lparr>sp_edges := sp_edges sp2 @ [(p, c)]\<rparr>)"
| "spec_step (Root pid) sp = (let (a, sp1) = instance_of pid sp in sp1\<lparr>sp_root := Some a\<rparr>)"
| "spec_step (Exit pid) sp = sp\<lparr>sp_live := (sp_live sp)(pid := None)\<rparr>"
| "spec_step Reading sp = sp"

text \<open>The event of a line. An exit line's keyword must not be one that is tested before it.\<close>

definition line_event :: "string \<Rightarrow> tree_event" where
  "line_event buf =
     (case line_head buf of
        None \<Rightarrow> Reading
      | Some (elapsed, pid, p) \<Rightarrow>
          (let t = event_text p in
           if starts_with ''fork'' t then Fork pid (atoi (drop 5 t))
           else if starts_with ''root'' t then Root pid
           else if starts_with ''exited'' t then Reading
           else if starts_with ''exit'' t then Exit pid
           else Reading))"

section \<open>The simulation\<close>

definition implements :: "proctree \<Rightarrow> proc_spec \<Rightarrow> bool" where
  "implements s sp \<longleftrightarrow>
     table_ok (st_table s) \<and> table_find (st_table s) = sp_live sp \<and>
     length (st_heap s) = sp_made sp \<and> links_ok (st_heap s) (sp_edges sp) \<and> st_root s = sp_root sp \<and>
     (\<forall>pid a. sp_live sp pid = Some a \<longrightarrow> a < sp_made sp \<and> pi_pid (st_heap s ! a) = pid) \<and>
     (\<forall>a. sp_root sp = Some a \<longrightarrow> a < sp_made sp)"

definition counts_ok :: "proctree \<Rightarrow> bool" where
  "counts_ok s \<longleftrightarrow>
     st_num_processes s = int (table_size (st_table s)) \<and>
     st_total_processes s = int (length (st_heap s)) \<and>
     st_num_processes s \<le> st_max_num_processes s \<and> st_max_num_processes s \<le> st_total_processes s"

definition refines :: "proctree \<Rightarrow> proc_spec \<Rightarrow> bool" where
  "refines s sp \<longleftrightarrow> implements s sp \<and> counts_ok s"

lemma initial_refines: "refines proctree_initial spec_initial"
proof -
  have "table_find (replicate NUM_PROC_TABLE_BUCKETS []) = (\<lambda>_. None :: nat option)"
    by (rule ext) (simp add: table_empty NUM_PROC_TABLE_BUCKETS_def)
  then show ?thesis
    by (simp add: refines_def implements_def counts_ok_def proctree_initial_def spec_initial_def table_empty
        NUM_PROC_TABLE_BUCKETS_def links_ok_def edges_ok_def)
qed

lemma lookup_pid_found: "fst (lookup_pid pid False s) = table_find (st_table s) pid"
  by (simp add: lookup_pid_def split: option.splits)

lemma lookup_pid_refines:
  assumes "refines s sp" and "lookup_pid pid True s = (e, s')"
  shows "\<exists>a sp'. instance_of pid sp = (a, sp') \<and> e = Some a \<and> refines s' sp' \<and> a < sp_made sp' \<and>
    sp_edges sp' = sp_edges sp \<and> sp_made sp \<le> sp_made sp'"
proof (cases "table_find (st_table s) pid")
  case (Some a)
  then have s': "s' = s" "e = Some a" using assms(2) by (simp_all add: lookup_pid_def)
  have "sp_live sp pid = Some a" using Some assms(1) by (simp add: refines_def implements_def)
  moreover from this have "a < sp_made sp" using assms(1) by (simp add: refines_def implements_def)
  ultimately show ?thesis using assms(1) by (simp add: s' instance_of_def)
next
  case None
  let ?h = "st_heap s @ [process_info_zero\<lparr>pi_pid := pid\<rparr>]"
  have ok: "table_ok (st_table s)" and live: "table_find (st_table s) = sp_live sp"
    and made: "length (st_heap s) = sp_made sp"
    using assms(1) by (simp_all add: refines_def implements_def)
  have i: "instance_of pid sp =
      (sp_made sp, sp\<lparr>sp_live := (sp_live sp)(pid \<mapsto> sp_made sp), sp_made := Suc (sp_made sp)\<rparr>)"
    using None live by (simp add: instance_of_def)
  have s': "s' = s\<lparr>st_heap := ?h, st_table := table_push pid (sp_made sp) (st_table s),
      st_num_processes := st_num_processes s + 1, st_total_processes := st_total_processes s + 1,
      st_max_num_processes := max (st_max_num_processes s) (st_num_processes s + 1)\<rparr>"
    and e: "e = Some (sp_made sp)"
    using assms(2) None made by (auto simp: lookup_pid_def Let_def max_def)
  have find: "table_find (table_push pid (sp_made sp) (st_table s)) = (sp_live sp)(pid \<mapsto> sp_made sp)"
    by (rule ext) (simp add: table_find_push [OF ok] live)
  have "implements s' (snd (instance_of pid sp))"
    unfolding implements_def i s' using assms(1) find table_push_ok [OF ok None] fresh_node_links
    by (auto simp: refines_def implements_def nth_append made less_Suc_eq process_info_zero_def)
  moreover have "counts_ok s'"
    unfolding counts_ok_def s' using assms(1) table_size_push [OF ok]
    by (auto simp: refines_def counts_ok_def)
  ultimately show ?thesis by (simp add: i e refines_def)
qed

text \<open>A reading changes fields of one process that are not links.\<close>

lemma set_node_refines:
  assumes "refines s sp" and "a < length (st_heap s)" and "\<And>n. same_links (f n) n"
  shows "refines (s\<lparr>st_heap := set_node a f (st_heap s)\<rparr>) sp"
proof -
  have "pi_pid (set_node a f (st_heap s) ! b) = pi_pid (st_heap s ! b)" if "b < length (st_heap s)" for b
    using assms(3) that by (simp add: set_node_nth same_links_def)
  then show ?thesis
    using assms set_node_links [of "st_heap s" "sp_edges sp" a f]
    by (auto simp: refines_def implements_def counts_ok_def)
qed

lemma on_pid_refines:
  assumes "refines s sp" and "\<And>n. same_links (f n) n"
  shows "refines (on_pid pid f s) sp"
proof (cases "table_find (st_table s) pid")
  case (Some a)
  with assms(1) have "a < length (st_heap s)" by (auto simp: refines_def implements_def)
  with Some set_node_refines [of s sp a f] assms show ?thesis by (simp add: on_pid_def lookup_pid_found)
qed (simp add: on_pid_def lookup_pid_found assms(1))

definition keeps_links :: "conv \<Rightarrow> bool" where
  "keeps_links c \<longleftrightarrow> (case c of Conv_u f \<Rightarrow> \<forall>v n. same_links (f v n) n | Conv_lf f \<Rightarrow> \<forall>v n. same_links (f v n) n)"

lemma same_links_refl: "same_links n n"
  by (simp add: same_links_def)

lemma same_links_trans: "same_links l m \<Longrightarrow> same_links m n \<Longrightarrow> same_links l n"
  by (simp add: same_links_def)

lemma sscanf_links: "\<forall>c \<in> set cs. keeps_links c \<Longrightarrow> same_links (sscanf cs r n) n"
proof (induction cs r n rule: sscanf.induct)
  case (1 r n)
  show ?case by (simp add: same_links_refl)
next
  case (2 store cs r n)
  then have "same_links (store v n) n" for v by (simp add: keeps_links_def)
  with 2 show ?case
    by (auto simp: same_links_refl split: option.splits) (metis same_links_trans)
next
  case (3 store cs r n)
  then have "same_links (store v n) n" for v by (simp add: keeps_links_def)
  with 3 show ?case
    by (auto simp: same_links_refl split: option.splits) (metis same_links_trans)
qed

lemma stat_field_links:
  "(\<And>t n. same_links (store t n) n) \<Longrightarrow> same_links n m \<Longrightarrow> same_links (stat_field fs i store n) m"
  by (auto simp: stat_field_def intro: same_links_trans)

lemma parse_stat_links: "same_links (parse_stat t n) n"
  unfolding parse_stat_def Let_def
  by (intro stat_field_links same_links_refl) (simp_all add: same_links_def)

lemmas sscanf_handlers = handle_futex_def handle_io_wait_def handle_io_def handle_schedstat_def
  handle_vmdetail_def handle_connect_def handle_nanosleep_def handle_wait_def handle_poll_def

lemma sscanf_handler_refines:
  assumes "refines s sp"
  shows "refines (handle_futex pid t s) sp" "refines (handle_io_wait pid t s) sp"
    "refines (handle_io pid t s) sp" "refines (handle_schedstat pid t s) sp"
    "refines (handle_vmdetail pid t s) sp" "refines (handle_connect pid t s) sp"
    "refines (handle_nanosleep pid t s) sp" "refines (handle_wait pid t s) sp"
    "refines (handle_poll pid t s) sp"
  unfolding sscanf_handlers
  by (rule on_pid_refines [OF assms sscanf_links], simp add: keeps_links_def same_links_def)+

lemma text_handler_refines:
  assumes "refines s sp"
  shows "refines (handle_comm pid t s) sp" "refines (handle_cmdline pid t s) sp" "refines (handle_exec pid t s) sp"
  unfolding handle_comm_def handle_cmdline_def handle_exec_def
  by (rule on_pid_refines [OF assms], simp add: same_links_def)+

lemma target_handler_refines:
  assumes "refines s sp"
  shows "refines (handle_targetcounter pid t s) sp" "refines (handle_targetsample pid t s) sp"
    "refines (handle_targetsamplelost pid t s) sp" "refines (handle_targetmap pid t s) sp"
  unfolding handle_targetcounter_def handle_targetsample_def handle_targetsamplelost_def handle_targetmap_def Let_def
  by (auto split: option.splits intro!: on_pid_refines [OF assms] simp: assms same_links_def)

lemmas reading_refines = sscanf_handler_refines text_handler_refines target_handler_refines

lemma handle_exit_refines:
  assumes "refines s sp"
  shows "refines (handle_exit elapsed pid t s) (spec_step (Exit pid) sp)"
proof (cases "table_find (st_table s) pid")
  case None
  with assms have "(sp_live sp)(pid := None) = sp_live sp"
    by (auto simp: refines_def implements_def)
  then have "spec_step (Exit pid) sp = sp" by simp
  with None assms show ?thesis by (simp add: handle_exit_def lookup_pid_found)
next
  case (Some a)
  let ?f = "\<lambda>n. parse_stat t (n\<lparr>pi_finish := elapsed\<rparr>)"
  let ?s = "s\<lparr>st_heap := set_node a ?f (st_heap s)\<rparr>"
  have "a < length (st_heap s)" using Some assms by (auto simp: refines_def implements_def)
  moreover have "same_links (?f n) n" for n
    using parse_stat_links by (rule same_links_trans) (simp add: same_links_def)
  ultimately have r: "refines ?s sp" using set_node_refines [of s sp a ?f] assms by blast
  then have ok: "table_ok (st_table s)" and live: "table_find (st_table s) = sp_live sp"
    by (simp_all add: refines_def implements_def)
  have "table_find (table_unlink pid (st_table s)) = (sp_live sp)(pid := None)"
    by (rule ext) (simp add: table_find_unlink [OF ok] live)
  moreover have "Suc (table_size (table_unlink pid (st_table s))) = table_size (st_table s)"
    using table_size_unlink [OF ok] Some by simp
  moreover have "handle_exit elapsed pid t s =
      ?s\<lparr>st_table := table_unlink pid (st_table s), st_num_processes := st_num_processes s - 1\<rparr>"
    using Some by (simp add: handle_exit_def lookup_pid_found remove_pid_def)
  ultimately show ?thesis
    using r table_unlink_ok [OF ok] by (auto simp: refines_def implements_def counts_ok_def)
qed

lemma handle_root_refines:
  assumes "refines s sp"
  shows "refines (handle_root pid s) (spec_step (Root pid) sp)"
proof -
  obtain e s' where l: "lookup_pid pid True s = (e, s')" by fastforce
  from lookup_pid_refines [OF assms l] show ?thesis
    by (auto simp: handle_root_def l refines_def implements_def counts_ok_def)
qed

lemma handle_fork_refines:
  assumes "refines s sp"
  shows "refines (handle_fork elapsed pid t s) (spec_step (Fork pid (atoi t)) sp)"
proof -
  obtain e1 s1 where l1: "lookup_pid (atoi t) True s = (e1, s1)" by fastforce
  obtain e2 s2 where l2: "lookup_pid pid True s1 = (e2, s2)" by fastforce
  obtain c sp1 where 1: "instance_of (atoi t) sp = (c, sp1)" "e1 = Some c" "refines s1 sp1" "c < sp_made sp1"
    using lookup_pid_refines [OF assms l1] by blast
  obtain p sp2 where 2: "instance_of pid sp1 = (p, sp2)" "e2 = Some p" "refines s2 sp2" "p < sp_made sp2"
    "sp_made sp1 \<le> sp_made sp2"
    using lookup_pid_refines [OF 1(3) l2] by blast
  let ?h = "set_node c (\<lambda>n. n\<lparr>pi_start := elapsed\<rparr>) (st_heap s2)"
  have cp: "c < length (st_heap s2)" "p < length (st_heap s2)"
    using 1 2 by (simp_all add: refines_def implements_def)
  then have r: "refines (s2\<lparr>st_heap := ?h\<rparr>) sp2"
    using 2(3) by (intro set_node_refines) (simp_all add: same_links_def)
  then have links: "links_ok ?h (sp_edges sp2)" by (simp add: refines_def implements_def)
  then have par: "pi_parent (?h ! c) = parent_of (sp_edges sp2) c" using cp by (simp add: links_ok_def)
  show ?thesis
  proof (cases "c \<in> snd ` set (sp_edges sp2)")
    case True
    with par have "pi_parent (?h ! c) \<noteq> None" by (metis parent_of_None)
    with r True show ?thesis by (simp add: handle_fork_def l1 l2 1 2)
  next
    case False
    have "pi_pid (link_child p c ?h ! a) = pi_pid (?h ! a)" if "a < length ?h" for a
      using cp that links_children_bound [OF links] by (intro link_child_pid) simp_all
    then have "refines (s2\<lparr>st_heap := link_child p c ?h\<rparr>) (sp2\<lparr>sp_edges := sp_edges sp2 @ [(p, c)]\<rparr>)"
      using r link_child_links [OF links _ _ False, of p] cp
      by (auto simp: refines_def implements_def counts_ok_def)
    with False par show ?thesis
      by (simp add: handle_fork_def l1 l2 1 2 parent_of_None [THEN iffD2])
  qed
qed

lemma event_arg_text:
  assumes "event_arg (Suc (Suc (Suc (Suc 0)))) p = Some r"
  shows "atoi r = atoi (drop 5 (event_text p))"
proof -
  have a: "event_arg 4 p = Some r" using assms by (simp add: numeral_eq_Suc)
  show ?thesis
  proof (cases "4 < length (event_text p)")
    case True
    then show ?thesis using a by (simp add: event_arg_def)
  next
    case False
    then have "r = []" using a by (auto simp: event_arg_def split: if_splits)
    then show ?thesis using False by simp
  qed
qed

lemma starts_with_take: "starts_with k t \<Longrightarrow> take n t = take n (k @ drop (length k) t)"
  by (metis append_take_drop_id starts_with_def)

lemma exit_first:
  assumes "starts_with ''exit'' t"
  shows "\<not> starts_with ''fork'' t" "\<not> starts_with ''root'' t" "\<not> starts_with ''comm'' t"
    "\<not> starts_with ''cmdline'' t" "\<not> starts_with ''exec'' t" "\<not> starts_with ''unknown'' t"
    "\<not> starts_with ''signal'' t" "\<not> starts_with ''futex'' t" "\<not> starts_with ''io_wait'' t"
    "\<not> starts_with ''io'' t" "\<not> starts_with ''schedstat'' t" "\<not> starts_with ''vmsize'' t"
    "\<not> starts_with ''connect'' t" "\<not> starts_with ''nanosleep'' t" "\<not> starts_with ''wait'' t"
    "\<not> starts_with ''poll'' t" "\<not> starts_with ''targetcounter'' t" "\<not> starts_with ''targetsamplelost'' t"
    "\<not> starts_with ''targetsample'' t" "\<not> starts_with ''targetmap'' t"
proof -
  from assms obtain u where t: "t = CHR ''e'' # CHR ''x'' # CHR ''i'' # CHR ''t'' # u"
    by (auto simp: starts_with_def) (metis append_Cons append_Nil append_take_drop_id)
  show "\<not> starts_with ''fork'' t" "\<not> starts_with ''root'' t" "\<not> starts_with ''comm'' t"
    "\<not> starts_with ''cmdline'' t" "\<not> starts_with ''exec'' t" "\<not> starts_with ''unknown'' t"
    "\<not> starts_with ''signal'' t" "\<not> starts_with ''futex'' t" "\<not> starts_with ''io_wait'' t"
    "\<not> starts_with ''io'' t" "\<not> starts_with ''schedstat'' t" "\<not> starts_with ''vmsize'' t"
    "\<not> starts_with ''connect'' t" "\<not> starts_with ''nanosleep'' t" "\<not> starts_with ''wait'' t"
    "\<not> starts_with ''poll'' t" "\<not> starts_with ''targetcounter'' t" "\<not> starts_with ''targetsamplelost'' t"
    "\<not> starts_with ''targetsample'' t" "\<not> starts_with ''targetmap'' t"
    by (simp_all add: t)
qed

lemma exited_exit: "starts_with ''exited'' t \<Longrightarrow> starts_with ''exit'' t"
proof -
  assume "starts_with ''exited'' t"
  then obtain u where "t = ''exited'' @ u" unfolding starts_with_def by (metis append_take_drop_id)
  then show ?thesis by simp
qed

lemma handle_event_reading:
  assumes "refines s sp" and "handle_event elapsed pid p s = Some s'"
    and "\<not> starts_with ''fork'' (event_text p)" "\<not> starts_with ''root'' (event_text p)"
    and "\<not> starts_with ''exit'' (event_text p)"
  shows "refines s' sp"
  using assms(2-5) unfolding handle_event_def Let_def
  using assms(1) by (auto split: if_split_asm simp: reading_refines)

lemma parse_line_refines:
  assumes "refines s sp" and "parse_line l s = Some s'"
  shows "refines s' (spec_step (line_event l) sp)"
proof (cases "line_head l")
  case None
  with assms show ?thesis by (simp add: parse_line_def line_event_def)
next
  case (Some x)
  obtain elapsed pid p where x: "x = (elapsed, pid, p)" by (cases x)
  obtain t where t: "t = event_text p" by blast
  from assms(2) have h: "handle_event elapsed pid p s = Some s'" by (simp add: parse_line_def Some x)
  have ev: "line_event l = (if starts_with ''fork'' t then Fork pid (atoi (drop 5 t))
      else if starts_with ''root'' t then Root pid else if starts_with ''exited'' t then Reading
      else if starts_with ''exit'' t then Exit pid else Reading)"
    by (simp add: line_event_def Some x t)
  consider "starts_with ''fork'' t" | "\<not> starts_with ''fork'' t" "starts_with ''root'' t"
    | "starts_with ''exited'' t" | "\<not> starts_with ''exited'' t" "starts_with ''exit'' t"
    | "\<not> starts_with ''fork'' t" "\<not> starts_with ''root'' t" "\<not> starts_with ''exit'' t"
    by blast
  then show ?thesis
  proof cases
    case 1
    then obtain r where r: "event_arg (Suc (Suc (Suc (Suc 0)))) p = Some r" "s' = handle_fork elapsed pid r s"
      using h by (auto simp: handle_event_def t)
    then show ?thesis
      using handle_fork_refines [OF assms(1), of elapsed pid r] 1 event_arg_text [OF r(1)] by (simp add: ev t)
  next
    case 2
    then have "s' = handle_root pid s" using h by (simp add: handle_event_def t)
    then show ?thesis using handle_root_refines [OF assms(1)] 2 by (simp add: ev)
  next
    case 3
    note e = exit_first [OF exited_exit [OF 3]]
    have "s' = s" using h 3 e by (simp add: handle_event_def t)
    then show ?thesis using assms(1) 3 e by (simp add: ev)
  next
    case 4
    note e = exit_first [OF 4(2)]
    obtain r where "s' = handle_exit elapsed pid r s"
      using h 4 e by (auto simp: handle_event_def t)
    then show ?thesis using handle_exit_refines [OF assms(1)] 4 e by (simp add: ev)
  next
    case 5
    moreover from 5 have "\<not> starts_with ''exited'' t" using exited_exit by blast
    ultimately show ?thesis
      using handle_event_reading [OF assms(1) h] by (simp add: ev t)
  qed
qed

lemma parse_lines_refines:
  "refines s sp \<Longrightarrow> parse_lines ls s = Some s' \<Longrightarrow> refines s' (fold spec_step (map line_event ls) sp)"
proof (induction ls arbitrary: s sp)
  case (Cons l ls)
  from Cons.prems(2) obtain s1 where "parse_line l s = Some s1" "parse_lines ls s1 = Some s'"
    by (auto split: option.splits)
  with Cons.IH [OF parse_line_refines [OF Cons.prems(1)]] show ?case by simp
qed simp

section \<open>Complete lines\<close>

text \<open>A line as \<open>fgets\<close> returns it when the file ends in a newline, has no zero bytes and no longer lines.\<close>

definition complete_line :: "string \<Rightarrow> bool" where
  "complete_line l \<longleftrightarrow> no_nul l \<and> l \<noteq> [] \<and> last l = LF"

lemma line_head_newline:
  assumes "complete_line l" and "line_head l = Some (elapsed, pid, p)"
  shows "LF \<in> set p"
proof -
  from assms(2) obtain t r q where "split_at (CHR '' '') l = Some (t, r)" "split_at (CHR '' '') r = Some (q, p)"
    by (auto simp: line_head_def split: option.splits prod.splits if_splits)
  then have l: "l = t @ CHR '' '' # q @ CHR '' '' # p"
    using split_at_Some by fastforce
  have "p \<noteq> []"
  proof
    assume "p = []"
    with l have "last l = CHR '' ''" by simp
    with assms(1) show False by (simp add: complete_line_def LF_def)
  qed
  moreover from this l assms(1) have "last p = LF" by (simp add: complete_line_def)
  ultimately show ?thesis by (metis last_in_set)
qed

lemma if_not_None: "(c \<Longrightarrow> a \<noteq> None) \<Longrightarrow> (\<not> c \<Longrightarrow> b \<noteq> None) \<Longrightarrow> (if c then a else b) \<noteq> None"
  by simp

lemma parse_line_returns:
  assumes "complete_line l"
  shows "parse_line l s \<noteq> None"
proof (cases "line_head l")
  case (Some x)
  obtain elapsed pid p where x: "x = (elapsed, pid, p)" by (cases x)
  have arg: "event_arg k p \<noteq> None" for k
    using line_head_newline [OF assms] Some x by (simp add: event_arg_def)
  have "handle_event elapsed pid p s \<noteq> None"
    unfolding handle_event_def Let_def
    by (intro if_not_None) (simp_all only: arg option.map_disc_iff option.simps not_False_eq_True)
  then show ?thesis by (simp add: parse_line_def Some x)
qed (simp add: parse_line_def)

lemma parse_lines_return: "\<forall>l \<in> set ls. complete_line l \<Longrightarrow> parse_lines (map cstr ls) s \<noteq> None"
proof (induction ls arbitrary: s)
  case (Cons l ls)
  then have "cstr l = l" by (simp add: complete_line_def)
  moreover obtain s1 where "parse_line l s = Some s1"
    using parse_line_returns [of l s] Cons.prems by auto
  ultimately show ?case using Cons by simp
qed simp

lemma parse_file_returns: "\<forall>l \<in> set (file_lines bs). complete_line l \<Longrightarrow> \<exists>s. parse_file bs = Some s"
  using parse_lines_return [of "file_lines bs" proctree_initial] by (auto simp: parse_file_def)

lemma fgets_numeral [simp]:
  "fgets (numeral k) (c # s) =
     (if c = LF then ([c], s) else let (l, r) = fgets (pred_numeral k) s in (c # l, r))"
  by (subst numeral_eq_Suc) (rule fgets.simps(3))

section \<open>Properties\<close>

definition spec_of_file :: "string \<Rightarrow> proc_spec" where
  "spec_of_file bs = fold spec_step (map (\<lambda>l. line_event (cstr l)) (file_lines bs)) spec_initial"

lemma parse_file_refines_spec: "parse_file bs = Some s \<Longrightarrow> refines s (spec_of_file bs)"
  using parse_lines_refines [OF initial_refines] by (fastforce simp: parse_file_def spec_of_file_def comp_def)

text \<open>A trace of two processes, used by the witnesses.\<close>

definition sample_trace :: string where
  "sample_trace = ''0 5 root'' @ newline @ ''0 5 fork 6'' @ newline"

lemma sample_lines: "file_lines sample_trace = [''0 5 root'' @ newline, ''0 5 fork 6'' @ newline]"
  by (simp add: sample_trace_def newline_def file_lines.simps LINE_MAX_def LF_def Let_def)

lemma sample_returns: "\<exists>s. parse_file sample_trace = Some s"
  by (rule parse_file_returns) (simp add: sample_lines complete_line_def newline_def LF_def NUL_def)

lemma one_digit:
  assumes "d < 10"
  shows "strtod [digit_char d] = Some (double_of_int (int d), [])" and "atoi [digit_char d] = of_nat d"
proof -
  have "dec d = [digit_char d]" using assms by (simp add: dec_def digits_in.simps)
  then show "strtod [digit_char d] = Some (double_of_int (int d), [])" "atoi [digit_char d] = of_nat d"
    using strtod_dec [of "[]" d] atoi_dec [of "[]" d] assms by (simp_all add: number_end_def)
qed

lemma digit_text:
  "strtod ''0'' = Some (double_of_int 0, [])" "atoi ''5'' = 5" "atoi ''6'' = 6"
proof -
  have "''0'' = [digit_char 0]" "''5'' = [digit_char 5]" "''6'' = [digit_char 6]"
    by (simp_all add: digit_char_def char_of_def bit_iff_odd)
  then show "strtod ''0'' = Some (double_of_int 0, [])" "atoi ''5'' = 5" "atoi ''6'' = 6"
    using one_digit(1) [of 0] one_digit(2) [of 5] one_digit(2) [of 6] by simp_all
qed

lemma sample_events:
  "map (\<lambda>l. line_event (cstr l)) (file_lines sample_trace) = [Root 5, Fork 5 6]"
  by (simp add: sample_lines newline_def line_event_def line_head_def cstr_def NUL_def digit_text event_text_def
      LF_def Let_def)

lemma sample_spec:
  "spec_of_file sample_trace =
     \<lparr>sp_live = [5 \<mapsto> 0, 6 \<mapsto> 1], sp_made = 2, sp_edges = [(0, 1)], sp_root = Some 0\<rparr>"
  by (simp add: spec_of_file_def sample_events spec_initial_def instance_of_def)

text \<open>C14: the parser implements the abstract machine: on any file the hash table finds exactly the running
  instance of each process id, every instance found carries its id, the root is the one of the last root
  line, and walking the sibling pointers of any process, in either direction, meets exactly the children
  its fork lines gave it, in the order of those lines.\<close>
theorem parse_file_implements:
  assumes "parse_file bs = Some s"
  shows "table_find (st_table s) = sp_live (spec_of_file bs) \<and>
    (\<forall>pid a. table_find (st_table s) pid = Some a \<longrightarrow> pi_pid (st_heap s ! a) = pid) \<and>
    st_root s = sp_root (spec_of_file bs) \<and> length (st_heap s) = sp_made (spec_of_file bs) \<and>
    (\<forall>a < length (st_heap s).
       pi_parent (st_heap s ! a) = parent_of (sp_edges (spec_of_file bs)) a \<and>
       eldest_first (length (st_heap s)) (st_heap s) a = Some (kids (sp_edges (spec_of_file bs)) a) \<and>
       youngest_first (length (st_heap s)) (st_heap s) a = Some (rev (kids (sp_edges (spec_of_file bs)) a)))"
proof -
  have i: "implements s (spec_of_file bs)"
    using parse_file_refines_spec [OF assms] by (simp add: refines_def)
  then have l: "links_ok (st_heap s) (sp_edges (spec_of_file bs))" by (simp add: implements_def)
  from i show ?thesis
    using sibling_walks [OF l _ order_refl] l by (simp add: implements_def links_ok_def)
qed

lemma parse_file_implements_witness:
  "\<exists>s. parse_file sample_trace = Some s \<and> table_find (st_table s) = sp_live (spec_of_file sample_trace)"
  using sample_returns parse_file_implements by blast

text \<open>The process counts are right: \<open>num_processes\<close> is the number of process ids in the table,
  \<open>total_processes\<close> the number of instances ever made, and the maximum lies between them.\<close>
theorem parse_file_counts:
  assumes "parse_file bs = Some s"
  shows "st_num_processes s = int (card (dom (sp_live (spec_of_file bs)))) \<and>
    st_total_processes s = int (sp_made (spec_of_file bs)) \<and>
    st_num_processes s \<le> st_max_num_processes s \<and> st_max_num_processes s \<le> st_total_processes s \<and>
    table_ok (st_table s)"
proof -
  have r: "implements s (spec_of_file bs)" "counts_ok s"
    using parse_file_refines_spec [OF assms] by (simp_all add: refines_def)
  then have "table_ok (st_table s)" "table_find (st_table s) = sp_live (spec_of_file bs)"
    by (simp_all add: implements_def)
  with r table_size_card [of "st_table s"] show ?thesis by (simp add: implements_def counts_ok_def)
qed

lemma parse_file_counts_witness:
  "\<exists>s. parse_file sample_trace = Some s \<and> st_num_processes s \<le> st_total_processes s"
  using sample_returns parse_file_counts by (metis order_trans)

text \<open>C35: a file of complete lines (no zero bytes, the last one terminated, none longer than the buffer) is
  parsed to the end without reading past a line, whatever the lines say.\<close>
theorem parse_file_complete:
  assumes "\<forall>l \<in> set (file_lines bs). complete_line l"
  shows "\<exists>s. parse_file bs = Some s"
  using assms by (rule parse_file_returns)

lemma parse_file_complete_witness: "\<exists>s. parse_file (''garbage fork'' @ newline) = Some s"
  by (rule parse_file_complete)
    (simp add: file_lines.simps newline_def LINE_MAX_def LF_def NUL_def Let_def complete_line_def)

end
