(* ===== verification/Proc_Walk.thy ===== *)
theory Proc_Walk
  imports Proc_Refine "HOL-Library.Multiset"
begin

text \<open>
  The process tree as a tree: when the fork edges have no cycle every recursive walk of src/proctree.c from
  a process ends, and meets each of its descendants exactly once. The walks themselves are in the
  theories of the totals and of the printers; here is what they have in common.
\<close>

section \<open>Trees\<close>

datatype ptree = PNode nat "ptree list"

fun tree_root :: "ptree \<Rightarrow> nat" where
  "tree_root (PNode a ts) = a"

text \<open>Preorder with the eldest child first, and with the youngest first.\<close>

fun tree_nodes :: "ptree \<Rightarrow> nat list" where
  "tree_nodes (PNode a ts) = a # concat (map tree_nodes ts)"

fun tree_nodes_rev :: "ptree \<Rightarrow> nat list" where
  "tree_nodes_rev (PNode a ts) = a # concat (map tree_nodes_rev (rev ts))"

fun all_Some :: "'a option list \<Rightarrow> 'a list option" where
  "all_Some [] = Some []"
| "all_Some (x # xs) =
     (case x of None \<Rightarrow> None
      | Some y \<Rightarrow> (case all_Some xs of None \<Rightarrow> None | Some ys \<Rightarrow> Some (y # ys)))"

lemma all_Some_map: "\<forall>x \<in> set xs. f x = Some (g x) \<Longrightarrow> all_Some (map f xs) = Some (map g xs)"
  by (induction xs) auto

lemma all_Some_length: "all_Some xs = Some ys \<Longrightarrow> length ys = length xs"
  by (induction xs arbitrary: ys) (auto split: option.splits)

lemma all_Some_Some [simp]: "all_Some (map Some ys) = Some ys"
  by (induction ys) auto

lemma all_Some_iff: "all_Some xs = Some ys \<longleftrightarrow> xs = map Some ys"
  by (induction xs arbitrary: ys) (auto split: option.splits simp: Cons_eq_map_conv)

text \<open>The tree below a process, if it is at most \<open>f\<close> processes deep.\<close>

fun proc_tree :: "nat \<Rightarrow> (nat \<times> nat) list \<Rightarrow> nat \<Rightarrow> ptree option" where
  "proc_tree 0 es a = None"
| "proc_tree (Suc f) es a = map_option (PNode a) (all_Some (map (proc_tree f es) (kids es a)))"

lemma proc_tree_SucE:
  assumes "proc_tree f es a = Some t"
  obtains g ts where "f = Suc g" "t = PNode a ts" "map (proc_tree g es) (kids es a) = map Some ts"
  using assms by (cases f) (auto simp: all_Some_iff)

lemma proc_tree_root: "proc_tree f es a = Some t \<Longrightarrow> tree_root t = a"
  by (erule proc_tree_SucE) simp

section \<open>Descendants\<close>

definition below :: "(nat \<times> nat) list \<Rightarrow> nat \<Rightarrow> nat set" where
  "below es a = {b. (a, b) \<in> (set es)\<^sup>*}"

definition forest :: "nat \<Rightarrow> (nat \<times> nat) list \<Rightarrow> bool" where
  "forest n es \<longleftrightarrow> edges_ok n es \<and> acyclic (set es)"

lemma below_self [simp]: "a \<in> below es a"
  by (simp add: below_def)

lemma below_step: "below es a = insert a (\<Union>k \<in> set (kids es a). below es k)"
  by (auto simp: below_def in_kids elim: converse_rtranclE intro: converse_rtrancl_into_rtrancl)

lemma below_bound: "edges_ok n es \<Longrightarrow> a < n \<Longrightarrow> below es a \<subseteq> {..<n}"
proof
  fix b assume e: "edges_ok n es" and a: "a < n" and "b \<in> below es a"
  then have "(a, b) \<in> (set es)\<^sup>*" by (simp add: below_def)
  then show "b \<in> {..<n}"
    using a e by (induction rule: rtrancl_induct) (auto simp: edges_ok_def)
qed

lemma below_kid:
  assumes "forest n es" and "a < n" and "k \<in> set (kids es a)"
  shows "below es k \<subset> below es a" and "k < n"
proof -
  have e: "(a, k) \<in> set es" using assms(3) by (simp add: in_kids)
  have "below es k \<subseteq> below es a" using below_step [of es a] assms(3) by blast
  moreover have "a \<notin> below es k"
  proof
    assume "a \<in> below es k"
    then have "(a, a) \<in> (set es)\<^sup>+" using e by (auto simp: below_def)
    with assms(1) show False by (simp add: forest_def acyclic_def)
  qed
  ultimately show "below es k \<subset> below es a" by auto
  show "k < n" using assms(1,3) kids_bound [of n es k a] by (simp add: forest_def)
qed

lemma proc_tree_returns:
  assumes "forest n es" and "a < n" and "card (below es a) \<le> f"
  shows "\<exists>t. proc_tree f es a = Some t"
  using assms(2,3)
proof (induction f arbitrary: a)
  case 0
  have "finite (below es a)"
    using below_bound [of n es a] assms(1) 0 finite_subset by (auto simp: forest_def)
  with 0 have "below es a = {}" by simp
  then show ?case using below_self [of a es] by blast
next
  case (Suc f)
  have fin: "finite (below es a)"
    using below_bound [of n es a] assms(1) Suc.prems finite_subset by (auto simp: forest_def)
  have "\<exists>t. proc_tree f es k = Some t" if "k \<in> set (kids es a)" for k
  proof (rule Suc.IH)
    note k = below_kid [OF assms(1) Suc.prems(1) that]
    show "k < n" by (rule k(2))
    show "card (below es k) \<le> f" using psubset_card_mono [OF fin k(1)] Suc.prems(2) by simp
  qed
  then have "\<forall>k \<in> set (kids es a). proc_tree f es k = Some (the (proc_tree f es k))"
    by (metis option.sel)
  from all_Some_map [OF this] show ?case by simp
qed

lemma forest_tree:
  assumes "forest n es" and "a < n"
  shows "\<exists>t. proc_tree n es a = Some t"
proof (rule proc_tree_returns [OF assms])
  show "card (below es a) \<le> n"
    using card_mono [OF finite_lessThan below_bound [of n es a]] assms by (simp add: forest_def)
qed

lemma proc_tree_below: "proc_tree f es a = Some t \<Longrightarrow> set (tree_nodes t) = below es a"
proof (induction f arbitrary: a t)
  case (Suc f)
  then obtain ts where t: "t = PNode a ts" "map (proc_tree f es) (kids es a) = map Some ts"
    by (auto simp: all_Some_iff)
  then have "list_all2 (\<lambda>k s. proc_tree f es k = Some s) (kids es a) ts"
    by (simp add: list_all2_conv_all_nth) (metis length_map nth_map)
  then have "list_all2 (\<lambda>k s. set (tree_nodes s) = below es k) (kids es a) ts"
    using Suc.IH by (auto elim: list_all2_mono)
  then have "map (\<lambda>s. set (tree_nodes s)) ts = map (below es) (kids es a)"
    by (induction rule: list_all2_induct) auto
  then have "(\<Union>s \<in> set ts. set (tree_nodes s)) = (\<Union>k \<in> set (kids es a). below es k)"
    by (metis set_map image_image)
  then show ?case using below_step [of es a] t(1) by auto
qed simp

text \<open>Two children of one process have no descendant in common.\<close>

lemma parent_unique: "edges_ok n es \<Longrightarrow> (p, c) \<in> set es \<Longrightarrow> (q, c) \<in> set es \<Longrightarrow> p = q"
  using parent_of_Some [of es c] by (metis edges_ok_def option.inject)

lemma ancestors_chain:
  assumes "edges_ok n es" and "(a, x) \<in> (set es)\<^sup>*" and "(b, x) \<in> (set es)\<^sup>*"
  shows "(a, b) \<in> (set es)\<^sup>* \<or> (b, a) \<in> (set es)\<^sup>*"
  using assms(2,3)
proof (induction arbitrary: b rule: rtrancl_induct)
  case (step y z)
  from step.prems show ?case
  proof (cases rule: rtranclE)
    case base
    with step.hyps show ?thesis by (meson rtrancl.rtrancl_into_rtrancl)
  next
    case (step w)
    with \<open>(y, z) \<in> set es\<close> have "w = y" using parent_unique [OF assms(1)] by blast
    with step(1) \<open>\<And>b. (b, y) \<in> (set es)\<^sup>* \<Longrightarrow> _\<close> show ?thesis by blast
  qed
qed blast

lemma below_disjoint:
  assumes "forest n es" and "k \<in> set (kids es a)" and "l \<in> set (kids es a)" and "k \<noteq> l"
  shows "below es k \<inter> below es l = {}"
proof (rule ccontr)
  have e: "edges_ok n es" using assms(1) by (simp add: forest_def)
  have ak: "(a, k) \<in> set es" "(a, l) \<in> set es" using assms(2,3) by (simp_all add: in_kids)
  assume "below es k \<inter> below es l \<noteq> {}"
  then obtain x where "(k, x) \<in> (set es)\<^sup>*" "(l, x) \<in> (set es)\<^sup>*" by (auto simp: below_def)
  then have "(k, l) \<in> (set es)\<^sup>* \<or> (l, k) \<in> (set es)\<^sup>*" by (rule ancestors_chain [OF e])
  moreover have False if "(u, v) \<in> (set es)\<^sup>*" "u \<noteq> v" "(a, u) \<in> set es" "(a, v) \<in> set es" for u v
  proof -
    from that(1,2) obtain w where w: "(u, w) \<in> (set es)\<^sup>*" "(w, v) \<in> set es" by (meson rtranclE)
    with that(4) have "w = a" using parent_unique [OF e] by blast
    with w(1) that(3) have "(a, a) \<in> (set es)\<^sup>+" by auto
    with assms(1) show False by (simp add: forest_def acyclic_def)
  qed
  ultimately show False using ak assms(4) by blast
qed

lemma proc_tree_distinct:
  assumes "forest n es"
  shows "proc_tree f es a = Some t \<Longrightarrow> a < n \<Longrightarrow> distinct (tree_nodes t)"
proof (induction f arbitrary: a t)
  case (Suc f)
  then obtain ts where t: "t = PNode a ts" and m: "map (proc_tree f es) (kids es a) = map Some ts"
    by (auto simp: all_Some_iff)
  from m have len: "length ts = length (kids es a)" by (metis length_map)
  have nth: "proc_tree f es (kids es a ! i) = Some (ts ! i)" if "i < length ts" for i
    using that m len by (metis nth_map)
  have kid: "kids es a ! i \<in> set (kids es a)" if "i < length ts" for i using that len by simp
  have ns: "set (tree_nodes (ts ! i)) = below es (kids es a ! i)" if "i < length ts" for i
    using proc_tree_below [OF nth [OF that]] .
  have d: "distinct (tree_nodes (ts ! i))" if "i < length ts" for i
    using Suc.IH [OF nth [OF that]] below_kid(2) [OF assms Suc.prems(2) kid [OF that]] by simp
  have dk: "distinct (kids es a)" using assms kids_distinct by (simp add: forest_def edges_ok_def)
  have disj: "set (tree_nodes (ts ! i)) \<inter> set (tree_nodes (ts ! j)) = {}"
    if "i < length ts" "j < length ts" "i \<noteq> j" for i j
    using below_disjoint [OF assms kid [OF that(1)] kid [OF that(2)]] ns that dk len
    by (simp add: nth_eq_iff_index_eq)
  have ne: "tree_nodes s \<noteq> []" for s by (cases s) simp
  have "distinct (concat (map tree_nodes ts))"
    unfolding distinct_concat_iff
  proof (intro conjI allI impI ballI)
    show "distinct (removeAll [] (map tree_nodes ts))"
    proof -
      have "removeAll [] (map tree_nodes ts) = map tree_nodes ts"
        using ne by (intro removeAll_id) (metis imageE set_map)
      moreover have "distinct (map tree_nodes ts)"
        unfolding distinct_conv_nth using disj ne by (auto) (metis Int_absorb set_empty)
      ultimately show ?thesis by simp
    qed
  next
    fix ys assume "ys \<in> set (map tree_nodes ts)"
    then show "distinct ys" using d by (auto simp: in_set_conv_nth)
  next
    fix ys zs assume "ys \<in> set (map tree_nodes ts) \<and> zs \<in> set (map tree_nodes ts) \<and> ys \<noteq> zs"
    then obtain i j where "i < length ts" "j < length ts" "ys = tree_nodes (ts ! i)" "zs = tree_nodes (ts ! j)"
      "tree_nodes (ts ! i) \<noteq> tree_nodes (ts ! j)" by (auto simp: in_set_conv_nth)
    then show "set ys \<inter> set zs = {}" using disj [of i j] by auto
  qed
  moreover have "a \<notin> set (concat (map tree_nodes ts))"
  proof
    assume "a \<in> set (concat (map tree_nodes ts))"
    then obtain u where u: "u \<in> set ts" "a \<in> set (tree_nodes u)" by auto
    then obtain i where i: "i < length ts" "u = ts ! i" by (metis in_set_conv_nth)
    with u ns have "(kids es a ! i, a) \<in> (set es)\<^sup>*" by (simp add: below_def)
    moreover have "(a, kids es a ! i) \<in> set es" using kid [OF i(1)] by (simp add: in_kids)
    ultimately have "(a, a) \<in> (set es)\<^sup>+" by (meson rtrancl_into_trancl2)
    with assms show False by (simp add: forest_def acyclic_def)
  qed
  ultimately show ?case by (simp add: t)
qed simp

lemma tree_nodes_rev_mset: "mset (tree_nodes_rev t) = mset (tree_nodes t)"
proof (induction t)
  case (PNode a ts)
  have "mset (concat (map tree_nodes_rev (rev ts))) = mset (concat (map tree_nodes_rev ts))"
    by (induction ts) (auto simp: ac_simps)
  also have "\<dots> = mset (concat (map tree_nodes ts))"
    using PNode by (induction ts) auto
  finally show ?case by simp
qed

section \<open>Traces without cycles\<close>

text \<open>
  The traces wspy writes: a fork line names a child that is not running yet. Without this a malformed file
  can close a cycle (\<open>0 5 fork 5\<close> makes a process its own parent) and the walks do not end.
\<close>

fun fresh_forks :: "tree_event list \<Rightarrow> proc_spec \<Rightarrow> bool" where
  "fresh_forks [] sp \<longleftrightarrow> True"
| "fresh_forks (ev # evs) sp \<longleftrightarrow>
     (case ev of Fork pid child \<Rightarrow> sp_live sp child = None \<and> pid \<noteq> child | _ \<Rightarrow> True) \<and>
     fresh_forks evs (spec_step ev sp)"

definition spec_forest :: "proc_spec \<Rightarrow> bool" where
  "spec_forest sp \<longleftrightarrow> forest (sp_made sp) (sp_edges sp) \<and> (\<forall>pid a. sp_live sp pid = Some a \<longrightarrow> a < sp_made sp)"

lemma edges_ok_mono: "edges_ok n es \<Longrightarrow> n \<le> m \<Longrightarrow> edges_ok m es"
  by (fastforce simp: edges_ok_def)

lemma instance_forest:
  assumes "spec_forest sp" and "instance_of pid sp = (a, sp')"
  shows "spec_forest sp' \<and> a < sp_made sp' \<and> sp_edges sp' = sp_edges sp \<and> sp_made sp \<le> sp_made sp' \<and>
    sp_live sp' = (sp_live sp)(pid \<mapsto> a) \<and> (sp_live sp pid = None \<longrightarrow> a = sp_made sp)"
  using assms edges_ok_mono [of "sp_made sp" "sp_edges sp" "Suc (sp_made sp)"]
  by (auto simp: instance_of_def spec_forest_def forest_def less_Suc_eq split: option.splits if_split_asm)

lemma forest_add:
  assumes "forest n es" and "m \<le> c" "n \<le> m'" "c < m'" "p < m'" "c \<noteq> p" and "edges_ok m es"
  shows "forest m' (es @ [(p, c)])"
proof -
  have fresh: "(c, b) \<notin> set es" "(b, c) \<notin> set es" for b using assms(2,7) by (auto simp: edges_ok_def)
  then have "(c, p) \<notin> (set es)\<^sup>*" using assms(6) by (auto elim: converse_rtranclE)
  then have "acyclic (insert (p, c) (set es))" using assms(1) by (simp add: forest_def)
  moreover have "edges_ok m' (es @ [(p, c)])"
    using edges_ok_mono [of n es m'] assms fresh by (auto simp: forest_def edges_ok_def)
  ultimately show ?thesis by (simp add: forest_def)
qed

lemma spec_step_forest:
  assumes "spec_forest sp" and "fresh_forks [ev] sp"
  shows "spec_forest (spec_step ev sp)"
proof (cases ev)
  case (Fork pid child)
  obtain c sp1 where 1: "instance_of child sp = (c, sp1)" by fastforce
  obtain p sp2 where 2: "instance_of pid sp1 = (p, sp2)" by fastforce
  note f1 = instance_forest [OF assms(1) 1]
  note f2 = instance_forest [OF conjunct1 [OF f1] 2]
  have fresh: "sp_live sp child = None" "pid \<noteq> child" using assms(2) Fork by simp_all
  have c: "c = sp_made sp" using f1 fresh by simp
  have e: "edges_ok (sp_made sp) (sp_edges sp)" using assms(1) by (simp add: spec_forest_def forest_def)
  have "p \<noteq> c"
  proof (cases "sp_live sp1 pid")
    case None
    then have "p = sp_made sp1" using f2 by simp
    then show ?thesis using f1 by simp
  next
    case (Some a)
    then have "p = a" using 2 by (simp add: instance_of_def)
    moreover have "sp_live sp pid = Some a" using Some f1 fresh(2) by simp
    ultimately show ?thesis using assms(1) c by (auto simp: spec_forest_def)
  qed
  then have "forest (sp_made sp2) (sp_edges sp @ [(p, c)])"
    using assms(1) e f1 f2 c by (intro forest_add [of "sp_made sp" _ "sp_made sp"]) (auto simp: spec_forest_def)
  then show ?thesis using f1 f2 by (auto simp: Fork 1 2 spec_forest_def)
next
  case (Root pid)
  obtain a sp1 where 1: "instance_of pid sp = (a, sp1)" by fastforce
  have "spec_forest sp1" using instance_forest [OF assms(1) 1] by blast
  then show ?thesis by (simp add: Root 1 spec_forest_def)
qed (use assms(1) in \<open>auto simp: spec_forest_def\<close>)

lemma spec_run_forest: "spec_forest sp \<Longrightarrow> fresh_forks evs sp \<Longrightarrow> spec_forest (fold spec_step evs sp)"
proof (induction evs arbitrary: sp)
  case (Cons ev evs)
  then show ?case using spec_step_forest [of sp ev] by simp
qed simp

lemma spec_initial_forest: "spec_forest spec_initial"
  by (simp add: spec_forest_def spec_initial_def forest_def edges_ok_def acyclic_def)

text \<open>The events of a file, and the tree of its root process.\<close>

definition file_events :: "string \<Rightarrow> tree_event list" where
  "file_events bs = map (\<lambda>l. line_event (cstr l)) (file_lines bs)"

definition file_tree :: "string \<Rightarrow> nat \<Rightarrow> ptree option" where
  "file_tree bs a = proc_tree (sp_made (spec_of_file bs)) (sp_edges (spec_of_file bs)) a"

lemma file_forest:
  "fresh_forks (file_events bs) spec_initial \<Longrightarrow>
   forest (sp_made (spec_of_file bs)) (sp_edges (spec_of_file bs))"
  using spec_run_forest [OF spec_initial_forest]
  by (simp add: spec_of_file_def file_events_def spec_forest_def)

lemma file_tree_returns:
  assumes "fresh_forks (file_events bs) spec_initial" and "a < sp_made (spec_of_file bs)"
  shows "\<exists>t. file_tree bs a = Some t \<and> distinct (tree_nodes t) \<and>
    set (tree_nodes t) = below (sp_edges (spec_of_file bs)) a"
  using forest_tree [OF file_forest [OF assms(1)] assms(2)] proc_tree_below
    proc_tree_distinct [OF file_forest [OF assms(1)] _ assms(2)]
  by (auto simp: file_tree_def)

end
