(* ===== verification/C_Qsort.thy ===== *)
theory C_Qsort
  imports C_Prelude "HOL-Library.Multiset"
begin

text \<open>
  \<open>qsort\<close> of the C library, which sorts by merging and so is stable, and the contract of a comparison
  function: \<open>sort_order\<close> is what the code's comparison has to satisfy for the result to be sorted, and
  \<open>strict_sort_order\<close> for it not to depend on the order of the input.
\<close>

definition strcmp :: "string \<Rightarrow> string \<Rightarrow> int" where
  "strcmp s t = (if s = t then 0 else if strcmp_lt s t then -1 else 1)"

fun insert_by :: "('a \<Rightarrow> 'a \<Rightarrow> int) \<Rightarrow> 'a \<Rightarrow> 'a list \<Rightarrow> 'a list" where
  "insert_by cmp x [] = [x]"
| "insert_by cmp x (y # ys) = (if cmp x y \<le> 0 then x # y # ys else y # insert_by cmp x ys)"

definition qsort :: "('a \<Rightarrow> 'a \<Rightarrow> int) \<Rightarrow> 'a list \<Rightarrow> 'a list" where
  "qsort cmp xs = foldr (insert_by cmp) xs []"

lemma insert_by_mset [simp]: "mset (insert_by cmp x xs) = add_mset x (mset xs)"
  by (induction xs) auto

lemma qsort_mset [simp]: "mset (qsort cmp xs) = mset xs"
  by (induction xs) (simp_all add: qsort_def)

lemma qsort_set [simp]: "set (qsort cmp xs) = set xs"
  by (metis qsort_mset set_mset_mset)

lemma qsort_length [simp]: "length (qsort cmp xs) = length xs"
  by (metis qsort_mset size_mset)

lemma sorted_permutation_unique:
  assumes "sorted_wrt le xs" and "sorted_wrt le ys" and "mset xs = mset ys"
    and "\<And>x y. x \<in> set xs \<Longrightarrow> y \<in> set xs \<Longrightarrow> le x y \<Longrightarrow> le y x \<Longrightarrow> x = y"
  shows "xs = ys"
  using assms
proof (induction xs arbitrary: ys)
  case (Cons x xs)
  then obtain y ys' where ys: "ys = y # ys'" by (cases ys) auto
  have same: "set (x # xs) = set (y # ys')" using Cons.prems(3) ys by (metis set_mset_mset)
  have "x = y"
  proof (rule ccontr)
    assume "x \<noteq> y"
    then have "y \<in> set xs" "x \<in> set ys'" using same by auto
    then have "le x y" "le y x" using Cons.prems(1,2) ys by auto
    with Cons.prems(4) \<open>y \<in> set xs\<close> \<open>x \<noteq> y\<close> show False by simp
  qed
  moreover have "xs = ys'"
    using Cons.IH [of ys'] Cons.prems ys \<open>x = y\<close> by auto
  ultimately show ?case using ys by simp
qed simp

locale sort_order =
  fixes cmp :: "'a \<Rightarrow> 'a \<Rightarrow> int"
  assumes total: "cmp x y \<le> 0 \<or> cmp y x \<le> 0"
    and trans: "cmp x y \<le> 0 \<Longrightarrow> cmp y z \<le> 0 \<Longrightarrow> cmp x z \<le> 0"
begin

lemma insert_by_sorted:
  "sorted_wrt (\<lambda>x y. cmp x y \<le> 0) ys \<Longrightarrow> sorted_wrt (\<lambda>x y. cmp x y \<le> 0) (insert_by cmp x ys)"
proof (induction ys)
  case (Cons y ys)
  have "set (insert_by cmp x ys) = insert x (set ys)"
    by (metis insert_by_mset set_mset_add_mset_insert set_mset_mset)
  with Cons total [of x y] trans [of x y] show ?case by auto
qed simp

lemma qsort_sorted: "sorted_wrt (\<lambda>x y. cmp x y \<le> 0) (qsort cmp xs)"
  by (induction xs) (simp_all add: qsort_def insert_by_sorted)

end

locale strict_sort_order = sort_order +
  fixes key :: "'a \<Rightarrow> 'k"
  assumes strict: "cmp x y \<le> 0 \<Longrightarrow> cmp y x \<le> 0 \<Longrightarrow> key x = key y"
begin

text \<open>With distinct keys there is one sorted order, so any sorting function gives it.\<close>

lemma qsort_unique:
  assumes "distinct (map key xs)" and "mset ys = mset xs" and "sorted_wrt (\<lambda>x y. cmp x y \<le> 0) ys"
  shows "ys = qsort cmp xs"
proof (rule sorted_permutation_unique [OF assms(3) qsort_sorted])
  show "mset ys = mset (qsort cmp xs)" using assms(2) by simp
  fix x y assume "x \<in> set ys" "y \<in> set ys" "cmp x y \<le> 0" "cmp y x \<le> 0"
  moreover have "set ys = set xs" using assms(2) by (rule mset_eq_setD)
  ultimately have xy: "x \<in> set xs" "y \<in> set xs" and k: "key x = key y"
    using strict by blast+
  have "inj_on key (set xs)" using assms(1) by (simp add: distinct_map)
  from this k xy show "x = y" by (rule inj_onD)
qed

lemma qsort_strict:
  assumes "distinct (map key xs)"
  shows "sorted_wrt (\<lambda>x y. cmp x y \<le> 0 \<and> \<not> cmp y x \<le> 0) (qsort cmp xs)"
proof -
  have "mset (map key (qsort cmp xs)) = mset (map key xs)" by (simp add: mset_map)
  then have d: "distinct (map key (qsort cmp xs))" using assms mset_eq_imp_distinct_iff by blast
  show ?thesis
    unfolding sorted_wrt_iff_nth_less
  proof (intro allI impI)
    fix i j assume ij: "i < j" "j < length (qsort cmp xs)"
    then have le: "cmp (qsort cmp xs ! i) (qsort cmp xs ! j) \<le> 0"
      using qsort_sorted [of xs] by (simp only: sorted_wrt_iff_nth_less)
    have "key (qsort cmp xs ! i) \<noteq> key (qsort cmp xs ! j)"
      using nth_eq_iff_index_eq [OF d, of i j] ij by simp
    with le strict show "cmp (qsort cmp xs ! i) (qsort cmp xs ! j) \<le> 0 \<and>
        \<not> cmp (qsort cmp xs ! j) (qsort cmp xs ! i) \<le> 0" by blast
  qed
qed

end

end
