(* ===== verification/Proc_Totals.thy ===== *)
theory Proc_Totals
  imports Proc_Walk C_Qsort
begin

text \<open>
  The totals per command name of src/proctree.c: \<open>collect_process_totals\<close> walks the tree and adds every
  process to the entry of its name, \<open>build_comm_table\<close> sorts the entries with \<open>comm_compare\<close>.
\<close>

section \<open>Data\<close>

record comm_total_counter =
  ct_group :: string
  ct_label :: string
  ct_total_value :: u64

record comm_info =
  cm_comm :: string
  cm_count :: u32
  cm_target_counters :: "comm_total_counter list"
  cm_total_utime :: u32
  cm_total_stime :: u32
  cm_total_futex_wait_count :: u64
  cm_total_futex_wait_seconds :: double
  cm_total_io_read_wait_count :: u64
  cm_total_io_read_wait_seconds :: double
  cm_total_io_write_wait_count :: u64
  cm_total_io_write_wait_seconds :: double
  cm_total_io_read_bytes :: u64
  cm_total_io_write_bytes :: u64
  cm_total_sched_rundelay_seconds :: double
  cm_total_sched_nr_timeslices :: u64
  cm_total_vm_hwm_kb :: u64
  cm_total_rss_anon_kb :: u64
  cm_total_rss_file_kb :: u64
  cm_total_rss_shmem_kb :: u64
  cm_total_vm_swap_kb :: u64
  cm_total_connect_count :: u64
  cm_total_connect_seconds :: double
  cm_total_nanosleep_count :: u64
  cm_total_nanosleep_seconds :: double
  cm_total_wait_count :: u64
  cm_total_wait_seconds :: double
  cm_total_poll_count :: u64
  cm_total_poll_seconds :: double

section \<open>Counters of matched processes\<close>

fun add_counter :: "target_counter_reading \<Rightarrow> comm_total_counter list \<Rightarrow> comm_total_counter list option" where
  \<comment> \<open>the search and the addition; \<open>None\<close> if there is no entry of the group and label\<close>
  "add_counter tc [] = None"
| "add_counter tc (c # cs) =
     (if ct_group c = tc_group tc \<and> ct_label c = tc_label tc
      then Some (c\<lparr>ct_total_value := ct_total_value c + tc_value tc\<rparr> # cs)
      else map_option (Cons c) (add_counter tc cs))"

definition accumulate_counter ::
  "target_counter_reading \<Rightarrow> comm_total_counter list \<Rightarrow> comm_total_counter list"
where
  "accumulate_counter tc cs =
     (case add_counter tc cs of
        Some cs' \<Rightarrow> cs'
      | None \<Rightarrow> \<lparr>ct_group = tc_group tc, ct_label = tc_label tc, ct_total_value = tc_value tc\<rparr> # cs)"

definition accumulate_target_counters :: "target_counter_reading list \<Rightarrow> comm_info \<Rightarrow> comm_info" where
  "accumulate_target_counters readings ci =
     ci\<lparr>cm_target_counters := fold accumulate_counter readings (cm_target_counters ci)\<rparr>"

section \<open>One process\<close>

definition add_process :: "process_info \<Rightarrow> comm_info \<Rightarrow> comm_info" where
  "add_process n ci =
     (let c1 = ci\<lparr>cm_total_utime := cm_total_utime ci + pi_utime n,
        cm_total_stime := cm_total_stime ci + pi_stime n,
        cm_total_futex_wait_count := cm_total_futex_wait_count ci + pi_futex_wait_count n,
        cm_total_futex_wait_seconds := dadd (cm_total_futex_wait_seconds ci) (pi_futex_wait_seconds n),
        cm_total_io_read_wait_count := cm_total_io_read_wait_count ci + pi_io_read_wait_count n,
        cm_total_io_read_wait_seconds := dadd (cm_total_io_read_wait_seconds ci) (pi_io_read_wait_seconds n),
        cm_total_io_write_wait_count := cm_total_io_write_wait_count ci + pi_io_write_wait_count n,
        cm_total_io_write_wait_seconds := dadd (cm_total_io_write_wait_seconds ci) (pi_io_write_wait_seconds n),
        cm_total_io_read_bytes := cm_total_io_read_bytes ci + pi_io_read_bytes n,
        cm_total_io_write_bytes := cm_total_io_write_bytes ci + pi_io_write_bytes n,
        cm_total_sched_rundelay_seconds := dadd (cm_total_sched_rundelay_seconds ci) (pi_sched_rundelay_seconds n),
        cm_total_sched_nr_timeslices := cm_total_sched_nr_timeslices ci + pi_sched_nr_timeslices n,
        cm_total_vm_hwm_kb := cm_total_vm_hwm_kb ci + pi_vm_hwm_kb n,
        cm_total_rss_anon_kb := cm_total_rss_anon_kb ci + pi_rss_anon_kb n,
        cm_total_rss_file_kb := cm_total_rss_file_kb ci + pi_rss_file_kb n,
        cm_total_rss_shmem_kb := cm_total_rss_shmem_kb ci + pi_rss_shmem_kb n,
        cm_total_vm_swap_kb := cm_total_vm_swap_kb ci + pi_vm_swap_kb n,
        cm_total_connect_count := cm_total_connect_count ci + pi_connect_count n,
        cm_total_connect_seconds := dadd (cm_total_connect_seconds ci) (pi_connect_seconds n),
        cm_total_nanosleep_count := cm_total_nanosleep_count ci + pi_nanosleep_count n,
        cm_total_nanosleep_seconds := dadd (cm_total_nanosleep_seconds ci) (pi_nanosleep_seconds n),
        cm_total_wait_count := cm_total_wait_count ci + pi_wait_count n,
        cm_total_wait_seconds := dadd (cm_total_wait_seconds ci) (pi_wait_seconds n),
        cm_total_poll_count := cm_total_poll_count ci + pi_poll_count n,
        cm_total_poll_seconds := dadd (cm_total_poll_seconds ci) (pi_poll_seconds n)\<rparr>;
          c2 = accumulate_target_counters (pi_target_counters n) c1
      in c2\<lparr>cm_count := cm_count c2 + 1\<rparr>)"

definition new_comm :: "string \<Rightarrow> process_info \<Rightarrow> comm_info" where
  "new_comm comm n =
     (accumulate_target_counters (pi_target_counters n)
       \<lparr>cm_comm = comm, cm_count = 0, cm_target_counters = [],
        cm_total_utime = pi_utime n, cm_total_stime = pi_stime n,
        cm_total_futex_wait_count = pi_futex_wait_count n,
        cm_total_futex_wait_seconds = pi_futex_wait_seconds n,
        cm_total_io_read_wait_count = pi_io_read_wait_count n,
        cm_total_io_read_wait_seconds = pi_io_read_wait_seconds n,
        cm_total_io_write_wait_count = pi_io_write_wait_count n,
        cm_total_io_write_wait_seconds = pi_io_write_wait_seconds n,
        cm_total_io_read_bytes = pi_io_read_bytes n,
        cm_total_io_write_bytes = pi_io_write_bytes n,
        cm_total_sched_rundelay_seconds = pi_sched_rundelay_seconds n,
        cm_total_sched_nr_timeslices = pi_sched_nr_timeslices n,
        cm_total_vm_hwm_kb = pi_vm_hwm_kb n,
        cm_total_rss_anon_kb = pi_rss_anon_kb n,
        cm_total_rss_file_kb = pi_rss_file_kb n,
        cm_total_rss_shmem_kb = pi_rss_shmem_kb n,
        cm_total_vm_swap_kb = pi_vm_swap_kb n,
        cm_total_connect_count = pi_connect_count n,
        cm_total_connect_seconds = pi_connect_seconds n,
        cm_total_nanosleep_count = pi_nanosleep_count n,
        cm_total_nanosleep_seconds = pi_nanosleep_seconds n,
        cm_total_wait_count = pi_wait_count n,
        cm_total_wait_seconds = pi_wait_seconds n,
        cm_total_poll_count = pi_poll_count n,
        cm_total_poll_seconds = pi_poll_seconds n\<rparr>)\<lparr>cm_count := 1\<rparr>"

fun update_comm :: "string \<Rightarrow> (comm_info \<Rightarrow> comm_info) \<Rightarrow> comm_info list \<Rightarrow> comm_info list option" where
  "update_comm comm f [] = None"
| "update_comm comm f (ci # tbl) =
     (if comm = cm_comm ci then Some (f ci # tbl) else map_option (Cons ci) (update_comm comm f tbl))"

text \<open>\<open>comm_totals\<close> is the list, its newest entry first. A process without a name is counted nowhere.\<close>

definition collect_node :: "process_info \<Rightarrow> comm_info list \<Rightarrow> comm_info list" where
  "collect_node n tbl =
     (case pi_comm n of
        None \<Rightarrow> tbl
      | Some comm \<Rightarrow>
          (case update_comm comm (add_process n) tbl of
             Some tbl' \<Rightarrow> tbl'
           | None \<Rightarrow> new_comm comm n # tbl))"

section \<open>The walk\<close>

fun fold_option :: "('a \<Rightarrow> 's \<Rightarrow> 's option) \<Rightarrow> 'a list \<Rightarrow> 's \<Rightarrow> 's option" where
  "fold_option f [] s = Some s"
| "fold_option f (x # xs) s = (case f x s of None \<Rightarrow> None | Some s' \<Rightarrow> fold_option f xs s')"

text \<open>\<open>fuel\<close> bounds the depth; the loop over the children, youngest first, is bounded by the number of
  processes, because a longer chain would repeat one.\<close>

fun collect_process_totals :: "nat \<Rightarrow> proc_heap \<Rightarrow> nat \<Rightarrow> comm_info list \<Rightarrow> comm_info list option" where
  "collect_process_totals 0 h a tbl = None"
| "collect_process_totals (Suc fuel) h a tbl =
     (case youngest_first (length h) h a of
        None \<Rightarrow> None
      | Some ks \<Rightarrow> fold_option (collect_process_totals fuel h) ks (collect_node (h ! a) tbl))"

section \<open>The order of the table\<close>

definition comm_compare :: "comm_info \<Rightarrow> comm_info \<Rightarrow> int" where
  "comm_compare c1 c2 =
     (if cm_total_utime c1 > cm_total_utime c2 then -1
      else if cm_total_utime c1 < cm_total_utime c2 then 1
      else if cm_total_stime c1 > cm_total_stime c2 then -1
      else if cm_total_stime c1 < cm_total_stime c2 then 1
      else if cm_count c1 > cm_count c2 then -1
      else if cm_count c1 < cm_count c2 then 1
      else strcmp (cm_comm c1) (cm_comm c2))"

definition build_comm_table :: "proc_heap \<Rightarrow> nat \<Rightarrow> comm_info list option" where
  "build_comm_table h r =
     map_option (qsort comm_compare) (collect_process_totals (length h) h r [])"

section \<open>What the totals are\<close>

definition entry_of :: "comm_info list \<Rightarrow> string \<Rightarrow> comm_info option" where
  "entry_of tbl comm = map_of (map (\<lambda>ci. (cm_comm ci, ci)) tbl) comm"

definition named :: "string \<Rightarrow> process_info list \<Rightarrow> process_info list" where
  "named comm ns = filter (\<lambda>n. pi_comm n = Some comm) ns"

definition total_of :: "string \<Rightarrow> process_info list \<Rightarrow> comm_info option" where
  "total_of comm ns =
     (case named comm ns of [] \<Rightarrow> None | m # ms \<Rightarrow> Some (fold add_process ms (new_comm comm m)))"

lemma cm_comm_add_process [simp]: "cm_comm (add_process n ci) = cm_comm ci"
  by (simp add: add_process_def Let_def accumulate_target_counters_def)

lemma cm_comm_new [simp]: "cm_comm (new_comm c n) = c"
  by (simp add: new_comm_def accumulate_target_counters_def)

lemma entry_of_comm: "entry_of tbl c = Some ci \<Longrightarrow> cm_comm ci = c"
  by (auto simp: entry_of_def dest!: map_of_SomeD)

lemma entry_of_None: "entry_of tbl c = None \<longleftrightarrow> c \<notin> cm_comm ` set tbl"
  by (simp add: entry_of_def map_of_eq_None_iff image_image)

lemma update_comm_None: "update_comm c f tbl = None \<longleftrightarrow> entry_of tbl c = None"
  by (induction tbl) (auto simp: entry_of_def)

lemma update_comm_Some:
  assumes "update_comm c f tbl = Some tbl'" and "\<And>ci. cm_comm (f ci) = cm_comm ci"
  shows "map cm_comm tbl' = map cm_comm tbl \<and>
    entry_of tbl' d = (if d = c then map_option f (entry_of tbl d) else entry_of tbl d)"
  using assms(1)
proof (induction tbl arbitrary: tbl')
  case (Cons ci tbl)
  then show ?case
    by (cases "c = cm_comm ci") (auto simp: entry_of_def assms(2))
qed simp

lemma collect_node_entry:
  assumes "distinct (map cm_comm tbl)" and "\<And>c. entry_of tbl c = total_of c ns"
  shows "distinct (map cm_comm (collect_node n tbl)) \<and> entry_of (collect_node n tbl) c = total_of c (ns @ [n])"
proof (cases "pi_comm n")
  case None
  then show ?thesis using assms by (simp add: collect_node_def total_of_def named_def)
next
  case (Some d)
  have snoc: "named c (ns @ [n]) = (if c = d then named c ns @ [n] else named c ns)"
    using Some by (simp add: named_def)
  show ?thesis
  proof (cases "update_comm d (add_process n) tbl")
    case None
    then have none: "entry_of tbl d = None" by (simp add: update_comm_None)
    then have "named d ns = []" using assms(2) [of d] by (simp add: total_of_def split: list.splits)
    moreover have "d \<notin> cm_comm ` set tbl" using none by (simp add: entry_of_None)
    ultimately show ?thesis
      using assms None Some snoc by (auto simp: collect_node_def entry_of_def total_of_def)
  next
    case u: (Some tbl')
    then obtain ci where "entry_of tbl d = Some ci" using update_comm_None [of d "add_process n" tbl] by auto
    then have "total_of d ns = Some ci" using assms(2) by simp
    then have "total_of d (ns @ [n]) = Some (add_process n ci)"
      using snoc [of] Some by (auto simp: total_of_def named_def split: list.splits)
    moreover have "total_of c (ns @ [n]) = total_of c ns" if "c \<noteq> d"
      using that snoc by (simp add: total_of_def)
    ultimately show ?thesis
      using update_comm_Some [OF u, of c] assms Some u \<open>total_of d ns = Some ci\<close>
      by (auto simp: collect_node_def)
  qed
qed

lemma collect_nodes_entry:
  "distinct (map cm_comm tbl) \<Longrightarrow> (\<And>c. entry_of tbl c = total_of c ms) \<Longrightarrow>
   distinct (map cm_comm (fold collect_node ns tbl)) \<and> entry_of (fold collect_node ns tbl) c = total_of c (ms @ ns)"
proof (induction ns arbitrary: tbl ms)
  case (Cons n ns)
  show ?case
    using Cons.IH [of "collect_node n tbl" "ms @ [n]"] collect_node_entry [OF Cons.prems] by simp
qed simp

text \<open>The walk visits the nodes of the tree, youngest children first.\<close>

lemma fold_option_Some:
  "list_all2 (\<lambda>x g. \<forall>s. f x s = Some (g s)) xs gs \<Longrightarrow> fold_option f xs s = Some (fold (\<lambda>g s. g s) gs s)"
  by (induction arbitrary: s rule: list_all2_induct) auto

lemma fold_tree_nodes:
  "fold (\<lambda>g s. g s) (map (\<lambda>t s. fold k (ns t) s) ts) s = fold k (concat (map ns ts)) s"
  by (induction ts arbitrary: s) auto

lemma collect_walk:
  assumes "links_ok h es"
  shows "proc_tree fuel es a = Some t \<Longrightarrow> a < length h \<Longrightarrow>
    collect_process_totals fuel h a tbl = Some (fold collect_node (map (nth h) (tree_nodes_rev t)) tbl)"
proof (induction fuel arbitrary: a t tbl)
  case (Suc fuel)
  then obtain ts where t: "t = PNode a ts" and m: "map (proc_tree fuel es) (kids es a) = map Some ts"
    by (auto simp: all_Some_iff)
  have "list_all2 (\<lambda>k s. proc_tree fuel es k = Some s \<and> k < length h) (kids es a) ts"
    using m assms kids_bound [of "length h" es _ a]
    by (simp add: list_all2_conv_all_nth links_ok_def) (metis length_map nth_map nth_mem)
  then have "list_all2 (\<lambda>k s. \<forall>tbl. collect_process_totals fuel h k tbl =
      Some (fold collect_node (map (nth h) (tree_nodes_rev s)) tbl)) (kids es a) ts"
    using Suc.IH by (auto elim: list_all2_mono)
  then have "list_all2 (\<lambda>k g. \<forall>tbl. collect_process_totals fuel h k tbl = Some (g tbl)) (rev (kids es a))
      (rev (map (\<lambda>s tbl. fold collect_node (map (nth h) (tree_nodes_rev s)) tbl) ts))"
    by (simp add: list_all2_map2)
  from fold_option_Some [OF this]
  have "fold_option (collect_process_totals fuel h) (rev (kids es a)) tbl' =
      Some (fold collect_node (map (nth h) (concat (map tree_nodes_rev (rev ts)))) tbl')" for tbl'
    by (simp add: rev_map fold_tree_nodes map_concat comp_def)
  then show ?case
    using sibling_walks(1) [OF assms Suc.prems(2) order_refl] by (simp add: t)
qed simp

section \<open>What an entry holds\<close>

text \<open>Seconds are added in the order of the walk, as a C \<open>double\<close> rounds each addition.\<close>

fun seconds_sum :: "double list \<Rightarrow> double" where
  "seconds_sum [] = Fin 0"
| "seconds_sum (d # ds) = fold (\<lambda>x t. dadd t x) ds d"

definition counter_key :: "comm_total_counter \<Rightarrow> string \<times> string" where
  "counter_key c = (ct_group c, ct_label c)"

definition reading_key :: "target_counter_reading \<Rightarrow> string \<times> string" where
  "reading_key tc = (tc_group tc, tc_label tc)"

definition readings_sum :: "string \<times> string \<Rightarrow> target_counter_reading list \<Rightarrow> u64" where
  "readings_sum k rs = sum_list (map tc_value (filter (\<lambda>tc. reading_key tc = k) rs))"

definition counters_total :: "comm_total_counter list \<Rightarrow> target_counter_reading list \<Rightarrow> bool" where
  "counters_total cs rs \<longleftrightarrow>
     distinct (map counter_key cs) \<and> set (map counter_key cs) = set (map reading_key rs) \<and>
     (\<forall>c \<in> set cs. ct_total_value c = readings_sum (counter_key c) rs)"

lemma readings_sum_simps [simp]:
  "readings_sum k [] = 0"
  "readings_sum k (rs @ rs') = readings_sum k rs + readings_sum k rs'"
  "readings_sum k [tc] = (if reading_key tc = k then tc_value tc else 0)"
  by (simp_all add: readings_sum_def)

lemma readings_sum_absent: "k \<notin> reading_key ` set rs \<Longrightarrow> readings_sum k rs = 0"
proof -
  assume "k \<notin> reading_key ` set rs"
  then have "filter (\<lambda>tc. reading_key tc = k) rs = []" by (auto simp: filter_empty_conv)
  then show ?thesis by (simp only: readings_sum_def list.map sum_list.Nil)
qed

lemma add_counter_None: "add_counter tc cs = None \<longleftrightarrow> reading_key tc \<notin> counter_key ` set cs"
  by (induction cs) (auto simp: reading_key_def counter_key_def)

lemma add_counter_Some:
  "add_counter tc cs = Some cs' \<Longrightarrow> distinct (map counter_key cs) \<Longrightarrow>
   map counter_key cs' = map counter_key cs \<and> reading_key tc \<in> counter_key ` set cs \<and>
   (\<forall>c \<in> set cs'. \<exists>d \<in> set cs. counter_key d = counter_key c \<and>
      ct_total_value c = ct_total_value d + (if counter_key c = reading_key tc then tc_value tc else 0))"
proof (induction cs arbitrary: cs')
  case (Cons c cs)
  show ?case
  proof (cases "counter_key c = reading_key tc")
    case True
    then have "cs' = c\<lparr>ct_total_value := ct_total_value c + tc_value tc\<rparr> # cs"
      using Cons.prems(1) by (auto simp: counter_key_def reading_key_def)
    moreover have "counter_key d \<noteq> reading_key tc" if "d \<in> set cs" for d using Cons.prems(2) True that by force
    ultimately show ?thesis using True by (auto simp: counter_key_def)
  next
    case False
    then obtain cs2 where c2: "cs' = c # cs2" "add_counter tc cs = Some cs2"
      using Cons.prems(1) by (auto simp: counter_key_def reading_key_def)
    show ?thesis using Cons.IH [OF c2(2)] Cons.prems(2) False by (auto simp: c2(1))
  qed
qed simp

lemma accumulate_counter_total:
  assumes "counters_total cs rs"
  shows "counters_total (accumulate_counter tc cs) (rs @ [tc])"
proof (cases "add_counter tc cs")
  case None
  then have "reading_key tc \<notin> counter_key ` set cs" by (simp add: add_counter_None)
  moreover have "readings_sum (reading_key tc) rs = 0"
    using assms calculation by (intro readings_sum_absent) (auto simp: counters_total_def)
  ultimately show ?thesis
    using assms None
    by (auto simp: counters_total_def accumulate_counter_def counter_key_def reading_key_def)
next
  case (Some cs')
  have d: "distinct (map counter_key cs)" using assms by (simp add: counters_total_def)
  note a = add_counter_Some [OF Some d]
  have "ct_total_value c = readings_sum (counter_key c) (rs @ [tc])" if c: "c \<in> set cs'" for c
  proof -
    obtain e where "e \<in> set cs" "counter_key e = counter_key c"
      "ct_total_value c = ct_total_value e + (if counter_key c = reading_key tc then tc_value tc else 0)"
      using a c by blast
    then show ?thesis using assms by (auto simp: counters_total_def)
  qed
  moreover have "counter_key ` set cs' = counter_key ` set cs" using a by (metis set_map)
  ultimately show ?thesis
    using assms Some a by (auto simp: counters_total_def accumulate_counter_def)
qed

lemma accumulate_counters_total:
  "counters_total cs rs \<Longrightarrow> counters_total (fold accumulate_counter rs' cs) (rs @ rs')"
proof (induction rs' arbitrary: cs rs)
  case (Cons tc rs')
  show ?case using Cons.IH [OF accumulate_counter_total [OF Cons.prems, of tc]] by simp
qed simp

text \<open>An entry that sums up the processes \<open>ns\<close>, added in this order.\<close>

definition entry_sums :: "comm_info \<Rightarrow> process_info list \<Rightarrow> bool" where
  "entry_sums e ns \<longleftrightarrow>
     cm_count e = of_nat (length ns) \<and>
     cm_total_utime e = sum_list (map pi_utime ns) \<and>
     cm_total_stime e = sum_list (map pi_stime ns) \<and>
     cm_total_futex_wait_count e = sum_list (map pi_futex_wait_count ns) \<and>
     cm_total_io_read_wait_count e = sum_list (map pi_io_read_wait_count ns) \<and>
     cm_total_io_write_wait_count e = sum_list (map pi_io_write_wait_count ns) \<and>
     cm_total_io_read_bytes e = sum_list (map pi_io_read_bytes ns) \<and>
     cm_total_io_write_bytes e = sum_list (map pi_io_write_bytes ns) \<and>
     cm_total_sched_nr_timeslices e = sum_list (map pi_sched_nr_timeslices ns) \<and>
     cm_total_vm_hwm_kb e = sum_list (map pi_vm_hwm_kb ns) \<and>
     cm_total_rss_anon_kb e = sum_list (map pi_rss_anon_kb ns) \<and>
     cm_total_rss_file_kb e = sum_list (map pi_rss_file_kb ns) \<and>
     cm_total_rss_shmem_kb e = sum_list (map pi_rss_shmem_kb ns) \<and>
     cm_total_vm_swap_kb e = sum_list (map pi_vm_swap_kb ns) \<and>
     cm_total_connect_count e = sum_list (map pi_connect_count ns) \<and>
     cm_total_nanosleep_count e = sum_list (map pi_nanosleep_count ns) \<and>
     cm_total_wait_count e = sum_list (map pi_wait_count ns) \<and>
     cm_total_poll_count e = sum_list (map pi_poll_count ns) \<and>
     cm_total_futex_wait_seconds e = seconds_sum (map pi_futex_wait_seconds ns) \<and>
     cm_total_io_read_wait_seconds e = seconds_sum (map pi_io_read_wait_seconds ns) \<and>
     cm_total_io_write_wait_seconds e = seconds_sum (map pi_io_write_wait_seconds ns) \<and>
     cm_total_sched_rundelay_seconds e = seconds_sum (map pi_sched_rundelay_seconds ns) \<and>
     cm_total_connect_seconds e = seconds_sum (map pi_connect_seconds ns) \<and>
     cm_total_nanosleep_seconds e = seconds_sum (map pi_nanosleep_seconds ns) \<and>
     cm_total_wait_seconds e = seconds_sum (map pi_wait_seconds ns) \<and>
     cm_total_poll_seconds e = seconds_sum (map pi_poll_seconds ns) \<and>
     counters_total (cm_target_counters e) (concat (map pi_target_counters ns))"

lemmas entry_sums_fields = entry_sums_def [unfolded counters_total_def set_map, THEN iffD1]

lemma new_comm_sums: "entry_sums (new_comm c n) [n]"
  using accumulate_counters_total [of "[]" "[]" "pi_target_counters n"]
  by (simp add: entry_sums_def new_comm_def accumulate_target_counters_def counters_total_def)

lemma seconds_sum_snoc: "ds \<noteq> [] \<Longrightarrow> seconds_sum (ds @ [d]) = dadd (seconds_sum ds) d"
  by (cases ds) simp_all

lemma add_process_sums:
  assumes "entry_sums e ns" and "ns \<noteq> []"
  shows "entry_sums (add_process n e) (ns @ [n])"
  using assms accumulate_counters_total [of "cm_target_counters e" "concat (map pi_target_counters ns)" "pi_target_counters n"]
  by (simp add: entry_sums_def add_process_def Let_def accumulate_target_counters_def seconds_sum_snoc)

lemma fold_add_process_sums:
  "entry_sums e ns \<Longrightarrow> ns \<noteq> [] \<Longrightarrow> entry_sums (fold add_process ms e) (ns @ ms)"
proof (induction ms arbitrary: e ns)
  case (Cons m ms)
  show ?case using Cons.IH [OF add_process_sums [OF Cons.prems, of m]] by simp
qed simp

lemma total_of_sums: "total_of c ns = Some e \<Longrightarrow> entry_sums e (named c ns)"
  using fold_add_process_sums [OF new_comm_sums] by (fastforce simp: total_of_def split: list.splits)

section \<open>The comparison\<close>

lemma comm_compare_le:
  "comm_compare c1 c2 \<le> 0 \<longleftrightarrow>
     cm_total_utime c1 > cm_total_utime c2 \<or> cm_total_utime c1 = cm_total_utime c2 \<and>
     (cm_total_stime c1 > cm_total_stime c2 \<or> cm_total_stime c1 = cm_total_stime c2 \<and>
     (cm_count c1 > cm_count c2 \<or> cm_count c1 = cm_count c2 \<and>
     (cm_comm c1 = cm_comm c2 \<or> strcmp_lt (cm_comm c1) (cm_comm c2))))"
  by (auto simp: comm_compare_def strcmp_def)

interpretation comm_order: strict_sort_order comm_compare cm_comm
proof
  fix x y z :: comm_info
  show "comm_compare x y \<le> 0 \<or> comm_compare y x \<le> 0"
    unfolding comm_compare_le using strcmp_lt_total [of "cm_comm x" "cm_comm y"] by (metis linorder_neqE)
  show "comm_compare x y \<le> 0 \<Longrightarrow> comm_compare y z \<le> 0 \<Longrightarrow> comm_compare x z \<le> 0"
    unfolding comm_compare_le by (elim disjE conjE) (auto dest: less_trans strcmp_lt_trans)
  show "comm_compare x y \<le> 0 \<Longrightarrow> comm_compare y x \<le> 0 \<Longrightarrow> cm_comm x = cm_comm y"
    unfolding comm_compare_le by (elim disjE conjE) (auto dest: less_trans strcmp_lt_trans)
qed

section \<open>Property\<close>

text \<open>The processes below \<open>r\<close> with a name, in the heap.\<close>

definition named_below :: "string \<Rightarrow> proctree \<Rightarrow> (nat \<times> nat) list \<Rightarrow> nat \<Rightarrow> nat set" where
  "named_below bs s es r = {a \<in> below es r. pi_comm (st_heap s ! a) = Some bs}"

lemma sum_named:
  fixes f :: "process_info \<Rightarrow> 'a :: comm_monoid_add"
  assumes "distinct ns" and "set ns = below es r"
  shows "sum_list (map f (named c (map (nth (st_heap s)) ns))) = (\<Sum>a \<in> named_below c s es r. f (st_heap s ! a))"
    and "length (named c (map (nth (st_heap s)) ns)) = card (named_below c s es r)"
proof -
  let ?ns = "filter (\<lambda>a. pi_comm (st_heap s ! a) = Some c) ns"
  have n: "named c (map (nth (st_heap s)) ns) = map (nth (st_heap s)) ?ns"
    by (simp add: named_def filter_map comp_def)
  have d: "distinct ?ns" and st: "set ?ns = named_below c s es r"
    using assms by (auto simp: named_below_def)
  show "sum_list (map f (named c (map (nth (st_heap s)) ns))) = (\<Sum>a \<in> named_below c s es r. f (st_heap s ! a))"
  proof -
    have "sum_list (map g ?ns) = (\<Sum>a \<in> named_below c s es r. g a)" for g :: "nat \<Rightarrow> 'a"
      using sum_list_distinct_conv_sum_set [OF d, of g] by (simp only: st)
    from this [of "\<lambda>a. f (st_heap s ! a)"] show ?thesis by (simp add: n comp_def)
  qed
  show "length (named c (map (nth (st_heap s)) ns)) = card (named_below c s es r)"
    unfolding n length_map using distinct_card [OF d] by (simp only: st)
qed

text \<open>C27: for a trace whose fork lines name new children, the summary is computed, has one entry per command
  name of a process below the root, in strictly increasing order of \<open>comm_compare\<close>, and every field of an entry sums
  that field over the processes of that name, each counted once: its count is their number, its times, wait counts,
  bytes, timeslices and memory are the sums (modulo the width of the C type), its seconds are added by C's rounded
  addition, all in one order of the processes, and its target counters hold one total per group and label read.\<close>
theorem build_comm_table_sums:
  assumes "parse_file bs = Some s" and "fresh_forks (file_events bs) spec_initial" and "st_root s = Some r"
  shows "\<exists>tbl walk. build_comm_table (st_heap s) r = Some tbl \<and>
    distinct walk \<and> set walk = below (sp_edges (spec_of_file bs)) r \<and>
    sorted_wrt (\<lambda>x y. comm_compare x y \<le> 0 \<and> \<not> comm_compare y x \<le> 0) tbl \<and>
    cm_comm ` set tbl = {c. named_below c s (sp_edges (spec_of_file bs)) r \<noteq> {}} \<and>
    (\<forall>e \<in> set tbl. let ms = named_below (cm_comm e) s (sp_edges (spec_of_file bs)) r;
         ns = map (nth (st_heap s)) (filter (\<lambda>a. a \<in> ms) walk);
         readings = concat (map pi_target_counters ns) in
       cm_count e = of_nat (card ms) \<and>
       cm_total_utime e = (\<Sum>a \<in> ms. pi_utime (st_heap s ! a)) \<and>
       cm_total_stime e = (\<Sum>a \<in> ms. pi_stime (st_heap s ! a)) \<and>
       cm_total_futex_wait_count e = (\<Sum>a \<in> ms. pi_futex_wait_count (st_heap s ! a)) \<and>
       cm_total_io_read_wait_count e = (\<Sum>a \<in> ms. pi_io_read_wait_count (st_heap s ! a)) \<and>
       cm_total_io_write_wait_count e = (\<Sum>a \<in> ms. pi_io_write_wait_count (st_heap s ! a)) \<and>
       cm_total_io_read_bytes e = (\<Sum>a \<in> ms. pi_io_read_bytes (st_heap s ! a)) \<and>
       cm_total_io_write_bytes e = (\<Sum>a \<in> ms. pi_io_write_bytes (st_heap s ! a)) \<and>
       cm_total_sched_nr_timeslices e = (\<Sum>a \<in> ms. pi_sched_nr_timeslices (st_heap s ! a)) \<and>
       cm_total_vm_hwm_kb e = (\<Sum>a \<in> ms. pi_vm_hwm_kb (st_heap s ! a)) \<and>
       cm_total_rss_anon_kb e = (\<Sum>a \<in> ms. pi_rss_anon_kb (st_heap s ! a)) \<and>
       cm_total_rss_file_kb e = (\<Sum>a \<in> ms. pi_rss_file_kb (st_heap s ! a)) \<and>
       cm_total_rss_shmem_kb e = (\<Sum>a \<in> ms. pi_rss_shmem_kb (st_heap s ! a)) \<and>
       cm_total_vm_swap_kb e = (\<Sum>a \<in> ms. pi_vm_swap_kb (st_heap s ! a)) \<and>
       cm_total_connect_count e = (\<Sum>a \<in> ms. pi_connect_count (st_heap s ! a)) \<and>
       cm_total_nanosleep_count e = (\<Sum>a \<in> ms. pi_nanosleep_count (st_heap s ! a)) \<and>
       cm_total_wait_count e = (\<Sum>a \<in> ms. pi_wait_count (st_heap s ! a)) \<and>
       cm_total_poll_count e = (\<Sum>a \<in> ms. pi_poll_count (st_heap s ! a)) \<and>
       cm_total_futex_wait_seconds e = seconds_sum (map pi_futex_wait_seconds ns) \<and>
       cm_total_io_read_wait_seconds e = seconds_sum (map pi_io_read_wait_seconds ns) \<and>
       cm_total_io_write_wait_seconds e = seconds_sum (map pi_io_write_wait_seconds ns) \<and>
       cm_total_sched_rundelay_seconds e = seconds_sum (map pi_sched_rundelay_seconds ns) \<and>
       cm_total_connect_seconds e = seconds_sum (map pi_connect_seconds ns) \<and>
       cm_total_nanosleep_seconds e = seconds_sum (map pi_nanosleep_seconds ns) \<and>
       cm_total_wait_seconds e = seconds_sum (map pi_wait_seconds ns) \<and>
       cm_total_poll_seconds e = seconds_sum (map pi_poll_seconds ns) \<and>
       distinct (map counter_key (cm_target_counters e)) \<and>
       counter_key ` set (cm_target_counters e) = reading_key ` set readings \<and>
       (\<forall>c \<in> set (cm_target_counters e). ct_total_value c = readings_sum (counter_key c) readings))"
proof -
  let ?es = "sp_edges (spec_of_file bs)" and ?h = "st_heap s"
  have i: "implements s (spec_of_file bs)"
    using parse_file_refines_spec [OF assms(1)] by (simp add: refines_def)
  then have l: "links_ok ?h ?es" and r: "r < sp_made (spec_of_file bs)" "r < length ?h"
    and len: "length ?h = sp_made (spec_of_file bs)"
    using assms(3) by (auto simp: implements_def)
  obtain t where t: "proc_tree (length ?h) ?es r = Some t" "distinct (tree_nodes t)" "set (tree_nodes t) = below ?es r"
    using file_tree_returns [OF assms(2) r(1)] by (auto simp: file_tree_def len)
  let ?ns = "tree_nodes_rev t"
  have ns: "distinct ?ns" "set ?ns = below ?es r"
    using t(2,3) tree_nodes_rev_mset [of t] mset_eq_imp_distinct_iff mset_eq_setD by metis+
  let ?c = "fold collect_node (map (nth ?h) ?ns) []"
  have ent: "distinct (map cm_comm ?c)" "entry_of ?c c = total_of c (map (nth ?h) ?ns)" for c
    using collect_nodes_entry [of "[]" "[]" "map (nth ?h) ?ns" c]
    by (simp_all add: entry_of_def total_of_def named_def)
  have tbl: "build_comm_table ?h r = Some (qsort comm_compare ?c)"
    using collect_walk [OF l t(1) r(2)] by (simp add: build_comm_table_def)
  have comms: "cm_comm ` set ?c = {c. named_below c s ?es r \<noteq> {}}"
  proof -
    have "c \<in> cm_comm ` set ?c \<longleftrightarrow> named_below c s ?es r \<noteq> {}" for c
    proof -
      have fin: "finite (named_below c s ?es r)"
        using ns(2) finite_set [of ?ns] by (simp add: named_below_def)
      have "c \<in> cm_comm ` set ?c \<longleftrightarrow> named c (map (nth ?h) ?ns) \<noteq> []"
        using ent(2) [of c] entry_of_None [of ?c c] by (auto simp: total_of_def split: list.splits)
      also have "\<dots> \<longleftrightarrow> card (named_below c s ?es r) \<noteq> 0"
        by (metis length_0_conv sum_named(2) [OF ns, of c s])
      finally show ?thesis using fin by simp
    qed
    then show ?thesis by blast
  qed
  have sums: "total_of (cm_comm e) (map (nth ?h) ?ns) = Some e" if "e \<in> set ?c" for e
    using that ent by (simp add: entry_of_def flip: ent(2)) (auto simp: map_of_eq_Some_iff comp_def image_iff)
  have walk: "named c (map (nth ?h) ?ns) = map (nth ?h) (filter (\<lambda>a. a \<in> named_below c s ?es r) ?ns)" for c
    by (auto simp: named_def named_below_def filter_map comp_def ns(2) intro!: arg_cong [of _ _ "map (nth ?h)"] filter_cong)
  have entry: "entry_sums e (map (nth ?h) (filter (\<lambda>a. a \<in> named_below (cm_comm e) s ?es r) ?ns))" if "e \<in> set ?c" for e
    using total_of_sums [OF sums [OF that]] by (simp only: walk)
  have sorted: "set (qsort comm_compare ?c) = set ?c"
    "sorted_wrt (\<lambda>x y. comm_compare x y \<le> 0 \<and> \<not> comm_compare y x \<le> 0) (qsort comm_compare ?c)"
    using comm_order.qsort_strict [OF ent(1)] by simp_all
  show ?thesis
    by (rule exI [of _ "qsort comm_compare ?c"], rule exI [of _ ?ns])
       (simp only: tbl ns sorted comms entry_sums_fields [OF entry] sum_named [OF ns, where s = s, unfolded walk] Let_def simp_thms ball_simps refl
          | rule ballI conjI)+
qed

lemma sample_fresh: "fresh_forks (file_events sample_trace) spec_initial"
  by (simp add: file_events_def sample_events spec_initial_def instance_of_def)

lemma sample_root: "parse_file sample_trace = Some s \<Longrightarrow> st_root s = Some 0"
  using parse_file_refines_spec [of sample_trace s] by (simp add: refines_def implements_def sample_spec)

lemma build_comm_table_sums_witness:
  "\<exists>s tbl. parse_file sample_trace = Some s \<and> build_comm_table (st_heap s) 0 = Some tbl"
  using sample_returns build_comm_table_sums [OF _ sample_fresh sample_root] by blast

end
