(* ===== verification/Proc_Print.thy ===== *)
theory Proc_Print
  imports Proc_Totals
begin

text \<open>
  The text output of src/proctree.c: the options, \<open>print_tree\<close> and \<open>print_statistics\<close>. What a function
  prints is a string; \<open>None\<close> is a walk that does not end.
\<close>

section \<open>Options\<close>

text \<open>The flags, with \<open>clocks_per_second\<close> and \<open>page_size\<close>, which \<open>sysconf\<close> gives.\<close>

record proc_options =
  po_treeflag :: bool
  po_statflag :: bool
  po_mflag :: bool
  po_uflag :: bool
  po_vflag :: nat
  po_fflag :: bool
  po_nflag :: bool
  po_pflag :: bool
  po_futexflag :: bool
  po_iflag :: bool
  po_bflag :: bool
  po_dflag :: bool
  po_rflag :: bool
  po_kflag :: bool
  po_jflag :: bool
  po_lflag :: bool
  po_zflag :: bool
  po_json_flag :: bool
  po_diff_flag :: bool
  po_diff_threshold :: double
  po_output_width :: int
  po_print_cmdline :: bool
  po_clocks_per_second :: int
  po_page_size :: u64

definition default_options :: "int \<Rightarrow> u64 \<Rightarrow> proc_options" where
  "default_options clocks page =
     \<lparr>po_treeflag = True, po_statflag = True, po_mflag = False, po_uflag = False, po_vflag = 0,
      po_fflag = True, po_nflag = False, po_pflag = False, po_futexflag = False, po_iflag = False,
      po_bflag = False, po_dflag = False, po_rflag = False, po_kflag = False, po_jflag = False,
      po_lflag = False, po_zflag = False, po_json_flag = False, po_diff_flag = False,
      po_diff_threshold = double_round (1 / 100), po_output_width = 80, po_print_cmdline = False,
      po_clocks_per_second = clocks, po_page_size = page\<rparr>"

datatype proc_opt = Short char "string option" | OPT_JSON | OPT_DIFF | OPT_DIFF_THRESHOLD string

text \<open>One option of the loop over \<open>getopt_long\<close>; \<open>None\<close> is the usage message and the end of the program.\<close>

definition proc_option :: "proc_opt \<Rightarrow> proc_options \<Rightarrow> proc_options option" where
  "proc_option opt p =
     (case opt of
        OPT_JSON \<Rightarrow> Some (p\<lparr>po_json_flag := True\<rparr>)
      | OPT_DIFF \<Rightarrow> Some (p\<lparr>po_diff_flag := True\<rparr>)
      | OPT_DIFF_THRESHOLD arg \<Rightarrow>
          (case strtod arg of None \<Rightarrow> Some p | Some (t, _) \<Rightarrow> Some (p\<lparr>po_diff_threshold := t\<rparr>))
      | Short c arg \<Rightarrow>
          (if c = CHR ''B'' then Some (p\<lparr>po_bflag := True\<rparr>)
           else if c = CHR ''b'' then Some (p\<lparr>po_bflag := False\<rparr>)
           else if c = CHR ''C'' then Some (p\<lparr>po_print_cmdline := True\<rparr>)
           else if c = CHR ''c'' then Some (p\<lparr>po_print_cmdline := False\<rparr>)
           else if c = CHR ''D'' then Some (p\<lparr>po_dflag := True\<rparr>)
           else if c = CHR ''d'' then Some (p\<lparr>po_dflag := False\<rparr>)
           else if c = CHR ''F'' then Some (p\<lparr>po_fflag := True\<rparr>)
           else if c = CHR ''f'' then Some (p\<lparr>po_fflag := False\<rparr>)
           else if c = CHR ''I'' then Some (p\<lparr>po_iflag := True\<rparr>)
           else if c = CHR ''i'' then Some (p\<lparr>po_iflag := False\<rparr>)
           else if c = CHR ''J'' then Some (p\<lparr>po_jflag := True\<rparr>)
           else if c = CHR ''j'' then Some (p\<lparr>po_jflag := False\<rparr>)
           else if c = CHR ''K'' then Some (p\<lparr>po_kflag := True\<rparr>)
           else if c = CHR ''k'' then Some (p\<lparr>po_kflag := False\<rparr>)
           else if c = CHR ''L'' then Some (p\<lparr>po_lflag := True\<rparr>)
           else if c = CHR ''l'' then Some (p\<lparr>po_lflag := False\<rparr>)
           else if c = CHR ''M'' then Some (p\<lparr>po_mflag := True\<rparr>)
           else if c = CHR ''m'' then Some (p\<lparr>po_mflag := False\<rparr>)
           else if c = CHR ''N'' then Some (p\<lparr>po_nflag := True\<rparr>)
           else if c = CHR ''n'' then Some (p\<lparr>po_nflag := False\<rparr>)
           else if c = CHR ''P'' then Some (p\<lparr>po_pflag := True\<rparr>)
           else if c = CHR ''p'' then Some (p\<lparr>po_pflag := False\<rparr>)
           else if c = CHR ''R'' then Some (p\<lparr>po_rflag := True\<rparr>)
           else if c = CHR ''r'' then Some (p\<lparr>po_rflag := False\<rparr>)
           else if c = CHR ''t'' then Some (p\<lparr>po_treeflag := False\<rparr>)
           else if c = CHR ''T'' then Some (p\<lparr>po_treeflag := True\<rparr>)
           else if c = CHR ''s'' then Some (p\<lparr>po_statflag := False\<rparr>)
           else if c = CHR ''S'' then Some (p\<lparr>po_statflag := True\<rparr>)
           else if c = CHR ''U'' then Some (p\<lparr>po_uflag := True\<rparr>)
           else if c = CHR ''u'' then Some (p\<lparr>po_uflag := False\<rparr>)
           else if c = CHR ''v'' then Some (p\<lparr>po_vflag := Suc (po_vflag p)\<rparr>)
           else if c = CHR ''X'' then Some (p\<lparr>po_futexflag := True\<rparr>)
           else if c = CHR ''x'' then Some (p\<lparr>po_futexflag := False\<rparr>)
           else if c = CHR ''w'' then
             (case arg of
                None \<Rightarrow> None
              | Some a \<Rightarrow> (case scan_d a of Some v \<Rightarrow> Some (p\<lparr>po_output_width := v\<rparr>) | None \<Rightarrow> Some p))
           else if c = CHR ''Z'' then Some (p\<lparr>po_zflag := True\<rparr>)
           else if c = CHR ''z'' then Some (p\<lparr>po_zflag := False\<rparr>)
           else None))"

fun proc_options_of :: "proc_opt list \<Rightarrow> proc_options \<Rightarrow> proc_options option" where
  "proc_options_of [] p = Some p"
| "proc_options_of (opt # opts) p = (case proc_option opt p of None \<Rightarrow> None | Some p' \<Rightarrow> proc_options_of opts p')"

section \<open>The tree\<close>

definition clock_seconds :: "proc_options \<Rightarrow> u32 \<Rightarrow> double" where
  "clock_seconds p t = ddiv (double_of_int (int (unat t))) (double_of_int (po_clocks_per_second p))"

text \<open>\<open>%.*s\<close>: a negative precision counts as none.\<close>

definition precision_text :: "int \<Rightarrow> string \<Rightarrow> string" where
  "precision_text w s = (if w < 0 then s else take (nat w) s)"

definition vsize_kb :: "process_info \<Rightarrow> u32" where
  "vsize_kb n = (pi_vsize n + 512) div 1024"

definition rss_kb :: "proc_options \<Rightarrow> process_info \<Rightarrow> u64" where
  "rss_kb p n = (pi_rss n * po_page_size p + 512) div 1024"

definition node_name :: "proc_options \<Rightarrow> nat \<Rightarrow> process_info \<Rightarrow> string" where
  "node_name p level n =
     (case pi_cmdline n of
        Some cmdline \<Rightarrow>
          if po_print_cmdline p
          then '' '' @ precision_text (po_output_width p - 8 - 2 * int level) cmdline
          else (case pi_comm n of Some comm \<Rightarrow> '' '' @ pad_right 16 comm | None \<Rightarrow> '' ??'')
      | None \<Rightarrow> (case pi_comm n of Some comm \<Rightarrow> '' '' @ pad_right 16 comm | None \<Rightarrow> '' ??''))"

definition node_line :: "proc_options \<Rightarrow> nat \<Rightarrow> process_info \<Rightarrow> string" where
  "node_line p level n =
     concat (replicate level ''  '') @ d_text (pi_pid n) @ '')'' @ node_name p level n @
     '' cpu='' @ d_text (pi_processor n) @
     (if po_fflag p then '' start='' @ pad_right 5 (fmt_fixed 2 (pi_start n)) @
        '' finish='' @ pad_right 5 (fmt_fixed 2 (pi_finish n)) else []) @
     (if po_mflag p then '' vmsize='' @ u_text (vsize_kb n) @ ''k rss='' @ u_text (rss_kb p n) @ ''k'' else []) @
     (if po_uflag p then '' utime='' @ pad_right 4 (fmt_fixed 2 (clock_seconds p (pi_utime n))) @
        '' stime='' @ pad_right 4 (fmt_fixed 2 (clock_seconds p (pi_stime n))) else []) @
     (if po_pflag p then '' ppid='' @ u_text (pi_ppid n) else []) @
     (if po_nflag p then '' threads='' @ u_text (pi_num_threads n) else []) @
     (if po_futexflag p then '' futex_waits='' @ u_text (pi_futex_wait_count n) @
        '' futex_wait_time='' @ fmt_fixed 3 (pi_futex_wait_seconds n) else []) @
     (if po_bflag p then '' io_read_waits='' @ u_text (pi_io_read_wait_count n) @
        '' io_read_wait_time='' @ fmt_fixed 3 (pi_io_read_wait_seconds n) @
        '' io_write_waits='' @ u_text (pi_io_write_wait_count n) @
        '' io_write_wait_time='' @ fmt_fixed 3 (pi_io_write_wait_seconds n) else []) @
     (if po_iflag p then '' io_rchar='' @ u_text (pi_io_rchar n) @ '' io_wchar='' @ u_text (pi_io_wchar n) @
        '' io_syscr='' @ u_text (pi_io_syscr n) @ '' io_syscw='' @ u_text (pi_io_syscw n) @
        '' io_read_bytes='' @ u_text (pi_io_read_bytes n) @ '' io_write_bytes='' @ u_text (pi_io_write_bytes n) @
        '' io_cancelled_write_bytes='' @ u_text (pi_io_cancelled_write_bytes n) else []) @
     (if po_dflag p then '' run_delay='' @ fmt_fixed 3 (pi_sched_rundelay_seconds n) @
        '' timeslices='' @ u_text (pi_sched_nr_timeslices n) else []) @
     (if po_rflag p then '' vm_hwm='' @ u_text (pi_vm_hwm_kb n) @ ''k rss_anon='' @ u_text (pi_rss_anon_kb n) @
        ''k rss_file='' @ u_text (pi_rss_file_kb n) @ ''k rss_shmem='' @ u_text (pi_rss_shmem_kb n) @
        ''k vm_swap='' @ u_text (pi_vm_swap_kb n) @ ''k'' else []) @
     (if po_kflag p then '' connect_calls='' @ u_text (pi_connect_count n) @
        '' connect_time='' @ fmt_fixed 3 (pi_connect_seconds n) else []) @
     (if po_zflag p then '' nanosleep_calls='' @ u_text (pi_nanosleep_count n) @
        '' nanosleep_time='' @ fmt_fixed 3 (pi_nanosleep_seconds n) else []) @
     (if po_jflag p then '' wait_calls='' @ u_text (pi_wait_count n) @
        '' wait_time='' @ fmt_fixed 3 (pi_wait_seconds n) else []) @
     (if po_lflag p then '' poll_calls='' @ u_text (pi_poll_count n) @
        '' poll_time='' @ fmt_fixed 3 (pi_poll_seconds n) else []) @
     newline"

text \<open>The process's line, then its children from the eldest. \<open>fuel\<close> bounds the depth.\<close>

fun print_tree :: "nat \<Rightarrow> proc_options \<Rightarrow> proc_heap \<Rightarrow> nat \<Rightarrow> nat \<Rightarrow> string option" where
  "print_tree 0 p h level a = None"
| "print_tree (Suc fuel) p h level a =
     (case eldest_first (length h) h a of
        None \<Rightarrow> None
      | Some ks \<Rightarrow>
          map_option (\<lambda>ls. node_line p level (h ! a) @ concat ls)
            (all_Some (map (print_tree fuel p h (Suc level)) ks)))"

section \<open>The statistics\<close>

definition sum_seconds :: "(comm_info \<Rightarrow> double) \<Rightarrow> comm_info list \<Rightarrow> double" where
  "sum_seconds f tbl = foldl (\<lambda>t ci. dadd t (f ci)) (Fin 0) tbl"

definition sum_words :: "(comm_info \<Rightarrow> u64) \<Rightarrow> comm_info list \<Rightarrow> u64" where
  "sum_words f tbl = foldl (\<lambda>t ci. t + f ci) 0 tbl"

definition comm_line :: "proc_options \<Rightarrow> comm_info \<Rightarrow> string" where
  "comm_line p ci =
     [TAB] @ pad_left (CHR '' '') 3 (d_text (cm_count ci)) @ '' '' @ pad_right 20 (cm_comm ci) @
     '' '' @ fmt_fixed_w 8 2 (clock_seconds p (cm_total_utime ci)) @
     '' '' @ fmt_fixed_w 8 2 (clock_seconds p (cm_total_stime ci)) @
     (if po_futexflag p then '' futex_wait='' @ fmt_fixed_w 8 3 (cm_total_futex_wait_seconds ci) @
        '' ('' @ u_text (cm_total_futex_wait_count ci) @ '' waits)'' else []) @
     (if po_bflag p then '' io_wait='' @ fmt_fixed_w 8 3 (cm_total_io_read_wait_seconds ci) @ ''r/'' @
        fmt_fixed_w 8 3 (cm_total_io_write_wait_seconds ci) @ ''w ('' @
        u_text (cm_total_io_read_wait_count ci) @ '' reads, '' @
        u_text (cm_total_io_write_wait_count ci) @ '' writes)'' else []) @
     (if po_iflag p then '' io_bytes='' @ u_text (cm_total_io_read_bytes ci) @ ''r/'' @
        u_text (cm_total_io_write_bytes ci) @ ''w'' else []) @
     (if po_dflag p then '' run_delay='' @ fmt_fixed_w 8 3 (cm_total_sched_rundelay_seconds ci) @ '' ('' @
        u_text (cm_total_sched_nr_timeslices ci) @ '' timeslices)'' else []) @
     (if po_rflag p then '' vm_hwm='' @ u_text (cm_total_vm_hwm_kb ci) @ ''k rss_anon='' @
        u_text (cm_total_rss_anon_kb ci) @ ''k rss_file='' @ u_text (cm_total_rss_file_kb ci) @ ''k rss_shmem='' @
        u_text (cm_total_rss_shmem_kb ci) @ ''k vm_swap='' @ u_text (cm_total_vm_swap_kb ci) @ ''k'' else []) @
     (if po_kflag p then '' connect='' @ fmt_fixed_w 8 3 (cm_total_connect_seconds ci) @ '' ('' @
        u_text (cm_total_connect_count ci) @ '' calls)'' else []) @
     (if po_zflag p then '' nanosleep='' @ fmt_fixed_w 8 3 (cm_total_nanosleep_seconds ci) @ '' ('' @
        u_text (cm_total_nanosleep_count ci) @ '' calls)'' else []) @
     (if po_jflag p then '' wait='' @ fmt_fixed_w 8 3 (cm_total_wait_seconds ci) @ '' ('' @
        u_text (cm_total_wait_count ci) @ '' calls)'' else []) @
     (if po_lflag p then '' poll='' @ fmt_fixed_w 8 3 (cm_total_poll_seconds ci) @ '' ('' @
        u_text (cm_total_poll_count ci) @ '' calls)'' else []) @
     concat (map (\<lambda>c. '' '' @ ct_group c @ ''.'' @ ct_label c @ ''='' @ u_text (ct_total_value c))
       (cm_target_counters ci)) @
     newline"

definition overlap_note :: string where
  "overlap_note = '' -- summed across processes, may overlap in parallel'' @ newline"

definition total_lines :: "proc_options \<Rightarrow> comm_info list \<Rightarrow> string" where
  "total_lines p tbl =
     (if po_futexflag p then ''total futex_wait='' @ fmt_fixed 3 (sum_seconds cm_total_futex_wait_seconds tbl) @
        '' ('' @ u_text (sum_words cm_total_futex_wait_count tbl) @ '' waits)'' @ overlap_note else []) @
     (if po_bflag p then ''total io_wait='' @ fmt_fixed 3 (sum_seconds cm_total_io_read_wait_seconds tbl) @ ''r/'' @
        fmt_fixed 3 (sum_seconds cm_total_io_write_wait_seconds tbl) @ ''w ('' @
        u_text (sum_words cm_total_io_read_wait_count tbl) @ '' reads, '' @
        u_text (sum_words cm_total_io_write_wait_count tbl) @ '' writes)'' @ overlap_note else []) @
     (if po_iflag p then ''total io_bytes='' @ u_text (sum_words cm_total_io_read_bytes tbl) @ ''r/'' @
        u_text (sum_words cm_total_io_write_bytes tbl) @ ''w'' @ newline else []) @
     (if po_dflag p then ''total run_delay='' @ fmt_fixed 3 (sum_seconds cm_total_sched_rundelay_seconds tbl) @
        '' ('' @ u_text (sum_words cm_total_sched_nr_timeslices tbl) @ '' timeslices)'' @ overlap_note else []) @
     (if po_rflag p then ''total vm_hwm='' @ u_text (sum_words cm_total_vm_hwm_kb tbl) @ ''k rss_anon='' @
        u_text (sum_words cm_total_rss_anon_kb tbl) @ ''k rss_file='' @
        u_text (sum_words cm_total_rss_file_kb tbl) @ ''k rss_shmem='' @
        u_text (sum_words cm_total_rss_shmem_kb tbl) @ ''k vm_swap='' @
        u_text (sum_words cm_total_vm_swap_kb tbl) @ ''k'' @ newline else []) @
     (if po_kflag p then ''total connect='' @ fmt_fixed 3 (sum_seconds cm_total_connect_seconds tbl) @
        '' ('' @ u_text (sum_words cm_total_connect_count tbl) @ '' calls)'' @ overlap_note else []) @
     (if po_zflag p then ''total nanosleep='' @ fmt_fixed 3 (sum_seconds cm_total_nanosleep_seconds tbl) @
        '' ('' @ u_text (sum_words cm_total_nanosleep_count tbl) @ '' calls)'' @ overlap_note else []) @
     (if po_jflag p then ''total wait='' @ fmt_fixed 3 (sum_seconds cm_total_wait_seconds tbl) @
        '' ('' @ u_text (sum_words cm_total_wait_count tbl) @ '' calls)'' @ overlap_note else []) @
     (if po_lflag p then ''total poll='' @ fmt_fixed 3 (sum_seconds cm_total_poll_seconds tbl) @
        '' ('' @ u_text (sum_words cm_total_poll_count tbl) @ '' calls)'' @ overlap_note else []) @
     newline"

text \<open>A null root makes \<open>collect_process_totals\<close> read through a null pointer: \<open>None\<close>, like a walk that does
  not end.\<close>

definition print_statistics :: "proc_options \<Rightarrow> proctree \<Rightarrow> string option" where
  "print_statistics p s =
     (case st_root s of
        None \<Rightarrow> None
      | Some r \<Rightarrow>
          map_option (\<lambda>tbl.
            dec_int (st_total_processes s) @ '' processes'' @ newline @
            concat (map (comm_line p) tbl) @
            dec_int (st_num_processes s) @ '' processes running'' @ newline @
            dec_int (st_max_num_processes s) @ '' maximum processes'' @ newline @
            total_lines p tbl) (build_comm_table (st_heap s) r))"

definition print_text :: "proc_options \<Rightarrow> proctree \<Rightarrow> string option" where
  "print_text p s =
     (case (if po_statflag p then print_statistics p s else Some []) of
        None \<Rightarrow> None
      | Some stats \<Rightarrow>
          map_option (\<lambda>tree. stats @ tree)
            (if po_treeflag p
             then (case st_root s of None \<Rightarrow> None | Some r \<Rightarrow> print_tree (length (st_heap s)) p (st_heap s) 0 r)
             else Some []))"

section \<open>What the tree looks like\<close>

text \<open>The processes of a tree in the order printed, with their depths.\<close>

fun tree_levels :: "nat \<Rightarrow> ptree \<Rightarrow> (nat \<times> nat) list" where
  "tree_levels level (PNode a ts) = (level, a) # concat (map (tree_levels (Suc level)) ts)"

lemma tree_levels_nodes: "map snd (tree_levels level t) = tree_nodes t"
proof (induction t arbitrary: level)
  case (PNode a ts)
  then have "concat (map (\<lambda>t. map snd (tree_levels (Suc level) t)) ts) = concat (map tree_nodes ts)"
    by (intro arg_cong [of _ _ concat]) simp
  then show ?case by (simp add: map_concat comp_def)
qed

lemma concat_concat_map: "concat (concat xss) = concat (map concat xss)"
  by (induction xss) auto

lemma all_Some_kids:
  assumes "map (proc_tree fuel es) ks = map Some ts"
    and "\<And>k t. k \<in> set ks \<Longrightarrow> proc_tree fuel es k = Some t \<Longrightarrow> f k = Some (g t)"
  shows "all_Some (map f ks) = Some (map g ts)"
  using assms
proof (induction ks arbitrary: ts)
  case (Cons k ks)
  then obtain t us where "ts = t # us" "proc_tree fuel es k = Some t" "map (proc_tree fuel es) ks = map Some us"
    by (auto simp: Cons_eq_map_conv)
  with Cons show ?case by simp
qed simp

lemma print_tree_walk:
  assumes "links_ok h es"
  shows "proc_tree fuel es a = Some t \<Longrightarrow> a < length h \<Longrightarrow>
    print_tree fuel p h level a = Some (concat (map (\<lambda>(l, b). node_line p l (h ! b)) (tree_levels level t)))"
proof (induction fuel arbitrary: a t level)
  case (Suc fuel)
  then obtain ts where t: "t = PNode a ts" and m: "map (proc_tree fuel es) (kids es a) = map Some ts"
    by (auto simp: all_Some_iff)
  have "k < length h" if "k \<in> set (kids es a)" for k
    using assms that kids_bound [of "length h" es k a] by (simp add: links_ok_def)
  with Suc.IH have "all_Some (map (print_tree fuel p h (Suc level)) (kids es a)) =
      Some (map (\<lambda>t. concat (map (\<lambda>(l, b). node_line p l (h ! b)) (tree_levels (Suc level) t))) ts)"
    by (intro all_Some_kids [OF m]) blast
  then show ?case
    using sibling_walks(2) [OF assms Suc.prems(2) order_refl] by (simp add: t map_concat comp_def concat_concat_map)
qed simp

text \<open>C19: for a trace whose fork lines name new children the tree is printed to the end: one line for each
  process below the root and no other, each exactly once, a process before its descendants and its children
  in the order of their fork lines (the order of \<open>tree_levels\<close>), indented by its depth.\<close>
theorem print_tree_complete:
  assumes "parse_file bs = Some s" and "fresh_forks (file_events bs) spec_initial" and "st_root s = Some r"
  shows "\<exists>t. file_tree bs r = Some t \<and>
    print_tree (length (st_heap s)) p (st_heap s) 0 r =
      Some (concat (map (\<lambda>(level, a). node_line p level (st_heap s ! a)) (tree_levels 0 t))) \<and>
    distinct (map snd (tree_levels 0 t)) \<and>
    set (map snd (tree_levels 0 t)) = below (sp_edges (spec_of_file bs)) r"
proof -
  have i: "implements s (spec_of_file bs)"
    using parse_file_refines_spec [OF assms(1)] by (simp add: refines_def)
  then have l: "links_ok (st_heap s) (sp_edges (spec_of_file bs))" and r: "r < sp_made (spec_of_file bs)"
    and len: "length (st_heap s) = sp_made (spec_of_file bs)"
    using assms(3) by (auto simp: implements_def)
  obtain t where t: "file_tree bs r = Some t" "distinct (tree_nodes t)"
    "set (tree_nodes t) = below (sp_edges (spec_of_file bs)) r"
    using file_tree_returns [OF assms(2) r] by blast
  have "print_tree (length (st_heap s)) p (st_heap s) 0 r =
      Some (concat (map (\<lambda>(level, a). node_line p level (st_heap s ! a)) (tree_levels 0 t)))"
    using print_tree_walk [OF l, of _ r t p 0] t(1) r by (simp add: file_tree_def len)
  with t show ?thesis by (simp add: tree_levels_nodes)
qed

lemma print_tree_complete_witness:
  "\<exists>s t. parse_file sample_trace = Some s \<and>
     print_tree (length (st_heap s)) (default_options 100 4096) (st_heap s) 0 0 =
       Some (concat (map (\<lambda>(level, a). node_line (default_options 100 4096) level (st_heap s ! a)) (tree_levels 0 t)))"
  using sample_returns print_tree_complete [OF _ sample_fresh sample_root] by blast

end
