(* ===== verification/Coverage.thy ===== *)
theory Coverage
  imports C_Numbers
begin

text \<open>
  Counter coverage (src/coverage.c): what \<open>setup_counters\<close> could and could not open. The global counts
  and the entry list are a record; \<open>strerror\<close> is a parameter of the reports.
\<close>

record coverage_entry =
  ce_group_label :: string
  ce_counter_label :: string
  ce_available :: bool
  ce_open_errno :: int

record coverage =
  cv_requested :: int
  cv_measured :: int
  cv_entries :: "coverage_entry list"

definition coverage_reset :: coverage where
  "coverage_reset = \<lparr>cv_requested = 0, cv_measured = 0, cv_entries = []\<rparr>"

definition coverage_note :: "string \<Rightarrow> string \<Rightarrow> bool \<Rightarrow> int \<Rightarrow> coverage \<Rightarrow> coverage" where
  "coverage_note group_label counter_label available open_errno cv =
     cv\<lparr>cv_entries := cv_entries cv @
          [\<lparr>ce_group_label = group_label, ce_counter_label = counter_label, ce_available = available,
            ce_open_errno = (if available then 0 else open_errno)\<rparr>],
        cv_requested := cv_requested cv + 1,
        cv_measured := cv_measured cv + (if available then 1 else 0)\<rparr>"

definition errno_text :: "(int \<Rightarrow> string) \<Rightarrow> coverage_entry \<Rightarrow> string" where
  "errno_text strerror e =
     '' (errno='' @ dec_int (ce_open_errno e) @ '' - '' @ strerror (ce_open_errno e) @ '')''"

definition print_counter_coverage :: "(int \<Rightarrow> string) \<Rightarrow> coverage \<Rightarrow> output_format \<Rightarrow> string" where
  "print_counter_coverage strerror cv oformat =
     (case oformat of
        PRINT_CSV_HEADER \<Rightarrow> ''counters_measured,counters_requested,''
      | PRINT_CSV \<Rightarrow> dec_int (cv_measured cv) @ '','' @ dec_int (cv_requested cv) @ '',''
      | PRINT_NORMAL \<Rightarrow>
          (if cv_requested cv = 0 then []
           else
             ''counter coverage     '' @ dec_int (cv_measured cv) @ ''/'' @ dec_int (cv_requested cv) @
             '' measured'' @ newline @
             concat (map (\<lambda>e.
               if ce_available e then []
               else ''  unavailable         '' @ ce_group_label e @ '': '' @ ce_counter_label e @
                 errno_text strerror e @ newline) (cv_entries cv))))"

definition print_capability_report :: "(int \<Rightarrow> string) \<Rightarrow> coverage \<Rightarrow> string" where
  "print_capability_report strerror cv =
     ''counter capability report: '' @ dec_int (cv_measured cv) @ ''/'' @ dec_int (cv_requested cv) @
     '' available'' @ newline @
     concat (map (\<lambda>e.
       (if ce_available e
        then ''  available           '' @ pad_right 12 (ce_group_label e) @ '' '' @ ce_counter_label e
        else ''  unavailable         '' @ pad_right 12 (ce_group_label e) @ '' '' @ ce_counter_label e @
          errno_text strerror e) @ newline) (cv_entries cv))"

section \<open>The counts summarise the entries\<close>

definition coverage_inv :: "coverage \<Rightarrow> bool" where
  "coverage_inv cv \<longleftrightarrow>
     cv_requested cv = int (length (cv_entries cv)) \<and>
     cv_measured cv = int (length (filter ce_available (cv_entries cv))) \<and>
     (\<forall>e \<in> set (cv_entries cv). ce_available e \<longrightarrow> ce_open_errno e = 0)"

lemma coverage_reset_inv [simp]: "coverage_inv coverage_reset"
  by (simp add: coverage_inv_def coverage_reset_def)

lemma coverage_note_inv: "coverage_inv cv \<Longrightarrow> coverage_inv (coverage_note g c a e cv)"
  by (auto simp: coverage_inv_def coverage_note_def)

end
