(* ===== verification/C_Format.thy ===== *)
theory C_Format
  imports C_Text
begin

text \<open>
  More of \<open>printf\<close>, \<open>strtoul\<close> with base 0, and what the reports need of floating point: no operation whose exact
  result lies between two bounds that are multiples of the last place leaves them, so ratios of counters stay
  between 0 and 1 and percentages stay finite.
\<close>

section \<open>Printing: \<open>%.<n>g\<close>\<close>

text \<open>The decimal exponent of a positive rational.\<close>

definition ilog10 :: "rat \<Rightarrow> int" where
  "ilog10 q =
     (let (n, d) = quotient_of q; e = int (length (dec (nat n))) - int (length (dec (nat d)))
      in if pow10 e \<le> q then e else e - 1)"

definition strip_zeros :: "string \<Rightarrow> string" where
  "strip_zeros s = rev (dropWhile (\<lambda>c. c = CHR ''0'') (rev s))"

text \<open>The decimal digits and exponent of \<open>q > 0\<close> rounded to \<open>p\<close> significant digits.\<close>

definition g_digits :: "nat \<Rightarrow> rat \<Rightarrow> string \<times> int" where
  "g_digits p q =
     (let x = ilog10 q; m = nat (round_half_even (q / pow10 (x - (int p - 1)))) in
      if m \<ge> 10 ^ p then (dec (m div 10), x + 1) else (dec m, x))"

definition with_point :: "string \<Rightarrow> string \<Rightarrow> string" where
  "with_point ip fp = (let f = strip_zeros fp in if f = [] then ip else ip @ ''.'' @ f)"

definition g_exponent :: "int \<Rightarrow> string" where
  "g_exponent x = ''e'' @ (if x < 0 then ''-'' else ''+'') @ pad_left (CHR ''0'') 2 (dec (nat \<bar>x\<bar>))"

definition g_magnitude :: "nat \<Rightarrow> rat \<Rightarrow> string" where
  "g_magnitude p q =
     (let (ds, x) = g_digits p q in
      if x < -4 \<or> x \<ge> int p then with_point (take 1 ds) (drop 1 ds) @ g_exponent x
      else if x \<ge> 0 then with_point (take (nat x + 1) ds) (drop (nat x + 1) ds)
      else with_point ''0'' (replicate (nat (- x) - 1) (CHR ''0'') @ ds))"

definition fmt_g :: "nat \<Rightarrow> double \<Rightarrow> string" where
  "fmt_g p x =
     (case x of
        NaN \<Rightarrow> ''nan''
      | Inf s \<Rightarrow> (if s then ''-inf'' else ''inf'')
      | Fin q \<Rightarrow> if q = 0 then ''0'' else (if q < 0 then ''-'' else '''') @ g_magnitude (max p 1) \<bar>q\<bar>)"

section \<open>\<open>strtoul\<close> with base 0\<close>

definition detect_base :: "string \<Rightarrow> nat" where
  "detect_base s =
     (let t = snd (take_sign (skip_spaces s)) in
      if starts_with ''0x'' t \<or> starts_with ''0X'' t then 16 else if peek t = CHR ''0'' then 8 else 10)"

definition strtoul0 :: "string \<Rightarrow> u64 \<times> string" where
  "strtoul0 s = strtoul (detect_base s) s"

section \<open>Literals\<close>

text \<open>A decimal constant of the source, rounded as the compiler rounds it.\<close>

abbreviation dlit :: "rat \<Rightarrow> double" where
  "dlit q \<equiv> double_round q"

section \<open>Bounds\<close>

lemma round_half_even_le: "q \<le> of_int k \<Longrightarrow> round_half_even q \<le> k"
proof -
  assume a: "q \<le> of_int k"
  show ?thesis
  proof (cases "\<lfloor>q\<rfloor> = k")
    case True
    then have "q = of_int k" using a by linarith
    then show ?thesis by simp
  next
    case False
    then have "\<lfloor>q\<rfloor> + 1 \<le> k" using a by linarith
    then show ?thesis by (auto simp: round_half_even_def Let_def)
  qed
qed

lemma round_half_even_ge: "of_int k \<le> q \<Longrightarrow> k \<le> round_half_even q"
proof -
  assume "of_int k \<le> q"
  then have "k \<le> \<lfloor>q\<rfloor>" by (simp add: le_floor_iff)
  then show ?thesis by (auto simp: round_half_even_def Let_def)
qed

lemma pow2_add: "pow2 (a + b) = pow2 a * pow2 b"
  by (auto simp: pow2_def nat_add_distrib [symmetric] field_simps simp flip: power_add)

lemma pow2_mono: "pow2 a \<le> pow2 b \<longleftrightarrow> a \<le> b"
proof -
  have up: "a \<le> b \<Longrightarrow> pow2 a \<le> pow2 b" for a b
  proof -
    assume "a \<le> b"
    then have "1 \<le> pow2 (b - a)" by (simp add: pow2_def)
    then have "pow2 a * 1 \<le> pow2 a * pow2 (b - a)" by (intro mult_left_mono) (simp_all add: less_imp_le)
    then show ?thesis by (simp add: pow2_add [symmetric])
  qed
  have "a < b \<Longrightarrow> pow2 a < pow2 b" for a b
  proof -
    assume "a < b"
    then have "pow2 (a + 1) \<le> pow2 b" by (intro up) simp
    moreover have "pow2 (a + 1) = pow2 a * 2" by (simp add: pow2_add) (simp add: pow2_def)
    ultimately show ?thesis using pow2_pos [of a] by linarith
  qed
  then show ?thesis using up by (meson linorder_not_le)
qed

lemma ilog2_le:
  assumes "0 < q"
  shows "pow2 (ilog2 q) \<le> q"
proof -
  obtain n d where nd: "quotient_of q = (n, d)" by (cases "quotient_of q")
  then have d: "0 < d" and q: "q = of_int n / of_int d"
    using quotient_of_denom_pos quotient_of_div by auto
  then have n: "0 < n" using assms by (simp add: zero_less_divide_iff)
  define bn bd where "bn = bit_length (nat n)" and "bd = bit_length (nat d)"
  have "2 ^ (bn - 1) \<le> nat n" "nat n < 2 ^ bn" "nat d < 2 ^ bd"
    using bit_length_bounds [of "nat n"] bit_length_bounds [of "nat d"] n d by (auto simp: bn_def bd_def)
  then have b: "2 ^ (bn - 1) \<le> n" "n < 2 ^ bn" "d < 2 ^ bd" using n d by (auto simp: le_nat_iff nat_less_iff)
  have bn0: "0 < bn" using b(2) n by (cases bn) auto
  have p2: "pow2 (int k) = of_int (2 ^ k)" for k by (simp add: pow2_def)
  have "pow2 (int bn - int bd - 1) * pow2 (int bd) = pow2 (int (bn - 1))"
    using bn0 by (simp add: pow2_add [symmetric] of_nat_diff algebra_simps)
  also have "\<dots> \<le> of_int n" unfolding p2 using b(1) by (simp only: of_int_le_iff)
  also have "\<dots> = q * of_int d" using q d by simp
  also have "\<dots> \<le> q * pow2 (int bd)"
    unfolding p2 using b(3) assms by (intro mult_left_mono) (simp_all only: of_int_le_iff less_imp_le)
  finally have "pow2 (int bn - int bd - 1) \<le> q" using pow2_pos [of "int bd"] by (simp add: mult_le_cancel_right)
  then show ?thesis by (simp add: ilog2_def nd Let_def bn_def bd_def)
qed

lemma pow2_nonzero [simp]: "pow2 e \<noteq> 0"
  using pow2_pos [of e] by linarith

lemma double_round_between:
  assumes "0 < q" and "A \<le> q" and "q \<le> B" and "B < double_limit" and "0 \<le> A"
    and "\<And>e. e \<le> ilog2 q - 52 \<or> e = - 1074 \<Longrightarrow> \<exists>k. B / pow2 e = of_int k"
    and "\<And>e. e \<le> ilog2 q - 52 \<or> e = - 1074 \<Longrightarrow> \<exists>k. A / pow2 e = of_int k"
  shows "\<exists>r \<ge> A. double_round q = Fin r \<and> r \<le> B"
proof -
  define e where "e = max (ilog2 q - 52) (- 1074)"
  define r where "r = of_int (round_half_even (q / pow2 e)) * pow2 e"
  have ep: "0 < pow2 e" by simp
  have ee: "e \<le> ilog2 q - 52 \<or> e = - 1074" by (auto simp: e_def)
  obtain k where k: "B / pow2 e = of_int k" using assms(6) [OF ee] by blast
  obtain l where l: "A / pow2 e = of_int l" using assms(7) [OF ee] by blast
  have "q / pow2 e \<le> of_int k" "of_int l \<le> q / pow2 e"
    using divide_right_mono [OF assms(3) less_imp_le [OF ep]] divide_right_mono [OF assms(2) less_imp_le [OF ep]]
    by (simp_all add: k l)
  then have "of_int (round_half_even (q / pow2 e)) \<le> (of_int k :: rat)"
    "(of_int l :: rat) \<le> of_int (round_half_even (q / pow2 e))"
    using round_half_even_le round_half_even_ge by (simp_all only: of_int_le_iff)
  then have "r \<le> of_int k * pow2 e" "of_int l * pow2 e \<le> r" using ep by (simp_all add: r_def)
  then have rB: "r \<le> B" "A \<le> r" using ep by (simp_all add: k [symmetric] l [symmetric])
  have "double_round q = Fin r"
    using assms(1,4,5) rB by (auto simp: double_round_def Let_def e_def [symmetric] r_def [symmetric])
  then show ?thesis using rB by blast
qed

lemma double_round_bound:
  assumes "0 < q" and "q \<le> B" and "B < double_limit"
    and "\<And>e. e \<le> ilog2 q - 52 \<or> e = - 1074 \<Longrightarrow> \<exists>k. B / pow2 e = of_int k"
  shows "\<exists>r \<ge> 0. double_round q = Fin r \<and> r \<le> B"
proof (rule double_round_between [OF assms(1) _ assms(2,3) _ assms(4)])
  show "\<exists>k. 0 / pow2 e = of_int k" for e by (rule exI [of _ 0]) simp
qed (use assms(1) in auto)

text \<open>Below a power of two, or below an integer of 53 bits, rounding stays below it.\<close>

lemma pow2_quotient: "0 \<le> b \<Longrightarrow> e \<le> b \<Longrightarrow> \<exists>k. 2 ^ nat b / pow2 e = of_int k"
proof -
  assume a: "0 \<le> b" "e \<le> b"
  have "2 ^ nat b = pow2 (b - e) * pow2 e" using a by (simp add: pow2_add [symmetric]) (simp add: pow2_def)
  then have "2 ^ nat b / pow2 e = pow2 (b - e)" by (simp add: nonzero_divide_eq_eq)
  moreover have "pow2 (b - e) = of_int (2 ^ nat (b - e))" using a by (simp add: pow2_def)
  ultimately show ?thesis by metis
qed

lemma double_round_pow2:
  assumes "0 \<le> q" and "q \<le> 2 ^ b" and "b < 1024"
  shows "\<exists>r \<ge> 0. double_round q = Fin r \<and> r \<le> 2 ^ b"
proof (cases "q = 0")
  case False
  have p: "pow2 (int b) = 2 ^ b" by (simp add: pow2_def)
  have "pow2 (ilog2 q) \<le> pow2 (int b)" using ilog2_le [of q] assms False by (simp add: p)
  then have l: "ilog2 q \<le> int b" by (simp add: pow2_mono)
  show ?thesis
  proof (rule double_round_bound)
    show "(2 :: rat) ^ b < double_limit" unfolding double_limit_def using assms(3) by (intro power_strict_increasing) simp_all
    show "\<exists>k. 2 ^ b / pow2 e = of_int k" if "e \<le> ilog2 q - 52 \<or> e = - 1074" for e
      using pow2_quotient [of "int b" e] that l by auto
  qed (use assms False in auto)
qed simp

lemma double_round_int:
  assumes "0 \<le> q" and "q \<le> of_int b" and "b < 2 ^ 53"
  shows "\<exists>r \<ge> 0. double_round q = Fin r \<and> r \<le> of_int b"
proof (cases "q = 0")
  case True
  then show ?thesis using assms(1,2) by simp
next
  case False
  have p: "pow2 53 = of_int (2 ^ 53)" by (simp add: pow2_def)
  have lim: "(of_int b :: rat) < of_int (2 ^ 53)" using assms(3) by (simp only: of_int_less_iff)
  have "pow2 (ilog2 q) < pow2 53" unfolding p using ilog2_le [of q] assms False lim by linarith
  then have l: "ilog2 q < 53" by (meson pow2_mono linorder_not_le)
  show ?thesis
  proof (rule double_round_bound)
    have "(of_int (2 ^ 53) :: rat) < 2 ^ 1024" by simp
    then show "(of_int b :: rat) < double_limit" using lim by (simp add: double_limit_def)
    show "\<exists>k. of_int b / pow2 e = of_int k" if "e \<le> ilog2 q - 52 \<or> e = - 1074" for e
    proof -
      have "e \<le> 0" using that l by linarith
      then obtain k where "2 ^ nat 0 / pow2 e = of_int k" using pow2_quotient [of 0 e] by blast
      then have "of_int b / pow2 e = of_int (b * k)" by simp (metis times_divide_eq_right mult_1_right)
      then show ?thesis by blast
    qed
  qed (use assms False in auto)
qed

lemma unat_u64_bound: "(of_nat (unat (w :: u64)) :: rat) \<le> 2 ^ 64"
proof -
  have "unat w < 2 ^ LENGTH(64)" by (rule unsigned_less)
  then have "unat w \<le> 2 ^ 64" by simp
  then show ?thesis by (metis of_nat_le_iff of_nat_numeral of_nat_power)
qed

lemma ulong_to_double_bound: "\<exists>r \<ge> 0. ulong_to_double w = Fin r \<and> r \<le> 2 ^ 64"
  unfolding ulong_to_double_def double_of_int_def of_int_of_nat_eq
  by (rule double_round_pow2 [OF of_nat_0_le_iff unat_u64_bound]) simp

lemma ulong_to_double_exact: "unat w < 2 ^ 53 \<Longrightarrow> ulong_to_double w = Fin (of_nat (unat w))"
proof -
  assume "unat w < 2 ^ 53"
  then have "int (unat w) < 2 ^ 53" by (metis of_nat_less_iff of_nat_numeral of_nat_power)
  then have "\<bar>int (unat w)\<bar> < 2 ^ 53" by simp
  then show ?thesis
    unfolding ulong_to_double_def by (subst double_of_int_exact) simp_all
qed

lemma ulong_to_double_0 [simp]: "ulong_to_double 0 = Fin 0"
  by (simp add: ulong_to_double_def double_of_int_def)

lemma ulong_to_double_pos: "w \<noteq> 0 \<Longrightarrow> \<exists>r \<ge> 1. ulong_to_double w = Fin r \<and> r \<le> 2 ^ 64"
proof (cases "unat w < 2 ^ 53")
  case True
  assume "w \<noteq> 0"
  then have "1 \<le> unat w" by (simp add: Suc_le_eq unat_gt_0)
  then have "(1 :: rat) \<le> of_nat (unat w)" by linarith
  then show ?thesis using ulong_to_double_exact [OF True] unat_u64_bound [of w] by blast
next
  case False
  let ?q = "of_nat (unat w) :: rat"
  have lo: "(2 :: rat) ^ 53 \<le> ?q"
    using False by (metis linorder_not_less of_nat_le_iff of_nat_numeral of_nat_power)
  have p: "pow2 (int k) = 2 ^ k" for k by (simp add: pow2_def)
  have qpos: "0 < ?q" using lo by (rule less_le_trans [rotated]) simp
  have "pow2 (ilog2 ?q) \<le> pow2 (int 64)" using ilog2_le [OF qpos] unat_u64_bound [of w] unfolding p by linarith
  then have l: "ilog2 ?q \<le> 64" by (simp add: pow2_mono)
  have "\<exists>r \<ge> 2 ^ 53. double_round ?q = Fin r \<and> r \<le> 2 ^ 64"
  proof (rule double_round_between [OF qpos lo unat_u64_bound])
    show "(2 :: rat) ^ 64 < double_limit" unfolding double_limit_def by (rule power_strict_increasing) simp_all
    show "\<exists>k. 2 ^ 64 / pow2 e = of_int k" "\<exists>k. 2 ^ 53 / pow2 e = of_int k" if "e \<le> ilog2 ?q - 52 \<or> e = - 1074" for e
      using pow2_quotient [of 64 e] pow2_quotient [of 53 e] that l by auto
  qed simp
  then obtain r where r: "2 ^ 53 \<le> r" "double_round ?q = Fin r" "r \<le> 2 ^ 64" by blast
  have "(1 :: rat) \<le> 2 ^ 53" by simp
  then have "1 \<le> r" using r(1) by linarith
  then show ?thesis using r by (auto simp: ulong_to_double_def double_of_int_def)
qed

end
