(* ===== verification/Counter_Runtime.thy ===== *)
theory Counter_Runtime
  imports Counter_Groups Coverage C_Format
begin

text \<open>
  Opening, reading and closing the counters of a list of groups (src/topdown.c: \<open>setup_counters\<close>,
  \<open>start_counters\<close>, \<open>read_counters\<close>, \<open>close_counters\<close>). The kernel is a parameter, a record of functions
  over a state of its own; the calls of \<open>perf_event_open\<close> with their results are recorded in order.
\<close>

section \<open>The kernel\<close>

text \<open>The arguments of \<open>perf_event_open\<close> that vary: the other attributes are constants of the code.\<close>

record open_call =
  oc_type :: u32
  oc_config :: u64
  oc_config1 :: u64
  oc_config2 :: u64
  oc_sample_period :: u64
  oc_sample_type :: u64
  oc_wakeup_events :: nat
  oc_inherit :: bool
  oc_pid :: int
  oc_cpu :: int
  oc_group_fd :: int
  oc_cloexec :: bool

datatype read_result = Read_Error | Read_Value u64 u64 u64 \<comment> \<open>value, time enabled, time running\<close>

text \<open>\<open>kn_open_fallback\<close> opens the sysfs energy file and reads it once; \<open>kn_read_fallback\<close> reads it
  again with the clock in nanoseconds. A descriptor of \<open>-1\<close> comes with an errno.\<close>

record 'k kernel =
  kn_perf_open :: "open_call \<Rightarrow> 'k \<Rightarrow> (int \<times> int) \<times> 'k"
  kn_open_fallback :: "'k \<Rightarrow> (int \<times> int \<times> string option) \<times> 'k"
  kn_mmap :: "int \<Rightarrow> 'k \<Rightarrow> (nat \<Rightarrow> perf_ring option)"
  kn_read :: "int \<Rightarrow> 'k \<Rightarrow> read_result \<times> 'k"
  kn_read_fallback :: "int \<Rightarrow> 'k \<Rightarrow> (string \<times> u64) option \<times> 'k"
  kn_page_size :: int
  kn_can_grow :: "nat \<Rightarrow> bool"

definition PERF_SAMPLE_IP :: u64 where "PERF_SAMPLE_IP = 1"
definition PERF_SAMPLE_RAW :: u64 where "PERF_SAMPLE_RAW = 1024"
definition PERF_SAMPLE_IDENTIFIER :: u64 where "PERF_SAMPLE_IDENTIFIER = 65536"
definition POWER_CORE_NOT_APPLICABLE_DEVICE_TYPE :: u32 where
  "POWER_CORE_NOT_APPLICABLE_DEVICE_TYPE = 9998"

section \<open>Opening\<close>

record 'k setup_state =
  su_kernel :: 'k
  su_group_id :: int
  su_coverage :: coverage
  su_nerror :: int
  su_calls :: "(open_call \<times> int) list"

definition fallback_power :: "counter_group \<Rightarrow> counter_info \<Rightarrow> bool" where
  "fallback_power g c \<longleftrightarrow> has_bit (cg_mask g) COUNTER_POWER \<and> ci_device_type c = 9999"

text \<open>The target of an open: process and cpu.\<close>

definition open_target :: "bool \<Rightarrow> int \<Rightarrow> counter_group \<Rightarrow> counter_info \<Rightarrow> int \<times> int" where
  "open_target aflag attach_pid g c =
     (if attach_pid \<ge> 0 then (attach_pid, -1)
      else if aflag \<and> cg_target_cpu g \<ge> 0 then (-1, cg_target_cpu g)
      else if ci_requires_system_wide c then (-1, 0)
      else (0, -1))"

definition perf_open_call :: "bool \<Rightarrow> int \<Rightarrow> counter_group \<Rightarrow> counter_info \<Rightarrow> int \<Rightarrow> open_call" where
  "perf_open_call aflag attach_pid g c group_id =
     \<lparr>oc_type = (if cg_type_id g = PERF_TYPE_RAW \<or> cg_type_id g = PERF_TYPE_HW_CACHE
        then ci_device_type c else cg_type_id g),
      oc_config = ci_config c, oc_config1 = ci_config1 c, oc_config2 = ci_config2 c,
      oc_sample_period = ci_sample_period c,
      oc_sample_type = (if ci_is_symbol_sample c then PERF_SAMPLE_IP
        else if ci_is_ibs_sample c then PERF_SAMPLE_RAW else PERF_SAMPLE_IDENTIFIER),
      oc_wakeup_events = (if ci_is_symbol_sample c \<or> ci_is_ibs_sample c then 1 else 0),
      oc_inherit = (attach_pid < 0),
      oc_pid = fst (open_target aflag attach_pid g c), oc_cpu = snd (open_target aflag attach_pid g c),
      oc_group_fd = group_id,
      oc_cloexec = (attach_pid \<ge> 0 \<or> open_target aflag attach_pid g c = (0, -1))\<rparr>"

definition setup_fallback ::
  "'k kernel \<Rightarrow> counter_group \<Rightarrow> counter_info \<Rightarrow> 'k setup_state \<Rightarrow> counter_info \<times> 'k setup_state"
where
  "setup_fallback kn g c s =
     (let ((status, errno, init_text), k) = kn_open_fallback kn (su_kernel s) in
      if status = -1 then
        (c\<lparr>ci_fd := -1\<rparr>,
         s\<lparr>su_kernel := k, su_coverage := coverage_note (cg_label g) (ci_label c) False errno (su_coverage s),
           su_nerror := su_nerror s + 1\<rparr>)
      else
        (c\<lparr>ci_fd := status,
           ci_last_read := (case init_text of None \<Rightarrow> 0 | Some t \<Rightarrow> fst (strtoul 10 t))\<rparr>,
         s\<lparr>su_kernel := k, su_coverage := coverage_note (cg_label g) (ci_label c) True 0 (su_coverage s)\<rparr>))"

definition setup_perf ::
  "'k kernel \<Rightarrow> bool \<Rightarrow> int \<Rightarrow> counter_group \<Rightarrow> counter_info \<Rightarrow> 'k setup_state \<Rightarrow> counter_info \<times> 'k setup_state"
where
  "setup_perf kn aflag attach_pid g c s =
     (let group_id = (if ci_is_group_leader c then -1 else su_group_id s);
          call = perf_open_call aflag attach_pid g c group_id;
          ((status, errno), k) = kn_perf_open kn call (su_kernel s);
          s1 = s\<lparr>su_kernel := k, su_group_id := group_id, su_calls := su_calls s @ [(call, status)]\<rparr>
      in if status = -1 then
           (c\<lparr>ci_fd := -1\<rparr>,
            s1\<lparr>su_coverage := coverage_note (cg_label g) (ci_label c) False errno (su_coverage s),
               su_nerror := su_nerror s + 1\<rparr>)
         else
           (c\<lparr>ci_fd := status,
              ci_ibs_sample_state :=
                (if ci_is_ibs_sample c
                 then ibs_sample_mmap (kn_page_size kn) (kn_mmap kn status k) (ci_label c = ''ibs_sample_op'')
                 else ci_ibs_sample_state c),
              ci_symbol_sample_state :=
                (if ci_is_symbol_sample c
                 then symbol_sample_mmap (kn_page_size kn) (kn_mmap kn status k)
                 else ci_symbol_sample_state c)\<rparr>,
            s1\<lparr>su_coverage := coverage_note (cg_label g) (ci_label c) True 0 (su_coverage s),
               su_group_id := (if group_id = -1 then status else group_id)\<rparr>))"

definition setup_counter ::
  "'k kernel \<Rightarrow> bool \<Rightarrow> int \<Rightarrow> counter_group \<Rightarrow> counter_info \<Rightarrow> 'k setup_state \<Rightarrow> counter_info \<times> 'k setup_state"
where
  "setup_counter kn aflag attach_pid g c s =
     (if has_bit (cg_mask g) COUNTER_POWER_CORE \<and>
         ci_device_type c = POWER_CORE_NOT_APPLICABLE_DEVICE_TYPE then (c, s)
      else if fallback_power g c then setup_fallback kn g c s
      else if attach_pid \<ge> 0 \<and> ci_requires_system_wide c then (c\<lparr>ci_fd := -1\<rparr>, s)
      else setup_perf kn aflag attach_pid g c s)"

fun map_state :: "('a \<Rightarrow> 's \<Rightarrow> 'b \<times> 's) \<Rightarrow> 'a list \<Rightarrow> 's \<Rightarrow> 'b list \<times> 's" where
  "map_state f [] s = ([], s)"
| "map_state f (x # xs) s =
     (let (y, s1) = f x s; (ys, s2) = map_state f xs s1 in (y # ys, s2))"

lemma map_state_snd: "snd (map_state f (x # xs) s) = snd (map_state f xs (snd (f x s)))"
  by (simp split: prod.splits)

lemma map_state_fst: "fst (map_state f (x # xs) s) = fst (f x s) # fst (map_state f xs (snd (f x s)))"
  by (simp split: prod.splits)

declare map_state.simps(2) [simp del]

definition setup_group ::
  "'k kernel \<Rightarrow> bool \<Rightarrow> int \<Rightarrow> counter_group \<Rightarrow> 'k setup_state \<Rightarrow> counter_group \<times> 'k setup_state"
where
  "setup_group kn aflag attach_pid g s =
     (let (cs, s') = map_state (setup_counter kn aflag attach_pid g) (cg_cinfo g) s
      in (g\<lparr>cg_cinfo := cs\<rparr>, s'))"

definition setup_initial :: "'k \<Rightarrow> coverage \<Rightarrow> 'k setup_state" where
  "setup_initial k cv = \<lparr>su_kernel = k, su_group_id = -1, su_coverage = cv, su_nerror = 0, su_calls = []\<rparr>"

definition setup_counters ::
  "'k kernel \<Rightarrow> bool \<Rightarrow> int \<Rightarrow> counter_group list \<Rightarrow> 'k \<Rightarrow> coverage \<Rightarrow> counter_group list \<times> 'k setup_state"
where
  "setup_counters kn aflag attach_pid gs k cv =
     map_state (setup_group kn aflag attach_pid) gs (setup_initial k cv)"

text \<open>\<open>start_counters\<close>: the descriptors it enables.\<close>

definition start_counters :: "counter_group list \<Rightarrow> int list" where
  "start_counters gs =
     concat (map (\<lambda>g. map ci_fd (filter (\<lambda>c. ci_fd c \<noteq> -1 \<and> \<not> fallback_power g c) (cg_cinfo g))) gs)"

section \<open>Reading\<close>

definition scaled_delta :: "u64 \<Rightarrow> u64 \<Rightarrow> u64 \<Rightarrow> u64" where
  "scaled_delta raw_delta enabled_delta running_delta =
     (if running_delta > 0 \<and> running_delta < enabled_delta then
        double_to_ulong
          (dadd (ddiv (dmul (ulong_to_double raw_delta) (ulong_to_double enabled_delta))
            (ulong_to_double running_delta)) (Fin (1 / 2)))
      else raw_delta)"

definition record_read :: "u64 \<Rightarrow> u64 \<Rightarrow> u64 \<Rightarrow> counter_info \<Rightarrow> counter_info" where
  "record_read val enabled running c =
     (let prev = ci_last_read c;
          raw_delta = val - prev;
          running_delta = running - ci_last_time_running c;
          enabled_delta = enabled - ci_last_time_enabled c;
          v = scaled_delta raw_delta enabled_delta running_delta;
          c1 = c\<lparr>ci_prev_read := prev, ci_last_read := val, ci_last_time_running := running,
            ci_last_time_enabled := enabled, ci_value := v, ci_time_running := running_delta,
            ci_time_enabled := enabled_delta\<rparr>
      in if ci_scale c \<noteq> Fin 0 then c1\<lparr>ci_scaled_value := dmul (ulong_to_double v) (ci_scale c)\<rparr> else c1)"

text \<open>One counter; \<open>None\<close> if a ring's drain does not end.\<close>

definition read_counter ::
  "'k kernel \<Rightarrow> bool \<Rightarrow> counter_group \<Rightarrow> counter_info \<Rightarrow> 'k \<Rightarrow> (counter_info \<times> 'k) option"
where
  "read_counter kn stop_counters g c k =
     (if ci_fd c = -1 then Some (c, k)
      else if ci_is_ibs_sample c then
        (if stop_counters then
           map_option (\<lambda>s. (c\<lparr>ci_ibs_sample_state := s\<rparr>, k))
             (ibs_sample_drain (kn_page_size kn) (ci_ibs_sample_state c))
         else Some (c, k))
      else if ci_is_symbol_sample c then
        (if stop_counters then
           map_option (\<lambda>s. (c\<lparr>ci_symbol_sample_state := s\<rparr>, k))
             (symbol_sample_drain (kn_can_grow kn) (kn_page_size kn) (ci_symbol_sample_state c))
         else Some (c, k))
      else if fallback_power g c then
        (let (r, k') = kn_read_fallback kn (ci_fd c) k in
         case r of
           None \<Rightarrow> Some (c, k')
         | Some (text, ns) \<Rightarrow>
             (let c' = record_read (fst (strtoul 10 text)) ns ns c
              in Some (if stop_counters then c'\<lparr>ci_fd := -1\<rparr> else c', k')))
      else
        (let (r, k') = kn_read kn (ci_fd c) k in
         case r of
           Read_Error \<Rightarrow> Some (c, k')
         | Read_Value val enabled running \<Rightarrow> Some (record_read val enabled running c, k')))"

fun map_option_state :: "('a \<Rightarrow> 's \<Rightarrow> ('b \<times> 's) option) \<Rightarrow> 'a list \<Rightarrow> 's \<Rightarrow> ('b list \<times> 's) option" where
  "map_option_state f [] s = Some ([], s)"
| "map_option_state f (x # xs) s =
     (case f x s of
        None \<Rightarrow> None
      | Some (y, s1) \<Rightarrow>
          (case map_option_state f xs s1 of None \<Rightarrow> None | Some (ys, s2) \<Rightarrow> Some (y # ys, s2)))"

definition read_group ::
  "'k kernel \<Rightarrow> bool \<Rightarrow> counter_group \<Rightarrow> 'k \<Rightarrow> (counter_group \<times> 'k) option"
where
  "read_group kn stop_counters g k =
     map_option (\<lambda>(cs, k'). (g\<lparr>cg_cinfo := cs\<rparr>, k'))
       (map_option_state (read_counter kn stop_counters g) (cg_cinfo g) k)"

definition read_counters ::
  "'k kernel \<Rightarrow> bool \<Rightarrow> counter_group list \<Rightarrow> 'k \<Rightarrow> (counter_group list \<times> 'k) option"
where
  "read_counters kn stop_counters gs k = map_option_state (read_group kn stop_counters) gs k"

section \<open>Closing\<close>

definition close_counter :: "counter_info \<Rightarrow> counter_info" where
  "close_counter c =
     (if ci_fd c \<noteq> -1
      then c\<lparr>ci_fd := -1,
             ci_symbol_sample_state := (if ci_is_symbol_sample c then None else ci_symbol_sample_state c)\<rparr>
      else c)"

text \<open>The groups afterwards, and the descriptors closed.\<close>

definition close_counters :: "counter_group list \<Rightarrow> counter_group list \<times> int list" where
  "close_counters gs =
     (map (\<lambda>g. g\<lparr>cg_cinfo := map close_counter (cg_cinfo g)\<rparr>) gs,
      concat (map (\<lambda>g. map ci_fd (filter (\<lambda>c. ci_fd c \<noteq> -1) (cg_cinfo g))) gs))"

definition open_fds :: "counter_group list \<Rightarrow> int list" where
  "open_fds gs = concat (map (\<lambda>g. filter (\<lambda>fd. fd \<noteq> -1) (map ci_fd (cg_cinfo g))) gs)"

section \<open>Group leaders share their members' target\<close>

definition call_target :: "open_call \<Rightarrow> int \<times> int" where
  "call_target c = (oc_pid c, oc_cpu c)"

text \<open>A call with a group descriptor names one opened before as a leader, on the same process and cpu.\<close>

definition led_by :: "(open_call \<times> int) list \<Rightarrow> int \<Rightarrow> int \<times> int \<Rightarrow> bool" where
  "led_by calls fd tgt \<longleftrightarrow>
     (\<exists>c. (c, fd) \<in> set calls \<and> oc_group_fd c = -1 \<and> call_target c = tgt)"

fun calls_grouped :: "(open_call \<times> int) list \<Rightarrow> (open_call \<times> int) list \<Rightarrow> bool" where
  "calls_grouped before [] \<longleftrightarrow> True"
| "calls_grouped before (x # xs) \<longleftrightarrow>
     (oc_group_fd (fst x) = -1 \<or> led_by before (oc_group_fd (fst x)) (call_target (fst x))) \<and>
     calls_grouped (before @ [x]) xs"

lemma calls_grouped_append:
  "calls_grouped b (xs @ ys) \<longleftrightarrow> calls_grouped b xs \<and> calls_grouped (b @ xs) ys"
  by (induction xs arbitrary: b) auto

text \<open>In a group, a counter that is not a leader follows one opened with the same scope.\<close>

fun scoped :: "bool option \<Rightarrow> counter_info list \<Rightarrow> bool" where
  "scoped prev [] \<longleftrightarrow> True"
| "scoped prev (c # cs) \<longleftrightarrow>
     (ci_is_group_leader c \<or> prev = Some (ci_requires_system_wide c)) \<and>
     scoped (Some (ci_requires_system_wide c)) cs"

definition group_ok :: "counter_group \<Rightarrow> bool" where
  "group_ok g \<longleftrightarrow>
     scoped None (cg_cinfo g) \<and> \<not> has_bit (cg_mask g) COUNTER_POWER \<and>
     \<not> has_bit (cg_mask g) COUNTER_POWER_CORE"

text \<open>The open chain, if there is one, was started on \<open>tgt\<close>.\<close>

definition chain_inv :: "(int \<times> int) set \<Rightarrow> 'k setup_state \<Rightarrow> bool" where
  "chain_inv tgts s \<longleftrightarrow>
     calls_grouped [] (su_calls s) \<and>
     (su_group_id s = -1 \<or> (\<exists>tgt \<in> tgts. led_by (su_calls s) (su_group_id s) tgt))"

lemma call_target_perf_open [simp]:
  "call_target (perf_open_call aflag ap g c gid) = open_target aflag ap g c"
  "oc_group_fd (perf_open_call aflag ap g c gid) = gid"
  by (simp_all add: call_target_def perf_open_call_def)

lemma led_by_append: "led_by xs fd tgt \<Longrightarrow> led_by (xs @ ys) fd tgt"
  by (auto simp: led_by_def)

lemma setup_perf_chain:
  assumes "chain_inv tgts s" and "ci_is_group_leader c \<or> tgts \<subseteq> {open_target aflag ap g c}"
  shows "chain_inv {open_target aflag ap g c} (snd (setup_perf kn aflag ap g c s))"
proof -
  let ?gid = "if ci_is_group_leader c then -1 else su_group_id s"
  let ?call = "perf_open_call aflag ap g c ?gid"
  obtain status errno k where o: "kn_perf_open kn ?call (su_kernel s) = ((status, errno), k)"
    by (metis surj_pair)
  have led: "?gid = -1 \<or> led_by (su_calls s) ?gid (open_target aflag ap g c)"
    using assms by (auto simp: chain_inv_def)
  have "calls_grouped [] (su_calls s @ [(?call, status)])"
    using assms(1) led by (simp add: chain_inv_def calls_grouped_append)
  moreover have "?gid = -1 \<longrightarrow> led_by (su_calls s @ [(?call, status)]) status (open_target aflag ap g c)"
    by (auto simp: led_by_def intro!: exI [of _ ?call])
  moreover have "?gid \<noteq> -1 \<longrightarrow> led_by (su_calls s @ [(?call, status)]) ?gid (open_target aflag ap g c)"
    using led led_by_append by blast
  ultimately show ?thesis
    using o by (cases "status = -1") (auto simp: setup_perf_def chain_inv_def Let_def)
qed

lemma setup_counters_chain:
  assumes "chain_inv tgts s" and "scoped prev cs"
    and "\<not> has_bit (cg_mask g) COUNTER_POWER" and "\<not> has_bit (cg_mask g) COUNTER_POWER_CORE"
    and "ap \<ge> 0 \<Longrightarrow> tgts \<subseteq> {(ap, -1)}"
    and "\<And>c. ap < 0 \<Longrightarrow> prev = Some (ci_requires_system_wide c) \<Longrightarrow> tgts \<subseteq> {open_target aflag ap g c}"
  shows "\<exists>tgts'. chain_inv tgts' (snd (map_state (setup_counter kn aflag ap g) cs s)) \<and>
    (ap \<ge> 0 \<longrightarrow> tgts' \<subseteq> {(ap, -1)})"
  using assms
proof (induction cs arbitrary: s tgts prev)
  case Nil
  then show ?case by auto
next
  case (Cons c cs)
  let ?f = "setup_counter kn aflag ap g"
  note snd = map_state_snd [of ?f c cs s]
  have plain: "?f c s = (if ap \<ge> 0 \<and> ci_requires_system_wide c then (c\<lparr>ci_fd := -1\<rparr>, s)
      else setup_perf kn aflag ap g c s)"
    using Cons.prems(3,4) by (simp add: setup_counter_def fallback_power_def)
  show ?case
  proof (cases "ap \<ge> 0 \<and> ci_requires_system_wide c")
    case True
    then show ?thesis
      using Cons.IH [OF Cons.prems(1) _ Cons.prems(3-5), of "Some True"] Cons.prems(2) by (simp add: snd plain)
  next
    case False
    have "ci_is_group_leader c \<or> tgts \<subseteq> {open_target aflag ap g c}"
      using Cons.prems(2,5) Cons.prems(6) [of c]
      by (cases "ap \<ge> 0"; cases "ci_is_group_leader c") (simp_all add: open_target_def)
    then have chain: "chain_inv {open_target aflag ap g c} (snd (?f c s))"
      using setup_perf_chain [OF Cons.prems(1)] False by (auto simp: plain)
    have rest: "scoped (Some (ci_requires_system_wide c)) cs" using Cons.prems(2) by simp
    have pid: "{open_target aflag ap g c} \<subseteq> {(ap, -1)}" if "ap \<ge> 0"
      using that by (simp add: open_target_def)
    have same: "{open_target aflag ap g c} \<subseteq> {open_target aflag ap g d}"
      if "Some (ci_requires_system_wide c) = Some (ci_requires_system_wide d)" for d
      using that by (simp add: open_target_def)
    from Cons.IH [OF chain rest Cons.prems(3,4) pid same] show ?thesis by (simp only: snd)
  qed
qed

lemma setup_groups_chain:
  assumes "chain_inv tgts s" and "\<forall>g \<in> set gs. group_ok g" and "ap \<ge> 0 \<longrightarrow> tgts \<subseteq> {(ap, -1)}"
  shows "\<exists>tgts'. chain_inv tgts' (snd (map_state (setup_group kn aflag ap) gs s))"
  using assms
proof (induction gs arbitrary: s tgts)
  case (Cons g gs)
  obtain tgts1 where 1: "chain_inv tgts1 (snd (map_state (setup_counter kn aflag ap g) (cg_cinfo g) s))"
    "ap \<ge> 0 \<longrightarrow> tgts1 \<subseteq> {(ap, -1)}"
    using setup_counters_chain [of tgts s None "cg_cinfo g" g ap aflag kn] Cons.prems
    by (auto simp: group_ok_def)
  have "snd (setup_group kn aflag ap g s) = snd (map_state (setup_counter kn aflag ap g) (cg_cinfo g) s)"
    by (simp add: setup_group_def split: prod.splits)
  with Cons.IH [OF _ _ 1(2)] 1(1) Cons.prems(2) show ?case by (simp add: map_state_snd)
qed auto

section \<open>The groups a mask asks for are such groups\<close>

text \<open>No ordinary event follows an L3 event it shares a use with: true of the shipped tables, and kept
  by \<open>setup_raw_events\<close>, which only clears uses.\<close>

fun l3_last :: "raw_event list \<Rightarrow> bool" where
  "l3_last [] \<longleftrightarrow> True"
| "l3_last (x # xs) \<longleftrightarrow>
     (re_device_type x = PERF_TYPE_L3 \<longrightarrow>
       (\<forall>y \<in> set xs. re_device_type y \<noteq> PERF_TYPE_L3 \<longrightarrow> re_use x AND re_use y = 0)) \<and>
     l3_last xs"

lemma shipped_tables_l3:
  "l3_last intel_raw_events" "l3_last intel_atom_raw_events" "l3_last amd_raw_events" "l3_last arm_raw_events"
  by code_simp+

lemma l3_last_narrow:
  assumes "list_all2 (\<lambda>x y. re_device_type y = re_device_type x \<and> (re_use y = re_use x \<or> re_use y = 0)) xs ys"
    and "l3_last xs"
  shows "l3_last ys"
  using assms
proof (induction xs ys rule: list_all2_induct)
  case (Cons x xs y ys)
  have "re_use y AND re_use z = 0"
    if l3: "re_device_type y = PERF_TYPE_L3" and z: "z \<in> set ys" and "re_device_type z \<noteq> PERF_TYPE_L3" for z
  proof -
    obtain i where i: "i < length ys" "z = ys ! i" using z by (auto simp: in_set_conv_nth)
    have len: "length xs = length ys" using Cons.hyps(2) by (rule list_all2_lengthD)
    have "re_device_type z = re_device_type (xs ! i) \<and> (re_use z = re_use (xs ! i) \<or> re_use z = 0)"
      using list_all2_nthD2 [OF Cons.hyps(2) i(1)] i(2) by simp
    moreover have "xs ! i \<in> set xs" using i(1) len by simp
    ultimately show ?thesis using that l3 Cons.hyps(1) Cons.prems by auto
  qed
  with Cons show ?case by simp
qed simp

definition tables_l3 :: "raw_tables \<Rightarrow> bool" where
  "tables_l3 rt \<longleftrightarrow>
     l3_last (rt_intel rt) \<and> l3_last (rt_intel_atom rt) \<and> l3_last (rt_amd rt) \<and> l3_last (rt_arm rt) \<and>
     (\<forall>e \<in> set (rt_intel rt) \<union> set (rt_intel_atom rt). re_device_type e \<noteq> PERF_TYPE_L3)"

lemma map_result_list_all2:
  assumes "map_result f xs = Inr ys" and "\<And>x y. f x = Inr y \<Longrightarrow> P x y"
  shows "list_all2 P xs ys"
  using assms(1)
proof (induction xs arbitrary: ys)
  case (Cons x xs)
  then show ?case using assms(2) by (auto split: sum.splits)
qed simp

lemma setup_event_narrows:
  "setup_event parse m ev = Inr ev' \<Longrightarrow> re_device_type ev' = re_device_type ev \<and> (re_use ev' = re_use ev \<or> re_use ev' = 0)"
  "setup_amd_event pe m ev = Inr ev' \<Longrightarrow> re_device_type ev' = re_device_type ev \<and> (re_use ev' = re_use ev \<or> re_use ev' = 0)"
  by (auto simp: setup_event_def setup_amd_event_def set_config_def map_sum_def split: if_splits sum.splits)

lemma setup_table_l3:
  assumes "map_result (setup_event parse m) xs = Inr ys" and "l3_last xs"
  shows "l3_last ys"
  using l3_last_narrow [OF map_result_list_all2 [OF assms(1)] assms(2)] setup_event_narrows(1) by blast

lemma setup_amd_table_l3:
  assumes "map_result (setup_amd_event pe m) xs = Inr ys" and "l3_last xs"
  shows "l3_last ys"
  using l3_last_narrow [OF map_result_list_all2 [OF assms(1)] assms(2)] setup_event_narrows(2) by blast

lemma setup_table_no_l3:
  assumes "map_result (setup_event parse m) xs = Inr ys"
    and "\<forall>e \<in> set xs. re_device_type e \<noteq> PERF_TYPE_L3"
  shows "\<forall>e \<in> set ys. re_device_type e \<noteq> PERF_TYPE_L3"
proof -
  have "list_all2 (\<lambda>x y. re_device_type y = re_device_type x) xs ys"
    by (rule map_result_list_all2 [OF assms(1)]) (simp add: setup_event_narrows(1))
  then have "map re_device_type ys = map re_device_type xs"
    by (induction rule: list_all2_induct) simp_all
  then have "re_device_type ` set ys = re_device_type ` set xs" by (metis list.set_map)
  moreover have "PERF_TYPE_L3 \<notin> re_device_type ` set xs" using assms(2) by auto
  ultimately have "PERF_TYPE_L3 \<notin> re_device_type ` set ys" by simp
  then show ?thesis by (auto simp: image_iff)
qed

lemma intel_no_l3:
  "\<forall>e \<in> set intel_raw_events. re_device_type e \<noteq> PERF_TYPE_L3"
  "\<forall>e \<in> set intel_atom_raw_events. re_device_type e \<noteq> PERF_TYPE_L3"
proof -
  have "list_all (\<lambda>e. re_device_type e \<noteq> PERF_TYPE_L3) intel_raw_events"
    "list_all (\<lambda>e. re_device_type e \<noteq> PERF_TYPE_L3) intel_atom_raw_events"
    by code_simp+
  then show "\<forall>e \<in> set intel_raw_events. re_device_type e \<noteq> PERF_TYPE_L3"
    "\<forall>e \<in> set intel_atom_raw_events. re_device_type e \<noteq> PERF_TYPE_L3"
    by (simp_all add: list_all_iff)
qed

lemma map_sum_Inr: "map_sum id f x = Inr y \<longleftrightarrow> (\<exists>z. x = Inr z \<and> y = f z)"
  by (cases x) auto

lemma setup_raw_events_l3:
  assumes "setup_raw_events h pe m raw_tables_initial = Inr rt"
  shows "tables_l3 rt"
proof -
  let ?t = "raw_tables_initial"
  have init: "tables_l3 ?t"
    using shipped_tables_l3 intel_no_l3 by (auto simp: tables_l3_def raw_tables_initial_def)
  show ?thesis
  proof (cases "h_vendor h")
    case VENDOR_UNKNOWN
    with assms init show ?thesis by (simp add: setup_raw_events_def)
  next
    case VENDOR_ARM
    with assms obtain es where "map_result (setup_event parse_arm_event m) (rt_arm ?t) = Inr es" "rt = ?t\<lparr>rt_arm := es\<rparr>"
      by (auto simp: setup_raw_events_def map_sum_Inr)
    with init setup_table_l3 show ?thesis by (simp add: tables_l3_def)
  next
    case VENDOR_AMD
    with assms obtain es where "map_result (setup_amd_event pe m) (rt_amd ?t) = Inr es" "rt = ?t\<lparr>rt_amd := es\<rparr>"
      by (auto simp: setup_raw_events_def map_sum_Inr)
    with init setup_amd_table_l3 show ?thesis by (simp add: tables_l3_def)
  next
    case VENDOR_INTEL
    with assms obtain es where es: "map_result (setup_event parse_intel_event m) (rt_intel ?t) = Inr es"
      by (auto simp: setup_raw_events_def split: sum.splits)
    have "l3_last es" "\<forall>e \<in> set es. re_device_type e \<noteq> PERF_TYPE_L3"
      using setup_table_l3 [OF es] setup_table_no_l3 [OF es] init by (simp_all add: tables_l3_def)
    with init have 1: "tables_l3 (?t\<lparr>rt_intel := es\<rparr>)" by (auto simp: tables_l3_def)
    show ?thesis
    proof (cases "h_is_hybrid h")
      case False
      with assms VENDOR_INTEL es 1 show ?thesis by (simp add: setup_raw_events_def)
    next
      case True
      with assms VENDOR_INTEL es obtain as where
        as: "map_result (setup_event parse_intel_event m) (rt_intel_atom ?t) = Inr as"
        and rt: "rt = ?t\<lparr>rt_intel := es, rt_intel_atom := as\<rparr>"
        by (auto simp: setup_raw_events_def map_sum_Inr)
      have "l3_last as" "\<forall>e \<in> set as. re_device_type e \<noteq> PERF_TYPE_L3"
        using setup_table_l3 [OF as] setup_table_no_l3 [OF as] init by (simp_all add: tables_l3_def)
      with 1 show ?thesis by (auto simp: rt tables_l3_def)
    qed
  qed
qed

lemma raw_group_scoped:
  assumes "l3_last es" and "\<forall>ev \<in> set es. has_bit (re_use ev) (2 ^ k)"
    and "prev = Some True \<Longrightarrow> \<forall>ev \<in> set es. re_device_type ev = PERF_TYPE_L3"
    and "n = 0 \<longleftrightarrow> prev = None" and "h_vendor h \<noteq> VENDOR_UNKNOWN"
    and "h_vendor h = VENDOR_INTEL \<longrightarrow> prev \<noteq> Some True \<and> (\<forall>ev \<in> set es. re_device_type ev \<noteq> PERF_TYPE_L3)"
  shows "scoped prev (map (raw_counter h m cc) (enumerate n es))"
  using assms
proof (induction es arbitrary: n prev)
  case (Cons e es)
  let ?c = "raw_counter h m cc (n, e)"
  have sw: "ci_requires_system_wide ?c \<longleftrightarrow> re_device_type e = PERF_TYPE_L3"
    by (simp add: raw_counter_def)
  have "ci_is_group_leader ?c \<or> prev = Some (ci_requires_system_wide ?c)"
  proof (cases "n = 0")
    case True
    then show ?thesis using Cons.prems(5) by (cases "h_vendor h") (auto simp: raw_counter_def raw_leader_def Let_def)
  next
    case False
    then obtain b where p: "prev = Some b" using Cons.prems(4) by auto
    show ?thesis
    proof (cases b)
      case True
      with p Cons.prems(3) sw show ?thesis by simp
    next
      case b: False
      have "re_device_type e = PERF_TYPE_L3 \<Longrightarrow> ci_is_group_leader ?c"
        using Cons.prems(5,6) by (cases "h_vendor h") (auto simp: raw_counter_def raw_leader_def Let_def)
      with b p sw show ?thesis by auto
    qed
  qed
  moreover have "re_device_type ev = PERF_TYPE_L3" if "re_device_type e = PERF_TYPE_L3" "ev \<in> set es" for ev
  proof (rule ccontr)
    assume "re_device_type ev \<noteq> PERF_TYPE_L3"
    then have "re_use e AND re_use ev = 0" using Cons.prems(1) that by auto
    moreover have "bit (re_use e) k" "bit (re_use ev) k"
      using Cons.prems(2) that(2) by (simp_all add: has_bit_pow)
    ultimately show False by (metis bit_and_iff bit_0_eq bot_apply bot_bool_def)
  qed
  then have "scoped (Some (ci_requires_system_wide ?c)) (map (raw_counter h m cc) (enumerate (Suc n) es))"
    using Cons.prems by (intro Cons.IH) (auto simp: sw)
  ultimately show ?case by simp
qed simp

lemma raw_group_requests_pow: "r \<in> set raw_group_requests \<Longrightarrow> \<exists>k. snd r = 2 ^ k"
proof -
  assume "r \<in> set raw_group_requests"
  moreover have "map snd raw_group_requests = map ((^) 2) [18, 19, 20, 16, 14, 12, 11, 10, 6, 5, 3, 4, 2, 1, 0]"
    by (simp add: raw_group_requests_def)
  ultimately have "snd r \<in> set (map ((^) 2) [18, 19, 20, 16, 14, 12, 11, 10, 6, 5, 3, 4, 2, 1, 0 :: nat])"
    by (metis image_eqI list.set_map)
  then show ?thesis by (simp only: set_map) blast
qed

lemma scoped_process:
  "\<forall>c \<in> set cs. \<not> ci_requires_system_wide c \<Longrightarrow> prev = Some False \<or> (cs \<noteq> [] \<longrightarrow> ci_is_group_leader (hd cs)) \<Longrightarrow>
   scoped prev cs"
  by (induction cs arbitrary: prev) auto

lemma cache_group_ok:
  assumes "cache_counter_group h name (m AND CACHE_BITS) = Some g" and "h_vendor h \<noteq> VENDOR_UNKNOWN"
  shows "group_ok g"
proof -
  have sw: "\<not> ci_requires_system_wide (cache_counter h x)" for x
    by (cases x) (simp add: cache_counter_def counter_info_zero_def)
  have ld: "ci_is_group_leader (cache_counter h (0, x))" for x
    using assms(2) by (cases "h_vendor h") (auto simp: cache_counter_def)
  have "scoped None (map (cache_counter h) (enumerate 0 es))" for es
  proof (rule scoped_process)
    show "None = Some False \<or> (map (cache_counter h) (enumerate 0 es) \<noteq> [] \<longrightarrow>
        ci_is_group_leader (hd (map (cache_counter h) (enumerate 0 es))))"
      by (cases es) (simp_all add: ld)
  qed (use sw in auto)
  moreover have "has_bit (m AND CACHE_BITS) COUNTER_POWER = False" "has_bit (m AND CACHE_BITS) COUNTER_POWER_CORE = False"
    by (simp_all add: has_bit_def CACHE_BITS_def and.assoc)
  ultimately show ?thesis
    using assms(1) by (auto simp: group_ok_def cache_counter_group_def Let_def split: if_splits)
qed

lemma raw_group_ok:
  assumes "raw_counter_group h rt (fst r) (snd r) cc = Some g" and "r \<in> set raw_group_requests" and "tables_l3 rt"
  shows "group_ok g"
proof -
  obtain es where es: "es = filter (\<lambda>ev. has_bit (re_use ev) (snd r)) (raw_table h rt cc)"
    and g: "cg_mask g = snd r" "cg_cinfo g = map (raw_counter h (snd r) cc) (enumerate 0 es)"
    by (rule raw_group_cases [OF assms(1)]) simp
  obtain k where k: "snd r = 2 ^ k" using raw_group_requests_pow [OF assms(2)] by blast
  have l3: "l3_last xs \<Longrightarrow> l3_last (filter P xs)" for P xs
    by (induction xs) auto
  have "l3_last (raw_table h rt cc)"
    and "h_vendor h = VENDOR_INTEL \<longrightarrow> (\<forall>ev \<in> set (raw_table h rt cc). re_device_type ev \<noteq> PERF_TYPE_L3)"
    using assms(3) by (cases "h_vendor h"; simp add: tables_l3_def raw_table_def)+
  then have "scoped None (cg_cinfo g)"
    unfolding g(2) using raw_group_vendor [OF assms(1)] l3
    by (intro raw_group_scoped [where k = k]) (auto simp: es k)
  moreover have "\<not> has_bit (snd r) COUNTER_POWER" "\<not> has_bit (snd r) COUNTER_POWER_CORE"
    using assms(2) by (auto simp: raw_group_requests_def has_bit_def)
  ultimately show ?thesis by (simp add: group_ok_def g(1))
qed

lemma calls_grouped_nth:
  assumes "calls_grouped b xs" and "i < length xs" and "oc_group_fd (fst (xs ! i)) \<noteq> -1"
  shows "led_by (b @ take i xs) (oc_group_fd (fst (xs ! i))) (call_target (fst (xs ! i)))"
  using assms
proof (induction xs arbitrary: b i)
  case (Cons x xs)
  show ?case
  proof (cases i)
    case (Suc j)
    with Cons.IH [of "b @ [x]" j] Cons.prems show ?thesis by simp
  qed (use Cons.prems in simp)
qed simp

section \<open>Properties\<close>

text \<open>C28: for the groups a mask asks for, on any host, cpu or process, and whatever the kernel answers, each
  \<open>perf_event_open\<close> that joins a group names a descriptor that an earlier call of the same
  \<open>setup_counters\<close> got as a leader, opened on the same process and the same cpu.\<close>
theorem setup_counters_grouped:
  assumes "setup_raw_events h pe m0 raw_tables_initial = Inr rt" and "h_vendor h \<noteq> VENDOR_UNKNOWN"
    and "setup_counters kn aflag ap (setup_counter_groups h rt m cc []) k cv = (gs, s)"
    and "i < length (su_calls s)" and "oc_group_fd (fst (su_calls s ! i)) \<noteq> -1"
  shows "\<exists>j < i. snd (su_calls s ! j) = oc_group_fd (fst (su_calls s ! i)) \<and>
    oc_group_fd (fst (su_calls s ! j)) = -1 \<and>
    oc_pid (fst (su_calls s ! j)) = oc_pid (fst (su_calls s ! i)) \<and>
    oc_cpu (fst (su_calls s ! j)) = oc_cpu (fst (su_calls s ! i))"
proof -
  let ?gs = "setup_counter_groups h rt m cc []"
  have "\<forall>g \<in> set ?gs. group_ok g"
    using cache_group_ok raw_group_ok setup_raw_events_l3 [OF assms(1)] assms(2)
    by (auto simp: setup_groups_member)
  then obtain tgts where "chain_inv tgts (snd (map_state (setup_group kn aflag ap) ?gs (setup_initial k cv)))"
    using setup_groups_chain [of "{}" "setup_initial k cv" ?gs ap kn aflag]
    by (auto simp: chain_inv_def setup_initial_def)
  then have "calls_grouped [] (su_calls s)"
    using assms(3) by (simp add: setup_counters_def chain_inv_def)
  from calls_grouped_nth [OF this assms(4,5)] obtain c
    where c: "(c, oc_group_fd (fst (su_calls s ! i))) \<in> set (take i (su_calls s))" "oc_group_fd c = -1"
      "call_target c = call_target (fst (su_calls s ! i))"
    by (auto simp: led_by_def)
  then obtain j where "j < i" "su_calls s ! j = (c, oc_group_fd (fst (su_calls s ! i)))"
    using assms(4) by (auto simp: in_set_conv_nth)
  with c show ?thesis by (intro exI [of _ j]) (simp add: call_target_def)
qed

text \<open>The nine branch counters of an AMD host with the NMI watchdog: the seventh joins the sixth's group.\<close>

definition counting_kernel :: "int kernel" where
  "counting_kernel = \<lparr>kn_perf_open = (\<lambda>c k. ((k, 0), k + 1)), kn_open_fallback = (\<lambda>k. ((-1, 2, None), k)),
     kn_mmap = (\<lambda>_ _ _. None), kn_read = (\<lambda>_ k. (Read_Error, k)), kn_read_fallback = (\<lambda>_ k. (None, k)),
     kn_page_size = 4096, kn_can_grow = (\<lambda>_. True)\<rparr>"

lemma setup_counters_grouped_witness:
  "\<exists>gs s. setup_counters counting_kernel False (-1)
      (setup_counter_groups \<lparr>h_vendor = VENDOR_AMD, h_is_hybrid = False, h_nmi_running = True\<rparr>
        raw_tables_initial COUNTER_BRANCH CORE_UNKNOWN []) 3 coverage_reset = (gs, s) \<and>
    (\<exists>j < 6. snd (su_calls s ! j) = 8 \<and> oc_group_fd (fst (su_calls s ! j)) = -1 \<and>
      oc_cpu (fst (su_calls s ! j)) = -1)"
proof -
  let ?h = "\<lparr>h_vendor = VENDOR_AMD, h_is_hybrid = False, h_nmi_running = True\<rparr>"
  have "map_result (setup_amd_event (\<lambda>_. True) 0) es = Inr es" for es
    by (induction es) (simp_all add: setup_amd_event_def)
  then have rt: "setup_raw_events ?h (\<lambda>_. True) 0 raw_tables_initial = Inr raw_tables_initial"
    by (simp add: setup_raw_events_def raw_tables_initial_def)
  obtain gs s where s: "setup_counters counting_kernel False (-1)
      (setup_counter_groups ?h raw_tables_initial COUNTER_BRANCH CORE_UNKNOWN []) 3 coverage_reset = (gs, s)"
    by fastforce
  have "su_calls s = su_calls (snd (setup_counters counting_kernel False (-1)
      (setup_counter_groups ?h raw_tables_initial COUNTER_BRANCH CORE_UNKNOWN []) 3 coverage_reset))"
    by (simp add: s)
  then have c: "6 < length (su_calls s)" "oc_group_fd (fst (su_calls s ! 6)) = 8" "oc_cpu (fst (su_calls s ! 6)) = -1"
    by (simp_all add: setup_counters_def setup_initial_def setup_counter_groups_def raw_group_requests_def
        push_raw_def push_group_def raw_counter_group_def raw_table_def raw_tables_initial_def amd_raw_events_def
        raw_event_row_def has_bit_def CACHE_BITS_def raw_counter_def raw_leader_def counter_info_zero_def
        available_slots_def map_state_snd setup_group_def setup_counter_def fallback_power_def
        setup_perf_def counting_kernel_def perf_open_call_def open_target_def Let_def case_prod_unfold)
  from setup_counters_grouped [OF rt _ s c(1)] c s show ?thesis by auto
qed

text \<open>Counters an open is tried for.\<close>

definition attempted :: "int \<Rightarrow> counter_group \<Rightarrow> counter_info \<Rightarrow> bool" where
  "attempted ap g c \<longleftrightarrow>
     \<not> (has_bit (cg_mask g) COUNTER_POWER_CORE \<and> ci_device_type c = POWER_CORE_NOT_APPLICABLE_DEVICE_TYPE) \<and>
     (fallback_power g c \<or> \<not> (ap \<ge> 0 \<and> ci_requires_system_wide c))"

definition opened_counters :: "int \<Rightarrow> counter_group \<Rightarrow> counter_group \<Rightarrow> nat" where
  "opened_counters ap g g' =
     length (filter (\<lambda>(c, c'). attempted ap g c \<and> ci_fd c' \<noteq> -1) (zip (cg_cinfo g) (cg_cinfo g')))"

definition attempts :: "int \<Rightarrow> counter_group \<Rightarrow> nat" where
  "attempts ap g = length (filter (attempted ap g) (cg_cinfo g))"

definition coverage_moves :: "nat \<Rightarrow> nat \<Rightarrow> 'k setup_state \<Rightarrow> 'k setup_state \<Rightarrow> bool" where
  "coverage_moves tried opened s s' \<longleftrightarrow>
     (coverage_inv (su_coverage s) \<longrightarrow> coverage_inv (su_coverage s')) \<and>
     cv_requested (su_coverage s') = cv_requested (su_coverage s) + int tried \<and>
     cv_measured (su_coverage s') = cv_measured (su_coverage s) + int opened \<and>
     su_nerror s' + int opened = su_nerror s + int tried"

lemma coverage_moves_note:
  "su_coverage s' = coverage_note g l True 0 (su_coverage s) \<Longrightarrow> su_nerror s' = su_nerror s \<Longrightarrow>
   coverage_moves (Suc 0) (Suc 0) s s'"
  "su_coverage s' = coverage_note g l False e (su_coverage s) \<Longrightarrow> su_nerror s' = su_nerror s + 1 \<Longrightarrow>
   coverage_moves (Suc 0) 0 s s'"
  by (simp_all add: coverage_moves_def coverage_note_inv) (simp_all add: coverage_note_def)

lemma setup_fallback_coverage:
  "coverage_moves 1 (if ci_fd (fst (setup_fallback kn g c s)) \<noteq> -1 then 1 else 0) s (snd (setup_fallback kn g c s))"
proof -
  obtain st e t k where "kn_open_fallback kn (su_kernel s) = ((st, e, t), k)" by (metis surj_pair)
  then show ?thesis
    by (cases "st = -1") (auto simp: setup_fallback_def intro: coverage_moves_note)
qed

lemma setup_perf_coverage:
  "coverage_moves 1 (if ci_fd (fst (setup_perf kn aflag ap g c s)) \<noteq> -1 then 1 else 0) s
     (snd (setup_perf kn aflag ap g c s))"
proof -
  let ?call = "perf_open_call aflag ap g c (if ci_is_group_leader c then -1 else su_group_id s)"
  obtain st e k where "kn_perf_open kn ?call (su_kernel s) = ((st, e), k)" by (metis surj_pair)
  then show ?thesis
    by (cases "st = -1") (auto simp: setup_perf_def Let_def intro: coverage_moves_note)
qed

lemma setup_counter_coverage:
  assumes "setup_counter kn aflag ap g c s = (c', s')"
  shows "coverage_moves (if attempted ap g c then 1 else 0)
    (if attempted ap g c \<and> ci_fd c' \<noteq> -1 then 1 else 0) s s'"
proof (cases "attempted ap g c")
  case True
  show ?thesis
  proof (cases "fallback_power g c")
    case F: True
    then have "setup_counter kn aflag ap g c s = setup_fallback kn g c s"
      using True unfolding setup_counter_def attempted_def by (metis (full_types))
    then have "setup_fallback kn g c s = (c', s')" using assms by simp
    with setup_fallback_coverage [of kn g c s] True show ?thesis by simp
  next
    case F: False
    then have "setup_counter kn aflag ap g c s = setup_perf kn aflag ap g c s"
      using True unfolding setup_counter_def attempted_def by (metis (full_types))
    then have "setup_perf kn aflag ap g c s = (c', s')" using assms by simp
    with setup_perf_coverage [of kn aflag ap g c s] True show ?thesis by simp
  qed
next
  case False
  then have "s' = s" using assms by (auto simp: setup_counter_def attempted_def split: if_splits)
  with False show ?thesis by (simp add: coverage_moves_def)
qed

lemma coverage_moves_trans:
  "coverage_moves a b s t \<Longrightarrow> coverage_moves c d t u \<Longrightarrow> coverage_moves (a + c) (b + d) s u"
  by (auto simp: coverage_moves_def)

lemma setup_counter_list_coverage:
  assumes "map_state (setup_counter kn aflag ap g) cs s = (cs', s')"
  shows "coverage_moves (length (filter (attempted ap g) cs))
    (length (filter (\<lambda>(c, c'). attempted ap g c \<and> ci_fd c' \<noteq> -1) (zip cs cs'))) s s'"
  using assms
proof (induction cs arbitrary: s cs' s')
  case Nil
  then show ?case by (auto simp: coverage_moves_def)
next
  case (Cons c cs)
  obtain c1 s1 where 1: "setup_counter kn aflag ap g c s = (c1, s1)" by fastforce
  obtain cs1 where 2: "map_state (setup_counter kn aflag ap g) cs s1 = (cs1, s')" "cs' = c1 # cs1"
    using Cons.prems 1 by (auto simp: map_state.simps(2) split: prod.splits)
  from coverage_moves_trans [OF setup_counter_coverage [OF 1] Cons.IH [OF 2(1)]] show ?case
    by (cases "attempted ap g c"; cases "ci_fd c1 = -1") (simp_all add: 2(2))
qed

lemma setup_group_list_coverage:
  assumes "map_state (setup_group kn aflag ap) gs s = (gs', s')"
  shows "coverage_moves (sum_list (map (attempts ap) gs))
    (sum_list (map (\<lambda>(g, g'). opened_counters ap g g') (zip gs gs'))) s s'"
  using assms
proof (induction gs arbitrary: s gs' s')
  case Nil
  then show ?case by (auto simp: coverage_moves_def)
next
  case (Cons g gs)
  obtain cs1 s1 where 1: "map_state (setup_counter kn aflag ap g) (cg_cinfo g) s = (cs1, s1)" by fastforce
  have "setup_group kn aflag ap g s = (g\<lparr>cg_cinfo := cs1\<rparr>, s1)" by (simp add: setup_group_def 1)
  then obtain gs1 where 2: "map_state (setup_group kn aflag ap) gs s1 = (gs1, s')" "gs' = g\<lparr>cg_cinfo := cs1\<rparr> # gs1"
    using Cons.prems by (auto simp: map_state.simps(2) split: prod.splits)
  have "coverage_moves (attempts ap g) (opened_counters ap g (g\<lparr>cg_cinfo := cs1\<rparr>)) s s1"
    using setup_counter_list_coverage [OF 1] by (simp add: attempts_def opened_counters_def)
  from coverage_moves_trans [OF this Cons.IH [OF 2(1)]] show ?case by (simp add: 2(2))
qed

text \<open>The coverage report tells the truth: after \<open>setup_counters\<close> the requested count has grown by the
  number of counters an open was tried for, the measured count by the number of those that now have a
  descriptor, the error count is their difference, and both totals agree with the entry list.\<close>
theorem setup_counters_coverage:
  assumes "setup_counters kn aflag ap gs k coverage_reset = (gs', s)"
  shows "cv_requested (su_coverage s) = int (sum_list (map (attempts ap) gs)) \<and>
    cv_measured (su_coverage s) = int (sum_list (map (\<lambda>(g, g'). opened_counters ap g g') (zip gs gs'))) \<and>
    su_nerror s = cv_requested (su_coverage s) - cv_measured (su_coverage s) \<and>
    cv_requested (su_coverage s) = int (length (cv_entries (su_coverage s))) \<and>
    cv_measured (su_coverage s) = int (length (filter ce_available (cv_entries (su_coverage s))))"
  using setup_group_list_coverage [OF assms [unfolded setup_counters_def]]
  by (auto simp: coverage_moves_def setup_initial_def) (auto simp: coverage_inv_def coverage_reset_def)

lemma setup_counters_coverage_witness:
  "\<exists>gs' s. setup_counters counting_kernel False (-1) [software_counter_group ''software''] 3 coverage_reset = (gs', s) \<and>
     cv_requested (su_coverage s) = 9 \<and> su_nerror s = cv_requested (su_coverage s) - cv_measured (su_coverage s)"
proof -
  obtain gs' s where s: "setup_counters counting_kernel False (-1) [software_counter_group ''software''] 3 coverage_reset = (gs', s)"
    by fastforce
  have "attempts (-1) (software_counter_group ''software'') = 9"
    by (simp add: attempts_def attempted_def software_counter_group_def sw_counters_def has_bit_def)
  with setup_counters_coverage [OF s] s show ?thesis by auto
qed

section \<open>Readings add up\<close>

text \<open>A run's successive readings of one counter.\<close>

fun run_reads :: "(u64 \<times> u64 \<times> u64) list \<Rightarrow> counter_info \<Rightarrow> counter_info list" where
  "run_reads [] c = []"
| "run_reads ((v, e, r) # rs) c = (let c' = record_read v e r c in c' # run_reads rs c')"

definition last_counter :: "counter_info list \<Rightarrow> counter_info \<Rightarrow> counter_info" where
  "last_counter cs c = (if cs = [] then c else last cs)"

lemma record_read_fields [simp]:
  "ci_last_read (record_read v e r c) = v" "ci_last_time_enabled (record_read v e r c) = e"
  "ci_last_time_running (record_read v e r c) = r"
  "ci_time_enabled (record_read v e r c) = e - ci_last_time_enabled c"
  "ci_time_running (record_read v e r c) = r - ci_last_time_running c"
  "ci_value (record_read v e r c)
     = scaled_delta (v - ci_last_read c) (e - ci_last_time_enabled c) (r - ci_last_time_running c)"
  by (simp_all add: record_read_def Let_def)

lemma last_counter_Cons: "last_counter (c' # cs) c = last_counter cs c'"
  by (simp add: last_counter_def)

text \<open>The relative error of one rounding.\<close>

definition near :: "rat \<Rightarrow> rat \<Rightarrow> rat \<Rightarrow> bool" where
  "near eps r q \<longleftrightarrow> q * (1 - eps) \<le> r \<and> r \<le> q * (1 + eps)"

definition ulp :: rat where "ulp = 1 / 2 ^ 53"

lemma round_half_even_near: "\<bar>of_int (round_half_even q) - q\<bar> \<le> 1 / 2"
proof -
  have "of_int \<lfloor>q\<rfloor> \<le> q" "q < of_int \<lfloor>q\<rfloor> + 1" using floor_correct [of q] by simp_all
  then show ?thesis unfolding round_half_even_def Let_def by (simp split: if_splits)
qed

lemma double_round_near:
  assumes "1 / 2 ^ 1000 \<le> q" and "q \<le> 2 ^ 1000"
  shows "\<exists>r. double_round q = Fin r \<and> near ulp r q"
proof -
  define e where "e = max (ilog2 q - 52) (- 1074)"
  define r where "r = of_int (round_half_even (q / pow2 e)) * pow2 e"
  have q: "0 < q" by (rule less_le_trans [OF _ assms(1)]) simp
  have ep: "0 < pow2 e" by simp
  have small: "pow2 e / 2 \<le> q * ulp"
  proof (cases "ilog2 q - 52 \<ge> - 1074")
    case True
    then have "pow2 e * pow2 52 = pow2 (ilog2 q)" by (simp add: e_def pow2_add [symmetric])
    then have "pow2 e * 2 ^ 52 \<le> q" using ilog2_le [OF q] by (simp add: pow2_def [of 52])
    then show ?thesis by (simp add: ulp_def field_simps)
  next
    case False
    then have "pow2 e = 1 / 2 ^ 1074" by (simp add: e_def pow2_def)
    moreover have "(1 :: rat) / 2 ^ 1074 / 2 \<le> 1 / 2 ^ 1000 * ulp" by (simp add: ulp_def)
    ultimately show ?thesis using mult_right_mono [OF assms(1), of ulp] by (simp add: ulp_def)
  qed
  have "r - q = (of_int (round_half_even (q / pow2 e)) - q / pow2 e) * pow2 e"
    using ep by (simp add: r_def algebra_simps)
  then have "\<bar>r - q\<bar> = \<bar>of_int (round_half_even (q / pow2 e)) - q / pow2 e\<bar> * pow2 e" using ep by (simp add: abs_mult abs_of_pos)
  also have "\<dots> \<le> 1 / 2 * pow2 e" by (rule mult_right_mono [OF round_half_even_near less_imp_le [OF ep]])
  finally have "\<bar>r - q\<bar> \<le> q * ulp" using small by simp
  then have n: "near ulp r q" by (auto simp: near_def algebra_simps abs_le_iff)
  have "r \<le> 2 ^ 1000 * (1 + ulp)" using n mult_right_mono [OF assms(2), of "1 + ulp"] by (simp add: near_def ulp_def)
  also have "\<dots> < double_limit" by (simp add: double_limit_def ulp_def)
  finally have "r < double_limit" .
  moreover have "0 \<le> r"
  proof -
    have "0 \<le> q * (1 - ulp)" using q by (simp add: ulp_def)
    then show ?thesis using n by (simp add: near_def)
  qed
  ultimately have "double_round q = Fin r"
    using q by (simp add: double_round_def Let_def e_def [symmetric] r_def [symmetric])
  with n show ?thesis by blast
qed

lemma near_mult:
  assumes "near d r q" "near e s t" "0 \<le> q" "0 \<le> t" "0 \<le> d" "d \<le> 1" "0 \<le> e" "e \<le> 1"
  shows "near (d + e + d * e) (r * s) (q * t)"
proof -
  have q: "0 \<le> q * (1 - d)" "0 \<le> t * (1 - e)" using assms(3-8) by simp_all
  then have "(q * (1 - d)) * (t * (1 - e)) \<le> r * s" "0 \<le> r" "0 \<le> s"
    using assms(1,2) by (auto simp: near_def intro!: mult_mono)
  moreover have "r * s \<le> (q * (1 + d)) * (t * (1 + e))"
    using assms(1-3,5) \<open>0 \<le> r\<close> \<open>0 \<le> s\<close> by (intro mult_mono) (simp_all add: near_def)
  moreover have "0 \<le> 2 * (d * e * (q * t))" using assms(3,4,5,7) by simp
  ultimately show ?thesis by (simp add: near_def algebra_simps)
qed

lemma near_divide:
  assumes "near d r q" "near e s t" "0 \<le> q" "0 < t" "0 \<le> d" "d \<le> 1" "0 \<le> e" "e \<le> 1 / 2"
  shows "near (d + 2 * e + 2 * d * e) (r / s) (q / t)"
proof -
  have te: "0 < t * (1 - e)" using assms(4,8) by simp
  then have s: "0 < s" using assms(2) by (simp add: near_def)
  have "near (2 * e) (1 / s) (1 / t)"
  proof -
    have "t * (1 - 2 * e) \<le> t * (1 / (1 + e))"
      using assms(4,7) by (intro mult_left_mono) (simp_all add: field_simps)
    have "s * (1 - 2 * e) \<le> t" 
    proof -
      have "s * (1 - 2 * e) \<le> (t * (1 + e)) * (1 - 2 * e)"
        using assms(2,8) by (intro mult_right_mono) (simp_all add: near_def)
      also have "\<dots> \<le> t" using assms(4,7) by (simp add: algebra_simps)
      finally show ?thesis .
    qed
    moreover have "t \<le> s * (1 + 2 * e)"
    proof -
      have "0 \<le> t * (e * (1 - 2 * e))" using assms(4,7,8) by simp
      then have "t \<le> (t * (1 - e)) * (1 + 2 * e)" by (simp add: algebra_simps)
      also have "\<dots> \<le> s * (1 + 2 * e)" using assms(2,7) by (intro mult_right_mono) (simp_all add: near_def)
      finally show ?thesis .
    qed
    ultimately show ?thesis using s assms(4) by (simp add: near_def field_simps)
  qed
  from near_mult [OF assms(1) this assms(3) _ assms(5,6)] assms(4,7,8) show ?thesis by (simp add: algebra_simps)
qed

lemma near_weaken: "near d r q \<Longrightarrow> d \<le> e \<Longrightarrow> 0 \<le> q \<Longrightarrow> near e r q"
proof -
  assume a: "near d r q" "d \<le> e" "0 \<le> q"
  have "q * d \<le> q * e" using a(2,3) by (rule mult_left_mono)
  then show ?thesis using a(1) by (simp add: near_def algebra_simps)
qed

lemma near_trans:
  assumes "near e r q" "near d q p" "0 \<le> p" "0 \<le> d" "0 \<le> e" "e \<le> 1"
  shows "near (d + e + d * e) r p"
proof -
  have "p * (1 - d) * (1 - e) \<le> q * (1 - e)" "q * (1 + e) \<le> p * (1 + d) * (1 + e)"
    using assms(2,5,6) by (auto simp: near_def intro!: mult_right_mono)
  moreover have "0 \<le> 2 * (p * d * e)" using assms(3-5) by simp
  ultimately show ?thesis using assms(1) by (simp add: near_def algebra_simps)
qed

lemma rounded_near:
  assumes "near d x q" "1 / 2 ^ 999 \<le> q" "q \<le> 2 ^ 999" "0 \<le> d" "d \<le> 1 / 2" "d + ulp + d * ulp \<le> e"
  shows "\<exists>r. double_round x = Fin r \<and> near e r q"
proof -
  have q: "0 < q" by (rule less_le_trans [OF _ assms(2)]) simp
  have "q * (1 / 2) \<le> q * (1 - d)" "q * (1 + d) \<le> q * 2" by (rule mult_left_mono; use q assms(5) in simp)+
  then have "q / 2 \<le> x" "x \<le> q * 2" using assms(1) by (simp_all only: near_def) linarith+
  then have "1 / 2 ^ 1000 \<le> x" "x \<le> 2 ^ 1000" using assms(2,3) by simp_all
  then obtain r where r: "double_round x = Fin r" "near ulp r x" using double_round_near by blast
  have "near (d + ulp + d * ulp) r q"
    by (rule near_trans [OF r(2) assms(1)]) (use q assms(4) in \<open>simp_all add: ulp_def\<close>)
  then show ?thesis using r(1) near_weaken assms(6) q by (metis less_imp_le)
qed

lemma u64_at_least_one: "w \<noteq> 0 \<Longrightarrow> (1 :: rat) \<le> of_nat (unat (w :: u64))"
  using of_nat_le_iff [of 1 "unat w", where ?'a = rat] by (simp add: Suc_le_eq unat_gt_0 del: of_nat_le_iff)

lemma ulong_to_double_near:
  assumes "w \<noteq> 0"
  shows "\<exists>r. ulong_to_double w = Fin r \<and> near ulp r (of_nat (unat w))"
proof -
  have "(1 :: rat) \<le> of_nat (unat w)" by (rule u64_at_least_one [OF assms])
  moreover have "(1 :: rat) / 2 ^ 1000 \<le> 1" "(2 :: rat) ^ 64 \<le> 2 ^ 1000" by simp_all
  ultimately have "1 / 2 ^ 1000 \<le> (of_nat (unat w) :: rat)" "(of_nat (unat w) :: rat) \<le> 2 ^ 1000"
    using unat_u64_bound [of w] by linarith+
  from double_round_near [OF this] show ?thesis by (simp add: ulong_to_double_def double_of_int_def)
qed

text \<open>The estimate of a multiplexed counter, before it is rounded to an integer.\<close>

lemma estimate_core:
  fixes R E N :: rat
  assumes near: "near ulp a R" "near ulp b E" "near ulp c N"
    and one: "1 \<le> R" "1 \<le> E" "1 \<le> N" and top: "R \<le> 2 ^ 64" "E \<le> 2 ^ 64" "N \<le> 2 ^ 64"
  shows "\<exists>d. ddiv (dmul (Fin a) (Fin b)) (Fin c) = Fin d \<and> near (10 * ulp) d (R * E / N)"
proof -
  have RE: "1 \<le> R * E" "R * E \<le> 2 ^ 64 * 2 ^ 64"
    using mult_mono [OF one(1,2)] mult_mono [OF top(1,2)] one by simp_all
  have "near (ulp + ulp + ulp * ulp) (a * b) (R * E)"
    by (rule near_mult [OF near(1,2)]) (use one in \<open>simp_all add: ulp_def\<close>)
  then have "near (3 * ulp) (a * b) (R * E)" by (rule near_weaken) (use RE in \<open>simp_all add: ulp_def\<close>)
  then have "\<exists>m. double_round (a * b) = Fin m \<and> near (5 * ulp) m (R * E)"
  proof (rule rounded_near)
    show "1 / 2 ^ 999 \<le> R * E" by (rule order_trans [OF _ RE(1)]) simp
    show "R * E \<le> 2 ^ 999" by (rule order_trans [OF RE(2)]) simp
  qed (simp_all add: ulp_def)
  then obtain m where m: "double_round (a * b) = Fin m" "near (5 * ulp) m (R * E)" by blast
  have c0: "c \<noteq> 0"
  proof -
    have "0 < N * (1 - ulp)" using one(3) by (simp add: ulp_def)
    then show ?thesis using near(3) by (auto simp: near_def)
  qed
  have "near (5 * ulp + 2 * ulp + 2 * (5 * ulp) * ulp) (m / c) (R * E / N)"
    by (rule near_divide [OF m(2) near(3)]) (use RE one in \<open>simp_all add: ulp_def\<close>)
  then have "near (8 * ulp) (m / c) (R * E / N)"
    by (rule near_weaken) (use RE one in \<open>simp_all add: ulp_def\<close>)
  then have "\<exists>d. double_round (m / c) = Fin d \<and> near (10 * ulp) d (R * E / N)"
  proof (rule rounded_near)
    have "1 / N \<le> R * E / N" using one(3) RE(1) by (intro divide_right_mono) simp_all
    moreover have "1 / 2 ^ 64 \<le> 1 / N" using top(3) one(3) by (intro divide_left_mono) simp_all
    ultimately have "1 / 2 ^ 64 \<le> R * E / N" by linarith
    then show "1 / 2 ^ 999 \<le> R * E / N" by (rule order_trans [rotated]) simp
    have "R * E / N \<le> R * E / 1" using RE(1) one(3) by (intro divide_left_mono) simp_all
    then have "R * E / N \<le> 2 ^ 64 * 2 ^ 64" using RE(2) by linarith
    then show "R * E / N \<le> 2 ^ 999" by (rule order_trans) simp
  qed (simp_all add: ulp_def)
  then show ?thesis using m(1) c0 by auto
qed

lemma estimate_near:
  assumes "raw \<noteq> 0" "enabled \<noteq> 0" "running \<noteq> 0"
    and q: "q = of_nat (unat raw) * of_nat (unat enabled) / (of_nat (unat running) :: rat)"
  shows "\<exists>d. ddiv (dmul (ulong_to_double raw) (ulong_to_double enabled)) (ulong_to_double running) = Fin d \<and>
    near (10 * ulp) d q"
proof -
  obtain a b c where "ulong_to_double raw = Fin a" "near ulp a (of_nat (unat raw))"
    "ulong_to_double enabled = Fin b" "near ulp b (of_nat (unat enabled))"
    "ulong_to_double running = Fin c" "near ulp c (of_nat (unat running))"
    using ulong_to_double_near assms(1-3) by blast
  then show ?thesis unfolding q using assms(1-3)
    by (simp only:) (rule estimate_core; (rule u64_at_least_one | rule unat_u64_bound | assumption); assumption)
qed

lemma scaled_delta_near:
  assumes "0 < running" "running < enabled"
    and q: "q = of_nat (unat raw) * of_nat (unat enabled) / (of_nat (unat running) :: rat)" and "q \<le> 2 ^ 63"
  shows "\<bar>of_nat (unat (scaled_delta raw enabled running)) - q\<bar> \<le> 1 / 2 + (q + 1) / 2 ^ 49"
proof -
  have nz: "running \<noteq> 0" "enabled \<noteq> 0" using assms(1,2) by auto
  have q0: "0 \<le> q" unfolding q by (intro divide_nonneg_nonneg mult_nonneg_nonneg of_nat_0_le_iff)
  obtain d where d: "ddiv (dmul (ulong_to_double raw) (ulong_to_double enabled)) (ulong_to_double running) = Fin d"
    "near (10 * ulp) d q"
  proof (cases "raw = 0")
    case True
    obtain b c where "ulong_to_double enabled = Fin b" "ulong_to_double running = Fin c" "c \<noteq> 0"
      using ulong_to_double_pos [OF nz(1)] ulong_to_double_pos [OF nz(2)] by fastforce
    then show ?thesis using that [of 0] True by (simp add: q near_def)
  next
    case False
    then show ?thesis using estimate_near [OF False nz(2,1) q] that by blast
  qed
  have dq: "0 \<le> d" "d \<le> 2 ^ 64"
  proof -
    have "0 \<le> q * (1 - 10 * ulp)" "q * (1 + 10 * ulp) \<le> 2 ^ 63 * (1 + 10 * ulp)"
      using q0 mult_right_mono [OF assms(4), of "1 + 10 * ulp"] by (simp_all add: ulp_def)
    moreover have "2 ^ 63 * (1 + 10 * ulp) \<le> 2 ^ 64" by (simp add: ulp_def)
    ultimately show "0 \<le> d" "d \<le> 2 ^ 64" using d(2) by (simp_all add: near_def)
  qed
  have "1 / 2 ^ 1000 \<le> d + 1 / 2"
    by (rule order_trans [of _ "1 / 2"]) (use dq(1) in simp_all)
  moreover have "d + 1 / 2 \<le> 2 ^ 1000"
    by (rule order_trans [of _ "2 ^ 64 + 1"]) (use dq(2) in simp_all)
  ultimately obtain s where s: "double_round (d + 1 / 2) = Fin s" "near ulp s (d + 1 / 2)" using double_round_near by blast
  have err: "\<bar>s - (q + 1 / 2)\<bar> \<le> (q + 1) / 2 ^ 49"
  proof -
    have "s \<le> (d + 1 / 2) * (1 + ulp)" "(d + 1 / 2) * (1 - ulp) \<le> s" "d \<le> q * (1 + 10 * ulp)" "q * (1 - 10 * ulp) \<le> d"
      using s(2) d(2) by (simp_all only: near_def)
    then have "s - (q + 1 / 2) \<le> (q + 1) / 2 ^ 49" "- (s - (q + 1 / 2)) \<le> (q + 1) / 2 ^ 49"
      using q0 unfolding ulp_def by (simp_all add: field_simps)
    then show ?thesis by (simp only: abs_le_iff)
  qed
  have s0: "0 \<le> s"
  proof -
    have "0 \<le> (d + 1 / 2) * (1 - ulp)" using dq(1) by (simp add: ulp_def)
    then show ?thesis using s(2) by (simp add: near_def)
  qed
  have "s - (q + 1 / 2) \<le> (q + 1) / 2 ^ 49" using err by (simp only: abs_le_iff)
  moreover have "(q + 1) / 2 ^ 49 \<le> (2 ^ 63 + 1) / 2 ^ 49" by (rule divide_right_mono) (use assms(4) in simp_all)
  moreover have "((2 :: rat) ^ 63 + 1) / 2 ^ 49 + 2 ^ 63 + 1 / 2 < 2 ^ 64" by simp
  ultimately have "s < 2 ^ 64" using assms(4) by linarith
  then have "\<lfloor>s\<rfloor> < 2 ^ 64" by (simp add: floor_less_iff)
  then have "uint (word_of_int \<lfloor>s\<rfloor> :: u64) = \<lfloor>s\<rfloor>" using s0 by (simp add: uint_word_of_int_eq take_bit_int_eq_self)
  moreover have "scaled_delta raw enabled running = word_of_int \<lfloor>s\<rfloor>"
    using assms(1,2) s0 by (simp add: scaled_delta_def d(1) s(1) double_to_ulong_def)
  ultimately have "(of_nat (unat (scaled_delta raw enabled running)) :: rat) = of_int \<lfloor>s\<rfloor>"
    by (metis of_int_of_nat_eq uint_nat)
  then show ?thesis using err of_int_floor_le [of s] floor_correct [of s] by (simp only: abs_le_iff) linarith
qed

text \<open>C36: each reading of a counter reports what was counted since the last one, across wraps of all three 64-bit values:
  the times enabled and running exactly; the count exactly if the counter was not multiplexed, and otherwise, as long
  as the estimate is at most \<open>2^63\<close>, the count times enabled over running, within one half and a part in \<open>2^49\<close>. Over
  any sequence of readings the times add up to the difference of the cumulative times, and so do the counts if the
  counter was never multiplexed (its running time advances with its enabled time).\<close>
theorem read_counters_telescope:
  "(let x = record_read v e r c; raw = v - ci_last_read c; enabled = e - ci_last_time_enabled c;
        running = r - ci_last_time_running c;
        q = of_nat (unat raw) * of_nat (unat enabled) / (of_nat (unat running) :: rat)
    in ci_time_enabled x = enabled \<and> ci_time_running x = running \<and>
       (running = 0 \<or> enabled \<le> running \<longrightarrow> ci_value x = raw) \<and>
       (0 < running \<and> running < enabled \<and> q \<le> 2 ^ 63 \<longrightarrow>
         \<bar>of_nat (unat (ci_value x)) - q\<bar> \<le> 1 / 2 + (q + 1) / 2 ^ 49)) \<and>
   sum_list (map ci_time_enabled (run_reads rs c))
     = ci_last_time_enabled (last_counter (run_reads rs c) c) - ci_last_time_enabled c \<and>
   sum_list (map ci_time_running (run_reads rs c))
     = ci_last_time_running (last_counter (run_reads rs c) c) - ci_last_time_running c \<and>
   ((\<forall>(v, e, r) \<in> set rs. r = e) \<longrightarrow> ci_last_time_running c = ci_last_time_enabled c \<longrightarrow>
     sum_list (map ci_value (run_reads rs c)) = ci_last_read (last_counter (run_reads rs c) c) - ci_last_read c)"
proof -
  have "sum_list (map ci_time_enabled (run_reads rs c))
      = ci_last_time_enabled (last_counter (run_reads rs c) c) - ci_last_time_enabled c \<and>
    sum_list (map ci_time_running (run_reads rs c))
      = ci_last_time_running (last_counter (run_reads rs c) c) - ci_last_time_running c \<and>
    ((\<forall>(v, e, r) \<in> set rs. r = e) \<longrightarrow> ci_last_time_running c = ci_last_time_enabled c \<longrightarrow>
      sum_list (map ci_value (run_reads rs c)) = ci_last_read (last_counter (run_reads rs c) c) - ci_last_read c)"
  proof (induction rs c rule: run_reads.induct)
    case (2 v e r rs c)
    then show ?case
      by (simp add: last_counter_Cons Let_def) (auto simp: scaled_delta_def algebra_simps)
  qed (simp add: last_counter_def)
  moreover have "scaled_delta raw enabled running = raw" if "running = 0 \<or> enabled \<le> running" for raw enabled running
    using that by (auto simp: scaled_delta_def)
  ultimately show ?thesis
    using scaled_delta_near [OF _ _ refl, of "r - ci_last_time_running c" "e - ci_last_time_enabled c" "v - ci_last_read c"]
    by (simp add: Let_def)
qed

text \<open>Two readings without multiplexing, and one of a counter that ran half of the time.\<close>

lemma read_counters_telescope_witness:
  "sum_list (map ci_value (run_reads [(100, 10, 10), (250, 20, 20)] counter_info_zero)) = 250 \<and>
   \<bar>of_nat (unat (ci_value (record_read 100 20 10 counter_info_zero))) - 200\<bar> \<le> (1 :: rat)"
proof
  show "sum_list (map ci_value (run_reads [(100, 10, 10), (250, 20, 20)] counter_info_zero)) = 250"
    using read_counters_telescope [of 0 0 0 counter_info_zero "[(100, 10, 10), (250, 20, 20)]"]
    by (simp add: last_counter_def counter_info_zero_def Let_def)
  have z: "ci_last_read counter_info_zero = 0" "ci_last_time_enabled counter_info_zero = 0"
    "ci_last_time_running counter_info_zero = 0"
    by (simp_all add: counter_info_zero_def)
  show "\<bar>of_nat (unat (ci_value (record_read 100 20 10 counter_info_zero))) - 200\<bar> \<le> (1 :: rat)"
    using read_counters_telescope [of 100 20 10 counter_info_zero "[]", THEN conjunct1, unfolded Let_def z]
    by (simp del: record_read_fields)
qed

text \<open>\<open>close_counters\<close> closes each open descriptor exactly once, in order, leaves no counter with a
  descriptor, drops every symbol-sampling ring of a counter it closed, and closes nothing when run again.\<close>
theorem close_counters_complete:
  "snd (close_counters gs) = open_fds gs \<and>
   open_fds (fst (close_counters gs)) = [] \<and>
   snd (close_counters (fst (close_counters gs))) = [] \<and>
   fst (close_counters (fst (close_counters gs))) = fst (close_counters gs)"
proof -
  have fds: "filter (\<lambda>fd. fd \<noteq> -1) (map ci_fd cs) = map ci_fd (filter (\<lambda>c. ci_fd c \<noteq> -1) cs)" for cs
    by (induction cs) simp_all
  have none: "filter (\<lambda>c. ci_fd c \<noteq> -1) (map close_counter cs) = []" for cs
    by (auto simp: filter_empty_conv close_counter_def)
  have idem: "map close_counter (map close_counter cs) = map close_counter cs" for cs
    by (simp add: close_counter_def)
  show ?thesis
    unfolding close_counters_def open_fds_def fds fst_conv snd_conv
    by (induction gs) (simp_all add: none idem del: map_map)
qed

end
