(* ===== verification/Ptrace_Table.thy ===== *)
theory Ptrace_Table
  imports Proc_Print Counter_Runtime
begin

text \<open>
  What the tracer of src/topdown.c keeps of each process it follows: \<open>struct ptrace_pid_entry\<close>, the table
  \<open>ptrace_pid_table\<close> with its operations, the classification of system calls, \<open>--target\<close> specifications
  and the texts read from a stopped process. Constants of the Linux system headers have their x86-64 values.
\<close>

section \<open>A table whose entries are written in place\<close>

fun chain_modify :: "u32 \<Rightarrow> ('a \<Rightarrow> 'a) \<Rightarrow> (u32 \<times> 'a) list \<Rightarrow> (u32 \<times> 'a) list" where
  "chain_modify pid f [] = []"
| "chain_modify pid f ((p, a) # es) = (if p = pid then (p, f a) # es else (p, a) # chain_modify pid f es)"

definition table_modify :: "u32 \<Rightarrow> ('a \<Rightarrow> 'a) \<Rightarrow> 'a buckets \<Rightarrow> 'a buckets" where
  "table_modify pid f t = t[bucket_of t pid := chain_modify pid f (t ! bucket_of t pid)]"

lemma chain_modify_keys [simp]: "map fst (chain_modify pid f es) = map fst es"
  by (induction pid f es rule: chain_modify.induct) auto

lemma chain_find_modify:
  "chain_find q (chain_modify pid f es) = (if q = pid then map_option f (chain_find q es) else chain_find q es)"
  by (induction pid f es rule: chain_modify.induct) auto

lemma table_find_modify:
  "table_ok t \<Longrightarrow>
   table_find (table_modify pid f t) q = (if q = pid then map_option f (table_find t q) else table_find t q)"
  using bucket_of_bound [of t] by (auto simp: table_find_def table_modify_def nth_list_update chain_find_modify)

lemma table_modify_ok: "table_ok t \<Longrightarrow> table_ok (table_modify pid f t)"
  unfolding table_ok_def
proof (intro conjI allI impI ballI)
  assume ok: "t \<noteq> [] \<and> (\<forall>i < length t. (\<forall>e \<in> set (t ! i). bucket_of t (fst e) = i) \<and> distinct (map fst (t ! i)))"
  then show "table_modify pid f t \<noteq> []" by (simp add: table_modify_def)
  fix i assume i: "i < length (table_modify pid f t)"
  have keys: "map fst (table_modify pid f t ! i) = map fst (t ! i)"
    using i by (cases "i = bucket_of t pid") (simp_all add: table_modify_def)
  show "distinct (map fst (table_modify pid f t ! i))"
    using ok i unfolding keys by (simp add: table_modify_def)
  fix e assume "e \<in> set (table_modify pid f t ! i)"
  then have "fst e \<in> fst ` set (t ! i)" using keys by (metis image_eqI list.set_map)
  then show "bucket_of (table_modify pid f t) (fst e) = i"
    using ok i by (fastforce simp: table_modify_def)
qed

text \<open>
  A table that grows and is written in place. Every use of the tracer is \<open>touch\<close>: look an id up, create it
  zeroed if it is new, and write its entry. What one id's entry is depends on that id's writes only.
\<close>

locale pid_store = pid_index find push size_of ok
  for find :: "'t \<Rightarrow> u32 \<Rightarrow> 'a option" and push size_of ok +
  fixes modify :: "u32 \<Rightarrow> ('a \<Rightarrow> 'a) \<Rightarrow> 't \<Rightarrow> 't"
  assumes find_modify: "ok t \<Longrightarrow> find (modify p f t) q = (if q = p then map_option f (find t q) else find t q)"
    and modify_ok: "ok t \<Longrightarrow> ok (modify p f t)"
begin

definition touch :: "'a \<Rightarrow> u32 \<Rightarrow> ('a \<Rightarrow> 'a) \<Rightarrow> 't \<Rightarrow> 't" where
  "touch z p f t = modify p f (ensure p z t)"

definition entry :: "'a \<Rightarrow> 't \<Rightarrow> u32 \<Rightarrow> 'a" where
  "entry z t p = (case find t p of Some a \<Rightarrow> a | None \<Rightarrow> z)"

lemma touch_ok: "ok t \<Longrightarrow> ok (touch z p f t)"
  by (simp add: touch_def modify_ok ensure_ok)

lemma find_touch:
  "ok t \<Longrightarrow> find (touch z p f t) q = (if q = p then Some (f (entry z t p)) else find t q)"
  by (auto simp: touch_def find_modify ensure_ok find_ensure entry_def split: option.splits)

lemma entry_touch: "ok t \<Longrightarrow> entry z (touch z p f t) q = (if q = p then f (entry z t p) else entry z t q)"
  by (simp add: entry_def find_touch)

lemma entry_modify:
  "ok t \<Longrightarrow> f z = z \<Longrightarrow> entry z (modify p f t) q = (if q = p then f (entry z t p) else entry z t q)"
  by (simp add: entry_def find_modify split: option.split)

text \<open>A run of writes, each to one id: an id's entry is the result of its own writes, in their order.\<close>

lemma touch_run:
  "ok t \<Longrightarrow> entry z (fold (\<lambda>(p, f). touch z p f) ws t) q =
     fold (\<lambda>(p, f). f) (filter (\<lambda>w. fst w = q) ws) (entry z t q)"
  by (induction ws arbitrary: t) (auto simp: touch_ok entry_touch split: prod.splits)

end

interpretation store: pid_store "table_find :: 'a buckets \<Rightarrow> _" table_push table_size table_ok table_modify
  by unfold_locales (auto simp: table_find_modify table_modify_ok)

section \<open>One process\<close>

text \<open>
  The syscall bookkeeping of an entry, grouped in a record of its own, and the rest of the entry; a pending
  exit block is its text, and an empty list of counter groups the null pointer. The syscall number is kept by
  its 64 bits: it is only compared.
\<close>

record syscall_track =
  sy_in_syscall :: bool
  sy_current_syscall :: u64
  sy_syscall_entry_elapsed :: double
  sy_futex_is_wait :: bool
  sy_futex_wait_count :: u64
  sy_futex_wait_seconds :: double
  sy_io_wait_is_write :: bool
  sy_io_read_wait_count :: u64
  sy_io_read_wait_seconds :: double
  sy_io_write_wait_count :: u64
  sy_io_write_wait_seconds :: double
  sy_connect_count :: u64
  sy_connect_seconds :: double
  sy_nanosleep_count :: u64
  sy_nanosleep_seconds :: double
  sy_wait_count :: u64
  sy_wait_seconds :: double
  sy_poll_count :: u64
  sy_poll_seconds :: double

record ptrace_pid_entry =
  pe_known :: bool
  pe_pending_exit :: "string option"
  pe_target_counters :: "counter_group list"
  pe_track :: syscall_track

definition syscall_track_zero :: syscall_track where
  "syscall_track_zero =
     \<lparr>sy_in_syscall = False, sy_current_syscall = 0, sy_syscall_entry_elapsed = Fin 0, sy_futex_is_wait = False,
      sy_futex_wait_count = 0, sy_futex_wait_seconds = Fin 0, sy_io_wait_is_write = False,
      sy_io_read_wait_count = 0, sy_io_read_wait_seconds = Fin 0, sy_io_write_wait_count = 0,
      sy_io_write_wait_seconds = Fin 0, sy_connect_count = 0, sy_connect_seconds = Fin 0,
      sy_nanosleep_count = 0, sy_nanosleep_seconds = Fin 0, sy_wait_count = 0, sy_wait_seconds = Fin 0,
      sy_poll_count = 0, sy_poll_seconds = Fin 0\<rparr>"

definition ptrace_pid_entry_zero :: ptrace_pid_entry where
  "ptrace_pid_entry_zero =
     \<lparr>pe_known = False, pe_pending_exit = None, pe_target_counters = [], pe_track = syscall_track_zero\<rparr>"

section \<open>The table\<close>

definition PTRACE_PID_TABLE_BUCKETS :: nat where "PTRACE_PID_TABLE_BUCKETS = 4093"

type_synonym ptrace_pid_table = "ptrace_pid_entry buckets"

definition ptrace_pid_table_initial :: ptrace_pid_table where
  "ptrace_pid_table_initial = replicate PTRACE_PID_TABLE_BUCKETS []"

text \<open>\<open>ptrace_pid_lookup\<close>: the entry found and the table with it.\<close>

definition ptrace_pid_lookup ::
  "u32 \<Rightarrow> bool \<Rightarrow> ptrace_pid_table \<Rightarrow> ptrace_pid_entry option \<times> ptrace_pid_table"
where
  "ptrace_pid_lookup pid create t =
     (case table_find t pid of
        Some e \<Rightarrow> (Some e, t)
      | None \<Rightarrow>
          if create then (Some ptrace_pid_entry_zero, table_push pid ptrace_pid_entry_zero t) else (None, t))"

text \<open>Writing an entry through the pointer that a creating lookup returned.\<close>

definition with_entry ::
  "u32 \<Rightarrow> (ptrace_pid_entry \<Rightarrow> ptrace_pid_entry) \<Rightarrow> ptrace_pid_table \<Rightarrow> ptrace_pid_table"
where
  "with_entry pid f t = table_modify pid f (snd (ptrace_pid_lookup pid True t))"

definition entry_of_pid :: "ptrace_pid_table \<Rightarrow> u32 \<Rightarrow> ptrace_pid_entry" where
  "entry_of_pid t pid = (case table_find t pid of Some e \<Rightarrow> e | None \<Rightarrow> ptrace_pid_entry_zero)"

definition ptrace_pid_is_known :: "u32 \<Rightarrow> ptrace_pid_table \<Rightarrow> bool" where
  "ptrace_pid_is_known pid t =
     (case fst (ptrace_pid_lookup pid False t) of Some e \<Rightarrow> pe_known e | None \<Rightarrow> False)"

text \<open>Marking returns the exit block that waited for this, which is written.\<close>

definition ptrace_pid_mark_known :: "u32 \<Rightarrow> ptrace_pid_table \<Rightarrow> string option \<times> ptrace_pid_table" where
  "ptrace_pid_mark_known pid t =
     (pe_pending_exit (entry_of_pid (snd (ptrace_pid_lookup pid True t)) pid),
      with_entry pid (\<lambda>e. e\<lparr>pe_known := True, pe_pending_exit := None\<rparr>) t)"

definition ptrace_pid_defer_exit :: "u32 \<Rightarrow> string \<Rightarrow> ptrace_pid_table \<Rightarrow> ptrace_pid_table" where
  "ptrace_pid_defer_exit pid text = with_entry pid (\<lambda>e. e\<lparr>pe_pending_exit := Some text\<rparr>)"

text \<open>The blocks still waiting at the end, in the order of the buckets; the table is empty afterwards.\<close>

definition ptrace_pid_table_flush_and_free :: "ptrace_pid_table \<Rightarrow> (u32 \<times> string) list \<times> ptrace_pid_table" where
  "ptrace_pid_table_flush_and_free t =
     (concat (map (\<lambda>chain. concat (map (\<lambda>(pid, e).
        case pe_pending_exit e of None \<Rightarrow> [] | Some text \<Rightarrow> [(pid, text)]) chain)) t),
      replicate (length t) [])"

lemma with_entry_touch: "with_entry pid f t = store.touch ptrace_pid_entry_zero pid f t"
  by (simp add: with_entry_def ptrace_pid_lookup_def store.touch_def buckets.ensure_def split: option.split)

lemma entry_of_pid_store: "entry_of_pid t pid = store.entry ptrace_pid_entry_zero t pid"
  by (simp add: entry_of_pid_def store.entry_def)

lemma with_entry_ok [simp]: "table_ok t \<Longrightarrow> table_ok (with_entry pid f t)"
  by (simp add: with_entry_touch store.touch_ok)

lemma entry_of_with_entry:
  "table_ok t \<Longrightarrow> entry_of_pid (with_entry pid f t) q = (if q = pid then f (entry_of_pid t pid) else entry_of_pid t q)"
  by (simp add: with_entry_touch entry_of_pid_store store.entry_touch)

lemma initial_table_ok: "table_ok ptrace_pid_table_initial"
  by (simp add: ptrace_pid_table_initial_def table_empty PTRACE_PID_TABLE_BUCKETS_def)

lemma entry_initial: "entry_of_pid ptrace_pid_table_initial pid = ptrace_pid_entry_zero"
  by (simp add: ptrace_pid_table_initial_def entry_of_pid_def table_empty PTRACE_PID_TABLE_BUCKETS_def)

lemma is_known_entry: "ptrace_pid_is_known pid t \<longleftrightarrow> pe_known (entry_of_pid t pid)"
  by (simp add: ptrace_pid_is_known_def ptrace_pid_lookup_def entry_of_pid_def ptrace_pid_entry_zero_def
      split: option.split)

lemma entry_of_lookup: "table_ok t \<Longrightarrow> entry_of_pid (snd (ptrace_pid_lookup pid True t)) q = entry_of_pid t q"
  by (auto simp: ptrace_pid_lookup_def entry_of_pid_def table_find_push split: option.splits)

end
