(* ===== verification/Ptrace_Text.thy ===== *)
theory Ptrace_Text
  imports Ptrace_Table
begin

text \<open>
  The texts of the tracer of src/topdown.c: \<open>--target\<close> specifications, a string read from the memory of a
  stopped process, the lines it writes of a process and what it reads of the files below \<open>/proc/<pid>\<close>, whose
  contents at the stop are values.
\<close>

section \<open>Target specifications\<close>

record target_spec =
  tg_comm :: "string option"
  tg_cmdline_substr :: "string option"

definition target_item :: "string \<Rightarrow> target_spec \<Rightarrow> target_spec option" where
  "target_item tok spec =
     (if starts_with ''comm='' tok \<and> drop 5 tok \<noteq> [] then Some (spec\<lparr>tg_comm := Some (drop 5 tok)\<rparr>)
      else if starts_with ''cmdline='' tok \<and> drop 8 tok \<noteq> []
      then Some (spec\<lparr>tg_cmdline_substr := Some (drop 8 tok)\<rparr>) else None)"

fun target_items :: "string list \<Rightarrow> target_spec \<Rightarrow> target_spec option" where
  "target_items [] spec = Some spec"
| "target_items (tok # toks) spec = (case target_item tok spec of None \<Rightarrow> None | Some spec' \<Rightarrow> target_items toks spec')"

text \<open>\<open>None\<close> is the return value -1, which leaves the caller's specification as it was.\<close>

definition target_parse_spec :: "string option \<Rightarrow> target_spec option" where
  "target_parse_spec arg =
     (case arg of
        None \<Rightarrow> None
      | Some s \<Rightarrow>
          (if s = [] then None
           else
             (case target_items (tokens (\<lambda>c. c = CHR '','') s) \<lparr>tg_comm = None, tg_cmdline_substr = None\<rparr> of
                None \<Rightarrow> None
              | Some spec \<Rightarrow>
                  if tg_comm spec = None \<and> tg_cmdline_substr spec = None then None else Some spec)))"

definition target_match :: "target_spec \<Rightarrow> string option \<Rightarrow> string option \<Rightarrow> bool" where
  "target_match spec comm cmdline \<longleftrightarrow>
     (case tg_comm spec of None \<Rightarrow> True | Some c \<Rightarrow> comm = Some c) \<and>
     (case tg_cmdline_substr spec of
        None \<Rightarrow> True
      | Some sub \<Rightarrow> (case cmdline of None \<Rightarrow> False | Some l \<Rightarrow> strstr l sub \<noteq> None))"

section \<open>A string of the traced process\<close>

text \<open>
  \<open>PTRACE_PEEKDATA\<close> is a function from addresses to words, \<open>None\<close> an error. The static buffer has 4096 bytes,
  so at most 1024 words are read; of each its four low bytes are kept. \<open>Peek_Unterminated\<close>: the buffer is
  full without a terminator, so what is printed runs past its end.
\<close>

datatype peeked = Peek_Error | Peek_String string | Peek_Unterminated

definition word_chars :: "u64 \<Rightarrow> string" where
  "word_chars w = map (\<lambda>i. char_of (unat (drop_bit (8 * i) w) mod 256)) [0..<4]"

fun peek_words :: "nat \<Rightarrow> (u64 \<Rightarrow> u64 option) \<Rightarrow> u64 \<Rightarrow> string \<Rightarrow> peeked" where
  "peek_words 0 memory a buffer = Peek_Unterminated"
| "peek_words (Suc n) memory a buffer =
     (case memory a of
        None \<Rightarrow> Peek_Error
      | Some w \<Rightarrow>
          if NUL \<in> set (word_chars w) then Peek_String (buffer @ cstr (word_chars w))
          else peek_words n memory (a + 4) (buffer @ word_chars w))"

definition ptrace_read_null_terminated_string :: "(u64 \<Rightarrow> u64 option) \<Rightarrow> u64 \<Rightarrow> peeked" where
  "ptrace_read_null_terminated_string memory a = peek_words 1024 memory a []"

section \<open>Lines\<close>

text \<open>\<open>%5.3f %d\<close> and a blank, in front of every line.\<close>

definition stamp :: "double \<Rightarrow> u32 \<Rightarrow> string" where
  "stamp elapsed pid = fmt_fixed_w 5 3 elapsed @ '' '' @ d_text pid @ '' ''"

definition count_line :: "double \<Rightarrow> u32 \<Rightarrow> string \<Rightarrow> u64 \<Rightarrow> double \<Rightarrow> string" where
  "count_line elapsed pid name n seconds =
     stamp elapsed pid @ name @ '' '' @ u_text n @ '' '' @ fmt_fixed 6 seconds @ newline"

section \<open>Files of a process\<close>

text \<open>What the files hold while the process is stopped; \<open>None\<close> is a file that cannot be opened, for
  \<open>pv_exe\<close> a \<open>readlink\<close> that fails.\<close>

record proc_view =
  pv_comm :: "string option"
  pv_cmdline :: "string option"
  pv_io :: "string option"
  pv_schedstat :: "string option"
  pv_status :: "string option"
  pv_maps :: "string option"
  pv_stat :: "string option"
  pv_exe :: "string option"

text \<open>The first line of a file after a keyword; nothing if the file is missing or empty.\<close>

definition first_line_of :: "nat \<Rightarrow> string option \<Rightarrow> string option" where
  "first_line_of n file =
     (case file of None \<Rightarrow> None | Some s \<Rightarrow> if s = [] then None else Some (cstr (fst (fgets n s))))"

definition head_line :: "double \<Rightarrow> u32 \<Rightarrow> string \<Rightarrow> string option \<Rightarrow> string" where
  "head_line elapsed pid name file =
     (case first_line_of 1023 file of None \<Rightarrow> [] | Some l \<Rightarrow> stamp elapsed pid @ name @ '' '' @ l)"

text \<open>\<open>getdelim\<close> with a zero byte: the arguments; a last one may lack its terminator.\<close>

fun nul_pieces_aux :: "string \<Rightarrow> string \<Rightarrow> string list" where
  "nul_pieces_aux acc [] = (if acc = [] then [] else [rev acc])"
| "nul_pieces_aux acc (c # s) = (if c = NUL then rev acc # nul_pieces_aux [] s else nul_pieces_aux (c # acc) s)"

definition nul_pieces :: "string \<Rightarrow> string list" where
  "nul_pieces s = nul_pieces_aux [] s"

definition cmdline_line :: "double \<Rightarrow> u32 \<Rightarrow> string option \<Rightarrow> string" where
  "cmdline_line elapsed pid file =
     stamp elapsed pid @ ''cmdline'' @
     (case file of None \<Rightarrow> [] | Some s \<Rightarrow> concat (map (\<lambda>a. '' '' @ a) (nul_pieces s))) @ newline"

text \<open>\<open>sscanf(line,"label %lu",&v)\<close>, the label followed by a colon: assigns where it matches.\<close>

definition scan_label :: "string \<Rightarrow> string \<Rightarrow> u64 \<Rightarrow> u64" where
  "scan_label label line v =
     (if starts_with label line
      then (case scan_ul 10 (drop (length label) line) of None \<Rightarrow> v | Some (w, _) \<Rightarrow> w) else v)"

definition labelled :: "string \<Rightarrow> string list \<Rightarrow> u64" where
  "labelled label lines = fold (scan_label label) lines 0"

definition io_line :: "double \<Rightarrow> u32 \<Rightarrow> string option \<Rightarrow> string" where
  "io_line elapsed pid file =
     (case file of
        None \<Rightarrow> []
      | Some s \<Rightarrow>
          (let ls = proc_lines 126 s in
           stamp elapsed pid @ ''io '' @ u_text (labelled ''rchar:'' ls) @ '' '' @
           u_text (labelled ''wchar:'' ls) @ '' '' @ u_text (labelled ''syscr:'' ls) @ '' '' @
           u_text (labelled ''syscw:'' ls) @ '' '' @ u_text (labelled ''read_bytes:'' ls) @ '' '' @
           u_text (labelled ''write_bytes:'' ls) @ '' '' @
           u_text (labelled ''cancelled_write_bytes:'' ls) @ newline))"

text \<open>\<open>fscanf\<close> of three numbers.\<close>

definition scan_three :: "string \<Rightarrow> (u64 \<times> u64 \<times> u64) option" where
  "scan_three s =
     (case scan_ul 10 s of
        None \<Rightarrow> None
      | Some (a, r1) \<Rightarrow>
          (case scan_ul 10 r1 of
             None \<Rightarrow> None
           | Some (b, r2) \<Rightarrow> (case scan_ul 10 r2 of None \<Rightarrow> None | Some (c, _) \<Rightarrow> Some (a, b, c))))"

definition schedstat_line :: "double \<Rightarrow> u32 \<Rightarrow> string option \<Rightarrow> string" where
  "schedstat_line elapsed pid file =
     (case Option.bind file scan_three of
        None \<Rightarrow> []
      | Some (cpu_ns, rundelay_ns, timeslices) \<Rightarrow>
          stamp elapsed pid @ ''schedstat '' @
          fmt_fixed 6 (ddiv (ulong_to_double cpu_ns) (Fin 1000000000)) @ '' '' @
          fmt_fixed 6 (ddiv (ulong_to_double rundelay_ns) (Fin 1000000000)) @ '' '' @
          u_text timeslices @ newline)"

definition vmsize_line :: "double \<Rightarrow> u32 \<Rightarrow> string option \<Rightarrow> string" where
  "vmsize_line elapsed pid file =
     (case file of
        None \<Rightarrow> []
      | Some s \<Rightarrow>
          (let ls = proc_lines 126 s in
           stamp elapsed pid @ ''vmsize '' @ u_text (labelled ''VmHWM:'' ls) @ '' '' @
           u_text (labelled ''RssAnon:'' ls) @ '' '' @ u_text (labelled ''RssFile:'' ls) @ '' '' @
           u_text (labelled ''RssShmem:'' ls) @ '' '' @ u_text (labelled ''VmSwap:'' ls) @ newline))"

section \<open>Mapped regions\<close>

text \<open>The path of a line of \<open>maps\<close>, after the offset: device and inode are skipped; at most 399 bytes.\<close>

definition map_path :: "string \<Rightarrow> string" where
  "map_path r =
     (case scan_ul 16 r of
        Some (_, CHR '':'' # r1) \<Rightarrow>
          (case scan_ul 16 r1 of
             Some (_, r2) \<Rightarrow>
               (case scan_ul 10 r2 of
                  Some (_, r3) \<Rightarrow> take 399 (takeWhile (\<lambda>c. c \<noteq> LF) (skip_spaces r3))
                | None \<Rightarrow> [])
           | None \<Rightarrow> [])
      | _ \<Rightarrow> [])"

text \<open>Start, end, permissions, offset and path of a line with at least the first four fields.\<close>

definition map_fields :: "string \<Rightarrow> (u64 \<times> u64 \<times> string \<times> u64 \<times> string) option" where
  "map_fields line =
     (case scan_ul 16 line of
        Some (a, CHR ''-'' # r1) \<Rightarrow>
          (case scan_ul 16 r1 of
             None \<Rightarrow> None
           | Some (b, r2) \<Rightarrow>
               (case scan_word 7 r2 of
                  None \<Rightarrow> None
                | Some (perms, r3) \<Rightarrow>
                    (case scan_ul 16 r3 of
                       None \<Rightarrow> None
                     | Some (off, r4) \<Rightarrow> Some (a, b, perms, off, map_path r4))))
      | _ \<Rightarrow> None)"

definition map_line :: "double \<Rightarrow> u32 \<Rightarrow> string \<Rightarrow> string" where
  "map_line elapsed pid line =
     (case map_fields line of
        None \<Rightarrow> []
      | Some (a, b, perms, off, path) \<Rightarrow>
          (if length perms < 3 \<or> perms ! 2 \<noteq> CHR ''x'' then []
           else if peek path \<noteq> CHR ''/'' then []
           else stamp elapsed pid @ ''targetmap '' @ lx_text a @ '' '' @ lx_text b @ '' '' @ lx_text off @ '' '' @
             path @ newline))"

definition write_target_maps :: "double \<Rightarrow> u32 \<Rightarrow> string option \<Rightarrow> string" where
  "write_target_maps elapsed pid file =
     (case file of None \<Rightarrow> [] | Some s \<Rightarrow> concat (map (map_line elapsed pid) (proc_lines 510 s)))"

definition target_counter_safe_label :: "string \<Rightarrow> nat \<Rightarrow> string" where
  "target_counter_safe_label src dstsize =
     map (\<lambda>c. if c = CHR '' '' then CHR ''_'' else c) (take (dstsize - 1) src)"

section \<open>What a specification matches\<close>

lemma token_pair:
  assumes "a \<noteq> []" and "b \<noteq> []" and "CHR '','' \<notin> set a" and "CHR '','' \<notin> set b"
  shows "tokens (\<lambda>c. c = CHR '','') (a @ CHR '','' # b) = [a, b]"
proof -
  have "tokens (\<lambda>c. c = CHR '','') b = [b]" using assms by (intro tokens_word) auto
  then show ?thesis using assms by (subst tokens_word_sep) auto
qed

lemma target_parse_pair:
  assumes "comm \<noteq> []" and "sub \<noteq> []" and "CHR '','' \<notin> set comm" and "CHR '','' \<notin> set sub"
  shows "target_parse_spec (Some (''comm='' @ comm @ '',cmdline='' @ sub)) =
    Some \<lparr>tg_comm = Some comm, tg_cmdline_substr = Some sub\<rparr>"
proof -
  have "tokens (\<lambda>c. c = CHR '','') ((''comm='' @ comm) @ CHR '','' # (''cmdline='' @ sub)) =
      [''comm='' @ comm, ''cmdline='' @ sub]"
    using assms by (intro token_pair) auto
  then show ?thesis
    using assms by (simp add: target_parse_spec_def target_item_def)
qed

lemma target_match_pair:
  "target_match \<lparr>tg_comm = Some comm, tg_cmdline_substr = Some sub\<rparr> (Some c) (Some l) \<longleftrightarrow>
     c = comm \<and> (\<exists>a b. l = a @ sub @ b)"
  using strstr_Some_iff [of l sub] by (auto simp: target_match_def)

section \<open>Reading a string of the traced process\<close>

text \<open>What peeking at a word of a byte memory shows: the bytes at its address, lowest first.\<close>

definition shows_bytes :: "(u64 \<Rightarrow> u64 option) \<Rightarrow> (u64 \<Rightarrow> char) \<Rightarrow> bool" where
  "shows_bytes memory bytes \<longleftrightarrow>
     (\<forall>a. \<exists>w. memory a = Some w \<and> word_chars w = map (\<lambda>i. bytes (a + of_nat i)) [0..<4])"

definition bytes_at :: "(u64 \<Rightarrow> char) \<Rightarrow> u64 \<Rightarrow> nat \<Rightarrow> string" where
  "bytes_at bytes a n = map (\<lambda>i. bytes (a + of_nat i)) [0..<n]"

lemma cstr_append: "cstr (s @ t) = (if NUL \<in> set s then cstr s else s @ cstr t)"
  by (induction s) (auto simp: cstr_def)

lemma bytes_at_add: "bytes_at bytes a (m + n) = bytes_at bytes a m @ bytes_at bytes (a + of_nat m) n"
proof -
  have "[m..<m + n] = map (\<lambda>i. i + m) [0..<n]" by (simp add: map_add_upt add.commute)
  then show ?thesis
    by (simp only: bytes_at_def upt_add_eq_append [OF le0] map_append add_0) (simp add: ac_simps)
qed

lemma peek_words_bytes:
  assumes "shows_bytes memory bytes"
  shows "peek_words n memory a buffer =
    (if NUL \<in> set (bytes_at bytes a (4 * n)) then Peek_String (buffer @ cstr (bytes_at bytes a (4 * n)))
     else Peek_Unterminated)"
proof (induction n arbitrary: a buffer)
  case 0
  then show ?case by (simp add: bytes_at_def)
next
  case (Suc n)
  obtain w where w: "memory a = Some w" "word_chars w = bytes_at bytes a 4"
    using assms unfolding shows_bytes_def bytes_at_def by metis
  have "bytes_at bytes a (4 * Suc n) = bytes_at bytes a 4 @ bytes_at bytes (a + 4) (4 * n)"
    using bytes_at_add [of bytes a 4 "4 * n"] by simp
  then show ?case using w Suc.IH [of "a + 4" "buffer @ bytes_at bytes a 4"] by (simp add: cstr_append)
qed

section \<open>Properties\<close>

text \<open>A target specification with a name and a command-line part is parsed back to both, and it matches
  exactly the processes of that name whose command line contains the part.\<close>
theorem target_spec_matches:
  assumes "comm \<noteq> []" and "sub \<noteq> []" and "CHR '','' \<notin> set comm" and "CHR '','' \<notin> set sub"
  shows "\<exists>spec. target_parse_spec (Some (''comm='' @ comm @ '',cmdline='' @ sub)) = Some spec \<and>
    (target_match spec (Some c) (Some l) \<longleftrightarrow> c = comm \<and> (\<exists>a b. l = a @ sub @ b))"
  using target_parse_pair [OF assms] target_match_pair by blast

lemma target_spec_matches_witness:
  "\<exists>spec. target_parse_spec (Some ''comm=gcc,cmdline=-O2'') = Some spec \<and>
     target_match spec (Some ''gcc'') (Some ''gcc -O2 x.c'')"
proof -
  have "\<exists>a b. ''gcc -O2 x.c'' = a @ ''-O2'' @ b" by (rule exI [of _ "''gcc ''"]) simp
  then show ?thesis using target_spec_matches [of "''gcc''" "''-O2''" "''gcc''" "''gcc -O2 x.c''"] by auto
qed

text \<open>If the traced process shows a byte memory, the string read is the one that starts at the address,
  whenever its terminator is among the first 4096 bytes; otherwise the buffer is left without a terminator.\<close>
theorem ptrace_string_read:
  assumes "shows_bytes memory bytes"
  shows "ptrace_read_null_terminated_string memory a =
    (if NUL \<in> set (bytes_at bytes a 4096) then Peek_String (cstr (bytes_at bytes a 4096)) else Peek_Unterminated)"
  unfolding ptrace_read_null_terminated_string_def using peek_words_bytes [OF assms, of 1024 a "[]"] by simp

text \<open>A memory that alternates a letter and a terminator, and one without any terminator.\<close>

lemma word_chars_sample:
  "word_chars 0 = [NUL, NUL, NUL, NUL]" "word_chars 0x41414141 = [CHR ''A'', CHR ''A'', CHR ''A'', CHR ''A'']"
proof -
  have "char_of (0 :: nat) = NUL" "char_of (65 :: nat) = CHR ''A''"
    using char_of_char [of NUL] char_of_char [of "CHR ''A''"] by (simp_all add: NUL_def)
  then show "word_chars 0 = [NUL, NUL, NUL, NUL]"
    "word_chars 0x41414141 = [CHR ''A'', CHR ''A'', CHR ''A'', CHR ''A'']"
    by (simp_all add: word_chars_def upt_rec unat_drop_bit_eq drop_bit_eq_div del: char_of_mod_256)
qed

lemma ptrace_string_read_witness:
  "ptrace_read_null_terminated_string (\<lambda>_. Some 0) 7 = Peek_String [] \<and>
   ptrace_read_null_terminated_string (\<lambda>_. Some 0x41414141) 7 = Peek_Unterminated"
proof -
  have s: "shows_bytes (\<lambda>_. Some 0) (\<lambda>_. NUL)" "shows_bytes (\<lambda>_. Some 0x41414141) (\<lambda>_. CHR ''A'')"
    using word_chars_sample by (simp_all add: shows_bytes_def upt_rec)
  have b: "bytes_at (\<lambda>_. c) a n = replicate n c" for c a n
    by (simp add: bytes_at_def map_replicate_const)
  show ?thesis
    using ptrace_string_read [OF s(1), of 7] ptrace_string_read [OF s(2), of 7] by (simp add: b cstr_def NUL_def)
qed

end
