(* ===== verification/Ptrace_Loop.thy ===== *)
theory Ptrace_Loop
  imports Ptrace_Text
begin

text \<open>
  \<open>ptrace_loop\<close> of src/topdown.c: the tracer answers every stop of every process below the command, follows
  their system calls and writes the tree file. What \<open>wait4\<close> returns, with everything the kernel shows at that
  moment, is a list of values; each handler is one branch of the loop's body. A step that would dereference a
  null pointer or read past a buffer is \<open>None\<close>.
\<close>

section \<open>Events and state\<close>

text \<open>\<open>ev_message\<close> is what \<open>PTRACE_GETEVENTMSG\<close> returns, \<open>ev_syscall\<close> and \<open>ev_arg2\<close> the registers,
  \<open>ev_rings\<close> what the kernel has written into mapped rings since.\<close>

record wait_event =
  ev_pid :: u32
  ev_status :: u32
  ev_sec :: int
  ev_nsec :: int
  ev_message :: u64
  ev_syscall :: u64
  ev_arg2 :: u64
  ev_memory :: "u64 \<Rightarrow> u64 option"
  ev_proc :: proc_view
  ev_rings :: "counter_group list \<Rightarrow> counter_group list"

datatype wait_result = Wait_Error nat | Wait_Event wait_event

definition EINTR :: nat where "EINTR = 4"
definition ECHILD :: nat where "ECHILD = 10"
definition SIGTRAP :: u32 where "SIGTRAP = 5"
definition SIGSTOP :: u32 where "SIGSTOP = 19"
definition PTRACE_EVENT_FORK :: u32 where "PTRACE_EVENT_FORK = 1"
definition PTRACE_EVENT_VFORK :: u32 where "PTRACE_EVENT_VFORK = 2"
definition PTRACE_EVENT_CLONE :: u32 where "PTRACE_EVENT_CLONE = 3"
definition PTRACE_EVENT_EXEC :: u32 where "PTRACE_EVENT_EXEC = 4"
definition PTRACE_EVENT_EXIT :: u32 where "PTRACE_EVENT_EXIT = 6"

text \<open>The macros of \<open>sys/wait.h\<close>.\<close>

definition WTERMSIG :: "u32 \<Rightarrow> u32" where "WTERMSIG st = st AND 0x7f"
definition WEXITSTATUS :: "u32 \<Rightarrow> u32" where "WEXITSTATUS st = drop_bit 8 (st AND 0xff00)"
definition WSTOPSIG :: "u32 \<Rightarrow> u32" where "WSTOPSIG st = WEXITSTATUS st"
definition WIFEXITED :: "u32 \<Rightarrow> bool" where "WIFEXITED st \<longleftrightarrow> WTERMSIG st = 0"
definition WIFSIGNALED :: "u32 \<Rightarrow> bool" where "WIFSIGNALED st \<longleftrightarrow> WTERMSIG st \<noteq> 0 \<and> WTERMSIG st \<noteq> 0x7f"
definition WIFSTOPPED :: "u32 \<Rightarrow> bool" where "WIFSTOPPED st \<longleftrightarrow> st AND 0xff = 0x7f"
definition WIFCONTINUED :: "u32 \<Rightarrow> bool" where "WIFCONTINUED st \<longleftrightarrow> st = 0xffff"

text \<open>The options of the run that the loop reads; they do not change.\<close>

record 'k tracer_config =
  px_child_pid :: u32
  px_start_sec :: int
  px_start_nsec :: int
  px_tree_cmdline :: bool
  px_tree_open :: bool
  px_tree_futex :: bool
  px_tree_io_wait :: bool
  px_tree_connect :: bool
  px_tree_nanosleep :: bool
  px_tree_wait :: bool
  px_tree_poll :: bool
  px_tree_io :: bool
  px_tree_schedstat :: bool
  px_tree_vmsize :: bool
  px_trace_syscall :: bool
  px_target_active :: bool
  px_requested_target :: target_spec
  px_symbol_sample_active :: bool
  px_symbol_sample_event :: symbol_sample_event
  px_counter_mask :: u32
  px_host :: host
  px_raw_tables :: raw_tables
  px_aflag :: bool
  px_kernel :: "'k kernel"

text \<open>The writes to the tree file, in order; what is a fork line of which child and whose exit block is noted
  with the text.\<close>

datatype tree_write = Fork_Write u32 string | Exit_Write u32 string | Line_Write string

fun write_text :: "tree_write \<Rightarrow> string" where
  "write_text (Fork_Write c t) = t"
| "write_text (Exit_Write p t) = t"
| "write_text (Line_Write t) = t"

definition tree_text :: "tree_write list \<Rightarrow> string" where
  "tree_text ws = concat (map write_text ws)"

text \<open>\<open>tr_resumes\<close> are the requests that let a process go on: whether to stop at its next system call, the
  process and the signal delivered.\<close>

record 'k tracer =
  tr_table :: ptrace_pid_table
  tr_file :: "tree_write list"
  tr_resumes :: "(bool \<times> u32 \<times> u32) list"
  tr_child_exit_known :: bool
  tr_child_exited :: bool
  tr_child_exit_code :: u32
  tr_child_signaled :: bool
  tr_child_term_signal :: u32
  tr_fork_events :: u64
  tr_exit_events :: u64
  tr_exec_events :: u64
  tr_unknown_traps :: u64
  tr_wait_eintr :: u64
  tr_kernel_state :: 'k
  tr_coverage :: coverage
  tr_enabled :: "int list"
  tr_closed :: "int list"

definition write_tree :: "tree_write list \<Rightarrow> 'k tracer \<Rightarrow> 'k tracer" where
  "write_tree ws s = s\<lparr>tr_file := tr_file s @ ws\<rparr>"

definition resume :: "bool \<Rightarrow> u32 \<Rightarrow> u32 \<Rightarrow> 'k tracer \<Rightarrow> 'k tracer" where
  "resume to_syscall pid sig s = s\<lparr>tr_resumes := tr_resumes s @ [(to_syscall, pid, sig)]\<rparr>"

definition on_entry :: "u32 \<Rightarrow> (ptrace_pid_entry \<Rightarrow> ptrace_pid_entry) \<Rightarrow> 'k tracer \<Rightarrow> 'k tracer" where
  "on_entry pid f s = s\<lparr>tr_table := with_entry pid f (tr_table s)\<rparr>"

text \<open>Seconds since the start of the run, in the order of the code's operations.\<close>

definition event_elapsed :: "'k tracer_config \<Rightarrow> wait_event \<Rightarrow> double" where
  "event_elapsed p ev =
     dsub (dsub (dadd (double_of_int (ev_sec ev)) (ddiv (double_of_int (ev_nsec ev)) (Fin 1000000000)))
       (double_of_int (px_start_sec p))) (ddiv (double_of_int (px_start_nsec p)) (Fin 1000000000))"

definition mark_known :: "u32 \<Rightarrow> 'k tracer \<Rightarrow> 'k tracer" where
  "mark_known pid s =
     (let (pending, t) = ptrace_pid_mark_known pid (tr_table s)
      in write_tree (case pending of None \<Rightarrow> [] | Some text \<Rightarrow> [Exit_Write pid text]) (s\<lparr>tr_table := t\<rparr>))"

section \<open>Ends of processes\<close>

definition on_exited :: "'k tracer_config \<Rightarrow> wait_event \<Rightarrow> 'k tracer \<Rightarrow> 'k tracer" where
  "on_exited p ev s =
     (let s1 = write_tree [Line_Write (stamp (event_elapsed p ev) (ev_pid ev) @ ''exited'' @ newline)] s
      in if ev_pid ev = px_child_pid p
         then s1\<lparr>tr_child_exit_known := True, tr_child_exited := True,
                 tr_child_exit_code := WEXITSTATUS (ev_status ev)\<rparr>
         else s1)"

definition on_signaled :: "'k tracer_config \<Rightarrow> wait_event \<Rightarrow> 'k tracer \<Rightarrow> 'k tracer" where
  "on_signaled p ev s =
     (let el = event_elapsed p ev; pid = ev_pid ev;
          s1 = write_tree
            [Line_Write (head_line el pid ''comm'' (pv_comm (ev_proc ev))),
             Line_Write (if px_tree_cmdline p then cmdline_line el pid (pv_cmdline (ev_proc ev)) else []),
             Line_Write (stamp el pid @ ''signal '' @ dec (unat (WTERMSIG (ev_status ev))) @ newline)] s
      in if pid = px_child_pid p
         then s1\<lparr>tr_child_exit_known := True, tr_child_signaled := True,
                 tr_child_term_signal := WTERMSIG (ev_status ev)\<rparr>
         else s1)"

section \<open>A new process\<close>

definition on_fork_event :: "'k tracer_config \<Rightarrow> wait_event \<Rightarrow> 'k tracer \<Rightarrow> 'k tracer" where
  "on_fork_event p ev s =
     (let child = ucast (ev_message ev) in
      mark_known child
        (write_tree [Fork_Write child
            (stamp (event_elapsed p ev) (ev_pid ev) @ ''fork '' @ u_text (ev_message ev) @ newline)]
          (s\<lparr>tr_fork_events := tr_fork_events s + 1\<rparr>)))"

section \<open>A process about to exit\<close>

definition wait_lines :: "'k tracer_config \<Rightarrow> double \<Rightarrow> u32 \<Rightarrow> syscall_track \<Rightarrow> string" where
  "wait_lines p el pid tk =
     (if px_tree_futex p \<and> sy_futex_wait_count tk \<noteq> 0
      then count_line el pid ''futex'' (sy_futex_wait_count tk) (sy_futex_wait_seconds tk) else []) @
     (if px_tree_io_wait p \<and> (sy_io_read_wait_count tk \<noteq> 0 \<or> sy_io_write_wait_count tk \<noteq> 0)
      then stamp el pid @ ''io_wait '' @ u_text (sy_io_read_wait_count tk) @ '' '' @
        fmt_fixed 6 (sy_io_read_wait_seconds tk) @ '' '' @ u_text (sy_io_write_wait_count tk) @ '' '' @
        fmt_fixed 6 (sy_io_write_wait_seconds tk) @ newline else []) @
     (if px_tree_connect p \<and> sy_connect_count tk \<noteq> 0
      then count_line el pid ''connect'' (sy_connect_count tk) (sy_connect_seconds tk) else []) @
     (if px_tree_nanosleep p \<and> sy_nanosleep_count tk \<noteq> 0
      then count_line el pid ''nanosleep'' (sy_nanosleep_count tk) (sy_nanosleep_seconds tk) else []) @
     (if px_tree_wait p \<and> sy_wait_count tk \<noteq> 0
      then count_line el pid ''wait'' (sy_wait_count tk) (sy_wait_seconds tk) else []) @
     (if px_tree_poll p \<and> sy_poll_count tk \<noteq> 0
      then count_line el pid ''poll'' (sy_poll_count tk) (sy_poll_seconds tk) else [])"

definition targetcounter_lines :: "double \<Rightarrow> u32 \<Rightarrow> counter_group list \<Rightarrow> string" where
  "targetcounter_lines el pid gs =
     concat (map (\<lambda>g. concat (map (\<lambda>c.
       if ci_fd c = -1 \<or> ci_is_symbol_sample c then []
       else stamp el pid @ ''targetcounter '' @ target_counter_safe_label (cg_label g) 64 @ '' '' @
         target_counter_safe_label (ci_label c) 64 @ '' '' @ u_text (ci_value c) @ newline) (cg_cinfo g))) gs)"

definition targetsample_lines :: "double \<Rightarrow> u32 \<Rightarrow> symbol_sample_event \<Rightarrow> symbol_sample_state \<Rightarrow> string" where
  "targetsample_lines el pid event ss =
     concat (map (\<lambda>ac. stamp el pid @ ''targetsample '' @ symbol_sample_event_name event @ '' '' @
       lx_text (ac_addr ac) @ '' '' @ u_text (ac_count ac) @ newline) (ss_addrs ss)) @
     (if ss_samples_lost ss \<noteq> 0
      then stamp el pid @ ''targetsamplelost '' @ symbol_sample_event_name event @ '' '' @
        u_text (ss_samples_lost ss) @ newline
      else [])"

definition symbol_counters :: "counter_group list \<Rightarrow> counter_info list" where
  "symbol_counters gs =
     concat (map (\<lambda>g. filter (\<lambda>c. ci_is_symbol_sample c \<and> ci_fd c \<noteq> -1) (cg_cinfo g)) gs)"

text \<open>The lines of the process's own counters, which are read, written and closed; \<open>None\<close> if the drain of a
  ring does not end. The last component are the descriptors closed.\<close>

definition target_lines ::
  "'k tracer_config \<Rightarrow> double \<Rightarrow> u32 \<Rightarrow> wait_event \<Rightarrow> counter_group list \<Rightarrow> 'k \<Rightarrow>
   (string \<times> 'k \<times> int list) option"
where
  "target_lines p el pid ev gs k =
     (case read_counters (px_kernel p) True (ev_rings ev gs) k of
        None \<Rightarrow> None
      | Some (gs', k') \<Rightarrow>
          Some (targetcounter_lines el pid gs' @
            (if px_symbol_sample_active p then
               concat (map (\<lambda>c. case ci_symbol_sample_state c of None \<Rightarrow> []
                 | Some ss \<Rightarrow> targetsample_lines el pid (px_symbol_sample_event p) ss) (symbol_counters gs')) @
               (if symbol_counters gs' \<noteq> [] then write_target_maps el pid (pv_maps (ev_proc ev)) else [])
             else []), k', snd (close_counters gs')))"

text \<open>The exit block. With \<open>--tree-cmdline\<close> a command line that cannot be opened is passed to \<open>fclose\<close>
  as a null pointer.\<close>

definition exit_block ::
  "'k tracer_config \<Rightarrow> double \<Rightarrow> u32 \<Rightarrow> wait_event \<Rightarrow> ptrace_pid_entry option \<Rightarrow> 'k \<Rightarrow>
   (string \<times> 'k \<times> int list) option"
where
  "exit_block p el pid ev entry k =
     (if px_tree_cmdline p \<and> pv_cmdline (ev_proc ev) = None then None
      else
        (let v = ev_proc ev in
         map_option (\<lambda>(target, rest).
            (head_line el pid ''comm'' (pv_comm v) @
             (if px_tree_cmdline p then cmdline_line el pid (pv_cmdline v) else []) @
             (case entry of None \<Rightarrow> [] | Some e \<Rightarrow> wait_lines p el pid (pe_track e)) @
             (if px_tree_io p then io_line el pid (pv_io v) else []) @
             (if px_tree_schedstat p then schedstat_line el pid (pv_schedstat v) else []) @
             (if px_tree_vmsize p then vmsize_line el pid (pv_status v) else []) @
             target @ head_line el pid ''exit'' (pv_stat v), rest))
           (case entry of
              None \<Rightarrow> Some ([], k, [])
            | Some e \<Rightarrow>
                (if px_target_active p \<and> pe_target_counters e \<noteq> []
                 then target_lines p el pid ev (pe_target_counters e) k else Some ([], k, [])))))"

text \<open>An existing entry's counters are dropped.\<close>

definition release_targets :: "'k tracer_config \<Rightarrow> u32 \<Rightarrow> ptrace_pid_table \<Rightarrow> ptrace_pid_table" where
  "release_targets p pid t =
     (if px_target_active p then table_modify pid (\<lambda>e. e\<lparr>pe_target_counters := []\<rparr>) t else t)"

text \<open>The block is written if the process's fork line has been, and kept until then otherwise.\<close>

definition on_exit_event :: "'k tracer_config \<Rightarrow> wait_event \<Rightarrow> 'k tracer \<Rightarrow> 'k tracer option" where
  "on_exit_event p ev s =
     (let pid = ev_pid ev; entry = fst (ptrace_pid_lookup pid False (tr_table s)) in
      case exit_block p (event_elapsed p ev) pid ev entry (tr_kernel_state s) of
        None \<Rightarrow> None
      | Some (block, k, fds) \<Rightarrow>
          (let t = release_targets p pid (tr_table s);
               s1 = s\<lparr>tr_exit_events := tr_exit_events s + 1, tr_kernel_state := k, tr_table := t,
                 tr_closed := tr_closed s @ fds\<rparr>
           in Some (if ptrace_pid_is_known pid t then write_tree [Exit_Write pid block] s1
                    else s1\<lparr>tr_table := ptrace_pid_defer_exit pid block t\<rparr>)))"

section \<open>A new program\<close>

text \<open>The name and the command line a target specification is matched with: at most 255 and 4095 bytes.\<close>

definition exec_comm :: "proc_view \<Rightarrow> string" where
  "exec_comm v = (case first_line_of 255 (pv_comm v) of None \<Rightarrow> [] | Some l \<Rightarrow> takeWhile (\<lambda>c. c \<noteq> LF) l)"

definition exec_cmdline :: "proc_view \<Rightarrow> string" where
  "exec_cmdline v =
     (case pv_cmdline v of None \<Rightarrow> [] | Some s \<Rightarrow> map (\<lambda>c. if c = NUL then CHR '' '' else c) (take 4095 s))"

definition exec_matches :: "target_spec \<Rightarrow> proc_view \<Rightarrow> bool" where
  "exec_matches spec v \<longleftrightarrow>
     target_match spec (if exec_comm v = [] then None else Some (exec_comm v))
       (if tg_cmdline_substr spec = None then None else Some (exec_cmdline v))"

definition target_groups :: "'k tracer_config \<Rightarrow> counter_group list \<Rightarrow> counter_group list" where
  "target_groups p gs =
     (let gs1 = setup_counter_groups (px_host p) (px_raw_tables p) (px_counter_mask p) CORE_UNKNOWN gs;
          gs2 = (if has_bit (px_counter_mask p) COUNTER_SOFTWARE then software_counter_group ''software'' # gs1 else gs1)
      in if px_symbol_sample_active p
         then symbol_sample_counter_group ''symbol_sample'' (px_symbol_sample_event p) # gs2 else gs2)"

definition attach_target :: "'k tracer_config \<Rightarrow> u32 \<Rightarrow> 'k tracer \<Rightarrow> 'k tracer" where
  "attach_target p pid s =
     (let (gs, su) = setup_counters (px_kernel p) (px_aflag p) (sint pid)
            (target_groups p (pe_target_counters (entry_of_pid (tr_table s) pid)))
            (tr_kernel_state s) (tr_coverage s)
      in on_entry pid (\<lambda>e. e\<lparr>pe_target_counters := gs\<rparr>)
           (s\<lparr>tr_kernel_state := su_kernel su, tr_coverage := su_coverage su,
              tr_enabled := tr_enabled s @ start_counters gs\<rparr>))"

definition on_exec_event :: "'k tracer_config \<Rightarrow> wait_event \<Rightarrow> 'k tracer \<Rightarrow> 'k tracer" where
  "on_exec_event p ev s =
     (let s1 = write_tree [Line_Write (stamp (event_elapsed p ev) (ev_pid ev) @ ''exec '' @
            (case pv_exe (ev_proc ev) of None \<Rightarrow> ''?'' | Some path \<Rightarrow> take 4095 path) @ newline)]
            (s\<lparr>tr_exec_events := tr_exec_events s + 1\<rparr>)
      in if px_target_active p \<and> exec_matches (px_requested_target p) (ev_proc ev)
         then attach_target p (ev_pid ev) s1 else s1)"

section \<open>System calls\<close>

definition SYS_openat :: u64 where "SYS_openat = 257"
definition SYS_futex :: u64 where "SYS_futex = 202"
definition SYS_connect :: u64 where "SYS_connect = 42"
definition SYS_nanosleep :: u64 where "SYS_nanosleep = 35"
definition SYS_clock_nanosleep :: u64 where "SYS_clock_nanosleep = 230"
definition SYS_wait4 :: u64 where "SYS_wait4 = 61"
definition SYS_waitid :: u64 where "SYS_waitid = 247"

text \<open>read, pread64, readv, preadv, recvfrom, recvmsg; write, pwrite64, writev, pwritev, sendto, sendmsg.\<close>

definition io_wait_syscalls :: "(u64 \<times> bool) list" where
  "io_wait_syscalls =
     [(0, False), (17, False), (19, False), (295, False), (45, False), (47, False),
      (1, True), (18, True), (20, True), (296, True), (44, True), (46, True)]"

definition classify_io_wait_syscall :: "u64 \<Rightarrow> bool option" where
  "classify_io_wait_syscall nr = map_of io_wait_syscalls nr"

text \<open>poll, ppoll, select, pselect6, epoll_wait, epoll_pwait.\<close>

definition poll_syscalls :: "u64 list" where "poll_syscalls = [7, 271, 23, 270, 232, 281]"

definition classify_poll_syscall :: "u64 \<Rightarrow> bool" where
  "classify_poll_syscall nr \<longleftrightarrow> nr \<in> set poll_syscalls"

text \<open>The futex operations that wait: \<open>FUTEX_WAIT\<close>, \<open>FUTEX_WAIT_BITSET\<close>, \<open>FUTEX_LOCK_PI\<close>,
  \<open>FUTEX_LOCK_PI2\<close> and \<open>FUTEX_WAIT_REQUEUE_PI\<close>, with the private and the clock flag masked off.\<close>

definition futex_op_waits :: "u64 \<Rightarrow> bool" where
  "futex_op_waits arg2 \<longleftrightarrow> (ucast arg2 :: u32) AND NOT 384 \<in> {0, 9, 6, 13, 11}"

definition syscall_entry :: "'k tracer_config \<Rightarrow> double \<Rightarrow> u64 \<Rightarrow> u64 \<Rightarrow> syscall_track \<Rightarrow> syscall_track" where
  "syscall_entry p el nr arg2 tk =
     tk\<lparr>sy_current_syscall := nr, sy_syscall_entry_elapsed := el, sy_in_syscall := True,
        sy_futex_is_wait :=
          (if px_tree_futex p \<and> nr = SYS_futex then futex_op_waits arg2 else sy_futex_is_wait tk),
        sy_io_wait_is_write :=
          (if px_tree_io_wait p
           then (case classify_io_wait_syscall nr of None \<Rightarrow> sy_io_wait_is_write tk | Some w \<Rightarrow> w)
           else sy_io_wait_is_write tk)\<rparr>"

definition add_futex :: "'k tracer_config \<Rightarrow> double \<Rightarrow> syscall_track \<Rightarrow> syscall_track" where
  "add_futex p d tk =
     (if px_tree_futex p \<and> sy_current_syscall tk = SYS_futex \<and> sy_futex_is_wait tk
      then tk\<lparr>sy_futex_wait_count := sy_futex_wait_count tk + 1,
              sy_futex_wait_seconds := dadd (sy_futex_wait_seconds tk) d\<rparr> else tk)"

definition add_io_wait :: "'k tracer_config \<Rightarrow> double \<Rightarrow> syscall_track \<Rightarrow> syscall_track" where
  "add_io_wait p d tk =
     (if px_tree_io_wait p then
        (case classify_io_wait_syscall (sy_current_syscall tk) of
           None \<Rightarrow> tk
         | Some True \<Rightarrow> tk\<lparr>sy_io_wait_is_write := True, sy_io_write_wait_count := sy_io_write_wait_count tk + 1,
               sy_io_write_wait_seconds := dadd (sy_io_write_wait_seconds tk) d\<rparr>
         | Some False \<Rightarrow> tk\<lparr>sy_io_wait_is_write := False, sy_io_read_wait_count := sy_io_read_wait_count tk + 1,
               sy_io_read_wait_seconds := dadd (sy_io_read_wait_seconds tk) d\<rparr>)
      else tk)"

definition add_connect :: "'k tracer_config \<Rightarrow> double \<Rightarrow> syscall_track \<Rightarrow> syscall_track" where
  "add_connect p d tk =
     (if px_tree_connect p \<and> sy_current_syscall tk = SYS_connect
      then tk\<lparr>sy_connect_count := sy_connect_count tk + 1, sy_connect_seconds := dadd (sy_connect_seconds tk) d\<rparr>
      else tk)"

definition add_nanosleep :: "'k tracer_config \<Rightarrow> double \<Rightarrow> syscall_track \<Rightarrow> syscall_track" where
  "add_nanosleep p d tk =
     (if px_tree_nanosleep p \<and> (sy_current_syscall tk = SYS_nanosleep \<or> sy_current_syscall tk = SYS_clock_nanosleep)
      then tk\<lparr>sy_nanosleep_count := sy_nanosleep_count tk + 1,
              sy_nanosleep_seconds := dadd (sy_nanosleep_seconds tk) d\<rparr> else tk)"

definition add_wait :: "'k tracer_config \<Rightarrow> double \<Rightarrow> syscall_track \<Rightarrow> syscall_track" where
  "add_wait p d tk =
     (if px_tree_wait p \<and> (sy_current_syscall tk = SYS_wait4 \<or> sy_current_syscall tk = SYS_waitid)
      then tk\<lparr>sy_wait_count := sy_wait_count tk + 1, sy_wait_seconds := dadd (sy_wait_seconds tk) d\<rparr> else tk)"

definition add_poll :: "'k tracer_config \<Rightarrow> double \<Rightarrow> syscall_track \<Rightarrow> syscall_track" where
  "add_poll p d tk =
     (if px_tree_poll p \<and> classify_poll_syscall (sy_current_syscall tk)
      then tk\<lparr>sy_poll_count := sy_poll_count tk + 1, sy_poll_seconds := dadd (sy_poll_seconds tk) d\<rparr> else tk)"

definition syscall_exit :: "'k tracer_config \<Rightarrow> double \<Rightarrow> syscall_track \<Rightarrow> syscall_track" where
  "syscall_exit p el tk =
     (let d = dsub el (sy_syscall_entry_elapsed tk) in
      (add_poll p d (add_wait p d (add_nanosleep p d (add_connect p d (add_io_wait p d (add_futex p d tk))))))
        \<lparr>sy_in_syscall := False\<rparr>)"

text \<open>The stops of one process alternate: the first is an entry, the next the exit from that call.\<close>

definition syscall_stop :: "'k tracer_config \<Rightarrow> wait_event \<Rightarrow> syscall_track \<Rightarrow> syscall_track" where
  "syscall_stop p ev tk =
     (if sy_in_syscall tk then syscall_exit p (event_elapsed p ev) tk
      else syscall_entry p (event_elapsed p ev) (ev_syscall ev) (ev_arg2 ev) tk)"

text \<open>The line for an opened file; a null pointer is printed as such by the C library.\<close>

definition open_line :: "'k tracer_config \<Rightarrow> wait_event \<Rightarrow> syscall_track \<Rightarrow> tree_write list option" where
  "open_line p ev tk =
     (if px_tree_open p \<and> sy_in_syscall tk \<and> sy_current_syscall tk = SYS_openat then
        (let line = (\<lambda>f. Some [Line_Write (stamp (event_elapsed p ev) (ev_pid ev) @ ''open '' @ f @ newline)]) in
         case ptrace_read_null_terminated_string (ev_memory ev) (ev_arg2 ev) of
           Peek_Error \<Rightarrow> line ''(null)''
         | Peek_String f \<Rightarrow> line f
         | Peek_Unterminated \<Rightarrow> None)
      else Some [])"

definition on_syscall_stop :: "'k tracer_config \<Rightarrow> wait_event \<Rightarrow> 'k tracer \<Rightarrow> 'k tracer option" where
  "on_syscall_stop p ev s =
     map_option (\<lambda>ws.
        resume True (ev_pid ev) 0 (write_tree ws
          (on_entry (ev_pid ev) (\<lambda>e. e\<lparr>pe_track := syscall_stop p ev (pe_track e)\<rparr>) s)))
       (open_line p ev (pe_track (entry_of_pid (tr_table s) (ev_pid ev))))"

section \<open>The loop\<close>

datatype stop_kind =
  Is_Exited | Is_Signaled | Is_Fork | Is_Exit | Is_Exec | Is_Unknown | Is_New | Is_Syscall | Is_Signal
  | Is_Continued | Is_Other

text \<open>The branch of the loop's body a status takes.\<close>

definition stop_kind_of :: "u32 \<Rightarrow> stop_kind" where
  "stop_kind_of st =
     (if WIFEXITED st then Is_Exited
      else if WIFSIGNALED st then Is_Signaled
      else if WIFSTOPPED st then
        (if WSTOPSIG st = SIGTRAP then
           (let e = drop_bit 16 st in
            if e = PTRACE_EVENT_CLONE \<or> e = PTRACE_EVENT_FORK \<or> e = PTRACE_EVENT_VFORK then Is_Fork
            else if e = PTRACE_EVENT_EXIT then Is_Exit
            else if e = PTRACE_EVENT_EXEC then Is_Exec else Is_Unknown)
         else if WSTOPSIG st = SIGSTOP then Is_New
         else if WSTOPSIG st = SIGTRAP OR 0x80 then Is_Syscall
         else Is_Signal)
      else if WIFCONTINUED st then Is_Continued else Is_Other)"

definition go_on :: "'k tracer_config \<Rightarrow> wait_event \<Rightarrow> 'k tracer \<Rightarrow> 'k tracer" where
  "go_on p ev s = resume (px_trace_syscall p) (ev_pid ev) 0 s"

definition line_write :: "'k tracer_config \<Rightarrow> wait_event \<Rightarrow> string \<Rightarrow> 'k tracer \<Rightarrow> 'k tracer" where
  "line_write p ev text = write_tree [Line_Write (stamp (event_elapsed p ev) (ev_pid ev) @ text @ newline)]"

definition ptrace_step :: "'k tracer_config \<Rightarrow> wait_event \<Rightarrow> 'k tracer \<Rightarrow> 'k tracer option" where
  "ptrace_step p ev s =
     (case stop_kind_of (ev_status ev) of
        Is_Exited \<Rightarrow> Some (on_exited p ev s)
      | Is_Signaled \<Rightarrow> Some (on_signaled p ev s)
      | Is_Fork \<Rightarrow> Some (go_on p ev (on_fork_event p ev s))
      | Is_Exit \<Rightarrow> map_option (go_on p ev) (on_exit_event p ev s)
      | Is_Exec \<Rightarrow> Some (go_on p ev (on_exec_event p ev s))
      | Is_Unknown \<Rightarrow>
          Some (go_on p ev (line_write p ev (''unknown '' @ lx_text (ev_status ev))
            (s\<lparr>tr_unknown_traps := tr_unknown_traps s + 1\<rparr>)))
      | Is_New \<Rightarrow> Some (go_on p ev s)
      | Is_Syscall \<Rightarrow> on_syscall_stop p ev s
      | Is_Signal \<Rightarrow>
          Some (resume (px_trace_syscall p) (ev_pid ev) (WSTOPSIG (ev_status ev))
            (line_write p ev (''signal '' @ dec (unat (WSTOPSIG (ev_status ev)))) s))
      | Is_Continued \<Rightarrow> Some (go_on p ev (line_write p ev ''continued'' s))
      | Is_Other \<Rightarrow> Some (go_on p ev s))"

text \<open>The loop over what \<open>wait4\<close> returns, and whether it ended because no process is left.\<close>

fun ptrace_events :: "'k tracer_config \<Rightarrow> wait_result list \<Rightarrow> 'k tracer \<Rightarrow> ('k tracer \<times> bool) option" where
  "ptrace_events p [] s = Some (s, False)"
| "ptrace_events p (Wait_Error e # ws) s =
     (if e = EINTR then ptrace_events p ws (s\<lparr>tr_wait_eintr := tr_wait_eintr s + 1\<rparr>)
      else if e = ECHILD then Some (s, True)
      else ptrace_events p ws s)"
| "ptrace_events p (Wait_Event ev # ws) s =
     (case ptrace_step p ev s of None \<Rightarrow> None | Some s' \<Rightarrow> ptrace_events p ws s')"

definition tracer_initial :: "'k \<Rightarrow> coverage \<Rightarrow> tree_write list \<Rightarrow> 'k tracer" where
  "tracer_initial k cv file =
     \<lparr>tr_table = ptrace_pid_table_initial, tr_file = file, tr_resumes = [], tr_child_exit_known = False,
      tr_child_exited = False, tr_child_exit_code = 0, tr_child_signaled = False, tr_child_term_signal = 0,
      tr_fork_events = 0, tr_exit_events = 0, tr_exec_events = 0, tr_unknown_traps = 0, tr_wait_eintr = 0,
      tr_kernel_state = k, tr_coverage = cv, tr_enabled = [], tr_closed = []\<rparr>"

definition summary_text :: "'k tracer \<Rightarrow> string" where
  "summary_text s =
     ''# ptrace-summary fork_events='' @ u_text (tr_fork_events s) @ '' exit_events='' @
     u_text (tr_exit_events s) @ '' exec_events='' @ u_text (tr_exec_events s) @ '' unknown_traps='' @
     u_text (tr_unknown_traps s) @ '' wait_eintr='' @ u_text (tr_wait_eintr s) @ newline"

text \<open>What follows the loop: the blocks still waiting, and the summary.\<close>

definition finish_loop :: "'k tracer \<Rightarrow> 'k tracer" where
  "finish_loop s =
     (let (pending, t) = ptrace_pid_table_flush_and_free (tr_table s)
      in write_tree (map (\<lambda>(pid, text). Exit_Write pid text) pending @ [Line_Write (summary_text s)])
           (s\<lparr>tr_table := t\<rparr>))"

text \<open>The whole function from the state at its call, which already has the root line; \<open>None\<close> if it does not
  return: a step fails, or processes are left when the results end.\<close>

definition ptrace_loop :: "'k tracer_config \<Rightarrow> wait_result list \<Rightarrow> 'k tracer \<Rightarrow> 'k tracer option" where
  "ptrace_loop p ws s =
     (case ptrace_events p ws (mark_known (px_child_pid p) s) of
        Some (s', True) \<Rightarrow> Some (finish_loop s')
      | _ \<Rightarrow> None)"

end
