(* ===== verification/Ptrace_Order.thy ===== *)
theory Ptrace_Order
  imports Ptrace_Loop
begin

text \<open>
  What the tracer of src/topdown.c guarantees whatever the order in which the kernel reports the stops: the tree
  file names a process before it ends, no exit block is lost, every stop is answered once, and the times
  charged to a process depend on its own stops only.
\<close>

section \<open>What each branch does to the table and the file\<close>

text \<open>The events handled: those before \<open>wait4\<close> reports that no process is left.\<close>

fun delivered :: "wait_result list \<Rightarrow> wait_event list" where
  "delivered [] = []"
| "delivered (Wait_Error e # ws) = (if e = ECHILD then [] else delivered ws)"
| "delivered (Wait_Event ev # ws) = ev # delivered ws"

definition kind :: "wait_event \<Rightarrow> stop_kind" where
  "kind ev = stop_kind_of (ev_status ev)"

definition known :: "'k tracer \<Rightarrow> u32 \<Rightarrow> bool" where
  "known s q \<longleftrightarrow> pe_known (entry_of_pid (tr_table s) q)"

definition pending :: "'k tracer \<Rightarrow> u32 \<Rightarrow> string option" where
  "pending s q = pe_pending_exit (entry_of_pid (tr_table s) q)"

definition track :: "'k tracer \<Rightarrow> u32 \<Rightarrow> syscall_track" where
  "track s q = pe_track (entry_of_pid (tr_table s) q)"

named_theorems tracer_simps

lemma write_tree_simps [tracer_simps, simp]:
  "tr_table (write_tree ws s) = tr_table s" "tr_file (write_tree ws s) = tr_file s @ ws"
  "tr_resumes (write_tree ws s) = tr_resumes s"
  by (simp_all add: write_tree_def)

lemma resume_simps [tracer_simps, simp]:
  "tr_table (resume b q g s) = tr_table s" "tr_file (resume b q g s) = tr_file s"
  "tr_resumes (resume b q g s) = tr_resumes s @ [(b, q, g)]"
  by (simp_all add: resume_def)

lemma on_entry_simps [tracer_simps, simp]:
  "tr_table (on_entry q f s) = with_entry q f (tr_table s)" "tr_file (on_entry q f s) = tr_file s"
  "tr_resumes (on_entry q f s) = tr_resumes s"
  by (simp_all add: on_entry_def)

lemma go_on_simps [tracer_simps, simp]:
  "tr_table (go_on p ev s) = tr_table s" "tr_file (go_on p ev s) = tr_file s"
  "tr_resumes (go_on p ev s) = tr_resumes s @ [(px_trace_syscall p, ev_pid ev, 0)]"
  by (simp_all add: go_on_def)

lemma line_write_simps [tracer_simps, simp]:
  "tr_table (line_write p ev t s) = tr_table s" "tr_resumes (line_write p ev t s) = tr_resumes s"
  "\<exists>l. tr_file (line_write p ev t s) = tr_file s @ [Line_Write l]"
  by (simp_all add: line_write_def)

lemma mark_known_simps [tracer_simps, simp]:
  "tr_resumes (mark_known q s) = tr_resumes s"
  by (simp add: mark_known_def ptrace_pid_mark_known_def)

lemma mark_known_table [tracer_simps]:
  "tr_table (mark_known q s) = with_entry q (\<lambda>e. e\<lparr>pe_known := True, pe_pending_exit := None\<rparr>) (tr_table s)"
  by (simp add: mark_known_def ptrace_pid_mark_known_def)

lemma mark_known_file:
  "table_ok (tr_table s) \<Longrightarrow>
   tr_file (mark_known q s) = tr_file s @ (case pending s q of None \<Rightarrow> [] | Some t \<Rightarrow> [Exit_Write q t])"
  by (simp add: mark_known_def ptrace_pid_mark_known_def entry_of_lookup pending_def)

lemma attach_target_simps [tracer_simps, simp]:
  "tr_file (attach_target p q s) = tr_file s" "tr_resumes (attach_target p q s) = tr_resumes s"
  by (simp_all add: attach_target_def split: prod.splits)

lemma attach_target_table:
  "tr_table (attach_target p q s) = with_entry q (\<lambda>e. e\<lparr>pe_target_counters := fst (setup_counters (px_kernel p)
     (px_aflag p) (sint q) (target_groups p (pe_target_counters (entry_of_pid (tr_table s) q)))
     (tr_kernel_state s) (tr_coverage s))\<rparr>) (tr_table s)"
  by (auto simp: attach_target_def split: prod.splits)

lemma views_same:
  assumes "tr_table s' = tr_table s"
  shows "known s' = known s" and "pending s' = pending s" and "track s' = track s"
  using assms by (simp_all add: known_def pending_def track_def fun_eq_iff)

text \<open>Dropping the counters of an entry changes none of the views.\<close>

lemma release_targets_entry [tracer_simps, simp]:
  assumes "table_ok t"
  shows "table_ok (release_targets p q t)"
    and "pe_known (entry_of_pid (release_targets p q t) r) = pe_known (entry_of_pid t r)"
    and "pe_pending_exit (entry_of_pid (release_targets p q t) r) = pe_pending_exit (entry_of_pid t r)"
    and "pe_track (entry_of_pid (release_targets p q t) r) = pe_track (entry_of_pid t r)"
  using assms
  by (auto simp: release_targets_def table_modify_ok entry_of_pid_def table_find_modify ptrace_pid_entry_zero_def
      split: option.split)

section \<open>A step, branch by branch\<close>

text \<open>The block an exit stop composes.\<close>

definition composed_block :: "'k tracer_config \<Rightarrow> wait_event \<Rightarrow> 'k tracer \<Rightarrow> string option" where
  "composed_block p ev s =
     map_option fst (exit_block p (event_elapsed p ev) (ev_pid ev) ev
       (fst (ptrace_pid_lookup (ev_pid ev) False (tr_table s))) (tr_kernel_state s))"

text \<open>
  The effect of a step on the views: \<open>line\<close>s only, a fork line with the block that waited for it, an exit
  block written or kept, a syscall stop.
\<close>

lemma step_exit:
  assumes "ptrace_step p ev s = Some s'" and "kind ev = Is_Exit" and ok: "table_ok (tr_table s)"
  obtains block where "composed_block p ev s = Some block" and "table_ok (tr_table s')"
    and "known s' = known s" and "track s' = track s"
    and "known s (ev_pid ev) \<Longrightarrow> tr_file s' = tr_file s @ [Exit_Write (ev_pid ev) block] \<and> pending s' = pending s"
    and "\<not> known s (ev_pid ev) \<Longrightarrow>
      tr_file s' = tr_file s \<and> pending s' = (pending s)(ev_pid ev := Some block)"
proof -
  let ?q = "ev_pid ev" and ?t = "release_targets p (ev_pid ev) (tr_table s)"
  obtain s1 where s1: "on_exit_event p ev s = Some s1" "s' = go_on p ev s1"
    using assms(1,2) by (auto simp: ptrace_step_def kind_def)
  obtain block k fds where b: "exit_block p (event_elapsed p ev) ?q ev
      (fst (ptrace_pid_lookup ?q False (tr_table s))) (tr_kernel_state s) = Some (block, k, fds)"
    using s1(1) by (auto simp: on_exit_event_def Let_def split: option.splits)
  have kn: "ptrace_pid_is_known ?q ?t \<longleftrightarrow> known s ?q"
    by (simp add: is_known_entry known_def ok)
  have written: "tr_file s' = (if known s ?q then tr_file s @ [Exit_Write ?q block] else tr_file s)"
    and table: "tr_table s' = (if known s ?q then ?t else ptrace_pid_defer_exit ?q block ?t)"
    using s1 b kn by (auto simp: on_exit_event_def Let_def)
  show thesis
  proof (rule that)
    show "composed_block p ev s = Some block" by (simp add: composed_block_def b)
    show "table_ok (tr_table s')" by (simp add: table ptrace_pid_defer_exit_def ok)
    show "known s' = known s" "track s' = track s"
      by (auto simp: known_def track_def table ptrace_pid_defer_exit_def entry_of_with_entry ok fun_eq_iff)
    show "tr_file s' = tr_file s @ [Exit_Write ?q block] \<and> pending s' = pending s" if "known s ?q"
      using that by (auto simp: written pending_def table ok fun_eq_iff)
    show "tr_file s' = tr_file s \<and> pending s' = (pending s)(?q := Some block)" if "\<not> known s ?q"
      using that by (auto simp: written pending_def table ptrace_pid_defer_exit_def entry_of_with_entry ok fun_eq_iff)
  qed
qed

lemma step_fork:
  assumes "ptrace_step p ev s = Some s'" and "kind ev = Is_Fork" and ok: "table_ok (tr_table s)"
  obtains child line where "table_ok (tr_table s')" and "known s' = (known s)(child := True)"
    and "track s' = track s" and "pending s' = (pending s)(child := None)" and "child = ucast (ev_message ev)"
    and "tr_file s' = tr_file s @ Fork_Write child line #
      (case pending s child of None \<Rightarrow> [] | Some t \<Rightarrow> [Exit_Write child t])"
proof -
  let ?c = "ucast (ev_message ev) :: u32"
  let ?line = "stamp (event_elapsed p ev) (ev_pid ev) @ ''fork '' @ u_text (ev_message ev) @ newline"
  let ?s0 = "write_tree [Fork_Write ?c ?line] (s\<lparr>tr_fork_events := tr_fork_events s + 1\<rparr>)"
  have s': "s' = go_on p ev (mark_known ?c ?s0)"
    using assms(1,2) by (simp add: ptrace_step_def kind_def on_fork_event_def Let_def)
  have t: "tr_table s' = with_entry ?c (\<lambda>e. e\<lparr>pe_known := True, pe_pending_exit := None\<rparr>) (tr_table s)"
    by (simp add: s' mark_known_table)
  have "pending ?s0 ?c = pending s ?c" by (simp add: pending_def)
  then have f: "tr_file s' = tr_file s @ Fork_Write ?c ?line #
      (case pending s ?c of None \<Rightarrow> [] | Some t \<Rightarrow> [Exit_Write ?c t])"
    by (simp add: s' mark_known_file ok split: option.split)
  show thesis
    by (rule that [OF _ _ _ _ refl f]) (auto simp: t entry_of_with_entry ok fun_eq_iff known_def track_def pending_def)
qed

text \<open>All other branches write lines only and leave what is known and pending as it is.\<close>

definition only_lines :: "tree_write list \<Rightarrow> bool" where
  "only_lines ws \<longleftrightarrow> list_all (\<lambda>w. case w of Line_Write _ \<Rightarrow> True | _ \<Rightarrow> False) ws"

lemma only_lines_simps [simp]:
  "only_lines []" "only_lines (Line_Write l # ws) = only_lines ws" "only_lines (Fork_Write c l # ws) = False"
  "only_lines (Exit_Write c l # ws) = False"
  by (simp_all add: only_lines_def)

lemma step_other:
  assumes "ptrace_step p ev s = Some s'" and "kind ev \<noteq> Is_Exit" and "kind ev \<noteq> Is_Fork"
    and ok: "table_ok (tr_table s)"
  obtains ls where "tr_file s' = tr_file s @ ls" and "only_lines ls" and "table_ok (tr_table s')"
    and "known s' = known s" and "pending s' = pending s"
    and "track s' = (if kind ev = Is_Syscall then (track s)(ev_pid ev := syscall_stop p ev (track s (ev_pid ev)))
      else track s)"
proof (cases "kind ev = Is_Syscall")
  case True
  then obtain ls where ls: "open_line p ev (pe_track (entry_of_pid (tr_table s) (ev_pid ev))) = Some ls"
    "s' = resume True (ev_pid ev) 0 (write_tree ls
      (on_entry (ev_pid ev) (\<lambda>e. e\<lparr>pe_track := syscall_stop p ev (pe_track e)\<rparr>) s))"
    using assms(1) by (auto simp: ptrace_step_def kind_def on_syscall_stop_def)
  have t: "tr_table s' = with_entry (ev_pid ev) (\<lambda>e. e\<lparr>pe_track := syscall_stop p ev (pe_track e)\<rparr>) (tr_table s)"
    by (simp add: ls)
  have "only_lines ls"
    using ls(1) by (auto simp: open_line_def Let_def split: if_splits peeked.splits)
  then show ?thesis
    using True ls(2) by (intro that [of ls])
      (auto simp: t entry_of_with_entry ok fun_eq_iff known_def track_def pending_def)
next
  case False
  have "\<exists>ls. tr_file s' = tr_file s @ ls \<and> only_lines ls \<and>
      (tr_table s' = tr_table s \<or> (\<exists>gs. tr_table s' = with_entry (ev_pid ev) (\<lambda>e. e\<lparr>pe_target_counters := gs\<rparr>) (tr_table s)))"
    using assms(1-3) False
    by (cases "stop_kind_of (ev_status ev)")
      (auto simp: attach_target_table ptrace_step_def kind_def on_exited_def on_signaled_def on_exec_event_def line_write_def Let_def)
  then obtain ls where ls: "tr_file s' = tr_file s @ ls" "only_lines ls"
    and t: "tr_table s' = tr_table s \<or>
      (\<exists>gs. tr_table s' = with_entry (ev_pid ev) (\<lambda>e. e\<lparr>pe_target_counters := gs\<rparr>) (tr_table s))" by blast
  from t have "table_ok (tr_table s') \<and> known s' = known s \<and> pending s' = pending s \<and> track s' = track s"
  proof
    assume "tr_table s' = tr_table s"
    then show ?thesis using views_same [of s' s] ok by simp
  next
    assume "\<exists>gs. tr_table s' = with_entry (ev_pid ev) (\<lambda>e. e\<lparr>pe_target_counters := gs\<rparr>) (tr_table s)"
    then obtain gs where "tr_table s' = with_entry (ev_pid ev) (\<lambda>e. e\<lparr>pe_target_counters := gs\<rparr>) (tr_table s)" by blast
    then show ?thesis
      by (auto simp: entry_of_with_entry ok fun_eq_iff known_def track_def pending_def)
  qed
  then show ?thesis using ls False by (intro that) auto
qed

section \<open>Fork lines come first\<close>

fun forked :: "tree_write list \<Rightarrow> u32 set" where
  "forked [] = {}"
| "forked (Fork_Write c t # ws) = insert c (forked ws)"
| "forked (Exit_Write q t # ws) = forked ws"
| "forked (Line_Write t # ws) = forked ws"

text \<open>Each exit block is that of a process named before: the root or the child of an earlier fork line.\<close>

fun fork_first :: "u32 set \<Rightarrow> tree_write list \<Rightarrow> bool" where
  "fork_first K [] \<longleftrightarrow> True"
| "fork_first K (Fork_Write c t # ws) \<longleftrightarrow> fork_first (insert c K) ws"
| "fork_first K (Exit_Write q t # ws) \<longleftrightarrow> q \<in> K \<and> fork_first K ws"
| "fork_first K (Line_Write t # ws) \<longleftrightarrow> fork_first K ws"

lemma forked_append [simp]: "forked (xs @ ys) = forked xs \<union> forked ys"
  by (induction xs rule: forked.induct) auto

lemma fork_first_append [simp]: "fork_first K (xs @ ys) \<longleftrightarrow> fork_first K xs \<and> fork_first (K \<union> forked xs) ys"
  by (induction K xs rule: fork_first.induct) auto

lemma only_lines_quiet: "only_lines ws \<Longrightarrow> forked ws = {} \<and> fork_first K ws"
  by (induction ws rule: forked.induct) auto

definition order_inv :: "u32 \<Rightarrow> 'k tracer \<Rightarrow> bool" where
  "order_inv c s \<longleftrightarrow>
     table_ok (tr_table s) \<and> fork_first {c} (tr_file s) \<and> {q. known s q} = insert c (forked (tr_file s))"

lemma order_inv_step:
  assumes "order_inv c s" and "ptrace_step p ev s = Some s'"
  shows "order_inv c s'"
proof -
  have ok: "table_ok (tr_table s)" and ff: "fork_first {c} (tr_file s)"
    and kn: "{q. known s q} = insert c (forked (tr_file s))"
    using assms(1) by (simp_all add: order_inv_def)
  consider "kind ev = Is_Exit" | "kind ev = Is_Fork" | "kind ev \<noteq> Is_Exit" "kind ev \<noteq> Is_Fork" by blast
  then show ?thesis
  proof cases
    case 1
    from step_exit [OF assms(2) 1 ok] obtain block where b: "table_ok (tr_table s')" "known s' = known s"
      "known s (ev_pid ev) \<Longrightarrow> tr_file s' = tr_file s @ [Exit_Write (ev_pid ev) block]"
      "\<not> known s (ev_pid ev) \<Longrightarrow> tr_file s' = tr_file s" by metis
    show ?thesis
    proof (cases "known s (ev_pid ev)")
      case True
      then have "ev_pid ev \<in> insert c (forked (tr_file s))" using kn by blast
      then show ?thesis using b(1,2) b(3) [OF True] ff kn by (simp add: order_inv_def)
    next
      case False
      then show ?thesis using b ff kn by (simp add: order_inv_def)
    qed
  next
    case 2
    from step_fork [OF assms(2) 2 ok] obtain child line where f: "table_ok (tr_table s')"
      "known s' = (known s)(child := True)"
      "tr_file s' = tr_file s @ Fork_Write child line # (case pending s child of None \<Rightarrow> [] | Some t \<Rightarrow> [Exit_Write child t])"
      by metis
    have "{q. known s' q} = insert child {q. known s q}" by (auto simp: f(2))
    then show ?thesis using f(1,3) ff kn by (auto simp: order_inv_def split: option.split)
  next
    case 3
    from step_other [OF assms(2) 3 ok] obtain ls where "tr_file s' = tr_file s @ ls" "only_lines ls"
      "table_ok (tr_table s')" "known s' = known s" by metis
    then show ?thesis using ff kn only_lines_quiet [of ls] by (simp add: order_inv_def)
  qed
qed

lemma order_inv_eintr: "order_inv c s \<Longrightarrow> order_inv c (s\<lparr>tr_wait_eintr := n\<rparr>)"
  by (simp add: order_inv_def known_def)

lemma order_inv_events:
  "order_inv c s \<Longrightarrow> ptrace_events p ws s = Some (s', d) \<Longrightarrow> order_inv c s'"
proof (induction p ws s rule: ptrace_events.induct)
  case (2 p e ws s)
  then show ?case using order_inv_eintr [of c s] by (auto split: if_splits)
next
  case (3 p ev ws s)
  then show ?case using order_inv_step [of c s p ev] by (auto split: option.splits)
qed simp

text \<open>The state when the loop is entered: the root line is written, the command's process known.\<close>

definition loop_start :: "'k tracer_config \<Rightarrow> 'k \<Rightarrow> coverage \<Rightarrow> string \<Rightarrow> 'k tracer" where
  "loop_start p k cv root_line = mark_known (px_child_pid p) (tracer_initial k cv [Line_Write root_line])"

lemma loop_start_views:
  "table_ok (tr_table (loop_start p k cv l))" "tr_file (loop_start p k cv l) = [Line_Write l]"
  "known (loop_start p k cv l) q \<longleftrightarrow> q = px_child_pid p" "pending (loop_start p k cv l) q = None"
  "track (loop_start p k cv l) q = syscall_track_zero" "tr_resumes (loop_start p k cv l) = []"
proof -
  let ?s = "tracer_initial k cv [Line_Write l]"
  have ok: "table_ok (tr_table ?s)" by (simp add: tracer_initial_def initial_table_ok)
  have e: "entry_of_pid (tr_table ?s) r = ptrace_pid_entry_zero" for r
    by (simp add: tracer_initial_def entry_initial)
  have p: "pending ?s r = None" for r by (simp add: pending_def e ptrace_pid_entry_zero_def)
  show "table_ok (tr_table (loop_start p k cv l))" by (simp add: loop_start_def mark_known_table ok)
  show "tr_file (loop_start p k cv l) = [Line_Write l]"
    by (simp add: loop_start_def mark_known_file [OF ok] p) (simp add: tracer_initial_def)
  show "known (loop_start p k cv l) q \<longleftrightarrow> q = px_child_pid p" "pending (loop_start p k cv l) q = None"
    "track (loop_start p k cv l) q = syscall_track_zero"
    by (simp_all add: loop_start_def known_def pending_def track_def mark_known_table entry_of_with_entry ok e
        ptrace_pid_entry_zero_def)
  show "tr_resumes (loop_start p k cv l) = []" by (simp add: loop_start_def tracer_initial_def)
qed

lemma loop_start_order: "order_inv (px_child_pid p) (loop_start p k cv l)"
  by (auto simp: order_inv_def loop_start_views)

section \<open>No exit block is lost\<close>

fun exit_writes :: "tree_write list \<Rightarrow> (u32 \<times> string) list" where
  "exit_writes [] = []"
| "exit_writes (Exit_Write q t # ws) = (q, t) # exit_writes ws"
| "exit_writes (Fork_Write c t # ws) = exit_writes ws"
| "exit_writes (Line_Write t # ws) = exit_writes ws"

text \<open>The blocks composed at the exit stops of a run, with their processes.\<close>

fun composed :: "'k tracer_config \<Rightarrow> wait_result list \<Rightarrow> 'k tracer \<Rightarrow> (u32 \<times> string) list" where
  "composed p [] s = []"
| "composed p (Wait_Error e # ws) s =
     (if e = EINTR then composed p ws (s\<lparr>tr_wait_eintr := tr_wait_eintr s + 1\<rparr>)
      else if e = ECHILD then [] else composed p ws s)"
| "composed p (Wait_Event ev # ws) s =
     (if kind ev = Is_Exit then map (Pair (ev_pid ev)) (case composed_block p ev s of None \<Rightarrow> [] | Some b \<Rightarrow> [b]) else []) @
     (case ptrace_step p ev s of None \<Rightarrow> [] | Some s' \<Rightarrow> composed p ws s')"

definition exit_stops :: "wait_result list \<Rightarrow> u32 list" where
  "exit_stops ws = map ev_pid (filter (\<lambda>ev. kind ev = Is_Exit) (delivered ws))"

lemma exit_writes_append [simp]: "exit_writes (xs @ ys) = exit_writes xs @ exit_writes ys"
  by (induction xs rule: exit_writes.induct) auto

lemma only_lines_exit_writes: "only_lines ws \<Longrightarrow> exit_writes ws = []"
  by (induction ws rule: exit_writes.induct) auto

definition waiting :: "'k tracer \<Rightarrow> (u32 \<times> string) multiset" where
  "waiting s = mset_set (Map.graph (pending s))"

lemma finite_graph_u32 [simp]: "finite (Map.graph (m :: u32 \<Rightarrow> 'b option))"
  by (simp add: finite_graph_iff_finite_dom)

lemma graph_add: "m q = None \<Longrightarrow> Map.graph (m(q := Some b)) = insert (q, b) (Map.graph m)"
  by (auto simp: Map.graph_def split: if_splits)

lemma graph_remove: "m q = Some b \<Longrightarrow> Map.graph (m(q := None)) = Map.graph m - {(q, b)}"
  by (auto simp: Map.graph_def split: if_splits)

lemma waiting_add:
  "pending s q = None \<Longrightarrow> pending s' = (pending s)(q := Some b) \<Longrightarrow> waiting s' = add_mset (q, b) (waiting s)"
proof -
  assume n: "pending s q = None" and s': "pending s' = (pending s)(q := Some b)"
  have "(q, b) \<notin> Map.graph (pending s)" using n by (simp add: Map.graph_def)
  then show ?thesis unfolding waiting_def s' graph_add [of "pending s" q b, OF n] by simp
qed

lemma waiting_remove:
  "pending s' = (pending s)(q := None) \<Longrightarrow>
   waiting s = waiting s' + mset (map (Pair q) (case pending s q of None \<Rightarrow> [] | Some b \<Rightarrow> [b]))"
proof (cases "pending s q")
  case None
  assume "pending s' = (pending s)(q := None)"
  then have "pending s' = pending s" using None by auto
  then show ?thesis using None by (simp add: waiting_def)
next
  case (Some b)
  assume "pending s' = (pending s)(q := None)"
  then have g: "Map.graph (pending s') = Map.graph (pending s) - {(q, b)}" using graph_remove [of "pending s" q b, OF Some] by simp
  have "(q, b) \<in> Map.graph (pending s)" using Some by (simp add: Map.graph_def)
  then have "waiting s = add_mset (q, b) (mset_set (Map.graph (pending s) - {(q, b)}))"
    unfolding waiting_def by (subst mset_set.remove) simp_all
  then show ?thesis using Some by (simp add: waiting_def g)
qed

lemma conserve_step:
  assumes "ptrace_step p ev s = Some s'" and ok: "table_ok (tr_table s)"
    and "kind ev = Is_Exit \<Longrightarrow> pending s (ev_pid ev) = None"
  shows "mset (exit_writes (tr_file s')) + waiting s' =
    mset (exit_writes (tr_file s)) + waiting s +
    mset (if kind ev = Is_Exit then map (Pair (ev_pid ev)) (case composed_block p ev s of None \<Rightarrow> [] | Some b \<Rightarrow> [b]) else [])"
    and "table_ok (tr_table s')"
    and "dom (pending s') \<subseteq> dom (pending s) \<union> (if kind ev = Is_Exit then {ev_pid ev} else {})"
proof -
  consider "kind ev = Is_Exit" | "kind ev = Is_Fork" | "kind ev \<noteq> Is_Exit" "kind ev \<noteq> Is_Fork" by blast
  then have "mset (exit_writes (tr_file s')) + waiting s' =
    mset (exit_writes (tr_file s)) + waiting s +
    mset (if kind ev = Is_Exit then map (Pair (ev_pid ev)) (case composed_block p ev s of None \<Rightarrow> [] | Some b \<Rightarrow> [b]) else []) \<and>
    table_ok (tr_table s') \<and>
    dom (pending s') \<subseteq> dom (pending s) \<union> (if kind ev = Is_Exit then {ev_pid ev} else {})"
  proof cases
    case 1
    from step_exit [OF assms(1) 1 ok] obtain block where b: "composed_block p ev s = Some block" "table_ok (tr_table s')"
      "known s (ev_pid ev) \<Longrightarrow> tr_file s' = tr_file s @ [Exit_Write (ev_pid ev) block] \<and> pending s' = pending s"
      "\<not> known s (ev_pid ev) \<Longrightarrow>
        tr_file s' = tr_file s \<and> pending s' = (pending s)(ev_pid ev := Some block)" by metis
    show ?thesis
    proof (cases "known s (ev_pid ev)")
      case True
      then show ?thesis using b(1,2) b(3) [OF True] 1 by (auto simp: waiting_def)
    next
      case False
      with b(4) have f: "tr_file s' = tr_file s" and p: "pending s' = (pending s)(ev_pid ev := Some block)" by simp_all
      from waiting_add [OF assms(3) [OF 1] p] show ?thesis using b(1,2) 1 by (auto simp: f p)
    qed
  next
    case 2
    from step_fork [OF assms(1) 2 ok] obtain child line where f: "table_ok (tr_table s')"
      "pending s' = (pending s)(child := None)"
      "tr_file s' = tr_file s @ Fork_Write child line # (case pending s child of None \<Rightarrow> [] | Some t \<Rightarrow> [Exit_Write child t])"
      by metis
    show ?thesis using waiting_remove [OF f(2)] 2 f by (auto split: option.splits)
  next
    case 3
    from step_other [OF assms(1) 3 ok] obtain ls where "tr_file s' = tr_file s @ ls" "only_lines ls"
      "table_ok (tr_table s')" "pending s' = pending s" by metis
    then show ?thesis using 3 by (simp add: only_lines_exit_writes waiting_def)
  qed
  then show "mset (exit_writes (tr_file s')) + waiting s' =
    mset (exit_writes (tr_file s)) + waiting s +
    mset (if kind ev = Is_Exit then map (Pair (ev_pid ev)) (case composed_block p ev s of None \<Rightarrow> [] | Some b \<Rightarrow> [b]) else [])"
    and "table_ok (tr_table s')"
    and "dom (pending s') \<subseteq> dom (pending s) \<union> (if kind ev = Is_Exit then {ev_pid ev} else {})"
    by blast+
qed

lemma pending_eintr [simp]: "pending (s\<lparr>tr_wait_eintr := n\<rparr>) = pending s" "waiting (s\<lparr>tr_wait_eintr := n\<rparr>) = waiting s"
  "track (s\<lparr>tr_wait_eintr := n\<rparr>) = track s"
proof -
  show p: "pending (s\<lparr>tr_wait_eintr := n\<rparr>) = pending s" "track (s\<lparr>tr_wait_eintr := n\<rparr>) = track s"
    by (simp_all add: pending_def track_def fun_eq_iff)
  show "waiting (s\<lparr>tr_wait_eintr := n\<rparr>) = waiting s" by (simp add: waiting_def p)
qed

lemma exit_stops_simps [simp]:
  "exit_stops [] = []"
  "exit_stops (Wait_Error e # ws) = (if e = ECHILD then [] else exit_stops ws)"
  "exit_stops (Wait_Event ev # ws) = (if kind ev = Is_Exit then ev_pid ev # exit_stops ws else exit_stops ws)"
  by (simp_all add: exit_stops_def)

lemma EINTR_ECHILD [simp]: "EINTR \<noteq> ECHILD" "ECHILD \<noteq> EINTR"
  by (simp_all add: EINTR_def ECHILD_def)

lemma conserve_events:
  "ptrace_events p ws s = Some (s', d) \<Longrightarrow> table_ok (tr_table s) \<Longrightarrow> distinct (exit_stops ws) \<Longrightarrow>
   dom (pending s) \<inter> set (exit_stops ws) = {} \<Longrightarrow>
   mset (exit_writes (tr_file s')) + waiting s' =
     mset (exit_writes (tr_file s)) + waiting s + mset (composed p ws s) \<and> table_ok (tr_table s')"
proof (induction p ws s rule: ptrace_events.induct)
  case (2 p e ws s)
  then show ?case by (auto split: if_splits)
next
  case (3 p ev ws s)
  then obtain s1 where s1: "ptrace_step p ev s = Some s1" "ptrace_events p ws s1 = Some (s', d)"
    by (auto split: option.splits)
  have none: "kind ev = Is_Exit \<Longrightarrow> pending s (ev_pid ev) = None" using "3.prems"(4) by auto
  note c = conserve_step [OF s1(1) "3.prems"(2) none]
  have "dom (pending s1) \<inter> set (exit_stops ws) = {}"
    using c(3) "3.prems"(3,4) by (cases "kind ev = Is_Exit") (simp_all, blast+)
  moreover have "distinct (exit_stops ws)" using "3.prems"(3) by (simp split: if_splits)
  ultimately show ?case
    using "3.IH" [OF s1(1) s1(2) c(2)] c(1) s1(1) by simp
qed simp

section \<open>What is flushed at the end\<close>

lemma table_keys_distinct:
  assumes "table_ok t"
  shows "n \<le> length t \<Longrightarrow> distinct (map fst (concat (take n t))) \<and> (\<forall>e \<in> set (concat (take n t)). bucket_of t (fst e) < n)"
proof (induction n)
  case (Suc n)
  have n: "n < length t" using Suc.prems by simp
  have d: "distinct (map fst (t ! n))" and b: "\<forall>e \<in> set (t ! n). bucket_of t (fst e) = n"
    using assms n by (auto simp: table_ok_def)
  have IH: "distinct (map fst (concat (take n t)))" "\<forall>e \<in> set (concat (take n t)). bucket_of t (fst e) < n"
    using Suc by simp_all
  have "fst x \<noteq> fst y" if "x \<in> set (concat (take n t))" "y \<in> set (t ! n)" for x y
    using IH(2) b that by (metis less_irrefl)
  then have "fst ` set (concat (take n t)) \<inter> fst ` set (t ! n) = {}"
    unfolding disjoint_iff image_iff by metis
  then show ?case
    using IH d b by (auto simp: take_Suc_conv_app_nth [OF n] less_Suc_eq)
qed simp

lemma table_find_concat:
  assumes "table_ok t"
  shows "table_find t q = map_of (concat t) q" and "distinct (map fst (concat t))"
proof -
  show d: "distinct (map fst (concat t))" using table_keys_distinct [OF assms, of "length t"] by simp
  show "table_find t q = map_of (concat t) q"
  proof (cases "table_find t q")
    case None
    have "q \<notin> fst ` set (concat t)"
    proof
      assume "q \<in> fst ` set (concat t)"
      then obtain es where "es \<in> set t" "q \<in> fst ` set es" by auto
      then obtain i where "i < length t" "q \<in> fst ` set (t ! i)" by (metis in_set_conv_nth)
      then have "q \<in> dom (table_find t)" using table_dom [OF assms] by blast
      with None show False by blast
    qed
    then have "map_of (concat t) q = None" by (simp only: map_of_eq_None_iff not_False_eq_True)
    then show ?thesis using None by simp
  next
    case (Some e)
    then have "(q, e) \<in> set (t ! bucket_of t q)"
      by (simp add: table_find_def chain_find_map_of map_of_SomeD)
    then have "(q, e) \<in> set (concat t)" using bucket_of_bound [OF assms, of q] nth_mem by auto
    then show ?thesis using Some d by simp
  qed
qed

definition pending_pairs :: "u32 \<times> ptrace_pid_entry \<Rightarrow> (u32 \<times> string) list" where
  "pending_pairs x = (case pe_pending_exit (snd x) of None \<Rightarrow> [] | Some text \<Rightarrow> [(fst x, text)])"

lemma flush_pairs: "fst (ptrace_pid_table_flush_and_free t) = concat (map pending_pairs (concat t))"
proof -
  have p: "(\<lambda>(pid, e). case pe_pending_exit e of None \<Rightarrow> [] | Some text \<Rightarrow> [(pid, text)]) = pending_pairs"
    by (auto simp: fun_eq_iff pending_pairs_def split: option.split)
  show ?thesis by (induction t) (simp_all add: ptrace_pid_table_flush_and_free_def p)
qed

lemma pending_pairs_mset:
  "distinct (map fst es) \<Longrightarrow>
   mset (concat (map pending_pairs es)) = mset_set (Map.graph (\<lambda>q. Option.bind (map_of es q) pe_pending_exit))"
proof (induction es)
  case (Cons x es)
  obtain q e where x: "x = (q, e)" by (cases x)
  let ?m = "\<lambda>q. Option.bind (map_of es q) pe_pending_exit"
  have "map_of es q = None" using Cons.prems by (simp add: x map_of_eq_None_iff)
  then have q: "?m q = None" by simp
  have m: "(\<lambda>r. Option.bind (map_of (x # es) r) pe_pending_exit) = ?m(q := pe_pending_exit e)"
    by (auto simp: x fun_eq_iff)
  show ?case
  proof (cases "pe_pending_exit e")
    case None
    then have "?m(q := pe_pending_exit e) = ?m" using q by auto
    then show ?thesis using Cons None by (simp only: m) (simp add: pending_pairs_def x)
  next
    case (Some b)
    have "(q, b) \<notin> Map.graph ?m" using q by (simp add: Map.graph_def)
    then have "mset_set (Map.graph (?m(q := pe_pending_exit e))) = add_mset (q, b) (mset_set (Map.graph ?m))"
      using graph_add [of ?m q b, OF q] by (simp add: Some)
    then show ?thesis using Cons Some by (simp only: m) (simp add: pending_pairs_def x)
  qed
qed (simp add: Map.graph_def)

lemma flush_mset:
  assumes "table_ok (tr_table s)"
  shows "mset (fst (ptrace_pid_table_flush_and_free (tr_table s))) = waiting s"
proof -
  have "(\<lambda>q. Option.bind (map_of (concat (tr_table s)) q) pe_pending_exit) = pending s"
    using table_find_concat(1) [OF assms]
    by (auto simp: fun_eq_iff pending_def entry_of_pid_def ptrace_pid_entry_zero_def split: option.split)
  then show ?thesis
    using pending_pairs_mset [OF table_find_concat(2) [OF assms]] by (simp add: flush_pairs waiting_def)
qed

lemma finish_exit_writes:
  assumes "table_ok (tr_table s)"
  shows "mset (exit_writes (tr_file (finish_loop s))) = mset (exit_writes (tr_file s)) + waiting s"
proof -
  have "exit_writes (map (\<lambda>(pid, text). Exit_Write pid text) xs) = xs" for xs
    by (induction xs) auto
  then show ?thesis
    using flush_mset [OF assms] by (auto simp: finish_loop_def Let_def split: prod.split)
qed

section \<open>Times of one process\<close>

definition syscall_stops :: "wait_result list \<Rightarrow> u32 \<Rightarrow> wait_event list" where
  "syscall_stops ws q = filter (\<lambda>ev. kind ev = Is_Syscall \<and> ev_pid ev = q) (delivered ws)"

lemma track_step:
  assumes "ptrace_step p ev s = Some s'" and ok: "table_ok (tr_table s)"
  shows "table_ok (tr_table s')"
    and "track s' q = (if kind ev = Is_Syscall \<and> ev_pid ev = q then syscall_stop p ev (track s q) else track s q)"
proof -
  consider "kind ev = Is_Exit" | "kind ev = Is_Fork" | "kind ev \<noteq> Is_Exit" "kind ev \<noteq> Is_Fork" by blast
  then have "table_ok (tr_table s') \<and>
    track s' = (if kind ev = Is_Syscall then (track s)(ev_pid ev := syscall_stop p ev (track s (ev_pid ev))) else track s)"
  proof cases
    case 1
    from step_exit [OF assms(1) 1 ok] have "table_ok (tr_table s') \<and> track s' = track s" by metis
    with 1 show ?thesis by simp
  next
    case 2
    from step_fork [OF assms(1) 2 ok] have "table_ok (tr_table s') \<and> track s' = track s" by metis
    with 2 show ?thesis by simp
  next
    case 3
    from step_other [OF assms(1) 3 ok] show ?thesis by metis
  qed
  then show "table_ok (tr_table s')"
    "track s' q = (if kind ev = Is_Syscall \<and> ev_pid ev = q then syscall_stop p ev (track s q) else track s q)"
    by auto
qed

lemma track_events:
  "ptrace_events p ws s = Some (s', d) \<Longrightarrow> table_ok (tr_table s) \<Longrightarrow>
   track s' q = fold (syscall_stop p) (syscall_stops ws q) (track s q)"
proof (induction p ws s rule: ptrace_events.induct)
  case (2 p e ws s)
  then show ?case by (auto simp: syscall_stops_def split: if_splits)
next
  case (3 p ev ws s)
  then obtain s1 where s1: "ptrace_step p ev s = Some s1" "ptrace_events p ws s1 = Some (s', d)"
    by (auto split: option.splits)
  note t = track_step [OF s1(1) "3.prems"(2)]
  from "3.IH" [OF s1(1) s1(2) t(1)] show ?case by (simp add: syscall_stops_def t(2))
qed (simp add: syscall_stops_def)

section \<open>Every stop is answered\<close>

definition stopped :: "wait_event \<Rightarrow> bool" where
  "stopped ev \<longleftrightarrow> kind ev \<noteq> Is_Exited \<and> kind ev \<noteq> Is_Signaled"

definition signal_for :: "wait_event \<Rightarrow> u32" where
  "signal_for ev = (if kind ev = Is_Signal then WSTOPSIG (ev_status ev) else 0)"

lemma resumes_step:
  assumes "ptrace_step p ev s = Some s'"
  shows "map snd (tr_resumes s') =
    map snd (tr_resumes s) @ (if stopped ev then [(ev_pid ev, signal_for ev)] else [])"
proof (cases "stop_kind_of (ev_status ev)")
  case Is_Exit
  then obtain s1 where s1: "on_exit_event p ev s = Some s1" "s' = go_on p ev s1"
    using assms by (auto simp: ptrace_step_def)
  then have "tr_resumes s1 = tr_resumes s"
    by (auto simp: on_exit_event_def Let_def split: option.splits if_splits)
  then show ?thesis using s1(2) Is_Exit by (simp add: stopped_def signal_for_def kind_def)
qed (use assms in \<open>auto simp: ptrace_step_def stopped_def signal_for_def kind_def on_exited_def on_signaled_def
  on_exec_event_def on_fork_event_def on_syscall_stop_def Let_def\<close>)

lemma resumes_events:
  "ptrace_events p ws s = Some (s', d) \<Longrightarrow>
   map snd (tr_resumes s') =
     map snd (tr_resumes s) @ map (\<lambda>ev. (ev_pid ev, signal_for ev)) (filter stopped (delivered ws))"
proof (induction p ws s rule: ptrace_events.induct)
  case (3 p ev ws s)
  then obtain s1 where "ptrace_step p ev s = Some s1" "ptrace_events p ws s1 = Some (s', d)"
    by (auto split: option.splits)
  with "3.IH" resumes_step [of p ev s s1] show ?case by simp
qed (auto split: if_splits)

section \<open>When the loop returns\<close>

text \<open>Without a traced command line, opened files and targets, no step reads what may be missing.\<close>

definition safe_options :: "'k tracer_config \<Rightarrow> bool" where
  "safe_options p \<longleftrightarrow> \<not> px_tree_cmdline p \<and> \<not> px_tree_open p \<and> \<not> px_target_active p"

lemma safe_step: "safe_options p \<Longrightarrow> ptrace_step p ev s \<noteq> None"
  by (cases "stop_kind_of (ev_status ev)")
    (auto simp: safe_options_def ptrace_step_def on_exit_event_def exit_block_def on_syscall_stop_def open_line_def Let_def
      split: option.splits)

lemma safe_events:
  "safe_options p \<Longrightarrow> Wait_Error ECHILD \<in> set ws \<Longrightarrow> \<exists>s'. ptrace_events p ws s = Some (s', True)"
proof (induction p ws s rule: ptrace_events.induct)
  case (3 p ev ws s)
  then obtain s1 where s1: "ptrace_step p ev s = Some s1" using safe_step [of p ev s] by auto
  from "3.IH" [OF this] 3 s1 show ?case by simp
qed auto

lemma composed_pids:
  "ptrace_events p ws s = Some (s', d) \<Longrightarrow> table_ok (tr_table s) \<Longrightarrow> map fst (composed p ws s) = exit_stops ws"
proof (induction p ws s rule: ptrace_events.induct)
  case (2 p e ws s)
  then show ?case by (auto split: if_splits)
next
  case (3 p ev ws s)
  then obtain s1 where s1: "ptrace_step p ev s = Some s1" "ptrace_events p ws s1 = Some (s', d)"
    by (auto split: option.splits)
  have "\<exists>b. composed_block p ev s = Some b" if "kind ev = Is_Exit"
    using step_exit [OF s1(1) that "3.prems"(2)] by blast
  with "3.IH" [OF s1(1) s1(2) track_step(1) [OF s1(1) "3.prems"(2)]] s1(1) show ?case by auto
qed simp

section \<open>Properties\<close>


text \<open>C16: when the loop returns, the exit blocks of the file are exactly the blocks composed at the exit stops,
  each once, one for every exit stop, provided that no process id has two exit stops.\<close>
theorem ptrace_blocks_conserved:
  assumes "ptrace_loop p ws (tracer_initial k cv [Line_Write root_line]) = Some s" and "distinct (exit_stops ws)"
  shows "mset (exit_writes (tr_file s)) = mset (composed p ws (loop_start p k cv root_line)) \<and>
    map fst (composed p ws (loop_start p k cv root_line)) = exit_stops ws"
proof -
  from assms(1) obtain s1 where s1: "ptrace_events p ws (loop_start p k cv root_line) = Some (s1, True)"
    and s: "s = finish_loop s1"
    by (auto simp: ptrace_loop_def loop_start_def split: option.splits bool.splits prod.splits)
  have none: "pending (loop_start p k cv root_line) = Map.empty" by (simp add: fun_eq_iff loop_start_views)
  then have w: "waiting (loop_start p k cv root_line) = {#}" by (simp add: waiting_def Map.graph_def)
  have "mset (exit_writes (tr_file s1)) + waiting s1 = mset (composed p ws (loop_start p k cv root_line)) \<and>
      table_ok (tr_table s1)"
    using conserve_events [OF s1 loop_start_views(1) assms(2)] by (simp add: none w loop_start_views)
  then show ?thesis
    using finish_exit_writes [of s1] composed_pids [OF s1 loop_start_views(1)] by (simp add: s)
qed

text \<open>C21: what the entry of a process holds of its system calls is what its own stops alone would have made of
  it: the stops of other processes in between change nothing.\<close>
theorem ptrace_track_separate:
  assumes "ptrace_events p ws (loop_start p k cv root_line) = Some (s, ended)"
  shows "track s q = fold (syscall_stop p) (syscall_stops ws q) syscall_track_zero"
  using track_events [OF assms loop_start_views(1)] by (simp add: loop_start_views)

text \<open>C23: every stop is answered by one request that lets that process go on, in the order of the stops and with
  a signal only where the stop was for a signal, and then that one; ended processes get no request.\<close>
theorem ptrace_stops_answered:
  assumes "ptrace_events p ws (loop_start p k cv root_line) = Some (s, ended)"
  shows "map snd (tr_resumes s) = map (\<lambda>ev. (ev_pid ev, signal_for ev)) (filter stopped (delivered ws))"
  using resumes_events [OF assms] by (simp add: loop_start_views)

section \<open>A run in which an exit stop overtakes the fork stop\<close>

definition sample_event :: "u32 \<Rightarrow> u32 \<Rightarrow> u64 \<Rightarrow> wait_event" where
  "sample_event pid st msg =
     \<lparr>ev_pid = pid, ev_status = st, ev_sec = 0, ev_nsec = 0, ev_message = msg, ev_syscall = 202, ev_arg2 = 128,
      ev_memory = (\<lambda>_. None),
      ev_proc = \<lparr>pv_comm = Some ''cc'', pv_cmdline = None, pv_io = None, pv_schedstat = None, pv_status = None,
        pv_maps = None, pv_stat = Some ''7 (cc) Z'', pv_exe = None\<rparr>,
      ev_rings = id\<rparr>"

definition sample_waits :: "wait_result list" where
  "sample_waits =
     [Wait_Event (sample_event 7 0x857f 0), Wait_Event (sample_event 5 0x857f 0),
      Wait_Event (sample_event 7 0x6057f 0), Wait_Event (sample_event 5 0x1057f 7),
      Wait_Event (sample_event 7 0 0), Wait_Error ECHILD]"

definition sample_kernel :: "unit kernel" where
  "sample_kernel =
     \<lparr>kn_perf_open = (\<lambda>_ k. ((-1, 1), k)), kn_open_fallback = (\<lambda>k. ((-1, 1, None), k)), kn_mmap = (\<lambda>_ _ _. None),
      kn_read = (\<lambda>_ k. (Read_Error, k)), kn_read_fallback = (\<lambda>_ k. (None, k)), kn_page_size = 4096,
      kn_can_grow = (\<lambda>_. True)\<rparr>"

definition sample_config :: "unit tracer_config" where
  "sample_config =
     \<lparr>px_child_pid = 5, px_start_sec = 0, px_start_nsec = 0, px_tree_cmdline = False, px_tree_open = False,
      px_tree_futex = True, px_tree_io_wait = False, px_tree_connect = False, px_tree_nanosleep = False,
      px_tree_wait = False, px_tree_poll = False, px_tree_io = False, px_tree_schedstat = False,
      px_tree_vmsize = False, px_trace_syscall = True, px_target_active = False,
      px_requested_target = \<lparr>tg_comm = None, tg_cmdline_substr = None\<rparr>, px_symbol_sample_active = False,
      px_symbol_sample_event = SYMBOL_SAMPLE_EVENT_CYCLES, px_counter_mask = 0,
      px_host = \<lparr>h_vendor = VENDOR_AMD, h_is_hybrid = False, h_nmi_running = True\<rparr>,
      px_raw_tables = raw_tables_initial, px_aflag = False, px_kernel = sample_kernel\<rparr>"

lemma sample_kinds:
  "stop_kind_of 0x857f = Is_Syscall" "stop_kind_of 0x6057f = Is_Exit" "stop_kind_of 0x1057f = Is_Fork"
  "stop_kind_of 0 = Is_Exited"
  by code_simp+

lemma sample_kind [simp]: "kind (sample_event q st m) = stop_kind_of st"
  by (simp add: kind_def sample_event_def)

lemma sample_pid [simp]: "ev_pid (sample_event q st m) = q" "ev_status (sample_event q st m) = st"
  by (simp_all add: sample_event_def)

lemma sample_delivered:
  "delivered sample_waits = [sample_event 7 0x857f 0, sample_event 5 0x857f 0, sample_event 7 0x6057f 0,
     sample_event 5 0x1057f 7, sample_event 7 0 0]"
  "exit_stops sample_waits = [7]" "syscall_stops sample_waits 7 = [sample_event 7 0x857f 0]"
  by (simp_all add: sample_waits_def sample_kinds syscall_stops_def)

lemma sample_run:
  "\<exists>s. ptrace_events sample_config sample_waits (loop_start sample_config () coverage_reset ''r'') = Some (s, True)"
  by (rule safe_events) (simp_all add: safe_options_def sample_config_def sample_waits_def)


lemma ptrace_blocks_conserved_witness:
  "\<exists>s block. ptrace_loop sample_config sample_waits (tracer_initial () coverage_reset [Line_Write ''r'']) = Some s \<and>
     exit_writes (tr_file s) = [(7, block)]"
proof -
  obtain s where "ptrace_events sample_config sample_waits (loop_start sample_config () coverage_reset ''r'') =
      Some (s, True)" using sample_run by blast
  then have l: "ptrace_loop sample_config sample_waits (tracer_initial () coverage_reset [Line_Write ''r'']) =
      Some (finish_loop s)" by (simp add: ptrace_loop_def loop_start_def)
  let ?c = "composed sample_config sample_waits (loop_start sample_config () coverage_reset ''r'')"
  have c: "mset (exit_writes (tr_file (finish_loop s))) = mset ?c" "map fst ?c = [7]"
    using ptrace_blocks_conserved [OF l] by (simp_all add: sample_delivered)
  then obtain block where "?c = [(7, block)]" by auto
  with c(1) have "exit_writes (tr_file (finish_loop s)) = [(7, block)]" by (simp add: mset_single_iff)
  with l show ?thesis by blast
qed

lemma ptrace_track_separate_witness:
  "\<exists>s. ptrace_events sample_config sample_waits (loop_start sample_config () coverage_reset ''r'') = Some (s, True) \<and>
     sy_in_syscall (track s 7) \<and> sy_current_syscall (track s 7) = 202"
proof -
  obtain s where s: "ptrace_events sample_config sample_waits (loop_start sample_config () coverage_reset ''r'') =
      Some (s, True)" using sample_run by blast
  have "track s 7 = syscall_stop sample_config (sample_event 7 0x857f 0) syscall_track_zero"
    using ptrace_track_separate [OF s, of 7] by (simp add: sample_delivered)
  then show ?thesis
    using s by (simp add: syscall_stop_def syscall_track_zero_def syscall_entry_def sample_event_def)
qed

lemma ptrace_stops_answered_witness:
  "\<exists>s. ptrace_events sample_config sample_waits (loop_start sample_config () coverage_reset ''r'') = Some (s, True) \<and>
     map snd (tr_resumes s) = [(7, 0), (5, 0), (7, 0), (5, 0)]"
proof -
  obtain s where s: "ptrace_events sample_config sample_waits (loop_start sample_config () coverage_reset ''r'') =
      Some (s, True)" using sample_run by blast
  then show ?thesis
    using ptrace_stops_answered [OF s] by (simp add: sample_delivered stopped_def signal_for_def sample_kinds)
qed

section \<open>Limits\<close>

text \<open>A command line that cannot be opened at an exit stop ends the tracer: the code passes a null pointer to
  \<open>fclose\<close>.\<close>

lemma exit_without_cmdline_fails:
  "px_tree_cmdline p \<Longrightarrow> kind ev = Is_Exit \<Longrightarrow> pv_cmdline (ev_proc ev) = None \<Longrightarrow> ptrace_step p ev s = None"
  by (simp add: ptrace_step_def kind_def on_exit_event_def exit_block_def Let_def)

text \<open>An opened path that fills the buffer is printed past its end.\<close>

lemma long_path_fails:
  "px_tree_open p \<Longrightarrow> kind ev = Is_Syscall \<Longrightarrow> sy_in_syscall (track s (ev_pid ev)) \<Longrightarrow>
   sy_current_syscall (track s (ev_pid ev)) = SYS_openat \<Longrightarrow>
   ptrace_read_null_terminated_string (ev_memory ev) (ev_arg2 ev) = Peek_Unterminated \<Longrightarrow> ptrace_step p ev s = None"
  by (simp add: ptrace_step_def kind_def on_syscall_stop_def open_line_def track_def)

text \<open>A process that matches the target a second time gets its counters opened anew: what was open is
  overwritten without being closed.\<close>

lemma reopen_forgets_descriptor:
  "setup_perf kn aflag pid g (c\<lparr>ci_fd := x\<rparr>) s = setup_perf kn aflag pid g c s"
proof -
  have c: "perf_open_call aflag pid g (c\<lparr>ci_fd := x\<rparr>) i = perf_open_call aflag pid g c i"
    "ci_is_group_leader (c\<lparr>ci_fd := x\<rparr>) = ci_is_group_leader c" "ci_label (c\<lparr>ci_fd := x\<rparr>) = ci_label c"
    "ci_is_ibs_sample (c\<lparr>ci_fd := x\<rparr>) = ci_is_ibs_sample c"
    "ci_is_symbol_sample (c\<lparr>ci_fd := x\<rparr>) = ci_is_symbol_sample c"
    "ci_ibs_sample_state (c\<lparr>ci_fd := x\<rparr>) = ci_ibs_sample_state c"
    "ci_symbol_sample_state (c\<lparr>ci_fd := x\<rparr>) = ci_symbol_sample_state c"
    "c\<lparr>ci_fd := x, ci_fd := y\<rparr> = c\<lparr>ci_fd := y\<rparr>" for i y
    by (cases c, simp add: perf_open_call_def open_target_def)+
  show ?thesis by (simp only: setup_perf_def c)
qed

text \<open>An exit stop does not reset the process's entry: a later process with the same id finds the old one.\<close>

lemma exit_keeps_track:
  "ptrace_step p ev s = Some s' \<Longrightarrow> kind ev = Is_Exit \<Longrightarrow> table_ok (tr_table s) \<Longrightarrow>
   track s' = track s \<and> known s' = known s"
  by (elim step_exit) auto

end
