(* ===== verification/Json_Text.thy ===== *)
theory Json_Text
  imports Json_Roundtrip
begin

text \<open>
  Composing JSON text the way the writers of wspy do, field by field with commas between, and the facts
  that make the result a document of \<open>json_doc\<close>: literal keys, decimal integers, \<open>%.<n>f\<close> numbers.
\<close>

fun join_text :: "string \<Rightarrow> string list \<Rightarrow> string" where
  "join_text sep [] = []"
| "join_text sep [x] = x"
| "join_text sep (x # y # ys) = x @ sep @ join_text sep (y # ys)"

text \<open>A key written by a format string, and the object and array made of texts.\<close>

definition json_field :: "string \<Rightarrow> string \<Rightarrow> string" where
  "json_field k v = QUOTE # k @ QUOTE # '':'' @ v"

definition json_object :: "(string \<times> string) list \<Rightarrow> string" where
  "json_object kvs = ''{'' @ join_text '','' (map (\<lambda>(k, v). json_field k v) kvs) @ ''}''"

definition json_array :: "string list \<Rightarrow> string" where
  "json_array vs = ''['' @ join_text '','' vs @ '']''"

definition json_write_string_or_null :: "string option \<Rightarrow> string" where
  "json_write_string_or_null s = (case s of None \<Rightarrow> ''null'' | Some t \<Rightarrow> json_write_string (Some t))"

section \<open>Documents\<close>

text \<open>A key of lower-case letters, digits and underscores needs no escaping.\<close>

definition plain_char :: "char \<Rightarrow> bool" where
  "plain_char c \<longleftrightarrow> 95 \<le> char_code c \<and> char_code c \<le> 122"

definition plain_word :: "string \<Rightarrow> bool" where
  "plain_word k \<longleftrightarrow> list_all plain_char k"

lemma plain_escape: "plain_char c \<Longrightarrow> json_escape c = [c] \<and> c \<noteq> NUL"
  by (auto simp: plain_char_def json_escape_def NUL_eq_iff)

lemma plain_key:
  assumes "plain_word k"
  shows "json_write_string (Some k) = QUOTE # k @ [QUOTE]" and "no_nul k"
proof -
  have e: "\<forall>c \<in> set k. json_escape c = [c] \<and> c \<noteq> NUL"
    using assms plain_escape by (auto simp: plain_word_def list_all_iff)
  then show n: "no_nul k" by (auto simp: no_nul_def)
  have "concat (map json_escape k) = k" using e by (induction k) auto
  with n show "json_write_string (Some k) = QUOTE # k @ [QUOTE]" by (simp add: json_write_string_def)
qed

text \<open>A document without zero bytes, which is all of what a C string of it holds.\<close>

definition json_text :: "string \<Rightarrow> json_value \<Rightarrow> bool" where
  "json_text s v \<longleftrightarrow> json_doc s v \<and> no_nul s"

lemma join_text_no_nul: "no_nul sep \<Longrightarrow> \<forall>t \<in> set ts. no_nul t \<Longrightarrow> no_nul (join_text sep ts)"
  by (induction sep ts rule: join_text.induct) auto

lemma punct_no_nul [simp]: "CHR '','' \<noteq> NUL" "CHR ''['' \<noteq> NUL" "CHR '']'' \<noteq> NUL" "CHR ''{'' \<noteq> NUL"
  "CHR ''}'' \<noteq> NUL" "CHR '':'' \<noteq> NUL"
  by (simp_all add: NUL_def)

lemma doc_items_join:
  "list_all2 json_doc ts vs \<Longrightarrow> vs \<noteq> [] \<Longrightarrow> doc_items (join_text '','' ts) vs"
proof (induction rule: list_all2_induct)
  case (Cons t ts v vs)
  show ?case
  proof (cases "vs = []")
    case True
    then have "ts = []" using Cons by simp
    then show ?thesis using True item_last [of "[]" t v "[]"] Cons by simp
  next
    case False
    then obtain u us where "ts = u # us" using Cons by (cases ts) auto
    then show ?thesis using item_more [of "[]" t v "[]" "join_text '','' ts" vs] Cons False by simp
  qed
qed simp

lemma list_all2_text:
  "list_all2 json_text ts vs \<Longrightarrow> list_all2 json_doc ts vs \<and> (\<forall>t \<in> set ts. no_nul t)"
  by (induction rule: list_all2_induct) (auto simp: json_text_def)

lemma json_array_text:
  assumes "list_all2 json_text ts vs"
  shows "json_text (json_array ts) (JSON_ARRAY vs)"
proof -
  from list_all2_text [OF assms] have d: "list_all2 json_doc ts vs" and n: "\<forall>t \<in> set ts. no_nul t" by auto
  have "json_doc (json_array ts) (JSON_ARRAY vs)"
    using doc_array [OF doc_items_join [OF d]] doc_empty_array [of "[]"] d
    by (cases "vs = []") (auto simp: json_array_def)
  moreover have "no_nul (json_array ts)"
    using join_text_no_nul [OF _ n, of "'',''"] unfolding json_array_def no_nul_simps(3) by simp
  ultimately show ?thesis by (simp add: json_text_def)
qed

definition member_doc :: "string \<times> string \<Rightarrow> string \<times> json_value \<Rightarrow> bool" where
  "member_doc kt kv \<longleftrightarrow> fst kt = fst kv \<and> plain_word (fst kt) \<and> json_text (snd kt) (snd kv)"

lemma doc_members_join:
  "list_all2 member_doc kts kvs \<Longrightarrow> kvs \<noteq> [] \<Longrightarrow>
   doc_members (join_text '','' (map (\<lambda>(k, v). json_field k v) kts)) kvs"
proof (induction rule: list_all2_induct)
  case (Cons kt kts kv kvs)
  obtain k t v where kt: "kt = (k, t)" "kv = (k, v)" and k: "plain_word k" and d: "json_doc t v"
    using Cons(1) by (cases kt; cases kv) (auto simp: member_doc_def json_text_def)
  show ?case
  proof (cases "kvs = []")
    case True
    then have "kts = []" using Cons by simp
    then show ?thesis
      using True member_last [of "[]" k "[]" "[]" t v "[]"] plain_key [OF k] d kt by (simp add: json_field_def)
  next
    case False
    then obtain u us where "kts = u # us" using Cons by (cases kts) auto
    then show ?thesis
      using member_more [of "[]" k "[]" "[]" t v "[]" _ kvs] plain_key [OF k] d kt Cons.IH [OF False]
      by (simp add: json_field_def)
  qed
qed simp

lemma member_no_nul: "member_doc kt kv \<Longrightarrow> no_nul (case kt of (k, v) \<Rightarrow> json_field k v)"
  using plain_key(2) [of "fst kt"] by (cases kt) (auto simp: member_doc_def json_text_def json_field_def QUOTE_def NUL_def)

lemma json_object_text:
  assumes "list_all2 member_doc kts kvs"
  shows "json_text (json_object kts) (JSON_OBJECT kvs)"
proof -
  have "json_doc (json_object kts) (JSON_OBJECT kvs)"
    using doc_object [OF doc_members_join [OF assms]] doc_empty_object [of "[]"] assms
    by (cases "kvs = []") (auto simp: json_object_def)
  moreover have "\<forall>t \<in> set (map (\<lambda>(k, v). json_field k v) kts). no_nul t"
    using assms by (induction rule: list_all2_induct) (auto dest: member_no_nul)
  then have "no_nul (json_object kts)"
    using join_text_no_nul [of "'',''"] unfolding json_object_def no_nul_simps(3) by simp
  ultimately show ?thesis by (simp add: json_text_def)
qed

lemma string_text [simp]: "no_nul s \<Longrightarrow> json_text (json_write_string (Some s)) (JSON_STRING s)"
  by (simp add: json_text_def doc_string json_write_string_no_nul)

lemma string_or_null_text:
  "pred_option no_nul s \<Longrightarrow>
   json_text (json_write_string_or_null s) (case s of None \<Rightarrow> JSON_NULL | Some t \<Rightarrow> JSON_STRING t)"
  by (cases s)
    (auto simp: json_write_string_or_null_def json_text_def doc_null NUL_def doc_string json_write_string_no_nul)

lemma number_doc: "json_text (dec n) (JSON_NUMBER (double_of_int (int n)))"
  by (simp add: json_text_def doc_number [OF number_text_dec])

section \<open>Fixed-point numbers\<close>

text \<open>The value a printed \<open>%.<n>f\<close> is read back as.\<close>

definition printed_value :: "nat \<Rightarrow> rat \<Rightarrow> double" where
  "printed_value p q =
     (let m = round_half_even (\<bar>q\<bar> * 10 ^ p); r = double_round (of_int m / 10 ^ p)
      in if q < 0 then dneg r else r)"

lemma pad_zero_value: "digits_value 10 (replicate k (CHR ''0'') @ ds) = digits_value 10 ds"
proof (induction ds rule: rev_induct)
  case Nil
  show ?case by (induction k) (simp_all add: digits_value_def hex_value_def)
next
  case (snoc c ds)
  then show ?case by (simp flip: append_assoc)
qed

lemma digits_value_append:
  "digits_value 10 (a @ b) = digits_value 10 a * 10 ^ length b + digits_value 10 b"
proof (induction b rule: rev_induct)
  case (snoc c b)
  then show ?case by (simp flip: append_assoc add: algebra_simps)
qed simp

lemma dec_value: "digits_value 10 (dec n) = n"
  using digits_value_digits_in [of 10 n] by (simp add: dec_def)

lemma dec_length: "n < 10 ^ p \<Longrightarrow> 0 < p \<Longrightarrow> length (dec n) \<le> p"
proof (induction p arbitrary: n)
  case (Suc p)
  show ?case
  proof (cases "n < 10")
    case True
    then show ?thesis by (simp add: dec_def digits_in.simps [of 10 n])
  next
    case False
    then have "0 < p" using Suc.prems(1) by (cases p) auto
    moreover have "n div 10 < 10 ^ p" using Suc.prems(1) by (simp add: div_less_iff_less_mult mult.commute)
    ultimately show ?thesis
      using Suc.IH [of "n div 10"] False by (simp add: dec_def digits_in.simps [of 10 n])
  qed
qed simp

lemma digit_takeWhile:
  "\<forall>c \<in> set ds. is_digit c \<Longrightarrow> s = [] \<or> \<not> is_digit (hd s) \<Longrightarrow> span_digits 10 (ds @ s) = (ds, s)"
proof -
  assume a: "\<forall>c \<in> set ds. is_digit c" and b: "s = [] \<or> \<not> is_digit (hd s)"
  have t: "takeWhile is_digit s = []" "dropWhile is_digit s = s" using b by (cases s; simp)+
  have e: "digit_in 10 = is_digit" by (rule ext) simp
  show ?thesis using a by (simp add: span_digits_def e takeWhile_append2 dropWhile_append2 t)
qed

text \<open>The text of a nonnegative number: integer part, point, and as many digits as asked for.\<close>

lemma scan_fixed:
  assumes "length fp = p" and "\<forall>c \<in> set fp. is_digit c" and "number_end r"
  shows "scan_decimal (dec n @ CHR ''.'' # fp @ r) = Some (of_nat (n * 10 ^ p + digits_value 10 fp) / 10 ^ p, r)"
proof -
  have r: "r = [] \<or> \<not> is_digit (hd r)" using assms(3) by (cases r) (auto simp: number_end_def)
  have 1: "span_digits 10 (dec n @ CHR ''.'' # fp @ r) = (dec n, CHR ''.'' # fp @ r)"
    using dec_digits by (intro digit_takeWhile) simp_all
  have 2: "span_digits 10 (fp @ r) = (fp, r)" by (rule digit_takeWhile [OF assms(2) r])
  have mant: "scan_mantissa 10 (dec n @ CHR ''.'' # fp @ r) = Some (n * 10 ^ p + digits_value 10 fp, p, r)"
    using assms(1) by (simp add: scan_mantissa_def 1 2 digits_value_append dec_value)
  have p10: "pow10 (- int p) = 1 / 10 ^ p" by (simp add: pow10_def)
  show ?thesis
  proof (cases r)
    case Nil
    then show ?thesis using mant by (simp add: scan_decimal_def p10)
  next
    case (Cons c t)
    have "\<not> (c = CHR ''e'' \<or> c = CHR ''E'')" using assms(3) Cons lower_e by (auto simp: number_end_def)
    with Cons mant show ?thesis by (simp add: scan_decimal_def p10)
  qed
qed

lemma strtod_fixed:
  assumes "length fp = p" and "\<forall>c \<in> set fp. is_digit c" and "number_end r"
  shows "strtod ((if neg then ''-'' else []) @ dec n @ CHR ''.'' # fp @ r) =
    Some (let d = double_round (of_nat (n * 10 ^ p + digits_value 10 fp) / 10 ^ p) in if neg then dneg d else d, r)"
proof -
  let ?t = "dec n @ CHR ''.'' # fp @ r"
  obtain c t where d: "dec n = c # t" and c: "is_digit c" using dec_hd by blast
  have no0x: "\<not> starts_with_ci ''0x'' ?t"
  proof
    assume a: "starts_with_ci ''0x'' ?t"
    have low: "lower c = c" using c by (auto simp: lower_def is_digit_def)
    from a low have "c = CHR ''0''" by (simp add: starts_with_ci_def d)
    with d have "t = []" using dec_starts_with_0 by simp
    with a show False by (simp add: starts_with_ci_def d lower_def)
  qed
  have letters: "\<not> starts_with_ci q ?t" if "q \<noteq> []" "\<not> is_digit (hd q)" for q
    using starts_with_ci_digit [OF c that] by (simp add: d)
  have cls: "\<not> is_digit (CHR ''i'')" "\<not> is_digit (CHR ''n'')" by (simp_all add: is_digit_def)
  have abs: "strtod_abs ?t = Some (double_round (of_nat (n * 10 ^ p + digits_value 10 fp) / 10 ^ p), r)"
    using no0x letters [of "''infinity''"] letters [of "''inf''"] letters [of "''nan''"] cls scan_fixed [OF assms]
    by (simp add: strtod_abs_def)
  have "skip_spaces ?t = ?t" "take_sign ?t = (False, ?t)" using c by (simp_all add: d)
  moreover have "skip_spaces (CHR ''-'' # ?t) = CHR ''-'' # ?t" "take_sign (CHR ''-'' # ?t) = (True, ?t)"
    by (simp_all add: take_sign_def skip_spaces_def is_space_def)
  ultimately show ?thesis using abs by (cases neg) (simp_all add: strtod_def Let_def)
qed

lemma number_text_fixed:
  assumes "0 < p"
  shows "number_text (fmt_fixed p (Fin q)) (printed_value p q)"
proof -
  let ?n = "nat (round_half_even (\<bar>q\<bar> * 10 ^ p))"
  let ?fp = "pad_left (CHR ''0'') p (dec (?n mod 10 ^ p))"
  have "\<lfloor>\<bar>q\<bar> * 10 ^ p\<rfloor> \<ge> 0" by simp
  then have m0: "round_half_even (\<bar>q\<bar> * 10 ^ p) \<ge> 0" by (auto simp: round_half_even_def Let_def)
  have len: "length ?fp = p"
    using dec_length [OF _ assms, of "?n mod 10 ^ p"] by (simp add: pad_left_def)
  have dig: "\<forall>c \<in> set ?fp. is_digit c" using dec_digits by (auto simp: pad_left_def is_digit_def)
  have fpv: "digits_value 10 ?fp = ?n mod 10 ^ p" by (simp add: pad_left_def pad_zero_value dec_value)
  have val: "?n div 10 ^ p * 10 ^ p + digits_value 10 ?fp = ?n"
    unfolding fpv by (rule div_mult_mod_eq)
  have shape: "fmt_fixed p (Fin q) = (if q < 0 then ''-'' else []) @ dec (?n div 10 ^ p) @ CHR ''.'' # ?fp"
    using assms by (simp add: fmt_fixed_def Let_def)
  have "of_nat ?n = (of_int (round_half_even (\<bar>q\<bar> * 10 ^ p)) :: rat)" using m0 by simp
  then have "strtod (fmt_fixed p (Fin q) @ r) = Some (printed_value p q, r)" if "number_end r" for r
    using strtod_fixed [OF len dig that, of "q < 0" "?n div 10 ^ p"]
    unfolding shape val by (simp add: printed_value_def Let_def)
  moreover obtain c t where "dec (?n div 10 ^ p) = c # t" "is_digit c" using dec_hd by blast
  ultimately show ?thesis by (simp add: number_text_def shape)
qed

lemma fmt_fixed_no_nul: "no_nul (fmt_fixed p x)"
  by (auto simp: fmt_fixed_def Let_def pad_left_def no_nul_def NUL_def split: double.splits)
    (use dec_no_nul in \<open>auto simp: no_nul_def NUL_def\<close>)

lemma fixed_text: "0 < p \<Longrightarrow> json_text (fmt_fixed p (Fin q)) (JSON_NUMBER (printed_value p q))"
  by (simp add: json_text_def doc_number [OF number_text_fixed] fmt_fixed_no_nul)

section \<open>Reading a written document back\<close>

lemma json_text_parses:
  assumes "json_text s v" and "json_ws w"
  shows "json_parse (s @ w) = Some (Inr v)"
proof -
  have "no_nul w" using assms(2) by (auto simp: json_ws_def no_nul_def NUL_def is_space_def)
  with assms(1) have c: "cstr (s @ w) = s @ w" by (simp add: json_text_def)
  have d: "json_doc s v" using assms(1) by (simp add: json_text_def)
  obtain k where k: "parse_value (json_fuel (s @ w)) \<lparr>ps_p = s @ w, ps_line = 1\<rparr>
      = Some (Inr (v, \<lparr>ps_p = w, ps_line = k\<rparr>))"
    using doc_parses(1) [OF d number_end_ws [OF assms(2)], of "json_fuel (s @ w)" 1] by (auto simp: json_fuel_def)
  obtain j where j: "skip_ws \<lparr>ps_p = w, ps_line = k\<rparr> = \<lparr>ps_p = [], ps_line = j\<rparr>"
    using skip_ws_text_ws [OF assms(2), of "[]" k] by (auto simp: skip_ws_def)
  have "skip_ws \<lparr>ps_p = s @ w, ps_line = 1\<rparr> = \<lparr>ps_p = s @ w, ps_line = 1\<rparr>"
    using json_doc_token [OF d] by simp
  then show ?thesis using k by (simp add: json_parse_def json_parse_fuel_def c j)
qed

end
