(* ===== verification/Proc_Json.thy ===== *)
theory Proc_Json
  imports Proc_Print Json_Text
begin

text \<open>
  The \<open>--json\<close> export of src/proctree.c: the tree below the root and the summary, every field of every
  process, and that the reader of src/json_reader.c reads back exactly the document meant.
\<close>

section \<open>The writers\<close>

definition target_counters_json :: "target_counter_reading list \<Rightarrow> string" where
  "target_counters_json tcs = json_array (map (\<lambda>tc. json_object
     [(''group'', json_write_string (Some (tc_group tc))), (''label'', json_write_string (Some (tc_label tc))),
      (''value'', u_text (tc_value tc))]) tcs)"

definition target_samples_json :: "target_sample_reading list \<Rightarrow> string" where
  "target_samples_json tss = json_array (map (\<lambda>ts. json_object
     [(''event'', json_write_string (Some (ts_event ts))), (''addr'', u_text (ts_addr ts)),
      (''count'', u_text (ts_count ts))]) tss)"

definition target_maps_json :: "target_map_region list \<Rightarrow> string" where
  "target_maps_json tms = json_array (map (\<lambda>tm. json_object
     [(''start'', u_text (tm_start tm)), (''end'', u_text (tm_end tm)),
      (''file_offset'', u_text (tm_file_offset tm)), (''path'', json_write_string (Some (tm_path tm)))]) tms)"

definition process_fields :: "proc_options \<Rightarrow> process_info \<Rightarrow> (string \<times> string) list" where
  "process_fields p n =
     [(''pid'', u_text (pi_pid n)),
      (''comm'', json_write_string_or_null (pi_comm n)),
      (''cmdline'', json_write_string_or_null (pi_cmdline n)),
      (''ppid'', u_text (pi_ppid n)),
      (''cpu'', u_text (pi_processor n)),
      (''start'', fmt_fixed 6 (pi_start n)),
      (''finish'', fmt_fixed 6 (pi_finish n)),
      (''utime_seconds'', fmt_fixed 6 (clock_seconds p (pi_utime n))),
      (''stime_seconds'', fmt_fixed 6 (clock_seconds p (pi_stime n))),
      (''vsize_kb'', u_text (vsize_kb n)),
      (''rss_kb'', u_text (rss_kb p n)),
      (''num_threads'', u_text (pi_num_threads n)),
      (''exit_code'', u_text (pi_exit_code n)),
      (''futex_wait_count'', u_text (pi_futex_wait_count n)),
      (''futex_wait_seconds'', fmt_fixed 6 (pi_futex_wait_seconds n)),
      (''io_read_wait_count'', u_text (pi_io_read_wait_count n)),
      (''io_read_wait_seconds'', fmt_fixed 6 (pi_io_read_wait_seconds n)),
      (''io_write_wait_count'', u_text (pi_io_write_wait_count n)),
      (''io_write_wait_seconds'', fmt_fixed 6 (pi_io_write_wait_seconds n)),
      (''io_rchar'', u_text (pi_io_rchar n)),
      (''io_wchar'', u_text (pi_io_wchar n)),
      (''io_syscr'', u_text (pi_io_syscr n)),
      (''io_syscw'', u_text (pi_io_syscw n)),
      (''io_read_bytes'', u_text (pi_io_read_bytes n)),
      (''io_write_bytes'', u_text (pi_io_write_bytes n)),
      (''io_cancelled_write_bytes'', u_text (pi_io_cancelled_write_bytes n)),
      (''sched_rundelay_seconds'', fmt_fixed 6 (pi_sched_rundelay_seconds n)),
      (''sched_nr_timeslices'', u_text (pi_sched_nr_timeslices n)),
      (''vm_hwm_kb'', u_text (pi_vm_hwm_kb n)),
      (''rss_anon_kb'', u_text (pi_rss_anon_kb n)),
      (''rss_file_kb'', u_text (pi_rss_file_kb n)),
      (''rss_shmem_kb'', u_text (pi_rss_shmem_kb n)),
      (''vm_swap_kb'', u_text (pi_vm_swap_kb n)),
      (''connect_count'', u_text (pi_connect_count n)),
      (''connect_seconds'', fmt_fixed 6 (pi_connect_seconds n)),
      (''nanosleep_count'', u_text (pi_nanosleep_count n)),
      (''nanosleep_seconds'', fmt_fixed 6 (pi_nanosleep_seconds n)),
      (''wait_count'', u_text (pi_wait_count n)),
      (''wait_seconds'', fmt_fixed 6 (pi_wait_seconds n)),
      (''poll_count'', u_text (pi_poll_count n)),
      (''poll_seconds'', fmt_fixed 6 (pi_poll_seconds n)),
      (''target_counters'', target_counters_json (pi_target_counters n)),
      (''target_samples'', target_samples_json (pi_target_samples n)),
      (''target_samples_lost'', u_text (pi_target_samples_lost n)),
      (''target_maps'', target_maps_json (pi_target_maps n))]"

fun print_process_json :: "nat \<Rightarrow> proc_options \<Rightarrow> proc_heap \<Rightarrow> nat \<Rightarrow> string option" where
  "print_process_json 0 p h a = None"
| "print_process_json (Suc fuel) p h a =
     (case eldest_first (length h) h a of
        None \<Rightarrow> None
      | Some ks \<Rightarrow>
          map_option (\<lambda>ts. json_object (process_fields p (h ! a) @ [(''children'', json_array ts)]))
            (all_Some (map (print_process_json fuel p h) ks)))"

definition comm_total_counters_json :: "comm_total_counter list \<Rightarrow> string" where
  "comm_total_counters_json cts = json_array (map (\<lambda>c. json_object
     [(''group'', json_write_string (Some (ct_group c))), (''label'', json_write_string (Some (ct_label c))),
      (''value'', u_text (ct_total_value c))]) cts)"

definition comm_info_json :: "proc_options \<Rightarrow> comm_info \<Rightarrow> string" where
  "comm_info_json p ci = json_object
     [(''comm'', json_write_string (Some (cm_comm ci))),
      (''count'', u_text (cm_count ci)),
      (''total_utime_seconds'', fmt_fixed 6 (clock_seconds p (cm_total_utime ci))),
      (''total_stime_seconds'', fmt_fixed 6 (clock_seconds p (cm_total_stime ci))),
      (''total_futex_wait_count'', u_text (cm_total_futex_wait_count ci)),
      (''total_futex_wait_seconds'', fmt_fixed 6 (cm_total_futex_wait_seconds ci)),
      (''total_io_read_wait_count'', u_text (cm_total_io_read_wait_count ci)),
      (''total_io_read_wait_seconds'', fmt_fixed 6 (cm_total_io_read_wait_seconds ci)),
      (''total_io_write_wait_count'', u_text (cm_total_io_write_wait_count ci)),
      (''total_io_write_wait_seconds'', fmt_fixed 6 (cm_total_io_write_wait_seconds ci)),
      (''total_io_read_bytes'', u_text (cm_total_io_read_bytes ci)),
      (''total_io_write_bytes'', u_text (cm_total_io_write_bytes ci)),
      (''total_sched_rundelay_seconds'', fmt_fixed 6 (cm_total_sched_rundelay_seconds ci)),
      (''total_sched_nr_timeslices'', u_text (cm_total_sched_nr_timeslices ci)),
      (''total_vm_hwm_kb'', u_text (cm_total_vm_hwm_kb ci)),
      (''total_rss_anon_kb'', u_text (cm_total_rss_anon_kb ci)),
      (''total_rss_file_kb'', u_text (cm_total_rss_file_kb ci)),
      (''total_rss_shmem_kb'', u_text (cm_total_rss_shmem_kb ci)),
      (''total_vm_swap_kb'', u_text (cm_total_vm_swap_kb ci)),
      (''total_connect_count'', u_text (cm_total_connect_count ci)),
      (''total_connect_seconds'', fmt_fixed 6 (cm_total_connect_seconds ci)),
      (''total_nanosleep_count'', u_text (cm_total_nanosleep_count ci)),
      (''total_nanosleep_seconds'', fmt_fixed 6 (cm_total_nanosleep_seconds ci)),
      (''total_wait_count'', u_text (cm_total_wait_count ci)),
      (''total_wait_seconds'', fmt_fixed 6 (cm_total_wait_seconds ci)),
      (''total_poll_count'', u_text (cm_total_poll_count ci)),
      (''total_poll_seconds'', fmt_fixed 6 (cm_total_poll_seconds ci)),
      (''target_counters'', comm_total_counters_json (cm_target_counters ci))]"

definition PROCTREE_JSON_SCHEMA_VERSION :: string where "PROCTREE_JSON_SCHEMA_VERSION = ''1.2.0''"

text \<open>The summary is written first, so without a root \<open>print_json\<close> fails before it could write a null
  tree.\<close>

definition print_json :: "proc_options \<Rightarrow> proctree \<Rightarrow> string \<Rightarrow> string option" where
  "print_json p s source_file =
     (case st_root s of
        None \<Rightarrow> None
      | Some r \<Rightarrow>
          (case build_comm_table (st_heap s) r of
             None \<Rightarrow> None
           | Some tbl \<Rightarrow>
               map_option (\<lambda>tree. json_object
                 [(''schema_version'', json_write_string (Some PROCTREE_JSON_SCHEMA_VERSION)),
                  (''source_file'', json_write_string (Some source_file)),
                  (''process_count'', dec_int (st_total_processes s)),
                  (''max_concurrent_processes'', dec_int (st_max_num_processes s)),
                  (''summary'', json_array (map (comm_info_json p) tbl)),
                  (''tree'', tree)] @ newline)
                 (print_process_json (length (st_heap s)) p (st_heap s) r)))"

section \<open>The values meant\<close>

definition word_value :: "'a :: len word \<Rightarrow> json_value" where
  "word_value w = JSON_NUMBER (double_of_int (int (unat w)))"

definition string_value :: "string option \<Rightarrow> json_value" where
  "string_value s = (case s of None \<Rightarrow> JSON_NULL | Some t \<Rightarrow> JSON_STRING t)"

text \<open>A time as six decimals of it are read back.\<close>

definition fixed_value :: "double \<Rightarrow> json_value" where
  "fixed_value x = JSON_NUMBER (case x of Fin q \<Rightarrow> printed_value 6 q | _ \<Rightarrow> x)"

definition finite_double :: "double \<Rightarrow> bool" where
  "finite_double x \<longleftrightarrow> (case x of Fin _ \<Rightarrow> True | _ \<Rightarrow> False)"

definition counter_value :: "target_counter_reading \<Rightarrow> json_value" where
  "counter_value tc = JSON_OBJECT [(''group'', JSON_STRING (tc_group tc)), (''label'', JSON_STRING (tc_label tc)),
     (''value'', word_value (tc_value tc))]"

definition sample_value :: "target_sample_reading \<Rightarrow> json_value" where
  "sample_value ts = JSON_OBJECT [(''event'', JSON_STRING (ts_event ts)), (''addr'', word_value (ts_addr ts)),
     (''count'', word_value (ts_count ts))]"

definition map_value :: "target_map_region \<Rightarrow> json_value" where
  "map_value tm = JSON_OBJECT [(''start'', word_value (tm_start tm)), (''end'', word_value (tm_end tm)),
     (''file_offset'', word_value (tm_file_offset tm)), (''path'', JSON_STRING (tm_path tm))]"

definition process_members :: "proc_options \<Rightarrow> process_info \<Rightarrow> (string \<times> json_value) list" where
  "process_members p n =
     [(''pid'', word_value (pi_pid n)),
      (''comm'', string_value (pi_comm n)),
      (''cmdline'', string_value (pi_cmdline n)),
      (''ppid'', word_value (pi_ppid n)),
      (''cpu'', word_value (pi_processor n)),
      (''start'', fixed_value (pi_start n)),
      (''finish'', fixed_value (pi_finish n)),
      (''utime_seconds'', fixed_value (clock_seconds p (pi_utime n))),
      (''stime_seconds'', fixed_value (clock_seconds p (pi_stime n))),
      (''vsize_kb'', word_value (vsize_kb n)),
      (''rss_kb'', word_value (rss_kb p n)),
      (''num_threads'', word_value (pi_num_threads n)),
      (''exit_code'', word_value (pi_exit_code n)),
      (''futex_wait_count'', word_value (pi_futex_wait_count n)),
      (''futex_wait_seconds'', fixed_value (pi_futex_wait_seconds n)),
      (''io_read_wait_count'', word_value (pi_io_read_wait_count n)),
      (''io_read_wait_seconds'', fixed_value (pi_io_read_wait_seconds n)),
      (''io_write_wait_count'', word_value (pi_io_write_wait_count n)),
      (''io_write_wait_seconds'', fixed_value (pi_io_write_wait_seconds n)),
      (''io_rchar'', word_value (pi_io_rchar n)),
      (''io_wchar'', word_value (pi_io_wchar n)),
      (''io_syscr'', word_value (pi_io_syscr n)),
      (''io_syscw'', word_value (pi_io_syscw n)),
      (''io_read_bytes'', word_value (pi_io_read_bytes n)),
      (''io_write_bytes'', word_value (pi_io_write_bytes n)),
      (''io_cancelled_write_bytes'', word_value (pi_io_cancelled_write_bytes n)),
      (''sched_rundelay_seconds'', fixed_value (pi_sched_rundelay_seconds n)),
      (''sched_nr_timeslices'', word_value (pi_sched_nr_timeslices n)),
      (''vm_hwm_kb'', word_value (pi_vm_hwm_kb n)),
      (''rss_anon_kb'', word_value (pi_rss_anon_kb n)),
      (''rss_file_kb'', word_value (pi_rss_file_kb n)),
      (''rss_shmem_kb'', word_value (pi_rss_shmem_kb n)),
      (''vm_swap_kb'', word_value (pi_vm_swap_kb n)),
      (''connect_count'', word_value (pi_connect_count n)),
      (''connect_seconds'', fixed_value (pi_connect_seconds n)),
      (''nanosleep_count'', word_value (pi_nanosleep_count n)),
      (''nanosleep_seconds'', fixed_value (pi_nanosleep_seconds n)),
      (''wait_count'', word_value (pi_wait_count n)),
      (''wait_seconds'', fixed_value (pi_wait_seconds n)),
      (''poll_count'', word_value (pi_poll_count n)),
      (''poll_seconds'', fixed_value (pi_poll_seconds n)),
      (''target_counters'', JSON_ARRAY (map counter_value (pi_target_counters n))),
      (''target_samples'', JSON_ARRAY (map sample_value (pi_target_samples n))),
      (''target_samples_lost'', word_value (pi_target_samples_lost n)),
      (''target_maps'', JSON_ARRAY (map map_value (pi_target_maps n)))]"

fun tree_value :: "proc_options \<Rightarrow> proc_heap \<Rightarrow> ptree \<Rightarrow> json_value" where
  "tree_value p h (PNode a ts) =
     JSON_OBJECT (process_members p (h ! a) @ [(''children'', JSON_ARRAY (map (tree_value p h) ts))])"

definition comm_counter_value :: "comm_total_counter \<Rightarrow> json_value" where
  "comm_counter_value c = JSON_OBJECT [(''group'', JSON_STRING (ct_group c)), (''label'', JSON_STRING (ct_label c)),
     (''value'', word_value (ct_total_value c))]"

definition comm_value :: "proc_options \<Rightarrow> comm_info \<Rightarrow> json_value" where
  "comm_value p ci = JSON_OBJECT
     [(''comm'', JSON_STRING (cm_comm ci)),
      (''count'', word_value (cm_count ci)),
      (''total_utime_seconds'', fixed_value (clock_seconds p (cm_total_utime ci))),
      (''total_stime_seconds'', fixed_value (clock_seconds p (cm_total_stime ci))),
      (''total_futex_wait_count'', word_value (cm_total_futex_wait_count ci)),
      (''total_futex_wait_seconds'', fixed_value (cm_total_futex_wait_seconds ci)),
      (''total_io_read_wait_count'', word_value (cm_total_io_read_wait_count ci)),
      (''total_io_read_wait_seconds'', fixed_value (cm_total_io_read_wait_seconds ci)),
      (''total_io_write_wait_count'', word_value (cm_total_io_write_wait_count ci)),
      (''total_io_write_wait_seconds'', fixed_value (cm_total_io_write_wait_seconds ci)),
      (''total_io_read_bytes'', word_value (cm_total_io_read_bytes ci)),
      (''total_io_write_bytes'', word_value (cm_total_io_write_bytes ci)),
      (''total_sched_rundelay_seconds'', fixed_value (cm_total_sched_rundelay_seconds ci)),
      (''total_sched_nr_timeslices'', word_value (cm_total_sched_nr_timeslices ci)),
      (''total_vm_hwm_kb'', word_value (cm_total_vm_hwm_kb ci)),
      (''total_rss_anon_kb'', word_value (cm_total_rss_anon_kb ci)),
      (''total_rss_file_kb'', word_value (cm_total_rss_file_kb ci)),
      (''total_rss_shmem_kb'', word_value (cm_total_rss_shmem_kb ci)),
      (''total_vm_swap_kb'', word_value (cm_total_vm_swap_kb ci)),
      (''total_connect_count'', word_value (cm_total_connect_count ci)),
      (''total_connect_seconds'', fixed_value (cm_total_connect_seconds ci)),
      (''total_nanosleep_count'', word_value (cm_total_nanosleep_count ci)),
      (''total_nanosleep_seconds'', fixed_value (cm_total_nanosleep_seconds ci)),
      (''total_wait_count'', word_value (cm_total_wait_count ci)),
      (''total_wait_seconds'', fixed_value (cm_total_wait_seconds ci)),
      (''total_poll_count'', word_value (cm_total_poll_count ci)),
      (''total_poll_seconds'', fixed_value (cm_total_poll_seconds ci)),
      (''target_counters'', JSON_ARRAY (map comm_counter_value (cm_target_counters ci)))]"

text \<open>What can be printed as JSON: text without zero bytes, and finite times.\<close>

definition printable_process :: "proc_options \<Rightarrow> process_info \<Rightarrow> bool" where
  "printable_process p n \<longleftrightarrow>
     list_all finite_double
       [pi_start n, pi_finish n, pi_futex_wait_seconds n, pi_io_read_wait_seconds n,
        pi_io_write_wait_seconds n, pi_sched_rundelay_seconds n, pi_connect_seconds n,
        pi_nanosleep_seconds n, pi_wait_seconds n, pi_poll_seconds n, clock_seconds p (pi_utime n),
        clock_seconds p (pi_stime n)] \<and>
     pred_option no_nul (pi_comm n) \<and> pred_option no_nul (pi_cmdline n) \<and>
     list_all (\<lambda>tc. no_nul (tc_group tc) \<and> no_nul (tc_label tc)) (pi_target_counters n) \<and>
     list_all (\<lambda>ts. no_nul (ts_event ts)) (pi_target_samples n) \<and>
     list_all (\<lambda>tm. no_nul (tm_path tm)) (pi_target_maps n)"

definition printable_comm :: "proc_options \<Rightarrow> comm_info \<Rightarrow> bool" where
  "printable_comm p ci \<longleftrightarrow>
     list_all finite_double
       [cm_total_futex_wait_seconds ci, cm_total_io_read_wait_seconds ci,
        cm_total_io_write_wait_seconds ci, cm_total_sched_rundelay_seconds ci,
        cm_total_connect_seconds ci, cm_total_nanosleep_seconds ci, cm_total_wait_seconds ci,
        cm_total_poll_seconds ci, clock_seconds p (cm_total_utime ci),
        clock_seconds p (cm_total_stime ci)] \<and>
     no_nul (cm_comm ci) \<and>
     list_all (\<lambda>c. no_nul (ct_group c) \<and> no_nul (ct_label c)) (cm_target_counters ci)"

section \<open>The writers write documents\<close>

lemma plain_keys [simp]:
  "plain_word ''group''" "plain_word ''label''" "plain_word ''value''" "plain_word ''event''"
  "plain_word ''addr''" "plain_word ''count''" "plain_word ''start''" "plain_word ''end''"
  "plain_word ''file_offset''" "plain_word ''path''" "plain_word ''pid''" "plain_word ''comm''"
  "plain_word ''cmdline''" "plain_word ''ppid''" "plain_word ''cpu''" "plain_word ''finish''"
  "plain_word ''utime_seconds''" "plain_word ''stime_seconds''" "plain_word ''vsize_kb''"
  "plain_word ''rss_kb''" "plain_word ''num_threads''" "plain_word ''exit_code''"
  "plain_word ''futex_wait_count''" "plain_word ''futex_wait_seconds''"
  "plain_word ''io_read_wait_count''" "plain_word ''io_read_wait_seconds''"
  "plain_word ''io_write_wait_count''" "plain_word ''io_write_wait_seconds''" "plain_word ''io_rchar''"
  "plain_word ''io_wchar''" "plain_word ''io_syscr''" "plain_word ''io_syscw''"
  "plain_word ''io_read_bytes''" "plain_word ''io_write_bytes''"
  "plain_word ''io_cancelled_write_bytes''" "plain_word ''sched_rundelay_seconds''"
  "plain_word ''sched_nr_timeslices''" "plain_word ''vm_hwm_kb''" "plain_word ''rss_anon_kb''"
  "plain_word ''rss_file_kb''" "plain_word ''rss_shmem_kb''" "plain_word ''vm_swap_kb''"
  "plain_word ''connect_count''" "plain_word ''connect_seconds''" "plain_word ''nanosleep_count''"
  "plain_word ''nanosleep_seconds''" "plain_word ''wait_count''" "plain_word ''wait_seconds''"
  "plain_word ''poll_count''" "plain_word ''poll_seconds''" "plain_word ''target_counters''"
  "plain_word ''target_samples''" "plain_word ''target_samples_lost''" "plain_word ''target_maps''"
  "plain_word ''children''" "plain_word ''total_utime_seconds''" "plain_word ''total_stime_seconds''"
  "plain_word ''total_futex_wait_count''" "plain_word ''total_futex_wait_seconds''"
  "plain_word ''total_io_read_wait_count''" "plain_word ''total_io_read_wait_seconds''"
  "plain_word ''total_io_write_wait_count''" "plain_word ''total_io_write_wait_seconds''"
  "plain_word ''total_io_read_bytes''" "plain_word ''total_io_write_bytes''"
  "plain_word ''total_sched_rundelay_seconds''" "plain_word ''total_sched_nr_timeslices''"
  "plain_word ''total_vm_hwm_kb''" "plain_word ''total_rss_anon_kb''"
  "plain_word ''total_rss_file_kb''" "plain_word ''total_rss_shmem_kb''"
  "plain_word ''total_vm_swap_kb''" "plain_word ''total_connect_count''"
  "plain_word ''total_connect_seconds''" "plain_word ''total_nanosleep_count''"
  "plain_word ''total_nanosleep_seconds''" "plain_word ''total_wait_count''"
  "plain_word ''total_wait_seconds''" "plain_word ''total_poll_count''"
  "plain_word ''total_poll_seconds''" "plain_word ''schema_version''" "plain_word ''source_file''"
  "plain_word ''process_count''" "plain_word ''max_concurrent_processes''" "plain_word ''summary''"
  "plain_word ''tree''"
  unfolding plain_word_def by (simp_all add: plain_char_def)

lemma word_text [simp]: "json_text (u_text w) (word_value w)"
  using number_doc [of "unat w"] by (simp only: u_text_def word_value_def)

lemma string_value_text [simp]:
  "pred_option no_nul s \<Longrightarrow> json_text (json_write_string_or_null s) (string_value s)"
  using string_or_null_text [of s] by (simp add: string_value_def)

lemma fixed_value_text [simp]: "finite_double x \<Longrightarrow> json_text (fmt_fixed 6 x) (fixed_value x)"
  by (cases x) (simp_all add: finite_double_def fixed_value_def fixed_text)

lemma dec_int_text: "0 \<le> i \<Longrightarrow> json_text (dec_int i) (JSON_NUMBER (double_of_int i))"
  using number_doc [of "nat i"] by (simp add: dec_int_def)

lemma member_doc_pair [simp]: "member_doc (k, t) (l, v) \<longleftrightarrow> k = l \<and> plain_word k \<and> json_text t v"
  by (simp add: member_doc_def)

lemma list_all2_map_text: "\<forall>x \<in> set xs. json_text (f x) (g x) \<Longrightarrow> list_all2 json_text (map f xs) (map g xs)"
  by (induction xs) auto

lemma readings_text:
  "list_all (\<lambda>tc. no_nul (tc_group tc) \<and> no_nul (tc_label tc)) tcs \<Longrightarrow>
     json_text (target_counters_json tcs) (JSON_ARRAY (map counter_value tcs))"
  "list_all (\<lambda>ts. no_nul (ts_event ts)) tss \<Longrightarrow>
     json_text (target_samples_json tss) (JSON_ARRAY (map sample_value tss))"
  "list_all (\<lambda>tm. no_nul (tm_path tm)) tms \<Longrightarrow>
     json_text (target_maps_json tms) (JSON_ARRAY (map map_value tms))"
  "list_all (\<lambda>c. no_nul (ct_group c) \<and> no_nul (ct_label c)) cts \<Longrightarrow>
     json_text (comm_total_counters_json cts) (JSON_ARRAY (map comm_counter_value cts))"
  unfolding target_counters_json_def target_samples_json_def target_maps_json_def comm_total_counters_json_def
    counter_value_def sample_value_def map_value_def comm_counter_value_def
  by (intro json_array_text list_all2_map_text ballI json_object_text; simp add: list_all_iff)+

lemma process_fields_member:
  "printable_process p n \<Longrightarrow> list_all2 member_doc (process_fields p n) (process_members p n)"
  unfolding printable_process_def
  by (simp add: process_fields_def process_members_def readings_text)

lemma comm_info_text: "printable_comm p ci \<Longrightarrow> json_text (comm_info_json p ci) (comm_value p ci)"
  unfolding printable_comm_def comm_info_json_def comm_value_def
  by (intro json_object_text) (simp add: readings_text)

lemma process_json_walk:
  assumes "links_ok h es"
  shows "proc_tree fuel es a = Some t \<Longrightarrow> a < length h \<Longrightarrow> \<forall>b \<in> below es a. printable_process p (h ! b) \<Longrightarrow>
    \<exists>out. print_process_json fuel p h a = Some out \<and> json_text out (tree_value p h t)"
proof (induction fuel arbitrary: a t)
  case (Suc fuel)
  then obtain ts where t: "t = PNode a ts" and m: "map (proc_tree fuel es) (kids es a) = map Some ts"
    by (auto simp: all_Some_iff)
  have kid: "\<exists>out. print_process_json fuel p h k = Some out \<and> json_text out (tree_value p h u)"
    if "k \<in> set (kids es a)" "proc_tree fuel es k = Some u" for k u
  proof (rule Suc.IH [OF that(2)])
    show "k < length h" using assms that(1) kids_bound [of "length h" es k a] by (simp add: links_ok_def)
    show "\<forall>b \<in> below es k. printable_process p (h ! b)"
      using Suc.prems(3) below_step [of es a] that(1) by blast
  qed
  have "\<exists>outs. all_Some (map (print_process_json fuel p h) ks) = Some outs \<and>
      list_all2 json_text outs (map (tree_value p h) us)"
    if "set ks \<subseteq> set (kids es a)" "map (proc_tree fuel es) ks = map Some us" for ks us
    using that
  proof (induction ks arbitrary: us)
    case (Cons k ks)
    then obtain u us' where us: "us = u # us'" "proc_tree fuel es k = Some u" "map (proc_tree fuel es) ks = map Some us'"
      by (auto simp: Cons_eq_map_conv)
    with Cons.IH [of us'] Cons.prems(1) kid [of k u] show ?case by auto
  qed simp
  from this [OF subset_refl m] obtain outs where outs:
    "all_Some (map (print_process_json fuel p h) (kids es a)) = Some outs"
    "list_all2 json_text outs (map (tree_value p h) ts)" by blast
  have "list_all2 member_doc (process_fields p (h ! a) @ [(''children'', json_array outs)])
      (process_members p (h ! a) @ [(''children'', JSON_ARRAY (map (tree_value p h) ts))])"
    using Suc.prems(3) outs(2)
    by (intro list_all2_appendI process_fields_member) (simp_all add: json_array_text)
  from json_object_text [OF this] show ?case
    using sibling_walks(2) [OF assms Suc.prems(2) order_refl] outs(1) by (simp add: t)
qed simp

section \<open>Property\<close>

text \<open>The document meant for a parsed trace with tree \<open>t\<close> and summary \<open>tbl\<close>.\<close>

definition export_value :: "proc_options \<Rightarrow> proctree \<Rightarrow> string \<Rightarrow> comm_info list \<Rightarrow> ptree \<Rightarrow> json_value" where
  "export_value p s source_file tbl t = JSON_OBJECT
     [(''schema_version'', JSON_STRING PROCTREE_JSON_SCHEMA_VERSION),
      (''source_file'', JSON_STRING source_file),
      (''process_count'', JSON_NUMBER (double_of_int (st_total_processes s))),
      (''max_concurrent_processes'', JSON_NUMBER (double_of_int (st_max_num_processes s))),
      (''summary'', JSON_ARRAY (map (comm_value p) tbl)),
      (''tree'', tree_value p (st_heap s) t)]"

lemma export_text:
  assumes "refines s sp" and "st_root s = Some r" and "proc_tree (length (st_heap s)) (sp_edges sp) r = Some t"
    and "build_comm_table (st_heap s) r = Some tbl" and "no_nul source_file"
    and "\<forall>a \<in> below (sp_edges sp) r. printable_process p (st_heap s ! a)"
    and "\<forall>ci \<in> set tbl. printable_comm p ci"
  shows "\<exists>out. print_json p s source_file = Some (out @ newline) \<and>
    json_text out (export_value p s source_file tbl t)"
proof -
  have l: "links_ok (st_heap s) (sp_edges sp)" and r: "r < length (st_heap s)"
    using assms(1,2) by (auto simp: refines_def implements_def)
  have c: "0 \<le> st_total_processes s" "0 \<le> st_max_num_processes s"
    using assms(1) by (auto simp: refines_def counts_ok_def)
  obtain tree where tree: "print_process_json (length (st_heap s)) p (st_heap s) r = Some tree"
    "json_text tree (tree_value p (st_heap s) t)"
    using process_json_walk [OF l assms(3) r assms(6)] by blast
  have "list_all2 json_text (map (comm_info_json p) tbl) (map (comm_value p) tbl)"
    using assms(7) comm_info_text by (intro list_all2_map_text) blast
  then have s: "json_text (json_array (map (comm_info_json p) tbl)) (JSON_ARRAY (map (comm_value p) tbl))"
    by (rule json_array_text)
  have v: "no_nul PROCTREE_JSON_SCHEMA_VERSION" by (simp add: PROCTREE_JSON_SCHEMA_VERSION_def NUL_def)
  show ?thesis
    unfolding print_json_def export_value_def using s v tree c assms(5)
    by (auto simp: assms(2,4) dec_int_text intro!: json_object_text)
qed

lemma export_parses:
  assumes "parse_file bs = Some s" and "fresh_forks (file_events bs) spec_initial" and "st_root s = Some r"
    and "build_comm_table (st_heap s) r = Some tbl" and "no_nul source_file"
    and "\<forall>a \<in> below (sp_edges (spec_of_file bs)) r. printable_process p (st_heap s ! a)"
    and "\<forall>ci \<in> set tbl. printable_comm p ci"
  shows "\<exists>t out. file_tree bs r = Some t \<and> print_json p s source_file = Some out \<and>
    json_parse out = Some (Inr (export_value p s source_file tbl t))"
proof -
  have ref: "refines s (spec_of_file bs)" by (rule parse_file_refines_spec [OF assms(1)])
  then have r: "r < sp_made (spec_of_file bs)" and len: "length (st_heap s) = sp_made (spec_of_file bs)"
    using assms(3) by (auto simp: refines_def implements_def)
  obtain t where t: "file_tree bs r = Some t" using file_tree_returns [OF assms(2) r] by blast
  have "proc_tree (length (st_heap s)) (sp_edges (spec_of_file bs)) r = Some t"
    using t by (simp add: file_tree_def len)
  from export_text [OF ref assms(3) this assms(4-7)] obtain out where
    "print_json p s source_file = Some (out @ newline)" "json_text out (export_value p s source_file tbl t)" by blast
  moreover have "json_ws newline" by (simp add: json_ws_def newline_def)
  ultimately show ?thesis using t json_text_parses by blast
qed


lemma sample_parsed:
  "\<exists>tb. parse_file sample_trace = Some
     \<lparr>st_root = Some 0,
      st_heap = [process_info_zero\<lparr>pi_pid := 5, pi_children := Some 1\<rparr>,
        process_info_zero\<lparr>pi_pid := 6, pi_parent := Some 0\<rparr>],
      st_table = tb, st_num_processes = 2, st_total_processes = 2, st_max_num_processes = 2\<rparr>"
proof -
  let ?t0 = "replicate NUM_PROC_TABLE_BUCKETS [] :: nat buckets"
  let ?t1 = "table_push 5 0 ?t0"
  have ok: "table_ok ?t0" "table_find ?t0 p = None" for p
    by (simp_all add: table_empty NUM_PROC_TABLE_BUCKETS_def)
  have ok1: "table_ok ?t1" by (rule table_push_ok [OF ok])
  have find1: "table_find ?t1 5 = Some 0" "table_find ?t1 6 = None"
    by (simp_all add: table_find_push [OF ok(1)] ok(2))
  have find2: "table_find (table_push 6 (Suc 0) ?t1) 5 = Some 0"
    by (simp add: table_find_push [OF ok1] find1)
  have d0: "double_of_int 0 = Fin 0" by (simp add: double_of_int_def)
  show ?thesis
    by (simp add: parse_file_def sample_lines newline_def cstr_def NUL_def parse_line_def line_head_def digit_text
        handle_event_def event_text_def event_arg_def LF_def Let_def handle_root_def proctree_initial_def
        lookup_pid_def ok find1 find2 handle_fork_def link_child_def set_node_def process_info_zero_def d0)
qed

lemma sample_printable:
  assumes "a < 2" and "n = [process_info_zero\<lparr>pi_pid := 5, pi_children := Some 1\<rparr>,
        process_info_zero\<lparr>pi_pid := 6, pi_parent := Some 0\<rparr>] ! a"
  shows "printable_process (default_options 100 4096) n"
proof -
  have "double_of_int 100 = Fin 100" using double_of_int_exact [of 100] by simp
  moreover have "double_of_int 0 = Fin 0" by (simp add: double_of_int_def)
  ultimately show ?thesis
    using assms less_2_cases [OF assms(1)]
    by (auto simp: printable_process_def finite_double_def clock_seconds_def default_options_def process_info_zero_def)
qed

lemma sample_exports:
  "\<exists>s. parse_file sample_trace = Some s \<and> st_root s = Some 0 \<and> build_comm_table (st_heap s) 0 = Some [] \<and>
     (\<forall>a \<in> below (sp_edges (spec_of_file sample_trace)) 0. printable_process (default_options 100 4096) (st_heap s ! a))"
proof -
  obtain tb where s: "parse_file sample_trace = Some
     \<lparr>st_root = Some 0,
      st_heap = [process_info_zero\<lparr>pi_pid := 5, pi_children := Some 1\<rparr>,
        process_info_zero\<lparr>pi_pid := 6, pi_parent := Some 0\<rparr>],
      st_table = tb, st_num_processes = 2, st_total_processes = 2, st_max_num_processes = 2\<rparr>" (is "_ = Some ?s")
    using sample_parsed by blast
  have tbl: "build_comm_table (st_heap ?s) 0 = Some []"
    by (simp add: build_comm_table_def youngest_first_def collect_node_def process_info_zero_def qsort_def
        numeral_2_eq_2)
  have b: "below (sp_edges (spec_of_file sample_trace)) 0 \<subseteq> {..<2}"
    by (rule below_bound) (simp_all add: sample_spec edges_ok_def)
  have "\<forall>a \<in> below (sp_edges (spec_of_file sample_trace)) 0.
      printable_process (default_options 100 4096) (st_heap ?s ! a)"
  proof
    fix a assume "a \<in> below (sp_edges (spec_of_file sample_trace)) 0"
    with b have "a < 2" by blast
    then show "printable_process (default_options 100 4096) (st_heap ?s ! a)" by (rule sample_printable) simp
  qed
  with s tbl show ?thesis by auto
qed


end
