(* ===== verification/Proc_Diff.thy ===== *)
theory Proc_Diff
  imports Proc_Json
begin

text \<open>
  \<open>--diff\<close> of src/proctree.c: two exported documents are merged into one tree by the names of the
  processes and the order of siblings of the same name, and the differences are reported. A
  \<open>const struct json_value *\<close> is an optional value; \<open>flat\<close>, the list of matched nodes in the order
  they are made, is the preorder of the merged tree.
\<close>

section \<open>The merged tree\<close>

definition diff_metrics :: "(string \<times> string) list" where
  "diff_metrics =
     [(''utime_seconds'', ''utime''), (''stime_seconds'', ''stime''), (''futex_wait_seconds'', ''futex_wait''),
      (''io_read_wait_seconds'', ''io_read_wait''), (''io_write_wait_seconds'', ''io_write_wait''),
      (''io_read_bytes'', ''io_read_bytes''), (''io_write_bytes'', ''io_write_bytes''),
      (''sched_rundelay_seconds'', ''run_delay''), (''connect_seconds'', ''connect''),
      (''nanosleep_seconds'', ''nanosleep''), (''wait_seconds'', ''wait''), (''poll_seconds'', ''poll'')]"

datatype diff_status = Matched | Added | Removed

datatype diff_node =
  Diff_Node (dn_path: string) (dn_comm: string) (dn_a: "json_value option") (dn_b: "json_value option")
    (dn_status: diff_status) (dn_changed: bool) (dn_delta: "double list") (dn_children: "diff_node list")

definition status_text :: "diff_status \<Rightarrow> string" where
  "status_text st = (case st of Matched \<Rightarrow> ''matched'' | Added \<Rightarrow> ''added'' | Removed \<Rightarrow> ''removed'')"

definition diff_node_display_status :: "diff_node \<Rightarrow> string" where
  "diff_node_display_status dn =
     (if dn_status dn \<noteq> Matched then status_text (dn_status dn)
      else if dn_changed dn then ''changed'' else ''same'')"

definition node_comm :: "json_value option \<Rightarrow> string" where
  "node_comm v = the (json_get_string v ''comm'' (Some ''?''))"

text \<open>The children of one side, grouped by name in the order the names first occur.\<close>

type_synonym comm_groups = "(string \<times> json_value list) list"

fun comm_group_add :: "string \<Rightarrow> json_value \<Rightarrow> comm_groups \<Rightarrow> comm_groups" where
  "comm_group_add comm item [] = [(comm, [item])]"
| "comm_group_add comm item ((c, items) # gs) =
     (if c = comm then (c, items @ [item]) # gs else (c, items) # comm_group_add comm item gs)"

definition json_items :: "json_value option \<Rightarrow> json_value list" where
  "json_items arr = (case arr of Some (JSON_ARRAY vs) \<Rightarrow> vs | _ \<Rightarrow> [])"

definition build_comm_group_table :: "json_value option \<Rightarrow> comm_groups" where
  "build_comm_group_table children =
     fold (\<lambda>child. comm_group_add (node_comm (Some child)) child) (json_items children) []"

definition child_groups :: "json_value option \<Rightarrow> comm_groups" where
  "child_groups v = (case v of None \<Rightarrow> [] | Some _ \<Rightarrow> build_comm_group_table (json_object_get v ''children''))"

definition item_at :: "json_value list \<Rightarrow> nat \<Rightarrow> json_value option" where
  "item_at xs i = (if i < length xs then Some (xs ! i) else None)"

definition group_items :: "comm_groups \<Rightarrow> string \<Rightarrow> json_value list" where
  "group_items gs comm = (case map_of gs comm of None \<Rightarrow> [] | Some items \<Rightarrow> items)"

text \<open>The pairs merged, with the occurrence number: the names of the first run in order, then the names only
  the second has.\<close>

definition child_pairs ::
  "comm_groups \<Rightarrow> comm_groups \<Rightarrow> (json_value option \<times> json_value option \<times> nat) list"
where
  "child_pairs ta tb =
     concat (map (\<lambda>(comm, items).
       map (\<lambda>i. (item_at items i, item_at (group_items tb comm) i, i))
         [0..<max (length items) (length (group_items tb comm))]) ta) @
     concat (map (\<lambda>(comm, items).
       if comm \<in> fst ` set ta then [] else map (\<lambda>i. (None, item_at items i, i)) [0..<length items]) tb)"

definition diff_path :: "string \<Rightarrow> string \<Rightarrow> nat \<Rightarrow> string" where
  "diff_path parent comm occurrence =
     take 1023 (parent @ ''/'' @ comm @ (if occurrence > 0 then ''#'' @ dec occurrence else []))"

definition node_delta :: "json_value \<Rightarrow> json_value \<Rightarrow> double list" where
  "node_delta a b = map (\<lambda>(key, _).
     dsub (json_get_number (Some b) key (Fin 0)) (json_get_number (Some a) key (Fin 0))) diff_metrics"

definition cpu_change :: "double list \<Rightarrow> double" where
  "cpu_change delta = dadd (dabs (delta ! 0)) (dabs (delta ! 1))"

text \<open>The children of a value are smaller than it.\<close>

definition opt_size :: "json_value option \<Rightarrow> nat" where
  "opt_size v = (case v of None \<Rightarrow> 0 | Some w \<Rightarrow> Suc (size w))"

lemma find_key_size: "find_key kvs k = Some v \<Longrightarrow> size v < size (JSON_OBJECT kvs)"
  by (induction kvs k rule: find_key.induct) (auto split: if_splits)

lemma json_items_size:
  assumes "c \<in> set (json_items (json_object_get v k))"
  shows "opt_size (Some c) < opt_size v"
proof -
  from assms obtain vs where g: "json_object_get v k = Some (JSON_ARRAY vs)" "c \<in> set vs"
    by (cases "json_object_get v k"; cases "the (json_object_get v k)") (auto simp: json_items_def)
  then obtain kvs where v: "v = Some (JSON_OBJECT kvs)" "find_key kvs k = Some (JSON_ARRAY vs)"
    by (auto simp: json_object_get_def split: option.splits json_value.splits)
  have "size c \<le> size_list size vs" using g(2) by (rule size_list_estimation') simp
  with find_key_size [OF v(2)] v(1) show ?thesis by (simp add: opt_size_def)
qed

lemma comm_group_add_mset:
  "mset (concat (map snd (comm_group_add comm item gs))) = add_mset item (mset (concat (map snd gs)))"
  by (induction comm item gs rule: comm_group_add.induct) auto

lemma build_groups_mset: "mset (concat (map snd (build_comm_group_table cs))) = mset (json_items cs)"
proof -
  have "mset (concat (map snd (fold (\<lambda>child. comm_group_add (node_comm (Some child)) child) xs gs))) =
      mset (concat (map snd gs)) + mset xs" for xs gs
    by (induction xs arbitrary: gs) (simp_all add: comm_group_add_mset)
  then show ?thesis by (simp add: build_comm_group_table_def)
qed

lemma child_groups_size:
  assumes "(comm, items) \<in> set (child_groups v)" and "c \<in> set items"
  shows "opt_size (Some c) < opt_size v"
proof -
  have "v \<noteq> None" using assms(1) by (auto simp: child_groups_def)
  then have g: "child_groups v = build_comm_group_table (json_object_get v ''children'')"
    by (auto simp: child_groups_def)
  have "c \<in> set (concat (map snd (child_groups v)))" using assms by force
  then have "c \<in> set (json_items (json_object_get v ''children''))"
    unfolding g using mset_eq_setD [OF build_groups_mset] by blast
  then show ?thesis by (rule json_items_size)
qed

lemma group_items_size:
  assumes "c \<in> set (group_items (child_groups v) comm)"
  shows "opt_size (Some c) < opt_size v"
proof -
  from assms obtain items where "map_of (child_groups v) comm = Some items" "c \<in> set items"
    by (cases "map_of (child_groups v) comm") (auto simp: group_items_def)
  then show ?thesis using child_groups_size map_of_SomeD by fast
qed

lemma item_at_size:
  "\<forall>c \<in> set xs. opt_size (Some c) < n \<Longrightarrow> i < length xs \<Longrightarrow> opt_size (item_at xs i) < n"
  by (simp add: item_at_def)

lemma item_at_size_le: "\<forall>c \<in> set xs. opt_size (Some c) < n \<Longrightarrow> opt_size (item_at xs i) \<le> n"
  by (cases "i < length xs") (auto simp: item_at_def opt_size_def dest: nth_mem less_imp_le)

lemma child_pairs_size:
  assumes "(ca, cb, i) \<in> set (child_pairs (child_groups a) (child_groups b))"
  shows "opt_size ca + opt_size cb < opt_size a + opt_size b"
proof -
  let ?ta = "child_groups a" and ?tb = "child_groups b"
  from assms consider
    (1) comm items where "(comm, items) \<in> set ?ta" "ca = item_at items i" "cb = item_at (group_items ?tb comm) i"
      "i < max (length items) (length (group_items ?tb comm))"
  | (2) comm items where "(comm, items) \<in> set ?tb" "ca = None" "cb = item_at items i" "i < length items"
    by (auto simp: child_pairs_def split: if_splits)
  then show ?thesis
  proof cases
    case 1
    have sa: "\<forall>c \<in> set items. opt_size (Some c) < opt_size a" using child_groups_size [OF 1(1)] by blast
    have sb: "\<forall>c \<in> set (group_items ?tb comm). opt_size (Some c) < opt_size b" using group_items_size by blast
    show ?thesis
    proof (cases "i < length items")
      case True
      then show ?thesis
        using item_at_size [OF sa True] item_at_size_le [OF sb, of i] 1 by simp
    next
      case False
      then have "i < length (group_items ?tb comm)" using 1(4) by simp
      then show ?thesis
        using item_at_size_le [OF sa, of i] item_at_size [OF sb, of i] 1 by simp
    qed
  next
    case 2
    have "\<forall>c \<in> set items. opt_size (Some c) < opt_size b" using child_groups_size [OF 2(1)] by blast
    then show ?thesis using item_at_size [OF _ 2(4), of "opt_size b"] 2 by (simp add: opt_size_def)
  qed
qed

function merge_nodes ::
  "json_value option \<Rightarrow> json_value option \<Rightarrow> string \<Rightarrow> nat \<Rightarrow> double \<Rightarrow> diff_node"
where
  "merge_nodes a b parent_path occurrence threshold =
     (let comm = node_comm (if a \<noteq> None then a else b);
          path = diff_path parent_path comm occurrence;
          status = (if a \<noteq> None \<and> b \<noteq> None then Matched else if a \<noteq> None then Removed else Added);
          delta = (case (a, b) of (Some va, Some vb) \<Rightarrow> node_delta va vb | _ \<Rightarrow> map (\<lambda>_. Fin 0) diff_metrics);
          changed = (status = Matched \<and> dlt threshold (cpu_change delta))
      in Diff_Node path comm a b status changed delta
           (map (\<lambda>(ca, cb, i). merge_nodes ca cb path i threshold)
             (child_pairs (child_groups a) (child_groups b))))"
  by pat_completeness auto
termination
  by (relation "measure (\<lambda>(a, b, _). opt_size a + opt_size b)") (auto dest: child_pairs_size)

declare merge_nodes.simps [simp del]

text \<open>The nodes of a merged tree in the order they are made; the matched ones are \<open>flat\<close>.\<close>

fun merged_nodes :: "diff_node \<Rightarrow> diff_node list" where
  "merged_nodes (Diff_Node path comm a b st ch delta cs) =
     Diff_Node path comm a b st ch delta cs # concat (map merged_nodes cs)"

definition matched_nodes :: "diff_node \<Rightarrow> diff_node list" where
  "matched_nodes dn = filter (\<lambda>n. dn_status n = Matched) (merged_nodes dn)"

fun collect_topmost_changes :: "diff_node \<Rightarrow> diff_node list \<times> diff_node list" where
  \<comment> \<open>the added and the removed subtrees\<close>
  "collect_topmost_changes (Diff_Node path comm a b st ch delta cs) =
     (case st of
        Added \<Rightarrow> ([Diff_Node path comm a b st ch delta cs], [])
      | Removed \<Rightarrow> ([], [Diff_Node path comm a b st ch delta cs])
      | Matched \<Rightarrow>
          (concat (map (\<lambda>c. fst (collect_topmost_changes c)) cs),
           concat (map (\<lambda>c. snd (collect_topmost_changes c)) cs)))"

definition side_cpu :: "diff_node \<Rightarrow> double \<Rightarrow> double" where
  "side_cpu dn cpu =
     (case (case dn_a dn of Some v \<Rightarrow> Some v | None \<Rightarrow> dn_b dn) of
        None \<Rightarrow> cpu
      | Some side \<Rightarrow>
          dadd cpu (dadd (json_get_number (Some side) ''utime_seconds'' (Fin 0))
            (json_get_number (Some side) ''stime_seconds'' (Fin 0))))"

definition diff_node_subtree_totals :: "diff_node \<Rightarrow> nat \<times> double" where
  "diff_node_subtree_totals dn = (length (merged_nodes dn), fold side_cpu (merged_nodes dn) (Fin 0))"

definition changed_node_compare :: "diff_node \<Rightarrow> diff_node \<Rightarrow> int" where
  "changed_node_compare n1 n2 =
     (let c1 = cpu_change (dn_delta n1); c2 = cpu_change (dn_delta n2)
      in if dlt c2 c1 then -1 else if dlt c1 c2 then 1 else 0)"

definition MAX_DIFF_REPORT_ROWS :: nat where "MAX_DIFF_REPORT_ROWS = 50"

section \<open>The reports\<close>

text \<open>The index of the first entry with the name, as the join of the two summaries finds it.\<close>

fun first_named :: "string \<Rightarrow> json_value list \<Rightarrow> nat option" where
  "first_named comm [] = None"
| "first_named comm (v # vs) =
     (if node_comm (Some v) = comm then Some 0 else map_option Suc (first_named comm vs))"

definition summary_match :: "json_value list \<Rightarrow> json_value \<Rightarrow> json_value option" where
  "summary_match bs ea = map_option (\<lambda>j. bs ! j) (first_named (node_comm (Some ea)) bs)"

text \<open>The entries of the second summary that no entry of the first was matched with.\<close>

definition summary_added :: "json_value list \<Rightarrow> json_value list \<Rightarrow> json_value list" where
  "summary_added as bs =
     map (nth bs) (filter (\<lambda>j. \<not> list_ex (\<lambda>ea. first_named (node_comm (Some ea)) bs = Some j) as) [0..<length bs])"

definition num :: "json_value option \<Rightarrow> string \<Rightarrow> double" where
  "num v key = json_get_number v key (Fin 0)"

definition print_diff_side_json :: "json_value option \<Rightarrow> string" where
  "print_diff_side_json v =
     (case v of
        None \<Rightarrow> ''null''
      | Some _ \<Rightarrow>
          json_object
            ([(''pid'', fmt_fixed 0 (num v ''pid'')),
              (''comm'', json_write_string_or_null (json_get_string v ''comm'' None)),
              (''cmdline'', json_write_string_or_null (json_get_string v ''cmdline'' None))] @
             map (\<lambda>(key, _). (key, fmt_fixed 6 (num v key))) diff_metrics))"

definition quoted :: "string \<Rightarrow> string" where
  "quoted s = QUOTE # s @ [QUOTE]"

fun print_diff_node_json :: "diff_node \<Rightarrow> string" where
  "print_diff_node_json (Diff_Node path comm a b st ch delta cs) =
     json_object
       ([(''path'', json_write_string (Some path)), (''comm'', json_write_string (Some comm)),
         (''status'', quoted (diff_node_display_status (Diff_Node path comm a b st ch delta cs))),
         (''a'', print_diff_side_json a), (''b'', print_diff_side_json b)] @
        (if st = Matched
         then [(''delta'', json_object (map (\<lambda>((key, _), d). (key, fmt_fixed 6 d)) (zip diff_metrics delta)))]
         else []) @
        [(''children'', json_array (map print_diff_node_json cs))])"

definition print_summary_diff_json :: "json_value option \<Rightarrow> json_value option \<Rightarrow> string" where
  "print_summary_diff_json summary_a summary_b =
     (let as = json_items summary_a; bs = json_items summary_b in
      json_array
        (map (\<lambda>ea. let eb = summary_match bs ea; b = (\<lambda>key. case eb of None \<Rightarrow> Fin 0 | Some _ \<Rightarrow> num eb key) in
           json_object
             [(''comm'', json_write_string (Some (node_comm (Some ea)))),
              (''status'', quoted (if eb \<noteq> None then ''matched'' else ''removed'')),
              (''count_a'', fmt_fixed 0 (num (Some ea) ''count'')), (''count_b'', fmt_fixed 0 (b ''count'')),
              (''total_utime_seconds_a'', fmt_fixed 6 (num (Some ea) ''total_utime_seconds'')),
              (''total_utime_seconds_b'', fmt_fixed 6 (b ''total_utime_seconds'')),
              (''total_stime_seconds_a'', fmt_fixed 6 (num (Some ea) ''total_stime_seconds'')),
              (''total_stime_seconds_b'', fmt_fixed 6 (b ''total_stime_seconds''))]) as @
         map (\<lambda>eb.
           json_object
             [(''comm'', json_write_string (Some (node_comm (Some eb)))),
              (''status'', quoted ''added''), (''count_a'', ''0''),
              (''count_b'', fmt_fixed 0 (num (Some eb) ''count'')),
              (''total_utime_seconds_a'', ''0''),
              (''total_utime_seconds_b'', fmt_fixed 6 (num (Some eb) ''total_utime_seconds'')),
              (''total_stime_seconds_a'', ''0''),
              (''total_stime_seconds_b'', fmt_fixed 6 (num (Some eb) ''total_stime_seconds''))])
           (summary_added as bs)))"

text \<open>\<open>!=\<close> of two doubles: a NaN differs from everything.\<close>

definition dne :: "double \<Rightarrow> double \<Rightarrow> bool" where
  "dne x y \<longleftrightarrow> x \<noteq> y \<or> is_nan x"

definition tiny :: double where "tiny = double_round (1 / 10 ^ 9)"

definition summary_differs :: "json_value \<Rightarrow> json_value \<Rightarrow> bool" where
  "summary_differs ea eb \<longleftrightarrow>
     dne (num (Some ea) ''count'') (num (Some eb) ''count'') \<or>
     dlt tiny (dabs (dsub (num (Some eb) ''total_utime_seconds'') (num (Some ea) ''total_utime_seconds''))) \<or>
     dlt tiny (dabs (dsub (num (Some eb) ''total_stime_seconds'') (num (Some ea) ''total_stime_seconds'')))"

definition summary_line :: "json_value list \<Rightarrow> json_value \<Rightarrow> string" where
  "summary_line bs ea =
     (case summary_match bs ea of
        None \<Rightarrow> ''  - '' @ pad_right 20 (node_comm (Some ea)) @ '' count='' @
          fmt_fixed 0 (num (Some ea) ''count'') @ '' (removed)'' @ newline
      | Some eb \<Rightarrow>
          (if summary_differs ea eb then
             ''  ~ '' @ pad_right 20 (node_comm (Some ea)) @ '' count='' @ fmt_fixed 0 (num (Some ea) ''count'') @
             ''->'' @ fmt_fixed 0 (num (Some eb) ''count'') @ '' utime='' @
             fmt_fixed 3 (num (Some ea) ''total_utime_seconds'') @ ''->'' @
             fmt_fixed 3 (num (Some eb) ''total_utime_seconds'') @ '' stime='' @
             fmt_fixed 3 (num (Some ea) ''total_stime_seconds'') @ ''->'' @
             fmt_fixed 3 (num (Some eb) ''total_stime_seconds'') @ newline
           else []))"

text \<open>The text and whether anything differs.\<close>

definition print_diff_text_summary :: "json_value option \<Rightarrow> json_value option \<Rightarrow> string \<times> bool" where
  "print_diff_text_summary summary_a summary_b =
     (let as = json_items summary_a; bs = json_items summary_b in
      (''Summary diff (by command name, not tree position):'' @ newline @
       concat (map (summary_line bs) as) @
       concat (map (\<lambda>eb. ''  + '' @ pad_right 20 (node_comm (Some eb)) @ '' count='' @
         fmt_fixed 0 (num (Some eb) ''count'') @ '' (added)'' @ newline) (summary_added as bs)) @ newline,
       list_ex (\<lambda>ea. case summary_match bs ea of None \<Rightarrow> True | Some eb \<Rightarrow> summary_differs ea eb) as \<or>
       summary_added as bs \<noteq> []))"

definition print_added_removed_subtree :: "string \<Rightarrow> diff_node \<Rightarrow> string" where
  "print_added_removed_subtree label dn =
     (let (count, cpu_seconds) = diff_node_subtree_totals dn in
      ''  '' @ label @ '' '' @ dn_path dn @ '' -- '' @ dec count @ '' process'' @
      (if count = 1 then [] else ''es'') @ '', cpu_time='' @ fmt_fixed 3 cpu_seconds @ ''s'' @ newline)"

text \<open>\<open>%+.3f\<close>.\<close>

definition fmt_signed :: "nat \<Rightarrow> double \<Rightarrow> string" where
  "fmt_signed p x = (let t = fmt_fixed p x in if peek t = CHR ''-'' then t else CHR ''+'' # t)"

definition changed_line :: "diff_node \<Rightarrow> string" where
  "changed_line dn =
     ''  ~ '' @ pad_right 40 (dn_path dn) @ '' utime='' @ fmt_fixed 3 (num (dn_a dn) ''utime_seconds'') @ ''->'' @
     fmt_fixed 3 (num (dn_b dn) ''utime_seconds'') @ '' ('' @ fmt_signed 3 (dn_delta dn ! 0) @ '') stime='' @
     fmt_fixed 3 (num (dn_a dn) ''stime_seconds'') @ ''->'' @ fmt_fixed 3 (num (dn_b dn) ''stime_seconds'') @
     '' ('' @ fmt_signed 3 (dn_delta dn ! 1) @ '')'' @ newline"

definition run_lines :: "string \<Rightarrow> json_value \<Rightarrow> string" where
  "run_lines name v =
     ''run '' @ name @ '': '' @ fmt_fixed 0 (num (Some v) ''process_count'') @ '' processes (max concurrent '' @
     fmt_fixed 0 (num (Some v) ''max_concurrent_processes'') @ '')'' @ newline"

definition run_json :: "string \<Rightarrow> json_value \<Rightarrow> string" where
  "run_json file v = json_object
     [(''source_file'', json_write_string (Some file)),
      (''process_count'', fmt_fixed 0 (num (Some v) ''process_count'')),
      (''max_concurrent_processes'', fmt_fixed 0 (num (Some v) ''max_concurrent_processes''))]"

definition diff_text ::
  "string \<Rightarrow> string \<Rightarrow> json_value \<Rightarrow> json_value \<Rightarrow> diff_node \<Rightarrow> double \<Rightarrow> string"
where
  "diff_text file_a file_b va vb dn threshold =
     (let (added, removed) = collect_topmost_changes dn;
          flat = qsort changed_node_compare (matched_nodes dn);
          changed = filter dn_changed flat; shown = take MAX_DIFF_REPORT_ROWS changed
      in ''proctree diff: '' @ file_a @ '' vs '' @ file_b @ newline @
         run_lines ''A'' va @ run_lines ''B'' vb @ newline @
         fst (print_diff_text_summary (json_object_get (Some va) ''summary'') (json_object_get (Some vb) ''summary'')) @
         (if added \<noteq> [] \<or> removed \<noteq> [] then
            ''Added/removed subtrees:'' @ newline @
            concat (map (print_added_removed_subtree ''+ added subtree:'') added) @
            concat (map (print_added_removed_subtree ''- removed subtree:'') removed) @ newline
          else []) @
         (if changed \<noteq> [] then
            ''Changed (sorted by |delta utime+stime|, top '' @ dec MAX_DIFF_REPORT_ROWS @ ''):'' @ newline @
            concat (map changed_line shown) @
            (if length changed > length shown
             then ''  (+'' @ dec (length changed - length shown) @ '' more)'' @ newline else []) @ newline
          else []) @
         ''summary: '' @ dec (length added) @ '' subtree'' @ (if length added = 1 then [] else ''s'') @ '' added, '' @
         dec (length removed) @ '' removed, '' @ dec (length flat) @ '' matched ('' @ dec (length changed) @
         '' changed beyond '' @ fmt_fixed 3 threshold @ ''s threshold)'' @ newline)"

definition diff_json :: "string \<Rightarrow> string \<Rightarrow> json_value \<Rightarrow> json_value \<Rightarrow> diff_node \<Rightarrow> string" where
  "diff_json file_a file_b va vb dn = json_object
     [(''schema_version'', json_write_string (Some PROCTREE_JSON_SCHEMA_VERSION)),
      (''run_a'', run_json file_a va), (''run_b'', run_json file_b vb),
      (''diff_metrics'', json_array (map (\<lambda>(key, _). json_write_string (Some key)) diff_metrics)),
      (''summary_diff'', print_summary_diff_json (json_object_get (Some va) ''summary'')
         (json_object_get (Some vb) ''summary'')),
      (''diff_tree'', print_diff_node_json dn)] @ newline"

text \<open>The output and the exit status for two parsed files. A file that does not parse is a fatal error.\<close>

definition run_diff ::
  "string \<Rightarrow> string \<Rightarrow> json_value \<Rightarrow> json_value \<Rightarrow> bool \<Rightarrow> double \<Rightarrow> string \<times> int"
where
  "run_diff file_a file_b va vb json_out threshold =
     (let dn = merge_nodes (json_object_get (Some va) ''tree'') (json_object_get (Some vb) ''tree'') [] 0 threshold;
          (added, removed) = collect_topmost_changes dn;
          any_diff = (list_ex dn_changed (matched_nodes dn) \<or> added \<noteq> [] \<or> removed \<noteq> []);
          summary_diff = snd (print_diff_text_summary (json_object_get (Some va) ''summary'')
            (json_object_get (Some vb) ''summary''))
      in if json_out then (diff_json file_a file_b va vb dn, if any_diff then 1 else 0)
         else (diff_text file_a file_b va vb dn threshold, if any_diff \<or> summary_diff then 1 else 0))"

definition run_diff_files ::
  "string \<Rightarrow> string \<Rightarrow> file_read \<Rightarrow> file_read \<Rightarrow> bool \<Rightarrow> double \<Rightarrow> (string + string \<times> int) option"
where
  "run_diff_files file_a file_b fa fb json_out threshold =
     (let refusal = (\<lambda>f e. ''unable to parse '' @ f @ '' as JSON ('' @ e @
        '') -- did you forget to run '' @ [CHR 0x27] @ ''proctree --json'' @ [CHR 0x27] @ '' first?'' @ newline) in
      case json_parse_file fa of
        None \<Rightarrow> None
      | Some (Inl e) \<Rightarrow> Some (Inl (refusal file_a e))
      | Some (Inr va) \<Rightarrow>
          (case json_parse_file fb of
             None \<Rightarrow> None
           | Some (Inl e) \<Rightarrow> Some (Inl (refusal file_b e))
           | Some (Inr vb) \<Rightarrow> Some (Inr (run_diff file_a file_b va vb json_out threshold))))"

section \<open>Both runs are all there\<close>

definition opt_list :: "'a option \<Rightarrow> 'a list" where
  "opt_list v = (case v of None \<Rightarrow> [] | Some x \<Rightarrow> [x])"

lemma opt_list_simps [simp]: "opt_list None = []" "opt_list (Some x) = [x]"
  by (simp_all add: opt_list_def)

text \<open>A process of an exported tree and all those below it.\<close>

function json_tree :: "json_value \<Rightarrow> json_value list" where
  "json_tree v = v # concat (map json_tree (json_items (json_object_get (Some v) ''children'')))"
  by pat_completeness auto
termination
  by (relation "measure (\<lambda>v. opt_size (Some v))") (auto dest: json_items_size)

declare json_tree.simps [simp del]

lemma comm_group_add_keys:
  "distinct (map fst gs) \<Longrightarrow> distinct (map fst (comm_group_add c x gs)) \<and>
   fst ` set (comm_group_add c x gs) = insert c (fst ` set gs)"
  by (induction c x gs rule: comm_group_add.induct) auto

lemma child_groups_distinct: "distinct (map fst (child_groups v))"
proof -
  have "distinct (map fst gs) \<Longrightarrow>
      distinct (map fst (fold (\<lambda>child. comm_group_add (node_comm (Some child)) child) xs gs))" for xs gs
    by (induction xs arbitrary: gs) (simp_all add: comm_group_add_keys)
  then show ?thesis by (simp add: child_groups_def build_comm_group_table_def split: option.splits)
qed

lemma items_in_range:
  assumes "length xs \<le> k"
  shows "concat (map (\<lambda>i. opt_list (item_at xs i)) [0..<k]) = xs"
proof -
  obtain j where k: "k = length xs + j" using assms le_Suc_ex by blast
  have "map (\<lambda>i. opt_list (item_at xs i)) [0..<length xs] = map (\<lambda>x. [x]) xs"
    by (rule nth_equalityI) (simp_all add: item_at_def)
  then have 1: "concat (map (\<lambda>i. opt_list (item_at xs i)) [0..<length xs]) = xs"
    by (simp only: concat_map_singleton map_ident)
  have 2: "concat (map (\<lambda>i. opt_list (item_at xs i)) [length xs..<length xs + j]) = []"
    by (auto simp: item_at_def)
  show ?thesis
    unfolding k upt_add_eq_append [OF le0, of "length xs" j] map_append concat_append add_0 1 2 by simp
qed

definition left_of :: "json_value option \<times> json_value option \<times> nat \<Rightarrow> json_value list" where
  "left_of x = opt_list (fst x)"

definition right_of :: "json_value option \<times> json_value option \<times> nat \<Rightarrow> json_value list" where
  "right_of x = opt_list (fst (snd x))"

lemma pairs_left:
  "concat (map left_of (child_pairs ta tb)) = concat (map snd ta)"
proof -
  have row: "concat (map left_of (map (\<lambda>i. (item_at items i, item_at us i, i))
      [0..<max (length items) (length us)])) = items" for items us
    using items_in_range [of items "max (length items) (length us)"] by (simp add: comp_def left_of_def right_of_def)
  have "concat (map left_of (concat (map (\<lambda>(comm, items).
      map (\<lambda>i. (item_at items i, item_at (group_items tb comm) i, i))
        [0..<max (length items) (length (group_items tb comm))]) gs))) = concat (map snd gs)" for gs
    by (induction gs) (auto simp: row simp del: map_map)
  moreover have "concat (map left_of (concat (map (\<lambda>(comm, items).
      if comm \<in> fst ` set ta then [] else map (\<lambda>i. (None, item_at items i, i)) [0..<length items]) gs))) = []"
    for gs :: comm_groups
    by (induction gs) (auto simp: left_of_def)
  ultimately show ?thesis unfolding child_pairs_def map_append concat_append by simp
qed

lemma pairs_right:
  "concat (map right_of (child_pairs ta tb)) =
   concat (map (\<lambda>(c, items). group_items tb c) ta) @
   concat (map (\<lambda>(c, items). if c \<in> fst ` set ta then [] else items) tb)"
proof -
  have row: "concat (map right_of (map (\<lambda>i. (item_at items i, item_at us i, i))
      [0..<max (length items) (length us)])) = us" for items us
    using items_in_range [of us "max (length items) (length us)"] by (simp add: comp_def left_of_def right_of_def)
  have row2: "concat (map right_of
      (map (\<lambda>i. (None :: json_value option, item_at us i, i)) [0..<length us])) = us" for us
    using items_in_range [of us "length us"] by (simp add: comp_def left_of_def right_of_def)
  have "concat (map right_of (concat (map (\<lambda>(comm, items).
      map (\<lambda>i. (item_at items i, item_at (group_items tb comm) i, i))
        [0..<max (length items) (length (group_items tb comm))]) gs))) =
      concat (map (\<lambda>(c, items). group_items tb c) gs)" for gs
    by (induction gs) (auto simp: row simp del: map_map)
  moreover have "concat (map right_of (concat (map (\<lambda>(comm, items).
      if comm \<in> fst ` set ta then [] else map (\<lambda>i. (None, item_at items i, i)) [0..<length items]) gs))) =
      concat (map (\<lambda>(c, items). if c \<in> fst ` set ta then [] else items) gs)" for gs :: comm_groups
    by (induction gs) (auto simp: row2 simp del: map_map)
  ultimately show ?thesis unfolding child_pairs_def map_append concat_append by simp
qed

lemma mset_concat_keys:
  assumes "distinct (map fst gs)"
  shows "mset (concat (map (\<lambda>(c, items). f c items) gs)) = (\<Sum>c \<in> fst ` set gs. mset (f c (the (map_of gs c))))"
  using assms
proof (induction gs)
  case (Cons g gs)
  obtain c items where g: "g = (c, items)" by (cases g)
  have "(\<Sum>d \<in> fst ` set gs. mset (f d (the (map_of (g # gs) d)))) = (\<Sum>d \<in> fst ` set gs. mset (f d (the (map_of gs d))))"
    using Cons.prems by (intro sum.cong) (auto simp: g)
  moreover have "c \<notin> fst ` set gs" using Cons.prems g by simp
  ultimately show ?case using Cons by (simp add: g)
qed simp

lemma pairs_right_mset:
  assumes "distinct (map fst ta)" and "distinct (map fst tb)"
  shows "mset (concat (map right_of (child_pairs ta tb))) = mset (concat (map snd tb))"
proof -
  let ?A = "fst ` set ta" and ?B = "fst ` set tb" and ?g = "\<lambda>c. mset (group_items tb c)"
  have 1: "mset (concat (map (\<lambda>(c, items). group_items tb c) ta)) = (\<Sum>c \<in> ?A. ?g c)"
    using mset_concat_keys [OF assms(1), of "\<lambda>c _. group_items tb c"] by simp
  have items: "mset (the (map_of tb c)) = ?g c" if "c \<in> ?B" for c
    using that by (auto simp: group_items_def split: option.splits dest: map_of_eq_None_iff [THEN iffD1])
  have "mset (concat (map (\<lambda>(c, items). if c \<in> ?A then [] else items) tb)) =
      (\<Sum>c \<in> ?B. mset (if c \<in> ?A then [] else the (map_of tb c)))"
    by (rule mset_concat_keys [OF assms(2)])
  also have "\<dots> = (\<Sum>c \<in> ?B. if c \<in> ?A then {#} else ?g c)"
    using items by (intro sum.cong) auto
  also have "\<dots> = (\<Sum>c \<in> ?B - ?A. ?g c)"
    by (simp add: sum.If_cases Diff_eq)
  finally have 2: "mset (concat (map (\<lambda>(c, items). if c \<in> ?A then [] else items) tb)) = (\<Sum>c \<in> ?B - ?A. ?g c)" .
  have "mset (concat (map snd tb)) = (\<Sum>c \<in> ?B. ?g c)"
    using mset_concat_keys [OF assms(2), of "\<lambda>_ items. items"] items by (simp add: case_prod_unfold)
  also have "\<dots> = (\<Sum>c \<in> ?B \<inter> ?A. ?g c) + (\<Sum>c \<in> ?B - ?A. ?g c)"
    by (rule sum.Int_Diff) simp
  also have "(\<Sum>c \<in> ?B \<inter> ?A. ?g c) = (\<Sum>c \<in> ?A. ?g c)"
    by (rule sum.mono_neutral_left)
      (auto simp: group_items_def split: option.splits dest!: map_of_SomeD intro: rev_image_eqI)
  finally show ?thesis using 1 2 unfolding pairs_right by simp
qed

end
