(* ===== verification/Proc_Merge.thy ===== *)
theory Proc_Merge
  imports Proc_Diff
begin

text \<open>
  What \<open>--diff\<close> of src/proctree.c promises: every process of either run is in the merged tree exactly once,
  paired only with a process of the same name; and a run compared with itself differs in nothing.
\<close>

section \<open>Sides of the merged tree\<close>

definition a_side :: "diff_node \<Rightarrow> json_value list" where
  "a_side n = opt_list (dn_a n)"

definition b_side :: "diff_node \<Rightarrow> json_value list" where
  "b_side n = opt_list (dn_b n)"

definition merge_pair :: "string \<Rightarrow> double \<Rightarrow> json_value option \<times> json_value option \<times> nat \<Rightarrow> diff_node" where
  "merge_pair path threshold x = merge_nodes (fst x) (fst (snd x)) path (snd (snd x)) threshold"

lemma merge_nodes_unfold:
  "merge_nodes a b parent i threshold =
     (let path = diff_path parent (node_comm (if a \<noteq> None then a else b)) i;
          status = (if a \<noteq> None \<and> b \<noteq> None then Matched else if a \<noteq> None then Removed else Added);
          delta = (case (a, b) of (Some va, Some vb) \<Rightarrow> node_delta va vb | _ \<Rightarrow> map (\<lambda>_. Fin 0) diff_metrics)
      in Diff_Node path (node_comm (if a \<noteq> None then a else b)) a b status
           (status = Matched \<and> dlt threshold (cpu_change delta)) delta
           (map (merge_pair path threshold) (child_pairs (child_groups a) (child_groups b))))"
  by (subst merge_nodes.simps) (simp add: Let_def merge_pair_def case_prod_unfold)

lemma mset_concat_map:
  "mset xs = mset ys \<Longrightarrow> mset (concat (map f xs)) = mset (concat (map f ys))"
  by (simp add: mset_concat flip: mset_map sum_mset_sum_list) (metis mset_map)

lemma child_groups_mset:
  "mset (concat (map snd (child_groups v))) =
   mset (case v of None \<Rightarrow> [] | Some w \<Rightarrow> json_items (json_object_get (Some w) ''children''))"
  by (simp add: child_groups_def build_groups_mset split: option.split)

lemma opt_tree_mset:
  "mset (concat (map json_tree (opt_list v))) =
   mset (opt_list v) + mset (concat (map json_tree (concat (map snd (child_groups v)))))"
proof (cases v)
  case (Some w)
  show ?thesis
    using mset_concat_map [OF child_groups_mset [of v], of json_tree]
    by (simp add: Some json_tree.simps [of w])
qed (simp add: child_groups_def)

text \<open>The induction over a merge: what holds of the pair follows from what holds of the pairs of children.\<close>

lemma merge_induct:
  assumes "\<And>a b parent i. (\<forall>x \<in> set (child_pairs (child_groups a) (child_groups b)).
      \<forall>path. P (fst x) (fst (snd x)) path (snd (snd x))) \<Longrightarrow> P a b parent i"
  shows "P a b parent i"
proof (induction "opt_size a + opt_size b" arbitrary: a b parent i rule: less_induct)
  case less
  show ?case by (rule assms) (use less child_pairs_size in fastforce)
qed

lemma concat_sides:
  assumes "\<forall>x \<in> set xs. mset (concat (map f (merged_nodes (g x)))) = mset (concat (map json_tree (h x)))"
  shows "mset (concat (map f (concat (map merged_nodes (map g xs))))) =
    mset (concat (map json_tree (concat (map h xs))))"
  using assms by (induction xs) auto

lemma merged_a_sides:
  "mset (concat (map a_side (merged_nodes (merge_nodes a b parent i threshold)))) =
   mset (concat (map json_tree (opt_list a)))"
proof (induction a b parent i rule: merge_induct)
  case (1 a b parent i)
  then have "mset (concat (map a_side (concat (map merged_nodes
      (map (merge_pair path threshold) (child_pairs (child_groups a) (child_groups b))))))) =
      mset (concat (map json_tree (concat (map snd (child_groups a)))))" for path
    by (subst concat_sides [where h = left_of]) (simp_all add: merge_pair_def left_of_def pairs_left)
  then show ?case
    by (subst merge_nodes_unfold) (simp add: Let_def opt_tree_mset a_side_def [of "Diff_Node _ _ _ _ _ _ _ _"])
qed

lemma merged_b_sides:
  "mset (concat (map b_side (merged_nodes (merge_nodes a b parent i threshold)))) =
   mset (concat (map json_tree (opt_list b)))"
proof (induction a b parent i rule: merge_induct)
  case (1 a b parent i)
  have p: "mset (concat (map right_of (child_pairs (child_groups a) (child_groups b)))) =
      mset (concat (map snd (child_groups b)))"
    by (intro pairs_right_mset child_groups_distinct)
  from 1 have "mset (concat (map b_side (concat (map merged_nodes
      (map (merge_pair path threshold) (child_pairs (child_groups a) (child_groups b))))))) =
      mset (concat (map json_tree (concat (map right_of (child_pairs (child_groups a) (child_groups b))))))" for path
    by (subst concat_sides [where h = right_of]) (simp_all add: merge_pair_def right_of_def)
  then show ?case
    using mset_concat_map [OF p, of json_tree]
    by (subst merge_nodes_unfold) (simp add: Let_def opt_tree_mset b_side_def [of "Diff_Node _ _ _ _ _ _ _ _"])
qed

section \<open>Pairs have one name\<close>

text \<open>A merged node says which runs it is in, and its name is that of its process there.\<close>

definition sides_agree :: "diff_node \<Rightarrow> bool" where
  "sides_agree n =
     (case (dn_a n, dn_b n) of
        (Some x, Some y) \<Rightarrow> dn_status n = Matched \<and> dn_comm n = node_comm (Some x) \<and> dn_comm n = node_comm (Some y)
      | (Some x, None) \<Rightarrow> dn_status n = Removed \<and> dn_comm n = node_comm (Some x)
      | (None, Some y) \<Rightarrow> dn_status n = Added \<and> dn_comm n = node_comm (Some y)
      | (None, None) \<Rightarrow> False)"

definition named_groups :: "comm_groups \<Rightarrow> bool" where
  "named_groups gs \<longleftrightarrow> (\<forall>(c, items) \<in> set gs. \<forall>x \<in> set items. node_comm (Some x) = c)"

lemma named_groups_Cons [simp]:
  "named_groups ((c, items) # gs) \<longleftrightarrow> (\<forall>x \<in> set items. node_comm (Some x) = c) \<and> named_groups gs"
  by (simp add: named_groups_def)

lemma comm_group_add_named: "named_groups gs \<Longrightarrow> named_groups (comm_group_add (node_comm (Some x)) x gs)"
  by (induction "node_comm (Some x)" x gs rule: comm_group_add.induct) (auto simp: named_groups_def)

lemma child_groups_named: "named_groups (child_groups v)"
proof -
  have "named_groups gs \<Longrightarrow>
      named_groups (fold (\<lambda>child. comm_group_add (node_comm (Some child)) child) xs gs)" for xs gs
    by (induction xs arbitrary: gs) (simp_all add: comm_group_add_named)
  from this [of "[]"] have "named_groups (build_comm_group_table cs)" for cs
    by (simp add: build_comm_group_table_def named_groups_def)
  then show ?thesis by (cases v) (simp_all add: child_groups_def named_groups_def)
qed

lemma group_items_named: "named_groups gs \<Longrightarrow> x \<in> set (group_items gs c) \<Longrightarrow> node_comm (Some x) = c"
  by (cases "map_of gs c") (auto simp: group_items_def named_groups_def dest: map_of_SomeD)

lemma item_at_in: "item_at xs i = Some x \<Longrightarrow> x \<in> set xs"
  by (auto simp: item_at_def split: if_splits)

lemma child_pairs_named:
  assumes "(ca, cb, i) \<in> set (child_pairs (child_groups a) (child_groups b))"
  shows "(ca \<noteq> None \<or> cb \<noteq> None) \<and> (\<exists>c. (\<forall>x. ca = Some x \<longrightarrow> node_comm (Some x) = c) \<and> (\<forall>y. cb = Some y \<longrightarrow> node_comm (Some y) = c))"
proof -
  let ?ta = "child_groups a" and ?tb = "child_groups b"
  from assms consider
    (1) c items where "(c, items) \<in> set ?ta" "ca = item_at items i" "cb = item_at (group_items ?tb c) i"
      "i < max (length items) (length (group_items ?tb c))"
  | (2) c items where "(c, items) \<in> set ?tb" "ca = None" "cb = item_at items i" "i < length items"
    by (auto simp: child_pairs_def split: if_splits)
  then show ?thesis
  proof cases
    case 1
    have "\<forall>x \<in> set items. node_comm (Some x) = c"
      using child_groups_named [of a] 1(1) by (auto simp: named_groups_def)
    moreover have "\<forall>y \<in> set (group_items ?tb c). node_comm (Some y) = c"
      using group_items_named [OF child_groups_named] by blast
    moreover have "ca \<noteq> None \<or> cb \<noteq> None" using 1 by (auto simp: item_at_def)
    ultimately show ?thesis using 1(2,3) item_at_in by metis
  next
    case 2
    have "\<forall>x \<in> set items. node_comm (Some x) = c"
      using child_groups_named [of b] 2(1) by (auto simp: named_groups_def)
    with 2 show ?thesis by (auto simp: item_at_def)
  qed
qed

lemma merge_sides_agree:
  assumes "a \<noteq> None \<or> b \<noteq> None" and "\<forall>x. a = Some x \<longrightarrow> node_comm (Some x) = c" and "\<forall>y. b = Some y \<longrightarrow> node_comm (Some y) = c"
  shows "sides_agree (merge_nodes a b parent i threshold)"
  using assms by (cases a; cases b) (simp_all add: merge_nodes_unfold Let_def sides_agree_def)

lemma merged_nodes_eq: "merged_nodes n = n # concat (map merged_nodes (dn_children n))"
  by (cases n) simp

lemma merged_children_agree:
  "list_all sides_agree (concat (map merged_nodes (dn_children (merge_nodes a b parent i threshold))))"
proof (induction a b parent i rule: merge_induct)
  case (1 a b parent i)
  have "list_all sides_agree (merged_nodes (merge_pair path threshold x))"
    if x: "x \<in> set (child_pairs (child_groups a) (child_groups b))" for path x
  proof -
    obtain ca cb k where e: "x = (ca, cb, k)" by (cases x)
    from child_pairs_named [OF x [unfolded e]] have "sides_agree (merge_nodes ca cb path k threshold)"
      by (blast intro: merge_sides_agree)
    then show ?thesis
      using 1 [rule_format, OF x, of path] by (subst merged_nodes_eq) (simp add: merge_pair_def e)
  qed
  then show ?case by (subst merge_nodes_unfold) (simp add: Let_def list_all_iff)
qed

section \<open>Comparing a run with itself\<close>

text \<open>A merged tree without any change: every process is matched and none is over the threshold.\<close>

definition unchanged :: "diff_node \<Rightarrow> bool" where
  "unchanged n \<longleftrightarrow> dn_status n = Matched \<and> \<not> dn_changed n"

lemma child_pairs_same:
  assumes "(ca, cb, i) \<in> set (child_pairs gs gs)" and "distinct (map fst gs)"
  shows "ca = cb \<and> ca \<noteq> None"
proof -
  from assms(1) consider
    (1) c items where "(c, items) \<in> set gs" "ca = item_at items i" "cb = item_at (group_items gs c) i"
      "i < max (length items) (length (group_items gs c))"
  | (2) c items where "(c, items) \<in> set gs" "c \<notin> fst ` set gs"
    by (auto simp: child_pairs_def split: if_splits)
  then show ?thesis
  proof cases
    case 1
    then have "group_items gs c = items" using assms(2) by (simp add: group_items_def)
    with 1 show ?thesis by (simp add: item_at_def)
  next
    case 2
    then show ?thesis by (force simp: image_iff)
  qed
qed

lemma node_delta_same:
  assumes "\<not> dlt threshold (Fin 0)"
  shows "\<not> dlt threshold (cpu_change (node_delta v v))"
proof -
  have n: "\<not> dlt threshold NaN" by (cases threshold) simp_all
  have "dadd (dabs (dsub x x)) (dabs (dsub y y)) \<in> {Fin 0, NaN}" for x y
    using dsub_self [of x] dsub_self [of y] by auto
  then have "cpu_change (node_delta v v) \<in> {Fin 0, NaN}"
    unfolding cpu_change_def node_delta_def diff_metrics_def by simp
  with assms n show ?thesis by auto
qed

lemma merge_same_unchanged:
  assumes "\<not> dlt threshold (Fin 0)"
  shows "a = b \<Longrightarrow> a \<noteq> None \<Longrightarrow> list_all unchanged (merged_nodes (merge_nodes a b parent i threshold))"
proof (induction a b parent i rule: merge_induct)
  case (1 a b parent i)
  have kids: "list_all unchanged (merged_nodes (merge_pair path threshold x))"
    if "x \<in> set (child_pairs (child_groups a) (child_groups b))" for path x
    using 1 that child_pairs_same [of "fst x" "fst (snd x)" "snd (snd x)" "child_groups a"] child_groups_distinct
    by (auto simp: merge_pair_def)
  show ?case
    using 1(2,3) kids node_delta_same [OF assms]
    by (subst merge_nodes_unfold)
      (auto simp: Let_def list_all_iff unchanged_def [of "Diff_Node _ _ _ _ _ _ _ _"])
qed

lemma unchanged_topmost:
  "list_all unchanged (merged_nodes dn) \<Longrightarrow> collect_topmost_changes dn = ([], [])"
proof (induction dn rule: collect_topmost_changes.induct)
  case (1 path comm a b st ch delta cs)
  then have "st = Matched" by (simp add: unchanged_def)
  moreover have "collect_topmost_changes c = ([], [])" if "c \<in> set cs" for c
    using 1 that by (auto simp: unchanged_def list_all_iff)
  ultimately show ?case by (simp add: case_prod_unfold)
qed

lemma double_round_nonneg:
  assumes "0 \<le> q"
  shows "double_round q = Inf False \<or> (\<exists>r \<ge> 0. double_round q = Fin r)"
proof -
  have "0 \<le> \<lfloor>q / pow2 e\<rfloor>" for e using divide_nonneg_pos [OF assms pow2_pos [of e]] by simp
  then have "0 \<le> round_half_even (q / pow2 e)" for e
    unfolding round_half_even_def Let_def using add_nonneg_nonneg [of _ 1] by simp
  then show ?thesis using assms by (auto simp: double_round_def Let_def intro!: mult_nonneg_nonneg less_imp_le [OF pow2_pos])
qed

text \<open>A summary without repeated names, whose counts are numbers, is joined entry by entry to itself.\<close>

definition plain_summary :: "json_value option \<Rightarrow> bool" where
  "plain_summary s \<longleftrightarrow>
     distinct (map (\<lambda>v. node_comm (Some v)) (json_items s)) \<and>
     list_all (\<lambda>v. \<not> is_nan (num (Some v) ''count'')) (json_items s)"

lemma first_named_distinct:
  "distinct (map (\<lambda>v. node_comm (Some v)) vs) \<Longrightarrow> j < length vs \<Longrightarrow>
   first_named (node_comm (Some (vs ! j))) vs = Some j"
proof (induction vs arbitrary: j)
  case (Cons v vs)
  then show ?case by (cases j) (auto dest: nth_mem)
qed simp

lemma summary_same:
  assumes "plain_summary s"
  shows "snd (print_diff_text_summary s s) = False"
proof -
  let ?vs = "json_items s"
  have d: "distinct (map (\<lambda>v. node_comm (Some v)) ?vs)" using assms by (simp add: plain_summary_def)
  have m: "summary_match ?vs v = Some v" if "v \<in> set ?vs" for v
    using that first_named_distinct [OF d] by (auto simp: summary_match_def in_set_conv_nth)
  have "summary_added ?vs ?vs = []"
    using first_named_distinct [OF d] by (fastforce simp: summary_added_def list_ex_iff filter_empty_conv)
  moreover have "\<not> summary_differs v v" if "v \<in> set ?vs" for v
  proof -
    have t: "\<not> dlt tiny (Fin 0)" "\<not> dlt tiny NaN"
      using double_round_nonneg [of "1 / 10 ^ 9"] by (auto simp: tiny_def)
    have "\<not> dlt tiny (dabs (dsub x x))" for x using dsub_self [of x] t by auto
    then show ?thesis using assms that by (simp add: summary_differs_def dne_def plain_summary_def list_all_iff)
  qed
  ultimately show ?thesis using m by (simp add: print_diff_text_summary_def Let_def list_ex_iff)
qed

lemma run_diff_same_status:
  assumes "\<not> dlt threshold (Fin 0)" and "json_object_get (Some v) ''tree'' \<noteq> None"
    and "plain_summary (json_object_get (Some v) ''summary'')"
  shows "snd (run_diff file_a file_b v v json_out threshold) = 0"
proof -
  let ?t = "json_object_get (Some v) ''tree''"
  have u: "list_all unchanged (merged_nodes (merge_nodes ?t ?t [] 0 threshold))"
    using merge_same_unchanged [OF assms(1) refl assms(2)] .
  have "\<not> list_ex dn_changed (matched_nodes (merge_nodes ?t ?t [] 0 threshold))"
    using u by (auto simp: matched_nodes_def list_all_iff list_ex_iff unchanged_def)
  then show ?thesis
    using unchanged_topmost [OF u] summary_same [OF assms(3)] by (simp add: run_diff_def Let_def)
qed

section \<open>An exported run\<close>

lemma collect_node_distinct: "distinct (map cm_comm tbl) \<Longrightarrow> distinct (map cm_comm (collect_node n tbl))"
proof (cases "pi_comm n")
  case (Some c)
  assume d: "distinct (map cm_comm tbl)"
  show ?thesis
  proof (cases "update_comm c (add_process n) tbl")
    case None
    then have "c \<notin> cm_comm ` set tbl" by (simp add: update_comm_None entry_of_None)
    with d None Some show ?thesis by (simp add: collect_node_def)
  next
    case u: (Some tbl')
    from update_comm_Some [OF this] d Some u show ?thesis by (simp add: collect_node_def)
  qed
qed (simp add: collect_node_def)

lemma fold_option_invariant:
  "\<forall>x \<in> set xs. \<forall>s s'. P s \<longrightarrow> f x s = Some s' \<longrightarrow> P s' \<Longrightarrow> P s \<Longrightarrow> fold_option f xs s = Some s' \<Longrightarrow> P s'"
proof (induction xs arbitrary: s)
  case (Cons x xs)
  from Cons.prems(3) obtain s1 where s1: "f x s = Some s1" "fold_option f xs s1 = Some s'"
    by (cases "f x s") simp_all
  have "P s1" using Cons.prems(1,2) s1(1) by (meson list.set_intros(1))
  moreover have "\<forall>x \<in> set xs. \<forall>s s'. P s \<longrightarrow> f x s = Some s' \<longrightarrow> P s'"
    using Cons.prems(1) by (meson list.set_intros(2))
  ultimately show ?case using s1(2) by (intro Cons.IH)
qed simp

lemma collect_totals_distinct:
  "distinct (map cm_comm tbl) \<Longrightarrow> collect_process_totals fuel h a tbl = Some tbl' \<Longrightarrow> distinct (map cm_comm tbl')"
proof (induction fuel h a tbl arbitrary: tbl' rule: collect_process_totals.induct)
  case (2 fuel h a tbl)
  from 2(3) obtain ks where ks: "youngest_first (length h) h a = Some ks"
    and walk: "fold_option (collect_process_totals fuel h) ks (collect_node (h ! a) tbl) = Some tbl'"
    by (auto split: option.splits)
  have step: "\<forall>k \<in> set ks. \<forall>s s'. distinct (map cm_comm s) \<longrightarrow> collect_process_totals fuel h k s = Some s' \<longrightarrow>
      distinct (map cm_comm s')"
    using 2(1) [OF ks] by blast
  show ?case
    by (rule fold_option_invariant [where P = "\<lambda>t. distinct (map cm_comm t)", OF step collect_node_distinct [OF 2(2)] walk])
qed simp

lemma build_comm_table_distinct:
  assumes "build_comm_table h r = Some tbl"
  shows "distinct (map cm_comm tbl)"
proof -
  obtain t where t: "collect_process_totals (length h) h r [] = Some t" "tbl = qsort comm_compare t"
    using assms by (auto simp: build_comm_table_def)
  have "distinct (map cm_comm t)" by (rule collect_totals_distinct [OF _ t(1)]) simp
  moreover have "mset (map cm_comm tbl) = mset (map cm_comm t)" by (simp add: t(2))
  ultimately show ?thesis using mset_eq_imp_distinct_iff [of "map cm_comm tbl" "map cm_comm t"] by simp
qed

lemma double_of_int_number [simp]: "\<not> is_nan (double_of_int i)"
  by (simp add: double_of_int_def double_round_def Let_def)

lemma comm_value_comm [simp]: "node_comm (Some (comm_value p ci)) = cm_comm ci"
  by (simp add: node_comm_def json_get_string_def json_object_get_def comm_value_def)

lemma comm_value_count [simp]: "\<not> is_nan (num (Some (comm_value p ci)) ''count'')"
  by (simp add: num_def json_get_number_def json_object_get_def comm_value_def word_value_def)

lemma export_value_parts:
  "json_object_get (Some (export_value p s source_file tbl t)) ''tree'' = Some (tree_value p (st_heap s) t)"
  "json_object_get (Some (export_value p s source_file tbl t)) ''summary'' = Some (JSON_ARRAY (map (comm_value p) tbl))"
  by (simp_all add: json_object_get_def export_value_def)

lemma export_plain_summary:
  "build_comm_table h r = Some tbl \<Longrightarrow> plain_summary (Some (JSON_ARRAY (map (comm_value p) tbl)))"
  using build_comm_table_distinct [of h r tbl]
  by (simp add: plain_summary_def json_items_def list_all_iff comp_def)

section \<open>Properties\<close>

text \<open>C26: for any two exported trees the merge has every process of the first run and every process of the
  second run in exactly one node each, and below the root a node says which of the runs it is in and pairs only
  processes of the node's own name.\<close>
theorem merge_nodes_conserves:
  "mset (concat (map a_side (merged_nodes (merge_nodes a b parent i threshold)))) =
     mset (concat (map json_tree (opt_list a))) \<and>
   mset (concat (map b_side (merged_nodes (merge_nodes a b parent i threshold)))) =
     mset (concat (map json_tree (opt_list b))) \<and>
   list_all sides_agree (concat (map merged_nodes (dn_children (merge_nodes a b parent i threshold))))"
  by (intro conjI merged_a_sides merged_b_sides merged_children_agree)

text \<open>C25: a run that is exported and compared with its own export differs in nothing: under the conditions of
  the export round trip and a threshold that is not negative, \<open>--diff\<close> parses both files and exits with status
  0, in text mode as in JSON mode.\<close>
theorem exported_run_same:
  assumes "parse_file bs = Some s" and "fresh_forks (file_events bs) spec_initial" and "st_root s = Some r"
    and "build_comm_table (st_heap s) r = Some tbl" and "no_nul source_file"
    and "\<forall>a \<in> below (sp_edges (spec_of_file bs)) r. printable_process p (st_heap s ! a)"
    and "\<forall>ci \<in> set tbl. printable_comm p ci" and "\<not> dlt threshold (Fin 0)"
  shows "\<exists>out report. print_json p s source_file = Some out \<and>
    run_diff_files file_a file_b (Contents out) (Contents out) json_out threshold = Some (Inr (report, 0))"
proof -
  obtain t out where out: "print_json p s source_file = Some out"
    "json_parse out = Some (Inr (export_value p s source_file tbl t))"
    using export_parses [OF assms(1-7)] by blast
  have "snd (run_diff file_a file_b (export_value p s source_file tbl t) (export_value p s source_file tbl t)
      json_out threshold) = 0"
    using run_diff_same_status [OF assms(8)] export_plain_summary [OF assms(4)] by (simp add: export_value_parts)
  then show ?thesis
    using out by (auto simp: run_diff_files_def json_parse_file_def Let_def prod_eq_iff)
qed

lemma exported_run_same_witness:
  "\<exists>s out report. parse_file sample_trace = Some s \<and> print_json (default_options 100 4096) s ''t'' = Some out \<and>
     run_diff_files ''a'' ''b'' (Contents out) (Contents out) False (Fin 1) = Some (Inr (report, 0))"
proof -
  obtain s where s: "parse_file sample_trace = Some s" "st_root s = Some 0"
    "build_comm_table (st_heap s) 0 = Some []"
    "\<forall>a \<in> below (sp_edges (spec_of_file sample_trace)) 0. printable_process (default_options 100 4096) (st_heap s ! a)"
    using sample_exports by blast
  have n: "no_nul ''t''" "\<forall>ci \<in> set []. printable_comm (default_options 100 4096) ci" "\<not> dlt (Fin 1) (Fin 0)"
    by (simp_all add: NUL_def)
  from exported_run_same [OF s(1) sample_fresh s(2,3) n(1) s(4) n(2,3)] s(1) show ?thesis by blast
qed

text \<open>The two modes need not agree: a difference of the summaries alone is counted in text mode only.\<close>

definition summary_only :: "rat \<Rightarrow> json_value" where
  "summary_only n = JSON_OBJECT
     [(''summary'', JSON_ARRAY [JSON_OBJECT [(''comm'', JSON_STRING ''sh''), (''count'', JSON_NUMBER (Fin n))]]),
      (''tree'', JSON_OBJECT [])]"

lemma run_diff_modes_differ:
  "snd (run_diff ''a'' ''b'' (summary_only 1) (summary_only 2) True (Fin 1)) = 0 \<and>
   snd (run_diff ''a'' ''b'' (summary_only 1) (summary_only 2) False (Fin 1)) = 1"
proof -
  have t: "json_object_get (Some (summary_only n)) ''tree'' = Some (JSON_OBJECT [])" for n
    by (simp add: summary_only_def json_object_get_def)
  let ?t = "merge_nodes (Some (JSON_OBJECT [])) (Some (JSON_OBJECT [])) [] 0 (Fin 1)"
  have u: "list_all unchanged (merged_nodes ?t)" by (rule merge_same_unchanged) simp_all
  then have "\<not> list_ex dn_changed (matched_nodes ?t)"
    by (auto simp: matched_nodes_def list_all_iff list_ex_iff unchanged_def)
  moreover have "snd (print_diff_text_summary (json_object_get (Some (summary_only 1)) ''summary'')
      (json_object_get (Some (summary_only 2)) ''summary''))"
    by (simp add: print_diff_text_summary_def Let_def summary_only_def json_object_get_def json_items_def
        summary_match_def summary_differs_def dne_def num_def json_get_number_def node_comm_def json_get_string_def)
  ultimately show ?thesis
    using unchanged_topmost [OF u] by (simp add: run_diff_def Let_def t)
qed

end
