(* ===== verification/Tree_File.thy ===== *)
theory Tree_File
  imports Ptrace_Order Proc_Merge
begin

text \<open>
  The tree file between the two programs: the fork and wait lines the tracer of src/topdown.c appends to it have
  exactly their effect on the tree src/proctree.c builds from the file.
\<close>

section \<open>The head of a line\<close>

lemma fixed_value_read: "number_end r \<Longrightarrow> 0 < p \<Longrightarrow> strtod (fmt_fixed p (Fin q) @ r) = Some (printed_value p q, r)"
  using number_text_fixed [of p q] by (simp add: number_text_def)

lemma not_in_dec: "\<not> is_digit c \<Longrightarrow> c \<notin> set (dec n)"
  using dec_digits by blast

lemma fixed_no_space: "CHR '' '' \<notin> set (fmt_fixed p (Fin q))"
  by (auto simp: fmt_fixed_def Let_def pad_left_def not_in_dec)

lemma fixed_width: "5 \<le> length (fmt_fixed 3 (Fin q))"
proof -
  let ?n = "nat (round_half_even (\<bar>q\<bar> * 10 ^ 3))"
  have "length (pad_left (CHR ''0'') 3 (dec (?n mod 10 ^ 3))) \<ge> 3" by (simp add: pad_left_def)
  moreover have "length (dec (?n div 10 ^ 3)) \<ge> 1" by (cases "dec (?n div 10 ^ 3)") simp_all
  ultimately show ?thesis by (simp add: fmt_fixed_def Let_def del: One_nat_def)
qed

lemma stamp_finite: "stamp (Fin q) pid = fmt_fixed 3 (Fin q) @ '' '' @ d_text pid @ '' ''"
  using fixed_width [of q] by (simp add: stamp_def fmt_fixed_w_def pad_left_def)

lemma positive_pid_text: "0 < sint pid \<Longrightarrow> d_text pid = dec (unat pid) \<and> sint pid = int (unat pid)"
proof -
  assume p: "0 < sint (pid :: u32)"
  have s: "sint pid = signed_take_bit 31 (uint pid)" by (simp add: sint_uint)
  then have b: "\<not> bit (uint pid) 31" using p signed_take_bit_negative_iff [of 31 "uint pid"] by linarith
  have "uint pid = take_bit (Suc 31) (uint pid)" using unsigned_less [of pid, where 'a = int] by (simp add: take_bit_int_eq_self)
  also have "\<dots> = sint pid" using b take_bit_Suc_from_most [of 31 "uint pid"] by (simp add: s signed_take_bit_eq_if_positive)
  finally have "sint pid = int (unat pid)" by simp
  with p show ?thesis by (simp add: d_text_def dec_int_def)
qed

lemma line_head_stamp:
  assumes "0 < sint pid"
  shows "line_head (stamp (Fin q) pid @ rest) = Some (printed_value 3 q, pid, rest)"
proof -
  have t: "strtod (fmt_fixed 3 (Fin q)) = Some (printed_value 3 q, [])"
    using fixed_value_read [of "[]" 3 q] by (simp add: number_end_def)
  have a: "atoi (dec (unat pid)) = pid"
    using atoi_dec [of "[]" "unat pid"] unsigned_less [of pid, where 'a = nat] by simp
  have n: "CHR '' '' \<notin> set (dec (unat pid))" by (simp add: not_in_dec)
  have s: "stamp (Fin q) pid @ rest = fmt_fixed 3 (Fin q) @ CHR '' '' # dec (unat pid) @ CHR '' '' # rest"
    using positive_pid_text [OF assms] by (simp add: stamp_finite)
  show ?thesis
    unfolding s line_head_def using assms by (simp add: split_at_append fixed_no_space n t a)
qed

lemma parse_stamped:
  "0 < sint pid \<Longrightarrow> parse_line (stamp (Fin q) pid @ rest) s = handle_event (printed_value 3 q) pid rest s"
  by (simp add: parse_line_def line_head_stamp)

section \<open>The numbers of a line\<close>

text \<open>The text up to the newline that ends the line.\<close>

lemma event_text_line: "LF \<notin> set t \<Longrightarrow> event_text (t @ newline) = t"
  by (induction t) (auto simp: event_text_def newline_def LF_def)

lemma event_arg_line: "LF \<notin> set (k @ CHR '' '' # t) \<Longrightarrow> event_arg (length k) (k @ CHR '' '' # t @ newline) = Some t"
  using event_text_line [of "k @ CHR '' '' # t"] by (simp add: event_arg_def)

lemma number_texts_no_lf: "LF \<notin> set (u_text w)" "LF \<notin> set (fmt_fixed p (Fin q))"
  by (auto simp: u_text_def LF_def fmt_fixed_def Let_def pad_left_def not_in_dec)

lemma strtod_space: "is_space c \<Longrightarrow> strtod (c # s) = strtod s"
  by (simp add: strtod_def)

lemma sscanf_u:
  "sscanf (Conv_u f # cs) (u_text w @ CHR '' '' # r) n = sscanf cs (CHR '' '' # r) (f w n)"
  "sscanf (Conv_u f # cs) (CHR '' '' # u_text w @ CHR '' '' # r) n = sscanf cs (CHR '' '' # r) (f w n)"
  "sscanf [Conv_u f] (CHR '' '' # u_text w) n = f w n"
  using scan_ul_dec [of "CHR '' '' # r" w] scan_ul_dec [of "[]" w] by (simp_all add: u_text_def is_digit_def)

lemma sscanf_lf:
  "sscanf (Conv_lf f # cs) (fmt_fixed 6 (Fin q) @ CHR '' '' # r) n = sscanf cs (CHR '' '' # r) (f (printed_value 6 q) n)"
  "sscanf (Conv_lf f # cs) (CHR '' '' # fmt_fixed 6 (Fin q) @ CHR '' '' # r) n =
     sscanf cs (CHR '' '' # r) (f (printed_value 6 q) n)"
  "sscanf [Conv_lf f] (CHR '' '' # fmt_fixed 6 (Fin q)) n = f (printed_value 6 q) n"
proof -
  have e: "number_end (CHR '' '' # r)" "number_end []"
    by (rule number_end_space, simp) (simp add: number_end_def)
  show "sscanf (Conv_lf f # cs) (fmt_fixed 6 (Fin q) @ CHR '' '' # r) n = sscanf cs (CHR '' '' # r) (f (printed_value 6 q) n)"
    "sscanf (Conv_lf f # cs) (CHR '' '' # fmt_fixed 6 (Fin q) @ CHR '' '' # r) n =
     sscanf cs (CHR '' '' # r) (f (printed_value 6 q) n)"
    "sscanf [Conv_lf f] (CHR '' '' # fmt_fixed 6 (Fin q)) n = f (printed_value 6 q) n"
    using fixed_value_read [OF e(1), of 6 q] fixed_value_read [OF e(2), of 6 q] by (simp_all add: strtod_space)
qed

lemmas line_numbers = sscanf_u sscanf_lf

lemma count_pair:
  "sscanf [Conv_u f, Conv_lf g] (u_text n @ CHR '' '' # fmt_fixed 6 (Fin x)) =
     (\<lambda>e. g (printed_value 6 x) (f n e))"
  by (rule ext) (simp only: line_numbers)

text \<open>Which handler a line with a keyword and an argument goes to.\<close>

lemma handle_keyword:
  assumes "LF \<notin> set arg"
  shows "handle_event el pid (''fork '' @ arg @ newline) s = Some (handle_fork el pid arg s)"
    and "handle_event el pid (''futex '' @ arg @ newline) s = Some (handle_futex pid arg s)"
    and "handle_event el pid (''io_wait '' @ arg @ newline) s = Some (handle_io_wait pid arg s)"
    and "handle_event el pid (''connect '' @ arg @ newline) s = Some (handle_connect pid arg s)"
    and "handle_event el pid (''nanosleep '' @ arg @ newline) s = Some (handle_nanosleep pid arg s)"
    and "handle_event el pid (''wait '' @ arg @ newline) s = Some (handle_wait pid arg s)"
    and "handle_event el pid (''poll '' @ arg @ newline) s = Some (handle_poll pid arg s)"
proof -
  have a: "event_text (k @ CHR '' '' # arg @ newline) = k @ CHR '' '' # arg"
    "event_arg (length k) (k @ CHR '' '' # arg @ newline) = Some arg" if "LF \<notin> set k" for k
    using event_text_line [of "k @ CHR '' '' # arg"] event_arg_line [of k arg] assms that by (simp_all add: LF_def)
  note h = handle_event_def Let_def starts_with_simps LF_def
  show "handle_event el pid (''fork '' @ arg @ newline) s = Some (handle_fork el pid arg s)"
    using a [of "''fork''"] by (simp add: h)
  show "handle_event el pid (''futex '' @ arg @ newline) s = Some (handle_futex pid arg s)"
    using a [of "''futex''"] by (simp add: h)
  show "handle_event el pid (''io_wait '' @ arg @ newline) s = Some (handle_io_wait pid arg s)"
    using a [of "''io_wait''"] by (simp add: h)
  show "handle_event el pid (''connect '' @ arg @ newline) s = Some (handle_connect pid arg s)"
    using a [of "''connect''"] by (simp add: h)
  show "handle_event el pid (''nanosleep '' @ arg @ newline) s = Some (handle_nanosleep pid arg s)"
    using a [of "''nanosleep''"] by (simp add: h)
  show "handle_event el pid (''wait '' @ arg @ newline) s = Some (handle_wait pid arg s)"
    using a [of "''wait''"] by (simp add: h)
  show "handle_event el pid (''poll '' @ arg @ newline) s = Some (handle_poll pid arg s)"
    using a [of "''poll''"] by (simp add: h)
qed

section \<open>The lines\<close>

lemma pair_no_lf: "LF \<notin> set (u_text n @ CHR '' '' # fmt_fixed 6 (Fin x))"
  by (simp add: LF_def number_texts_no_lf [unfolded LF_def])

lemma fork_line_event:
  "0 < sint pid \<Longrightarrow> parse_line (stamp (Fin q) pid @ ''fork '' @ u_text child @ newline) s =
     Some (handle_fork (printed_value 3 q) pid (u_text child) s)"
  using handle_keyword(1) [OF number_texts_no_lf(1)] by (simp add: parse_stamped)

lemma count_line_events:
  assumes "0 < sint pid"
  shows "parse_line (count_line (Fin q) pid ''futex'' n (Fin x)) s =
      Some (on_pid pid (\<lambda>e. e\<lparr>pi_futex_wait_count := n, pi_futex_wait_seconds := printed_value 6 x\<rparr>) s)"
    and "parse_line (count_line (Fin q) pid ''connect'' n (Fin x)) s =
      Some (on_pid pid (\<lambda>e. e\<lparr>pi_connect_count := n, pi_connect_seconds := printed_value 6 x\<rparr>) s)"
    and "parse_line (count_line (Fin q) pid ''nanosleep'' n (Fin x)) s =
      Some (on_pid pid (\<lambda>e. e\<lparr>pi_nanosleep_count := n, pi_nanosleep_seconds := printed_value 6 x\<rparr>) s)"
    and "parse_line (count_line (Fin q) pid ''wait'' n (Fin x)) s =
      Some (on_pid pid (\<lambda>e. e\<lparr>pi_wait_count := n, pi_wait_seconds := printed_value 6 x\<rparr>) s)"
    and "parse_line (count_line (Fin q) pid ''poll'' n (Fin x)) s =
      Some (on_pid pid (\<lambda>e. e\<lparr>pi_poll_count := n, pi_poll_seconds := printed_value 6 x\<rparr>) s)"
proof -
  note k = handle_keyword [OF pair_no_lf [of n x], simplified]
  note h = count_line_def parse_stamped [OF assms] k count_pair
  show "parse_line (count_line (Fin q) pid ''futex'' n (Fin x)) s =
      Some (on_pid pid (\<lambda>e. e\<lparr>pi_futex_wait_count := n, pi_futex_wait_seconds := printed_value 6 x\<rparr>) s)"
    using k(2) by (simp add: h handle_futex_def)
  show "parse_line (count_line (Fin q) pid ''connect'' n (Fin x)) s =
      Some (on_pid pid (\<lambda>e. e\<lparr>pi_connect_count := n, pi_connect_seconds := printed_value 6 x\<rparr>) s)"
    using k(4) by (simp add: h handle_connect_def)
  show "parse_line (count_line (Fin q) pid ''nanosleep'' n (Fin x)) s =
      Some (on_pid pid (\<lambda>e. e\<lparr>pi_nanosleep_count := n, pi_nanosleep_seconds := printed_value 6 x\<rparr>) s)"
    using k(5) by (simp add: h handle_nanosleep_def)
  show "parse_line (count_line (Fin q) pid ''wait'' n (Fin x)) s =
      Some (on_pid pid (\<lambda>e. e\<lparr>pi_wait_count := n, pi_wait_seconds := printed_value 6 x\<rparr>) s)"
    using k(6) by (simp add: h handle_wait_def)
  show "parse_line (count_line (Fin q) pid ''poll'' n (Fin x)) s =
      Some (on_pid pid (\<lambda>e. e\<lparr>pi_poll_count := n, pi_poll_seconds := printed_value 6 x\<rparr>) s)"
    using k(7) by (simp add: h handle_poll_def)
qed

lemma io_wait_line_event:
  assumes "0 < sint pid"
  shows "parse_line (stamp (Fin q) pid @ ''io_wait '' @ u_text n @ '' '' @ fmt_fixed 6 (Fin x) @ '' '' @ u_text m @ '' '' @
      fmt_fixed 6 (Fin y) @ newline) s =
    Some (on_pid pid (\<lambda>e. e\<lparr>pi_io_read_wait_count := n, pi_io_read_wait_seconds := printed_value 6 x,
      pi_io_write_wait_count := m, pi_io_write_wait_seconds := printed_value 6 y\<rparr>) s)"
proof -
  let ?arg = "u_text n @ CHR '' '' # fmt_fixed 6 (Fin x) @ CHR '' '' # u_text m @ CHR '' '' # fmt_fixed 6 (Fin y)"
  have "LF \<notin> set ?arg" by (simp add: LF_def number_texts_no_lf [unfolded LF_def])
  from handle_keyword(3) [OF this] have "parse_line (stamp (Fin q) pid @ ''io_wait '' @ u_text n @ '' '' @ fmt_fixed 6 (Fin x) @ '' '' @ u_text m @ '' '' @
      fmt_fixed 6 (Fin y) @ newline) s =
      Some (handle_io_wait pid ?arg s)"
    by (simp add: parse_stamped [OF assms])
  also have "\<dots> = Some (on_pid pid (\<lambda>e. e\<lparr>pi_io_read_wait_count := n, pi_io_read_wait_seconds := printed_value 6 x,
      pi_io_write_wait_count := m, pi_io_write_wait_seconds := printed_value 6 y\<rparr>) s)"
    unfolding handle_io_wait_def by (rule arg_cong [of _ _ "\<lambda>f. Some (on_pid pid f s)"], rule ext) (simp only: line_numbers)
  finally show ?thesis .
qed

section \<open>Lines of the file\<close>

text \<open>A line that proctree reads with one call: it ends in a newline, has no zero byte and fits its buffer.\<close>

definition tree_line :: "string \<Rightarrow> bool" where
  "tree_line t \<longleftrightarrow> (\<exists>l. t = l @ newline \<and> LF \<notin> set l \<and> no_nul l \<and> length l < LINE_MAX)"

definition parse_text :: "string \<Rightarrow> proctree \<Rightarrow> proctree option" where
  "parse_text t s = parse_lines (map cstr (file_lines t)) s"

lemma parse_text_file: "parse_file bs = parse_text bs proctree_initial"
  by (simp add: parse_file_def parse_text_def)

lemma parse_text_Nil [simp]: "parse_text [] s = Some s"
  by (simp add: parse_text_def file_lines.simps)

lemma fgets_split: "fgets n s = (l, r) \<Longrightarrow> r \<noteq> [] \<or> l \<noteq> [] \<and> last l = LF \<Longrightarrow> fgets n (s @ t) = (l, r @ t)"
proof (induction n s arbitrary: l r rule: fgets.induct)
  case (3 n c s)
  then show ?case by (auto simp: Let_def split: if_splits prod.splits)
qed auto

lemma file_lines_append: "bs = [] \<or> last bs = LF \<Longrightarrow> file_lines (bs @ t) = file_lines bs @ file_lines t"
proof (induction bs rule: file_lines.induct)
  case (1 bs)
  show ?case
  proof (cases "bs = []")
    case False
    obtain l r where f: "fgets LINE_MAX bs = (l, r)" by fastforce
    then have bs: "bs = l @ r" using fgets_append [of LINE_MAX bs] by simp
    have e: "r \<noteq> [] \<or> l \<noteq> [] \<and> last l = LF" using False 1(2) bs by auto
    have "r = [] \<or> last r = LF" using False 1(2) bs by (cases "r = []") simp_all
    then have "file_lines (r @ t) = file_lines r @ file_lines t" using 1(1) [OF False f [symmetric]] by simp
    then show ?thesis
      using fgets_split [OF f e, of t] f False by (subst (1 2) file_lines.simps) simp
  qed (simp add: file_lines.simps)
qed

lemma parse_lines_append:
  "parse_lines (ls @ ms) s = (case parse_lines ls s of None \<Rightarrow> None | Some s' \<Rightarrow> parse_lines ms s')"
  by (induction ls arbitrary: s) (simp_all split: option.splits)

lemma parse_file_append:
  "parse_file bs = Some s \<Longrightarrow> bs = [] \<or> last bs = LF \<Longrightarrow> parse_file (bs @ t) = parse_text t s"
  by (simp add: parse_file_def parse_text_def file_lines_append parse_lines_append)

lemma fgets_to_newline: "LF \<notin> set l \<Longrightarrow> length l < n \<Longrightarrow> fgets n (l @ LF # r) = (l @ [LF], r)"
proof (induction l arbitrary: n)
  case Nil
  then show ?case by (cases n) auto
next
  case (Cons c l)
  then show ?case by (cases n) auto
qed

lemma parse_text_line:
  assumes "tree_line t"
  shows "parse_text (t @ r) s = (case parse_line t s of None \<Rightarrow> None | Some s' \<Rightarrow> parse_text r s')"
proof -
  obtain l where l: "t = l @ newline" "LF \<notin> set l" "no_nul l" "length l < LINE_MAX"
    using assms by (auto simp: tree_line_def)
  have n: "newline = [LF]" by (simp add: newline_def LF_def)
  have "file_lines (t @ r) = t # file_lines r"
    using fgets_to_newline [OF l(2,4), of r] by (subst file_lines.simps) (simp add: l(1) n)
  moreover have "cstr t = t" using l(3) by (simp add: l(1) n LF_def NUL_def)
  ultimately show ?thesis by (simp add: parse_text_def split: option.split)
qed

lemma parse_text_one: "tree_line t \<Longrightarrow> parse_text t s = parse_line t s"
  using parse_text_line [of t "[]" s] by (simp split: option.splits)

lemma optional_line:
  assumes "tree_line t" and "parse_line t s = Some (on_pid pid f s)"
  shows "parse_text ((if c then t else []) @ r) s = parse_text r (on_pid pid (\<lambda>e. if c then f e else e) s)"
proof -
  have "on_pid pid (\<lambda>e. e) s = s" by (simp add: on_pid_def set_node_def split: option.splits)
  then show ?thesis using assms by (cases c) (simp_all add: parse_text_line)
qed

section \<open>The lines are short\<close>

text \<open>The finite values of a C \<open>double\<close>.\<close>

definition in_double :: "rat \<Rightarrow> bool" where
  "in_double q \<longleftrightarrow> \<bar>q\<bar> < double_limit"

definition plain :: "nat \<Rightarrow> string \<Rightarrow> bool" where
  "plain n t \<longleftrightarrow> LF \<notin> set t \<and> no_nul t \<and> length t \<le> n"

lemma plain_append: "plain n t \<Longrightarrow> plain m u \<Longrightarrow> plain (n + m) (t @ u)"
  by (auto simp: plain_def)

lemma plain_dec: "n < 10 ^ p \<Longrightarrow> 0 < p \<Longrightarrow> plain p (dec n)"
  using dec_length [of n p] by (simp add: plain_def not_in_dec LF_def)

lemma plain_u: "plain 20 (u_text (w :: u64))"
proof -
  have "unat w < 2 ^ 64" using unsigned_less [of w, where 'a = nat] by simp
  also have "(2 :: nat) ^ 64 < 10 ^ 20" by simp
  finally show ?thesis unfolding u_text_def by (rule plain_dec) simp
qed

lemma plain_fixed:
  assumes "in_double q" and "p \<le> 6"
  shows "plain 330 (fmt_fixed p (Fin q))"
proof -
  let ?n = "nat (round_half_even (\<bar>q\<bar> * 10 ^ p))"
  have "\<bar>q\<bar> * 10 ^ p \<le> 2 ^ 1024 * 10 ^ 6"
    using assms by (intro mult_mono power_increasing) (simp_all add: in_double_def double_limit_def)
  moreover have "of_int (round_half_even (\<bar>q\<bar> * 10 ^ p)) \<le> \<bar>q\<bar> * 10 ^ p + 1"
    unfolding round_half_even_def Let_def using floor_correct [of "\<bar>q\<bar> * 10 ^ p"] by (auto; linarith)
  ultimately have "of_int (round_half_even (\<bar>q\<bar> * 10 ^ p)) \<le> (of_int (2 ^ 1024 * 10 ^ 6 + 1) :: rat)" by simp
  then have "round_half_even (\<bar>q\<bar> * 10 ^ p) \<le> 2 ^ 1024 * 10 ^ 6 + 1" by (simp only: of_int_le_iff)
  also have "(2 :: int) ^ 1024 * 10 ^ 6 + 1 < 10 ^ 316" by simp
  finally have n: "?n < 10 ^ 316" by simp
  have i: "plain 316 (dec (?n div 10 ^ p))" by (rule plain_dec [OF le_less_trans [OF div_le_dividend n]]) simp
  have "?n mod 10 ^ p < 10 ^ p" by simp
  also have "(10 :: nat) ^ p \<le> 10 ^ 6" using assms(2) by (rule power_increasing) simp
  finally have "plain 6 (dec (?n mod 10 ^ p))" by (rule plain_dec) simp
  then have f: "plain 6 (pad_left (CHR ''0'') p (dec (?n mod 10 ^ p)))"
    using assms(2) by (auto simp: plain_def pad_left_def LF_def NUL_def no_nul_def)
  from i f show ?thesis by (auto simp: fmt_fixed_def Let_def plain_def LF_def NUL_def no_nul_def)
qed

lemma plain_stamp:
  assumes "0 < sint pid" and "in_double q"
  shows "plain 352 (stamp (Fin q) pid)"
proof -
  have "unat pid < 2 ^ 32" using unsigned_less [of pid, where 'a = nat] by simp
  also have "(2 :: nat) ^ 32 < 10 ^ 20" by simp
  finally have "plain 20 (dec (unat pid))" by (rule plain_dec) simp
  with plain_fixed [OF assms(2), of 3] positive_pid_text [OF assms(1)] show ?thesis
    by (auto simp: stamp_finite plain_def LF_def NUL_def)
qed

lemma plain_line: "plain n t \<Longrightarrow> n < LINE_MAX \<Longrightarrow> tree_line (t @ newline)"
  by (auto simp: plain_def tree_line_def)

lemma fork_line_fits:
  assumes "0 < sint pid" and "in_double q"
  shows "tree_line (stamp (Fin q) pid @ ''fork '' @ u_text (w :: u64) @ newline)"
proof -
  have "plain 5 ''fork ''" by (simp add: plain_def LF_def NUL_def)
  from plain_line [OF plain_append [OF plain_stamp [OF assms] plain_append [OF this plain_u [of w]]]]
  show ?thesis by (simp add: LINE_MAX_def)
qed

lemma count_line_fits:
  assumes "0 < sint pid" and "in_double q" and "in_double x" and "plain 9 name"
  shows "tree_line (count_line (Fin q) pid name n (Fin x))"
proof -
  have "plain 1 '' ''" by (simp add: plain_def LF_def NUL_def)
  note p = plain_append [OF this]
  note l = plain_append [OF plain_stamp [OF assms(1,2)] plain_append [OF assms(4)
    p [OF plain_append [OF plain_u p [OF plain_fixed [OF assms(3) order_refl]]]]]]
  from plain_line [OF l, of n] show ?thesis by (simp add: count_line_def LINE_MAX_def)
qed

lemma io_wait_line_fits:
  assumes "0 < sint pid" and "in_double q" and "in_double x" and "in_double y"
  shows "tree_line (stamp (Fin q) pid @ ''io_wait '' @ u_text (n :: u64) @ '' '' @ fmt_fixed 6 (Fin x) @ '' '' @
    u_text (m :: u64) @ '' '' @ fmt_fixed 6 (Fin y) @ newline)"
proof -
  have "plain 1 '' ''" "plain 8 ''io_wait ''" by (simp_all add: plain_def LF_def NUL_def)
  note p = plain_append [OF this(1)] and k = plain_append [OF this(2)]
  note l = plain_append [OF plain_stamp [OF assms(1,2)] k [OF plain_append [OF plain_u p [OF plain_append [OF
    plain_fixed [OF assms(3) order_refl] p [OF plain_append [OF plain_u p [OF plain_fixed [OF assms(4) order_refl]]]]]]]]]
  from plain_line [OF l, of n m] show ?thesis by (simp add: LINE_MAX_def)
qed

section \<open>What a process waited for\<close>

text \<open>The seconds a tracer accumulates for a process are values of a C \<open>double\<close>.\<close>

definition seconds_ok :: "double \<Rightarrow> bool" where
  "seconds_ok d \<longleftrightarrow> (case d of Fin x \<Rightarrow> in_double x | _ \<Rightarrow> False)"

definition track_ok :: "syscall_track \<Rightarrow> bool" where
  "track_ok tk \<longleftrightarrow> seconds_ok (sy_futex_wait_seconds tk) \<and> seconds_ok (sy_io_read_wait_seconds tk) \<and>
     seconds_ok (sy_io_write_wait_seconds tk) \<and> seconds_ok (sy_connect_seconds tk) \<and>
     seconds_ok (sy_nanosleep_seconds tk) \<and> seconds_ok (sy_wait_seconds tk) \<and> seconds_ok (sy_poll_seconds tk)"

fun six_decimals :: "double \<Rightarrow> double" where
  "six_decimals (Fin x) = printed_value 6 x"
| "six_decimals d = d"

text \<open>A process of the tree with the waits of a tracked process, those that are traced and happened.\<close>

definition with_waits :: "'k tracer_config \<Rightarrow> syscall_track \<Rightarrow> process_info \<Rightarrow> process_info" where
  "with_waits p tk e =
     (let e1 = (if px_tree_futex p \<and> sy_futex_wait_count tk \<noteq> 0
            then e\<lparr>pi_futex_wait_count := sy_futex_wait_count tk,
              pi_futex_wait_seconds := six_decimals (sy_futex_wait_seconds tk)\<rparr> else e);
          e2 = (if px_tree_io_wait p \<and> (sy_io_read_wait_count tk \<noteq> 0 \<or> sy_io_write_wait_count tk \<noteq> 0)
            then e1\<lparr>pi_io_read_wait_count := sy_io_read_wait_count tk,
              pi_io_read_wait_seconds := six_decimals (sy_io_read_wait_seconds tk),
              pi_io_write_wait_count := sy_io_write_wait_count tk,
              pi_io_write_wait_seconds := six_decimals (sy_io_write_wait_seconds tk)\<rparr> else e1);
          e3 = (if px_tree_connect p \<and> sy_connect_count tk \<noteq> 0
            then e2\<lparr>pi_connect_count := sy_connect_count tk,
              pi_connect_seconds := six_decimals (sy_connect_seconds tk)\<rparr> else e2);
          e4 = (if px_tree_nanosleep p \<and> sy_nanosleep_count tk \<noteq> 0
            then e3\<lparr>pi_nanosleep_count := sy_nanosleep_count tk,
              pi_nanosleep_seconds := six_decimals (sy_nanosleep_seconds tk)\<rparr> else e3);
          e5 = (if px_tree_wait p \<and> sy_wait_count tk \<noteq> 0
            then e4\<lparr>pi_wait_count := sy_wait_count tk,
              pi_wait_seconds := six_decimals (sy_wait_seconds tk)\<rparr> else e4)
      in if px_tree_poll p \<and> sy_poll_count tk \<noteq> 0
         then e5\<lparr>pi_poll_count := sy_poll_count tk, pi_poll_seconds := six_decimals (sy_poll_seconds tk)\<rparr> else e5)"

lemma on_pid_table [simp]: "st_table (on_pid pid f s) = st_table s"
  by (simp add: on_pid_def split: option.splits)

lemma on_pid_on_pid: "on_pid pid f (on_pid pid g s) = on_pid pid (\<lambda>e. f (g e)) s"
proof (cases "table_find (st_table s) pid")
  case (Some a)
  then show ?thesis
    by (cases "a < length (st_heap s)") (simp_all add: on_pid_def lookup_pid_found set_node_def list_update_beyond)
qed (simp add: on_pid_def lookup_pid_found)

lemma seconds_okE: "seconds_ok d \<Longrightarrow> (\<And>x. d = Fin x \<Longrightarrow> in_double x \<Longrightarrow> thesis) \<Longrightarrow> thesis"
  by (cases d) (auto simp: seconds_ok_def)

lemma wait_lines_read:
  assumes "0 < sint pid" and "in_double q" and "track_ok tk"
  shows "parse_text (wait_lines p (Fin q) pid tk) s = Some (on_pid pid (with_waits p tk) s)"
proof -
  obtain x1 x2 x3 x4 x5 x6 x7 where x: "sy_futex_wait_seconds tk = Fin x1" "sy_io_read_wait_seconds tk = Fin x2"
    "sy_io_write_wait_seconds tk = Fin x3" "sy_connect_seconds tk = Fin x4" "sy_nanosleep_seconds tk = Fin x5"
    "sy_wait_seconds tk = Fin x6" "sy_poll_seconds tk = Fin x7"
    and ok: "in_double x1" "in_double x2" "in_double x3" "in_double x4" "in_double x5" "in_double x6" "in_double x7"
    using assms(3) unfolding track_ok_def by (elim conjE seconds_okE)
  have k: "plain 9 ''futex ''" "plain 9 ''futex''" "plain 9 ''connect''" "plain 9 ''nanosleep''" "plain 9 ''wait''" "plain 9 ''poll''"
    by (simp_all add: plain_def LF_def NUL_def)
  note fits = count_line_fits [OF assms(1,2)]
  note read = count_line_events [OF assms(1)]
  note opts = optional_line [OF fits [OF ok(1) k(2)] read(1)] optional_line [OF io_wait_line_fits [OF assms(1,2) ok(2,3)] io_wait_line_event [OF assms(1)]]
    optional_line [OF fits [OF ok(4) k(3)] read(2)] optional_line [OF fits [OF ok(5) k(4)] read(3)]
    optional_line [OF fits [OF ok(6) k(5)] read(4)] optional_line [OF fits [OF ok(7) k(6)] read(5), where r = "[]", simplified append_Nil2]
  show ?thesis
    unfolding wait_lines_def x opts parse_text_Nil on_pid_on_pid with_waits_def x six_decimals.simps Let_def ..
qed

section \<open>A new process\<close>

lemma link_child_start:
  assumes "a < length h" and "p < length h" and "c < length h"
    and "\<forall>y. pi_children (h ! p) = Some y \<longrightarrow> y < length h"
  shows "pi_start (link_child p c h ! a) = pi_start (h ! a)"
  using assms by (auto simp: link_child_def Let_def set_node_nth split: option.splits)

lemma handle_fork_start:
  assumes r: "refines s sp" and new: "table_find (st_table s) (atoi t) = None"
  shows "pi_start (st_heap (handle_fork el pid t s) ! length (st_heap s)) = el"
proof -
  obtain e1 s1 where l1: "lookup_pid (atoi t) True s = (e1, s1)" by fastforce
  obtain e2 s2 where l2: "lookup_pid pid True s1 = (e2, s2)" by fastforce
  obtain c sp1 where 1: "e1 = Some c" "refines s1 sp1" "c < sp_made sp1"
    using lookup_pid_refines [OF r l1] by blast
  obtain p sp2 where 2: "e2 = Some p" "refines s2 sp2" "p < sp_made sp2" "sp_made sp1 \<le> sp_made sp2"
    using lookup_pid_refines [OF 1(2) l2] by blast
  have c: "c = length (st_heap s)" using l1 new 1(1) by (simp add: lookup_pid_def Let_def) 
  let ?h = "set_node c (\<lambda>n. n\<lparr>pi_start := el\<rparr>) (st_heap s2)"
  have cp: "c < length (st_heap s2)" "p < length (st_heap s2)"
    using 1 2 by (simp_all add: refines_def implements_def)
  then have "refines (s2\<lparr>st_heap := ?h\<rparr>) sp2"
    using 2(2) by (intro set_node_refines) (simp_all add: same_links_def)
  then have links: "links_ok ?h (sp_edges sp2)" by (simp add: refines_def implements_def)
  have "pi_start (link_child p c ?h ! c) = el"
    using link_child_start [of c ?h p c] links_children_bound [OF links] cp by (simp add: set_node_nth)
  then show ?thesis
    using cp by (simp add: handle_fork_def l1 l2 1(1) 2(1) Let_def set_node_nth flip: c)
qed

text \<open>The tree after a fork: the child is a new process, the youngest of the parent, started at the time of the
  line; the parent is the running process of its id, and every other process keeps its parent.\<close>

definition forked_tree :: "double \<Rightarrow> u32 \<Rightarrow> u32 \<Rightarrow> proctree \<Rightarrow> proctree \<Rightarrow> bool" where
  "forked_tree el pid child s s' \<longleftrightarrow>
     (let c = length (st_heap s); h = st_heap s' in
      table_find (st_table s') child = Some c \<and> pi_pid (h ! c) = child \<and> pi_start (h ! c) = el \<and>
      (\<exists>a. table_find (st_table s') pid = Some a \<and> (table_find (st_table s) pid \<noteq> None \<longrightarrow> table_find (st_table s) pid = Some a) \<and>
         pi_pid (h ! a) = pid \<and> pi_parent (h ! c) = Some a \<and> pi_children (h ! a) = Some c) \<and>
      (\<forall>b < length (st_heap s). pi_parent (h ! b) = pi_parent (st_heap s ! b)))"

lemma handle_fork_tree:
  assumes r: "refines s sp" and new: "table_find (st_table s) (atoi t) = None" and ne: "atoi t \<noteq> pid"
  shows "forked_tree el pid (atoi t) s (handle_fork el pid t s)"
proof -
  let ?child = "atoi t" and ?s' = "handle_fork el pid t s" and ?c = "sp_made sp"
  have live: "sp_live sp = table_find (st_table s)" and len: "length (st_heap s) = ?c"
    and es: "edges_ok ?c (sp_edges sp)" and par: "\<forall>b < ?c. pi_parent (st_heap s ! b) = parent_of (sp_edges sp) b"
    using r by (auto simp: refines_def implements_def links_ok_def)
  obtain p sp2 where p: "instance_of pid (snd (instance_of ?child sp)) = (p, sp2)" by fastforce
  have c1: "instance_of ?child sp = (?c, sp\<lparr>sp_live := (sp_live sp)(?child \<mapsto> ?c), sp_made := Suc ?c\<rparr>)"
    using new by (simp add: instance_of_def live)
  have p2: "sp_edges sp2 = sp_edges sp" "sp_live sp2 = (sp_live sp)(?child \<mapsto> ?c, pid \<mapsto> p)" "?c < sp_made sp2"
    "p < sp_made sp2" "table_find (st_table s) pid \<noteq> None \<longrightarrow> table_find (st_table s) pid = Some p"
    using p ne r new by (auto simp: c1 instance_of_def live refines_def implements_def fun_eq_iff less_Suc_eq split: option.splits)
  have nc: "?c \<notin> snd ` set (sp_edges sp)" using es by (auto simp: edges_ok_def)
  let ?sp' = "sp2\<lparr>sp_edges := sp_edges sp @ [(p, ?c)]\<rparr>"
  have step: "spec_step (Fork pid ?child) sp = ?sp'" using p nc by (simp add: c1 p2(1) Let_def)
  have r': "refines ?s' ?sp'" using handle_fork_refines [OF r, of el pid t] by (simp only: step)
  then have find: "table_find (st_table ?s') = sp_live sp2" and len': "length (st_heap ?s') = sp_made sp2"
    and links: "links_ok (st_heap ?s') (sp_edges sp @ [(p, ?c)])"
    and pids: "\<And>q a. sp_live sp2 q = Some a \<Longrightarrow> pi_pid (st_heap ?s' ! a) = q"
    by (auto simp: refines_def implements_def)
  have parents: "pi_parent (st_heap ?s' ! b) = (if b = ?c then Some p else parent_of (sp_edges sp) b)" if "b < sp_made sp2" for b
    using links that by (simp add: links_ok_def len' parent_of_append [OF nc])
  have kid: "pi_children (st_heap ?s' ! p) = Some ?c" using links p2(4) by (simp add: links_ok_def len')
  have "pi_parent (st_heap ?s' ! b) = pi_parent (st_heap s ! b)" if "b < ?c" for b
    using parents [of b] par that p2(3) by simp
  moreover have "pi_start (st_heap ?s' ! ?c) = el" using handle_fork_start [OF r] new by (simp add: len)
  ultimately show ?thesis
    using find parents [OF p2(3)] kid pids p2(2,5) ne by (simp add: forked_tree_def len Let_def)
qed

text \<open>C24: for a tree file read so far, ending in a newline, what the tracer appends is parsed back. The lines of the
  times a process waited (wait_lines, for the traced kinds that happened, with finite times) set the process's waits, each
  to the count and to the seconds printed with six decimals, and nothing else; the fork line of a fork stop (on_fork_event,
  of a child that is not running, other than its parent) makes the child a new process, the youngest of the running
  process of the parent's id, started at the stop's time printed with three decimals.\<close>
theorem tree_lines_roundtrip:
  assumes "parse_file bs = Some s" and "bs = [] \<or> last bs = LF"
    and "0 < sint pid" and "in_double q" and "track_ok tk"
    and "event_elapsed p ev = Fin q" and "ev_pid ev = pid" and "unat (ev_message ev) < 2 ^ 32"
    and "child = ucast (ev_message ev)" and "child \<noteq> pid" and "table_find (st_table s) child = None"
  shows "parse_file (bs @ wait_lines p (Fin q) pid tk) =
      Some (case table_find (st_table s) pid of
          None \<Rightarrow> s | Some a \<Rightarrow> s\<lparr>st_heap := (st_heap s)[a := with_waits p tk (st_heap s ! a)]\<rparr>) \<and>
    (\<exists>line ws s'. tr_file (on_fork_event p ev st) = tr_file st @ Fork_Write child line # ws \<and>
       parse_file (bs @ line) = Some s' \<and> forked_tree (printed_value 3 q) pid child s s')"
proof
  show "parse_file (bs @ wait_lines p (Fin q) pid tk) =
      Some (case table_find (st_table s) pid of
          None \<Rightarrow> s | Some a \<Rightarrow> s\<lparr>st_heap := (st_heap s)[a := with_waits p tk (st_heap s ! a)]\<rparr>)"
    using parse_file_append [OF assms(1,2)] wait_lines_read [OF assms(3-5), of p s]
    by (simp add: on_pid_def lookup_pid_found set_node_def split: option.split)
  let ?line = "stamp (Fin q) pid @ ''fork '' @ u_text (ev_message ev) @ newline"
  have c: "atoi (u_text (ev_message ev)) = child"
    using atoi_dec [of "[]", OF _ assms(8)] by (simp add: u_text_def assms(9))
  have "parse_file (bs @ ?line) = Some (handle_fork (printed_value 3 q) pid (u_text (ev_message ev)) s)"
    using parse_file_append [OF assms(1,2)] parse_text_one [OF fork_line_fits [OF assms(3,4)]] fork_line_event [OF assms(3)]
    by simp
  moreover have "forked_tree (printed_value 3 q) pid child s (handle_fork (printed_value 3 q) pid (u_text (ev_message ev)) s)"
    using handle_fork_tree [OF parse_file_refines_spec [OF assms(1)], of "u_text (ev_message ev)" pid] assms(10,11)
    by (simp add: c)
  moreover have "\<exists>ws. tr_file (on_fork_event p ev st) = tr_file st @ Fork_Write child ?line # ws"
    by (simp add: on_fork_event_def Let_def mark_known_def assms(6,7,9) split: prod.splits)
  ultimately show "\<exists>line ws s'. tr_file (on_fork_event p ev st) = tr_file st @ Fork_Write child line # ws \<and>
       parse_file (bs @ line) = Some s' \<and> forked_tree (printed_value 3 q) pid child s s'" by blast
qed

definition sample_track :: syscall_track where
  "sample_track = syscall_track_zero\<lparr>sy_io_read_wait_count := 3, sy_io_read_wait_seconds := Fin 2, sy_poll_count := 1\<rparr>"

definition sample_options :: "unit tracer_config" where
  "sample_options = sample_config\<lparr>px_tree_io_wait := True\<rparr>"

text \<open>After the two lines of the sample, process 5 has waited for three reads and forks process 7.\<close>

lemma tree_lines_roundtrip_witness:
  "\<exists>s line ws s'. parse_file sample_trace = Some s \<and>
     parse_file (sample_trace @ wait_lines sample_options (Fin 0) 5 sample_track) =
       Some (s\<lparr>st_heap := (st_heap s)[0 := with_waits sample_options sample_track (st_heap s ! 0)]\<rparr>) \<and>
     tr_file (on_fork_event sample_options (sample_event 5 0x1057f 7) (loop_start sample_options () coverage_reset ''r'')) =
       tr_file (loop_start sample_options () coverage_reset ''r'') @ Fork_Write 7 line # ws \<and>
     parse_file (sample_trace @ line) = Some s' \<and> forked_tree (printed_value 3 0) 5 7 s s'"
proof -
  obtain s where s: "parse_file sample_trace = Some s" using sample_returns by blast
  have f: "table_find (st_table s) = [5 \<mapsto> 0, 6 \<mapsto> 1]"
    using parse_file_refines_spec [OF s] by (simp add: refines_def implements_def sample_spec)
  have e: "event_elapsed sample_options (sample_event 5 0x1057f 7) = Fin 0"
    by (simp add: event_elapsed_def sample_options_def sample_config_def sample_event_def double_of_int_def dsub_def)
  have t: "sample_trace = [] \<or> last sample_trace = LF" by (simp add: sample_trace_def newline_def LF_def)
  show ?thesis
    using tree_lines_roundtrip [OF s t, of 5 0 sample_track sample_options "sample_event 5 0x1057f 7" 7
      "loop_start sample_options () coverage_reset ''r''"] s e
    by (auto simp: f in_double_def double_limit_def track_ok_def seconds_ok_def sample_track_def syscall_track_zero_def sample_event_def)
qed

end
