(* ===== verification/Affinity.thy ===== *)
theory Affinity
  imports Counter_Model C_Text
begin

text \<open>
  Core and thread affinity (src/affinity.c): cpu lists, the topology read from sysfs, the \<open>--affinity\<close>
  specifications and their resolution. The file system is a parameter, a function from paths to the contents of
  readable files; a \<open>cpu_set_t\<close> is a set of cpu numbers.
\<close>

section \<open>Cpu lists\<close>

definition CPU_SETSIZE :: nat where "CPU_SETSIZE = 1024"

type_synonym cpu_set = "nat set"

text \<open>\<open>CPU_SET\<close> ignores numbers outside the mask.\<close>

definition CPU_SET :: "nat \<Rightarrow> cpu_set \<Rightarrow> cpu_set" where
  "CPU_SET i cs = (if i < CPU_SETSIZE then insert i cs else cs)"

text \<open>The loop from \<open>low\<close> to \<open>high\<close>, after the clamping.\<close>

definition set_range :: "int \<Rightarrow> int \<Rightarrow> int \<Rightarrow> cpu_set \<Rightarrow> cpu_set" where
  "set_range low high ncpus cs =
     fold CPU_SET [nat (max low 0)..<nat (min high (ncpus - 1) + 1)] cs"

text \<open>One item of the list: \<open>None\<close> where the loop breaks.\<close>

definition cpu_item :: "string \<Rightarrow> (int \<times> int \<times> string) option" where
  "cpu_item p =
     (let (low, r) = strtol 10 p in
      if r = p then None
      else if peek r = CHR ''-'' then
        (let (high, r2) = strtol 10 (tl r) in if r2 = tl r then None else Some (low, high, r2))
      else Some (low, low, r))"

definition skip_separator :: "string \<Rightarrow> string" where
  "skip_separator p =
     dropWhile (\<lambda>c. c = CHR '' '' \<or> c = CHR 0x09) (if peek p = CHR '','' then tl p else p)"

lemma strtol_length: "length (snd (strtol b s)) \<le> length s" "snd (strtol b s) \<noteq> s \<Longrightarrow> length (snd (strtol b s)) < length s"
  by (auto simp: strtol_def dest: strto_raw_length split: option.splits)

lemma cpu_item_length: "cpu_item p = Some (low, high, r) \<Longrightarrow> length r < length p"
proof -
  assume a: "cpu_item p = Some (low, high, r)"
  obtain l r1 where 1: "strtol 10 p = (l, r1)" by (cases "strtol 10 p")
  with a have ne: "r1 \<noteq> p" by (auto simp: cpu_item_def)
  then have len: "length r1 < length p" using strtol_length(2) [of 10 p] 1 by simp
  show ?thesis
  proof (cases "peek r1 = CHR ''-''")
    case True
    obtain h r2 where 2: "strtol 10 (tl r1) = (h, r2)" by (cases "strtol 10 (tl r1)")
    then have "r = r2" using a 1 ne True by (auto simp: cpu_item_def split: if_splits)
    then show ?thesis using strtol_length(1) [of 10 "tl r1"] 2 len by simp
  next
    case False
    then show ?thesis using a 1 ne len by (auto simp: cpu_item_def)
  qed
qed

lemma skip_separator_length: "length (skip_separator p) \<le> length p"
proof -
  have "length (dropWhile Q (if peek p = CHR '','' then tl p else p)) \<le> length (if peek p = CHR '','' then tl p else p)" for Q
    by (rule dropWhile_length_le)
  then show ?thesis unfolding skip_separator_def
    by (rule order_trans) simp
qed

function parse_cpu_list_into_set :: "string \<Rightarrow> int \<Rightarrow> cpu_set \<Rightarrow> cpu_set" where
  "parse_cpu_list_into_set p ncpus cs =
     (if p = [] then cs
      else
        (case cpu_item p of
           None \<Rightarrow> cs
         | Some (low, high, r) \<Rightarrow>
             parse_cpu_list_into_set (skip_separator r) ncpus (set_range low high ncpus cs)))"
  by auto
termination
proof (relation "measure (\<lambda>(p, _). length p)", goal_cases)
  case (2 p ncpus cs x low y high r)
  then show ?case using cpu_item_length [of p low high r] skip_separator_length [of r] by simp
qed simp

declare parse_cpu_list_into_set.simps [simp del]

text \<open>The last cpu of the run that starts at \<open>i\<close>.\<close>

function run_end :: "cpu_set \<Rightarrow> nat \<Rightarrow> nat \<Rightarrow> nat" where
  "run_end cs n i = (if i + 1 < n \<and> i + 1 \<in> cs then run_end cs n (i + 1) else i)"
  by auto
termination
  by (relation "measure (\<lambda>(cs, n, i). n - i)") auto

declare run_end.simps [simp del]

lemma run_end_ge: "i \<le> run_end cs n i"
proof (induction cs n i rule: run_end.induct)
  case (1 cs n i)
  then show ?case by (subst run_end.simps) auto
qed

function cpu_runs :: "cpu_set \<Rightarrow> nat \<Rightarrow> nat \<Rightarrow> (nat \<times> nat) list" where
  "cpu_runs cs n i =
     (if n \<le> i then []
      else if i \<notin> cs then cpu_runs cs n (i + 1)
      else (i, run_end cs n i) # cpu_runs cs n (run_end cs n i + 1))"
  by auto
termination
proof (relation "measure (\<lambda>(cs, n, i). n - i)", goal_cases)
  case (3 cs n i)
  then show ?case using run_end_ge [of i cs n] by simp
qed simp_all

declare cpu_runs.simps [simp del]

definition run_text :: "bool \<Rightarrow> nat \<times> nat \<Rightarrow> string" where
  "run_text first r =
     (if first then [] else '','') @ dec (fst r) @ (if fst r = snd r then [] else CHR ''-'' # dec (snd r))"

text \<open>The runs written into what is left of the buffer, after the text \<open>written\<close>.\<close>

fun write_runs :: "nat \<Rightarrow> bool \<Rightarrow> string \<Rightarrow> (nat \<times> nat) list \<Rightarrow> string" where
  "write_runs bufsize first written [] = written"
| "write_runs bufsize first written (r # rs) =
     (let piece = run_text first r; left = bufsize - length written in
      if length piece \<ge> left then
        (if bufsize > length written + 4 then written @ ''...'' else written @ take (left - 1) piece)
      else write_runs bufsize False (written @ piece) rs)"

text \<open>The contents of the buffer afterwards; a buffer of size 0 is not touched.\<close>

definition affinity_format_cpu_set :: "cpu_set \<Rightarrow> nat \<Rightarrow> nat \<Rightarrow> string option" where
  "affinity_format_cpu_set cs ncpus bufsize =
     (if bufsize = 0 then None else Some (write_runs bufsize True [] (cpu_runs cs ncpus 0)))"

section \<open>Files\<close>

type_synonym file_system = "string \<Rightarrow> string option"

definition strip_end :: "string \<Rightarrow> string" where
  "strip_end s = rev (dropWhile (\<lambda>c. c = LF \<or> c = CR \<or> c = CHR '' '') (rev s))"

definition read_line_file :: "file_system \<Rightarrow> string \<Rightarrow> nat \<Rightarrow> string option" where
  "read_line_file fs path bufsize =
     (case fs path of
        None \<Rightarrow> None
      | Some s \<Rightarrow> if s = [] then None else Some (strip_end (cstr (fst (fgets (bufsize - 1) s)))))"

definition read_int_file :: "file_system \<Rightarrow> string \<Rightarrow> int option" where
  "read_int_file fs path = Option.bind (read_line_file fs path 32) scan_d"

definition parse_cache_size_bytes :: "string \<Rightarrow> u64" where
  "parse_cache_size_bytes s =
     (case strtod s of
        None \<Rightarrow> 0
      | Some (val, r) \<Rightarrow>
          (let u = peek (dropWhile (\<lambda>c. c = CHR '' '') r) in
           if u \<in> {CHR ''K'', CHR ''k''} then double_to_ulong (dmul val (Fin 1024))
           else if u \<in> {CHR ''M'', CHR ''m''} then double_to_ulong (dmul (dmul val (Fin 1024)) (Fin 1024))
           else if u \<in> {CHR ''G'', CHR ''g''}
           then double_to_ulong (dmul (dmul (dmul val (Fin 1024)) (Fin 1024)) (Fin 1024))
           else double_to_ulong val))"

definition parse_list :: "string option \<Rightarrow> int \<Rightarrow> cpu_set" where
  "parse_list list ncpus = parse_cpu_list_into_set (case list of None \<Rightarrow> [] | Some l \<Rightarrow> l) ncpus {}"

text \<open>A list that names no cpu stands for the cpu itself.\<close>

definition cpus_or_self :: "nat \<Rightarrow> cpu_set \<Rightarrow> cpu_set" where
  "cpus_or_self i cs = (if cs = {} then CPU_SET i {} else cs)"

section \<open>Topology\<close>

record affinity_cpu_info =
  af_core_id :: int
  af_package_id :: int
  af_is_primary_thread :: bool
  af_l3_domain :: int
  af_core_type :: int

record affinity_l3_domain =
  dm_cpus :: cpu_set
  dm_size_bytes :: u64

record affinity_core_type =
  ty_is_midr :: bool
  ty_implementer :: u32
  ty_part :: u32
  ty_vendor_name :: string
  ty_cpus :: cpu_set

record affinity_topology =
  tp_cpu :: "affinity_cpu_info list"
  tp_l3domains :: "affinity_l3_domain list"
  tp_coretypes :: "affinity_core_type list"

text \<open>What the code uses of \<open>cpu_info->coreinfo\<close>: per logical cpu its class and whether it is available.\<close>

record core_info =
  cr_vendor :: cpu_core_type
  cr_is_available :: bool

definition cpu_path :: "string \<Rightarrow> nat \<Rightarrow> string \<Rightarrow> string" where
  "cpu_path base i rest = take 511 (base @ ''/cpu'' @ dec i @ rest)"

definition fresh_cpu :: affinity_cpu_info where
  "fresh_cpu =
     \<lparr>af_core_id = -1, af_package_id = -1, af_is_primary_thread = True, af_l3_domain = -1, af_core_type = -1\<rparr>"

text \<open>The first loop: identity and SMT siblings of one cpu.\<close>

definition sibling_list :: "file_system \<Rightarrow> string \<Rightarrow> nat \<Rightarrow> string option" where
  "sibling_list fs base i =
     (case read_line_file fs (cpu_path base i ''/topology/thread_siblings_list'') 256 of
        Some l \<Rightarrow> Some l
      | None \<Rightarrow> read_line_file fs (cpu_path base i ''/topology/core_cpus_list'') 256)"

definition siblings :: "file_system \<Rightarrow> string \<Rightarrow> nat \<Rightarrow> nat \<Rightarrow> cpu_set" where
  "siblings fs base n i = cpus_or_self i (parse_list (sibling_list fs base i) (int n))"

definition lowest_sibling :: "cpu_set \<Rightarrow> nat \<Rightarrow> nat \<Rightarrow> nat" where
  "lowest_sibling sib n i = fold (\<lambda>k low. if k \<in> sib \<and> k < low then k else low) [0..<n] i"

definition discover_cpu :: "file_system \<Rightarrow> string \<Rightarrow> nat \<Rightarrow> nat \<Rightarrow> affinity_cpu_info" where
  "discover_cpu fs base n i =
     fresh_cpu
       \<lparr>af_core_id := (case read_int_file fs (cpu_path base i ''/topology/core_id'') of None \<Rightarrow> -1 | Some v \<Rightarrow> v),
        af_package_id :=
          (case read_int_file fs (cpu_path base i ''/topology/physical_package_id'') of None \<Rightarrow> -1 | Some v \<Rightarrow> v),
        af_is_primary_thread := (i = lowest_sibling (siblings fs base n i) n i)\<rparr>"

text \<open>The second loop: the first cache of level 3 among ten makes a domain, and its members are stamped.\<close>

definition cache_path :: "string \<Rightarrow> nat \<Rightarrow> nat \<Rightarrow> string \<Rightarrow> string" where
  "cache_path base i idx name = cpu_path base i (''/cache/index'' @ dec idx @ ''/'' @ name)"

definition l3_index :: "file_system \<Rightarrow> string \<Rightarrow> nat \<Rightarrow> nat option" where
  "l3_index fs base i = find (\<lambda>idx. read_int_file fs (cache_path base i idx ''level'') = Some 3) [0..<10]"

definition l3_domain_of :: "file_system \<Rightarrow> string \<Rightarrow> nat \<Rightarrow> nat \<Rightarrow> nat \<Rightarrow> affinity_l3_domain" where
  "l3_domain_of fs base n i idx =
     \<lparr>dm_cpus = cpus_or_self i (parse_list (read_line_file fs (cache_path base i idx ''shared_cpu_list'') 256) (int n)),
      dm_size_bytes =
        (case read_line_file fs (cache_path base i idx ''size'') 32 of None \<Rightarrow> 0 | Some t \<Rightarrow> parse_cache_size_bytes t)\<rparr>"

definition stamp_domain :: "cpu_set \<Rightarrow> nat \<Rightarrow> affinity_cpu_info list \<Rightarrow> affinity_cpu_info list" where
  "stamp_domain cs d cpus = map (\<lambda>(m, c). if m \<in> cs then c\<lparr>af_l3_domain := int d\<rparr> else c) (enumerate 0 cpus)"

definition discover_l3 :: "file_system \<Rightarrow> string \<Rightarrow> nat \<Rightarrow> nat \<Rightarrow> affinity_topology \<Rightarrow> affinity_topology" where
  "discover_l3 fs base n i t =
     (if af_l3_domain (tp_cpu t ! i) \<noteq> -1 then t
      else
        (case l3_index fs base i of
           None \<Rightarrow> t
         | Some idx \<Rightarrow>
             (let d = l3_domain_of fs base n i idx in
              t\<lparr>tp_l3domains := tp_l3domains t @ [d],
                tp_cpu := stamp_domain (dm_cpus d) (length (tp_l3domains t)) (tp_cpu t)\<rparr>)))"

text \<open>The first place in a list.\<close>

fun find_index :: "('a \<Rightarrow> bool) \<Rightarrow> 'a list \<Rightarrow> nat option" where
  "find_index P [] = None"
| "find_index P (x # xs) = (if P x then Some 0 else map_option Suc (find_index P xs))"

text \<open>Core types: found by a key, or added at the end, and the cpu entered.\<close>

definition set_core_type :: "nat \<Rightarrow> nat \<Rightarrow> affinity_topology \<Rightarrow> affinity_topology" where
  "set_core_type i j t = t\<lparr>tp_cpu := (tp_cpu t)[i := (tp_cpu t ! i)\<lparr>af_core_type := int j\<rparr>]\<rparr>"

definition enter_type ::
  "(affinity_core_type \<Rightarrow> bool) \<Rightarrow> affinity_core_type \<Rightarrow> nat \<Rightarrow> affinity_topology \<Rightarrow> affinity_topology"
where
  "enter_type same new i t =
     (let (j, types) =
        (case find_index same (tp_coretypes t) of
           Some j \<Rightarrow> (j, tp_coretypes t)
         | None \<Rightarrow> (length (tp_coretypes t), tp_coretypes t @ [new]))
      in set_core_type i j (t\<lparr>tp_coretypes := types[j := (types ! j)\<lparr>ty_cpus := CPU_SET i (ty_cpus (types ! j))\<rparr>]\<rparr>))"

definition midr_implementer :: "u64 \<Rightarrow> u32" where
  "midr_implementer midr = ucast (drop_bit 24 midr AND 0xff)"

definition midr_part :: "u64 \<Rightarrow> u32" where
  "midr_part midr = ucast (drop_bit 4 midr AND 0xfff)"

definition discover_midr :: "file_system \<Rightarrow> string \<Rightarrow> nat \<Rightarrow> affinity_topology \<Rightarrow> affinity_topology" where
  "discover_midr fs base i t =
     (case read_line_file fs (cpu_path base i ''/regs/identification/midr_el1'') 32 of
        None \<Rightarrow> t
      | Some text \<Rightarrow>
          (let midr = fst (strtoul 16 text); impl = midr_implementer midr; part = midr_part midr in
           enter_type (\<lambda>c. ty_implementer c = impl \<and> ty_part c = part)
             \<lparr>ty_is_midr = True, ty_implementer = impl, ty_part = part, ty_vendor_name = [], ty_cpus = {}\<rparr> i t))"

definition vendor_name :: "cpu_core_type \<Rightarrow> string option" where
  "vendor_name v =
     (case v of
        CORE_INTEL_ATOM \<Rightarrow> Some ''intel_atom''
      | CORE_INTEL_CORE \<Rightarrow> Some ''intel_core''
      | CORE_AMD_ZEN5 \<Rightarrow> Some ''amd_zen5''
      | CORE_AMD_ZEN5C \<Rightarrow> Some ''amd_zen5c''
      | _ \<Rightarrow> None)"

definition discover_vendor :: "core_info list \<Rightarrow> nat \<Rightarrow> affinity_topology \<Rightarrow> affinity_topology" where
  "discover_vendor cores i t =
     (case vendor_name (cr_vendor (cores ! i)) of
        None \<Rightarrow> t
      | Some name \<Rightarrow>
          enter_type (\<lambda>c. ty_vendor_name c = name)
            \<lparr>ty_is_midr = False, ty_implementer = 0, ty_part = 0, ty_vendor_name = name, ty_cpus = {}\<rparr> i t)"

text \<open>A host with one class only has no core types.\<close>

definition drop_single_type :: "affinity_topology \<Rightarrow> affinity_topology" where
  "drop_single_type t =
     (if length (tp_coretypes t) = 1
      then t\<lparr>tp_coretypes := [], tp_cpu := map (\<lambda>c. c\<lparr>af_core_type := -1\<rparr>) (tp_cpu t)\<rparr> else t)"

definition discover_types ::
  "file_system \<Rightarrow> string \<Rightarrow> nat \<Rightarrow> core_info list option \<Rightarrow> affinity_topology \<Rightarrow> affinity_topology"
where
  "discover_types fs base n cpu_info t =
     (let t1 = fold (discover_midr fs base) [0..<n] t in
      case cpu_info of
        None \<Rightarrow> t1
      | Some cores \<Rightarrow>
          if tp_coretypes t1 \<noteq> [] then t1
          else drop_single_type (fold (discover_vendor cores) [0..<min n (length cores)] t1))"

definition affinity_topology_discover_at ::
  "file_system \<Rightarrow> string \<Rightarrow> nat \<Rightarrow> core_info list option \<Rightarrow> affinity_topology"
where
  "affinity_topology_discover_at fs base n cpu_info =
     discover_types fs base n cpu_info
       (fold (discover_l3 fs base n) [0..<n]
         \<lparr>tp_cpu = map (discover_cpu fs base n) [0..<n], tp_l3domains = [], tp_coretypes = []\<rparr>)"

section \<open>Specifications\<close>

datatype affinity_mode =
  AFFINITY_ALL | AFFINITY_THREAD | AFFINITY_NOSMT | AFFINITY_DOMAIN | AFFINITY_CPUSET | AFFINITY_CORETYPE

definition affinity_mode_name :: "affinity_mode \<Rightarrow> string" where
  "affinity_mode_name mode =
     (case mode of AFFINITY_ALL \<Rightarrow> ''all'' | AFFINITY_THREAD \<Rightarrow> ''thread'' | AFFINITY_NOSMT \<Rightarrow> ''nosmt''
      | AFFINITY_DOMAIN \<Rightarrow> ''domain'' | AFFINITY_CPUSET \<Rightarrow> ''cpuset'' | AFFINITY_CORETYPE \<Rightarrow> ''coretype'')"

record affinity_spec =
  sp_mode :: affinity_mode
  sp_id :: int
  sp_set :: cpu_set

text \<open>The number after the equals sign, cut to 32 bits.\<close>

definition spec_id :: "string \<Rightarrow> int option" where
  "spec_id t =
     (let (v, r) = strtol 10 t in
      if r = t \<or> r \<noteq> [] \<or> v < 0 then None else Some (sint (word_of_int v :: u32)))"

definition id_spec :: "affinity_mode \<Rightarrow> string \<Rightarrow> affinity_spec option" where
  "id_spec mode t = map_option (\<lambda>v. \<lparr>sp_mode = mode, sp_id = v, sp_set = {}\<rparr>) (spec_id t)"

definition affinity_parse_spec :: "string option \<Rightarrow> affinity_spec option" where
  "affinity_parse_spec arg =
     (case arg of
        None \<Rightarrow> None
      | Some a \<Rightarrow>
          if a = [] then None
          else if a = ''all'' then Some \<lparr>sp_mode = AFFINITY_ALL, sp_id = 0, sp_set = {}\<rparr>
          else if a = ''nosmt'' then Some \<lparr>sp_mode = AFFINITY_NOSMT, sp_id = 0, sp_set = {}\<rparr>
          else if starts_with ''thread='' a then id_spec AFFINITY_THREAD (drop 7 a)
          else if starts_with ''domain='' a then id_spec AFFINITY_DOMAIN (drop 7 a)
          else if starts_with ''coretype='' a then id_spec AFFINITY_CORETYPE (drop 9 a)
          else if starts_with ''cpuset='' a then
            (let cs = parse_cpu_list_into_set (drop 7 a) (int CPU_SETSIZE) {} in
             if cs = {} then None else Some \<lparr>sp_mode = AFFINITY_CPUSET, sp_id = 0, sp_set = cs\<rparr>)
          else None)"

section \<open>Resolution\<close>

definition available_cpus :: "core_info list \<Rightarrow> cpu_set" where
  "available_cpus cores =
     fold (\<lambda>i cs. if cr_is_available (cores ! i) then CPU_SET i cs else cs) [0..<length cores] {}"

definition primary_cpus :: "nat \<Rightarrow> affinity_topology \<Rightarrow> cpu_set" where
  "primary_cpus n t =
     fold (\<lambda>i cs. if i < length (tp_cpu t) \<and> af_is_primary_thread (tp_cpu t ! i) then CPU_SET i cs else cs) [0..<n] {}"

definition no_such :: "string \<Rightarrow> string \<Rightarrow> int \<Rightarrow> int \<Rightarrow> string \<Rightarrow> string" where
  "no_such key what v upper hint =
     ''--affinity='' @ key @ ''='' @ dec_int v @ '': no such '' @ what @ '' (valid range 0..'' @ dec_int upper @ '')'' @
     hint @ newline"

text \<open>The cpus a specification asks for, or the message of the error.\<close>

definition requested_cpus ::
  "core_info list \<Rightarrow> affinity_topology \<Rightarrow> affinity_spec \<Rightarrow> string + cpu_set"
where
  "requested_cpus cores t spec =
     (let n = int (length cores); v = sp_id spec; nd = int (length (tp_l3domains t));
          nt = int (length (tp_coretypes t)); hint = '' -- see --list-affinity'' in
      case sp_mode spec of
        AFFINITY_ALL \<Rightarrow> Inr (available_cpus cores)
      | AFFINITY_NOSMT \<Rightarrow> Inr (primary_cpus (length cores) t)
      | AFFINITY_THREAD \<Rightarrow>
          if v < 0 \<or> v \<ge> n then Inl (no_such ''thread'' ''CPU'' v (n - 1) []) else Inr (CPU_SET (nat v) {})
      | AFFINITY_DOMAIN \<Rightarrow>
          if v < 0 \<or> v \<ge> nd then Inl (no_such ''domain'' ''L3 domain'' v (nd - 1) hint)
          else Inr (dm_cpus (tp_l3domains t ! nat v))
      | AFFINITY_CORETYPE \<Rightarrow>
          if v < 0 \<or> v \<ge> nt then Inl (no_such ''coretype'' ''core type'' v (nt - 1) hint)
          else Inr (ty_cpus (tp_coretypes t ! nat v))
      | AFFINITY_CPUSET \<Rightarrow> Inr (sp_set spec))"

definition usable_cpus :: "core_info list \<Rightarrow> cpu_set \<Rightarrow> cpu_set" where
  "usable_cpus cores requested =
     fold (\<lambda>i cs. if i \<in> requested \<and> i \<in> available_cpus cores then CPU_SET i cs else cs) [0..<length cores] {}"

text \<open>The resolved specification with a warning, or the error that is logged with the return value -1.\<close>

definition affinity_resolve ::
  "core_info list \<Rightarrow> affinity_topology \<Rightarrow> affinity_spec \<Rightarrow> string + affinity_spec \<times> string option"
where
  "affinity_resolve cores t spec =
     (case requested_cpus cores t spec of
        Inl e \<Rightarrow> Inl e
      | Inr requested \<Rightarrow>
          (let result = usable_cpus cores requested; name = affinity_mode_name (sp_mode spec) in
           if card result = 0
           then Inl (''--affinity='' @ name @ '': no requested CPU is available to this process'' @ newline)
           else
             Inr (spec\<lparr>sp_set := result\<rparr>,
               if card result < card requested
               then map_option (\<lambda>l. ''--affinity='' @ name @
                   '': some requested CPUs are not available to this process, using '' @ l @ newline)
                 (affinity_format_cpu_set result (length cores) 256)
               else None)))"

section \<open>The report\<close>

definition cpu_row :: "nat \<times> affinity_cpu_info \<Rightarrow> string" where
  "cpu_row x =
     (let c = snd x in
      dec (fst x) @ '','' @ dec_int (af_core_id c) @ '','' @ dec_int (af_package_id c) @ '','' @
      (if af_is_primary_thread c then ''1'' else ''0'') @ '','' @ dec_int (af_l3_domain c) @ '','' @
      dec_int (af_core_type c) @ newline)"

definition list_text :: "cpu_set \<Rightarrow> nat \<Rightarrow> string" where
  "list_text cs n = (case affinity_format_cpu_set cs n 512 of None \<Rightarrow> [] | Some l \<Rightarrow> l)"

definition domain_row :: "nat \<Rightarrow> nat \<times> affinity_l3_domain \<Rightarrow> string" where
  "domain_row n x =
     ''l3domain '' @ dec (fst x) @ '': cpus '' @ list_text (dm_cpus (snd x)) n @ '' ('' @
     fmt_fixed 1 (ddiv (ulong_to_double (dm_size_bytes (snd x))) (Fin (1024 * 1024))) @ '' MiB)'' @ newline"

definition coretype_row :: "nat \<Rightarrow> nat \<times> affinity_core_type \<Rightarrow> string" where
  "coretype_row n x =
     (let c = snd x; l = list_text (ty_cpus c) n in
      if ty_is_midr c then
        ''coretype '' @ dec (fst x) @ '': implementer=0x'' @ pad_left (CHR ''0'') 2 (hex (unat (ty_implementer c))) @
        '' part=0x'' @ pad_left (CHR ''0'') 3 (hex (unat (ty_part c))) @ '' cpus '' @ l @ newline
      else ''coretype '' @ dec (fst x) @ '': vendor='' @ ty_vendor_name c @ '' cpus '' @ l @ newline)"

definition affinity_print_report :: "affinity_topology \<Rightarrow> string" where
  "affinity_print_report t =
     (let n = length (tp_cpu t) in
      ''affinity topology: '' @ dec n @ '' cpu(s), '' @ dec (length (tp_l3domains t)) @ '' L3 domain(s), '' @
      dec (length (tp_coretypes t)) @ '' core type(s) (pass domain=<id>/coretype=<id> to --affinity)'' @ newline @
      ''cpu,core_id,package_id,primary_thread,l3_domain,core_type'' @ newline @
      concat (map cpu_row (enumerate 0 (tp_cpu t))) @
      concat (map (domain_row n) (enumerate 0 (tp_l3domains t))) @
      concat (map (coretype_row n) (enumerate 0 (tp_coretypes t))))"

end
