(* ===== verification/Affinity_Facts.thy ===== *)
theory Affinity_Facts
  imports Affinity
begin

text \<open>
  What src/affinity.c guarantees: a cpu list written is read back, the topology's indices point at entries that
  contain the cpu, one thread per core is primary, and a resolved request is a non-empty part of what was asked
  for that is available.
\<close>

section \<open>Cpu lists\<close>

lemma fold_CPU_SET: "fold CPU_SET xs cs = cs \<union> {i \<in> set xs. i < CPU_SETSIZE}"
  by (induction xs arbitrary: cs) (auto simp: CPU_SET_def)

lemma fold_CPU_SET_if:
  "fold (\<lambda>i cs. if P i then CPU_SET i cs else cs) xs cs = cs \<union> {i \<in> set xs. P i \<and> i < CPU_SETSIZE}"
  by (induction xs arbitrary: cs) (auto simp: CPU_SET_def)

lemma set_range_eq:
  "set_range low high n cs = cs \<union> {i. low \<le> int i \<and> int i \<le> high \<and> int i < n \<and> i < CPU_SETSIZE}"
  by (auto simp: set_range_def fold_CPU_SET nat_less_iff)

lemma parse_cpu_list_bound:
  "parse_cpu_list_into_set p n cs \<subseteq> cs \<union> {i. int i < n \<and> i < CPU_SETSIZE}"
proof (induction p n cs rule: parse_cpu_list_into_set.induct)
  case (1 p n cs)
  show ?case
  proof (cases "p = [] \<or> cpu_item p = None")
    case True
    then show ?thesis by (subst parse_cpu_list_into_set.simps) auto
  next
    case False
    then obtain low high r where i: "cpu_item p = Some (low, high, r)" by auto
    from 1 [OF _ i refl refl] False
    have "parse_cpu_list_into_set (skip_separator r) n (set_range low high n cs) \<subseteq>
        set_range low high n cs \<union> {i. int i < n \<and> i < CPU_SETSIZE}" by blast
    then show ?thesis
      using False i by (subst parse_cpu_list_into_set.simps) (auto simp: set_range_eq)
  qed
qed

lemma parse_cpu_list_Nil [simp]: "parse_cpu_list_into_set [] n cs = cs"
  by (subst parse_cpu_list_into_set.simps) simp

text \<open>One run of a written list.\<close>

definition separated :: "string \<Rightarrow> bool" where
  "separated rest \<longleftrightarrow> rest = [] \<or> (\<exists>t. rest = CHR '','' # t \<and> (t = [] \<or> \<not> is_space (hd t)))"

lemma separated_end: "separated rest \<Longrightarrow> rest = [] \<or> \<not> is_digit (hd rest)"
  by (auto simp: separated_def)

lemma cpu_item_run:
  assumes "separated rest" and "fst r < 2 ^ 63" and "snd r < 2 ^ 63"
  shows "cpu_item (run_text True r @ rest) = Some (int (fst r), int (snd r), rest)"
proof -
  have d: "dec n @ t \<noteq> t" for n t using dec_nonempty [of n] by simp
  show ?thesis
  proof (cases "fst r = snd r")
    case True
    have "strtol 10 (dec (fst r) @ rest) = (int (fst r), rest)"
      by (rule strtol_dec [OF separated_end [OF assms(1)] assms(2)])
    moreover have "peek rest \<noteq> CHR ''-''" using assms(1) by (auto simp: separated_def peek_def NUL_def)
    moreover have "rest \<noteq> dec (fst r) @ rest" using d by metis
    ultimately show ?thesis using True by (simp add: run_text_def cpu_item_def)
  next
    case False
    have "strtol 10 (dec (fst r) @ CHR ''-'' # dec (snd r) @ rest) = (int (fst r), CHR ''-'' # dec (snd r) @ rest)"
      using strtol_dec [of "CHR ''-'' # dec (snd r) @ rest" "fst r"] assms(2) by simp
    moreover have "strtol 10 (dec (snd r) @ rest) = (int (snd r), rest)"
      by (rule strtol_dec [OF separated_end [OF assms(1)] assms(3)])
    moreover have "rest \<noteq> dec (snd r) @ rest" using d by metis
    moreover have "CHR ''-'' # dec (snd r) @ rest \<noteq> dec (fst r) @ CHR ''-'' # dec (snd r) @ rest" using d by metis
    ultimately show ?thesis using False by (simp add: run_text_def cpu_item_def peek_def)
  qed
qed

fun runs_text :: "(nat \<times> nat) list \<Rightarrow> string" where
  "runs_text [] = []"
| "runs_text [r] = run_text True r"
| "runs_text (r # rs) = run_text True r @ CHR '','' # runs_text rs"

lemma run_text_head: "\<exists>c t. run_text True r @ rest = c # t \<and> is_digit c"
  using dec_hd [of "fst r"] by (auto simp: run_text_def)

lemma runs_text_head: "rs \<noteq> [] \<Longrightarrow> \<exists>c t. runs_text rs = c # t \<and> is_digit c"
  using run_text_head by (cases rs rule: runs_text.cases) (auto, metis append.right_neutral)

lemma parse_runs:
  assumes "n \<le> CPU_SETSIZE"
  shows "\<forall>(a, b) \<in> set rs. a \<le> b \<and> b < n \<Longrightarrow>
    parse_cpu_list_into_set (runs_text rs) (int n) cs = cs \<union> (\<Union>(a, b) \<in> set rs. {a..b})"
proof (induction rs arbitrary: cs rule: runs_text.induct)
  case (2 r)
  have b: "fst r \<le> snd r" "snd r < n" using 2 by (auto split: prod.splits)
  have i: "cpu_item (runs_text [r]) = Some (int (fst r), int (snd r), [])"
    using cpu_item_run [of "[]" r] b assms by (simp add: separated_def CPU_SETSIZE_def)
  have ne: "runs_text [r] \<noteq> []" using runs_text_head [of "[r]"] by auto
  show ?case
    using i ne b assms
    by (subst parse_cpu_list_into_set.simps) (auto simp: skip_separator_def peek_def set_range_eq split: prod.splits)
next
  case (3 r r2 rs)
  have b: "fst r \<le> snd r" "snd r < n" using 3(2) by (auto split: prod.splits)
  obtain c t where h: "runs_text (r2 # rs) = c # t" "is_digit c" using runs_text_head [of "r2 # rs"] by auto
  have i: "cpu_item (runs_text (r # r2 # rs)) = Some (int (fst r), int (snd r), CHR '','' # runs_text (r2 # rs))"
    using cpu_item_run [of "CHR '','' # runs_text (r2 # rs)" r] b assms h by (simp add: separated_def CPU_SETSIZE_def)
  have sk: "skip_separator (CHR '','' # runs_text (r2 # rs)) = runs_text (r2 # rs)"
    using h by (auto simp: skip_separator_def peek_def is_digit_def)
  have ne: "runs_text (r # r2 # rs) \<noteq> []" using runs_text_head [of "r # r2 # rs"] by auto
  have "parse_cpu_list_into_set (runs_text (r # r2 # rs)) (int n) cs =
      parse_cpu_list_into_set (runs_text (r2 # rs)) (int n) (set_range (int (fst r)) (int (snd r)) (int n) cs)"
    using i ne by (subst parse_cpu_list_into_set.simps) (simp add: sk del: runs_text.simps)
  also have "\<dots> = set_range (int (fst r)) (int (snd r)) (int n) cs \<union> (\<Union>(a, b) \<in> set (r2 # rs). {a..b})"
    by (rule 3(1)) (use 3(2) in simp)
  also have "set_range (int (fst r)) (int (snd r)) (int n) cs = cs \<union> {fst r..snd r}"
    using b assms by (auto simp: set_range_eq)
  finally show ?case by (auto split: prod.splits)
qed simp

text \<open>The runs of a set are its elements.\<close>

lemma run_end_run:
  "i \<in> cs \<Longrightarrow> i < n \<Longrightarrow> i \<le> run_end cs n i \<and> run_end cs n i < n \<and> {i..run_end cs n i} \<subseteq> cs"
proof (induction cs n i rule: run_end.induct)
  case (1 cs n i)
  show ?case
  proof (cases "i + 1 < n \<and> i + 1 \<in> cs")
    case True
    have e: "run_end cs n i = run_end cs n (i + 1)" using True by (subst run_end.simps) simp
    have "{i..run_end cs n (i + 1)} = insert i {i + 1..run_end cs n (i + 1)}"
      using run_end_ge [of "i + 1" cs n] by (simp add: atLeastAtMost_insertL)
    then show ?thesis using 1(1) [OF True] True 1(2) by (simp add: e)
  next
    case False
    have "run_end cs n i = i" using False by (subst run_end.simps) auto
    then show ?thesis using 1 by simp
  qed
qed

lemma cpu_runs_cover:
  "(\<forall>(a, b) \<in> set (cpu_runs cs n i). a \<le> b \<and> b < n) \<and> (\<Union>(a, b) \<in> set (cpu_runs cs n i). {a..b}) = cs \<inter> {i..<n}"
proof (induction cs n i rule: cpu_runs.induct)
  case (1 cs n i)
  show ?case
  proof (cases "n \<le> i")
    case True
    then show ?thesis by (subst (1 2) cpu_runs.simps) simp
  next
    case n: False
    show ?thesis
    proof (cases "i \<in> cs")
      case False
      have "cpu_runs cs n i = cpu_runs cs n (i + 1)" using n False by (subst cpu_runs.simps) simp
      moreover have "cs \<inter> {i..<n} = cs \<inter> {i + 1..<n}"
        using False by (auto simp: le_less Suc_le_eq)
      ultimately show ?thesis using 1(1) n False by simp
    next
      case True
      let ?e = "run_end cs n i"
      have r: "i \<le> ?e" "?e < n" "{i..?e} \<subseteq> cs" using run_end_run [OF True] n by auto
      have e: "cpu_runs cs n i = (i, ?e) # cpu_runs cs n (?e + 1)" using n True by (subst cpu_runs.simps) simp
      have "cs \<inter> {i..<n} = {i..?e} \<union> cs \<inter> {?e + 1..<n}" using r by auto
      then show ?thesis using 1(2) n True r by (simp add: e)
    qed
  qed
qed

fun rest_text :: "bool \<Rightarrow> (nat \<times> nat) list \<Rightarrow> string" where
  "rest_text first [] = []"
| "rest_text first (r # rs) = run_text first r @ rest_text False rs"

lemma rest_text_runs: "rest_text True rs = runs_text rs" "rest_text False (r # rs) = CHR '','' # runs_text (r # rs)"
proof -
  have f: "rest_text False (r # rs) = CHR '','' # runs_text (r # rs)" for r rs
    by (induction rs arbitrary: r) (simp_all add: run_text_def)
  show "rest_text False (r # rs) = CHR '','' # runs_text (r # rs)" by (rule f)
  show "rest_text True rs = runs_text rs" using f by (cases rs rule: runs_text.cases) simp_all
qed

lemma write_runs_fits:
  "length (written @ rest_text first rs) < bufsize \<Longrightarrow> write_runs bufsize first written rs = written @ rest_text first rs"
  by (induction first rs arbitrary: written rule: rest_text.induct) (auto simp: Let_def)

section \<open>Resolution\<close>

lemma available_cpus_eq: "available_cpus cores = {i. i < length cores \<and> cr_is_available (cores ! i) \<and> i < CPU_SETSIZE}"
  by (auto simp: available_cpus_def fold_CPU_SET_if)

lemma primary_cpus_eq:
  "primary_cpus n t = {i. i < n \<and> i < length (tp_cpu t) \<and> af_is_primary_thread (tp_cpu t ! i) \<and> i < CPU_SETSIZE}"
  by (auto simp: primary_cpus_def fold_CPU_SET_if)

lemma usable_cpus_eq: "usable_cpus cores r = r \<inter> available_cpus cores"
  by (auto simp: usable_cpus_def fold_CPU_SET_if available_cpus_eq)

lemma finite_available: "finite (available_cpus cores)"
  by (simp add: available_cpus_eq)

lemma resolve_Inr:
  assumes "affinity_resolve cores t spec = Inr (spec', w)" and "requested_cpus cores t spec = Inr r" and "finite r"
  shows "spec' = spec\<lparr>sp_set := r \<inter> available_cpus cores\<rparr> \<and> r \<inter> available_cpus cores \<noteq> {} \<and>
    (w = None \<longleftrightarrow> r \<subseteq> available_cpus cores)"
proof -
  let ?u = "r \<inter> available_cpus cores"
  have fin: "finite ?u" using finite_available by simp
  have ne: "card ?u \<noteq> 0" and s: "spec' = spec\<lparr>sp_set := ?u\<rparr>" and w: "w = None \<longleftrightarrow> \<not> card ?u < card r"
    using assms(1,2)
    by (auto simp: affinity_resolve_def usable_cpus_eq Let_def affinity_format_cpu_set_def split: if_splits)
  have "card ?u < card r \<longleftrightarrow> ?u \<noteq> r"
    using card_mono [OF assms(3), of ?u] card_subset_eq [OF assms(3), of ?u] by fastforce
  then show ?thesis using ne s w by auto
qed

section \<open>Primary threads\<close>

lemma lowest_sibling_fold:
  "fold (\<lambda>k low. if k \<in> sib \<and> k < low then k else low) ks (i :: nat) \<in> insert i (sib \<inter> set ks) \<and>
   fold (\<lambda>k low. if k \<in> sib \<and> k < low then k else low) ks i \<le> i \<and>
   (\<forall>k \<in> sib \<inter> set ks. fold (\<lambda>k low. if k \<in> sib \<and> k < low then k else low) ks i \<le> k)"
proof (induction ks arbitrary: i)
  case (Cons k ks)
  from Cons [of k] Cons [of i] show ?case by (auto intro: order_trans less_imp_le)
qed simp

lemma lowest_sibling_Min:
  assumes "i \<in> sib" and "sib \<subseteq> {..<n}"
  shows "lowest_sibling sib n i = Min sib"
proof -
  have "finite sib" using assms(2) finite_subset by blast
  moreover have "sib \<inter> set [0..<n] = sib" using assms(2) by auto
  ultimately show ?thesis
    using lowest_sibling_fold [of sib "[0..<n]" i] assms(1) unfolding lowest_sibling_def
    by (intro Min_eqI [symmetric]) auto
qed

lemma discover_types_primary:
  "map af_is_primary_thread (tp_cpu (discover_types fs base n cpu_info t)) = map af_is_primary_thread (tp_cpu t)"
proof -
  have e: "map af_is_primary_thread (tp_cpu (enter_type P new i t)) = map af_is_primary_thread (tp_cpu t)" for P new i t
    by (cases "i < length (tp_cpu t)")
      (simp_all add: enter_type_def set_core_type_def Let_def map_update list_update_same_conv list_update_beyond split: option.split)
  have m: "map af_is_primary_thread (tp_cpu (fold (discover_midr fs base) ks t)) = map af_is_primary_thread (tp_cpu t)" for ks t
    by (induction ks arbitrary: t) (simp_all add: discover_midr_def e Let_def split: option.split)
  have v: "map af_is_primary_thread (tp_cpu (fold (discover_vendor cores) ks t)) = map af_is_primary_thread (tp_cpu t)"
    for cores ks t
    by (induction ks arbitrary: t) (simp_all add: discover_vendor_def e split: option.split)
  show ?thesis
    by (simp add: discover_types_def Let_def m v drop_single_type_def comp_def split: option.split)
qed

lemma stamp_domain_nth:
  "m < length cpus \<Longrightarrow>
   stamp_domain cs d cpus ! m = (if m \<in> cs then (cpus ! m)\<lparr>af_l3_domain := int d\<rparr> else cpus ! m)"
  by (simp add: stamp_domain_def nth_enumerate_eq)

lemma stamp_domain_length [simp]: "length (stamp_domain cs d cpus) = length cpus"
  by (simp add: stamp_domain_def)

lemma discover_l3_primary:
  "map af_is_primary_thread (tp_cpu (fold (discover_l3 fs base n) ks t)) = map af_is_primary_thread (tp_cpu t)"
proof (induction ks arbitrary: t)
  case (Cons k ks)
  have "map af_is_primary_thread (stamp_domain cs d cpus) = map af_is_primary_thread cpus" for cs d cpus
    by (rule nth_equalityI) (simp_all add: stamp_domain_nth)
  then have "map af_is_primary_thread (tp_cpu (discover_l3 fs base n k t)) = map af_is_primary_thread (tp_cpu t)"
    by (simp add: discover_l3_def Let_def split: option.split)
  with Cons show ?case by simp
qed simp

lemma discovered_primary:
  assumes "i < n"
  shows "length (tp_cpu (affinity_topology_discover_at fs base n cpu_info)) = n"
    and "af_is_primary_thread (tp_cpu (affinity_topology_discover_at fs base n cpu_info) ! i) \<longleftrightarrow>
      i = lowest_sibling (siblings fs base n i) n i"
proof -
  have m: "map af_is_primary_thread (tp_cpu (affinity_topology_discover_at fs base n cpu_info)) =
      map (\<lambda>i. i = lowest_sibling (siblings fs base n i) n i) [0..<n]"
    by (simp add: affinity_topology_discover_at_def discover_types_primary discover_l3_primary comp_def
        discover_cpu_def)
  show l: "length (tp_cpu (affinity_topology_discover_at fs base n cpu_info)) = n"
    using arg_cong [OF m, of length] by simp
  show "af_is_primary_thread (tp_cpu (affinity_topology_discover_at fs base n cpu_info) ! i) \<longleftrightarrow>
      i = lowest_sibling (siblings fs base n i) n i"
    using arg_cong [OF m, of "\<lambda>xs. xs ! i"] assms l by simp
qed

section \<open>Well-formed topologies\<close>

definition domains_ok :: "nat \<Rightarrow> affinity_topology \<Rightarrow> bool" where
  "domains_ok n t \<longleftrightarrow>
     (\<forall>d \<in> set (tp_l3domains t). dm_cpus d \<subseteq> {..<n} \<and> dm_cpus d \<noteq> {}) \<and>
     (\<forall>m < n. let d = af_l3_domain (tp_cpu t ! m) in
        d = -1 \<or> 0 \<le> d \<and> d < int (length (tp_l3domains t)) \<and> m \<in> dm_cpus (tp_l3domains t ! nat d))"

definition types_ok :: "nat \<Rightarrow> affinity_topology \<Rightarrow> bool" where
  "types_ok n t \<longleftrightarrow>
     (\<forall>c \<in> set (tp_coretypes t). ty_cpus c \<subseteq> {..<n} \<and> ty_cpus c \<noteq> {}) \<and>
     (\<forall>m < n. let c = af_core_type (tp_cpu t ! m) in
        c = -1 \<or> 0 \<le> c \<and> c < int (length (tp_coretypes t)) \<and> m \<in> ty_cpus (tp_coretypes t ! nat c))"

definition topology_ok :: "nat \<Rightarrow> affinity_topology \<Rightarrow> bool" where
  "topology_ok n t \<longleftrightarrow> length (tp_cpu t) = n \<and> domains_ok n t \<and> types_ok n t"

lemma cpus_or_self_ok:
  assumes "i < n" and "n \<le> CPU_SETSIZE"
  shows "cpus_or_self i (parse_list l (int n)) \<subseteq> {..<n} \<and> cpus_or_self i (parse_list l (int n)) \<noteq> {}"
proof -
  have "parse_list l (int n) \<subseteq> {..<n}"
    using parse_cpu_list_bound [of _ "int n" "{}"] by (force simp: parse_list_def)
  then show ?thesis using assms by (auto simp: cpus_or_self_def CPU_SET_def)
qed

lemma discover_l3_ok:
  assumes "topology_ok n t" and "i < n" and "n \<le> CPU_SETSIZE"
  shows "topology_ok n (discover_l3 fs base n i t)"
proof (cases "af_l3_domain (tp_cpu t ! i) \<noteq> -1 \<or> l3_index fs base i = None")
  case True
  then show ?thesis using assms(1) by (auto simp: discover_l3_def)
next
  case False
  then obtain idx where idx: "l3_index fs base i = Some idx" by auto
  let ?d = "l3_domain_of fs base n i idx" and ?k = "length (tp_l3domains t)"
  have e: "discover_l3 fs base n i t =
      t\<lparr>tp_l3domains := tp_l3domains t @ [?d], tp_cpu := stamp_domain (dm_cpus ?d) ?k (tp_cpu t)\<rparr>"
    using False idx by (simp add: discover_l3_def Let_def)
  have d: "dm_cpus ?d \<subseteq> {..<n} \<and> dm_cpus ?d \<noteq> {}"
    using cpus_or_self_ok [OF assms(2,3)] by (simp add: l3_domain_of_def)
  have len: "length (tp_cpu t) = n" and dom: "domains_ok n t" and ty: "types_ok n t"
    using assms(1) by (simp_all add: topology_ok_def)
  have "domains_ok n (discover_l3 fs base n i t)"
    using d dom len by (auto simp: e domains_ok_def stamp_domain_nth nth_append Let_def)
  moreover have "types_ok n (discover_l3 fs base n i t)"
    using ty len by (auto simp: e types_ok_def stamp_domain_nth Let_def)
  ultimately show ?thesis using len by (simp add: topology_ok_def e)
qed

lemma find_index_Some: "find_index P xs = Some j \<Longrightarrow> j < length xs \<and> P (xs ! j)"
  by (induction P xs arbitrary: j rule: find_index.induct) (auto split: if_splits)

lemma enter_type_ok:
  assumes "topology_ok n t" and "i < n" and "n \<le> CPU_SETSIZE" and "ty_cpus new = {}"
  shows "topology_ok n (enter_type same new i t)"
proof -
  have len: "length (tp_cpu t) = n" and dom: "domains_ok n t" and ty: "types_ok n t"
    using assms(1) by (simp_all add: topology_ok_def)
  obtain j types where jt: "j < length types" "enter_type same new i t =
      set_core_type i j (t\<lparr>tp_coretypes := types[j := (types ! j)\<lparr>ty_cpus := insert i (ty_cpus (types ! j))\<rparr>]\<rparr>)"
    and sub: "\<forall>k < length (tp_coretypes t). k < length types \<and> ty_cpus (types ! k) = ty_cpus (tp_coretypes t ! k)"
    and all: "\<forall>k < length types. ty_cpus (types ! k) \<subseteq> {..<n} \<and> (k \<noteq> j \<longrightarrow> ty_cpus (types ! k) \<noteq> {})"
  proof (cases "find_index same (tp_coretypes t)")
    case None
    show thesis
    proof (rule that [of "length (tp_coretypes t)" "tp_coretypes t @ [new]"])
      show "\<forall>k < length (tp_coretypes t @ [new]). ty_cpus ((tp_coretypes t @ [new]) ! k) \<subseteq> {..<n} \<and>
          (k \<noteq> length (tp_coretypes t) \<longrightarrow> ty_cpus ((tp_coretypes t @ [new]) ! k) \<noteq> {})"
        using ty assms(4) by (auto simp: types_ok_def nth_append less_Suc_eq)
    qed (use None assms(2,3) in \<open>auto simp: enter_type_def CPU_SET_def nth_append\<close>)
  next
    case (Some j)
    show thesis
    proof (rule that [of j "tp_coretypes t"])
      show "\<forall>k < length (tp_coretypes t). ty_cpus (tp_coretypes t ! k) \<subseteq> {..<n} \<and>
          (k \<noteq> j \<longrightarrow> ty_cpus (tp_coretypes t ! k) \<noteq> {})"
        using ty by (auto simp: types_ok_def)
    qed (use Some assms(2,3) find_index_Some [OF Some] in \<open>auto simp: enter_type_def CPU_SET_def\<close>)
  qed
  have ctype: "af_core_type (tp_cpu (enter_type same new i t) ! m) =
      (if m = i then int j else af_core_type (tp_cpu t ! m))" if "m < n" for m
    using that len by (simp add: jt(2) set_core_type_def nth_list_update)
  have l3: "af_l3_domain (tp_cpu (enter_type same new i t) ! m) = af_l3_domain (tp_cpu t ! m)" if "m < n" for m
    using that len by (cases "m = i") (simp_all add: jt(2) set_core_type_def)
  have types: "tp_coretypes (enter_type same new i t) = types[j := (types ! j)\<lparr>ty_cpus := insert i (ty_cpus (types ! j))\<rparr>]"
    and doms: "tp_l3domains (enter_type same new i t) = tp_l3domains t"
    and len': "length (tp_cpu (enter_type same new i t)) = n"
    using len by (simp_all add: jt(2) set_core_type_def)
  have cpus: "ty_cpus (tp_coretypes (enter_type same new i t) ! k) =
      (if k = j then insert i (ty_cpus (types ! k)) else ty_cpus (types ! k))" if "k < length types" for k
    using that by (simp add: types nth_list_update)
  have "domains_ok n (enter_type same new i t)"
    using dom l3 by (simp add: domains_ok_def doms Let_def)
  moreover have "types_ok n (enter_type same new i t)"
    unfolding types_ok_def
  proof (intro conjI ballI allI impI)
    fix c assume "c \<in> set (tp_coretypes (enter_type same new i t))"
    then obtain k where "k < length types" "c = tp_coretypes (enter_type same new i t) ! k"
      by (auto simp: in_set_conv_nth types)
    then show "ty_cpus c \<subseteq> {..<n}" "ty_cpus c \<noteq> {}" using cpus [of k] all assms(2) by (auto split: if_splits)
  next
    fix m assume m: "m < n"
    show "let c = af_core_type (tp_cpu (enter_type same new i t) ! m) in
        c = -1 \<or> 0 \<le> c \<and> c < int (length (tp_coretypes (enter_type same new i t))) \<and>
        m \<in> ty_cpus (tp_coretypes (enter_type same new i t) ! nat c)"
    proof (cases "m = i")
      case True
      then show ?thesis using ctype [OF m] jt(1) cpus [OF jt(1)] by (simp add: types)
    next
      case False
      have "let c = af_core_type (tp_cpu t ! m) in
        c = -1 \<or> 0 \<le> c \<and> c < int (length (tp_coretypes t)) \<and> m \<in> ty_cpus (tp_coretypes t ! nat c)"
        using ty m by (simp add: types_ok_def)
      moreover have "length (tp_coretypes t) \<le> length types" using sub by (meson le_less_linear less_irrefl)
      ultimately show ?thesis
        using ctype [OF m] False sub cpus [of "nat (af_core_type (tp_cpu t ! m))"] types
        by (auto simp: Let_def nat_less_iff split: if_splits)
    qed
  qed
  ultimately show ?thesis by (simp add: topology_ok_def len')
qed

lemma fold_topology_ok:
  "topology_ok n t \<Longrightarrow> \<forall>i \<in> set ks. \<forall>t. topology_ok n t \<longrightarrow> topology_ok n (f i t) \<Longrightarrow> topology_ok n (fold f ks t)"
  by (induction ks arbitrary: t) auto

lemma drop_single_type_ok: "topology_ok n t \<Longrightarrow> topology_ok n (drop_single_type t)"
  by (auto simp: drop_single_type_def topology_ok_def domains_ok_def types_ok_def Let_def)

lemma discover_ok:
  assumes "n \<le> CPU_SETSIZE"
  shows "topology_ok n (affinity_topology_discover_at fs base n cpu_info)"
proof -
  have start: "topology_ok n \<lparr>tp_cpu = map (discover_cpu fs base n) [0..<n], tp_l3domains = [], tp_coretypes = []\<rparr>"
    by (auto simp: topology_ok_def domains_ok_def types_ok_def discover_cpu_def fresh_cpu_def)
  have midr: "topology_ok n (discover_midr fs base i t)" if "topology_ok n t" "i < n" for i t
    using that enter_type_ok [OF that assms] by (simp add: discover_midr_def Let_def split: option.split)
  have vendor: "topology_ok n (discover_vendor cores i t)" if "topology_ok n t" "i < n" for cores i t
    using that enter_type_ok [OF that assms] by (simp add: discover_vendor_def split: option.split)
  have types: "topology_ok n (discover_types fs base n cpu_info t)" if t: "topology_ok n t" for t
  proof -
    have m: "topology_ok n (fold (discover_midr fs base) [0..<n] t)"
      using midr by (intro fold_topology_ok t) simp
    have "topology_ok n (fold (discover_vendor cores) [0..<min n (length cores)] (fold (discover_midr fs base) [0..<n] t))" for cores
      using vendor by (intro fold_topology_ok m) simp
    with m show ?thesis by (simp add: discover_types_def Let_def drop_single_type_ok split: option.split)
  qed
  have "topology_ok n (fold (discover_l3 fs base n) [0..<n]
      \<lparr>tp_cpu = map (discover_cpu fs base n) [0..<n], tp_l3domains = [], tp_coretypes = []\<rparr>)"
    using discover_l3_ok assms by (intro fold_topology_ok start) simp
  then show ?thesis unfolding affinity_topology_discover_at_def by (rule types)
qed

section \<open>Properties\<close>

text \<open>C37: a set of cpus written as a list is read back as that set, whenever the list fits the buffer.\<close>
theorem cpu_list_roundtrip:
  assumes "cs \<subseteq> {..<n}" and "n \<le> CPU_SETSIZE" and "length (runs_text (cpu_runs cs n 0)) < bufsize"
  shows "\<exists>text. affinity_format_cpu_set cs n bufsize = Some text \<and> parse_cpu_list_into_set text (int n) {} = cs"
proof -
  have "affinity_format_cpu_set cs n bufsize = Some (runs_text (cpu_runs cs n 0))"
    using write_runs_fits [of "[]" True "cpu_runs cs n 0" bufsize] assms(3)
    by (auto simp: affinity_format_cpu_set_def rest_text_runs)
  moreover have "parse_cpu_list_into_set (runs_text (cpu_runs cs n 0)) (int n) {} = cs"
    using parse_runs [OF assms(2), of "cpu_runs cs n 0" "{}"] cpu_runs_cover [of cs n 0] assms(1) by auto
  ultimately show ?thesis by blast
qed

lemma sample_runs: "cpu_runs {0, 2, 3, 7} 8 0 = [(0, 0), (2, 3), (7, 7)]"
  by (simp add: cpu_runs.simps run_end.simps)

lemma cpu_list_roundtrip_witness:
  "\<exists>text. affinity_format_cpu_set {0, 2, 3, 7} 8 64 = Some text \<and> parse_cpu_list_into_set text 8 {} = {0, 2, 3, 7}"
proof -
  have "length (runs_text (cpu_runs {0, 2, 3, 7} 8 0)) < 64"
    by (simp add: sample_runs run_text_def dec_def digits_in.simps)
  then show ?thesis
    using cpu_list_roundtrip [of "{0, 2, 3, 7}" 8 64] by (simp add: CPU_SETSIZE_def)
qed

text \<open>C38: whatever sysfs holds, the discovered topology has one entry per cpu; a cpu's domain and core type are
  \<open>-1\<close> or the index of an entry that contains the cpu, and no domain or core type is empty or names a cpu that
  does not exist.\<close>
theorem discovered_topology_ok:
  assumes "n \<le> CPU_SETSIZE"
  shows "topology_ok n (affinity_topology_discover_at fs base n cpu_info)"
  using assms by (rule discover_ok)

lemma discovered_topology_ok_witness:
  "topology_ok 4 (affinity_topology_discover_at (\<lambda>_. Some ''0-3'') ''/sys'' 4 None)"
  by (rule discovered_topology_ok) (simp add: CPU_SETSIZE_def)

text \<open>C39: if the sibling lists of sysfs divide the cpus into cores, \<open>nosmt\<close> asks for exactly one cpu of every
  core, its lowest.\<close>
theorem nosmt_one_per_core:
  assumes "n \<le> CPU_SETSIZE" and "i < n"
    and "\<forall>j < n. j \<in> siblings fs base n j \<and> (\<forall>k \<in> siblings fs base n j. siblings fs base n k = siblings fs base n j)"
  shows "primary_cpus n (affinity_topology_discover_at fs base n cpu_info) \<inter> siblings fs base n i =
    {Min (siblings fs base n i)}"
proof -
  let ?sib = "siblings fs base n" and ?t = "affinity_topology_discover_at fs base n cpu_info"
  have sub: "?sib j \<subseteq> {..<n}" if "j < n" for j
    using cpus_or_self_ok [OF that assms(1)] by (simp add: siblings_def)
  have low: "lowest_sibling (?sib j) n j = Min (?sib j)" if "j < n" for j
    using lowest_sibling_Min [OF _ sub] that assms(3) by blast
  have prim: "j \<in> primary_cpus n ?t \<longleftrightarrow> j < n \<and> j = Min (?sib j)" for j
    using discovered_primary [of j n fs base cpu_info] low [of j] assms(1)
    by (auto simp: primary_cpus_eq)
  have fin: "finite (?sib i)" "?sib i \<noteq> {}" using sub [OF assms(2)] finite_subset assms(2,3) by blast+
  then have m: "Min (?sib i) \<in> ?sib i" by simp
  show ?thesis
  proof (intro set_eqI iffI)
    fix j assume "j \<in> primary_cpus n ?t \<inter> ?sib i"
    moreover from this have "?sib j = ?sib i" using assms(2,3) by blast
    ultimately show "j \<in> {Min (?sib i)}" using prim by simp
  next
    fix j assume "j \<in> {Min (?sib i)}"
    moreover have "Min (?sib i) < n" using m sub [OF assms(2)] by blast
    moreover have "?sib (Min (?sib i)) = ?sib i" using m assms(2,3) by blast
    ultimately show "j \<in> primary_cpus n ?t \<inter> ?sib i" using prim m by simp
  qed
qed

text \<open>A host with two threads of one core.\<close>

definition sample_files :: file_system where
  "sample_files path = Some ''0-1''"

lemma dec_digit: "dec 0 = ''0''" "dec (Suc 0) = ''1''" "dec 12 = ''12''"
  by (simp_all add: dec_def digits_in.simps digit_char_def char_of_def bit_iff_odd)

lemma sample_list: "parse_cpu_list_into_set ''0-1'' 2 {} = {0, 1}"
proof -
  have t: "runs_text [(0, 1)] = ''0-1''" by (simp add: run_text_def dec_digit)
  have "parse_cpu_list_into_set (runs_text [(0, 1)]) (int 2) {} = {} \<union> (\<Union>(a, b) \<in> set [(0, 1)]. {a..b})"
    by (rule parse_runs) (simp_all add: CPU_SETSIZE_def)
  also have "\<dots> = {0, 1}" by auto
  finally show ?thesis unfolding t by simp
qed

lemma sample_siblings: "siblings sample_files base 2 i = {0, 1}"
proof -
  have "fgets 255 ''0-1'' = (''0-1'', [])"
    by (rule fgets_short) (simp_all add: LF_def)
  then have "read_line_file sample_files path 256 = Some ''0-1''" for path
    by (simp add: read_line_file_def sample_files_def strip_end_def cstr_def NUL_def LF_def CR_def)
  then show ?thesis
    by (simp add: siblings_def sibling_list_def parse_list_def sample_list cpus_or_self_def)
qed

lemma nosmt_one_per_core_witness:
  "primary_cpus 2 (affinity_topology_discover_at sample_files ''/sys'' 2 None) \<inter> siblings sample_files ''/sys'' 2 1 =
     {Min {0, 1}}"
proof -
  have "\<forall>j < 2. j \<in> siblings sample_files ''/sys'' 2 j \<and>
      (\<forall>k \<in> siblings sample_files ''/sys'' 2 j. siblings sample_files ''/sys'' 2 k = siblings sample_files ''/sys'' 2 j)"
    unfolding sample_siblings by (auto dest: less_2_cases)
  from nosmt_one_per_core [OF _ _ this, of 1 None] show ?thesis by (simp add: sample_siblings CPU_SETSIZE_def)
qed

text \<open>A request that is resolved is pinned to the cpus that were asked for and are available, never to none,
  with a warning exactly when some of them are not available.\<close>
theorem affinity_resolve_available:
  assumes "affinity_resolve cores t spec = Inr (spec', w)" and "requested_cpus cores t spec = Inr r" and "finite r"
  shows "sp_set spec' = r \<inter> available_cpus cores \<and> sp_set spec' \<noteq> {} \<and>
    sp_mode spec' = sp_mode spec \<and> (w = None \<longleftrightarrow> r \<subseteq> available_cpus cores)"
  using resolve_Inr [OF assms] by simp

lemma affinity_resolve_available_witness:
  "\<exists>spec' w. affinity_resolve [\<lparr>cr_vendor = CORE_AMD_ZEN, cr_is_available = False\<rparr>, \<lparr>cr_vendor = CORE_AMD_ZEN, cr_is_available = True\<rparr>]
       \<lparr>tp_cpu = [], tp_l3domains = [], tp_coretypes = []\<rparr> \<lparr>sp_mode = AFFINITY_CPUSET, sp_id = 0, sp_set = {0, 1}\<rparr> =
       Inr (spec', w) \<and> sp_set spec' = {1} \<and> w \<noteq> None"
proof -
  let ?cores = "[\<lparr>cr_vendor = CORE_AMD_ZEN, cr_is_available = False\<rparr>, \<lparr>cr_vendor = CORE_AMD_ZEN, cr_is_available = True\<rparr>]"
  let ?t = "\<lparr>tp_cpu = [], tp_l3domains = [], tp_coretypes = []\<rparr>"
  let ?spec = "\<lparr>sp_mode = AFFINITY_CPUSET, sp_id = 0, sp_set = {0, 1}\<rparr>"
  have a: "available_cpus ?cores = {1}"
    by (auto simp: available_cpus_eq CPU_SETSIZE_def less_Suc_eq)
  have r: "requested_cpus ?cores ?t ?spec = Inr {0, 1}" by (simp add: requested_cpus_def)
  have "\<exists>spec' w. affinity_resolve ?cores ?t ?spec = Inr (spec', w)"
    unfolding affinity_resolve_def r by (simp add: usable_cpus_eq a Let_def)
  then obtain spec' w where s: "affinity_resolve ?cores ?t ?spec = Inr (spec', w)" by blast
  show ?thesis using affinity_resolve_available [OF s r] s by (simp add: a)
qed

section \<open>Where the code and its comments part\<close>

text \<open>The number of a specification is cut to 32 bits, so a thread that cannot exist is taken for thread 0.\<close>

lemma thread_id_wraps:
  "affinity_parse_spec (Some (''thread='' @ dec (2 ^ 32))) = Some \<lparr>sp_mode = AFFINITY_THREAD, sp_id = 0, sp_set = {}\<rparr>"
proof -
  have "strtol 10 (dec (2 ^ 32)) = (2 ^ 32, [])" using strtol_dec [of "[]" "2 ^ 32"] by simp
  moreover have "[] \<noteq> dec 4294967296" using dec_nonempty [of 4294967296] by (rule not_sym)
  ultimately show ?thesis by (simp add: affinity_parse_spec_def id_spec_def spec_id_def)
qed

text \<open>A list cut at fewer than five free bytes ends without the dots, here after the first digit of a number.\<close>

lemma short_list_without_dots: "affinity_format_cpu_set {0, 12} 13 4 = Some ''0,1''"
proof -
  have r: "cpu_runs {0, 12} 13 0 = [(0, 0), (12, 12)]" by (simp add: cpu_runs.simps run_end.simps)
  show ?thesis
    by (simp add: affinity_format_cpu_set_def r run_text_def dec_digit Let_def)
qed

text \<open>A host whose cpus all report one \<open>MIDR\<close> gets one core type: only the fallback for x86 drops a single
  one.\<close>

lemma uniform_midr_keeps_type:
  "length (tp_coretypes (affinity_topology_discover_at (\<lambda>_. Some ''41'') ''/sys'' 1 None)) = 1"
  by (simp add: affinity_topology_discover_at_def discover_types_def discover_midr_def enter_type_def set_core_type_def
      read_line_file_def discover_l3_def Let_def split: option.split)

end
