(* ===== verification/Sysfs.thy ===== *)
theory Sysfs
  imports Counter_Model C_Text C_Qsort
begin

text \<open>
  The part of the file system that the probes of src/ibs.c, src/power.c and src/cgroup.c read: the contents of
  readable files, the entries of directories in the order \<open>readdir\<close> gives them, and which paths exist. With it
  the helpers that both probes repeat: the first line of a file, the files of a directory, and the bit range
  of a format field.
\<close>

record sysfs =
  fs_file :: "string \<Rightarrow> string option"
  fs_dir :: "string \<Rightarrow> string list option"
  fs_exists :: "string \<Rightarrow> bool"

definition strip_newline :: "string \<Rightarrow> string" where
  "strip_newline s = rev (dropWhile (\<lambda>c. c = LF \<or> c = CR) (rev s))"

definition read_sysfs_line :: "sysfs \<Rightarrow> string \<Rightarrow> nat \<Rightarrow> string option" where
  "read_sysfs_line fs path bufsize =
     (case fs_file fs path of
        None \<Rightarrow> None
      | Some s \<Rightarrow> if s = [] then None else Some (strip_newline (cstr (fst (fgets (bufsize - 1) s)))))"

text \<open>The entries of a directory that do not start with a dot and whose first line can be read, as long as there is
  room, with the names cut to 31 bytes.\<close>

definition scan_files :: "sysfs \<Rightarrow> string \<Rightarrow> nat \<Rightarrow> (string \<times> string) list" where
  "scan_files fs dir_path capacity =
     (case fs_dir fs dir_path of
        None \<Rightarrow> []
      | Some names \<Rightarrow>
          take capacity
            (List.map_filter (\<lambda>d. if peek d = CHR ''.'' then None
               else map_option (\<lambda>line. (take 31 d, line))
                 (read_sysfs_line fs (take 699 (dir_path @ ''/'' @ d)) 64)) names))"

section \<open>Bit ranges\<close>

text \<open>\<open>%d\<close> with the text after it.\<close>

definition scan_d_rest :: "string \<Rightarrow> (int \<times> string) option" where
  "scan_d_rest s = map_option (\<lambda>(_, _, r). (sint (atoi s), r)) (strto_raw 10 s)"

text \<open>\<open>"%d-%d"\<close>, else \<open>"%d"\<close> for both ends.\<close>

definition scan_range :: "string \<Rightarrow> (int \<times> int) option" where
  "scan_range s =
     (case scan_d_rest s of
        None \<Rightarrow> None
      | Some (lo, r) \<Rightarrow>
          (case (if peek r = CHR ''-'' then scan_d_rest (tl r) else None) of
             Some (hi, _) \<Rightarrow> Some (lo, hi)
           | None \<Rightarrow> Some (lo, lo)))"

text \<open>A shift by a variable count. C leaves counts outside 0 to 63 undefined; the shift instruction of x86, where
  these units exist, takes the count modulo 64.\<close>

definition shl64 :: "u64 \<Rightarrow> int \<Rightarrow> u64" where
  "shl64 w n = push_bit (nat (n mod 64)) w"

definition field_mask :: "int \<Rightarrow> int \<Rightarrow> u64" where
  "field_mask lo hi =
     (if hi \<ge> 63 then shl64 (NOT 0) lo else shl64 (shl64 1 (hi - lo + 1) - 1) lo)"

lemma bit_field_mask:
  assumes "0 \<le> lo" and "lo \<le> hi" and "hi \<le> 63"
  shows "bit (field_mask lo hi) i \<longleftrightarrow> nat lo \<le> i \<and> i \<le> nat hi"
proof (cases "hi = 63")
  case True
  then show ?thesis using assms by (auto simp: field_mask_def shl64_def bit_simps)
next
  case False
  let ?w = "nat (hi - lo + 1)"
  have w: "nat ((hi - lo + 1) mod 64) = ?w" "nat (lo mod 64) = nat lo" using assms False by simp_all
  have "bit (field_mask lo hi) i \<longleftrightarrow> bit (push_bit (nat lo) (mask ?w :: u64)) i"
    using False assms(3) by (simp add: field_mask_def shl64_def w mask_eq_exp_minus_1)
  also have "\<dots> \<longleftrightarrow> nat lo \<le> i \<and> i < 64 \<and> i - nat lo < ?w"
    by (auto simp: bit_simps)
  also have "\<dots> \<longleftrightarrow> nat lo \<le> i \<and> i \<le> nat hi" using assms False by linarith
  finally show ?thesis .
qed

lemma bit_shl64: "0 \<le> n \<Longrightarrow> n \<le> 63 \<Longrightarrow> bit (shl64 w n) i \<longleftrightarrow> nat n \<le> i \<and> i < 64 \<and> bit w (i - nat n)"
  by (auto simp: shl64_def bit_simps)

section \<open>Sorting by name\<close>

lemma strcmp_le: "strcmp s t \<le> 0 \<longleftrightarrow> s = t \<or> strcmp_lt s t"
  by (simp add: strcmp_def)

end
