(* ===== verification/Ibs_Probe.thy ===== *)
theory Ibs_Probe
  imports Sysfs Counter_Groups
begin

text \<open>
  AMD IBS discovery and event construction (src/ibs.c): the format fields and capabilities of the two units, the
  placing of a filter's value into the configuration words, and the counter group of a collection profile.
\<close>

section \<open>Data\<close>

definition IBS_MAX_FORMAT_FIELDS :: nat where "IBS_MAX_FORMAT_FIELDS = 16"
definition IBS_MAX_CAPS :: nat where "IBS_MAX_CAPS = 16"
definition IBS_DEFAULT_MAXCNT :: u32 where "IBS_DEFAULT_MAXCNT = 0x1000"
definition IBS_DEFAULT_LDLAT_THRESHOLD :: u32 where "IBS_DEFAULT_LDLAT_THRESHOLD = 128"
definition IBS_DEFAULT_FETCHLAT_THRESHOLD :: u32 where "IBS_DEFAULT_FETCHLAT_THRESHOLD = 120"

record ibs_format_field =
  ff_name :: string
  ff_location :: string

record ibs_cap =
  cp_name :: string
  cp_enabled :: u32

record ibs_pmu =
  ip_present :: bool
  ip_type :: u32
  ip_format :: "ibs_format_field list"
  ip_caps :: "ibs_cap list"

record ibs_capabilities =
  ic_supported :: bool
  ic_fetch :: ibs_pmu
  ic_op :: ibs_pmu

datatype ibs_profile = IBS_PROFILE_NONE | IBS_PROFILE_BASIC | IBS_PROFILE_MEMORY_DEEP

record ibs_profile_params =
  ipp_maxcnt :: u32
  ipp_ldlat_threshold :: u32
  ipp_fetchlat_threshold :: u32

record ibs_event =
  ie_valid :: bool
  ie_type :: u32
  ie_config :: u64
  ie_config1 :: u64
  ie_config2 :: u64
  ie_sample_period :: u64
  ie_l3missonly_requested :: bool
  ie_l3missonly_applied :: bool
  ie_ldlat_requested :: bool
  ie_ldlat_applied :: bool
  ie_ldlat_threshold :: u32
  ie_fetchlat_requested :: bool
  ie_fetchlat_applied :: bool
  ie_fetchlat_threshold :: u32

definition ibs_event_zero :: ibs_event where
  "ibs_event_zero =
     \<lparr>ie_valid = False, ie_type = 0, ie_config = 0, ie_config1 = 0, ie_config2 = 0, ie_sample_period = 0,
      ie_l3missonly_requested = False, ie_l3missonly_applied = False, ie_ldlat_requested = False,
      ie_ldlat_applied = False, ie_ldlat_threshold = 0, ie_fetchlat_requested = False,
      ie_fetchlat_applied = False, ie_fetchlat_threshold = 0\<rparr>"

section \<open>Discovery\<close>

definition cmp_format_field :: "ibs_format_field \<Rightarrow> ibs_format_field \<Rightarrow> int" where
  "cmp_format_field a b = strcmp (ff_name a) (ff_name b)"

definition cmp_cap :: "ibs_cap \<Rightarrow> ibs_cap \<Rightarrow> int" where
  "cmp_cap a b = strcmp (cp_name a) (cp_name b)"

definition scan_format_fields :: "sysfs \<Rightarrow> string \<Rightarrow> ibs_format_field list" where
  "scan_format_fields fs pmu_path =
     qsort cmp_format_field
       (map (\<lambda>(d, line). \<lparr>ff_name = d, ff_location = take 31 line\<rparr>)
         (scan_files fs (take 349 (pmu_path @ ''/format'')) IBS_MAX_FORMAT_FIELDS))"

definition scan_caps :: "sysfs \<Rightarrow> string \<Rightarrow> ibs_cap list" where
  "scan_caps fs pmu_path =
     qsort cmp_cap
       (map (\<lambda>(d, line). \<lparr>cp_name = d, cp_enabled = atoi line\<rparr>)
         (scan_files fs (take 349 (pmu_path @ ''/caps'')) IBS_MAX_CAPS))"

definition pmu_type :: "sysfs \<Rightarrow> string \<Rightarrow> u32" where
  "pmu_type fs type_path = (case read_sysfs_line fs type_path 64 of None \<Rightarrow> -1 | Some line \<Rightarrow> atoi line)"

definition probe_ibs_pmu_at :: "sysfs \<Rightarrow> string \<Rightarrow> string \<Rightarrow> ibs_pmu" where
  "probe_ibs_pmu_at fs sysfs_base pmu_name =
     (let pmu_path = take 299 (sysfs_base @ ''/'' @ pmu_name) in
      if \<not> fs_exists fs pmu_path then \<lparr>ip_present = False, ip_type = -1, ip_format = [], ip_caps = []\<rparr>
      else \<lparr>ip_present = True, ip_type = pmu_type fs (take 349 (pmu_path @ ''/type'')),
        ip_format = scan_format_fields fs pmu_path, ip_caps = scan_caps fs pmu_path\<rparr>)"

definition ibs_probe_at :: "sysfs \<Rightarrow> string \<Rightarrow> ibs_capabilities" where
  "ibs_probe_at fs sysfs_base =
     (let f = probe_ibs_pmu_at fs sysfs_base ''ibs_fetch''; q = probe_ibs_pmu_at fs sysfs_base ''ibs_op'' in
      \<lparr>ic_supported = (ip_present f \<and> ip_present q), ic_fetch = f, ic_op = q\<rparr>)"

definition ibs_probe :: "sysfs \<Rightarrow> ibs_capabilities" where
  "ibs_probe fs = ibs_probe_at fs ''/sys/bus/event_source/devices''"

definition ibs_pmu_format :: "ibs_pmu \<Rightarrow> string \<Rightarrow> ibs_format_field option" where
  "ibs_pmu_format pmu name = find (\<lambda>f. ff_name f = name) (ip_format pmu)"

definition ibs_pmu_cap :: "ibs_pmu \<Rightarrow> string \<Rightarrow> ibs_cap option" where
  "ibs_pmu_cap pmu name = find (\<lambda>c. cp_name c = name) (ip_caps pmu)"

section \<open>Placing a value\<close>

text \<open>The word and the bit range a location names.\<close>

definition parse_format_location :: "string \<Rightarrow> (nat \<times> int \<times> int) option" where
  "parse_format_location location =
     (case split_at (CHR '':'') location of
        None \<Rightarrow> None
      | Some (prefix, rest) \<Rightarrow>
          (let word = (if prefix = ''config'' then Some 0 else if prefix = ''config1'' then Some 1
             else if prefix = ''config2'' then Some (2 :: nat) else None) in
           case word of
             None \<Rightarrow> None
           | Some w \<Rightarrow> map_option (\<lambda>(lo, hi). (w, lo, hi)) (scan_range rest)))"

text \<open>The new event; it is unchanged, with a warning, where the location cannot be parsed.\<close>

definition apply_format_field :: "ibs_format_field \<Rightarrow> u64 \<Rightarrow> ibs_event \<Rightarrow> ibs_event" where
  "apply_format_field f value ev =
     (case parse_format_location (ff_location f) of
        None \<Rightarrow> ev
      | Some (word, lo, hi) \<Rightarrow>
          (let mask = field_mask lo hi; shifted = shl64 value lo AND mask;
               put = (\<lambda>target. (target AND NOT mask) OR shifted) in
           if word = 0 then ev\<lparr>ie_config := put (ie_config ev)\<rparr>
           else if word = 1 then ev\<lparr>ie_config1 := put (ie_config1 ev)\<rparr>
           else ev\<lparr>ie_config2 := put (ie_config2 ev)\<rparr>))"

section \<open>Events\<close>

definition plain_ibs_event :: "ibs_pmu \<Rightarrow> ibs_profile_params \<Rightarrow> ibs_event" where
  "plain_ibs_event pmu params =
     ibs_event_zero\<lparr>ie_valid := True, ie_type := ip_type pmu,
       ie_sample_period := ucast (if ipp_maxcnt params \<noteq> 0 then ipp_maxcnt params else IBS_DEFAULT_MAXCNT)\<rparr>"

definition apply_l3missonly :: "ibs_pmu \<Rightarrow> ibs_event \<Rightarrow> ibs_event" where
  "apply_l3missonly pmu ev0 =
     (let ev = ev0\<lparr>ie_l3missonly_requested := True\<rparr> in
      case ibs_pmu_format pmu ''l3missonly'' of
        None \<Rightarrow> ev
      | Some f \<Rightarrow> (apply_format_field f 1 ev)\<lparr>ie_l3missonly_applied := True\<rparr>)"

definition apply_fetchlat :: "ibs_pmu \<Rightarrow> ibs_profile_params \<Rightarrow> ibs_event \<Rightarrow> ibs_event" where
  "apply_fetchlat pmu params ev0 =
     (let ev = ev0\<lparr>ie_fetchlat_requested := True\<rparr>;
          v = (if ipp_fetchlat_threshold params \<noteq> 0 then ipp_fetchlat_threshold params
               else IBS_DEFAULT_FETCHLAT_THRESHOLD) in
      case ibs_pmu_format pmu ''fetchlat'' of
        None \<Rightarrow> ev
      | Some f \<Rightarrow> (apply_format_field f (ucast v) (ev\<lparr>ie_fetchlat_threshold := v\<rparr>))\<lparr>ie_fetchlat_applied := True\<rparr>)"

definition apply_ldlat :: "ibs_pmu \<Rightarrow> ibs_profile_params \<Rightarrow> ibs_event \<Rightarrow> ibs_event" where
  "apply_ldlat pmu params ev0 =
     (let ev = ev0\<lparr>ie_ldlat_requested := True\<rparr>;
          v = (if ipp_ldlat_threshold params \<noteq> 0 then ipp_ldlat_threshold params
               else IBS_DEFAULT_LDLAT_THRESHOLD) in
      case ibs_pmu_format pmu ''ldlat'' of
        None \<Rightarrow> ev
      | Some f \<Rightarrow> (apply_format_field f (ucast v) (ev\<lparr>ie_ldlat_threshold := v\<rparr>))\<lparr>ie_ldlat_applied := True\<rparr>)"

text \<open>A null pointer for the parameters stands for zeros.\<close>

definition ibs_build_fetch_event :: "ibs_pmu \<Rightarrow> ibs_profile \<Rightarrow> ibs_profile_params \<Rightarrow> ibs_event" where
  "ibs_build_fetch_event pmu profile params =
     (if \<not> ip_present pmu then ibs_event_zero
      else
        (let ev = plain_ibs_event pmu params in
         if profile = IBS_PROFILE_MEMORY_DEEP then apply_fetchlat pmu params (apply_l3missonly pmu ev) else ev))"

definition ibs_build_op_event :: "ibs_pmu \<Rightarrow> ibs_profile \<Rightarrow> ibs_profile_params \<Rightarrow> ibs_event" where
  "ibs_build_op_event pmu profile params =
     (if \<not> ip_present pmu then ibs_event_zero
      else
        (let ev = plain_ibs_event pmu params in
         if profile = IBS_PROFILE_MEMORY_DEEP then apply_ldlat pmu params (apply_l3missonly pmu ev) else ev))"

definition ibs_build_op_unfiltered_event :: "ibs_pmu \<Rightarrow> ibs_profile_params \<Rightarrow> ibs_event" where
  "ibs_build_op_unfiltered_event pmu params =
     (if \<not> ip_present pmu then ibs_event_zero else plain_ibs_event pmu params)"

definition ibs_counter :: "string \<Rightarrow> ibs_event \<Rightarrow> counter_info list" where
  "ibs_counter name ev =
     (if ie_valid ev
      then [counter_info_zero\<lparr>ci_label := name, ci_device_type := ie_type ev, ci_config := ie_config ev,
          ci_config1 := ie_config1 ev, ci_config2 := ie_config2 ev, ci_sample_period := ie_sample_period ev,
          ci_is_group_leader := True, ci_requires_system_wide := True\<rparr>]
      else [])"

definition ibs_counter_group :: "sysfs \<Rightarrow> string \<Rightarrow> ibs_profile \<Rightarrow> ibs_profile_params \<Rightarrow> counter_group option" where
  "ibs_counter_group fs name profile params =
     (if profile = IBS_PROFILE_NONE then None
      else
        (let caps = ibs_probe fs in
         if \<not> ic_supported caps then None
         else
           (let cinfo =
              ibs_counter ''ibs_fetch'' (ibs_build_fetch_event (ic_fetch caps) profile params) @
              ibs_counter ''ibs_op'' (ibs_build_op_event (ic_op caps) profile params) @
              (if profile = IBS_PROFILE_MEMORY_DEEP
               then ibs_counter ''ibs_op_unfiltered'' (ibs_build_op_unfiltered_event (ic_op caps) params) else [])
            in
            if cinfo = [] then None
            else Some \<lparr>cg_label = name, cg_type_id = PERF_TYPE_RAW, cg_target_cpu = 0, cg_mask = COUNTER_IBS,
              cg_cinfo = cinfo\<rparr>)))"

text \<open>The group of sampling counters (src/ibs_sample.c).\<close>

definition sampling_counter :: "string \<Rightarrow> ibs_event \<Rightarrow> counter_info list" where
  "sampling_counter name ev = map (\<lambda>c. c\<lparr>ci_is_ibs_sample := True\<rparr>) (ibs_counter name ev)"

definition ibs_sample_counter_group :: "sysfs \<Rightarrow> string \<Rightarrow> ibs_profile_params \<Rightarrow> counter_group option" where
  "ibs_sample_counter_group fs name params =
     (let caps = ibs_probe fs in
      if \<not> ic_supported caps then None
      else
        (let cinfo =
           sampling_counter ''ibs_sample_fetch'' (ibs_build_fetch_event (ic_fetch caps) IBS_PROFILE_NONE params) @
           sampling_counter ''ibs_sample_op'' (ibs_build_op_unfiltered_event (ic_op caps) params)
         in
         if cinfo = [] then None
         else Some \<lparr>cg_label = name, cg_type_id = PERF_TYPE_RAW, cg_target_cpu = 0, cg_mask = COUNTER_IBS_SAMPLE,
           cg_cinfo = cinfo\<rparr>))"

section \<open>Report\<close>

definition print_ibs_pmu_report :: "string \<Rightarrow> ibs_pmu \<Rightarrow> string" where
  "print_ibs_pmu_report name pmu =
     (if \<not> ip_present pmu then ''  '' @ pad_right 10 name @ '' not present'' @ newline
      else
        ''  '' @ pad_right 10 name @ '' available (type='' @ d_text (ip_type pmu) @ ''), '' @
        dec (length (ip_format pmu)) @ '' format field(s), '' @ dec (length (ip_caps pmu)) @ '' cap(s)'' @ newline @
        concat (map (\<lambda>f. ''    format          '' @ pad_right 16 (ff_name f) @ '' '' @ ff_location f @ newline)
          (ip_format pmu)) @
        concat (map (\<lambda>c. ''    cap             '' @ pad_right 16 (cp_name c) @ '' '' @
          (if cp_enabled c \<noteq> 0 then ''yes'' else ''no'') @ newline) (ip_caps pmu)))"

definition print_ibs_capability_report :: "ibs_capabilities \<Rightarrow> string" where
  "print_ibs_capability_report ibs =
     ''IBS capability report: '' @ (if ic_supported ibs then ''supported'' else ''not supported'') @ newline @
     print_ibs_pmu_report ''ibs_fetch'' (ic_fetch ibs) @ print_ibs_pmu_report ''ibs_op'' (ic_op ibs)"

end
