(* ===== verification/Ibs_Facts.thy ===== *)
theory Ibs_Facts
  imports Ibs_Probe
begin

text \<open>
  What the IBS probe and the construction of its events guarantee: the probe does not depend on the order in which
  directories are read, and the value of every filter lands in exactly the bits its location names.
\<close>

section \<open>Order of directories\<close>

interpretation format_order: strict_sort_order cmp_format_field ff_name
proof (rule strict_sort_order.intro [OF sort_order.intro strict_sort_order_axioms.intro])
  fix x y z :: ibs_format_field
  show "cmp_format_field x y \<le> 0 \<or> cmp_format_field y x \<le> 0"
    using strcmp_lt_total by (auto simp: cmp_format_field_def strcmp_le)
  show "cmp_format_field x y \<le> 0 \<Longrightarrow> cmp_format_field y z \<le> 0 \<Longrightarrow> cmp_format_field x z \<le> 0"
    using strcmp_lt_trans by (auto simp: cmp_format_field_def strcmp_le)
  show "cmp_format_field x y \<le> 0 \<Longrightarrow> cmp_format_field y x \<le> 0 \<Longrightarrow> ff_name x = ff_name y"
    using strcmp_lt_trans strcmp_lt_irrefl by (fastforce simp: cmp_format_field_def strcmp_le)
qed

interpretation cap_order: strict_sort_order cmp_cap cp_name
proof (rule strict_sort_order.intro [OF sort_order.intro strict_sort_order_axioms.intro])
  fix x y z :: ibs_cap
  show "cmp_cap x y \<le> 0 \<or> cmp_cap y x \<le> 0"
    using strcmp_lt_total by (auto simp: cmp_cap_def strcmp_le)
  show "cmp_cap x y \<le> 0 \<Longrightarrow> cmp_cap y z \<le> 0 \<Longrightarrow> cmp_cap x z \<le> 0"
    using strcmp_lt_trans by (auto simp: cmp_cap_def strcmp_le)
  show "cmp_cap x y \<le> 0 \<Longrightarrow> cmp_cap y x \<le> 0 \<Longrightarrow> cp_name x = cp_name y"
    using strcmp_lt_trans strcmp_lt_irrefl by (fastforce simp: cmp_cap_def strcmp_le)
qed

definition readable_names :: "sysfs \<Rightarrow> string \<Rightarrow> string list" where
  "readable_names fs dir =
     (case fs_dir fs dir of None \<Rightarrow> []
      | Some names \<Rightarrow> filter (\<lambda>d. peek d \<noteq> CHR ''.'' \<and> read_sysfs_line fs (take 699 (dir @ ''/'' @ d)) 64 \<noteq> None) names)"

text \<open>Two views of the same files whose directories list the same names, in any order; no directory has more readable
  files than the probe has room for, and no two of them agree in the first 31 bytes of their names.\<close>

definition same_listing :: "sysfs \<Rightarrow> sysfs \<Rightarrow> bool" where
  "same_listing fs fs' \<longleftrightarrow>
     fs_file fs' = fs_file fs \<and> fs_exists fs' = fs_exists fs \<and>
     (\<forall>dir. case (fs_dir fs dir, fs_dir fs' dir) of
        (Some ns, Some ns') \<Rightarrow> mset ns = mset ns' | (None, None) \<Rightarrow> True | _ \<Rightarrow> False)"

definition room_for :: "sysfs \<Rightarrow> nat \<Rightarrow> bool" where
  "room_for fs capacity \<longleftrightarrow>
     (\<forall>dir. length (readable_names fs dir) \<le> capacity \<and> distinct (map (take 31) (readable_names fs dir)))"

lemma map_filter_filter:
  "(\<And>x. f x \<noteq> None \<longleftrightarrow> P x) \<Longrightarrow> List.map_filter f xs = map (\<lambda>x. the (f x)) (filter P xs)"
  by (induction xs) (auto simp: List.map_filter_def)

lemma scan_files_map:
  "scan_files fs dir capacity =
     take capacity (map (\<lambda>d. (take 31 d, the (read_sysfs_line fs (take 699 (dir @ ''/'' @ d)) 64))) (readable_names fs dir))"
proof (cases "fs_dir fs dir")
  case (Some names)
  let ?f = "\<lambda>d. if peek d = CHR ''.'' then None
     else map_option (\<lambda>line. (take 31 d, line)) (read_sysfs_line fs (take 699 (dir @ ''/'' @ d)) 64)"
  let ?P = "\<lambda>d. peek d \<noteq> CHR ''.'' \<and> read_sysfs_line fs (take 699 (dir @ ''/'' @ d)) 64 \<noteq> None"
  have "List.map_filter ?f names = map (\<lambda>d. the (?f d)) (filter ?P names)"
    by (rule map_filter_filter) simp
  also have "\<dots> = map (\<lambda>d. (take 31 d, the (read_sysfs_line fs (take 699 (dir @ ''/'' @ d)) 64))) (filter ?P names)"
    by (rule map_cong) auto
  finally show ?thesis by (simp add: scan_files_def readable_names_def Some)
qed (simp add: scan_files_def readable_names_def)

lemma scan_files_permuted:
  assumes "same_listing fs fs'" and "room_for fs capacity"
  shows "mset (scan_files fs' dir capacity) = mset (scan_files fs dir capacity)"
    and "distinct (map fst (scan_files fs dir capacity))"
proof -
  have line: "read_sysfs_line fs' p n = read_sysfs_line fs p n" for p n
    using assms(1) by (simp add: read_sysfs_line_def same_listing_def)
  have m: "mset (readable_names fs' dir) = mset (readable_names fs dir)"
    using assms(1) [unfolded same_listing_def, THEN conjunct2, THEN conjunct2, rule_format, of dir]
    by (auto simp: readable_names_def line split: option.splits)
  then have "length (readable_names fs' dir) \<le> capacity"
    using assms(2) by (metis room_for_def mset_eq_length)
  then show "mset (scan_files fs' dir capacity) = mset (scan_files fs dir capacity)"
    using assms(2) m by (simp add: scan_files_map line room_for_def)
  show "distinct (map fst (scan_files fs dir capacity))"
    using assms(2) by (simp add: scan_files_map room_for_def comp_def take_map [symmetric])
qed

lemma scan_format_fields_permuted:
  assumes "same_listing fs fs'" and "room_for fs IBS_MAX_FORMAT_FIELDS"
  shows "scan_format_fields fs' path = scan_format_fields fs path"
  unfolding scan_format_fields_def
proof (rule format_order.qsort_unique)
  let ?dir = "take 349 (path @ ''/format'')"
  let ?mk = "\<lambda>(d, line). \<lparr>ff_name = d, ff_location = take 31 line\<rparr>"
  show "distinct (map ff_name (map ?mk (scan_files fs ?dir IBS_MAX_FORMAT_FIELDS)))"
    using scan_files_permuted(2) [OF assms] by (simp add: comp_def case_prod_beta)
  show "mset (qsort cmp_format_field (map ?mk (scan_files fs' ?dir IBS_MAX_FORMAT_FIELDS))) =
      mset (map ?mk (scan_files fs ?dir IBS_MAX_FORMAT_FIELDS))"
    using scan_files_permuted(1) [OF assms] by simp
qed (rule format_order.qsort_sorted)

lemma scan_caps_permuted:
  assumes "same_listing fs fs'" and "room_for fs IBS_MAX_CAPS"
  shows "scan_caps fs' path = scan_caps fs path"
  unfolding scan_caps_def
proof (rule cap_order.qsort_unique)
  let ?dir = "take 349 (path @ ''/caps'')"
  let ?mk = "\<lambda>(d, line). \<lparr>cp_name = d, cp_enabled = atoi line\<rparr>"
  show "distinct (map cp_name (map ?mk (scan_files fs ?dir IBS_MAX_CAPS)))"
    using scan_files_permuted(2) [OF assms] by (simp add: comp_def case_prod_beta)
  show "mset (qsort cmp_cap (map ?mk (scan_files fs' ?dir IBS_MAX_CAPS))) =
      mset (map ?mk (scan_files fs ?dir IBS_MAX_CAPS))"
    using scan_files_permuted(1) [OF assms] by simp
qed (rule cap_order.qsort_sorted)

lemma ibs_group_permuted:
  assumes "same_listing fs fs'" and "room_for fs 16"
  shows "ibs_counter_group fs' name profile params = ibs_counter_group fs name profile params"
proof -
  have "probe_ibs_pmu_at fs' base pmu = probe_ibs_pmu_at fs base pmu" for base pmu
  proof -
    have "pmu_type fs' p = pmu_type fs p" "fs_exists fs' = fs_exists fs" for p
      using assms(1) by (simp_all add: pmu_type_def read_sysfs_line_def same_listing_def)
    then show ?thesis
      using scan_format_fields_permuted [OF assms(1)] scan_caps_permuted [OF assms(1)] assms(2)
      by (simp add: probe_ibs_pmu_at_def Let_def IBS_MAX_FORMAT_FIELDS_def IBS_MAX_CAPS_def)
  qed
  then show ?thesis by (simp add: ibs_counter_group_def ibs_probe_def ibs_probe_at_def)
qed

section \<open>Fields\<close>

definition ibs_word :: "ibs_event \<Rightarrow> nat \<Rightarrow> u64" where
  "ibs_word ev w = (if w = 0 then ie_config ev else if w = 1 then ie_config1 ev else ie_config2 ev)"

text \<open>A place is a word and a bit range within it.\<close>

type_synonym place = "nat \<times> int \<times> int"

definition place_ok :: "place \<Rightarrow> bool" where
  "place_ok p = (case p of (w, lo, hi) \<Rightarrow> w < 3 \<and> 0 \<le> lo \<and> lo \<le> hi \<and> hi \<le> 63)"

definition in_place :: "place \<Rightarrow> nat \<Rightarrow> nat \<Rightarrow> bool" where
  "in_place p w i = (case p of (w', lo, hi) \<Rightarrow> w = w' \<and> nat lo \<le> i \<and> i \<le> nat hi)"

definition apart :: "place \<Rightarrow> place \<Rightarrow> bool" where
  "apart p q = (case (p, q) of ((w, lo, hi), (w', lo', hi')) \<Rightarrow> w \<noteq> w' \<or> hi < lo' \<or> hi' < lo)"

definition low_bit :: "place \<Rightarrow> nat" where
  "low_bit p = nat (fst (snd p))"

lemma bit_apply_format_field:
  assumes "parse_format_location (ff_location f) = Some p" and "place_ok p" and "w < 3"
  shows "bit (ibs_word (apply_format_field f v ev) w) i \<longleftrightarrow>
    (if in_place p w i then bit v (i - low_bit p) else bit (ibs_word ev w) i)"
proof -
  obtain w' lo hi where p: "p = (w', lo, hi)" by (cases p)
  have r: "0 \<le> lo" "lo \<le> hi" "hi \<le> 63" "w' < 3" using assms(2) by (simp_all add: p place_ok_def)
  have put: "bit ((t AND NOT (field_mask lo hi)) OR (shl64 v lo AND field_mask lo hi)) i \<longleftrightarrow>
      (if nat lo \<le> i \<and> i \<le> nat hi then bit v (i - nat lo) else bit t i)" for t
  proof (cases "i < 64")
    case True
    then show ?thesis using r by (auto simp: bit_simps bit_field_mask bit_shl64)
  next
    case False
    then have "\<not> bit (x :: u64) i" for x using bit_imp_le_length [of x i] by auto
    moreover have "\<not> i \<le> nat hi" using False r by linarith
    ultimately show ?thesis by auto
  qed
  show ?thesis
    using assms(1,3) put r(4)
    by (auto simp: apply_format_field_def Let_def ibs_word_def p in_place_def low_bit_def split: if_splits)
qed

lemma ibs_word_simps [simp]:
  "ibs_word (ev\<lparr>ie_l3missonly_requested := b\<rparr>) w = ibs_word ev w"
  "ibs_word (ev\<lparr>ie_l3missonly_applied := b\<rparr>) w = ibs_word ev w"
  "ibs_word (ev\<lparr>ie_ldlat_requested := b\<rparr>) w = ibs_word ev w"
  "ibs_word (ev\<lparr>ie_ldlat_applied := b\<rparr>) w = ibs_word ev w"
  "ibs_word (ev\<lparr>ie_ldlat_threshold := v\<rparr>) w = ibs_word ev w"
  "ibs_word (ev\<lparr>ie_fetchlat_requested := b\<rparr>) w = ibs_word ev w"
  "ibs_word (ev\<lparr>ie_fetchlat_applied := b\<rparr>) w = ibs_word ev w"
  "ibs_word (ev\<lparr>ie_fetchlat_threshold := v\<rparr>) w = ibs_word ev w"
  by (simp_all add: ibs_word_def)

lemma bit_plain_event [simp]: "\<not> bit (ibs_word (plain_ibs_event pmu params) w) i"
  by (simp add: ibs_word_def plain_ibs_event_def ibs_event_zero_def)

text \<open>The threshold a filter is given: the parameter, or the default for 0.\<close>

definition threshold_or :: "u32 \<Rightarrow> u32 \<Rightarrow> u32" where
  "threshold_or v d = (if v \<noteq> 0 then v else d)"

text \<open>Two values placed into an empty event, the first of them 1.\<close>

lemma two_fields_bits:
  assumes "parse_format_location (ff_location f) = Some p" and "place_ok p"
    and "parse_format_location (ff_location f') = Some p'" and "place_ok p'"
    and "apart p p'" and "w < 3" and "\<And>e. ibs_word (g e) w = ibs_word e w" and "\<And>k. \<not> bit (ibs_word ev w) k"
  shows "bit (ibs_word (apply_format_field f' (ucast v) (g (apply_format_field f 1 ev))) w) i \<longleftrightarrow>
    in_place p w i \<and> i = low_bit p \<or> in_place p' w i \<and> bit (v :: u32) (i - low_bit p')"
proof -
  have one: "bit (1 :: u64) (i - low_bit p) \<longleftrightarrow> i \<le> low_bit p" by (auto simp: bit_1_iff)
  have w32: "bit (ucast v :: u64) k \<longleftrightarrow> bit v k" for k
    using bit_imp_le_length [of v k] by (auto simp: bit_simps)
  have sep: "\<not> (in_place p w i \<and> in_place p' w i)"
    using assms(2,4,5) by (cases p; cases p') (auto simp: apart_def in_place_def place_ok_def nat_le_iff le_nat_iff)
  have low: "in_place p w i \<Longrightarrow> low_bit p \<le> i" by (cases p) (auto simp: in_place_def low_bit_def)
  show ?thesis
    using sep low one
    by (simp add: bit_apply_format_field [OF assms(1,2,6)] bit_apply_format_field [OF assms(3,4,6)] assms(7,8) w32)
      (metis le_antisym)
qed

section \<open>Properties\<close>

text \<open>C40: for both IBS units, if the locations of the two filters name disjoint bit ranges, the deep profile's event
  has the l3missonly bit set, the latency threshold (or its default) in its own range, and no other bit of the
  three configuration words.\<close>
theorem ibs_filters_placed:
  assumes "ip_present pmu" and "w < 3"
    and "ibs_pmu_format pmu ''l3missonly'' = Some f" and "parse_format_location (ff_location f) = Some p" and "place_ok p"
    and "ibs_pmu_format pmu key = Some f'" and "parse_format_location (ff_location f') = Some p'" and "place_ok p'"
    and "apart p p'"
  shows "(key = ''ldlat'' \<longrightarrow>
      (bit (ibs_word (ibs_build_op_event pmu IBS_PROFILE_MEMORY_DEEP params) w) i \<longleftrightarrow>
         in_place p w i \<and> i = low_bit p \<or>
         in_place p' w i \<and> bit (threshold_or (ipp_ldlat_threshold params) 128) (i - low_bit p'))) \<and>
    (key = ''fetchlat'' \<longrightarrow>
      (bit (ibs_word (ibs_build_fetch_event pmu IBS_PROFILE_MEMORY_DEEP params) w) i \<longleftrightarrow>
         in_place p w i \<and> i = low_bit p \<or>
         in_place p' w i \<and> bit (threshold_or (ipp_fetchlat_threshold params) 120) (i - low_bit p')))"
proof -
  note two = two_fields_bits [OF assms(4,5,7-9,2)]
  show ?thesis
  proof (intro conjI impI)
    assume "key = ''ldlat''"
    let ?v = "threshold_or (ipp_ldlat_threshold params) IBS_DEFAULT_LDLAT_THRESHOLD"
    let ?g = "\<lambda>e. e\<lparr>ie_l3missonly_applied := True, ie_ldlat_requested := True, ie_ldlat_threshold := ?v\<rparr>"
    have "ibs_word (ibs_build_op_event pmu IBS_PROFILE_MEMORY_DEEP params) w =
        ibs_word (apply_format_field f' (ucast ?v) (?g (apply_format_field f 1
          ((plain_ibs_event pmu params)\<lparr>ie_l3missonly_requested := True\<rparr>)))) w"
      using assms(6) \<open>key = ''ldlat''\<close>
      by (simp add: ibs_build_op_event_def assms(1,3) apply_ldlat_def apply_l3missonly_def Let_def threshold_or_def)
    then show "bit (ibs_word (ibs_build_op_event pmu IBS_PROFILE_MEMORY_DEEP params) w) i \<longleftrightarrow>
         in_place p w i \<and> i = low_bit p \<or>
         in_place p' w i \<and> bit (threshold_or (ipp_ldlat_threshold params) 128) (i - low_bit p')"
      using two [of ?g "(plain_ibs_event pmu params)\<lparr>ie_l3missonly_requested := True\<rparr>" ?v i]
      by (simp add: IBS_DEFAULT_LDLAT_THRESHOLD_def)
  next
    assume "key = ''fetchlat''"
    let ?v = "threshold_or (ipp_fetchlat_threshold params) IBS_DEFAULT_FETCHLAT_THRESHOLD"
    let ?g = "\<lambda>e. e\<lparr>ie_l3missonly_applied := True, ie_fetchlat_requested := True, ie_fetchlat_threshold := ?v\<rparr>"
    have "ibs_word (ibs_build_fetch_event pmu IBS_PROFILE_MEMORY_DEEP params) w =
        ibs_word (apply_format_field f' (ucast ?v) (?g (apply_format_field f 1
          ((plain_ibs_event pmu params)\<lparr>ie_l3missonly_requested := True\<rparr>)))) w"
      using assms(6) \<open>key = ''fetchlat''\<close>
      by (simp add: ibs_build_fetch_event_def assms(1,3) apply_fetchlat_def apply_l3missonly_def Let_def threshold_or_def)
    then show "bit (ibs_word (ibs_build_fetch_event pmu IBS_PROFILE_MEMORY_DEEP params) w) i \<longleftrightarrow>
         in_place p w i \<and> i = low_bit p \<or>
         in_place p' w i \<and> bit (threshold_or (ipp_fetchlat_threshold params) 120) (i - low_bit p')"
      using two [of ?g "(plain_ibs_event pmu params)\<lparr>ie_l3missonly_requested := True\<rparr>" ?v i]
      by (simp add: IBS_DEFAULT_FETCHLAT_THRESHOLD_def)
  qed
qed

definition sample_ibs_pmu :: ibs_pmu where
  "sample_ibs_pmu =
     \<lparr>ip_present = True, ip_type = 11,
      ip_format = [\<lparr>ff_name = ''l3missonly'', ff_location = ''config:16''\<rparr>,
        \<lparr>ff_name = ''ldlat'', ff_location = ''config1:0-11''\<rparr>], ip_caps = []\<rparr>"

lemma ibs_filters_placed_witness:
  "bit (ibs_word (ibs_build_op_event sample_ibs_pmu IBS_PROFILE_MEMORY_DEEP \<lparr>ipp_maxcnt = 0, ipp_ldlat_threshold = 0,
     ipp_fetchlat_threshold = 0\<rparr>) 1) 7"
proof -
  have f: "ip_present sample_ibs_pmu" "(1 :: nat) < 3"
    "ibs_pmu_format sample_ibs_pmu ''l3missonly'' = Some \<lparr>ff_name = ''l3missonly'', ff_location = ''config:16''\<rparr>"
    "ibs_pmu_format sample_ibs_pmu ''ldlat'' = Some \<lparr>ff_name = ''ldlat'', ff_location = ''config1:0-11''\<rparr>"
    by (simp_all add: ibs_pmu_format_def sample_ibs_pmu_def)
  have p: "parse_format_location (ff_location \<lparr>ff_name = ''l3missonly'', ff_location = ''config:16''\<rparr>) = Some (0, 16, 16)"
    "parse_format_location (ff_location \<lparr>ff_name = ''ldlat'', ff_location = ''config1:0-11''\<rparr>) = Some (1, 0, 11)"
    by code_simp+
  have k: "place_ok (0, 16, 16)" "place_ok (1, 0, 11)" "apart (0, 16, 16) (1, 0, 11)"
    by (simp_all add: place_ok_def apart_def)
  show ?thesis
    using ibs_filters_placed [OF f(1,2,3) p(1) k(1) f(4) p(2) k(2,3),
        of "\<lparr>ipp_maxcnt = 0, ipp_ldlat_threshold = 0, ipp_fetchlat_threshold = 0\<rparr>" 7]
    by (simp add: in_place_def low_bit_def threshold_or_def bit_iff_odd_drop_bit)
qed

text \<open>The IBS counter group depends on what sysfs holds but not on the order in which \<open>readdir\<close> returns it.\<close>
theorem ibs_counter_group_order_free:
  assumes "same_listing fs fs'" and "room_for fs 16"
  shows "ibs_counter_group fs' name profile params = ibs_counter_group fs name profile params"
  using assms by (rule ibs_group_permuted)

definition sample_ibs_dir :: "string list \<Rightarrow> sysfs" where
  "sample_ibs_dir names =
     \<lparr>fs_file = (\<lambda>_. Some ''config:16''),
      fs_dir = (\<lambda>dir. if dir = ''/sys/bus/event_source/devices/ibs_op/format'' then Some names else None),
      fs_exists = (\<lambda>_. True)\<rparr>"

lemma ibs_counter_group_order_free_witness:
  "ibs_counter_group (sample_ibs_dir [''rand_en'', ''ldlat'']) ''ibs'' IBS_PROFILE_BASIC \<lparr>ipp_maxcnt = 0, ipp_ldlat_threshold = 0, ipp_fetchlat_threshold = 0\<rparr> =
   ibs_counter_group (sample_ibs_dir [''ldlat'', ''rand_en'']) ''ibs'' IBS_PROFILE_BASIC \<lparr>ipp_maxcnt = 0, ipp_ldlat_threshold = 0, ipp_fetchlat_threshold = 0\<rparr>"
proof (rule ibs_counter_group_order_free)
  show "same_listing (sample_ibs_dir [''ldlat'', ''rand_en'']) (sample_ibs_dir [''rand_en'', ''ldlat''])"
    by (simp add: same_listing_def sample_ibs_dir_def)
  show "room_for (sample_ibs_dir [''ldlat'', ''rand_en'']) 16"
    by (simp add: room_for_def readable_names_def sample_ibs_dir_def)
qed

section \<open>Where the code and its comments part\<close>

text \<open>A filter whose location cannot be parsed leaves the event as it is, but is reported as applied.\<close>

lemma unplaced_filter_reported_applied:
  "ie_l3missonly_applied (apply_l3missonly
     \<lparr>ip_present = True, ip_type = 11,
      ip_format = [\<lparr>ff_name = ''l3missonly'', ff_location = ''config3:0''\<rparr>], ip_caps = []\<rparr> ev) \<and>
   ie_config (apply_l3missonly
     \<lparr>ip_present = True, ip_type = 11,
      ip_format = [\<lparr>ff_name = ''l3missonly'', ff_location = ''config3:0''\<rparr>], ip_caps = []\<rparr> ev) = ie_config ev"
proof -
  have "parse_format_location ''config3:0'' = None" by code_simp
  then show ?thesis by (simp add: apply_l3missonly_def ibs_pmu_format_def apply_format_field_def)
qed

end
