(* ===== verification/Power_Probe.thy ===== *)
theory Power_Probe
  imports Sysfs C_Format Counter_Groups Counter_Runtime Affinity
begin

text \<open>
  CPU energy counters (src/power.c): the probe of the \<open>power\<close> and \<open>power_core\<close> units and of the hwmon fallback, the
  cpumask of the representative cpus, and the counter groups of \<open>--power\<close>.
\<close>

section \<open>Data\<close>

definition POWER_MAX_FORMAT_FIELDS :: nat where "POWER_MAX_FORMAT_FIELDS = 4"
definition POWER_MAX_CORE_CPUS :: nat where "POWER_MAX_CORE_CPUS = 256"

record power_pmu =
  pp_present :: bool
  pp_type :: u32
  pp_format :: "(string \<times> string) list"
  pp_event_present :: bool
  pp_event :: u64
  pp_scale :: double
  pp_unit :: string

record power_capabilities =
  pc_supported :: bool
  pc_pkg :: power_pmu
  pc_core :: power_pmu
  pc_core_cpus :: "int list"
  pc_is_fallback :: bool
  pc_fallback_path :: string

record power_event =
  pe_valid :: bool
  pe_type :: u32
  pe_config :: u64

definition power_pmu_absent :: power_pmu where
  "power_pmu_absent =
     \<lparr>pp_present = False, pp_type = -1, pp_format = [], pp_event_present = False, pp_event = 0,
      pp_scale = Fin 1, pp_unit = []\<rparr>"

section \<open>The units\<close>

definition parse_event_value :: "string \<Rightarrow> u64 option" where
  "parse_event_value text = map_option (\<lambda>(_, r). fst (strtoul0 r)) (split_at (CHR ''='') text)"

definition parse_config_location :: "string \<Rightarrow> (int \<times> int) option" where
  "parse_config_location location =
     (case split_at (CHR '':'') location of
        None \<Rightarrow> None
      | Some (prefix, rest) \<Rightarrow> if prefix = ''config'' then scan_range rest else None)"

definition scan_power_fields :: "sysfs \<Rightarrow> string \<Rightarrow> (string \<times> string) list" where
  "scan_power_fields fs pmu_path =
     map (\<lambda>(d, line). (d, take 31 line))
       (scan_files fs (take 349 (pmu_path @ ''/format'')) POWER_MAX_FORMAT_FIELDS)"

definition find_format :: "power_pmu \<Rightarrow> string \<Rightarrow> string option" where
  "find_format pmu name = map_of (pp_format pmu) name"

text \<open>The scale of the event: 1 where its file is missing or does not start with a number.\<close>

definition event_scale :: "sysfs \<Rightarrow> string \<Rightarrow> double" where
  "event_scale fs path =
     (case Option.bind (read_sysfs_line fs path 64) strtod of None \<Rightarrow> Fin 1 | Some (s, _) \<Rightarrow> s)"

definition probe_power_pmu_at :: "sysfs \<Rightarrow> string \<Rightarrow> string \<Rightarrow> string \<Rightarrow> power_pmu" where
  "probe_power_pmu_at fs sysfs_base pmu_name event_name =
     (let pmu_path = take 299 (sysfs_base @ ''/'' @ pmu_name);
          path = (\<lambda>rest. take 399 (pmu_path @ rest));
          event = Option.bind (read_sysfs_line fs (path (''/events/'' @ event_name)) 64) parse_event_value in
      if \<not> fs_exists fs pmu_path then power_pmu_absent
      else
        \<lparr>pp_present = True,
         pp_type = (case read_sysfs_line fs (path ''/type'') 64 of None \<Rightarrow> -1 | Some line \<Rightarrow> atoi line),
         pp_format = scan_power_fields fs pmu_path,
         pp_event_present = (event \<noteq> None),
         pp_event = (case event of None \<Rightarrow> 0 | Some v \<Rightarrow> v),
         pp_scale = event_scale fs (path (''/events/'' @ event_name @ ''.scale'')),
         pp_unit = (case read_sysfs_line fs (path (''/events/'' @ event_name @ ''.unit'')) 32 of None \<Rightarrow> [] | Some u \<Rightarrow> u)\<rparr>)"

section \<open>The representative cpus\<close>

text \<open>The cpus of one item that still fit, cut to 32 bits.\<close>

definition core_cpus_of :: "nat \<Rightarrow> int \<Rightarrow> int \<Rightarrow> int list" where
  "core_cpus_of room low high =
     map (\<lambda>k. sint (word_of_int (low + int k) :: u32)) [0..<min room (nat (high - low + 1))]"

function parse_power_core_cpumask :: "string \<Rightarrow> int list \<Rightarrow> int list" where
  "parse_power_core_cpumask p cpus =
     (if p = [] \<or> length cpus \<ge> POWER_MAX_CORE_CPUS then cpus
      else
        (case cpu_item p of
           None \<Rightarrow> cpus
         | Some (low, high, r) \<Rightarrow>
             parse_power_core_cpumask (skip_separator r)
               (cpus @ core_cpus_of (POWER_MAX_CORE_CPUS - length cpus) low high)))"
  by auto
termination
proof (relation "measure (\<lambda>(p, _). length p)", goal_cases)
  case (2 p cpus x low y high r)
  then show ?case using cpu_item_length [of p low high r] skip_separator_length [of r] by simp
qed simp

declare parse_power_core_cpumask.simps [simp del]

definition power_core_cpu_is_representative :: "power_capabilities \<Rightarrow> int \<Rightarrow> bool" where
  "power_core_cpu_is_representative caps cpu = (cpu \<in> set (pc_core_cpus caps))"

section \<open>The probe\<close>

text \<open>The first \<open>energy1_input\<close> to \<open>energy4_input\<close> of a device, and of the devices in directory order.\<close>

definition device_energy_path :: "sysfs \<Rightarrow> string \<Rightarrow> string option" where
  "device_energy_path fs path =
     find (fs_exists fs) (map (\<lambda>i. take 511 (path @ ''/energy'' @ dec i @ ''_input'')) [1..<5])"

definition find_hwmon_energy_path_at :: "sysfs \<Rightarrow> string \<Rightarrow> string option" where
  "find_hwmon_energy_path_at fs hwmon_base =
     (case fs_dir fs hwmon_base of
        None \<Rightarrow> None
      | Some names \<Rightarrow>
          (case List.map_filter (\<lambda>d. if peek d = CHR ''.'' then None
              else device_energy_path fs (take 349 (hwmon_base @ ''/'' @ d))) names of
             [] \<Rightarrow> None
           | path # _ \<Rightarrow> Some (take 255 path)))"

definition power_probe_at :: "sysfs \<Rightarrow> string \<Rightarrow> string \<Rightarrow> power_capabilities" where
  "power_probe_at fs sysfs_base hwmon_base =
     (let pkg = probe_power_pmu_at fs sysfs_base ''power'' ''energy-pkg'';
          core = probe_power_pmu_at fs sysfs_base ''power_core'' ''energy-core'';
          mask_line = (if pp_present core
            then read_sysfs_line fs (take 349 (sysfs_base @ ''/power_core/cpumask'')) 1024 else None);
          cpus = (case mask_line of None \<Rightarrow> [] | Some l \<Rightarrow> parse_power_core_cpumask l []);
          found = pp_present pkg \<and> pp_event_present pkg;
          fallback = (if found then None else find_hwmon_energy_path_at fs hwmon_base) in
      \<lparr>pc_supported = (found \<or> fallback \<noteq> None), pc_pkg = pkg, pc_core = core, pc_core_cpus = cpus,
       pc_is_fallback = (fallback \<noteq> None),
       pc_fallback_path = (case fallback of None \<Rightarrow> [] | Some path \<Rightarrow> path)\<rparr>)"

definition power_probe :: "sysfs \<Rightarrow> power_capabilities" where
  "power_probe fs = power_probe_at fs ''/sys/bus/event_source/devices'' ''/sys/class/hwmon''"

section \<open>Report\<close>

definition unit_row :: "string \<Rightarrow> power_pmu \<Rightarrow> string \<Rightarrow> string" where
  "unit_row name pmu rest =
     (if pp_present pmu then
        ''  '' @ pad_right 10 name @ '' available (type='' @ d_text (pp_type pmu) @ ''), event=0x'' @
        lx_text (pp_event pmu) @ '', scale='' @ fmt_g 6 (pp_scale pmu) @ '' '' @
        (if pp_unit pmu = [] then ''(unit unknown)'' else pp_unit pmu) @ rest @ newline
      else ''  '' @ pad_right 10 name @ '' not present'' @ newline)"

text \<open>\<open>access\<close>: opened, failed with an error number, or nothing to test.\<close>

datatype power_access = Access_Ok | Access_Denied int | Access_Untested

definition print_power_capability_report :: "(int \<Rightarrow> string) \<Rightarrow> power_capabilities \<Rightarrow> power_access \<Rightarrow> string" where
  "print_power_capability_report strerror caps acc =
     (if pc_is_fallback caps then
        ''CPU power/energy capability report: supported (fallback hwmon)'' @ newline @
        ''  fallback path: '' @ pc_fallback_path caps @ newline @
        (case acc of
           Access_Ok \<Rightarrow> ''  access     ok -- '' @ pc_fallback_path caps @ '' reads successfully'' @ newline
         | Access_Denied e \<Rightarrow> ''  access     denied -- '' @ pc_fallback_path caps @ '': errno='' @ dec_int e @
             '' - '' @ strerror e @ newline
         | Access_Untested \<Rightarrow> [])
      else
        ''CPU power/energy capability report: '' @
        (if pc_supported caps then ''supported (package)'' else ''not supported'') @ newline @
        unit_row ''power'' (pc_pkg caps) [] @
        unit_row ''power_core'' (pc_core caps)
          ('' -- '' @ dec (length (pc_core_cpus caps)) @
           '' representative CPU(s) (--power --per-core opens a real per-core event there)'') @
        (case acc of
           Access_Ok \<Rightarrow> ''  '' @ pad_right 10 ''power'' @ '' access ok -- energy-pkg counter opens successfully'' @ newline
         | Access_Denied e \<Rightarrow> ''  '' @ pad_right 10 ''power'' @ '' access denied -- errno='' @ dec_int e @ '' - '' @ strerror e @
             '' (run as root, or grant CAP_PERFMON to this binary -- see scripts/setup_perf.sh)'' @ newline
         | Access_Untested \<Rightarrow> []))"

section \<open>Events and groups\<close>

definition build_power_event :: "power_pmu \<Rightarrow> power_event" where
  "build_power_event pmu =
     (if \<not> pp_present pmu \<or> \<not> pp_event_present pmu then \<lparr>pe_valid = False, pe_type = 0, pe_config = 0\<rparr>
      else
        \<lparr>pe_valid = True, pe_type = pp_type pmu,
         pe_config =
           (case Option.bind (find_format pmu ''event'') parse_config_location of
              Some (lo, hi) \<Rightarrow> shl64 (pp_event pmu) lo AND field_mask lo hi
            | None \<Rightarrow> pp_event pmu)\<rparr>)"

text \<open>The group, and the new value of the global \<open>fallback_power_path\<close> where it is set.\<close>

definition power_counter_group :: "sysfs \<Rightarrow> string \<Rightarrow> counter_group option \<times> string option" where
  "power_counter_group fs name =
     (let caps = power_probe fs;
          one = (\<lambda>c. \<lparr>cg_label = name, cg_type_id = PERF_TYPE_RAW, cg_target_cpu = 0, cg_mask = COUNTER_POWER,
            cg_cinfo = [c]\<rparr>) in
      if \<not> pc_supported caps then (None, None)
      else if pc_is_fallback caps then
        (Some (one (counter_info_zero\<lparr>ci_label := ''pkg_joules'', ci_device_type := 9999,
           ci_is_group_leader := True, ci_scale := double_round (1 / 10 ^ 6)\<rparr>)),
         Some (pc_fallback_path caps))
      else
        (let ev = build_power_event (pc_pkg caps) in
         if \<not> pe_valid ev then (None, None)
         else
           (Some (one (counter_info_zero\<lparr>ci_label := ''pkg_joules'', ci_device_type := pe_type ev,
              ci_config := pe_config ev, ci_is_group_leader := True, ci_scale := pp_scale (pc_pkg caps),
              ci_requires_system_wide := True\<rparr>)), None)))"

definition power_core_counter_group :: "string \<Rightarrow> power_capabilities \<Rightarrow> int \<Rightarrow> counter_group option" where
  "power_core_counter_group name caps target_cpu =
     (if \<not> pp_present (pc_core caps) \<or> \<not> pp_event_present (pc_core caps) then None
      else
        Some \<lparr>cg_label = name, cg_type_id = PERF_TYPE_RAW, cg_target_cpu = target_cpu, cg_mask = COUNTER_POWER_CORE,
          cg_cinfo =
            [if power_core_cpu_is_representative caps target_cpu then
               (let ev = build_power_event (pc_core caps) in
                counter_info_zero\<lparr>ci_label := ''core_joules'', ci_is_group_leader := True,
                  ci_device_type := pe_type ev, ci_config := pe_config ev, ci_scale := pp_scale (pc_core caps)\<rparr>)
             else
               counter_info_zero\<lparr>ci_label := ''core_joules'', ci_is_group_leader := True,
                 ci_device_type := POWER_CORE_NOT_APPLICABLE_DEVICE_TYPE, ci_fd := -1\<rparr>]\<rparr>)"

end
