(* ===== verification/Power_Facts.thy ===== *)
theory Power_Facts
  imports Power_Probe Affinity_Facts
begin

text \<open>
  What src/power.c guarantees: the representative cpus are those the same list means to the affinity code, the
  event's value lies in the bits its format field names, and a per-core group is opened on its own cpu, or not at
  all.
\<close>

section \<open>The cpumask\<close>

text \<open>The items of a list, up to the first that cannot be read.\<close>

function cpu_items :: "string \<Rightarrow> (int \<times> int) list" where
  "cpu_items p =
     (if p = [] then []
      else (case cpu_item p of None \<Rightarrow> [] | Some (low, high, r) \<Rightarrow> (low, high) # cpu_items (skip_separator r)))"
  by auto
termination
proof (relation "measure length", goal_cases)
  case (2 p x low y high r)
  then show ?case using cpu_item_length [of p low high r] skip_separator_length [of r] by simp
qed simp

declare cpu_items.simps [simp del]

definition item_count :: "(int \<times> int) list \<Rightarrow> nat" where
  "item_count rs = sum_list (map (\<lambda>(l, h). nat (h - l + 1)) rs)"

definition items_small :: "(int \<times> int) list \<Rightarrow> bool" where
  "items_small rs \<longleftrightarrow> (\<forall>(l, h) \<in> set rs. - (2 ^ 31) \<le> l \<and> h < 2 ^ 31)"

lemma cpu_list_items:
  "i \<in> parse_cpu_list_into_set p n cs \<longleftrightarrow>
   i \<in> cs \<or> (\<exists>(l, h) \<in> set (cpu_items p). l \<le> int i \<and> int i \<le> h \<and> int i < n \<and> i < CPU_SETSIZE)"
proof (induction p n cs rule: parse_cpu_list_into_set.induct)
  case (1 p n cs)
  show ?case
  proof (cases "p = [] \<or> cpu_item p = None")
    case True
    then show ?thesis by (subst parse_cpu_list_into_set.simps, subst cpu_items.simps) auto
  next
    case False
    then obtain low high r where i: "cpu_item p = Some (low, high, r)" by auto
    from 1 [OF _ i refl refl] False show ?thesis
      by (subst parse_cpu_list_into_set.simps, subst cpu_items.simps) (auto simp: i set_range_eq)
  qed
qed

lemma core_cpus_small:
  assumes "- (2 ^ 31) \<le> l" and "h < 2 ^ 31" and "nat (h - l + 1) \<le> room"
  shows "core_cpus_of room l h = map (\<lambda>k. l + int k) [0..<nat (h - l + 1)]"
proof -
  have "sint (word_of_int (l + int k) :: u32) = l + int k" if "k < nat (h - l + 1)" for k
    using that assms(1,2)
    by (subst sint_sbintrunc', intro signed_take_bit_int_eq_self) simp_all
  then show ?thesis using assms(3) by (simp add: core_cpus_of_def min_def)
qed

lemma cpumask_items:
  assumes "items_small (cpu_items p)" and "length cpus + item_count (cpu_items p) \<le> POWER_MAX_CORE_CPUS"
  shows "set (parse_power_core_cpumask p cpus) = set cpus \<union> (\<Union>(l, h) \<in> set (cpu_items p). {l..h})"
  using assms
proof (induction p cpus rule: parse_power_core_cpumask.induct)
  case (1 p cpus)
  show ?case
  proof (cases "p = [] \<or> cpu_item p = None")
    case True
    then show ?thesis by (subst parse_power_core_cpumask.simps, subst cpu_items.simps) auto
  next
    case False
    then obtain low high r where i: "cpu_item p = Some (low, high, r)" by auto
    have items: "cpu_items p = (low, high) # cpu_items (skip_separator r)"
      using False i by (subst cpu_items.simps) simp
    have c: "item_count (cpu_items p) = nat (high - low + 1) + item_count (cpu_items (skip_separator r))"
      by (simp add: items item_count_def)
    have sm: "- (2 ^ 31) \<le> low" "high < 2 ^ 31" "items_small (cpu_items (skip_separator r))"
      using 1(2) by (simp_all add: items items_small_def)
    show ?thesis
    proof (cases "length cpus \<ge> POWER_MAX_CORE_CPUS")
      case True
      then have "item_count (cpu_items p) = 0" using 1(3) by simp
      then have "\<forall>(l, h) \<in> set (cpu_items p). {l..h} = {}" by (auto simp: item_count_def)
      then show ?thesis using True by (subst parse_power_core_cpumask.simps) fastforce
    next
      case room: False
      let ?new = "map (\<lambda>k. low + int k) [0..<nat (high - low + 1)]"
      have new: "core_cpus_of (POWER_MAX_CORE_CPUS - length cpus) low high = ?new"
        using 1(3) c by (intro core_cpus_small sm(1,2)) simp
      have rng: "set ?new = {low..high}"
      proof (intro set_eqI iffI)
        fix k assume "k \<in> {low..high}"
        then show "k \<in> set ?new" by (auto intro!: image_eqI [of _ _ "nat (k - low)"])
      qed auto
      have "set (parse_power_core_cpumask (skip_separator r) (cpus @ ?new)) =
          set (cpus @ ?new) \<union> (\<Union>(l, h) \<in> set (cpu_items (skip_separator r)). {l..h})"
        using 1(1) [OF _ i refl refl] False room sm(3) 1(3) c new by simp
      then show ?thesis
        using False room rng by (subst parse_power_core_cpumask.simps) (auto simp: i new items)
    qed
  qed
qed

section \<open>Properties\<close>

text \<open>As long as the list has at most 256 cpus and 32-bit numbers, a cpu is representative exactly when the
  affinity code's reading of the same list contains it.\<close>
theorem power_core_cpus_match:
  assumes "items_small (cpu_items p)" and "item_count (cpu_items p) \<le> POWER_MAX_CORE_CPUS"
    and "n \<le> CPU_SETSIZE" and "cpu < n" and "pc_core_cpus caps = parse_power_core_cpumask p []"
  shows "power_core_cpu_is_representative caps (int cpu) \<longleftrightarrow> cpu \<in> parse_cpu_list_into_set p (int n) {}"
proof -
  have "set (pc_core_cpus caps) = (\<Union>(l, h) \<in> set (cpu_items p). {l..h})"
    using cpumask_items [of p "[]"] assms(1,2,5) by simp
  moreover have "cpu < CPU_SETSIZE" "int cpu < int n" using assms(3,4) by simp_all
  ultimately show ?thesis
    by (simp add: power_core_cpu_is_representative_def cpu_list_items) (simp add: split_beta)
qed

definition sample_core_pmu :: power_pmu where
  "sample_core_pmu =
     \<lparr>pp_present = True, pp_type = 12, pp_format = [(''event'', ''config:0-7'')], pp_event_present = True, pp_event = 1,
      pp_scale = Fin 1, pp_unit = ''Joules''\<rparr>"

definition sample_power :: power_capabilities where
  "sample_power =
     \<lparr>pc_supported = True, pc_pkg = power_pmu_absent, pc_core = sample_core_pmu,
      pc_core_cpus = parse_power_core_cpumask ''0,2-3'' [], pc_is_fallback = False, pc_fallback_path = []\<rparr>"

lemma sample_items: "cpu_items ''0,2-3'' = [(0, 0), (2, 3)]"
proof -
  have d: "dec 0 = ''0''" "dec 2 = ''2''" "dec 3 = ''3''" by code_simp+
  have 1: "cpu_item ''0,2-3'' = Some (0, 0, '',2-3'')"
    using cpu_item_run [of "'',2-3''" "(0, 0)"] by (simp add: run_text_def d separated_def is_space_def)
  have 2: "cpu_item ''2-3'' = Some (2, 3, [])"
    using cpu_item_run [of "[]" "(2, 3)"] by (simp add: run_text_def d separated_def)
  have "skip_separator '',2-3'' = ''2-3''" "skip_separator [] = []"
    by (simp_all add: skip_separator_def peek_def)
  then show ?thesis
    by (subst cpu_items.simps, simp add: 1) (subst cpu_items.simps, simp add: 2, subst cpu_items.simps, simp)
qed

lemma sample_core_cpus: "set (parse_power_core_cpumask ''0,2-3'' []) = {0, 2, 3}"
proof -
  have "set (parse_power_core_cpumask ''0,2-3'' []) = set [] \<union> (\<Union>(l, h) \<in> set (cpu_items ''0,2-3''). {l..h})"
    by (rule cpumask_items) (simp_all add: sample_items items_small_def item_count_def POWER_MAX_CORE_CPUS_def)
  also have "\<dots> = {0..0} \<union> {2..3}" by (simp add: sample_items)
  also have "\<dots> = {0, 2, 3}" by auto
  finally show ?thesis .
qed

lemma power_core_cpus_match_witness: "power_core_cpu_is_representative sample_power 3"
proof -
  have "power_core_cpu_is_representative sample_power (int 3) \<longleftrightarrow> 3 \<in> parse_cpu_list_into_set ''0,2-3'' (int 4) {}"
    by (rule power_core_cpus_match)
      (simp_all add: sample_items items_small_def item_count_def POWER_MAX_CORE_CPUS_def CPU_SETSIZE_def sample_power_def)
  moreover have "3 \<in> parse_cpu_list_into_set ''0,2-3'' (int 4) {}"
    by (simp add: cpu_list_items sample_items CPU_SETSIZE_def)
  ultimately show ?thesis by simp
qed

text \<open>Setting up the per-core energy group of a cpu opens one counter, on that cpu with the event of the
  unit, if the cpu is representative; otherwise nothing is opened and the coverage does not change.\<close>
theorem power_core_group_opens:
  assumes "power_core_counter_group name caps cpu = Some g" and "0 \<le> cpu"
    and "pp_type (pc_core caps) \<noteq> POWER_CORE_NOT_APPLICABLE_DEVICE_TYPE"
  shows "map (\<lambda>(c, _). (oc_type c, oc_config c, oc_pid c, oc_cpu c, oc_group_fd c))
      (su_calls (snd (setup_counters kn True (-1) [g] k cv))) =
    (if power_core_cpu_is_representative caps cpu
     then [(pp_type (pc_core caps), pe_config (build_power_event (pc_core caps)), -1, cpu, -1)] else []) \<and>
    (\<not> power_core_cpu_is_representative caps cpu \<longrightarrow>
       su_coverage (snd (setup_counters kn True (-1) [g] k cv)) = cv \<and>
       fst (setup_counters kn True (-1) [g] k cv) = [g])"
proof -
  have power_bit: "\<not> has_bit COUNTER_POWER_CORE COUNTER_POWER" "has_bit COUNTER_POWER_CORE COUNTER_POWER_CORE"
    by (simp_all add: has_bit_def)
  show ?thesis
  proof (cases "power_core_cpu_is_representative caps cpu")
    case True
    then show ?thesis
      using assms power_bit
      by (auto simp: power_core_counter_group_def setup_counters_def setup_group_def setup_counter_def setup_perf_def
          map_state.simps setup_initial_def perf_open_call_def open_target_def fallback_power_def Let_def
          build_power_event_def counter_info_zero_def split: if_splits prod.splits)
  next
    case False
    then show ?thesis
      using assms power_bit
      by (auto simp: power_core_counter_group_def setup_counters_def setup_group_def setup_counter_def
          map_state.simps setup_initial_def Let_def counter_info_zero_def split: if_splits)
  qed
qed

lemma power_core_group_opens_witness:
  "\<exists>g. power_core_counter_group ''power'' sample_power 1 = Some g \<and>
     su_calls (snd (setup_counters counting_kernel True (-1) [g] 3 coverage_reset)) = []"
proof -
  have "set (pc_core_cpus sample_power) = {0, 2, 3}"
    by (simp add: sample_power_def sample_core_cpus)
  then have n: "\<not> power_core_cpu_is_representative sample_power 1"
    by (simp add: power_core_cpu_is_representative_def)
  obtain g where g: "power_core_counter_group ''power'' sample_power 1 = Some g"
    by (simp add: power_core_counter_group_def sample_power_def sample_core_pmu_def)
  have "pp_type (pc_core sample_power) \<noteq> POWER_CORE_NOT_APPLICABLE_DEVICE_TYPE"
    by (simp add: sample_power_def sample_core_pmu_def POWER_CORE_NOT_APPLICABLE_DEVICE_TYPE_def)
  from power_core_group_opens [OF g _ this, of counting_kernel 3 coverage_reset] n
  have "su_calls (snd (setup_counters counting_kernel True (-1) [g] 3 coverage_reset)) = []" by simp
  with g show ?thesis by blast
qed

end
