(* ===== verification/Metric_Topdown.thy ===== *)
theory Metric_Topdown
  imports Counter_Runtime C_Format Ibs_Probe
begin

text \<open>
  The reports of the topdown counter groups (src/topdown.c, \<open>find_ci_label\<close> to \<open>print_topdown_op\<close>): the level-1 and
  level-2 decomposition of the issue slots for each vendor, its confidence and sanity figures, and the text in each
  output format. What a function prints is a string.
\<close>

section \<open>What the reports read besides the counters\<close>

text \<open>\<open>cpu_info\<close>, the flags \<open>csvflag\<close> and \<open>aflag\<close>, the times of the run, and for the IBS report the sampling
  profile with the sysfs it is probed from.\<close>

record metric_env =
  me_vendor :: cpu_vendor
  me_core0 :: cpu_core_type
  me_cores_available :: u32
  me_csvflag :: bool
  me_aflag :: bool
  me_start :: "int \<times> int"
  me_finish :: "int \<times> int"
  me_sysfs :: sysfs
  me_ibs_profile :: ibs_profile
  me_ibs_params :: ibs_profile_params
  me_zen4_ext :: bool

definition elapsed_seconds :: "metric_env \<Rightarrow> double" where
  "elapsed_seconds env =
     dsub (dsub (dadd (double_of_int (fst (me_finish env))) (ddiv (double_of_int (snd (me_finish env))) (Fin 1000000000)))
       (double_of_int (fst (me_start env)))) (ddiv (double_of_int (snd (me_start env))) (Fin 1000000000))"

section \<open>Pieces\<close>

text \<open>The value of the counter with a label, 0 where there is none.\<close>

definition value_of :: "counter_group \<Rightarrow> string \<Rightarrow> u64" where
  "value_of g label = (case find_ci_label g label of None \<Rightarrow> 0 | Some c \<Rightarrow> ci_value c)"

definition has_label :: "counter_group \<Rightarrow> string \<Rightarrow> bool" where
  "has_label g label \<longleftrightarrow> find_ci_label g label \<noteq> None"

text \<open>A null pointer stands for a counter that is not there.\<close>

definition confidence_ratio :: "counter_info option \<Rightarrow> double" where
  "confidence_ratio cinfo =
     (case cinfo of
        None \<Rightarrow> Fin 0
      | Some c \<Rightarrow>
          if ci_time_enabled c = 0 then Fin 0
          else ddiv (ulong_to_double (ci_time_running c)) (ulong_to_double (ci_time_enabled c)))"

definition confidence_of :: "counter_group \<Rightarrow> string \<Rightarrow> double" where
  "confidence_of g label = confidence_ratio (find_ci_label g label)"

definition safe_sub :: "u64 \<Rightarrow> u64 \<Rightarrow> u64" where
  "safe_sub a b = (if a \<ge> b then a - b else 0)"

definition safe_div :: "double \<Rightarrow> double \<Rightarrow> double" where
  "safe_div num denom = (if denom \<noteq> Fin 0 then ddiv num denom else Fin 0)"

definition safe_ratio :: "u64 \<Rightarrow> u64 \<Rightarrow> double" where
  "safe_ratio a b = safe_div (ulong_to_double a) (ulong_to_double b)"

definition percent_of :: "u64 \<Rightarrow> u64 \<Rightarrow> double" where
  "percent_of a b = dmul (safe_ratio a b) (Fin 100)"

definition per_mille :: "u64 \<Rightarrow> u64 \<Rightarrow> double" where
  "per_mille a b = dmul (safe_ratio a b) (Fin 1000)"

definition plain_ratio :: "u64 \<Rightarrow> u64 \<Rightarrow> double" where
  "plain_ratio a b = ddiv (ulong_to_double a) (ulong_to_double b)"

text \<open>\<open>(double) a / b * 100\<close>, and the same guarded.\<close>

definition plain_percent :: "u64 \<Rightarrow> u64 \<Rightarrow> double" where
  "plain_percent a b = dmul (plain_ratio a b) (Fin 100)"

definition guarded_percent :: "u64 \<Rightarrow> u64 \<Rightarrow> double" where
  "guarded_percent a b = (if b \<noteq> 0 then plain_percent a b else Fin 0)"

text \<open>\<open>%-14lu\<close>.\<close>

definition lu14 :: "u64 \<Rightarrow> string" where
  "lu14 v = pad_right 14 (u_text v)"

definition csv_field :: "nat \<Rightarrow> double \<Rightarrow> string" where
  "csv_field p x = fmt_fixed_w 4 p x @ '',''"

section \<open>Instructions per cycle\<close>

text \<open>The loop keeps the last counter of each label.\<close>

definition last_value :: "counter_group \<Rightarrow> string \<Rightarrow> u64" where
  "last_value g label = fold (\<lambda>c v. if ci_label c = label then ci_value c else v) (cg_cinfo g) 0"

definition giga_hertz :: "metric_env \<Rightarrow> u64 \<Rightarrow> double" where
  "giga_hertz env cycles =
     (let n = double_of_int (int (unat (me_cores_available env))) in
      ddiv (ddiv (ddiv (ddiv (ulong_to_double cycles) (elapsed_seconds env)) (Fin 1000000000)) n)
        (if me_aflag env then n else Fin 1))"

definition print_ipc :: "metric_env \<Rightarrow> counter_group \<Rightarrow> output_format \<Rightarrow> string" where
  "print_ipc env g oformat =
     (let cycles = last_value g ''cpu-cycles''; instructions = last_value g ''instructions'';
          ipc = safe_ratio instructions cycles in
      case oformat of
        PRINT_CSV_HEADER \<Rightarrow> ''ipc,''
      | PRINT_CSV \<Rightarrow> csv_field 2 ipc
      | PRINT_NORMAL \<Rightarrow>
          if cycles = 0 then []
          else
            ''cpu-cycles           '' @ lu14 cycles @ '' # '' @ fmt_fixed_w 4 2 (giga_hertz env cycles) @ '' GHz'' @ newline @
            ''instructions         '' @ lu14 instructions @ '' # '' @ fmt_fixed_w 4 2 ipc @ '' IPC'' @
            (if dlt (Fin 3) ipc then '' high'' else if dlt ipc (dlit (7 / 10)) then '' low'' else []) @ newline)"

section \<open>The decomposition of slots\<close>

record topdown =
  td_slots :: u64
  td_slots_no_contention :: u64
  td_retiring :: u64
  td_frontend :: u64
  td_backend :: u64
  td_speculation :: u64
  td_contention :: u64
  td_retire_ucode :: u64
  td_retire_fastpath :: u64
  td_frontend_latency :: u64
  td_frontend_bandwidth :: u64
  td_backend_cpu :: u64
  td_backend_memory :: u64
  td_speculation_branches :: u64
  td_speculation_pipeline :: u64
  td_too_short :: bool
  td_slots_confidence :: double
  td_retiring_confidence :: double
  td_frontend_confidence :: double
  td_backend_confidence :: double
  td_speculation_confidence :: double

definition topdown_arm :: "counter_group \<Rightarrow> topdown" where
  "topdown_arm g =
     (let retiring = value_of g ''op_retired'';
          slots = (if has_label g ''stall_slot'' then retiring + value_of g ''stall_slot'' else 0);
          frontend = value_of g ''stall_slot_frontend'';
          backend = value_of g ''stall_slot_backend'';
          speculation = safe_sub (value_of g ''op_spec'') retiring;
          memory = value_of g ''stall_backend_mem'';
          latency = value_of g ''stall_frontend'';
          branches = value_of g ''br_mis_pred_retired'' in
      \<lparr>td_slots = slots, td_slots_no_contention = slots, td_retiring = retiring, td_frontend = frontend,
       td_backend = backend, td_speculation = speculation, td_contention = 0, td_retire_ucode = 0,
       td_retire_fastpath = 0, td_frontend_latency = latency, td_frontend_bandwidth = safe_sub frontend latency,
       td_backend_cpu = safe_sub backend memory, td_backend_memory = memory, td_speculation_branches = branches,
       td_speculation_pipeline = safe_sub speculation branches, td_too_short = False,
       td_slots_confidence = confidence_of g ''stall_slot'',
       td_retiring_confidence = confidence_of g ''op_retired'',
       td_frontend_confidence = confidence_of g ''stall_slot_frontend'',
       td_backend_confidence = confidence_of g ''stall_slot_backend'',
       td_speculation_confidence = confidence_of g ''op_spec''\<rparr>)"

text \<open>Of a level-2 counter and its parent: the counter and the rest, or zeros where the counter is missing.\<close>

definition child_of :: "counter_group \<Rightarrow> string \<Rightarrow> u64 \<Rightarrow> u64 \<times> u64" where
  "child_of g label parent =
     (if has_label g label then (value_of g label, safe_sub parent (value_of g label)) else (0, 0))"

definition topdown_intel :: "counter_group \<Rightarrow> topdown" where
  "topdown_intel g =
     (let slots = (if has_label g ''slots'' then value_of g ''slots'' else value_of g ''cpu-cycles'' * 5);
          retiring = value_of g ''core.topdown-retiring'';
          frontend = value_of g ''core.topdown-fe-bound'';
          backend = value_of g ''core.topdown-be-bound'';
          speculation = value_of g ''core.topdown-bad-spec'';
          (memory, cpu) = child_of g ''core.topdown-mem-bound'' backend;
          (branches, pipeline) = child_of g ''core.topdown-br-mispredict'' speculation;
          (latency, bandwidth) = child_of g ''core.topdown-fetch-lat'' frontend;
          (ucode, fastpath) = child_of g ''core.topdown-heavy-ops'' retiring in
      \<lparr>td_slots = slots, td_slots_no_contention = slots, td_retiring = retiring, td_frontend = frontend,
       td_backend = backend, td_speculation = speculation, td_contention = 0, td_retire_ucode = ucode,
       td_retire_fastpath = fastpath, td_frontend_latency = latency, td_frontend_bandwidth = bandwidth,
       td_backend_cpu = cpu, td_backend_memory = memory, td_speculation_branches = branches,
       td_speculation_pipeline = pipeline, td_too_short = False,
       td_slots_confidence = (if has_label g ''slots'' then confidence_of g ''slots'' else confidence_of g ''cpu-cycles''),
       td_retiring_confidence = confidence_of g ''core.topdown-retiring'',
       td_frontend_confidence = confidence_of g ''core.topdown-fe-bound'',
       td_backend_confidence = confidence_of g ''core.topdown-be-bound'',
       td_speculation_confidence = confidence_of g ''core.topdown-bad-spec''\<rparr>)"

text \<open>AMD: the parts of backend, speculation, frontend and retiring.\<close>

definition amd_slots :: "cpu_core_type \<Rightarrow> counter_group \<Rightarrow> u64" where
  "amd_slots core0 g =
     (if core0 = CORE_AMD_ZEN then value_of g ''cpu-cycles'' * 6
      else if core0 = CORE_AMD_ZEN5 \<or> core0 = CORE_AMD_ZEN5C then value_of g ''cpu-cycles'' * 8 else 0)"

definition amd_memory_ratio :: "u64 \<Rightarrow> u64 \<Rightarrow> double" where
  "amd_memory_ratio load_not_complete not_complete =
     (let ratio = plain_ratio load_not_complete not_complete in if dlt (Fin 1) ratio then Fin 1 else ratio)"

definition amd_backend_parts :: "counter_group \<Rightarrow> u64 \<Rightarrow> u64 \<times> u64" where
  "amd_backend_parts g backend =
     (let load = value_of g ''ex_no_retire.load_not_complete''; all = value_of g ''ex_no_retire.not_complete'' in
      if load \<noteq> 0 \<and> all \<noteq> 0 then
        (let memory = double_to_ulong (dmul (ulong_to_double backend) (amd_memory_ratio load all))
         in (memory, safe_sub backend memory))
      else (0, 0))"

definition amd_speculation_parts :: "counter_group \<Rightarrow> u64 \<Rightarrow> u64 \<times> u64" where
  "amd_speculation_parts g speculation =
     (let misp = value_of g ''ex_ret_brn_misp''; resyncs = value_of g ''resyncs_or_nc_redirects'' in
      if misp \<noteq> 0 \<and> resyncs \<noteq> 0 then
        (let pipeline = double_to_ulong
           (ddiv (dmul (ulong_to_double speculation) (ulong_to_double resyncs)) (ulong_to_double (resyncs + misp)))
         in (pipeline, safe_sub speculation pipeline))
      else (0, 0))"

definition amd_frontend_parts :: "counter_group \<Rightarrow> u64 \<Rightarrow> u64 \<times> u64" where
  "amd_frontend_parts g frontend =
     (if has_label g ''de_no_dispatch_per_slot.no_ops_from_frontend.cmask_0x6'' then
        (let latency = min (value_of g ''de_no_dispatch_per_slot.no_ops_from_frontend.cmask_0x6'' * 6) frontend
         in (latency, safe_sub frontend latency))
      else (0, 0))"

definition amd_retire_parts :: "counter_group \<Rightarrow> u64 \<Rightarrow> u64 \<times> u64" where
  "amd_retire_parts g retiring =
     (if has_label g ''ex_ret_ucode_ops'' then
        (let ucode = min (value_of g ''ex_ret_ucode_ops'') retiring in (ucode, safe_sub retiring ucode))
      else (0, 0))"

definition topdown_amd :: "cpu_core_type \<Rightarrow> counter_group \<Rightarrow> topdown" where
  "topdown_amd core0 g =
     (let slots = amd_slots core0 g;
          retiring = value_of g ''ex_ret_ops'';
          frontend = value_of g ''de_no_dispatch_per_slot.no_ops_from_frontend'';
          backend = value_of g ''de_no_dispatch_per_slot.backend_stalls'';
          contention = value_of g ''de_no_dispatch_per_slot.smt_contention'';
          dispatched = find_ci_label g ''de_src_op_disp.all'';
          speculation = (case dispatched of None \<Rightarrow> 0 | Some c \<Rightarrow> safe_sub (ci_value c) retiring);
          (memory, cpu) = amd_backend_parts g backend;
          (pipeline, branches) = amd_speculation_parts g speculation;
          (latency, bandwidth) = amd_frontend_parts g frontend;
          (ucode, fastpath) = amd_retire_parts g retiring in
      \<lparr>td_slots = slots, td_slots_no_contention = slots - contention, td_retiring = retiring, td_frontend = frontend,
       td_backend = backend, td_speculation = speculation, td_contention = contention, td_retire_ucode = ucode,
       td_retire_fastpath = fastpath, td_frontend_latency = latency, td_frontend_bandwidth = bandwidth,
       td_backend_cpu = cpu, td_backend_memory = memory, td_speculation_branches = branches,
       td_speculation_pipeline = pipeline,
       td_too_short = (case dispatched of None \<Rightarrow> False | Some c \<Rightarrow> ci_time_running c = 0),
       td_slots_confidence = confidence_of g ''cpu-cycles'',
       td_retiring_confidence = confidence_of g ''ex_ret_ops'',
       td_frontend_confidence = confidence_of g ''de_no_dispatch_per_slot.no_ops_from_frontend'',
       td_backend_confidence = confidence_of g ''de_no_dispatch_per_slot.backend_stalls'',
       td_speculation_confidence = confidence_ratio dispatched\<rparr>)"

text \<open>\<open>None\<close>: an unknown vendor, for which the function returns.\<close>

definition topdown_of :: "metric_env \<Rightarrow> counter_group \<Rightarrow> topdown option" where
  "topdown_of env g =
     (case me_vendor env of
        VENDOR_ARM \<Rightarrow> Some (topdown_arm g)
      | VENDOR_INTEL \<Rightarrow> Some (topdown_intel g)
      | VENDOR_AMD \<Rightarrow> Some (topdown_amd (me_core0 env) g)
      | VENDOR_UNKNOWN \<Rightarrow> None)"

definition dmin :: "double \<Rightarrow> double \<Rightarrow> double" where
  "dmin x best = (if dlt x best then x else best)"

definition row_confidence :: "topdown \<Rightarrow> double" where
  "row_confidence t =
     dmin (td_speculation_confidence t) (dmin (td_backend_confidence t) (dmin (td_frontend_confidence t)
       (dmin (td_retiring_confidence t) (td_slots_confidence t))))"

definition sanity_pct :: "topdown \<Rightarrow> double" where
  "sanity_pct t =
     (if td_slots_no_contention t \<noteq> 0
      then ddiv (dmul (ulong_to_double (td_retiring t + td_frontend t + td_backend t + td_speculation t)) (Fin 100))
        (ulong_to_double (td_slots_no_contention t)) else Fin 0)"

section \<open>The topdown report\<close>

text \<open>The denominator that \<open>print_topdown\<close> leaves for \<open>print_topdown_be\<close>.\<close>

record shared_slots =
  sh_slots_no_contention :: u64
  sh_valid :: bool

definition shared_initial :: shared_slots where
  "shared_initial = \<lparr>sh_slots_no_contention = 0, sh_valid = False\<rparr>"

definition topdown_header :: string where
  "topdown_header =
     ''retire,frontend,backend,speculate,confidence,sanity,'' @
     ''contention_pct,retire_ucode_pct,retire_fastpath_pct,frontend_latency_pct,'' @
     ''frontend_bandwidth_pct,backend_cpu_pct,backend_memory_pct,spec_branch_pct,spec_pipeline_pct,''"

definition topdown_csv :: "topdown \<Rightarrow> string" where
  "topdown_csv t =
     (let f = (\<lambda>v. csv_field 1 (guarded_percent v (td_slots_no_contention t))) in
      f (td_retiring t) @ f (td_frontend t) @ f (td_backend t) @ f (td_speculation t) @
      csv_field 2 (row_confidence t) @ csv_field 1 (sanity_pct t) @
      csv_field 1 (guarded_percent (td_contention t) (td_slots t)) @
      f (td_retire_ucode t) @ f (td_retire_fastpath t) @ f (td_frontend_latency t) @ f (td_frontend_bandwidth t) @
      f (td_backend_cpu t) @ f (td_backend_memory t) @ f (td_speculation_branches t) @ f (td_speculation_pipeline t))"

text \<open>One level-1 line, and the two level-2 lines below it.\<close>

definition level1_line :: "topdown \<Rightarrow> string \<Rightarrow> u64 \<Rightarrow> rat \<Rightarrow> rat \<Rightarrow> double \<Rightarrow> string" where
  "level1_line t name v high low confidence =
     (let share = plain_ratio v (td_slots_no_contention t) in
      pad_right 21 name @ lu14 v @ '' # '' @ fmt_fixed_w 4 1 (plain_percent v (td_slots t)) @ ''% ('' @
      fmt_fixed_w 4 1 (plain_percent v (td_slots_no_contention t)) @ ''%)'' @
      (if dlt (dlit high) share then '' high'' else if dlt share (dlit low) then '' low'' else []) @
      (if dlt confidence (dlit (9 / 10)) then '' low-confidence('' @ fmt_fixed 0 (dmul confidence (Fin 100)) @ ''%)'' else []) @
      newline)"

definition level2_line :: "topdown \<Rightarrow> string \<Rightarrow> u64 \<Rightarrow> string" where
  "level2_line t name v =
     pad_right 21 name @ lu14 v @ '' #    '' @ fmt_fixed_w 4 1 (plain_percent v (td_slots_no_contention t)) @ ''%'' @ newline"

definition topdown_normal :: "metric_env \<Rightarrow> topdown \<Rightarrow> string" where
  "topdown_normal env t =
     ''slots                '' @ lu14 (td_slots t) @ '' #'' @ newline @
     level1_line t ''retiring'' (td_retiring t) (54 / 100) (14 / 100) (td_retiring_confidence t) @
     (if td_retire_ucode t \<noteq> 0 \<and> td_frontend_bandwidth t \<noteq> 0
      then level2_line t ''-- ucode'' (td_retire_ucode t) @ level2_line t ''-- fastpath'' (td_retire_fastpath t) else []) @
     level1_line t ''frontend'' (td_frontend t) (45 / 100) (5 / 100) (td_frontend_confidence t) @
     (if td_frontend_latency t \<noteq> 0 \<and> td_frontend_bandwidth t \<noteq> 0
      then level2_line t ''-- latency'' (td_frontend_latency t) @ level2_line t ''-- bandwidth'' (td_frontend_bandwidth t)
      else []) @
     level1_line t ''backend'' (td_backend t) (70 / 100) (18 / 100) (td_backend_confidence t) @
     (if td_backend_memory t \<noteq> 0 \<and> td_backend_cpu t \<noteq> 0
      then level2_line t ''-- cpu'' (td_backend_cpu t) @ level2_line t ''-- memory'' (td_backend_memory t) else []) @
     level1_line t ''speculation'' (td_speculation t) (10 / 100) (1 / 100) (td_speculation_confidence t) @
     (if td_speculation_pipeline t \<noteq> 0 \<and> td_speculation_branches t \<noteq> 0
      then level2_line t ''-- branch mispredict'' (td_speculation_branches t) @
        level2_line t ''-- pipeline restart'' (td_speculation_pipeline t) else []) @
     ''smt-contention       '' @ lu14 (td_contention t) @ '' # '' @
       fmt_fixed_w 4 1 (plain_percent (td_contention t) (td_slots t)) @ ''% ( 0.0%)'' @ newline @
     ''sanity check         '' @ fmt_fixed_w 4 1 (sanity_pct t) @ ''% of slots'' @
     (if me_vendor env \<noteq> VENDOR_ARM \<and> dlt (Fin 5) (dabs (dsub (sanity_pct t) (Fin 100)))
      then '' -- retire+frontend+backend+speculate should sum to ~100%, decomposition looks inconsistent'' else []) @
     newline"

definition print_topdown :: "metric_env \<Rightarrow> counter_group \<Rightarrow> output_format \<Rightarrow> string" where
  "print_topdown env g oformat =
     (if oformat = PRINT_CSV_HEADER then topdown_header else []) @
     (case topdown_of env g of
        None \<Rightarrow> []
      | Some t \<Rightarrow>
          (case oformat of
             PRINT_CSV_HEADER \<Rightarrow> []
           | PRINT_CSV \<Rightarrow> topdown_csv t
           | PRINT_NORMAL \<Rightarrow> if td_slots t \<noteq> 0 \<and> \<not> td_too_short t then topdown_normal env t else []))"

text \<open>The warning of a run that was too short, which goes to the log.\<close>

definition topdown_warns :: "metric_env \<Rightarrow> counter_group \<Rightarrow> output_format \<Rightarrow> bool" where
  "topdown_warns env g oformat \<longleftrightarrow>
     (case topdown_of env g of
        None \<Rightarrow> False
      | Some t \<Rightarrow> oformat = PRINT_NORMAL \<and> td_slots t \<noteq> 0 \<and> td_too_short t)"

text \<open>What the call leaves in the shared variables, whatever the format.\<close>

definition share_slots :: "metric_env \<Rightarrow> counter_group \<Rightarrow> shared_slots \<Rightarrow> shared_slots" where
  "share_slots env g sh =
     (case topdown_of env g of
        None \<Rightarrow> sh\<lparr>sh_valid := False\<rparr>
      | Some t \<Rightarrow> \<lparr>sh_slots_no_contention = td_slots_no_contention t, sh_valid = True\<rparr>)"

section \<open>The backend, frontend and op-cache reports\<close>

record backend_stalls =
  bs_cpu_cycles :: u64
  bs_load_stall :: u64
  bs_store_stall :: u64
  bs_l1_miss :: u64
  bs_l2_miss :: u64
  bs_l3_miss :: u64

definition backend_of :: "metric_env \<Rightarrow> counter_group \<Rightarrow> backend_stalls option" where
  "backend_of env g =
     (case me_vendor env of
        VENDOR_ARM \<Rightarrow>
          Some \<lparr>bs_cpu_cycles = value_of g ''cpu-cycles'', bs_load_stall = 0, bs_store_stall = 0, bs_l1_miss = 0,
            bs_l2_miss = 0, bs_l3_miss = value_of g ''stall_backend_mem''\<rparr>
      | VENDOR_INTEL \<Rightarrow>
          Some \<lparr>bs_cpu_cycles = value_of g ''cpu-cycles'', bs_load_stall = value_of g ''exe_activity.bound_on_loads'',
            bs_store_stall = value_of g ''exe_activity.bound_on_stores'',
            bs_l1_miss = value_of g ''memory_activity.stalls_l1d_miss'',
            bs_l2_miss = value_of g ''memory_activity.stalls_l2_miss'',
            bs_l3_miss = value_of g ''memory_activity.stalls_l3_miss''\<rparr>
      | _ \<Rightarrow> None)"

text \<open>The five bounds, from the first cache level to the stores.\<close>

definition backend_bounds :: "backend_stalls \<Rightarrow> u64 list" where
  "backend_bounds b =
     [safe_sub (bs_load_stall b) (bs_l1_miss b), safe_sub (bs_l1_miss b) (bs_l2_miss b),
      safe_sub (bs_l2_miss b) (bs_l3_miss b), bs_l3_miss b, bs_store_stall b]"

text \<open>\<open>(double) a * 100.0 / b\<close>.\<close>

definition percent_after :: "u64 \<Rightarrow> u64 \<Rightarrow> double" where
  "percent_after a b = ddiv (dmul (ulong_to_double a) (Fin 100)) (ulong_to_double b)"

definition backend_line :: "backend_stalls \<Rightarrow> u64 \<Rightarrow> string \<times> string \<times> u64 \<times> u64 \<Rightarrow> string" where
  "backend_line b denom row =
     (let (name, what, v, bound) = row in
      pad_right 21 name @ lu14 v @ '' # '' @ fmt_fixed_w 4 1 (percent_after bound (bs_cpu_cycles b)) @ ''% '' @ what @
      (if denom \<noteq> 0 then '' ('' @ fmt_fixed_w 4 1 (percent_after bound denom) @ ''% of slots)'' else []) @ newline)"

definition print_topdown_be :: "metric_env \<Rightarrow> shared_slots \<Rightarrow> counter_group \<Rightarrow> output_format \<Rightarrow> string" where
  "print_topdown_be env sh g oformat =
     (if oformat = PRINT_CSV_HEADER then
        ''l1_bound,l2_bound,l3_bound,dram_bound,store_bound,l1_bound_slots_pct,l2_bound_slots_pct,'' @
        ''l3_bound_slots_pct,dram_bound_slots_pct,store_bound_slots_pct,''
      else
        (case backend_of env g of
           None \<Rightarrow> []
         | Some b \<Rightarrow>
             (let denom = (if sh_valid sh then sh_slots_no_contention sh else 0) in
              if oformat = PRINT_CSV then
                concat (map (\<lambda>v. csv_field 1 (percent_after v (bs_cpu_cycles b))) (backend_bounds b)) @
                concat (map (\<lambda>v. csv_field 1 (if denom \<noteq> 0 then percent_after v denom else Fin 0)) (backend_bounds b))
              else
                ''cpu-cycles           '' @ lu14 (bs_cpu_cycles b) @ '' # '' @
                fmt_fixed_w 4 1 (percent_after (bs_load_stall b + bs_store_stall b) (bs_cpu_cycles b)) @
                ''% memory latency'' @ newline @
                concat (map (backend_line b denom)
                  (zip [''load stalls'', ''l1 miss'', ''l2 miss'', ''l3 miss'', ''store_stalls'']
                    (zip [''l1 bound'', ''l2 bound'', ''l3 bound'', ''dram bound'', ''store bound'']
                      (zip [bs_load_stall b, bs_l1_miss b, bs_l2_miss b, bs_l3_miss b, bs_store_stall b]
                        (backend_bounds b))))))))"

text \<open>A line of the human report: the name, the value, and a figure with what it is.\<close>

definition metric_line :: "string \<Rightarrow> u64 \<Rightarrow> nat \<Rightarrow> double \<Rightarrow> string \<Rightarrow> string" where
  "metric_line name v p x what = pad_right 21 name @ lu14 v @ '' # '' @ fmt_fixed_w 4 p x @ what @ newline"

definition bare_line :: "string \<Rightarrow> u64 \<Rightarrow> string" where
  "bare_line name v = pad_right 21 name @ lu14 v @ '' #'' @ newline"

text \<open>On other vendors all counters of the two groups below are 0.\<close>

definition amd_value :: "metric_env \<Rightarrow> counter_group \<Rightarrow> string \<Rightarrow> u64" where
  "amd_value env g label = (if me_vendor env = VENDOR_AMD then value_of g label else 0)"

definition print_topdown_fe :: "metric_env \<Rightarrow> counter_group \<Rightarrow> output_format \<Rightarrow> string" where
  "print_topdown_fe env g oformat =
     (let v = amd_value env g; instructions = v ''instructions'';
          icache_miss = v ''ic_tag_hit_miss.instruction_cache_miss'';
          icache_access = v ''ic_tag_hit_miss.instruction_cache_accesses'';
          itlb1 = v ''bp_l1_tlb_miss_l2_tlb_hit''; itlb2 = v ''bp_l1_tlb_miss_l2_tlb_miss.all'';
          tlb_flush = v ''ls_tlb_flush.all'' in
      case oformat of
        PRINT_CSV_HEADER \<Rightarrow> ''icache,itlb1,itlb2,tlbflush,''
      | PRINT_CSV \<Rightarrow>
          csv_field 1 (percent_of icache_miss icache_access) @ csv_field 3 (per_mille (itlb1 + itlb2) instructions) @
          csv_field 3 (per_mille itlb2 instructions) @ csv_field 3 (per_mille tlb_flush instructions)
      | PRINT_NORMAL \<Rightarrow>
          if me_vendor env = VENDOR_AMD then
            bare_line ''instructions'' instructions @
            metric_line ''icache'' icache_access 3 (per_mille icache_access instructions) '' icache per 1000 inst'' @
            metric_line ''icache miss'' icache_miss 1 (percent_of icache_miss icache_access) ''% icache miss rate'' @
            metric_line ''l1 iTLB miss'' (itlb1 + itlb2) 3 (per_mille (itlb1 + itlb2) instructions) '' L1 iTLB per 1000 inst'' @
            metric_line ''l2 iTLB miss'' itlb2 3 (per_mille itlb2 instructions) '' L2 iTLB per 1000 inst'' @
            metric_line ''tlb flush'' tlb_flush 3 (per_mille tlb_flush instructions) '' TLB flush per 1000 inst''
          else [])"

definition print_topdown_op :: "metric_env \<Rightarrow> counter_group \<Rightarrow> output_format \<Rightarrow> string" where
  "print_topdown_op env g oformat =
     (let v = amd_value env g; instructions = v ''instructions'';
          opcache_access = v ''op_cache_hit_miss.all_op_cache_accesses'';
          opcache_miss = v ''op_cache_hit_miss.op_cache_miss'';
          dtlb1 = v ''ls_l1_d_tlb_miss.all''; dtlb2 = v ''ls_l1_d_tlb_miss.all_l2_miss'' in
      case oformat of
        PRINT_CSV_HEADER \<Rightarrow> ''opcache,dtlb1,dtlb2,''
      | PRINT_CSV \<Rightarrow>
          csv_field 1 (percent_of opcache_miss opcache_access) @ csv_field 3 (per_mille dtlb1 instructions) @
          csv_field 3 (per_mille dtlb2 instructions)
      | PRINT_NORMAL \<Rightarrow>
          if me_vendor env = VENDOR_AMD then
            bare_line ''instructions'' instructions @
            metric_line ''opcache'' opcache_access 3 (per_mille opcache_access instructions) '' opcache per 1000 inst'' @
            metric_line ''opcache miss'' opcache_miss 1 (percent_of opcache_miss opcache_access) ''% opcache miss rate'' @
            metric_line ''l1 dTLB miss'' dtlb1 3 (per_mille dtlb1 instructions) '' L1 dTLB per 1000 inst'' @
            metric_line ''l2 dTLB miss'' dtlb2 3 (per_mille dtlb2 instructions) '' L2 dTLB per 1000 inst''
          else [])"

end
