(* ===== verification/Metric_Print.thy ===== *)
theory Metric_Print
  imports Metric_Topdown
begin

text \<open>
  The other reports of src/topdown.c, from \<open>print_branch\<close> to \<open>print_power_core\<close>, the dispatch \<open>print_metrics\<close> over a
  list of groups, and the usage line \<open>print_usage\<close>. What a function prints is a string.
\<close>

section \<open>Branches\<close>

definition branch_labels :: "cpu_vendor \<Rightarrow> (string \<times> string \<times> string \<times> string) option" where
  "branch_labels vendor =
     (case vendor of
        VENDOR_ARM \<Rightarrow> Some (''br_retired'', ''br_mis_pred_retired'', [], [])
      | VENDOR_AMD \<Rightarrow> Some (''branch-instructions'', ''branch-misses'', ''conditional-branches'', ''indirect-branches'')
      | VENDOR_INTEL \<Rightarrow>
          Some (''br_inst_retired.all_branches'', ''br_misp_retired.all_branches'', ''br_inst_retired.cond'',
            ''br_inst_retired.indirect'')
      | VENDOR_UNKNOWN \<Rightarrow> None)"

text \<open>Branches, misses, conditional and indirect branches; 0 where the vendor has no such counter.\<close>

definition branch_values :: "metric_env \<Rightarrow> counter_group \<Rightarrow> u64 \<times> u64 \<times> u64 \<times> u64" where
  "branch_values env g =
     (case branch_labels (me_vendor env) of
        None \<Rightarrow> (0, 0, 0, 0)
      | Some (b, m, c, i) \<Rightarrow>
          (value_of g b, value_of g m, if c = [] then 0 else value_of g c, if i = [] then 0 else value_of g i))"

definition print_branch :: "metric_env \<Rightarrow> counter_group \<Rightarrow> output_format \<Rightarrow> string" where
  "print_branch env g oformat =
     (let instructions = value_of g ''instructions'';
          (branches, branch_miss, cond, ind) = branch_values env g;
          v = value_of g in
      if oformat = PRINT_CSV_HEADER then
        ''branch miss,'' @
        (if me_vendor env = VENDOR_ARM then ''br_immed_retired,br_return_retired,br_pred,br_mis_pred,''
         else if me_vendor env = VENDOR_AMD then ''near_return,near_return_mispredicted,indirect_branch_mispredicted,''
         else [])
      else if me_csvflag env then
        fmt_fixed_w 4 2 (percent_of branch_miss branches) @ ''%,'' @
        (if me_vendor env = VENDOR_ARM then
           u_text (v ''br_immed_retired'') @ '','' @ u_text (v ''br_return_retired'') @ '','' @
           u_text (v ''br_pred'') @ '','' @ u_text (v ''br_mis_pred'') @ '',''
         else if me_vendor env = VENDOR_AMD then
           u_text (v ''near-return'') @ '','' @ u_text (v ''near-return-mispredicted'') @ '','' @
           u_text (v ''indirect-branch-mispredicted'') @ '',''
         else [])
      else
        metric_line ''branches'' branches 3 (per_mille branches instructions) '' branches per 1000 inst'' @
        metric_line ''branch misses'' branch_miss 2 (percent_of branch_miss branches) ''% branch miss'' @
        metric_line ''conditional'' cond 3 (per_mille cond instructions) '' conditional branches per 1000 inst'' @
        metric_line ''indirect'' ind 3 (per_mille ind instructions) '' indirect branches per 1000 inst'' @
        (if me_vendor env = VENDOR_ARM then
           metric_line ''immediate retired'' (v ''br_immed_retired'') 3 (per_mille (v ''br_immed_retired'') instructions)
             '' immediate per 1000 inst'' @
           metric_line ''return retired'' (v ''br_return_retired'') 3 (per_mille (v ''br_return_retired'') instructions)
             '' return per 1000 inst'' @
           metric_line ''predicted executed'' (v ''br_pred'') 3 (per_mille (v ''br_pred'') instructions)
             '' predicted per 1000 inst'' @
           metric_line ''mispredicted exec'' (v ''br_mis_pred'') 3 (per_mille (v ''br_mis_pred'') instructions)
             '' mispredicted per 1000 inst''
         else if me_vendor env = VENDOR_AMD then
           metric_line ''near return'' (v ''near-return'') 3 (per_mille (v ''near-return'') instructions)
             '' near return per 1000 inst'' @
           metric_line ''near ret mispredict'' (v ''near-return-mispredicted'') 2
             (percent_of (v ''near-return-mispredicted'') (v ''near-return'')) ''% near return mispredict rate'' @
           metric_line ''indirect mispredict'' (v ''indirect-branch-mispredicted'') 2
             (percent_of (v ''indirect-branch-mispredicted'') ind) ''% indirect branch mispredict rate''
         else []))"

section \<open>Caches\<close>

definition l2_pair :: "metric_env \<Rightarrow> u64 \<Rightarrow> u64 \<Rightarrow> u64 \<Rightarrow> string" where
  "l2_pair env instructions l2_access l2_miss =
     (if me_csvflag env then fmt_fixed_w 4 2 (percent_of l2_miss l2_access) @ ''%,''
      else
        metric_line ''l2 access'' l2_access 3 (per_mille l2_access instructions) '' l2 access per 1000 inst'' @
        metric_line ''l2 miss'' l2_miss 2 (percent_of l2_miss l2_access) ''% l2 miss'')"

definition print_l2cache :: "metric_env \<Rightarrow> counter_group \<Rightarrow> output_format \<Rightarrow> string" where
  "print_l2cache env g oformat =
     (let instructions = value_of g ''instructions'' in
      if oformat = PRINT_CSV_HEADER then ''l2miss,''
      else
        (case me_vendor env of
           VENDOR_ARM \<Rightarrow> l2_pair env instructions (value_of g ''l2d_cache'') (value_of g ''l2d_cache_lmiss_rd'')
         | VENDOR_INTEL \<Rightarrow> l2_pair env instructions (value_of g ''l2_request.all'') (value_of g ''l2_request.miss'')
         | VENDOR_AMD \<Rightarrow>
             (let no_prefetch = value_of g ''l2_request_g1.all_no_prefetch''; hit_l2 = value_of g ''l2_pf_hit_l2'';
                  hit_l3 = value_of g ''l2_pf_miss_l2_hit_l3''; miss_l3 = value_of g ''l2_pf_miss_l2_l3'';
                  l1_miss_l2_miss = value_of g ''l2_cache_req_stat.ic_dc_miss_in_l2'';
                  l2_access = no_prefetch + hit_l2 + hit_l3 + miss_l3;
                  l2_miss = l1_miss_l2_miss + hit_l3 + miss_l3 in
              if me_csvflag env then fmt_fixed_w 4 2 (percent_of l2_miss l2_access) @ ''%,''
              else
                metric_line ''instructions'' instructions 3 (per_mille l2_access instructions) '' l2 access per 1000 inst'' @
                bare_line ''l2 hit from l1'' no_prefetch @
                metric_line ''l2 miss from l1'' l1_miss_l2_miss 2 (percent_of l2_miss l2_access) ''% l2 miss'' @
                bare_line ''l2 hit from l2 pf'' hit_l2 @ bare_line ''l3 hit from l2 pf'' hit_l3 @
                bare_line ''l3 miss from l2 pf'' miss_l3)
         | VENDOR_UNKNOWN \<Rightarrow> []))"

definition print_l3cache :: "metric_env \<Rightarrow> counter_group \<Rightarrow> output_format \<Rightarrow> string" where
  "print_l3cache env g oformat =
     (if oformat = PRINT_CSV_HEADER then ''l3miss,''
      else if me_vendor env = VENDOR_AMD then
        (let instructions = value_of g ''instructions'';
             l3_access = value_of g ''l3_lookup_state.all_coherent_accesses_to_l3'';
             l3_miss = value_of g ''l3_lookup_state.l3_miss'' in
         if me_csvflag env then fmt_fixed_w 4 2 (percent_of l3_miss l3_access) @ ''%,''
         else
           metric_line ''instructions'' instructions 3 (per_mille l3_access instructions) '' l3 access per 1000 inst'' @
           metric_line ''l3 access'' l3_access 3 (per_mille l3_access instructions) '' l3 access per 1000 inst'' @
           metric_line ''l3 miss'' l3_miss 2 (percent_of l3_miss l3_access) ''% l3 miss'')
      else [])"

text \<open>Megabytes per second of 64-byte lines. The CSV column divides by the integer 1024, the text by 1024.0: the
  same value.\<close>

definition line_bandwidth :: "metric_env \<Rightarrow> u64 \<Rightarrow> double" where
  "line_bandwidth env accesses =
     ddiv (ddiv (ddiv (dmul (ulong_to_double accesses) (Fin 64)) (Fin 1024)) (Fin 1024)) (elapsed_seconds env)"

definition print_memory :: "metric_env \<Rightarrow> counter_group \<Rightarrow> output_format \<Rightarrow> string" where
  "print_memory env g oformat =
     (if oformat = PRINT_CSV_HEADER then ''bandwidth,''
      else
        (case me_vendor env of
           VENDOR_UNKNOWN \<Rightarrow> []
         | VENDOR_ARM \<Rightarrow>
             (let memory_accesses = value_of g ''mem_access'' in
              if me_csvflag env then csv_field 1 (line_bandwidth env memory_accesses)
              else
                bare_line ''memory accesses'' memory_accesses @ bare_line ''bus accesses'' (value_of g ''bus_access'') @
                metric_line ''estimated bandwidth'' memory_accesses 1 (line_bandwidth env memory_accesses) '' MB/s'')
         | _ \<Rightarrow>
             (let local = amd_value env g ''ls_data_cache_refills.local_all'';
                  remote = amd_value env g ''ls_data_cache_refills.remote_all'';
                  prefetch_local = amd_value env g ''ls_hwpref_data_cache_refills.local_all'';
                  prefetch_remote = amd_value env g ''ls_hwpref_data_cache_refills.remote_all'' in
              if me_csvflag env then
                csv_field 1 (line_bandwidth env (local + remote + prefetch_local + prefetch_remote))
              else
                metric_line ''local bandwidth'' (local + prefetch_local) 1
                  (line_bandwidth env (local + prefetch_local)) '' MB/s'' @
                metric_line ''remote bandwidth'' (remote + prefetch_remote) 1
                  (line_bandwidth env (remote + prefetch_remote)) '' MB/s'')))"

text \<open>\<open>name\<close> is short enough for the buffer of 20 bytes that holds it with \<open>miss\<close>.\<close>

definition print_cache ::
  "string \<Rightarrow> string \<Rightarrow> string \<Rightarrow> metric_env \<Rightarrow> counter_group \<Rightarrow> output_format \<Rightarrow> string"
where
  "print_cache name access_counter miss_counter env g oformat =
     (let miss_name = take 19 (name @ '' miss''); instructions = value_of g ''instructions'';
          accesses = value_of g access_counter; misses = value_of g miss_counter in
      if oformat = PRINT_CSV_HEADER then name @ '' miss,''
      else if me_csvflag env then fmt_fixed_w 4 2 (percent_of misses accesses) @ ''%,''
      else
        bare_line ''instructions'' instructions @
        pad_right 20 name @ '' '' @ lu14 accesses @ '' # '' @ fmt_fixed_w 4 3 (per_mille accesses instructions) @ '' '' @
          name @ '' per 1000 inst'' @ newline @
        pad_right 20 miss_name @ '' '' @ lu14 misses @ '' # '' @ fmt_fixed_w 4 2 (percent_of misses accesses) @ ''% '' @
          miss_name @ newline)"

definition print_opcache :: "metric_env \<Rightarrow> counter_group \<Rightarrow> output_format \<Rightarrow> string" where
  "print_opcache =
     print_cache ''opcache'' ''op_cache_hit_miss.all_op_cache_accesses'' ''op_cache_hit_miss.op_cache_miss''"

definition print_dcache :: "metric_env \<Rightarrow> counter_group \<Rightarrow> output_format \<Rightarrow> string" where
  "print_dcache = print_cache ''L1-dcache'' ''l1d-read'' ''l1d-read-miss''"

definition print_icache :: "metric_env \<Rightarrow> counter_group \<Rightarrow> output_format \<Rightarrow> string" where
  "print_icache = print_cache ''L1-icache'' ''l1i-read'' ''l1i-read-miss''"

definition print_itlb :: "metric_env \<Rightarrow> counter_group \<Rightarrow> output_format \<Rightarrow> string" where
  "print_itlb = print_cache ''iTLB'' ''iTLB-loads'' ''iTLB-load-misses''"

definition print_dtlb :: "metric_env \<Rightarrow> counter_group \<Rightarrow> output_format \<Rightarrow> string" where
  "print_dtlb = print_cache ''dTLB'' ''dTLB-loads'' ''dTLB-load-misses''"

section \<open>Floating point\<close>

definition print_float :: "metric_env \<Rightarrow> counter_group \<Rightarrow> output_format \<Rightarrow> string" where
  "print_float env g oformat =
     (if oformat = PRINT_CSV_HEADER then ''float,''
      else if me_vendor env = VENDOR_AMD then
        (let instructions = value_of g ''instructions''; f512 = value_of g ''fp_ret_fops_AVX512'';
             f256 = value_of g ''fp_ret_fops_AVX256''; f128 = value_of g ''fp_ret_fops_AVX128'';
             mmx = value_of g ''fp_ret_fops_MMX''; scalar = value_of g ''fp_ret_fops_scalar'';
             float_all = f512 + f256 + f128 + mmx + scalar in
         if me_csvflag env then fmt_fixed_w 4 2 (percent_of float_all instructions) @ ''%,''
         else
           metric_line ''instructions'' instructions 3 (per_mille float_all instructions) '' float per 1000 inst'' @
           metric_line ''float 512'' f512 3 (per_mille f512 instructions) '' AVX-512 per 1000 inst'' @
           metric_line ''float 256'' f256 3 (per_mille f256 instructions) '' AVX-256 per 1000 inst'' @
           metric_line ''float 128'' f128 3 (per_mille f128 instructions) '' AVX-128 per 1000 inst'' @
           metric_line ''float MMX'' mmx 3 (per_mille mmx instructions) '' MMX per 1000 inst'' @
           metric_line ''float scalar'' scalar 3 (per_mille scalar instructions) '' scalar per 1000 inst'')
      else [])"

section \<open>ARM groups and software events\<close>

text \<open>The three ARM reports have the same body.\<close>

definition plain_counters :: "counter_group \<Rightarrow> counter_info list" where
  "plain_counters g = filter (\<lambda>c. ci_label c \<noteq> ''instructions'') (cg_cinfo g)"

definition arm_line :: "u64 \<Rightarrow> counter_info \<Rightarrow> string" where
  "arm_line instructions c =
     pad_right 20 (ci_label c) @ '' '' @ lu14 (ci_value c) @
     (if instructions > 0 then
        '' # '' @ fmt_fixed_w 4 3 (dmul (plain_ratio (ci_value c) instructions) (Fin 1000)) @ '' per 1000 inst''
      else []) @ newline"

definition print_arm_dcache_mem :: "metric_env \<Rightarrow> counter_group \<Rightarrow> output_format \<Rightarrow> string" where
  "print_arm_dcache_mem env g oformat =
     (if oformat = PRINT_CSV_HEADER then concat (map (\<lambda>c. ci_label c @ '','') (plain_counters g))
      else if me_csvflag env then concat (map (\<lambda>c. u_text (ci_value c) @ '','') (plain_counters g))
      else concat (map (arm_line (value_of g ''instructions'')) (plain_counters g)))"

definition print_arm_icache_tlb :: "metric_env \<Rightarrow> counter_group \<Rightarrow> output_format \<Rightarrow> string" where
  "print_arm_icache_tlb env g oformat =
     (if oformat = PRINT_CSV_HEADER then concat (map (\<lambda>c. ci_label c @ '','') (plain_counters g))
      else if me_csvflag env then concat (map (\<lambda>c. u_text (ci_value c) @ '','') (plain_counters g))
      else concat (map (arm_line (value_of g ''instructions'')) (plain_counters g)))"

definition print_arm_mem_align_tlb :: "metric_env \<Rightarrow> counter_group \<Rightarrow> output_format \<Rightarrow> string" where
  "print_arm_mem_align_tlb env g oformat =
     (if oformat = PRINT_CSV_HEADER then concat (map (\<lambda>c. ci_label c @ '','') (plain_counters g))
      else if me_csvflag env then concat (map (\<lambda>c. u_text (ci_value c) @ '','') (plain_counters g))
      else concat (map (arm_line (value_of g ''instructions'')) (plain_counters g)))"

definition software_line :: "double \<Rightarrow> counter_info \<Rightarrow> string" where
  "software_line task_time c =
     pad_right 20 (ci_label c) @ '' '' @ lu14 (ci_value c) @
     (if ci_label c = ''task-clock'' \<or> ci_label c = ''cpu-clock''
      then '' # '' @ fmt_fixed_w 4 3 (ddiv (ulong_to_double (ci_value c)) (Fin 1000000000)) @ '' seconds''
      else '' # '' @ fmt_fixed_w 4 3 (ddiv (ulong_to_double (ci_value c)) task_time) @ ''/sec'') @ newline"

text \<open>\<open>None\<close>: there is no \<open>task-clock\<close>, and its null pointer is read.\<close>

definition print_software :: "metric_env \<Rightarrow> counter_group \<Rightarrow> output_format \<Rightarrow> string option" where
  "print_software env g oformat =
     (case find_ci_label g ''task-clock'' of
        None \<Rightarrow> None
      | Some task \<Rightarrow>
          (let task_time = ddiv (ulong_to_double (ci_value task)) (Fin 1000000000) in
           Some (if oformat = PRINT_CSV_HEADER then concat (map (\<lambda>c. ci_label c @ '','') (cg_cinfo g))
             else if me_csvflag env then concat (map (\<lambda>c. u_text (ci_value c) @ '','') (cg_cinfo g))
             else concat (map (software_line task_time) (cg_cinfo g)))))"

section \<open>IBS and energy\<close>

text \<open>Accepted samples over all, \<open>-1\<close> where the unfiltered counter is missing or 0.\<close>

definition accepted_ratio :: "counter_group \<Rightarrow> double" where
  "accepted_ratio g =
     (if value_of g ''ibs_op_unfiltered'' > 0
      then plain_ratio (value_of g ''ibs_op'') (value_of g ''ibs_op_unfiltered'') else Fin (-1))"

definition flag_text :: "bool \<Rightarrow> string" where
  "flag_text b = (if b then ''1'' else ''0'')"

definition ibs_events_of :: "metric_env \<Rightarrow> ibs_event \<times> ibs_event" where
  "ibs_events_of env =
     (let caps = ibs_probe (me_sysfs env) in
      (ibs_build_fetch_event (ic_fetch caps) (me_ibs_profile env) (me_ibs_params env),
       ibs_build_op_event (ic_op caps) (me_ibs_profile env) (me_ibs_params env)))"

definition ibs_deep_csv :: "counter_group \<Rightarrow> ibs_event \<Rightarrow> ibs_event \<Rightarrow> string" where
  "ibs_deep_csv g fetch_ev op_ev =
     (let r = accepted_ratio g in
      u_text (value_of g ''ibs_op_unfiltered'') @ '','' @ fmt_fixed 4 (if dle (Fin 0) r then r else Fin 0) @ '','' @
      flag_text (ie_l3missonly_applied op_ev) @ '','' @
      u_text (if ie_ldlat_applied op_ev then ie_ldlat_threshold op_ev else 0) @ '','' @
      u_text (if ie_fetchlat_applied fetch_ev then ie_fetchlat_threshold fetch_ev else 0) @ '','')"

definition ibs_deep_text :: "counter_group \<Rightarrow> ibs_event \<Rightarrow> ibs_event \<Rightarrow> string" where
  "ibs_deep_text g fetch_ev op_ev =
     (let r = accepted_ratio g in
      (if has_label g ''ibs_op_unfiltered''
       then ''ibs_op_unfiltered    '' @ lu14 (value_of g ''ibs_op_unfiltered'') @ newline else []) @
      (if dle (Fin 0) r
       then ''ibs_op_accepted      '' @ fmt_fixed_w 5 1 (dmul r (Fin 100)) @
         ''%          # filtered/unfiltered ratio -- l3missonly/ldlat filtering skews the effective sampling period, see INVESTIGATION.md'' @
         newline else []) @
      (if ie_ldlat_applied op_ev
       then ''ibs_ldlat_threshold  '' @ pad_right 14 (u_text (ie_ldlat_threshold op_ev)) @
         ''# cycles; hardware drops below-threshold loads before they're counted'' @ newline else []) @
      (if ie_fetchlat_applied fetch_ev
       then ''ibs_fetchlat_threshold '' @ pad_right 12 (u_text (ie_fetchlat_threshold fetch_ev)) @ ''# cycles'' @ newline
       else []) @
      (if ie_ldlat_requested op_ev \<and> \<not> ie_ldlat_applied op_ev
       then ''# warning: ldlat filter requested (ibs-memory-deep) but not supported by this kernel/CPU -- ibs_op is unfiltered'' @
         newline else []) @
      (if ie_l3missonly_requested op_ev \<and> \<not> ie_l3missonly_applied op_ev
       then ''# warning: l3missonly filter requested (ibs-memory-deep) but not supported by this kernel/CPU -- ibs_op is unfiltered'' @
         newline else []))"

definition print_ibs :: "metric_env \<Rightarrow> counter_group \<Rightarrow> output_format \<Rightarrow> string" where
  "print_ibs env g oformat =
     (let deep = (me_ibs_profile env = IBS_PROFILE_MEMORY_DEEP); (fetch_ev, op_ev) = ibs_events_of env in
      case oformat of
        PRINT_CSV_HEADER \<Rightarrow>
          ''ibs_fetch,ibs_op,'' @
          (if deep then ''ibs_op_unfiltered,ibs_op_accepted_ratio,ibs_l3missonly,ibs_ldlat_threshold,ibs_fetchlat_threshold,''
           else [])
      | PRINT_CSV \<Rightarrow>
          u_text (value_of g ''ibs_fetch'') @ '','' @ u_text (value_of g ''ibs_op'') @ '','' @
          (if deep then ibs_deep_csv g fetch_ev op_ev else [])
      | PRINT_NORMAL \<Rightarrow>
          ''ibs_fetch            '' @ lu14 (value_of g ''ibs_fetch'') @ newline @
          ''ibs_op               '' @ lu14 (value_of g ''ibs_op'') @
          (if deep \<and> ie_l3missonly_applied op_ev then '' # l3missonly filter active'' else []) @ newline @
          (if deep then ibs_deep_text g fetch_ev op_ev else []))"

text \<open>Joules and watts of an energy counter.\<close>

definition energy_of :: "counter_group \<Rightarrow> string \<Rightarrow> double \<times> double" where
  "energy_of g label =
     (case find_ci_label g label of
        None \<Rightarrow> (Fin 0, Fin 0)
      | Some c \<Rightarrow>
          (ci_scaled_value c,
           if ci_time_enabled c > 0
           then ddiv (ci_scaled_value c) (ddiv (ulong_to_double (ci_time_enabled c)) (Fin 1000000000)) else Fin 0))"

definition energy_report :: "string \<Rightarrow> string \<Rightarrow> string \<Rightarrow> counter_group \<Rightarrow> output_format \<Rightarrow> string" where
  "energy_report joules_name watts_name what g oformat =
     (let (joules, watts) = energy_of g joules_name in
      case oformat of
        PRINT_CSV_HEADER \<Rightarrow> joules_name @ '','' @ watts_name @ '',''
      | PRINT_CSV \<Rightarrow> fmt_fixed 3 joules @ '','' @ fmt_fixed 3 watts @ '',''
      | PRINT_NORMAL \<Rightarrow>
          pad_right 21 joules_name @ pad_right 14 (fmt_fixed 3 joules) @ ''# Joules ('' @ what @
            '' RAPL-equivalent energy counter)'' @ newline @
          pad_right 21 watts_name @ pad_right 14 (fmt_fixed 3 watts) @ ''# average over this measurement window'' @ newline)"

definition print_power :: "metric_env \<Rightarrow> counter_group \<Rightarrow> output_format \<Rightarrow> string" where
  "print_power env = energy_report ''pkg_joules'' ''pkg_watts'' ''package''"

definition print_power_core :: "metric_env \<Rightarrow> counter_group \<Rightarrow> output_format \<Rightarrow> string" where
  "print_power_core env = energy_report ''core_joules'' ''core_watts'' ''per-core''"

section \<open>All groups\<close>

text \<open>The text, the warnings so far, and the shared denominator.\<close>

record report =
  rp_text :: string
  rp_warnings :: nat
  rp_shared :: shared_slots

definition report_initial :: "shared_slots \<Rightarrow> report" where
  "report_initial sh = \<lparr>rp_text = [], rp_warnings = 0, rp_shared = sh\<rparr>"

definition emit :: "string \<Rightarrow> report \<Rightarrow> report" where
  "emit text r = r\<lparr>rp_text := rp_text r @ text\<rparr>"

definition emit_topdown :: "metric_env \<Rightarrow> counter_group \<Rightarrow> output_format \<Rightarrow> report \<Rightarrow> report" where
  "emit_topdown env g oformat r =
     r\<lparr>rp_text := rp_text r @ print_topdown env g oformat,
       rp_warnings := rp_warnings r + (if topdown_warns env g oformat then 1 else 0),
       rp_shared := share_slots env g (rp_shared r)\<rparr>"

text \<open>The cache reports of one group, in their order.\<close>

definition print_cache_group :: "metric_env \<Rightarrow> counter_group \<Rightarrow> output_format \<Rightarrow> string" where
  "print_cache_group env g oformat =
     (if has_bit (cg_mask g) COUNTER_DCACHE then print_dcache env g oformat else []) @
     (if has_bit (cg_mask g) COUNTER_ICACHE then print_icache env g oformat else []) @
     (if has_bit (cg_mask g) COUNTER_TLB then print_dtlb env g oformat @ print_itlb env g oformat else [])"

definition print_group :: "metric_env \<Rightarrow> output_format \<Rightarrow> counter_group \<Rightarrow> report \<Rightarrow> report option" where
  "print_group env f g r =
     (let m = has_bit (cg_mask g) in
      if cg_label g = ''software'' then map_option (\<lambda>t. emit t r) (print_software env g f)
      else if m COUNTER_IPC then Some (emit (print_ipc env g f) r)
      else if m COUNTER_TOPDOWN then Some (emit_topdown env g f r)
      else if m COUNTER_TOPDOWN2 then Some (emit_topdown env g f r)
      else if m COUNTER_TOPDOWN_BE then Some (emit (print_topdown_be env (rp_shared r) g f) r)
      else if m COUNTER_TOPDOWN_FE then Some (emit (print_topdown_fe env g f) r)
      else if m COUNTER_TOPDOWN_OP then Some (emit (print_topdown_op env g f) r)
      else if m COUNTER_BRANCH then Some (emit (print_branch env g f) r)
      else if m COUNTER_L2CACHE then Some (emit (print_l2cache env g f) r)
      else if m COUNTER_L3CACHE then Some (emit (print_l3cache env g f) r)
      else if m COUNTER_OPCACHE then Some (emit (print_opcache env g f) r)
      else if m COUNTER_MEMORY then Some (emit (print_memory env g f) r)
      else if m (COUNTER_DCACHE OR COUNTER_ICACHE OR COUNTER_TLB) then Some (emit (print_cache_group env g f) r)
      else if m COUNTER_FLOAT then Some (emit (print_float env g f) r)
      else if m COUNTER_ARM_DCACHE_MEM then Some (emit (print_arm_dcache_mem env g f) r)
      else if m COUNTER_ARM_ICACHE_TLB then Some (emit (print_arm_icache_tlb env g f) r)
      else if m COUNTER_ARM_MEM_ALIGN_TLB then Some (emit (print_arm_mem_align_tlb env g f) r)
      else if m COUNTER_IBS then Some (emit (print_ibs env g f) r)
      else if m COUNTER_IBS_SAMPLE then Some (emit (print_ibs_sample (me_zen4_ext env) g f) r)
      else if m COUNTER_POWER then Some (emit (print_power env g f) r)
      else if m COUNTER_POWER_CORE then Some (emit (print_power_core env g f) r)
      else Some r)"

fun print_groups :: "metric_env \<Rightarrow> output_format \<Rightarrow> counter_group list \<Rightarrow> report \<Rightarrow> report option" where
  "print_groups env f [] r = Some r"
| "print_groups env f (g # gs) r = Option.bind (print_group env f g r) (print_groups env f gs)"

definition print_metrics :: "metric_env \<Rightarrow> counter_group list \<Rightarrow> output_format \<Rightarrow> shared_slots \<Rightarrow> report option" where
  "print_metrics env gs f sh = print_groups env f gs (report_initial sh)"

section \<open>Resource usage\<close>

record rusage =
  ru_utime :: "int \<times> int"
  ru_stime :: "int \<times> int"
  ru_nvcsw :: u64
  ru_nivcsw :: u64
  ru_inblock :: u64
  ru_oublock :: u64
  ru_maxrss :: u64
  ru_minflt :: u64
  ru_majflt :: u64
  ru_nswap :: u64

text \<open>A \<open>long\<close> field as a number, and as \<open>%ld\<close>.\<close>

definition long_double :: "u64 \<Rightarrow> double" where
  "long_double w = double_of_int (sint w)"

definition ld_text :: "u64 \<Rightarrow> string" where
  "ld_text w = dec_int (sint w)"

definition cpu_seconds :: "int \<times> int \<Rightarrow> double" where
  "cpu_seconds t = dadd (double_of_int (fst t)) (ddiv (double_of_int (snd t)) (Fin 1000000))"

text \<open>\<open>utime.sec + utime.usec + stime.sec + stime.usec\<close>, added from the left.\<close>

definition busy_seconds :: "rusage \<Rightarrow> double" where
  "busy_seconds ru =
     dadd (dadd (cpu_seconds (ru_utime ru)) (double_of_int (fst (ru_stime ru))))
       (ddiv (double_of_int (snd (ru_stime ru))) (Fin 1000000))"

definition usage_line :: "string \<Rightarrow> string \<Rightarrow> double \<Rightarrow> string \<Rightarrow> string" where
  "usage_line name v x what = pad_right 21 name @ pad_right 15 v @ ''# '' @ fmt_fixed_w 4 2 x @ what @ newline"

text \<open>\<open>affinity\<close> is the number of cpus of an active affinity request.\<close>

definition print_usage ::
  "metric_env \<Rightarrow> int \<Rightarrow> nat option \<Rightarrow> rusage \<Rightarrow> output_format \<Rightarrow> string"
where
  "print_usage env num_procs affinity ru oformat =
     (let elapsed = elapsed_seconds env;
          load = ddiv (busy_seconds ru) elapsed;
          on_cpu = ddiv load (double_of_int num_procs);
          switches = long_double (ru_nvcsw ru + ru_nivcsw ru) in
      case oformat of
        PRINT_CSV_HEADER \<Rightarrow> ''elapsed,on_cpu,utime,stime,nvcsw,nivcsw,inblock,oublock,maxrss,minflt,majflt,nswap,''
      | PRINT_CSV \<Rightarrow>
          csv_field 3 elapsed @ csv_field 3 on_cpu @ csv_field 3 (cpu_seconds (ru_utime ru)) @
          csv_field 3 (cpu_seconds (ru_stime ru)) @
          concat (map (\<lambda>v. u_text v @ '','') [ru_nvcsw ru, ru_nivcsw ru, ru_inblock ru, ru_oublock ru]) @
          concat (map (\<lambda>v. ld_text v @ '','') [ru_maxrss ru, ru_minflt ru, ru_majflt ru, ru_nswap ru])
      | PRINT_NORMAL \<Rightarrow>
          ''elapsed              '' @ fmt_fixed_w 4 3 elapsed @ newline @
          ''on_cpu               '' @ fmt_fixed_w 4 3 on_cpu @ ''          # '' @ fmt_fixed_w 4 2 load @ '' / '' @
            d_text (me_cores_available env) @ '' cores'' @
          (case affinity of
             None \<Rightarrow> []
           | Some n \<Rightarrow> if int n < sint (me_cores_available env)
               then '', '' @ dec n @ '' available under --affinity'' else []) @ newline @
          ''utime                '' @ fmt_fixed_w 4 3 (cpu_seconds (ru_utime ru)) @ newline @
          ''stime                '' @ fmt_fixed_w 4 3 (cpu_seconds (ru_stime ru)) @ newline @
          usage_line ''nvcsw'' (u_text (ru_nvcsw ru)) (dmul (ddiv (long_double (ru_nvcsw ru)) switches) (Fin 100)) ''%'' @
          usage_line ''nivcsw'' (u_text (ru_nivcsw ru)) (dmul (ddiv (long_double (ru_nivcsw ru)) switches) (Fin 100)) ''%'' @
          usage_line ''inblock'' (u_text (ru_inblock ru)) (ddiv (long_double (ru_inblock ru)) elapsed) ''/sec'' @
          usage_line ''onblock'' (u_text (ru_oublock ru)) (ddiv (long_double (ru_oublock ru)) elapsed) ''/sec'' @
          usage_line ''maxrss'' (ld_text (ru_maxrss ru)) (ddiv (long_double (ru_maxrss ru)) (Fin 1024)) '' MB'' @
          usage_line ''minflt'' (ld_text (ru_minflt ru)) (ddiv (long_double (ru_minflt ru)) elapsed) ''/sec'' @
          usage_line ''majflt'' (ld_text (ru_majflt ru)) (ddiv (long_double (ru_majflt ru)) elapsed) ''/sec'' @
          usage_line ''nswap'' (ld_text (ru_nswap ru)) (ddiv (long_double (ru_nswap ru)) elapsed) ''/sec'')"

end
