(* ===== verification/Phase.thy ===== *)
theory Phase
  imports Counter_Groups C_Format "HOL-Library.Sublist"
begin

text \<open>
  The phase detector of \<open>--interval\<close> runs (src/phase.c, src/phase.h): every interval's instructions per cycle
  classify the run as warming up, steady or degraded. An abstract machine with three legal moves is refined by the
  detector; a move out of the steady or degraded phase needs two samples in a row.
\<close>

section \<open>The square root of math.h\<close>

text \<open>The integer square root, one binary digit at a time.\<close>

fun isqrt_bits :: "nat \<Rightarrow> nat \<Rightarrow> nat \<Rightarrow> nat" where
  "isqrt_bits 0 n r = r"
| "isqrt_bits (Suc i) n r = isqrt_bits i n (if (r + 2 ^ i) ^ 2 \<le> n then r + 2 ^ i else r)"

definition isqrt :: "nat \<Rightarrow> nat" where
  "isqrt n = isqrt_bits (bit_length n) n 0"

text \<open>Correctly rounded: 55 binary digits of the root and a last one that says whether the rest is zero.\<close>

definition dsqrt_fin :: "rat \<Rightarrow> double" where
  "dsqrt_fin q =
     (let k = 56 - ilog2 q div 2; x = q * pow2 (2 * k); s = isqrt (nat \<lfloor>x\<rfloor>);
          sticky = (if of_nat (s ^ 2) = x then 0 else 1) in
      double_round ((2 * of_nat s + sticky) / 2 / pow2 k))"

fun dsqrt :: "double \<Rightarrow> double" where
  "dsqrt (Fin q) = (if q < 0 then NaN else if q = 0 then Fin 0 else dsqrt_fin q)"
| "dsqrt (Inf s) = (if s then NaN else Inf False)"
| "dsqrt NaN = NaN"

lemma isqrt_bits_spec:
  "r ^ 2 \<le> n \<Longrightarrow> n < (r + 2 ^ i) ^ 2 \<Longrightarrow> (isqrt_bits i n r) ^ 2 \<le> n \<and> n < (isqrt_bits i n r + 1) ^ 2"
proof (induction i n r rule: isqrt_bits.induct)
  case (2 i n r)
  let ?r = "if (r + 2 ^ i) ^ 2 \<le> n then r + 2 ^ i else r"
  have "n < (?r + 2 ^ i) ^ 2" using "2.prems"(2) by (simp add: mult_2 add.assoc)
  moreover have "?r ^ 2 \<le> n" using "2.prems"(1) by simp
  ultimately show ?case using "2.IH" by simp
qed simp

lemma isqrt_spec: "(isqrt n) ^ 2 \<le> n \<and> n < (isqrt n + 1) ^ 2"
proof -
  have "n < (0 + 2 ^ bit_length n) ^ 2"
  proof (cases "n = 0")
    case False
    then have "n < 2 ^ bit_length n" using bit_length_bounds by blast
    also have "\<dots> \<le> (2 ^ bit_length n) ^ 2" by (simp add: power2_eq_square)
    finally show ?thesis by simp
  qed (simp add: bit_length.simps)
  then show ?thesis unfolding isqrt_def by (intro isqrt_bits_spec) simp_all
qed

section \<open>The detector\<close>

datatype wspy_phase = PHASE_WARMUP | PHASE_STEADY | PHASE_DEGRADED

record phase_boundary =
  pb_elapsed_seconds :: double
  pb_from :: wspy_phase
  pb_to :: wspy_phase

text \<open>The linked list of boundaries, appended at its tail, is a list; \<open>window\<close> always has \<open>PHASE_WARMUP_WINDOW\<close>
  elements.\<close>

record phase_detector =
  pd_enabled :: bool
  pd_phase :: wspy_phase
  pd_window :: "double list"
  pd_window_count :: nat
  pd_baseline :: double
  pd_candidate_phase :: wspy_phase
  pd_candidate_streak :: nat
  pd_nsamples :: nat
  pd_boundaries :: "phase_boundary list"

abbreviation PHASE_WARMUP_WINDOW :: nat where "PHASE_WARMUP_WINDOW \<equiv> 3"
abbreviation PHASE_PERSIST_SAMPLES :: nat where "PHASE_PERSIST_SAMPLES \<equiv> 2"
abbreviation PHASE_WARMUP_CV_MAX :: double where "PHASE_WARMUP_CV_MAX \<equiv> dlit (15 / 100)"
abbreviation PHASE_DEGRADED_DROP :: double where "PHASE_DEGRADED_DROP \<equiv> dlit (20 / 100)"
abbreviation PHASE_RECOVER_MARGIN :: double where "PHASE_RECOVER_MARGIN \<equiv> dlit (10 / 100)"
abbreviation PHASE_BASELINE_EMA :: double where "PHASE_BASELINE_EMA \<equiv> dlit (10 / 100)"

definition phase_name :: "wspy_phase \<Rightarrow> string" where
  "phase_name p = (case p of PHASE_WARMUP \<Rightarrow> ''warmup'' | PHASE_STEADY \<Rightarrow> ''steady'' | PHASE_DEGRADED \<Rightarrow> ''degraded'')"

text \<open>The flags: the interval in seconds, \<open>--phase-detect\<close>, the counter mask and \<open>--per-core\<close>.\<close>

definition phase_detect_is_available :: "nat \<Rightarrow> bool \<Rightarrow> u32 \<Rightarrow> bool \<Rightarrow> bool" where
  "phase_detect_is_available interval phase_flag counter_mask aflag \<longleftrightarrow>
     interval \<noteq> 0 \<and> phase_flag \<and> has_bit counter_mask COUNTER_IPC \<and> \<not> aflag"

definition phase_detector_init :: "bool \<Rightarrow> phase_detector" where
  "phase_detector_init enabled =
     \<lparr>pd_enabled = enabled, pd_phase = PHASE_WARMUP, pd_window = replicate PHASE_WARMUP_WINDOW (Fin 0),
      pd_window_count = 0, pd_baseline = Fin 0, pd_candidate_phase = PHASE_WARMUP, pd_candidate_streak = 0,
      pd_nsamples = 0, pd_boundaries = []\<rparr>"

definition phase_record_boundary :: "wspy_phase \<Rightarrow> wspy_phase \<Rightarrow> double \<Rightarrow> phase_detector \<Rightarrow> phase_detector" where
  "phase_record_boundary from to t pd =
     pd\<lparr>pd_boundaries := pd_boundaries pd @ [\<lparr>pb_elapsed_seconds = t, pb_from = from, pb_to = to\<rparr>]\<rparr>"

definition phase_commit_transition :: "wspy_phase \<Rightarrow> double \<Rightarrow> phase_detector \<Rightarrow> phase_detector" where
  "phase_commit_transition to t pd =
     (phase_record_boundary (pd_phase pd) to t pd)
       \<lparr>pd_phase := to, pd_candidate_streak := 0, pd_candidate_phase := to\<rparr>"

text \<open>The first counter of each label in the groups with the IPC bit, up to the group where both are there.\<close>

fun ipc_counters ::
  "counter_info option \<Rightarrow> counter_info option \<Rightarrow> counter_group list \<Rightarrow> counter_info option \<times> counter_info option"
where
  "ipc_counters cycles instructions [] = (cycles, instructions)"
| "ipc_counters cycles instructions (g # gs) =
     (if \<not> has_bit (cg_mask g) COUNTER_IPC then ipc_counters cycles instructions gs
      else
        (let c = (if cycles = None then find_ci_label g ''cpu-cycles'' else cycles);
             i = (if instructions = None then find_ci_label g ''instructions'' else instructions) in
         if c \<noteq> None \<and> i \<noteq> None then (c, i) else ipc_counters c i gs))"

definition phase_current_ipc :: "counter_group list \<Rightarrow> double" where
  "phase_current_ipc gs =
     (case ipc_counters None None gs of
        (Some cycles, Some instructions) \<Rightarrow>
          if ci_time_running cycles = 0 \<or> ci_time_running instructions = 0 then Fin (-1)
          else if ci_value cycles = 0 then Fin (-1)
          else ddiv (ulong_to_double (ci_value instructions)) (ulong_to_double (ci_value cycles))
      | _ \<Rightarrow> Fin (-1))"

definition push_window :: "double \<Rightarrow> phase_detector \<Rightarrow> phase_detector" where
  "push_window ipc pd =
     (if pd_window_count pd < PHASE_WARMUP_WINDOW
      then pd\<lparr>pd_window := (pd_window pd)[pd_window_count pd := ipc], pd_window_count := pd_window_count pd + 1\<rparr>
      else pd\<lparr>pd_window := tl (pd_window pd) @ [ipc]\<rparr>)"

definition window_mean :: "double list \<Rightarrow> double" where
  "window_mean w = ddiv (fold (\<lambda>x m. dadd m x) w (Fin 0)) (Fin 3)"

definition window_variance :: "double list \<Rightarrow> double" where
  "window_variance w =
     (let mean = window_mean w in
      ddiv (fold (\<lambda>x v. dadd v (dmul (dsub x mean) (dsub x mean))) w (Fin 0)) (Fin 3))"

definition update_warmup :: "double \<Rightarrow> double \<Rightarrow> phase_detector \<Rightarrow> phase_detector" where
  "update_warmup ipc t pd =
     (let pd1 = push_window ipc pd; mean = window_mean (pd_window pd1) in
      if pd_window_count pd1 = PHASE_WARMUP_WINDOW \<and> dlt (Fin 0) mean \<and>
         dle (ddiv (dsqrt (window_variance (pd_window pd1))) mean) PHASE_WARMUP_CV_MAX
      then phase_commit_transition PHASE_STEADY t (pd1\<lparr>pd_baseline := mean\<rparr>)
      else pd1)"

text \<open>Where a sample points to, relative to the baseline.\<close>

definition phase_target :: "wspy_phase \<Rightarrow> double \<Rightarrow> double \<Rightarrow> wspy_phase" where
  "phase_target phase baseline ipc =
     (let ratio = (if dlt (Fin 0) baseline then ddiv ipc baseline else Fin 1) in
      if phase = PHASE_STEADY \<and> dle ratio (dsub (Fin 1) PHASE_DEGRADED_DROP) then PHASE_DEGRADED
      else if phase = PHASE_DEGRADED \<and> dle (dadd (dsub (Fin 1) PHASE_DEGRADED_DROP) PHASE_RECOVER_MARGIN) ratio
        then PHASE_STEADY
      else phase)"

definition update_settled :: "double \<Rightarrow> double \<Rightarrow> phase_detector \<Rightarrow> phase_detector" where
  "update_settled ipc t pd =
     (let target = phase_target (pd_phase pd) (pd_baseline pd) ipc in
      if target \<noteq> pd_phase pd then
        (let streak = (if pd_candidate_phase pd = target then pd_candidate_streak pd + 1 else 1);
             pd1 = pd\<lparr>pd_candidate_phase := target, pd_candidate_streak := streak\<rparr> in
         if streak \<ge> PHASE_PERSIST_SAMPLES then
           (let pd2 = phase_commit_transition target t pd1 in
            if target = PHASE_STEADY then pd2\<lparr>pd_baseline := ipc\<rparr> else pd2)
         else pd1)
      else
        (let pd1 = pd\<lparr>pd_candidate_streak := 0, pd_candidate_phase := pd_phase pd\<rparr> in
         if pd_phase pd = PHASE_STEADY then
           pd1\<lparr>pd_baseline := dadd (dmul (dsub (Fin 1) PHASE_BASELINE_EMA) (pd_baseline pd)) (dmul PHASE_BASELINE_EMA ipc)\<rparr>
         else pd1))"

text \<open>Every path returns the phase afterwards, so the result is the \<open>pd_phase\<close> of the new state.\<close>

definition phase_detector_update :: "phase_detector \<Rightarrow> double \<Rightarrow> double \<Rightarrow> phase_detector" where
  "phase_detector_update pd ipc t =
     (if \<not> pd_enabled pd \<or> dlt ipc (Fin 0) then pd
      else
        (let pd1 = pd\<lparr>pd_nsamples := pd_nsamples pd + 1\<rparr> in
         if pd_phase pd = PHASE_WARMUP then update_warmup ipc t pd1 else update_settled ipc t pd1))"

definition phase_print_boundaries :: "phase_detector \<Rightarrow> string" where
  "phase_print_boundaries pd =
     (if \<not> pd_enabled pd \<or> pd_boundaries pd = [] then []
      else
        ''phase boundaries:'' @ newline @
        concat (map (\<lambda>b. ''  '' @ fmt_fixed_w 6 1 (pb_elapsed_seconds b) @ ''s  '' @ pad_right 8 (phase_name (pb_from b)) @
          '' -> '' @ phase_name (pb_to b) @ newline) (pd_boundaries pd)))"

text \<open>The samples of a run, one per interval with its time.\<close>

definition feed :: "(double \<times> double) list \<Rightarrow> phase_detector \<Rightarrow> phase_detector" where
  "feed samples pd = fold (\<lambda>(ipc, t) d. phase_detector_update d ipc t) samples pd"

section \<open>The abstract machine\<close>

text \<open>Warm-up ends once; afterwards steady and degraded phases alternate.\<close>

inductive phase_next :: "wspy_phase \<Rightarrow> wspy_phase \<Rightarrow> bool" where
  warmed_up: "phase_next PHASE_WARMUP PHASE_STEADY"
| degrades: "phase_next PHASE_STEADY PHASE_DEGRADED"
| recovers: "phase_next PHASE_DEGRADED PHASE_STEADY"

text \<open>A record of moves that leads from one phase to another.\<close>

inductive phase_moves :: "wspy_phase \<Rightarrow> phase_boundary list \<Rightarrow> wspy_phase \<Rightarrow> bool" where
  stays: "phase_moves p [] p"
| moves: "phase_moves p bs q \<Longrightarrow> phase_next q r \<Longrightarrow>
    phase_moves p (bs @ [\<lparr>pb_elapsed_seconds = t, pb_from = q, pb_to = r\<rparr>]) r"

inductive_cases phase_nextE [elim!]: "phase_next p q"
inductive_simps phase_next_simps [simp]: "phase_next PHASE_WARMUP q" "phase_next PHASE_STEADY q" "phase_next PHASE_DEGRADED q"
inductive_simps phase_moves_Nil [simp]: "phase_moves p [] q"

text \<open>The warm-up is never entered again.\<close>

lemma phase_moves_no_warmup: "phase_moves p bs q \<Longrightarrow> b \<in> set bs \<Longrightarrow> pb_to b \<noteq> PHASE_WARMUP"
  by (induction rule: phase_moves.induct) auto

section \<open>One sample\<close>

lemma phase_target_next:
  "phase_target p b ipc \<noteq> p \<Longrightarrow> p \<noteq> PHASE_WARMUP \<and> phase_next p (phase_target p b ipc)"
  by (cases p) (auto simp: phase_target_def Let_def split: if_splits)

lemma commit_fields [simp]:
  "pd_phase (phase_commit_transition to t pd) = to"
  "pd_boundaries (phase_commit_transition to t pd) =
    pd_boundaries pd @ [\<lparr>pb_elapsed_seconds = t, pb_from = pd_phase pd, pb_to = to\<rparr>]"
  "pd_candidate_streak (phase_commit_transition to t pd) = 0"
  "pd_candidate_phase (phase_commit_transition to t pd) = to"
  "pd_enabled (phase_commit_transition to t pd) = pd_enabled pd"
  "pd_baseline (phase_commit_transition to t pd) = pd_baseline pd"
  "pd_window (phase_commit_transition to t pd) = pd_window pd"
  "pd_window_count (phase_commit_transition to t pd) = pd_window_count pd"
  by (simp_all add: phase_commit_transition_def phase_record_boundary_def)

lemma push_window_fields [simp]:
  "pd_phase (push_window x pd) = pd_phase pd" "pd_boundaries (push_window x pd) = pd_boundaries pd"
  "pd_candidate_streak (push_window x pd) = pd_candidate_streak pd" "pd_enabled (push_window x pd) = pd_enabled pd"
  by (simp_all add: push_window_def)

text \<open>What a sample can do: nothing visible, or one legal move with its boundary.\<close>

lemma update_moves:
  "(pd_phase (phase_detector_update pd x t) = pd_phase pd \<and>
    pd_boundaries (phase_detector_update pd x t) = pd_boundaries pd) \<or>
   (\<exists>r. phase_next (pd_phase pd) r \<and> pd_phase (phase_detector_update pd x t) = r \<and>
    pd_boundaries (phase_detector_update pd x t) =
      pd_boundaries pd @ [\<lparr>pb_elapsed_seconds = t, pb_from = pd_phase pd, pb_to = r\<rparr>])"
proof (cases "\<not> pd_enabled pd \<or> dlt x (Fin 0)")
  case True
  then show ?thesis by (auto simp: phase_detector_update_def)
next
  case on: False
  show ?thesis
  proof (cases "pd_phase pd = PHASE_WARMUP")
    case True
    with on show ?thesis by (simp add: phase_detector_update_def update_warmup_def Let_def)
  next
    case False
    then have u: "phase_detector_update pd x t = update_settled x t (pd\<lparr>pd_nsamples := pd_nsamples pd + 1\<rparr>)"
      using on by (simp add: phase_detector_update_def)
    show ?thesis
    proof (cases "phase_target (pd_phase pd) (pd_baseline pd) x = pd_phase pd")
      case True
      then show ?thesis unfolding u by (simp add: update_settled_def Let_def)
    next
      case away: False
      then have "phase_next (pd_phase pd) (phase_target (pd_phase pd) (pd_baseline pd) x)"
        using phase_target_next by blast
      with away False show ?thesis
        unfolding u by (auto simp: update_settled_def Let_def)
    qed
  qed
qed

lemma feed_simps [simp]:
  "feed [] pd = pd" "feed (xs @ [(x, t)]) pd = phase_detector_update (feed xs pd) x t"
  by (simp_all add: feed_def)

lemma feed_append: "feed (xs @ ys) pd = feed ys (feed xs pd)"
  by (simp add: feed_def)

lemma update_enabled [simp]: "pd_enabled (phase_detector_update pd x t) = pd_enabled pd"
  by (simp add: phase_detector_update_def update_warmup_def update_settled_def Let_def)

section \<open>Properties\<close>

text \<open>The boundaries the detector keeps are a record of legal moves from the warm-up to its current phase, each
  starting where the one before ended, at the time of a sample and in the order of the samples.\<close>

theorem phase_boundaries_legal:
  "phase_moves PHASE_WARMUP (pd_boundaries (feed samples (phase_detector_init enabled)))
     (pd_phase (feed samples (phase_detector_init enabled))) \<and>
   subseq (map pb_elapsed_seconds (pd_boundaries (feed samples (phase_detector_init enabled)))) (map snd samples)"
proof (induction samples rule: rev_induct)
  case Nil
  show ?case by (simp add: phase_detector_init_def)
next
  case (snoc s samples)
  obtain x t where s: "s = (x, t)" by (cases s)
  let ?pd = "feed samples (phase_detector_init enabled)"
  from update_moves [of ?pd x t] show ?case
  proof (elim disjE exE conjE)
    assume "pd_phase (phase_detector_update ?pd x t) = pd_phase ?pd"
      "pd_boundaries (phase_detector_update ?pd x t) = pd_boundaries ?pd"
    with snoc show ?thesis by (simp add: s list_emb_prefix)
  next
    fix r assume "phase_next (pd_phase ?pd) r" "pd_phase (phase_detector_update ?pd x t) = r"
      "pd_boundaries (phase_detector_update ?pd x t) =
        pd_boundaries ?pd @ [\<lparr>pb_elapsed_seconds = t, pb_from = pd_phase ?pd, pb_to = r\<rparr>]"
    with snoc moves show ?thesis by (simp add: s list_emb_append_mono)
  qed
qed

text \<open>A sample that would leave the current phase.\<close>

definition points_away :: "phase_detector \<Rightarrow> double \<Rightarrow> bool" where
  "points_away pd x \<longleftrightarrow> \<not> dlt x (Fin 0) \<and> phase_target (pd_phase pd) (pd_baseline pd) x \<noteq> pd_phase pd"

text \<open>A candidate is pending exactly after a sample that points away.\<close>

definition pending :: "(double \<times> double) list \<Rightarrow> phase_detector \<Rightarrow> phase_detector \<Rightarrow> bool" where
  "pending xs pd0 pd \<longleftrightarrow>
     (\<exists>ys y u zs. xs = ys @ (y, u) # zs \<and> (\<forall>z \<in> set zs. dlt (fst z) (Fin 0)) \<and>
       pd_phase (feed ys pd0) = pd_phase pd \<and> pd_baseline (feed ys pd0) = pd_baseline pd \<and>
       points_away (feed ys pd0) y)"

definition streak_ok :: "(double \<times> double) list \<Rightarrow> phase_detector \<Rightarrow> phase_detector \<Rightarrow> bool" where
  "streak_ok xs pd0 pd \<longleftrightarrow>
     pd_candidate_streak pd \<le> 1 \<and> (pd_phase pd = PHASE_WARMUP \<longrightarrow> pd_candidate_streak pd = 0) \<and>
     (pd_candidate_streak pd = 1 \<longrightarrow> pending xs pd0 pd)"

lemma pending_invalid: "pending xs pd0 pd \<Longrightarrow> dlt x (Fin 0) \<Longrightarrow> pending (xs @ [(x, t)]) pd0 pd"
  unfolding pending_def
proof (elim exE conjE)
  fix ys y u zs assume "xs = ys @ (y, u) # zs" "\<forall>z \<in> set zs. dlt (fst z) (Fin 0)" "dlt x (Fin 0)"
    "pd_phase (feed ys pd0) = pd_phase pd" "pd_baseline (feed ys pd0) = pd_baseline pd" "points_away (feed ys pd0) y"
  then have "xs @ [(x, t)] = ys @ (y, u) # zs @ [(x, t)] \<and> (\<forall>z \<in> set (zs @ [(x, t)]). dlt (fst z) (Fin 0)) \<and>
      pd_phase (feed ys pd0) = pd_phase pd \<and> pd_baseline (feed ys pd0) = pd_baseline pd \<and>
      points_away (feed ys pd0) y"
    by auto
  then show "\<exists>ys y u zs. xs @ [(x, t)] = ys @ (y, u) # zs \<and> (\<forall>z \<in> set zs. dlt (fst z) (Fin 0)) \<and>
      pd_phase (feed ys pd0) = pd_phase pd \<and> pd_baseline (feed ys pd0) = pd_baseline pd \<and>
      points_away (feed ys pd0) y"
    by blast
qed

lemma streak_ok_feed:
  assumes "pd_enabled pd0" and "pd_phase pd0 = PHASE_WARMUP" and "pd_candidate_streak pd0 = 0"
  shows "pd_enabled (feed xs pd0) \<and> streak_ok xs pd0 (feed xs pd0)"
proof (induction xs rule: rev_induct)
  case Nil
  show ?case using assms by (simp add: streak_ok_def)
next
  case (snoc s xs)
  obtain x t where s: "s = (x, t)" by (cases s)
  let ?pd = "feed xs pd0"
  have on: "pd_enabled ?pd" and ih: "streak_ok xs pd0 ?pd" using snoc by simp_all
  have "streak_ok (xs @ [(x, t)]) pd0 (phase_detector_update ?pd x t)"
  proof (cases "dlt x (Fin 0)")
    case True
    then have "phase_detector_update ?pd x t = ?pd" by (simp add: phase_detector_update_def)
    with ih True pending_invalid show ?thesis by (simp add: streak_ok_def)
  next
    case valid: False
    show ?thesis
    proof (cases "pd_phase ?pd = PHASE_WARMUP")
      case True
      with on valid ih show ?thesis
        by (simp add: streak_ok_def phase_detector_update_def update_warmup_def Let_def)
    next
      case settled: False
      let ?target = "phase_target (pd_phase ?pd) (pd_baseline ?pd) x"
      have u: "phase_detector_update ?pd x t = update_settled x t (?pd\<lparr>pd_nsamples := pd_nsamples ?pd + 1\<rparr>)"
        using on valid settled by (simp add: phase_detector_update_def)
      show ?thesis
      proof (cases "?target = pd_phase ?pd")
        case True
        with settled show ?thesis unfolding u by (simp add: streak_ok_def update_settled_def Let_def)
      next
        case away: False
        then have pend: "pending (xs @ [(x, t)]) pd0 ?pd"
          unfolding pending_def points_away_def using valid
          by - (rule exI [of _ xs], rule exI [of _ x], rule exI [of _ t], rule exI [of _ "[]"], simp)
        have tgt: "?target \<noteq> PHASE_WARMUP" using phase_target_next [OF away] by auto
        from away pend settled tgt show ?thesis
          unfolding u by (auto simp: streak_ok_def update_settled_def Let_def pending_def)
      qed
    qed
  qed
  then show ?case using on by (simp add: s)
qed

text \<open>Hysteresis: once the run is warmed up, a sample changes the phase only if the last sample taken before it
  pointed the same way, out of the same phase and against the same baseline: one noisy interval never does.\<close>

theorem phase_needs_two_samples:
  assumes "pd = feed samples (phase_detector_init True)" and "pd_phase pd \<noteq> PHASE_WARMUP"
    and "pd_phase (phase_detector_update pd x t) \<noteq> pd_phase pd"
  shows "points_away pd x \<and>
    (\<exists>ys y u zs. samples = ys @ (y, u) # zs \<and> (\<forall>z \<in> set zs. dlt (fst z) (Fin 0)) \<and>
      pd_phase (feed ys (phase_detector_init True)) = pd_phase pd \<and>
      pd_baseline (feed ys (phase_detector_init True)) = pd_baseline pd \<and>
      points_away (feed ys (phase_detector_init True)) y)"
proof -
  let ?init = "phase_detector_init True"
  have "pd_enabled ?init" "pd_phase ?init = PHASE_WARMUP" "pd_candidate_streak ?init = 0"
    by (simp_all add: phase_detector_init_def)
  from streak_ok_feed [OF this, of samples] have on: "pd_enabled pd" and ok: "streak_ok samples ?init pd"
    by (simp_all add: assms(1))
  have valid: "\<not> dlt x (Fin 0)" using assms(3) by (auto simp: phase_detector_update_def)
  let ?target = "phase_target (pd_phase pd) (pd_baseline pd) x"
  have u: "phase_detector_update pd x t = update_settled x t (pd\<lparr>pd_nsamples := pd_nsamples pd + 1\<rparr>)"
    using on valid assms(2) by (simp add: phase_detector_update_def)
  have away: "?target \<noteq> pd_phase pd"
    using assms(3) unfolding u by (auto simp: update_settled_def Let_def split: if_splits)
  moreover have "pd_candidate_streak pd = 1"
    using assms(3) ok unfolding u by (auto simp: update_settled_def streak_ok_def Let_def split: if_splits)
  ultimately show ?thesis
    using ok valid unfolding streak_ok_def pending_def points_away_def by blast
qed

text \<open>Three steady intervals, then two in which nothing is executed.\<close>

lemma round_small_int: "double_round 1 = Fin 1" "double_round 2 = Fin 2" "double_round 3 = Fin 3"
  using double_of_int_exact [of 1] double_of_int_exact [of 2] double_of_int_exact [of 3]
  by (simp_all add: double_of_int_def)

lemma stalled_target: "phase_target PHASE_STEADY (Fin 1) (Fin 0) = PHASE_DEGRADED"
proof -
  obtain r where r: "PHASE_DEGRADED_DROP = Fin r" "r \<le> 1" using double_round_pow2 [of "20 / 100" 0] by auto
  then have "0 \<le> 1 - r" "1 - r \<le> 2 ^ 1 \<or> 1 < - r" by auto
  moreover have "0 \<le> r" using double_round_pow2 [of "20 / 100" 0] r(1) by auto
  ultimately obtain d where "double_round (1 - r) = Fin d" "0 \<le> d" using double_round_pow2 [of "1 - r" 1] by auto
  then show ?thesis using r(1) by (simp add: phase_target_def Let_def dsub_def)
qed

lemma warm_run:
  "\<exists>w n bs. feed [(Fin 1, Fin 1), (Fin 1, Fin 2), (Fin 1, Fin 3)] (phase_detector_init True) =
     \<lparr>pd_enabled = True, pd_phase = PHASE_STEADY, pd_window = w, pd_window_count = 3, pd_baseline = Fin 1,
      pd_candidate_phase = PHASE_STEADY, pd_candidate_streak = 0, pd_nsamples = n, pd_boundaries = bs\<rparr>"
proof -
  obtain r where "PHASE_WARMUP_CV_MAX = Fin r" "0 \<le> r" using double_round_pow2 [of "15 / 100" 0] by auto
  then show ?thesis
    by (simp add: feed_def phase_detector_update_def phase_detector_init_def update_warmup_def push_window_def
        window_mean_def window_variance_def Let_def round_small_int dsub_def phase_commit_transition_def
        phase_record_boundary_def numeral_2_eq_2 numeral_3_eq_3)
qed

lemma stalled_run:
  assumes "pd = feed [(Fin 1, Fin 1), (Fin 1, Fin 2), (Fin 1, Fin 3), (Fin 0, Fin 4)] (phase_detector_init True)"
  shows "pd_phase pd = PHASE_STEADY \<and> pd_phase (phase_detector_update pd (Fin 0) (Fin 5)) = PHASE_DEGRADED"
proof -
  have "pd = phase_detector_update (feed [(Fin 1, Fin 1), (Fin 1, Fin 2), (Fin 1, Fin 3)] (phase_detector_init True))
      (Fin 0) (Fin 4)"
    by (simp add: assms feed_def)
  with warm_run obtain w n bs where pd: "pd = \<lparr>pd_enabled = True, pd_phase = PHASE_STEADY, pd_window = w,
      pd_window_count = 3, pd_baseline = Fin 1, pd_candidate_phase = PHASE_DEGRADED, pd_candidate_streak = 1,
      pd_nsamples = n, pd_boundaries = bs\<rparr>"
    by (fastforce simp: phase_detector_update_def update_settled_def stalled_target Let_def)
  show ?thesis
    unfolding pd by (simp add: phase_detector_update_def update_settled_def stalled_target Let_def)
qed

lemma phase_needs_two_samples_witness:
  "let pd = feed [(Fin 1, Fin 1), (Fin 1, Fin 2), (Fin 1, Fin 3), (Fin 0, Fin 4)] (phase_detector_init True)
   in pd_phase (phase_detector_update pd (Fin 0) (Fin 5)) = PHASE_DEGRADED \<and> points_away pd (Fin 0)"
proof -
  let ?xs = "[(Fin 1, Fin 1), (Fin 1, Fin 2), (Fin 1, Fin 3), (Fin 0, Fin 4)]"
  let ?pd = "feed ?xs (phase_detector_init True)"
  from stalled_run [of ?pd] show ?thesis
    using phase_needs_two_samples [of ?pd ?xs "Fin 0" "Fin 5"] by simp
qed

end
