(* ===== verification/Gpu_Fusion.thy ===== *)
theory Gpu_Fusion
  imports C_Text Counter_Model
begin

text \<open>
  The fused GPU metrics (src/gpu_fusion.c and \<open>print_gpu_metrics\<close> of src/topdown.c): which of the two backends each
  metric comes from. What the backends read is a parameter, \<open>gpu_fusion_source_data\<close>.
\<close>

type_synonym u16 = "16 word"

datatype gpu_metric_source = GPU_SOURCE_NONE | GPU_SOURCE_SYSFS | GPU_SOURCE_SMI

text \<open>The power is a \<open>float\<close>, read here as the \<open>double\<close> it is printed as.\<close>

record gpu_fusion_source_data =
  gs_sysfs_metrics_valid :: bool
  gs_sysfs_temp_c :: u32
  gs_sysfs_activity_pct :: u16
  gs_sysfs_power_w :: double
  gs_sysfs_freq_mhz :: u16
  gs_smi_metrics_valid :: bool
  gs_smi_temp_c :: u16
  gs_smi_activity_pct :: u16
  gs_smi_memory_valid :: bool
  gs_smi_vram_used_mb :: u32
  gs_smi_vram_total_mb :: u32

text \<open>The static variables.\<close>

record gpu_fusion =
  gf_temp_valid :: bool
  gf_temp_c :: u32
  gf_temp_source :: gpu_metric_source
  gf_activity_valid :: bool
  gf_activity_pct :: u16
  gf_activity_source :: gpu_metric_source
  gf_power_valid :: bool
  gf_power_w :: double
  gf_freq_valid :: bool
  gf_freq_mhz :: u16
  gf_vram_valid :: bool
  gf_vram_used_mb :: u32
  gf_vram_total_mb :: u32

definition gpu_fusion_initial :: gpu_fusion where
  "gpu_fusion_initial =
     \<lparr>gf_temp_valid = False, gf_temp_c = 0, gf_temp_source = GPU_SOURCE_NONE, gf_activity_valid = False,
      gf_activity_pct = 0, gf_activity_source = GPU_SOURCE_NONE, gf_power_valid = False, gf_power_w = Fin 0,
      gf_freq_valid = False, gf_freq_mhz = 0, gf_vram_valid = False, gf_vram_used_mb = 0, gf_vram_total_mb = 0\<rparr>"

section \<open>Combining the backends\<close>

definition fuse_sysfs :: "gpu_fusion_source_data \<Rightarrow> gpu_fusion \<Rightarrow> gpu_fusion" where
  "fuse_sysfs src g =
     (if gs_sysfs_metrics_valid src then
        g\<lparr>gf_temp_c := gs_sysfs_temp_c src, gf_temp_valid := True, gf_temp_source := GPU_SOURCE_SYSFS,
          gf_activity_pct := gs_sysfs_activity_pct src, gf_activity_valid := True,
          gf_activity_source := GPU_SOURCE_SYSFS, gf_power_w := gs_sysfs_power_w src, gf_power_valid := True,
          gf_freq_mhz := gs_sysfs_freq_mhz src, gf_freq_valid := True\<rparr>
      else g)"

definition fuse_smi_temp :: "gpu_fusion_source_data \<Rightarrow> gpu_fusion \<Rightarrow> gpu_fusion" where
  "fuse_smi_temp src g =
     (if gs_smi_metrics_valid src \<and> \<not> gf_temp_valid g
      then g\<lparr>gf_temp_c := ucast (gs_smi_temp_c src), gf_temp_valid := True, gf_temp_source := GPU_SOURCE_SMI\<rparr> else g)"

definition fuse_smi_activity :: "gpu_fusion_source_data \<Rightarrow> gpu_fusion \<Rightarrow> gpu_fusion" where
  "fuse_smi_activity src g =
     (if gs_smi_metrics_valid src \<and> \<not> gf_activity_valid g
      then g\<lparr>gf_activity_pct := gs_smi_activity_pct src, gf_activity_valid := True,
          gf_activity_source := GPU_SOURCE_SMI\<rparr> else g)"

definition fuse_memory :: "gpu_fusion_source_data \<Rightarrow> gpu_fusion \<Rightarrow> gpu_fusion" where
  "fuse_memory src g =
     (if gs_smi_memory_valid src
      then g\<lparr>gf_vram_used_mb := gs_smi_vram_used_mb src, gf_vram_total_mb := gs_smi_vram_total_mb src,
          gf_vram_valid := True\<rparr> else g)"

definition gpu_fusion_combine :: "gpu_fusion_source_data \<Rightarrow> gpu_fusion \<Rightarrow> gpu_fusion" where
  "gpu_fusion_combine src g =
     (let g0 = g\<lparr>gf_temp_valid := False, gf_temp_source := GPU_SOURCE_NONE, gf_activity_valid := False,
        gf_activity_source := GPU_SOURCE_NONE, gf_power_valid := False, gf_freq_valid := False, gf_vram_valid := False\<rparr>
      in fuse_memory src (fuse_smi_activity src (fuse_smi_temp src (fuse_sysfs src g0))))"

definition gpu_metric_source_name :: "gpu_metric_source \<Rightarrow> string" where
  "gpu_metric_source_name s =
     (case s of GPU_SOURCE_SYSFS \<Rightarrow> ''sysfs'' | GPU_SOURCE_SMI \<Rightarrow> ''smi'' | GPU_SOURCE_NONE \<Rightarrow> ''none'')"

section \<open>The report\<close>

definition gpu_header :: string where
  "gpu_header =
     ''gpu_temp,gpu_activity,gpu_power,gpu_freq,gpu_vram_used,gpu_vram_total,gpu_temp_source,gpu_activity_source,''"

definition gpu_csv :: "gpu_fusion \<Rightarrow> string" where
  "gpu_csv g =
     d_text (if gf_temp_valid g then gf_temp_c g else 0) @ '','' @
     u_text (if gf_activity_valid g then gf_activity_pct g else 0) @ '','' @
     fmt_fixed 2 (if gf_power_valid g then gf_power_w g else Fin 0) @ '','' @
     u_text (if gf_freq_valid g then gf_freq_mhz g else 0) @ '','' @
     u_text (if gf_vram_valid g then gf_vram_used_mb g else 0) @ '','' @
     u_text (if gf_vram_valid g then gf_vram_total_mb g else 0) @ '','' @
     gpu_metric_source_name (if gf_temp_valid g then gf_temp_source g else GPU_SOURCE_NONE) @ '','' @
     gpu_metric_source_name (if gf_activity_valid g then gf_activity_source g else GPU_SOURCE_NONE) @ '',''"

definition gpu_text :: "gpu_fusion \<Rightarrow> string" where
  "gpu_text g =
     (if gf_temp_valid g
      then ''gpu temp             '' @ d_text (gf_temp_c g) @ '' C ('' @ gpu_metric_source_name (gf_temp_source g) @ '')'' @
        newline else []) @
     (if gf_activity_valid g
      then ''gpu activity         '' @ u_text (gf_activity_pct g) @ ''% ('' @
        gpu_metric_source_name (gf_activity_source g) @ '')'' @ newline else []) @
     (if gf_power_valid g then ''gpu power            '' @ fmt_fixed 2 (gf_power_w g) @ '' W'' @ newline else []) @
     (if gf_freq_valid g then ''gpu freq             '' @ u_text (gf_freq_mhz g) @ '' MHz'' @ newline else []) @
     (if gf_vram_valid g
      then ''gpu vram used        '' @ u_text (gf_vram_used_mb g) @ '' MB'' @ newline @
        ''gpu vram total       '' @ u_text (gf_vram_total_mb g) @ '' MB'' @ newline else [])"

text \<open>The text, and the state after the update that the header does not make.\<close>

definition print_gpu_metrics ::
  "gpu_fusion_source_data \<Rightarrow> output_format \<Rightarrow> gpu_fusion \<Rightarrow> string \<times> gpu_fusion"
where
  "print_gpu_metrics src oformat g =
     (case oformat of
        PRINT_CSV_HEADER \<Rightarrow> (gpu_header, g)
      | PRINT_CSV \<Rightarrow> (let g' = gpu_fusion_combine src g in (gpu_csv g', g'))
      | PRINT_NORMAL \<Rightarrow> (let g' = gpu_fusion_combine src g in (gpu_text g', g')))"

section \<open>Precedence\<close>

text \<open>A metric is valid exactly if a backend has it this time, sysfs goes before the SMI library, and nothing of an
  earlier reading is left in what is printed.\<close>

lemma combine_temp:
  "gf_temp_valid (gpu_fusion_combine src g) \<longleftrightarrow> gs_sysfs_metrics_valid src \<or> gs_smi_metrics_valid src"
  "gs_sysfs_metrics_valid src \<Longrightarrow> gf_temp_c (gpu_fusion_combine src g) = gs_sysfs_temp_c src \<and>
    gf_temp_source (gpu_fusion_combine src g) = GPU_SOURCE_SYSFS"
  "\<not> gs_sysfs_metrics_valid src \<Longrightarrow> gs_smi_metrics_valid src \<Longrightarrow>
    gf_temp_c (gpu_fusion_combine src g) = ucast (gs_smi_temp_c src) \<and>
    gf_temp_source (gpu_fusion_combine src g) = GPU_SOURCE_SMI"
  by (simp_all add: gpu_fusion_combine_def fuse_memory_def fuse_smi_activity_def fuse_smi_temp_def fuse_sysfs_def Let_def)

lemma print_gpu_metrics_no_stale:
  "fst (print_gpu_metrics src oformat g) = fst (print_gpu_metrics src oformat gpu_fusion_initial)"
  by (cases oformat; cases "gs_sysfs_metrics_valid src"; cases "gs_smi_metrics_valid src"; cases "gs_smi_memory_valid src")
    (simp_all add: print_gpu_metrics_def gpu_csv_def gpu_text_def gpu_fusion_combine_def fuse_memory_def
      fuse_smi_activity_def fuse_smi_temp_def fuse_sysfs_def Let_def)

end
