(* ===== verification/System_Stats.thy ===== *)
theory System_Stats
  imports Sysfs C_Format
begin

text \<open>
  The system-wide status of \<open>--system\<close> (src/system.c): load, cpu times, network, disks, memory, frequency,
  temperature and GPU load, read from \<open>/proc\<close> and \<open>/sys\<close>, and their report. What the files hold when they are read
  is the parameter \<open>fs\<close>; numbers of \<open>fscanf\<close> are read like those of \<open>strtol\<close> and \<open>strtod\<close>.
\<close>

section \<open>State\<close>

abbreviation SYSTEM_LOADAVG :: u32 where "SYSTEM_LOADAVG \<equiv> 0x1"
abbreviation SYSTEM_CPU :: u32 where "SYSTEM_CPU \<equiv> 0x2"
abbreviation SYSTEM_GPU :: u32 where "SYSTEM_GPU \<equiv> 0x4"
abbreviation SYSTEM_NETWORK :: u32 where "SYSTEM_NETWORK \<equiv> 0x8"
abbreviation SYSTEM_FREQ :: u32 where "SYSTEM_FREQ \<equiv> 0x10"
abbreviation SYSTEM_TEMP :: u32 where "SYSTEM_TEMP \<equiv> 0x20"
abbreviation SYSTEM_DISK :: u32 where "SYSTEM_DISK \<equiv> 0x40"
abbreviation SYSTEM_MEM :: u32 where "SYSTEM_MEM \<equiv> 0x80"

text \<open>A counter that only grows, with its last two readings and their difference: the fields \<open>x\<close>, \<open>last_x\<close> and
  \<open>prev_x\<close>.\<close>

record tracked =
  tk_value :: u64
  tk_last :: u64
  tk_prev :: u64

definition tracked_zero :: tracked where "tracked_zero = \<lparr>tk_value = 0, tk_last = 0, tk_prev = 0\<rparr>"

definition track :: "u64 \<Rightarrow> tracked \<Rightarrow> tracked" where
  "track v t = \<lparr>tk_value = v - tk_last t, tk_last = v, tk_prev = tk_last t\<rparr>"

record netinfo =
  ni_name :: string
  ni_bytes :: tracked

record diskinfo =
  di_name :: string
  di_statfile :: string
  di_read_sectors :: tracked
  di_write_sectors :: tracked
  di_io_ms :: tracked

record cpustat =
  cs_user :: tracked
  cs_system :: tracked
  cs_idle :: tracked
  cs_iowait :: tracked
  cs_irq :: tracked

record meminfo =
  mi_free_kb :: u64
  mi_cached_kb :: u64
  mi_dirty_kb :: u64
  mi_writeback_kb :: u64
  mi_swap_free_kb :: u64
  mi_committed_as_kb :: u64

text \<open>With the lists that are set up once: the cpus with a frequency, the temperature files (\<open>None\<close> before the
  search) and the file with the load of an integrated GPU. A list that is empty has the null pointer.\<close>

record system_state =
  st_load :: double
  st_runnable :: int
  st_cpu :: cpustat
  st_net :: "netinfo list"
  st_disk :: "diskinfo list"
  st_mem :: meminfo
  st_freq_mhz :: double
  st_cpu_temp_c :: double
  st_gpu_busy :: int
  st_gpu_last_busy :: int
  st_gpu_prev_busy :: int
  st_freq_cpus :: "int list option"
  st_temp_paths :: "string list option"
  st_igpu_path :: "string option option"

definition system_initial :: system_state where
  "system_initial =
     \<lparr>st_load = Fin 0, st_runnable = 0,
      st_cpu = \<lparr>cs_user = tracked_zero, cs_system = tracked_zero, cs_idle = tracked_zero, cs_iowait = tracked_zero,
        cs_irq = tracked_zero\<rparr>,
      st_net = [], st_disk = [],
      st_mem = \<lparr>mi_free_kb = 0, mi_cached_kb = 0, mi_dirty_kb = 0, mi_writeback_kb = 0, mi_swap_free_kb = 0,
        mi_committed_as_kb = 0\<rparr>,
      st_freq_mhz = Fin 0, st_cpu_temp_c = Fin 0, st_gpu_busy = 0, st_gpu_last_busy = 0, st_gpu_prev_busy = 0,
      st_freq_cpus = None, st_temp_paths = None, st_igpu_path = None\<rparr>"

definition mask_bit :: "u32 \<Rightarrow> u32 \<Rightarrow> bool" where
  "mask_bit m b \<longleftrightarrow> m AND b \<noteq> 0"

text \<open>The lines of a file as \<open>fgets\<close> reads them into the buffer of 1024 bytes; none if it cannot be opened.\<close>

definition lines_of :: "sysfs \<Rightarrow> string \<Rightarrow> string list" where
  "lines_of fs path = (case fs_file fs path of None \<Rightarrow> [] | Some s \<Rightarrow> proc_lines 1022 s)"

text \<open>\<open>n\<close> conversions \<open>%lu\<close>.\<close>

fun scan_uls :: "nat \<Rightarrow> string \<Rightarrow> u64 list option" where
  "scan_uls 0 s = Some []"
| "scan_uls (Suc n) s =
     (case scan_ul 10 s of
        None \<Rightarrow> None
      | Some (v, r) \<Rightarrow> map_option (\<lambda>vs. v # vs) (scan_uls n r))"

section \<open>Interfaces and disks\<close>

definition iface_name :: "nat \<Rightarrow> string \<Rightarrow> string" where
  "iface_name k s = (let name = skip_spaces s in if name = [] then ''net'' @ dec k else name)"

fun net_entries :: "nat \<Rightarrow> string list \<Rightarrow> netinfo list" where
  "net_entries k [] = []"
| "net_entries k (l # ls) =
     (case split_at CHR '':'' l of
        None \<Rightarrow> net_entries k ls
      | Some (name, _) \<Rightarrow> \<lparr>ni_name = iface_name k name, ni_bytes = tracked_zero\<rparr> # net_entries (Suc k) ls)"

definition setup_net_info :: "sysfs \<Rightarrow> system_state \<Rightarrow> system_state" where
  "setup_net_info fs st = st\<lparr>st_net := net_entries 0 (lines_of fs ''/proc/net/dev'')\<rparr>"

definition is_virtual_disk_device :: "string \<Rightarrow> bool" where
  "is_virtual_disk_device name \<longleftrightarrow> starts_with ''loop'' name \<or> starts_with ''ram'' name \<or> starts_with ''zram'' name"

text \<open>\<open>"%d %d %ld %31s"\<close>: the name, if all four conversions succeed.\<close>

definition partition_name :: "string \<Rightarrow> string option" where
  "partition_name l =
     (case strto_raw 10 l of
        None \<Rightarrow> None
      | Some (_, _, r1) \<Rightarrow>
          (case strto_raw 10 r1 of
             None \<Rightarrow> None
           | Some (_, _, r2) \<Rightarrow>
               (case strto_raw 10 r2 of
                  None \<Rightarrow> None
                | Some (_, _, r3) \<Rightarrow> map_option fst (scan_word 31 r3))))"

definition disk_entry :: "sysfs \<Rightarrow> string \<Rightarrow> diskinfo option" where
  "disk_entry fs l =
     (case partition_name l of
        None \<Rightarrow> None
      | Some name \<Rightarrow>
          if is_virtual_disk_device name \<or> \<not> fs_exists fs (''/sys/block/'' @ name) then None
          else Some \<lparr>di_name = name, di_statfile = ''/sys/block/'' @ name @ ''/stat'', di_read_sectors = tracked_zero,
            di_write_sectors = tracked_zero, di_io_ms = tracked_zero\<rparr>)"

definition setup_disk_info :: "sysfs \<Rightarrow> system_state \<Rightarrow> system_state" where
  "setup_disk_info fs st = st\<lparr>st_disk := List.map_filter (disk_entry fs) (lines_of fs ''/proc/partitions'')\<rparr>"

text \<open>Both are set up when they are needed and there are none yet.\<close>

definition need_net :: "sysfs \<Rightarrow> system_state \<Rightarrow> system_state" where
  "need_net fs st = (if st_net st = [] then setup_net_info fs st else st)"

definition need_disk :: "sysfs \<Rightarrow> system_state \<Rightarrow> system_state" where
  "need_disk fs st = (if st_disk st = [] then setup_disk_info fs st else st)"

section \<open>Frequencies and temperatures\<close>

definition freq_path :: "int \<Rightarrow> string" where
  "freq_path n = ''/sys/devices/system/cpu/cpu'' @ dec_int n @ ''/cpufreq/scaling_cur_freq''"

text \<open>The cpu of a directory entry; the \<open>long\<close> is cut to \<open>int\<close> when it is stored.\<close>

definition freq_cpu :: "sysfs \<Rightarrow> string \<Rightarrow> int option" where
  "freq_cpu fs d =
     (if \<not> starts_with ''cpu'' d then None
      else
        (let (n, rest) = strtol 10 (drop 3 d) in
         if rest = drop 3 d \<or> rest \<noteq> [] \<or> fs_file fs (freq_path n) = None then None
         else Some (sint (word_of_int n :: u32))))"

definition setup_freq_info :: "sysfs \<Rightarrow> int list" where
  "setup_freq_info fs =
     (case fs_dir fs ''/sys/devices/system/cpu'' of None \<Rightarrow> [] | Some ds \<Rightarrow> List.map_filter (freq_cpu fs) ds)"

definition temp_driver_matches :: "string \<Rightarrow> bool" where
  "temp_driver_matches name \<longleftrightarrow> name \<in> set [''k10temp'', ''coretemp'', ''cpu_thermal'']"

definition temp_preferred :: "string \<Rightarrow> bool" where
  "temp_preferred label \<longleftrightarrow> label \<in> set [''Tctl'', ''Tdie'', ''Package id 0'', ''Package id 1'']"

text \<open>The first line of a file in a buffer of 128 bytes, cut at its newline; \<open>None\<close> if there is none.\<close>

definition first_line :: "sysfs \<Rightarrow> string \<Rightarrow> string option" where
  "first_line fs path =
     (case fs_file fs path of
        None \<Rightarrow> None
      | Some s \<Rightarrow> if s = [] then None else Some (takeWhile (\<lambda>c. c \<noteq> LF) (cstr (fst (fgets 127 s)))))"

definition ends_with :: "string \<Rightarrow> string \<Rightarrow> bool" where
  "ends_with suffix s \<longleftrightarrow> length suffix \<le> length s \<and> drop (length s - length suffix) s = suffix"

text \<open>\<open>base\<close>: the name up to the first \<open>_input\<close>, in a buffer of 64 bytes.\<close>

definition input_base :: "string \<Rightarrow> string" where
  "input_base d =
     (let b = take 63 d in
      case strstr b ''_input'' of None \<Rightarrow> b | Some rest \<Rightarrow> take (length b - length rest) b)"

definition labelled_preferred :: "sysfs \<Rightarrow> string \<Rightarrow> string \<Rightarrow> bool" where
  "labelled_preferred fs hwmon_dir d =
     (case first_line fs (take 349 (hwmon_dir @ ''/'' @ input_base d @ ''_label'')) of
        None \<Rightarrow> False | Some label \<Rightarrow> temp_preferred label)"

text \<open>The first sensor with a preferred label, else the first sensor.\<close>

fun scan_temp_inputs :: "sysfs \<Rightarrow> string \<Rightarrow> string list \<Rightarrow> string option \<Rightarrow> string option" where
  "scan_temp_inputs fs hwmon_dir [] fallback = fallback"
| "scan_temp_inputs fs hwmon_dir (d # ds) fallback =
     (if \<not> starts_with ''temp'' d \<or> \<not> ends_with ''_input'' d then scan_temp_inputs fs hwmon_dir ds fallback
      else
        (let path = take 349 (hwmon_dir @ ''/'' @ d) in
         if labelled_preferred fs hwmon_dir d then Some path
         else scan_temp_inputs fs hwmon_dir ds (if fallback = None then Some path else fallback)))"

definition temp_path :: "sysfs \<Rightarrow> string \<Rightarrow> string option" where
  "temp_path fs d =
     (if peek d = CHR ''.'' then None
      else
        (case first_line fs (take 349 (''/sys/class/hwmon/'' @ d @ ''/name'')) of
           None \<Rightarrow> None
         | Some name \<Rightarrow>
             if \<not> temp_driver_matches name then None
             else
               (let hwmon_dir = take 299 (''/sys/class/hwmon/'' @ d) in
                case fs_dir fs hwmon_dir of
                  None \<Rightarrow> None
                | Some ds \<Rightarrow> scan_temp_inputs fs hwmon_dir ds None)))"

definition setup_temp_info :: "sysfs \<Rightarrow> string list" where
  "setup_temp_info fs =
     (case fs_dir fs ''/sys/class/hwmon'' of None \<Rightarrow> [] | Some ds \<Rightarrow> List.map_filter (temp_path fs) ds)"

section \<open>The load of an integrated GPU\<close>

definition igpu_name :: "string \<Rightarrow> bool" where
  "igpu_name d \<longleftrightarrow> (\<exists>w \<in> set [''gpu'', ''mali'', ''panfrost'', ''kgsl'', ''agx'']. strstr d w \<noteq> None)"

definition igpu_path :: "sysfs \<Rightarrow> string \<Rightarrow> string option" where
  "igpu_path fs d =
     (let path = take 449 (''/sys/class/devfreq/'' @ d @ ''/load'') in
      if peek d \<noteq> CHR ''.'' \<and> igpu_name d \<and> fs_exists fs path then Some path else None)"

definition find_igpu_load :: "sysfs \<Rightarrow> string option" where
  "find_igpu_load fs =
     (case fs_dir fs ''/sys/class/devfreq'' of
        None \<Rightarrow> None
      | Some ds \<Rightarrow> (case List.map_filter (igpu_path fs) ds of [] \<Rightarrow> None | p # _ \<Rightarrow> Some p))"

definition read_load :: "sysfs \<Rightarrow> string \<Rightarrow> int" where
  "read_load fs path =
     (case fs_file fs path of
        None \<Rightarrow> 0
      | Some s \<Rightarrow>
          if s = [] then 0
          else
            (case scan_d (cstr (fst (fgets 63 s))) of
               None \<Rightarrow> 0
             | Some load \<Rightarrow> if load < 0 then 0 else if load > 100 then 100 else load))"

text \<open>\<open>amd_busy\<close> is what \<open>amd_sysfs_gpu_busy_percent\<close> returns; a build without AMD support behaves as if it were
  negative.\<close>

definition read_gpu_busy_percent :: "int \<Rightarrow> sysfs \<Rightarrow> system_state \<Rightarrow> int \<times> system_state" where
  "read_gpu_busy_percent amd_busy fs st =
     (if amd_busy \<ge> 0 then (amd_busy, st)
      else
        (let path = (case st_igpu_path st of None \<Rightarrow> find_igpu_load fs | Some p \<Rightarrow> p)
         in (case path of None \<Rightarrow> 0 | Some p \<Rightarrow> read_load fs p, st\<lparr>st_igpu_path := Some path\<rparr>)))"

section \<open>Reading the status\<close>

definition read_loadavg :: "sysfs \<Rightarrow> system_state \<Rightarrow> system_state" where
  "read_loadavg fs st =
     (case fs_file fs ''/proc/loadavg'' of
        None \<Rightarrow> st
      | Some s \<Rightarrow>
          (case strtod s of
             None \<Rightarrow> st
           | Some (v1, r1) \<Rightarrow>
               (case strtod r1 of
                  None \<Rightarrow> st
                | Some (_, r2) \<Rightarrow>
                    (case strtod r2 of
                       None \<Rightarrow> st
                     | Some (_, r3) \<Rightarrow>
                         (case scan_d r3 of
                            None \<Rightarrow> st
                          | Some runnable \<Rightarrow> st\<lparr>st_load := v1, st_runnable := runnable\<rparr>)))))"

definition cpu_line :: "string \<Rightarrow> u64 list option" where
  "cpu_line l = (if starts_with ''cpu '' l then scan_uls 7 (drop 4 l) else None)"

fun track_cpu :: "u64 list \<Rightarrow> cpustat \<Rightarrow> cpustat" where
  "track_cpu [user, nice, system, idle, iowait, irq, softirq] c =
     \<lparr>cs_user = track user (cs_user c), cs_system = track system (cs_system c), cs_idle = track idle (cs_idle c),
      cs_iowait = track iowait (cs_iowait c), cs_irq = track (irq + softirq) (cs_irq c)\<rparr>"
| "track_cpu _ c = c"

definition read_cpu :: "sysfs \<Rightarrow> system_state \<Rightarrow> system_state" where
  "read_cpu fs st =
     (case List.map_filter cpu_line (lines_of fs ''/proc/stat'') of
        [] \<Rightarrow> st
      | vs # _ \<Rightarrow> st\<lparr>st_cpu := track_cpu vs (st_cpu st)\<rparr>)"

text \<open>Every interface with the name of the line.\<close>

definition net_line :: "string \<Rightarrow> netinfo list \<Rightarrow> netinfo list" where
  "net_line l nets =
     (case split_at CHR '':'' l of
        None \<Rightarrow> nets
      | Some (name, rest) \<Rightarrow>
          (case scan_uls 9 rest of
             None \<Rightarrow> nets
           | Some vs \<Rightarrow>
               map (\<lambda>n. if ni_name n = skip_spaces name
                 then n\<lparr>ni_bytes := track (vs ! 0 + vs ! 8) (ni_bytes n)\<rparr> else n) nets))"

definition read_network :: "sysfs \<Rightarrow> system_state \<Rightarrow> system_state" where
  "read_network fs st =
     (let st1 = need_net fs st in st1\<lparr>st_net := fold net_line (lines_of fs ''/proc/net/dev'') (st_net st1)\<rparr>)"

text \<open>Of the eleven fields: sectors read and written, and the milliseconds doing I/O.\<close>

definition read_one_disk :: "sysfs \<Rightarrow> diskinfo \<Rightarrow> diskinfo" where
  "read_one_disk fs d =
     (case lines_of fs (di_statfile d) of
        [] \<Rightarrow> d
      | l # _ \<Rightarrow>
          (case scan_uls 11 l of
             None \<Rightarrow> d
           | Some vs \<Rightarrow>
               d\<lparr>di_read_sectors := track (vs ! 2) (di_read_sectors d),
                 di_write_sectors := track (vs ! 6) (di_write_sectors d),
                 di_io_ms := track (vs ! 9) (di_io_ms d)\<rparr>))"

definition read_disk :: "sysfs \<Rightarrow> system_state \<Rightarrow> system_state" where
  "read_disk fs st = (let st1 = need_disk fs st in st1\<lparr>st_disk := map (read_one_disk fs) (st_disk st1)\<rparr>)"

definition mem_value :: "nat \<Rightarrow> string \<Rightarrow> u64 \<Rightarrow> u64" where
  "mem_value n l old = (case scan_ul 10 (drop n l) of None \<Rightarrow> old | Some (v, _) \<Rightarrow> v)"

definition mem_line :: "string \<Rightarrow> meminfo \<Rightarrow> meminfo" where
  "mem_line l m =
     (if starts_with ''MemFree:'' l then m\<lparr>mi_free_kb := mem_value 8 l (mi_free_kb m)\<rparr>
      else if starts_with ''Cached:'' l then m\<lparr>mi_cached_kb := mem_value 7 l (mi_cached_kb m)\<rparr>
      else if starts_with ''Dirty:'' l then m\<lparr>mi_dirty_kb := mem_value 6 l (mi_dirty_kb m)\<rparr>
      else if starts_with ''Writeback:'' l then m\<lparr>mi_writeback_kb := mem_value 10 l (mi_writeback_kb m)\<rparr>
      else if starts_with ''SwapFree:'' l then m\<lparr>mi_swap_free_kb := mem_value 9 l (mi_swap_free_kb m)\<rparr>
      else if starts_with ''Committed_AS:'' l then m\<lparr>mi_committed_as_kb := mem_value 13 l (mi_committed_as_kb m)\<rparr>
      else m)"

definition read_mem :: "sysfs \<Rightarrow> system_state \<Rightarrow> system_state" where
  "read_mem fs st = st\<lparr>st_mem := fold mem_line (lines_of fs ''/proc/meminfo'') (st_mem st)\<rparr>"

definition read_gpu :: "int \<Rightarrow> sysfs \<Rightarrow> system_state \<Rightarrow> system_state" where
  "read_gpu amd_busy fs st =
     (let (busy, st1) = read_gpu_busy_percent amd_busy fs st
      in st1\<lparr>st_gpu_prev_busy := st_gpu_last_busy st, st_gpu_last_busy := busy, st_gpu_busy := busy\<rparr>)"

text \<open>The mean of the values, 0 of none.\<close>

definition mean_of :: "double list \<Rightarrow> double" where
  "mean_of xs = (if xs = [] then Fin 0 else ddiv (fold (\<lambda>x s. dadd s x) xs (Fin 0)) (double_of_int (int (length xs))))"

definition khz_of :: "sysfs \<Rightarrow> int \<Rightarrow> double option" where
  "khz_of fs n =
     Option.bind (fs_file fs (freq_path n)) (\<lambda>s. map_option (\<lambda>(khz, _). ulong_to_double khz) (scan_ul 10 s))"

definition read_freq :: "sysfs \<Rightarrow> system_state \<Rightarrow> system_state" where
  "read_freq fs st =
     (let cpus = (case st_freq_cpus st of None \<Rightarrow> setup_freq_info fs | Some cs \<Rightarrow> cs);
          khz = List.map_filter (khz_of fs) cpus
      in st\<lparr>st_freq_cpus := Some cpus,
            st_freq_mhz := (if khz = [] then Fin 0 else ddiv (mean_of khz) (Fin 1000))\<rparr>)"

definition degrees_of :: "sysfs \<Rightarrow> string \<Rightarrow> double option" where
  "degrees_of fs path =
     Option.bind (fs_file fs path) (\<lambda>s.
       map_option (\<lambda>_. ddiv (double_of_int (fst (strtol 10 s))) (Fin 1000)) (strto_raw 10 s))"

definition read_temp :: "sysfs \<Rightarrow> system_state \<Rightarrow> system_state" where
  "read_temp fs st =
     (let paths = (case st_temp_paths st of None \<Rightarrow> setup_temp_info fs | Some ps \<Rightarrow> ps)
      in st\<lparr>st_temp_paths := Some paths, st_cpu_temp_c := mean_of (List.map_filter (degrees_of fs) paths)\<rparr>)"

definition when_bit :: "u32 \<Rightarrow> u32 \<Rightarrow> ('s \<Rightarrow> 's) \<Rightarrow> 's \<Rightarrow> 's" where
  "when_bit m b f s = (if mask_bit m b then f s else s)"

definition read_system :: "u32 \<Rightarrow> int \<Rightarrow> sysfs \<Rightarrow> system_state \<Rightarrow> system_state" where
  "read_system m amd_busy fs st =
     when_bit m SYSTEM_TEMP (read_temp fs)
       (when_bit m SYSTEM_FREQ (read_freq fs)
         (when_bit m SYSTEM_GPU (read_gpu amd_busy fs)
           (when_bit m SYSTEM_MEM (read_mem fs)
             (when_bit m SYSTEM_DISK (read_disk fs)
               (when_bit m SYSTEM_NETWORK (read_network fs)
                 (when_bit m SYSTEM_CPU (read_cpu fs)
                   (when_bit m SYSTEM_LOADAVG (read_loadavg fs) st)))))))"

section \<open>The report\<close>

text \<open>What the report needs besides the state: the mask, the interval (0 for none), the number of processors and the
  times of the run.\<close>

record system_env =
  se_mask :: u32
  se_interval :: nat
  se_num_procs :: int
  se_start :: "int \<times> int"
  se_finish :: "int \<times> int"

definition run_seconds :: "int \<times> int \<Rightarrow> int \<times> int \<Rightarrow> double" where
  "run_seconds start finish =
     dsub (dsub (dadd (double_of_int (fst finish)) (ddiv (double_of_int (snd finish)) (Fin 1000000000)))
       (double_of_int (fst start))) (ddiv (double_of_int (snd start)) (Fin 1000000000))"

definition system_elapsed :: "system_env \<Rightarrow> double" where
  "system_elapsed e =
     (if se_interval e \<noteq> 0 then double_of_int (int (se_interval e)) else run_seconds (se_start e) (se_finish e))"

text \<open>\<open>(double) ticks / elapsed / num_procs\<close>.\<close>

definition tick_share :: "system_env \<Rightarrow> u64 \<Rightarrow> double" where
  "tick_share e ticks = ddiv (ddiv (ulong_to_double ticks) (system_elapsed e)) (double_of_int (se_num_procs e))"

text \<open>User and system, idle, iowait and irq time.\<close>

definition cpu_shares :: "system_env \<Rightarrow> cpustat \<Rightarrow> double list" where
  "cpu_shares e c =
     map (tick_share e) [tk_value (cs_user c) + tk_value (cs_system c), tk_value (cs_idle c), tk_value (cs_iowait c),
       tk_value (cs_irq c)]"

definition mem_megabytes :: "meminfo \<Rightarrow> double list" where
  "mem_megabytes m =
     map (\<lambda>kb. ddiv (ulong_to_double kb) (Fin 1024))
       [mi_free_kb m, mi_cached_kb m, mi_dirty_kb m, mi_writeback_kb m, mi_swap_free_kb m, mi_committed_as_kb m]"

definition fields_text :: "string list \<Rightarrow> string" where
  "fields_text xs = concat (map (\<lambda>x. x @ '','') xs)"

definition part :: "u32 \<Rightarrow> u32 \<Rightarrow> string \<Rightarrow> string" where
  "part m b text = (if mask_bit m b then text else [])"

definition disk_bytes :: "diskinfo \<Rightarrow> u64 list" where
  "disk_bytes d = [tk_value (di_read_sectors d) * 512, tk_value (di_write_sectors d) * 512, tk_value (di_io_ms d)]"

definition system_header :: "u32 \<Rightarrow> system_state \<Rightarrow> string" where
  "system_header m st =
     part m SYSTEM_LOADAVG ''load,runnable,'' @ part m SYSTEM_CPU ''cpu,idle,iowait,irq,'' @ part m SYSTEM_FREQ ''freq,'' @
     part m SYSTEM_TEMP ''cpu_temp,'' @
     part m SYSTEM_NETWORK (concat (map (\<lambda>n. ''net '' @ ni_name n @ '','') (st_net st))) @
     part m SYSTEM_DISK (concat (map (\<lambda>d. ''disk '' @ di_name d @ '' read,disk '' @ di_name d @ '' write,disk '' @
       di_name d @ '' time,'') (st_disk st))) @
     part m SYSTEM_MEM ''mem_free_mb,mem_cached_mb,mem_dirty_mb,mem_writeback_mb,swap_free_mb,committed_as_mb,'' @
     part m SYSTEM_GPU ''gpu_busy,''"

definition system_csv :: "system_env \<Rightarrow> system_state \<Rightarrow> string" where
  "system_csv e st =
     (let m = se_mask e in
      part m SYSTEM_LOADAVG (fmt_fixed_w 4 2 (st_load st) @ '','' @ dec_int (st_runnable st) @ '','') @
      part m SYSTEM_CPU (concat (map (\<lambda>x. fmt_fixed_w 3 2 x @ ''%,'') (cpu_shares e (st_cpu st)))) @
      part m SYSTEM_FREQ (fmt_fixed_w 4 0 (st_freq_mhz st) @ '','') @
      part m SYSTEM_TEMP (fmt_fixed_w 4 1 (st_cpu_temp_c st) @ '','') @
      part m SYSTEM_NETWORK (fields_text (map (\<lambda>n. u_text (tk_value (ni_bytes n))) (st_net st))) @
      part m SYSTEM_DISK (concat (map (\<lambda>d. fields_text (map u_text (disk_bytes d))) (st_disk st))) @
      part m SYSTEM_MEM (fields_text (map (fmt_fixed 2) (mem_megabytes (st_mem st)))) @
      part m SYSTEM_GPU (dec_int (st_gpu_busy st) @ '',''))"

definition named_line :: "string \<Rightarrow> string \<Rightarrow> string" where
  "named_line name text = pad_right 21 name @ text @ newline"

definition disk_line :: "diskinfo \<Rightarrow> string" where
  "disk_line d =
     ''disk '' @ pad_right 10 (di_name d) @ ''      read '' @ pad_left (CHR '' '') 10 (u_text (disk_bytes d ! 0)) @
     ''  write '' @ pad_left (CHR '' '') 10 (u_text (disk_bytes d ! 1)) @ ''  time '' @
     pad_left (CHR '' '') 8 (u_text (disk_bytes d ! 2)) @ '' ms'' @ newline"

definition system_text :: "system_env \<Rightarrow> system_state \<Rightarrow> string" where
  "system_text e st =
     (let m = se_mask e in
      part m SYSTEM_LOADAVG (named_line ''load'' (fmt_fixed_w 4 2 (st_load st)) @
        named_line ''runnable'' (dec_int (st_runnable st))) @
      part m SYSTEM_CPU (concat (map (\<lambda>(name, x). named_line name (fmt_fixed_w 3 2 x @ ''%''))
        (zip [''cpu'', ''idle'', ''io'', ''irq''] (cpu_shares e (st_cpu st))))) @
      part m SYSTEM_FREQ (named_line ''freq'' (fmt_fixed_w 4 0 (st_freq_mhz st) @ '' MHz'')) @
      part m SYSTEM_TEMP (named_line ''cpu temp'' (fmt_fixed_w 4 1 (st_cpu_temp_c st) @ '' C'')) @
      part m SYSTEM_NETWORK (concat (map (\<lambda>n. pad_right 14 (ni_name n) @ ''       '' @
        u_text (tk_value (ni_bytes n)) @ newline) (st_net st))) @
      part m SYSTEM_DISK (concat (map disk_line (st_disk st))) @
      part m SYSTEM_MEM (concat (map (\<lambda>(name, x). named_line name (fmt_fixed_w 8 1 x @ '' MB''))
        (zip [''mem free'', ''mem cached'', ''mem dirty'', ''mem writeback'', ''swap free'', ''committed'']
          (mem_megabytes (st_mem st))))) @
      part m SYSTEM_GPU (named_line ''gpu busy'' (dec_int (st_gpu_busy st) @ ''%'')))"

text \<open>The interfaces and disks are set up when the report needs them, in each format.\<close>

definition print_system :: "system_env \<Rightarrow> sysfs \<Rightarrow> output_format \<Rightarrow> system_state \<Rightarrow> string \<times> system_state" where
  "print_system e fs oformat st =
     (let st1 = when_bit (se_mask e) SYSTEM_DISK (need_disk fs) (when_bit (se_mask e) SYSTEM_NETWORK (need_net fs) st)
      in (case oformat of
            PRINT_CSV_HEADER \<Rightarrow> system_header (se_mask e) st1
          | PRINT_CSV \<Rightarrow> system_csv e st1
          | PRINT_NORMAL \<Rightarrow> system_text e st1, st1))"

end
