(* ===== verification/Run_Rows.thy ===== *)
theory Run_Rows
  imports Metric_Print Power_Probe Phase Gpu_Fusion System_Stats Coverage
begin

text \<open>
  What one run writes (src/wspy.c, \<open>main\<close>, and \<open>timer_callback\<close> of src/topdown.c): which counter groups the flags ask
  for, the CSV header, the row of every interval, the final rows, and the same in text. A writer appends to the
  output and may change the static variables of the reports; \<open>None\<close> stands for the null pointer \<open>print_software\<close>
  reads when its group has no task clock.
\<close>

section \<open>Configuration\<close>

record core_info =
  co_is_available :: bool
  co_vendor :: cpu_core_type
  co_pmu_type :: u32

text \<open>The flags of the command line, the host, and the two build options.\<close>

record run_config =
  rc_host :: host
  rc_cores :: "core_info list"
  rc_counter_mask :: u32
  rc_metric :: metric_env
  rc_system :: system_env
  rc_sflag :: bool
  rc_xflag :: bool
  rc_phase_flag :: bool
  rc_per_core_freq :: bool
  rc_affinity :: "nat option"
  rc_amdgpu :: bool
  rc_nvidia :: bool
  rc_gpu_busy :: bool
  rc_gpu_metrics :: bool
  rc_gpu_smi :: bool
  rc_gpu_nvidia :: bool

abbreviation rc_aflag :: "run_config \<Rightarrow> bool" where "rc_aflag c \<equiv> me_aflag (rc_metric c)"
abbreviation rc_csvflag :: "run_config \<Rightarrow> bool" where "rc_csvflag c \<equiv> me_csvflag (rc_metric c)"
abbreviation rc_interval :: "run_config \<Rightarrow> nat" where "rc_interval c \<equiv> se_interval (rc_system c)"

section \<open>The counter groups of a run\<close>

definition is_arm_core_type :: "cpu_core_type \<Rightarrow> bool" where
  "is_arm_core_type v \<longleftrightarrow>
     v \<in> set [CORE_ARM_GENERIC, CORE_ARM_CORTEX_A53, CORE_ARM_CORTEX_A57, CORE_ARM_CORTEX_A72, CORE_ARM_NEOVERSE_N1,
       CORE_ARM_NEOVERSE_V1, CORE_ARM_NEOVERSE_N2, CORE_ARM_NEOVERSE_V2, CORE_ARM_CORTEX_A78, CORE_ARM_CORTEX_X1,
       CORE_ARM_CORTEX_A710, CORE_ARM_CORTEX_X2, CORE_ARM_CORTEX_A510, CORE_ARM_CORTEX_A520, CORE_ARM_CORTEX_A720,
       CORE_ARM_CORTEX_X4]"

definition core_is_per_core_eligible :: "core_info \<Rightarrow> bool" where
  "core_is_per_core_eligible core \<longleftrightarrow>
     co_is_available core \<and>
     (co_vendor core \<in> set [CORE_AMD_ZEN, CORE_AMD_ZEN5, CORE_AMD_ZEN5C, CORE_INTEL_CORE, CORE_INTEL_ATOM] \<or>
      is_arm_core_type (co_vendor core))"

definition bind_counter :: "u32 \<Rightarrow> counter_group \<Rightarrow> counter_info \<Rightarrow> counter_info" where
  "bind_counter pmu g c =
     (if cg_type_id g = PERF_TYPE_RAW \<and> ci_device_type c = PERF_TYPE_RAW then c\<lparr>ci_device_type := pmu\<rparr> else c)"

definition bind_core_counter_groups :: "counter_group list \<Rightarrow> int \<Rightarrow> u32 \<Rightarrow> counter_group list" where
  "bind_core_counter_groups gs cpu pmu =
     map (\<lambda>g. g\<lparr>cg_target_cpu := cpu, cg_cinfo := map (bind_counter pmu g) (cg_cinfo g)\<rparr>) gs"

text \<open>The energy group of a core, where the host has per-core energy counters.\<close>

definition core_energy_group :: "run_config \<Rightarrow> nat \<Rightarrow> counter_group option" where
  "core_energy_group c i =
     (let caps = power_probe (me_sysfs (rc_metric c)) in
      if has_bit (rc_counter_mask c) COUNTER_POWER \<and> pp_present (pc_core caps) \<and> pp_event_present (pc_core caps)
      then power_core_counter_group ''power-core'' caps (int i) else None)"

text \<open>\<open>core_specific_counters\<close> of a core; empty is the null pointer.\<close>

definition core_groups :: "run_config \<Rightarrow> raw_tables \<Rightarrow> nat \<times> core_info \<Rightarrow> counter_group list" where
  "core_groups c rt ic =
     (let (i, core) = ic in
      if rc_aflag c \<and> core_is_per_core_eligible core then
        push_group (core_energy_group c i)
          (bind_core_counter_groups
            (setup_counter_groups (rc_host c) rt (rc_counter_mask c) (co_vendor core) []) (int i) (co_pmu_type core))
      else [])"

definition all_core_groups :: "run_config \<Rightarrow> raw_tables \<Rightarrow> counter_group list list" where
  "all_core_groups c rt = map (core_groups c rt) (enumerate 0 (rc_cores c))"

definition when_counter :: "run_config \<Rightarrow> u32 \<Rightarrow> counter_group option \<Rightarrow> counter_group list \<Rightarrow> counter_group list" where
  "when_counter c b g list = (if has_bit (rc_counter_mask c) b then push_group g list else list)"

text \<open>\<open>systemwide_counters\<close>.\<close>

definition systemwide_groups :: "run_config \<Rightarrow> raw_tables \<Rightarrow> counter_group list" where
  "systemwide_groups c rt =
     (let fs = me_sysfs (rc_metric c); params = me_ibs_params (rc_metric c);
          base = (if rc_aflag c then []
            else setup_counter_groups (rc_host c) rt (rc_counter_mask c) CORE_UNKNOWN [])
      in when_counter c COUNTER_POWER (fst (power_counter_group fs ''power''))
           (when_counter c COUNTER_IBS_SAMPLE (ibs_sample_counter_group fs ''ibs_sample'' params)
             (when_counter c COUNTER_IBS (ibs_counter_group fs ''ibs'' (me_ibs_profile (rc_metric c)) params)
               (when_counter c COUNTER_SOFTWARE (Some (software_counter_group ''software'')) base))))"

text \<open>The core whose groups name the columns.\<close>

definition first_core_with_counters :: "counter_group list list \<Rightarrow> (counter_group list) option" where
  "first_core_with_counters cores = find (\<lambda>gs. gs \<noteq> []) cores"

definition per_core_csv :: "run_config \<Rightarrow> counter_group list list \<Rightarrow> bool" where
  "per_core_csv c cores \<longleftrightarrow> rc_aflag c \<and> rc_csvflag c \<and> first_core_with_counters cores \<noteq> None"

section \<open>Writers\<close>

record run_state =
  rs_finish :: "int \<times> int"
  rs_system :: system_state
  rs_fusion :: gpu_fusion
  rs_shared :: shared_slots
  rs_phase :: phase_detector

type_synonym writer = "run_state \<Rightarrow> (string \<times> run_state) option"

definition put :: "string \<Rightarrow> writer" where
  "put text s = Some (text, s)"

definition only :: "bool \<Rightarrow> writer \<Rightarrow> writer" where
  "only b w = (if b then w else put [])"

fun write_all :: "writer list \<Rightarrow> writer" where
  "write_all [] s = Some ([], s)"
| "write_all (w # ws) s =
     (case w s of
        None \<Rightarrow> None
      | Some (t, s1) \<Rightarrow> map_option (\<lambda>(u, s2). (t @ u, s2)) (write_all ws s1))"

text \<open>The environment of the reports, with the current \<open>finish_time\<close>.\<close>

definition metric_now :: "run_config \<Rightarrow> run_state \<Rightarrow> metric_env" where
  "metric_now c s = (rc_metric c)\<lparr>me_finish := rs_finish s\<rparr>"

definition system_now :: "run_config \<Rightarrow> run_state \<Rightarrow> system_env" where
  "system_now c s = (rc_system c)\<lparr>se_finish := rs_finish s\<rparr>"

definition elapsed_now :: "run_config \<Rightarrow> run_state \<Rightarrow> double" where
  "elapsed_now c s = elapsed_seconds (metric_now c s)"

definition w_elapsed :: "run_config \<Rightarrow> writer" where
  "w_elapsed c s = Some (fmt_fixed_w 4 1 (elapsed_now c s) @ '','', s)"

text \<open>Without an interval \<open>print_system\<close> takes the time itself.\<close>

definition w_system :: "run_config \<Rightarrow> sysfs \<Rightarrow> int \<times> int \<Rightarrow> output_format \<Rightarrow> writer" where
  "w_system c fs clock f s =
     (let s1 = (if rc_interval c = 0 then s\<lparr>rs_finish := clock\<rparr> else s);
          (text, st) = print_system (system_now c s1) fs f (rs_system s1)
      in Some (text, s1\<lparr>rs_system := st\<rparr>))"

definition w_usage :: "run_config \<Rightarrow> rusage \<Rightarrow> output_format \<Rightarrow> writer" where
  "w_usage c ru f s = Some (print_usage (metric_now c s) (se_num_procs (rc_system c)) (rc_affinity c) ru f, s)"

definition w_metrics :: "run_config \<Rightarrow> counter_group list \<Rightarrow> output_format \<Rightarrow> writer" where
  "w_metrics c gs f s =
     map_option (\<lambda>r. (rp_text r, s\<lparr>rs_shared := rp_shared r\<rparr>)) (print_metrics (metric_now c s) gs f (rs_shared s))"

definition w_coverage :: "(int \<Rightarrow> string) \<Rightarrow> coverage \<Rightarrow> output_format \<Rightarrow> writer" where
  "w_coverage strerror cv f = put (print_counter_coverage strerror cv f)"

definition w_phase_column :: "string \<Rightarrow> writer" where
  "w_phase_column text s = Some (if pd_enabled (rs_phase s) then text @ '','' else [], s)"

definition w_phase :: writer where
  "w_phase s = w_phase_column (phase_name (pd_phase (rs_phase s))) s"

definition w_phase_line :: writer where
  "w_phase_line s =
     Some (if pd_enabled (rs_phase s) then pad_right 21 ''phase'' @ phase_name (pd_phase (rs_phase s)) @ newline else [], s)"

section \<open>GPU columns\<close>

text \<open>What the GPU libraries answer; \<open>None\<close> where the reading is not valid. \<open>gr_smi_metrics\<close> is temperature and
  activity, \<open>gr_smi_memory\<close> used and total memory, \<open>gr_nvidia\<close> load, used and total memory.\<close>

record gpu_reading =
  gr_busy :: int
  gr_fusion :: gpu_fusion_source_data
  gr_smi_metrics :: "(u16 \<times> u16) option"
  gr_smi_memory :: "(u32 \<times> u32) option"
  gr_nvidia :: "(u32 \<times> u64 \<times> u64) option"

definition busy_text :: "gpu_reading \<Rightarrow> output_format \<Rightarrow> string" where
  "busy_text gr f =
     (case f of
        PRINT_CSV_HEADER \<Rightarrow> ''gpu_busy,''
      | PRINT_CSV \<Rightarrow> dec_int (gr_busy gr) @ '',''
      | PRINT_NORMAL \<Rightarrow> ''gpu busy             '' @ dec_int (gr_busy gr) @ ''%'' @ newline)"

definition smi_text :: "gpu_reading \<Rightarrow> output_format \<Rightarrow> string" where
  "smi_text gr f =
     (case f of
        PRINT_CSV_HEADER \<Rightarrow> ''gpu_smi_temp,gpu_smi_activity,gpu_smi_vram_used,gpu_smi_vram_total,''
      | PRINT_CSV \<Rightarrow>
          (case gr_smi_metrics gr of None \<Rightarrow> ''0,0,'' | Some (t, a) \<Rightarrow> u_text t @ '','' @ u_text a @ '','') @
          (case gr_smi_memory gr of None \<Rightarrow> ''0,0,'' | Some (u, t) \<Rightarrow> u_text u @ '','' @ u_text t @ '','')
      | PRINT_NORMAL \<Rightarrow>
          (case gr_smi_metrics gr of None \<Rightarrow> []
           | Some (t, a) \<Rightarrow> ''gpu smi temp         '' @ u_text t @ '' C'' @ newline @
               ''gpu smi activity     '' @ u_text a @ ''%'' @ newline) @
          (case gr_smi_memory gr of None \<Rightarrow> []
           | Some (u, t) \<Rightarrow> ''gpu vram used        '' @ u_text u @ '' MB'' @ newline @
               ''gpu vram total       '' @ u_text t @ '' MB'' @ newline))"

definition nvidia_text :: "gpu_reading \<Rightarrow> output_format \<Rightarrow> string" where
  "nvidia_text gr f =
     (case f of
        PRINT_CSV_HEADER \<Rightarrow> ''nv_gpu_busy,nv_vram_used_mb,nv_vram_total_mb,''
      | PRINT_CSV \<Rightarrow>
          (case gr_nvidia gr of None \<Rightarrow> ''0,0,0,''
           | Some (b, u, t) \<Rightarrow> u_text b @ '','' @ u_text u @ '','' @ u_text t @ '','')
      | PRINT_NORMAL \<Rightarrow>
          (case gr_nvidia gr of None \<Rightarrow> []
           | Some (b, u, t) \<Rightarrow> ''nv gpu busy          '' @ u_text b @ ''%'' @ newline @
               ''nv vram used         '' @ u_text u @ '' MB'' @ newline @
               ''nv vram total        '' @ u_text t @ '' MB'' @ newline))"

definition w_gpu_metrics :: "gpu_reading \<Rightarrow> output_format \<Rightarrow> writer" where
  "w_gpu_metrics gr f s =
     (let (text, g) = print_gpu_metrics (gr_fusion gr) f (rs_fusion s) in Some (text, s\<lparr>rs_fusion := g\<rparr>))"

text \<open>The block that the header, the rows and the text share.\<close>

definition w_gpu :: "run_config \<Rightarrow> gpu_reading \<Rightarrow> output_format \<Rightarrow> writer" where
  "w_gpu c gr f =
     write_all
       [only (rc_amdgpu c \<and> \<not> rc_sflag c \<and> rc_gpu_busy c) (put (busy_text gr f)),
        only (rc_amdgpu c \<and> rc_gpu_metrics c) (w_gpu_metrics gr f),
        only (rc_amdgpu c \<and> rc_gpu_smi c) (put (smi_text gr f)),
        only (rc_nvidia c \<and> rc_gpu_nvidia c) (put (nvidia_text gr f))]"

section \<open>The frequency of a core\<close>

text \<open>src/cpu_info.c.\<close>

definition read_u32_file :: "sysfs \<Rightarrow> string \<Rightarrow> u32 option" where
  "read_u32_file fs path = Option.bind (fs_file fs path) (\<lambda>s. map_option (\<lambda>(v, _). ucast v) (scan_ul 10 s))"

definition cpu_core_current_freq_mhz_at :: "sysfs \<Rightarrow> string \<Rightarrow> nat \<Rightarrow> u32" where
  "cpu_core_current_freq_mhz_at fs base cpu_id =
     (case read_u32_file fs (take 255 (base @ ''/cpu'' @ dec cpu_id @ ''/cpufreq/scaling_cur_freq'')) of
        None \<Rightarrow> 0 | Some khz \<Rightarrow> khz div 1000)"

definition cpu_core_current_freq_mhz :: "sysfs \<Rightarrow> nat \<Rightarrow> u32" where
  "cpu_core_current_freq_mhz fs cpu_id = cpu_core_current_freq_mhz_at fs ''/sys/devices/system/cpu'' cpu_id"

section \<open>The header\<close>

text \<open>\<open>print_usage\<close> gets a null pointer for the header, which it does not read.\<close>

definition rusage_none :: rusage where
  "rusage_none =
     \<lparr>ru_utime = (0, 0), ru_stime = (0, 0), ru_nvcsw = 0, ru_nivcsw = 0, ru_inblock = 0, ru_oublock = 0,
      ru_maxrss = 0, ru_minflt = 0, ru_majflt = 0, ru_nswap = 0\<rparr>"

text \<open>What is read while a row is written.\<close>

record row_input =
  ri_fs :: sysfs
  ri_clock :: "int \<times> int"
  ri_rusage :: rusage
  ri_gpu :: gpu_reading
  ri_strerror :: "int \<Rightarrow> string"
  ri_coverage :: coverage

definition csv_header ::
  "run_config \<Rightarrow> row_input \<Rightarrow> counter_group list list \<Rightarrow> counter_group list \<Rightarrow> writer"
where
  "csv_header c inp cores sys =
     (let h = PRINT_CSV_HEADER in
      write_all
        [only (rc_interval c \<noteq> 0) (put ''time,''),
         only (rc_interval c \<noteq> 0) (w_phase_column ''phase''),
         only (rc_sflag c) (w_system c (ri_fs inp) (ri_clock inp) h),
         only (rc_interval c = 0 \<and> rc_xflag c) (w_usage c rusage_none h),
         w_gpu c (ri_gpu inp) h,
         only (per_core_csv c cores) (put ''core,''),
         only (per_core_csv c cores \<and> rc_per_core_freq c) (put ''core_freq_mhz,''),
         only (per_core_csv c cores)
           (w_metrics c (case first_core_with_counters cores of None \<Rightarrow> [] | Some gs \<Rightarrow> gs) h),
         w_metrics c sys h,
         w_coverage (ri_strerror inp) (ri_coverage inp) h,
         put newline])"

section \<open>The final rows\<close>

text \<open>The row of a core, and the one of the whole system.\<close>

definition tail_core_row ::
  "run_config \<Rightarrow> row_input \<Rightarrow> nat \<Rightarrow> counter_group list \<Rightarrow> counter_group list \<Rightarrow> writer"
where
  "tail_core_row c inp i core sys =
     write_all
       [only (rc_interval c \<noteq> 0) (w_elapsed c),
        only (rc_sflag c) (w_system c (ri_fs inp) (ri_clock inp) PRINT_CSV),
        only (rc_xflag c \<and> rc_interval c = 0) (w_usage c (ri_rusage inp) PRINT_CSV),
        w_gpu c (ri_gpu inp) PRINT_CSV,
        put (dec i @ '',''),
        only (rc_per_core_freq c) (put (u_text (cpu_core_current_freq_mhz (ri_fs inp) i) @ '','')),
        w_metrics c core PRINT_CSV,
        w_metrics c sys PRINT_CSV,
        w_coverage (ri_strerror inp) (ri_coverage inp) PRINT_CSV,
        put newline]"

definition tail_row :: "run_config \<Rightarrow> row_input \<Rightarrow> counter_group list \<Rightarrow> writer" where
  "tail_row c inp sys =
     write_all
       [only (rc_interval c \<noteq> 0) (w_elapsed c),
        only (rc_interval c \<noteq> 0) w_phase,
        only (rc_sflag c) (w_system c (ri_fs inp) (ri_clock inp) PRINT_CSV),
        only (rc_xflag c \<and> rc_interval c = 0) (w_usage c (ri_rusage inp) PRINT_CSV),
        w_gpu c (ri_gpu inp) PRINT_CSV,
        w_metrics c sys PRINT_CSV,
        w_coverage (ri_strerror inp) (ri_coverage inp) PRINT_CSV,
        put newline]"

text \<open>In text: the whole system, then a block per core.\<close>

definition tail_text :: "run_config \<Rightarrow> row_input \<Rightarrow> counter_group list \<Rightarrow> writer" where
  "tail_text c inp sys =
     write_all
       [only (rc_sflag c) (w_system c (ri_fs inp) (ri_clock inp) PRINT_NORMAL),
        only (rc_xflag c) (w_usage c (ri_rusage inp) PRINT_NORMAL),
        w_phase_line,
        w_metrics c sys PRINT_NORMAL,
        w_coverage (ri_strerror inp) (ri_coverage inp) PRINT_NORMAL,
        (\<lambda>s. put (phase_print_boundaries (rs_phase s)) s),
        w_gpu c (ri_gpu inp) PRINT_NORMAL]"

definition core_block :: "run_config \<Rightarrow> row_input \<Rightarrow> nat \<times> counter_group list \<Rightarrow> writer" where
  "core_block c inp ic =
     (let (i, core) = ic in
      if core = [] then put []
      else if rc_csvflag c then
        write_all [w_usage c (ri_rusage inp) PRINT_CSV, w_metrics c core PRINT_CSV, put newline]
      else
        write_all
          [put (''##### core '' @ pad_left (CHR '' '') 2 (dec i) @ '' #######################'' @ newline),
           w_metrics c core PRINT_NORMAL])"

text \<open>Everything \<open>main\<close> writes after the counters are read for the last time; \<open>inp\<close> gives what each core's row reads.\<close>

definition final_output ::
  "run_config \<Rightarrow> (nat \<Rightarrow> row_input) \<Rightarrow> row_input \<Rightarrow> counter_group list list \<Rightarrow> counter_group list \<Rightarrow> writer"
where
  "final_output c core_inp inp cores sys =
     (if per_core_csv c cores then
        write_all (map (\<lambda>(i, core). if core = [] then put [] else tail_core_row c (core_inp i) i core sys)
          (enumerate 0 cores))
      else
        write_all
          ((if rc_csvflag c then tail_row c inp sys else tail_text c inp sys) #
           map (\<lambda>(i, core). core_block c (core_inp i) (i, core)) (enumerate 0 cores)))"

section \<open>The timer\<close>

definition w_phase_update :: "run_config \<Rightarrow> counter_group list \<Rightarrow> writer" where
  "w_phase_update c sys s =
     Some ([], s\<lparr>rs_phase := phase_detector_update (rs_phase s) (phase_current_ipc sys) (elapsed_now c s)\<rparr>)"

definition timer_core_row ::
  "run_config \<Rightarrow> row_input \<Rightarrow> nat \<Rightarrow> counter_group list \<Rightarrow> counter_group list \<Rightarrow> writer"
where
  "timer_core_row c inp i core sys =
     write_all
       [w_elapsed c,
        only (rc_sflag c) (w_system c (ri_fs inp) (ri_clock inp) PRINT_CSV),
        w_gpu c (ri_gpu inp) PRINT_CSV,
        put (dec i @ '',''),
        only (rc_per_core_freq c) (put (u_text (cpu_core_current_freq_mhz (ri_fs inp) i) @ '','')),
        w_metrics c core PRINT_CSV,
        w_metrics c sys PRINT_CSV,
        w_coverage (ri_strerror inp) (ri_coverage inp) PRINT_CSV,
        put newline]"

definition timer_row :: "run_config \<Rightarrow> row_input \<Rightarrow> counter_group list \<Rightarrow> writer" where
  "timer_row c inp sys =
     (let f = (if rc_csvflag c then PRINT_CSV else PRINT_NORMAL) in
      write_all
        [only (rc_csvflag c) (w_elapsed c),
         w_phase_update c sys,
         (if rc_csvflag c then w_phase else w_phase_line),
         only (rc_sflag c) (w_system c (ri_fs inp) (ri_clock inp) f),
         w_gpu c (ri_gpu inp) f,
         w_metrics c sys f,
         w_coverage (ri_strerror inp) (ri_coverage inp) f,
         only (rc_csvflag c) (put newline)])"

text \<open>What \<open>timer_callback\<close> writes once the counters are read.\<close>

definition timer_output ::
  "run_config \<Rightarrow> (nat \<Rightarrow> row_input) \<Rightarrow> row_input \<Rightarrow> counter_group list list \<Rightarrow> counter_group list \<Rightarrow> writer"
where
  "timer_output c core_inp inp cores sys =
     (if rc_aflag c \<and> rc_csvflag c then
        write_all (map (\<lambda>(i, core). if core = [] then put [] else timer_core_row c (core_inp i) i core sys)
          (enumerate 0 cores))
      else timer_row c inp sys)"

text \<open>The readings before it: the clock, the system, the counters of the system and, for rows per core, of the cores.\<close>

fun read_core_counters ::
  "'k kernel \<Rightarrow> bool \<Rightarrow> counter_group list list \<Rightarrow> 'k \<Rightarrow> (counter_group list list \<times> 'k) option"
where
  "read_core_counters kn stop [] k = Some ([], k)"
| "read_core_counters kn stop (gs # cores) k =
     (case read_counters kn stop gs k of
        None \<Rightarrow> None
      | Some (gs', k1) \<Rightarrow>
          map_option (\<lambda>(cores', k2). (gs' # cores', k2)) (read_core_counters kn stop cores k1))"

definition timer_callback ::
  "'k kernel \<Rightarrow> run_config \<Rightarrow> int \<times> int \<Rightarrow> int \<Rightarrow> sysfs \<Rightarrow> (nat \<Rightarrow> row_input) \<Rightarrow> row_input \<Rightarrow>
    counter_group list list \<Rightarrow> counter_group list \<Rightarrow> 'k \<Rightarrow> run_state \<Rightarrow>
    (string \<times> counter_group list list \<times> counter_group list \<times> 'k \<times> run_state) option"
where
  "timer_callback kn c now amd_busy fs core_inp inp cores sys k s =
     (let s1 = s\<lparr>rs_finish := now,
        rs_system := (if rc_sflag c then read_system (se_mask (rc_system c)) amd_busy fs (rs_system s) else rs_system s)\<rparr>
      in case read_counters kn False sys k of
           None \<Rightarrow> None
         | Some (sys', k1) \<Rightarrow>
             (case (if rc_aflag c \<and> rc_csvflag c then read_core_counters kn False cores k1 else Some (cores, k1)) of
                None \<Rightarrow> None
              | Some (cores', k2) \<Rightarrow>
                  map_option (\<lambda>(text, s2). (text, cores', sys', k2, s2)) (timer_output c core_inp inp cores' sys' s1)))"

text \<open>The end of the run: the last reading stops the counters, and the last interval is classified.\<close>

definition finish_run ::
  "'k kernel \<Rightarrow> run_config \<Rightarrow> int \<times> int \<Rightarrow> int \<Rightarrow> sysfs \<Rightarrow> (nat \<Rightarrow> row_input) \<Rightarrow> row_input \<Rightarrow>
    counter_group list list \<Rightarrow> counter_group list \<Rightarrow> 'k \<Rightarrow> run_state \<Rightarrow> (string \<times> run_state) option"
where
  "finish_run kn c now amd_busy fs core_inp inp cores sys k s =
     (let s1 = s\<lparr>rs_finish := now, rs_system := read_system (se_mask (rc_system c)) amd_busy fs (rs_system s)\<rparr>
      in case read_core_counters kn True cores k of
           None \<Rightarrow> None
         | Some (cores', k1) \<Rightarrow>
             (case read_counters kn True sys k1 of
                None \<Rightarrow> None
              | Some (sys', k2) \<Rightarrow>
                  write_all [w_phase_update c sys', final_output c core_inp inp cores' sys'] s1))"

section \<open>A run\<close>

text \<open>The counters of every core are opened before those of the system.\<close>

fun setup_core_counters ::
  "'k kernel \<Rightarrow> bool \<Rightarrow> counter_group list list \<Rightarrow> 'k \<Rightarrow> coverage \<Rightarrow> counter_group list list \<times> 'k \<times> coverage"
where
  "setup_core_counters kn aflag [] k cv = ([], k, cv)"
| "setup_core_counters kn aflag (gs # cores) k cv =
     (let (gs', s) = setup_counters kn aflag (-1) gs k cv;
          (cores', k', cv') = setup_core_counters kn aflag cores (su_kernel s) (su_coverage s)
      in (gs' # cores', k', cv'))"

text \<open>What the clock, the GPU, the file system and the reports give at a tick.\<close>

record reading =
  rg_now :: "int \<times> int"
  rg_busy :: int
  rg_fs :: sysfs
  rg_core :: "nat \<Rightarrow> row_input"
  rg_row :: row_input

fun timer_ticks ::
  "'k kernel \<Rightarrow> run_config \<Rightarrow> reading list \<Rightarrow> counter_group list list \<Rightarrow> counter_group list \<Rightarrow> 'k \<Rightarrow> run_state \<Rightarrow>
    (string \<times> counter_group list list \<times> counter_group list \<times> 'k \<times> run_state) option"
where
  "timer_ticks kn c [] cores sys k s = Some ([], cores, sys, k, s)"
| "timer_ticks kn c (r # rs) cores sys k s =
     (case timer_callback kn c (rg_now r) (rg_busy r) (rg_fs r) (rg_core r) (rg_row r) cores sys k s of
        None \<Rightarrow> None
      | Some (text, cores1, sys1, k1, s1) \<Rightarrow>
          map_option (\<lambda>(more, rest). (text @ more, rest)) (timer_ticks kn c rs cores1 sys1 k1 s1))"

text \<open>From the counter groups to the last tick: open the counters, write the header, read the system for the first
  time (\<open>first\<close>), then one \<open>timer_callback\<close> per alarm, if there is an interval.\<close>

definition run_until_exit ::
  "'k kernel \<Rightarrow> run_config \<Rightarrow> raw_tables \<Rightarrow> row_input \<Rightarrow> int \<Rightarrow> sysfs \<Rightarrow> reading list \<Rightarrow> 'k \<Rightarrow> coverage \<Rightarrow> run_state \<Rightarrow>
    (string \<times> counter_group list list \<times> counter_group list \<times> 'k \<times> run_state) option"
where
  "run_until_exit kn c rt inp amd_busy first ticks k cv s =
     (let (cores, k1, cv1) = setup_core_counters kn (rc_aflag c) (all_core_groups c rt) k cv;
          (sys, su) = setup_counters kn (rc_aflag c) (-1) (systemwide_groups c rt) k1 cv1;
          s1 = s\<lparr>rs_phase := phase_detector_init
            (phase_detect_is_available (rc_interval c) (rc_phase_flag c) (rc_counter_mask c) (rc_aflag c))\<rparr>
      in case only (rc_csvflag c) (csv_header c (inp\<lparr>ri_coverage := su_coverage su\<rparr>) cores sys) s1 of
           None \<Rightarrow> None
         | Some (header, s2) \<Rightarrow>
             (let s3 = (if rc_sflag c
                then s2\<lparr>rs_system := read_system (se_mask (rc_system c)) amd_busy first (rs_system s2)\<rparr> else s2)
              in map_option (\<lambda>(text, rest). (header @ text, rest))
                   (timer_ticks kn c (if rc_interval c = 0 then [] else ticks) cores sys (su_kernel su) s3)))"

text \<open>At the exit of the child.\<close>

definition run_exit ::
  "'k kernel \<Rightarrow> run_config \<Rightarrow> reading \<Rightarrow> counter_group list list \<Rightarrow> counter_group list \<Rightarrow> 'k \<Rightarrow> run_state \<Rightarrow>
    (string \<times> run_state) option"
where
  "run_exit kn c r cores sys k s =
     finish_run kn c (rg_now r) (rg_busy r) (rg_fs r) (rg_core r) (rg_row r) cores sys k s"

end
