(* ===== verification/Metric_Facts.thy ===== *)
theory Metric_Facts
  imports Metric_Print Power_Probe
begin

text \<open>
  The columns of the CSV reports: for every group the program builds, the row has as many fields as the header, in
  every run, whatever was counted.
\<close>

section \<open>Counting fields\<close>

definition commas :: "string \<Rightarrow> nat" where
  "commas s = length (filter (\<lambda>c. c = CHR '','') s)"

lemma commas_append [simp]: "commas (s @ t) = commas s + commas t"
  by (simp add: commas_def)

lemma commas_Nil [simp]: "commas [] = 0"
  by (simp add: commas_def)

lemma commas_Cons [simp]: "commas (c # s) = (if c = CHR '','' then 1 else 0) + commas s"
  by (simp add: commas_def)

lemma commas_0: "CHR '','' \<notin> set s \<Longrightarrow> commas s = 0"
  by (auto simp: commas_def filter_empty_conv)

lemma commas_concat: "commas (concat xs) = sum_list (map commas xs)"
  by (induction xs) simp_all

lemma digits_no_comma: "CHR '','' \<notin> set (digits_in 10 n)"
proof -
  have "\<forall>c \<in> set (dec n). is_digit c" using dec_digits by (simp add: list_all_iff)
  then show ?thesis by (auto simp: dec_def is_digit_def char_code_def)
qed

lemma dec_no_comma [simp]: "commas (dec n) = 0"
  using digits_no_comma by (simp add: dec_def commas_0)

lemma u_text_no_comma [simp]: "commas (u_text w) = 0"
  by (simp add: u_text_def)

lemma dec_int_no_comma [simp]: "commas (dec_int i) = 0"
  by (simp add: dec_int_def)

lemma pad_no_comma [simp]: "commas (pad_left (CHR '' '') n s) = commas s" "commas (pad_left (CHR ''0'') n s) = commas s"
    "commas (pad_right n s) = commas s"
  by (simp_all add: pad_left_def pad_right_def commas_def)

lemma fmt_no_comma [simp]: "commas (fmt_fixed p x) = 0" "commas (fmt_fixed_w w p x) = 0"
proof -
  show a: "commas (fmt_fixed p x) = 0"
    by (cases x) (simp_all add: fmt_fixed_def Let_def)
  show "commas (fmt_fixed_w w p x) = 0" by (simp add: fmt_fixed_w_def a)
qed

lemma csv_field_comma [simp]: "commas (csv_field p x) = 1"
  by (simp add: csv_field_def)

lemma flag_text_no_comma [simp]: "commas (flag_text b) = 0"
  by (simp add: flag_text_def)

section \<open>One group\<close>

text \<open>Before and after reading: the same label, mask and counter labels.\<close>

definition same_columns :: "counter_group \<Rightarrow> counter_group \<Rightarrow> bool" where
  "same_columns g g' \<longleftrightarrow>
     cg_label g' = cg_label g \<and> cg_mask g' = cg_mask g \<and> map ci_label (cg_cinfo g') = map ci_label (cg_cinfo g)"

text \<open>The groups whose row has the columns of its header, for a vendor.\<close>

definition plain_labels :: "counter_group \<Rightarrow> bool" where
  "plain_labels g \<longleftrightarrow> (\<forall>c \<in> set (cg_cinfo g). CHR '','' \<notin> set (ci_label c))"

definition columns_ok :: "cpu_vendor \<Rightarrow> counter_group \<Rightarrow> bool" where
  "columns_ok vendor g \<longleftrightarrow>
     (let m = has_bit (cg_mask g) in
      if cg_label g = ''software'' then find_ci_label g ''task-clock'' \<noteq> None \<and> plain_labels g
      else if m COUNTER_IPC then True
      else if m COUNTER_TOPDOWN \<or> m COUNTER_TOPDOWN2 then vendor \<noteq> VENDOR_UNKNOWN
      else if m COUNTER_TOPDOWN_BE then vendor = VENDOR_ARM \<or> vendor = VENDOR_INTEL
      else if m COUNTER_TOPDOWN_FE \<or> m COUNTER_TOPDOWN_OP \<or> m COUNTER_BRANCH then True
      else if m COUNTER_L2CACHE then vendor \<noteq> VENDOR_UNKNOWN
      else if m COUNTER_L3CACHE then vendor = VENDOR_AMD
      else if m COUNTER_OPCACHE then True
      else if m COUNTER_MEMORY then vendor \<noteq> VENDOR_UNKNOWN
      else if m (COUNTER_DCACHE OR COUNTER_ICACHE OR COUNTER_TLB) then True
      else if m COUNTER_FLOAT then vendor = VENDOR_AMD
      else if m COUNTER_ARM_DCACHE_MEM \<or> m COUNTER_ARM_ICACHE_TLB \<or> m COUNTER_ARM_MEM_ALIGN_TLB then plain_labels g
      else True)"

lemma labels_commas:
  assumes "\<forall>c \<in> set cs. CHR '','' \<notin> set (ci_label c)"
  shows "commas (concat (map (\<lambda>c. ci_label c @ '','') cs)) = length cs"
  using assms by (induction cs) (simp_all add: commas_0)

lemma values_commas: "commas (concat (map (\<lambda>c. u_text (ci_value c) @ '','') cs)) = length cs"
  by (induction cs) simp_all

lemma same_labels_filter:
  assumes "map ci_label cs' = map ci_label cs"
  shows "length (filter (\<lambda>c. P (ci_label c)) cs') = length (filter (\<lambda>c. P (ci_label c)) cs)"
  using assms
proof (induction cs arbitrary: cs')
  case (Cons c cs)
  then show ?case by (cases cs') auto
qed simp

lemma same_labels_find:
  assumes "map ci_label cs' = map ci_label cs"
  shows "find (\<lambda>c. ci_label c = l) cs' = None \<longleftrightarrow> find (\<lambda>c. ci_label c = l) cs = None"
  using assms
proof (induction cs arbitrary: cs')
  case (Cons c cs)
  then show ?case by (cases cs') auto
qed simp

section \<open>Each report\<close>

lemma ulong_text_no_comma [simp]: "commas (ulong_text n) = 0"
  by (simp add: ulong_text_def)

lemma csv_rate_comma [simp]: "commas (csv_rate n d s) = 1"
  by (simp add: csv_rate_def)

lemma commas_map_one: "(\<And>x. x \<in> set xs \<Longrightarrow> commas (f x) = 1) \<Longrightarrow> commas (concat (map f xs)) = length xs"
  by (induction xs) simp_all

named_theorems report_columns

lemma ipc_columns [report_columns]: "commas (print_ipc env g' PRINT_CSV) = commas (print_ipc env g PRINT_CSV_HEADER)"
  by (simp add: print_ipc_def Let_def)

lemma topdown_columns:
  assumes "me_vendor env \<noteq> VENDOR_UNKNOWN"
  shows "commas (print_topdown env g' PRINT_CSV) = commas (print_topdown env g PRINT_CSV_HEADER)"
proof -
  obtain t where "topdown_of env g' = Some t" using assms by (cases "me_vendor env") (auto simp: topdown_of_def)
  moreover have "commas (print_topdown env g PRINT_CSV_HEADER) = commas topdown_header"
    by (simp add: print_topdown_def split: option.split)
  ultimately show ?thesis
    by (simp add: print_topdown_def topdown_header_def topdown_csv_def Let_def)
qed

lemma topdown_be_columns:
  assumes "me_vendor env = VENDOR_ARM \<or> me_vendor env = VENDOR_INTEL"
  shows "commas (print_topdown_be env sh' g' PRINT_CSV) = commas (print_topdown_be env sh g PRINT_CSV_HEADER)"
proof -
  obtain b where "backend_of env g' = Some b" using assms by (auto simp: backend_of_def)
  then show ?thesis by (simp add: print_topdown_be_def Let_def commas_map_one backend_bounds_def)
qed

lemma topdown_fe_columns [report_columns]:
  "commas (print_topdown_fe env g' PRINT_CSV) = commas (print_topdown_fe env g PRINT_CSV_HEADER)"
  by (simp add: print_topdown_fe_def Let_def)

lemma topdown_op_columns [report_columns]:
  "commas (print_topdown_op env g' PRINT_CSV) = commas (print_topdown_op env g PRINT_CSV_HEADER)"
  by (simp add: print_topdown_op_def Let_def)

lemma branch_columns:
  assumes "me_csvflag env"
  shows "commas (print_branch env g' PRINT_CSV) = commas (print_branch env g PRINT_CSV_HEADER)"
  using assms by (cases "me_vendor env") (simp_all add: print_branch_def Let_def split: prod.split)

lemma l2cache_columns:
  assumes "me_csvflag env" and "me_vendor env \<noteq> VENDOR_UNKNOWN"
  shows "commas (print_l2cache env g' PRINT_CSV) = commas (print_l2cache env g PRINT_CSV_HEADER)"
  using assms by (cases "me_vendor env") (simp_all add: print_l2cache_def l2_pair_def Let_def)

lemma l3cache_columns:
  assumes "me_csvflag env" and "me_vendor env = VENDOR_AMD"
  shows "commas (print_l3cache env g' PRINT_CSV) = commas (print_l3cache env g PRINT_CSV_HEADER)"
  using assms by (simp add: print_l3cache_def Let_def)

lemma float_columns:
  assumes "me_csvflag env" and "me_vendor env = VENDOR_AMD"
  shows "commas (print_float env g' PRINT_CSV) = commas (print_float env g PRINT_CSV_HEADER)"
  using assms by (simp add: print_float_def Let_def)

lemma memory_columns:
  assumes "me_csvflag env" and "me_vendor env \<noteq> VENDOR_UNKNOWN"
  shows "commas (print_memory env g' PRINT_CSV) = commas (print_memory env g PRINT_CSV_HEADER)"
  using assms by (cases "me_vendor env") (simp_all add: print_memory_def Let_def)

lemma cache_columns:
  assumes "me_csvflag env" and "CHR '','' \<notin> set name"
  shows "commas (print_cache name a m env g' PRINT_CSV) = commas (print_cache name a m env g PRINT_CSV_HEADER)"
  using assms by (simp add: print_cache_def Let_def commas_0)

lemma opcache_columns:
  "me_csvflag env \<Longrightarrow> commas (print_opcache env g' PRINT_CSV) = commas (print_opcache env g PRINT_CSV_HEADER)"
  unfolding print_opcache_def by (rule cache_columns) simp_all

lemma cache_group_columns:
  assumes "me_csvflag env" and "cg_mask g' = cg_mask g"
  shows "commas (print_cache_group env g' PRINT_CSV) = commas (print_cache_group env g PRINT_CSV_HEADER)"
proof -
  note c = cache_columns [OF assms(1), of _ _ _ g' g]
  show ?thesis
    by (simp add: print_cache_group_def assms(2) print_dcache_def print_icache_def print_dtlb_def print_itlb_def c)
qed

text \<open>The reports that have a column per counter.\<close>

lemma plain_counters_columns:
  assumes "same_columns g g'" and "plain_labels g"
  shows "commas (concat (map (\<lambda>c. u_text (ci_value c) @ '','') (plain_counters g'))) =
    commas (concat (map (\<lambda>c. ci_label c @ '','') (plain_counters g)))"
proof -
  have "length (plain_counters g') = length (plain_counters g)"
    unfolding plain_counters_def
    using same_labels_filter [of "cg_cinfo g'" "cg_cinfo g" "\<lambda>l. l \<noteq> ''instructions''"] assms(1)
    by (simp add: same_columns_def)
  moreover have "\<forall>c \<in> set (plain_counters g). CHR '','' \<notin> set (ci_label c)"
    using assms(2) by (simp add: plain_labels_def plain_counters_def)
  ultimately show ?thesis by (simp add: labels_commas values_commas)
qed

lemma software_columns:
  assumes "same_columns g g'" and "plain_labels g" and "find_ci_label g ''task-clock'' \<noteq> None" and "me_csvflag env"
  shows "\<exists>h w. print_software env g PRINT_CSV_HEADER = Some h \<and> print_software env g' PRINT_CSV = Some w \<and>
    commas w = commas h"
proof -
  have l: "map ci_label (cg_cinfo g') = map ci_label (cg_cinfo g)" using assms(1) by (simp add: same_columns_def)
  then have "find_ci_label g' ''task-clock'' \<noteq> None"
    using same_labels_find [OF l] assms(3) by (simp add: find_ci_label_def)
  moreover have "length (cg_cinfo g') = length (cg_cinfo g)" using l by (metis length_map)
  ultimately show ?thesis
    using assms(2-4)
    by (auto simp: print_software_def Let_def values_commas labels_commas plain_labels_def)
qed

lemma ibs_columns [report_columns]: "commas (print_ibs env g' PRINT_CSV) = commas (print_ibs env g PRINT_CSV_HEADER)"
  by (simp add: print_ibs_def ibs_deep_csv_def Let_def split: prod.split)

lemma ibs_sample_columns [report_columns]:
  "commas (print_ibs_sample z g' PRINT_CSV) = commas (print_ibs_sample z g PRINT_CSV_HEADER)"
  by (simp add: print_ibs_sample_def print_ibs_sample_states_def Let_def)

lemma power_columns [report_columns]:
  "commas (print_power env g' PRINT_CSV) = commas (print_power env g PRINT_CSV_HEADER)"
  "commas (print_power_core env g' PRINT_CSV) = commas (print_power_core env g PRINT_CSV_HEADER)"
  by (simp_all add: print_power_def print_power_core_def energy_report_def split: prod.split)

section \<open>A list of groups\<close>

lemma emit_text [simp]:
  "rp_text (emit t r) = rp_text r @ t" "rp_text (emit_topdown env g f r) = rp_text r @ print_topdown env g f"
  by (simp_all add: emit_def emit_topdown_def)

text \<open>Two reports with the same number of fields.\<close>

definition aligned :: "report option \<Rightarrow> report option \<Rightarrow> bool" where
  "aligned x y \<longleftrightarrow> (\<exists>r s. x = Some r \<and> y = Some s \<and> commas (rp_text s) = commas (rp_text r))"

lemma aligned_if: "(b \<Longrightarrow> aligned x y) \<Longrightarrow> (\<not> b \<Longrightarrow> aligned u v) \<Longrightarrow> aligned (if b then x else u) (if b then y else v)"
  by simp

lemma aligned_emit: "aligned (Some r) (Some s) \<Longrightarrow> commas u = commas t \<Longrightarrow> aligned (Some (emit t r)) (Some (emit u s))"
  by (simp add: aligned_def)

lemma aligned_topdown:
  "aligned (Some r) (Some s) \<Longrightarrow> me_vendor env \<noteq> VENDOR_UNKNOWN \<Longrightarrow>
   aligned (Some (emit_topdown env g PRINT_CSV_HEADER r)) (Some (emit_topdown env g' PRINT_CSV s))"
  by (simp add: aligned_def topdown_columns [of env g' g])

lemma print_group_columns:
  assumes "me_csvflag env" and "columns_ok (me_vendor env) g" and "same_columns g g'" and rs: "aligned (Some r) (Some s)"
  shows "aligned (print_group env PRINT_CSV_HEADER g r) (print_group env PRINT_CSV g' s)"
proof -
  have m: "cg_mask g' = cg_mask g" and l: "cg_label g' = cg_label g" using assms(3) by (simp_all add: same_columns_def)
  note cols = report_columns topdown_be_columns branch_columns [OF assms(1)] l2cache_columns [OF assms(1)]
    l3cache_columns [OF assms(1)] float_columns [OF assms(1)] memory_columns [OF assms(1)] opcache_columns [OF assms(1)]
    cache_group_columns [OF assms(1) m] plain_counters_columns [OF assms(3)]
  note leaf = aligned_emit [OF rs] aligned_topdown [OF rs]
  have soft: "aligned (map_option (\<lambda>t. emit t r) (print_software env g PRINT_CSV_HEADER))
      (map_option (\<lambda>t. emit t s) (print_software env g' PRINT_CSV))" if "cg_label g = ''software''"
    using that assms(1,2) software_columns [OF assms(3)] rs by (fastforce simp: columns_ok_def aligned_def)
  show ?thesis
    unfolding print_group_def Let_def m l
    apply (intro aligned_if)
    using assms(1,2) soft rs
    apply (simp_all add: columns_ok_def Let_def leaf cols print_arm_dcache_mem_def print_arm_icache_tlb_def
        print_arm_mem_align_tlb_def)
    done
qed

lemma print_groups_columns:
  assumes "me_csvflag env" and "list_all2 same_columns gs gs'" and "\<forall>g \<in> set gs. columns_ok (me_vendor env) g"
    and "aligned (Some r) (Some s)"
  shows "aligned (print_groups env PRINT_CSV_HEADER gs r) (print_groups env PRINT_CSV gs' s)"
  using assms(2-4)
proof (induction arbitrary: r s rule: list_all2_induct)
  case (Cons g gs g' gs')
  have "aligned (print_group env PRINT_CSV_HEADER g r) (print_group env PRINT_CSV g' s)"
    using Cons.prems Cons.hyps(1) by (intro print_group_columns [OF assms(1)]) simp_all
  then obtain r1 s1 where "print_group env PRINT_CSV_HEADER g r = Some r1" "print_group env PRINT_CSV g' s = Some s1"
    "aligned (Some r1) (Some s1)"
    by (auto simp: aligned_def)
  with Cons show ?case by simp
qed simp

lemma print_metrics_columns:
  assumes "me_csvflag env" and "list_all2 same_columns gs gs'" and "\<forall>g \<in> set gs. columns_ok (me_vendor env) g"
  shows "aligned (print_metrics env gs PRINT_CSV_HEADER sh) (print_metrics env gs' PRINT_CSV sh')"
  unfolding print_metrics_def
  by (rule print_groups_columns [OF assms]) (simp add: aligned_def report_initial_def)

section \<open>Opening and reading keep the columns\<close>

lemma same_columns_refl [simp]: "same_columns g g"
  by (simp add: same_columns_def)

lemma same_columns_trans: "same_columns a b \<Longrightarrow> same_columns b c \<Longrightarrow> same_columns a c"
  by (simp add: same_columns_def)

lemma map_state_list_all2:
  assumes "\<And>x s. P x (fst (f x s))"
  shows "list_all2 P xs (fst (map_state f xs s))"
  using assms by (induction xs arbitrary: s) (simp_all add: map_state_fst)

lemma setup_counter_label: "ci_label (fst (setup_counter kn aflag pid g c s)) = ci_label c"
  by (simp add: setup_counter_def setup_fallback_def setup_perf_def Let_def split: prod.split)

lemma list_all2_map_eq: "list_all2 (\<lambda>x y. f y = f x) xs ys \<Longrightarrow> map f ys = map f xs"
  by (induction rule: list_all2_induct) simp_all

lemma setup_counters_columns: "list_all2 same_columns gs (fst (setup_counters kn aflag pid gs k cv))"
  unfolding setup_counters_def
proof (rule map_state_list_all2)
  fix g s
  have "list_all2 (\<lambda>x y. ci_label y = ci_label x) (cg_cinfo g)
      (fst (map_state (setup_counter kn aflag pid g) (cg_cinfo g) s))"
    by (rule map_state_list_all2) (simp add: setup_counter_label)
  then have "map ci_label (fst (map_state (setup_counter kn aflag pid g) (cg_cinfo g) s)) = map ci_label (cg_cinfo g)"
    by (rule list_all2_map_eq)
  then show "same_columns g (fst (setup_group kn aflag pid g s))"
    by (auto simp: same_columns_def setup_group_def split: prod.split)
qed

lemma map_option_state_list_all2:
  assumes "map_option_state f xs s = Some (ys, s')" and "\<And>x s y s'. f x s = Some (y, s') \<Longrightarrow> P x y"
  shows "list_all2 P xs ys"
  using assms(1)
proof (induction xs arbitrary: ys s)
  case (Cons x xs)
  then show ?case using assms(2) by (auto split: option.splits)
qed simp

lemma read_counter_label: "read_counter kn stop g c k = Some (c', k') \<Longrightarrow> ci_label c' = ci_label c"
  by (auto simp: read_counter_def record_read_def Let_def split: if_splits prod.splits option.splits read_result.splits)

lemma read_counters_columns:
  assumes "read_counters kn stop gs k = Some (gs', k')"
  shows "list_all2 same_columns gs gs'"
  using assms unfolding read_counters_def
proof (rule map_option_state_list_all2)
  fix g s g' s' assume "read_group kn stop g s = Some (g', s')"
  then obtain cs where cs: "map_option_state (read_counter kn stop g) (cg_cinfo g) s = Some (cs, s')"
    and g': "g' = g\<lparr>cg_cinfo := cs\<rparr>"
    by (auto simp: read_group_def)
  have "list_all2 (\<lambda>x y. ci_label y = ci_label x) (cg_cinfo g) cs"
    by (rule map_option_state_list_all2 [OF cs]) (rule read_counter_label)
  then show "same_columns g g'" by (simp add: g' same_columns_def list_all2_map_eq)
qed

section \<open>The groups the program builds\<close>

text \<open>The vendor of a table decides which raw groups exist.\<close>

definition uses_within :: "u32 \<Rightarrow> raw_event list \<Rightarrow> bool" where
  "uses_within no es \<longleftrightarrow> list_all (\<lambda>e. \<not> has_bit (re_use e) no \<and> CHR '','' \<notin> set (re_name e)) es"

definition tables_columns :: "raw_tables \<Rightarrow> bool" where
  "tables_columns rt \<longleftrightarrow>
     uses_within COUNTER_TOPDOWN_BE (rt_amd rt) \<and>
     uses_within (COUNTER_L3CACHE OR COUNTER_FLOAT) (rt_intel rt) \<and>
     uses_within (COUNTER_L3CACHE OR COUNTER_FLOAT) (rt_intel_atom rt) \<and>
     uses_within (COUNTER_L3CACHE OR COUNTER_FLOAT) (rt_arm rt)"

lemma tables_columns_initial: "tables_columns raw_tables_initial"
  by code_simp

lemma setup_event_use:
  "setup_event parse m ev = Inr ev' \<Longrightarrow> re_name ev' = re_name ev \<and> (re_use ev' = re_use ev \<or> re_use ev' = 0)"
  "setup_amd_event pe m ev = Inr ev' \<Longrightarrow> re_name ev' = re_name ev \<and> (re_use ev' = re_use ev \<or> re_use ev' = 0)"
  by (auto simp: setup_event_def setup_amd_event_def set_config_def map_sum_def split: if_splits sum.splits)

lemma uses_within_kept:
  assumes "map_result f es = Inr es'" and "uses_within no es"
    and "\<And>x y. f x = Inr y \<Longrightarrow> re_name y = re_name x \<and> (re_use y = re_use x \<or> re_use y = 0)"
  shows "uses_within no es'"
proof -
  have "list_all2 (\<lambda>x y. re_name y = re_name x \<and> (re_use y = re_use x \<or> re_use y = 0)) es es'"
    by (rule map_result_list_all2 [OF assms(1)]) (rule assms(3))
  then show ?thesis
    using assms(2) unfolding uses_within_def by (induction rule: list_all2_induct) auto
qed

lemma setup_raw_events_columns:
  assumes "setup_raw_events h pe m rt0 = Inr rt" and "tables_columns rt0"
  shows "tables_columns rt"
proof -
  note k = uses_within_kept [OF _ _ setup_event_use(1)] uses_within_kept [OF _ _ setup_event_use(2)]
  show ?thesis
  proof (cases "h_vendor h")
    case VENDOR_INTEL
    with assms show ?thesis
      by (auto simp: setup_raw_events_def map_sum_Inr tables_columns_def Let_def
          split: sum.splits if_splits elim: k(1))
  qed (use assms in \<open>auto simp: setup_raw_events_def map_sum_Inr tables_columns_def elim: k\<close>)
qed

lemma uses_within_filter_empty:
  assumes "uses_within no es"
  shows "filter (\<lambda>ev. has_bit (re_use ev) no) es = []"
  using assms by (auto simp: uses_within_def list_all_iff filter_empty_conv)

lemma raw_counter_label [simp]: "ci_label (raw_counter h m cc x) = re_name (snd x)"
  by (cases x) (simp add: raw_counter_def counter_info_zero_def)

lemma tables_plain: "tables_columns rt \<Longrightarrow> ev \<in> set (raw_table h rt cc) \<Longrightarrow> CHR '','' \<notin> set (re_name ev)"
  by (auto simp: tables_columns_def uses_within_def list_all_iff raw_table_def split: cpu_vendor.splits if_splits)

lemma raw_group_columns_ok:
  assumes "raw_counter_group h rt (fst r) (snd r) cc = Some g" and "r \<in> set raw_group_requests" and "tables_columns rt"
  shows "columns_ok (h_vendor h) g"
proof -
  obtain evs where evs: "evs = filter (\<lambda>ev. has_bit (re_use ev) (snd r)) (raw_table h rt cc)" "evs \<noteq> []"
    and g: "cg_label g = fst r" "cg_mask g = snd r" "cg_cinfo g = map (raw_counter h (snd r) cc) (enumerate 0 evs)"
    by (rule raw_group_cases [OF assms(1)]) simp
  have v: "h_vendor h \<noteq> VENDOR_UNKNOWN" by (rule raw_group_vendor [OF assms(1)])
  have be: "h_vendor h \<noteq> VENDOR_AMD" if "snd r = COUNTER_TOPDOWN_BE"
    using evs that assms(3) uses_within_filter_empty [of COUNTER_TOPDOWN_BE "rt_amd rt"]
    by (auto simp: raw_table_def tables_columns_def)
  have bits: "has_bit u COUNTER_L3CACHE \<or> has_bit u COUNTER_FLOAT \<Longrightarrow> has_bit u (COUNTER_L3CACHE OR COUNTER_FLOAT)" for u
    by (metis has_bit_or has_bit_def and.commute)
  have amd: "h_vendor h = VENDOR_AMD" if "snd r = COUNTER_L3CACHE \<or> snd r = COUNTER_FLOAT"
  proof (rule ccontr)
    assume "h_vendor h \<noteq> VENDOR_AMD"
    with v assms(3) have "uses_within (COUNTER_L3CACHE OR COUNTER_FLOAT) (raw_table h rt cc)"
      by (cases "h_vendor h") (auto simp: raw_table_def tables_columns_def)
    with evs that bits show False by (auto simp: uses_within_def list_all_iff filter_empty_conv)
  qed
  have "set evs \<subseteq> set (raw_table h rt cc)" by (auto simp: evs(1))
  then have plain: "plain_labels g"
    using tables_plain [OF assms(3)] nth_mem [of _ evs]
    by (auto simp: plain_labels_def g(3) in_set_enumerate_eq dest!: nth_mem)
  have "fst r \<noteq> ''software''" using assms(2) by (auto simp: raw_group_requests_def)
  moreover have "h_vendor h = VENDOR_ARM \<or> h_vendor h = VENDOR_INTEL" if "snd r = COUNTER_TOPDOWN_BE"
    using v be [OF that] by (cases "h_vendor h") auto
  ultimately show ?thesis
    using assms(2) unfolding raw_group_requests_def
    apply (simp only: list.set insert_iff empty_iff simp_thms)
    apply (elim disjE)
    apply (simp_all add: columns_ok_def Let_def g(1,2) has_bit_def v amd plain)
    done
qed

lemma cache_group_columns_ok:
  assumes "cache_counter_group h name (m AND CACHE_BITS) = Some g"
  shows "columns_ok v g"
proof -
  have g: "cg_label g = ''cache''" "cg_mask g = m AND CACHE_BITS"
    using assms by (auto simp: cache_counter_group_def Let_def split: if_splits)
  have no: "\<not> has_bit (m AND CACHE_BITS) b" if "CACHE_BITS AND b = 0" for b
    using that by (simp add: has_bit_def and.assoc)
  have "\<forall>b \<in> {COUNTER_IPC, COUNTER_TOPDOWN, COUNTER_TOPDOWN2, COUNTER_TOPDOWN_BE, COUNTER_L2CACHE, COUNTER_L3CACHE,
      COUNTER_MEMORY, COUNTER_FLOAT, COUNTER_ARM_DCACHE_MEM, COUNTER_ARM_ICACHE_TLB, COUNTER_ARM_MEM_ALIGN_TLB}.
      CACHE_BITS AND b = 0"
    by (simp add: CACHE_BITS_def)
  then have "\<forall>b \<in> {COUNTER_IPC, COUNTER_TOPDOWN, COUNTER_TOPDOWN2, COUNTER_TOPDOWN_BE, COUNTER_L2CACHE, COUNTER_L3CACHE,
      COUNTER_MEMORY, COUNTER_FLOAT, COUNTER_ARM_DCACHE_MEM, COUNTER_ARM_ICACHE_TLB, COUNTER_ARM_MEM_ALIGN_TLB}.
      \<not> has_bit (cg_mask g) b"
    unfolding g using no by blast
  then show ?thesis by (simp add: columns_ok_def Let_def g(1) split del: if_split cong: if_cong)
qed

lemma setup_groups_columns_ok:
  assumes "tables_columns rt" and "g \<in> set (setup_counter_groups h rt m cc [])"
  shows "columns_ok (h_vendor h) g"
  using assms(2) cache_group_columns_ok raw_group_columns_ok [OF _ _ assms(1)] by (auto simp: setup_groups_member)

lemma other_columns_ok:
  "cg_label g \<noteq> ''software'' \<Longrightarrow> cg_mask g \<in> {COUNTER_IBS, COUNTER_IBS_SAMPLE, COUNTER_POWER, COUNTER_POWER_CORE} \<Longrightarrow>
   columns_ok v g"
  by (elim insertE emptyE; simp add: columns_ok_def Let_def has_bit_def)

lemma software_columns_ok: "columns_ok v (software_counter_group ''software'')"
  by (simp add: columns_ok_def software_counter_group_def find_ci_label_def sw_counters_def plain_counter_def
      plain_labels_def counter_info_zero_def)

lemma ibs_columns_ok: "ibs_counter_group fs ''ibs'' profile params = Some g \<Longrightarrow> columns_ok v g"
  by (intro other_columns_ok) (auto simp: ibs_counter_group_def Let_def split: if_splits)

lemma ibs_sample_columns_ok: "ibs_sample_counter_group fs ''ibs_sample'' params = Some g \<Longrightarrow> columns_ok v g"
  by (intro other_columns_ok) (auto simp: ibs_sample_counter_group_def Let_def split: if_splits)

lemma power_columns_ok: "fst (power_counter_group fs ''power'') = Some g \<Longrightarrow> columns_ok v g"
  by (intro other_columns_ok) (auto simp: power_counter_group_def Let_def split: if_splits)

lemma power_core_columns_ok: "power_core_counter_group ''power-core'' caps cpu = Some g \<Longrightarrow> columns_ok v g"
  by (intro other_columns_ok) (auto simp: power_core_counter_group_def split: if_splits)

end
