(* ===== verification/Run_Facts.thy ===== *)
theory Run_Facts
  imports Run_Rows Metric_Facts
begin

text \<open>
  The CSV file of a run is rectangular: every row that the timer or the end of the run writes has as many fields as
  the header. The two exceptions of the code are shown by example: cores with different event tables, and devices
  that appear after the header.
\<close>

section \<open>Columns of the groups of a run\<close>

lemma list_all2_refl_columns [simp]: "list_all2 same_columns gs gs"
  by (simp add: list_all2_refl)

lemma list_all2_columns_trans:
  "list_all2 same_columns a b \<Longrightarrow> list_all2 same_columns b c \<Longrightarrow> list_all2 same_columns a c"
  by (rule list_all2_trans [OF same_columns_trans])

lemma columns_ok_same:
  assumes "same_columns g g'"
  shows "columns_ok v g' \<longleftrightarrow> columns_ok v g"
proof -
  have l: "map ci_label (cg_cinfo g') = map ci_label (cg_cinfo g)" using assms by (simp add: same_columns_def)
  have "set (map ci_label (cg_cinfo g')) = set (map ci_label (cg_cinfo g))" using l by simp
  then have s: "ci_label ` set (cg_cinfo g') = ci_label ` set (cg_cinfo g)" by (simp only: set_map)
  have "plain_labels g' \<longleftrightarrow> (\<forall>x \<in> ci_label ` set (cg_cinfo g'). CHR '','' \<notin> set x)" by (simp add: plain_labels_def)
  also have "\<dots> \<longleftrightarrow> plain_labels g" unfolding s by (simp add: plain_labels_def)
  finally have p: "plain_labels g' \<longleftrightarrow> plain_labels g" .
  have "find_ci_label g' ''task-clock'' = None \<longleftrightarrow> find_ci_label g ''task-clock'' = None"
    unfolding find_ci_label_def by (rule same_labels_find [OF l])
  with assms p show ?thesis by (simp only: columns_ok_def same_columns_def)
qed

lemma columns_ok_list:
  "list_all2 same_columns gs gs' \<Longrightarrow> \<forall>g \<in> set gs. columns_ok v g \<Longrightarrow> \<forall>g \<in> set gs'. columns_ok v g"
  by (induction rule: list_all2_induct) (simp_all add: columns_ok_same)

lemma bind_counter_label [simp]: "ci_label (bind_counter pmu g c) = ci_label c"
  by (simp add: bind_counter_def)

lemma bind_columns: "list_all2 same_columns gs (bind_core_counter_groups gs cpu pmu)"
  by (simp add: bind_core_counter_groups_def list_all2_map2 list_all2_same same_columns_def)

text \<open>The class of a core matters only through which of the two Intel tables it is measured with.\<close>

lemma setup_groups_class:
  assumes "v = CORE_INTEL_ATOM \<longleftrightarrow> v' = CORE_INTEL_ATOM"
  shows "setup_counter_groups h rt m v list = setup_counter_groups h rt m v' list"
proof -
  have t: "raw_table h rt v = raw_table h rt v'" using assms by (simp add: raw_table_def)
  have "raw_counter h b v = raw_counter h b v'" for b
    using assms by (intro ext) (auto simp: raw_counter_def raw_leader_def Let_def split: prod.split cpu_vendor.split)
  then have "raw_counter_group h rt name b v = raw_counter_group h rt name b v'" for name b
    by (simp add: raw_counter_group_def t Let_def)
  then have "push_raw h rt m v = push_raw h rt m v'" by (intro ext) (simp add: push_raw_def)
  then show ?thesis by (simp add: setup_counter_groups_def)
qed

lemma core_energy_columns:
  "core_energy_group c i = None \<and> core_energy_group c j = None \<or>
   (\<exists>g g'. core_energy_group c i = Some g \<and> core_energy_group c j = Some g' \<and> same_columns g g')"
  by (auto simp: core_energy_group_def power_core_counter_group_def same_columns_def counter_info_zero_def Let_def)

lemma push_columns:
  "list_all2 same_columns gs gs' \<Longrightarrow> x = None \<and> y = None \<or> (\<exists>g g'. x = Some g \<and> y = Some g' \<and> same_columns g g') \<Longrightarrow>
   list_all2 same_columns (push_group x gs) (push_group y gs')"
  by (auto simp: push_group_def)

text \<open>Two cores that are measured with the same table have the same columns.\<close>

lemma core_groups_columns:
  assumes "core_groups c rt (i, a) \<noteq> []" and "core_groups c rt (j, b) \<noteq> []"
    and "co_vendor a = CORE_INTEL_ATOM \<longleftrightarrow> co_vendor b = CORE_INTEL_ATOM"
  shows "list_all2 same_columns (core_groups c rt (i, a)) (core_groups c rt (j, b))"
proof -
  let ?base = "setup_counter_groups (rc_host c) rt (rc_counter_mask c) (co_vendor a) []"
  have eq: "setup_counter_groups (rc_host c) rt (rc_counter_mask c) (co_vendor b) [] = ?base"
    using assms(3) by (intro setup_groups_class) simp
  have "list_all2 (\<lambda>g g'. same_columns g' g) (bind_core_counter_groups ?base cpu pmu) ?base" for cpu pmu
    by (simp add: bind_core_counter_groups_def list_all2_map1 list_all2_same same_columns_def)
  then have "list_all2 same_columns (bind_core_counter_groups ?base cpu pmu) ?base" for cpu pmu
    by (rule list.rel_mono_strong) (simp add: same_columns_def)
  then have "list_all2 same_columns (bind_core_counter_groups ?base (int i) (co_pmu_type a))
      (bind_core_counter_groups ?base (int j) (co_pmu_type b))"
    using bind_columns list_all2_columns_trans by blast
  then show ?thesis
    using assms(1,2) push_columns [OF _ core_energy_columns]
    by (auto simp: core_groups_def eq split: if_splits)
qed

lemma columns_ok_push: "\<forall>g \<in> set gs. columns_ok v g \<Longrightarrow> (\<And>g. x = Some g \<Longrightarrow> columns_ok v g) \<Longrightarrow>
    \<forall>g \<in> set (push_group x gs). columns_ok v g"
  by (cases x) (auto simp: push_group_def)

lemma core_groups_ok:
  assumes "tables_columns rt"
  shows "\<forall>g \<in> set (core_groups c rt ic). columns_ok (h_vendor (rc_host c)) g"
proof -
  obtain i core where ic: "ic = (i, core)" by (cases ic)
  have "\<forall>g \<in> set (setup_counter_groups (rc_host c) rt (rc_counter_mask c) (co_vendor core) []).
      columns_ok (h_vendor (rc_host c)) g"
    using setup_groups_columns_ok [OF assms] by blast
  then have "\<forall>g \<in> set (bind_core_counter_groups
      (setup_counter_groups (rc_host c) rt (rc_counter_mask c) (co_vendor core) []) (int i) (co_pmu_type core)).
      columns_ok (h_vendor (rc_host c)) g"
    by (rule columns_ok_list [OF bind_columns])
  then have "\<forall>g \<in> set (push_group (core_energy_group c i) (bind_core_counter_groups
      (setup_counter_groups (rc_host c) rt (rc_counter_mask c) (co_vendor core) []) (int i) (co_pmu_type core))).
      columns_ok (h_vendor (rc_host c)) g"
    by (rule columns_ok_push) (auto simp: core_energy_group_def Let_def power_core_columns_ok split: if_splits)
  then show ?thesis by (simp add: ic core_groups_def)
qed

lemma columns_ok_when:
  assumes "\<forall>g \<in> set gs. columns_ok v g" and "\<And>g. x = Some g \<Longrightarrow> columns_ok v g"
  shows "\<forall>g \<in> set (when_counter c b x gs). columns_ok v g"
proof (cases "has_bit (rc_counter_mask c) b")
  case True
  then show ?thesis using columns_ok_push [OF assms] by (simp only: when_counter_def if_True)
next
  case False
  then show ?thesis using assms(1) by (simp only: when_counter_def if_False)
qed

lemma systemwide_groups_ok:
  assumes "tables_columns rt"
  shows "\<forall>g \<in> set (systemwide_groups c rt). columns_ok (h_vendor (rc_host c)) g"
proof -
  have "\<forall>g \<in> set (if rc_aflag c then []
      else setup_counter_groups (rc_host c) rt (rc_counter_mask c) CORE_UNKNOWN []). columns_ok (h_vendor (rc_host c)) g"
    using setup_groups_columns_ok [OF assms] by auto
  then show ?thesis
    unfolding systemwide_groups_def Let_def
    by (intro columns_ok_when) (auto simp: software_columns_ok ibs_columns_ok ibs_sample_columns_ok power_columns_ok)
qed

section \<open>Writers with a number of fields\<close>

text \<open>From every state that satisfies \<open>I\<close> the writer succeeds, with \<open>n\<close> commas, in a state that satisfies \<open>I\<close>.\<close>

definition writes :: "nat \<Rightarrow> (run_state \<Rightarrow> bool) \<Rightarrow> writer \<Rightarrow> bool" where
  "writes n I w \<longleftrightarrow> (\<forall>s. I s \<longrightarrow> (\<exists>t s1. w s = Some (t, s1) \<and> commas t = n \<and> I s1))"

lemma writes_put [simp]: "writes n I (put t) \<longleftrightarrow> (\<forall>s. \<not> I s) \<or> commas t = n"
  by (auto simp: writes_def put_def)

lemma writes_only: "(b \<Longrightarrow> writes n I w) \<Longrightarrow> writes (if b then n else 0) I (only b w)"
  by (auto simp: only_def)

lemma write_all_cong:
  assumes "list_all2 (\<lambda>n w. writes n I w) ns ws"
  shows "writes (sum_list ns) I (write_all ws)"
  using assms
proof (induction rule: list_all2_induct)
  case Nil
  show ?case by (simp add: writes_def)
next
  case (Cons n ns w ws)
  show ?case
    unfolding writes_def
  proof (intro allI impI)
    fix s assume "I s"
    then obtain t s1 where 1: "w s = Some (t, s1)" "commas t = n" "I s1" using Cons.hyps(1) by (auto simp: writes_def)
    then obtain u s2 where "write_all ws s1 = Some (u, s2)" "commas u = sum_list ns" "I s2"
      using Cons.IH by (auto simp: writes_def)
    with 1 show "\<exists>t s1. write_all (w # ws) s = Some (t, s1) \<and> commas t = sum_list (n # ns) \<and> I s1" by simp
  qed
qed

text \<open>The devices of the status report: those of the header, at least one of each kind asked for.\<close>

definition devices :: "u32 \<Rightarrow> nat \<Rightarrow> nat \<Rightarrow> system_state \<Rightarrow> bool" where
  "devices m nets disks st \<longleftrightarrow>
     (mask_bit m SYSTEM_NETWORK \<longrightarrow> st_net st \<noteq> [] \<and> length (st_net st) = nets) \<and>
     (mask_bit m SYSTEM_DISK \<longrightarrow> st_disk st \<noteq> [] \<and> length (st_disk st) = disks)"

definition plain_names :: "system_state \<Rightarrow> bool" where
  "plain_names st \<longleftrightarrow>
     (\<forall>n \<in> set (st_net st). CHR '','' \<notin> set (ni_name n)) \<and> (\<forall>d \<in> set (st_disk st). CHR '','' \<notin> set (di_name d))"

definition system_columns :: "u32 \<Rightarrow> nat \<Rightarrow> nat \<Rightarrow> nat" where
  "system_columns m nets disks =
     (if mask_bit m SYSTEM_LOADAVG then 2 else 0) + (if mask_bit m SYSTEM_CPU then 4 else 0) +
     (if mask_bit m SYSTEM_FREQ then 1 else 0) + (if mask_bit m SYSTEM_TEMP then 1 else 0) +
     (if mask_bit m SYSTEM_NETWORK then nets else 0) + (if mask_bit m SYSTEM_DISK then 3 * disks else 0) +
     (if mask_bit m SYSTEM_MEM then 6 else 0) + (if mask_bit m SYSTEM_GPU then 1 else 0)"

lemma commas_part: "commas (part m b t) = (if mask_bit m b then commas t else 0)"
  by (simp add: part_def)

lemma commas_each: "(\<And>x. x \<in> set xs \<Longrightarrow> commas (f x) = k) \<Longrightarrow> commas (concat (map f xs)) = k * length xs"
  by (induction xs) simp_all

lemma system_csv_columns:
  assumes "devices (se_mask e) nets disks st"
  shows "commas (system_csv e st) = system_columns (se_mask e) nets disks"
proof -
  have "commas (fields_text (map (\<lambda>n. u_text (tk_value (ni_bytes n))) (st_net st))) = length (st_net st)"
    using commas_each [of "st_net st" "\<lambda>n. u_text (tk_value (ni_bytes n)) @ '',''" 1]
    by (simp add: fields_text_def comp_def)
  moreover have "commas (concat (map (\<lambda>d. fields_text (map u_text (disk_bytes d))) (st_disk st))) = 3 * length (st_disk st)"
    by (intro commas_each) (simp add: fields_text_def disk_bytes_def)
  moreover have "commas (fields_text (map (fmt_fixed 2) (mem_megabytes (st_mem st)))) = 6"
    by (simp add: fields_text_def mem_megabytes_def)
  moreover have "commas (concat (map (\<lambda>x. fmt_fixed_w 3 2 x @ ''%,'') (cpu_shares e (st_cpu st)))) = 4"
    by (simp add: cpu_shares_def)
  ultimately show ?thesis
    using assms by (simp add: system_csv_def system_columns_def commas_part devices_def Let_def)
qed

lemma system_header_columns:
  assumes "devices m nets disks st" and "plain_names st"
  shows "commas (system_header m st) = system_columns m nets disks"
proof -
  have "commas (concat (map (\<lambda>n. ''net '' @ ni_name n @ '','') (st_net st))) = 1 * length (st_net st)"
    using assms(2) by (intro commas_each) (simp add: plain_names_def commas_0)
  moreover have "commas (concat (map (\<lambda>d. ''disk '' @ di_name d @ '' read,disk '' @ di_name d @ '' write,disk '' @
      di_name d @ '' time,'') (st_disk st))) = 3 * length (st_disk st)"
    using assms(2) by (intro commas_each) (simp add: plain_names_def commas_0)
  ultimately show ?thesis
    using assms(1) by (simp add: system_header_def system_columns_def commas_part devices_def)
qed

text \<open>The devices that the header finds, when the file system is \<open>fs\<close>.\<close>

definition found :: "u32 \<Rightarrow> sysfs \<Rightarrow> system_state \<Rightarrow> system_state" where
  "found m fs st = when_bit m SYSTEM_DISK (need_disk fs) (when_bit m SYSTEM_NETWORK (need_net fs) st)"

lemma found_devices: "devices m nets disks st \<Longrightarrow> found m fs st = st"
  by (auto simp: found_def devices_def when_bit_def need_net_def need_disk_def)

lemma print_system_found:
  "print_system e fs f st =
    (case f of
       PRINT_CSV_HEADER \<Rightarrow> system_header (se_mask e) (found (se_mask e) fs st)
     | PRINT_CSV \<Rightarrow> system_csv e (found (se_mask e) fs st)
     | PRINT_NORMAL \<Rightarrow> system_text e (found (se_mask e) fs st), found (se_mask e) fs st)"
  by (cases f) (simp_all add: print_system_def found_def Let_def)

section \<open>Each writer\<close>

text \<open>The states in which rows are written: the devices are known, and the phase detector is on or off for good. The
  header also needs names of devices without a comma.\<close>

definition row_state :: "run_config \<Rightarrow> nat \<Rightarrow> nat \<Rightarrow> bool \<Rightarrow> run_state \<Rightarrow> bool" where
  "row_state c nets disks phase s \<longleftrightarrow>
     (rc_sflag c \<longrightarrow> devices (se_mask (rc_system c)) nets disks (rs_system s)) \<and> pd_enabled (rs_phase s) = phase"

definition header_state :: "run_config \<Rightarrow> nat \<Rightarrow> nat \<Rightarrow> bool \<Rightarrow> run_state \<Rightarrow> bool" where
  "header_state c nets disks phase s \<longleftrightarrow>
     row_state c nets disks phase s \<and> (rc_sflag c \<longrightarrow> plain_names (rs_system s))"

lemma system_now_mask [simp]: "se_mask (system_now c s) = se_mask (rc_system c)"
  by (simp add: system_now_def)

lemma w_system_row:
  assumes "rc_sflag c"
  shows "writes (system_columns (se_mask (rc_system c)) nets disks) (row_state c nets disks p) (w_system c fs clock PRINT_CSV)"
  using assms
  by (auto simp: writes_def w_system_def row_state_def print_system_found Let_def system_csv_columns found_devices)

lemma w_system_header:
  assumes "rc_sflag c"
  shows "writes (system_columns (se_mask (rc_system c)) nets disks) (header_state c nets disks p)
    (w_system c fs clock PRINT_CSV_HEADER)"
  using assms
  by (auto simp: writes_def w_system_def header_state_def row_state_def print_system_found Let_def system_header_columns found_devices)

text \<open>The other writers do not look at what the two invariants speak of.\<close>

definition quiet :: "(run_state \<Rightarrow> bool) \<Rightarrow> bool" where
  "quiet I \<longleftrightarrow> (\<forall>s f sh. I (s\<lparr>rs_fusion := f\<rparr>) = I s \<and> I (s\<lparr>rs_shared := sh\<rparr>) = I s)"

lemma quiet_states [simp]: "quiet (row_state c nets disks p)" "quiet (header_state c nets disks p)"
  by (simp_all add: quiet_def header_state_def row_state_def)

lemma w_elapsed_writes: "writes 1 I (w_elapsed c)"
  by (simp add: writes_def w_elapsed_def)

lemma w_usage_writes: "f \<in> {PRINT_CSV, PRINT_CSV_HEADER} \<Longrightarrow> writes 12 I (w_usage c ru f)"
  by (auto simp: writes_def w_usage_def print_usage_def ld_text_def Let_def)

lemma w_coverage_writes: "f \<in> {PRINT_CSV, PRINT_CSV_HEADER} \<Longrightarrow> writes 2 I (w_coverage strerror cv f)"
  by (auto simp: w_coverage_def print_counter_coverage_def)

definition gpu_columns :: "run_config \<Rightarrow> nat" where
  "gpu_columns c =
     sum_list [if rc_amdgpu c \<and> \<not> rc_sflag c \<and> rc_gpu_busy c then 1 else 0,
       if rc_amdgpu c \<and> rc_gpu_metrics c then 8 else 0, if rc_amdgpu c \<and> rc_gpu_smi c then 4 else 0,
       if rc_nvidia c \<and> rc_gpu_nvidia c then 3 else 0]"

lemma d_text_no_comma [simp]: "commas (d_text w) = 0"
  by (simp add: d_text_def)

lemma source_name_no_comma [simp]: "commas (gpu_metric_source_name x) = 0"
  by (cases x) (simp_all add: gpu_metric_source_name_def)

lemma w_gpu_metrics_writes:
  assumes "f \<in> {PRINT_CSV, PRINT_CSV_HEADER}" and "quiet I"
  shows "writes 8 I (w_gpu_metrics gr f)"
  using assms
  by (auto simp: writes_def w_gpu_metrics_def print_gpu_metrics_def gpu_header_def gpu_csv_def quiet_def Let_def)

lemma w_gpu_writes:
  assumes "f \<in> {PRINT_CSV, PRINT_CSV_HEADER}" and "quiet I"
  shows "writes (gpu_columns c) I (w_gpu c gr f)"
proof -
  have "commas (busy_text gr f) = 1" "commas (smi_text gr f) = 4" "commas (nvidia_text gr f) = 3"
    using assms(1) by (auto simp: busy_text_def smi_text_def nvidia_text_def split: option.split prod.split)
  then show ?thesis
    unfolding w_gpu_def gpu_columns_def
    by (intro write_all_cong) (simp add: writes_only w_gpu_metrics_writes [OF assms])
qed

text \<open>The metrics header does not depend on the time, nor on the shared denominator.\<close>

named_theorems header_time

lemma topdown_time [header_time]:
  "topdown_of (env\<lparr>me_finish := t\<rparr>) g = topdown_of env g"
  "topdown_warns (env\<lparr>me_finish := t\<rparr>) g f = topdown_warns env g f"
  "share_slots (env\<lparr>me_finish := t\<rparr>) g sh = share_slots env g sh"
  "me_zen4_ext (env\<lparr>me_finish := t\<rparr>) = me_zen4_ext env"
proof -
  show of: "topdown_of (env\<lparr>me_finish := t\<rparr>) g = topdown_of env g"
    by (cases "me_vendor env") (simp_all add: topdown_of_def)
  show "topdown_warns (env\<lparr>me_finish := t\<rparr>) g f = topdown_warns env g f"
    "share_slots (env\<lparr>me_finish := t\<rparr>) g sh = share_slots env g sh"
    by (simp_all add: topdown_warns_def share_slots_def of)
qed simp

lemma topdown_header_time [header_time]:
  "print_topdown (env\<lparr>me_finish := t\<rparr>) g PRINT_CSV_HEADER = print_topdown env g PRINT_CSV_HEADER"
  "print_topdown_be (env\<lparr>me_finish := t\<rparr>) sh g PRINT_CSV_HEADER = print_topdown_be env sh g PRINT_CSV_HEADER"
  "print_topdown_fe (env\<lparr>me_finish := t\<rparr>) g PRINT_CSV_HEADER = print_topdown_fe env g PRINT_CSV_HEADER"
  "print_topdown_op (env\<lparr>me_finish := t\<rparr>) g PRINT_CSV_HEADER = print_topdown_op env g PRINT_CSV_HEADER"
  "print_ipc (env\<lparr>me_finish := t\<rparr>) g PRINT_CSV_HEADER = print_ipc env g PRINT_CSV_HEADER"
  by (simp_all add: print_topdown_def topdown_of_def print_topdown_be_def print_topdown_fe_def print_topdown_op_def
      print_ipc_def Let_def split: option.split cpu_vendor.split)

lemma cache_header_time [header_time]:
  "print_branch (env\<lparr>me_finish := t\<rparr>) g PRINT_CSV_HEADER = print_branch env g PRINT_CSV_HEADER"
  "print_l2cache (env\<lparr>me_finish := t\<rparr>) g PRINT_CSV_HEADER = print_l2cache env g PRINT_CSV_HEADER"
  "print_l3cache (env\<lparr>me_finish := t\<rparr>) g PRINT_CSV_HEADER = print_l3cache env g PRINT_CSV_HEADER"
  "print_opcache (env\<lparr>me_finish := t\<rparr>) g PRINT_CSV_HEADER = print_opcache env g PRINT_CSV_HEADER"
  "print_memory (env\<lparr>me_finish := t\<rparr>) g PRINT_CSV_HEADER = print_memory env g PRINT_CSV_HEADER"
  "print_cache_group (env\<lparr>me_finish := t\<rparr>) g PRINT_CSV_HEADER = print_cache_group env g PRINT_CSV_HEADER"
  "print_float (env\<lparr>me_finish := t\<rparr>) g PRINT_CSV_HEADER = print_float env g PRINT_CSV_HEADER"
  by (simp_all add: print_branch_def print_l2cache_def print_l3cache_def print_opcache_def print_memory_def
      print_cache_group_def print_dcache_def print_icache_def print_dtlb_def print_itlb_def print_cache_def
      print_float_def Let_def split: prod.split)

lemma other_header_time [header_time]:
  "print_software (env\<lparr>me_finish := t\<rparr>) g PRINT_CSV_HEADER = print_software env g PRINT_CSV_HEADER"
  "print_arm_dcache_mem (env\<lparr>me_finish := t\<rparr>) g PRINT_CSV_HEADER = print_arm_dcache_mem env g PRINT_CSV_HEADER"
  "print_arm_icache_tlb (env\<lparr>me_finish := t\<rparr>) g PRINT_CSV_HEADER = print_arm_icache_tlb env g PRINT_CSV_HEADER"
  "print_arm_mem_align_tlb (env\<lparr>me_finish := t\<rparr>) g PRINT_CSV_HEADER = print_arm_mem_align_tlb env g PRINT_CSV_HEADER"
  "print_ibs (env\<lparr>me_finish := t\<rparr>) g PRINT_CSV_HEADER = print_ibs env g PRINT_CSV_HEADER"
  "print_power (env\<lparr>me_finish := t\<rparr>) g f = print_power env g f"
  "print_power_core (env\<lparr>me_finish := t\<rparr>) g f = print_power_core env g f"
  by (simp_all add: print_software_def print_arm_dcache_mem_def print_arm_icache_tlb_def print_arm_mem_align_tlb_def
      print_ibs_def print_power_def print_power_core_def Let_def split: option.split prod.split)

lemma header_finish:
  "print_metrics (env\<lparr>me_finish := t\<rparr>) gs PRINT_CSV_HEADER sh = print_metrics env gs PRINT_CSV_HEADER sh"
proof -
  have "print_group (env\<lparr>me_finish := t\<rparr>) PRINT_CSV_HEADER g r = print_group env PRINT_CSV_HEADER g r" for g r
    unfolding print_group_def emit_topdown_def header_time by (rule refl)
  then have "print_groups (env\<lparr>me_finish := t\<rparr>) PRINT_CSV_HEADER gs r = print_groups env PRINT_CSV_HEADER gs r" for r
    by (induction gs arbitrary: r) (simp_all cong: Option.bind_cong)
  then show ?thesis by (simp add: print_metrics_def)
qed

definition metric_columns :: "run_config \<Rightarrow> counter_group list \<Rightarrow> nat" where
  "metric_columns c gs =
     (case print_metrics (rc_metric c) gs PRINT_CSV_HEADER shared_initial of None \<Rightarrow> 0 | Some r \<Rightarrow> commas (rp_text r))"

lemma w_metrics_writes:
  assumes "rc_csvflag c" and "list_all2 same_columns gs gs'" and "\<forall>g \<in> set gs. columns_ok (me_vendor (rc_metric c)) g"
    and "quiet I"
  shows "writes (metric_columns c gs) I (w_metrics c gs' PRINT_CSV)"
    and "writes (metric_columns c gs) I (w_metrics c gs PRINT_CSV_HEADER)"
proof -
  have al: "aligned (print_metrics (metric_now c s) gs PRINT_CSV_HEADER sh)
      (print_metrics (metric_now c s) gs2 PRINT_CSV sh')" if "list_all2 same_columns gs gs2" for s gs2 sh sh'
    by (rule print_metrics_columns) (use assms(1,3) that in \<open>simp_all add: metric_now_def\<close>)
  have hd: "print_metrics (metric_now c s) gs PRINT_CSV_HEADER sh = print_metrics (rc_metric c) gs PRINT_CSV_HEADER sh"
    for s sh by (simp add: metric_now_def header_finish)
  show "writes (metric_columns c gs) I (w_metrics c gs' PRINT_CSV)"
    unfolding writes_def
  proof (intro allI impI)
    fix s assume "I s"
    with al [OF assms(2), of s shared_initial "rs_shared s"] assms(4)
    show "\<exists>t s1. w_metrics c gs' PRINT_CSV s = Some (t, s1) \<and> commas t = metric_columns c gs \<and> I s1"
      by (auto simp: aligned_def w_metrics_def metric_columns_def hd quiet_def)
  qed
  show "writes (metric_columns c gs) I (w_metrics c gs PRINT_CSV_HEADER)"
    unfolding writes_def
  proof (intro allI impI)
    fix s assume "I s"
    with al [of gs s shared_initial "rs_shared s"] al [of gs s "rs_shared s" "rs_shared s"] assms(4)
    show "\<exists>t s1. w_metrics c gs PRINT_CSV_HEADER s = Some (t, s1) \<and> commas t = metric_columns c gs \<and> I s1"
      by (auto simp: aligned_def w_metrics_def metric_columns_def hd quiet_def)
  qed
qed

section \<open>Header and rows\<close>

lemma w_phase_writes:
  assumes "\<And>s. I s \<Longrightarrow> pd_enabled (rs_phase s) = p"
  shows "writes (if p then 1 else 0) I (w_phase_column ''phase'')" and "writes (if p then 1 else 0) I w_phase"
proof -
  have name: "commas (phase_name q) = 0" for q by (cases q) (simp_all add: phase_name_def)
  show "writes (if p then 1 else 0) I (w_phase_column ''phase'')" "writes (if p then 1 else 0) I w_phase"
    using assms by (auto simp: writes_def w_phase_def w_phase_column_def name)
qed

lemma w_phase_update_writes:
  "writes 0 (row_state c nets disks p) (w_phase_update c sys)"
  by (simp add: writes_def w_phase_update_def row_state_def)

text \<open>The columns of the file, in the order of the header.\<close>

definition csv_columns :: "run_config \<Rightarrow> nat \<Rightarrow> nat \<Rightarrow> bool \<Rightarrow> counter_group list option \<Rightarrow> counter_group list \<Rightarrow> nat" where
  "csv_columns c nets disks phase core sys =
     (if rc_interval c \<noteq> 0 then 1 else 0) + (if rc_interval c \<noteq> 0 \<and> phase then 1 else 0) +
     (if rc_sflag c then system_columns (se_mask (rc_system c)) nets disks else 0) +
     (if rc_interval c = 0 \<and> rc_xflag c then 12 else 0) + gpu_columns c +
     (case core of None \<Rightarrow> 0 | Some gs \<Rightarrow> 1 + (if rc_per_core_freq c then 1 else 0) + metric_columns c gs) +
     metric_columns c sys + 2"

abbreviation run_columns_ok :: "run_config \<Rightarrow> counter_group list \<Rightarrow> bool" where
  "run_columns_ok c gs \<equiv> \<forall>g \<in> set gs. columns_ok (me_vendor (rc_metric c)) g"

lemma newline_no_comma [simp]: "commas newline = 0"
  by (simp add: newline_def)

lemma header_writes:
  assumes "rc_csvflag c" and "run_columns_ok c sys" and "\<forall>gs \<in> set cores. run_columns_ok c gs"
  shows "writes (csv_columns c nets disks p (if per_core_csv c cores then first_core_with_counters cores else None) sys)
    (header_state c nets disks p) (csv_header c inp cores sys)"
proof -
  let ?I = "header_state c nets disks p"
  let ?core = "case first_core_with_counters cores of None \<Rightarrow> [] | Some gs \<Rightarrow> gs"
  have "run_columns_ok c ?core"
    using assms(3) by (auto simp: first_core_with_counters_def find_Some_iff2 split: option.split)
  note core = w_metrics_writes(2) [OF assms(1) list_all2_refl_columns this quiet_states(2)]
  note sys = w_metrics_writes(2) [OF assms(1) list_all2_refl_columns assms(2) quiet_states(2)]
  have phase: "writes (if p then 1 else 0) ?I (w_phase_column ''phase'')"
    by (rule w_phase_writes) (simp add: header_state_def row_state_def)
  let ?t = "\<lambda>b n. if b then n else (0 :: nat)"
  let ?pc = "per_core_csv c cores"
  have "writes (sum_list [?t (rc_interval c \<noteq> 0) 1, ?t (rc_interval c \<noteq> 0) (?t p 1),
      ?t (rc_sflag c) (system_columns (se_mask (rc_system c)) nets disks), ?t (rc_interval c = 0 \<and> rc_xflag c) 12,
      gpu_columns c, ?t ?pc 1, ?t (?pc \<and> rc_per_core_freq c) 1, ?t ?pc (metric_columns c ?core), metric_columns c sys,
      2, 0]) ?I (csv_header c inp cores sys)"
    unfolding csv_header_def Let_def
    apply (rule write_all_cong)
    apply (simp only: list_all2_Cons list.rel_inject(1) simp_thms)
    apply (intro conjI writes_only phase w_system_header w_usage_writes w_gpu_writes core sys w_coverage_writes)
    apply simp_all
    done
  moreover have "sum_list [?t (rc_interval c \<noteq> 0) 1, ?t (rc_interval c \<noteq> 0) (?t p 1),
      ?t (rc_sflag c) (system_columns (se_mask (rc_system c)) nets disks), ?t (rc_interval c = 0 \<and> rc_xflag c) 12,
      gpu_columns c, ?t ?pc 1, ?t (?pc \<and> rc_per_core_freq c) 1, ?t ?pc (metric_columns c ?core), metric_columns c sys,
      2, 0] = csv_columns c nets disks p (if ?pc then first_core_with_counters cores else None) sys"
  proof (cases ?pc)
    case True
    then obtain gs where "first_core_with_counters cores = Some gs" by (auto simp: per_core_csv_def)
    with True show ?thesis by (simp add: csv_columns_def)
  qed (simp add: csv_columns_def)
  ultimately show ?thesis by (simp only:)
qed

lemma core_row_writes:
  assumes "rc_csvflag c" and "list_all2 same_columns core core'" and "run_columns_ok c core"
    and "list_all2 same_columns sys sys'" and "run_columns_ok c sys"
  shows "writes (csv_columns c nets disks False (Some core) sys) (row_state c nets disks False) (tail_core_row c inp i core' sys')"
    and "rc_interval c \<noteq> 0 \<Longrightarrow>
      writes (csv_columns c nets disks False (Some core) sys) (row_state c nets disks False) (timer_core_row c inp i core' sys')"
proof -
  let ?I = "row_state c nets disks False"
  note core = w_metrics_writes(1) [OF assms(1,2,3) quiet_states(1)]
  note sys = w_metrics_writes(1) [OF assms(1,4,5) quiet_states(1)]
  let ?t = "\<lambda>b n. if b then n else (0 :: nat)"
  have "writes (sum_list [?t (rc_interval c \<noteq> 0) 1, ?t (rc_sflag c) (system_columns (se_mask (rc_system c)) nets disks),
      ?t (rc_xflag c \<and> rc_interval c = 0) 12, gpu_columns c, 1, ?t (rc_per_core_freq c) 1, metric_columns c core,
      metric_columns c sys, 2, 0]) ?I (tail_core_row c inp i core' sys')"
    unfolding tail_core_row_def
    apply (rule write_all_cong)
    apply (simp only: list_all2_Cons list.rel_inject(1) simp_thms)
    apply (intro conjI writes_only w_elapsed_writes w_system_row w_usage_writes w_gpu_writes core sys w_coverage_writes)
    apply simp_all
    done
  moreover have "sum_list [?t (rc_interval c \<noteq> 0) 1, ?t (rc_sflag c) (system_columns (se_mask (rc_system c)) nets disks),
      ?t (rc_xflag c \<and> rc_interval c = 0) 12, gpu_columns c, 1, ?t (rc_per_core_freq c) 1, metric_columns c core,
      metric_columns c sys, 2, 0] = csv_columns c nets disks False (Some core) sys"
    by (simp add: csv_columns_def)
  ultimately show "writes (csv_columns c nets disks False (Some core) sys) ?I (tail_core_row c inp i core' sys')"
    by (simp only:)
  assume int: "rc_interval c \<noteq> 0"
  have "writes (sum_list [1, ?t (rc_sflag c) (system_columns (se_mask (rc_system c)) nets disks), gpu_columns c, 1,
      ?t (rc_per_core_freq c) 1, metric_columns c core, metric_columns c sys, 2, 0]) ?I (timer_core_row c inp i core' sys')"
    unfolding timer_core_row_def
    apply (rule write_all_cong)
    apply (simp only: list_all2_Cons list.rel_inject(1) simp_thms)
    apply (intro conjI writes_only w_elapsed_writes w_system_row w_usage_writes w_gpu_writes core sys w_coverage_writes)
    apply simp_all
    done
  moreover have "sum_list [1, ?t (rc_sflag c) (system_columns (se_mask (rc_system c)) nets disks), gpu_columns c, 1,
      ?t (rc_per_core_freq c) 1, metric_columns c core, metric_columns c sys, 2, 0] =
      csv_columns c nets disks False (Some core) sys"
    using int by (simp add: csv_columns_def)
  ultimately show "writes (csv_columns c nets disks False (Some core) sys) ?I (timer_core_row c inp i core' sys')"
    by (simp only:)
qed

lemma row_writes:
  assumes "rc_csvflag c" and "list_all2 same_columns sys sys'" and "run_columns_ok c sys"
  shows "writes (csv_columns c nets disks p None sys) (row_state c nets disks p) (tail_row c inp sys')"
    and "rc_interval c \<noteq> 0 \<Longrightarrow>
      writes (csv_columns c nets disks p None sys) (row_state c nets disks p) (timer_row c inp sys')"
proof -
  let ?I = "row_state c nets disks p"
  note sys = w_metrics_writes(1) [OF assms(1,2,3) quiet_states(1)]
  have phase: "writes (if p then 1 else 0) ?I w_phase" by (rule w_phase_writes) (simp add: row_state_def)
  let ?t = "\<lambda>b n. if b then n else (0 :: nat)"
  have "writes (sum_list [?t (rc_interval c \<noteq> 0) 1, ?t (rc_interval c \<noteq> 0) (?t p 1),
      ?t (rc_sflag c) (system_columns (se_mask (rc_system c)) nets disks), ?t (rc_xflag c \<and> rc_interval c = 0) 12,
      gpu_columns c, metric_columns c sys, 2, 0]) ?I (tail_row c inp sys')"
    unfolding tail_row_def
    apply (rule write_all_cong)
    apply (simp only: list_all2_Cons list.rel_inject(1) simp_thms)
    apply (intro conjI writes_only phase w_elapsed_writes w_system_row w_usage_writes w_gpu_writes sys w_coverage_writes)
    apply simp_all
    done
  moreover have "sum_list [?t (rc_interval c \<noteq> 0) 1, ?t (rc_interval c \<noteq> 0) (?t p 1),
      ?t (rc_sflag c) (system_columns (se_mask (rc_system c)) nets disks), ?t (rc_xflag c \<and> rc_interval c = 0) 12,
      gpu_columns c, metric_columns c sys, 2, 0] = csv_columns c nets disks p None sys"
    by (simp add: csv_columns_def)
  ultimately show "writes (csv_columns c nets disks p None sys) ?I (tail_row c inp sys')"
    by (simp only:)
  assume int: "rc_interval c \<noteq> 0"
  have w: "timer_row c inp sys' =
      write_all [w_elapsed c, w_phase_update c sys', w_phase,
        only (rc_sflag c) (w_system c (ri_fs inp) (ri_clock inp) PRINT_CSV), w_gpu c (ri_gpu inp) PRINT_CSV,
        w_metrics c sys' PRINT_CSV, w_coverage (ri_strerror inp) (ri_coverage inp) PRINT_CSV, put newline]"
    using assms(1) by (simp add: timer_row_def only_def)
  have "writes (sum_list [1, 0, ?t p 1, ?t (rc_sflag c) (system_columns (se_mask (rc_system c)) nets disks),
      gpu_columns c, metric_columns c sys, 2, 0]) ?I (timer_row c inp sys')"
    unfolding w
    apply (rule write_all_cong)
    apply (simp only: list_all2_Cons list.rel_inject(1) simp_thms)
    apply (intro conjI writes_only phase w_elapsed_writes w_phase_update_writes w_system_row w_gpu_writes sys
        w_coverage_writes)
    apply simp_all
    done
  moreover have "sum_list [1, 0, ?t p 1, ?t (rc_sflag c) (system_columns (se_mask (rc_system c)) nets disks),
      gpu_columns c, metric_columns c sys, 2, 0] = csv_columns c nets disks p None sys"
    using int by (simp add: csv_columns_def)
  ultimately show "writes (csv_columns c nets disks p None sys) ?I (timer_row c inp sys')"
    by (simp only:)
qed

end
