(* ===== verification/Run_Csv.thy ===== *)
theory Run_Csv
  imports Run_Facts
begin

text \<open>
  A whole run in CSV: the header and the rows of every tick and of the end have the same number of fields. The first
  part carries what the rows rely on through the run: the devices of the status report, whether the phase detector is
  on, and the labels of the counters. The last part shows the run in which the number differs: cores of two event
  tables.
\<close>

section \<open>What stays through a run\<close>

lemma fold_length: "(\<And>x ys. length (f x ys) = length ys) \<Longrightarrow> length (fold f xs ys) = length ys"
  by (induction xs arbitrary: ys) simp_all

lemma net_line_length [simp]: "length (net_line l nets) = length nets"
  by (simp add: net_line_def split: option.split prod.split)

lemma net_lines_length [simp]: "length (fold net_line ls nets) = length nets"
  by (rule fold_length) simp

named_theorems quiet_read

lemma devices_cong:
  "length (st_net st') = length (st_net st) \<Longrightarrow> length (st_disk st') = length (st_disk st) \<Longrightarrow>
   devices m nets disks st' = devices m nets disks st"
  unfolding devices_def by (metis length_0_conv)

lemma reads_devices [quiet_read]:
  "devices m nets disks (read_loadavg fs st) = devices m nets disks st"
  "devices m nets disks (read_cpu fs st) = devices m nets disks st"
  "devices m nets disks (read_mem fs st) = devices m nets disks st"
  "devices m nets disks (read_gpu b fs st) = devices m nets disks st"
  "devices m nets disks (read_freq fs st) = devices m nets disks st"
  "devices m nets disks (read_temp fs st) = devices m nets disks st"
  by (rule devices_cong;
    simp add: read_loadavg_def read_cpu_def read_mem_def read_gpu_def read_gpu_busy_percent_def read_freq_def
      read_temp_def Let_def split: option.split list.split prod.split)+

lemma read_devices_kept:
  "mask_bit m SYSTEM_NETWORK \<Longrightarrow> devices m nets disks st \<Longrightarrow> devices m nets disks (read_network fs st)"
  "mask_bit m SYSTEM_DISK \<Longrightarrow> devices m nets disks st \<Longrightarrow> devices m nets disks (read_disk fs st)"
proof -
  show "mask_bit m SYSTEM_NETWORK \<Longrightarrow> devices m nets disks st \<Longrightarrow> devices m nets disks (read_network fs st)"
  proof (subst devices_cong [where st = st])
    assume "mask_bit m SYSTEM_NETWORK" and "devices m nets disks st"
    then have "need_net fs st = st" by (simp add: need_net_def devices_def)
    then show "length (st_net (read_network fs st)) = length (st_net st)"
      "length (st_disk (read_network fs st)) = length (st_disk st)"
      by (simp_all add: read_network_def)
  qed simp_all
  show "mask_bit m SYSTEM_DISK \<Longrightarrow> devices m nets disks st \<Longrightarrow> devices m nets disks (read_disk fs st)"
  proof (subst devices_cong [where st = st])
    assume "mask_bit m SYSTEM_DISK" and "devices m nets disks st"
    then have "need_disk fs st = st" by (simp add: need_disk_def devices_def)
    then show "length (st_net (read_disk fs st)) = length (st_net st)"
      "length (st_disk (read_disk fs st)) = length (st_disk st)"
      by (simp_all add: read_disk_def)
  qed simp_all
qed

lemma read_system_devices:
  assumes "devices m nets disks st"
  shows "devices m nets disks (read_system m b fs st)"
proof -
  have q: "(\<And>st. P (f st) = P st) \<Longrightarrow> P (when_bit m x f st) = P st" for P f st x and m :: u32
    by (simp add: when_bit_def)
  have "devices m nets disks (when_bit m SYSTEM_CPU (read_cpu fs) (when_bit m SYSTEM_LOADAVG (read_loadavg fs) st))"
    using assms by (simp add: q [of "devices m nets disks"] quiet_read)
  then have "devices m nets disks (when_bit m SYSTEM_DISK (read_disk fs) (when_bit m SYSTEM_NETWORK (read_network fs)
      (when_bit m SYSTEM_CPU (read_cpu fs) (when_bit m SYSTEM_LOADAVG (read_loadavg fs) st))))"
    by (auto simp: when_bit_def intro!: read_devices_kept)
  then show ?thesis
    unfolding read_system_def by (simp add: q [of "devices m nets disks"] quiet_read)
qed

lemma row_state_read:
  "row_state c nets disks p s \<Longrightarrow>
   row_state c nets disks p (s\<lparr>rs_finish := t, rs_system := read_system (se_mask (rc_system c)) b fs (rs_system s)\<rparr>)"
  by (simp add: row_state_def read_system_devices)

lemma row_state_read_if:
  "row_state c nets disks p s \<Longrightarrow>
   row_state c nets disks p (s\<lparr>rs_finish := t,
     rs_system := (if rc_sflag c then read_system (se_mask (rc_system c)) b fs (rs_system s) else rs_system s)\<rparr>)"
  by (simp add: row_state_def read_system_devices)

text \<open>The groups of the cores: none, or the columns \<open>gs\<close>.\<close>

definition uniform :: "counter_group list \<Rightarrow> counter_group list list \<Rightarrow> bool" where
  "uniform gs cores \<longleftrightarrow> (\<forall>core \<in> set cores. core = [] \<or> list_all2 same_columns gs core)"

lemma uniform_same:
  "list_all2 (list_all2 same_columns) cores cores' \<Longrightarrow> uniform gs cores \<Longrightarrow> uniform gs cores'"
  by (induction rule: list_all2_induct) (auto simp: uniform_def intro: list_all2_columns_trans)

lemma read_core_columns:
  "read_core_counters kn stop cores k = Some (cores', k') \<Longrightarrow> list_all2 (list_all2 same_columns) cores cores'"
  by (induction cores arbitrary: cores' k)
    (auto split: option.splits prod.splits dest: read_counters_columns)

lemma setup_core_columns:
  "list_all2 (list_all2 same_columns) cores (fst (setup_core_counters kn aflag cores k cv))"
proof (induction cores arbitrary: k cv)
  case (Cons gs cores)
  then show ?case
    using setup_counters_columns [of gs kn aflag "- 1" k cv]
    by (auto split: prod.split simp: list_all2_Cons1) (metis fst_conv)+
qed simp

section \<open>Rows\<close>

definition csv_line :: "nat \<Rightarrow> string \<Rightarrow> bool" where
  "csv_line n t \<longleftrightarrow> commas t = n \<and> (\<exists>body. t = body @ newline)"

text \<open>A writer of any number of lines of \<open>n\<close> commas.\<close>

definition writes_lines :: "nat \<Rightarrow> (run_state \<Rightarrow> bool) \<Rightarrow> writer \<Rightarrow> bool" where
  "writes_lines n I w \<longleftrightarrow>
     (\<forall>s. I s \<longrightarrow> (\<exists>rows s1. w s = Some (concat rows, s1) \<and> list_all (csv_line n) rows \<and> I s1))"

lemma ends_line:
  "write_all ws s = Some (t, s1) \<Longrightarrow> ws \<noteq> [] \<Longrightarrow> last ws = put newline \<Longrightarrow> \<exists>body. t = body @ newline"
proof (induction ws arbitrary: s t)
  case (Cons w ws)
  show ?case
  proof (cases ws)
    case Nil
    with Cons.prems show ?thesis by (auto simp: put_def)
  next
    case (Cons v vs)
    with Cons.prems obtain t1 s2 u where "write_all ws s2 = Some (u, s1)" "t = t1 @ u"
      by (auto split: option.splits)
    with Cons.IH [of s2 u] Cons.prems Cons show ?thesis by auto
  qed
qed simp

lemma writes_line:
  assumes "writes n I (write_all ws)" and "ws \<noteq> []" and "last ws = put newline"
  shows "writes_lines n I (write_all ws)"
  unfolding writes_lines_def
proof (intro allI impI)
  fix s assume "I s"
  with assms(1) obtain t s1 where t: "write_all ws s = Some (t, s1)" "commas t = n" "I s1" by (auto simp: writes_def)
  with ends_line [OF t(1) assms(2,3)] have "csv_line n t" by (simp add: csv_line_def)
  with t show "\<exists>rows s1. write_all ws s = Some (concat rows, s1) \<and> list_all (csv_line n) rows \<and> I s1"
    by (intro exI [of _ "[t]"] exI [of _ s1]) simp
qed

lemma writes_no_lines: "writes_lines n I (put [])"
  unfolding writes_lines_def put_def by (intro allI impI exI [of _ "[]"] exI) simp

lemma writes_all_lines: "\<forall>w \<in> set ws. writes_lines n I w \<Longrightarrow> writes_lines n I (write_all ws)"
proof (induction ws)
  case Nil
  have "write_all [] = put []" by (rule ext) (simp add: put_def)
  then show ?case by (simp only: writes_no_lines)
next
  case (Cons w ws)
  show ?case
    unfolding writes_lines_def
  proof (intro allI impI)
    fix s assume "I s"
    with Cons.prems obtain a s1 where "w s = Some (concat a, s1)" "list_all (csv_line n) a" "I s1"
      by (auto simp: writes_lines_def)
    moreover from this Cons obtain b s2 where "write_all ws s1 = Some (concat b, s2)" "list_all (csv_line n) b" "I s2"
      by (auto simp: writes_lines_def)
    ultimately show "\<exists>rows s1. write_all (w # ws) s = Some (concat rows, s1) \<and> list_all (csv_line n) rows \<and> I s1"
      by (intro exI [of _ "a @ b"] exI [of _ s2]) simp
  qed
qed

lemma enumerate_member: "(i, x) \<in> set (enumerate n xs) \<Longrightarrow> x \<in> set xs"
  by (auto simp: enumerate_eq_zip dest: set_zip_rightD)

text \<open>With \<open>core\<close> the columns of the cores, if any has groups, and \<open>sys\<close> those of the system.\<close>

definition core_columns :: "counter_group list list \<Rightarrow> counter_group list \<Rightarrow> bool" where
  "core_columns cores gs \<longleftrightarrow> first_core_with_counters cores = Some gs \<and> uniform gs cores"

lemma core_lines:
  assumes "rc_csvflag c" and "uniform core cores" and "run_columns_ok c core"
    and "list_all2 same_columns sys sys'" and "run_columns_ok c sys"
  shows "writes_lines (csv_columns c nets disks False (Some core) sys) (row_state c nets disks False)
      (write_all (map (\<lambda>(i, gs). if gs = [] then put [] else tail_core_row c (inp i) i gs sys') (enumerate 0 cores)))"
    and "rc_interval c \<noteq> 0 \<Longrightarrow>
      writes_lines (csv_columns c nets disks False (Some core) sys) (row_state c nets disks False)
      (write_all (map (\<lambda>(i, gs). if gs = [] then put [] else timer_core_row c (inp i) i gs sys') (enumerate 0 cores)))"
proof -
  let ?lines = "writes_lines (csv_columns c nets disks False (Some core) sys) (row_state c nets disks False)"
  have col: "list_all2 same_columns core gs" if "(i, gs) \<in> set (enumerate 0 cores)" "gs \<noteq> []" for i gs
    using that assms(2) enumerate_member by (fastforce simp: uniform_def)
  have "?lines (tail_core_row c (inp i) i gs sys')" if "(i, gs) \<in> set (enumerate 0 cores)" "gs \<noteq> []" for i gs
    using core_row_writes(1) [OF assms(1) col [OF that] assms(3,4,5)]
    unfolding tail_core_row_def by (rule writes_line) simp_all
  then show "?lines (write_all (map (\<lambda>(i, gs). if gs = [] then put [] else tail_core_row c (inp i) i gs sys')
      (enumerate 0 cores)))"
    by (intro writes_all_lines) (auto simp: writes_no_lines)
  assume int: "rc_interval c \<noteq> 0"
  have "?lines (timer_core_row c (inp i) i gs sys')" if "(i, gs) \<in> set (enumerate 0 cores)" "gs \<noteq> []" for i gs
    using core_row_writes(2) [OF assms(1) col [OF that] assms(3,4,5) int]
    unfolding timer_core_row_def by (rule writes_line) simp_all
  then show "?lines (write_all (map (\<lambda>(i, gs). if gs = [] then put [] else timer_core_row c (inp i) i gs sys')
      (enumerate 0 cores)))"
    by (intro writes_all_lines) (auto simp: writes_no_lines)
qed

lemma system_lines:
  assumes "rc_csvflag c" and "list_all2 same_columns sys sys'" and "run_columns_ok c sys"
  shows "writes_lines (csv_columns c nets disks p None sys) (row_state c nets disks p) (tail_row c inp sys')"
    and "rc_interval c \<noteq> 0 \<Longrightarrow>
      writes_lines (csv_columns c nets disks p None sys) (row_state c nets disks p) (timer_row c inp sys')"
proof -
  show "writes_lines (csv_columns c nets disks p None sys) (row_state c nets disks p) (tail_row c inp sys')"
    using row_writes(1) [OF assms] unfolding tail_row_def by (rule writes_line) simp_all
  assume int: "rc_interval c \<noteq> 0"
  show "writes_lines (csv_columns c nets disks p None sys) (row_state c nets disks p) (timer_row c inp sys')"
    using row_writes(2) [OF assms int] unfolding timer_row_def Let_def
    by (rule writes_line) (simp_all add: only_def assms(1))
qed

section \<open>Rows of a run\<close>

text \<open>The header finds the devices, if they are not known.\<close>

definition with_found :: "run_config \<Rightarrow> sysfs \<Rightarrow> run_state \<Rightarrow> run_state" where
  "with_found c fs s =
     (if rc_sflag c then s\<lparr>rs_system := found (se_mask (rc_system c)) fs (rs_system s)\<rparr> else s)"

lemma found_found: "found m fs (found m fs st) = found m fs st"
  by (auto simp: found_def when_bit_def need_net_def need_disk_def setup_net_info_def setup_disk_info_def)

lemma csv_header_found: "csv_header c inp cores sys s = csv_header c inp cores sys (with_found c (ri_fs inp) s)"
  by (simp add: csv_header_def with_found_def only_def put_def w_phase_column_def w_system_def print_system_found
      found_found system_now_def Let_def)

text \<open>Which columns the run has: those of the first core with groups, if there is one, and the phase otherwise.\<close>

lemma header_of_run:
  assumes "rc_csvflag c" and "run_columns_ok c sys" and "\<forall>gs \<in> set cores. run_columns_ok c gs"
    and "header_state c nets disks p (with_found c (ri_fs inp) s)"
  shows "\<exists>h s1. csv_header c inp cores sys s = Some (h, s1) \<and> row_state c nets disks p s1 \<and>
    csv_line (csv_columns c nets disks p (if per_core_csv c cores then first_core_with_counters cores else None) sys) h"
proof -
  let ?n = "csv_columns c nets disks p (if per_core_csv c cores then first_core_with_counters cores else None) sys"
  have "writes ?n (header_state c nets disks p) (csv_header c inp cores sys)" by (rule header_writes [OF assms(1-3)])
  then obtain h s1 where h: "csv_header c inp cores sys (with_found c (ri_fs inp) s) = Some (h, s1)" "commas h = ?n"
      "header_state c nets disks p s1"
    using assms(4) by (auto simp: writes_def)
  then have "csv_line ?n h"
    using ends_line [OF h(1) [unfolded csv_header_def Let_def]] by (simp add: csv_line_def)
  with h show ?thesis by (simp add: csv_header_found [of c inp cores sys s] header_state_def)
qed

text \<open>What the rows rely on: \<open>core\<close> are the columns of the cores under \<open>--per-core\<close>, and then the phase is off.\<close>

definition run_invariant ::
  "run_config \<Rightarrow> counter_group list option \<Rightarrow> counter_group list \<Rightarrow> bool \<Rightarrow> counter_group list list \<Rightarrow>
    counter_group list \<Rightarrow> bool"
where
  "run_invariant c core sys p cores sys' \<longleftrightarrow>
     list_all2 same_columns sys sys' \<and> run_columns_ok c sys \<and> (rc_aflag c \<longrightarrow> \<not> p) \<and>
     (case core of
        None \<Rightarrow> \<forall>gs \<in> set cores. gs = []
      | Some gs \<Rightarrow> rc_aflag c \<and> gs \<noteq> [] \<and> run_columns_ok c gs \<and> uniform gs cores \<and> (\<exists>gs \<in> set cores. gs \<noteq> []))"

lemma run_invariant_same:
  assumes "run_invariant c core sys p cores sys'" and "list_all2 (list_all2 same_columns) cores cores'"
    and "list_all2 same_columns sys' sys''"
  shows "run_invariant c core sys p cores' sys''"
proof -
  have none: "(\<forall>gs \<in> set cores. gs = []) = (\<forall>gs \<in> set cores'. gs = [])"
    using assms(2) by (induction rule: list_all2_induct) auto
  then have "(\<exists>gs \<in> set cores. gs \<noteq> []) = (\<exists>gs \<in> set cores'. gs \<noteq> [])" by blast
  with none show ?thesis
    using assms list_all2_columns_trans uniform_same [OF assms(2)]
    by (cases core) (auto simp: run_invariant_def)
qed

lemma per_core_csv_invariant:
  "run_invariant c core sys p cores sys' \<Longrightarrow> rc_csvflag c \<Longrightarrow> per_core_csv c cores \<longleftrightarrow> core \<noteq> None"
  by (cases core) (auto simp: run_invariant_def per_core_csv_def first_core_with_counters_def find_None_iff)

lemma timer_lines:
  assumes "run_invariant c core sys p cores sys'" and "rc_csvflag c" and "rc_interval c \<noteq> 0"
  shows "writes_lines (csv_columns c nets disks p core sys) (row_state c nets disks p)
    (timer_output c core_inp inp cores sys')"
proof (cases core)
  case None
  then have "\<forall>gs \<in> set cores. gs = []" using assms(1) by (simp add: run_invariant_def)
  then have "writes_lines n (row_state c nets disks p) (write_all (map (\<lambda>(i, core). if core = [] then put []
      else timer_core_row c (core_inp i) i core sys') (enumerate 0 cores)))" for n p
    by (intro writes_all_lines) (auto simp: writes_no_lines dest: enumerate_member)
  then show ?thesis
    using None assms system_lines(2) by (simp add: timer_output_def run_invariant_def)
next
  case (Some gs)
  then show ?thesis
    using assms core_lines(2) [OF assms(2) _ _ _ _ assms(3)] by (simp add: timer_output_def run_invariant_def)
qed

lemma final_lines:
  assumes "run_invariant c core sys p cores sys'" and "rc_csvflag c"
  shows "writes_lines (csv_columns c nets disks p core sys) (row_state c nets disks p)
    (final_output c core_inp inp cores sys')"
proof (cases core)
  case None
  then have none: "\<forall>gs \<in> set cores. gs = []" "\<not> per_core_csv c cores"
    using assms per_core_csv_invariant [OF assms] by (simp_all add: run_invariant_def)
  have "writes_lines n (row_state c nets disks p) (core_block c (core_inp i) (i, gs))"
    if "(i, gs) \<in> set (enumerate 0 cores)" for n i gs
    using none(1) enumerate_member [OF that] by (simp add: core_block_def writes_no_lines)
  then show ?thesis
    using None none assms system_lines(1)
    by (auto simp: final_output_def run_invariant_def intro!: writes_all_lines)
next
  case (Some gs)
  then show ?thesis
    using assms core_lines(1) per_core_csv_invariant [OF assms] by (simp add: final_output_def run_invariant_def)
qed

section \<open>The whole run\<close>

lemma read_counter_total: "read_counter kn False g c k \<noteq> None"
  by (simp add: read_counter_def Let_def split: prod.split option.split read_result.split)

lemma map_option_state_total:
  assumes "\<And>x s. f x s \<noteq> None"
  shows "map_option_state f xs s \<noteq> None"
proof (induction xs arbitrary: s)
  case (Cons x xs)
  obtain y s1 where y: "f x s = Some (y, s1)" using assms by fastforce
  with Cons [of s1] show ?case by auto
qed simp

text \<open>Reading the counters without stopping them always ends: no ring is drained.\<close>

lemma read_counters_total: "\<exists>gs' k'. read_counters kn False gs k = Some (gs', k')"
proof -
  have "map_option_state (read_counter kn False g) (cg_cinfo g) k \<noteq> None" for g k
    by (rule map_option_state_total) (rule read_counter_total)
  then have "read_group kn False g k \<noteq> None" for g k by (simp only: read_group_def map_option_is_None not_False_eq_True)
  then have "read_counters kn False gs k \<noteq> None" unfolding read_counters_def by (rule map_option_state_total)
  then show ?thesis by auto
qed

lemma read_core_counters_total: "\<exists>cores' k'. read_core_counters kn False cores k = Some (cores', k')"
proof (induction cores arbitrary: k)
  case (Cons gs cores)
  from read_counters_total [of kn gs k] obtain gs' k1 where r: "read_counters kn False gs k = Some (gs', k1)" by blast
  from Cons [of k1] r show ?case by auto
qed simp

lemma timer_callback_lines:
  assumes "run_invariant c core sys p cores sys'" and "rc_csvflag c" and "rc_interval c \<noteq> 0"
    and "row_state c nets disks p s"
  shows "\<exists>rows cores1 sys1 k1 s1.
    timer_callback kn c t b fs core_inp inp cores sys' k s = Some (concat rows, cores1, sys1, k1, s1) \<and>
    list_all (csv_line (csv_columns c nets disks p core sys)) rows \<and>
    run_invariant c core sys p cores1 sys1 \<and> row_state c nets disks p s1"
proof -
  let ?s1 = "s\<lparr>rs_finish := t,
    rs_system := (if rc_sflag c then read_system (se_mask (rc_system c)) b fs (rs_system s) else rs_system s)\<rparr>"
  obtain sys1 k1 where r: "read_counters kn False sys' k = Some (sys1, k1)" using read_counters_total [of kn sys' k] by blast
  obtain cores1 k2 where rc: "(if rc_aflag c \<and> rc_csvflag c then read_core_counters kn False cores k1
      else Some (cores, k1)) = Some (cores1, k2)"
    using read_core_counters_total [of kn cores k1] by fastforce
  have "list_all2 (list_all2 same_columns) cores cores1"
    using rc read_core_columns by (auto split: if_splits simp: list_all2_refl)
  then have inv: "run_invariant c core sys p cores1 sys1"
    by (rule run_invariant_same [OF assms(1) _ read_counters_columns [OF r]])
  from timer_lines [OF this assms(2,3)] row_state_read_if [OF assms(4), where t = t and b = b and fs = fs]
  obtain rows s2 where "timer_output c core_inp inp cores1 sys1 ?s1 = Some (concat rows, s2)"
      "list_all (csv_line (csv_columns c nets disks p core sys)) rows" "row_state c nets disks p s2"
    unfolding writes_lines_def by blast
  with r rc inv show ?thesis by (auto simp: timer_callback_def Let_def)
qed

lemma timer_ticks_lines:
  assumes "run_invariant c core sys p cores sys'" and "rc_csvflag c" and "rc_interval c \<noteq> 0"
    and "row_state c nets disks p s"
  shows "\<exists>rows cores1 sys1 k1 s1. timer_ticks kn c ticks cores sys' k s = Some (concat rows, cores1, sys1, k1, s1) \<and>
    list_all (csv_line (csv_columns c nets disks p core sys)) rows \<and>
    run_invariant c core sys p cores1 sys1 \<and> row_state c nets disks p s1"
  using assms
proof (induction ticks arbitrary: cores sys' k s)
  case Nil
  then have "timer_ticks kn c [] cores sys' k s = Some (concat [], cores, sys', k, s)" by simp
  with Nil show ?case by (metis list.pred_inject(1))
next
  case (Cons r ticks)
  from timer_callback_lines [OF Cons.prems, of kn "rg_now r" "rg_busy r" "rg_fs r" "rg_core r" "rg_row r" k]
  obtain a cores1 sys1 k1 s1 where a: "timer_callback kn c (rg_now r) (rg_busy r) (rg_fs r) (rg_core r) (rg_row r)
        cores sys' k s = Some (concat a, cores1, sys1, k1, s1)"
      "list_all (csv_line (csv_columns c nets disks p core sys)) a"
    and inv: "run_invariant c core sys p cores1 sys1" "row_state c nets disks p s1"
    by blast
  from Cons.IH [OF inv(1) Cons.prems(2,3) inv(2), of k1] obtain rows cores2 sys2 k2 s2 where
    "timer_ticks kn c ticks cores1 sys1 k1 s1 = Some (concat rows, cores2, sys2, k2, s2)"
    "list_all (csv_line (csv_columns c nets disks p core sys)) rows"
    "run_invariant c core sys p cores2 sys2" "row_state c nets disks p s2"
    by blast
  with a show ?case by (intro exI [of _ "a @ rows"]) simp
qed

lemma run_exit_lines:
  assumes "run_invariant c core sys p cores sys'" and "rc_csvflag c" and "row_state c nets disks p s"
    and "run_exit kn c r cores sys' k s = Some (text, s1)"
  shows "\<exists>rows. text = concat rows \<and> list_all (csv_line (csv_columns c nets disks p core sys)) rows"
proof -
  from assms(4) obtain cores1 k1 sys1 k2 where r: "read_core_counters kn True cores k = Some (cores1, k1)"
      "read_counters kn True sys' k1 = Some (sys1, k2)"
    and w: "write_all [w_phase_update c sys1, final_output c (rg_core r) (rg_row r) cores1 sys1]
      (s\<lparr>rs_finish := rg_now r, rs_system := read_system (se_mask (rc_system c)) (rg_busy r) (rg_fs r) (rs_system s)\<rparr>) =
      Some (text, s1)"
    by (auto simp: run_exit_def finish_run_def Let_def simp del: write_all.simps split: option.splits prod.splits)
  have inv: "run_invariant c core sys p cores1 sys1"
    by (rule run_invariant_same [OF assms(1) read_core_columns [OF r(1)] read_counters_columns [OF r(2)]])
  have "writes_lines (csv_columns c nets disks p core sys) (row_state c nets disks p) (w_phase_update c sys1)"
    by (auto simp: writes_lines_def w_phase_update_def row_state_def intro!: exI [of _ "[]"])
  with final_lines [OF inv assms(2)] have "writes_lines (csv_columns c nets disks p core sys) (row_state c nets disks p)
      (write_all [w_phase_update c sys1, final_output c (rg_core r) (rg_row r) cores1 sys1])"
    by (intro writes_all_lines) simp
  with row_state_read [OF assms(3), where t = "rg_now r" and b = "rg_busy r" and fs = "rg_fs r"] obtain rows s2 where
    "write_all [w_phase_update c sys1, final_output c (rg_core r) (rg_row r) cores1 sys1]
      (s\<lparr>rs_finish := rg_now r, rs_system := read_system (se_mask (rc_system c)) (rg_busy r) (rg_fs r) (rs_system s)\<rparr>) =
      Some (concat rows, s2)"
    "list_all (csv_line (csv_columns c nets disks p core sys)) rows"
    unfolding writes_lines_def by blast
  with w show ?thesis by (auto simp del: write_all.simps)
qed

lemma all_core_groups_facts:
  assumes "tables_columns rt" and "me_vendor (rc_metric c) = h_vendor (rc_host c)"
    and "\<forall>a \<in> set (rc_cores c). \<forall>b \<in> set (rc_cores c). core_is_per_core_eligible a \<and> core_is_per_core_eligible b \<longrightarrow>
      (co_vendor a = CORE_INTEL_ATOM \<longleftrightarrow> co_vendor b = CORE_INTEL_ATOM)"
    and "gs \<in> set (all_core_groups c rt)" and "gs \<noteq> []"
  shows "rc_aflag c" and "run_columns_ok c gs" and "uniform gs (all_core_groups c rt)"
proof -
  from assms(4) obtain i a where ia: "(i, a) \<in> set (enumerate 0 (rc_cores c))" "gs = core_groups c rt (i, a)"
    by (auto simp: all_core_groups_def)
  then have a: "rc_aflag c" "core_is_per_core_eligible a" "a \<in> set (rc_cores c)"
    using assms(5) enumerate_member [OF ia(1)] by (auto simp: core_groups_def split: if_splits)
  show "rc_aflag c" by (rule a(1))
  show "run_columns_ok c gs" using core_groups_ok [OF assms(1)] ia(2) assms(2) by simp
  show "uniform gs (all_core_groups c rt)"
    unfolding uniform_def
  proof (intro ballI)
    fix core assume "core \<in> set (all_core_groups c rt)"
    then obtain j b where jb: "(j, b) \<in> set (enumerate 0 (rc_cores c))" "core = core_groups c rt (j, b)"
      by (auto simp: all_core_groups_def)
    show "core = [] \<or> list_all2 same_columns gs core"
    proof (cases "core = []")
      case False
      then have b: "core_is_per_core_eligible b" "b \<in> set (rc_cores c)"
        using jb enumerate_member [OF jb(1)] by (auto simp: core_groups_def split: if_splits)
      with a assms(3) have "co_vendor a = CORE_INTEL_ATOM \<longleftrightarrow> co_vendor b = CORE_INTEL_ATOM" by blast
      with core_groups_columns [of c rt i a j b] False assms(5) ia(2) jb(2) show ?thesis by blast
    qed simp
  qed
qed

text \<open>The first core with groups gives the columns, before and after the counters are opened.\<close>

lemma uniform_base: "list_all2 same_columns gs gs' \<Longrightarrow> uniform gs cores \<Longrightarrow> uniform gs' cores"
proof -
  have "list_all2 same_columns a b \<Longrightarrow> list_all2 same_columns b a" for a b
    by (subst list_all2_conv_all_nth, drule list_all2_conv_all_nth [THEN iffD1]) (auto simp: same_columns_def)
  then show "list_all2 same_columns gs gs' \<Longrightarrow> uniform gs cores \<Longrightarrow> uniform gs' cores"
    unfolding uniform_def using list_all2_columns_trans by blast
qed

lemma run_invariant_start:
  assumes "tables_columns rt" and "me_vendor (rc_metric c) = h_vendor (rc_host c)"
    and "\<forall>a \<in> set (rc_cores c). \<forall>b \<in> set (rc_cores c). core_is_per_core_eligible a \<and> core_is_per_core_eligible b \<longrightarrow>
      (co_vendor a = CORE_INTEL_ATOM \<longleftrightarrow> co_vendor b = CORE_INTEL_ATOM)"
    and "list_all2 (list_all2 same_columns) (all_core_groups c rt) cores"
    and "list_all2 same_columns (systemwide_groups c rt) sys" and "rc_aflag c \<longrightarrow> \<not> p"
  shows "run_invariant c (first_core_with_counters cores) sys p cores sys"
    and "\<forall>gs \<in> set cores. run_columns_ok c gs"
proof -
  have pre: "\<exists>gs0 \<in> set (all_core_groups c rt). list_all2 same_columns gs0 gs" if "gs \<in> set cores" for gs
    using assms(4) that by (metis in_set_conv_nth list_all2_conv_all_nth)
  have sys: "run_columns_ok c sys"
    using columns_ok_list [OF assms(5)] systemwide_groups_ok [OF assms(1)] assms(2) by simp
  show ok: "\<forall>gs \<in> set cores. run_columns_ok c gs"
  proof
    fix gs assume "gs \<in> set cores"
    from pre [OF this] obtain gs0 where gs0: "gs0 \<in> set (all_core_groups c rt)" "list_all2 same_columns gs0 gs" by blast
    show "run_columns_ok c gs"
    proof (cases "gs0 = []")
      case True
      with gs0(2) show ?thesis by simp
    next
      case False
      from all_core_groups_facts(2) [OF assms(1-3) gs0(1) this] show ?thesis by (rule columns_ok_list [OF gs0(2)])
    qed
  qed
  show "run_invariant c (first_core_with_counters cores) sys p cores sys"
  proof (cases "first_core_with_counters cores")
    case None
    then have "\<forall>gs \<in> set cores. gs = []" by (auto simp: first_core_with_counters_def find_None_iff)
    with None sys assms(6) show ?thesis by (simp add: run_invariant_def)
  next
    case (Some gs)
    then have gs: "gs \<in> set cores" "gs \<noteq> []" by (auto simp: first_core_with_counters_def find_Some_iff)
    from pre [OF gs(1)] obtain gs0 where gs0: "gs0 \<in> set (all_core_groups c rt)" "list_all2 same_columns gs0 gs" by blast
    with gs(2) have "gs0 \<noteq> []" by auto
    from all_core_groups_facts [OF assms(1-3) gs0(1) this] have "rc_aflag c" "uniform gs0 (all_core_groups c rt)"
      by simp_all
    then have "rc_aflag c" "uniform gs cores"
      using uniform_base [OF gs0(2)] uniform_same [OF assms(4)] by blast+
    with Some sys ok gs assms(6) show ?thesis by (auto simp: run_invariant_def)
  qed
qed

text \<open>What the status report needs at the header: at least one device of each kind asked for, and no comma in a name.\<close>

definition devices_found :: "run_config \<Rightarrow> sysfs \<Rightarrow> system_state \<Rightarrow> bool" where
  "devices_found c fs st \<longleftrightarrow>
     (let m = se_mask (rc_system c); st1 = found m fs st in
      (mask_bit m SYSTEM_NETWORK \<longrightarrow> st_net st1 \<noteq> []) \<and> (mask_bit m SYSTEM_DISK \<longrightarrow> st_disk st1 \<noteq> []) \<and> plain_names st1)"

text \<open>C1: the CSV file of a run with \<open>--csv\<close> is rectangular, on a host whose measured cores all use the same event
  table (not Atom cores beside others), and, if the status report is asked for, whose network and disk devices exist
  with plain names when the header is written: the file is the header and whole lines with as many fields as the
  header, those of every tick of the timer (which always writes its lines), and those at the end. The lemmas
  \<open>hybrid_cores_differ\<close> and \<open>late_device_found\<close> show that both conditions are needed.\<close>

theorem csv_rows_aligned:
  assumes "setup_raw_events (rc_host c) pe m raw_tables_initial = Inr rt"
    and "me_vendor (rc_metric c) = h_vendor (rc_host c)" and "rc_csvflag c"
    and "\<forall>a \<in> set (rc_cores c). \<forall>b \<in> set (rc_cores c). core_is_per_core_eligible a \<and> core_is_per_core_eligible b \<longrightarrow>
      (co_vendor a = CORE_INTEL_ATOM \<longleftrightarrow> co_vendor b = CORE_INTEL_ATOM)"
    and "rc_sflag c \<longrightarrow> devices_found c (ri_fs inp) (rs_system s)"
  shows "\<exists>header rows cores sys k1 s1.
    run_until_exit kn c rt inp b first ticks k cv s = Some (concat (header # rows), cores, sys, k1, s1) \<and>
    list_all (csv_line (commas header)) (header # rows) \<and>
    (\<forall>r t s2. run_exit kn c r cores sys k1 s1 = Some (t, s2) \<longrightarrow>
      (\<exists>last. t = concat last \<and> list_all (csv_line (commas header)) last))"
proof -
  have t: "tables_columns rt" by (rule setup_raw_events_columns [OF assms(1) tables_columns_initial])
  let ?p = "phase_detect_is_available (rc_interval c) (rc_phase_flag c) (rc_counter_mask c) (rc_aflag c)"
  obtain cores k1 cv1 where cores: "setup_core_counters kn (rc_aflag c) (all_core_groups c rt) k cv = (cores, k1, cv1)"
    by (metis prod.exhaust)
  obtain sys su where sys: "setup_counters kn (rc_aflag c) (-1) (systemwide_groups c rt) k1 cv1 = (sys, su)"
    by (metis prod.exhaust)
  have col: "list_all2 (list_all2 same_columns) (all_core_groups c rt) cores"
      "list_all2 same_columns (systemwide_groups c rt) sys"
    using setup_core_columns [of "all_core_groups c rt" kn "rc_aflag c" k cv] cores
      setup_counters_columns [of "systemwide_groups c rt" kn "rc_aflag c" "- 1" k1 cv1] sys
    by simp_all
  have "rc_aflag c \<longrightarrow> \<not> ?p" by (simp add: phase_detect_is_available_def)
  note inv = run_invariant_start(1) [OF t assms(2,4) col this] and ok = run_invariant_start(2) [OF t assms(2,4) col this]
  define s1 where "s1 = s\<lparr>rs_phase := phase_detector_init ?p\<rparr>"
  define inp1 where "inp1 = inp\<lparr>ri_coverage := su_coverage su\<rparr>"
  let ?st = "found (se_mask (rc_system c)) (ri_fs inp) (rs_system s)"
  have hs: "header_state c (length (st_net ?st)) (length (st_disk ?st)) ?p (with_found c (ri_fs inp1) s1)"
    using assms(5)
    by (simp add: header_state_def row_state_def with_found_def s1_def inp1_def devices_def devices_found_def Let_def
        phase_detector_init_def)
  let ?n = "csv_columns c (length (st_net ?st)) (length (st_disk ?st)) ?p (first_core_with_counters cores) sys"
  let ?row = "row_state c (length (st_net ?st)) (length (st_disk ?st)) ?p"
  have "(if per_core_csv c cores then first_core_with_counters cores else None) = first_core_with_counters cores"
    using per_core_csv_invariant [OF inv assms(3)] by auto
  moreover have "run_columns_ok c sys" using inv by (simp add: run_invariant_def)
  ultimately obtain h s2 where h: "csv_header c inp1 cores sys s1 = Some (h, s2)" "?row s2" "csv_line ?n h"
    using header_of_run [OF assms(3) _ ok hs, of sys] by (simp only:) blast
  define s3 where "s3 = (if rc_sflag c
      then s2\<lparr>rs_system := read_system (se_mask (rc_system c)) b first (rs_system s2)\<rparr> else s2)"
  have s3: "?row s3" using h(2) by (simp add: s3_def row_state_def read_system_devices)
  obtain rows cores1 sys1 k2 s4 where ticks: "timer_ticks kn c (if rc_interval c = 0 then [] else ticks) cores sys
      (su_kernel su) s3 = Some (concat rows, cores1, sys1, k2, s4)" "list_all (csv_line ?n) rows"
      "run_invariant c (first_core_with_counters cores) sys ?p cores1 sys1" "?row s4"
  proof (cases "rc_interval c = 0")
    case True
    with inv s3 that [of "[]"] show ?thesis by simp
  next
    case False
    with timer_ticks_lines [OF inv assms(3) False s3] that show ?thesis by (metis (no_types, lifting))
  qed
  have n: "?n = commas h" using h(3) by (simp add: csv_line_def)
  have "run_until_exit kn c rt inp b first ticks k cv s = Some (concat (h # rows), cores1, sys1, k2, s4)"
    using cores sys h(1) ticks(1) assms(3)
    by (simp add: run_until_exit_def only_def flip: s1_def inp1_def s3_def)
  moreover have "list_all (csv_line (commas h)) (h # rows)" using h(3) ticks(2) n by simp
  moreover have "\<exists>last. t = concat last \<and> list_all (csv_line (commas h)) last"
    if "run_exit kn c r cores1 sys1 k2 s4 = Some (t, s5)" for r t s5
    using run_exit_lines [OF ticks(3) assms(3) ticks(4) that] n by simp
  ultimately show ?thesis by blast
qed

text \<open>A host with two AMD cores and one network interface.\<close>

definition sample_files :: sysfs where
  "sample_files =
     \<lparr>fs_file = (\<lambda>path. if path = ''/proc/net/dev''
        then Some (''Inter-|   Receive'' @ newline @ '' face |bytes'' @ newline @ ''  eth0: 1 2 3 4 5 6 7 8 9 10'' @ newline)
        else None),
      fs_dir = (\<lambda>_. None), fs_exists = (\<lambda>_. False)\<rparr>"

definition sample_run :: run_config where
  "sample_run =
     \<lparr>rc_host = \<lparr>h_vendor = VENDOR_AMD, h_is_hybrid = False, h_nmi_running = False\<rparr>,
      rc_cores = replicate 2 \<lparr>co_is_available = True, co_vendor = CORE_AMD_ZEN, co_pmu_type = 4\<rparr>,
      rc_counter_mask = COUNTER_IPC OR COUNTER_SOFTWARE,
      rc_metric = \<lparr>me_vendor = VENDOR_AMD, me_core0 = CORE_AMD_ZEN, me_cores_available = 2, me_csvflag = True,
        me_aflag = True, me_start = (0, 0), me_finish = (0, 0), me_sysfs = sample_files,
        me_ibs_profile = IBS_PROFILE_BASIC,
        me_ibs_params = \<lparr>ipp_maxcnt = 0, ipp_ldlat_threshold = 0, ipp_fetchlat_threshold = 0\<rparr>, me_zen4_ext = False\<rparr>,
      rc_system = \<lparr>se_mask = SYSTEM_NETWORK, se_interval = 1, se_num_procs = 2, se_start = (0, 0), se_finish = (0, 0)\<rparr>,
      rc_sflag = True, rc_xflag = False, rc_phase_flag = True, rc_per_core_freq = True, rc_affinity = None,
      rc_amdgpu = False, rc_nvidia = False, rc_gpu_busy = False, rc_gpu_metrics = False, rc_gpu_smi = False,
      rc_gpu_nvidia = False\<rparr>"

lemma sample_devices: "devices_found sample_run sample_files system_initial"
  by code_simp

lemma sample_tables:
  "case setup_raw_events (rc_host sample_run) (\<lambda>_. True) COUNTER_IPC raw_tables_initial of Inl _ \<Rightarrow> False | Inr _ \<Rightarrow> True"
  by code_simp

definition sample_input :: row_input where
  "sample_input =
     \<lparr>ri_fs = sample_files, ri_clock = (1, 0), ri_rusage = rusage_none,
      ri_gpu = \<lparr>gr_busy = 0, gr_fusion = \<lparr>gs_sysfs_metrics_valid = False, gs_sysfs_temp_c = 0, gs_sysfs_activity_pct = 0,
        gs_sysfs_power_w = Fin 0, gs_sysfs_freq_mhz = 0, gs_smi_metrics_valid = False, gs_smi_temp_c = 0,
        gs_smi_activity_pct = 0, gs_smi_memory_valid = False, gs_smi_vram_used_mb = 0, gs_smi_vram_total_mb = 0\<rparr>,
        gr_smi_metrics = None, gr_smi_memory = None, gr_nvidia = None\<rparr>,
      ri_strerror = (\<lambda>_. []), ri_coverage = coverage_reset\<rparr>"

definition sample_state :: run_state where
  "sample_state =
     \<lparr>rs_finish = (0, 0), rs_system = system_initial, rs_fusion = gpu_fusion_initial, rs_shared = shared_initial,
      rs_phase = phase_detector_init False\<rparr>"

lemma csv_rows_aligned_witness:
  "\<exists>rt header rows cores sys k1 s1.
    run_until_exit counting_kernel sample_run rt sample_input 0 sample_files
      [\<lparr>rg_now = (1, 0), rg_busy = 0, rg_fs = sample_files, rg_core = (\<lambda>_. sample_input), rg_row = sample_input\<rparr>]
      0 coverage_reset sample_state = Some (concat (header # rows), cores, sys, k1, s1) \<and>
    list_all (csv_line (commas header)) (header # rows)"
proof -
  obtain rt where "setup_raw_events (rc_host sample_run) (\<lambda>_. True) COUNTER_IPC raw_tables_initial = Inr rt"
    using sample_tables by (auto split: sum.splits)
  moreover have "rc_csvflag sample_run" "me_vendor (rc_metric sample_run) = h_vendor (rc_host sample_run)"
    "\<forall>a \<in> set (rc_cores sample_run). \<forall>b \<in> set (rc_cores sample_run).
      core_is_per_core_eligible a \<and> core_is_per_core_eligible b \<longrightarrow>
      (co_vendor a = CORE_INTEL_ATOM \<longleftrightarrow> co_vendor b = CORE_INTEL_ATOM)"
    by (simp_all add: sample_run_def)
  moreover have "rc_sflag sample_run \<longrightarrow> devices_found sample_run (ri_fs sample_input) (rs_system sample_state)"
    using sample_devices by (simp add: sample_input_def sample_state_def)
  ultimately show ?thesis
    using csv_rows_aligned [of sample_run "\<lambda>_. True" COUNTER_IPC rt sample_input sample_state counting_kernel 0
        sample_files "[\<lparr>rg_now = (1, 0), rg_busy = 0, rg_fs = sample_files, rg_core = (\<lambda>_. sample_input),
          rg_row = sample_input\<rparr>]" 0 coverage_reset]
    by blast
qed

section \<open>The two exceptions\<close>

text \<open>On a hybrid Intel host a performance core and an efficiency core have different rows: the table of the latter
  has no event for the back-end report.\<close>

definition hybrid_groups :: "cpu_core_type \<Rightarrow> counter_group list" where
  "hybrid_groups v =
     setup_counter_groups \<lparr>h_vendor = VENDOR_INTEL, h_is_hybrid = True, h_nmi_running = False\<rparr> raw_tables_initial
       (COUNTER_IPC OR COUNTER_TOPDOWN_BE) v []"

lemma hybrid_cores_differ:
  "map cg_mask (hybrid_groups CORE_INTEL_ATOM) = [COUNTER_IPC]"
  "COUNTER_TOPDOWN_BE \<in> set (map cg_mask (hybrid_groups CORE_INTEL_CORE))"
  by code_simp+

text \<open>A list of devices that is empty at the header is looked for again at every row.\<close>

lemma late_device_found:
  "st_net st = [] \<Longrightarrow> mask_bit (se_mask e) SYSTEM_NETWORK \<Longrightarrow>
   st_net (snd (print_system e fs PRINT_CSV st)) = net_entries 0 (lines_of fs ''/proc/net/dev'')"
  by (simp add: print_system_found found_def when_bit_def need_net_def need_disk_def setup_net_info_def
      setup_disk_info_def)

end
