(* ===== verification/Cgroup.thy ===== *)
theory Cgroup
  imports Sysfs
begin

text \<open>
  The cgroup v2 identity, limits and throttling of a run (src/cgroup.c): files of /proc and /sys are the parameter
  \<open>sysfs\<close>. A reading that fails leaves its \<open>available\<close> flag off; the throttling of a run is the difference of two
  readings of the counters of cpu.stat.
\<close>

record cgroup_throttle =
  ct_available :: bool
  ct_nr_periods :: u64
  ct_nr_throttled :: u64
  ct_throttled_usec :: u64

definition throttle_zero :: cgroup_throttle where
  "throttle_zero = \<lparr>ct_available = False, ct_nr_periods = 0, ct_nr_throttled = 0, ct_throttled_usec = 0\<rparr>"

record cgroup_info =
  cgi_available :: bool
  cgi_path :: string
  cgi_cpu_max_available :: bool
  cgi_cpu_quota_us :: int
  cgi_cpu_period_us :: int
  cgi_cpu_weight_available :: bool
  cgi_cpu_weight :: u32
  cgi_memory_max_available :: bool
  cgi_memory_max_bytes :: int
  cgi_memory_high_available :: bool
  cgi_memory_high_bytes :: int

definition cgroup_none :: cgroup_info where
  "cgroup_none =
     \<lparr>cgi_available = False, cgi_path = [], cgi_cpu_max_available = False, cgi_cpu_quota_us = 0, cgi_cpu_period_us = 0,
      cgi_cpu_weight_available = False, cgi_cpu_weight = 0, cgi_memory_max_available = False, cgi_memory_max_bytes = 0,
      cgi_memory_high_available = False, cgi_memory_high_bytes = 0\<rparr>"

section \<open>The path\<close>

text \<open>The first line that starts with \<open>0::\<close>.\<close>

definition read_cgroup_v2_path_at :: "sysfs \<Rightarrow> string \<Rightarrow> string option" where
  "read_cgroup_v2_path_at fs file =
     (case fs_file fs file of
        None \<Rightarrow> None
      | Some s \<Rightarrow>
          map_option (\<lambda>line. strip_newline (take 511 (drop 3 line)))
            (find (starts_with ''0::'') (proc_lines 598 s)))"

section \<open>Limits\<close>

definition strtoll_text :: "string \<Rightarrow> int" where
  "strtoll_text s = fst (strtol 10 s)"

text \<open>A quota, or -1 for \<open>max\<close>, and the period.\<close>

definition parse_cpu_max_line :: "string \<Rightarrow> (int \<times> int) option" where
  "parse_cpu_max_line line =
     (case scan_word 31 line of
        None \<Rightarrow> None
      | Some (quota, r) \<Rightarrow>
          (case strto_raw 10 r of
             None \<Rightarrow> None
           | Some _ \<Rightarrow> Some (if quota = ''max'' then -1 else strtoll_text quota, strtoll_text r)))"

definition parse_max_or_number_at :: "sysfs \<Rightarrow> string \<Rightarrow> int option" where
  "parse_max_or_number_at fs path =
     (case read_sysfs_line fs path 64 of
        None \<Rightarrow> None
      | Some line \<Rightarrow>
          if line = ''max'' then Some (-1)
          else map_option (\<lambda>_. strtoll_text line) (strto_raw 10 line))"

text \<open>A line \<open><key> <value>\<close> of cpu.stat.\<close>

definition stat_value :: "string \<Rightarrow> string \<Rightarrow> u64 option" where
  "stat_value key line =
     (if starts_with key line then map_option fst (scan_ul 10 (drop (length key) line)) else None)"

text \<open>The state of the loop: the counters and which of them were found.\<close>

definition parse_stat_line ::
  "string \<Rightarrow> cgroup_throttle \<times> bool \<times> bool \<times> bool \<Rightarrow> cgroup_throttle \<times> bool \<times> bool \<times> bool"
where
  "parse_stat_line line st =
     (let (out, fp, ft, fu) = st in
      case stat_value ''nr_periods'' line of
        Some v \<Rightarrow> (out\<lparr>ct_nr_periods := v\<rparr>, True, ft, fu)
      | None \<Rightarrow>
          (case stat_value ''nr_throttled'' line of
             Some v \<Rightarrow> (out\<lparr>ct_nr_throttled := v\<rparr>, fp, True, fu)
           | None \<Rightarrow>
               (case stat_value ''throttled_usec'' line of
                  Some v \<Rightarrow> (out\<lparr>ct_throttled_usec := v\<rparr>, fp, ft, True)
                | None \<Rightarrow> (out, fp, ft, fu))))"

definition parse_cpu_stat_at :: "sysfs \<Rightarrow> string \<Rightarrow> cgroup_throttle" where
  "parse_cpu_stat_at fs path =
     (case fs_file fs path of
        None \<Rightarrow> throttle_zero
      | Some s \<Rightarrow>
          (let (out, fp, ft, fu) = fold parse_stat_line (proc_lines 126 s) (throttle_zero, False, False, False)
           in if fp \<and> ft \<and> fu then out\<lparr>ct_available := True\<rparr> else out))"

definition limit_path :: "string \<Rightarrow> string \<Rightarrow> string \<Rightarrow> string" where
  "limit_path base cg name = take 899 (base @ cg @ ''/'' @ name)"

definition read_cpu_max :: "sysfs \<Rightarrow> string \<Rightarrow> cgroup_info \<Rightarrow> cgroup_info" where
  "read_cpu_max fs path info =
     (case Option.bind (read_sysfs_line fs path 64) parse_cpu_max_line of
        None \<Rightarrow> info
      | Some (quota, period) \<Rightarrow>
          info\<lparr>cgi_cpu_quota_us := quota, cgi_cpu_period_us := period, cgi_cpu_max_available := True\<rparr>)"

definition read_cpu_weight :: "sysfs \<Rightarrow> string \<Rightarrow> cgroup_info \<Rightarrow> cgroup_info" where
  "read_cpu_weight fs path info =
     (case read_sysfs_line fs path 32 of
        None \<Rightarrow> info
      | Some line \<Rightarrow>
          if strto_raw 10 line = None then info
          else info\<lparr>cgi_cpu_weight := word_of_int (fst (strtol 10 line)), cgi_cpu_weight_available := True\<rparr>)"

definition collect_identity_and_limits_at :: "sysfs \<Rightarrow> string \<Rightarrow> string \<Rightarrow> cgroup_info" where
  "collect_identity_and_limits_at fs self base =
     (case read_cgroup_v2_path_at fs self of
        None \<Rightarrow> cgroup_none
      | Some cg \<Rightarrow>
          (let info = cgroup_none\<lparr>cgi_available := True, cgi_path := cg\<rparr>;
               info = read_cpu_max fs (limit_path base cg ''cpu.max'') info;
               info = read_cpu_weight fs (limit_path base cg ''cpu.weight'') info;
               info = (case parse_max_or_number_at fs (limit_path base cg ''memory.max'') of
                  None \<Rightarrow> info
                | Some v \<Rightarrow> info\<lparr>cgi_memory_max_bytes := v, cgi_memory_max_available := True\<rparr>)
           in case parse_max_or_number_at fs (limit_path base cg ''memory.high'') of
                None \<Rightarrow> info
              | Some v \<Rightarrow> info\<lparr>cgi_memory_high_bytes := v, cgi_memory_high_available := True\<rparr>))"

definition read_throttle_at :: "sysfs \<Rightarrow> string \<Rightarrow> cgroup_info \<Rightarrow> cgroup_throttle" where
  "read_throttle_at fs base info =
     (if \<not> cgi_available info then throttle_zero
      else parse_cpu_stat_at fs (limit_path base (cgi_path info) ''cpu.stat''))"

definition cgroup_collect_identity_and_limits :: "sysfs \<Rightarrow> cgroup_info" where
  "cgroup_collect_identity_and_limits fs = collect_identity_and_limits_at fs ''/proc/self/cgroup'' ''/sys/fs/cgroup''"

definition cgroup_read_throttle :: "sysfs \<Rightarrow> cgroup_info \<Rightarrow> cgroup_throttle" where
  "cgroup_read_throttle fs info = read_throttle_at fs ''/sys/fs/cgroup'' info"

definition cgroup_throttle_delta :: "cgroup_throttle \<Rightarrow> cgroup_throttle \<Rightarrow> cgroup_throttle" where
  "cgroup_throttle_delta start end_reading =
     (if \<not> ct_available start \<or> \<not> ct_available end_reading then throttle_zero
      else
        \<lparr>ct_available = True, ct_nr_periods = ct_nr_periods end_reading - ct_nr_periods start,
         ct_nr_throttled = ct_nr_throttled end_reading - ct_nr_throttled start,
         ct_throttled_usec = ct_throttled_usec end_reading - ct_throttled_usec start\<rparr>)"

section \<open>Facts\<close>

text \<open>The path of a cgroup has no zero byte, as everything read with \<open>fgets\<close>.\<close>

lemma no_nul_strip: "no_nul s \<Longrightarrow> no_nul (strip_newline s)"
  by (auto simp: no_nul_def strip_newline_def dest: set_dropWhileD)

lemma proc_lines_no_nul: "l \<in> set (proc_lines n s) \<Longrightarrow> no_nul l"
proof (induction n s rule: proc_lines.induct)
  case (1 n s)
  then show ?case by (subst (asm) proc_lines.simps) (auto split: if_splits prod.splits)
qed

lemma cgroup_path_no_nul: "read_cgroup_v2_path_at fs file = Some p \<Longrightarrow> no_nul p"
  by (auto simp: read_cgroup_v2_path_at_def find_Some_iff split: option.splits
      intro!: no_nul_strip no_nul_take no_nul_drop dest: nth_mem proc_lines_no_nul)

lemma collected_path_no_nul: "no_nul (cgi_path (cgroup_collect_identity_and_limits fs))"
  using cgroup_path_no_nul
  by (auto simp: cgroup_collect_identity_and_limits_def collect_identity_and_limits_at_def cgroup_none_def Let_def
      read_cpu_max_def read_cpu_weight_def split: option.split)

text \<open>The differences of consecutive readings add up to the difference of the first and the last.\<close>

lemma throttle_delta_add:
  assumes "ct_available a" and "ct_available b" and "ct_available c"
  shows "ct_nr_throttled (cgroup_throttle_delta a b) + ct_nr_throttled (cgroup_throttle_delta b c) =
    ct_nr_throttled (cgroup_throttle_delta a c)"
  using assms by (simp add: cgroup_throttle_delta_def)

end
