(* ===== verification/Provenance.thy ===== *)
theory Provenance
  imports Cgroup Json_Text
begin

text \<open>
  The facts about the host that a manifest records (src/provenance.c): each is a text or a reason why there is none.
  Files are the parameter \<open>sysfs\<close>; the registers of \<open>cpuid\<close>, \<open>sysinfo\<close>, the number of processors, the message of a
  failed read and the two build constants are fields of the environment. The code of an x86 build is modelled.
\<close>

record provenance_field =
  pf_available :: bool
  pf_value :: string
  pf_reason :: string

record provenance_info =
  pvi_virt_role :: provenance_field
  pvi_hypervisor_vendor :: provenance_field
  pvi_microcode_version :: provenance_field
  pvi_bios_vendor :: provenance_field
  pvi_bios_version :: provenance_field
  pvi_bios_date :: provenance_field
  pvi_cpu_governor :: provenance_field
  pvi_cpu_scaling_driver :: provenance_field
  pvi_cpu_governor_uniform :: bool
  pvi_mem_total_kb :: provenance_field
  pvi_compiler_version :: provenance_field
  pvi_libc_version :: provenance_field

text \<open>\<open>pve_sysinfo\<close> is the total memory and its unit, or a message; \<open>pve_read_error\<close> the message after a failed read.\<close>

record provenance_env =
  pve_fs :: sysfs
  pve_read_error :: "string \<Rightarrow> string"
  pve_cpuid :: "u32 \<Rightarrow> u32 \<times> u32 \<times> u32 \<times> u32"
  pve_ncpus :: nat
  pve_sysinfo :: "string + u64 \<times> u32"
  pve_compiler :: "string option"
  pve_libc :: "string option"

definition field_set_unavailable :: "string \<Rightarrow> provenance_field" where
  "field_set_unavailable reason = \<lparr>pf_available = False, pf_value = [], pf_reason = take 63 (cstr reason)\<rparr>"

definition field_set_str :: "string \<Rightarrow> provenance_field" where
  "field_set_str v = \<lparr>pf_available = True, pf_value = take 79 (cstr v), pf_reason = []\<rparr>"

definition collect_sysfs_field :: "provenance_env \<Rightarrow> string \<Rightarrow> provenance_field" where
  "collect_sysfs_field e path =
     (case read_sysfs_line (pve_fs e) path 80 of
        None \<Rightarrow> field_set_unavailable (pve_read_error e path)
      | Some line \<Rightarrow> field_set_str line)"

section \<open>Virtualization\<close>

text \<open>The bytes of a register in memory.\<close>

definition register_bytes :: "u32 \<Rightarrow> string" where
  "register_bytes w = map (\<lambda>i. char_of (unat (drop_bit (8 * i) w AND 0xff))) [0..<4]"

definition collect_virt_role :: "provenance_env \<Rightarrow> provenance_field \<times> provenance_field" where
  "collect_virt_role e =
     (let (_, _, ecx, _) = pve_cpuid e 1 in
      if bit ecx 31 then
        (let (_, ebx, ecx, edx) = pve_cpuid e 0x40000000;
             vendor = cstr (register_bytes ebx @ register_bytes ecx @ register_bytes edx)
         in (field_set_str ''guest'',
             if vendor \<noteq> [] then field_set_str vendor
             else field_set_unavailable ''hypervisor did not report a vendor id''))
      else
        (field_set_str ''host'', field_set_unavailable ''not applicable (host, not a guest)''))"

section \<open>The other facts\<close>

definition strip_end :: "string \<Rightarrow> string" where
  "strip_end s = rev (dropWhile (\<lambda>c. c = LF \<or> c = CR \<or> c = CHR '' '') (rev s))"

text \<open>The first line that starts with \<open>microcode\<close> and has a colon.\<close>

definition microcode_value :: "string \<Rightarrow> string option" where
  "microcode_value line =
     (if starts_with ''microcode'' line then
        map_option (\<lambda>(_, r). strip_end (dropWhile (\<lambda>c. c = CHR '' '' \<or> c = TAB) r)) (split_at CHR '':'' line)
      else None)"

definition collect_microcode :: "provenance_env \<Rightarrow> provenance_field" where
  "collect_microcode e =
     (case fs_file (pve_fs e) ''/proc/cpuinfo'' of
        None \<Rightarrow> field_set_unavailable (pve_read_error e ''/proc/cpuinfo'')
      | Some s \<Rightarrow>
          (case List.map_filter microcode_value (proc_lines 254 s) of
             v # _ \<Rightarrow> field_set_str v
           | [] \<Rightarrow> field_set_unavailable (''no '' @ [QUOTE] @ ''microcode'' @ [QUOTE] @ '' line in /proc/cpuinfo'')))"

definition governor_path :: "nat \<Rightarrow> string" where
  "governor_path i = ''/sys/devices/system/cpu/cpu'' @ dec i @ ''/cpufreq/scaling_governor''"

text \<open>The governor of cpu 0, the driver, and whether all cpus that can be read have this governor.\<close>

definition collect_governor :: "provenance_env \<Rightarrow> provenance_field \<times> provenance_field \<times> bool" where
  "collect_governor e =
     (case read_sysfs_line (pve_fs e) (governor_path 0) 80 of
        None \<Rightarrow>
          (field_set_unavailable (pve_read_error e (governor_path 0)),
           field_set_unavailable ''scaling_governor unavailable'', False)
      | Some buf \<Rightarrow>
          (field_set_str buf,
           collect_sysfs_field e ''/sys/devices/system/cpu/cpu0/cpufreq/scaling_driver'',
           list_all (\<lambda>i. case read_sysfs_line (pve_fs e) (governor_path i) 80 of None \<Rightarrow> True | Some other \<Rightarrow> other = buf)
             [1..<pve_ncpus e]))"

definition collect_mem_total :: "provenance_env \<Rightarrow> provenance_field" where
  "collect_mem_total e =
     (case pve_sysinfo e of
        Inl reason \<Rightarrow> field_set_unavailable reason
      | Inr (totalram, mem_unit) \<Rightarrow> field_set_str (u_text (totalram * ucast mem_unit div 1024)))"

definition collect_tool_versions :: "provenance_env \<Rightarrow> provenance_field \<times> provenance_field" where
  "collect_tool_versions e =
     (case pve_compiler e of
        Some v \<Rightarrow> field_set_str (''GCC '' @ v)
      | None \<Rightarrow> field_set_unavailable ''compiler did not define __VERSION__'',
      case pve_libc e of
        Some v \<Rightarrow> field_set_str v
      | None \<Rightarrow> field_set_unavailable ''non-glibc C library'')"

definition provenance_collect :: "provenance_env \<Rightarrow> provenance_info" where
  "provenance_collect e =
     (let (role, vendor) = collect_virt_role e;
          (governor, driver, uniform) = collect_governor e;
          (compiler, libc) = collect_tool_versions e
      in \<lparr>pvi_virt_role = role, pvi_hypervisor_vendor = vendor, pvi_microcode_version = collect_microcode e,
          pvi_bios_vendor = collect_sysfs_field e ''/sys/class/dmi/id/bios_vendor'',
          pvi_bios_version = collect_sysfs_field e ''/sys/class/dmi/id/bios_version'',
          pvi_bios_date = collect_sysfs_field e ''/sys/class/dmi/id/bios_date'',
          pvi_cpu_governor = governor, pvi_cpu_scaling_driver = driver, pvi_cpu_governor_uniform = uniform,
          pvi_mem_total_kb = collect_mem_total e, pvi_compiler_version = compiler, pvi_libc_version = libc\<rparr>)"

section \<open>Gaps\<close>

definition tracked_fields :: "provenance_info \<Rightarrow> (string \<times> provenance_field) list" where
  "tracked_fields info =
     [(''virt_role'', pvi_virt_role info), (''microcode_version'', pvi_microcode_version info),
      (''bios_vendor'', pvi_bios_vendor info), (''bios_version'', pvi_bios_version info),
      (''bios_date'', pvi_bios_date info), (''cpu_governor'', pvi_cpu_governor info),
      (''memory_total_kb'', pvi_mem_total_kb info), (''compiler_version'', pvi_compiler_version info),
      (''libc_version'', pvi_libc_version info)]"

abbreviation PROVENANCE_TRACKED_FIELD_COUNT :: nat where "PROVENANCE_TRACKED_FIELD_COUNT \<equiv> 9"

text \<open>The name and the reason of every tracked field that is not available.\<close>

definition provenance_gaps :: "provenance_info \<Rightarrow> (string \<times> string) list" where
  "provenance_gaps info =
     map (\<lambda>(name, f). (name, pf_reason f)) (filter (\<lambda>(name, f). \<not> pf_available f) (tracked_fields info))"

definition provenance_count_available :: "provenance_info \<Rightarrow> nat" where
  "provenance_count_available info = PROVENANCE_TRACKED_FIELD_COUNT - length (provenance_gaps info)"

section \<open>Facts\<close>

text \<open>Every field is a text without a zero byte, and the memory is a decimal number.\<close>

definition field_ok :: "provenance_field \<Rightarrow> bool" where
  "field_ok f \<longleftrightarrow> no_nul (pf_value f) \<and> no_nul (pf_reason f)"

definition provenance_ok :: "provenance_info \<Rightarrow> bool" where
  "provenance_ok info \<longleftrightarrow>
     field_ok (pvi_virt_role info) \<and> field_ok (pvi_hypervisor_vendor info) \<and> field_ok (pvi_microcode_version info) \<and>
     field_ok (pvi_bios_vendor info) \<and> field_ok (pvi_bios_version info) \<and> field_ok (pvi_bios_date info) \<and>
     field_ok (pvi_cpu_governor info) \<and> field_ok (pvi_cpu_scaling_driver info) \<and> field_ok (pvi_mem_total_kb info) \<and>
     field_ok (pvi_compiler_version info) \<and> field_ok (pvi_libc_version info) \<and>
     (pf_available (pvi_mem_total_kb info) \<longrightarrow> (\<exists>n. pf_value (pvi_mem_total_kb info) = dec n))"

lemma field_set_ok [simp]: "field_ok (field_set_unavailable r)" "field_ok (field_set_str v)"
  by (simp_all add: field_ok_def field_set_unavailable_def field_set_str_def no_nul_take)

lemma u64_text_length: "length (u_text (w :: u64)) \<le> 20"
proof -
  have "unat w < 2 ^ 64" using unsigned_less [of w] by simp
  then have "unat w < 10 ^ 20" by simp
  then show ?thesis unfolding u_text_def by (rule dec_length) simp
qed

lemma sysfs_field_ok [simp]: "field_ok (collect_sysfs_field e path)"
  by (simp add: collect_sysfs_field_def split: option.split)

lemma provenance_collect_ok: "provenance_ok (provenance_collect e)"
proof -
  have role: "field_ok (fst (collect_virt_role e))" "field_ok (snd (collect_virt_role e))"
    by (simp_all add: collect_virt_role_def Let_def split: prod.split)
  have code: "field_ok (collect_microcode e)" by (simp add: collect_microcode_def split: option.split list.split)
  have gov: "field_ok (fst (collect_governor e))" "field_ok (fst (snd (collect_governor e)))"
    by (simp_all add: collect_governor_def split: option.split)
  have tool: "field_ok (fst (collect_tool_versions e))" "field_ok (snd (collect_tool_versions e))"
    by (simp_all add: collect_tool_versions_def split: option.split)
  have mem: "field_ok (collect_mem_total e)"
      "pf_available (collect_mem_total e) \<longrightarrow> (\<exists>n. pf_value (collect_mem_total e) = dec n)"
  proof -
    show "field_ok (collect_mem_total e)" by (simp add: collect_mem_total_def split: sum.split prod.split)
    have "take 79 (cstr (u_text w)) = dec (unat w)" for w :: u64
      using u64_text_length [of w] by (simp add: u_text_def)
    then show "pf_available (collect_mem_total e) \<longrightarrow> (\<exists>n. pf_value (collect_mem_total e) = dec n)"
      by (auto simp: collect_mem_total_def field_set_unavailable_def field_set_str_def split: sum.split)
  qed
  show ?thesis
    using role code gov tool mem by (simp add: provenance_ok_def provenance_collect_def split_beta)
qed

lemma provenance_gaps_count:
  "length (provenance_gaps info) + length (filter (\<lambda>(name, f). pf_available f) (tracked_fields info)) = 9"
  by (simp add: provenance_gaps_def tracked_fields_def)

end
