(* ===== verification/C_Time.thy ===== *)
theory C_Time
  imports Json_Text
begin

text \<open>
  \<open>gmtime_r\<close> and \<open>strftime\<close> of the C library as far as the sources use them, for times from 1970 on, and the two
  formats of src/json_util.c and src/run_index.c. Both put times in their order: a later millisecond has a text
  that \<open>strcmp\<close> puts later.
\<close>

section \<open>The calendar\<close>

definition leap_year :: "nat \<Rightarrow> bool" where
  "leap_year y \<longleftrightarrow> 4 dvd y \<and> (\<not> 100 dvd y \<or> 400 dvd y)"

definition year_days :: "nat \<Rightarrow> nat" where
  "year_days y = (if leap_year y then 366 else 365)"

definition month_days :: "nat \<Rightarrow> nat \<Rightarrow> nat" where
  "month_days y m = (if m = 2 then (if leap_year y then 29 else 28) else if m \<in> set [4, 6, 9, 11] then 30 else 31)"

lemma year_days_pos [simp]: "0 < year_days y"
  by (simp add: year_days_def)

lemma month_days_pos [simp]: "0 < month_days y m"
  by (simp add: month_days_def)

text \<open>The year of a day, counted from the first of January of \<open>y\<close>, and the day in that year, from 0.\<close>

function civil_year :: "nat \<Rightarrow> nat \<Rightarrow> nat \<times> nat" where
  "civil_year y d = (if d < year_days y then (y, d) else civil_year (Suc y) (d - year_days y))"
  by auto
termination
  by (relation "measure snd") (simp, metis diff_less in_measure less_le_trans not_less snd_conv year_days_pos)

declare civil_year.simps [simp del]

text \<open>The month, from 1, and the day of the month, from 1.\<close>

function civil_month :: "nat \<Rightarrow> nat \<Rightarrow> nat \<Rightarrow> nat \<times> nat" where
  "civil_month y m d = (if d < month_days y m \<or> 12 \<le> m then (m, Suc d) else civil_month y (Suc m) (d - month_days y m))"
  by auto
termination
  by (relation "measure (\<lambda>(_, m, _). 12 - m)") auto

declare civil_month.simps [simp del]

text \<open>Year, month, day, hour, minute and second of a time in seconds.\<close>

definition gmtime :: "nat \<Rightarrow> nat list" where
  "gmtime t =
     (let (y, doy) = civil_year 1970 (t div 86400); (m, d) = civil_month y 1 doy
      in [y, m, d, t mod 86400 div 3600, t mod 3600 div 60, t mod 60])"

section \<open>The formats\<close>

definition two :: "nat \<Rightarrow> string" where "two n = pad_left (CHR ''0'') 2 (dec n)"

definition milliseconds :: "int \<times> int \<Rightarrow> nat" where
  "milliseconds ts = nat (snd ts) div 1000000"

definition ms_text :: "int \<times> int \<Rightarrow> string" where
  "ms_text ts = pad_left (CHR ''0'') 3 (dec (milliseconds ts))"

text \<open>A \<open>timespec\<close> is a pair of seconds and nanoseconds.\<close>

definition format_iso8601 :: "int \<times> int \<Rightarrow> string" where
  "format_iso8601 ts =
     (case gmtime (nat (fst ts)) of
        [y, m, d, h, mi, s] \<Rightarrow>
          dec y @ ''-'' @ two m @ ''-'' @ two d @ ''T'' @ two h @ '':'' @ two mi @ '':'' @ two s @
          ''.'' @ ms_text ts @ ''Z''
      | _ \<Rightarrow> [])"

definition format_run_id :: "int \<times> int \<Rightarrow> nat \<Rightarrow> string" where
  "format_run_id start_time pid =
     (case gmtime (nat (fst start_time)) of
        [y, m, d, h, mi, s] \<Rightarrow>
          dec y @ two m @ two d @ ''T'' @ two h @ two mi @ two s @ ''.'' @ ms_text start_time @ ''-'' @ dec pid
      | _ \<Rightarrow> [])"

section \<open>The calendar is right\<close>

text \<open>Days before a year, days before a month.\<close>

fun days_before_year :: "nat \<Rightarrow> nat \<Rightarrow> nat" where
  "days_before_year y 0 = 0"
| "days_before_year y (Suc n) = days_before_year y n + year_days (y + n)"

lemma days_before_year_Suc: "days_before_year y (Suc n) = year_days y + days_before_year (Suc y) n"
  by (induction n) simp_all

lemma civil_year_days:
  "civil_year y d = (y', doy) \<Longrightarrow> y \<le> y' \<and> doy < year_days y' \<and> d = days_before_year y (y' - y) + doy"
proof (induction y d rule: civil_year.induct)
  case (1 y d)
  show ?case
  proof (cases "d < year_days y")
    case True
    with 1(2) show ?thesis by (simp add: civil_year.simps [of y d])
  next
    case False
    with 1 have "Suc y \<le> y' \<and> doy < year_days y' \<and> d - year_days y = days_before_year (Suc y) (y' - Suc y) + doy"
      by (simp add: civil_year.simps [of y d])
    moreover have "days_before_year y (y' - y) = year_days y + days_before_year (Suc y) (y' - Suc y)" if "Suc y \<le> y'"
      using days_before_year_Suc [of y "y' - Suc y"] that by (simp add: Suc_diff_Suc)
    ultimately show ?thesis using False by auto
  qed
qed

lemma days_before_year_mono: "m \<le> n \<Longrightarrow> days_before_year y m \<le> days_before_year y n"
  by (induction n) (auto simp: le_Suc_eq)

lemma days_before_year_gap: "m < n \<Longrightarrow> days_before_year y m + year_days (y + m) \<le> days_before_year y n"
  using days_before_year_mono [of "Suc m" n y] by simp

lemma civil_year_mono:
  assumes "civil_year y d = (y1, a)" and "civil_year y e = (y2, b)" and "d \<le> e"
  shows "y1 < y2 \<or> y1 = y2 \<and> a \<le> b \<and> (d < e \<longrightarrow> a < b)"
proof -
  from civil_year_days [OF assms(1)] civil_year_days [OF assms(2)]
  have 1: "y \<le> y1" "a < year_days y1" "d = days_before_year y (y1 - y) + a"
    and 2: "y \<le> y2" "b < year_days y2" "e = days_before_year y (y2 - y) + b" by auto
  have "\<not> y2 < y1"
  proof
    assume "y2 < y1"
    then have "days_before_year y (y2 - y) + year_days (y + (y2 - y)) \<le> days_before_year y (y1 - y)"
      using 2(1) by (intro days_before_year_gap) simp
    with 1 2 assms(3) show False by simp
  qed
  with 1 2 assms(3) show ?thesis by (cases "y1 = y2") auto
qed

text \<open>The month and the day are in their ranges, and later days have later months or days.\<close>

lemma civil_month_mono:
  assumes "civil_month y m d = (m1, a)" and "civil_month y m e = (m2, b)" and "d \<le> e"
  shows "m1 < m2 \<or> m1 = m2 \<and> a \<le> b \<and> (d < e \<longrightarrow> a < b)"
  using assms
proof (induction y m d arbitrary: e rule: civil_month.induct)
  case (1 y m d)
  show ?case
  proof (cases "d < month_days y m \<or> 12 \<le> m")
    case True
    then have d: "m1 = m" "a = Suc d" using 1(2) by (simp_all add: civil_month.simps [of y m d])
    show ?thesis
    proof (cases "e < month_days y m \<or> 12 \<le> m")
      case True
      with d 1(3,4) show ?thesis by (simp add: civil_month.simps [of y m e])
    next
      case False
      have "civil_month y (Suc m) x = (k, c) \<Longrightarrow> m < k" for x k c
        by (induction y "Suc m" x arbitrary: m rule: civil_month.induct)
          (subst (asm) (2) civil_month.simps, auto split: if_splits)
      moreover have "civil_month y (Suc m) (e - month_days y m) = (m2, b)"
        using False 1(3) by (simp add: civil_month.simps [of y m e])
      ultimately show ?thesis using d by blast
    qed
  next
    case False
    with 1(4) have e: "\<not> (e < month_days y m \<or> 12 \<le> m)" by auto
    from 1(1) [OF False _ _ , of "e - month_days y m"] False e 1(2-4) show ?thesis
      by (auto simp: civil_month.simps [of y m d] civil_month.simps [of y m e])
  qed
qed

lemma civil_month_range:
  "civil_month y m d = (m1, a) \<Longrightarrow> m \<le> 12 \<Longrightarrow> d < (\<Sum>k = m..12. month_days y k) \<Longrightarrow>
   m \<le> m1 \<and> m1 \<le> 12 \<and> 1 \<le> a \<and> a \<le> month_days y m1"
proof (induction y m d rule: civil_month.induct)
  case (1 y m d)
  have s: "(\<Sum>k = m..12. month_days y k) = month_days y m + (\<Sum>k = Suc m..12. month_days y k)"
    using 1(3) by (simp add: sum.atLeast_Suc_atMost)
  show ?case
  proof (cases "d < month_days y m \<or> 12 \<le> m")
    case True
    with 1 s show ?thesis by (auto simp: civil_month.simps [of y m d])
  next
    case False
    then have "d - month_days y m < (\<Sum>k = Suc m..12. month_days y k)" using 1(4) s by linarith
    with 1 False have "Suc m \<le> m1 \<and> m1 \<le> 12 \<and> 1 \<le> a \<and> a \<le> month_days y m1"
      by (simp add: civil_month.simps [of y m d])
    then show ?thesis by simp
  qed
qed

lemma months_of_year: "(\<Sum>k = 1..12. month_days y k) = year_days y"
  by (simp add: month_days_def year_days_def numeral_eq_Suc)

section \<open>Times in order\<close>

lemma gmtime_parts:
  obtains y doy m d where "civil_year 1970 (t div 86400) = (y, doy)" and "civil_month y 1 doy = (m, d)"
    and "gmtime t = [y, m, d, t mod 86400 div 3600, t mod 3600 div 60, t mod 60]"
    and "1 \<le> m" and "m \<le> 12" and "1 \<le> d" and "d \<le> 31"
proof -
  obtain y doy where y: "civil_year 1970 (t div 86400) = (y, doy)" by (cases "civil_year 1970 (t div 86400)")
  obtain m d where m: "civil_month y 1 doy = (m, d)" by (cases "civil_month y 1 doy")
  have "doy < (\<Sum>k = 1..12. month_days y k)" using civil_year_days [OF y] months_of_year by simp
  from civil_month_range [OF m _ this] have "1 \<le> m" "m \<le> 12" "1 \<le> d" "d \<le> month_days y m" by auto
  moreover have "month_days y m \<le> 31" by (simp add: month_days_def)
  ultimately show thesis using that [OF y m] y m by (simp add: gmtime_def)
qed

lemma clock_mono:
  assumes "t < u" and "t div 86400 = u div (86400 :: nat)"
  shows "t mod 86400 div 3600 < u mod 86400 div 3600 \<or> t mod 86400 div 3600 = u mod 86400 div 3600 \<and>
    (t mod 3600 div 60 < u mod 3600 div 60 \<or> t mod 3600 div 60 = u mod 3600 div 60 \<and> t mod 60 < u mod 60)"
proof -
  define a b where "a = t mod 86400" and "b = u mod 86400"
  have lt: "a < b" using assms unfolding a_def b_def by (metis div_mod_decomp nat_add_left_cancel_less)
  have m: "t mod 3600 = a mod 3600" "t mod 60 = a mod 60" "u mod 3600 = b mod 3600" "u mod 60 = b mod 60"
    by (simp_all add: a_def b_def mod_mod_cancel)
  define p q where "p = a mod 3600" and "q = b mod 3600"
  have n: "a mod 60 = p mod 60" "b mod 60 = q mod 60" by (simp_all add: p_def q_def mod_mod_cancel)
  have "a div 3600 < b div 3600 \<or> a div 3600 = b div 3600 \<and> p < q"
    using lt div_le_mono [of a b 3600] div_mult_mod_eq [of a 3600] div_mult_mod_eq [of b 3600]
    unfolding p_def q_def by linarith
  moreover have "p < q \<Longrightarrow> p div 60 < q div 60 \<or> p div 60 = q div 60 \<and> p mod 60 < q mod 60"
    using div_le_mono [of p q 60] div_mult_mod_eq [of p 60] div_mult_mod_eq [of q 60] by linarith
  ultimately show ?thesis unfolding m n a_def [symmetric] b_def [symmetric] p_def [symmetric] q_def [symmetric] by blast
qed

lemma gmtime_mono:
  assumes "t < u" and "gmtime t = [y, m, d, h, i, s]" and "gmtime u = [y', m', d', h', i', s']"
  shows "y < y' \<or> y = y' \<and> (m < m' \<or> m = m' \<and> (d < d' \<or> d = d' \<and>
    (h < h' \<or> h = h' \<and> (i < i' \<or> i = i' \<and> s < s'))))"
proof -
  from assms(2) obtain a where t: "civil_year 1970 (t div 86400) = (y, a)" "civil_month y 1 a = (m, d)"
      "h = t mod 86400 div 3600" "i = t mod 3600 div 60" "s = t mod 60"
    by (auto simp: gmtime_def Let_def split: prod.splits)
  from assms(3) obtain b where u: "civil_year 1970 (u div 86400) = (y', b)" "civil_month y' 1 b = (m', d')"
      "h' = u mod 86400 div 3600" "i' = u mod 3600 div 60" "s' = u mod 60"
    by (auto simp: gmtime_def Let_def split: prod.splits)
  have le: "t div 86400 \<le> u div 86400" using assms(1) by (intro div_le_mono) simp
  show ?thesis
  proof (cases "t div 86400 = u div 86400")
    case True
    with t u have "y = y'" "m = m'" "d = d'" by auto
    with clock_mono [OF assms(1) True] t u show ?thesis by simp
  next
    case False
    with le have "y < y' \<or> y = y' \<and> a < b" using civil_year_mono [OF t(1) u(1) le] by auto
    then show ?thesis using civil_month_mono [of y 1 a m d b m' d'] t(2) u(2) by auto
  qed
qed

text \<open>Comparing texts of fixed width.\<close>

lemma strcmp_append:
  "length a = length b \<Longrightarrow> strcmp_lt (a @ r) (b @ s) \<longleftrightarrow> strcmp_lt a b \<or> a = b \<and> strcmp_lt r s"
  by (induction a b rule: list_induct2) auto

lemma digits_value_Cons: "digits_value 10 (c # ds) = the (hex_value c) * 10 ^ length ds + digits_value 10 ds"
  using digits_value_append [of "[c]" ds] by simp

lemma digit_value_code: "is_digit c \<Longrightarrow> the (hex_value c) = char_code c - 48 \<and> 48 \<le> char_code c \<and> char_code c \<le> 57"
  by (auto simp: is_digit_def hex_value_def)

lemma digits_value_less: "\<forall>c \<in> set ds. is_digit c \<Longrightarrow> digits_value 10 ds < 10 ^ length ds"
proof (induction ds)
  case (Cons c ds)
  then have 1: "digits_value 10 ds < 10 ^ length ds" and "the (hex_value c) \<le> 9" using digit_value_code [of c] by auto
  from this(2) have "the (hex_value c) * 10 ^ length ds \<le> 9 * 10 ^ length ds" by (rule mult_le_mono1)
  with 1 have "the (hex_value c) * 10 ^ length ds + digits_value 10 ds < 10 * 10 ^ length ds" by linarith
  then show ?case by (simp add: digits_value_Cons)
qed simp

lemma strcmp_digits:
  "length a = length b \<Longrightarrow> \<forall>c \<in> set a. is_digit c \<Longrightarrow> \<forall>c \<in> set b. is_digit c \<Longrightarrow>
   digits_value 10 a < digits_value 10 b \<Longrightarrow> strcmp_lt a b"
proof (induction a b rule: list_induct2)
  case (Cons x a y b)
  let ?x = "char_code x - 48" and ?y = "char_code y - 48" and ?p = "10 ^ length a :: nat"
  have v: "digits_value 10 (x # a) = ?x * ?p + digits_value 10 a" "digits_value 10 (y # b) = ?y * ?p + digits_value 10 b"
    using Cons digit_value_code [of x] digit_value_code [of y] by (simp_all add: digits_value_Cons)
  have lt: "digits_value 10 b < ?p" using digits_value_less [of b] Cons by simp
  show ?case
  proof (cases "char_code x < char_code y")
    case False
    have "\<not> ?y < ?x"
    proof
      assume "?y < ?x"
      then have "Suc ?y * ?p \<le> ?x * ?p" by (intro mult_le_mono1) simp
      then have "?y * ?p + ?p \<le> ?x * ?p" by simp
      with lt v Cons.prems(3) show False by linarith
    qed
    moreover have "48 \<le> char_code x" "48 \<le> char_code y"
      using Cons.prems digit_value_code [of x] digit_value_code [of y] by simp_all
    ultimately have "char_code x = char_code y" using False by linarith
    then have "x = y" by simp
    with Cons v show ?thesis by simp
  qed simp
qed simp

lemma padded_digits:
  assumes "n < 10 ^ w" and "0 < w"
  shows "length (pad_left (CHR ''0'') w (dec n)) = w" and "\<forall>c \<in> set (pad_left (CHR ''0'') w (dec n)). is_digit c"
    and "digits_value 10 (pad_left (CHR ''0'') w (dec n)) = n"
  using dec_length [OF assms] dec_digits by (auto simp: pad_left_def pad_zero_value dec_value is_digit_def)

lemma padded_order:
  assumes "n < 10 ^ w" and "m < 10 ^ w" and "0 < w"
  shows "n < m \<Longrightarrow> strcmp_lt (pad_left (CHR ''0'') w (dec n)) (pad_left (CHR ''0'') w (dec m))"
  using padded_digits [OF assms(1,3)] padded_digits [OF assms(2,3)] by (intro strcmp_digits) simp_all

lemma two_order: "a < 100 \<Longrightarrow> b < 100 \<Longrightarrow> a < b \<Longrightarrow> strcmp_lt (two a) (two b)"
  unfolding two_def by (rule padded_order) simp_all

lemma two_length: "a < 100 \<Longrightarrow> length (two a) = 2"
  unfolding two_def by (rule padded_digits(1)) simp_all

lemma year_text: "1000 \<le> y \<Longrightarrow> y < 10000 \<Longrightarrow> dec y = pad_left (CHR ''0'') 4 (dec y)"
proof -
  assume "1000 \<le> y" "y < 10000"
  have "\<not> length (dec y) < 4"
  proof
    assume "length (dec y) < 4"
    moreover have "digits_value 10 (dec y) < 10 ^ length (dec y)" by (rule digits_value_less) (use dec_digits in auto)
    moreover from calculation(1) have "(10 :: nat) ^ length (dec y) \<le> 10 ^ 3" by (intro power_increasing) simp_all
    ultimately have "digits_value 10 (dec y) < 1000" by simp
    with \<open>1000 \<le> y\<close> show False by (simp add: dec_value)
  qed
  then show ?thesis by (simp add: pad_left_def)
qed

text \<open>The order of the run ids and of the times in a manifest, from 1970 to 9999.\<close>

definition before :: "int \<times> int \<Rightarrow> int \<times> int \<Rightarrow> bool" where
  "before a b \<longleftrightarrow> fst a < fst b \<or> fst a = fst b \<and> milliseconds a < milliseconds b"

definition timespec_ok :: "int \<times> int \<Rightarrow> bool" where
  "timespec_ok ts \<longleftrightarrow> 0 \<le> fst ts \<and> fst ts < 253402300800 \<and> snd ts < 1000000000"

text \<open>The seconds of the years 1970 to 9999.\<close>

lemma days_before_leaps:
  "days_before_year (Suc y) n + y div 4 + (y + n) div 100 + y div 400 =
   365 * n + (y + n) div 4 + y div 100 + (y + n) div 400"
proof (induction n)
  case (Suc n)
  let ?z = "Suc (y + n)"
  have d: "?z div k = (if k dvd ?z then Suc ((y + n) div k) else (y + n) div k)" for k
    by (simp add: div_Suc dvd_eq_mod_eq_0)
  have "400 dvd ?z \<Longrightarrow> 100 dvd ?z" "100 dvd ?z \<Longrightarrow> 4 dvd ?z"
    using dvd_trans [of 100 400 ?z] dvd_trans [of 4 100 ?z] by simp_all
  then show ?case
    using Suc d [of 4] d [of 100] d [of 400] by (auto simp: year_days_def leap_year_def)
qed simp

lemma year_before_10000:
  assumes "t < 253402300800" and "gmtime t = y # rest"
  shows "1970 \<le> y \<and> y < 10000"
proof -
  obtain doy where y: "civil_year 1970 (t div 86400) = (y, doy)"
    using assms(2) by (auto simp: gmtime_def Let_def split: prod.splits)
  from civil_year_days [OF y] have 1: "1970 \<le> y" and 2: "t div 86400 = days_before_year 1970 (y - 1970) + doy" by auto
  have "\<not> 10000 \<le> y"
  proof
    assume "10000 \<le> y"
    then have "days_before_year 1970 8030 \<le> days_before_year 1970 (y - 1970)" by (intro days_before_year_mono) simp
    moreover have "days_before_year 1970 8030 = 2932897" using days_before_leaps [of 1969 8030] by simp
    moreover have "t div 86400 < 2932897" using assms(1) by simp
    ultimately show False using 2 by simp
  qed
  with 1 show ?thesis by simp
qed

lemma ms_text_order:
  assumes "snd a < 1000000000" and "snd b < 1000000000"
  shows "length (ms_text a) = 3" and "milliseconds a < milliseconds b \<Longrightarrow> strcmp_lt (ms_text a) (ms_text b)"
proof -
  have "milliseconds a < 10 ^ 3" "milliseconds b < 10 ^ 3" using assms by (simp_all add: milliseconds_def)
  then show "length (ms_text a) = 3" "milliseconds a < milliseconds b \<Longrightarrow> strcmp_lt (ms_text a) (ms_text b)"
    unfolding ms_text_def by (auto intro: padded_digits(1) padded_order)
qed

lemma gmtime_small:
  assumes "gmtime t = [y, m, d, h, i, s]"
  shows "m < 100" and "d < 100" and "h < 100" and "i < 100" and "s < 100"
proof -
  obtain y' m' d' where "gmtime t = [y', m', d', t mod 86400 div 3600, t mod 3600 div 60, t mod 60]" "m' \<le> 12" "d' \<le> 31"
    by (rule gmtime_parts)
  with assms have e: "m \<le> 12" "d \<le> 31" "h = t mod 86400 div 3600" "i = t mod 3600 div 60" "s = t mod 60" by simp_all
  then show "m < 100" "d < 100" "s < 100" by simp_all
  have "t mod 86400 < 86400" "t mod 3600 < 3600" by simp_all
  then show "h < 100" "i < 100" unfolding e by linarith+
qed

lemma stamp_order:
  assumes "before a b" and "timespec_ok a" and "timespec_ok b"
    and "gmtime (nat (fst a)) = [y, m, d, h, i, s]" and "gmtime (nat (fst b)) = [y', m', d', h', i', s']"
  shows "strcmp_lt (dec y @ s1 @ two m @ s2 @ two d @ s3 @ two h @ s4 @ two i @ s5 @ two s @ s6 @ ms_text a @ r)
    (dec y' @ s1 @ two m' @ s2 @ two d' @ s3 @ two h' @ s4 @ two i' @ s5 @ two s' @ s6 @ ms_text b @ r')"
proof -
  have ya: "1970 \<le> y" "y < 10000" and yb: "1970 \<le> y'" "y' < 10000"
    using year_before_10000 [OF _ assms(4)] year_before_10000 [OF _ assms(5)] assms(2,3) by (auto simp: timespec_ok_def)
  note la = gmtime_small [OF assms(4)] and lb = gmtime_small [OF assms(5)]
  have year: "length (dec y) = 4" "length (dec y') = 4" "y < y' \<Longrightarrow> strcmp_lt (dec y) (dec y')"
    using year_text [of y] year_text [of y'] padded_digits(1) [of y 4] padded_digits(1) [of y' 4] padded_order [of y 4 y'] ya yb
    by simp_all
  note len = two_length [OF la(1)] two_length [OF la(2)] two_length [OF la(3)] two_length [OF la(4)] two_length [OF la(5)]
    two_length [OF lb(1)] two_length [OF lb(2)] two_length [OF lb(3)] two_length [OF lb(4)] two_length [OF lb(5)] year
  have ord: "m < m' \<Longrightarrow> strcmp_lt (two m) (two m')" "d < d' \<Longrightarrow> strcmp_lt (two d) (two d')"
    "h < h' \<Longrightarrow> strcmp_lt (two h) (two h')" "i < i' \<Longrightarrow> strcmp_lt (two i) (two i')" "s < s' \<Longrightarrow> strcmp_lt (two s) (two s')"
    using two_order la lb by simp_all
  have ms: "length (ms_text a) = length (ms_text b)" "milliseconds a < milliseconds b \<Longrightarrow> strcmp_lt (ms_text a) (ms_text b)"
    using ms_text_order [of a b] ms_text_order(1) [of b a] assms(2,3) by (simp_all add: timespec_ok_def)
  show ?thesis
  proof (cases "fst a < fst b")
    case True
    then have "nat (fst a) < nat (fst b)" using assms(2) by (simp add: timespec_ok_def)
    from gmtime_mono [OF this assms(4,5)] show ?thesis
      using ord year(3) by (auto simp: strcmp_append len)
  next
    case False
    with assms(1) have eq: "fst a = fst b" and "milliseconds a < milliseconds b" by (auto simp: before_def)
    with assms(4,5) ms show ?thesis by (simp add: strcmp_append)
  qed
qed

text \<open>The ids of runs, and the times in a manifest, sort as the times do.\<close>

lemma run_id_order:
  assumes "before a b" and "timespec_ok a" and "timespec_ok b"
  shows "strcmp_lt (format_run_id a p) (format_run_id b q)" and "strcmp_lt (format_iso8601 a) (format_iso8601 b)"
proof -
  obtain y m d h i s where a: "gmtime (nat (fst a)) = [y, m, d, h, i, s]" by (rule gmtime_parts) blast
  obtain y' m' d' h' i' s' where b: "gmtime (nat (fst b)) = [y', m', d', h', i', s']" by (rule gmtime_parts) blast
  show "strcmp_lt (format_run_id a p) (format_run_id b q)"
    using stamp_order [OF assms a b, of "[]" "[]" "''T''" "[]" "[]" "''.''" "''-'' @ dec p" "''-'' @ dec q"]
    by (simp add: format_run_id_def a b)
  show "strcmp_lt (format_iso8601 a) (format_iso8601 b)"
    using stamp_order [OF assms a b, of "''-''" "''-''" "''T''" "'':''" "'':''" "''.''" "''Z''" "''Z''"]
    by (simp add: format_iso8601_def a b)
qed

end
