(* ===== verification/Json_Layout.thy ===== *)
theory Json_Layout
  imports C_Time C_Text
begin

text \<open>
  JSON text with white space, as src/manifest.c lays it out: objects and arrays whose parts are separated by commas
  with blanks or newlines around them. Whatever the layout, the text is a document of \<open>json_doc\<close>.
\<close>

section \<open>Layouts\<close>

text \<open>The separator contains the comma, \<open>colon\<close> the colon.\<close>

definition json_dict :: "string \<Rightarrow> string \<Rightarrow> string \<Rightarrow> string \<Rightarrow> (string \<times> string) list \<Rightarrow> string" where
  "json_dict pre sep colon post kts =
     ''{'' @ pre @ join_text sep (map (\<lambda>(k, v). QUOTE # k @ QUOTE # colon @ v) kts) @ post @ ''}''"

definition json_list :: "string \<Rightarrow> string \<Rightarrow> string \<Rightarrow> string list \<Rightarrow> string" where
  "json_list pre sep post ts = ''['' @ pre @ join_text sep ts @ post @ '']''"

text \<open>A block: one member on each line, behind \<open>n + 2\<close> blanks; the closing brace is behind \<open>n\<close>. And an object on
  one line.\<close>

definition blanks :: "nat \<Rightarrow> string" where "blanks n = replicate n (CHR '' '')"

definition json_block :: "nat \<Rightarrow> (string \<times> string) list \<Rightarrow> string" where
  "json_block n = json_dict (newline @ blanks (n + 2)) ('','' @ newline @ blanks (n + 2)) '': '' (newline @ blanks n)"

definition json_inline :: "(string \<times> string) list \<Rightarrow> string" where
  "json_inline = json_dict '' '' '', '' '': '' '' ''"

definition json_bool :: "bool \<Rightarrow> string" where "json_bool b = (if b then ''true'' else ''false'')"

definition quoted :: "string \<Rightarrow> string" where "quoted s = QUOTE # s @ [QUOTE]"

section \<open>Their documents\<close>

named_theorems json_texts

definition sep_ws :: "char \<Rightarrow> string \<Rightarrow> bool" where
  "sep_ws c s \<longleftrightarrow> (\<exists>a b. s = a @ c # b \<and> json_ws a \<and> json_ws b)"

lemma json_ws_append [simp]: "json_ws (a @ b) \<longleftrightarrow> json_ws a \<and> json_ws b"
  by (auto simp: json_ws_def)

lemma json_ws_blanks [simp]: "json_ws (blanks n)" "json_ws newline" "json_ws '' ''"
  by (simp_all add: json_ws_def blanks_def newline_def is_space_def char_code_def)

lemma ws_no_nul: "json_ws w \<Longrightarrow> no_nul w"
  by (auto simp: json_ws_def no_nul_def NUL_def is_space_def)

lemma sep_no_nul: "sep_ws c s \<Longrightarrow> c \<noteq> NUL \<Longrightarrow> no_nul s"
  by (auto simp: sep_ws_def ws_no_nul)

lemma sep_first [simp]: "json_ws w \<Longrightarrow> sep_ws c (c # w)"
  unfolding sep_ws_def by (intro exI [of _ "[]"] exI [of _ w]) (simp add: json_ws_def)

lemma sep_behind: "json_ws a \<Longrightarrow> json_ws b \<Longrightarrow> sep_ws c (a @ c # b)"
  by (auto simp: sep_ws_def)

lemma doc_items_layout:
  "list_all2 json_doc ts vs \<Longrightarrow> vs \<noteq> [] \<Longrightarrow> json_ws w1 \<Longrightarrow> json_ws w2 \<Longrightarrow> sep_ws CHR '','' sep \<Longrightarrow>
   doc_items (w1 @ join_text sep ts @ w2) vs"
proof (induction arbitrary: w1 rule: list_all2_induct)
  case (Cons t ts v vs)
  show ?case
  proof (cases "vs = []")
    case True
    then have "ts = []" using Cons by simp
    then show ?thesis using True item_last [of w1 t v w2] Cons by simp
  next
    case False
    then obtain u us where us: "ts = u # us" using Cons by (cases ts) auto
    obtain a b where ab: "sep = a @ CHR '','' # b" "json_ws a" "json_ws b" using Cons.prems(4) by (auto simp: sep_ws_def)
    have "doc_items (w1 @ t @ a @ '','' @ (b @ join_text sep ts @ w2)) (v # vs)"
      using Cons False ab by (intro item_more) simp_all
    then show ?thesis by (simp add: us ab(1))
  qed
qed simp

lemma json_list_text [json_texts]:
  assumes "list_all2 json_text ts vs" and "json_ws pre" and "json_ws post" and "sep_ws CHR '','' sep"
  shows "json_text (json_list pre sep post ts) (JSON_ARRAY vs)"
proof -
  from list_all2_text [OF assms(1)] have d: "list_all2 json_doc ts vs" and n: "\<forall>t \<in> set ts. no_nul t" by auto
  have "json_doc (json_list pre sep post ts) (JSON_ARRAY vs)"
  proof (cases "vs = []")
    case True
    then have "json_list pre sep post ts = ''['' @ (pre @ post) @ '']''" using d by (simp add: json_list_def)
    with True doc_empty_array [of "pre @ post"] assms(2,3) show ?thesis by simp
  next
    case False
    then show ?thesis
      using doc_array [OF doc_items_layout [OF d False assms(2,3,4)]] by (simp add: json_list_def)
  qed
  moreover have "no_nul (json_list pre sep post ts)"
    using join_text_no_nul [OF sep_no_nul [OF assms(4)] n] ws_no_nul [OF assms(2)] ws_no_nul [OF assms(3)]
    unfolding json_list_def by simp
  ultimately show ?thesis by (simp add: json_text_def)
qed

lemma doc_members_layout:
  "list_all2 member_doc kts kvs \<Longrightarrow> kvs \<noteq> [] \<Longrightarrow> json_ws w1 \<Longrightarrow> json_ws w2 \<Longrightarrow> sep_ws CHR '','' sep \<Longrightarrow>
   sep_ws CHR '':'' colon \<Longrightarrow>
   doc_members (w1 @ join_text sep (map (\<lambda>(k, v). QUOTE # k @ QUOTE # colon @ v) kts) @ w2) kvs"
proof (induction arbitrary: w1 rule: list_all2_induct)
  case (Cons kt kts kv kvs)
  obtain k t v where kt: "kt = (k, t)" "kv = (k, v)" and k: "plain_word k" and d: "json_doc t v"
    using Cons(1) by (cases kt; cases kv) (auto simp: member_doc_def json_text_def)
  obtain c e where ce: "colon = c @ CHR '':'' # e" "json_ws c" "json_ws e" using Cons.prems(5) by (auto simp: sep_ws_def)
  show ?case
  proof (cases "kvs = []")
    case True
    then have "kts = []" using Cons by simp
    then show ?thesis
      using True member_last [of w1 k c e t v w2] plain_key [OF k] d kt ce Cons.prems by simp
  next
    case False
    then obtain u us where us: "kts = u # us" using Cons by (cases kts) auto
    obtain a b where ab: "sep = a @ CHR '','' # b" "json_ws a" "json_ws b" using Cons.prems(4) by (auto simp: sep_ws_def)
    have "doc_members (w1 @ json_write_string (Some k) @ c @ '':'' @ e @ t @ a @ '','' @
        (b @ join_text sep (map (\<lambda>(k, v). QUOTE # k @ QUOTE # colon @ v) kts) @ w2)) ((k, v) # kvs)"
      using Cons False ab ce d plain_key [OF k] by (intro member_more) simp_all
    then show ?thesis by (simp add: us ab(1) ce(1) kt plain_key [OF k])
  qed
qed simp

lemma json_dict_text:
  assumes "list_all2 member_doc kts kvs" and "kvs \<noteq> []" and "json_ws pre" and "json_ws post"
    and "sep_ws CHR '','' sep" and "sep_ws CHR '':'' colon"
  shows "json_text (json_dict pre sep colon post kts) (JSON_OBJECT kvs)"
proof -
  have "json_doc (json_dict pre sep colon post kts) (JSON_OBJECT kvs)"
    using doc_object [OF doc_members_layout [OF assms]] by (simp add: json_dict_def)
  moreover have "\<forall>t \<in> set (map (\<lambda>(k, v). QUOTE # k @ QUOTE # colon @ v) kts). no_nul t"
  proof -
    have "no_nul (QUOTE # k @ QUOTE # colon @ v)" if "member_doc (k, v) kv" for k v kv
      using that plain_key(2) [of k] sep_no_nul [OF assms(6)] by (auto simp: member_doc_def json_text_def)
    with assms(1) show ?thesis by (induction rule: list_all2_induct) auto
  qed
  then have "no_nul (json_dict pre sep colon post kts)"
    using join_text_no_nul [OF sep_no_nul [OF assms(5)]] ws_no_nul [OF assms(3)] ws_no_nul [OF assms(4)]
    unfolding json_dict_def by simp
  ultimately show ?thesis by (simp add: json_text_def)
qed

lemma json_block_text [json_texts]:
  "list_all2 member_doc kts kvs \<Longrightarrow> kvs \<noteq> [] \<Longrightarrow> json_text (json_block n kts) (JSON_OBJECT kvs)"
  unfolding json_block_def by (rule json_dict_text) simp_all

lemma json_inline_text [json_texts]:
  "list_all2 member_doc kts kvs \<Longrightarrow> kvs \<noteq> [] \<Longrightarrow> json_text (json_inline kts) (JSON_OBJECT kvs)"
  unfolding json_inline_def by (rule json_dict_text) simp_all

section \<open>Values\<close>

lemma json_bool_text [simp]: "json_text (json_bool b) (JSON_BOOL b)" "json_text ''null'' JSON_NULL"
  using doc_true doc_false doc_null by (simp_all add: json_text_def json_bool_def NUL_def)

lemma strtod_neg:
  assumes "number_end r"
  shows "strtod (CHR ''-'' # dec n @ r) = Some (dneg (double_of_int (int n)), r)"
proof -
  have "strtod (dec n @ r) = Some (double_of_int (int n), r)" using number_text_dec assms by (simp add: number_text_def)
  moreover have "skip_spaces (dec n @ r) = dec n @ r" "take_sign (dec n @ r) = (False, dec n @ r)"
    using dec_hd [of n] by auto
  moreover have "skip_spaces (CHR ''-'' # dec n @ r) = CHR ''-'' # dec n @ r"
    "take_sign (CHR ''-'' # dec n @ r) = (True, dec n @ r)"
    by (simp_all add: take_sign_def skip_spaces_def is_space_def)
  ultimately show ?thesis by (auto simp: strtod_def)
qed

lemma round_half_even_neg: "round_half_even (- q) = - round_half_even q"
proof -
  define f d where "f = \<lfloor>q\<rfloor>" and "d = q - of_int f"
  have d: "0 \<le> d" "d < 1" unfolding d_def f_def by linarith+
  have q: "q = of_int f + d" by (simp add: d_def)
  show ?thesis
  proof (cases "d = 0")
    case True
    then have "- q = of_int (- f)" "q = of_int f" using q by simp_all
    then show ?thesis using round_half_even_int [of "- f"] round_half_even_int [of f] by metis
  next
    case False
    with d have fl: "\<lfloor>- q\<rfloor> = - f - 1" unfolding q by (intro floor_unique) auto
    show ?thesis
      unfolding round_half_even_def Let_def fl f_def [symmetric] using q by (auto simp: field_simps)
  qed
qed

lemma double_round_neg: "double_round (- q) = dneg (double_round q)"
  by (auto simp: double_round_def Let_def round_half_even_neg)

lemma double_of_int_neg: "dneg (double_of_int i) = double_of_int (- i)"
  by (simp add: double_of_int_def flip: double_round_neg)

lemma json_int_text [simp]: "json_text (dec_int i) (JSON_NUMBER (double_of_int i))"
proof (cases "i < 0")
  case True
  let ?n = "nat (- i)"
  obtain c t where "dec ?n = c # t" "is_digit c" using dec_hd by blast
  then have "number_text (CHR ''-'' # dec ?n) (double_of_int i)"
    using strtod_neg [of _ ?n] True by (simp add: number_text_def double_of_int_neg peek_def)
  then show ?thesis using True by (simp add: json_text_def doc_number dec_int_def NUL_def)
next
  case False
  then show ?thesis using number_doc [of "nat i"] by (simp add: dec_int_def)
qed

lemma json_word_text [simp]: "json_text (u_text w) (JSON_NUMBER (double_of_int (uint w)))"
  using number_doc [of "unat w"] by (simp add: u_text_def)

lemma json_signed_text [simp]: "json_text (d_text w) (JSON_NUMBER (double_of_int (sint w)))"
  by (simp add: d_text_def)

text \<open>A text that a format string writes between quotes needs no escapes.\<close>

definition json_plain :: "string \<Rightarrow> bool" where
  "json_plain s \<longleftrightarrow> (\<forall>c \<in> set s. 32 \<le> char_code c \<and> c \<noteq> QUOTE \<and> c \<noteq> BACKSLASH)"

lemma quoted_text [simp]: "json_plain s \<Longrightarrow> json_text (quoted s) (JSON_STRING s)"
proof -
  assume "json_plain s"
  then have e: "\<forall>c \<in> set s. json_escape c = [c] \<and> c \<noteq> NUL"
    by (auto simp: json_plain_def json_escape_def NUL_def char_code_def LF_def CR_def TAB_def)
  then have n: "no_nul s" by (auto simp: no_nul_def)
  have "concat (map json_escape s) = s" using e by (induction s) auto
  with n have "json_write_string (Some s) = quoted s" by (simp add: json_write_string_def quoted_def)
  with string_text [OF n] show ?thesis by simp
qed

lemma json_plain_append [simp]: "json_plain (a @ b) \<longleftrightarrow> json_plain a \<and> json_plain b"
  by (auto simp: json_plain_def)

lemma plain_digits [simp]: "json_plain (dec n)" "json_plain (pad_left CHR ''0'' w (dec n))"
proof -
  have "is_digit c \<Longrightarrow> 32 \<le> char_code c \<and> c \<noteq> QUOTE \<and> c \<noteq> BACKSLASH" for c
    by (auto simp: is_digit_def)
  moreover have "\<forall>c \<in> set (dec n). is_digit c" "\<forall>c \<in> set (pad_left CHR ''0'' w (dec n)). is_digit c"
    using dec_digits [of n] by (auto simp: pad_left_def is_digit_def)
  ultimately show "json_plain (dec n)" "json_plain (pad_left CHR ''0'' w (dec n))" unfolding json_plain_def by blast+
qed

lemma plain_literals [simp]: "json_plain ''-''" "json_plain '':''" "json_plain ''.''" "json_plain ''T''" "json_plain ''Z''"
  by (simp_all add: json_plain_def char_code_def QUOTE_def BACKSLASH_def)

lemma iso8601_plain [simp]: "json_plain (format_iso8601 ts)" "json_plain (format_run_id ts p)"
proof -
  obtain y m d h i s where g: "gmtime (nat (fst ts)) = [y, m, d, h, i, s]" by (rule gmtime_parts) blast
  have l: "json_plain (CHR ''-'' # s) \<longleftrightarrow> json_plain s" "json_plain (CHR '':'' # s) \<longleftrightarrow> json_plain s"
    "json_plain (CHR ''.'' # s) \<longleftrightarrow> json_plain s" "json_plain (CHR ''T'' # s) \<longleftrightarrow> json_plain s" for s
    by (simp_all add: json_plain_def char_code_def QUOTE_def BACKSLASH_def)
  show "json_plain (format_iso8601 ts)" "json_plain (format_run_id ts p)"
    by (simp_all add: format_iso8601_def format_run_id_def g two_def ms_text_def l)
qed

end
