(* ===== verification/Manifest.thy ===== *)
theory Manifest
  imports Provenance Json_Layout Coverage
begin

text \<open>
  The run manifest (src/manifest.c) and the run index (src/run_index.c): the record of a run and the two JSON
  documents written from it, one laid out over many lines, one on a single line that is appended to a shared file.
  The functions give the text that is written. What \<open>gethostname\<close>, \<open>uname\<close>, \<open>getpid\<close>, the clock and \<open>strerror\<close>
  answer are fields of the environment, as is the host's \<open>cpu_info\<close>.
\<close>

section \<open>The record of a run\<close>

record exit_status =
  ex_known :: bool
  ex_exited :: bool
  ex_exit_code :: int
  ex_signaled :: bool
  ex_term_signal :: int

record counter_gap =
  gap_group :: string
  gap_counter :: string
  gap_errno :: int

record config_provenance =
  cp_preset :: "string option"
  cp_configuration :: "string option"
  cp_options :: "(string \<times> string) list"

record cgroup_record =
  cr_available :: bool
  cr_path :: "string option"
  cr_cpu_max_available :: bool
  cr_cpu_quota_us :: int
  cr_cpu_period_us :: int
  cr_cpu_weight_available :: bool
  cr_cpu_weight :: int
  cr_memory_max_available :: bool
  cr_memory_max_bytes :: int
  cr_memory_high_available :: bool
  cr_memory_high_bytes :: int
  cr_throttle_available :: bool
  cr_nr_periods_delta :: u64
  cr_nr_throttled_delta :: u64
  cr_throttled_usec_delta :: u64

record gpu_record =
  gp_busy_requested :: bool
  gp_metrics_requested :: bool
  gp_smi_requested :: bool
  gp_nvidia_requested :: bool
  gp_amd_device_index :: int
  gp_nvidia_device_index :: int
  gp_amd_sysfs_busy_valid :: bool
  gp_amd_sysfs_metrics_valid :: bool
  gp_amd_smi_metrics_valid :: bool
  gp_amd_smi_memory_valid :: bool
  gp_nvidia_metrics_valid :: bool

record pass_record =
  ps_counter_mask :: u32
  ps_counters_requested :: int
  ps_counters_measured :: int
  ps_start_time :: "int \<times> int"
  ps_finish_time :: "int \<times> int"
  ps_exit_status :: exit_status

record manifest_info =
  mf_collector :: "string option"
  mf_start_time :: "int \<times> int"
  mf_finish_time :: "int \<times> int"
  mf_argv :: "string list"
  mf_exit_status :: exit_status
  mf_counter_mask :: u32
  mf_aflag :: bool
  mf_sflag :: bool
  mf_csvflag :: bool
  mf_treeflag :: bool
  mf_interval :: int
  mf_output_path :: "string option"
  mf_text_output_path :: "string option"
  mf_tree_output_path :: "string option"
  mf_manifest_path :: "string option"
  mf_affinity_mode :: "string option"
  mf_affinity_requested :: "string option"
  mf_affinity_cpus :: "string option"
  mf_counters_requested :: int
  mf_counters_measured :: int
  mf_counters_unavailable :: "counter_gap list"
  mf_topdown_formula_version :: "string option"
  mf_passes :: "pass_record list"
  mf_provenance :: provenance_info
  mf_config_provenance :: config_provenance
  mf_gpu :: gpu_record
  mf_cgroup :: cgroup_record

record manifest_env =
  mv_now :: "int \<times> int"
  mv_hostname :: "string option"
  mv_release :: "string option"
  mv_pid :: nat
  mv_strerror :: "int \<Rightarrow> string"
  mv_vendor :: cpu_vendor
  mv_family :: u32
  mv_model :: u32
  mv_num_cores :: u32
  mv_num_cores_available :: u32
  mv_is_hybrid :: bool

section \<open>Pieces\<close>

definition cpu_vendor_name :: "cpu_vendor \<Rightarrow> string" where
  "cpu_vendor_name v =
     (case v of VENDOR_AMD \<Rightarrow> ''AMD'' | VENDOR_INTEL \<Rightarrow> ''Intel'' | VENDOR_ARM \<Rightarrow> ''ARM'' | VENDOR_UNKNOWN \<Rightarrow> ''unknown'')"

definition MANIFEST_SCHEMA_VERSION :: string where "MANIFEST_SCHEMA_VERSION = ''1.10.0''"
definition RUN_INDEX_SCHEMA_VERSION :: string where "RUN_INDEX_SCHEMA_VERSION = ''1.10.0''"

definition wspy_version :: string where "wspy_version = ''4.3''"

definition json_str :: "string \<Rightarrow> string" where
  "json_str s = json_write_string (Some s)"

definition mask_text :: "u32 \<Rightarrow> string" where
  "mask_text m = ''0x'' @ lx_text m"

definition manifest_elapsed :: "manifest_info \<Rightarrow> double" where
  "manifest_elapsed info =
     dadd (double_of_int (fst (mf_finish_time info) - fst (mf_start_time info)))
       (ddiv (double_of_int (snd (mf_finish_time info) - snd (mf_start_time info))) (Fin 1000000000))"

definition manifest_hostname :: "manifest_env \<Rightarrow> string" where
  "manifest_hostname e = (case mv_hostname e of None \<Rightarrow> ''unknown'' | Some h \<Rightarrow> take 255 h)"

definition manifest_release :: "manifest_env \<Rightarrow> string" where
  "manifest_release e = (case mv_release e of None \<Rightarrow> ''unknown'' | Some r \<Rightarrow> r)"

definition manifest_collector :: "manifest_info \<Rightarrow> string" where
  "manifest_collector info = (case mf_collector info of None \<Rightarrow> ''wspy'' | Some c \<Rightarrow> c)"

definition exit_status_fields :: "exit_status \<Rightarrow> (string \<times> string) list" where
  "exit_status_fields es =
     (''known'', json_bool (ex_known es)) #
     (if ex_known es then
        [(''exited'', json_bool (ex_exited es)),
         (''exit_code'', if ex_exited es then dec_int (ex_exit_code es) else ''null''),
         (''signaled'', json_bool (ex_signaled es)),
         (''term_signal'', if ex_signaled es then dec_int (ex_term_signal es) else ''null'')]
      else
        [(''exited'', ''null''), (''exit_code'', ''null''), (''signaled'', ''null''), (''term_signal'', ''null'')])"

definition provenance_text :: "bool \<Rightarrow> provenance_field \<Rightarrow> string" where
  "provenance_text as_number f =
     (if \<not> pf_available f then ''null'' else if as_number then pf_value f else json_str (pf_value f))"

definition environment_fields :: "provenance_info \<Rightarrow> (string \<times> string) list" where
  "environment_fields prov =
     [(''virt_role'', provenance_text False (pvi_virt_role prov)),
      (''hypervisor_vendor'', provenance_text False (pvi_hypervisor_vendor prov)),
      (''microcode_version'', provenance_text False (pvi_microcode_version prov)),
      (''bios_vendor'', provenance_text False (pvi_bios_vendor prov)),
      (''bios_version'', provenance_text False (pvi_bios_version prov)),
      (''bios_date'', provenance_text False (pvi_bios_date prov)),
      (''cpu_governor'', provenance_text False (pvi_cpu_governor prov)),
      (''cpu_scaling_driver'', provenance_text False (pvi_cpu_scaling_driver prov)),
      (''cpu_governor_uniform'',
       if pf_available (pvi_cpu_governor prov) then json_bool (pvi_cpu_governor_uniform prov) else ''null''),
      (''memory_total_kb'', provenance_text True (pvi_mem_total_kb prov)),
      (''compiler_version'', provenance_text False (pvi_compiler_version prov)),
      (''libc_version'', provenance_text False (pvi_libc_version prov))]"

text \<open>A limit: whether it is available, and then its values.\<close>

definition limit_fields :: "bool \<Rightarrow> (string \<times> string) list \<Rightarrow> (string \<times> string) list" where
  "limit_fields available kts = (''available'', json_bool available) # (if available then kts else [])"

definition cpu_max_fields :: "cgroup_record \<Rightarrow> (string \<times> string) list" where
  "cpu_max_fields cg =
     limit_fields (cr_cpu_max_available cg)
       [(''quota_us'', dec_int (cr_cpu_quota_us cg)), (''period_us'', dec_int (cr_cpu_period_us cg))]"

definition throttle_fields :: "cgroup_record \<Rightarrow> (string \<times> string) list" where
  "throttle_fields cg =
     limit_fields (cr_throttle_available cg)
       [(''nr_periods_delta'', u_text (cr_nr_periods_delta cg)),
        (''nr_throttled_delta'', u_text (cr_nr_throttled_delta cg)),
        (''throttled_usec_delta'', u_text (cr_throttled_usec_delta cg))]"

text \<open>The object of a cgroup; \<open>obj\<close> lays out the objects in it.\<close>

definition cgroup_fields :: "((string \<times> string) list \<Rightarrow> string) \<Rightarrow> cgroup_record \<Rightarrow> (string \<times> string) list" where
  "cgroup_fields obj cg =
     [(''available'', json_bool (cr_available cg)),
      (''path'', json_write_string_or_null (cr_path cg)),
      (''cpu_max'', obj (cpu_max_fields cg)),
      (''cpu_weight'', obj (limit_fields (cr_cpu_weight_available cg) [(''value'', dec_int (cr_cpu_weight cg))])),
      (''memory_max_bytes'',
       obj (limit_fields (cr_memory_max_available cg) [(''value'', dec_int (cr_memory_max_bytes cg))])),
      (''memory_high_bytes'',
       obj (limit_fields (cr_memory_high_available cg) [(''value'', dec_int (cr_memory_high_bytes cg))])),
      (''throttle'', obj (throttle_fields cg))]"

definition device_text :: "bool \<Rightarrow> int \<Rightarrow> string" where
  "device_text requested i = (if requested \<and> i \<ge> 0 then dec_int i else ''null'')"

definition gpu_fields :: "((string \<times> string) list \<Rightarrow> string) \<Rightarrow> gpu_record \<Rightarrow> (string \<times> string) list" where
  "gpu_fields obj gpu =
     [(''requested'', obj
        [(''busy'', json_bool (gp_busy_requested gpu)), (''metrics'', json_bool (gp_metrics_requested gpu)),
         (''smi'', json_bool (gp_smi_requested gpu)), (''nvidia'', json_bool (gp_nvidia_requested gpu))]),
      (''amd_device_index'', device_text (gp_busy_requested gpu \<or> gp_metrics_requested gpu \<or> gp_smi_requested gpu)
         (gp_amd_device_index gpu)),
      (''nvidia_device_index'', device_text (gp_nvidia_requested gpu) (gp_nvidia_device_index gpu)),
      (''backend_valid'', obj
        [(''amd_sysfs_busy'', json_bool (gp_amd_sysfs_busy_valid gpu)),
         (''amd_sysfs_metrics'', json_bool (gp_amd_sysfs_metrics_valid gpu)),
         (''amd_smi_metrics'', json_bool (gp_amd_smi_metrics_valid gpu)),
         (''amd_smi_memory'', json_bool (gp_amd_smi_memory_valid gpu)),
         (''nvidia_metrics'', json_bool (gp_nvidia_metrics_valid gpu))])]"

definition affinity_fields :: "manifest_info \<Rightarrow> (string \<times> string) list" where
  "affinity_fields info =
     [(''requested'', json_write_string_or_null (mf_affinity_requested info)),
      (''mode'', json_str (case mf_affinity_mode info of None \<Rightarrow> ''all'' | Some m \<Rightarrow> m)),
      (''cpus'', json_str (case mf_affinity_cpus info of None \<Rightarrow> '''' | Some c \<Rightarrow> c))]"

definition options_fields ::
  "((string \<times> string) list \<Rightarrow> string) \<Rightarrow> ((string \<times> string) list \<Rightarrow> string) \<Rightarrow> manifest_info \<Rightarrow> (string \<times> string) list"
where
  "options_fields obj inner info =
     [(''counter_mask'', quoted (mask_text (mf_counter_mask info))),
      (''per_core'', json_bool (mf_aflag info)), (''system'', json_bool (mf_sflag info)),
      (''csv'', json_bool (mf_csvflag info)), (''tree'', json_bool (mf_treeflag info)),
      (''interval_seconds'', dec_int (mf_interval info)),
      (''affinity'', obj (affinity_fields info)),
      (''gpu'', obj (gpu_fields inner (mf_gpu info)))]"

section \<open>The manifest\<close>

text \<open>An array with a row for each item, nothing but the newline if there are none.\<close>

definition json_rows :: "nat \<Rightarrow> string \<Rightarrow> nat \<Rightarrow> string list \<Rightarrow> string" where
  "json_rows n sep m ts =
     (if ts = [] then json_list newline sep (blanks m) []
      else json_list (newline @ blanks n) sep (newline @ blanks m) ts)"

text \<open>The separator of the lists of gaps, which puts the comma behind the indentation of the next row.\<close>

definition gap_sep :: string where "gap_sep = blanks 5 @ '','' @ newline"

definition row_sep :: "nat \<Rightarrow> string" where "row_sep n = '','' @ newline @ blanks n"

definition gap_rows :: "provenance_info \<Rightarrow> string list" where
  "gap_rows prov =
     map (\<lambda>(name, reason). json_inline [(''field'', json_str name), (''reason'', json_str reason)]) (provenance_gaps prov)"

definition coverage_fields :: "provenance_info \<Rightarrow> (string \<times> string) list" where
  "coverage_fields prov =
     [(''captured'', dec_int (int PROVENANCE_TRACKED_FIELD_COUNT - int (length (provenance_gaps prov)))),
      (''probed'', dec_int (int PROVENANCE_TRACKED_FIELD_COUNT)),
      (''unavailable'', json_rows 5 gap_sep 4 (gap_rows prov))]"

definition config_fields :: "config_provenance \<Rightarrow> (string \<times> string) list" where
  "config_fields cp =
     [(''preset'', json_write_string_or_null (cp_preset cp)),
      (''configuration'', json_write_string_or_null (cp_configuration cp)),
      (''options'', json_rows 5 (row_sep 5) 4
         (map (\<lambda>(name, v). json_inline [(''name'', json_str name), (''value'', json_str v)]) (cp_options cp)))]"

definition counter_coverage_fields :: "manifest_env \<Rightarrow> manifest_info \<Rightarrow> (string \<times> string) list" where
  "counter_coverage_fields e info =
     [(''requested'', dec_int (mf_counters_requested info)),
      (''measured'', dec_int (mf_counters_measured info)),
      (''unavailable'', json_rows 5 gap_sep 4
         (map (\<lambda>g. json_inline
            [(''group'', json_str (gap_group g)), (''counter'', json_str (gap_counter g)),
             (''errno'', dec_int (gap_errno g)), (''reason'', json_str (mv_strerror e (gap_errno g)))])
            (mf_counters_unavailable info)))]"

definition pass_fields :: "pass_record \<Rightarrow> (string \<times> string) list" where
  "pass_fields mp =
     [(''counter_mask'', quoted (mask_text (ps_counter_mask mp))),
      (''counters_requested'', dec_int (ps_counters_requested mp)),
      (''counters_measured'', dec_int (ps_counters_measured mp)),
      (''start_time'', quoted (format_iso8601 (ps_start_time mp))),
      (''finish_time'', quoted (format_iso8601 (ps_finish_time mp))),
      (''exit_status'', json_block 6 (exit_status_fields (ps_exit_status mp)))]"

text \<open>The output files that were used, with their kinds.\<close>

definition output_files :: "manifest_info \<Rightarrow> (string \<times> string) list" where
  "output_files info =
     List.map_filter (\<lambda>(kind, path). map_option (Pair kind) path)
       [(''output'', mf_output_path info), (''text_output'', mf_text_output_path info),
        (''tree'', mf_tree_output_path info), (''manifest'', mf_manifest_path info)]"

definition output_rows :: "(string \<times> string) list \<Rightarrow> string" where
  "output_rows files =
     (let ts = map (\<lambda>(kind, path). json_inline [(''kind'', quoted kind), (''path'', json_str path)]) files in
      json_list (newline @ (if ts = [] then [] else blanks 4)) (row_sep 4) (newline @ blanks 2) ts)"

definition host_fields :: "manifest_env \<Rightarrow> (string \<times> string) list" where
  "host_fields e =
     [(''hostname'', json_str (manifest_hostname e)), (''kernel_release'', json_str (manifest_release e)),
      (''cpu_vendor'', json_str (cpu_vendor_name (mv_vendor e))), (''cpu_family'', u_text (mv_family e)),
      (''cpu_model'', u_text (mv_model e)), (''num_cores'', u_text (mv_num_cores e)),
      (''num_cores_available'', u_text (mv_num_cores_available e)), (''is_hybrid'', json_bool (mv_is_hybrid e))]"

definition manifest_fields :: "manifest_env \<Rightarrow> manifest_info \<Rightarrow> (string \<times> string) list" where
  "manifest_fields e info =
     [(''schema_version'', quoted MANIFEST_SCHEMA_VERSION),
      (''collector'', quoted (manifest_collector info)),
      (''wspy_version'', quoted wspy_version),
      (''generated_at'', quoted (format_iso8601 (mv_now e))),
      (''command'', json_block 2 [(''argv'', json_list [] '', '' [] (map json_str (mf_argv info)))]),
      (''timing'', json_block 2
         [(''start_time'', quoted (format_iso8601 (mf_start_time info))),
          (''finish_time'', quoted (format_iso8601 (mf_finish_time info))),
          (''elapsed_seconds'', fmt_fixed 3 (manifest_elapsed info))]),
      (''exit_status'', json_block 2 (exit_status_fields (mf_exit_status info))),
      (''host'', json_block 2 (host_fields e)),
      (''environment'', json_block 2 (environment_fields (mf_provenance info))),
      (''environment_coverage'', json_block 2 (coverage_fields (mf_provenance info))),
      (''cgroup'', json_block 2 (cgroup_fields json_inline (mf_cgroup info))),
      (''configuration_provenance'', json_block 2 (config_fields (mf_config_provenance info))),
      (''options'', json_block 2 (options_fields (json_block 4) (json_block 6) info)),
      (''counter_coverage'', json_block 2 (counter_coverage_fields e info)),
      (''topdown_formula_version'', json_write_string_or_null (mf_topdown_formula_version info)),
      (''passes'', json_rows 4 (row_sep 4) 2 (map (\<lambda>mp. json_block 4 (pass_fields mp)) (mf_passes info))),
      (''output_files'', output_rows (output_files info))]"

text \<open>The text of the file; \<open>None\<close> if it cannot be opened.\<close>

definition write_manifest :: "bool \<Rightarrow> manifest_env \<Rightarrow> manifest_info \<Rightarrow> string option" where
  "write_manifest opens e info =
     (if opens then Some (json_block 0 (manifest_fields e info) @ newline) else None)"

section \<open>The run index\<close>

definition index_pass :: "pass_record \<Rightarrow> string" where
  "index_pass mp =
     json_object
       [(''counter_mask'', quoted (mask_text (ps_counter_mask mp))),
        (''counters_requested'', dec_int (ps_counters_requested mp)),
        (''counters_measured'', dec_int (ps_counters_measured mp))]"

definition index_fields :: "manifest_env \<Rightarrow> manifest_info \<Rightarrow> (string \<times> string) list" where
  "index_fields e info =
     [(''schema_version'', quoted RUN_INDEX_SCHEMA_VERSION),
      (''run_id'', quoted (format_run_id (mf_start_time info) (mv_pid e))),
      (''collector'', quoted (manifest_collector info)),
      (''wspy_version'', quoted wspy_version),
      (''hostname'', json_str (manifest_hostname e)),
      (''cpu_vendor'', json_str (cpu_vendor_name (mv_vendor e))),
      (''cpu_family'', u_text (mv_family e)),
      (''cpu_model'', u_text (mv_model e)),
      (''environment'', json_object (environment_fields (mf_provenance info))),
      (''environment_coverage'', json_object
        [(''captured'', dec_int (int (provenance_count_available (mf_provenance info)))),
         (''probed'', dec_int (int PROVENANCE_TRACKED_FIELD_COUNT))]),
      (''cgroup'', json_object (cgroup_fields json_object (mf_cgroup info))),
      (''start_time'', quoted (format_iso8601 (mf_start_time info))),
      (''finish_time'', quoted (format_iso8601 (mf_finish_time info))),
      (''elapsed_seconds'', fmt_fixed 3 (manifest_elapsed info)),
      (''command'', json_array (map json_str (mf_argv info))),
      (''exit_status'', json_object (exit_status_fields (mf_exit_status info))),
      (''options'', json_object (options_fields json_object json_object info)),
      (''configuration_provenance'', json_object
        [(''preset'', json_write_string_or_null (cp_preset (mf_config_provenance info))),
         (''configuration'', json_write_string_or_null (cp_configuration (mf_config_provenance info))),
         (''options'', json_array
           (map (\<lambda>(name, v). json_object [(''name'', json_str name), (''value'', json_str v)])
             (cp_options (mf_config_provenance info))))]),
      (''counter_coverage'', json_object
        [(''requested'', dec_int (mf_counters_requested info)), (''measured'', dec_int (mf_counters_measured info))]),
      (''topdown_formula_version'', json_write_string_or_null (mf_topdown_formula_version info)),
      (''passes'', json_array (map index_pass (mf_passes info))),
      (''output_files'', json_object
        [(''output_path'', json_write_string_or_null (mf_output_path info)),
         (''text_output_path'', json_write_string_or_null (mf_text_output_path info)),
         (''tree_output_path'', json_write_string_or_null (mf_tree_output_path info)),
         (''manifest_path'', json_write_string_or_null (mf_manifest_path info))])]"

definition index_record :: "manifest_env \<Rightarrow> manifest_info \<Rightarrow> string" where
  "index_record e info = json_object (index_fields e info) @ newline"

text \<open>The result and the file afterwards; the record is appended while the lock is held.\<close>

definition append_run_index :: "bool \<Rightarrow> bool \<Rightarrow> manifest_env \<Rightarrow> manifest_info \<Rightarrow> string \<Rightarrow> int \<times> string" where
  "append_run_index opens locks e info contents =
     (if \<not> opens then (-1, contents)
      else if \<not> locks then (-1, contents)
      else (0, contents @ index_record e info))"

end
