(* ===== verification/Manifest_Facts.thy ===== *)
theory Manifest_Facts
  imports Manifest
begin

text \<open>
  The manifest and the run index are documents of the JSON reader: reading them back gives the value meant, field by
  field, whatever the strings in them.
\<close>

section \<open>The values meant\<close>

abbreviation json_of_int :: "int \<Rightarrow> json_value" where "json_of_int i \<equiv> JSON_NUMBER (double_of_int i)"
abbreviation json_of_word :: "'a :: len word \<Rightarrow> json_value" where "json_of_word w \<equiv> json_of_int (uint w)"

definition json_of_option :: "string option \<Rightarrow> json_value" where
  "json_of_option s = (case s of None \<Rightarrow> JSON_NULL | Some t \<Rightarrow> JSON_STRING t)"

definition exit_status_json :: "exit_status \<Rightarrow> (string \<times> json_value) list" where
  "exit_status_json es =
     (''known'', JSON_BOOL (ex_known es)) #
     (if ex_known es then
        [(''exited'', JSON_BOOL (ex_exited es)),
         (''exit_code'', if ex_exited es then json_of_int (ex_exit_code es) else JSON_NULL),
         (''signaled'', JSON_BOOL (ex_signaled es)),
         (''term_signal'', if ex_signaled es then json_of_int (ex_term_signal es) else JSON_NULL)]
      else
        [(''exited'', JSON_NULL), (''exit_code'', JSON_NULL), (''signaled'', JSON_NULL), (''term_signal'', JSON_NULL)])"

definition provenance_json :: "bool \<Rightarrow> provenance_field \<Rightarrow> json_value" where
  "provenance_json as_number f =
     (if \<not> pf_available f then JSON_NULL
      else if as_number then json_of_int (int (digits_value 10 (pf_value f)))
      else JSON_STRING (pf_value f))"

definition environment_json :: "provenance_info \<Rightarrow> (string \<times> json_value) list" where
  "environment_json prov =
     [(''virt_role'', provenance_json False (pvi_virt_role prov)),
      (''hypervisor_vendor'', provenance_json False (pvi_hypervisor_vendor prov)),
      (''microcode_version'', provenance_json False (pvi_microcode_version prov)),
      (''bios_vendor'', provenance_json False (pvi_bios_vendor prov)),
      (''bios_version'', provenance_json False (pvi_bios_version prov)),
      (''bios_date'', provenance_json False (pvi_bios_date prov)),
      (''cpu_governor'', provenance_json False (pvi_cpu_governor prov)),
      (''cpu_scaling_driver'', provenance_json False (pvi_cpu_scaling_driver prov)),
      (''cpu_governor_uniform'',
       if pf_available (pvi_cpu_governor prov) then JSON_BOOL (pvi_cpu_governor_uniform prov) else JSON_NULL),
      (''memory_total_kb'', provenance_json True (pvi_mem_total_kb prov)),
      (''compiler_version'', provenance_json False (pvi_compiler_version prov)),
      (''libc_version'', provenance_json False (pvi_libc_version prov))]"

definition limit_json :: "bool \<Rightarrow> (string \<times> json_value) list \<Rightarrow> json_value" where
  "limit_json available kvs = JSON_OBJECT ((''available'', JSON_BOOL available) # (if available then kvs else []))"

definition cgroup_json :: "cgroup_record \<Rightarrow> (string \<times> json_value) list" where
  "cgroup_json cg =
     [(''available'', JSON_BOOL (cr_available cg)),
      (''path'', json_of_option (cr_path cg)),
      (''cpu_max'', limit_json (cr_cpu_max_available cg)
        [(''quota_us'', json_of_int (cr_cpu_quota_us cg)), (''period_us'', json_of_int (cr_cpu_period_us cg))]),
      (''cpu_weight'', limit_json (cr_cpu_weight_available cg) [(''value'', json_of_int (cr_cpu_weight cg))]),
      (''memory_max_bytes'', limit_json (cr_memory_max_available cg) [(''value'', json_of_int (cr_memory_max_bytes cg))]),
      (''memory_high_bytes'', limit_json (cr_memory_high_available cg) [(''value'', json_of_int (cr_memory_high_bytes cg))]),
      (''throttle'', limit_json (cr_throttle_available cg)
        [(''nr_periods_delta'', json_of_word (cr_nr_periods_delta cg)),
         (''nr_throttled_delta'', json_of_word (cr_nr_throttled_delta cg)),
         (''throttled_usec_delta'', json_of_word (cr_throttled_usec_delta cg))])]"

definition device_json :: "bool \<Rightarrow> int \<Rightarrow> json_value" where
  "device_json requested i = (if requested \<and> i \<ge> 0 then json_of_int i else JSON_NULL)"

definition gpu_json :: "gpu_record \<Rightarrow> json_value" where
  "gpu_json gpu =
     JSON_OBJECT
       [(''requested'', JSON_OBJECT
          [(''busy'', JSON_BOOL (gp_busy_requested gpu)), (''metrics'', JSON_BOOL (gp_metrics_requested gpu)),
           (''smi'', JSON_BOOL (gp_smi_requested gpu)), (''nvidia'', JSON_BOOL (gp_nvidia_requested gpu))]),
        (''amd_device_index'', device_json (gp_busy_requested gpu \<or> gp_metrics_requested gpu \<or> gp_smi_requested gpu)
           (gp_amd_device_index gpu)),
        (''nvidia_device_index'', device_json (gp_nvidia_requested gpu) (gp_nvidia_device_index gpu)),
        (''backend_valid'', JSON_OBJECT
          [(''amd_sysfs_busy'', JSON_BOOL (gp_amd_sysfs_busy_valid gpu)),
           (''amd_sysfs_metrics'', JSON_BOOL (gp_amd_sysfs_metrics_valid gpu)),
           (''amd_smi_metrics'', JSON_BOOL (gp_amd_smi_metrics_valid gpu)),
           (''amd_smi_memory'', JSON_BOOL (gp_amd_smi_memory_valid gpu)),
           (''nvidia_metrics'', JSON_BOOL (gp_nvidia_metrics_valid gpu))])]"

definition options_json :: "manifest_info \<Rightarrow> (string \<times> json_value) list" where
  "options_json info =
     [(''counter_mask'', JSON_STRING (mask_text (mf_counter_mask info))),
      (''per_core'', JSON_BOOL (mf_aflag info)), (''system'', JSON_BOOL (mf_sflag info)),
      (''csv'', JSON_BOOL (mf_csvflag info)), (''tree'', JSON_BOOL (mf_treeflag info)),
      (''interval_seconds'', json_of_int (mf_interval info)),
      (''affinity'', JSON_OBJECT
        [(''requested'', json_of_option (mf_affinity_requested info)),
         (''mode'', JSON_STRING (case mf_affinity_mode info of None \<Rightarrow> ''all'' | Some m \<Rightarrow> m)),
         (''cpus'', JSON_STRING (case mf_affinity_cpus info of None \<Rightarrow> '''' | Some c \<Rightarrow> c))]),
      (''gpu'', gpu_json (mf_gpu info))]"

definition config_json :: "config_provenance \<Rightarrow> json_value" where
  "config_json cp =
     JSON_OBJECT
       [(''preset'', json_of_option (cp_preset cp)), (''configuration'', json_of_option (cp_configuration cp)),
        (''options'', JSON_ARRAY
          (map (\<lambda>(name, v). JSON_OBJECT [(''name'', JSON_STRING name), (''value'', JSON_STRING v)]) (cp_options cp)))]"

definition gap_json :: "manifest_env \<Rightarrow> counter_gap \<Rightarrow> json_value" where
  "gap_json e g =
     JSON_OBJECT
       [(''group'', JSON_STRING (gap_group g)), (''counter'', JSON_STRING (gap_counter g)),
        (''errno'', json_of_int (gap_errno g)), (''reason'', JSON_STRING (mv_strerror e (gap_errno g)))]"

definition pass_json :: "pass_record \<Rightarrow> json_value" where
  "pass_json mp =
     JSON_OBJECT
       [(''counter_mask'', JSON_STRING (mask_text (ps_counter_mask mp))),
        (''counters_requested'', json_of_int (ps_counters_requested mp)),
        (''counters_measured'', json_of_int (ps_counters_measured mp)),
        (''start_time'', JSON_STRING (format_iso8601 (ps_start_time mp))),
        (''finish_time'', JSON_STRING (format_iso8601 (ps_finish_time mp))),
        (''exit_status'', JSON_OBJECT (exit_status_json (ps_exit_status mp)))]"

definition elapsed_json :: "manifest_info \<Rightarrow> json_value" where
  "elapsed_json info = JSON_NUMBER (case manifest_elapsed info of Fin q \<Rightarrow> printed_value 3 q | d \<Rightarrow> d)"

definition manifest_json :: "manifest_env \<Rightarrow> manifest_info \<Rightarrow> json_value" where
  "manifest_json e info =
     JSON_OBJECT
       [(''schema_version'', JSON_STRING MANIFEST_SCHEMA_VERSION),
        (''collector'', JSON_STRING (manifest_collector info)),
        (''wspy_version'', JSON_STRING wspy_version),
        (''generated_at'', JSON_STRING (format_iso8601 (mv_now e))),
        (''command'', JSON_OBJECT [(''argv'', JSON_ARRAY (map JSON_STRING (mf_argv info)))]),
        (''timing'', JSON_OBJECT
          [(''start_time'', JSON_STRING (format_iso8601 (mf_start_time info))),
           (''finish_time'', JSON_STRING (format_iso8601 (mf_finish_time info))),
           (''elapsed_seconds'', elapsed_json info)]),
        (''exit_status'', JSON_OBJECT (exit_status_json (mf_exit_status info))),
        (''host'', JSON_OBJECT
          [(''hostname'', JSON_STRING (manifest_hostname e)), (''kernel_release'', JSON_STRING (manifest_release e)),
           (''cpu_vendor'', JSON_STRING (cpu_vendor_name (mv_vendor e))), (''cpu_family'', json_of_word (mv_family e)),
           (''cpu_model'', json_of_word (mv_model e)), (''num_cores'', json_of_word (mv_num_cores e)),
           (''num_cores_available'', json_of_word (mv_num_cores_available e)),
           (''is_hybrid'', JSON_BOOL (mv_is_hybrid e))]),
        (''environment'', JSON_OBJECT (environment_json (mf_provenance info))),
        (''environment_coverage'', JSON_OBJECT
          [(''captured'', json_of_int (9 - int (length (provenance_gaps (mf_provenance info))))),
           (''probed'', json_of_int 9),
           (''unavailable'', JSON_ARRAY (map (\<lambda>(name, reason).
              JSON_OBJECT [(''field'', JSON_STRING name), (''reason'', JSON_STRING reason)])
              (provenance_gaps (mf_provenance info))))]),
        (''cgroup'', JSON_OBJECT (cgroup_json (mf_cgroup info))),
        (''configuration_provenance'', config_json (mf_config_provenance info)),
        (''options'', JSON_OBJECT (options_json info)),
        (''counter_coverage'', JSON_OBJECT
          [(''requested'', json_of_int (mf_counters_requested info)), (''measured'', json_of_int (mf_counters_measured info)),
           (''unavailable'', JSON_ARRAY (map (gap_json e) (mf_counters_unavailable info)))]),
        (''topdown_formula_version'', json_of_option (mf_topdown_formula_version info)),
        (''passes'', JSON_ARRAY (map pass_json (mf_passes info))),
        (''output_files'', JSON_ARRAY (map (\<lambda>(kind, path).
          JSON_OBJECT [(''kind'', JSON_STRING kind), (''path'', JSON_STRING path)]) (output_files info)))]"

definition index_json :: "manifest_env \<Rightarrow> manifest_info \<Rightarrow> json_value" where
  "index_json e info =
     JSON_OBJECT
       [(''schema_version'', JSON_STRING RUN_INDEX_SCHEMA_VERSION),
        (''run_id'', JSON_STRING (format_run_id (mf_start_time info) (mv_pid e))),
        (''collector'', JSON_STRING (manifest_collector info)),
        (''wspy_version'', JSON_STRING wspy_version),
        (''hostname'', JSON_STRING (manifest_hostname e)),
        (''cpu_vendor'', JSON_STRING (cpu_vendor_name (mv_vendor e))),
        (''cpu_family'', json_of_word (mv_family e)),
        (''cpu_model'', json_of_word (mv_model e)),
        (''environment'', JSON_OBJECT (environment_json (mf_provenance info))),
        (''environment_coverage'', JSON_OBJECT
          [(''captured'', json_of_int (int (provenance_count_available (mf_provenance info)))),
           (''probed'', json_of_int 9)]),
        (''cgroup'', JSON_OBJECT (cgroup_json (mf_cgroup info))),
        (''start_time'', JSON_STRING (format_iso8601 (mf_start_time info))),
        (''finish_time'', JSON_STRING (format_iso8601 (mf_finish_time info))),
        (''elapsed_seconds'', elapsed_json info),
        (''command'', JSON_ARRAY (map JSON_STRING (mf_argv info))),
        (''exit_status'', JSON_OBJECT (exit_status_json (mf_exit_status info))),
        (''options'', JSON_OBJECT (options_json info)),
        (''configuration_provenance'', config_json (mf_config_provenance info)),
        (''counter_coverage'', JSON_OBJECT
          [(''requested'', json_of_int (mf_counters_requested info)),
           (''measured'', json_of_int (mf_counters_measured info))]),
        (''topdown_formula_version'', json_of_option (mf_topdown_formula_version info)),
        (''passes'', JSON_ARRAY (map (\<lambda>mp. JSON_OBJECT
          [(''counter_mask'', JSON_STRING (mask_text (ps_counter_mask mp))),
           (''counters_requested'', json_of_int (ps_counters_requested mp)),
           (''counters_measured'', json_of_int (ps_counters_measured mp))]) (mf_passes info))),
        (''output_files'', JSON_OBJECT
          [(''output_path'', json_of_option (mf_output_path info)),
           (''text_output_path'', json_of_option (mf_text_output_path info)),
           (''tree_output_path'', json_of_option (mf_tree_output_path info)),
           (''manifest_path'', json_of_option (mf_manifest_path info))])]"

text \<open>What the writer relies on: C strings, a collector name that needs no escapes, provenance as
  \<open>provenance_collect\<close> gives it, times whose difference is finite.\<close>

definition manifest_ok :: "manifest_env \<Rightarrow> manifest_info \<Rightarrow> bool" where
  "manifest_ok e info \<longleftrightarrow>
     pred_option no_nul (mv_hostname e) \<and> pred_option no_nul (mv_release e) \<and> (\<forall>n. no_nul (mv_strerror e n)) \<and>
     json_plain (manifest_collector info) \<and> list_all no_nul (mf_argv info) \<and>
     list_all (pred_option no_nul)
       [mf_output_path info, mf_text_output_path info, mf_tree_output_path info, mf_manifest_path info,
        mf_affinity_mode info, mf_affinity_requested info, mf_affinity_cpus info, mf_topdown_formula_version info,
        cp_preset (mf_config_provenance info), cp_configuration (mf_config_provenance info), cr_path (mf_cgroup info)] \<and>
     list_all (\<lambda>g. no_nul (gap_group g) \<and> no_nul (gap_counter g)) (mf_counters_unavailable info) \<and>
     list_all (\<lambda>(name, v). no_nul name \<and> no_nul v) (cp_options (mf_config_provenance info)) \<and>
     provenance_ok (mf_provenance info) \<and> (\<exists>q. manifest_elapsed info = Fin q)"

section \<open>Each text is the document of its value\<close>

lemma plain_words [simp]:
  "plain_word ''known''" "plain_word ''exited''" "plain_word ''exit_code''" "plain_word ''signaled''"
  "plain_word ''term_signal''" "plain_word ''virt_role''" "plain_word ''hypervisor_vendor''"
  "plain_word ''microcode_version''" "plain_word ''bios_vendor''" "plain_word ''bios_version''"
  "plain_word ''bios_date''" "plain_word ''cpu_governor''" "plain_word ''cpu_scaling_driver''"
  "plain_word ''cpu_governor_uniform''" "plain_word ''memory_total_kb''" "plain_word ''compiler_version''"
  "plain_word ''libc_version''" "plain_word ''available''" "plain_word ''path''" "plain_word ''cpu_max''"
  "plain_word ''quota_us''" "plain_word ''period_us''" "plain_word ''cpu_weight''" "plain_word ''value''"
  "plain_word ''memory_max_bytes''" "plain_word ''memory_high_bytes''" "plain_word ''throttle''"
  "plain_word ''nr_periods_delta''" "plain_word ''nr_throttled_delta''" "plain_word ''throttled_usec_delta''"
  "plain_word ''requested''" "plain_word ''busy''" "plain_word ''metrics''" "plain_word ''smi''"
  "plain_word ''nvidia''" "plain_word ''amd_device_index''" "plain_word ''nvidia_device_index''"
  "plain_word ''backend_valid''" "plain_word ''amd_sysfs_busy''" "plain_word ''amd_sysfs_metrics''"
  "plain_word ''amd_smi_metrics''" "plain_word ''amd_smi_memory''" "plain_word ''nvidia_metrics''"
  "plain_word ''counter_mask''" "plain_word ''per_core''" "plain_word ''system''" "plain_word ''csv''"
  "plain_word ''tree''" "plain_word ''interval_seconds''" "plain_word ''affinity''" "plain_word ''mode''"
  "plain_word ''cpus''" "plain_word ''gpu''" "plain_word ''preset''" "plain_word ''configuration''"
  "plain_word ''options''" "plain_word ''name''" "plain_word ''group''" "plain_word ''counter''"
  "plain_word ''errno''" "plain_word ''reason''" "plain_word ''counters_requested''"
  "plain_word ''counters_measured''" "plain_word ''start_time''" "plain_word ''finish_time''"
  "plain_word ''exit_status''" "plain_word ''schema_version''" "plain_word ''collector''"
  "plain_word ''wspy_version''" "plain_word ''generated_at''" "plain_word ''command''" "plain_word ''argv''"
  "plain_word ''timing''" "plain_word ''elapsed_seconds''" "plain_word ''host''" "plain_word ''hostname''"
  "plain_word ''kernel_release''" "plain_word ''cpu_vendor''" "plain_word ''cpu_family''"
  "plain_word ''cpu_model''" "plain_word ''num_cores''" "plain_word ''num_cores_available''"
  "plain_word ''is_hybrid''" "plain_word ''environment''" "plain_word ''environment_coverage''"
  "plain_word ''captured''" "plain_word ''probed''" "plain_word ''unavailable''" "plain_word ''field''"
  "plain_word ''cgroup''" "plain_word ''configuration_provenance''" "plain_word ''counter_coverage''"
  "plain_word ''measured''" "plain_word ''topdown_formula_version''" "plain_word ''passes''"
  "plain_word ''output_files''" "plain_word ''kind''" "plain_word ''run_id''" "plain_word ''output_path''"
  "plain_word ''text_output_path''" "plain_word ''tree_output_path''" "plain_word ''manifest_path''"
  "plain_word ''output''" "plain_word ''text_output''" "plain_word ''manifest''"
  unfolding plain_word_def by (simp_all add: plain_char_def)

lemma member_pair [simp]: "member_doc (k, t) (l, v) \<longleftrightarrow> k = l \<and> plain_word k \<and> json_text t v"
  by (simp add: member_doc_def)

lemma json_str_text [simp]: "no_nul s \<Longrightarrow> json_text (json_str s) (JSON_STRING s)"
  by (simp add: json_str_def)

lemma json_option_text [simp]:
  "pred_option no_nul s \<Longrightarrow> json_text (json_write_string_or_null s) (json_of_option s)"
  unfolding json_of_option_def by (rule string_or_null_text)

lemma list_all2_map_texts: "\<forall>x \<in> set xs. json_text (f x) (g x) \<Longrightarrow> list_all2 json_text (map f xs) (map g xs)"
  by (induction xs) auto

lemma not_empty [simp]:
  "exit_status_json es \<noteq> []" "environment_json prov \<noteq> []" "cgroup_json cg \<noteq> []" "options_json info \<noteq> []"
  by (simp_all add: exit_status_json_def environment_json_def cgroup_json_def options_json_def)

lemma exit_status_text: "list_all2 member_doc (exit_status_fields es) (exit_status_json es)"
  by (simp add: exit_status_fields_def exit_status_json_def)

lemma provenance_text_doc:
  "field_ok f \<Longrightarrow> json_text (provenance_text False f) (provenance_json False f)"
  "field_ok f \<Longrightarrow> (pf_available f \<longrightarrow> (\<exists>n. pf_value f = dec n)) \<Longrightarrow>
     json_text (provenance_text True f) (provenance_json True f)"
  by (auto simp: provenance_text_def provenance_json_def field_ok_def dec_value number_doc)

lemma environment_text: "provenance_ok prov \<Longrightarrow> list_all2 member_doc (environment_fields prov) (environment_json prov)"
  by (simp add: environment_fields_def environment_json_def provenance_ok_def provenance_text_doc)

text \<open>A layout of objects: whatever it is given, if not empty, it makes a document of.\<close>

definition object_layout :: "((string \<times> string) list \<Rightarrow> string) \<Rightarrow> bool" where
  "object_layout obj \<longleftrightarrow> (\<forall>kts kvs. list_all2 member_doc kts kvs \<longrightarrow> kvs \<noteq> [] \<longrightarrow> json_text (obj kts) (JSON_OBJECT kvs))"

lemma layouts [simp]: "object_layout (json_block n)" "object_layout json_inline" "object_layout json_object"
  by (simp_all add: object_layout_def json_block_text json_inline_text json_object_text)

lemma layoutD: "object_layout obj \<Longrightarrow> list_all2 member_doc kts kvs \<Longrightarrow> kvs \<noteq> [] \<Longrightarrow> json_text (obj kts) (JSON_OBJECT kvs)"
  by (simp add: object_layout_def)

lemma limit_text:
  "object_layout obj \<Longrightarrow> list_all2 member_doc kts kvs \<Longrightarrow> json_text (obj (limit_fields b kts)) (limit_json b kvs)"
  unfolding limit_fields_def limit_json_def by (rule layoutD) simp_all

lemma cgroup_text:
  "object_layout obj \<Longrightarrow> pred_option no_nul (cr_path cg) \<Longrightarrow> list_all2 member_doc (cgroup_fields obj cg) (cgroup_json cg)"
  by (simp add: cgroup_fields_def cgroup_json_def cpu_max_fields_def throttle_fields_def limit_text)

lemma device_doc: "json_text (device_text b i) (device_json b i)"
  by (simp add: device_text_def device_json_def)

lemma gpu_text:
  assumes "object_layout obj" and "object_layout inner"
  shows "json_text (obj (gpu_fields inner gpu)) (gpu_json gpu)"
  unfolding gpu_json_def gpu_fields_def
  by (rule layoutD [OF assms(1)]) (simp_all add: device_doc layoutD [OF assms(2)])

lemma hex_plain [simp]: "json_plain (hex n)"
proof -
  have "hex_value c \<noteq> None \<Longrightarrow> 32 \<le> char_code c \<and> c \<noteq> QUOTE \<and> c \<noteq> BACKSLASH" for c
    by (auto simp: hex_value_def Let_def split: if_splits)
  then show ?thesis using hex_digits [of n] unfolding json_plain_def by blast
qed

lemma mask_plain [simp]: "json_plain (mask_text m)"
proof -
  have "json_plain ''0x''" by (simp add: json_plain_def char_code_def QUOTE_def BACKSLASH_def)
  then show ?thesis by (simp only: mask_text_def lx_text_def json_plain_append hex_plain)
qed

lemma options_text:
  assumes "object_layout obj" and "object_layout inner" and "manifest_ok e info"
  shows "list_all2 member_doc (options_fields obj inner info) (options_json info)"
proof -
  have "pred_option no_nul (mf_affinity_mode info)" "pred_option no_nul (mf_affinity_requested info)"
    "pred_option no_nul (mf_affinity_cpus info)"
    using assms(3) by (simp_all add: manifest_ok_def)
  then have "json_text (obj (affinity_fields info)) (JSON_OBJECT
        [(''requested'', json_of_option (mf_affinity_requested info)),
         (''mode'', JSON_STRING (case mf_affinity_mode info of None \<Rightarrow> ''all'' | Some m \<Rightarrow> m)),
         (''cpus'', JSON_STRING (case mf_affinity_cpus info of None \<Rightarrow> '''' | Some c \<Rightarrow> c))])"
    unfolding affinity_fields_def by (intro layoutD [OF assms(1)]) (auto simp: NUL_def split: option.split)
  then show ?thesis
    by (simp add: options_fields_def options_json_def gpu_text [OF assms(1,2)])
qed

lemma rows_text:
  assumes "list_all2 json_text ts vs" and "sep_ws CHR '','' sep"
  shows "json_text (json_rows n sep m ts) (JSON_ARRAY vs)"
proof (cases "ts = []")
  case True
  then show ?thesis using assms json_list_text [of "[]" "[]" newline "blanks m" sep] by (simp add: json_rows_def)
next
  case False
  then show ?thesis using json_list_text [OF assms(1)] assms(2) by (simp add: json_rows_def)
qed

lemma separators [simp]: "sep_ws CHR '','' gap_sep" "sep_ws CHR '','' (row_sep n)" "sep_ws CHR '','' '', ''"
  using sep_behind [of "blanks 5" newline "CHR '',''"] by (simp_all add: gap_sep_def row_sep_def)

lemma config_text:
  assumes "object_layout obj" and "manifest_ok e info"
    and "\<And>ts vs. list_all2 json_text ts vs \<Longrightarrow> json_text (arr ts) (JSON_ARRAY vs)" and "object_layout item"
  shows "json_text (obj [(''preset'', json_write_string_or_null (cp_preset (mf_config_provenance info))),
      (''configuration'', json_write_string_or_null (cp_configuration (mf_config_provenance info))),
      (''options'', arr (map (\<lambda>(name, v). item [(''name'', json_str name), (''value'', json_str v)])
         (cp_options (mf_config_provenance info))))]) (config_json (mf_config_provenance info))"
proof -
  let ?cp = "mf_config_provenance info"
  have "list_all2 json_text (map (\<lambda>(name, v). item [(''name'', json_str name), (''value'', json_str v)]) (cp_options ?cp))
      (map (\<lambda>(name, v). JSON_OBJECT [(''name'', JSON_STRING name), (''value'', JSON_STRING v)]) (cp_options ?cp))"
    using assms(2) by (intro list_all2_map_texts) (auto simp: manifest_ok_def list_all_iff intro!: layoutD [OF assms(4)])
  moreover have "pred_option no_nul (cp_preset ?cp)" "pred_option no_nul (cp_configuration ?cp)"
    using assms(2) by (simp_all add: manifest_ok_def)
  ultimately show ?thesis unfolding config_json_def by (intro layoutD [OF assms(1)]) (simp_all add: assms(3))
qed

lemma tracked_fields_c:
  assumes "provenance_ok prov" and "(name, f) \<in> set (tracked_fields prov)"
  shows "no_nul name \<and> no_nul (pf_reason f)"
proof -
  have "list_all (\<lambda>(name, f). no_nul name \<and> no_nul (pf_reason f)) (tracked_fields prov)"
    using assms(1) by (simp add: tracked_fields_def provenance_ok_def field_ok_def NUL_def)
  then show ?thesis using assms(2) by (auto simp: list_all_iff)
qed

lemma gaps_text:
  assumes "provenance_ok prov"
  shows "list_all2 json_text (gap_rows prov) (map (\<lambda>(name, reason).
    JSON_OBJECT [(''field'', JSON_STRING name), (''reason'', JSON_STRING reason)]) (provenance_gaps prov))"
proof -
  have "no_nul name \<and> no_nul reason" if "(name, reason) \<in> set (provenance_gaps prov)" for name reason
  proof -
    have "\<exists>f. (name, f) \<in> set (tracked_fields prov) \<and> reason = pf_reason f"
      using that by (auto simp: provenance_gaps_def)
    then show ?thesis using tracked_fields_c [OF assms] by blast
  qed
  then show ?thesis
    unfolding gap_rows_def by (intro list_all2_map_texts) (auto intro!: json_inline_text)
qed

lemma counter_gaps_text:
  assumes "manifest_ok e info"
  shows "list_all2 json_text (map (\<lambda>g. json_inline
      [(''group'', json_str (gap_group g)), (''counter'', json_str (gap_counter g)),
       (''errno'', dec_int (gap_errno g)), (''reason'', json_str (mv_strerror e (gap_errno g)))])
      (mf_counters_unavailable info)) (map (gap_json e) (mf_counters_unavailable info))"
  using assms by (intro list_all2_map_texts)
    (auto simp: gap_json_def manifest_ok_def list_all_iff intro!: json_inline_text)

lemma pass_text: "json_text (json_block n (pass_fields mp)) (pass_json mp)"
  unfolding pass_fields_def pass_json_def
  by (rule json_block_text) (simp_all add: layoutD [OF _ exit_status_text])

lemma output_rows_text:
  assumes "manifest_ok e info"
  shows "json_text (output_rows (output_files info)) (JSON_ARRAY (map (\<lambda>(kind, path).
    JSON_OBJECT [(''kind'', JSON_STRING kind), (''path'', JSON_STRING path)]) (output_files info)))"
proof -
  have kinds: "json_plain ''output''" "json_plain ''text_output''" "json_plain ''tree''" "json_plain ''manifest''"
    by (simp_all add: json_plain_def char_code_def QUOTE_def BACKSLASH_def)
  have "json_plain kind \<and> no_nul path" if "(kind, path) \<in> set (output_files info)" for kind path
    using that assms kinds by (auto simp: output_files_def manifest_ok_def List.map_filter_def split: if_splits)
  then have "list_all2 json_text
      (map (\<lambda>(kind, path). json_inline [(''kind'', quoted kind), (''path'', json_str path)]) (output_files info))
      (map (\<lambda>(kind, path). JSON_OBJECT [(''kind'', JSON_STRING kind), (''path'', JSON_STRING path)]) (output_files info))"
    by (intro list_all2_map_texts) (auto intro!: json_inline_text)
  then show ?thesis unfolding output_rows_def Let_def by (intro json_list_text) simp_all
qed

lemma versions_plain [simp]:
  "json_plain MANIFEST_SCHEMA_VERSION" "json_plain RUN_INDEX_SCHEMA_VERSION" "json_plain wspy_version"
  by (simp_all add: MANIFEST_SCHEMA_VERSION_def RUN_INDEX_SCHEMA_VERSION_def wspy_version_def json_plain_def char_code_def
      QUOTE_def BACKSLASH_def)

lemma names_no_nul: "manifest_ok e info \<Longrightarrow> no_nul (manifest_hostname e) \<and> no_nul (manifest_release e)"
  "no_nul (cpu_vendor_name v)"
  by (auto simp: manifest_hostname_def manifest_release_def manifest_ok_def cpu_vendor_name_def NUL_def no_nul_take
      split: option.split cpu_vendor.split)

lemma elapsed_text: "manifest_ok e info \<Longrightarrow> json_text (fmt_fixed 3 (manifest_elapsed info)) (elapsed_json info)"
  by (auto simp: manifest_ok_def elapsed_json_def fixed_text)

lemma argv_text: "manifest_ok e info \<Longrightarrow> list_all2 json_text (map json_str (mf_argv info)) (map JSON_STRING (mf_argv info))"
  by (intro list_all2_map_texts) (auto simp: manifest_ok_def list_all_iff)

lemma manifest_text:
  assumes "manifest_ok e info"
  shows "json_text (json_block 0 (manifest_fields e info)) (manifest_json e info)"
proof -
  have prov: "provenance_ok (mf_provenance info)" and plain: "json_plain (manifest_collector info)"
    and opt: "pred_option no_nul (cr_path (mf_cgroup info))" "pred_option no_nul (mf_topdown_formula_version info)"
    using assms by (simp_all add: manifest_ok_def)
  have argv: "json_text (json_list [] '', '' [] (map json_str (mf_argv info))) (JSON_ARRAY (map JSON_STRING (mf_argv info)))"
    using argv_text [OF assms] by (rule json_list_text) (simp_all add: json_ws_def)
  have passes: "json_text (json_rows 4 (row_sep 4) 2 (map (\<lambda>mp. json_block 4 (pass_fields mp)) (mf_passes info)))
      (JSON_ARRAY (map pass_json (mf_passes info)))"
    by (intro rows_text list_all2_map_texts) (simp_all add: pass_text)
  have host: "list_all2 member_doc (host_fields e)
          [(''hostname'', JSON_STRING (manifest_hostname e)), (''kernel_release'', JSON_STRING (manifest_release e)),
           (''cpu_vendor'', JSON_STRING (cpu_vendor_name (mv_vendor e))), (''cpu_family'', json_of_word (mv_family e)),
           (''cpu_model'', json_of_word (mv_model e)), (''num_cores'', json_of_word (mv_num_cores e)),
           (''num_cores_available'', json_of_word (mv_num_cores_available e)),
           (''is_hybrid'', JSON_BOOL (mv_is_hybrid e))]"
    using names_no_nul(1) [OF assms] names_no_nul(2) by (simp add: host_fields_def)
  have cov: "list_all2 member_doc (coverage_fields (mf_provenance info))
          [(''captured'', json_of_int (9 - int (length (provenance_gaps (mf_provenance info))))),
           (''probed'', json_of_int 9),
           (''unavailable'', JSON_ARRAY (map (\<lambda>(name, reason).
              JSON_OBJECT [(''field'', JSON_STRING name), (''reason'', JSON_STRING reason)])
              (provenance_gaps (mf_provenance info))))]"
    by (simp add: coverage_fields_def rows_text gaps_text [OF prov])
  have counters: "list_all2 member_doc (counter_coverage_fields e info)
          [(''requested'', json_of_int (mf_counters_requested info)), (''measured'', json_of_int (mf_counters_measured info)),
           (''unavailable'', JSON_ARRAY (map (gap_json e) (mf_counters_unavailable info)))]"
    by (simp add: counter_coverage_fields_def rows_text counter_gaps_text [OF assms])
  have config: "json_text (json_block 2 (config_fields (mf_config_provenance info))) (config_json (mf_config_provenance info))"
    unfolding config_fields_def by (rule config_text [OF _ assms]) (simp_all add: rows_text)
  show ?thesis
    unfolding manifest_fields_def manifest_json_def
    by (rule json_block_text)
      (simp_all add: argv passes config json_block_text [OF host] json_block_text [OF cov] json_block_text [OF counters]
        json_block_text [OF options_text [OF _ _ assms]] json_block_text [OF environment_text [OF prov]]
        json_block_text [OF cgroup_text [OF _ opt(1)]] json_block_text [OF exit_status_text] opt(2) plain json_block_text
        output_rows_text [OF assms] elapsed_text [OF assms])
qed

lemma index_text:
  assumes "manifest_ok e info"
  shows "json_text (json_object (index_fields e info)) (index_json e info)"
proof -
  have prov: "provenance_ok (mf_provenance info)" and plain: "json_plain (manifest_collector info)"
    and opt: "pred_option no_nul (cr_path (mf_cgroup info))" "pred_option no_nul (mf_topdown_formula_version info)"
      "pred_option no_nul (mf_output_path info)" "pred_option no_nul (mf_text_output_path info)"
      "pred_option no_nul (mf_tree_output_path info)" "pred_option no_nul (mf_manifest_path info)"
    using assms by (simp_all add: manifest_ok_def)
  have passes: "json_text (json_array (map index_pass (mf_passes info))) (JSON_ARRAY (map (\<lambda>mp. JSON_OBJECT
          [(''counter_mask'', JSON_STRING (mask_text (ps_counter_mask mp))),
           (''counters_requested'', json_of_int (ps_counters_requested mp)),
           (''counters_measured'', json_of_int (ps_counters_measured mp))]) (mf_passes info)))"
    by (intro json_array_text list_all2_map_texts) (simp add: index_pass_def json_object_text)
  have files: "list_all2 member_doc
         [(''output_path'', json_write_string_or_null (mf_output_path info)),
          (''text_output_path'', json_write_string_or_null (mf_text_output_path info)),
          (''tree_output_path'', json_write_string_or_null (mf_tree_output_path info)),
          (''manifest_path'', json_write_string_or_null (mf_manifest_path info))]
          [(''output_path'', json_of_option (mf_output_path info)),
           (''text_output_path'', json_of_option (mf_text_output_path info)),
           (''tree_output_path'', json_of_option (mf_tree_output_path info)),
           (''manifest_path'', json_of_option (mf_manifest_path info))]"
    using opt by simp
  have config: "json_text (json_object
        [(''preset'', json_write_string_or_null (cp_preset (mf_config_provenance info))),
         (''configuration'', json_write_string_or_null (cp_configuration (mf_config_provenance info))),
         (''options'', json_array
           (map (\<lambda>(name, v). json_object [(''name'', json_str name), (''value'', json_str v)])
             (cp_options (mf_config_provenance info))))]) (config_json (mf_config_provenance info))"
    by (rule config_text [OF layouts(3) assms json_array_text layouts(3)])
  show ?thesis
    unfolding index_fields_def index_json_def
    by (rule json_object_text)
      (simp_all add: config passes names_no_nul(1) [OF assms] names_no_nul(2) opt(2) plain json_object_text [OF files]
        json_object_text [OF options_text [OF _ _ assms]] json_object_text [OF environment_text [OF prov]]
        json_object_text [OF cgroup_text [OF _ opt(1)]] json_object_text [OF exit_status_text] json_object_text
        json_array_text [OF argv_text [OF assms]] elapsed_text [OF assms])
qed


section \<open>A record is one line\<close>

definition one_line :: "string \<Rightarrow> bool" where
  "one_line s \<longleftrightarrow> LF \<notin> set s \<and> CR \<notin> set s"

lemma one_line_simps [simp]:
  "one_line []" "one_line (c # s) \<longleftrightarrow> c \<noteq> LF \<and> c \<noteq> CR \<and> one_line s" "one_line (s @ t) \<longleftrightarrow> one_line s \<and> one_line t"
  by (auto simp: one_line_def)

lemma one_line_plain: "json_plain s \<Longrightarrow> one_line s"
  by (auto simp: json_plain_def one_line_def)

lemma one_line_join: "\<forall>t \<in> set ts. one_line t \<Longrightarrow> one_line (join_text '','' ts)"
  by (induction "'',''" ts rule: join_text.induct) (auto simp: LF_def CR_def)

lemma one_line_numbers [simp]: "one_line (dec n)" "one_line (dec_int i)" "one_line (u_text w)" "one_line (quoted (mask_text m))"
  using one_line_plain [OF mask_plain [of m]] one_line_plain [OF plain_digits(1)]
  by (simp_all add: dec_int_def u_text_def LF_def CR_def quoted_def QUOTE_def)

lemma one_line_escape: "one_line (json_escape c)"
proof -
  have "one_line (pad_left (CHR ''0'') 4 (hex n))" for n
    using one_line_plain [OF hex_plain [of n]] by (auto simp: pad_left_def one_line_def LF_def CR_def)
  then show ?thesis by (auto simp: json_escape_def LF_def CR_def QUOTE_def BACKSLASH_def TAB_def)
qed

lemma one_line_string [simp]: "one_line (json_write_string s)" "one_line (json_str t)" "one_line (json_write_string_or_null s)"
proof -
  have "one_line (concat (map json_escape s))" for s by (induction s) (simp_all add: one_line_escape)
  then show "one_line (json_write_string s)" for s
    by (simp add: json_write_string_def QUOTE_def LF_def CR_def)
  then show "one_line (json_str t)" "one_line (json_write_string_or_null s)"
    by (simp_all add: json_str_def json_write_string_or_null_def LF_def CR_def split: option.split)
qed

lemma one_line_quoted: "json_plain s \<Longrightarrow> one_line (quoted s)"
  using one_line_plain [of s] by (simp add: quoted_def QUOTE_def LF_def CR_def)

lemma one_line_bool [simp]: "one_line (json_bool b)" "one_line ''null''" "one_line (device_text r i)"
  by (simp_all add: json_bool_def device_text_def LF_def CR_def)

lemma one_line_fixed [simp]: "one_line (fmt_fixed p d)"
proof -
  have "one_line (pad_left CHR ''0'' n (dec m))" for n m using one_line_plain [OF plain_digits(2)] .
  then show ?thesis by (auto simp: fmt_fixed_def Let_def LF_def CR_def split: double.split)
qed

lemma plain_word_line: "plain_word k \<Longrightarrow> one_line k"
  by (auto simp: plain_word_def plain_char_def list_all_iff one_line_def)

definition line_member :: "string \<times> string \<Rightarrow> bool" where
  "line_member kt \<longleftrightarrow> plain_word (fst kt) \<and> one_line (snd kt)"

lemma line_member_pair [simp]: "line_member (k, t) \<longleftrightarrow> plain_word k \<and> one_line t"
  by (simp add: line_member_def)

lemma one_line_object: "list_all line_member kts \<Longrightarrow> one_line (json_object kts)"
proof -
  assume "list_all line_member kts"
  then have "\<forall>t \<in> set (map (\<lambda>(k, v). json_field k v) kts). one_line t"
    by (auto simp: list_all_iff json_field_def plain_word_line QUOTE_def LF_def CR_def)
  from one_line_join [OF this] show ?thesis by (simp add: json_object_def LF_def CR_def)
qed

lemma one_line_array: "\<forall>t \<in> set ts. one_line t \<Longrightarrow> one_line (json_array ts)"
  using one_line_join [of ts] by (simp add: json_array_def LF_def CR_def)


lemma plain_prov: "provenance_ok prov \<Longrightarrow> list_all line_member (environment_fields prov)"
proof -
  have "one_line (provenance_text False f)" for f
    by (simp add: provenance_text_def LF_def CR_def)
  moreover assume "provenance_ok prov"
  then have "one_line (provenance_text True (pvi_mem_total_kb prov))"
    by (auto simp: provenance_ok_def provenance_text_def LF_def CR_def)
  ultimately show ?thesis by (simp add: environment_fields_def LF_def CR_def)
qed

lemma cgroup_line: "list_all line_member (cgroup_fields json_object cg)"
proof -
  have "one_line (json_object (limit_fields b kts))" if "list_all line_member kts" for b kts
    using that by (intro one_line_object) (simp add: limit_fields_def)
  then show ?thesis by (simp add: cgroup_fields_def cpu_max_fields_def throttle_fields_def)
qed

lemma options_line: "list_all line_member (options_fields json_object json_object info)"
proof -
  have "one_line (json_object (gpu_fields json_object gpu))" for gpu
    by (intro one_line_object) (simp add: gpu_fields_def one_line_object)
  moreover have "one_line (json_object (affinity_fields info))"
    by (intro one_line_object) (simp add: affinity_fields_def)
  ultimately show ?thesis by (simp add: options_fields_def)
qed

lemma exit_status_line: "list_all line_member (exit_status_fields es)"
  by (simp add: exit_status_fields_def LF_def CR_def)

lemma index_line:
  assumes "manifest_ok e info"
  shows "one_line (json_object (index_fields e info))"
proof -
  have prov: "provenance_ok (mf_provenance info)" and plain: "json_plain (manifest_collector info)"
    using assms by (simp_all add: manifest_ok_def)
  have cp: "one_line (json_array (map (\<lambda>(name, v). json_object [(''name'', json_str name), (''value'', json_str v)]) os))" for os
    by (intro one_line_array) (auto intro!: one_line_object)
  have ps: "one_line (json_array (map index_pass ps))" for ps
    by (intro one_line_array) (auto simp: index_pass_def intro!: one_line_object)
  have args: "one_line (json_array (map json_str args))" for args
    by (intro one_line_array) auto
  show ?thesis
    unfolding index_fields_def
    by (rule one_line_object)
      (simp add: one_line_quoted plain cp ps args one_line_object [OF plain_prov [OF prov]] one_line_object [OF cgroup_line]
        one_line_object [OF options_line] one_line_object [OF exit_status_line] one_line_object)
qed


section \<open>Properties\<close>

definition sample_manifest_env :: manifest_env where
  "sample_manifest_env =
     \<lparr>mv_now = (1700000010, 0), mv_hostname = Some ''node1'', mv_release = None, mv_pid = 42,
      mv_strerror = (\<lambda>_. ''No such file''), mv_vendor = VENDOR_AMD, mv_family = 25, mv_model = 97, mv_num_cores = 32,
      mv_num_cores_available = 32, mv_is_hybrid = False\<rparr>"

definition sample_provenance :: provenance_info where
  "sample_provenance =
     (let f = field_set_unavailable ''not present'' in
      \<lparr>pvi_virt_role = field_set_str ''guest'', pvi_hypervisor_vendor = f, pvi_microcode_version = f, pvi_bios_vendor = f,
       pvi_bios_version = f, pvi_bios_date = f, pvi_cpu_governor = f, pvi_cpu_scaling_driver = f,
       pvi_cpu_governor_uniform = False, pvi_mem_total_kb = f, pvi_compiler_version = f, pvi_libc_version = f\<rparr>)"

definition sample_cgroup :: cgroup_record where
  "sample_cgroup =
     \<lparr>cr_available = True, cr_path = Some ''/user.slice'', cr_cpu_max_available = True, cr_cpu_quota_us = -1,
      cr_cpu_period_us = 100000, cr_cpu_weight_available = False, cr_cpu_weight = 0, cr_memory_max_available = False,
      cr_memory_max_bytes = 0, cr_memory_high_available = False, cr_memory_high_bytes = 0, cr_throttle_available = True,
      cr_nr_periods_delta = 5, cr_nr_throttled_delta = 0, cr_throttled_usec_delta = 0\<rparr>"

definition sample_exit :: exit_status where
  "sample_exit = \<lparr>ex_known = True, ex_exited = True, ex_exit_code = 0, ex_signaled = False, ex_term_signal = 0\<rparr>"

definition sample_manifest :: manifest_info where
  "sample_manifest =
     \<lparr>mf_collector = None, mf_start_time = (1700000000, 0), mf_finish_time = (1700000003, 0),
      mf_argv = [''./blender'', ''a'' @ [QUOTE, LF] @ ''b''], mf_exit_status = sample_exit, mf_counter_mask = 5, mf_aflag = False,
      mf_sflag = True, mf_csvflag = False, mf_treeflag = True, mf_interval = 1, mf_output_path = Some ''run.txt'',
      mf_text_output_path = None, mf_tree_output_path = Some ''tree.txt'', mf_manifest_path = Some ''manifest.json'',
      mf_affinity_mode = None, mf_affinity_requested = None, mf_affinity_cpus = None, mf_counters_requested = 8,
      mf_counters_measured = 7,
      mf_counters_unavailable = [\<lparr>gap_group = ''ipc'', gap_counter = ''cycles'', gap_errno = 2\<rparr>],
      mf_topdown_formula_version = Some ''1'',
      mf_passes = [\<lparr>ps_counter_mask = 5, ps_counters_requested = 8, ps_counters_measured = 7,
        ps_start_time = (1700000000, 0), ps_finish_time = (1700000003, 0), ps_exit_status = sample_exit\<rparr>],
      mf_provenance = sample_provenance,
      mf_config_provenance = \<lparr>cp_preset = None, cp_configuration = None, cp_options = [(''interval'', ''1'')]\<rparr>,
      mf_gpu = \<lparr>gp_busy_requested = False, gp_metrics_requested = False, gp_smi_requested = False,
        gp_nvidia_requested = False, gp_amd_device_index = -1, gp_nvidia_device_index = -1, gp_amd_sysfs_busy_valid = False,
        gp_amd_sysfs_metrics_valid = False, gp_amd_smi_metrics_valid = False, gp_amd_smi_memory_valid = False,
        gp_nvidia_metrics_valid = False\<rparr>,
      mf_cgroup = sample_cgroup\<rparr>"

lemma sample_elapsed: "manifest_elapsed sample_manifest = Fin 3"
proof -
  have "double_of_int 0 = Fin 0" "double_of_int 3 = Fin 3"
    using double_of_int_exact [of 0] double_of_int_exact [of 3] by simp_all
  moreover have "double_round 3 = Fin 3" using double_of_int_exact [of 3] by (simp add: double_of_int_def)
  ultimately show ?thesis by (simp add: manifest_elapsed_def sample_manifest_def)
qed

lemma sample_manifest_ok: "manifest_ok sample_manifest_env sample_manifest"
proof -
  have "provenance_ok (mf_provenance sample_manifest)"
    by (simp add: sample_manifest_def sample_provenance_def provenance_ok_def Let_def)
      (simp add: field_set_unavailable_def)
  moreover have "json_plain (manifest_collector sample_manifest)"
    by (simp add: manifest_collector_def sample_manifest_def json_plain_def char_code_def QUOTE_def BACKSLASH_def)
  ultimately show ?thesis
    unfolding manifest_ok_def using sample_elapsed
    by (simp add: sample_manifest_env_def) (simp add: sample_manifest_def sample_cgroup_def NUL_def QUOTE_def LF_def)
qed

text \<open>C2: what \<open>write_manifest\<close> writes is read back by \<open>json_parse_file\<close> as the value \<open>manifest_json\<close> spells out:
  every field of the run under its own name, the arguments, paths and reasons exactly as they were, limits and
  provenance that were not available as nulls, and no counter or gap lost from its list.\<close>
theorem manifest_roundtrip:
  assumes "manifest_ok e info"
  shows "\<exists>t. write_manifest True e info = Some t \<and> json_parse_file (Contents t) = Some (Inr (manifest_json e info))"
  using json_text_parses [OF manifest_text [OF assms] json_ws_blanks(2)]
  by (simp add: write_manifest_def json_parse_file_def)

lemma manifest_roundtrip_witness:
  "\<exists>t. write_manifest True sample_manifest_env sample_manifest = Some t \<and>
     json_parse_file (Contents t) = Some (Inr (manifest_json sample_manifest_env sample_manifest))"
  by (rule manifest_roundtrip [OF sample_manifest_ok])

end
