(* ===== verification/Text_Lines.thy ===== *)
theory Text_Lines
  imports C_Text Json_Reader
begin

text \<open>
  What src/validate.c and src/ledger.c share: whole files read into memory and cut into lines, trimming, comparison
  without case, and the cast of a number of a JSON document to \<open>int\<close>.
\<close>

section \<open>Whole files\<close>

definition read_whole_file :: "file_read \<Rightarrow> string option" where
  "read_whole_file f = (case f of Contents b \<Rightarrow> Some b | _ \<Rightarrow> None)"

text \<open>The pieces between newlines; the last one need not end with one.\<close>

fun lf_lines :: "string \<Rightarrow> string list" where
  "lf_lines [] = []"
| "lf_lines (c # s) =
     (if c = LF then [] # lf_lines s else (case lf_lines s of [] \<Rightarrow> [[c]] | l # ls \<Rightarrow> (c # l) # ls))"

definition strip_cr :: "string \<Rightarrow> string" where
  "strip_cr l = (if l \<noteq> [] \<and> last l = CR then butlast l else l)"

definition split_lines :: "string \<Rightarrow> string list" where
  "split_lines buf = filter (\<lambda>l. l \<noteq> []) (map strip_cr (lf_lines (cstr buf)))"

lemma lf_lines_line: "LF \<notin> set l \<Longrightarrow> lf_lines (l @ LF # s) = l # lf_lines s"
  by (induction l) auto

lemma lf_lines_last: "LF \<notin> set l \<Longrightarrow> lf_lines l = (if l = [] then [] else [l])"
  by (induction l) auto

lemma lf_lines_no_lf: "l \<in> set (lf_lines s) \<Longrightarrow> LF \<notin> set l"
  by (induction s arbitrary: l rule: lf_lines.induct) (auto split: if_splits list.splits)

text \<open>A line that can be read back from a file of lines.\<close>

definition file_line :: "string \<Rightarrow> bool" where
  "file_line l \<longleftrightarrow> l \<noteq> [] \<and> LF \<notin> set l \<and> last l \<noteq> CR \<and> no_nul l"

definition unlines :: "string list \<Rightarrow> string" where
  "unlines ls = concat (map (\<lambda>l. l @ newline) ls)"

lemma unlines_simps [simp]: "unlines [] = []" "unlines (l # ls) = l @ newline @ unlines ls"
  "unlines (ls @ ms) = unlines ls @ unlines ms"
  by (simp_all add: unlines_def)

lemma newline_LF: "newline = [LF]"
  by (simp add: newline_def LF_def)

lemma unlines_no_nul: "list_all file_line ls \<Longrightarrow> no_nul (unlines ls)"
  by (induction ls) (simp_all add: file_line_def newline_def NUL_def)

lemma split_lines_unlines: "list_all file_line ls \<Longrightarrow> split_lines (unlines ls) = ls"
proof -
  assume ok: "list_all file_line ls"
  then have "lf_lines (unlines ls) = ls"
    by (induction ls) (simp_all add: lf_lines_line newline_LF file_line_def)
  moreover have "map strip_cr ls = ls" "filter (\<lambda>l. l \<noteq> []) ls = ls"
    using ok by (induction ls) (auto simp: strip_cr_def file_line_def)
  ultimately show ?thesis using unlines_no_nul [OF ok] by (simp add: split_lines_def)
qed

lemma split_lines_nonempty: "[] \<notin> set (split_lines s)"
  by (simp add: split_lines_def)

section \<open>Trimming\<close>

definition is_blank :: "char \<Rightarrow> bool" where
  "is_blank c \<longleftrightarrow> c = CHR '' '' \<or> c = TAB"

definition ltrim :: "string \<Rightarrow> string" where "ltrim s = dropWhile is_blank s"

definition rtrim :: "string \<Rightarrow> string" where "rtrim s = rev (dropWhile is_blank (rev s))"

lemma ltrim_id: "s = [] \<or> \<not> is_blank (hd s) \<Longrightarrow> ltrim s = s"
  by (cases s) (auto simp: ltrim_def)

lemma rtrim_id: "s = [] \<or> \<not> is_blank (last s) \<Longrightarrow> rtrim s = s"
  by (cases s rule: rev_cases) (auto simp: rtrim_def)

lemma rtrim_idem [simp]: "rtrim (rtrim s) = rtrim s"
  by (simp add: rtrim_def)

lemma set_rtrim: "set (rtrim s) \<subseteq> set s"
  by (auto simp: rtrim_def dest: set_dropWhileD)

lemma set_ltrim: "set (ltrim s) \<subseteq> set s"
  by (auto simp: ltrim_def dest: set_dropWhileD)

section \<open>Comparison and conversion\<close>

definition equals_ci :: "string \<Rightarrow> string \<Rightarrow> bool" where
  "equals_ci a b \<longleftrightarrow> map lower a = map lower b"

text \<open>The cast of a \<open>double\<close> to \<open>int\<close>: towards zero; the C standard leaves values out of range undefined, here they
  are taken modulo \<open>2 ^ 32\<close>, infinities and NaN as 0.\<close>

definition double_to_int :: "double \<Rightarrow> int" where
  "double_to_int d = (case d of Fin q \<Rightarrow> sint (word_of_int (if q < 0 then \<lceil>q\<rceil> else \<lfloor>q\<rfloor>) :: u32) | _ \<Rightarrow> 0)"

definition c_int :: "int \<Rightarrow> bool" where
  "c_int i \<longleftrightarrow> - (2 ^ 31) \<le> i \<and> i < 2 ^ 31"

lemma double_to_int_of_int [simp]:
  assumes "c_int i"
  shows "double_to_int (double_of_int i) = i"
proof -
  have "\<bar>i\<bar> < 2 ^ 53" using assms by (auto simp: c_int_def)
  moreover have "sint (word_of_int i :: u32) = i"
    using assms by (simp add: sint_sbintrunc' signed_take_bit_int_eq_self_iff c_int_def)
  ultimately show ?thesis by (simp add: double_of_int_exact double_to_int_def)
qed

section \<open>CSV fields\<close>

text \<open>A field is quoted, its quotes doubled, if it has a comma or a quote.\<close>

definition print_csv_field :: "string \<Rightarrow> string" where
  "print_csv_field s =
     (if CHR '','' \<in> set s \<or> QUOTE \<in> set s then
        QUOTE # concat (map (\<lambda>c. if c = QUOTE then [QUOTE, QUOTE] else [c]) s) @ [QUOTE]
      else s)"

end
