(* ===== verification/Validate.thy ===== *)
theory Validate
  imports Manifest_Facts Text_Lines
begin

text \<open>
  The quality checks of src/validate.c: a manifest read back, the files it names, and a report of the checks. Which
  paths exist and what reading them gives are parameters of the checks.
\<close>

section \<open>The report\<close>

datatype severity = SEV_PASS | SEV_WARN | SEV_FAIL

record check =
  ck_sev :: severity
  ck_msg :: string

record report =
  rp_checks :: "check list"
  rp_fail_count :: nat
  rp_warn_count :: nat

definition MAX_CHECKS :: nat where "MAX_CHECKS = 256"

definition report_initial :: report where
  "report_initial = \<lparr>rp_checks = [], rp_fail_count = 0, rp_warn_count = 0\<rparr>"

text \<open>A check beyond the last is counted but not kept; a message is cut to 319 bytes.\<close>

definition add_check :: "severity \<Rightarrow> string \<Rightarrow> report \<Rightarrow> report" where
  "add_check sev msg r =
     (let r1 = (case sev of
          SEV_FAIL \<Rightarrow> r\<lparr>rp_fail_count := rp_fail_count r + 1\<rparr>
        | SEV_WARN \<Rightarrow> r\<lparr>rp_warn_count := rp_warn_count r + 1\<rparr>
        | SEV_PASS \<Rightarrow> r) in
      if length (rp_checks r1) \<ge> MAX_CHECKS then r1
      else r1\<lparr>rp_checks := rp_checks r1 @ [\<lparr>ck_sev = sev, ck_msg = take 319 msg\<rparr>]\<rparr>)"

definition sev_label :: "severity \<Rightarrow> string" where
  "sev_label s = (case s of SEV_PASS \<Rightarrow> ''PASS'' | SEV_WARN \<Rightarrow> ''WARN'' | SEV_FAIL \<Rightarrow> ''FAIL'')"

definition overall_severity :: "report \<Rightarrow> severity" where
  "overall_severity r = (if rp_fail_count r > 0 then SEV_FAIL else if rp_warn_count r > 0 then SEV_WARN else SEV_PASS)"

section \<open>CSV files\<close>

definition sanity_bounds :: "(string \<times> double \<times> double) list" where
  "sanity_bounds = [(''ipc'', Fin 0, Fin 32)]"

definition PERCENT_SANITY_MAX :: double where "PERCENT_SANITY_MAX = Fin 1000"

definition MAX_CSV_FIELDS :: nat where "MAX_CSV_FIELDS = 1024"

text \<open>The fields of a line when \<open>n\<close> more can be opened; the last keeps the rest of the line.\<close>

fun csv_fields :: "nat \<Rightarrow> string \<Rightarrow> string list" where
  "csv_fields n [] = [[]]"
| "csv_fields 0 (c # s) = [c # s]"
| "csv_fields (Suc n) (c # s) =
     (if c = CHR '','' then [] # csv_fields n s
      else (case csv_fields (Suc n) s of [] \<Rightarrow> [[c]] | f # fs \<Rightarrow> (c # f) # fs))"

definition split_csv_line :: "string \<Rightarrow> nat \<Rightarrow> string list" where
  "split_csv_line line max_fields = (if line = [] then [] else csv_fields (max_fields - 1) line)"

text \<open>The number and whether a percent sign follows.\<close>

definition parse_numeric_field :: "string \<Rightarrow> (double \<times> bool) option" where
  "parse_numeric_field s =
     (if s = [] then None
      else (case strtod s of
              None \<Rightarrow> None
            | Some (d, r) \<Rightarrow> if r = [] then Some (d, False) else if r = ''%'' then Some (d, True) else None))"

definition cell_message :: "nat \<Rightarrow> string \<Rightarrow> string \<Rightarrow> string \<Rightarrow> string" where
  "cell_message row name val t =
     ''sanity: row '' @ dec row @ '' column '' @ [CHR 0x27] @ name @ [CHR 0x27] @ '' = '' @ val @ t"

text \<open>One cell that is a number.\<close>

definition check_cell :: "nat \<Rightarrow> string \<Rightarrow> string \<Rightarrow> double \<Rightarrow> bool \<Rightarrow> report \<Rightarrow> report" where
  "check_cell row name val num is_pct r =
     (if is_nan num \<or> is_inf num then add_check SEV_FAIL (cell_message row name val '' is not a finite number'') r
      else if is_pct then
        (if dlt num (Fin 0) \<or> dlt PERCENT_SANITY_MAX num then
           add_check SEV_FAIL (cell_message row name val (''% outside plausible range [0,'' @ fmt_fixed 0 PERCENT_SANITY_MAX @ '']'')) r
         else r)
      else
        (case map_of sanity_bounds name of
           Some (lo, hi) \<Rightarrow>
             (if dlt num lo \<or> dlt hi num then
                add_check SEV_FAIL (cell_message row name val
                  ('' outside plausible range ['' @ fmt_fixed 1 lo @ '','' @ fmt_fixed 1 hi @ '']'')) r
              else r)
         | None \<Rightarrow>
             if dlt num (Fin 0) then add_check SEV_FAIL (cell_message row name val '' is negative'') r
             else if dlt (Fin 1000000000000) num then
               add_check SEV_FAIL (cell_message row name val '' is implausibly large'') r
             else r))"

fun check_cells :: "nat \<Rightarrow> (string \<times> string) list \<Rightarrow> report \<times> nat \<Rightarrow> report \<times> nat" where
  "check_cells row [] s = s"
| "check_cells row ((name, val) # cells) (r, values_checked) =
     (case parse_numeric_field val of
        None \<Rightarrow> check_cells row cells (r, values_checked)
      | Some (num, is_pct) \<Rightarrow> check_cells row cells (check_cell row name val num is_pct r, values_checked + 1))"

definition check_csv_row_sanity :: "string list \<Rightarrow> string list \<Rightarrow> nat \<Rightarrow> report \<times> nat \<Rightarrow> report \<times> nat" where
  "check_csv_row_sanity header row_fields row_number s =
     (if length row_fields \<noteq> length header then s else check_cells row_number (zip header row_fields) s)"

text \<open>The rows from number \<open>i\<close>; the state is the report, the mismatches and the values checked.\<close>

fun check_rows :: "string list \<Rightarrow> nat \<Rightarrow> string list \<Rightarrow> report \<times> nat \<times> nat \<Rightarrow> report \<times> nat \<times> nat" where
  "check_rows header i [] s = s"
| "check_rows header i (line # lines) (r, mismatches, values_checked) =
     (let row = split_csv_line line MAX_CSV_FIELDS in
      if length row \<noteq> length header then
        check_rows header (i + 1) lines
          (if mismatches + 1 \<le> 5 then
             add_check SEV_FAIL (''row '' @ dec i @ '' has '' @ dec (length row) @ '' column(s), expected '' @
               dec (length header) @ '' (from header)'') r
           else r, mismatches + 1, values_checked)
      else
        (let (r1, v1) = check_csv_row_sanity header row i (r, values_checked) in
         check_rows header (i + 1) lines (r1, mismatches, v1)))"

definition validate_csv_file :: "(string \<Rightarrow> file_read) \<Rightarrow> string \<Rightarrow> report \<Rightarrow> report" where
  "validate_csv_file files path r =
     (case read_whole_file (files path) of
        None \<Rightarrow> add_check SEV_FAIL (''unable to read output file: '' @ path) r
      | Some buf \<Rightarrow>
          if buf = [] then add_check SEV_FAIL (''output CSV is empty: '' @ path) r
          else
            (case split_lines buf of
               [] \<Rightarrow> add_check SEV_FAIL (''output CSV has no header row: '' @ path) r
             | first # rows \<Rightarrow>
                 let header = split_csv_line first MAX_CSV_FIELDS in
                 if rows = [] then add_check SEV_FAIL (''output CSV has a header but no data rows: '' @ path) r
                 else
                   (let (r1, mismatches, values_checked) = check_rows header 1 rows (r, 0, 0);
                        r2 = (if mismatches > 5 then
                            add_check SEV_FAIL (dec (mismatches - 5) @
                              '' more row(s) with a column-count mismatch (not shown)'') r1 else r1);
                        r3 = (if mismatches = 0 then
                            add_check SEV_PASS (''output CSV well-formed: '' @ dec (length header) @ '' column(s), '' @
                              dec (length rows) @ '' data row(s)'') r2 else r2)
                    in if values_checked > 0 \<and> rp_fail_count r3 = 0 then
                         add_check SEV_PASS (''sanity checks passed on '' @ dec values_checked @
                           '' numeric value(s) across '' @ dec (length rows) @ '' row(s)'') r3
                       else r3)))"

definition validate_nonempty_file :: "(string \<Rightarrow> file_read) \<Rightarrow> string \<Rightarrow> string \<Rightarrow> report \<Rightarrow> report" where
  "validate_nonempty_file files path what r =
     (case read_whole_file (files path) of
        None \<Rightarrow> add_check SEV_FAIL (''unable to read '' @ what @ '': '' @ path) r
      | Some buf \<Rightarrow>
          if buf = [] then add_check SEV_FAIL (what @ '' is empty: '' @ path) r
          else add_check SEV_PASS (what @ '' non-empty ('' @ dec (length buf) @ '' bytes): '' @ path) r)"

section \<open>Checks of the manifest\<close>

definition check_schema_version :: "json_value option \<Rightarrow> report \<Rightarrow> report" where
  "check_schema_version doc r =
     (case json_get_string doc ''schema_version'' None of
        None \<Rightarrow> add_check SEV_FAIL (''no schema_version field -- doesn'' @ [CHR 0x27] @ ''t look like a wspy manifest'') r
      | Some version \<Rightarrow>
          if atoi version \<noteq> atoi MANIFEST_SCHEMA_VERSION then
            add_check SEV_WARN (''manifest schema version '' @ version @
              '' has a different major version than this tool understands ('' @ MANIFEST_SCHEMA_VERSION @ '')'') r
          else add_check SEV_PASS (''schema version '' @ version @ '' recognized'') r)"

definition check_exit_status :: "json_value option \<Rightarrow> report \<Rightarrow> report" where
  "check_exit_status doc r =
     (let es = json_object_get doc ''exit_status'' in
      if es = None then add_check SEV_WARN ''no exit_status recorded in manifest'' r
      else if \<not> json_get_bool es ''known'' False then
        add_check SEV_WARN ''workload exit status was not recorded this run'' r
      else if json_get_bool es ''signaled'' False then
        add_check SEV_FAIL (''workload was terminated by signal '' @
          dec_int (double_to_int (json_get_number es ''term_signal'' (Fin (-1))))) r
      else if json_get_bool es ''exited'' False then
        (let code = double_to_int (json_get_number es ''exit_code'' (Fin (-1))) in
         if code = 0 then add_check SEV_PASS ''workload exited normally (status 0)'' r
         else add_check SEV_FAIL (''workload exited with nonzero status '' @ dec_int code) r)
      else add_check SEV_WARN ''exit_status recorded but neither exited nor signaled is set'' r)"

definition check_counter_coverage :: "json_value option \<Rightarrow> report \<Rightarrow> report" where
  "check_counter_coverage doc r =
     (let cc = json_object_get doc ''counter_coverage'' in
      if cc = None then r
      else
        (let requested = double_to_int (json_get_number cc ''requested'' (Fin 0));
             measured = double_to_int (json_get_number cc ''measured'' (Fin 0)) in
         if requested = 0 then r
         else if measured < requested then
           add_check SEV_WARN (''partial counter coverage: '' @ dec_int measured @ ''/'' @ dec_int requested @
             '' counters measured'') r
         else add_check SEV_PASS (''full counter coverage: '' @ dec_int measured @ ''/'' @ dec_int requested @
             '' counters measured'') r))"

definition check_elapsed_time :: "json_value option \<Rightarrow> report \<Rightarrow> report" where
  "check_elapsed_time doc r =
     (let timing = json_object_get doc ''timing'' in
      if timing = None then add_check SEV_WARN ''no timing block in manifest'' r
      else
        (let elapsed = json_get_number timing ''elapsed_seconds'' (Fin (-1)) in
         if dle elapsed (Fin 0) then
           add_check SEV_FAIL (''non-positive elapsed_seconds ('' @ fmt_fixed 3 elapsed @ '') recorded'') r
         else add_check SEV_PASS (''elapsed time '' @ fmt_fixed 3 elapsed @ ''s'') r))"

text \<open>One entry of the output files; the second component counts the files that are there.\<close>

definition check_output_file ::
  "(string \<Rightarrow> bool) \<Rightarrow> (string \<Rightarrow> file_read) \<Rightarrow> bool \<Rightarrow> nat \<Rightarrow> json_value option \<Rightarrow> report \<times> nat \<Rightarrow> report \<times> nat"
where
  "check_output_file exists files is_csv i entry s =
     (let (r, present) = s; kind = the (json_get_string entry ''kind'' (Some ''?'')) in
      case json_get_string entry ''path'' None of
        None \<Rightarrow> (add_check SEV_FAIL (''output_files['' @ dec i @ ''] has no path'') r, present)
      | Some path \<Rightarrow>
          if \<not> exists path then
            (add_check SEV_FAIL (''required file missing: '' @ path @ '' (kind='' @ kind @ '')'') r, present)
          else
            (if kind = ''output'' then
               (if is_csv then validate_csv_file files path r else validate_nonempty_file files path ''output file'' r)
             else if kind = ''tree'' then validate_nonempty_file files path ''tree file'' r
             else if kind = ''text_output'' then validate_nonempty_file files path ''text-out file'' r
             else r, present + 1))"

definition check_output_files :: "(string \<Rightarrow> bool) \<Rightarrow> (string \<Rightarrow> file_read) \<Rightarrow> json_value option \<Rightarrow> report \<Rightarrow> report" where
  "check_output_files exists files doc r =
     (let entries = json_object_get doc ''output_files'';
          is_csv = json_get_bool (json_object_get doc ''options'') ''csv'' False;
          n = json_array_len entries in
      if entries = None \<or> n = 0 then add_check SEV_WARN ''no output files recorded in manifest'' r
      else
        (let (r1, present) =
             fold (\<lambda>i. check_output_file exists files is_csv i (json_array_get entries i)) [0..<n] (r, 0) in
         if present = n then
           add_check SEV_PASS (''required files present ('' @ dec present @ ''/'' @ dec n @ '')'') r1
         else r1))"

definition validate_checks :: "(string \<Rightarrow> bool) \<Rightarrow> (string \<Rightarrow> file_read) \<Rightarrow> json_value \<Rightarrow> report" where
  "validate_checks exists files v =
     check_elapsed_time (Some v) (check_counter_coverage (Some v) (check_exit_status (Some v)
       (check_output_files exists files (Some v) (check_schema_version (Some v) report_initial))))"

definition is_object :: "json_value \<Rightarrow> bool" where
  "is_object v = (case v of JSON_OBJECT _ \<Rightarrow> True | _ \<Rightarrow> False)"

text \<open>What is printed and the severity; \<open>None\<close> only if parsing ran out of fuel, which it does not.\<close>

definition validate_manifest ::
  "(string \<Rightarrow> bool) \<Rightarrow> (string \<Rightarrow> file_read) \<Rightarrow> string \<Rightarrow> bool \<Rightarrow> (string \<times> severity) option"
where
  "validate_manifest exists files path quiet =
     (let failed = (\<lambda>why. (path @ '': FAIL'' @ newline @ ''  [FAIL] '' @ why @ newline, SEV_FAIL)) in
      case json_parse_file (files path) of
        None \<Rightarrow> None
      | Some (Inl err) \<Rightarrow> Some (failed (take 255 err))
      | Some (Inr doc) \<Rightarrow>
          if \<not> is_object doc then Some (failed ''top-level JSON value is not an object'')
          else
            (let r = validate_checks exists files doc; overall = overall_severity r in
             if quiet \<and> overall \<noteq> SEV_FAIL then Some ([], overall)
             else Some (path @ '': '' @ sev_label overall @ newline @
               concat (map (\<lambda>c. ''  ['' @ sev_label (ck_sev c) @ ''] '' @ ck_msg c @ newline) (rp_checks r)) @
               (if length (rp_checks r) > MAX_CHECKS then
                  ''  ('' @ dec (length (rp_checks r) - MAX_CHECKS) @ '' additional check result(s) not shown)'' @ newline
                else []), overall)))"

section \<open>The program\<close>

text \<open>The options \<open>-q\<close>, \<open>-s\<close> and the manifests of the command line: the standard output and the exit status.\<close>

definition run_validate ::
  "(string \<Rightarrow> bool) \<Rightarrow> (string \<Rightarrow> file_read) \<Rightarrow> bool \<Rightarrow> bool \<Rightarrow> string list \<Rightarrow> (string \<times> int) option"
where
  "run_validate exists files quiet strict paths =
     (if paths = [] then Some ([], 2)
      else
        (let results = map (\<lambda>p. validate_manifest exists files p quiet) paths in
         if None \<in> set results then None
         else
           (let sevs = map (snd \<circ> the) results;
                failed = length (filter (\<lambda>s. s = SEV_FAIL) sevs);
                warned = length (filter (\<lambda>s. s = SEV_WARN) sevs);
                passed = length (filter (\<lambda>s. s = SEV_PASS) sevs) in
            Some (concat (map (fst \<circ> the) results) @ dec (length paths) @ '' manifest(s) checked: '' @ dec passed @
              '' passed, '' @ dec warned @ '' warned, '' @ dec failed @ '' failed'' @ newline,
              if failed > 0 \<or> strict \<and> warned > 0 then 1 else 0))))"

end
