(* ===== verification/Validate_Facts.thy ===== *)
theory Validate_Facts
  imports Validate
begin

text \<open>
  What the verdict of src/validate.c means: which files it calls plausible, and the severity it gives to a manifest
  that src/manifest.c wrote, stated from the run that was recorded.
\<close>

section \<open>Failures and warnings of a report\<close>

definition fails :: "report \<Rightarrow> bool" where "fails r \<longleftrightarrow> rp_fail_count r > 0"
definition warns :: "report \<Rightarrow> bool" where "warns r \<longleftrightarrow> rp_warn_count r > 0"

lemma overall_severity_fails:
  "overall_severity r = (if fails r then SEV_FAIL else if warns r then SEV_WARN else SEV_PASS)"
  by (simp add: overall_severity_def fails_def warns_def)

lemma add_check_counts:
  "rp_fail_count (add_check sev m r) = rp_fail_count r + (if sev = SEV_FAIL then 1 else 0)"
  "rp_warn_count (add_check sev m r) = rp_warn_count r + (if sev = SEV_WARN then 1 else 0)"
proof -
  show "rp_fail_count (add_check sev m r) = rp_fail_count r + (if sev = SEV_FAIL then 1 else 0)"
    unfolding add_check_def Let_def by (cases sev) simp_all
  show "rp_warn_count (add_check sev m r) = rp_warn_count r + (if sev = SEV_WARN then 1 else 0)"
    unfolding add_check_def Let_def by (cases sev) simp_all
qed

lemma add_check_simps [simp]:
  "fails (add_check sev m r) \<longleftrightarrow> sev = SEV_FAIL \<or> fails r"
  "warns (add_check sev m r) \<longleftrightarrow> sev = SEV_WARN \<or> warns r"
  by (auto simp: add_check_counts fails_def warns_def)

lemma initial_quiet [simp]: "\<not> fails report_initial" "\<not> warns report_initial"
  by (simp_all add: report_initial_def fails_def warns_def)

section \<open>Plausible CSV files\<close>

definition cell_plausible :: "string \<Rightarrow> string \<Rightarrow> bool" where
  "cell_plausible name val \<longleftrightarrow>
     (case parse_numeric_field val of
        None \<Rightarrow> True
      | Some (Fin q, is_pct) \<Rightarrow> 0 \<le> q \<and> q \<le> (if is_pct then 1000 else if name = ''ipc'' then 32 else 10 ^ 12)
      | Some _ \<Rightarrow> False)"

definition row_plausible :: "string list \<Rightarrow> string \<Rightarrow> bool" where
  "row_plausible header line \<longleftrightarrow>
     (let row = split_csv_line line MAX_CSV_FIELDS in
      length row = length header \<and> (\<forall>(name, val) \<in> set (zip header row). cell_plausible name val))"

definition csv_plausible :: "file_read \<Rightarrow> bool" where
  "csv_plausible f \<longleftrightarrow>
     (\<exists>buf first rows. f = Contents buf \<and> split_lines buf = first # rows \<and> rows \<noteq> [] \<and>
        (\<forall>line \<in> set rows. row_plausible (split_csv_line first MAX_CSV_FIELDS) line))"

lemma check_cell_verdict:
  assumes "parse_numeric_field val = Some (num, is_pct)"
  shows "fails (check_cell row name val num is_pct r) \<longleftrightarrow> fails r \<or> \<not> cell_plausible name val"
    and "warns (check_cell row name val num is_pct r) \<longleftrightarrow> warns r"
  using assms
  by (cases num; simp add: check_cell_def cell_plausible_def PERCENT_SANITY_MAX_def sanity_bounds_def; auto)+

lemma check_cells_verdict:
  "(fails (fst (check_cells row cells s)) \<longleftrightarrow> fails (fst s) \<or> (\<exists>(name, val) \<in> set cells. \<not> cell_plausible name val)) \<and>
   (warns (fst (check_cells row cells s)) \<longleftrightarrow> warns (fst s))"
proof (induction row cells s rule: check_cells.induct)
  case (2 row name val cells r v)
  show ?case
  proof (cases "parse_numeric_field val")
    case None
    then have "cell_plausible name val" by (simp add: cell_plausible_def)
    with None 2(1) show ?thesis by simp
  next
    case (Some p)
    then obtain num is_pct where p: "parse_numeric_field val = Some (num, is_pct)" by (cases p) auto
    from 2(2) [OF p] show ?thesis by (auto simp: p check_cell_verdict [OF p])
  qed
qed simp

lemma check_rows_verdict:
  "(fails (fst (check_rows header i lines s)) \<or> fst (snd (check_rows header i lines s)) > 5 \<longleftrightarrow>
      fails (fst s) \<or> fst (snd s) > 5 \<or> (\<exists>line \<in> set lines. \<not> row_plausible header line)) \<and>
   (warns (fst (check_rows header i lines s)) \<longleftrightarrow> warns (fst s))"
proof (induction header i lines s rule: check_rows.induct)
  case (2 header i line lines r m v)
  show ?case
  proof (cases "length (split_csv_line line MAX_CSV_FIELDS) = length header")
    case False
    then have "\<not> row_plausible header line" by (simp add: row_plausible_def Let_def)
    with 2(1) [OF refl False] False show ?thesis by (auto simp: Let_def split del: if_split split: if_split_asm) 
  next
    case True
    let ?row = "split_csv_line line MAX_CSV_FIELDS"
    obtain r1 v1 where c: "check_csv_row_sanity header ?row i (r, v) = (r1, v1)" by fastforce
    then have "check_cells i (zip header ?row) (r, v) = (r1, v1)" using True by (simp add: check_csv_row_sanity_def)
    with check_cells_verdict [of i "zip header ?row" "(r, v)"]
    have "fails r1 \<longleftrightarrow> fails r \<or> \<not> row_plausible header line" "warns r1 \<longleftrightarrow> warns r"
      using True by (auto simp: row_plausible_def Let_def)
    with 2(2) [OF refl _ c [symmetric] refl] True show ?thesis by (auto simp: c Let_def)
  qed
qed auto

lemma validate_csv_verdict:
  "fails (validate_csv_file files path r) \<longleftrightarrow> fails r \<or> \<not> csv_plausible (files path)"
  "warns (validate_csv_file files path r) \<longleftrightarrow> warns r"
proof -
  have "(fails (validate_csv_file files path r) \<longleftrightarrow> fails r \<or> \<not> csv_plausible (files path)) \<and>
    (warns (validate_csv_file files path r) \<longleftrightarrow> warns r)"
  proof (cases "\<exists>buf first rows. files path = Contents buf \<and> split_lines buf = first # rows \<and> rows \<noteq> []")
    case False
    then have "\<not> csv_plausible (files path)" by (auto simp: csv_plausible_def)
    with False show ?thesis
      by (auto simp: validate_csv_file_def read_whole_file_def Let_def split: file_read.splits list.splits)
  next
    case True
    then obtain buf l rows where b: "files path = Contents buf" "split_lines buf = l # rows" "rows \<noteq> []" by blast
    then have "buf \<noteq> []" by (auto simp: split_lines_def)
    obtain r1 m v where c: "check_rows (split_csv_line l MAX_CSV_FIELDS) 1 rows (r, 0, 0) = (r1, m, v)"
      by (metis prod.exhaust)
    have "fails r1 \<or> m > 5 \<longleftrightarrow> fails r \<or> \<not> csv_plausible (files path)" "warns r1 \<longleftrightarrow> warns r"
      using check_rows_verdict [of "split_csv_line l MAX_CSV_FIELDS" 1 rows "(r, 0, 0)"]
      unfolding c by (auto simp: csv_plausible_def b)
    with b c \<open>buf \<noteq> []\<close> show ?thesis
      by (simp add: validate_csv_file_def read_whole_file_def Let_def split del: if_split cong: if_cong) (auto split: if_splits)
  qed
  then show "fails (validate_csv_file files path r) \<longleftrightarrow> fails r \<or> \<not> csv_plausible (files path)"
    "warns (validate_csv_file files path r) \<longleftrightarrow> warns r" by blast+
qed

lemma validate_nonempty_verdict:
  "fails (validate_nonempty_file files path what r) \<longleftrightarrow>
     fails r \<or> read_whole_file (files path) = None \<or> read_whole_file (files path) = Some []"
  "warns (validate_nonempty_file files path what r) \<longleftrightarrow> warns r"
  by (auto simp: validate_nonempty_file_def split: option.splits)

section \<open>The verdict on a written manifest\<close>

text \<open>Whether an output file of the run fails its check.\<close>

definition file_fails :: "(string \<Rightarrow> bool) \<Rightarrow> (string \<Rightarrow> file_read) \<Rightarrow> bool \<Rightarrow> string \<times> string \<Rightarrow> bool" where
  "file_fails exists files is_csv f =
     (let (kind, path) = f in
      \<not> exists path \<or>
      (if kind = ''output'' \<and> is_csv then \<not> csv_plausible (files path)
       else kind \<noteq> ''manifest'' \<and> (read_whole_file (files path) = None \<or> read_whole_file (files path) = Some [])))"

definition run_fails :: "manifest_info \<Rightarrow> bool" where
  "run_fails info \<longleftrightarrow>
     (let es = mf_exit_status info in
      ex_known es \<and> (ex_signaled es \<or> ex_exited es \<and> ex_exit_code es \<noteq> 0)) \<or>
     (case elapsed_json info of JSON_NUMBER d \<Rightarrow> dle d (Fin 0) | _ \<Rightarrow> True)"

definition run_warns :: "manifest_info \<Rightarrow> bool" where
  "run_warns info \<longleftrightarrow>
     output_files info = [] \<or>
     (let es = mf_exit_status info in \<not> ex_known es \<or> \<not> ex_signaled es \<and> \<not> ex_exited es) \<or>
     mf_counters_requested info \<noteq> 0 \<and> mf_counters_measured info < mf_counters_requested info"

definition expected_severity :: "(string \<Rightarrow> bool) \<Rightarrow> (string \<Rightarrow> file_read) \<Rightarrow> manifest_info \<Rightarrow> severity" where
  "expected_severity exists files info =
     (if run_fails info \<or> (\<exists>f \<in> set (output_files info). file_fails exists files (mf_csvflag info) f) then SEV_FAIL
      else if run_warns info then SEV_WARN
      else SEV_PASS)"

definition c_ints :: "manifest_info \<Rightarrow> bool" where
  "c_ints info \<longleftrightarrow>
     c_int (ex_exit_code (mf_exit_status info)) \<and> c_int (mf_counters_requested info) \<and> c_int (mf_counters_measured info)"

lemma manifest_members:
  "json_object_get (Some (manifest_json e info)) ''schema_version'' = Some (JSON_STRING MANIFEST_SCHEMA_VERSION)"
  "json_object_get (Some (manifest_json e info)) ''timing'' = Some (JSON_OBJECT
     [(''start_time'', JSON_STRING (format_iso8601 (mf_start_time info))),
      (''finish_time'', JSON_STRING (format_iso8601 (mf_finish_time info))), (''elapsed_seconds'', elapsed_json info)])"
  "json_object_get (Some (manifest_json e info)) ''exit_status'' = Some (JSON_OBJECT (exit_status_json (mf_exit_status info)))"
  "json_object_get (Some (manifest_json e info)) ''options'' = Some (JSON_OBJECT (options_json info))"
  "json_object_get (Some (manifest_json e info)) ''counter_coverage'' = Some (JSON_OBJECT
     [(''requested'', json_of_int (mf_counters_requested info)), (''measured'', json_of_int (mf_counters_measured info)),
      (''unavailable'', JSON_ARRAY (map (gap_json e) (mf_counters_unavailable info)))])"
  "json_object_get (Some (manifest_json e info)) ''output_files'' = Some (JSON_ARRAY (map (\<lambda>(kind, path).
     JSON_OBJECT [(''kind'', JSON_STRING kind), (''path'', JSON_STRING path)]) (output_files info)))"
  by (simp_all add: manifest_json_def json_object_get_def)

lemma get_object [simp]: "json_object_get (Some (JSON_OBJECT kvs)) k = find_key kvs k"
  by (simp add: json_object_get_def)

lemma schema_verdict [simp]:
  "check_schema_version (Some (manifest_json e info)) r =
     add_check SEV_PASS (''schema version '' @ MANIFEST_SCHEMA_VERSION @ '' recognized'') r"
  by (simp add: check_schema_version_def json_get_string_def manifest_members)

lemma exit_verdict:
  assumes "c_ints info"
  shows "fails (check_exit_status (Some (manifest_json e info)) r) \<longleftrightarrow> fails r \<or>
      (let es = mf_exit_status info in ex_known es \<and> (ex_signaled es \<or> ex_exited es \<and> ex_exit_code es \<noteq> 0))"
    and "warns (check_exit_status (Some (manifest_json e info)) r) \<longleftrightarrow> warns r \<or>
      (let es = mf_exit_status info in \<not> ex_known es \<or> \<not> ex_signaled es \<and> \<not> ex_exited es)"
  using assms
  by (simp_all add: check_exit_status_def manifest_members exit_status_json_def json_get_bool_def json_get_number_def
      Let_def c_ints_def)

lemma coverage_verdict:
  assumes "c_ints info"
  shows "fails (check_counter_coverage (Some (manifest_json e info)) r) \<longleftrightarrow> fails r"
    and "warns (check_counter_coverage (Some (manifest_json e info)) r) \<longleftrightarrow> warns r \<or>
      mf_counters_requested info \<noteq> 0 \<and> mf_counters_measured info < mf_counters_requested info"
  using assms
  by (simp_all add: check_counter_coverage_def manifest_members json_get_number_def Let_def c_ints_def)

lemma elapsed_verdict:
  "fails (check_elapsed_time (Some (manifest_json e info)) r) \<longleftrightarrow> fails r \<or>
     (case elapsed_json info of JSON_NUMBER d \<Rightarrow> dle d (Fin 0) | _ \<Rightarrow> True)"
  "warns (check_elapsed_time (Some (manifest_json e info)) r) \<longleftrightarrow> warns r"
  by (simp_all add: check_elapsed_time_def manifest_members json_get_number_def elapsed_json_def Let_def)

lemma output_file_verdict:
  assumes "kind \<in> {''output'', ''text_output'', ''tree'', ''manifest''}"
  shows "fails (fst (check_output_file exists files is_csv i
        (Some (JSON_OBJECT [(''kind'', JSON_STRING kind), (''path'', JSON_STRING path)])) s)) \<longleftrightarrow>
      fails (fst s) \<or> file_fails exists files is_csv (kind, path)"
    and "warns (fst (check_output_file exists files is_csv i
        (Some (JSON_OBJECT [(''kind'', JSON_STRING kind), (''path'', JSON_STRING path)])) s)) \<longleftrightarrow> warns (fst s)"
  using assms
  by (auto simp: check_output_file_def json_get_string_def json_object_get_def file_fails_def validate_csv_verdict
      validate_nonempty_verdict split_beta)

lemma output_files_kinds: "f \<in> set (output_files info) \<Longrightarrow> fst f \<in> {''output'', ''text_output'', ''tree'', ''manifest''}"
  by (auto simp: output_files_def List.map_filter_def split: if_splits)

lemma files_verdict:
  "fails (check_output_files exists files (Some (manifest_json e info)) r) \<longleftrightarrow> fails r \<or>
     (\<exists>f \<in> set (output_files info). file_fails exists files (mf_csvflag info) f)"
  "warns (check_output_files exists files (Some (manifest_json e info)) r) \<longleftrightarrow> warns r \<or> output_files info = []"
proof -
  let ?fs = "output_files info"
  let ?obj = "\<lambda>(kind, path). JSON_OBJECT [(''kind'', JSON_STRING kind), (''path'', JSON_STRING path)]"
  let ?arr = "Some (JSON_ARRAY (map ?obj ?fs))"
  let ?step = "\<lambda>i. check_output_file exists files (mf_csvflag info) i (json_array_get ?arr i)"
  have csv: "json_get_bool (Some (JSON_OBJECT (options_json info))) ''csv'' False = mf_csvflag info"
    by (simp add: json_get_bool_def json_object_get_def options_json_def)
  have len: "json_array_len ?arr = length ?fs" by (simp add: json_array_len_def)
  have loop: "(fails (fst (fold ?step [0..<n] s)) \<longleftrightarrow> fails (fst s) \<or> (\<exists>f \<in> set (take n ?fs). file_fails exists files (mf_csvflag info) f))
      \<and> (warns (fst (fold ?step [0..<n] s)) \<longleftrightarrow> warns (fst s))" if "n \<le> length ?fs" for n s
    using that
  proof (induction n)
    case (Suc n)
    obtain kind path where f: "?fs ! n = (kind, path)" by fastforce
    have "kind \<in> {''output'', ''text_output'', ''tree'', ''manifest''}"
      using output_files_kinds [OF nth_mem, of n info] Suc.prems f by simp
    note v = output_file_verdict [OF this]
    have "json_array_get ?arr n = Some (?obj (kind, path))" using Suc.prems f by (simp add: json_array_get_def)
    moreover have "take (Suc n) ?fs = take n ?fs @ [(kind, path)]" using Suc.prems f by (simp add: take_Suc_conv_app_nth)
    ultimately show ?case using Suc by (simp add: v disj_ac)
  qed simp
  obtain r1 k where l: "fold ?step [0..<length ?fs] (r, 0) = (r1, k)" by fastforce
  have r1: "fails r1 \<longleftrightarrow> fails r \<or> (\<exists>f \<in> set ?fs. file_fails exists files (mf_csvflag info) f)" "warns r1 \<longleftrightarrow> warns r"
    using loop [of "length ?fs" "(r, 0)"] l by simp_all
  have "check_output_files exists files (Some (manifest_json e info)) r =
      (if ?fs = [] then add_check SEV_WARN ''no output files recorded in manifest'' r
       else if k = length ?fs then
         add_check SEV_PASS (''required files present ('' @ dec k @ ''/'' @ dec (length ?fs) @ '')'') r1 else r1)"
    by (simp add: check_output_files_def manifest_members csv len l Let_def del: fold_map)
  then show "fails (check_output_files exists files (Some (manifest_json e info)) r) \<longleftrightarrow> fails r \<or>
     (\<exists>f \<in> set (output_files info). file_fails exists files (mf_csvflag info) f)"
    "warns (check_output_files exists files (Some (manifest_json e info)) r) \<longleftrightarrow> warns r \<or> output_files info = []"
    using r1 by auto
qed

lemma validate_checks_verdict:
  assumes "c_ints info"
  shows "overall_severity (validate_checks exists files (manifest_json e info)) = expected_severity exists files info"
  unfolding overall_severity_fails expected_severity_def run_fails_def run_warns_def validate_checks_def
  by (simp add: elapsed_verdict coverage_verdict [OF assms] exit_verdict [OF assms] files_verdict disj_ac)


text \<open>Many failed checks may not all be kept, but none is forgotten.\<close>

lemma add_checks_counted:
  "rp_fail_count (fold (\<lambda>(sev, m). add_check sev m) cs r) = rp_fail_count r + length (filter (\<lambda>(sev, m). sev = SEV_FAIL) cs)"
  by (induction cs arbitrary: r) (auto simp: add_check_counts)

section \<open>Properties\<close>

text \<open>C3: \<open>wspy-validate\<close> on a manifest that \<open>write_manifest\<close> wrote gives exactly the severity the recorded run
  deserves: FAIL if the workload was killed or exited with a nonzero status, if no time passed, or if one of its output
  files is missing, empty or not a plausible CSV table; else WARN if there is no output file, the exit status is not
  known or counters were not measured; else PASS.\<close>
theorem validate_manifest_verdict:
  assumes "manifest_ok e info" and "c_ints info" and "write_manifest True e info = Some t" and "files path = Contents t"
  shows "map_option snd (validate_manifest exists files path quiet) = Some (expected_severity exists files info)"
proof -
  have t: "t = json_block 0 (manifest_fields e info) @ newline" using assms(3) by (simp add: write_manifest_def)
  have p: "json_parse_file (files path) = Some (Inr (manifest_json e info))"
    using json_text_parses [OF manifest_text [OF assms(1)] json_ws_blanks(2)] assms(4) t by (simp add: json_parse_file_def)
  have o: "is_object (manifest_json e info)" by (simp add: is_object_def manifest_json_def)
  show ?thesis
    using validate_checks_verdict [OF assms(2), of exists files e] by (simp add: validate_manifest_def p o Let_def)
qed

definition sample_disk :: "string \<Rightarrow> file_read" where
  "sample_disk p =
     (if p = ''manifest.json'' then Contents (the (write_manifest True sample_manifest_env sample_manifest))
      else Contents ''ipc 1.2'')"

lemma sample_severity: "expected_severity (\<lambda>_. True) sample_disk sample_manifest = SEV_WARN"
proof -
  have files: "output_files sample_manifest =
      [(''output'', ''run.txt''), (''tree'', ''tree.txt''), (''manifest'', ''manifest.json'')]"
    by (simp add: output_files_def List.map_filter_def sample_manifest_def)
  have "double_round 3 = Fin 3" using double_of_int_exact [of 3] by (simp add: double_of_int_def)
  moreover have "round_half_even 3000 = 3000" using round_half_even_int [of 3000] by (simp only: of_int_numeral)
  ultimately have "elapsed_json sample_manifest = JSON_NUMBER (Fin 3)"
    by (simp add: elapsed_json_def sample_elapsed printed_value_def Let_def)
  then have "\<not> run_fails sample_manifest"
    by (simp add: run_fails_def) (simp add: sample_manifest_def sample_exit_def)
  moreover have "run_warns sample_manifest" by (simp add: run_warns_def files) (simp add: sample_manifest_def)
  moreover have "\<not> mf_csvflag sample_manifest" by (simp add: sample_manifest_def)
  then have "\<forall>f \<in> set (output_files sample_manifest). \<not> file_fails (\<lambda>_. True) sample_disk (mf_csvflag sample_manifest) f"
    by (simp add: files file_fails_def sample_disk_def read_whole_file_def)
  ultimately show ?thesis unfolding expected_severity_def by auto
qed

lemma validate_manifest_verdict_witness:
  "map_option snd (validate_manifest (\<lambda>_. True) sample_disk ''manifest.json'' True) = Some SEV_WARN"
proof -
  have c: "c_ints sample_manifest" by (simp add: c_ints_def c_int_def sample_manifest_def sample_exit_def)
  obtain t where t: "write_manifest True sample_manifest_env sample_manifest = Some t"
    by (simp add: write_manifest_def)
  then have "sample_disk ''manifest.json'' = Contents t" by (simp add: sample_disk_def)
  from validate_manifest_verdict [where files = sample_disk and path = "''manifest.json''" and exists = "\<lambda>_. True"
      and quiet = True, OF sample_manifest_ok c t this] show ?thesis
    unfolding sample_severity .
qed

end
