(* ===== verification/Ledger.thy ===== *)
theory Ledger
  imports Manifest_Facts Text_Lines
begin

text \<open>
  The workload ledger of src/ledger.c: a list of workloads with their annotations, kept in a text file, and the runs
  of the run index that match them. What reading a file gives and which paths exist are parameters; messages to the
  error stream are left out.
\<close>

section \<open>Entries\<close>

datatype ledger_status = LEDGER_DONE | LEDGER_SKIPPED | LEDGER_UNSUPPORTED | LEDGER_NEEDS_TOOL_SUPPORT

record ledger_entry =
  le_name :: string
  le_annotated :: bool
  le_annotated_status :: ledger_status
  le_note :: string
  le_runs_matched :: nat
  le_runs_succeeded :: nat
  le_last_succeeded :: bool
  le_last_run_id :: string
  le_last_start_time :: string
  le_runs_stale :: nat
  le_last_stale_run_id :: string
  le_last_stale_start_time :: string
  le_dep_unavailable :: bool
  le_dep_note :: string
  le_combo_known :: bool
  le_combo_count :: int
  le_combo_has_freeform :: bool
  le_combo_ambiguous :: bool
  le_combo_profile :: string

definition ledger_zero :: ledger_entry where
  "ledger_zero =
     \<lparr>le_name = [], le_annotated = False, le_annotated_status = LEDGER_DONE, le_note = [], le_runs_matched = 0,
      le_runs_succeeded = 0, le_last_succeeded = False, le_last_run_id = [], le_last_start_time = [], le_runs_stale = 0,
      le_last_stale_run_id = [], le_last_stale_start_time = [], le_dep_unavailable = False, le_dep_note = [],
      le_combo_known = False, le_combo_count = 0, le_combo_has_freeform = False, le_combo_ambiguous = False,
      le_combo_profile = []\<rparr>"

definition status_label :: "ledger_status \<Rightarrow> string" where
  "status_label s =
     (case s of LEDGER_DONE \<Rightarrow> ''done'' | LEDGER_SKIPPED \<Rightarrow> ''skipped'' | LEDGER_UNSUPPORTED \<Rightarrow> ''unsupported''
      | LEDGER_NEEDS_TOOL_SUPPORT \<Rightarrow> ''needs-tool-support'')"

section \<open>The workload list\<close>

definition before_hash :: "string \<Rightarrow> string" where
  "before_hash s = takeWhile (\<lambda>c. c \<noteq> CHR ''#'') s"

text \<open>The name, the status and the note of a line; \<open>None\<close> for a blank line and a comment. The name is trimmed at the
  end before the first tab is looked for.\<close>

definition parse_ledger_line :: "string \<Rightarrow> (string \<times> string option \<times> string option) option" where
  "parse_ledger_line line =
     (let p = before_hash (ltrim line) in
      if p = [] then None
      else
        (case split_at TAB (rtrim p) of
           None \<Rightarrow> Some (rtrim p, None, None)
         | Some (name, rest) \<Rightarrow>
             (case split_at TAB (ltrim rest) of
                None \<Rightarrow> Some (rtrim name, Some (rtrim (ltrim rest)), None)
              | Some (status, note) \<Rightarrow> Some (rtrim name, Some (rtrim status), Some (ltrim note)))))"

definition list_contains_name :: "file_read \<Rightarrow> string \<Rightarrow> bool" where
  "list_contains_name f name =
     (case read_whole_file f of
        None \<Rightarrow> False
      | Some buf \<Rightarrow>
          list_ex (\<lambda>l. case parse_ledger_line l of None \<Rightarrow> False | Some (n, _) \<Rightarrow> n = name) (split_lines buf))"

text \<open>The exit status and the text appended to the file; \<open>opens\<close> is whether it can be opened for appending.\<close>

definition add_to_list :: "bool \<Rightarrow> file_read \<Rightarrow> string \<Rightarrow> int \<times> string" where
  "add_to_list opens f name =
     (if name = [] then (2, [])
      else if TAB \<in> set name \<or> LF \<in> set name \<or> CHR ''#'' \<in> set name then (2, [])
      else if list_contains_name f name then (0, [])
      else if \<not> opens then (2, [])
      else (0, name @ newline))"

definition names_line :: "string \<Rightarrow> string \<Rightarrow> bool" where
  "names_line name line \<longleftrightarrow>
     (case parse_ledger_line line of None \<Rightarrow> False | Some (n, _) \<Rightarrow> n \<noteq> [] \<and> n = name)"

text \<open>The exit status and the file afterwards.\<close>

definition remove_from_list :: "bool \<Rightarrow> file_read \<Rightarrow> string \<Rightarrow> int \<times> file_read" where
  "remove_from_list opens f name =
     (if name = [] then (2, f)
      else
        (case read_whole_file f of
           None \<Rightarrow> (0, f)
         | Some buf \<Rightarrow>
             if \<not> opens then (2, f)
             else (0, Contents (unlines (filter (\<lambda>l. \<not> names_line name l) (split_lines buf))))))"

definition ledger_entry_of :: "string \<Rightarrow> string option \<Rightarrow> string option \<Rightarrow> ledger_entry" where
  "ledger_entry_of name status note =
     (let e = ledger_zero\<lparr>le_name := take 127 name\<rparr>;
          e1 = (case status of
             None \<Rightarrow> e
           | Some st \<Rightarrow>
               if st = [] then e
               else if equals_ci st ''unsupported'' then e\<lparr>le_annotated := True, le_annotated_status := LEDGER_UNSUPPORTED\<rparr>
               else if equals_ci st ''needs-tool-support'' then
                 e\<lparr>le_annotated := True, le_annotated_status := LEDGER_NEEDS_TOOL_SUPPORT\<rparr>
               else e)
      in case note of
           None \<Rightarrow> e1
         | Some n \<Rightarrow> if n = [] then e1 else e1\<lparr>le_note := take 255 n\<rparr>)"

text \<open>\<open>None\<close> is the null pointer: an unreadable file and a list without names alike.\<close>

definition load_workload_list :: "file_read \<Rightarrow> ledger_entry list option" where
  "load_workload_list f =
     (case read_whole_file f of
        None \<Rightarrow> None
      | Some buf \<Rightarrow>
          (let es = List.map_filter (\<lambda>l. case parse_ledger_line l of
                  None \<Rightarrow> None
                | Some (name, status, note) \<Rightarrow> if name = [] then None else Some (ledger_entry_of name status note))
                (split_lines buf)
           in if es = [] then None else Some es))"

section \<open>The run index\<close>

definition command_matches :: "json_value \<Rightarrow> string \<Rightarrow> bool" where
  "command_matches record name =
     (case json_object_get (Some record) ''command'' of
        Some (JSON_ARRAY items) \<Rightarrow> list_ex (\<lambda>v. case v of JSON_STRING s \<Rightarrow> strstr s name \<noteq> None | _ \<Rightarrow> False) items
      | _ \<Rightarrow> False)"

text \<open>The named paths of a record, and whether one of them is there; \<open>None\<close> if there is none to check.\<close>

definition record_paths :: "json_value \<Rightarrow> string list" where
  "record_paths record =
     filter (\<lambda>p. p \<noteq> []) (List.map_filter
       (\<lambda>k. json_get_string (json_object_get (Some record) ''output_files'') k None)
       [''output_path'', ''tree_output_path'', ''manifest_path''])"

definition record_paths_exist :: "(string \<Rightarrow> bool) \<Rightarrow> json_value \<Rightarrow> bool option" where
  "record_paths_exist exists record =
     (if json_object_get (Some record) ''output_files'' = None then None
      else if list_ex exists (record_paths record) then Some True
      else if record_paths record \<noteq> [] then Some False
      else None)"

definition record_succeeded :: "json_value \<Rightarrow> bool" where
  "record_succeeded record =
     (let es = json_object_get (Some record) ''exit_status'' in
      es \<noteq> None \<and> json_get_bool es ''known'' False \<and> \<not> json_get_bool es ''signaled'' False \<and>
      json_get_bool es ''exited'' False \<and> double_to_int (json_get_number es ''exit_code'' (Fin (-1))) = 0)"

text \<open>\<open>strcmp(a,b) >= 0\<close>, bytes compared as unsigned characters.\<close>

fun strcmp_ge :: "string \<Rightarrow> string \<Rightarrow> bool" where
  "strcmp_ge _ [] = True"
| "strcmp_ge [] (d # t) = False"
| "strcmp_ge (c # s) (d # t) = (if c = d then strcmp_ge s t else char_code c > char_code d)"

definition update_entry :: "(string \<Rightarrow> bool) \<Rightarrow> json_value \<Rightarrow> ledger_entry \<Rightarrow> ledger_entry" where
  "update_entry exists record e =
     (let run_id = the (json_get_string (Some record) ''run_id'' (Some ''?''));
          start = the (json_get_string (Some record) ''start_time'' (Some '''')) in
      if \<not> command_matches record (le_name e) then e
      else if record_paths_exist exists record = Some False then
        (let e1 = e\<lparr>le_runs_stale := le_runs_stale e + 1\<rparr> in
         if strcmp_ge start (le_last_stale_start_time e1) then
           e1\<lparr>le_last_stale_run_id := take 63 run_id, le_last_stale_start_time := take 39 start\<rparr>
         else e1)
      else
        (let e1 = e\<lparr>le_runs_matched := le_runs_matched e + 1\<rparr>;
             e2 = (if record_succeeded record then e1\<lparr>le_runs_succeeded := le_runs_succeeded e1 + 1\<rparr> else e1) in
         if strcmp_ge start (le_last_start_time e2) then
           e2\<lparr>le_last_succeeded := record_succeeded record, le_last_run_id := take 63 run_id,
              le_last_start_time := take 39 start\<rparr>
         else e2))"

text \<open>The records of the lines that can be parsed.\<close>

definition index_records :: "string list \<Rightarrow> json_value list" where
  "index_records lines =
     List.map_filter (\<lambda>l. case json_parse l of Some (Inr v) \<Rightarrow> Some v | _ \<Rightarrow> None) lines"

definition process_run_index_file ::
  "(string \<Rightarrow> bool) \<Rightarrow> file_read \<Rightarrow> ledger_entry list \<Rightarrow> (nat \<times> ledger_entry list) option"
where
  "process_run_index_file exists f entries =
     (case read_whole_file f of
        None \<Rightarrow> None
      | Some buf \<Rightarrow>
          (let records = index_records (split_lines buf)
           in Some (length records, fold (\<lambda>v. map (update_entry exists v)) records entries)))"

text \<open>The warnings about schema versions: which versions a file's records make it warn of (the texts kept to compare
  with are cut to 15 bytes, at most 16 of them), and whether about a missing one.\<close>

record schema_warnings =
  sw_versions :: "string list"
  sw_missing :: bool
  sw_printed :: "string option list"

definition MAX_WARNED_SCHEMA_VERSIONS :: nat where "MAX_WARNED_SCHEMA_VERSIONS = 16"

definition check_record_schema_version :: "json_value \<Rightarrow> schema_warnings \<Rightarrow> schema_warnings" where
  "check_record_schema_version record w =
     (case json_get_string (Some record) ''schema_version'' None of
        None \<Rightarrow> if sw_missing w then w else w\<lparr>sw_missing := True, sw_printed := sw_printed w @ [None]\<rparr>
      | Some version \<Rightarrow>
          if atoi version = atoi RUN_INDEX_SCHEMA_VERSION then w
          else if version \<in> set (sw_versions w) then w
          else
            (let w1 = w\<lparr>sw_printed := sw_printed w @ [Some version]\<rparr> in
             if length (sw_versions w) < MAX_WARNED_SCHEMA_VERSIONS then w1\<lparr>sw_versions := sw_versions w @ [take 15 version]\<rparr>
             else w1))"

definition schema_warnings_of :: "json_value list \<Rightarrow> schema_warnings" where
  "schema_warnings_of records =
     fold check_record_schema_version records \<lparr>sw_versions = [], sw_missing = False, sw_printed = []\<rparr>"

section \<open>The report\<close>

definition entry_status :: "ledger_entry \<Rightarrow> ledger_status" where
  "entry_status e =
     (if le_annotated e then le_annotated_status e
      else if le_runs_succeeded e > 0 then LEDGER_DONE
      else if le_dep_unavailable e then LEDGER_UNSUPPORTED
      else if le_runs_matched e = 0 then LEDGER_SKIPPED
      else LEDGER_NEEDS_TOOL_SUPPORT)"

definition format_detail :: "ledger_entry \<Rightarrow> ledger_status \<Rightarrow> string" where
  "format_detail e status =
     take 415
     (if le_annotated e \<and> (status = LEDGER_UNSUPPORTED \<or> status = LEDGER_NEEDS_TOOL_SUPPORT) then
        (if le_note e \<noteq> [] then le_note e else ''marked in workload list'')
      else if \<not> le_annotated e \<and> status = LEDGER_UNSUPPORTED \<and> le_dep_unavailable e then le_dep_note e
      else
        (case status of
           LEDGER_SKIPPED \<Rightarrow> ''no matching run found in run index''
         | LEDGER_DONE \<Rightarrow> dec (le_runs_succeeded e) @ ''/'' @ dec (le_runs_matched e) @ '' run(s) succeeded, most recent '' @
             le_last_run_id e
         | LEDGER_NEEDS_TOOL_SUPPORT \<Rightarrow> dec (le_runs_matched e) @ '' run(s) attempted, none succeeded, most recent '' @
             le_last_run_id e
         | _ \<Rightarrow> ''''))"

definition format_combo_fields :: "ledger_entry \<Rightarrow> string \<times> string" where
  "format_combo_fields e =
     (if \<not> le_combo_known e then ([], [])
      else
        (dec_int (le_combo_count e),
         take 223 (le_combo_profile e @
           (if le_combo_has_freeform e then '', lower bound (has free-form option(s) not counted)'' else []) @
           (if le_combo_ambiguous e then '', ambiguous across matching profiles'' else []))))"

definition ledger_detail :: "bool \<Rightarrow> ledger_entry \<Rightarrow> string" where
  "ledger_detail quiet e =
     (let detail = format_detail e (entry_status e) in
      if \<not> quiet \<and> le_runs_stale e > 0 then
        take 415 (detail @ '' ('' @ dec (le_runs_stale e) @ '' stale run(s) excluded, output deleted, most recent '' @
          le_last_stale_run_id e @ '')'')
      else detail)"

definition entry_row :: "bool \<Rightarrow> bool \<Rightarrow> ledger_entry \<Rightarrow> string" where
  "entry_row csvflag quiet e =
     (let detail = ledger_detail quiet e; (count, note) = format_combo_fields e; label = status_label (entry_status e) in
      if csvflag then
        print_csv_field (le_name e) @ '','' @ label @ '','' @ dec (le_runs_matched e) @ '','' @
        dec (le_runs_succeeded e) @ '','' @ dec (le_runs_stale e) @ '','' @ print_csv_field (le_last_run_id e) @ '','' @
        print_csv_field (le_last_start_time e) @ '','' @ print_csv_field detail @ '','' @ print_csv_field count @ '','' @
        print_csv_field note @ newline
      else if count \<noteq> [] then
        pad_right 40 (le_name e) @ '' '' @ pad_right 20 label @ '' '' @ detail @ '' ['' @ count @
        '' option combination(s): '' @ note @ '']'' @ newline
      else pad_right 40 (le_name e) @ '' '' @ pad_right 20 label @ '' '' @ detail @ newline)"

definition count_status :: "ledger_entry list \<Rightarrow> ledger_status \<Rightarrow> nat" where
  "count_status es s = length (filter (\<lambda>e. entry_status e = s) es)"

text \<open>The report and the exit status.\<close>

definition ledger_report :: "bool \<Rightarrow> bool \<Rightarrow> bool \<Rightarrow> ledger_entry list \<Rightarrow> string \<times> int" where
  "ledger_report csvflag quiet strict entries =
     ((if csvflag then
         ''name,status,runs_matched,runs_succeeded,runs_stale,last_run_id,last_start_time,note,'' @
         ''option_combinations,option_combinations_note'' @ newline
       else []) @
      concat (map (\<lambda>e. if quiet \<and> entry_status e = LEDGER_DONE then [] else entry_row csvflag quiet e) entries) @
      (if csvflag then []
       else dec (length entries) @ '' workload(s): '' @ dec (count_status entries LEDGER_DONE) @ '' done, '' @
         dec (count_status entries LEDGER_SKIPPED) @ '' skipped, '' @ dec (count_status entries LEDGER_UNSUPPORTED) @
         '' unsupported, '' @ dec (count_status entries LEDGER_NEEDS_TOOL_SUPPORT) @ '' needs-tool-support'' @ newline),
      if strict \<and> (count_status entries LEDGER_SKIPPED > 0 \<or> count_status entries LEDGER_NEEDS_TOOL_SUPPORT > 0) then 1
      else 0)"

end
