(* ===== verification/Ledger_Profiles.thy ===== *)
theory Ledger_Profiles
  imports Ledger
begin

text \<open>
  The scan of installed test profiles in src/ledger.c: which workloads need a dependency that is not available, and
  how many option combinations a workload has. The directories and files are parameters. A pointer into the text of a
  profile is the rest of the text from there, so the later of two pointers is the shorter text.
\<close>

section \<open>Tags\<close>

definition MAX_UNAVAILABLE_TAGS :: nat where "MAX_UNAVAILABLE_TAGS = 256"

definition load_unavailable_deps :: "file_read \<Rightarrow> nat \<Rightarrow> string list option" where
  "load_unavailable_deps f max_tags =
     map_option (\<lambda>buf. take max_tags (map (take 63)
       (filter (\<lambda>t. t \<noteq> []) (map (\<lambda>l. rtrim (before_hash (ltrim l))) (split_lines buf))))) (read_whole_file f)"

definition dep_set_contains :: "string list \<Rightarrow> string \<Rightarrow> bool" where
  "dep_set_contains tags tag \<longleftrightarrow> list_ex (\<lambda>t. equals_ci t tag) tags"

section \<open>Profiles\<close>

definition looks_like_version :: "string \<Rightarrow> bool" where
  "looks_like_version s \<longleftrightarrow> list_all (\<lambda>c. c = CHR ''.'' \<or> is_digit c) s \<and> list_ex is_digit s"

text \<open>What is before and after the last dash.\<close>

definition split_last_dash :: "string \<Rightarrow> (string \<times> string) option" where
  "split_last_dash s =
     map_option (\<lambda>(a, b). (rev b, rev a)) (split_at CHR ''-'' (rev s))"

definition strip_version_suffix :: "string \<Rightarrow> nat \<Rightarrow> string" where
  "strip_version_suffix dirname outsize =
     (case split_last_dash dirname of
        None \<Rightarrow> take (outsize - 1) dirname
      | Some (test_id, version) \<Rightarrow> take (outsize - 1) (if looks_like_version version then test_id else dirname))"

text \<open>The text after a tag.\<close>

definition after_tag :: "string \<Rightarrow> string \<Rightarrow> string option" where
  "after_tag tag s = map_option (drop (length tag)) (strstr s tag)"

definition extract_external_dependencies :: "string \<Rightarrow> nat \<Rightarrow> string option" where
  "extract_external_dependencies xml outsize =
     (case after_tag ''<ExternalDependencies>'' xml of
        None \<Rightarrow> None
      | Some start \<Rightarrow>
          map_option (\<lambda>rest. take (outsize - 1) (take (length start - length rest) start))
            (strstr start ''</ExternalDependencies>''))"

section \<open>Option combinations\<close>

lemma strstr_length: "strstr s t = Some r \<Longrightarrow> length r \<le> length s"
  by (induction s) (auto split: if_splits)

function count_entries :: "string \<Rightarrow> string \<Rightarrow> nat" where
  "count_entries menu_end p =
     (case strstr p ''<Entry>'' of
        None \<Rightarrow> 0
      | Some q \<Rightarrow> if length q > length menu_end then Suc (count_entries menu_end (drop 7 q)) else 0)"
  by pat_completeness auto
termination
proof (relation "measure (length \<circ> snd)")
  fix menu_end p q
  assume "strstr p ''<Entry>'' = Some q" "length q > length menu_end"
  then show "((menu_end, drop 7 q), menu_end, p) \<in> measure (length \<circ> snd)"
    using strstr_length [of p "''<Entry>''" q] by (cases q) auto
qed simp

declare count_entries.simps [simp del]

text \<open>A pointer kept before the end of the settings.\<close>

definition pointer_min :: "string option \<Rightarrow> string \<Rightarrow> string" where
  "pointer_min p limit = (case p of None \<Rightarrow> limit | Some q \<Rightarrow> if length q < length limit then limit else q)"

text \<open>One option, from behind its opening tag to \<open>opt_end\<close>: the number of its menu's entries, or \<open>None\<close> if it has no
  menu.\<close>

definition option_entries :: "string \<Rightarrow> string \<Rightarrow> nat option" where
  "option_entries opt_start opt_end =
     (case strstr opt_start ''<Menu>'' of
        None \<Rightarrow> None
      | Some menu_start \<Rightarrow>
          if length menu_start > length opt_end then
            Some (count_entries (pointer_min (strstr menu_start ''</Menu>'') opt_end) menu_start)
          else None)"

text \<open>The loop over the options; the product is a \<open>long\<close>, whose overflow C leaves undefined.\<close>

function count_options :: "string \<Rightarrow> string \<Rightarrow> int \<times> bool \<Rightarrow> int \<times> bool" where
  "count_options settings_end p (product, freeform) =
     (if length p > length settings_end then
        (case strstr p ''<Option>'' of
           None \<Rightarrow> (product, freeform)
         | Some q \<Rightarrow>
             if length q \<le> length settings_end then (product, freeform)
             else
               (let opt_start = drop 8 q;
                    opt_end = pointer_min (strstr opt_start ''</Option>'') settings_end
                in count_options settings_end (drop 9 opt_end)
                     (case option_entries opt_start opt_end of
                        None \<Rightarrow> (product, True)
                      | Some n \<Rightarrow> (if n > 0 then product * int n else product, freeform))))
      else (product, freeform))"
  by pat_completeness auto
termination
proof (relation "measure (\<lambda>(_, p, _). length p)")
  fix settings_end p :: string and product :: int and freeform :: bool and q opt_start opt_end :: string
  assume p: "length settings_end < length p" and q: "strstr p ''<Option>'' = Some q"
    and l: "\<not> length q \<le> length settings_end" and s: "opt_start = drop 8 q"
    and e: "opt_end = pointer_min (strstr opt_start ''</Option>'') settings_end"
  have "length q \<le> length p" using strstr_length [OF q] .
  moreover have "length r \<le> length q - 8" if "strstr opt_start ''</Option>'' = Some r" for r
    using strstr_length [OF that] s by simp
  ultimately have "length (drop 9 opt_end) < length p"
    using p l by (auto simp: e pointer_min_def split: option.split)
  then show "((settings_end, drop 9 opt_end, case option_entries opt_start opt_end of
      None \<Rightarrow> (product, True) | Some n \<Rightarrow> (if n > 0 then product * int n else product, freeform)),
      settings_end, p, product, freeform) \<in> measure (\<lambda>(_, p, _). length p)" by simp
qed simp

declare count_options.simps [simp del]

text \<open>The number of combinations and whether an option has no menu.\<close>

definition count_option_combinations :: "string \<Rightarrow> int \<times> bool" where
  "count_option_combinations xml =
     (case after_tag ''<TestSettings>'' xml of
        None \<Rightarrow> (1, False)
      | Some settings_start \<Rightarrow>
          (case strstr settings_start ''</TestSettings>'' of
             None \<Rightarrow> (1, False)
           | Some settings_end \<Rightarrow> count_options settings_end settings_start (1, False)))"

section \<open>The scans\<close>

text \<open>The directories (in the order of \<open>readdir\<close>), which paths are directories, and the files.\<close>

record profile_tree =
  pt_dir :: "string \<Rightarrow> string list option"
  pt_is_dir :: "string \<Rightarrow> bool"
  pt_file :: "string \<Rightarrow> file_read"

text \<open>The tests of all suites, each with the names of suite and directory and the path of its definition.\<close>

definition suite_tests :: "profile_tree \<Rightarrow> string \<Rightarrow> (string \<times> string \<times> string) list option" where
  "suite_tests t profiles_dir =
     map_option (\<lambda>suites. concat (map (\<lambda>suite.
         let suite_path = take 511 (profiles_dir @ ''/'' @ suite) in
         if peek suite = CHR ''.'' \<or> \<not> pt_is_dir t suite_path then []
         else
           (case pt_dir t suite_path of
              None \<Rightarrow> []
            | Some tests \<Rightarrow>
                map (\<lambda>test. (suite, test, take 1023 (suite_path @ ''/'' @ test @ ''/test-definition.xml'')))
                  (filter (\<lambda>test. peek test \<noteq> CHR ''.'') tests))) suites))
       (pt_dir t profiles_dir)"

text \<open>\<open>strtok\<close> with a comma.\<close>

fun comma_pieces :: "string \<Rightarrow> string list" where
  "comma_pieces [] = [[]]"
| "comma_pieces (c # s) =
     (if c = CHR '','' then [] # comma_pieces s else (case comma_pieces s of [] \<Rightarrow> [[c]] | t # ts \<Rightarrow> (c # t) # ts))"

definition comma_tokens :: "string \<Rightarrow> string list" where
  "comma_tokens s = filter (\<lambda>t. t \<noteq> []) (comma_pieces s)"

definition can_need :: "string \<Rightarrow> ledger_entry \<Rightarrow> bool" where
  "can_need base e \<longleftrightarrow> \<not> le_annotated e \<and> \<not> le_dep_unavailable e \<and> equals_ci (le_name e) base"

definition mark_dependency :: "string \<Rightarrow> string \<Rightarrow> string \<Rightarrow> string \<Rightarrow> ledger_entry \<Rightarrow> ledger_entry" where
  "mark_dependency base suite test tag e =
     (if can_need base e then
        e\<lparr>le_dep_unavailable := True,
          le_dep_note := take 255 (''external dependency '' @ [CHR 0x27] @ take 40 tag @ [CHR 0x27] @
            '' not available ('' @ take 40 suite @ ''/'' @ take 80 test @ '')'')\<rparr>
      else e)"

definition scan_test_dependencies ::
  "profile_tree \<Rightarrow> string list \<Rightarrow> string \<times> string \<times> string \<Rightarrow> ledger_entry list \<Rightarrow> ledger_entry list"
where
  "scan_test_dependencies t tags test_def entries =
     (let (suite, test, path) = test_def; base = strip_version_suffix test 128 in
      if \<not> list_ex (can_need base) entries then entries
      else
        (case Option.bind (read_whole_file (pt_file t path)) (\<lambda>xml. extract_external_dependencies (cstr xml) 1024) of
           None \<Rightarrow> entries
         | Some deps \<Rightarrow>
             fold (\<lambda>tag es. let trimmed = rtrim (ltrim tag) in
                 if dep_set_contains tags trimmed then map (mark_dependency base suite test trimmed) es else es)
               (comma_tokens deps) entries))"

definition scan_phoronix_dependencies ::
  "profile_tree \<Rightarrow> string \<Rightarrow> string list \<Rightarrow> ledger_entry list \<Rightarrow> ledger_entry list"
where
  "scan_phoronix_dependencies t profiles_dir tags entries =
     (case suite_tests t profiles_dir of
        None \<Rightarrow> entries
      | Some tests \<Rightarrow> fold (scan_test_dependencies t tags) tests entries)"

definition record_combinations :: "string \<Rightarrow> string \<Rightarrow> string \<Rightarrow> int \<times> bool \<Rightarrow> ledger_entry \<Rightarrow> ledger_entry" where
  "record_combinations base suite test c e =
     (if \<not> equals_ci (le_name e) base then e
      else if \<not> le_combo_known e then
        e\<lparr>le_combo_known := True, le_combo_count := fst c, le_combo_has_freeform := snd c,
          le_combo_profile := take 127 (take 60 suite @ ''/'' @ take 60 test)\<rparr>
      else if le_combo_count e \<noteq> fst c then e\<lparr>le_combo_ambiguous := True\<rparr>
      else e)"

definition scan_test_combinations ::
  "profile_tree \<Rightarrow> string \<times> string \<times> string \<Rightarrow> ledger_entry list \<Rightarrow> ledger_entry list"
where
  "scan_test_combinations t test_def entries =
     (let (suite, test, path) = test_def; base = strip_version_suffix test 128 in
      if \<not> list_ex (\<lambda>e. equals_ci (le_name e) base) entries then entries
      else
        (case read_whole_file (pt_file t path) of
           None \<Rightarrow> entries
         | Some xml \<Rightarrow> map (record_combinations base suite test (count_option_combinations (cstr xml))) entries))"

definition scan_phoronix_option_combinations :: "profile_tree \<Rightarrow> string \<Rightarrow> ledger_entry list \<Rightarrow> ledger_entry list" where
  "scan_phoronix_option_combinations t profiles_dir entries =
     (case suite_tests t profiles_dir of
        None \<Rightarrow> entries
      | Some tests \<Rightarrow> fold (scan_test_combinations t) tests entries)"

definition resolve_profiles_dir :: "string option \<Rightarrow> string option \<Rightarrow> string option" where
  "resolve_profiles_dir given home =
     (case given of
        Some d \<Rightarrow> Some d
      | None \<Rightarrow> map_option (\<lambda>h. take 511 (h @ ''/.phoronix-test-suite/test-profiles'')) home)"

section \<open>The program\<close>

record ledger_options =
  lo_csv :: bool
  lo_quiet :: bool
  lo_strict :: bool
  lo_run_index :: "file_read list"
  lo_workload_list :: file_read
  lo_unavailable_deps :: "file_read option"
  lo_profiles_dir :: "string option"
  lo_combos :: bool

fun process_run_indexes :: "(string \<Rightarrow> bool) \<Rightarrow> file_read list \<Rightarrow> ledger_entry list \<Rightarrow> ledger_entry list option" where
  "process_run_indexes exists [] entries = Some entries"
| "process_run_indexes exists (f # fs) entries =
     (case process_run_index_file exists f entries of
        None \<Rightarrow> None
      | Some (_, es) \<Rightarrow> process_run_indexes exists fs es)"

text \<open>A run without \<open>--add\<close> and \<open>--remove\<close>: the standard output and the exit status.\<close>

definition run_ledger :: "(string \<Rightarrow> bool) \<Rightarrow> profile_tree \<Rightarrow> string option \<Rightarrow> ledger_options \<Rightarrow> string \<times> int" where
  "run_ledger exists t home opts =
     (if lo_run_index opts = [] \<or> length (lo_run_index opts) > 64 then ([], 2)
      else
        (case Option.bind (load_workload_list (lo_workload_list opts)) (process_run_indexes exists (lo_run_index opts)) of
           None \<Rightarrow> ([], 2)
         | Some es \<Rightarrow>
             let dir = resolve_profiles_dir (lo_profiles_dir opts) home;
                 combos = (\<lambda>es1. case (if lo_combos opts then dir else None) of
                     None \<Rightarrow> es1
                   | Some d \<Rightarrow> scan_phoronix_option_combinations t d es1);
                 report = (\<lambda>es1. ledger_report (lo_csv opts) (lo_quiet opts) (lo_strict opts) (combos es1))
             in case lo_unavailable_deps opts of
                  None \<Rightarrow> report es
                | Some f \<Rightarrow>
                    (case load_unavailable_deps f MAX_UNAVAILABLE_TAGS of
                       None \<Rightarrow> ([], 2)
                     | Some tags \<Rightarrow>
                         report (case dir of None \<Rightarrow> es | Some d \<Rightarrow> scan_phoronix_dependencies t d tags es))))"

end
