(* ===== verification/Ledger_Facts.thy ===== *)
theory Ledger_Facts
  imports Ledger_Profiles
begin

text \<open>
  The ledger: what its list commands do to the list, and that it counts exactly the runs whose records
  src/run_index.c appended.
\<close>

section \<open>The workload list\<close>

definition name_ok :: "string \<Rightarrow> bool" where
  "name_ok n \<longleftrightarrow>
     file_line n \<and> CR \<notin> set n \<and> TAB \<notin> set n \<and> CHR ''#'' \<notin> set n \<and> \<not> is_blank (hd n) \<and> \<not> is_blank (last n)"

text \<open>A text file: no zero bytes, no carriage returns, every line ended.\<close>

definition text_file :: "string \<Rightarrow> bool" where
  "text_file b \<longleftrightarrow> no_nul b \<and> CR \<notin> set b \<and> (b = [] \<or> last b = LF)"

lemma before_hash_id [simp]: "CHR ''#'' \<notin> set s \<Longrightarrow> before_hash s = s"
  unfolding before_hash_def by (simp add: takeWhile_eq_all_conv) metis

lemma parse_plain_name: "name_ok n \<Longrightarrow> parse_ledger_line n = Some (n, None, None)"
  using split_at_None [of TAB n]
  by (simp add: parse_ledger_line_def name_ok_def file_line_def ltrim_id rtrim_id Let_def)

lemma lf_lines_append: "lf_lines (a @ LF # b) = lf_lines (a @ [LF]) @ lf_lines b"
proof (induction a)
  case (Cons c a)
  have "lf_lines (a @ [LF]) \<noteq> []" by (cases a) (auto split: list.split)
  with Cons show ?case by (auto split: list.split)
qed simp

lemma split_lines_append:
  assumes "text_file b" and "no_nul s"
  shows "split_lines (b @ s) = split_lines b @ split_lines s"
proof (cases "b = []")
  case False
  with assms obtain a where "b = a @ [LF]" by (metis append_butlast_last_id text_file_def)
  with assms show ?thesis
    using lf_lines_append [of a s] by (simp add: split_lines_def text_file_def)
qed (simp add: split_lines_def cstr_def)

lemma split_lines_name: "name_ok n \<Longrightarrow> split_lines (n @ newline) = [n]"
  using split_lines_unlines [of "[n]"] by (simp add: name_ok_def)

lemma lf_lines_set: "set (concat (lf_lines s)) \<subseteq> set s"
proof (induction s)
  case (Cons d s)
  then show ?case by (cases "lf_lines s") auto
qed simp

lemma split_lines_file_line:
  assumes "text_file b" and "l \<in> set (split_lines b)"
  shows "file_line l"
proof -
  obtain m where m: "m \<in> set (lf_lines b)" "l = strip_cr m" "l \<noteq> []"
    using assms by (auto simp: split_lines_def text_file_def)
  have cr: "CR \<notin> set m" and "no_nul m"
    using assms(1) lf_lines_set [of b] m(1) by (auto simp: text_file_def no_nul_def)
  have "m \<noteq> []" using m(2,3) by (auto simp: strip_cr_def)
  then have "last m \<noteq> CR" using cr by (metis last_in_set)
  then have "l = m" using m(2) by (simp add: strip_cr_def)
  with \<open>last m \<noteq> CR\<close> \<open>no_nul m\<close> show ?thesis using lf_lines_no_lf [OF m(1)] m(3) by (simp add: file_line_def)
qed

lemma contains_iff:
  "list_contains_name (Contents b) m \<longleftrightarrow> (\<exists>l \<in> set (split_lines b). \<exists>r. parse_ledger_line l = Some (m, r))"
proof -
  have "(case parse_ledger_line l of None \<Rightarrow> False | Some (n, _) \<Rightarrow> n = m) \<longleftrightarrow> (\<exists>r. parse_ledger_line l = Some (m, r))" for l
    by (auto split: option.split)
  then show ?thesis by (simp add: list_contains_name_def read_whole_file_def list_ex_iff)
qed

lemma added_contains:
  assumes "name_ok n" and "text_file b"
  shows "list_contains_name (Contents (b @ snd (add_to_list True (Contents b) n))) m \<longleftrightarrow>
    m = n \<or> list_contains_name (Contents b) m"
    and "text_file (b @ snd (add_to_list True (Contents b) n))"
proof -
  have ok: "n \<noteq> []" "TAB \<notin> set n" "LF \<notin> set n" "CHR ''#'' \<notin> set n" "no_nul n" "last n \<noteq> CR"
    using assms(1) by (simp_all add: name_ok_def file_line_def)
  have "no_nul (n @ newline)" using ok by (simp add: newline_def NUL_def)
  from split_lines_append [OF assms(2) this] split_lines_name [OF assms(1)] parse_plain_name [OF assms(1)]
  have "list_contains_name (Contents (b @ n @ newline)) m \<longleftrightarrow> m = n \<or> list_contains_name (Contents b) m"
    by (auto simp: contains_iff)
  with ok show "list_contains_name (Contents (b @ snd (add_to_list True (Contents b) n))) m \<longleftrightarrow>
      m = n \<or> list_contains_name (Contents b) m"
    by (auto simp: add_to_list_def)
  show "text_file (b @ snd (add_to_list True (Contents b) n))"
    using assms ok by (auto simp: add_to_list_def text_file_def newline_LF NUL_def LF_def CR_def name_ok_def file_line_def)
qed

lemma removed_contains:
  assumes "text_file b" and "remove_from_list True (Contents b) n = (0, f)"
  shows "list_contains_name f m \<longleftrightarrow> m \<noteq> n \<and> list_contains_name (Contents b) m"
proof -
  let ?keep = "filter (\<lambda>l. \<not> names_line n l) (split_lines b)"
  have n: "n \<noteq> []" and f: "f = Contents (unlines ?keep)"
    using assms(2) by (auto simp: remove_from_list_def read_whole_file_def split: if_splits)
  have "list_all file_line ?keep" using split_lines_file_line [OF assms(1)] by (auto simp: list_all_iff)
  then have "split_lines (unlines ?keep) = ?keep" by (rule split_lines_unlines)
  then show ?thesis
    using n by (auto simp: f contains_iff names_line_def)
qed

section \<open>The records of runs\<close>

definition run_matches :: "string \<Rightarrow> manifest_info \<Rightarrow> bool" where
  "run_matches name info \<longleftrightarrow> (\<exists>a \<in> set (mf_argv info). \<exists>x y. a = x @ name @ y)"

text \<open>The output files of the run that the index names.\<close>

definition run_paths :: "manifest_info \<Rightarrow> string list" where
  "run_paths info = filter (\<lambda>p. p \<noteq> []) (List.map_filter id [mf_output_path info, mf_tree_output_path info, mf_manifest_path info])"

definition run_deleted :: "(string \<Rightarrow> bool) \<Rightarrow> manifest_info \<Rightarrow> bool" where
  "run_deleted exists info \<longleftrightarrow> run_paths info \<noteq> [] \<and> (\<forall>p \<in> set (run_paths info). \<not> exists p)"

definition run_succeeded :: "manifest_info \<Rightarrow> bool" where
  "run_succeeded info \<longleftrightarrow>
     (let es = mf_exit_status info in ex_known es \<and> ex_exited es \<and> \<not> ex_signaled es \<and> ex_exit_code es = 0)"

lemma index_members:
  "json_object_get (Some (index_json e info)) ''command'' = Some (JSON_ARRAY (map JSON_STRING (mf_argv info)))"
  "json_object_get (Some (index_json e info)) ''exit_status'' = Some (JSON_OBJECT (exit_status_json (mf_exit_status info)))"
  "json_object_get (Some (index_json e info)) ''output_files'' = Some (JSON_OBJECT
     [(''output_path'', json_of_option (mf_output_path info)), (''text_output_path'', json_of_option (mf_text_output_path info)),
      (''tree_output_path'', json_of_option (mf_tree_output_path info)), (''manifest_path'', json_of_option (mf_manifest_path info))])"
  by (simp_all add: index_json_def json_object_get_def)

lemma find_member [simp]: "json_object_get (Some (JSON_OBJECT kvs)) k = find_key kvs k"
  by (simp add: json_object_get_def)

lemma index_matches: "command_matches (index_json e info) name \<longleftrightarrow> run_matches name info"
  by (simp add: command_matches_def index_members run_matches_def list_ex_iff strstr_Some_iff [symmetric]) 

lemma option_string: "(case json_of_option s of JSON_STRING t \<Rightarrow> Some t | _ \<Rightarrow> None) = s"
  by (simp add: json_of_option_def split: option.split)

lemma index_paths: "record_paths (index_json e info) = run_paths info"
  by (simp add: record_paths_def run_paths_def index_members json_get_string_def option_string List.map_filter_def)

lemma index_deleted: "record_paths_exist exists (index_json e info) = Some False \<longleftrightarrow> run_deleted exists info"
  by (auto simp: record_paths_exist_def index_paths index_members run_deleted_def list_ex_iff)

lemma index_succeeded: "c_int (ex_exit_code (mf_exit_status info)) \<Longrightarrow> record_succeeded (index_json e info) \<longleftrightarrow> run_succeeded info"
  by (auto simp: record_succeeded_def index_members run_succeeded_def exit_status_json_def json_get_bool_def
      json_get_number_def Let_def)

text \<open>The counts of an entry after the records of some runs.\<close>

definition ledger_counts :: "ledger_entry \<Rightarrow> string \<times> nat \<times> nat \<times> nat" where
  "ledger_counts e = (le_name e, le_runs_matched e, le_runs_succeeded e, le_runs_stale e)"

definition count_runs :: "(manifest_info \<Rightarrow> bool) \<Rightarrow> (manifest_env \<times> manifest_info) list \<Rightarrow> nat" where
  "count_runs P runs = length (filter (\<lambda>(e, info). P info) runs)"

definition counted :: "(string \<Rightarrow> bool) \<Rightarrow> (manifest_env \<times> manifest_info) list \<Rightarrow> ledger_entry \<Rightarrow> string \<times> nat \<times> nat \<times> nat" where
  "counted exists runs en =
     (let name = le_name en in
      (name,
       le_runs_matched en + count_runs (\<lambda>i. run_matches name i \<and> \<not> run_deleted exists i) runs,
       le_runs_succeeded en + count_runs (\<lambda>i. run_matches name i \<and> \<not> run_deleted exists i \<and> run_succeeded i) runs,
       le_runs_stale en + count_runs (\<lambda>i. run_matches name i \<and> run_deleted exists i) runs))"

lemma update_entry_counts:
  assumes "c_int (ex_exit_code (mf_exit_status info))"
  shows "ledger_counts (update_entry exists (index_json e info) en) = counted exists [(e, info)] en"
  using index_succeeded [OF assms, of e]
  by (simp add: ledger_counts_def counted_def count_runs_def update_entry_def index_matches index_deleted Let_def)

lemma counted_Cons:
  "ledger_counts en' = counted exists [r] en \<Longrightarrow> counted exists runs en' = counted exists (r # runs) en"
  by (auto simp: ledger_counts_def counted_def count_runs_def Let_def split: prod.splits)

lemma fold_map_entries: "fold (\<lambda>v. map (g v)) vs es = map (\<lambda>en. fold g vs en) es"
  by (induction vs arbitrary: es) (simp_all add: comp_def)

lemma fold_update_counts:
  "\<forall>(e, info) \<in> set runs. c_int (ex_exit_code (mf_exit_status info)) \<Longrightarrow>
   ledger_counts (fold (update_entry exists) (map (\<lambda>(e, info). index_json e info) runs) en) = counted exists runs en"
proof (induction runs arbitrary: en)
  case Nil
  then show ?case by (simp add: ledger_counts_def counted_def count_runs_def Let_def)
next
  case (Cons r runs)
  obtain e info where r: "r = (e, info)" by fastforce
  with Cons.prems have "ledger_counts (update_entry exists (index_json e info) en) = counted exists [r] en"
    using update_entry_counts [of info exists e en] by simp
  from counted_Cons [OF this, of runs] Cons show ?case by (simp add: r)
qed


text \<open>Records appended one after the other to an empty index.\<close>

definition appended :: "(manifest_env \<times> manifest_info) list \<Rightarrow> string" where
  "appended runs = fold (\<lambda>(e, info) contents. snd (append_run_index True True e info contents)) runs []"

lemma appended_unlines: "appended runs = unlines (map (\<lambda>(e, info). json_object (index_fields e info)) runs)"
proof -
  have "fold (\<lambda>(e, info) contents. snd (append_run_index True True e info contents)) runs c =
      c @ unlines (map (\<lambda>(e, info). json_object (index_fields e info)) runs)" for c
    by (induction runs arbitrary: c) (auto simp: append_run_index_def index_record_def)
  then show ?thesis by (simp add: appended_def)
qed

lemma record_line:
  assumes "manifest_ok e info"
  shows "file_line (json_object (index_fields e info))"
proof -
  have "no_nul (json_object (index_fields e info))" using index_text [OF assms] by (simp add: json_text_def)
  moreover have "json_object (index_fields e info) \<noteq> [] \<and> last (json_object (index_fields e info)) = CHR ''}''"
    by (simp add: json_object_def)
  ultimately show ?thesis using index_line [OF assms] by (simp add: file_line_def one_line_def CR_def)
qed

lemma appended_records:
  assumes "list_all (\<lambda>(e, info). manifest_ok e info) runs"
  shows "split_lines (appended runs) = map (\<lambda>(e, info). json_object (index_fields e info)) runs"
    and "index_records (split_lines (appended runs)) = map (\<lambda>(e, info). index_json e info) runs"
proof -
  have "list_all file_line (map (\<lambda>(e, info). json_object (index_fields e info)) runs)"
    using assms by (induction runs) (auto simp: record_line)
  then show l: "split_lines (appended runs) = map (\<lambda>(e, info). json_object (index_fields e info)) runs"
    unfolding appended_unlines by (rule split_lines_unlines)
  have "json_parse (json_object (index_fields e info)) = Some (Inr (index_json e info))" if "manifest_ok e info" for e info
    using json_text_parses [OF index_text [OF that], of "[]"] by (simp add: json_ws_def)
  then have "index_records (map (\<lambda>(e, info). json_object (index_fields e info)) runs) = map (\<lambda>(e, info). index_json e info) runs"
    using assms by (induction runs) (auto simp: index_records_def List.map_filter_def)
  then show "index_records (split_lines (appended runs)) = map (\<lambda>(e, info). index_json e info) runs" using l by simp
qed

section \<open>Properties\<close>

text \<open>C4: the ledger reads an index that \<open>append_run_index\<close> wrote without losing or inventing a run: every record is
  read, and each workload counts exactly the runs with its name in an argument, those whose files are all gone as
  stale, and of the others those that exited with status 0 as successes.\<close>
theorem ledger_counts_runs:
  assumes "list_all (\<lambda>(e, info). manifest_ok e info \<and> c_int (ex_exit_code (mf_exit_status info))) runs"
  shows "map_option (map_prod id (map ledger_counts)) (process_run_index_file exists (Contents (appended runs)) entries) =
    Some (length runs, map (counted exists runs) entries)"
proof -
  have ok: "list_all (\<lambda>(e, info). manifest_ok e info) runs"
    and code: "\<forall>(e, info) \<in> set runs. c_int (ex_exit_code (mf_exit_status info))"
    using assms by (auto simp: list_all_iff)
  show ?thesis
    using fold_update_counts [OF code, of exists] appended_records(2) [OF ok]
    by (simp add: process_run_index_file_def read_whole_file_def fold_map_entries)
qed

lemma ledger_counts_runs_witness:
  "map_option (map_prod id (map ledger_counts)) (process_run_index_file (\<lambda>_. True)
     (Contents (appended [(sample_manifest_env, sample_manifest)])) [ledger_zero\<lparr>le_name := ''blender''\<rparr>]) =
   Some (1, [(''blender'', 1, 1, 0)])"
proof -
  have ok: "list_all (\<lambda>(e, info). manifest_ok e info \<and> c_int (ex_exit_code (mf_exit_status info)))
      [(sample_manifest_env, sample_manifest)]"
    using sample_manifest_ok by (simp add: c_int_def) (simp add: sample_manifest_def sample_exit_def)
  have "\<exists>x y. ''./blender'' = x @ ''blender'' @ y" by (rule exI [of _ "''./''"]) simp
  then have "run_matches ''blender'' sample_manifest" by (simp add: run_matches_def sample_manifest_def)
  moreover have "\<not> run_deleted (\<lambda>_. True) sample_manifest" by (auto simp: run_deleted_def)
  moreover have "run_succeeded sample_manifest" by (simp add: run_succeeded_def sample_manifest_def sample_exit_def)
  ultimately show ?thesis
    using ledger_counts_runs [OF ok, of "\<lambda>_. True" "[ledger_zero\<lparr>le_name := ''blender''\<rparr>]"]
    by (simp add: counted_def count_runs_def ledger_zero_def)
qed

text \<open>In a list that is a text file, a name added with \<open>--add\<close> is in the list and every other name is as before; \<open>--remove\<close>
  then takes out that name and no other, and both end with status 0.\<close>
theorem ledger_list_commands:
  assumes "name_ok n" and "text_file b" and "contents = b @ snd (add_to_list True (Contents b) n)"
  shows "fst (add_to_list True (Contents b) n) = 0 \<and>
    (\<forall>m. list_contains_name (Contents contents) m \<longleftrightarrow> m = n \<or> list_contains_name (Contents b) m) \<and>
    (\<exists>f. remove_from_list True (Contents contents) n = (0, f) \<and>
      (\<forall>m. list_contains_name f m \<longleftrightarrow> m \<noteq> n \<and> list_contains_name (Contents b) m))"
proof -
  have "fst (add_to_list True (Contents b) n) = 0"
    using assms(1) by (simp add: add_to_list_def name_ok_def file_line_def)
  moreover obtain f where f: "remove_from_list True (Contents contents) n = (0, f)"
    using assms(1) by (simp add: remove_from_list_def read_whole_file_def name_ok_def file_line_def)
  ultimately show ?thesis
    using removed_contains [OF _ f] added_contains [OF assms(1,2)] assms(3) by auto
qed

lemma ledger_list_commands_witness:
  "\<exists>f. remove_from_list True (Contents (''a'' @ newline @ snd (add_to_list True (Contents (''a'' @ newline)) ''b''))) ''b'' = (0, f) \<and>
     list_contains_name f ''a'' \<and> \<not> list_contains_name f ''b''"
proof -
  have n: "name_ok ''b''" by (simp add: name_ok_def file_line_def is_blank_def LF_def CR_def TAB_def NUL_def)
  have t: "text_file (''a'' @ newline)" by (simp add: text_file_def newline_LF NUL_def CR_def LF_def)
  have "name_ok ''a''" by (simp add: name_ok_def file_line_def is_blank_def LF_def CR_def TAB_def NUL_def)
  then have "list_contains_name (Contents (''a'' @ newline)) ''a''"
    using split_lines_name [of "''a''"] parse_plain_name [of "''a''"] by (simp add: contains_iff)
  moreover obtain f where "remove_from_list True (Contents ((''a'' @ newline) @
      snd (add_to_list True (Contents (''a'' @ newline)) ''b''))) ''b'' = (0, f)"
    and "\<forall>m. list_contains_name f m \<longleftrightarrow> m \<noteq> ''b'' \<and> list_contains_name (Contents (''a'' @ newline)) m"
    using ledger_list_commands [OF n t refl] by blast
  ultimately show ?thesis by (intro exI [of _ f]) simp
qed

section \<open>What the model shows beside\<close>

text \<open>A name is appended to a last line without a newline.\<close>

lemma add_joins_last_line:
  "add_to_list True (Contents ''foo'') ''bar'' = (0, ''bar'' @ newline) \<and>
   \<not> list_contains_name (Contents (''foo'' @ ''bar'' @ newline)) ''foo''"
proof -
  have "split_lines (''foo'' @ ''bar'' @ newline) = [''foobar'']" "split_lines ''foo'' = [''foo'']"
    by (simp_all add: split_lines_def cstr_def newline_LF NUL_def LF_def strip_cr_def CR_def)
  moreover have "parse_ledger_line ''foobar'' = Some (''foobar'', None, None)" "parse_ledger_line ''foo'' = Some (''foo'', None, None)"
    by (rule parse_plain_name, simp add: name_ok_def file_line_def is_blank_def LF_def CR_def TAB_def NUL_def)+
  ultimately show ?thesis
    by (simp add: add_to_list_def list_contains_name_def read_whole_file_def) (simp add: TAB_def LF_def)
qed

text \<open>A list without names is refused like one that cannot be read.\<close>

lemma empty_list_refused: "load_workload_list (Contents (''# none yet'' @ newline)) = None"
proof -
  have "split_lines (''# none yet'' @ newline) = [''# none yet'']"
    by (simp add: split_lines_def cstr_def newline_LF NUL_def LF_def strip_cr_def CR_def)
  moreover have "parse_ledger_line ''# none yet'' = None"
    by (simp add: parse_ledger_line_def ltrim_def is_blank_def TAB_def before_hash_def)
  ultimately show ?thesis by (simp add: load_workload_list_def read_whole_file_def List.map_filter_def)
qed

text \<open>An empty status column is skipped with its tab, so the note is taken for the status.\<close>

lemma empty_status_column: "parse_ledger_line (''a'' @ [TAB, TAB] @ ''why'') = Some (''a'', Some ''why'', None)"
  by (simp add: parse_ledger_line_def ltrim_def rtrim_def is_blank_def TAB_def before_hash_def Let_def)

end
