(* ===== verification/Archetype.thy ===== *)
theory Archetype
  imports C_Format Text_Lines
begin

text \<open>
  The scorecard of a run in src/archetype.c: thresholds on the features of the run, the ranking of its topdown
  categories, the attribution of memory stalls, and the confidence in them. The rows of the store, which SQLite
  selects and orders, are a parameter.
\<close>

section \<open>Features of a run\<close>

datatype run_feature =
    F_retire_pct | F_frontend_pct | F_backend_pct | F_speculate_pct | F_parallelism_proxy | F_active_core_count
  | F_branch_mispredict_pct | F_phase_stability | F_smt_contention_pct | F_fault_rate | F_float_pct | F_on_cpu
  | F_dcache_miss_pct | F_l2_miss_pct | F_l3_miss_pct | F_itlb_miss_per1k | F_dtlb_miss_per1k | F_ibs_dc_miss_pct
  | F_ibs_dram_pct | F_itlb_generic_miss_pct | F_dtlb_generic_miss_pct | F_ibs_dc_l1tlb_miss_pct
  | F_ibs_dc_l2tlb_miss_pct | F_ibs_remote_node_pct | F_backend_memory_pct | F_blocking_wait_pct | F_sched_rundelay_pct

definition feature_names :: "(string \<times> run_feature) list" where
  "feature_names =
     [(''retire_pct'', F_retire_pct), (''frontend_pct'', F_frontend_pct), (''backend_pct'', F_backend_pct),
      (''speculate_pct'', F_speculate_pct), (''parallelism_proxy'', F_parallelism_proxy),
      (''active_core_count'', F_active_core_count), (''branch_mispredict_pct'', F_branch_mispredict_pct),
      (''phase_stability'', F_phase_stability), (''smt_contention_pct'', F_smt_contention_pct),
      (''fault_rate'', F_fault_rate), (''float_pct'', F_float_pct), (''on_cpu'', F_on_cpu),
      (''dcache_miss_pct'', F_dcache_miss_pct), (''l2_miss_pct'', F_l2_miss_pct), (''l3_miss_pct'', F_l3_miss_pct),
      (''itlb_miss_per1k'', F_itlb_miss_per1k), (''dtlb_miss_per1k'', F_dtlb_miss_per1k),
      (''ibs_dc_miss_pct'', F_ibs_dc_miss_pct), (''ibs_dram_pct'', F_ibs_dram_pct),
      (''itlb_generic_miss_pct'', F_itlb_generic_miss_pct), (''dtlb_generic_miss_pct'', F_dtlb_generic_miss_pct),
      (''ibs_dc_l1tlb_miss_pct'', F_ibs_dc_l1tlb_miss_pct), (''ibs_dc_l2tlb_miss_pct'', F_ibs_dc_l2tlb_miss_pct),
      (''ibs_remote_node_pct'', F_ibs_remote_node_pct), (''backend_memory_pct'', F_backend_memory_pct),
      (''blocking_wait_pct'', F_blocking_wait_pct), (''sched_rundelay_pct'', F_sched_rundelay_pct)]"

text \<open>The struct has a value and a flag for each feature; here they are one function.\<close>

record run_snapshot =
  sn_run_id :: int
  sn_hostname :: string
  sn_run_id_text :: string
  sn_command :: string
  sn_value :: "run_feature \<Rightarrow> double"
  sn_have :: "run_feature \<Rightarrow> bool"

definition run_snapshot_reset :: "int \<Rightarrow> string option \<Rightarrow> string option \<Rightarrow> string option \<Rightarrow> run_snapshot" where
  "run_snapshot_reset run_id hostname run_id_text command =
     \<lparr>sn_run_id = run_id,
      sn_hostname = take 255 (case hostname of None \<Rightarrow> ''?'' | Some s \<Rightarrow> s),
      sn_run_id_text = take 127 (case run_id_text of None \<Rightarrow> ''?'' | Some s \<Rightarrow> s),
      sn_command = take 511 (case command of None \<Rightarrow> '''' | Some s \<Rightarrow> s),
      sn_value = (\<lambda>_. Fin 0), sn_have = (\<lambda>_. False)\<rparr>"

definition run_snapshot_apply_feature :: "string \<Rightarrow> double \<Rightarrow> bool \<Rightarrow> run_snapshot \<Rightarrow> run_snapshot" where
  "run_snapshot_apply_feature name v measured snap =
     (case map_of feature_names name of
        None \<Rightarrow> snap
      | Some f \<Rightarrow> snap\<lparr>sn_value := (sn_value snap)(f := v), sn_have := (sn_have snap)(f := measured)\<rparr>)"

section \<open>Thresholds\<close>

definition DOMINANCE_HIGH_MARGIN :: double where "DOMINANCE_HIGH_MARGIN = Fin 20"
definition DOMINANCE_MEDIUM_MARGIN :: double where "DOMINANCE_MEDIUM_MARGIN = Fin 10"
definition MEMORY_ATTRIBUTION_FLOOR_PCT :: double where "MEMORY_ATTRIBUTION_FLOOR_PCT = Fin 20"
definition CACHE_MISS_ELEVATED_PCT :: double where "CACHE_MISS_ELEVATED_PCT = Fin 10"
definition TLB_MISS_ELEVATED_PER1K :: double where "TLB_MISS_ELEVATED_PER1K = Fin 5"
definition SMT_CONTENTION_ELEVATED_PCT :: double where "SMT_CONTENTION_ELEVATED_PCT = Fin 5"
definition IBS_DC_MISS_ELEVATED_PCT :: double where "IBS_DC_MISS_ELEVATED_PCT = Fin 10"
definition IBS_DRAM_ELEVATED_PCT :: double where "IBS_DRAM_ELEVATED_PCT = Fin 10"
definition IBS_REMOTE_NODE_ELEVATED_PCT :: double where "IBS_REMOTE_NODE_ELEVATED_PCT = Fin 10"
definition IBS_TLB_MISS_ELEVATED_PCT :: double where "IBS_TLB_MISS_ELEVATED_PCT = Fin 10"
definition BLOCKING_WAIT_ELEVATED_PCT :: double where "BLOCKING_WAIT_ELEVATED_PCT = Fin 20"
definition SCHED_RUNDELAY_ELEVATED_PCT :: double where "SCHED_RUNDELAY_ELEVATED_PCT = Fin 20"

abbreviation HUGE_VAL :: double where "HUGE_VAL \<equiv> Inf False"

type_synonym threshold_rule = "double \<times> string"

definition PARALLELISM_RULES :: "threshold_rule list" where
  "PARALLELISM_RULES = [(dlit (15 / 100), ''balanced-parallel''), (HUGE_VAL, ''imbalanced'')]"

definition CONTROL_FLOW_RULES :: "threshold_rule list" where
  "CONTROL_FLOW_RULES = [(Fin 2, ''straight-line''), (HUGE_VAL, ''branch-heavy'')]"

definition STABILITY_RULES :: "threshold_rule list" where
  "STABILITY_RULES = [(dlit (4 / 10), ''erratic''), (dlit (8 / 10), ''phased''), (HUGE_VAL, ''steady'')]"

definition ALLOCATION_PRESSURE_RULES :: "threshold_rule list" where
  "ALLOCATION_PRESSURE_RULES = [(Fin 15000, ''low''), (Fin 100000, ''moderate''), (HUGE_VAL, ''high'')]"

definition VECTORIZATION_DENSITY_RULES :: "threshold_rule list" where
  "VECTORIZATION_DENSITY_RULES = [(Fin 2, ''low''), (Fin 10, ''moderate''), (HUGE_VAL, ''high'')]"

definition CORE_UTILIZATION_RULES :: "threshold_rule list" where
  "CORE_UTILIZATION_RULES = [(dlit (1 / 2), ''low''), (dlit (8 / 10), ''moderate''), (HUGE_VAL, ''high'')]"

definition SIMPLE_AXIS_KEYS :: "string list" where
  "SIMPLE_AXIS_KEYS =
     [''parallelism_shape'', ''control_flow_style'', ''runtime_stability'', ''allocation_pressure'',
      ''vectorization_density'', ''core_utilization'']"

text \<open>The first rule the value does not exceed; the last one takes everything.\<close>

fun first_rule :: "double \<Rightarrow> threshold_rule list \<Rightarrow> string" where
  "first_rule v [] = []"
| "first_rule v [(_, label)] = label"
| "first_rule v ((m, label) # r # rs) = (if dle v m then label else first_rule v (r # rs))"

text \<open>The label and whether it is available.\<close>

definition classify_simple_axis :: "double \<Rightarrow> bool \<Rightarrow> threshold_rule list \<Rightarrow> string \<times> bool" where
  "classify_simple_axis v available rules = (if available then first_rule v rules else ''unknown'', available)"

section \<open>Resource dominance\<close>

record dominance_result =
  dm_available :: bool
  dm_primary_label :: string
  dm_primary_pct :: double
  dm_has_alternative :: bool
  dm_alternative_label :: string
  dm_alternative_pct :: double

text \<open>The best and the second best so far.\<close>

definition rank_step ::
  "(string \<times> double) \<Rightarrow> (string \<times> double) option \<times> (string \<times> double) option \<Rightarrow>
   (string \<times> double) option \<times> (string \<times> double) option"
where
  "rank_step c bs =
     (let (best, second) = bs in
      case best of
        None \<Rightarrow> (Some c, best)
      | Some b \<Rightarrow>
          if dlt (snd b) (snd c) then (Some c, best)
          else
            (case second of
               None \<Rightarrow> (best, Some c)
             | Some s \<Rightarrow> if dlt (snd s) (snd c) then (best, Some c) else (best, second)))"

definition classify_resource_dominance :: "(string \<times> double \<times> bool) list \<Rightarrow> dominance_result" where
  "classify_resource_dominance cands =
     (let none = \<lparr>dm_available = False, dm_primary_label = [], dm_primary_pct = Fin 0, dm_has_alternative = False,
                  dm_alternative_label = [], dm_alternative_pct = Fin 0\<rparr>;
          (best, second) = fold rank_step (map (\<lambda>(l, v, _). (l, v)) (filter (\<lambda>(_, _, h). h) cands)) (None, None)
      in case best of
           None \<Rightarrow> none
         | Some (l, v) \<Rightarrow>
             let r = none\<lparr>dm_available := True, dm_primary_label := l, dm_primary_pct := v\<rparr> in
             (case second of
                None \<Rightarrow> r
              | Some (l2, v2) \<Rightarrow>
                  r\<lparr>dm_has_alternative := True, dm_alternative_label := l2, dm_alternative_pct := v2\<rparr>))"

definition dominance_candidates :: "run_snapshot \<Rightarrow> (string \<times> double \<times> bool) list" where
  "dominance_candidates snap =
     [(''compute-bound'', sn_value snap F_retire_pct, sn_have snap F_retire_pct),
      (''frontend-bound'', sn_value snap F_frontend_pct, sn_have snap F_frontend_pct),
      (''memory-bound'', sn_value snap F_backend_pct, sn_have snap F_backend_pct),
      (''speculation-bound'', sn_value snap F_speculate_pct, sn_have snap F_speculate_pct)]"

section \<open>Reasons\<close>

text \<open>A buffer filled by \<open>used += snprintf(buf+used,cap-used,...)\<close>: what it holds, and how much was meant to be
  written. \<open>None\<close> once \<open>used\<close> exceeds the size, when the difference wraps and the next call would write behind the
  buffer.\<close>

definition reason_append :: "nat \<Rightarrow> string \<Rightarrow> (string \<times> nat) option \<Rightarrow> (string \<times> nat) option" where
  "reason_append cap t b =
     (case b of
        None \<Rightarrow> None
      | Some (buf, used) \<Rightarrow>
          if used > cap then None
          else Some (take (cap - 1) (buf @ t), used + length t))"

definition reason_item :: "nat \<Rightarrow> string \<Rightarrow> (string \<times> nat) option \<Rightarrow> (string \<times> nat) option" where
  "reason_item cap t b =
     reason_append cap ((case b of Some (_, used) \<Rightarrow> if used > 0 then '','' else [] | None \<Rightarrow> []) @ t) b"

definition reason_items :: "nat \<Rightarrow> string list \<Rightarrow> string option" where
  "reason_items cap ts = map_option fst (fold (reason_item cap) ts (Some ([], 0)))"

text \<open>The level and the reasons.\<close>

definition compute_overall_confidence :: "dominance_result \<Rightarrow> (string \<times> bool) list \<Rightarrow> (string \<times> string) option" where
  "compute_overall_confidence dm simple =
     (if \<not> dm_available dm then Some (''insufficient-data'', ''no-topdown-data'')
      else
        (let margin = (if dm_has_alternative dm then dsub (dm_primary_pct dm) (dm_alternative_pct dm)
                       else dm_primary_pct dm);
             known = length (filter snd simple);
             level = (if dle DOMINANCE_HIGH_MARGIN margin \<and> known \<ge> 2 then ''high''
                      else if dle DOMINANCE_MEDIUM_MARGIN margin \<and> known \<ge> 1 then ''medium''
                      else ''low'')
         in map_option (Pair level)
              (reason_items 256
                ((if dlt margin DOMINANCE_HIGH_MARGIN then [''narrow-margin''] else []) @
                 map (\<lambda>(key, _). ''missing-'' @ key @ ''-data'')
                   (filter (\<lambda>(_, s). \<not> snd s) (zip SIMPLE_AXIS_KEYS simple))))))"

section \<open>Memory attribution\<close>

record memory_attribution_result =
  ma_available :: bool
  ma_label :: string
  ma_reasons :: string
  ma_locus :: string
  ma_locus_reasons :: string

type_synonym memory_signal = "string \<times> run_feature \<times> double"

text \<open>The signals with the thresholds above which they are elevated.\<close>

definition mem_signals :: "memory_signal list" where
  "mem_signals =
     [(''dcache_miss_pct'', F_dcache_miss_pct, CACHE_MISS_ELEVATED_PCT),
      (''l2_miss_pct'', F_l2_miss_pct, CACHE_MISS_ELEVATED_PCT),
      (''l3_miss_pct'', F_l3_miss_pct, CACHE_MISS_ELEVATED_PCT),
      (''itlb_miss_per1k'', F_itlb_miss_per1k, TLB_MISS_ELEVATED_PER1K),
      (''dtlb_miss_per1k'', F_dtlb_miss_per1k, TLB_MISS_ELEVATED_PER1K),
      (''itlb_generic_miss_pct'', F_itlb_generic_miss_pct, CACHE_MISS_ELEVATED_PCT),
      (''dtlb_generic_miss_pct'', F_dtlb_generic_miss_pct, CACHE_MISS_ELEVATED_PCT),
      (''ibs_dc_miss_pct'', F_ibs_dc_miss_pct, IBS_DC_MISS_ELEVATED_PCT),
      (''ibs_dram_pct'', F_ibs_dram_pct, IBS_DRAM_ELEVATED_PCT),
      (''smt_contention_pct'', F_smt_contention_pct, SMT_CONTENTION_ELEVATED_PCT)]"

definition value_reason :: "run_snapshot \<Rightarrow> string \<Rightarrow> run_feature \<Rightarrow> string" where
  "value_reason snap name f = name @ ''='' @ fmt_g 4 (sn_value snap f)"

definition measured_signals :: "run_snapshot \<Rightarrow> memory_signal list" where
  "measured_signals snap = filter (\<lambda>(_, f, _). sn_have snap f) mem_signals"

definition elevated_signals :: "run_snapshot \<Rightarrow> memory_signal list" where
  "elevated_signals snap = filter (\<lambda>(_, f, t). \<not> dlt (sn_value snap f) t) (measured_signals snap)"

definition attribution_none :: memory_attribution_result where
  "attribution_none =
     \<lparr>ma_available = False, ma_label = ''unknown'', ma_reasons = [], ma_locus = [], ma_locus_reasons = []\<rparr>"

definition classify_memory_attribution :: "run_snapshot \<Rightarrow> memory_attribution_result option" where
  "classify_memory_attribution snap =
     (let elevated = elevated_signals snap; measured = measured_signals snap;
          result = (\<lambda>label reasons. attribution_none\<lparr>ma_available := True, ma_label := label, ma_reasons := reasons\<rparr>)
      in if \<not> sn_have snap F_backend_pct then Some attribution_none
         else if dlt (sn_value snap F_backend_pct) MEMORY_ATTRIBUTION_FLOOR_PCT then Some (result ''not-memory-bound'' [])
         else if sn_have snap F_blocking_wait_pct \<and> dle BLOCKING_WAIT_ELEVATED_PCT (sn_value snap F_blocking_wait_pct) then
           Some (result ''blocked'' (take 255 (value_reason snap ''blocking_wait_pct'' F_blocking_wait_pct)))
         else if sn_have snap F_sched_rundelay_pct \<and> dle SCHED_RUNDELAY_ELEVATED_PCT (sn_value snap F_sched_rundelay_pct) then
           Some (result ''oversubscribed'' (take 255 (value_reason snap ''sched_rundelay_pct'' F_sched_rundelay_pct)))
         else if elevated \<noteq> [] then
           map_option (result ''corroborated'')
             (reason_items 256 (map (\<lambda>(name, f, _). value_reason snap name f) elevated))
         else if measured = [] then Some (result ''unknown'' [])
         else
           map_option (result ''uncorroborated'') (reason_items 256 (map (\<lambda>(name, _, _). ''checked:'' @ name) measured)))"

text \<open>The tier of IBS samples: the label and the values named for it, if anything is elevated.\<close>

definition ibs_locus :: "run_snapshot \<Rightarrow> (string \<times> string list) option" where
  "ibs_locus snap =
     (let v = sn_value snap; have_f = sn_have snap; why = (\<lambda>name f. '','' @ value_reason snap name f) in
      if have_f F_ibs_remote_node_pct \<and> dle IBS_REMOTE_NODE_ELEVATED_PCT (v F_ibs_remote_node_pct) then
        Some (''remote-numa'', [why ''ibs_remote_node_pct'' F_ibs_remote_node_pct])
      else if have_f F_ibs_dram_pct \<and> dle IBS_DRAM_ELEVATED_PCT (v F_ibs_dram_pct) then
        Some (''dram'', [why ''ibs_dram_pct'' F_ibs_dram_pct])
      else if have_f F_ibs_dram_pct then
        (if dle IBS_DC_MISS_ELEVATED_PCT (dsub (v F_ibs_dc_miss_pct) (v F_ibs_dram_pct)) then
           Some (''l2-l3'', [why ''ibs_dc_miss_pct'' F_ibs_dc_miss_pct, why ''ibs_dram_pct'' F_ibs_dram_pct])
         else if dle IBS_DC_MISS_ELEVATED_PCT (v F_ibs_dc_miss_pct) then
           Some (''l1'', [why ''ibs_dc_miss_pct'' F_ibs_dc_miss_pct])
         else None)
      else if dle IBS_DC_MISS_ELEVATED_PCT (v F_ibs_dc_miss_pct) then
        Some (''l1'', [why ''ibs_dc_miss_pct'' F_ibs_dc_miss_pct])
      else None)"

definition cache_locus :: "run_snapshot \<Rightarrow> (string \<times> string list) option" where
  "cache_locus snap =
     (let v = sn_value snap; have_f = sn_have snap; why = (\<lambda>name f. '','' @ value_reason snap name f) in
      if have_f F_l3_miss_pct \<and> dle CACHE_MISS_ELEVATED_PCT (v F_l3_miss_pct) then
        Some (''dram'', [why ''l3_miss_pct'' F_l3_miss_pct])
      else if have_f F_l2_miss_pct \<and> dle CACHE_MISS_ELEVATED_PCT (v F_l2_miss_pct) then
        Some (''l2-l3'', [why ''l2_miss_pct'' F_l2_miss_pct])
      else if have_f F_dcache_miss_pct \<and> dle CACHE_MISS_ELEVATED_PCT (v F_dcache_miss_pct) then
        Some (''l1'', [why ''dcache_miss_pct'' F_dcache_miss_pct])
      else None)"

text \<open>The text of a tier in the buffer of 160 bytes.\<close>

definition locus_text :: "string \<Rightarrow> string list \<Rightarrow> bool \<Rightarrow> string option" where
  "locus_text tier whys tlb =
     map_option fst (fold (reason_append 160) (whys @ (if tlb then ['',tlb-cofire''] else [])) (Some (tier, length tier)))"

definition classify_memory_locus ::
  "run_snapshot \<Rightarrow> memory_attribution_result \<Rightarrow> memory_attribution_result option"
where
  "classify_memory_locus snap attr =
     (let unknown = attr\<lparr>ma_locus := ''unknown'', ma_locus_reasons := []\<rparr>;
          v = sn_value snap; have_f = sn_have snap;
          found_at = (\<lambda>label text. attr\<lparr>ma_locus := label, ma_locus_reasons := text\<rparr>)
      in if ma_label attr \<noteq> ''corroborated'' then Some unknown
         else if \<not> have_f F_backend_memory_pct then
           Some (unknown\<lparr>ma_locus_reasons := ''missing-backend_memory_pct''\<rparr>)
         else if dlt (v F_backend_memory_pct) MEMORY_ATTRIBUTION_FLOOR_PCT then Some unknown
         else
           (case (if have_f F_ibs_dc_miss_pct then ibs_locus snap else None) of
              Some (label, whys) \<Rightarrow>
                map_option (found_at label)
                  (locus_text ''tier=ibs-sample'' whys
                    (have_f F_ibs_dc_l1tlb_miss_pct \<and> dle IBS_TLB_MISS_ELEVATED_PCT (v F_ibs_dc_l1tlb_miss_pct) \<or>
                     have_f F_ibs_dc_l2tlb_miss_pct \<and> dle IBS_TLB_MISS_ELEVATED_PCT (v F_ibs_dc_l2tlb_miss_pct)))
            | None \<Rightarrow>
                (case cache_locus snap of
                   None \<Rightarrow> Some unknown
                 | Some (label, whys) \<Rightarrow>
                     map_option (found_at label)
                       (locus_text ''tier=cache-counter'' whys
                         (have_f F_dtlb_generic_miss_pct \<and>
                          dle CACHE_MISS_ELEVATED_PCT (v F_dtlb_generic_miss_pct))))))"

section \<open>The scorecard\<close>

record scorecard =
  sc_dominance :: dominance_result
  sc_simple :: "(string \<times> bool) list"
  sc_confidence :: "string \<times> string"
  sc_memory_attribution :: memory_attribution_result

definition simple_axes :: "run_snapshot \<Rightarrow> (string \<times> bool) list" where
  "simple_axes snap =
     map (\<lambda>(f, rules). classify_simple_axis (sn_value snap f) (sn_have snap f) rules)
       [(F_parallelism_proxy, PARALLELISM_RULES), (F_branch_mispredict_pct, CONTROL_FLOW_RULES),
        (F_phase_stability, STABILITY_RULES), (F_fault_rate, ALLOCATION_PRESSURE_RULES),
        (F_float_pct, VECTORIZATION_DENSITY_RULES), (F_on_cpu, CORE_UTILIZATION_RULES)]"

text \<open>\<open>None\<close> if a buffer of reasons would overflow.\<close>

definition score_snapshot :: "run_snapshot \<Rightarrow> scorecard option" where
  "score_snapshot snap =
     (let dm = classify_resource_dominance (dominance_candidates snap); simple = simple_axes snap in
      case Option.bind (classify_memory_attribution snap) (classify_memory_locus snap) of
        None \<Rightarrow> None
      | Some attr \<Rightarrow>
          map_option (\<lambda>conf. \<lparr>sc_dominance = dm, sc_simple = simple, sc_confidence = conf, sc_memory_attribution = attr\<rparr>)
            (compute_overall_confidence dm simple))"

end
