(* ===== verification/Archetype_Report.thy ===== *)
theory Archetype_Report
  imports Archetype Json_Text
begin

text \<open>
  The reports of src/archetype.c: one row for each run of the store, or the scorecard of one run as lines of keys and
  values, from the store or from a JSON document.
\<close>

section \<open>Rows\<close>

text \<open>\<open>%-<w>.<w>s\<close>.\<close>

definition fixed_width :: "nat \<Rightarrow> string \<Rightarrow> string" where
  "fixed_width w s = pad_right w (take w s)"

definition primary_text :: "scorecard \<Rightarrow> string" where
  "primary_text sc =
     (if dm_available (sc_dominance sc) then dm_primary_label (sc_dominance sc) else ''unknown'')"

definition axis_label :: "scorecard \<Rightarrow> nat \<Rightarrow> string" where
  "axis_label sc i = fst (sc_simple sc ! i)"

definition print_scorecard_row :: "run_snapshot \<Rightarrow> scorecard \<Rightarrow> bool \<Rightarrow> string" where
  "print_scorecard_row snap sc csvflag =
     (let d = sc_dominance sc; m = sc_memory_attribution sc;
          alt = (if dm_has_alternative d then dm_alternative_label d else []) in
      if csvflag then
        join_text '',''
          ([print_csv_field (sn_hostname snap), print_csv_field (sn_run_id_text snap), print_csv_field (sn_command snap),
            print_csv_field (primary_text sc), if dm_available d then fmt_g 6 (dm_primary_pct d) else [],
            print_csv_field alt, if dm_has_alternative d then fmt_g 6 (dm_alternative_pct d) else []] @
           map (\<lambda>i. print_csv_field (axis_label sc i)) [0..<6] @
           map print_csv_field
             [fst (sc_confidence sc), snd (sc_confidence sc), ma_label m, ma_reasons m, ma_locus m, ma_locus_reasons m])
        @ newline
      else
        join_text '' ''
          [fixed_width 24 (sn_hostname snap), fixed_width 20 (sn_run_id_text snap), fixed_width 28 (sn_command snap),
           pad_right 18 (primary_text sc), pad_right 18 alt, pad_right 16 (axis_label sc 0), pad_right 14 (axis_label sc 1),
           pad_right 9 (axis_label sc 2), pad_right 10 (axis_label sc 3), pad_right 12 (axis_label sc 4),
           pad_right 11 (axis_label sc 5), pad_right 8 (fst (sc_confidence sc)),
           fixed_width 30 (snd (sc_confidence sc)) @ ''  '' @ pad_right 16 (ma_label m) @ ''  '' @
           pad_right 16 (ma_reasons m) @ ''  '' @ ma_locus m] @
        (if ma_locus_reasons m \<noteq> [] then ''  '' @ ma_locus_reasons m else []) @ newline)"

definition score_header :: "bool \<Rightarrow> string" where
  "score_header csvflag =
     (if csvflag then
        ''hostname,run_id,command,resource_dominance,resource_dominance_pct,'' @
        ''alternative,alternative_pct,parallelism_shape,control_flow_style,'' @
        ''runtime_stability,allocation_pressure,vectorization_density,core_utilization,'' @
        ''confidence,confidence_reasons,memory_attribution,memory_attribution_reasons,'' @
        ''memory_attribution_locus,memory_attribution_locus_reasons'' @ newline
      else
        join_text '' ''
          [fixed_width 24 ''hostname'', fixed_width 20 ''run_id'', fixed_width 28 ''command'',
           pad_right 18 ''resource_dominance'', pad_right 18 ''alternative'', pad_right 16 ''parallelism'',
           pad_right 14 ''control_flow'', pad_right 9 ''stability'', pad_right 10 ''alloc_pressure'',
           pad_right 12 ''vec_density'', pad_right 11 ''core_util'', pad_right 8 ''conf.'',
           pad_right 30 ''reasons'' @ ''  '' @ pad_right 16 ''mem_attribution'' @ ''  '' @
           pad_right 16 ''mem_attr_reasons'' @ ''  '' @ ''mem_locus'' @ ''  mem_locus_reasons''] @ newline)"

section \<open>All runs\<close>

text \<open>A row of the query, ordered by the run.\<close>

record store_row =
  sr_run_id :: int
  sr_hostname :: "string option"
  sr_run_id_text :: "string option"
  sr_command :: "string option"
  sr_feature :: "string option"
  sr_value :: double
  sr_coverage :: "string option"

definition apply_feature_row :: "string option \<times> double \<times> string option \<Rightarrow> run_snapshot \<Rightarrow> run_snapshot" where
  "apply_feature_row row snap =
     (let (name, v, coverage) = row in
      case name of None \<Rightarrow> snap | Some n \<Rightarrow> run_snapshot_apply_feature n v (coverage = Some ''measured'') snap)"

definition scored_row :: "bool \<Rightarrow> run_snapshot \<Rightarrow> string option" where
  "scored_row csvflag snap = map_option (\<lambda>sc. print_scorecard_row snap sc csvflag) (score_snapshot snap)"

text \<open>The loop over the rows: the snapshot being assembled is scored when the next run begins and at the end.\<close>

fun score_rows :: "bool \<Rightarrow> run_snapshot option \<Rightarrow> store_row list \<Rightarrow> string list option" where
  "score_rows csvflag snap [] =
     (case snap of None \<Rightarrow> Some [] | Some s \<Rightarrow> map_option (\<lambda>t. [t]) (scored_row csvflag s))"
| "score_rows csvflag snap (r # rs) =
     (let fresh = run_snapshot_reset (sr_run_id r) (sr_hostname r) (sr_run_id_text r) (sr_command r);
          row = (sr_feature r, sr_value r, sr_coverage r) in
      case snap of
        None \<Rightarrow> score_rows csvflag (Some (apply_feature_row row fresh)) rs
      | Some s \<Rightarrow>
          if sn_run_id s = sr_run_id r then score_rows csvflag (Some (apply_feature_row row s)) rs
          else
            (case scored_row csvflag s of
               None \<Rightarrow> None
             | Some t \<Rightarrow> map_option (Cons t) (score_rows csvflag (Some (apply_feature_row row fresh)) rs)))"

text \<open>The text and the number of rows.\<close>

definition score_runs :: "bool \<Rightarrow> store_row list \<Rightarrow> (string \<times> nat) option" where
  "score_runs csvflag rows =
     map_option (\<lambda>ts. (score_header csvflag @ concat ts, length ts)) (score_rows csvflag None rows)"

section \<open>One run\<close>

text \<open>\<open><hostname>:<run_id>\<close>, neither part empty; the host name is cut to 255 characters.\<close>

definition split_key :: "string \<Rightarrow> (string \<times> string) option" where
  "split_key key =
     (let host = takeWhile (\<lambda>c. c \<noteq> CHR '':'') key; rest = drop (length host) key in
      if rest = [] \<or> host = [] \<or> tl rest = [] then None else Some (take 255 host, tl rest))"

definition print_trace_field :: "string \<Rightarrow> string \<Rightarrow> string" where
  "print_trace_field key v = key @ ''='' @ map (\<lambda>c. if c = LF \<or> c = CR then CHR '' '' else c) v @ newline"

definition print_scorecard_fields :: "string \<Rightarrow> string \<Rightarrow> string \<Rightarrow> scorecard \<Rightarrow> string" where
  "print_scorecard_fields hostname run_id_text command sc =
     (let d = sc_dominance sc; m = sc_memory_attribution sc in
      print_trace_field ''hostname'' hostname @ print_trace_field ''run_id'' run_id_text @
      print_trace_field ''command'' command @ print_trace_field ''resource_dominance'' (primary_text sc) @
      (if dm_available d then
         print_trace_field ''resource_dominance_pct'' (take 31 (fmt_fixed 2 (dm_primary_pct d))) else []) @
      (if dm_has_alternative d then
         print_trace_field ''alternative'' (dm_alternative_label d) @
         print_trace_field ''alternative_pct'' (take 31 (fmt_fixed 2 (dm_alternative_pct d))) else []) @
      concat (map (\<lambda>(i, key). print_trace_field key (axis_label sc i)) (enumerate 0 SIMPLE_AXIS_KEYS)) @
      print_trace_field ''confidence'' (fst (sc_confidence sc)) @
      print_trace_field ''confidence_reasons'' (snd (sc_confidence sc)) @
      print_trace_field ''memory_attribution'' (ma_label m) @
      print_trace_field ''memory_attribution_reasons'' (ma_reasons m) @
      print_trace_field ''memory_attribution_locus'' (ma_locus m) @
      print_trace_field ''memory_attribution_locus_reasons'' (ma_locus_reasons m))"

text \<open>The run found in the store, if any, and its feature rows in the order SQLite gives them; the exit status and the
  text.\<close>

definition trace_run_snapshot ::
  "int \<Rightarrow> string \<Rightarrow> string \<Rightarrow> string option \<Rightarrow> (string option \<times> double \<times> string option) list \<Rightarrow> run_snapshot"
where
  "trace_run_snapshot run_id hostname run_id_text command feature_rows =
     fold apply_feature_row feature_rows
       (run_snapshot_reset run_id (Some hostname) (Some run_id_text)
         (Some (take 511 (case command of None \<Rightarrow> [] | Some c \<Rightarrow> c))))"

definition trace_run_archetype ::
  "(int \<times> string option) option \<Rightarrow> (string option \<times> double \<times> string option) list \<Rightarrow> string \<Rightarrow> string \<Rightarrow>
   (int \<times> string) option"
where
  "trace_run_archetype found feature_rows hostname run_id_text =
     (case found of
        None \<Rightarrow> Some (1, [])
      | Some (run_id, command) \<Rightarrow>
          map_option (\<lambda>sc. (0, print_scorecard_fields hostname run_id_text
              (take 511 (case command of None \<Rightarrow> [] | Some c \<Rightarrow> c)) sc))
            (score_snapshot (trace_run_snapshot run_id hostname run_id_text command feature_rows)))"

definition guest_snapshot :: "(string \<times> json_value) list \<Rightarrow> run_snapshot" where
  "guest_snapshot kvs =
     fold (\<lambda>(k, v) snap. case v of JSON_NUMBER n \<Rightarrow> run_snapshot_apply_feature k n True snap | _ \<Rightarrow> snap) kvs
       (run_snapshot_reset 0 (Some ''(guest)'') (Some ''(guest)'') (Some ''''))"

text \<open>The outer \<open>None\<close> is a buffer overflow or a parser out of fuel.\<close>

definition run_guest_archetype :: "file_read \<Rightarrow> (int \<times> string) option" where
  "run_guest_archetype f =
     (case json_parse_file f of
        None \<Rightarrow> None
      | Some (Inr (JSON_OBJECT kvs)) \<Rightarrow>
          map_option (\<lambda>sc. (0, print_scorecard_fields ''(guest)'' ''(guest)'' '''' sc)) (score_snapshot (guest_snapshot kvs))
      | Some _ \<Rightarrow> Some (1, []))"

end
