(* ===== verification/C_Format_Width.thy ===== *)
theory C_Format_Width
  imports C_Format C_Time
begin

text \<open>
  How long a double is when \<open>%.<n>g\<close> prints it: the decimal exponent is the right one, so the digits are as many as
  asked for, and the exponent of a double has at most three digits.
\<close>

section \<open>The decimal exponent\<close>

lemma dec_bounds: "0 < n \<Longrightarrow> 10 ^ (length (dec n) - 1) \<le> n \<and> n < 10 ^ length (dec n)"
proof
  assume n: "0 < n"
  show "10 ^ (length (dec n) - 1) \<le> n"
  proof (rule ccontr)
    assume less: "\<not> 10 ^ (length (dec n) - 1) \<le> n"
    then have "0 < length (dec n) - 1" using n by (cases "length (dec n) - 1") auto
    then have "length (dec n) \<le> length (dec n) - 1" using less by (intro dec_length) auto
    then show False using dec_nonempty [of n] by (cases "dec n") auto
  qed
  have "digits_value 10 (dec n) < 10 ^ length (dec n)" by (rule digits_value_less) (use dec_digits in auto)
  then show "n < 10 ^ length (dec n)" by (simp add: dec_value)
qed

lemma int_bounds:
  assumes "0 < n"
  shows "(10 :: rat) ^ (length (dec (nat n)) - 1) \<le> of_int n \<and> of_int n < (10 :: rat) ^ length (dec (nat n))"
proof -
  have "(of_nat (10 ^ (length (dec (nat n)) - 1)) :: rat) \<le> of_nat (nat n)"
    "(of_nat (nat n) :: rat) < of_nat (10 ^ length (dec (nat n)))"
    using dec_bounds [of "nat n"] assms by (simp_all only: of_nat_le_iff of_nat_less_iff)
  then show ?thesis using assms by simp
qed

lemma pow10_powi: "pow10 e = 10 powi e"
  by (simp add: pow10_def power_int_def power_one_over inverse_eq_divide)

lemma ilog10_bounds:
  assumes "0 < q"
  shows "10 powi ilog10 q \<le> q \<and> q < 10 powi (ilog10 q + 1)"
proof -
  obtain n d where nd: "quotient_of q = (n, d)" by (cases "quotient_of q")
  then have d: "0 < d" by (rule quotient_of_denom_pos)
  have q: "q = of_int n / of_int d" by (rule quotient_of_div [OF nd])
  then have n: "0 < n" using assms d by (simp add: zero_less_divide_iff)
  define a b where "a = length (dec (nat n))" and "b = length (dec (nat d))"
  have ab: "0 < a" "0 < b" by (simp_all add: a_def b_def)
  have nb: "(10 :: rat) ^ (a - 1) \<le> of_int n" "of_int n < (10 :: rat) ^ a" "(10 :: rat) ^ (b - 1) \<le> of_int d"
      "of_int d < (10 :: rat) ^ b"
    using int_bounds [OF n] int_bounds [OF d] by (simp_all add: a_def b_def)
  have dpos: "(0 :: rat) < of_int d" using d by simp
  have shift: "(10 :: rat) powi (int a - int b) * 10 ^ b = 10 ^ a" for a b
    by (simp add: power_int_diff)
  have "q * 10 ^ (b - 1) \<le> q * of_int d" using nb(3) assms by (simp add: mult_left_mono)
  also have "\<dots> < 10 ^ a" using nb(2) dpos by (simp add: q)
  also have "\<dots> = 10 powi (int a - int (b - 1)) * 10 ^ (b - 1)" by (rule shift [symmetric])
  finally have upper: "q < 10 powi (int a - int b + 1)" using ab(2) by (simp add: of_nat_diff algebra_simps)
  have "10 powi (int (a - 1) - int b) * 10 ^ b = (10 :: rat) ^ (a - 1)" by (rule shift)
  also have "\<dots> \<le> q * of_int d" using nb(1) dpos by (simp add: q)
  also have "\<dots> \<le> q * 10 ^ b" using nb(4) assms by (simp add: mult_left_mono)
  finally have lower: "10 powi (int a - int b - 1) \<le> q" using ab(1) by (simp add: of_nat_diff algebra_simps)
  have "ilog10 q = (if 10 powi (int a - int b) \<le> q then int a - int b else int a - int b - 1)"
    by (simp add: ilog10_def nd a_def b_def pow10_powi)
  then show ?thesis using upper lower by (simp add: not_le)
qed

section \<open>The length\<close>

text \<open>A finite double is zero or its magnitude is between the least subnormal and \<open>2^1024\<close>.\<close>

definition double_range :: "double \<Rightarrow> bool" where
  "double_range x \<longleftrightarrow>
     (case x of Fin q \<Rightarrow> q = 0 \<or> 1 / 2 ^ 1074 \<le> \<bar>q\<bar> \<and> \<bar>q\<bar> < double_limit | _ \<Rightarrow> True)"

lemma double_exponent:
  assumes "0 < q" "1 / 2 ^ 1074 \<le> q" "q < double_limit"
  shows "-324 \<le> ilog10 q \<and> ilog10 q \<le> 308"
proof
  have b: "10 powi ilog10 q \<le> q" "q < 10 powi (ilog10 q + 1)" using ilog10_bounds [OF assms(1)] by simp_all
  show "ilog10 q \<le> 308"
  proof (rule ccontr)
    assume "\<not> ilog10 q \<le> 308"
    then have "(10 :: rat) powi 309 \<le> 10 powi ilog10 q" by (intro power_int_increasing) auto
    then show False using b(1) assms(3) by (simp add: double_limit_def)
  qed
  show "-324 \<le> ilog10 q"
  proof (rule ccontr)
    assume "\<not> -324 \<le> ilog10 q"
    then have "(10 :: rat) powi (ilog10 q + 1) \<le> 10 powi (-324)" by (intro power_int_increasing) auto
    also have "(10 :: rat) powi (-324) = inverse (10 ^ 324)" by (simp only: power_int_minus power_int_numeral)
    also have "\<dots> \<le> inverse (2 ^ 1074)" by (rule le_imp_inverse_le) simp_all
    also have "\<dots> = 1 / 2 ^ 1074" by (rule inverse_eq_divide)
    finally show False using b(2) assms(2) by linarith
  qed
qed

lemma g_digits_shape:
  assumes "0 < q" "0 < p" and "g_digits p q = (ds, x)"
  shows "length ds \<le> p \<and> (x = ilog10 q \<or> x = ilog10 q + 1)"
proof -
  define e where "e = ilog10 q - (int p - 1)"
  define m where "m = nat (round_half_even (q / pow10 e))"
  have "q < 10 powi (ilog10 q + 1)" using ilog10_bounds [OF assms(1)] by simp
  also have "ilog10 q + 1 = e + int p" by (simp add: e_def)
  also have "(10 :: rat) powi (e + int p) = 10 powi e * 10 powi int p" by (rule power_int_add) simp
  finally have "q / pow10 e \<le> of_int (10 ^ p)" by (simp add: pow10_powi field_simps)
  then have "round_half_even (q / pow10 e) \<le> 10 ^ p" by (rule round_half_even_le)
  then have m: "m \<le> 10 ^ p" by (simp add: m_def nat_le_iff)
  have r: "(ds, x) = (if m \<ge> 10 ^ p then (dec (m div 10), ilog10 q + 1) else (dec m, ilog10 q))"
    using assms(3) unfolding g_digits_def Let_def m_def e_def by metis
  have "m div 10 < 10 ^ p" using m assms(2) by (simp add: div_less_iff_less_mult order_le_less_trans)
  then show ?thesis using r dec_length [of _ p] assms(2) by (auto split: if_splits)
qed

lemma strip_zeros_length: "length (strip_zeros s) \<le> length s"
  unfolding strip_zeros_def by (simp add: order_trans [OF length_dropWhile_le])

lemma with_point_length: "length (with_point ip fp) \<le> length ip + 1 + length fp"
  using strip_zeros_length [of fp] by (auto simp: with_point_def Let_def)

lemma g_exponent_length: "\<bar>x\<bar> < 1000 \<Longrightarrow> length (g_exponent x) \<le> 5"
proof -
  assume "\<bar>x\<bar> < 1000"
  then have "length (dec (nat \<bar>x\<bar>)) \<le> 3" by (intro dec_length) auto
  then have "length (pad_left (CHR ''0'') 2 (dec (nat \<bar>x\<bar>))) \<le> 3" by (simp add: pad_left_def)
  then show ?thesis unfolding g_exponent_def by (cases "x < 0") simp_all
qed

lemma g_magnitude_length:
  assumes "0 < q" "1 / 2 ^ 1074 \<le> q" "q < double_limit" "0 < p"
  shows "length (g_magnitude p q) \<le> p + 6"
proof -
  obtain ds x where g: "g_digits p q = (ds, x)" by (cases "g_digits p q")
  note s = g_digits_shape [OF assms(1,4) g]
  have x: "\<bar>x\<bar> < 1000" using s double_exponent [OF assms(1-3)] by auto
  show ?thesis
  proof (cases "x < -4 \<or> x \<ge> int p")
    case True
    have "length (take 1 ds) + length (drop 1 ds) = length ds" by (simp flip: length_append)
    then have "length (with_point (take 1 ds) (drop 1 ds)) \<le> p + 1"
      using with_point_length [of "take 1 ds" "drop 1 ds"] s by linarith
    then show ?thesis using True g_exponent_length [OF x] by (simp add: g_magnitude_def g)
  next
    case False
    then show ?thesis
      using with_point_length [of "take (nat x + 1) ds" "drop (nat x + 1) ds"] s
        with_point_length [of "''0''" "replicate (nat (- x) - 1) (CHR ''0'') @ ds"]
      by (auto simp: g_magnitude_def g)
  qed
qed

lemma fmt_g_length: "double_range x \<Longrightarrow> 0 < p \<Longrightarrow> length (fmt_g p x) \<le> p + 7"
proof (cases x)
  case (Fin q)
  assume "double_range x" "0 < p"
  then show ?thesis using g_magnitude_length [of "\<bar>q\<bar>" p] by (cases "q = 0") (auto simp: Fin fmt_g_def double_range_def)
qed (simp_all add: fmt_g_def)

end
