(* ===== verification/Archetype_Facts.thy ===== *)
theory Archetype_Facts
  imports Archetype_Report C_Format_Width "HOL-Library.Multiset"
begin

text \<open>
  The scorecard of src/archetype.c: the ranking is right, a place in the memory hierarchy is named only where it was
  measured, no buffer of reasons overflows, and the rows of all runs are the scorecards of each run alone.
\<close>

section \<open>The ranking\<close>

definition measured_candidates :: "(string \<times> double \<times> bool) list \<Rightarrow> (string \<times> double) list" where
  "measured_candidates cands = map (\<lambda>(l, v, _). (l, v)) (filter (\<lambda>(_, _, h). h) cands)"

text \<open>What the loop keeps: the first of the greatest, and the greatest of the rest.\<close>

definition ranked :: "(string \<times> double) list \<Rightarrow> (string \<times> double) option \<times> (string \<times> double) option \<Rightarrow> bool" where
  "ranked cs bs \<longleftrightarrow>
     (case bs of
        (None, s) \<Rightarrow> cs = [] \<and> s = None
      | (Some b, None) \<Rightarrow> cs = [b]
      | (Some b, Some s) \<Rightarrow> \<exists>rest. mset cs = add_mset b (add_mset s rest) \<and> dle (snd s) (snd b) \<and> (\<forall>c \<in># rest. dle (snd c) (snd s)))"

lemma dle_refl [simp]: "\<not> is_nan v \<Longrightarrow> dle v v"
  by (cases v) auto

lemma ranked_step:
  assumes "ranked cs bs" and "\<forall>x \<in> set (c # cs). \<not> is_nan (snd x)"
  shows "ranked (cs @ [c]) (rank_step c bs)"
proof (cases bs)
  case (Pair best second)
  show ?thesis
  proof (cases best)
    case None
    with assms(1) show ?thesis by (simp add: Pair ranked_def rank_step_def)
  next
    case (Some b)
    show ?thesis
    proof (cases second)
      case None
      then have cs: "cs = [b]" using assms(1) Some by (simp add: Pair ranked_def)
      then have n: "\<not> is_nan (snd b)" "\<not> is_nan (snd c)" using assms(2) by simp_all
      show ?thesis
      proof (cases "dlt (snd b) (snd c)")
        case True
        then show ?thesis using dlt_imp_dle [OF True] by (simp add: Pair Some None ranked_def rank_step_def cs add_mset_commute)
      next
        case False
        then show ?thesis using not_dlt_dle [OF n] by (simp add: Pair Some None ranked_def rank_step_def cs add_mset_commute)
      qed
    next
      case (Some s)
      note sec = Some
      obtain rest where r: "mset cs = add_mset b (add_mset s rest)" "dle (snd s) (snd b)" "\<forall>c \<in># rest. dle (snd c) (snd s)"
        using assms(1) \<open>best = Some b\<close> Some by (auto simp: Pair ranked_def)
      then have "b \<in># mset cs" "s \<in># mset cs" by simp_all
      then have "b \<in> set cs" "s \<in> set cs" by simp_all
      then have n: "\<not> is_nan (snd b)" "\<not> is_nan (snd s)" "\<not> is_nan (snd c)" using assms(2) by simp_all
      consider (best) "dlt (snd b) (snd c)" | (second) "\<not> dlt (snd b) (snd c)" "dlt (snd s) (snd c)"
        | (rest) "\<not> dlt (snd b) (snd c)" "\<not> dlt (snd s) (snd c)" by blast
      then show ?thesis
      proof cases
        case best
        have "\<forall>x \<in># add_mset s rest. dle (snd x) (snd b)" using r(2,3) dle_trans by auto
        then show ?thesis using best dlt_imp_dle [OF best] r(1)
          by (simp add: Pair \<open>best = Some b\<close> sec ranked_def rank_step_def)
      next
        case second
        have "\<forall>x \<in># add_mset s rest. dle (snd x) (snd c)" using r(3) dle_trans dlt_imp_dle [OF second(2)] by auto
        then show ?thesis using second not_dlt_dle [OF n(1,3)] r(1)
          by (simp add: Pair \<open>best = Some b\<close> sec ranked_def rank_step_def)
      next
        case rest
        then show ?thesis using not_dlt_dle [OF n(2,3)] r
          by (simp add: Pair \<open>best = Some b\<close> sec ranked_def rank_step_def)
      qed
    qed
  qed
qed

lemma ranked_fold:
  "ranked cs bs \<Longrightarrow> \<forall>x \<in> set (cs @ ds). \<not> is_nan (snd x) \<Longrightarrow> ranked (cs @ ds) (fold rank_step ds bs)"
proof (induction ds arbitrary: cs bs)
  case (Cons d ds)
  have "ranked (cs @ [d]) (rank_step d bs)" using Cons.prems by (intro ranked_step) auto
  from Cons.IH [OF this] Cons.prems show ?case by simp
qed simp

lemma dominance_ranked:
  assumes "\<forall>x \<in> set (measured_candidates cands). \<not> is_nan (snd x)"
  shows "ranked (measured_candidates cands) (fold rank_step (measured_candidates cands) (None, None))"
  using ranked_fold [of "[]" "(None, None)" "measured_candidates cands"] assms by (simp add: ranked_def)

section \<open>Where a place in the hierarchy comes from\<close>

lemma locus_evidence:
  assumes "classify_memory_attribution snap = Some a" and "classify_memory_locus snap a = Some m" and "ma_locus m \<noteq> ''unknown''"
  shows "sn_have snap F_backend_pct \<and> \<not> dlt (sn_value snap F_backend_pct) MEMORY_ATTRIBUTION_FLOOR_PCT \<and>
    elevated_signals snap \<noteq> [] \<and>
    sn_have snap F_backend_memory_pct \<and> \<not> dlt (sn_value snap F_backend_memory_pct) MEMORY_ATTRIBUTION_FLOOR_PCT \<and>
    (ibs_locus snap \<noteq> None \<and> sn_have snap F_ibs_dc_miss_pct \<or> cache_locus snap \<noteq> None)"
proof -
  have "ma_label a = ''corroborated'' \<and> sn_have snap F_backend_memory_pct \<and>
      \<not> dlt (sn_value snap F_backend_memory_pct) MEMORY_ATTRIBUTION_FLOOR_PCT \<and>
      (ibs_locus snap \<noteq> None \<and> sn_have snap F_ibs_dc_miss_pct \<or> cache_locus snap \<noteq> None)"
    using assms(2,3) by (auto simp: classify_memory_locus_def Let_def split: if_splits option.splits)
  moreover have "sn_have snap F_backend_pct \<and> \<not> dlt (sn_value snap F_backend_pct) MEMORY_ATTRIBUTION_FLOOR_PCT \<and>
      elevated_signals snap \<noteq> []" if "ma_label a = ''corroborated''"
    using assms(1) that by (auto simp: classify_memory_attribution_def attribution_none_def Let_def split: if_splits)
  ultimately show ?thesis by blast
qed

section \<open>Buffers of reasons\<close>

text \<open>What is meant to be written after each call stays in the buffer up to the last call.\<close>

lemma reason_append_length:
  "b = Some (buf, used) \<Longrightarrow> used \<le> cap \<Longrightarrow> \<exists>buf'. reason_append cap t b = Some (buf', used + length t)"
  by (simp add: reason_append_def)

lemma reason_item_length:
  "b = Some (buf, used) \<Longrightarrow> used \<le> cap \<Longrightarrow> \<exists>buf' n. reason_item cap t b = Some (buf', n) \<and> n \<le> used + length t + 1"
  by (auto simp: reason_item_def reason_append_def)

lemma reason_fold_fits:
  "used + (\<Sum>t\<leftarrow>butlast ts. length t + 1) \<le> cap \<Longrightarrow> \<exists>r. fold (reason_item cap) ts (Some (buf, used)) = Some r"
proof (induction ts arbitrary: buf used)
  case (Cons t ts)
  obtain buf' n where n: "reason_item cap t (Some (buf, used)) = Some (buf', n)" "n \<le> used + length t + 1"
    using reason_item_length [OF refl, where used = used and cap = cap and buf = buf and t = t] Cons.prems by fastforce
  show ?case
  proof (cases "ts = []")
    case False
    then have "n + (\<Sum>t\<leftarrow>butlast ts. length t + 1) \<le> cap" using Cons.prems n(2) by simp
    from Cons.IH [OF this, of buf'] n(1) show ?thesis by simp
  qed (simp add: n(1))
qed simp

lemma reason_items_fit:
  "(\<Sum>t\<leftarrow>butlast ts. length t + 1) \<le> cap \<Longrightarrow> reason_items cap ts \<noteq> None"
  using reason_fold_fits [of 0 ts cap "[]"] by (auto simp: reason_items_def)

lemma butlast_filter_sum:
  fixes g :: "'a \<Rightarrow> nat"
  shows "(\<Sum>x\<leftarrow>filter P xs. g x) \<le> (\<Sum>x\<leftarrow>xs. g x)"
  by (induction xs) auto

lemma sum_butlast_le:
  fixes g :: "'a \<Rightarrow> nat"
  shows "(\<Sum>x\<leftarrow>butlast xs. g x) \<le> (\<Sum>x\<leftarrow>xs. g x)"
  by (induction xs) auto

lemma butlast_filter_le:
  fixes g :: "'a \<Rightarrow> nat"
  shows "(\<Sum>x\<leftarrow>butlast (filter P xs). g x) \<le> (\<Sum>x\<leftarrow>butlast xs. g x)"
proof (induction xs rule: rev_induct)
  case (snoc x xs)
  show ?case
  proof (cases "P x")
    case False
    then have "(\<Sum>x\<leftarrow>butlast (filter P (xs @ [x])). g x) \<le> (\<Sum>x\<leftarrow>filter P xs. g x)" using sum_butlast_le by simp
    also have "\<dots> \<le> (\<Sum>x\<leftarrow>xs. g x)" by (rule butlast_filter_sum)
    finally show ?thesis by simp
  qed (simp add: butlast_filter_sum)
qed simp

lemma zip_keys_sum:
  fixes g :: "'a \<Rightarrow> nat"
  shows "(\<Sum>x\<leftarrow>zip ks xs. g (fst x)) \<le> (\<Sum>k\<leftarrow>ks. g k)"
proof (induction ks arbitrary: xs)
  case (Cons k ks)
  then show ?case by (cases xs) auto
qed simp

lemma confidence_fits: "compute_overall_confidence dm simple \<noteq> None"
proof -
  let ?missing = "\<lambda>key. ''missing-'' @ key @ ''-data''"
  let ?rest = "map (\<lambda>(key, _). ?missing key) (filter (\<lambda>(_, s). \<not> snd s) (zip SIMPLE_AXIS_KEYS simple))"
  have keys: "(\<Sum>k\<leftarrow>map fst (filter (\<lambda>(_, s). \<not> snd s) (zip SIMPLE_AXIS_KEYS simple)). length (?missing k) + 1) \<le>
      (\<Sum>k\<leftarrow>SIMPLE_AXIS_KEYS. length (?missing k) + 1)" (is "?l \<le> ?r")
  proof -
    have "?l = (\<Sum>x\<leftarrow>filter (\<lambda>(_, s). \<not> snd s) (zip SIMPLE_AXIS_KEYS simple). length (?missing (fst x)) + 1)"
      by (simp add: comp_def)
    also have "\<dots> \<le> (\<Sum>x\<leftarrow>zip SIMPLE_AXIS_KEYS simple. length (?missing (fst x)) + 1)" by (rule butlast_filter_sum)
    also have "\<dots> \<le> ?r" by (rule zip_keys_sum)
    finally show ?thesis .
  qed
  moreover have "?r \<le> 200" by (simp add: SIMPLE_AXIS_KEYS_def)
  moreover have "(\<Sum>t\<leftarrow>?rest. length t + 1) = ?l" by (simp add: comp_def split_beta)
  ultimately have bound: "(\<Sum>t\<leftarrow>b @ ?rest. length t + 1) \<le> 256" if "b = [] \<or> b = [''narrow-margin'']" for b
    using that by auto
  have "reason_items 256 (b @ ?rest) \<noteq> None" if "b = [] \<or> b = [''narrow-margin'']" for b
  proof (rule reason_items_fit)
    have "(\<Sum>t\<leftarrow>butlast (b @ ?rest). length t + 1) \<le> (\<Sum>t\<leftarrow>b @ ?rest. length t + 1)" by (rule sum_butlast_le)
    also have "\<dots> \<le> 256" by (rule bound [OF that])
    finally show "(\<Sum>t\<leftarrow>butlast (b @ ?rest). length t + 1) \<le> 256" .
  qed
  then show ?thesis by (auto simp: compute_overall_confidence_def Let_def)
qed

section \<open>The dominance of a scored run\<close>

lemma score_snapshot_dominance:
  "score_snapshot snap = Some sc \<Longrightarrow> sc_dominance sc = classify_resource_dominance (dominance_candidates snap)"
  by (auto simp: score_snapshot_def Let_def split: option.splits)

lemma distinct_measured: "distinct (map fst (measured_candidates (dominance_candidates snap)))"
  by (simp add: measured_candidates_def dominance_candidates_def)

lemma classify_dominance_measured:
  "classify_resource_dominance cands =
     (let none = \<lparr>dm_available = False, dm_primary_label = [], dm_primary_pct = Fin 0, dm_has_alternative = False,
                  dm_alternative_label = [], dm_alternative_pct = Fin 0\<rparr> in
      case fold rank_step (measured_candidates cands) (None, None) of
        (None, _) \<Rightarrow> none
      | (Some b, None) \<Rightarrow> none\<lparr>dm_available := True, dm_primary_label := fst b, dm_primary_pct := snd b\<rparr>
      | (Some b, Some s) \<Rightarrow>
          \<lparr>dm_available = True, dm_primary_label = fst b, dm_primary_pct = snd b, dm_has_alternative = True,
           dm_alternative_label = fst s, dm_alternative_pct = snd s\<rparr>)"
  by (auto simp: classify_resource_dominance_def measured_candidates_def Let_def split: option.splits prod.splits)

text \<open>C40: the resource a scored run is said to be bound by is a greatest one of the topdown categories that were
  measured, the alternative a greatest one of the others; one is named exactly if a category was measured, the other
  exactly if two were.\<close>

theorem dominance_ranks_measured:
  assumes "score_snapshot snap = Some sc"
    and "\<forall>c \<in> set (measured_candidates (dominance_candidates snap)). \<not> is_nan (snd c)"
  shows "let cs = measured_candidates (dominance_candidates snap); d = sc_dominance sc in
    (dm_available d \<longleftrightarrow> cs \<noteq> []) \<and> (dm_has_alternative d \<longleftrightarrow> 2 \<le> length cs) \<and>
    (dm_available d \<longrightarrow> (dm_primary_label d, dm_primary_pct d) \<in> set cs \<and> (\<forall>c \<in> set cs. dle (snd c) (dm_primary_pct d))) \<and>
    (dm_has_alternative d \<longrightarrow>
       (dm_alternative_label d, dm_alternative_pct d) \<in> set cs \<and> dm_alternative_label d \<noteq> dm_primary_label d \<and>
       (\<forall>c \<in> set cs. fst c \<noteq> dm_primary_label d \<longrightarrow> dle (snd c) (dm_alternative_pct d)))"
proof -
  define cs where "cs = measured_candidates (dominance_candidates snap)"
  define bs where "bs = fold rank_step cs (None, None)"
  have r: "ranked cs bs" unfolding cs_def bs_def by (rule dominance_ranked [OF assms(2)])
  have nan: "\<not> is_nan (snd c)" if "c \<in> set cs" for c using assms(2) that by (simp add: cs_def)
  have dist: "distinct (map fst cs)" by (simp add: cs_def distinct_measured)
  note sc = score_snapshot_dominance [OF assms(1), unfolded classify_dominance_measured, folded cs_def, folded bs_def]
  consider (none) "bs = (None, None)" "cs = []" | (one) b where "bs = (Some b, None)" "cs = [b]"
    | (two) b s rest where "bs = (Some b, Some s)" "mset cs = add_mset b (add_mset s rest)" "dle (snd s) (snd b)"
        "\<forall>c \<in># rest. dle (snd c) (snd s)"
    using r by (cases bs) (auto simp: ranked_def split: option.splits)
  then show ?thesis
  proof cases
    case (two b s rest)
    have "set cs = set_mset (mset cs)" by simp
    also have "\<dots> = insert b (insert s (set_mset rest))" unfolding two(2) by simp
    finally have sets: "set cs = insert b (insert s (set_mset rest))" .
    have "size (mset cs) \<ge> 2" unfolding two(2) by simp
    then have len: "2 \<le> length cs" by simp
    have "mset (map fst cs) = image_mset fst (mset cs)" by simp
    also have "\<dots> = add_mset (fst b) (add_mset (fst s) (image_mset fst rest))" unfolding two(2) by simp
    finally have "count (mset (map fst cs)) (fst b) = 1 + (if fst s = fst b then 1 else 0) + count (image_mset fst rest) (fst b)"
      by (simp add: eq_commute)
    moreover have "count (mset (map fst cs)) (fst b) \<le> 1" using dist by (simp only: distinct_count_atmost_1) auto
    ultimately have labels: "fst s \<noteq> fst b" by (simp split: if_splits)
    have "dle (snd c) (snd b)" if "c \<in> set cs" for c
      using that two(3,4) nan [OF that] by (auto simp: sets intro: dle_trans)
    moreover have "dle (snd c) (snd s)" if "c \<in> set cs" "fst c \<noteq> fst b" for c
      using that two(4) nan [OF that(1)] by (auto simp: sets)
    moreover have "cs \<noteq> []" using len by auto
    ultimately show ?thesis using two(1) labels len
      by (simp add: Let_def sc sets flip: cs_def)
  qed (use nan in \<open>simp_all add: Let_def sc flip: cs_def\<close>)
qed

definition example_snapshot :: run_snapshot where
  "example_snapshot =
     (run_snapshot_reset 1 (Some ''host'') (Some ''run-1'') (Some ''make''))
       \<lparr>sn_value := (\<lambda>_. Fin 0)(F_retire_pct := Fin 10, F_backend_pct := Fin 60, F_frontend_pct := Fin 20,
          F_speculate_pct := Fin 70, F_backend_memory_pct := Fin 50, F_l2_miss_pct := Fin 30),
        sn_have := (\<lambda>f. f \<in> {F_retire_pct, F_backend_pct, F_frontend_pct, F_backend_memory_pct, F_l2_miss_pct})\<rparr>"

lemma example_candidates:
  "measured_candidates (dominance_candidates example_snapshot) =
     [(''compute-bound'', Fin 10), (''frontend-bound'', Fin 20), (''memory-bound'', Fin 60)]"
  by (simp add: measured_candidates_def dominance_candidates_def example_snapshot_def)

lemma example_dominance:
  "classify_resource_dominance (dominance_candidates example_snapshot) =
     \<lparr>dm_available = True, dm_primary_label = ''memory-bound'', dm_primary_pct = Fin 60, dm_has_alternative = True,
      dm_alternative_label = ''frontend-bound'', dm_alternative_pct = Fin 20\<rparr>"
  by (simp add: classify_dominance_measured example_candidates rank_step_def)

lemma example_attribution:
  "classify_memory_attribution example_snapshot =
     Some (attribution_none\<lparr>ma_available := True, ma_label := ''corroborated'', ma_reasons := ''l2_miss_pct=30''\<rparr>)"
proof -
  have "fmt_g 4 (Fin 30) = ''30''" by code_simp
  moreover have "elevated_signals example_snapshot = [(''l2_miss_pct'', F_l2_miss_pct, Fin 10)]"
    "measured_signals example_snapshot = [(''l2_miss_pct'', F_l2_miss_pct, Fin 10)]"
    by (simp_all add: elevated_signals_def measured_signals_def mem_signals_def example_snapshot_def
        CACHE_MISS_ELEVATED_PCT_def)
  moreover have "sn_have example_snapshot F_backend_pct" "sn_value example_snapshot F_backend_pct = Fin 60"
    "\<not> sn_have example_snapshot F_blocking_wait_pct" "\<not> sn_have example_snapshot F_sched_rundelay_pct"
    "sn_value example_snapshot F_l2_miss_pct = Fin 30"
    by (simp_all add: example_snapshot_def)
  ultimately show ?thesis
    by (simp add: classify_memory_attribution_def MEMORY_ATTRIBUTION_FLOOR_PCT_def reason_items_def reason_item_def
        reason_append_def value_reason_def Let_def)
qed

lemma example_locus:
  "\<exists>m. classify_memory_locus example_snapshot
     (attribution_none\<lparr>ma_available := True, ma_label := ''corroborated'', ma_reasons := ''l2_miss_pct=30''\<rparr>) = Some m \<and>
     ma_locus m = ''l2-l3''"
proof -
  have "fmt_g 4 (Fin 30) = ''30''" by code_simp
  moreover have "\<not> sn_have example_snapshot F_ibs_dc_miss_pct" "sn_have example_snapshot F_backend_memory_pct"
    "sn_value example_snapshot F_backend_memory_pct = Fin 50" "\<not> sn_have example_snapshot F_l3_miss_pct"
    "sn_have example_snapshot F_l2_miss_pct" "sn_value example_snapshot F_l2_miss_pct = Fin 30"
    "\<not> sn_have example_snapshot F_dtlb_generic_miss_pct"
    by (simp_all add: example_snapshot_def)
  ultimately show ?thesis
    by (simp add: classify_memory_locus_def cache_locus_def locus_text_def reason_append_def value_reason_def
        MEMORY_ATTRIBUTION_FLOOR_PCT_def CACHE_MISS_ELEVATED_PCT_def Let_def)
qed

lemma score_snapshot_example:
  obtains sc where "score_snapshot example_snapshot = Some sc" "dm_primary_label (sc_dominance sc) = ''memory-bound''"
    "dm_alternative_label (sc_dominance sc) = ''frontend-bound''" "ma_locus (sc_memory_attribution sc) = ''l2-l3''"
proof -
  obtain m where m: "classify_memory_locus example_snapshot
      (attribution_none\<lparr>ma_available := True, ma_label := ''corroborated'', ma_reasons := ''l2_miss_pct=30''\<rparr>) = Some m"
    "ma_locus m = ''l2-l3''" using example_locus by blast
  obtain conf where "compute_overall_confidence
      (classify_resource_dominance (dominance_candidates example_snapshot)) (simple_axes example_snapshot) = Some conf"
    using confidence_fits by blast
  then have "score_snapshot example_snapshot =
      Some \<lparr>sc_dominance = classify_resource_dominance (dominance_candidates example_snapshot),
        sc_simple = simple_axes example_snapshot, sc_confidence = conf, sc_memory_attribution = m\<rparr>"
    by (simp add: score_snapshot_def Let_def example_attribution m(1))
  then show thesis by (rule that) (simp_all add: example_dominance m(2))
qed

lemma dominance_ranks_measured_witness:
  "\<exists>sc. score_snapshot example_snapshot = Some sc \<and> dm_available (sc_dominance sc) \<and>
     dm_primary_label (sc_dominance sc) = ''memory-bound'' \<and> dm_alternative_label (sc_dominance sc) = ''frontend-bound''"
proof -
  obtain sc where sc: "score_snapshot example_snapshot = Some sc"
    "dm_primary_label (sc_dominance sc) = ''memory-bound''" "dm_alternative_label (sc_dominance sc) = ''frontend-bound''"
    by (rule score_snapshot_example)
  from dominance_ranks_measured [OF sc(1)] have "dm_available (sc_dominance sc)" by (simp add: example_candidates Let_def)
  with sc show ?thesis by blast
qed

text \<open>C40: a scored run is given a place in the memory hierarchy only if backend stalls and memory stalls were both
  measured at 20 percent or more, a signal of the memory system was measured above its threshold, and a measured miss
  rate of IBS or of the caches points to the place.\<close>

theorem locus_needs_evidence:
  assumes "score_snapshot snap = Some sc" and "ma_locus (sc_memory_attribution sc) \<noteq> ''unknown''"
  shows "sn_have snap F_backend_pct \<and> \<not> dlt (sn_value snap F_backend_pct) (Fin 20) \<and>
    sn_have snap F_backend_memory_pct \<and> \<not> dlt (sn_value snap F_backend_memory_pct) (Fin 20) \<and>
    (\<exists>(name, f, t) \<in> set mem_signals. sn_have snap f \<and> \<not> dlt (sn_value snap f) t) \<and>
    (\<exists>f \<in> {F_ibs_remote_node_pct, F_ibs_dram_pct, F_ibs_dc_miss_pct, F_l3_miss_pct, F_l2_miss_pct, F_dcache_miss_pct}.
       sn_have snap f \<and> (dle (Fin 10) (sn_value snap f) \<or> f = F_ibs_dc_miss_pct \<and> sn_have snap F_ibs_dram_pct \<and>
         dle (Fin 10) (dsub (sn_value snap f) (sn_value snap F_ibs_dram_pct))))"
proof -
  obtain a where a: "classify_memory_attribution snap = Some a" "classify_memory_locus snap a = Some (sc_memory_attribution sc)"
    using assms(1) by (auto simp: score_snapshot_def Let_def bind_eq_Some_conv split: option.splits)
  note e = locus_evidence [OF a assms(2)]
  from e obtain x where "x \<in> set (elevated_signals snap)" by (meson list.set_sel(1))
  then have "\<exists>(name, f, t) \<in> set mem_signals. sn_have snap f \<and> \<not> dlt (sn_value snap f) t"
    by (auto simp: elevated_signals_def measured_signals_def)
  moreover have "\<exists>f \<in> {F_ibs_remote_node_pct, F_ibs_dram_pct, F_ibs_dc_miss_pct}. sn_have snap f \<and>
      (dle (Fin 10) (sn_value snap f) \<or> f = F_ibs_dc_miss_pct \<and> sn_have snap F_ibs_dram_pct \<and>
         dle (Fin 10) (dsub (sn_value snap f) (sn_value snap F_ibs_dram_pct)))"
    if "ibs_locus snap \<noteq> None" "sn_have snap F_ibs_dc_miss_pct"
    using that by (auto simp: ibs_locus_def Let_def IBS_REMOTE_NODE_ELEVATED_PCT_def IBS_DRAM_ELEVATED_PCT_def
        IBS_DC_MISS_ELEVATED_PCT_def split: if_splits)
  moreover have "\<exists>f \<in> {F_l3_miss_pct, F_l2_miss_pct, F_dcache_miss_pct}. sn_have snap f \<and> dle (Fin 10) (sn_value snap f)"
    if "cache_locus snap \<noteq> None"
    using that by (auto simp: cache_locus_def Let_def CACHE_MISS_ELEVATED_PCT_def split: if_splits)
  ultimately show ?thesis using e unfolding MEMORY_ATTRIBUTION_FLOOR_PCT_def by blast
qed

lemma locus_needs_evidence_witness:
  "\<exists>sc. score_snapshot example_snapshot = Some sc \<and> ma_locus (sc_memory_attribution sc) = ''l2-l3'' \<and>
     sn_have example_snapshot F_backend_memory_pct"
proof -
  obtain sc where sc: "score_snapshot example_snapshot = Some sc" "ma_locus (sc_memory_attribution sc) = ''l2-l3''"
    by (rule score_snapshot_example)
  then show ?thesis using locus_needs_evidence [OF sc(1)] by auto
qed

section \<open>All runs and one run\<close>

type_synonym stored_run = "int \<times> string \<times> string \<times> string option \<times> (string option \<times> double \<times> string option) list"

text \<open>The rows the query gives for a run, and the snapshot of the run alone with its rows in some order.\<close>

definition bulk_rows :: "stored_run \<Rightarrow> store_row list" where
  "bulk_rows r =
     (let (i, host, name, command, feats) = r in
      map (\<lambda>(f, v, c). \<lparr>sr_run_id = i, sr_hostname = Some host, sr_run_id_text = Some name, sr_command = command,
             sr_feature = f, sr_value = v, sr_coverage = c\<rparr>) feats)"

definition traced ::
  "((string option \<times> double \<times> string option) list \<Rightarrow> (string option \<times> double \<times> string option) list) \<Rightarrow>
   stored_run \<Rightarrow> run_snapshot"
where
  "traced reorder r = (let (i, host, name, command, feats) = r in trace_run_snapshot i host name command (reorder feats))"

lemma feature_unique:
  assumes "map_of feature_names a = Some f" and "map_of feature_names b = Some f"
  shows "a = b"
proof -
  have "distinct (map snd feature_names)" by (simp add: feature_names_def)
  then have "inj_on snd (set feature_names)" unfolding distinct_map by blast
  from inj_onD [OF this, of "(a, f)" "(b, f)"] have "(a, f) = (b, f)" using assms by (simp add: map_of_SomeD)
  then show ?thesis by simp
qed

lemma apply_rows_commute:
  "x \<noteq> y \<longrightarrow> fst x \<noteq> fst y \<Longrightarrow> apply_feature_row x \<circ> apply_feature_row y = apply_feature_row y \<circ> apply_feature_row x"
proof -
  assume diff: "x \<noteq> y \<longrightarrow> fst x \<noteq> fst y"
  show ?thesis
  proof (cases "x = y")
    case False
    then have "f \<noteq> g" if "fst x = Some a" "fst y = Some b" "map_of feature_names a = Some f" "map_of feature_names b = Some g"
      for a b f g
      using diff that feature_unique by auto
    then show ?thesis
      by (intro ext, cases x, cases y)
        (auto simp: apply_feature_row_def run_snapshot_apply_feature_def fun_upd_twist split: option.splits)
  qed simp
qed

lemma apply_rows_order:
  assumes "mset xs = mset ys" and "distinct (map fst xs)"
  shows "fold apply_feature_row xs = fold apply_feature_row ys"
proof (rule fold_multiset_equiv [OF _ assms(1)])
  fix x y assume "x \<in> set xs" "y \<in> set xs"
  then show "apply_feature_row x \<circ> apply_feature_row y = apply_feature_row y \<circ> apply_feature_row x"
    using assms(2) by (intro apply_rows_commute) (auto simp: distinct_map dest: inj_onD)
qed

lemma apply_rows_id [simp]:
  "sn_run_id (apply_feature_row x s) = sn_run_id s" "sn_run_id (fold apply_feature_row xs s) = sn_run_id s"
proof -
  show "sn_run_id (apply_feature_row x s) = sn_run_id s" for x s
    by (cases x) (auto simp: apply_feature_row_def run_snapshot_apply_feature_def split: option.splits)
  then show "sn_run_id (fold apply_feature_row xs s) = sn_run_id s" by (induction xs arbitrary: s) simp_all
qed

lemma reset_id [simp]: "sn_run_id (run_snapshot_reset i h t c) = i"
  by (simp add: run_snapshot_reset_def)

lemma traced_as_bulk:
  assumes "\<forall>xs. mset (reorder xs) = mset xs" and "distinct (map fst feats)"
  shows "traced reorder (i, host, name, command, feats) =
    fold apply_feature_row feats (run_snapshot_reset i (Some host) (Some name) command)"
proof -
  have "fold apply_feature_row (reorder feats) = fold apply_feature_row feats"
    using assms by (intro apply_rows_order [symmetric]) auto
  then show ?thesis
    by (simp add: traced_def trace_run_snapshot_def run_snapshot_reset_def split: option.split)
qed

lemma score_rows_same_run:
  "sn_run_id s = i \<Longrightarrow> score_rows csvflag (Some s) (bulk_rows (i, host, name, command, feats) @ rows) =
     score_rows csvflag (Some (fold apply_feature_row feats s)) rows"
proof (induction feats arbitrary: s)
  case (Cons r feats)
  then show ?case by (cases r) (simp add: bulk_rows_def)
qed (simp add: bulk_rows_def)

definition bulk_snapshot :: "stored_run \<Rightarrow> run_snapshot" where
  "bulk_snapshot r =
     (let (i, host, name, command, feats) = r in
      fold apply_feature_row feats (run_snapshot_reset i (Some host) (Some name) command))"

lemma bulk_snapshot_id [simp]: "sn_run_id (bulk_snapshot r) = fst r"
  by (cases r) (simp add: bulk_snapshot_def)

abbreviation has_features :: "stored_run \<Rightarrow> bool" where
  "has_features r \<equiv> snd (snd (snd (snd r))) \<noteq> []"

text \<open>A run with features begins a snapshot of its own.\<close>

lemma score_rows_next_run:
  assumes "has_features r" and "case snap of None \<Rightarrow> True | Some s \<Rightarrow> sn_run_id s \<noteq> fst r"
  shows "score_rows csvflag snap (bulk_rows r @ rows) =
    (case snap of
       None \<Rightarrow> score_rows csvflag (Some (bulk_snapshot r)) rows
     | Some s \<Rightarrow>
         (case scored_row csvflag s of
            None \<Rightarrow> None
          | Some t \<Rightarrow> map_option (Cons t) (score_rows csvflag (Some (bulk_snapshot r)) rows)))"
proof -
  obtain i host name command f v c feats where r: "r = (i, host, name, command, (f, v, c) # feats)"
    using assms(1) by (cases r) (auto simp: neq_Nil_conv)
  define fresh where "fresh = apply_feature_row (f, v, c) (run_snapshot_reset i (Some host) (Some name) command)"
  have "sn_run_id fresh = i" by (simp add: fresh_def)
  note same = score_rows_same_run [OF this, of csvflag host name command feats rows]
  have rows: "bulk_rows r @ rows = \<lparr>sr_run_id = i, sr_hostname = Some host, sr_run_id_text = Some name, sr_command = command,
      sr_feature = f, sr_value = v, sr_coverage = c\<rparr> # bulk_rows (i, host, name, command, feats) @ rows"
    by (simp add: r bulk_rows_def)
  have snapshot: "bulk_snapshot r = fold apply_feature_row feats fresh" by (simp add: r bulk_snapshot_def fresh_def)
  show ?thesis using assms(2) unfolding rows snapshot
    by (cases snap) (simp_all add: r same flip: fresh_def split: option.split)
qed

lemma score_rows_runs:
  "distinct (map fst runs) \<Longrightarrow> \<forall>r \<in> set runs. has_features r \<Longrightarrow>
   (case snap of None \<Rightarrow> True | Some s \<Rightarrow> sn_run_id s \<notin> fst ` set runs) \<Longrightarrow>
   score_rows csvflag snap (concat (map bulk_rows runs)) =
     those (map (scored_row csvflag) ((case snap of None \<Rightarrow> [] | Some s \<Rightarrow> [s]) @ map bulk_snapshot runs))"
proof (induction runs arbitrary: snap)
  case Nil
  then show ?case by (cases snap) (simp_all split: option.split)
next
  case (Cons r runs)
  have "case snap of None \<Rightarrow> True | Some s \<Rightarrow> sn_run_id s \<noteq> fst r" using Cons.prems(3) by (auto split: option.splits)
  note next_run = score_rows_next_run [OF _ this, of csvflag "concat (map bulk_rows runs)"]
  have "score_rows csvflag (Some (bulk_snapshot r)) (concat (map bulk_rows runs)) =
      those (map (scored_row csvflag) (bulk_snapshot r # map bulk_snapshot runs))"
    using Cons.IH [of "Some (bulk_snapshot r)"] Cons.prems(1,2) by auto
  then show ?case using next_run Cons.prems(2) by (cases snap) (simp_all split: option.split)
qed

lemma those_length: "those xs = Some ys \<Longrightarrow> length ys = length xs"
  by (induction xs arbitrary: ys) (auto split: option.splits)

text \<open>C40: the report of all runs has one row for each run, in the order of the runs, and it is the row of the
  scorecard that the report of that run alone computes, whatever order SQLite gives the features of the run in.\<close>

theorem bulk_scores_each_run:
  assumes "distinct (map fst runs)"
    and "\<forall>(i, host, name, command, feats) \<in> set runs. feats \<noteq> [] \<and> distinct (map fst feats)"
    and "\<forall>xs. mset (reorder xs) = mset xs"
  shows "score_runs csvflag (concat (map bulk_rows runs)) =
    map_option (\<lambda>rows. (score_header csvflag @ concat rows, length runs))
      (those (map (\<lambda>r. scored_row csvflag (traced reorder r)) runs))"
proof -
  have "bulk_snapshot r = traced reorder r" if "r \<in> set runs" for r
    using assms(2) that traced_as_bulk [OF assms(3)] by (cases r) (auto simp: bulk_snapshot_def)
  then have "those (map (scored_row csvflag) (map bulk_snapshot runs)) =
      those (map (\<lambda>r. scored_row csvflag (traced reorder r)) runs)"
    by (intro arg_cong [of _ _ those]) simp
  moreover have "score_rows csvflag None (concat (map bulk_rows runs)) =
      those (map (scored_row csvflag) (map bulk_snapshot runs))"
    using assms(1,2) by (subst score_rows_runs) auto
  ultimately show ?thesis by (auto simp: score_runs_def dest: those_length intro!: map_option_cong)
qed

definition example_runs :: "stored_run list" where
  "example_runs =
     [(1, ''host'', ''run-1'', Some ''make'', [(Some ''backend_pct'', Fin 60, Some ''measured''), (Some ''ipc'', Fin 1, None)]),
      (2, ''host'', ''run-2'', None, [(Some ''retire_pct'', Fin 30, Some ''measured'')])]"

lemma bulk_scores_each_run_witness:
  "score_runs True (concat (map bulk_rows example_runs)) =
     map_option (\<lambda>rows. (score_header True @ concat rows, 2))
       (those (map (\<lambda>r. scored_row True (traced rev r)) example_runs))"
proof -
  have "distinct (map fst example_runs)" "length example_runs = 2"
    "\<forall>(i, host, name, command, feats) \<in> set example_runs. feats \<noteq> [] \<and> distinct (map fst feats)"
    by (simp_all add: example_runs_def)
  then show ?thesis using bulk_scores_each_run [of example_runs rev True] by simp
qed

section \<open>No buffer overflows\<close>

abbreviation double_features :: "run_snapshot \<Rightarrow> bool" where
  "double_features snap \<equiv> \<forall>f. sn_have snap f \<longrightarrow> double_range (sn_value snap f)"

lemma value_reason_length:
  "double_features snap \<Longrightarrow> sn_have snap f \<Longrightarrow> length (value_reason snap name f) \<le> length name + 12"
  using fmt_g_length [of "sn_value snap f" 4] by (simp add: value_reason_def)

text \<open>Ten signals of eleven characters each leave three bytes of the buffer.\<close>

lemma signal_lengths: "(\<Sum>(name, f, t)\<leftarrow>butlast mem_signals. length name + 13) = 253"
  by (simp add: mem_signals_def)

lemma sum_bounded:
  fixes g :: "'a \<Rightarrow> nat"
  shows "\<forall>x \<in> set xs. g x \<le> h x \<Longrightarrow> (\<Sum>x\<leftarrow>xs. g x) \<le> (\<Sum>x\<leftarrow>xs. h x)"
  by (induction xs) auto

lemma attribution_fits:
  assumes "double_features snap"
  shows "classify_memory_attribution snap \<noteq> None"
proof -
  define texts where "texts = map (\<lambda>(name, f, _). value_reason snap name f) (elevated_signals snap)"
  have fired: "sn_have snap f" if "(name, f, t) \<in> set (elevated_signals snap)" for name f t
    using that by (auto simp: elevated_signals_def measured_signals_def)
  have "(\<Sum>t\<leftarrow>butlast texts. length t + 1) =
      (\<Sum>(name, f, t)\<leftarrow>butlast (elevated_signals snap). length (value_reason snap name f) + 1)"
    by (simp add: texts_def comp_def case_prod_unfold flip: map_butlast)
  also have "\<dots> \<le> (\<Sum>(name, f, t)\<leftarrow>butlast (elevated_signals snap). length name + 13)"
  proof (intro sum_bounded ballI)
    fix x assume "x \<in> set (butlast (elevated_signals snap))"
    then have "x \<in> set (elevated_signals snap)" by (rule in_set_butlastD)
    moreover obtain name f t where "x = (name, f, t)" by (rule prod_cases3)
    ultimately show "(case x of (name, f, t) \<Rightarrow> length (value_reason snap name f) + 1) \<le>
        (case x of (name, f, t) \<Rightarrow> length name + 13)"
      using value_reason_length [OF assms fired, of name f t name] by simp
  qed
  also have "\<dots> \<le> (\<Sum>(name, f, t)\<leftarrow>butlast mem_signals. length name + 13)"
    unfolding elevated_signals_def measured_signals_def by (rule order_trans [OF butlast_filter_le butlast_filter_le])
  finally have elevated: "reason_items 256 texts \<noteq> None"
    using signal_lengths by (intro reason_items_fit) simp
  have "(\<Sum>t\<leftarrow>butlast (map (\<lambda>(name, _, _). ''checked:'' @ name) (measured_signals snap)). length t + 1) =
      (\<Sum>(name, f, t)\<leftarrow>butlast (measured_signals snap). length name + 9)"
    by (simp add: comp_def case_prod_unfold eval_nat_numeral flip: map_butlast)
  also have "\<dots> \<le> (\<Sum>(name, f, t)\<leftarrow>butlast mem_signals. length name + 9)"
    unfolding measured_signals_def by (rule butlast_filter_le)
  also have "\<dots> \<le> 256" by (simp add: mem_signals_def)
  finally have "reason_items 256 (map (\<lambda>(name, _, _). ''checked:'' @ name) (measured_signals snap)) \<noteq> None"
    by (rule reason_items_fit)
  with elevated show ?thesis by (simp add: classify_memory_attribution_def Let_def flip: texts_def)
qed

lemma locus_fold_fits:
  "used + (\<Sum>t\<leftarrow>butlast ts. length t) \<le> cap \<Longrightarrow> fold (reason_append cap) ts (Some (buf, used)) \<noteq> None"
proof (induction ts arbitrary: buf used)
  case (Cons t ts)
  then show ?case by (cases "ts = []") (simp_all add: reason_append_def)
qed simp

lemma locus_text_fits:
  assumes "length tier \<le> 18" and "length whys \<le> 2" and "\<forall>w \<in> set whys. length w \<le> 40"
  shows "locus_text tier whys tlb \<noteq> None"
proof -
  have "(\<Sum>t\<leftarrow>butlast (whys @ (if tlb then ['',tlb-cofire''] else [])). length t) \<le> (\<Sum>t\<leftarrow>whys. length t)"
    using sum_butlast_le [of length whys] by (simp add: butlast_append)
  also have "\<dots> \<le> (\<Sum>t\<leftarrow>whys. 40)" by (rule sum_bounded [OF assms(3)])
  also have "\<dots> = length whys * 40" by (simp add: sum_list_triv)
  finally show ?thesis using assms(1,2) locus_fold_fits [of "length tier" "whys @ (if tlb then ['',tlb-cofire''] else [])" 160 tier]
    by (simp add: locus_text_def)
qed

lemma locus_fits:
  assumes "double_features snap"
  shows "classify_memory_locus snap a \<noteq> None"
proof -
  note len = value_reason_length [OF assms]
  have ibs: "length whys \<le> 2 \<and> (\<forall>w \<in> set whys. length w \<le> 40)"
    if "ibs_locus snap = Some (l, whys)" "sn_have snap F_ibs_dc_miss_pct" for l whys
    using that len [of F_ibs_remote_node_pct "''ibs_remote_node_pct''"] len [of F_ibs_dram_pct "''ibs_dram_pct''"]
      len [of F_ibs_dc_miss_pct "''ibs_dc_miss_pct''"]
    by (auto simp: ibs_locus_def Let_def split: if_splits)
  have cache: "length whys \<le> 2 \<and> (\<forall>w \<in> set whys. length w \<le> 40)" if "cache_locus snap = Some (l, whys)" for l whys
    using that len [of F_l3_miss_pct "''l3_miss_pct''"] len [of F_l2_miss_pct "''l2_miss_pct''"]
      len [of F_dcache_miss_pct "''dcache_miss_pct''"]
    by (auto simp: cache_locus_def Let_def split: if_splits)
  show ?thesis
    using locus_text_fits [of "''tier=ibs-sample''"] locus_text_fits [of "''tier=cache-counter''"] ibs cache
    by (auto simp: classify_memory_locus_def Let_def split: option.split if_splits)
qed

text \<open>C40: whatever doubles the features of a run are, none of the buffers in which reasons are collected with
  \<open>snprintf\<close> at a growing offset is exceeded: each is scored.\<close>

theorem reasons_never_overflow:
  assumes "\<forall>f. sn_have snap f \<longrightarrow> double_range (sn_value snap f)"
  shows "\<exists>sc. score_snapshot snap = Some sc"
proof -
  obtain a where "classify_memory_attribution snap = Some a" using attribution_fits [OF assms] by blast
  moreover obtain m where "classify_memory_locus snap a = Some m" using locus_fits [OF assms] by blast
  moreover obtain c where "compute_overall_confidence (classify_resource_dominance (dominance_candidates snap))
      (simple_axes snap) = Some c" using confidence_fits by blast
  ultimately show ?thesis by (simp add: score_snapshot_def Let_def)
qed

lemma reasons_never_overflow_witness: "\<exists>sc. score_snapshot example_snapshot = Some sc"
  by (rule reasons_never_overflow) (simp add: example_snapshot_def double_range_def double_limit_def)

end
