(* ===== verification/Archetype_Nearest.thy ===== *)
theory Archetype_Nearest
  imports Archetype_Report Phase C_Qsort
begin

text \<open>
  The nearest runs of src/archetype.c (\<open>--nearest\<close>): every run as a list of its measured features, the statistics of
  each feature over all runs, and the distance of two runs over the features both have.
\<close>

section \<open>Feature vectors\<close>

record feature_vector =
  fv_run_id :: int
  fv_hostname :: string
  fv_run_id_text :: string
  fv_features :: "(string \<times> double) list"

definition feature_vector_add :: "string \<Rightarrow> double \<Rightarrow> feature_vector \<Rightarrow> feature_vector" where
  "feature_vector_add name v fv = fv\<lparr>fv_features := fv_features fv @ [(name, v)]\<rparr>"

definition feature_vector_find :: "feature_vector \<Rightarrow> string \<Rightarrow> double option" where
  "feature_vector_find fv name = map_of (fv_features fv) name"

text \<open>A row of the query, ordered by the run.\<close>

record vector_row =
  vr_run_id :: int
  vr_hostname :: "string option"
  vr_run_id_text :: "string option"
  vr_feature :: "string option"
  vr_value :: double

definition fresh_vector :: "vector_row \<Rightarrow> feature_vector" where
  "fresh_vector r =
     \<lparr>fv_run_id = vr_run_id r,
      fv_hostname = take 255 (case vr_hostname r of None \<Rightarrow> ''?'' | Some s \<Rightarrow> s),
      fv_run_id_text = take 127 (case vr_run_id_text r of None \<Rightarrow> ''?'' | Some s \<Rightarrow> s),
      fv_features = []\<rparr>"

definition add_row :: "vector_row \<Rightarrow> feature_vector \<Rightarrow> feature_vector" where
  "add_row r fv = (case vr_feature r of None \<Rightarrow> fv | Some name \<Rightarrow> feature_vector_add name (vr_value r) fv)"

fun load_feature_vectors :: "feature_vector option \<Rightarrow> vector_row list \<Rightarrow> feature_vector list" where
  "load_feature_vectors cur [] = (case cur of None \<Rightarrow> [] | Some v \<Rightarrow> [v])"
| "load_feature_vectors cur (r # rs) =
     (case cur of
        None \<Rightarrow> load_feature_vectors (Some (add_row r (fresh_vector r))) rs
      | Some v \<Rightarrow>
          if fv_run_id v = vr_run_id r then load_feature_vectors (Some (add_row r v)) rs
          else v # load_feature_vectors (Some (add_row r (fresh_vector r))) rs)"

section \<open>Statistics\<close>

record feature_stats =
  fs_name :: string
  fs_mean :: double
  fs_stddev :: double
  fs_count :: nat

text \<open>The first entry of the name is changed; without one, an entry is added, whose name is cut to 63 characters.\<close>

fun feature_stats_find_or_add ::
  "string \<Rightarrow> (feature_stats \<Rightarrow> feature_stats) \<Rightarrow> feature_stats list \<Rightarrow> feature_stats list"
where
  "feature_stats_find_or_add name f [] = [f \<lparr>fs_name = take 63 name, fs_mean = Fin 0, fs_stddev = Fin 0, fs_count = 0\<rparr>]"
| "feature_stats_find_or_add name f (s # ss) =
     (if fs_name s = name then f s # ss else s # feature_stats_find_or_add name f ss)"

definition accumulate ::
  "(double \<Rightarrow> feature_stats \<Rightarrow> feature_stats) \<Rightarrow> feature_vector list \<Rightarrow> feature_stats list \<Rightarrow> feature_stats list"
where
  "accumulate f = fold (\<lambda>v. fold (\<lambda>(name, x). feature_stats_find_or_add name (f x)) (fv_features v))"

definition mean_step :: "double \<Rightarrow> feature_stats \<Rightarrow> feature_stats" where
  "mean_step x s = s\<lparr>fs_mean := dadd (fs_mean s) x, fs_count := fs_count s + 1\<rparr>"

definition deviation_step :: "double \<Rightarrow> feature_stats \<Rightarrow> feature_stats" where
  "deviation_step x s = (let d = dsub x (fs_mean s) in s\<lparr>fs_stddev := dadd (fs_stddev s) (dmul d d)\<rparr>)"

definition compute_feature_stats :: "feature_vector list \<Rightarrow> feature_stats list" where
  "compute_feature_stats vectors =
     (let totals = accumulate mean_step vectors [];
          means = map (\<lambda>s. if 0 < fs_count s then s\<lparr>fs_mean := ddiv (fs_mean s) (double_of_int (int (fs_count s)))\<rparr> else s) totals
      in map (\<lambda>s. s\<lparr>fs_stddev := (if fs_count s \<ge> 2 then dsqrt (ddiv (fs_stddev s) (double_of_int (int (fs_count s) - 1)))
                               else Fin 0)\<rparr>)
           (accumulate deviation_step vectors means))"

definition feature_stats_lookup :: "feature_stats list \<Rightarrow> string \<Rightarrow> feature_stats option" where
  "feature_stats_lookup stats name = find (\<lambda>s. fs_name s = name) stats"

section \<open>Distance\<close>

text \<open>The standardized value, unless the feature has no spread.\<close>

definition z_score :: "feature_stats list \<Rightarrow> string \<Rightarrow> double \<Rightarrow> double option" where
  "z_score stats name x =
     (case feature_stats_lookup stats name of
        None \<Rightarrow> None
      | Some s \<Rightarrow> if dle (fs_stddev s) (Fin 0) then None else Some (ddiv (dsub x (fs_mean s)) (fs_stddev s)))"

definition shared_difference :: "feature_vector \<Rightarrow> feature_stats list \<Rightarrow> string \<times> double \<Rightarrow> double option" where
  "shared_difference b stats f =
     (case feature_vector_find b (fst f) of
        None \<Rightarrow> None
      | Some y \<Rightarrow>
          (case (z_score stats (fst f) (snd f), z_score stats (fst f) y) of
             (Some za, Some zb) \<Rightarrow> Some (dsub za zb)
           | _ \<Rightarrow> None))"

text \<open>The root of the mean of the squares, and their number; undefined without any.\<close>

definition rms :: "double list \<Rightarrow> (double \<times> nat) option" where
  "rms ds =
     (if ds = [] then None
      else Some (dsqrt (ddiv (fold (\<lambda>d sum. dadd sum (dmul d d)) ds (Fin 0)) (double_of_int (int (length ds)))), length ds))"

definition nearest_neighbor_distance ::
  "feature_vector \<Rightarrow> feature_vector \<Rightarrow> feature_stats list \<Rightarrow> (double \<times> nat) option"
where
  "nearest_neighbor_distance a b stats = rms (List.map_filter (shared_difference b stats) (fv_features a))"

section \<open>The report\<close>

record neighbor_result =
  nr_candidate :: feature_vector
  nr_distance :: double
  nr_shared :: nat

definition cmp_distance :: "double \<Rightarrow> double \<Rightarrow> int" where
  "cmp_distance a b = (if dlt a b then -1 else if dlt b a then 1 else 0)"

definition cmp_neighbor_result :: "neighbor_result \<Rightarrow> neighbor_result \<Rightarrow> int" where
  "cmp_neighbor_result a b = cmp_distance (nr_distance a) (nr_distance b)"

definition host_run :: "string \<Rightarrow> string \<Rightarrow> string" where
  "host_run hostname run_id_text = take 399 (hostname @ '':'' @ run_id_text)"

definition print_neighbor_row :: "bool \<Rightarrow> neighbor_result \<Rightarrow> string" where
  "print_neighbor_row csvflag r =
     (let v = nr_candidate r in
      if csvflag then
        print_csv_field (fv_hostname v) @ '','' @ print_csv_field (fv_run_id_text v) @ '','' @
        fmt_g 4 (nr_distance r) @ '','' @ dec (nr_shared r) @ newline
      else
        fixed_width 40 (host_run (fv_hostname v) (fv_run_id_text v)) @ '' '' @
        pad_left (CHR '' '') 10 (fmt_g 4 (nr_distance r)) @ '' '' @ pad_left (CHR '' '') 18 (dec (nr_shared r)) @ newline)"

definition nearest_header :: "bool \<Rightarrow> string" where
  "nearest_header csvflag =
     (if csvflag then ''hostname,run_id,distance,compared_features'' @ newline
      else pad_right 40 ''hostname:run_id'' @ '' '' @ pad_left (CHR '' '') 10 ''distance'' @ '' '' @
           pad_left (CHR '' '') 18 ''compared_features'' @ newline)"

text \<open>The first vector of the run, and all the others that share a feature with it.\<close>

fun find_target :: "string \<Rightarrow> string \<Rightarrow> feature_vector list \<Rightarrow> (feature_vector \<times> feature_vector list) option" where
  "find_target hostname run_id_text [] = None"
| "find_target hostname run_id_text (v # vs) =
     (if fv_hostname v = hostname \<and> fv_run_id_text v = run_id_text then Some (v, vs)
      else map_option (\<lambda>(t, others). (t, v # others)) (find_target hostname run_id_text vs))"

definition neighbor_of :: "feature_vector \<Rightarrow> feature_stats list \<Rightarrow> feature_vector \<Rightarrow> neighbor_result option" where
  "neighbor_of target stats v =
     map_option (\<lambda>(d, n). \<lparr>nr_candidate = v, nr_distance = d, nr_shared = n\<rparr>) (nearest_neighbor_distance target v stats)"

definition ranked_neighbors :: "string \<Rightarrow> string \<Rightarrow> feature_vector list \<Rightarrow> neighbor_result list option" where
  "ranked_neighbors hostname run_id_text vectors =
     map_option (\<lambda>(target, others). qsort cmp_neighbor_result
         (List.map_filter (neighbor_of target (compute_feature_stats vectors)) others))
       (find_target hostname run_id_text vectors)"

text \<open>The rows are \<open>None\<close> if the query fails; \<open>exists\<close> is whether the store has the run at all.\<close>

definition nearest_neighbors ::
  "vector_row list option \<Rightarrow> bool \<Rightarrow> string \<Rightarrow> string \<Rightarrow> nat \<Rightarrow> bool \<Rightarrow> int \<times> string"
where
  "nearest_neighbors rows exists_run hostname run_id_text k csvflag =
     (case rows of
        None \<Rightarrow> (2, [])
      | Some rs \<Rightarrow>
          (let results = ranked_neighbors hostname run_id_text (load_feature_vectors None rs) in
           if results = None \<and> \<not> exists_run then (1, [])
           else (0, nearest_header csvflag @
                    concat (map (print_neighbor_row csvflag) (take k (case results of None \<Rightarrow> [] | Some ns \<Rightarrow> ns))))))"

end
