(* ===== verification/Archetype_Kmeans.thy ===== *)
theory Archetype_Kmeans
  imports Archetype_Nearest
begin

text \<open>
  The clusters of src/archetype.c (\<open>--kmeans\<close>): k-means++ seeding, Lloyd's iteration with its repair of empty clusters,
  the cards, and the dispatch of the program's modes. \<open>rand_r\<close> is a parameter, which takes a state to a number and
  the next state.
\<close>

section \<open>Centroids\<close>

record centroid =
  ce_dims :: "(string \<times> double) list"
  ce_size :: nat

definition centroid_dim_find :: "centroid \<Rightarrow> string \<Rightarrow> double option" where
  "centroid_dim_find c name = map_of (ce_dims c) name"

definition centroid_difference :: "centroid \<Rightarrow> feature_stats list \<Rightarrow> string \<times> double \<Rightarrow> double option" where
  "centroid_difference c stats f =
     (case (centroid_dim_find c (fst f), z_score stats (fst f) (snd f)) of
        (Some cz, Some z) \<Rightarrow> Some (dsub z cz)
      | _ \<Rightarrow> None)"

definition centroid_distance :: "feature_vector \<Rightarrow> centroid \<Rightarrow> feature_stats list \<Rightarrow> (double \<times> nat) option" where
  "centroid_distance v c stats = rms (List.map_filter (centroid_difference c stats) (fv_features v))"

text \<open>The standardized features of a vector, those without spread left out.\<close>

definition z_features :: "feature_stats list \<Rightarrow> feature_vector \<Rightarrow> (string \<times> double) list" where
  "z_features stats v =
     List.map_filter (\<lambda>(name, x). map_option (Pair name) (z_score stats name x)) (fv_features v)"

fun add_z :: "string \<times> double \<Rightarrow> (string \<times> double \<times> nat) list \<Rightarrow> (string \<times> double \<times> nat) list" where
  "add_z (name, z) [] = [(take 63 name, dadd (Fin 0) z, 1)]"
| "add_z (name, z) ((m, total_z, n) # acc) =
     (if m = name then (m, dadd total_z z, n + 1) # acc else (m, total_z, n) # add_z (name, z) acc)"

definition centroid_update :: "feature_vector list \<Rightarrow> nat list \<Rightarrow> nat \<Rightarrow> feature_stats list \<Rightarrow> centroid" where
  "centroid_update vectors assignments cluster_id stats =
     (let members = map fst (filter (\<lambda>(_, a). a = cluster_id) (zip vectors assignments));
          accum = fold add_z (concat (map (z_features stats) members)) []
      in \<lparr>ce_dims = map (\<lambda>(name, total_z, n). (take 63 name, ddiv total_z (double_of_int (int n)))) accum,
          ce_size = length members\<rparr>)"

definition seed_centroid :: "feature_stats list \<Rightarrow> feature_vector \<Rightarrow> centroid" where
  "seed_centroid stats v = \<lparr>ce_dims = map (\<lambda>(name, z). (take 63 name, z)) (z_features stats v), ce_size = 0\<rparr>"

section \<open>Seeding\<close>

definition DBL_MAX :: double where
  "DBL_MAX = Fin (2 ^ 1024 - 2 ^ 971)"

definition RAND_MAX :: nat where
  "RAND_MAX = 2147483647"

type_synonym rand = "u32 \<Rightarrow> nat \<times> u32"

text \<open>The distances to the nearest chosen point, after the last one chosen, and the largest of them.\<close>

definition nearer :: "feature_vector \<Rightarrow> feature_stats list \<Rightarrow> feature_vector \<times> double \<Rightarrow> double" where
  "nearer chosen stats vd =
     (case nearest_neighbor_distance (fst vd) chosen stats of
        None \<Rightarrow> snd vd
      | Some (d, _) \<Rightarrow> if dlt (dmul d d) (snd vd) then dmul d d else snd vd)"

definition max_finite :: "double list \<Rightarrow> double" where
  "max_finite ds = fold (\<lambda>d m. if dlt d DBL_MAX \<and> dlt m d then d else m) ds (Fin 0)"

definition update_dist2 :: "feature_vector list \<Rightarrow> feature_stats list \<Rightarrow> nat \<Rightarrow> double list \<Rightarrow> double list" where
  "update_dist2 vectors stats last_chosen dist2 =
     (let ds = map (nearer (vectors ! last_chosen) stats) (zip vectors dist2); m = max_finite ds in
      (map (\<lambda>d. if dle DBL_MAX d then m else d) ds)[last_chosen := Fin 0])"

text \<open>The first index at which the running sum reaches \<open>r\<close>.\<close>

fun weighted_pick :: "double \<Rightarrow> double \<Rightarrow> nat \<Rightarrow> double list \<Rightarrow> nat option" where
  "weighted_pick r running i [] = None"
| "weighted_pick r running i (d # ds) =
     (let running = dadd running d in if dle r running then Some i else weighted_pick r running (i + 1) ds)"

definition choose_next ::
  "rand \<Rightarrow> feature_vector list \<Rightarrow> feature_stats list \<Rightarrow> nat list \<times> double list \<times> u32 \<Rightarrow> nat list \<times> double list \<times> u32"
where
  "choose_next rand_r vectors stats s =
     (let (chosen, dist2, state) = s; before = last chosen;
          dist2 = update_dist2 vectors stats before dist2; total_d = fold (\<lambda>d t. dadd t d) dist2 (Fin 0)
      in if dle total_d (Fin 0) then
           (chosen @ [case find (\<lambda>i. i \<notin> set chosen) [0..<length vectors] of Some i \<Rightarrow> i | None \<Rightarrow> before], dist2, state)
         else
           (let (x, state) = rand_r state;
                r = dmul (ddiv (double_of_int (int x)) (dadd (double_of_int (int RAND_MAX)) (Fin 1))) total_d
            in (chosen @ [case weighted_pick r (Fin 0) 0 dist2 of Some i \<Rightarrow> i | None \<Rightarrow> before], dist2, state)))"

definition kmeans_plusplus_init ::
  "rand \<Rightarrow> feature_vector list \<Rightarrow> nat \<Rightarrow> feature_stats list \<Rightarrow> u32 \<Rightarrow> nat list"
where
  "kmeans_plusplus_init rand_r vectors k stats seed =
     (let (x, state) = rand_r seed; first = x mod length vectors in
      fst ((choose_next rand_r vectors stats ^^ (k - 1))
             ([first], (replicate (length vectors) DBL_MAX)[first := Fin 0], state)))"

section \<open>The iteration\<close>

text \<open>The nearest centroid, the first one if several are; \<open>None\<close> if the vector shares no feature with any.\<close>

definition best_centroid :: "feature_vector \<Rightarrow> centroid list \<Rightarrow> feature_stats list \<Rightarrow> (double \<times> nat) option" where
  "best_centroid v centroids stats =
     fold (\<lambda>c best.
        case centroid_distance v (centroids ! c) stats of
          None \<Rightarrow> best
        | Some (d, _) \<Rightarrow>
            (case best of None \<Rightarrow> Some (d, c) | Some (best_d, _) \<Rightarrow> if dlt d best_d then Some (d, c) else best))
       [0..<length centroids] None"

definition smallest_cluster :: "nat list \<Rightarrow> nat" where
  "smallest_cluster sizes = fold (\<lambda>c m. if sizes ! c < sizes ! m then c else m) [1..<length sizes] 0"

text \<open>What a pass knows: the cluster and the distance of each vector so far, and the size of each cluster.\<close>

record clustering =
  cl_assignments :: "nat list"
  cl_distances :: "double list"
  cl_sizes :: "nat list"

definition assign_vector :: "centroid list \<Rightarrow> feature_stats list \<Rightarrow> feature_vector \<Rightarrow> clustering \<Rightarrow> clustering" where
  "assign_vector centroids stats v s =
     (let (d, c) = (case best_centroid v centroids stats of
                      Some b \<Rightarrow> b
                    | None \<Rightarrow> (Fin 0, smallest_cluster (cl_sizes s)))
      in \<lparr>cl_assignments = cl_assignments s @ [c], cl_distances = cl_distances s @ [d],
          cl_sizes = (cl_sizes s)[c := cl_sizes s ! c + 1]\<rparr>)"

definition assign_all :: "feature_vector list \<Rightarrow> centroid list \<Rightarrow> feature_stats list \<Rightarrow> clustering" where
  "assign_all vectors centroids stats =
     fold (assign_vector centroids stats) vectors
       \<lparr>cl_assignments = [], cl_distances = [], cl_sizes = replicate (length centroids) 0\<rparr>"

text \<open>The worst fit among the members of clusters with more than one member.\<close>

definition worst_fit :: "clustering \<Rightarrow> nat option" where
  "worst_fit s =
     fold (\<lambda>i worst.
        if cl_sizes s ! (cl_assignments s ! i) \<le> 1 then worst
        else (case worst of
                None \<Rightarrow> Some i
              | Some w \<Rightarrow> if dlt (cl_distances s ! w) (cl_distances s ! i) then Some i else worst))
       [0..<length (cl_assignments s)] None"

text \<open>One round of the loop over an empty cluster; after it the cluster has a member or there is nobody to take, so
  there is no second one. The flag is \<open>changed\<close>.\<close>

definition fill_cluster :: "nat \<Rightarrow> clustering \<times> bool \<Rightarrow> clustering \<times> bool" where
  "fill_cluster c sc =
     (let s = fst sc in
      if cl_sizes s ! c = 0 then
        (case worst_fit s of
           None \<Rightarrow> sc
         | Some w \<Rightarrow>
             (let donor = cl_assignments s ! w; sizes = (cl_sizes s)[donor := cl_sizes s ! donor - 1] in
              (\<lparr>cl_assignments = (cl_assignments s)[w := c], cl_distances = (cl_distances s)[w := Fin 0],
                cl_sizes = sizes[c := sizes ! c + 1]\<rparr>, True)))
      else sc)"

definition repair_clusters :: "clustering \<times> bool \<Rightarrow> clustering \<times> bool" where
  "repair_clusters sc = fold fill_cluster [0..<length (cl_sizes (fst sc))] sc"

text \<open>\<open>prev\<close> is \<open>None\<close> before the first pass, when every assignment is -1.\<close>

definition lloyd_step ::
  "feature_vector list \<Rightarrow> feature_stats list \<Rightarrow> centroid list \<Rightarrow> nat list option \<Rightarrow> clustering \<times> centroid list \<times> bool"
where
  "lloyd_step vectors stats centroids prev =
     (let s = assign_all vectors centroids stats;
          (s, changed) = repair_clusters (s, prev \<noteq> Some (cl_assignments s))
      in (s, map (\<lambda>c. centroid_update vectors (cl_assignments s) c stats) [0..<length centroids], changed))"

fun lloyd ::
  "feature_vector list \<Rightarrow> feature_stats list \<Rightarrow> nat \<Rightarrow> centroid list \<Rightarrow> nat list option \<Rightarrow> clustering \<times> centroid list"
where
  "lloyd vectors stats 0 centroids prev =
     (let (s, centroids, _) = lloyd_step vectors stats centroids prev in (s, centroids))"
| "lloyd vectors stats (Suc n) centroids prev =
     (let (s, centroids, changed) = lloyd_step vectors stats centroids prev in
      if \<not> changed \<and> prev \<noteq> None then (s, centroids)
      else lloyd vectors stats n centroids (Some (cl_assignments s)))"

definition final_distance :: "centroid list \<Rightarrow> feature_stats list \<Rightarrow> feature_vector \<times> nat \<times> double \<Rightarrow> double" where
  "final_distance centroids stats x =
     (case x of (v, a, d) \<Rightarrow> case centroid_distance v (centroids ! a) stats of None \<Rightarrow> d | Some (d', _) \<Rightarrow> d')"

text \<open>The assignments, the centroids and the distances, for at least one vector, cluster and iteration.\<close>

definition kmeans_cluster ::
  "rand \<Rightarrow> feature_vector list \<Rightarrow> nat \<Rightarrow> feature_stats list \<Rightarrow> u32 \<Rightarrow> nat \<Rightarrow> nat list \<times> centroid list \<times> double list"
where
  "kmeans_cluster rand_r vectors k stats seed max_iterations =
     (let chosen = kmeans_plusplus_init rand_r vectors k stats seed;
          (s, centroids) = lloyd vectors stats (max_iterations - 1) (map (\<lambda>i. seed_centroid stats (vectors ! i)) chosen) None
      in (cl_assignments s, centroids,
          map (final_distance centroids stats) (zip vectors (zip (cl_assignments s) (cl_distances s)))))"

section \<open>The report\<close>

definition KMEANS_TOP_FEATURES :: nat where
  "KMEANS_TOP_FEATURES = 5"

definition NEAREST_DEFAULT_K :: int where
  "NEAREST_DEFAULT_K = 5"

definition KMEANS_DEFAULT_ITERATIONS :: int where
  "KMEANS_DEFAULT_ITERATIONS = 50"

definition KMEANS_DEFAULT_SEED :: u32 where
  "KMEANS_DEFAULT_SEED = 1"

definition cmp_centroid_dim_by_abs_z :: "string \<times> double \<Rightarrow> string \<times> double \<Rightarrow> int" where
  "cmp_centroid_dim_by_abs_z a b = cmp_distance (dabs (snd b)) (dabs (snd a))"

text \<open>\<open>%+.2f\<close>.\<close>

definition signed_fixed :: "nat \<Rightarrow> double \<Rightarrow> string" where
  "signed_fixed p x = (let t = fmt_fixed p x in if starts_with ''-'' t then t else CHR ''+'' # t)"

text \<open>What is in the buffer, and how much of it counts: a text that does not fit is cut, and the loop ends.\<close>

fun top_features_loop :: "nat \<Rightarrow> string \<Rightarrow> (string \<times> double) list \<Rightarrow> string" where
  "top_features_loop bufsize buf [] = buf"
| "top_features_loop bufsize buf ((name, z) # ds) =
     (let t = (if buf = [] then [] else '';'') @ name @ '':'' @ signed_fixed 2 z in
      if length t \<ge> bufsize - length buf then take (bufsize - 1) (buf @ t)
      else top_features_loop bufsize (buf @ t) ds)"

definition format_top_features :: "centroid \<Rightarrow> nat \<Rightarrow> string" where
  "format_top_features c bufsize =
     top_features_loop bufsize [] (take KMEANS_TOP_FEATURES (qsort cmp_centroid_dim_by_abs_z (ce_dims c)))"

type_synonym cluster_member = "feature_vector \<times> double"

definition cmp_cluster_member :: "cluster_member \<Rightarrow> cluster_member \<Rightarrow> int" where
  "cmp_cluster_member a b = cmp_distance (snd a) (snd b)"

definition print_cluster_member_row :: "bool \<Rightarrow> nat \<Rightarrow> nat \<Rightarrow> cluster_member \<Rightarrow> string \<Rightarrow> string" where
  "print_cluster_member_row csvflag cluster_id cluster_size m top_features =
     (let v = fst m in
      if csvflag then
        dec cluster_id @ '','' @ dec cluster_size @ '','' @ print_csv_field (fv_hostname v) @ '','' @
        print_csv_field (fv_run_id_text v) @ '','' @ fmt_g 4 (snd m) @ '','' @ print_csv_field top_features @ newline
      else
        pad_left (CHR '' '') 6 (dec cluster_id) @ '' '' @ pad_left (CHR '' '') 6 (dec cluster_size) @ '' '' @
        fixed_width 40 (host_run (fv_hostname v) (fv_run_id_text v)) @ '' '' @
        pad_left (CHR '' '') 10 (fmt_g 4 (snd m)) @ ''  '' @ top_features @ newline)"

definition kmeans_header :: "bool \<Rightarrow> string" where
  "kmeans_header csvflag =
     (if csvflag then ''cluster,size,hostname,run_id,distance,top_features'' @ newline
      else pad_left (CHR '' '') 6 ''cluster'' @ '' '' @ pad_left (CHR '' '') 6 ''size'' @ '' '' @
           pad_right 40 ''hostname:run_id'' @ '' '' @ pad_left (CHR '' '') 10 ''distance'' @
           ''  top_features (name:z-score)'' @ newline)"

text \<open>The members of a cluster, the nearest to its centroid first.\<close>

definition cluster_members :: "feature_vector list \<Rightarrow> nat list \<times> centroid list \<times> double list \<Rightarrow> nat \<Rightarrow> cluster_member list" where
  "cluster_members vectors r c =
     (let (assignments, _, distances) = r in
      qsort cmp_cluster_member
        (map (\<lambda>(v, _, d). (v, d)) (filter (\<lambda>(_, a, _). a = c) (zip vectors (zip assignments distances)))))"

definition cluster_text :: "bool \<Rightarrow> feature_vector list \<Rightarrow> nat list \<times> centroid list \<times> double list \<Rightarrow> nat \<Rightarrow> string" where
  "cluster_text csvflag vectors r c =
     (let card = fst (snd r) ! c in
      concat (map (\<lambda>m. print_cluster_member_row csvflag c (ce_size card) m (format_top_features card 512))
        (cluster_members vectors r c)))"

text \<open>The exit status and the text, for at least one cluster and one iteration.\<close>

definition kmeans_report :: "rand \<Rightarrow> vector_row list option \<Rightarrow> nat \<Rightarrow> u32 \<Rightarrow> nat \<Rightarrow> bool \<Rightarrow> int \<times> string" where
  "kmeans_report rand_r rows k seed max_iterations csvflag =
     (case rows of
        None \<Rightarrow> (2, [])
      | Some rs \<Rightarrow>
          (let vectors = load_feature_vectors None rs in
           if length vectors < k then (1, [])
           else
             (let r = kmeans_cluster rand_r vectors k (compute_feature_stats vectors) seed max_iterations
              in (0, kmeans_header csvflag @ concat (map (cluster_text csvflag vectors r) [0..<k])))))"

section \<open>The modes of the program\<close>

text \<open>The store: the rows its queries give, \<open>None\<close> where one fails.\<close>

record archetype_store =
  as_scores :: "string \<Rightarrow> string \<Rightarrow> store_row list option"
  as_vectors :: "string \<Rightarrow> string \<Rightarrow> vector_row list option"
  as_run :: "string \<Rightarrow> string \<Rightarrow> (int \<times> string option) option"
  as_features :: "int \<Rightarrow> (string option \<times> double \<times> string option) list"

record archetype_options =
  ao_db_path :: "string option"
  ao_command :: string
  ao_hostname :: string
  ao_csvflag :: bool
  ao_run :: "string option"
  ao_guest :: "string option"
  ao_nearest :: "string option"
  ao_kmeans :: "string option"
  ao_k :: int
  ao_seed :: u32
  ao_iterations :: int

definition found_run :: "archetype_store \<Rightarrow> string \<Rightarrow> string \<Rightarrow> (int \<times> string) option" where
  "found_run db host name =
     (let run = as_run db host name in
      trace_run_archetype run (case run of None \<Rightarrow> [] | Some (i, _) \<Rightarrow> as_features db i) host name)"

text \<open>The exit status and the text on standard output. \<open>open_db\<close> is \<open>open_archetype_db\<close>.\<close>

definition archetype_main ::
  "rand \<Rightarrow> (string \<Rightarrow> archetype_store option) \<Rightarrow> (string \<Rightarrow> file_read) \<Rightarrow> archetype_options \<Rightarrow> (int \<times> string) option"
where
  "archetype_main rand_r open_db read_json opts =
     (let modes = length (filter (\<lambda>m. m \<noteq> None) [ao_run opts, ao_guest opts, ao_nearest opts, ao_kmeans opts]);
          with_db = (\<lambda>f. case open_db (the (ao_db_path opts)) of None \<Rightarrow> Some (2, []) | Some db \<Rightarrow> f db);
          k = max 1 (ao_k opts); iterations = max 1 (ao_iterations opts)
      in if modes \<ge> 2 then Some (2, [])
         else case ao_guest opts of
           Some path \<Rightarrow> run_guest_archetype (read_json path)
         | None \<Rightarrow>
             if ao_db_path opts = None then Some (2, [])
             else case ao_kmeans opts of
               Some key \<Rightarrow>
                 (if sint (atoi key) < 1 then Some (2, [])
                  else with_db (\<lambda>db. Some (kmeans_report rand_r (as_vectors db (ao_command opts) (ao_hostname opts))
                    (nat (sint (atoi key))) (ao_seed opts) (nat iterations) (ao_csvflag opts))))
             | None \<Rightarrow>
                 (case ao_nearest opts of
                    Some key \<Rightarrow>
                      (case split_key key of
                         None \<Rightarrow> Some (2, [])
                       | Some (host, name) \<Rightarrow>
                           with_db (\<lambda>db. Some (nearest_neighbors (as_vectors db (ao_command opts) (ao_hostname opts))
                             (as_run db host name \<noteq> None) host name (nat k) (ao_csvflag opts))))
                  | None \<Rightarrow>
                      (case ao_run opts of
                         Some key \<Rightarrow>
                           (case split_key key of
                              None \<Rightarrow> Some (2, [])
                            | Some (host, name) \<Rightarrow> with_db (\<lambda>db. found_run db host name))
                       | None \<Rightarrow>
                           with_db (\<lambda>db.
                             case as_scores db (ao_command opts) (ao_hostname opts) of
                               None \<Rightarrow> Some (2, [])
                             | Some rows \<Rightarrow> map_option (\<lambda>(text_out, _). (0, text_out)) (score_runs (ao_csvflag opts) rows)))))"


end
