(* ===== verification/Archetype_Kmeans_Facts.thy ===== *)
theory Archetype_Kmeans_Facts
  imports Archetype_Kmeans
begin

text \<open>
  The clusters of src/archetype.c: every run ends in exactly one of k clusters, none of them empty, and the report has
  every run once; the runs nearest to a run are listed by increasing distance.
\<close>

section \<open>What a clustering keeps\<close>

text \<open>\<open>m\<close> vectors are in \<open>k\<close> clusters, whose sizes are counted.\<close>

definition clustering_ok :: "nat \<Rightarrow> nat \<Rightarrow> clustering \<Rightarrow> bool" where
  "clustering_ok k m s \<longleftrightarrow>
     length (cl_assignments s) = m \<and> length (cl_distances s) = m \<and> length (cl_sizes s) = k \<and>
     (\<forall>a \<in> set (cl_assignments s). a < k) \<and> (\<forall>c < k. cl_sizes s ! c = count_list (cl_assignments s) c)"

lemma count_list_update:
  assumes "w < length xs"
  shows "count_list (xs[w := c]) x + (if xs ! w = x then 1 else 0) = count_list xs x + (if c = x then 1 else 0)"
proof -
  have "xs ! w \<in># mset xs" using assms by simp
  then have "add_mset (xs ! w) (mset (xs[w := c])) = add_mset c (mset xs)"
    using assms by (simp add: mset_update add_mset_commute)
  then have "count (add_mset (xs ! w) (mset (xs[w := c]))) x = count (add_mset c (mset xs)) x" by simp
  then show ?thesis by (simp add: count_mset split: if_splits)
qed

lemma best_centroid_bound:
  assumes "best_centroid v centroids stats = Some b"
  shows "snd b < length centroids"
proof -
  have "\<forall>b. best_centroid v centroids stats = Some b \<longrightarrow> snd b < length centroids"
    unfolding best_centroid_def
    by (rule fold_invariant [where Q = "\<lambda>c. c < length centroids"]) (auto split: option.splits)
  with assms show ?thesis by blast
qed

lemma smallest_cluster_bound: "sizes \<noteq> [] \<Longrightarrow> smallest_cluster sizes < length sizes"
  unfolding smallest_cluster_def
  by (rule fold_invariant [where Q = "\<lambda>c. c < length sizes"]) auto

lemma assign_vector_ok:
  assumes "clustering_ok k m s" and "length centroids = k" and "0 < k"
  shows "clustering_ok k (m + 1) (assign_vector centroids stats v s)"
proof -
  define b where "b = (case best_centroid v centroids stats of
      Some b \<Rightarrow> b | None \<Rightarrow> (Fin 0, smallest_cluster (cl_sizes s)))"
  have c: "snd b < k"
  proof (cases "best_centroid v centroids stats")
    case None
    have "length (cl_sizes s) = k" using assms(1) by (simp add: clustering_ok_def)
    then show ?thesis using smallest_cluster_bound [of "cl_sizes s"] assms(3) by (auto simp: b_def None)
  qed (use assms(2) best_centroid_bound in \<open>auto simp: b_def\<close>)
  have s: "length (cl_assignments s) = m" "length (cl_distances s) = m" "length (cl_sizes s) = k"
    "\<forall>a \<in> set (cl_assignments s). a < k" "\<forall>c < k. cl_sizes s ! c = count_list (cl_assignments s) c"
    using assms(1) by (simp_all add: clustering_ok_def)
  have e: "assign_vector centroids stats v s =
      \<lparr>cl_assignments = cl_assignments s @ [snd b], cl_distances = cl_distances s @ [fst b],
       cl_sizes = (cl_sizes s)[snd b := cl_sizes s ! snd b + 1]\<rparr>"
    by (simp add: assign_vector_def b_def split_beta Let_def)
  show ?thesis unfolding clustering_ok_def e
    by (intro conjI allI impI) (use s c in \<open>auto simp: nth_list_update\<close>)
qed

lemma assign_all_ok:
  assumes "length centroids = k" and "0 < k"
  shows "clustering_ok k (length vectors) (assign_all vectors centroids stats)"
proof -
  have "clustering_ok k m s \<Longrightarrow> clustering_ok k (m + length vs) (fold (assign_vector centroids stats) vs s)" for m vs s
  proof (induction vs arbitrary: m s)
    case (Cons v vs)
    from Cons.IH [OF assign_vector_ok [OF Cons.prems assms]] show ?case by simp
  qed simp
  moreover have "clustering_ok k 0
      \<lparr>cl_assignments = [], cl_distances = [], cl_sizes = replicate (length centroids) 0\<rparr>"
    using assms(1) by (simp add: clustering_ok_def)
  ultimately show ?thesis unfolding assign_all_def by fastforce
qed

section \<open>Empty clusters\<close>

lemma worst_fit_some:
  assumes "worst_fit s = Some w"
  shows "w < length (cl_assignments s) \<and> 1 < cl_sizes s ! (cl_assignments s ! w)"
proof -
  have "\<forall>w. worst_fit s = Some w \<longrightarrow> w < length (cl_assignments s) \<and> 1 < cl_sizes s ! (cl_assignments s ! w)"
    unfolding worst_fit_def
    by (rule fold_invariant [where Q = "\<lambda>i. i < length (cl_assignments s)"]) (auto split: option.splits)
  with assms show ?thesis by blast
qed

lemma worst_fit_none:
  assumes "worst_fit s = None" and "i < length (cl_assignments s)"
  shows "cl_sizes s ! (cl_assignments s ! i) \<le> 1"
proof -
  let ?f = "\<lambda>i worst.
        if cl_sizes s ! (cl_assignments s ! i) \<le> 1 then worst
        else (case worst of
                None \<Rightarrow> Some i
              | Some w \<Rightarrow> if dlt (cl_distances s ! w) (cl_distances s ! i) then Some i else worst)"
  have "fold ?f is best = None \<Longrightarrow> best = None \<and> (\<forall>i \<in> set is. cl_sizes s ! (cl_assignments s ! i) \<le> 1)" for "is" best
  proof (induction "is" arbitrary: best)
    case (Cons i "is")
    from Cons.IH [OF Cons.prems [unfolded fold_simps]] show ?case by (auto split: option.splits if_splits)
  qed simp
  from this [of "[0..<length (cl_assignments s)]" None] assms show ?thesis by (simp add: worst_fit_def)
qed

text \<open>With at least as many vectors as clusters there is a member to take whenever a cluster is empty.\<close>

lemma donor_exists:
  assumes "clustering_ok k m s" and "k \<le> m" and "c < k" and "cl_sizes s ! c = 0"
  shows "worst_fit s \<noteq> None"
proof
  assume none: "worst_fit s = None"
  have sizes: "cl_sizes s ! x = count_list (cl_assignments s) x" if "x < k" for x
    using assms(1) that by (simp add: clustering_ok_def)
  have "count_list (cl_assignments s) x \<le> 1" if x: "x < k" for x
  proof (cases "x \<in> set (cl_assignments s)")
    case True
    then obtain i where "i < length (cl_assignments s)" "cl_assignments s ! i = x" by (auto simp: in_set_conv_nth)
    with worst_fit_none [OF none this(1)] sizes [OF x] show ?thesis by simp
  qed simp
  then have "(\<Sum>x \<in> {..<k} - {c}. count_list (cl_assignments s) x) \<le> (\<Sum>x \<in> {..<k} - {c}. 1)" by (intro sum_mono) auto
  also have "\<dots> = k - 1" using assms(3) by simp
  finally have "(\<Sum>x < k. count_list (cl_assignments s) x) \<le> k - 1"
    using assms(3,4) sizes by (simp add: sum.remove [of "{..<k}" c])
  moreover have "(\<Sum>x < k. count_list (cl_assignments s) x) = m"
    using assms(1) sum_count_set [of "cl_assignments s" "{..<k}"] by (auto simp: clustering_ok_def)
  ultimately show False using assms(2,3) by simp
qed

lemma fill_cluster_ok:
  assumes ok: "clustering_ok k m (fst sc)" and "k \<le> m" and "c < k"
  shows "clustering_ok k m (fst (fill_cluster c sc)) \<and> 0 < cl_sizes (fst (fill_cluster c sc)) ! c \<and>
    (\<forall>x < k. 0 < cl_sizes (fst sc) ! x \<longrightarrow> 0 < cl_sizes (fst (fill_cluster c sc)) ! x)"
proof (cases "cl_sizes (fst sc) ! c = 0")
  case False
  then show ?thesis using ok by (simp add: fill_cluster_def)
next
  case empty: True
  define s where "s = fst sc"
  have parts: "length (cl_assignments s) = m" "length (cl_distances s) = m" "length (cl_sizes s) = k"
    "\<forall>a \<in> set (cl_assignments s). a < k" "\<forall>c < k. cl_sizes s ! c = count_list (cl_assignments s) c"
    using ok by (simp_all add: clustering_ok_def s_def)
  obtain w where w: "worst_fit s = Some w" using donor_exists [OF ok assms(2,3) empty] by (auto simp: s_def)
  define donor where "donor = cl_assignments s ! w"
  have wd: "w < m" "1 < cl_sizes s ! donor" using worst_fit_some [OF w] parts(1) by (simp_all add: donor_def)
  then have donor: "donor < k" "donor \<noteq> c" using parts(1,4) empty by (auto simp: donor_def s_def)
  define s' where "s' = \<lparr>cl_assignments = (cl_assignments s)[w := c], cl_distances = (cl_distances s)[w := Fin 0],
    cl_sizes = (cl_sizes s)[donor := cl_sizes s ! donor - 1, c := 1]\<rparr>"
  have fill: "fill_cluster c sc = (s', True)"
    using empty w donor by (simp add: fill_cluster_def s'_def donor_def Let_def flip: s_def)
  have sizes: "cl_sizes s' ! x = (if x = c then 1 else if x = donor then cl_sizes s ! donor - 1 else cl_sizes s ! x)"
    if "x < k" for x
    using that parts(3) donor by (simp add: s'_def nth_list_update)
  have count: "count_list (cl_assignments s') x + (if donor = x then 1 else 0) =
      count_list (cl_assignments s) x + (if c = x then 1 else 0)" for x
    using count_list_update [of w "cl_assignments s" c x] wd(1) parts(1) by (simp add: s'_def donor_def)
  have "cl_sizes s' ! x = count_list (cl_assignments s') x" if "x < k" for x
    using sizes [OF that] count [of x] parts(5) that donor wd(2) empty by (auto simp: s_def split: if_splits)
  moreover have "\<forall>a \<in> set (cl_assignments s'). a < k"
    using parts(4) assms(3) set_update_subset_insert [of "cl_assignments s" w c] by (auto simp: s'_def)
  ultimately have "clustering_ok k m s'" using parts(1-3) by (simp add: clustering_ok_def s'_def)
  moreover have "0 < cl_sizes s' ! x" if "x < k" "0 < cl_sizes s ! x" for x
    using sizes [OF that(1)] that(2) wd(2) by (auto split: if_splits)
  ultimately show ?thesis using sizes [OF assms(3)] by (simp add: fill flip: s_def)
qed

lemma repair_clusters_ok:
  assumes "clustering_ok k m (fst sc)" and "k \<le> m"
  shows "clustering_ok k m (fst (repair_clusters sc)) \<and> (\<forall>c < k. 0 < cl_sizes (fst (repair_clusters sc)) ! c)"
proof -
  have "clustering_ok k m (fst (fold fill_cluster [0..<j] sc)) \<and>
      (\<forall>c < j. 0 < cl_sizes (fst (fold fill_cluster [0..<j] sc)) ! c)" if "j \<le> k" for j
    using that
  proof (induction j)
    case (Suc j)
    have "j < k" using Suc.prems by simp
    moreover have ih: "clustering_ok k m (fst (fold fill_cluster [0..<j] sc))"
      "\<forall>c < j. 0 < cl_sizes (fst (fold fill_cluster [0..<j] sc)) ! c" using Suc by simp_all
    ultimately show ?case using fill_cluster_ok [OF ih(1) assms(2), of j] by (auto simp: less_Suc_eq)
  qed (use assms in simp)
  moreover have "length (cl_sizes (fst sc)) = k" using assms(1) by (simp add: clustering_ok_def)
  ultimately show ?thesis by (simp add: repair_clusters_def)
qed

section \<open>The iteration\<close>

lemma centroid_update_size:
  "length vectors = length assignments \<Longrightarrow> ce_size (centroid_update vectors assignments c stats) = count_list assignments c"
proof (induction vectors assignments rule: list_induct2)
  case (Cons v vs a as)
  then show ?case by (simp add: centroid_update_def Let_def)
qed (simp add: centroid_update_def Let_def)

text \<open>What a round leaves: every vector in a cluster, no cluster empty, and the sizes on the centroids.\<close>

definition clusters_ok :: "nat \<Rightarrow> nat \<Rightarrow> clustering \<times> centroid list \<Rightarrow> bool" where
  "clusters_ok k m r \<longleftrightarrow>
     clustering_ok k m (fst r) \<and> length (snd r) = k \<and>
     (\<forall>c < k. ce_size (snd r ! c) = count_list (cl_assignments (fst r)) c \<and> 0 < count_list (cl_assignments (fst r)) c)"

lemma lloyd_step_ok:
  assumes "length centroids = k" and "0 < k" and "k \<le> length vectors"
    and "lloyd_step vectors stats centroids prev = (s, cs, changed)"
  shows "clusters_ok k (length vectors) (s, cs)"
proof -
  define s0 where "s0 = assign_all vectors centroids stats"
  have "clustering_ok k (length vectors) s0" unfolding s0_def by (rule assign_all_ok [OF assms(1,2)])
  then have r: "clustering_ok k (length vectors) (fst (repair_clusters (s0, prev \<noteq> Some (cl_assignments s0)))) \<and>
      (\<forall>c < k. 0 < cl_sizes (fst (repair_clusters (s0, prev \<noteq> Some (cl_assignments s0)))) ! c)"
    using assms(3) by (intro repair_clusters_ok) simp_all
  have "s = fst (repair_clusters (s0, prev \<noteq> Some (cl_assignments s0)))"
    "cs = map (\<lambda>c. centroid_update vectors (cl_assignments s) c stats) [0..<length centroids]"
    using assms(4) by (auto simp: lloyd_step_def Let_def s0_def split: prod.splits)
  with r have s: "clustering_ok k (length vectors) s" "\<forall>c < k. 0 < cl_sizes s ! c" and cs:
    "cs = map (\<lambda>c. centroid_update vectors (cl_assignments s) c stats) [0..<k]" using assms(1) by simp_all
  from s(1) have "length (cl_assignments s) = length vectors" "\<forall>c < k. cl_sizes s ! c = count_list (cl_assignments s) c"
    by (simp_all add: clustering_ok_def)
  then show ?thesis using s cs by (simp add: clusters_ok_def centroid_update_size)
qed

lemma lloyd_ok:
  assumes "length centroids = k" and "0 < k" and "k \<le> length vectors"
  shows "clusters_ok k (length vectors) (lloyd vectors stats n centroids prev)"
  using assms(1)
proof (induction n arbitrary: centroids prev)
  case 0
  obtain s cs changed where "lloyd_step vectors stats centroids prev = (s, cs, changed)" by (rule prod_cases3)
  with lloyd_step_ok [OF 0 assms(2,3) this] show ?case by simp
next
  case (Suc n)
  obtain s cs changed where step: "lloyd_step vectors stats centroids prev = (s, cs, changed)" by (rule prod_cases3)
  note ok = lloyd_step_ok [OF Suc.prems assms(2,3) step]
  then have "length cs = k" by (simp add: clusters_ok_def)
  from Suc.IH [OF this] ok step show ?case by simp
qed

section \<open>Seeding\<close>

lemma weighted_pick_bound: "weighted_pick r running i ds = Some j \<Longrightarrow> j < i + length ds"
  by (induction r running i ds rule: weighted_pick.induct) (fastforce simp: Let_def split: if_splits)+

definition seeding_ok :: "nat \<Rightarrow> nat \<Rightarrow> nat list \<times> double list \<times> u32 \<Rightarrow> bool" where
  "seeding_ok n j s \<longleftrightarrow> length (fst s) = j \<and> (\<forall>i \<in> set (fst s). i < n) \<and> length (fst (snd s)) = n"

lemma choose_next_ok:
  assumes "seeding_ok (length vectors) (Suc j) s"
  shows "seeding_ok (length vectors) (Suc (Suc j)) (choose_next rand_r vectors stats s)"
proof -
  obtain chosen dist2 state where s: "s = (chosen, dist2, state)" by (rule prod_cases3)
  have c: "length chosen = Suc j" "\<forall>i \<in> set chosen. i < length vectors" "length dist2 = length vectors"
    using assms by (simp_all add: seeding_ok_def s)
  then have "chosen \<noteq> []" by auto
  then have last: "last chosen < length vectors" using c(2) last_in_set by blast
  have len: "length (update_dist2 vectors stats (last chosen) dist2) = length vectors"
    using c(3) by (simp add: update_dist2_def Let_def)
  have found: "i < length vectors" if "find (\<lambda>i. i \<notin> set chosen) [0..<length vectors] = Some i" for i
    using that by (auto simp: find_Some_iff)
  note pick = weighted_pick_bound [where ds = "update_dist2 vectors stats (last chosen) dist2", unfolded len]
  show ?thesis using c last len found pick
    by (auto simp: seeding_ok_def choose_next_def s Let_def split: prod.split option.split) fastforce+
qed

lemma kmeans_plusplus_init_ok:
  assumes "vectors \<noteq> []" and "0 < k"
  shows "length (kmeans_plusplus_init rand_r vectors k stats seed) = k \<and>
    (\<forall>i \<in> set (kmeans_plusplus_init rand_r vectors k stats seed). i < length vectors)"
proof -
  obtain x state where xs: "rand_r seed = (x, state)" by (cases "rand_r seed")
  define s where "s = ([x mod length vectors],
    (replicate (length vectors) DBL_MAX)[x mod length vectors := Fin 0], state)"
  have "seeding_ok (length vectors) (Suc j) ((choose_next rand_r vectors stats ^^ j) s)" for j
  proof (induction j)
    case 0
    then show ?case using assms(1) by (simp add: seeding_ok_def s_def)
  next
    case (Suc j)
    from choose_next_ok [OF this] show ?case by simp
  qed
  from this [of "k - 1"] show ?thesis using assms(2)
    by (simp add: seeding_ok_def kmeans_plusplus_init_def xs Let_def flip: s_def)
qed

section \<open>The clusters\<close>

lemma kmeans_cluster_parts:
  assumes "1 \<le> k" and "k \<le> length vectors" and "kmeans_cluster rand_r vectors k stats seed n = (as, cs, ds)"
  obtains s where "clusters_ok k (length vectors) (s, cs)" "as = cl_assignments s" "length ds = length vectors"
proof -
  define chosen where "chosen = kmeans_plusplus_init rand_r vectors k stats seed"
  define r where "r = lloyd vectors stats (n - 1) (map (\<lambda>i. seed_centroid stats (vectors ! i)) chosen) None"
  have "length (map (\<lambda>i. seed_centroid stats (vectors ! i)) chosen) = k"
    using kmeans_plusplus_init_ok [of vectors k] assms(1,2) by (cases "vectors = []") (simp_all add: chosen_def)
  then have ok: "clusters_ok k (length vectors) r" unfolding r_def by (rule lloyd_ok) (use assms in simp_all)
  have parts: "as = cl_assignments (fst r)" "cs = snd r"
    "ds = map (final_distance (snd r) stats) (zip vectors (zip (cl_assignments (fst r)) (cl_distances (fst r))))"
    using assms(3) by (auto simp: kmeans_cluster_def Let_def split_beta chosen_def r_def)
  have "length ds = length vectors" using ok parts(3) by (simp add: clusters_ok_def clustering_ok_def)
  with ok parts show thesis by (intro that [of "fst r"]) simp_all
qed

text \<open>C40: with at least as many runs as clusters, whatever the random numbers and however few iterations, every run
  is in one of the k clusters, no cluster is empty, and each centroid knows how many runs it stands for.\<close>

theorem kmeans_clusters_nonempty:
  assumes "1 \<le> k" and "k \<le> length vectors" and "kmeans_cluster rand_r vectors k stats seed n = (as, cs, ds)"
  shows "length as = length vectors \<and> length ds = length vectors \<and> length cs = k \<and> (\<forall>a \<in> set as. a < k) \<and>
    (\<forall>c < k. ce_size (cs ! c) = count_list as c \<and> 0 < count_list as c)"
  by (rule kmeans_cluster_parts [OF assms]) (simp add: clusters_ok_def clustering_ok_def)

definition example_vectors :: "feature_vector list" where
  "example_vectors =
     map (\<lambda>(i, x). \<lparr>fv_run_id = i, fv_hostname = ''host'', fv_run_id_text = ''run'', fv_features = [(''ipc_mean'', Fin x)]\<rparr>)
       [(1, 1), (2, 2), (3, 5)]"

lemma kmeans_clusters_nonempty_witness:
  "\<exists>as cs ds. kmeans_cluster (\<lambda>s. (7, s + 1)) example_vectors 2 (compute_feature_stats example_vectors) 1 50 = (as, cs, ds) \<and>
     length as = 3 \<and> 0 < count_list as 1"
proof -
  obtain as cs ds where r: "kmeans_cluster (\<lambda>s. (7, s + 1)) example_vectors 2 (compute_feature_stats example_vectors) 1 50 = (as, cs, ds)"
    by (rule prod_cases3)
  from kmeans_clusters_nonempty [OF _ _ r] have "length as = 3 \<and> 0 < count_list as 1" by (simp add: example_vectors_def)
  with r show ?thesis by blast
qed

section \<open>The rows\<close>

lemma filters_partition:
  assumes "\<forall>x \<in> set xs. f x < (k :: nat)"
  shows "mset (concat (map (\<lambda>c. filter (\<lambda>x. f x = c) xs) [0..<k])) = mset xs"
proof (rule multiset_eqI)
  fix x
  have "count (mset (concat (map (\<lambda>c. filter (\<lambda>x. f x = c) xs) [0..<k]))) x =
      (\<Sum>c < k. if f x = c then count (mset xs) x else 0)"
    by (induction k) (simp_all add: mset_filter)
  also have "\<dots> = (if f x < k then count (mset xs) x else 0)" by simp
  also have "\<dots> = count (mset xs) x" using assms by (auto simp: count_eq_zero_iff)
  finally show "count (mset (concat (map (\<lambda>c. filter (\<lambda>x. f x = c) xs) [0..<k]))) x = count (mset xs) x" .
qed

text \<open>C40: the report of clusters has every run in exactly one row, under its cluster, and each cluster as many rows as
  its size says.\<close>

theorem kmeans_rows_complete:
  assumes "1 \<le> k" and "k \<le> length vectors" and "kmeans_cluster rand_r vectors k stats seed n = (as, cs, ds)"
  shows "mset (concat (map (\<lambda>c. map fst (cluster_members vectors (as, cs, ds) c)) [0..<k])) = mset vectors \<and>
    (\<forall>c < k. length (cluster_members vectors (as, cs, ds) c) = ce_size (cs ! c))"
proof -
  obtain s where s: "clusters_ok k (length vectors) (s, cs)" "as = cl_assignments s" "length ds = length vectors"
    using kmeans_cluster_parts [OF assms] .
  then have as: "length as = length vectors" "\<forall>a \<in> set as. a < k"
    "\<forall>c < k. ce_size (cs ! c) = count_list as c" by (simp_all add: clusters_ok_def clustering_ok_def)
  define vads where "vads = zip vectors (zip as ds)"
  have fst_vads: "map fst vads = vectors" and as_vads: "map (fst \<circ> snd) vads = as"
    using as(1) s(3) by (simp_all add: vads_def flip: map_map)
  have members: "mset (cluster_members vectors (as, cs, ds) c) =
      mset (map (\<lambda>x. (fst x, snd (snd x))) (filter (\<lambda>x. fst (snd x) = c) vads))" for c
    by (simp add: cluster_members_def case_prod_unfold flip: vads_def)
  have "mset (map fst (cluster_members vectors (as, cs, ds) c)) = mset (map fst (filter (\<lambda>x. fst (snd x) = c) vads))" for c
    unfolding mset_map members by (simp add: image_mset.compositionality comp_def)
  then have "mset (concat (map (\<lambda>c. map fst (cluster_members vectors (as, cs, ds) c)) cl)) =
      mset (map fst (concat (map (\<lambda>c. filter (\<lambda>x. fst (snd x) = c) vads) cl)))" for cl
    by (induction cl) simp_all
  also have "mset (map fst (concat (map (\<lambda>c. filter (\<lambda>x. fst (snd x) = c) vads) [0..<k]))) = image_mset fst (mset vads)"
    using filters_partition [of vads "\<lambda>x. fst (snd x)" k] as(2) by (force simp: vads_def dest: set_zip_leftD set_zip_rightD)
  also have "\<dots> = mset vectors" using fst_vads by (metis mset_map)
  finally have rows: "mset (concat (map (\<lambda>c. map fst (cluster_members vectors (as, cs, ds) c)) [0..<k])) = mset vectors" .
  have "length (cluster_members vectors (as, cs, ds) c) = count_list as c" for c
  proof -
    have "length (cluster_members vectors (as, cs, ds) c) = size (mset (cluster_members vectors (as, cs, ds) c))" by simp
    also have "\<dots> = length (filter (\<lambda>x. fst (snd x) = c) vads)" unfolding members by (simp only: size_mset length_map)
    also have "\<dots> = count_list (map (fst \<circ> snd) vads) c" by (induction vads) auto
    finally show ?thesis by (simp add: as_vads)
  qed
  with rows as(3) show ?thesis by simp
qed

lemma kmeans_rows_complete_witness:
  "\<exists>as cs ds. kmeans_cluster (\<lambda>s. (7, s + 1)) example_vectors 2 (compute_feature_stats example_vectors) 1 50 = (as, cs, ds) \<and>
     length (cluster_members example_vectors (as, cs, ds) 1) = ce_size (cs ! 1)"
proof -
  obtain as cs ds where r: "kmeans_cluster (\<lambda>s. (7, s + 1)) example_vectors 2 (compute_feature_stats example_vectors) 1 50 = (as, cs, ds)"
    by (rule prod_cases3)
  from kmeans_rows_complete [OF _ _ r] have "length (cluster_members example_vectors (as, cs, ds) 1) = ce_size (cs ! 1)"
    by (simp add: example_vectors_def)
  with r show ?thesis by blast
qed

section \<open>The nearest runs\<close>

text \<open>The comparison of distances with a NaN after every number, which agrees with the code's where there is none.\<close>

definition cmp_total :: "double \<Rightarrow> double \<Rightarrow> int" where
  "cmp_total a b = (if is_nan a then (if is_nan b then 0 else 1) else if is_nan b then -1 else cmp_distance a b)"

lemma cmp_distance_le: "\<not> is_nan a \<Longrightarrow> \<not> is_nan b \<Longrightarrow> cmp_distance a b \<le> 0 \<longleftrightarrow> dle a b"
  by (cases a; cases b) (auto simp: cmp_distance_def)

lemma cmp_total_le: "cmp_total a b \<le> 0 \<longleftrightarrow> is_nan b \<or> dle a b"
  using cmp_distance_le [of a b] by (cases a; cases b) (auto simp: cmp_total_def)

lemma dle_total: "is_nan a \<or> is_nan b \<or> dle a b \<or> dle b a"
  by (cases a; cases b) auto

lemma dle_not_nan: "dle a b \<Longrightarrow> \<not> is_nan a"
  by (cases a; cases b) auto

interpretation neighbors: sort_order "\<lambda>a b. cmp_total (nr_distance a) (nr_distance b)"
proof
  show "cmp_total (nr_distance x) (nr_distance y) \<le> 0 \<or> cmp_total (nr_distance y) (nr_distance x) \<le> 0" for x y
    using dle_total by (auto simp: cmp_total_le)
  show "cmp_total (nr_distance x) (nr_distance y) \<le> 0 \<Longrightarrow> cmp_total (nr_distance y) (nr_distance z) \<le> 0 \<Longrightarrow>
      cmp_total (nr_distance x) (nr_distance z) \<le> 0" for x y z
    unfolding cmp_total_le using dle_trans dle_not_nan by blast
qed

lemma insert_by_cong:
  "(\<And>y. y \<in> set ys \<Longrightarrow> cmp x y \<le> 0 \<longleftrightarrow> cmp' x y \<le> 0) \<Longrightarrow> insert_by cmp x ys = insert_by cmp' x ys"
  by (induction ys) auto

lemma qsort_cong:
  "(\<And>x y. x \<in> set xs \<Longrightarrow> y \<in> set xs \<Longrightarrow> cmp x y \<le> 0 \<longleftrightarrow> cmp' x y \<le> 0) \<Longrightarrow> qsort cmp xs = qsort cmp' xs"
proof (induction xs)
  case (Cons x xs)
  then have "qsort cmp xs = qsort cmp' xs" by simp
  moreover have "insert_by cmp x (qsort cmp' xs) = insert_by cmp' x (qsort cmp' xs)"
    using Cons.prems by (intro insert_by_cong) simp
  ultimately show ?case by (simp add: qsort_def)
qed (simp add: qsort_def)

lemma ranked_neighbors_sorted:
  assumes "ranked_neighbors host name vectors = Some ns" and "\<forall>n \<in> set ns. \<not> is_nan (nr_distance n)"
  shows "sorted_wrt (\<lambda>a b. dle (nr_distance a) (nr_distance b)) ns"
proof -
  obtain xs where ns: "ns = qsort cmp_neighbor_result xs"
    using assms(1) by (auto simp: ranked_neighbors_def)
  then have nan: "\<not> is_nan (nr_distance n)" if "n \<in> set xs" for n using assms(2) that by simp
  then have "ns = qsort (\<lambda>a b. cmp_total (nr_distance a) (nr_distance b)) xs"
    unfolding ns by (intro qsort_cong) (simp add: cmp_neighbor_result_def cmp_total_def)
  then have "sorted_wrt (\<lambda>a b. cmp_total (nr_distance a) (nr_distance b) \<le> 0) ns"
    using neighbors.qsort_sorted by simp
  then show ?thesis by (rule sorted_wrt_mono_rel [rotated]) (use assms(2) in \<open>auto simp: cmp_total_le\<close>)
qed

text \<open>The report of the nearest runs lists the k others closest to the run, the closest first: none that is left out
  is closer than one that is listed.\<close>

lemma nearest_lists_closest:
  assumes "ranked_neighbors host name (load_feature_vectors None rows) = Some ns"
    and "\<forall>n \<in> set ns. \<not> is_nan (nr_distance n)"
  shows "nearest_neighbors (Some rows) found host name k csvflag =
      (0, nearest_header csvflag @ concat (map (print_neighbor_row csvflag) (take k ns))) \<and>
    sorted_wrt (\<lambda>a b. dle (nr_distance a) (nr_distance b)) (take k ns) \<and>
    (\<forall>a \<in> set (take k ns). \<forall>b \<in> set (drop k ns). dle (nr_distance a) (nr_distance b))"
proof -
  have "sorted_wrt (\<lambda>a b. dle (nr_distance a) (nr_distance b)) (take k ns @ drop k ns)"
    using ranked_neighbors_sorted [OF assms] by simp
  then show ?thesis using assms(1) unfolding sorted_wrt_append by (simp add: nearest_neighbors_def Let_def)
qed

section \<open>Two flaws of the seeding\<close>

text \<open>A drawn zero picks the first run, even if it is a chosen one, whose weight is zero.\<close>

lemma zero_draw_picks_first: "weighted_pick (Fin 0) (Fin 0) 0 (Fin 0 # ds) = Some 0"
  by (simp add: Let_def double_round_def)

text \<open>If the first run chosen shares no feature with any run, the distances of all others, which are unknown, become
  zero, and no later choice makes a zero larger: the next centroids are taken in the order of the runs.\<close>

lemma max_finite_unknown: "\<forall>d \<in> set ds. d = DBL_MAX \<or> d = Fin 0 \<Longrightarrow> max_finite ds = Fin 0"
  unfolding max_finite_def
  by (rule fold_invariant [where Q = "\<lambda>d. d = DBL_MAX \<or> d = Fin 0"]) (auto simp: DBL_MAX_def)

lemma isolated_choice_forgets_distances:
  assumes "\<forall>v \<in> set vectors. nearest_neighbor_distance v (vectors ! i) stats = None"
    and "length dist2 = length vectors" and "\<forall>d \<in> set dist2. d = DBL_MAX \<or> d = Fin 0"
  shows "\<forall>d \<in> set (update_dist2 vectors stats i dist2). d = Fin 0"
proof -
  have "map (nearer (vectors ! i) stats) (zip vectors dist2) = map snd (zip vectors dist2)"
    using assms(1) by (intro map_cong) (auto simp: nearer_def dest: set_zip_leftD)
  also have "\<dots> = dist2" using assms(2) by simp
  finally have "update_dist2 vectors stats i dist2 = (map (\<lambda>d. if dle DBL_MAX d then Fin 0 else d) dist2)[i := Fin 0]"
    using max_finite_unknown [OF assms(3)] by (simp add: update_dist2_def Let_def cong: if_cong)
  moreover have "\<forall>d \<in> set (map (\<lambda>d. if dle DBL_MAX d then Fin 0 else d) dist2). d = Fin 0"
    using assms(3) by (auto simp: DBL_MAX_def)
  ultimately show ?thesis using set_update_subset_insert by fastforce
qed


end
