(* ===== verification/Summary_Stats.thy ===== *)
theory Summary_Stats
  imports Archetype_Nearest
begin

text \<open>
  The statistics of src/summary.c: minimum, maximum, mean, median and deviation of the runs of a group, outliers, the
  confidence interval of the mean, how alike the environments of the runs are, and the verdict on the group.
\<close>

section \<open>Options\<close>

datatype group_by =
    GROUP_COMMAND | GROUP_HOSTNAME | GROUP_CPU_VENDOR | GROUP_AFFINITY_MODE | GROUP_PRESET_NAME | GROUP_CONFIG_NAME
  | GROUP_CPU_GOVERNOR | GROUP_VIRT_ROLE

definition group_by_column :: "group_by \<Rightarrow> string" where
  "group_by_column g =
     (case g of
        GROUP_HOSTNAME \<Rightarrow> ''r.hostname''
      | GROUP_CPU_VENDOR \<Rightarrow> ''r.cpu_vendor''
      | GROUP_AFFINITY_MODE \<Rightarrow> ''r.affinity_mode''
      | GROUP_PRESET_NAME \<Rightarrow> ''r.preset_name''
      | GROUP_CONFIG_NAME \<Rightarrow> ''r.config_name''
      | GROUP_CPU_GOVERNOR \<Rightarrow> ''e.cpu_governor''
      | GROUP_VIRT_ROLE \<Rightarrow> ''e.virt_role''
      | GROUP_COMMAND \<Rightarrow> ''r.command'')"

definition parse_group_by :: "string \<Rightarrow> group_by option" where
  "parse_group_by s =
     map_of
       [(''command'', GROUP_COMMAND), (''hostname'', GROUP_HOSTNAME), (''cpu_vendor'', GROUP_CPU_VENDOR),
        (''affinity_mode'', GROUP_AFFINITY_MODE), (''preset_name'', GROUP_PRESET_NAME),
        (''config_name'', GROUP_CONFIG_NAME), (''cpu_governor'', GROUP_CPU_GOVERNOR), (''virt_role'', GROUP_VIRT_ROLE)] s"

record summary_opts =
  so_db_path :: "string option"
  so_command_filter :: string
  so_hostname_filter :: string
  so_metrics :: "string list"
  so_run_ids :: "string list"
  so_group_by :: string
  so_group_by_option :: "string option"
  so_outlier_z :: double
  so_max_cv :: double
  so_min_env_score :: double
  so_min_runs :: int
  so_csvflag :: bool
  so_quiet :: bool
  so_strict :: bool
  so_show_runs :: bool
  so_trace_key :: "string option"
  so_check_regression_key :: "string option"
  so_phase_topdown_key :: "string option"

definition metric_wanted :: "summary_opts \<Rightarrow> string \<Rightarrow> bool" where
  "metric_wanted opts name \<longleftrightarrow> so_metrics opts = [] \<or> name \<in> set (so_metrics opts)"

section \<open>Statistics\<close>

record run_stats =
  rs_min :: double
  rs_max :: double
  rs_mean :: double
  rs_median :: double
  rs_stddev :: double
  rs_outliers :: "bool list"

definition dsum :: "double list \<Rightarrow> double" where
  "dsum = (\<lambda>ds. fold (\<lambda>d t. dadd t d) ds (Fin 0))"

definition sorted_values :: "double list \<Rightarrow> double list" where
  "sorted_values = qsort cmp_distance"

text \<open>For at least one value. \<open>n / 2\<close> is the division of integers.\<close>

definition compute_stats :: "double list \<Rightarrow> double \<Rightarrow> run_stats" where
  "compute_stats values outlier_z =
     (let sv = sorted_values values; n = length values;
          mean = ddiv (dsum values) (double_of_int (int n));
          sumsq = dsum (map (\<lambda>v. dmul (dsub v mean) (dsub v mean)) values);
          stddev = (if n \<ge> 2 then dsqrt (ddiv sumsq (double_of_int (int n - 1))) else Fin 0)
      in \<lparr>rs_min = hd sv, rs_max = last sv, rs_mean = mean,
          rs_median = (if n mod 2 = 1 then sv ! (n div 2)
                       else ddiv (dadd (sv ! (n div 2 - 1)) (sv ! (n div 2))) (Fin 2)),
          rs_stddev = stddev,
          rs_outliers = map (\<lambda>v. n \<ge> 3 \<and> dlt (Fin 0) stddev \<and> dlt outlier_z (ddiv (dabs (dsub v mean)) stddev)) values\<rparr>)"

definition outlier_count :: "run_stats \<Rightarrow> nat" where
  "outlier_count s = length (filter (\<lambda>b. b) (rs_outliers s))"

definition t95_table :: "double list" where
  "t95_table =
     map (\<lambda>m. dlit (m / 1000))
       [12706, 4303, 3182, 2776, 2571, 2447, 2365, 2306, 2262, 2228,
        2201, 2179, 2160, 2145, 2131, 2120, 2110, 2101, 2093, 2086,
        2080, 2074, 2069, 2064, 2060, 2056, 2052, 2048, 2045, 2042]"

definition T95_TABLE_MAX_DF :: int where
  "T95_TABLE_MAX_DF = 30"

definition t_critical_95 :: "int \<Rightarrow> double" where
  "t_critical_95 df =
     (if df < 1 then Fin 0 else if df \<le> T95_TABLE_MAX_DF then t95_table ! nat (df - 1) else dlit (196 / 100))"

definition compute_ci95 :: "double \<Rightarrow> double \<Rightarrow> nat \<Rightarrow> double \<times> double" where
  "compute_ci95 mean stddev n =
     (if n < 2 then (mean, mean)
      else
        (let margin = ddiv (dmul (t_critical_95 (int n - 1)) stddev) (dsqrt (double_of_int (int n)))
         in (dsub mean margin, dadd mean margin)))"

section \<open>Groups of runs\<close>

datatype env_field =
    ENV_VIRT_ROLE | ENV_HYPERVISOR_VENDOR | ENV_MICROCODE_VERSION | ENV_BIOS_VENDOR | ENV_BIOS_VERSION | ENV_BIOS_DATE
  | ENV_CPU_GOVERNOR | ENV_MEMORY_TOTAL_KB

definition env_fields :: "env_field list" where
  "env_fields =
     [ENV_VIRT_ROLE, ENV_HYPERVISOR_VENDOR, ENV_MICROCODE_VERSION, ENV_BIOS_VENDOR, ENV_BIOS_VERSION, ENV_BIOS_DATE,
      ENV_CPU_GOVERNOR, ENV_MEMORY_TOTAL_KB]"

definition ENV_FIELD_COLUMN :: "env_field \<Rightarrow> string" where
  "ENV_FIELD_COLUMN f =
     (case f of
        ENV_VIRT_ROLE \<Rightarrow> ''virt_role'' | ENV_HYPERVISOR_VENDOR \<Rightarrow> ''hypervisor_vendor''
      | ENV_MICROCODE_VERSION \<Rightarrow> ''microcode_version'' | ENV_BIOS_VENDOR \<Rightarrow> ''bios_vendor''
      | ENV_BIOS_VERSION \<Rightarrow> ''bios_version'' | ENV_BIOS_DATE \<Rightarrow> ''bios_date'' | ENV_CPU_GOVERNOR \<Rightarrow> ''cpu_governor''
      | ENV_MEMORY_TOTAL_KB \<Rightarrow> ''memory_total_kb'')"

definition ENV_MEMORY_TOLERANCE_FRACTION :: double where
  "ENV_MEMORY_TOLERANCE_FRACTION = dlit (5 / 100)"

text \<open>The four arrays over the fields, one entry of each; the signature is set if there is one.\<close>

record env_track =
  et_sig :: "string option"
  et_compared :: nat
  et_mismatched :: bool

record bucket =
  bk_group_val :: string
  bk_secondary_val :: string
  bk_metric_name :: string
  bk_values :: "double list"
  bk_run_ids :: "string list"
  bk_hostnames :: "string list"
  bk_pmu :: "(string \<times> int \<times> int) option"
  bk_pmu_mixed :: bool
  bk_env :: "env_field \<Rightarrow> env_track"

definition bucket_reset :: "string \<Rightarrow> string \<Rightarrow> string \<Rightarrow> bucket" where
  "bucket_reset group_val secondary_val metric_name =
     \<lparr>bk_group_val = take 159 group_val, bk_secondary_val = take 159 secondary_val, bk_metric_name = take 191 metric_name,
      bk_values = [], bk_run_ids = [], bk_hostnames = [], bk_pmu = None, bk_pmu_mixed = False,
      bk_env = (\<lambda>_. \<lparr>et_sig = None, et_compared = 0, et_mismatched = False\<rparr>)\<rparr>"

definition compute_env_score :: "bucket \<Rightarrow> double" where
  "compute_env_score b =
     (let compared = filter (\<lambda>f. et_compared (bk_env b f) \<noteq> 0) env_fields;
          agree = filter (\<lambda>f. \<not> et_mismatched (bk_env b f)) compared
      in if compared = [] then Fin (-1)
         else ddiv (double_of_int (int (length agree))) (double_of_int (int (length compared))))"

definition atof :: "string \<Rightarrow> double" where
  "atof s = (case strtod s of None \<Rightarrow> Fin 0 | Some (d, _) \<Rightarrow> d)"

definition env_disagrees :: "env_field \<Rightarrow> string \<Rightarrow> string \<Rightarrow> bool" where
  "env_disagrees f sig v =
     (if f = ENV_MEMORY_TOTAL_KB then
        dlt (dmul (atof sig) ENV_MEMORY_TOLERANCE_FRACTION) (dabs (dsub (atof v) (atof sig)))
      else sig \<noteq> v)"

definition env_add :: "env_field \<Rightarrow> string option \<Rightarrow> env_track \<Rightarrow> env_track" where
  "env_add f v t =
     (case v of
        None \<Rightarrow> t
      | Some v \<Rightarrow>
          (case et_sig t of
             None \<Rightarrow> t\<lparr>et_sig := Some (take 79 v)\<rparr>
           | Some sig \<Rightarrow> t\<lparr>et_compared := et_compared t + 1, et_mismatched := et_mismatched t \<or> env_disagrees f sig v\<rparr>))"

text \<open>One run's share of a group: its value, its names, its counters and its environment.\<close>

record bucket_run =
  br_value :: double
  br_run_id :: string
  br_hostname :: string
  br_cpu_vendor :: string
  br_requested :: int
  br_measured :: int
  br_env :: "env_field \<Rightarrow> string option"

definition bucket_add :: "bucket_run \<Rightarrow> bucket \<Rightarrow> bucket" where
  "bucket_add r b =
     (let pmu = (br_cpu_vendor r, br_requested r, br_measured r) in
      b\<lparr>bk_values := bk_values b @ [br_value r], bk_run_ids := bk_run_ids b @ [br_run_id r],
        bk_hostnames := bk_hostnames b @ [br_hostname r],
        bk_pmu := (case bk_pmu b of None \<Rightarrow> Some (take 63 (br_cpu_vendor r), br_requested r, br_measured r) | Some p \<Rightarrow> Some p),
        bk_pmu_mixed := (case bk_pmu b of None \<Rightarrow> bk_pmu_mixed b | Some p \<Rightarrow> bk_pmu_mixed b \<or> p \<noteq> pmu),
        bk_env := (\<lambda>f. env_add f (br_env r f) (bk_env b f))\<rparr>)"

section \<open>The verdict\<close>

definition VERDICT_MIN_RUNS_FOR_CONFIDENCE :: nat where
  "VERDICT_MIN_RUNS_FOR_CONFIDENCE = 3"

text \<open>The text in the buffer, written at a growing offset; \<open>None\<close> if it were exceeded.\<close>

definition verdict_append :: "nat \<Rightarrow> string \<Rightarrow> (string \<times> nat) option \<Rightarrow> (string \<times> nat) option" where
  "verdict_append cap t b =
     reason_append cap ((case b of Some (_, used) \<Rightarrow> if used > 5 then '','' else [] | None \<Rightarrow> []) @ t) b"

definition compute_verdict :: "nat \<Rightarrow> double \<Rightarrow> double \<Rightarrow> bool \<Rightarrow> double \<Rightarrow> double \<Rightarrow> nat \<Rightarrow> string option" where
  "compute_verdict n cv_percent max_cv mixed_pmu env_score min_env_score verdict_size =
     (let thin = n < VERDICT_MIN_RUNS_FOR_CONFIDENCE; noisy = dlt max_cv cv_percent;
          mixed_env = dle (Fin 0) env_score \<and> dlt env_score min_env_score in
      if \<not> thin \<and> \<not> noisy \<and> \<not> mixed_pmu \<and> \<not> mixed_env then Some (take (verdict_size - 1) ''PASS'')
      else map_option fst
        (fold (verdict_append verdict_size)
          ((if thin then [''thin''] else []) @ (if noisy then [''noisy''] else []) @
           (if mixed_pmu then [''mixed-pmu''] else []) @ (if mixed_env then [''mixed-env''] else []))
          (Some (take (verdict_size - 1) ''WARN:'', length (take (verdict_size - 1) ''WARN:'')))))"

end
