(* ===== verification/Summary_Report.thy ===== *)
theory Summary_Report
  imports Summary_Stats System_Stats
begin

text \<open>
  The reports of src/summary.c: the table of groups, the comparison of a run with its predecessors, and the artifacts of
  a run. What the store's queries give, in their order, is a parameter.
\<close>

section \<open>A row of the table\<close>

record summary_totals =
  tt_reported :: nat
  tt_skipped :: nat
  tt_warned :: nat
  tt_rows :: nat

text \<open>The buffer, and whether the entry was taken; the number of bytes used is the length of the text.\<close>

definition append_list_entry :: "nat \<Rightarrow> string \<Rightarrow> string \<Rightarrow> string \<times> bool" where
  "append_list_entry bufsize entry buf =
     (let sep = (if buf = [] then [] else '';'') in
      if length buf + length sep + length entry + 1 > bufsize then (buf, False) else (buf @ sep @ entry, True))"

definition append_entry :: "nat \<Rightarrow> string \<Rightarrow> string \<times> nat \<Rightarrow> string \<times> nat" where
  "append_entry bufsize entry s =
     (let (buf, taken) = append_list_entry bufsize entry (fst s) in (buf, if taken then snd s else snd s + 1))"

definition format_contributing_runs :: "bucket \<Rightarrow> nat \<Rightarrow> string" where
  "format_contributing_runs b bufsize =
     (let (buf, dropped) = fold (append_entry bufsize)
            (map (\<lambda>(h, r). take 255 (h @ '':'' @ r)) (zip (bk_hostnames b) (bk_run_ids b))) ([], 0)
      in if dropped > 0 then fst (append_list_entry bufsize (take 63 (''(+'' @ dec dropped @ '' more)'')) buf) else buf)"

definition outlier_ids :: "bucket \<Rightarrow> bool list \<Rightarrow> nat \<Rightarrow> string" where
  "outlier_ids b flags bufsize =
     fold (\<lambda>r buf. fst (append_list_entry bufsize r buf)) (map fst (filter snd (zip (bk_run_ids b) flags))) []"

definition cv_percent :: "run_stats \<Rightarrow> double" where
  "cv_percent s =
     (if rs_mean s = Fin 0 then Fin 0 else dmul (ddiv (rs_stddev s) (dabs (rs_mean s))) (Fin 100))"

definition env_score_text :: "double \<Rightarrow> string \<Rightarrow> string" where
  "env_score_text s none = (if dle (Fin 0) s then fmt_g 4 s else none)"

abbreviation column_g :: "nat \<Rightarrow> double \<Rightarrow> string" where
  "column_g w v \<equiv> pad_left (CHR '' '') w (fmt_g 6 v)"

definition bucket_row :: "summary_opts \<Rightarrow> bucket \<Rightarrow> run_stats \<Rightarrow> string \<Rightarrow> string" where
  "bucket_row opts b s verdict =
     (let n = length (bk_values b); cv = cv_percent s; (lo, hi) = compute_ci95 (rs_mean s) (rs_stddev s) n;
          score = compute_env_score b; outs = outlier_ids b (rs_outliers s) 512;
          runs = format_contributing_runs b 4096 in
      if so_csvflag opts then
        print_csv_field (bk_group_val b) @ '','' @
        (if so_group_by_option opts \<noteq> None then print_csv_field (bk_secondary_val b) @ '','' else []) @
        print_csv_field (bk_metric_name b) @ '','' @ dec n @ '','' @
        join_text '','' (map (fmt_g 6) [rs_min s, rs_max s, rs_mean s, rs_median s, rs_stddev s]) @ '','' @
        fmt_g 4 cv @ '','' @ env_score_text score [] @ '','' @ fmt_g 6 lo @ '','' @ fmt_g 6 hi @ '','' @
        print_csv_field verdict @ '','' @ dec (outlier_count s) @ '','' @ print_csv_field outs @
        (if so_show_runs opts then '','' @ print_csv_field runs else []) @ newline
      else
        fixed_width 28 (bk_group_val b) @ '' '' @
        (if so_group_by_option opts \<noteq> None then fixed_width 20 (bk_secondary_val b) @ '' '' else []) @
        fixed_width 24 (bk_metric_name b) @ '' '' @ pad_left (CHR '' '') 4 (dec n) @ '' '' @
        join_text '' '' (map (column_g 10) [rs_min s, rs_max s, rs_mean s, rs_median s, rs_stddev s]) @ '' '' @
        fmt_fixed_w 7 2 cv @ ''% '' @ pad_left (CHR '' '') 9 (take 15 (env_score_text score ''-'')) @ '' '' @
        column_g 10 lo @ '' '' @ column_g 10 hi @ '' '' @ pad_right 16 verdict @ '' '' @
        pad_left (CHR '' '') 3 (dec (outlier_count s)) @ ''  '' @ outs @
        (if so_show_runs opts then ''  '' @ runs else []) @ newline)"

definition bucket_verdict :: "summary_opts \<Rightarrow> bucket \<Rightarrow> run_stats \<Rightarrow> string option" where
  "bucket_verdict opts b s =
     compute_verdict (length (bk_values b)) (cv_percent s) (so_max_cv opts) (bk_pmu_mixed b) (compute_env_score b)
       (so_min_env_score opts) 40"

text \<open>The new totals and the text.\<close>

definition emit_bucket :: "summary_opts \<Rightarrow> bucket \<Rightarrow> summary_totals \<Rightarrow> (summary_totals \<times> string) option" where
  "emit_bucket opts b t =
     (if int (length (bk_values b)) < so_min_runs opts then Some (t\<lparr>tt_skipped := tt_skipped t + 1\<rparr>, [])
      else
        (let s = compute_stats (bk_values b) (so_outlier_z opts) in
         map_option (\<lambda>verdict.
             (t\<lparr>tt_warned := tt_warned t + (if verdict \<noteq> ''PASS'' then 1 else 0), tt_reported := tt_reported t + 1\<rparr>,
              bucket_row opts b s verdict))
           (bucket_verdict opts b s)))"

section \<open>The table\<close>

record summary_row =
  su_group :: "string option"
  su_secondary :: "string option"
  su_run_id :: "string option"
  su_hostname :: "string option"
  su_metric :: "string option"
  su_value :: double
  su_cpu_vendor :: "string option"
  su_requested :: int
  su_measured :: int
  su_env :: "env_field \<Rightarrow> string option"

definition text_or :: "string \<Rightarrow> string option \<Rightarrow> string" where
  "text_or d s = (case s of None \<Rightarrow> d | Some t \<Rightarrow> t)"

definition row_run :: "summary_row \<Rightarrow> bucket_run" where
  "row_run r =
     \<lparr>br_value = su_value r, br_run_id = text_or ''?'' (su_run_id r), br_hostname = text_or ''?'' (su_hostname r),
      br_cpu_vendor = text_or ''(unknown)'' (su_cpu_vendor r), br_requested = su_requested r,
      br_measured = su_measured r, br_env = su_env r\<rparr>"

definition row_key :: "summary_row \<Rightarrow> string \<times> string \<times> string" where
  "row_key r = (text_or ''(unknown)'' (su_group r), text_or ''(unknown)'' (su_secondary r), text_or ''?'' (su_metric r))"

definition bucket_key :: "bucket \<Rightarrow> string \<times> string \<times> string" where
  "bucket_key b = (bk_group_val b, bk_secondary_val b, bk_metric_name b)"

definition start_bucket :: "summary_row \<Rightarrow> bucket" where
  "start_bucket r = (case row_key r of (g, s, m) \<Rightarrow> bucket_reset g s m)"

text \<open>The buckets in the order they are closed.\<close>

fun close_buckets :: "bucket option \<Rightarrow> summary_row list \<Rightarrow> bucket list" where
  "close_buckets cur [] = (case cur of None \<Rightarrow> [] | Some b \<Rightarrow> [b])"
| "close_buckets cur (r # rs) =
     (case cur of
        None \<Rightarrow> close_buckets (Some (bucket_add (row_run r) (start_bucket r))) rs
      | Some b \<Rightarrow>
          if bucket_key b = row_key r then close_buckets (Some (bucket_add (row_run r) b)) rs
          else b # close_buckets (Some (bucket_add (row_run r) (start_bucket r))) rs)"

definition wanted_rows :: "summary_opts \<Rightarrow> summary_row list \<Rightarrow> summary_row list" where
  "wanted_rows opts = filter (\<lambda>r. metric_wanted opts (snd (snd (row_key r))))"

fun emit_buckets :: "summary_opts \<Rightarrow> bucket list \<Rightarrow> summary_totals \<Rightarrow> (summary_totals \<times> string) option" where
  "emit_buckets opts [] t = Some (t, [])"
| "emit_buckets opts (b # bs) t =
     (case emit_bucket opts b t of
        None \<Rightarrow> None
      | Some (t', line) \<Rightarrow> map_option (\<lambda>(t'', rest). (t'', line @ rest)) (emit_buckets opts bs t'))"

text \<open>A \<open>--run-id\<close> that is no \<open><hostname>:<run_id>\<close> is refused.\<close>

definition run_id_ok :: "string \<Rightarrow> bool" where
  "run_id_ok spec \<longleftrightarrow>
     (let host = takeWhile (\<lambda>c. c \<noteq> CHR '':'') spec in host \<noteq> [] \<and> drop (length host + 1) spec \<noteq> [])"

definition summarize :: "summary_opts \<Rightarrow> summary_row list \<Rightarrow> (summary_totals \<times> string) option" where
  "summarize opts rows =
     emit_buckets opts (close_buckets None (wanted_rows opts rows))
       \<lparr>tt_reported = 0, tt_skipped = 0, tt_warned = 0, tt_rows = length (wanted_rows opts rows)\<rparr>"

definition summary_header :: "summary_opts \<Rightarrow> string" where
  "summary_header opts =
     (if so_csvflag opts then
        ''group,'' @ (if so_group_by_option opts \<noteq> None then ''group_by_option,'' else []) @
        ''metric,n,min,max,mean,median,stddev,cv_percent,env_score,ci95_low,ci95_high,verdict,'' @
        ''outlier_count,outlier_run_ids'' @ (if so_show_runs opts then '',contributing_runs'' else []) @ newline
      else
        pad_right 28 ''group'' @ '' '' @
        (if so_group_by_option opts \<noteq> None then pad_right 20 ''group_by_option'' @ '' '' else []) @
        pad_right 24 ''metric'' @ '' '' @ pad_left (CHR '' '') 4 ''n'' @ '' '' @
        join_text '' '' (map (pad_left (CHR '' '') 10) [''min'', ''max'', ''mean'', ''median'', ''stddev'']) @ '' '' @
        pad_left (CHR '' '') 8 ''cv'' @ '' '' @ pad_left (CHR '' '') 9 ''env_score'' @ '' '' @
        pad_left (CHR '' '') 10 ''ci95_low'' @ '' '' @ pad_left (CHR '' '') 10 ''ci95_high'' @ '' '' @
        pad_right 16 ''verdict'' @ '' '' @ pad_left (CHR '' '') 3 ''out'' @ ''  outlier run(s)'' @
        (if so_show_runs opts then ''  contributing runs (host:run_id)'' else []) @ newline)"

text \<open>The exit status and the text, with the rows of the query, \<open>None\<close> if it fails.\<close>

definition summary_table :: "summary_opts \<Rightarrow> summary_row list option \<Rightarrow> (int \<times> string) option" where
  "summary_table opts rows =
     (let min_runs = max 1 (so_min_runs opts); opts = opts\<lparr>so_min_runs := min_runs\<rparr> in
      case rows of
        None \<Rightarrow> Some (2, summary_header opts)
      | Some rs \<Rightarrow>
          if \<not> list_all run_id_ok (so_run_ids opts) then Some (2, summary_header opts)
          else map_option (\<lambda>(t, lines).
              (if so_strict opts \<and> (tt_skipped t > 0 \<or> tt_reported t = 0 \<or> tt_warned t > 0) then 1 else 0,
               summary_header opts @ lines @
               (if so_quiet opts then []
                else ''wspy-summary: '' @ dec (tt_reported t) @ '' group(s) reported ('' @ dec (tt_warned t) @
                     '' with WARN), '' @ dec (tt_skipped t) @ '' skipped (< '' @ dec_int min_runs @ '' run(s)), '' @
                     dec (tt_rows t) @ '' run-metric row(s) scanned'' @ newline)))
            (summarize opts rs))"

end
