(* ===== verification/Summary_Modes.thy ===== *)
theory Summary_Modes
  imports Summary_Report
begin

text \<open>
  The other reports of src/summary.c: the comparison of a run with its predecessors (\<open>--check-regression\<close>), the
  artifacts of a run (\<open>--trace\<close>), its topdown metrics by phase (\<open>--phase-topdown\<close>), and the dispatch of the modes.
\<close>

section \<open>Regressions\<close>

record target_run =
  tg_id :: int
  tg_start_time :: string
  tg_group_val :: "string option"
  tg_secondary_val :: "string option"

definition resolve_target_run :: "int \<times> string \<times> string option \<times> string option \<Rightarrow> target_run" where
  "resolve_target_run row =
     (case row of (i, start, g, s) \<Rightarrow>
        \<lparr>tg_id = i, tg_start_time = take 63 start, tg_group_val = map_option (take 159) g,
         tg_secondary_val = map_option (take 159) s\<rparr>)"

text \<open>The buckets of the runs before the target, by metric only.\<close>

definition load_baseline_buckets :: "summary_opts \<Rightarrow> summary_row list \<Rightarrow> bucket list" where
  "load_baseline_buckets opts rows =
     close_buckets None (wanted_rows opts (map (\<lambda>r. r\<lparr>su_group := Some [], su_secondary := Some []\<rparr>) rows))"

definition find_baseline_bucket :: "bucket list \<Rightarrow> string \<Rightarrow> bucket option" where
  "find_baseline_bucket bs metric_name = find (\<lambda>b. bk_metric_name b = metric_name) bs"

record baseline =
  bl_n :: nat
  bl_mean :: double
  bl_ci :: "double \<times> double"
  bl_env_score :: double
  bl_verdict :: string

definition print_regression_row :: "bool \<Rightarrow> string \<Rightarrow> double \<Rightarrow> string \<Rightarrow> baseline option \<Rightarrow> string" where
  "print_regression_row csvflag metric_name target_value status b =
     (if csvflag then
        print_csv_field metric_name @ '','' @ fmt_g 6 target_value @ '','' @
        (case b of
           None \<Rightarrow> '',,,,,''
         | Some b \<Rightarrow>
             dec (bl_n b) @ '','' @ fmt_g 6 (bl_mean b) @ '','' @ fmt_g 6 (fst (bl_ci b)) @ '','' @
             fmt_g 6 (snd (bl_ci b)) @ '','' @ env_score_text (bl_env_score b) [] @ '','' @ print_csv_field (bl_verdict b)) @
        '','' @ print_csv_field status @ newline
      else
        fixed_width 32 metric_name @ '' '' @ column_g 12 target_value @ '' '' @
        (case b of
           None \<Rightarrow>
             pad_left (CHR '' '') 4 ''-'' @ '' '' @ join_text '' '' (replicate 3 (pad_left (CHR '' '') 12 ''-'')) @ '' '' @
             pad_left (CHR '' '') 8 ''-'' @ '' '' @ pad_right 16 ''-''
         | Some b \<Rightarrow>
             pad_left (CHR '' '') 4 (dec (bl_n b)) @ '' '' @ column_g 12 (bl_mean b) @ '' '' @
             column_g 12 (fst (bl_ci b)) @ '' '' @ column_g 12 (snd (bl_ci b)) @ '' '' @
             pad_left (CHR '' '') 8 (take 15 (env_score_text (bl_env_score b) ''-'')) @ '' '' @
             pad_right 16 (bl_verdict b)) @
        '' '' @ pad_right 12 status @ newline)"

definition regression_header :: "bool \<Rightarrow> string" where
  "regression_header csvflag =
     (if csvflag then
        ''metric,target_value,baseline_n,baseline_mean,ci95_low,ci95_high,baseline_env_score,'' @
        ''baseline_verdict,status'' @ newline
      else
        pad_right 32 ''metric'' @ '' '' @ pad_left (CHR '' '') 12 ''target'' @ '' '' @ pad_left (CHR '' '') 4 ''n'' @ '' '' @
        join_text '' '' (map (pad_left (CHR '' '') 12) [''base_mean'', ''ci95_low'', ''ci95_high'']) @ '' '' @
        pad_left (CHR '' '') 8 ''env_score'' @ '' '' @ pad_right 16 ''base_verdict'' @ '' '' @
        pad_right 12 ''status'' @ newline)"

text \<open>The status of a metric and what it is compared with.\<close>

definition regression_status ::
  "summary_opts \<Rightarrow> bucket list \<Rightarrow> string \<Rightarrow> double \<Rightarrow> (string \<times> baseline option) option"
where
  "regression_status opts baselines metric_name target_value =
     (case find_baseline_bucket baselines metric_name of
        None \<Rightarrow> Some (''no-baseline'', None)
      | Some b \<Rightarrow>
          if int (length (bk_values b)) < so_min_runs opts then Some (''thin'', None)
          else
            (let s = compute_stats (bk_values b) (so_outlier_z opts);
                 ci = compute_ci95 (rs_mean s) (rs_stddev s) (length (bk_values b))
             in map_option (\<lambda>verdict.
                 (if dlt target_value (fst ci) then ''below'' else if dlt (snd ci) target_value then ''above'' else ''within'',
                  Some \<lparr>bl_n = length (bk_values b), bl_mean = rs_mean s, bl_ci = ci,
                        bl_env_score = compute_env_score b, bl_verdict = verdict\<rparr>))
               (bucket_verdict opts b s)))"

text \<open>The line and the status of each metric that is wanted; \<open>None\<close> if a buffer would overflow.\<close>

fun regression_rows ::
  "summary_opts \<Rightarrow> bucket list \<Rightarrow> (string \<times> double) list \<Rightarrow> (string \<times> string) list option"
where
  "regression_rows opts baselines [] = Some []"
| "regression_rows opts baselines ((name, v) # ms) =
     (if \<not> metric_wanted opts name then regression_rows opts baselines ms
      else
        (case regression_status opts baselines name v of
           None \<Rightarrow> None
         | Some (status, b) \<Rightarrow>
             map_option (Cons (print_regression_row (so_csvflag opts) name v status b, status))
               (regression_rows opts baselines ms)))"

definition check_regression ::
  "summary_opts \<Rightarrow> (int \<times> string \<times> string option \<times> string option) option \<Rightarrow>
   (int \<Rightarrow> (string \<times> double) list option) \<Rightarrow> (target_run \<Rightarrow> summary_row list option) \<Rightarrow> (int \<times> string) option"
where
  "check_regression opts found metrics baseline_rows =
     (case found of
        None \<Rightarrow> Some (1, [])
      | Some row \<Rightarrow>
          (let target = resolve_target_run row in
           case metrics (tg_id target) of
             None \<Rightarrow> Some (1, [])
           | Some ms \<Rightarrow>
               (case baseline_rows target of
                  None \<Rightarrow> Some (1, [])
                | Some rs \<Rightarrow>
                    map_option (\<lambda>rows.
                      (let flagged = length (filter (\<lambda>(_, s). s = ''above'' \<or> s = ''below'') rows) in
                       (if so_strict opts \<and> flagged > 0 then 1 else 0,
                        regression_header (so_csvflag opts) @ concat (map fst rows) @
                        (if so_quiet opts then []
                         else ''wspy-summary: '' @ dec (length rows) @ '' metric(s) checked, '' @ dec flagged @
                              '' flagged, '' @ dec (length (filter (\<lambda>(_, s). s = ''no-baseline'') rows)) @
                              '' with no baseline history'' @ newline))))
                    (regression_rows opts (load_baseline_buckets opts rs) ms))))"

section \<open>Artifacts\<close>

text \<open>\<open>exists_at\<close> is \<open>stat\<close>, \<open>list_dir\<close> the names \<open>readdir\<close> gives.\<close>

record trace_row =
  tw_command :: "string option"
  tw_start_time :: "string option"
  tw_cpu_vendor :: "string option"
  tw_manifest_path :: "string option"
  tw_output_path :: "string option"
  tw_tree_output_path :: "string option"

definition artifact_fields :: "(string \<Rightarrow> bool) \<Rightarrow> string \<Rightarrow> string \<Rightarrow> string option \<Rightarrow> string" where
  "artifact_fields exists_at path_key exists_key path =
     print_trace_field path_key (text_or [] path) @
     exists_key @ ''='' @ (case path of Some p \<Rightarrow> if exists_at p then ''1'' else ''0'' | None \<Rightarrow> ''0'') @ newline"

definition plots_dir :: "string \<Rightarrow> string" where
  "plots_dir output_path =
     take 4095 (rev (tl (dropWhile (\<lambda>c. c \<noteq> CHR ''/'') (rev output_path))) @ ''/plots'')"

definition png_name :: "string \<Rightarrow> bool" where
  "png_name s \<longleftrightarrow> length s > 4 \<and> ends_with ''.png'' s"

definition plot_fields :: "(string \<Rightarrow> string list option) \<Rightarrow> string option \<Rightarrow> string" where
  "plot_fields list_dir output_path =
     (case output_path of
        Some p \<Rightarrow>
          if CHR ''/'' \<in> set p then
            print_trace_field ''plots_dir'' (plots_dir p) @
            (case list_dir (plots_dir p) of
               None \<Rightarrow> ''plots_exist=0'' @ newline @ ''plots_count=0'' @ newline
             | Some names \<Rightarrow>
                 ''plots_exist=1'' @ newline @ ''plots_count='' @ dec (length (filter png_name names)) @ newline)
          else ''plots_dir='' @ newline @ ''plots_exist=0'' @ newline @ ''plots_count=0'' @ newline
      | None \<Rightarrow> ''plots_dir='' @ newline @ ''plots_exist=0'' @ newline @ ''plots_count=0'' @ newline)"

definition trace_run ::
  "(string \<Rightarrow> bool) \<Rightarrow> (string \<Rightarrow> string list option) \<Rightarrow> trace_row option \<Rightarrow> string \<Rightarrow> string \<Rightarrow> int \<times> string"
where
  "trace_run exists_at list_dir row hostname run_id =
     (case row of
        None \<Rightarrow> (1, [])
      | Some r \<Rightarrow>
          (0, print_trace_field ''hostname'' hostname @ print_trace_field ''run_id'' run_id @
              print_trace_field ''command'' (text_or [] (tw_command r)) @
              print_trace_field ''start_time'' (text_or [] (tw_start_time r)) @
              print_trace_field ''cpu_vendor'' (text_or [] (tw_cpu_vendor r)) @
              artifact_fields exists_at ''manifest_path'' ''manifest_exists'' (tw_manifest_path r) @
              artifact_fields exists_at ''output_path'' ''output_exists'' (tw_output_path r) @
              artifact_fields exists_at ''tree_output_path'' ''tree_exists'' (tw_tree_output_path r) @
              plot_fields list_dir (tw_output_path r)))"

section \<open>Topdown metrics by phase\<close>

definition PHASE_NAMES :: "string list" where
  "PHASE_NAMES = [''warmup'', ''steady'', ''degraded'']"

definition PHASE_TOPDOWN_METRICS :: "string list" where
  "PHASE_TOPDOWN_METRICS =
     [''retire'', ''frontend'', ''backend'', ''speculate'', ''contention_pct'', ''retire_ucode_pct'',
      ''retire_fastpath_pct'', ''frontend_latency_pct'', ''frontend_bandwidth_pct'', ''backend_cpu_pct'',
      ''backend_memory_pct'', ''spec_branch_pct'', ''spec_pipeline_pct'']"

text \<open>The index of a name, \<open>None\<close> where the code has -1.\<close>

definition name_index :: "string list \<Rightarrow> string \<Rightarrow> nat option" where
  "name_index names s = find (\<lambda>i. names ! i = s) [0..<length names]"

text \<open>The mean and the number of values of a phase, if there are any.\<close>

type_synonym phase_topdown_row = "nat \<Rightarrow> (double \<times> int) option"

type_synonym phase_query_row = "string option \<times> string option \<times> double \<times> int"

definition phase_cell :: "phase_query_row \<Rightarrow> (nat \<times> nat) option" where
  "phase_cell r =
     (case r of
        (Some phase, Some metric, _, _) \<Rightarrow>
          (case (name_index PHASE_TOPDOWN_METRICS metric, name_index PHASE_NAMES phase) of
             (Some mi, Some ph) \<Rightarrow> Some (mi, ph)
           | _ \<Rightarrow> None)
      | _ \<Rightarrow> None)"

definition read_phase_rows :: "phase_query_row list \<Rightarrow> (nat \<Rightarrow> phase_topdown_row) \<times> nat list" where
  "read_phase_rows =
     (\<lambda>rs. fold (\<lambda>r (rows, seen).
        case phase_cell r of
          None \<Rightarrow> (rows, seen)
        | Some (mi, ph) \<Rightarrow>
            (case r of (_, _, mean, n) \<Rightarrow> (rows(mi := (rows mi)(ph := Some (mean, n))), if ph \<in> set seen then seen else seen @ [ph])))
      rs (\<lambda>_ _. None, []))"

text \<open>The phases of the least and the greatest mean, the first of them if several have it.\<close>

definition low_step :: "phase_topdown_row \<Rightarrow> nat \<Rightarrow> (double \<times> nat) option \<Rightarrow> (double \<times> nat) option" where
  "low_step row p lo =
     (case row p of
        None \<Rightarrow> lo
      | Some (mean, _) \<Rightarrow> (case lo of None \<Rightarrow> Some (mean, p) | Some (l, _) \<Rightarrow> if dlt mean l then Some (mean, p) else lo))"

definition high_step :: "phase_topdown_row \<Rightarrow> nat \<Rightarrow> (double \<times> nat) option \<Rightarrow> (double \<times> nat) option" where
  "high_step row p hi =
     (case row p of
        None \<Rightarrow> hi
      | Some (mean, _) \<Rightarrow> (case hi of None \<Rightarrow> Some (mean, p) | Some (h, _) \<Rightarrow> if dlt h mean then Some (mean, p) else hi))"

definition phase_drift :: "phase_topdown_row \<Rightarrow> (double \<times> nat \<times> nat) option" where
  "phase_drift row =
     (case (fold (low_step row) [0..<3] None, fold (high_step row) [0..<3] None) of
        (Some (lo, lo_p), Some (hi, hi_p)) \<Rightarrow> if lo_p \<noteq> hi_p then Some (dsub hi lo, lo_p, hi_p) else None
      | _ \<Rightarrow> None)"

definition print_phase_topdown_row :: "bool \<Rightarrow> string \<Rightarrow> phase_topdown_row \<Rightarrow> double option \<Rightarrow> string" where
  "print_phase_topdown_row csvflag metric_name row drift =
     (if csvflag then
        print_csv_field metric_name @
        concat (map (\<lambda>p. case row p of
            None \<Rightarrow> '',,''
          | Some (mean, n) \<Rightarrow> '','' @ fmt_g 4 mean @ '','' @ dec_int n) [0..<3]) @
        '','' @ (case drift of None \<Rightarrow> [] | Some d \<Rightarrow> fmt_g 4 d) @ newline
      else
        fixed_width 24 metric_name @ '' '' @
        concat (map (\<lambda>p. pad_right 16 (take 23 (case row p of
            None \<Rightarrow> ''-''
          | Some (mean, n) \<Rightarrow> fmt_fixed 2 mean @ ''(n='' @ dec_int n @ '')'')) @ '' '') [0..<3]) @
        pad_left (CHR '' '') 10 (take 15 (case drift of None \<Rightarrow> ''-'' | Some d \<Rightarrow> fmt_fixed 2 d)) @ newline)"

definition phase_header :: "bool \<Rightarrow> string" where
  "phase_header csvflag =
     (if csvflag then ''metric,warmup_mean,warmup_n,steady_mean,steady_n,degraded_mean,degraded_n,drift_pct'' @ newline
      else pad_right 24 ''metric'' @ '' '' @ concat (map (\<lambda>p. pad_right 16 p @ '' '') PHASE_NAMES) @
           pad_left (CHR '' '') 10 ''drift_pct'' @ newline)"

text \<open>The metric of the largest drift, the first one if several have it.\<close>

definition largest_drift :: "(nat \<Rightarrow> phase_topdown_row) \<Rightarrow> (double \<times> nat \<times> nat \<times> nat) option" where
  "largest_drift rows =
     fold (\<lambda>i best.
        case phase_drift (rows i) of
          None \<Rightarrow> best
        | Some (d, lo, hi) \<Rightarrow>
            if dlt (case best of None \<Rightarrow> Fin (-1) | Some (b, _) \<Rightarrow> b) d then Some (d, i, lo, hi) else best)
       [0..<length PHASE_TOPDOWN_METRICS] None"

definition phase_notice :: "(nat \<Rightarrow> phase_topdown_row) \<Rightarrow> nat list \<Rightarrow> string" where
  "phase_notice rows seen =
     (case largest_drift rows of
        Some (d, i, lo, hi) \<Rightarrow>
          ''wspy-summary: largest phase drift: '' @ PHASE_TOPDOWN_METRICS ! i @ '' ('' @ fmt_fixed 2 d @
          '' pts, between '' @ PHASE_NAMES ! min lo hi @ '' and '' @ PHASE_NAMES ! max lo hi @ '')'' @ newline
      | None \<Rightarrow>
          if length seen = 1 then
            ''wspy-summary: only 1 phase observed ('' @ PHASE_NAMES ! last seen @ '') -- no drift computable'' @ newline
          else ''wspy-summary: no topdown metric had data in 2+ phases -- no drift computable'' @ newline)"

text \<open>\<open>found\<close> is whether the store has the run, the rows are \<open>None\<close> if their query fails.\<close>

definition phase_topdown ::
  "bool \<Rightarrow> phase_query_row list option \<Rightarrow> string \<Rightarrow> string \<Rightarrow> bool \<Rightarrow> int \<times> string"
where
  "phase_topdown found query hostname run_id_text csvflag =
     (if \<not> found then (1, [])
      else
        (case query of
           None \<Rightarrow> (1, [])
         | Some rs \<Rightarrow>
             (let (rows, seen) = read_phase_rows rs in
              if seen = [] then
                (0, ''wspy-summary: '' @ hostname @ '':'' @ run_id_text @
                    '' has no phase-tagged topdown data (needs --interval, IPC '' @
                    ''counters, and phase detection active -- not --per-core, and not disabled)'' @ newline)
              else
                (0, phase_header csvflag @
                    concat (map (\<lambda>i. print_phase_topdown_row csvflag (PHASE_TOPDOWN_METRICS ! i) (rows i)
                        (map_option fst (phase_drift (rows i)))) [0..<length PHASE_TOPDOWN_METRICS]) @
                    (if csvflag then [] else phase_notice rows seen)))))"

section \<open>The modes of the program\<close>

text \<open>The store: what its queries give, \<open>None\<close> where one fails or finds nothing.\<close>

record summary_store =
  ss_rows :: "group_by \<Rightarrow> summary_row list option"
  ss_target :: "group_by \<Rightarrow> string \<Rightarrow> string \<Rightarrow> (int \<times> string \<times> string option \<times> string option) option"
  ss_metrics :: "int \<Rightarrow> (string \<times> double) list option"
  ss_baseline :: "group_by \<Rightarrow> target_run \<Rightarrow> summary_row list option"
  ss_trace :: "string \<Rightarrow> string \<Rightarrow> trace_row option"
  ss_phases :: "string \<Rightarrow> string \<Rightarrow> phase_query_row list option option"

text \<open>\<open>open_db\<close> is \<open>open_summary_db\<close>.\<close>

definition summary_main ::
  "(string \<Rightarrow> summary_store option) \<Rightarrow> (string \<Rightarrow> bool) \<Rightarrow> (string \<Rightarrow> string list option) \<Rightarrow> summary_opts \<Rightarrow>
   (int \<times> string) option"
where
  "summary_main open_db exists_at list_dir opts =
     (let modes = length (filter (\<lambda>m. m \<noteq> None) [so_trace_key opts, so_check_regression_key opts, so_phase_topdown_key opts]);
          with_db = (\<lambda>f. case open_db (the (so_db_path opts)) of None \<Rightarrow> Some (2, []) | Some db \<Rightarrow> f db);
          with_key = (\<lambda>key f. case split_key key of None \<Rightarrow> Some (2, []) | Some (host, name) \<Rightarrow> with_db (\<lambda>db. f db host name))
      in if so_db_path opts = None \<or> modes \<ge> 2 then Some (2, [])
         else case so_phase_topdown_key opts of
           Some key \<Rightarrow>
             with_key key (\<lambda>db host name.
               Some (phase_topdown (ss_phases db host name \<noteq> None)
                 (case ss_phases db host name of None \<Rightarrow> None | Some q \<Rightarrow> q) host name (so_csvflag opts)))
         | None \<Rightarrow>
             (case so_trace_key opts of
                Some key \<Rightarrow> with_key key (\<lambda>db host name. Some (trace_run exists_at list_dir (ss_trace db host name) host name))
              | None \<Rightarrow>
                  (case parse_group_by (so_group_by opts) of
                     None \<Rightarrow> Some (2, [])
                   | Some g \<Rightarrow>
                       (let opts = opts\<lparr>so_min_runs := max 1 (so_min_runs opts)\<rparr> in
                        case so_check_regression_key opts of
                          Some key \<Rightarrow>
                            with_key key (\<lambda>db host name.
                              check_regression opts (ss_target db g host name) (ss_metrics db) (ss_baseline db g))
                        | None \<Rightarrow> with_db (\<lambda>db. summary_table opts (ss_rows db g))))))"

end
