(* ===== verification/Summary_Facts.thy ===== *)
theory Summary_Facts
  imports Summary_Modes Proc_Merge
begin

text \<open>
  The reports of src/summary.c: the table has one group for each key and every run in it once, the verdict names its
  reasons and never overflows its buffer, and runs of one machine are never called incomparable.
\<close>

section \<open>Groups\<close>

lemma bucket_add_key [simp]:
  "bk_group_val (bucket_add r b) = bk_group_val b" "bk_secondary_val (bucket_add r b) = bk_secondary_val b"
  "bk_metric_name (bucket_add r b) = bk_metric_name b" "bucket_key (bucket_add r b) = bucket_key b"
  by (simp_all add: bucket_add_def bucket_key_def Let_def)

lemma bucket_add_lists [simp]:
  "bk_values (bucket_add r b) = bk_values b @ [br_value r]" "bk_run_ids (bucket_add r b) = bk_run_ids b @ [br_run_id r]"
  "bk_hostnames (bucket_add r b) = bk_hostnames b @ [br_hostname r]"
  by (simp_all add: bucket_add_def Let_def)

definition fill_bucket :: "summary_row list \<Rightarrow> bucket \<Rightarrow> bucket" where
  "fill_bucket rs = fold (\<lambda>r. bucket_add (row_run r)) rs"

lemma fill_bucket_key [simp]: "bucket_key (fill_bucket rs b) = bucket_key b"
  by (induction rs arbitrary: b) (simp_all add: fill_bucket_def)

lemma fill_bucket_lists:
  "bk_values (fill_bucket rs b) = bk_values b @ map su_value rs"
  "bk_run_ids (fill_bucket rs b) = bk_run_ids b @ map (\<lambda>r. br_run_id (row_run r)) rs"
  "bk_hostnames (fill_bucket rs b) = bk_hostnames b @ map (\<lambda>r. br_hostname (row_run r)) rs"
  by (induction rs arbitrary: b) (simp_all add: fill_bucket_def row_run_def)

text \<open>The key fits the fields of the bucket.\<close>

definition key_fits :: "string \<times> string \<times> string \<Rightarrow> bool" where
  "key_fits k \<longleftrightarrow> (case k of (g, s, m) \<Rightarrow> length g < 160 \<and> length s < 160 \<and> length m < 192)"

lemma start_bucket_key: "key_fits (row_key r) \<Longrightarrow> bucket_key (start_bucket r) = row_key r"
  by (simp add: start_bucket_def bucket_key_def bucket_reset_def key_fits_def split: prod.splits)

lemma start_bucket_lists [simp]: "bk_values (start_bucket r) = []" "bk_run_ids (start_bucket r) = []"
  by (simp_all add: start_bucket_def bucket_reset_def split: prod.split)

lemma close_buckets_run:
  "close_buckets (Some b) rs =
     fill_bucket (takeWhile (\<lambda>r. row_key r = bucket_key b) rs) b #
     close_buckets None (dropWhile (\<lambda>r. row_key r = bucket_key b) rs)"
proof (induction rs arbitrary: b)
  case (Cons r rs)
  show ?case
  proof (cases "row_key r = bucket_key b")
    case True
    then show ?thesis using Cons.IH [of "bucket_add (row_run r) b"] by (simp add: fill_bucket_def)
  next
    case False
    then show ?thesis by (simp add: fill_bucket_def eq_commute [of "bucket_key b"])
  qed
qed (simp add: fill_bucket_def)

lemma close_buckets_next:
  assumes "key_fits (row_key r)"
  shows "close_buckets None (r # rs) =
    fill_bucket (r # takeWhile (\<lambda>x. row_key x = row_key r) rs) (start_bucket r) #
    close_buckets None (dropWhile (\<lambda>x. row_key x = row_key r) rs)"
  using close_buckets_run [of "bucket_add (row_run r) (start_bucket r)" rs] start_bucket_key [OF assms]
  by (simp add: fill_bucket_def)

text \<open>What \<open>ORDER BY\<close> gives: rows of one key are next to each other.\<close>

fun grouped_rows :: "summary_row list \<Rightarrow> bool" where
  "grouped_rows [] \<longleftrightarrow> True"
| "grouped_rows (r # rs) \<longleftrightarrow>
     row_key r \<notin> row_key ` set (dropWhile (\<lambda>x. row_key x = row_key r) rs) \<and> grouped_rows rs"

lemma grouped_dropWhile: "grouped_rows rs \<Longrightarrow> grouped_rows (dropWhile P rs)"
  by (induction rs) simp_all

text \<open>A bucket for each key, in order, with the runs of that key.\<close>

definition bucket_of :: "summary_row list \<Rightarrow> string \<times> string \<times> string \<Rightarrow> bucket" where
  "bucket_of rows key =
     (case key of (g, s, m) \<Rightarrow> fill_bucket (filter (\<lambda>r. row_key r = key) rows) (bucket_reset g s m))"

lemma start_bucket_of: "start_bucket r = bucket_of [] (row_key r)"
  by (simp add: start_bucket_def bucket_of_def fill_bucket_def split: prod.split)

lemma remdups_adj_run:
  "\<forall>k \<in> set ks. k = a \<Longrightarrow> a \<notin> set ks' \<Longrightarrow> remdups_adj (a # ks @ ks') = a # remdups_adj ks'"
proof (induction ks)
  case Nil
  then show ?case by (cases ks') auto
qed simp

lemma close_buckets_groups:
  "grouped_rows rows \<Longrightarrow> \<forall>r \<in> set rows. key_fits (row_key r) \<Longrightarrow>
   close_buckets None rows = map (bucket_of rows) (remdups_adj (map row_key rows))"
proof (induction "length rows" arbitrary: rows rule: less_induct)
  case less
  show ?case
  proof (cases rows)
    case (Cons r rs)
    define rest where "rest = dropWhile (\<lambda>x. row_key x = row_key r) rs"
    have len: "length rest < length rows" by (simp add: rest_def Cons le_imp_less_Suc length_dropWhile_le)
    have none: "row_key r \<notin> row_key ` set rest" and "grouped_rows rest"
      using less.prems(1) grouped_dropWhile by (simp_all add: Cons rest_def)
    then have other: "row_key x \<noteq> row_key r" if "x \<in> set rest" for x using that by (metis imageI)
    from \<open>grouped_rows rest\<close> have "grouped_rows rest" .
    moreover have "\<forall>x \<in> set rest. key_fits (row_key x)"
      using less.prems(2) by (auto simp: Cons rest_def dest: set_dropWhileD)
    ultimately have ih: "close_buckets None rest = map (bucket_of rest) (remdups_adj (map row_key rest))"
      by (intro less.hyps len)
    define run where "run = takeWhile (\<lambda>x. row_key x = row_key r) rs"
    have same_key: "row_key x = row_key r" if "x \<in> set run" for x
      using set_takeWhileD [OF that [unfolded run_def]] by simp
    have rows: "rows = r # run @ rest" by (simp add: Cons run_def rest_def)
    have "remdups_adj (row_key r # map row_key run @ map row_key rest) = row_key r # remdups_adj (map row_key rest)"
    proof (rule remdups_adj_run)
      show "\<forall>k \<in> set (map row_key run). k = row_key r" unfolding set_map using same_key by blast
      show "row_key r \<notin> set (map row_key rest)" unfolding set_map by (rule none)
    qed
    then have keys: "remdups_adj (map row_key rows) = row_key r # remdups_adj (map row_key rest)" by (simp only: rows list.map map_append)
    have same: "bucket_of rest k = bucket_of rows k" if "k \<in> row_key ` set rest" for k
    proof -
      have k: "row_key r \<noteq> k" using none that by blast
      then have "filter (\<lambda>x. row_key x = k) run = []" using same_key unfolding filter_empty_conv by metis
      with k have "filter (\<lambda>x. row_key x = k) rows = filter (\<lambda>x. row_key x = k) rest" by (simp add: rows)
      then show ?thesis by (simp add: bucket_of_def)
    qed
    have "filter (\<lambda>x. row_key x = row_key r) run = run" using same_key by (simp add: filter_id_conv)
    moreover have "filter (\<lambda>x. row_key x = row_key r) rest = []" using other unfolding filter_empty_conv by blast
    ultimately have first: "filter (\<lambda>x. row_key x = row_key r) rows = r # run" by (simp add: rows)
    have "close_buckets None rows = fill_bucket (filter (\<lambda>x. row_key x = row_key r) rows) (start_bucket r) #
        map (bucket_of rest) (remdups_adj (map row_key rest))"
      unfolding first using close_buckets_next [of r rs] less.prems(2) ih by (simp add: Cons flip: run_def rest_def)
    moreover have "fill_bucket (filter (\<lambda>x. row_key x = row_key r) rows) (start_bucket r) = bucket_of rows (row_key r)"
      by (simp add: start_bucket_def bucket_of_def split: prod.split)
    moreover have "map (bucket_of rest) (remdups_adj (map row_key rest)) =
        map (bucket_of rows) (remdups_adj (map row_key rest))"
      using same by (intro map_cong) simp_all
    ultimately show ?thesis by (simp add: keys)
  qed simp
qed

lemma bucket_of_lists:
  "bk_values (bucket_of rows k) = map su_value (filter (\<lambda>r. row_key r = k) rows)"
  "bk_run_ids (bucket_of rows k) = map (\<lambda>r. br_run_id (row_run r)) (filter (\<lambda>r. row_key r = k) rows)"
  "bk_hostnames (bucket_of rows k) = map (\<lambda>r. br_hostname (row_run r)) (filter (\<lambda>r. row_key r = k) rows)"
  by (simp_all add: bucket_of_def fill_bucket_lists bucket_reset_def split: prod.split)

lemma bucket_reset_key: "bucket_key (bucket_reset g s m) = (take 159 g, take 159 s, take 191 m)"
  by (simp add: bucket_key_def bucket_reset_def)

lemma bucket_of_key: "key_fits k \<Longrightarrow> bucket_key (bucket_of rows k) = k"
  by (simp add: bucket_of_def bucket_reset_key key_fits_def split: prod.splits)

lemma grouped_distinct: "grouped_rows rows \<Longrightarrow> distinct (remdups_adj (map row_key rows))"
proof (induction rows)
  case (Cons r rs)
  show ?case
  proof (cases rs)
    case (Cons r' rs')
    show ?thesis
    proof (cases "row_key r' = row_key r")
      case True
      then show ?thesis using Cons.IH Cons.prems by (simp add: Cons)
    next
      case False
      then have "row_key r \<notin> row_key ` set rs" using Cons.prems by (simp add: Cons)
      then show ?thesis using False Cons.IH Cons.prems by (simp add: Cons)
    qed
  qed simp
qed simp

text \<open>C40: if the rows of the store come with equal keys next to each other and the keys fit the fields they are kept in,
  the table has exactly one group for each group, option and metric that a wanted row names, in the order of the
  rows, and the group has the values and the names of exactly the runs of its key.\<close>

theorem summary_groups_exact:
  assumes "grouped_rows (wanted_rows opts rows)" and "\<forall>r \<in> set (wanted_rows opts rows). key_fits (row_key r)"
    and "bs = close_buckets None (wanted_rows opts rows)"
  shows "map bucket_key bs = remdups_adj (map row_key (wanted_rows opts rows)) \<and> distinct (map bucket_key bs) \<and>
    (\<forall>b \<in> set bs. let own = filter (\<lambda>r. row_key r = bucket_key b) (wanted_rows opts rows) in
       own \<noteq> [] \<and> bk_values b = map su_value own \<and> bk_run_ids b = map (\<lambda>r. br_run_id (row_run r)) own \<and>
       bk_hostnames b = map (\<lambda>r. br_hostname (row_run r)) own)"
proof -
  define rs where "rs = wanted_rows opts rows"
  define keys where "keys = remdups_adj (map row_key rs)"
  have bs: "bs = map (bucket_of rs) keys"
    using close_buckets_groups assms by (simp add: rs_def keys_def)
  have fits: "key_fits k" and own: "\<exists>r \<in> set rs. row_key r = k" if "k \<in> set keys" for k
    using that assms(2) by (auto simp: keys_def rs_def)
  have "map bucket_key bs = keys" using fits by (simp add: bs bucket_of_key map_idI)
  moreover have "distinct keys" using grouped_distinct assms(1) by (simp add: keys_def rs_def)
  moreover have "let own = filter (\<lambda>r. row_key r = bucket_key b) rs in
       own \<noteq> [] \<and> bk_values b = map su_value own \<and> bk_run_ids b = map (\<lambda>r. br_run_id (row_run r)) own \<and>
       bk_hostnames b = map (\<lambda>r. br_hostname (row_run r)) own" if "b \<in> set bs" for b
  proof -
    have "b \<in> bucket_of rs ` set keys" using that by (simp add: bs)
    then obtain k where k: "b = bucket_of rs k" "k \<in> set keys" by (rule imageE)
    then have "bucket_key b = k" using fits bucket_of_key by simp
    then show ?thesis using own [OF k(2)] by (auto simp: k(1) bucket_of_lists Let_def filter_empty_conv)
  qed
  ultimately show ?thesis by (simp add: keys_def flip: rs_def)
qed

definition example_row :: "string \<Rightarrow> rat \<Rightarrow> summary_row" where
  "example_row metric v =
     \<lparr>su_group = Some ''make'', su_secondary = None, su_run_id = Some ''run-1'', su_hostname = Some ''host'',
      su_metric = Some metric, su_value = Fin v, su_cpu_vendor = Some ''AuthenticAMD'', su_requested = 4, su_measured = 4,
      su_env = (\<lambda>_. None)\<rparr>"

definition example_opts :: summary_opts where
  "example_opts =
     \<lparr>so_db_path = Some ''db'', so_command_filter = [], so_hostname_filter = [], so_metrics = [], so_run_ids = [],
      so_group_by = ''command'', so_group_by_option = None, so_outlier_z = Fin 2, so_max_cv = Fin 5,
      so_min_env_score = dlit (8 / 10), so_min_runs = 1, so_csvflag = True, so_quiet = False, so_strict = False,
      so_show_runs = False, so_trace_key = None, so_check_regression_key = None, so_phase_topdown_key = None\<rparr>"

lemma summary_groups_exact_witness:
  "map bucket_key (close_buckets None (wanted_rows example_opts [example_row ''ipc'' 1, example_row ''ipc'' 2, example_row ''l2'' 3])) =
     [(''make'', ''(unknown)'', ''ipc''), (''make'', ''(unknown)'', ''l2'')]"
proof -
  have wanted: "wanted_rows example_opts [example_row ''ipc'' 1, example_row ''ipc'' 2, example_row ''l2'' 3] =
      [example_row ''ipc'' 1, example_row ''ipc'' 2, example_row ''l2'' 3]"
    by (simp add: wanted_rows_def metric_wanted_def example_opts_def)
  have keys: "row_key (example_row m v) = (''make'', ''(unknown)'', m)" for m v
    by (simp add: row_key_def example_row_def text_or_def)
  have "map bucket_key (close_buckets None (wanted_rows example_opts
        [example_row ''ipc'' 1, example_row ''ipc'' 2, example_row ''l2'' 3])) =
      remdups_adj (map row_key (wanted_rows example_opts [example_row ''ipc'' 1, example_row ''ipc'' 2, example_row ''l2'' 3]))"
    by (rule conjunct1 [OF summary_groups_exact [OF _ _ refl]]) (simp_all add: wanted keys key_fits_def)
  then show ?thesis by (simp only: wanted list.map keys) simp
qed

text \<open>A name of 160 characters or more, such as a long command line, is cut in the bucket and never compares equal:
  every run becomes a group of its own.\<close>

lemma long_name_splits_group:
  assumes "160 \<le> length (fst (row_key r))"
  shows "length (close_buckets None (replicate n r)) = n"
proof -
  have start: "bucket_key (start_bucket r) \<noteq> row_key r"
  proof -
    obtain g s m where k: "row_key r = (g, s, m)" by (rule prod_cases3)
    have "length (take 159 g) \<noteq> length g" using assms by (simp add: k)
    then have "take 159 g \<noteq> g" by metis
    then show ?thesis by (simp add: start_bucket_def k bucket_reset_key)
  qed
  have "length (close_buckets (Some b) (replicate n r)) = Suc n" if "bucket_key b \<noteq> row_key r" for b n
    using that start by (induction n arbitrary: b) simp_all
  from this [of "bucket_add (row_run r) (start_bucket r)" "n - 1"] start show ?thesis by (cases n) simp_all
qed

section \<open>The verdict\<close>

lemma verdict_text:
  "let reasons = map snd (filter fst
       [(n < 3, ''thin''), (dlt max_cv cv, ''noisy''), (mixed_pmu, ''mixed-pmu''),
        (dle (Fin 0) score \<and> dlt score min_score, ''mixed-env'')])
   in compute_verdict n cv max_cv mixed_pmu score min_score 40 =
        Some (if reasons = [] then ''PASS'' else ''WARN:'' @ join_text '','' reasons)"
  unfolding compute_verdict_def VERDICT_MIN_RUNS_FOR_CONFIDENCE_def Let_def
  by (cases "n < 3"; cases "dlt max_cv cv"; cases mixed_pmu; cases "dle (Fin 0) score \<and> dlt score min_score")
    (simp_all add: verdict_append_def reason_append_def)

lemma bucket_verdict_total: "\<exists>v. bucket_verdict opts b s = Some v"
  unfolding bucket_verdict_def by (rule exI, rule verdict_text [unfolded Let_def])

lemma emit_buckets_total: "\<exists>r. emit_buckets opts bs t = Some r"
proof (induction bs arbitrary: t)
  case (Cons b bs)
  obtain v where "bucket_verdict opts b (compute_stats (bk_values b) (so_outlier_z opts)) = Some v"
    using bucket_verdict_total by blast
  then have "emit_bucket opts b t \<noteq> None" by (simp add: emit_bucket_def Let_def)
  then obtain r where r: "emit_bucket opts b t = Some r" by blast
  obtain r' where "emit_buckets opts bs (fst r) = Some r'" using Cons.IH by blast
  with r show ?case by (cases r) simp
qed simp

text \<open>C40: the verdict never exceeds its buffer of 40 bytes and is PASS or the exact list of the reasons that hold, in
  their fixed order, so the table is always written.\<close>

theorem verdict_names_reasons:
  "(let reasons = map snd (filter fst
       [(n < 3, ''thin''), (dlt max_cv cv, ''noisy''), (mixed_pmu, ''mixed-pmu''),
        (dle (Fin 0) score \<and> dlt score min_score, ''mixed-env'')])
    in compute_verdict n cv max_cv mixed_pmu score min_score 40 =
         Some (if reasons = [] then ''PASS'' else ''WARN:'' @ join_text '','' reasons)) \<and>
   (\<exists>r. summarize opts rows = Some r)"
  using verdict_text emit_buckets_total unfolding summarize_def by blast

section \<open>Runs of one machine\<close>


definition example_run :: "rat \<Rightarrow> bucket_run" where
  "example_run v =
     \<lparr>br_value = Fin v, br_run_id = ''run'', br_hostname = ''host'', br_cpu_vendor = ''GenuineIntel'', br_requested = 6,
      br_measured = 6, br_env = (\<lambda>f. if f = ENV_CPU_GOVERNOR then Some ''performance'' else None)\<rparr>"

text \<open>The same texts and the same counters, and they fit their fields.\<close>

definition same_machine :: "string \<Rightarrow> int \<Rightarrow> int \<Rightarrow> (env_field \<Rightarrow> string option) \<Rightarrow> bucket_run \<Rightarrow> bool" where
  "same_machine vendor requested measured env r \<longleftrightarrow>
     br_cpu_vendor r = vendor \<and> br_requested r = requested \<and> br_measured r = measured \<and> br_env r = env"

definition env_text_ok :: "env_field \<Rightarrow> string \<Rightarrow> bool" where
  "env_text_ok f t \<longleftrightarrow> length t < 80 \<and> (f = ENV_MEMORY_TOTAL_KB \<longrightarrow> dle (Fin 0) (atof t))"

lemma tolerance_finite: "\<exists>c. ENV_MEMORY_TOLERANCE_FRACTION = Fin c"
  using double_round_int [of "5 / 100" 1] by (auto simp: ENV_MEMORY_TOLERANCE_FRACTION_def)

lemma env_agrees: "env_text_ok f t \<Longrightarrow> \<not> env_disagrees f t t"
proof -
  assume ok: "env_text_ok f t"
  have pos: "double_round q = Inf False \<or> (\<exists>r \<ge> 0. double_round q = Fin r)" if "0 \<le> q" for q
    using double_round_nonneg [OF that] .
  have tol: "0 \<le> c" if "ENV_MEMORY_TOLERANCE_FRACTION = Fin c" for c
    using that double_round_nonneg [of "5 / 100"] by (auto simp: ENV_MEMORY_TOLERANCE_FRACTION_def)
  obtain c where c: "ENV_MEMORY_TOLERANCE_FRACTION = Fin c" "0 \<le> c" using tolerance_finite tol by blast
  have "\<not> dlt (dmul m ENV_MEMORY_TOLERANCE_FRACTION) (Fin 0)" if m: "dle (Fin 0) m" for m
  proof (cases m)
    case (Fin q)
    have "0 \<le> q * c" using m c(2) by (simp add: Fin)
    from pos [OF this] show ?thesis by (auto simp: Fin c)
  next
    case (Inf s)
    then show ?thesis using m c(2) unfolding c(1) Inf by (cases s) auto
  qed (use m in simp)
  then show ?thesis using ok dsub_self [of "atof t"] by (auto simp: env_disagrees_def env_text_ok_def)
qed

text \<open>What the bucket knows of a field while the runs agree.\<close>

definition env_track_ok :: "string option \<Rightarrow> env_track \<Rightarrow> bool" where
  "env_track_ok v t \<longleftrightarrow> \<not> et_mismatched t \<and> (et_sig t = None \<or> et_sig t = v)"

lemma env_add_ok:
  assumes "env_track_ok v t" and "\<forall>x. v = Some x \<longrightarrow> env_text_ok f x"
  shows "env_track_ok v (env_add f v t)"
proof (cases v)
  case (Some x)
  then have "env_text_ok f x" using assms(2) by simp
  then show ?thesis using assms(1) env_agrees [of f x]
    by (cases "et_sig t") (auto simp: Some env_add_def env_track_ok_def env_text_ok_def)
qed (use assms(1) in \<open>simp add: env_add_def\<close>)

lemma bucket_add_env: "bk_env (bucket_add r b) f = env_add f (br_env r f) (bk_env b f)"
  by (simp add: bucket_add_def Let_def)

lemma bucket_add_pmu:
  assumes "same_machine vendor requested measured env r" and "length vendor < 64"
    and "bk_pmu b = None \<or> bk_pmu b = Some (vendor, requested, measured)" and "\<not> bk_pmu_mixed b"
  shows "bk_pmu (bucket_add r b) = Some (vendor, requested, measured) \<and> \<not> bk_pmu_mixed (bucket_add r b)"
  using assms by (auto simp: bucket_add_def same_machine_def Let_def)

lemma agreeing_runs:
  assumes "\<forall>r \<in> set runs. same_machine vendor requested measured env r" and "length vendor < 64"
    and "\<forall>f t. env f = Some t \<longrightarrow> env_text_ok f t"
    and "bk_pmu b = None \<or> bk_pmu b = Some (vendor, requested, measured)" and "\<not> bk_pmu_mixed b"
    and "\<forall>f. env_track_ok (env f) (bk_env b f)"
  shows "\<not> bk_pmu_mixed (fold bucket_add runs b) \<and> (\<forall>f. env_track_ok (env f) (bk_env (fold bucket_add runs b) f))"
  using assms(1,4-6)
proof (induction runs arbitrary: b)
  case (Cons r runs)
  have r: "same_machine vendor requested measured env r" using Cons.prems(1) by simp
  then have "\<forall>f. env_track_ok (env f) (bk_env (bucket_add r b) f)"
    using env_add_ok Cons.prems(4) assms(3) by (simp add: bucket_add_env same_machine_def)
  then show ?case using Cons.IH [of "bucket_add r b"] bucket_add_pmu [OF r assms(2) Cons.prems(2,3)] Cons.prems(1) by simp
qed simp

text \<open>The score of agreeing fields is 1, or -1 if none could be compared.\<close>

lemma env_score_agree:
  assumes "\<forall>f. \<not> et_mismatched (bk_env b f)"
  shows "compute_env_score b = Fin (-1) \<or> compute_env_score b = Fin 1"
proof -
  define compared where "compared = filter (\<lambda>f. et_compared (bk_env b f) \<noteq> 0) env_fields"
  have "length compared \<le> length env_fields" unfolding compared_def by (rule length_filter_le)
  then have "length compared \<le> 8" by (simp add: env_fields_def)
  then have "double_of_int (int (length compared)) = Fin (of_int (int (length compared)))" by (intro double_of_int_exact) simp
  moreover have "filter (\<lambda>f. \<not> et_mismatched (bk_env b f)) compared = compared" using assms by (simp add: filter_id_conv)
  moreover have "compute_env_score b = (if compared = [] then Fin (-1)
      else ddiv (double_of_int (int (length (filter (\<lambda>f. \<not> et_mismatched (bk_env b f)) compared))))
        (double_of_int (int (length compared))))"
    unfolding compute_env_score_def Let_def compared_def ..
  ultimately show ?thesis using double_of_int_exact [of 1] by (simp add: double_of_int_def)
qed

text \<open>C40: runs of one processor vendor with the same counters and the same environment, whose texts fit, are never
  called incomparable: the verdict on their group names at most that they are few or noisy.\<close>

theorem same_machine_comparable:
  assumes "\<forall>r \<in> set runs. same_machine vendor requested measured env r" and "length vendor < 64"
    and "\<forall>f t. env f = Some t \<longrightarrow> env_text_ok f t" and "dle (so_min_env_score opts) (Fin 1)"
    and "bucket_verdict opts (fold bucket_add runs (bucket_reset g s m)) st = Some verdict"
  shows "verdict \<in> {''PASS'', ''WARN:thin'', ''WARN:noisy'', ''WARN:thin,noisy''}"
proof -
  define b where "b = fold bucket_add runs (bucket_reset g s m)"
  have "\<not> bk_pmu_mixed b \<and> (\<forall>f. env_track_ok (env f) (bk_env b f))"
    unfolding b_def by (rule agreeing_runs [OF assms(1-3)]) (simp_all add: bucket_reset_def env_track_ok_def)
  then have b: "\<not> bk_pmu_mixed b" "compute_env_score b = Fin (-1) \<or> compute_env_score b = Fin 1"
    using env_score_agree by (auto simp: env_track_ok_def)
  have "\<not> (dle (Fin 0) (compute_env_score b) \<and> dlt (compute_env_score b) (so_min_env_score opts))"
    using b(2) assms(4) by (cases "so_min_env_score opts") auto
  then show ?thesis
    using b(1) assms(5) verdict_text [of "length (bk_values b)" "so_max_cv opts" "cv_percent st" "bk_pmu_mixed b"
        "compute_env_score b" "so_min_env_score opts"]
    by (auto simp: bucket_verdict_def Let_def simp flip: b_def split: if_splits)
qed

lemma same_machine_comparable_witness:
  "\<exists>verdict. bucket_verdict (example_opts\<lparr>so_min_env_score := Fin (1 / 2)\<rparr>)
     (fold bucket_add [example_run 1, example_run 2] (bucket_reset ''make'' [] ''ipc''))
     (compute_stats [Fin 1, Fin 2] (Fin 2)) = Some verdict \<and>
     verdict \<in> {''PASS'', ''WARN:thin'', ''WARN:noisy'', ''WARN:thin,noisy''}"
proof -
  obtain v where v: "bucket_verdict (example_opts\<lparr>so_min_env_score := Fin (1 / 2)\<rparr>)
      (fold bucket_add [example_run 1, example_run 2] (bucket_reset ''make'' [] ''ipc''))
      (compute_stats [Fin 1, Fin 2] (Fin 2)) = Some v"
    using bucket_verdict_total by blast
  have "v \<in> {''PASS'', ''WARN:thin'', ''WARN:noisy'', ''WARN:thin,noisy''}"
    by (rule same_machine_comparable [OF _ _ _ _ v, of "''GenuineIntel''" 6 6
          "\<lambda>f. if f = ENV_CPU_GOVERNOR then Some ''performance'' else None"])
      (auto simp: same_machine_def example_run_def env_text_ok_def split: if_splits)
  with v show ?thesis by blast
qed

text \<open>A vendor or an environment text that does not fit its field never equals its own cut copy.\<close>

lemma long_vendor_mixed:
  "64 \<le> length (br_cpu_vendor r) \<Longrightarrow> bk_pmu_mixed (fold bucket_add [r, r] (bucket_reset g s m))"
proof -
  assume long: "64 \<le> length (br_cpu_vendor r)"
  then have "length (take 63 (br_cpu_vendor r)) \<noteq> length (br_cpu_vendor r)" by simp
  then have "take 63 (br_cpu_vendor r) \<noteq> br_cpu_vendor r" by metis
  then show ?thesis by (simp add: bucket_add_def bucket_reset_def Let_def)
qed

lemma long_env_text_disagrees:
  assumes "br_env r f = Some t" and "80 \<le> length t" and "f \<noteq> ENV_MEMORY_TOTAL_KB"
  shows "et_mismatched (bk_env (fold bucket_add [r, r] (bucket_reset g s m)) f)"
proof -
  have "length (take 79 t) \<noteq> length t" using assms(2) by simp
  then have "take 79 t \<noteq> t" by metis
  then show ?thesis using assms(1,3) by (simp add: bucket_add_env bucket_reset_def env_add_def env_disagrees_def)
qed

end
