(* ===== verification/Core_Report.thy ===== *)
theory Core_Report
  imports Validate Phase Counter_Model
begin

text \<open>
  src/core_report.c (wspy-core-report): the imbalance across cores in the file a \<open>--per-core --csv\<close> run wrote. The file,
  the class of each core of this host as \<open>inventory_cpu\<close> found it, and the options of the command are arguments; the
  warnings and errors on the error stream are values or left out.
\<close>

section \<open>Columns and their accumulators\<close>

definition CORE_CSV_FIELDS :: nat where "CORE_CSV_FIELDS = 256"

definition MAX_CORES :: nat where "MAX_CORES = 1024"

definition MAX_METRICS :: nat where "MAX_METRICS = 128"

record metric_accum =
  ma_name :: string
  ma_sum :: "nat \<Rightarrow> double"
  ma_count :: "nat \<Rightarrow> nat"

text \<open>The statics of the file: \<open>metrics[]\<close>, \<open>core_seen[]\<close> and \<open>max_core_seen\<close>.\<close>

record percore =
  pc_metrics :: "metric_accum list"
  pc_core_seen :: "nat \<Rightarrow> bool"
  pc_max_core_seen :: int

definition percore_initial :: percore where
  "percore_initial = \<lparr>pc_metrics = [], pc_core_seen = (\<lambda>_. False), pc_max_core_seen = -1\<rparr>"

definition core_numeric_field :: "string \<Rightarrow> double option" where
  "core_numeric_field s = map_option fst (parse_numeric_field s)"

definition is_dimension_or_excluded_column :: "string \<Rightarrow> bool" where
  "is_dimension_or_excluded_column name \<longleftrightarrow>
     name = [] \<or>
     name \<in> {''core'', ''time'', ''phase'', ''counters_measured'', ''counters_requested'', ''ibs_l3missonly'',
             ''ibs_ldlat_threshold'', ''ibs_fetchlat_threshold''}"

definition metric_index :: "metric_accum list \<Rightarrow> string \<Rightarrow> nat option" where
  "metric_index ms name =
     (let i = length (takeWhile (\<lambda>m. ma_name m \<noteq> name) ms) in if i < length ms then Some i else None)"

text \<open>The metrics with the one of that name, and its index; the 129th is fatal. A new name is cut to 63 bytes.\<close>

definition find_or_add_metric :: "string \<Rightarrow> metric_accum list \<Rightarrow> (metric_accum list \<times> nat) option" where
  "find_or_add_metric name ms =
     (case metric_index ms name of
        Some i \<Rightarrow> Some (ms, i)
      | None \<Rightarrow>
          if length ms \<ge> MAX_METRICS then None
          else Some (ms @ [\<lparr>ma_name = take 63 name, ma_sum = (\<lambda>_. Fin 0), ma_count = (\<lambda>_. 0)\<rparr>], length ms))"

definition find_metric :: "metric_accum list \<Rightarrow> string \<Rightarrow> metric_accum option" where
  "find_metric ms name = map_option (\<lambda>i. ms ! i) (metric_index ms name)"

definition core_metric_wanted :: "string \<Rightarrow> string list \<Rightarrow> bool" where
  "core_metric_wanted name filters \<longleftrightarrow> filters = [] \<or> name \<in> set filters"

section \<open>Statistics over the cores\<close>

record core_stats =
  cs_n :: nat
  cs_min :: double
  cs_max :: double
  cs_mean :: double
  cs_stddev :: double
  cs_cv_percent :: double
  cs_hot_idx :: nat
  cs_cold_idx :: nat

text \<open>The hottest and the coldest value so far with their positions, over the values from position \<open>i\<close>.\<close>

fun hot_cold :: "nat \<Rightarrow> double list \<Rightarrow> (double \<times> nat) \<times> (double \<times> nat) \<Rightarrow> (double \<times> nat) \<times> (double \<times> nat)" where
  "hot_cold i [] s = s"
| "hot_cold i (v # vs) ((hi, h), (lo, c)) =
     hot_cold (i + 1) vs (if dlt hi v then (v, i) else (hi, h), if dlt v lo then (v, i) else (lo, c))"

definition core_sum :: "double list \<Rightarrow> double" where
  "core_sum ds = fold (\<lambda>d t. dadd t d) ds (Fin 0)"

definition core_cv_percent :: "double \<Rightarrow> double \<Rightarrow> double" where
  "core_cv_percent mean stddev = (if mean \<noteq> Fin 0 then dmul (ddiv stddev (dabs mean)) (Fin 100) else Fin 0)"

definition compute_core_stats :: "double list \<Rightarrow> core_stats" where
  "compute_core_stats values =
     (let ((hi, h), (lo, c)) = hot_cold 0 values ((values ! 0, 0), (values ! 0, 0));
          n = length values;
          mean = ddiv (core_sum values) (double_of_int (int n));
          sumsq = core_sum (map (\<lambda>v. dmul (dsub v mean) (dsub v mean)) values);
          stddev = (if n \<ge> 2 then dsqrt (ddiv sumsq (double_of_int (int (n - 1)))) else Fin 0)
      in \<lparr>cs_n = n, cs_min = lo, cs_max = hi, cs_mean = mean, cs_stddev = stddev, cs_cv_percent = core_cv_percent mean stddev,
          cs_hot_idx = h, cs_cold_idx = c\<rparr>)"

definition compute_weighted_core_stats :: "double list \<Rightarrow> double list \<Rightarrow> core_stats" where
  "compute_weighted_core_stats values weights =
     (let ((hi, h), (lo, c)) = hot_cold 0 values ((values ! 0, 0), (values ! 0, 0));
          n = length values;
          wsum = core_sum weights
      in if dle wsum (Fin 0) then compute_core_stats values
         else
           (let wmean = ddiv (core_sum (map (\<lambda>(v, w). dmul v w) (zip values weights))) wsum;
                wvar = ddiv (core_sum (map (\<lambda>(v, w). dmul (dmul w (dsub v wmean)) (dsub v wmean)) (zip values weights))) wsum;
                stddev = (if n \<ge> 2 then dsqrt wvar else Fin 0)
            in \<lparr>cs_n = n, cs_min = lo, cs_max = hi, cs_mean = wmean, cs_stddev = stddev,
                cs_cv_percent = core_cv_percent wmean stddev, cs_hot_idx = h, cs_cold_idx = c\<rparr>))"

section \<open>Cores and their classes\<close>

text \<open>The class of a core, \<open>None\<close> where it is not known (\<open>class_known[]\<close>).\<close>

type_synonym classes = "nat \<Rightarrow> cpu_core_type option"

definition seen_cores :: "percore \<Rightarrow> nat list" where
  "seen_cores p = filter (pc_core_seen p) [0..<nat (pc_max_core_seen p + 1)]"

definition core_mean :: "metric_accum \<Rightarrow> nat \<Rightarrow> double" where
  "core_mean m c = ddiv (ma_sum m c) (double_of_int (int (ma_count m c)))"

text \<open>The cores that take part: \<open>want\<close> is the class asked for, if any, and \<open>weight\<close> the metric of \<open>--weight-by\<close>.\<close>

definition gather_core_ids ::
  "percore \<Rightarrow> metric_accum \<Rightarrow> classes \<Rightarrow> cpu_core_type option \<Rightarrow> metric_accum option \<Rightarrow> nat list" where
  "gather_core_ids p m cl want weight =
     filter (\<lambda>c. ma_count m c \<noteq> 0 \<and>
                (case want of None \<Rightarrow> True | Some t \<Rightarrow> cl c = Some t) \<and>
                (case weight of None \<Rightarrow> True | Some w \<Rightarrow> ma_count w c \<noteq> 0)) (seen_cores p)"

definition gather_core_values ::
  "percore \<Rightarrow> metric_accum \<Rightarrow> classes \<Rightarrow> cpu_core_type option \<Rightarrow> metric_accum option \<Rightarrow> nat list \<times> double list \<times> double list" where
  "gather_core_values p m cl want weight =
     (let ids = gather_core_ids p m cl want weight in
      (ids, map (core_mean m) ids, case weight of None \<Rightarrow> [] | Some w \<Rightarrow> map (core_mean w) ids))"

fun classes_of :: "nat \<Rightarrow> cpu_core_type option list \<Rightarrow> cpu_core_type list \<Rightarrow> cpu_core_type list" where
  "classes_of max_classes [] ts = ts"
| "classes_of max_classes (None # cs) ts = classes_of max_classes cs ts"
| "classes_of max_classes (Some t # cs) ts =
     classes_of max_classes cs (if t \<notin> set ts \<and> length ts < max_classes then ts @ [t] else ts)"

definition distinct_classes_present :: "percore \<Rightarrow> classes \<Rightarrow> nat \<Rightarrow> cpu_core_type list" where
  "distinct_classes_present p cl max_classes = classes_of max_classes (map cl (seen_cores p)) []"

definition core_class_name :: "cpu_core_type \<Rightarrow> string" where
  "core_class_name t =
     (case t of
        CORE_UNKNOWN \<Rightarrow> ''unknown'' | CORE_ARM_GENERIC \<Rightarrow> ''arm_generic''
      | CORE_ARM_CORTEX_A53 \<Rightarrow> ''arm_cortex_a53'' | CORE_ARM_CORTEX_A57 \<Rightarrow> ''arm_cortex_a57''
      | CORE_ARM_CORTEX_A72 \<Rightarrow> ''arm_cortex_a72'' | CORE_ARM_NEOVERSE_N1 \<Rightarrow> ''arm_neoverse_n1''
      | CORE_ARM_NEOVERSE_V1 \<Rightarrow> ''arm_neoverse_v1'' | CORE_ARM_NEOVERSE_N2 \<Rightarrow> ''arm_neoverse_n2''
      | CORE_ARM_NEOVERSE_V2 \<Rightarrow> ''arm_neoverse_v2'' | CORE_ARM_CORTEX_A78 \<Rightarrow> ''arm_cortex_a78''
      | CORE_ARM_CORTEX_X1 \<Rightarrow> ''arm_cortex_x1'' | CORE_ARM_CORTEX_A710 \<Rightarrow> ''arm_cortex_a710''
      | CORE_ARM_CORTEX_X2 \<Rightarrow> ''arm_cortex_x2'' | CORE_ARM_CORTEX_A510 \<Rightarrow> ''arm_cortex_a510''
      | CORE_ARM_CORTEX_A520 \<Rightarrow> ''arm_cortex_a520'' | CORE_ARM_CORTEX_A720 \<Rightarrow> ''arm_cortex_a720''
      | CORE_ARM_CORTEX_X4 \<Rightarrow> ''arm_cortex_x4'' | CORE_AMD_UNKNOWN \<Rightarrow> ''amd_unknown'' | CORE_AMD_ZEN \<Rightarrow> ''amd_zen''
      | CORE_AMD_ZEN5 \<Rightarrow> ''amd_zen5'' | CORE_AMD_ZEN5C \<Rightarrow> ''amd_zen5c'' | CORE_INTEL_UNKNOWN \<Rightarrow> ''intel_unknown''
      | CORE_INTEL_ATOM \<Rightarrow> ''intel_atom'' | CORE_INTEL_CORE \<Rightarrow> ''intel_core'')"

section \<open>Reading the file\<close>

text \<open>The cast to \<open>int\<close> as x86-64 does it: what does not fit, and a NaN, gives the least \<open>int\<close>.\<close>

definition core_number :: "double \<Rightarrow> int" where
  "core_number d =
     (case d of
        Fin q \<Rightarrow> (let i = (if q < 0 then \<lceil>q\<rceil> else \<lfloor>q\<rfloor>) in if c_int i then i else - (2 ^ 31))
      | _ \<Rightarrow> - (2 ^ 31))"

definition mark_core :: "nat \<Rightarrow> percore \<Rightarrow> percore" where
  "mark_core c p =
     (if pc_core_seen p c then p
      else p\<lparr>pc_core_seen := (pc_core_seen p)(c := True),
             pc_max_core_seen := (if int c > pc_max_core_seen p then int c else pc_max_core_seen p)\<rparr>)"

definition add_sample :: "nat \<Rightarrow> double \<Rightarrow> metric_accum \<Rightarrow> metric_accum" where
  "add_sample c v m =
     m\<lparr>ma_sum := (ma_sum m)(c := dadd (ma_sum m c) v), ma_count := (ma_count m)(c := ma_count m c + 1)\<rparr>"

text \<open>One cell of a row of core \<open>c\<close>; \<open>None\<close> is the fatal exit of \<open>find_or_add_metric\<close>.\<close>

definition read_cell :: "nat \<Rightarrow> string \<times> string \<Rightarrow> metric_accum list \<Rightarrow> metric_accum list option" where
  "read_cell c cell ms =
     (let (name, field) = cell in
      if is_dimension_or_excluded_column name then Some ms
      else
        (case core_numeric_field field of
           None \<Rightarrow> Some ms
         | Some val \<Rightarrow>
             if is_nan val \<or> is_inf val then Some ms
             else map_option (\<lambda>(ms1, i). ms1[i := add_sample c val (ms1 ! i)]) (find_or_add_metric name ms)))"

fun read_cells :: "nat \<Rightarrow> (string \<times> string) list \<Rightarrow> metric_accum list \<Rightarrow> metric_accum list option" where
  "read_cells c [] ms = Some ms"
| "read_cells c (cell # cells) ms =
     (case read_cell c cell ms of None \<Rightarrow> None | Some ms1 \<Rightarrow> read_cells c cells ms1)"

text \<open>The core a row belongs to, unless the row is skipped.\<close>

definition row_core :: "nat \<Rightarrow> nat \<Rightarrow> string list \<Rightarrow> nat option" where
  "row_core header_n core_col row =
     (if length row \<noteq> header_n then None
      else
        (case core_numeric_field (row ! core_col) of
           None \<Rightarrow> None
         | Some core_val \<Rightarrow>
             (let i = core_number core_val in if i < 0 \<or> i \<ge> int MAX_CORES then None else Some (nat i))))"

text \<open>The rows; the state and the number of rows skipped.\<close>

fun percore_rows :: "string list \<Rightarrow> nat \<Rightarrow> string list \<Rightarrow> percore \<times> nat \<Rightarrow> (percore \<times> nat) option" where
  "percore_rows header core_col [] s = Some s"
| "percore_rows header core_col (l # ls) (p, skipped) =
     (let line = strip_newline l; row = split_csv_line line CORE_CSV_FIELDS in
      if line = [] then percore_rows header core_col ls (p, skipped)
      else
        (case row_core (length header) core_col row of
           None \<Rightarrow> percore_rows header core_col ls (p, skipped + 1)
         | Some c \<Rightarrow>
             (let p1 = mark_core c p in
              case read_cells c (zip header row) (pc_metrics p1) of
                None \<Rightarrow> None
              | Some ms \<Rightarrow> percore_rows header core_col ls (p1\<lparr>pc_metrics := ms\<rparr>, skipped))))"

fun register_columns :: "string list \<Rightarrow> metric_accum list \<Rightarrow> metric_accum list option" where
  "register_columns [] ms = Some ms"
| "register_columns (name # names) ms =
     (if is_dimension_or_excluded_column name then register_columns names ms
      else (case find_or_add_metric name ms of None \<Rightarrow> None | Some (ms1, i) \<Rightarrow> register_columns names ms1))"

datatype percore_error = CANNOT_OPEN | EMPTY_FILE | NO_CORE_COLUMN | TOO_MANY_METRICS

text \<open>The file is \<open>None\<close> where it cannot be opened, else its contents. A line is read into 8192 bytes.\<close>

definition read_percore_csv :: "string option \<Rightarrow> percore_error + (percore \<times> nat)" where
  "read_percore_csv file =
     (case file of
        None \<Rightarrow> Inl CANNOT_OPEN
      | Some s \<Rightarrow>
          (case proc_lines 8190 s of
             [] \<Rightarrow> Inl EMPTY_FILE
           | first # rows \<Rightarrow>
               (let header = split_csv_line (strip_newline first) CORE_CSV_FIELDS;
                    core_col = length (takeWhile (\<lambda>h. h \<noteq> ''core'') header)
                in if core_col \<ge> length header then Inl NO_CORE_COLUMN
                   else
                     (case register_columns header [] of
                        None \<Rightarrow> Inl TOO_MANY_METRICS
                      | Some ms \<Rightarrow>
                          (case percore_rows header core_col rows (percore_initial\<lparr>pc_metrics := ms\<rparr>, 0) of
                             None \<Rightarrow> Inl TOO_MANY_METRICS
                           | Some r \<Rightarrow> Inr r)))))"

section \<open>The report\<close>

definition print_stats_human :: "string \<Rightarrow> core_stats \<Rightarrow> nat list \<Rightarrow> string" where
  "print_stats_human label st ids =
     ''  '' @ pad_right 24 label @ '' n='' @ pad_right 3 (dec (cs_n st)) @
     '' mean='' @ pad_right 12 (fmt_fixed 4 (cs_mean st)) @ '' stddev='' @ pad_right 10 (fmt_fixed 4 (cs_stddev st)) @
     '' cv='' @ fmt_fixed_w 6 2 (cs_cv_percent st) @ ''%  hot=core'' @ dec (ids ! cs_hot_idx st) @
     ''('' @ fmt_fixed 4 (cs_max st) @ '')  cold=core'' @ dec (ids ! cs_cold_idx st) @
     ''('' @ fmt_fixed 4 (cs_min st) @ '')'' @ newline"

definition print_stats_csv :: "string \<Rightarrow> string \<Rightarrow> string \<Rightarrow> core_stats \<Rightarrow> nat list \<Rightarrow> string" where
  "print_stats_csv metric scope scope_value st ids =
     metric @ '','' @ scope @ '','' @ scope_value @ '','' @ dec (cs_n st) @ '','' @
     fmt_fixed 6 (cs_min st) @ '','' @ dec (ids ! cs_cold_idx st) @ '','' @
     fmt_fixed 6 (cs_max st) @ '','' @ dec (ids ! cs_hot_idx st) @ '','' @
     fmt_fixed 6 (cs_mean st) @ '','' @ fmt_fixed 6 (cs_stddev st) @ '','' @ fmt_fixed 4 (cs_cv_percent st) @ newline"

record core_opts =
  co_csv_path :: string
  co_csv_output :: bool
  co_filters :: "string list"
  co_weight_by :: "string option"

text \<open>The line of one metric over the cores of one class (or all), if there is one.\<close>

definition core_stats_of :: "double list \<Rightarrow> double list \<Rightarrow> metric_accum option \<Rightarrow> core_stats" where
  "core_stats_of values weights weight =
     (case weight of None \<Rightarrow> compute_core_stats values | Some _ \<Rightarrow> compute_weighted_core_stats values weights)"

definition core_metric_line ::
  "core_opts \<Rightarrow> percore \<Rightarrow> classes \<Rightarrow> metric_accum option \<Rightarrow> cpu_core_type option \<Rightarrow> metric_accum \<Rightarrow> string" where
  "core_metric_line opts p cl weight want m =
     (let (ids, values, weights) = gather_core_values p m cl want weight in
      if ids = [] then []
      else
        (let st = core_stats_of values weights weight in
         case want of
           None \<Rightarrow> if co_csv_output opts then print_stats_csv (ma_name m) ''all'' '''' st ids
                   else print_stats_human (ma_name m) st ids
         | Some t \<Rightarrow> if co_csv_output opts then print_stats_csv (ma_name m) ''core_type'' (core_class_name t) st ids
                     else print_stats_human (take 95 (ma_name m @ '' ['' @ core_class_name t @ '']'')) st ids))"

definition core_classes :: "percore \<Rightarrow> cpu_core_type list \<Rightarrow> classes" where
  "core_classes p coreinfo c = (if \<not> pc_core_seen p c \<or> c \<ge> length coreinfo then None else Some (coreinfo ! c))"

definition core_report_text :: "core_opts \<Rightarrow> cpu_core_type list \<Rightarrow> percore \<Rightarrow> metric_accum option \<Rightarrow> string" where
  "core_report_text opts coreinfo p weight =
     (let cl = core_classes p coreinfo;
          seen = distinct_classes_present p cl 32;
          wanted = filter (\<lambda>m. core_metric_wanted (ma_name m) (co_filters opts)) (pc_metrics p)
      in (if co_csv_output opts then
            ''metric,scope,scope_value,n,min,min_core,max,max_core,mean,stddev,cv_percent'' @ newline
          else
            ''core report: '' @ co_csv_path opts @ '' ('' @ dec_int (pc_max_core_seen p + 1) @ '' core(s))'' @ newline @ newline @
            (case co_weight_by opts of
               Some w \<Rightarrow> ''Cross-core stats (mean/stddev/cv weighted by '' @ [CHR 0x27] @ w @ [CHR 0x27] @ ''):'' @ newline
             | None \<Rightarrow> ''Cross-core stats:'' @ newline)) @
         concat (map (core_metric_line opts p cl weight None) wanted) @
         (if length seen > 1 then
            (if co_csv_output opts then []
             else newline @ ''Core-class summary ('' @ dec (length seen) @ '' classes present):'' @ newline) @
            concat (map (\<lambda>m. concat (map (\<lambda>t. core_metric_line opts p cl weight (Some t) m) seen)) wanted)
          else []))"

text \<open>The exit status and what is printed. Status 1 is that of \<open>fatal\<close>.\<close>

definition core_report_main :: "core_opts \<Rightarrow> string option \<Rightarrow> cpu_core_type list \<Rightarrow> nat \<times> string" where
  "core_report_main opts file coreinfo =
     (case read_percore_csv file of
        Inl TOO_MANY_METRICS \<Rightarrow> (1, [])
      | Inl _ \<Rightarrow> (2, [])
      | Inr (p, skipped) \<Rightarrow>
          if pc_max_core_seen p < 0 then (2, [])
          else
            (case co_weight_by opts of
               None \<Rightarrow> (0, core_report_text opts coreinfo p None)
             | Some w \<Rightarrow>
                 (case find_metric (pc_metrics p) w of
                    None \<Rightarrow> (2, [])
                  | Some m \<Rightarrow> (0, core_report_text opts coreinfo p (Some m)))))"

end
