(* ===== verification/Core_Report_Facts.thy ===== *)
theory Core_Report_Facts
  imports Core_Report
begin

text \<open>
  wspy-core-report: what a file of rows adds up to, that the hot and the cold core are the extremes, and how the cores
  fall into classes.
\<close>

section \<open>Lines of a file\<close>
lemma fgets_line: "LF \<notin> set l \<Longrightarrow> length l < n \<Longrightarrow> fgets n (l @ LF # r) = (l @ [LF], r)"
proof (induction l arbitrary: n)
  case Nil
  then show ?case by (cases n) auto
next
  case (Cons c l)
  then show ?case by (cases n) auto
qed

lemma no_nul_LF: "no_nul (l @ [LF]) = no_nul l"
  by (simp add: LF_def NUL_def)

lemma proc_lines_line:
  "LF \<notin> set l \<Longrightarrow> no_nul l \<Longrightarrow> length l \<le> n \<Longrightarrow> proc_lines n (l @ newline @ r) = (l @ newline) # proc_lines n r"
  by (subst proc_lines.simps) (simp add: fgets_line newline_LF no_nul_LF)

lemma proc_lines_end [simp]: "proc_lines n [] = []"
  by (simp add: proc_lines.simps)

section \<open>The extremes\<close>

definition hottest :: "double list \<Rightarrow> double \<times> nat \<Rightarrow> bool" where
  "hottest vs s \<longleftrightarrow>
     snd s < length vs \<and> vs ! snd s = fst s \<and> (\<forall>v \<in> set vs. dle v (fst s)) \<and> (\<forall>i < snd s. dlt (vs ! i) (fst s))"

definition coldest :: "double list \<Rightarrow> double \<times> nat \<Rightarrow> bool" where
  "coldest vs s \<longleftrightarrow>
     snd s < length vs \<and> vs ! snd s = fst s \<and> (\<forall>v \<in> set vs. dle (fst s) v) \<and> (\<forall>i < snd s. dlt (fst s) (vs ! i))"

lemma dle_dlt_trans: "dle x y \<Longrightarrow> dlt y z \<Longrightarrow> dlt x z"
  by (cases x; cases y; cases z) auto

lemma dlt_dle_trans: "dlt x y \<Longrightarrow> dle y z \<Longrightarrow> dlt x z"
  by (cases x; cases y; cases z) auto

lemma not_nan_refl: "\<not> is_nan v \<Longrightarrow> dle v v"
  by (cases v) (auto simp: is_nan_def)

lemma hottest_snoc:
  assumes "hottest us (hi, h)" "\<not> is_nan hi" "\<not> is_nan v"
  shows "hottest (us @ [v]) (if dlt hi v then (v, length us) else (hi, h))"
proof (cases "dlt hi v")
  case True
  have "dlt (us ! i) v" if "i < length us" for i
    using assms(1) that True by (auto simp: hottest_def intro: dle_dlt_trans)
  then show ?thesis using True assms(1,3)
    by (auto simp: hottest_def nth_append not_nan_refl intro: dlt_imp_dle dle_dlt_trans)
next
  case False
  then have "dle v hi" using not_dlt_dle assms(2,3) by blast
  with False assms(1) show ?thesis by (auto simp: hottest_def nth_append)
qed

lemma coldest_snoc:
  assumes "coldest us (lo, c)" "\<not> is_nan lo" "\<not> is_nan v"
  shows "coldest (us @ [v]) (if dlt v lo then (v, length us) else (lo, c))"
proof (cases "dlt v lo")
  case True
  have "dlt v (us ! i)" if "i < length us" for i
    using assms(1) that True by (auto simp: coldest_def intro: dlt_dle_trans)
  then show ?thesis using True assms(1,3)
    by (auto simp: coldest_def nth_append not_nan_refl intro: dlt_imp_dle dlt_dle_trans)
next
  case False
  then have "dle lo v" using not_dlt_dle assms(2,3) by blast
  with False assms(1) show ?thesis by (auto simp: coldest_def nth_append)
qed

lemma extreme_in: "hottest vs s \<Longrightarrow> fst s \<in> set vs" "coldest vs s \<Longrightarrow> fst s \<in> set vs"
  by (auto simp: hottest_def coldest_def in_set_conv_nth)

lemma hot_cold_extremes:
  assumes "hottest us h" "coldest us c" "\<forall>v \<in> set (us @ vs). \<not> is_nan v"
    "hot_cold (length us) vs (h, c) = (h', c')"
  shows "hottest (us @ vs) h' \<and> coldest (us @ vs) c'"
  using assms
proof (induction vs arbitrary: us h c)
  case Nil
  then show ?case by simp
next
  case (Cons v vs)
  obtain hi i lo j where hc: "h = (hi, i)" "c = (lo, j)" by fastforce
  have "\<not> is_nan hi" "\<not> is_nan lo" "\<not> is_nan v"
    using Cons.prems(1-3) extreme_in [of us] unfolding hc by fastforce+
  then have "hottest (us @ [v]) (if dlt hi v then (v, length us) else (hi, i))"
    "coldest (us @ [v]) (if dlt v lo then (v, length us) else (lo, j))"
    using Cons.prems(1,2) hottest_snoc coldest_snoc unfolding hc by blast+
  from Cons.IH [OF this] Cons.prems(3,4) show ?case by (simp add: hc)
qed

lemma hot_cold_values:
  assumes "values \<noteq> []" "\<forall>v \<in> set values. \<not> is_nan v"
    "hot_cold 0 values ((values ! 0, 0), (values ! 0, 0)) = (h, c)"
  shows "hottest values h \<and> coldest values c"
proof -
  obtain v vs where v: "values = v # vs" using assms(1) by (cases "values") auto
  have n: "\<not> is_nan v" using assms(2) v by simp
  have e: "hottest [v] (v, 0)" "coldest [v] (v, 0)" using n by (auto simp: hottest_def coldest_def not_nan_refl)
  have "hot_cold (length [v]) vs ((v, 0), (v, 0)) = (h, c)" using assms(3) by (simp add: v)
  from hot_cold_extremes [OF e _ this] assms(2) show ?thesis by (simp add: v)
qed

lemma core_stats_extremes:
  assumes "values \<noteq> []" "\<forall>v \<in> set values. \<not> is_nan v"
  shows "hottest values (cs_max (core_stats_of values weights weight), cs_hot_idx (core_stats_of values weights weight)) \<and>
    coldest values (cs_min (core_stats_of values weights weight), cs_cold_idx (core_stats_of values weights weight))"
proof -
  obtain hi h lo c where hc: "hot_cold 0 values ((values ! 0, 0), (values ! 0, 0)) = ((hi, h), (lo, c))"
    by (metis prod.exhaust)
  from hot_cold_values [OF assms hc] show ?thesis
    by (simp add: core_stats_of_def compute_core_stats_def compute_weighted_core_stats_def hc Let_def
        split: option.split)
qed

section \<open>Classes\<close>
lemma core_types_finite: "(UNIV :: cpu_core_type set) = set
  [CORE_UNKNOWN, CORE_ARM_GENERIC, CORE_ARM_CORTEX_A53, CORE_ARM_CORTEX_A57, CORE_ARM_CORTEX_A72,
   CORE_ARM_NEOVERSE_N1, CORE_ARM_NEOVERSE_V1, CORE_ARM_NEOVERSE_N2, CORE_ARM_NEOVERSE_V2, CORE_ARM_CORTEX_A78,
   CORE_ARM_CORTEX_X1, CORE_ARM_CORTEX_A710, CORE_ARM_CORTEX_X2, CORE_ARM_CORTEX_A510, CORE_ARM_CORTEX_A520,
   CORE_ARM_CORTEX_A720, CORE_ARM_CORTEX_X4, CORE_AMD_UNKNOWN, CORE_AMD_ZEN, CORE_AMD_ZEN5, CORE_AMD_ZEN5C,
   CORE_INTEL_UNKNOWN, CORE_INTEL_ATOM, CORE_INTEL_CORE]"
proof (rule set_eqI)
  fix x :: cpu_core_type
  show "x \<in> UNIV \<longleftrightarrow> x \<in> set
    [CORE_UNKNOWN, CORE_ARM_GENERIC, CORE_ARM_CORTEX_A53, CORE_ARM_CORTEX_A57, CORE_ARM_CORTEX_A72,
     CORE_ARM_NEOVERSE_N1, CORE_ARM_NEOVERSE_V1, CORE_ARM_NEOVERSE_N2, CORE_ARM_NEOVERSE_V2, CORE_ARM_CORTEX_A78,
     CORE_ARM_CORTEX_X1, CORE_ARM_CORTEX_A710, CORE_ARM_CORTEX_X2, CORE_ARM_CORTEX_A510, CORE_ARM_CORTEX_A520,
     CORE_ARM_CORTEX_A720, CORE_ARM_CORTEX_X4, CORE_AMD_UNKNOWN, CORE_AMD_ZEN, CORE_AMD_ZEN5, CORE_AMD_ZEN5C,
     CORE_INTEL_UNKNOWN, CORE_INTEL_ATOM, CORE_INTEL_CORE]"
    by (cases x) simp_all
qed

lemma core_types_fit:
  assumes "distinct (ts :: cpu_core_type list)"
  shows "length ts < 32"
proof -
  have "finite (UNIV :: cpu_core_type set)" unfolding core_types_finite by (rule finite_set)
  then have "card (set ts) \<le> card (UNIV :: cpu_core_type set)" by (rule card_mono) simp
  also have "\<dots> \<le> 24" unfolding core_types_finite by (rule order_trans [OF card_length]) simp
  finally show ?thesis using distinct_card [OF assms] by simp
qed

text \<open>The room for 32 classes is enough, and no class is listed twice.\<close>
lemma classes_of_all:
  "distinct ts \<Longrightarrow> distinct (classes_of 32 cs ts) \<and> set (classes_of 32 cs ts) = set ts \<union> {t. Some t \<in> set cs}"
proof (induction "32 :: nat" cs ts rule: classes_of.induct)
  case (3 t cs ts)
  then show ?case using core_types_fit [OF 3(2)] by auto
qed auto

lemma partition_by_class:
  assumes "distinct ts" "\<forall>c \<in> set ids. \<forall>t. cl c = Some t \<longrightarrow> t \<in> set ts"
  shows "mset (concat (map (\<lambda>t. filter (\<lambda>c. cl c = Some t) ids) ts)) = mset (filter (\<lambda>c. cl c \<noteq> None) ids)"
  using assms
proof (induction ts arbitrary: ids)
  case Nil
  then have "filter (\<lambda>c. cl c \<noteq> None) ids = []" by (auto simp: filter_empty_conv)
  then show ?case by simp
next
  case (Cons t ts)
  let ?other = "filter (\<lambda>c. cl c \<noteq> Some t) ids"
  have "map (\<lambda>u. filter (\<lambda>c. cl c = Some u) ids) ts = map (\<lambda>u. filter (\<lambda>c. cl c = Some u) ?other) ts"
    using Cons.prems(1) by (auto intro!: filter_cong)
  moreover have "mset (concat (map (\<lambda>u. filter (\<lambda>c. cl c = Some u) ?other) ts)) = mset (filter (\<lambda>c. cl c \<noteq> None) ?other)"
    using Cons.IH [of ?other] Cons.prems by auto
  moreover have "mset (filter (\<lambda>c. cl c \<noteq> None) ids) =
      mset (filter (\<lambda>c. cl c = Some t) ids) + mset (filter (\<lambda>c. cl c \<noteq> None) ?other)"
    by (rule multiset_eqI) (auto simp: mset_filter)
  ultimately show ?case by (simp only: list.map concat.simps mset_append)
qed

text \<open>Every core of a known class is in the line of exactly one class.\<close>
lemma class_lines_partition:
  "mset (concat (map (\<lambda>t. gather_core_ids p m cl (Some t) weight) (distinct_classes_present p cl 32))) =
   mset (filter (\<lambda>c. cl c \<noteq> None) (gather_core_ids p m cl None weight))"
proof -
  let ?ids = "gather_core_ids p m cl None weight" and ?ts = "distinct_classes_present p cl 32"
  have ts: "distinct ?ts" "set ?ts = {t. Some t \<in> cl ` set (seen_cores p)}"
    using classes_of_all [of "[]" "map cl (seen_cores p)"] by (auto simp: distinct_classes_present_def)
  have "gather_core_ids p m cl (Some t) weight = filter (\<lambda>c. cl c = Some t) ?ids" for t
    by (auto simp: gather_core_ids_def intro!: filter_cong)
  moreover have "\<forall>c \<in> set ?ids. \<forall>t. cl c = Some t \<longrightarrow> t \<in> set ?ts"
    unfolding ts(2) by (auto simp: gather_core_ids_def image_iff) (metis)
  ultimately show ?thesis using partition_by_class [OF ts(1)] by simp
qed

section \<open>What the rows add up to\<close>

text \<open>The values a cell contributes, and the values of a column on one core, in the order of the rows.\<close>

definition cell_values :: "string \<Rightarrow> double list" where
  "cell_values field =
     (case core_numeric_field field of Some v \<Rightarrow> if is_nan v \<or> is_inf v then [] else [v] | None \<Rightarrow> [])"

definition row_fields :: "string \<Rightarrow> string list" where
  "row_fields l = split_csv_line (strip_newline l) CORE_CSV_FIELDS"

definition row_values :: "string list \<Rightarrow> string list \<Rightarrow> string \<Rightarrow> double list" where
  "row_values header row name = concat (map (\<lambda>(h, f). if h = name then cell_values f else []) (zip header row))"

definition core_of_line :: "string list \<Rightarrow> nat \<Rightarrow> string \<Rightarrow> nat option" where
  "core_of_line header core_col l =
     (if strip_newline l = [] then None else row_core (length header) core_col (row_fields l))"

definition column_values :: "string list \<Rightarrow> nat \<Rightarrow> string list \<Rightarrow> string \<Rightarrow> nat \<Rightarrow> double list" where
  "column_values header core_col lines name c =
     concat (map (\<lambda>l. if core_of_line header core_col l = Some c then row_values header (row_fields l) name else []) lines)"

text \<open>The accumulators that hold a table of such values.\<close>

definition accums :: "string list \<Rightarrow> (string \<Rightarrow> nat \<Rightarrow> double list) \<Rightarrow> metric_accum list" where
  "accums cols T =
     map (\<lambda>name. \<lparr>ma_name = name, ma_sum = (\<lambda>c. core_sum (T name c)), ma_count = (\<lambda>c. length (T name c))\<rparr>) cols"

definition core_metric_columns :: "string list \<Rightarrow> string list" where
  "core_metric_columns header = filter (\<lambda>name. \<not> is_dimension_or_excluded_column name) header"

lemma length_accums [simp]: "length (accums cols T) = length cols"
  by (simp add: accums_def)

lemma core_sum_snoc: "core_sum (vs @ [v]) = dadd (core_sum vs) v"
  by (simp add: core_sum_def)

lemma metric_index_accums:
  assumes "distinct cols" "i < length cols"
  shows "metric_index (accums cols T) (cols ! i) = Some i"
proof -
  have "takeWhile (\<lambda>m. ma_name m \<noteq> cols ! i) (accums cols T) = take i (accums cols T)"
    using assms by (intro takeWhile_eq_take_P_nth) (auto simp: accums_def nth_eq_iff_index_eq)
  then show ?thesis using assms(2) by (simp add: metric_index_def)
qed

lemma metric_index_none:
  "name \<notin> ma_name ` set ms \<Longrightarrow> metric_index ms name = None"
proof -
  assume "name \<notin> ma_name ` set ms"
  then have "takeWhile (\<lambda>m. ma_name m \<noteq> name) ms = ms" by (auto simp: takeWhile_eq_all_conv)
  then show ?thesis by (simp only: metric_index_def Let_def less_irrefl if_False)
qed

lemma add_sample_accums:
  assumes "distinct cols" "i < length cols"
  shows "(accums cols T)[i := add_sample c v (accums cols T ! i)] =
    accums cols (T(cols ! i := (T (cols ! i))(c := T (cols ! i) c @ [v])))"
  using assms
  by (intro nth_equalityI) (auto simp: accums_def add_sample_def nth_list_update nth_eq_iff_index_eq core_sum_snoc)

lemma read_cell_accums:
  assumes "distinct cols" "\<not> is_dimension_or_excluded_column name \<Longrightarrow> name \<in> set cols"
  shows "read_cell c (name, f) (accums cols T) =
    Some (accums cols (if is_dimension_or_excluded_column name then T
                       else T(name := (T name)(c := T name c @ cell_values f))))"
proof (cases "is_dimension_or_excluded_column name")
  case True
  then show ?thesis by (simp add: read_cell_def)
next
  case False
  then obtain i where i: "i < length cols" "name = cols ! i" using assms(2) by (metis in_set_conv_nth)
  note [simp] = metric_index_accums [OF assms(1) i(1)] add_sample_accums [OF assms(1) i(1)]
  show ?thesis using False
    by (auto simp: read_cell_def i cell_values_def find_or_add_metric_def split: option.splits)
qed

text \<open>A table only matters at the columns that are kept.\<close>
lemma accums_cong: "(\<And>name c. name \<in> set cols \<Longrightarrow> T name c = U name c) \<Longrightarrow> accums cols T = accums cols U"
  by (simp add: accums_def)

lemma read_cells_accums:
  assumes "distinct cols" "\<forall>h \<in> fst ` set cells. \<not> is_dimension_or_excluded_column h \<longrightarrow> h \<in> set cols"
    "\<forall>h \<in> set cols. \<not> is_dimension_or_excluded_column h"
  shows "read_cells c cells (accums cols T) =
    Some (accums cols (\<lambda>name d. T name d @
      (if d = c then concat (map (\<lambda>(h, f). if h = name then cell_values f else []) cells) else [])))"
  using assms(2)
proof (induction cells arbitrary: T)
  case Nil
  show ?case by (auto intro: accums_cong)
next
  case (Cons cell cells)
  obtain h f where cell: "cell = (h, f)" by fastforce
  have "\<not> is_dimension_or_excluded_column h \<Longrightarrow> h \<in> set cols" using Cons.prems cell by simp
  note r = read_cell_accums [OF assms(1) this]
  show ?case using Cons.prems assms(3) by (auto simp: cell r Cons.IH intro!: accums_cong)
qed

definition malformed_line :: "string list \<Rightarrow> nat \<Rightarrow> string \<Rightarrow> bool" where
  "malformed_line header core_col l \<longleftrightarrow> strip_newline l \<noteq> [] \<and> core_of_line header core_col l = None"

definition seen_bounded :: "percore \<Rightarrow> bool" where
  "seen_bounded p \<longleftrightarrow> (\<forall>c. pc_core_seen p c \<longrightarrow> int c \<le> pc_max_core_seen p)"

lemma seen_bounded_initial [simp]: "seen_bounded (percore_initial\<lparr>pc_metrics := ms\<rparr>)"
  by (simp add: seen_bounded_def percore_initial_def)

lemma seen_bounded_metrics [simp]: "seen_bounded (p\<lparr>pc_metrics := ms\<rparr>) = seen_bounded p"
  by (simp add: seen_bounded_def)

lemma seen_bounded_mark [simp]: "seen_bounded p \<Longrightarrow> seen_bounded (mark_core c p)"
  by (fastforce simp: seen_bounded_def mark_core_def)

lemma mark_core_simps [simp]:
  "pc_core_seen (mark_core c p) d \<longleftrightarrow> pc_core_seen p d \<or> d = c" "pc_metrics (mark_core c p) = pc_metrics p"
  by (auto simp: mark_core_def)

lemma seen_cores_set: "seen_bounded p \<Longrightarrow> set (seen_cores p) = {c. pc_core_seen p c}"
  by (force simp: seen_cores_def seen_bounded_def)

lemma zip_columns:
  "\<forall>h \<in> fst ` set (zip header row). \<not> is_dimension_or_excluded_column h \<longrightarrow> h \<in> set (core_metric_columns header)"
  by (auto simp: core_metric_columns_def dest: set_zip_leftD)

lemma percore_rows_table:
  assumes "distinct (core_metric_columns header)" "pc_metrics p = accums (core_metric_columns header) T" "seen_bounded p"
  shows "\<exists>q. percore_rows header core_col lines (p, k) = Some (q, k + length (filter (malformed_line header core_col) lines)) \<and>
    pc_metrics q = accums (core_metric_columns header) (\<lambda>name c. T name c @ column_values header core_col lines name c) \<and>
    seen_bounded q \<and> (\<forall>c. pc_core_seen q c \<longleftrightarrow> pc_core_seen p c \<or> Some c \<in> core_of_line header core_col ` set lines)"
  using assms(2,3)
proof (induction lines arbitrary: p k T)
  case Nil
  then show ?case by (simp add: column_values_def)
next
  case (Cons l ls)
  have none: ?case if n: "core_of_line header core_col l = None"
  proof -
    let ?k = "if malformed_line header core_col l then k + 1 else k"
    have "percore_rows header core_col (l # ls) (p, k) = percore_rows header core_col ls (p, ?k)"
      using n by (auto simp: Let_def malformed_line_def core_of_line_def row_fields_def split: if_splits)
    then show ?thesis using Cons.IH [OF Cons.prems, of ?k] n by (auto simp: column_values_def)
  qed
  show ?case
  proof (cases "core_of_line header core_col l")
    case None
    then show ?thesis by (rule none)
  next
    case (Some c)
    let ?T = "\<lambda>name d. T name d @ (if d = c then row_values header (row_fields l) name else [])"
    have line: "strip_newline l \<noteq> []" "row_core (length header) core_col (split_csv_line (strip_newline l) CORE_CSV_FIELDS) = Some c"
      using Some by (auto simp: core_of_line_def row_fields_def split: if_splits)
    have cells: "read_cells c (zip header (row_fields l)) (pc_metrics p) = Some (accums (core_metric_columns header) ?T)"
      unfolding Cons.prems(1) row_values_def
      by (rule read_cells_accums [OF assms(1) zip_columns]) (simp add: core_metric_columns_def)
    let ?p = "(mark_core c p)\<lparr>pc_metrics := accums (core_metric_columns header) ?T\<rparr>"
    have "percore_rows header core_col (l # ls) (p, k) = percore_rows header core_col ls (?p, k)"
      using line cells by (simp add: Let_def row_fields_def)
    moreover have "\<not> malformed_line header core_col l" using Some by (simp add: malformed_line_def)
    moreover have "(\<lambda>name d. ?T name d @ column_values header core_col ls name d) =
        (\<lambda>name d. T name d @ column_values header core_col (l # ls) name d)"
      using Some by (auto simp: column_values_def fun_eq_iff)
    ultimately show ?thesis using Cons.IH [of ?p ?T k] Cons.prems(2) Some
      by (auto simp: image_iff eq_commute [of "Some _" "Some c"])
  qed
qed

lemma register_columns_accums:
  assumes "distinct (us @ core_metric_columns hs)" "\<forall>h \<in> set (core_metric_columns hs). length h \<le> 63"
    "length (us @ core_metric_columns hs) \<le> MAX_METRICS"
  shows "register_columns hs (accums us (\<lambda>_ _. [])) = Some (accums (us @ core_metric_columns hs) (\<lambda>_ _. []))"
  using assms
proof (induction hs arbitrary: us)
  case Nil
  then show ?case by (simp add: core_metric_columns_def)
next
  case (Cons h hs)
  show ?case
  proof (cases "is_dimension_or_excluded_column h")
    case True
    then show ?thesis using Cons by (simp add: core_metric_columns_def)
  next
    case False
    then have cols: "core_metric_columns (h # hs) = h # core_metric_columns hs" by (simp add: core_metric_columns_def)
    have "metric_index (accums us (\<lambda>_ _. [])) h = None"
      by (rule metric_index_none) (use Cons.prems(1) cols in \<open>auto simp: accums_def\<close>)
    then have "find_or_add_metric h (accums us (\<lambda>_ _. [])) = Some (accums (us @ [h]) (\<lambda>_ _. []), length us)"
      using Cons.prems(2,3) by (simp add: find_or_add_metric_def cols accums_def core_sum_def)
    then show ?thesis using Cons.IH [of "us @ [h]"] Cons.prems False cols by simp
  qed
qed

text \<open>Reading a file gives exactly the values of each column on each core.\<close>
lemma read_percore_table:
  assumes "proc_lines 8190 s = first # rows"
    and "header = row_fields first" and "core_col = length (takeWhile (\<lambda>h. h \<noteq> ''core'') header)"
    and "''core'' \<in> set header" and "distinct (core_metric_columns header)"
    and "\<forall>h \<in> set (core_metric_columns header). length h \<le> 63" and "length (core_metric_columns header) \<le> MAX_METRICS"
  shows "\<exists>p. read_percore_csv (Some s) = Inr (p, length (filter (malformed_line header core_col) rows)) \<and>
    pc_metrics p = accums (core_metric_columns header) (column_values header core_col rows) \<and>
    set (seen_cores p) = {c. Some c \<in> core_of_line header core_col ` set rows}"
proof -
  have col: "core_col < length header"
    using assms(3,4) takeWhile_eq_all_conv [of "\<lambda>h. h \<noteq> ''core''" header]
      length_takeWhile_le [of "\<lambda>h. h \<noteq> ''core''" header] takeWhile_eq_take [of "\<lambda>h. h \<noteq> ''core''" header]
    by (metis le_neq_implies_less order_refl take_all)
  have reg: "register_columns header [] = Some (accums (core_metric_columns header) (\<lambda>_ _. []))"
    using register_columns_accums [of "[]" header] assms(5-7) by (simp add: accums_def)
  let ?p = "percore_initial\<lparr>pc_metrics := accums (core_metric_columns header) (\<lambda>_ _. [])\<rparr>"
  have "pc_metrics ?p = accums (core_metric_columns header) (\<lambda>_ _. [])" by simp
  note table = percore_rows_table [OF assms(5) this seen_bounded_initial, of core_col rows 0]
  have unseen: "pc_core_seen ?p c = False" for c by (simp add: percore_initial_def)
  obtain q where q: "percore_rows header core_col rows (?p, 0) = Some (q, length (filter (malformed_line header core_col) rows))"
    "pc_metrics q = accums (core_metric_columns header) (column_values header core_col rows)" "seen_bounded q"
    "\<forall>c. pc_core_seen q c \<longleftrightarrow> Some c \<in> core_of_line header core_col ` set rows"
    using table unfolding unseen by auto
  have "read_percore_csv (Some s) = Inr (q, length (filter (malformed_line header core_col) rows))"
    using assms(1-3) col reg q(1) by (simp add: read_percore_csv_def row_fields_def Let_def)
  then show ?thesis using q seen_cores_set [OF q(3)] by auto
qed

section \<open>Long column names\<close>

definition names_cut :: "metric_accum list \<Rightarrow> bool" where
  "names_cut ms \<longleftrightarrow> (\<forall>m \<in> set ms. length (ma_name m) \<le> 63)"

text \<open>The name of a column longer than 63 bytes is never found again, so every sample of it opens a metric of its own, and
  the one that would be the 129th ends the program.\<close>
lemma long_column_sample:
  assumes "names_cut ms" "63 < length name" "\<not> is_dimension_or_excluded_column name" "cell_values f = [v]"
  shows "read_cell c (name, f) ms =
    (if length ms \<ge> MAX_METRICS then None
     else Some (ms @ [add_sample c v \<lparr>ma_name = take 63 name, ma_sum = (\<lambda>_. Fin 0), ma_count = (\<lambda>_. 0)\<rparr>]))"
proof -
  have "metric_index ms name = None" by (rule metric_index_none) (use assms(1,2) in \<open>auto simp: names_cut_def\<close>)
  then show ?thesis using assms(3,4)
    by (auto simp: read_cell_def find_or_add_metric_def cell_values_def split: option.splits if_splits)
qed

lemma long_column_overflows:
  assumes "names_cut ms" "63 < length name" "\<not> is_dimension_or_excluded_column name" "cell_values f = [v]"
    "length ms \<le> MAX_METRICS"
  shows "case ((\<lambda>s. Option.bind s (read_cell c (name, f))) ^^ k) (Some ms) of
      None \<Rightarrow> length ms + k > MAX_METRICS
    | Some ns \<Rightarrow> names_cut ns \<and> length ns = length ms + k \<and> length ns \<le> MAX_METRICS"
proof (induction k)
  case 0
  show ?case using assms by simp
next
  case (Suc k)
  have "names_cut (ns @ [add_sample c v \<lparr>ma_name = take 63 name, ma_sum = (\<lambda>_. Fin 0), ma_count = (\<lambda>_. 0)\<rparr>])"
    if "names_cut ns" for ns
    using that by (auto simp: names_cut_def add_sample_def)
  then show ?case using Suc long_column_sample [OF _ assms(2-4)] by (auto split: option.splits)
qed

section \<open>Properties\<close>

text \<open>C12: in every line of wspy-core-report, over all cores or those of one class and with or without weights, the hot
  core is the core with the greatest mean value (the first such core), and the cold core the one with the least, as long
  as no mean is NaN.\<close>
theorem hot_core_is_hottest:
  assumes "gather_core_values p m cl want weight = (ids, values, weights)" "ids \<noteq> []"
    "\<forall>c \<in> set ids. \<not> is_nan (core_mean m c)" "st = core_stats_of values weights weight"
  shows "ids ! cs_hot_idx st \<in> set ids \<and> core_mean m (ids ! cs_hot_idx st) = cs_max st \<and>
    (\<forall>c \<in> set ids. dle (core_mean m c) (cs_max st) \<and> (c < ids ! cs_hot_idx st \<longrightarrow> dlt (core_mean m c) (cs_max st))) \<and>
    ids ! cs_cold_idx st \<in> set ids \<and> core_mean m (ids ! cs_cold_idx st) = cs_min st \<and>
    (\<forall>c \<in> set ids. dle (cs_min st) (core_mean m c) \<and> (c < ids ! cs_cold_idx st \<longrightarrow> dlt (cs_min st) (core_mean m c)))"
proof -
  have ids: "ids = gather_core_ids p m cl want weight" and v: "values = map (core_mean m) ids"
    using assms(1) by (auto simp: gather_core_values_def Let_def)
  have sorted: "sorted_wrt (<) ids" by (simp add: ids gather_core_ids_def seen_cores_def sorted_wrt_filter)
  have before: "\<exists>j < i. c = ids ! j" if "c \<in> set ids" "i < length ids" "c < ids ! i" for c i
    using that sorted by (metis in_set_conv_nth less_asym linorder_neqE_nat sorted_wrt_nth_less)
  from core_stats_extremes [of "values" weights weight] have
    "hottest values (cs_max st, cs_hot_idx st)" "coldest values (cs_min st, cs_cold_idx st)"
    using assms(2-4) v by auto
  then have hot: "cs_hot_idx st < length ids" "core_mean m (ids ! cs_hot_idx st) = cs_max st"
      "\<forall>c \<in> set ids. dle (core_mean m c) (cs_max st)" "\<And>j. j < cs_hot_idx st \<Longrightarrow> dlt (core_mean m (ids ! j)) (cs_max st)"
    and cold: "cs_cold_idx st < length ids" "core_mean m (ids ! cs_cold_idx st) = cs_min st"
      "\<forall>c \<in> set ids. dle (cs_min st) (core_mean m c)" "\<And>j. j < cs_cold_idx st \<Longrightarrow> dlt (cs_min st) (core_mean m (ids ! j))"
    by (auto simp: v hottest_def coldest_def)
  have "dlt (core_mean m c) (cs_max st)" if "c \<in> set ids" "c < ids ! cs_hot_idx st" for c
    using before [OF that(1) hot(1) that(2)] hot(4) by blast
  moreover have "dlt (cs_min st) (core_mean m c)" if "c \<in> set ids" "c < ids ! cs_cold_idx st" for c
    using before [OF that(1) cold(1) that(2)] cold(4) by blast
  ultimately show ?thesis using hot(1-3) cold(1-3) by simp
qed

definition core_metric_example :: metric_accum where
  "core_metric_example = \<lparr>ma_name = ''ipc'', ma_sum = (\<lambda>c. if c = 0 then Fin 1 else Fin 3), ma_count = (\<lambda>_. 1)\<rparr>"

definition percore_example :: percore where
  "percore_example = \<lparr>pc_metrics = [core_metric_example], pc_core_seen = (\<lambda>c. c < 2), pc_max_core_seen = 1\<rparr>"

lemma hot_core_is_hottest_witness:
  "\<exists>ids values weights. gather_core_values percore_example core_metric_example (\<lambda>_. None) None None = (ids, values, weights) \<and>
     ids ! cs_hot_idx (core_stats_of values weights None) \<in> set ids"
proof -
  have one: "double_of_int 1 = Fin 1" using double_of_int_exact [of 1] by simp
  have r: "double_round 1 = Fin 1" "double_round 3 = Fin 3" 
    using double_of_int_exact [of 1] double_of_int_exact [of 3] by (simp_all add: double_of_int_def)
  have mean: "core_mean core_metric_example c = Fin (if c = 0 then 1 else 3)" for c
    by (simp add: core_mean_def core_metric_example_def one r)
  have "seen_cores percore_example = [0, 1]" by code_simp
  then have g: "gather_core_values percore_example core_metric_example (\<lambda>_. None) None None = ([0, 1], [Fin 1, Fin 3], [])"
    by (simp add: gather_core_values_def gather_core_ids_def mean Let_def) (simp add: core_metric_example_def)
  have "\<forall>c \<in> set [0, 1]. \<not> is_nan (core_mean core_metric_example c)" by (simp add: mean is_nan_def)
  from hot_core_is_hottest [OF g _ this refl] g show ?thesis by simp
qed

text \<open>C11: a file with a core column and distinct metric columns of at most 63 bytes, no more than 128, is read completely:
  every metric accumulates exactly the finite values of its column in the rows of each core, the cores seen are the ones
  with a usable row, and every other row but the empty ones is counted as skipped.\<close>
theorem percore_file_table:
  assumes "proc_lines 8190 s = first # rows"
    and "header = row_fields first" and "core_col = length (takeWhile (\<lambda>h. h \<noteq> ''core'') header)"
    and "''core'' \<in> set header" and "distinct (core_metric_columns header)"
    and "\<forall>h \<in> set (core_metric_columns header). length h \<le> 63" and "length (core_metric_columns header) \<le> MAX_METRICS"
  shows "\<exists>p. read_percore_csv (Some s) = Inr (p, length (filter (malformed_line header core_col) rows)) \<and>
    (\<forall>name \<in> set (core_metric_columns header). \<exists>m. find_metric (pc_metrics p) name = Some m \<and>
      ma_name m = name \<and> (\<forall>c. ma_sum m c = core_sum (column_values header core_col rows name c) \<and>
        ma_count m c = length (column_values header core_col rows name c))) \<and>
    set (seen_cores p) = {c. Some c \<in> core_of_line header core_col ` set rows}"
proof -
  obtain p where p: "read_percore_csv (Some s) = Inr (p, length (filter (malformed_line header core_col) rows))"
    "pc_metrics p = accums (core_metric_columns header) (column_values header core_col rows)"
    "set (seen_cores p) = {c. Some c \<in> core_of_line header core_col ` set rows}"
    using read_percore_table [OF assms] by blast
  have "\<exists>m. find_metric (pc_metrics p) name = Some m \<and> ma_name m = name \<and>
      (\<forall>c. ma_sum m c = core_sum (column_values header core_col rows name c) \<and>
        ma_count m c = length (column_values header core_col rows name c))"
    if n: "name \<in> set (core_metric_columns header)" for name
  proof -
    obtain i where i: "i < length (core_metric_columns header)" "name = core_metric_columns header ! i"
      using n unfolding in_set_conv_nth by blast
    have "find_metric (pc_metrics p) name =
        Some (accums (core_metric_columns header) (column_values header core_col rows) ! i)"
      unfolding find_metric_def p(2) i(2) metric_index_accums [OF assms(5) i(1)] by simp
    then show ?thesis using i(1) unfolding i(2) accums_def by simp
  qed
  with p show ?thesis by blast
qed

definition percore_file_example :: string where
  "percore_file_example =
     ''core,ipc,'' @ newline @ ''0,1.5,'' @ newline @ ''1,2,'' @ newline @ ''x,3,'' @ newline @ ''0,0.5,'' @ newline"

lemma percore_file_table_witness:
  "\<exists>p. read_percore_csv (Some percore_file_example) = Inr (p, 1)"
proof -
  have lines: "proc_lines 8190 percore_file_example =
      (''core,ipc,'' @ newline) # [''0,1.5,'' @ newline, ''1,2,'' @ newline, ''x,3,'' @ newline, ''0,0.5,'' @ newline]"
    using proc_lines_line [of "''core,ipc,''" 8190] proc_lines_line [of "''0,1.5,''" 8190]
      proc_lines_line [of "''1,2,''" 8190] proc_lines_line [of "''x,3,''" 8190]
      proc_lines_line [of "''0,0.5,''" 8190 "[]"]
    by (simp add: percore_file_example_def LF_def NUL_def)
  have h: "row_fields (''core,ipc,'' @ newline) = [''core'', ''ipc'', '''']" by code_simp
  have m: "core_metric_columns [''core'', ''ipc'', ''''] = [''ipc'']" by code_simp
  have k: "length (filter (malformed_line [''core'', ''ipc'', ''''] 0)
      [''0,1.5,'' @ newline, ''1,2,'' @ newline, ''x,3,'' @ newline, ''0,0.5,'' @ newline]) = 1"
    by code_simp
  from percore_file_table [OF lines h [symmetric] refl] k show ?thesis by (auto simp: m MAX_METRICS_def)
qed

end
