(* ===== verification/Plot.thy ===== *)
theory Plot
  imports Validate System_Stats
begin

text \<open>
  src/plot.c (wspy-plot). The first half decides which plots are drawn of a CSV file, from its header alone: the plots
  asked for with \<open>--plot\<close> come first, then the built-in templates, then what is left of the columns. The second half is
  the gnuplot script of a plot, the plots of one file and of a run directory, the catalog of templates and the exit
  status. The files, the entries of the directory (in the order \<open>scandir\<close> sorts them) and whether gnuplot accepts a
  script are parameters; messages on the error stream and the usage text are left out.
\<close>

section \<open>Templates\<close>

definition PLOT_CSV_FIELDS :: nat where "PLOT_CSV_FIELDS = 128"

record plot_template =
  pt_name :: string
  pt_title :: string
  pt_ylabel :: string
  pt_metrics :: "string list"
  pt_min_match :: nat
  pt_style :: string
  pt_y2_metrics :: "string list"
  pt_y2label :: string
  pt_y2min_match :: nat

definition one_axis :: "string \<Rightarrow> string \<Rightarrow> string \<Rightarrow> string list \<Rightarrow> nat \<Rightarrow> string \<Rightarrow> plot_template" where
  "one_axis name title ylabel metrics min_match style =
     \<lparr>pt_name = name, pt_title = title, pt_ylabel = ylabel, pt_metrics = metrics, pt_min_match = min_match,
      pt_style = style, pt_y2_metrics = [], pt_y2label = [], pt_y2min_match = 0\<rparr>"

definition two_axes ::
  "string \<Rightarrow> string \<Rightarrow> string \<Rightarrow> string list \<Rightarrow> nat \<Rightarrow> string \<Rightarrow> string list \<Rightarrow> string \<Rightarrow> nat \<Rightarrow> plot_template" where
  "two_axes name title ylabel metrics min_match style y2_metrics y2label y2min_match =
     (one_axis name title ylabel metrics min_match style)
       \<lparr>pt_y2_metrics := y2_metrics, pt_y2label := y2label, pt_y2min_match := y2min_match\<rparr>"

definition plot_templates :: "plot_template list" where
  "plot_templates =
     [one_axis ''topdown'' ''Topdown Breakdown'' ''% of pipeline slots''
        [''retire'', ''frontend'', ''backend'', ''speculate''] 2 ''points'',
      one_axis ''topdown-detail'' ''Topdown L1->L2 Detail'' ''% of pipeline slots''
        [''contention_pct'', ''retire_ucode_pct'', ''retire_fastpath_pct'', ''frontend_latency_pct'',
         ''frontend_bandwidth_pct'', ''backend_cpu_pct'', ''backend_memory_pct'', ''spec_branch_pct'',
         ''spec_pipeline_pct''] 4 ''points'',
      one_axis ''memory-bound'' ''Memory Boundedness'' ''% of cycles''
        [''l1_bound'', ''l2_bound'', ''l3_bound'', ''dram_bound'', ''store_bound''] 2 ''points'',
      one_axis ''memory-bound-detail'' ''Memory Boundedness (L1->L2->L3 Detail)'' ''% of pipeline slots''
        [''l1_bound_slots_pct'', ''l2_bound_slots_pct'', ''l3_bound_slots_pct'', ''dram_bound_slots_pct'',
         ''store_bound_slots_pct''] 3 ''points'',
      one_axis ''cache-miss'' ''Cache Miss Rates'' ''miss rate (%)''
        [''L1-dcache miss'', ''L1-icache miss'', ''iTLB miss'', ''dTLB miss'', ''opcache miss''] 1 ''points'',
      one_axis ''system-cpu'' ''System CPU Time'' ''% of interval'' [''cpu'', ''idle'', ''iowait'', ''irq''] 2 ''lines'',
      one_axis ''memory-pressure'' ''Host Memory Pressure'' ''MB''
        [''mem_free_mb'', ''mem_cached_mb'', ''mem_dirty_mb'', ''mem_writeback_mb'', ''swap_free_mb'', ''committed_as_mb'']
        2 ''lines'',
      one_axis ''ipc'' ''Instructions per Cycle'' ''IPC'' [''ipc''] 1 ''points'',
      one_axis ''branch-miss'' ''Branch Miss Rate'' ''miss rate (%)'' [''branch miss''] 1 ''points'',
      one_axis ''float'' ''Float Instruction Mix'' ''% of instructions'' [''float''] 1 ''points'',
      one_axis ''ibs'' ''AMD IBS Sample Counts'' ''samples per interval''
        [''ibs_fetch'', ''ibs_op'', ''ibs_op_unfiltered''] 1 ''points'',
      one_axis ''ibs-accepted-ratio'' ''IBS Op Accepted Ratio (filtered/unfiltered)'' ''ratio''
        [''ibs_op_accepted_ratio''] 1 ''points'',
      one_axis ''gpu-utilization'' ''GPU Utilization'' ''% busy'' [''gpu_busy'', ''gpu_activity'', ''nv_gpu_busy''] 1 ''lines'',
      one_axis ''gpu-vram'' ''GPU VRAM Usage'' ''MB''
        [''nv_vram_used_mb'', ''nv_vram_total_mb'', ''gpu_smi_vram_used'', ''gpu_smi_vram_total''] 1 ''lines'',
      two_axes ''power-vs-utilization'' ''Package Power vs. CPU/GPU Utilization'' ''Watts'' [''pkg_watts''] 1 ''lines''
        [''cpu'', ''gpu_busy''] ''% busy'' 1,
      two_axes ''power-vs-frequency'' ''Package Power vs. CPU Frequency'' ''Watts'' [''pkg_watts''] 1 ''lines''
        [''freq''] ''MHz'' 1,
      two_axes ''power-vs-ipc'' ''Package Power vs. IPC'' ''Watts'' [''pkg_watts''] 1 ''lines'' [''ipc''] ''IPC'' 1,
      two_axes ''power-vs-topdown'' ''Package Power vs. Topdown Breakdown'' ''Watts'' [''pkg_watts''] 1 ''lines''
        [''retire'', ''frontend'', ''backend'', ''speculate''] ''% of pipeline slots'' 2,
      two_axes ''temp-vs-frequency'' ''CPU Temperature vs. Frequency'' ''deg C'' [''cpu_temp''] 1 ''lines''
        [''freq''] ''MHz'' 1,
      two_axes ''temp-vs-power'' ''CPU Temperature vs. Package Power'' ''deg C'' [''cpu_temp''] 1 ''lines''
        [''pkg_watts''] ''Watts'' 1,
      two_axes ''temp-vs-utilization'' ''CPU Temperature vs. Utilization'' ''deg C'' [''cpu_temp''] 1 ''lines''
        [''cpu'', ''gpu_busy''] ''% busy'' 1,
      two_axes ''gpu-thermal'' ''GPU Temperature vs. Frequency'' ''deg C'' [''gpu_temp''] 1 ''lines''
        [''gpu_freq''] ''MHz'' 1]"

section \<open>Matches\<close>

text \<open>A plot of some columns: each with the axis it is on (the second one or not).\<close>

record plot_match =
  pm_name :: string
  pm_title :: string
  pm_ylabel :: string
  pm_style :: string
  pm_time_col :: nat
  pm_cols :: "(nat \<times> bool) list"
  pm_y2label :: string

text \<open>The matches so far and which columns are claimed.\<close>

type_synonym plot_state = "plot_match list \<times> (nat \<Rightarrow> bool)"

definition find_col :: "string list \<Rightarrow> string \<Rightarrow> nat option" where
  "find_col header name =
     (let i = length (takeWhile (\<lambda>h. h \<noteq> name) header) in if i < length header then Some i else None)"

definition cols_present :: "string list \<Rightarrow> string list \<Rightarrow> nat list" where
  "cols_present header names = List.map_filter (find_col header) names"

definition claim :: "nat list \<Rightarrow> (nat \<Rightarrow> bool) \<Rightarrow> nat \<Rightarrow> bool" where
  "claim cols claimed i \<longleftrightarrow> claimed i \<or> i \<in> set cols"

definition match_template :: "string list \<Rightarrow> nat \<Rightarrow> nat \<Rightarrow> plot_template \<Rightarrow> plot_state \<Rightarrow> plot_state" where
  "match_template header time_col max_matches t s =
     (let (ms, claimed) = s; found = cols_present header (pt_metrics t);
          y2found = (if pt_y2min_match t > 0 then cols_present header (pt_y2_metrics t) else [])
      in if length ms \<ge> max_matches \<or> length found < pt_min_match t \<or> length y2found < pt_y2min_match t then s
         else
           (ms @ [\<lparr>pm_name = take 63 (pt_name t), pm_title = take 127 (pt_title t), pm_ylabel = take 63 (pt_ylabel t),
                   pm_style = pt_style t, pm_time_col = time_col,
                   pm_cols = map (\<lambda>c. (c, False)) found @ map (\<lambda>c. (c, True)) y2found,
                   pm_y2label = (if y2found = [] then [] else take 63 (pt_y2label t))\<rparr>],
            claim (found @ y2found) claimed))"

definition match_templates :: "string list \<Rightarrow> nat \<Rightarrow> nat \<Rightarrow> plot_state \<Rightarrow> plot_state" where
  "match_templates header time_col max_matches = fold (match_template header time_col max_matches) plot_templates"

definition is_excluded_metric_column :: "string \<Rightarrow> bool" where
  "is_excluded_metric_column name \<longleftrightarrow>
     name \<in> {''counters_measured'', ''counters_requested'', ''ibs_l3missonly'', ''ibs_ldlat_threshold'',
             ''ibs_fetchlat_threshold''}"

section \<open>What no template claims\<close>

text \<open>A plot of columns, all on the first axis; with no column, or no room, there is none.\<close>

definition add_plain_match ::
  "string \<Rightarrow> string \<Rightarrow> string \<Rightarrow> nat \<Rightarrow> nat \<Rightarrow> nat list \<Rightarrow> plot_state \<Rightarrow> plot_state" where
  "add_plain_match name title ylabel time_col max_matches cols s =
     (let (ms, claimed) = s; kept = take PLOT_CSV_FIELDS cols
      in if length ms \<ge> max_matches \<or> kept = [] then s
         else
           (ms @ [\<lparr>pm_name = name, pm_title = title, pm_ylabel = ylabel, pm_style = ''lines'', pm_time_col = time_col,
                   pm_cols = map (\<lambda>c. (c, False)) kept, pm_y2label = []\<rparr>],
            claim kept claimed))"

definition unclaimed :: "string list \<Rightarrow> (nat \<Rightarrow> bool) \<Rightarrow> (string \<Rightarrow> bool) \<Rightarrow> nat list" where
  "unclaimed header claimed P =
     filter (\<lambda>i. \<not> claimed i \<and> header ! i \<noteq> [] \<and> P (header ! i)) [0..<length header]"

definition add_network_fallback_match :: "string list \<Rightarrow> nat \<Rightarrow> nat \<Rightarrow> plot_state \<Rightarrow> plot_state" where
  "add_network_fallback_match header time_col max_matches s =
     add_plain_match ''network-io'' ''Network I/O'' ''bytes'' time_col max_matches
       (unclaimed header (snd s) (starts_with ''net '')) s"

definition disk_time_column :: "string \<Rightarrow> bool" where
  "disk_time_column name \<longleftrightarrow> ends_with '' time'' name"

definition add_disk_fallback_match :: "string list \<Rightarrow> nat \<Rightarrow> nat \<Rightarrow> plot_state \<Rightarrow> plot_state" where
  "add_disk_fallback_match header time_col max_matches s =
     (let s1 = add_plain_match ''disk-io'' ''Disk I/O'' ''bytes'' time_col max_matches
            (unclaimed header (snd s) (\<lambda>h. starts_with ''disk '' h \<and> \<not> disk_time_column h)) s
      in add_plain_match ''disk-time'' ''Disk Time-in-I/O'' ''ms'' time_col max_matches
           (unclaimed header (snd s1) (\<lambda>h. starts_with ''disk '' h \<and> disk_time_column h)) s1)"

text \<open>The generic plot does not mark its columns, but it is the last one.\<close>

definition add_fallback_match ::
  "string list \<Rightarrow> nat \<Rightarrow> nat option \<Rightarrow> nat option \<Rightarrow> nat \<Rightarrow> plot_state \<Rightarrow> plot_match list" where
  "add_fallback_match header time_col core_col phase_col max_matches s =
     fst (add_plain_match ''metrics'' ''Other Metrics'' ''value'' time_col max_matches
       (filter (\<lambda>i. i \<noteq> time_col \<and> core_col \<noteq> Some i \<and> phase_col \<noteq> Some i)
          (unclaimed header (snd s) (\<lambda>h. \<not> is_excluded_metric_column h))) s)"

section \<open>Plots of the user\<close>

definition MAX_CUSTOM_PLOTS :: nat where "MAX_CUSTOM_PLOTS = 32"

definition MAX_CUSTOM_COLUMNS :: nat where "MAX_CUSTOM_COLUMNS = 16"

record custom_plot_spec =
  cp_name :: string
  cp_columns :: "string list"
  cp_y2columns :: "string list"

definition custom_columns :: "string \<Rightarrow> string list" where
  "custom_columns s = take MAX_CUSTOM_COLUMNS (map (take 127) (tokens (\<lambda>c. c = CHR '','') s))"

text \<open>\<open>NAME=col,...;col,...\<close>: the name is cut to 63 bytes, what follows to 1023.\<close>

definition parse_custom_plot_spec :: "string \<Rightarrow> custom_plot_spec option" where
  "parse_custom_plot_spec arg =
     (case split_at (CHR ''='') arg of
        None \<Rightarrow> None
      | Some (name, rest) \<Rightarrow>
          if name = [] then None
          else
            (let cols_buf = take 1023 rest;
                 (primary, secondary) = (case split_at (CHR '';'') cols_buf of None \<Rightarrow> (cols_buf, []) | Some ps \<Rightarrow> ps);
                 spec = \<lparr>cp_name = take 63 name, cp_columns = custom_columns primary,
                         cp_y2columns = custom_columns secondary\<rparr>
             in if cp_columns spec = [] \<and> cp_y2columns spec = [] then None else Some spec))"

definition add_custom_plot_match :: "string list \<Rightarrow> nat \<Rightarrow> nat \<Rightarrow> custom_plot_spec \<Rightarrow> plot_state \<Rightarrow> plot_state" where
  "add_custom_plot_match header time_col max_matches spec s =
     (let (ms, claimed) = s; found = cols_present header (cp_columns spec);
          y2found = cols_present header (cp_y2columns spec)
      in if length ms \<ge> max_matches \<or> found @ y2found = [] then s
         else
           (ms @ [\<lparr>pm_name = cp_name spec, pm_title = cp_name spec, pm_ylabel = ''value'', pm_style = ''lines'',
                   pm_time_col = time_col, pm_cols = map (\<lambda>c. (c, False)) found @ map (\<lambda>c. (c, True)) y2found,
                   pm_y2label = (if y2found = [] then [] else ''value (secondary)'')\<rparr>],
            claim (found @ y2found) claimed))"

section \<open>All plots of a header\<close>

definition build_plot_matches ::
  "string list \<Rightarrow> nat \<Rightarrow> custom_plot_spec list \<Rightarrow> bool \<Rightarrow> nat \<Rightarrow> plot_match list" where
  "build_plot_matches header time_col custom_plots only_custom max_matches =
     (let s = fold (add_custom_plot_match header time_col max_matches) custom_plots ([], \<lambda>_. False)
      in if only_custom then fst s
         else
           add_fallback_match header time_col (find_col header ''core'') (find_col header ''phase'') max_matches
             (add_disk_fallback_match header time_col max_matches
               (add_network_fallback_match header time_col max_matches
                 (match_templates header time_col max_matches s))))"

section \<open>Colors\<close>

definition metric_colors :: "(string \<times> string) list" where
  "metric_colors =
     [(''retire'', ''#d62728''), (''frontend'', ''#1f77b4''), (''backend'', ''#2ca02c''), (''speculate'', ''#9467bd''),
      (''ipc'', ''#1f77b4''), (''cpu'', ''#1f77b4''), (''idle'', ''#7f7f7f''), (''iowait'', ''#ff7f0e''),
      (''irq'', ''#9467bd''), (''freq'', ''#2ca02c''), (''cpu_temp'', ''#d62728''), (''pkg_watts'', ''#ff7f0e''),
      (''pkg_joules'', ''#bcbd22''), (''gpu_busy'', ''#2ca02c''), (''gpu_activity'', ''#17becf''),
      (''nv_gpu_busy'', ''#1f77b4''), (''gpu_temp'', ''#d62728''), (''gpu_power'', ''#ff7f0e''),
      (''gpu_freq'', ''#2ca02c''), (''nv_vram_used_mb'', ''#1f77b4''), (''nv_vram_total_mb'', ''#7f7f7f''),
      (''gpu_smi_vram_used'', ''#1f77b4''), (''gpu_smi_vram_total'', ''#7f7f7f'')]"

definition fallback_palette :: "string list" where
  "fallback_palette =
     [''#1f77b4'', ''#ff7f0e'', ''#2ca02c'', ''#d62728'', ''#9467bd'', ''#8c564b'', ''#e377c2'', ''#7f7f7f'', ''#bcbd22'',
      ''#17becf'']"

definition fnv1a :: "string \<Rightarrow> u32" where
  "fnv1a name = fold (\<lambda>c hash. xor hash (word_of_nat (char_code c)) * 16777619) name 2166136261"

definition metric_line_color :: "string \<Rightarrow> string" where
  "metric_line_color name =
     (case map_of metric_colors name of
        Some rgb \<Rightarrow> rgb
      | None \<Rightarrow> fallback_palette ! (unat (fnv1a name) mod length fallback_palette))"

section \<open>The script of a plot\<close>

definition plot_clause :: "string \<Rightarrow> string list \<Rightarrow> plot_match \<Rightarrow> nat \<times> bool \<Rightarrow> string" where
  "plot_clause csv_path header pm c =
     [CHR 0x27] @ csv_path @ [CHR 0x27] @ '' using '' @ dec (pm_time_col pm + 1) @ '':'' @ dec (fst c + 1) @
     '' with '' @ pm_style pm @ '' linecolor rgb '' @ [CHR 0x27] @ metric_line_color (header ! fst c) @ [CHR 0x27] @
     (if pm_y2label pm \<noteq> [] \<and> snd c then '' axes x1y2'' else [])"

definition quoted_line :: "string \<Rightarrow> string \<Rightarrow> string" where
  "quoted_line cmd s = cmd @ '' '' @ [CHR 0x27] @ s @ [CHR 0x27] @ newline"

definition plot_script :: "string \<Rightarrow> plot_match \<Rightarrow> string \<Rightarrow> string list \<Rightarrow> string" where
  "plot_script csv_path pm out_png header =
     ''set terminal png size 1280,960 noenhanced'' @ newline @
     quoted_line ''set output'' out_png @ quoted_line ''set title'' (pm_title pm) @
     quoted_line ''set datafile separator'' '','' @ ''set key autotitle columnhead'' @ newline @
     quoted_line ''set xlabel'' ''time (s)'' @ quoted_line ''set ylabel'' (pm_ylabel pm) @
     (if pm_y2label pm \<noteq> [] then
        ''set ytics nomirror'' @ newline @ ''set y2tics'' @ newline @ quoted_line ''set y2label'' (pm_y2label pm)
      else []) @
     ''plot '' @ join_text '', '' (map (plot_clause csv_path header pm) (pm_cols pm)) @ newline"

section \<open>One file\<close>

definition basename_without_ext :: "string \<Rightarrow> string" where
  "basename_without_ext path =
     (let base = rev (takeWhile (\<lambda>c. c \<noteq> CHR ''/'') (rev path))
      in take 255 (if CHR ''.'' \<in> set base then rev (tl (dropWhile (\<lambda>c. c \<noteq> CHR ''.'') (rev base))) else base))"

text \<open>What is there outside the program: files, and gnuplot, true if it exits with 0 on a script. A failed plot leaves no
  file.\<close>

record plot_world =
  pw_files :: "string \<Rightarrow> string option"
  pw_dir :: "string \<Rightarrow> string list option"
  pw_mkdir :: "string \<Rightarrow> bool"
  pw_gnuplot :: "string \<Rightarrow> bool"

text \<open>What was done: the pictures written, the text printed, and whether a plot failed.\<close>

record plot_done =
  pd_pngs :: "string list"
  pd_text :: string
  pd_any_failed :: bool

definition plot_path :: "string \<Rightarrow> string \<Rightarrow> plot_match \<Rightarrow> string" where
  "plot_path out_dir csv_path pm =
     take 4095 (out_dir @ ''/'' @ basename_without_ext csv_path @ ''.'' @ pm_name pm @ ''.png'')"

definition draw_match ::
  "plot_world \<Rightarrow> string \<Rightarrow> string \<Rightarrow> bool \<Rightarrow> string list \<Rightarrow> plot_match \<Rightarrow> plot_done \<times> int \<Rightarrow> plot_done \<times> int" where
  "draw_match w csv_path out_dir quiet header pm s =
     (let (d, rendered) = s; out_png = plot_path out_dir csv_path pm
      in if \<not> pw_gnuplot w (plot_script csv_path pm out_png header) then (d\<lparr>pd_any_failed := True\<rparr>, rendered)
         else
           (d\<lparr>pd_pngs := pd_pngs d @ [out_png],
              pd_text := pd_text d @ (if quiet then []
                else ''wspy-plot: '' @ csv_path @ '' -> '' @ out_png @ '' ('' @ pm_title pm @ '')'' @ newline)\<rparr>,
            rendered + 1))"

definition header_of_file :: "string \<Rightarrow> string list" where
  "header_of_file contents =
     split_csv_line (takeWhile (\<lambda>c. c \<noteq> CR \<and> c \<noteq> LF) (cstr (fst (fgets 8191 contents)))) PLOT_CSV_FIELDS"

definition process_csv ::
  "plot_world \<Rightarrow> string \<Rightarrow> bool \<Rightarrow> custom_plot_spec list \<Rightarrow> bool \<Rightarrow> string \<Rightarrow> plot_done \<Rightarrow> plot_done \<times> int" where
  "process_csv w out_dir quiet custom_plots only_custom csv_path d =
     (case pw_files w csv_path of
        None \<Rightarrow> (d, -1)
      | Some contents \<Rightarrow>
          if contents = [] then (d, 0)
          else
            (let header = header_of_file contents in
             case find_col header ''time'' of
               None \<Rightarrow> (d, 0)
             | Some time_col \<Rightarrow>
                 fold (draw_match w csv_path out_dir quiet header)
                   (build_plot_matches header time_col custom_plots only_custom PLOT_CSV_FIELDS) (d, 0)))"

section \<open>The catalog\<close>

definition is_csv_name :: "string \<Rightarrow> bool" where
  "is_csv_name name \<longleftrightarrow> length name > 4 \<and> ends_with ''.csv'' name"

definition template_line :: "plot_template \<Rightarrow> string" where
  "template_line t =
     ''  '' @ pad_right 22 (pt_name t) @ '' '' @ pad_right 40 (pt_title t) @ '' (needs '' @ dec (pt_min_match t) @ '' of: '' @
     join_text '', '' (pt_metrics t) @ '')'' @
     (if pt_y2min_match t > 0 then
        '' + '' @ dec (pt_y2min_match t) @ '' of secondary axis: '' @ join_text '', '' (pt_y2_metrics t)
      else []) @ newline"

definition fallback_line :: "string \<Rightarrow> string \<Rightarrow> string \<Rightarrow> string" where
  "fallback_line name title what = ''  '' @ pad_right 14 name @ '' '' @ pad_right 28 title @ '' '' @ what @ newline"

definition print_template_catalog :: string where
  "print_template_catalog =
     ''Built-in plot templates:'' @ newline @ concat (map template_line plot_templates) @
     fallback_line ''network-io'' ''Network I/O (fallback)''
       (''(any '' @ [CHR 0x22] @ ''net <iface>'' @ [CHR 0x22] @ '' column, e.g. --system'' @ [CHR 0x27] @
        ''s per-interface byte counters)'') @
     fallback_line ''disk-io'' ''Disk I/O (fallback)''
       (''(any '' @ [CHR 0x22] @ ''disk <dev> read'' @ [CHR 0x22] @ ''/'' @ [CHR 0x22] @ ''disk <dev> write'' @ [CHR 0x22] @
        '' column, --system'' @ [CHR 0x27] @ ''s per-device byte counters)'') @
     fallback_line ''disk-time'' ''Disk Time-in-I/O (fallback)''
       (''(any '' @ [CHR 0x22] @ ''disk <dev> time'' @ [CHR 0x22] @ '' column, --system'' @ [CHR 0x27] @
        ''s per-device time-in-I/O counters)'') @
     fallback_line ''metrics'' ''Other Metrics (fallback)'' ''(any metric column left unclaimed by the above)''"

section \<open>The command\<close>

text \<open>An option as \<open>getopt_long\<close> delivers it.\<close>

datatype plot_option =
  Opt_rundir string | Opt_csv string | Opt_out_dir string | Opt_plot string | Opt_only_custom | Opt_list_templates
| Opt_quiet | Opt_help | Opt_unknown

record plot_args =
  pa_rundir :: "string option"
  pa_csv_paths :: "string list"
  pa_out_dir :: "string option"
  pa_custom_plots :: "custom_plot_spec list"
  pa_only_custom :: bool
  pa_quiet :: bool

definition plot_args_initial :: plot_args where
  "plot_args_initial =
     \<lparr>pa_rundir = None, pa_csv_paths = [], pa_out_dir = None, pa_custom_plots = [], pa_only_custom = False,
      pa_quiet = False\<rparr>"

text \<open>The options, or an exit status with what was printed.\<close>

fun plot_options :: "plot_option list \<Rightarrow> plot_args \<Rightarrow> (nat \<times> string) + plot_args" where
  "plot_options [] a = Inr a"
| "plot_options (Opt_rundir r # os) a = plot_options os (a\<lparr>pa_rundir := Some r\<rparr>)"
| "plot_options (Opt_csv c # os) a =
     (if length (pa_csv_paths a) \<ge> 64 then Inl (2, []) else plot_options os (a\<lparr>pa_csv_paths := pa_csv_paths a @ [c]\<rparr>))"
| "plot_options (Opt_out_dir d # os) a = plot_options os (a\<lparr>pa_out_dir := Some d\<rparr>)"
| "plot_options (Opt_plot p # os) a =
     (if length (pa_custom_plots a) \<ge> MAX_CUSTOM_PLOTS then Inl (2, [])
      else
        (case parse_custom_plot_spec p of
           None \<Rightarrow> Inl (2, [])
         | Some spec \<Rightarrow> plot_options os (a\<lparr>pa_custom_plots := pa_custom_plots a @ [spec]\<rparr>)))"
| "plot_options (Opt_only_custom # os) a = plot_options os (a\<lparr>pa_only_custom := True\<rparr>)"
| "plot_options (Opt_list_templates # os) a = Inl (0, print_template_catalog)"
| "plot_options (Opt_quiet # os) a = plot_options os (a\<lparr>pa_quiet := True\<rparr>)"
| "plot_options (Opt_help # os) a = Inl (0, [])"
| "plot_options (Opt_unknown # os) a = Inl (2, [])"

definition plot_out_dir :: "plot_args \<Rightarrow> string" where
  "plot_out_dir a =
     (case pa_out_dir a of
        Some d \<Rightarrow> d
      | None \<Rightarrow> (case pa_rundir a of Some r \<Rightarrow> take 4095 (r @ ''/plots'') | None \<Rightarrow> ''.''))"

text \<open>The files in order; the state is what was done, the plots and the files with plots.\<close>

fun process_files ::
  "plot_world \<Rightarrow> plot_args \<Rightarrow> string list \<Rightarrow> plot_done \<times> int \<times> int \<Rightarrow> plot_done \<times> int \<times> int" where
  "process_files w a [] s = s"
| "process_files w a (f # fs) (d, total_rendered, total_csvs) =
     (let (d1, r) = process_csv w (plot_out_dir a) (pa_quiet a) (pa_custom_plots a) (pa_only_custom a) f d
      in process_files w a fs (if r > 0 then (d1, total_rendered + r, total_csvs + 1) else (d1, total_rendered, total_csvs)))"

definition plot_main :: "plot_world \<Rightarrow> plot_option list \<Rightarrow> nat \<times> string \<times> string list" where
  "plot_main w options =
     (case plot_options options plot_args_initial of
        Inl (status, out) \<Rightarrow> (status, out, [])
      | Inr a \<Rightarrow>
          if pa_rundir a = None \<and> pa_csv_paths a = [] then (2, [], [])
          else if pa_only_custom a \<and> pa_custom_plots a = [] then (2, [], [])
          else if \<not> pw_mkdir w (plot_out_dir a) then (2, [], [])
          else
            (case (case pa_rundir a of
                     None \<Rightarrow> Some []
                   | Some r \<Rightarrow> map_option (\<lambda>ns. map (\<lambda>n. take 4095 (r @ ''/'' @ n)) (filter is_csv_name ns)) (pw_dir w r)) of
               None \<Rightarrow> (2, [], [])
             | Some found \<Rightarrow>
                 (let (d, total_rendered, total_csvs) =
                        process_files w a (found @ pa_csv_paths a)
                          (\<lparr>pd_pngs = [], pd_text = [], pd_any_failed = False\<rparr>, 0, 0)
                  in (if pd_any_failed d then 1 else 0,
                      pd_text d @ (if pa_quiet a then []
                        else ''wspy-plot: '' @ dec_int total_rendered @ '' plot(s) generated from '' @ dec_int total_csvs @
                          '' CSV file(s)'' @ newline),
                      pd_pngs d))))"

section \<open>Every plot is of columns of the header\<close>
lemma find_col_Some: "find_col header name = Some i \<Longrightarrow> i < length header \<and> header ! i = name"
proof -
  assume "find_col header name = Some i"
  then have i: "i = length (takeWhile (\<lambda>h. h \<noteq> name) header)" "i < length header"
    by (auto simp: find_col_def Let_def split: if_splits)
  then show ?thesis using nth_length_takeWhile [of "\<lambda>h. h \<noteq> name" header] by simp
qed

lemma cols_present_set: "set (cols_present header names) = {i. \<exists>name \<in> set names. find_col header name = Some i}"
  by (force simp: cols_present_def List.map_filter_def)

text \<open>A plot is drawn against the time, has columns, each of the header and with a name that \<open>Q\<close> allows, and the second
  axis is only used if it has a label.\<close>

definition good_match :: "(string \<Rightarrow> bool) \<Rightarrow> string list \<Rightarrow> nat \<Rightarrow> plot_match \<Rightarrow> bool" where
  "good_match Q header time_col pm \<longleftrightarrow>
     pm_time_col pm = time_col \<and> pm_cols pm \<noteq> [] \<and>
     (\<forall>c \<in> set (pm_cols pm). fst c < length header \<and> Q (header ! fst c) \<and> (snd c \<longrightarrow> pm_y2label pm \<noteq> []))"

definition plotted :: "plot_match list \<Rightarrow> nat set" where
  "plotted ms = (\<Union>pm \<in> set ms. fst ` set (pm_cols pm))"

text \<open>The plots are good, at most \<open>n\<close>, and exactly their columns are claimed.\<close>

definition plots_ok :: "(string \<Rightarrow> bool) \<Rightarrow> string list \<Rightarrow> nat \<Rightarrow> nat \<Rightarrow> plot_state \<Rightarrow> bool" where
  "plots_ok Q header time_col n s \<longleftrightarrow>
     length (fst s) \<le> n \<and> (\<forall>pm \<in> set (fst s). good_match Q header time_col pm) \<and> (\<forall>i. snd s i \<longleftrightarrow> i \<in> plotted (fst s))"

lemma plotted_append [simp]: "plotted (ms @ [pm]) = plotted ms \<union> fst ` set (pm_cols pm)"
  by (auto simp: plotted_def)

lemma plots_ok_initial: "plots_ok Q header time_col 0 ([], \<lambda>_. False)"
  by (simp add: plots_ok_def plotted_def)

lemma plots_ok_mono: "plots_ok Q header time_col n s \<Longrightarrow> n \<le> m \<Longrightarrow> plots_ok Q header time_col m s"
  by (simp add: plots_ok_def)

lemma plots_ok_add:
  assumes "plots_ok Q header time_col n (ms, claimed)" "good_match Q header time_col pm" "set cols = fst ` set (pm_cols pm)"
  shows "plots_ok Q header time_col (n + 1) (ms @ [pm], claim cols claimed)"
  using assms by (simp add: plots_ok_def claim_def)

lemma plots_ok_fold:
  assumes "\<And>x n s. x \<in> set xs \<Longrightarrow> plots_ok Q header time_col n s \<Longrightarrow> plots_ok Q header time_col (n + 1) (f x s)"
    "plots_ok Q header time_col n s"
  shows "plots_ok Q header time_col (n + length xs) (fold f xs s)"
  using assms
proof (induction xs arbitrary: n s)
  case (Cons x xs)
  then show ?case using Cons.IH [of "n + 1" "f x s"] by simp
qed simp

lemma two_axis_cols:
  "fst ` set (map (\<lambda>c. (c, False)) xs @ map (\<lambda>c. (c, True)) ys) = set (xs @ ys)"
  "c \<in> set (map (\<lambda>c. (c, False)) xs @ map (\<lambda>c. (c, True)) ys) \<longleftrightarrow> (if snd c then fst c \<in> set ys else fst c \<in> set xs)"
  by (force, cases c, auto)

text \<open>What is needed of a template.\<close>

definition template_ok :: "(string \<Rightarrow> bool) \<Rightarrow> plot_template \<Rightarrow> bool" where
  "template_ok Q t \<longleftrightarrow>
     0 < pt_min_match t \<and> list_all Q (pt_metrics t) \<and> list_all Q (pt_y2_metrics t) \<and> (pt_y2label t = [] \<longrightarrow> pt_y2_metrics t = [])"

lemma match_template_ok:
  assumes "template_ok Q t" "plots_ok Q header time_col n s"
  shows "plots_ok Q header time_col (n + 1) (match_template header time_col max_matches t s)"
proof -
  obtain ms claimed where s: "s = (ms, claimed)" by fastforce
  define found where "found = cols_present header (pt_metrics t)"
  define y2found where "y2found = (if pt_y2min_match t > 0 then cols_present header (pt_y2_metrics t) else [])"
  have present: "\<forall>i \<in> set (found @ y2found). i < length header \<and> Q (header ! i)" "y2found \<noteq> [] \<longrightarrow> pt_y2label t \<noteq> []"
    using assms(1) find_col_Some by (fastforce simp: found_def y2found_def cols_present_set template_ok_def list_all_iff,
      auto simp: y2found_def template_ok_def cols_present_def List.map_filter_def split: if_splits)
  show ?thesis
  proof (cases "length ms \<ge> max_matches \<or> length found < pt_min_match t \<or> length y2found < pt_y2min_match t")
    case True
    then show ?thesis using plots_ok_mono [OF assms(2), of "n + 1"]
      by (simp add: match_template_def s Let_def found_def [symmetric] y2found_def [symmetric])
  next
    case False
    then have "found \<noteq> []" using assms(1) by (auto simp: template_ok_def)
    with False present show ?thesis
      unfolding match_template_def s Let_def found_def [symmetric] y2found_def [symmetric] prod.case
      by (simp only: if_False, intro plots_ok_add assms(2) [unfolded s])
        (auto simp: good_match_def two_axis_cols take_eq_Nil image_Un image_image)
  qed
qed

lemma add_custom_ok:
  assumes "list_all Q (cp_columns spec @ cp_y2columns spec)" "plots_ok Q header time_col n s"
  shows "plots_ok Q header time_col (n + 1) (add_custom_plot_match header time_col max_matches spec s)"
proof -
  obtain ms claimed where s: "s = (ms, claimed)" by fastforce
  define found y2found where cols: "found = cols_present header (cp_columns spec)" "y2found = cols_present header (cp_y2columns spec)"
  have present: "\<forall>i \<in> set (found @ y2found). i < length header \<and> Q (header ! i)"
    using assms(1) find_col_Some by (fastforce simp: cols cols_present_set list_all_iff)
  show ?thesis
  proof (cases "length ms \<ge> max_matches \<or> found @ y2found = []")
    case True
    then show ?thesis using plots_ok_mono [OF assms(2), of "n + 1"]
      by (simp add: add_custom_plot_match_def s Let_def cols [symmetric])
  next
    case False
    with present show ?thesis
      unfolding add_custom_plot_match_def s Let_def cols [symmetric] prod.case
      by (simp only: if_False, intro plots_ok_add assms(2) [unfolded s])
        (auto simp: good_match_def two_axis_cols image_Un image_image)
  qed
qed

lemma add_plain_ok:
  assumes "\<forall>i \<in> set cols. i < length header \<and> Q (header ! i)" "plots_ok Q header time_col n s"
  shows "plots_ok Q header time_col (n + 1) (add_plain_match name title ylabel time_col max_matches cols s)"
proof (cases "length (fst s) \<ge> max_matches \<or> take PLOT_CSV_FIELDS cols = []")
  case True
  then show ?thesis using plots_ok_mono [OF assms(2), of "n + 1"]
    by (auto simp: add_plain_match_def Let_def split: prod.split)
next
  case False
  obtain ms claimed where s: "s = (ms, claimed)" by fastforce
  have "\<forall>i \<in> set (take PLOT_CSV_FIELDS cols). i < length header \<and> Q (header ! i)"
    using assms(1) by (auto dest: in_set_takeD)
  then show ?thesis using False
    unfolding add_plain_match_def s Let_def prod.case fst_conv
    by (simp only: if_False, intro plots_ok_add assms(2) [unfolded s]) (auto simp: good_match_def image_image)
qed

lemma unclaimed_set:
  "set (unclaimed header claimed P) = {i. i < length header \<and> \<not> claimed i \<and> header ! i \<noteq> [] \<and> P (header ! i)}"
  by (auto simp: unclaimed_def)

section \<open>All plots\<close>
lemma templates_ok:
  "list_all (template_ok (\<lambda>_. True)) plot_templates"
  "list_all (template_ok (\<lambda>name. \<not> is_excluded_metric_column name)) plot_templates"
  by code_simp+

text \<open>After the plots of the user, the templates and the two special fallbacks.\<close>

definition before_fallback ::
  "string list \<Rightarrow> nat \<Rightarrow> custom_plot_spec list \<Rightarrow> nat \<Rightarrow> plot_state" where
  "before_fallback header time_col custom_plots max_matches =
     add_disk_fallback_match header time_col max_matches
       (add_network_fallback_match header time_col max_matches
         (match_templates header time_col max_matches
           (fold (add_custom_plot_match header time_col max_matches) custom_plots ([], \<lambda>_. False))))"

lemma build_plot_matches_all:
  "build_plot_matches header time_col custom_plots False max_matches =
     add_fallback_match header time_col (find_col header ''core'') (find_col header ''phase'') max_matches
       (before_fallback header time_col custom_plots max_matches)"
  by (simp add: build_plot_matches_def before_fallback_def Let_def)

lemma custom_plots_ok:
  assumes "\<forall>spec \<in> set custom_plots. list_all Q (cp_columns spec @ cp_y2columns spec)"
  shows "plots_ok Q header time_col (length custom_plots)
    (fold (add_custom_plot_match header time_col max_matches) custom_plots ([], \<lambda>_. False))"
  using plots_ok_fold [OF _ plots_ok_initial, of custom_plots Q header time_col] add_custom_ok assms by auto

lemma before_fallback_ok:
  assumes "\<forall>spec \<in> set custom_plots. list_all Q (cp_columns spec @ cp_y2columns spec)" "list_all (template_ok Q) plot_templates"
    and special: "\<And>name. starts_with ''net '' name \<or> starts_with ''disk '' name \<Longrightarrow> Q name"
  shows "plots_ok Q header time_col (length custom_plots + 25) (before_fallback header time_col custom_plots max_matches)"
proof -
  let ?s = "fold (add_custom_plot_match header time_col max_matches) custom_plots ([], \<lambda>_. False)"
  have "length plot_templates = 22" by (simp add: plot_templates_def)
  then have t: "plots_ok Q header time_col (length custom_plots + 22) (match_templates header time_col max_matches ?s)"
    using plots_ok_fold [where xs = plot_templates and f = "match_template header time_col max_matches",
        OF _ custom_plots_ok [OF assms(1)]]
      match_template_ok assms(2)
    by (simp add: match_templates_def list_all_iff)
  let ?n = "add_network_fallback_match header time_col max_matches (match_templates header time_col max_matches ?s)"
  have n: "plots_ok Q header time_col (length custom_plots + 22 + 1) ?n"
    unfolding add_network_fallback_match_def by (rule add_plain_ok [OF _ t]) (use special in \<open>auto simp: unclaimed_set\<close>)
  have "plots_ok Q header time_col (length custom_plots + 22 + 1 + 1 + 1) (add_disk_fallback_match header time_col max_matches ?n)"
    unfolding add_disk_fallback_match_def Let_def
    by (rule add_plain_ok, use special in \<open>simp add: unclaimed_set\<close>, rule add_plain_ok [OF _ n])
      (use special in \<open>simp add: unclaimed_set\<close>)
  then show ?thesis unfolding before_fallback_def by (rule plots_ok_mono) simp
qed

definition fallback_columns :: "string list \<Rightarrow> nat \<Rightarrow> plot_state \<Rightarrow> nat list" where
  "fallback_columns header time_col s =
     filter (\<lambda>i. i \<noteq> time_col \<and> find_col header ''core'' \<noteq> Some i \<and> find_col header ''phase'' \<noteq> Some i)
       (unclaimed header (snd s) (\<lambda>h. \<not> is_excluded_metric_column h))"

lemma build_plot_matches_fallback:
  "build_plot_matches header time_col custom_plots False max_matches =
     (let s = before_fallback header time_col custom_plots max_matches in
      fst (add_plain_match ''metrics'' ''Other Metrics'' ''value'' time_col max_matches (fallback_columns header time_col s) s))"
  by (simp add: build_plot_matches_all add_fallback_match_def fallback_columns_def Let_def)

lemma build_good:
  assumes "\<forall>spec \<in> set custom_plots. list_all Q (cp_columns spec @ cp_y2columns spec)" "list_all (template_ok Q) plot_templates"
    "\<And>name. starts_with ''net '' name \<or> starts_with ''disk '' name \<Longrightarrow> Q name" "\<And>name. \<not> is_excluded_metric_column name \<Longrightarrow> Q name"
    "pm \<in> set (build_plot_matches header time_col custom_plots False max_matches)"
  shows "good_match Q header time_col pm"
proof -
  let ?s = "before_fallback header time_col custom_plots max_matches"
  have "plots_ok Q header time_col (length custom_plots + 25 + 1)
      (add_plain_match ''metrics'' ''Other Metrics'' ''value'' time_col max_matches (fallback_columns header time_col ?s) ?s)"
    by (rule add_plain_ok [OF _ before_fallback_ok [OF assms(1-3)]])
      (use assms(4) in \<open>auto simp: fallback_columns_def unclaimed_set\<close>)
  then show ?thesis using assms(5) by (simp add: plots_ok_def build_plot_matches_fallback Let_def)
qed

text \<open>A column that holds a measurement: it has a name, is none of the dimensions and no bookkeeping.\<close>

definition metric_column :: "string list \<Rightarrow> nat \<Rightarrow> nat \<Rightarrow> bool" where
  "metric_column header time_col i \<longleftrightarrow>
     i < length header \<and> header ! i \<noteq> [] \<and> \<not> is_excluded_metric_column (header ! i) \<and> i \<noteq> time_col \<and>
     find_col header ''core'' \<noteq> Some i \<and> find_col header ''phase'' \<noteq> Some i"

lemma length_csv_fields: "length (csv_fields n s) \<le> n + 1 \<and> csv_fields n s \<noteq> []"
  by (induction n s rule: csv_fields.induct) (auto split: list.splits)

lemma length_split_csv_line: "0 < n \<Longrightarrow> length (split_csv_line line n) \<le> n"
  using length_csv_fields [of "n - 1" line] by (auto simp: split_csv_line_def)

lemma length_fallback_columns: "length (fallback_columns header time_col s) \<le> length header"
  unfolding fallback_columns_def unclaimed_def
  by (rule order_trans [OF length_filter_le order_trans [OF length_filter_le]]) simp

text \<open>C10: every measurement in the header of a file is in some plot, whatever \<open>--plot\<close> asks for besides; there is always
  room for the last, generic plot. Each plot is drawn against the time, of columns that the header has.\<close>
theorem every_metric_plotted:
  assumes "length custom_plots \<le> MAX_CUSTOM_PLOTS" "header = header_of_file contents" "metric_column header time_col i"
  shows "i \<in> plotted (build_plot_matches header time_col custom_plots False PLOT_CSV_FIELDS) \<and>
    (\<forall>pm \<in> set (build_plot_matches header time_col custom_plots False PLOT_CSV_FIELDS).
       pm_time_col pm = time_col \<and> pm_cols pm \<noteq> [] \<and> (\<forall>c \<in> set (pm_cols pm). fst c < length header))"
proof -
  let ?s = "before_fallback header time_col custom_plots PLOT_CSV_FIELDS"
  have all: "\<forall>spec \<in> set custom_plots. list_all (\<lambda>_. True) (cp_columns spec @ cp_y2columns spec)" by (simp add: list_all_iff)
  obtain ms claimed where s: "?s = (ms, claimed)" by fastforce
  have ok: "length ms \<le> length custom_plots + 25" "\<forall>j. claimed j \<longleftrightarrow> j \<in> plotted ms"
    using before_fallback_ok [OF all templates_ok(1), of header time_col PLOT_CSV_FIELDS] by (simp_all add: s plots_ok_def)
  have "length header \<le> PLOT_CSV_FIELDS"
    unfolding assms(2) header_of_file_def by (rule length_split_csv_line) (simp add: PLOT_CSV_FIELDS_def)
  then have kept: "take PLOT_CSV_FIELDS (fallback_columns header time_col ?s) = fallback_columns header time_col ?s"
    by (rule take_all [OF order_trans [OF length_fallback_columns]])
  have room: "\<not> PLOT_CSV_FIELDS \<le> length ms" using ok(1) assms(1) by (simp add: PLOT_CSV_FIELDS_def MAX_CUSTOM_PLOTS_def)
  have "i \<in> set (fallback_columns header time_col ?s)" if "\<not> claimed i"
    using that assms(3) by (simp add: fallback_columns_def unclaimed_set metric_column_def s)
  then have "i \<in> plotted (build_plot_matches header time_col custom_plots False PLOT_CSV_FIELDS)"
    using room kept ok(2) unfolding build_plot_matches_fallback Let_def
    by (cases "claimed i") (auto simp: s add_plain_match_def image_image Let_def)
  then show ?thesis using build_good [OF all templates_ok(1)] by (simp add: good_match_def)
qed

definition plot_file_example :: string where
  "plot_file_example = ''time,ipc,net eth0,load''"

lemma every_metric_plotted_witness:
  "3 \<in> plotted (build_plot_matches (header_of_file plot_file_example) 0 [] False PLOT_CSV_FIELDS)"
proof -
  have "header_of_file plot_file_example = [''time'', ''ipc'', ''net eth0'', ''load'']"
    by (simp add: header_of_file_def plot_file_example_def fgets_short LF_def CR_def NUL_def split_csv_line_def
        PLOT_CSV_FIELDS_def) code_simp
  then have "metric_column (header_of_file plot_file_example) 0 3"
    by (simp add: metric_column_def is_excluded_metric_column_def find_col_def)
  from every_metric_plotted [OF _ refl this, of "[]"] show ?thesis by simp
qed

text \<open>Without \<open>--plot\<close>, no plot has a bookkeeping column in it.\<close>
lemma excluded_never_plotted:
  assumes "pm \<in> set (build_plot_matches header time_col [] False max_matches)" "c \<in> set (pm_cols pm)"
  shows "\<not> is_excluded_metric_column (header ! fst c)"
proof -
  have "\<not> is_excluded_metric_column name" if "starts_with ''net '' name \<or> starts_with ''disk '' name" for name
    using that by (auto simp: is_excluded_metric_column_def)
  then show ?thesis using build_good [OF _ templates_ok(2) _ _ assms(1)] assms(2) by (simp add: good_match_def)
qed

text \<open>A file that cannot be read is no failure: the exit status is 0.\<close>
lemma unreadable_csv_ignored:
  assumes "pw_files w f = None" "pw_mkdir w ''.''"
  shows "fst (plot_main w [Opt_csv f]) = 0"
  using assms by (simp add: plot_main_def plot_args_initial_def plot_out_dir_def process_csv_def)

end
