(* ===== verification/Spec2Isabelle.thy ===== *)
theory Spec2Isabelle
  imports Json_Roundtrip Multipass Tree_File Affinity_Facts Ibs_Facts Power_Facts Run_Csv Validate_Facts Ledger_Facts Archetype_Facts Archetype_Kmeans_Facts Summary_Facts Core_Report_Facts Plot
begin

text \<open>
  Verification of wspy, a performance-counter runner for Linux (sources under src/).

  The program starts a command, counts hardware and software events while it runs, follows its process tree, and
  reports metrics as text or as rows of comma-separated values; companion programs read the tree file
  (proctree) and compare runs. The theories follow the sources; each opens with what it holds.

  \<^bold>\<open>Groundwork.\<close> \<open>C_Prelude\<close>, \<open>C_Numbers\<close>, \<open>C_Double\<close>, \<open>C_Text\<close>, \<open>C_Format\<close>, \<open>C_Qsort\<close> and
  \<open>Sysfs\<close> model what the code uses of C: zero-terminated strings, \<open>strtol\<close>, \<open>strtod\<close> and \<open>printf\<close> as functions on
  character lists, fixed-width integers as words, \<open>double\<close> as IEEE 754 binary64 with one rounding per operation
  (negative zero and the sign of a NaN are not distinguished), \<open>fgets\<close>, \<open>qsort\<close> with its contract as a locale, and
  the readable files and directories of sysfs as a parameter.

  \<^bold>\<open>JSON\<close> (json_reader.c, json_util.c): \<open>Json_Reader\<close>, \<open>Json_Writer\<close>; \<open>Json_Facts\<close>, \<open>Json_Roundtrip\<close>,
  \<open>Json_Text\<close> show that the parser returns on every buffer and reads back every document that is written. The
  parser's fuel is \<open>2 * length + 2\<close>; the termination property shows it is never used up.

  \<^bold>\<open>Sampling\<close> (perf_ring.c, symbol_sample.c, ibs_sample.c): \<open>Perf_Ring\<close> has the kernel's ring buffer, its drain as a
  refinement of a list of records, and a locale for the clients' callbacks, which \<open>Symbol_Sample\<close> and \<open>Ibs_Sample\<close>
  interpret; their invariants account for every sample.

  \<^bold>\<open>Counters\<close> (topdown.c, cpu_info.h, coverage.c, preflight.c, multipass.c, ibs.c, power.c): \<open>Counter_Model\<close> has the
  structs, \<open>Counter_Events\<close> the raw event tables, \<open>Counter_Groups\<close> the groups a mask asks for, \<open>Coverage\<close> and
  \<open>Counter_Runtime\<close> the opening, reading and closing of descriptors, with the rounding error of the estimate of a
  multiplexed count, \<open>Preflight\<close> and \<open>Multipass\<close> the prediction
  of what fits and the passes planned from it (locale \<open>fit_oracle\<close>), \<open>Ibs_Probe\<close> and \<open>Power_Probe\<close> the units that
  are discovered in sysfs, with their facts in \<open>Ibs_Facts\<close> and \<open>Power_Facts\<close>.

  \<^bold>\<open>Reports and rows\<close> (topdown.c, wspy.c, phase.c, gpu_fusion.c, system.c): \<open>Metric_Topdown\<close> and \<open>Metric_Print\<close> have
  every report of counters as header, row and text, \<open>Phase\<close> the detector of warmup, steady and degraded phases with
  its moves as a step relation, \<open>Gpu_Fusion\<close> the GPU metrics of two sources, \<open>System_Stats\<close> the status read from
  /proc, and \<open>Run_Rows\<close> what one run writes: header, rows of every tick and of the end, as writers over the state of
  the reports. \<open>Metric_Facts\<close> shows that every report has as many fields in a row as in the header, \<open>Run_Facts\<close> and
  \<open>Run_Csv\<close> carry this through a whole run.

  \<^bold>\<open>Records of runs\<close> (cgroup.c, provenance.c, manifest.c, run_index.c, json_util.c, validate.c, ledger.c): \<open>Cgroup\<close> and
  \<open>Provenance\<close> read the limits and the environment of a run, \<open>C_Time\<close> formats its times and its id, which sort as the
  times do, \<open>Json_Layout\<close> and \<open>Manifest\<close> write manifest.json and the record of the run index. \<open>Manifest_Facts\<close> spells out
  the value meant and shows that the JSON reader gives it back. The readers of these files follow: \<open>Validate\<close> and
  \<open>Validate_Facts\<close> with the severity a recorded run deserves, \<open>Ledger\<close>, \<open>Ledger_Profiles\<close> and \<open>Ledger_Facts\<close> with the
  workload list, the runs counted for it and the scan of test profiles; \<open>Text_Lines\<close> has the lines both read.

  \<^bold>\<open>Finished runs\<close> (archetype.c, summary.c): \<open>Archetype\<close> scores the features of a run, \<open>Archetype_Report\<close> prints the scorecard of
  one run or of all, \<open>Archetype_Nearest\<close> ranks the runs nearest to one, \<open>Archetype_Kmeans\<close> divides runs into clusters and
  dispatches the modes. \<open>C_Format_Width\<close> bounds the text of a double, from which \<open>Archetype_Facts\<close> shows that no buffer of
  reasons overflows; it also has the ranking and the agreement of both reports. \<open>Archetype_Kmeans_Facts\<close> has the
  invariants of the clusters. The rows SQLite selects are a parameter. The summary of runs is \<open>Summary_Stats\<close> (statistics,
  groups and verdicts), \<open>Summary_Report\<close> (the table) and \<open>Summary_Modes\<close> (regressions, artifacts, phases, dispatch);
  \<open>Summary_Facts\<close> shows that the table groups exactly the runs of one key and that its verdicts mean what they say.

  \<^bold>\<open>Reports on CSV files\<close> (core_report.c, plot.c): \<open>Core_Report\<close> compares the cores of a \<open>--per-core\<close> run;
  \<open>Core_Report_Facts\<close> shows that the file is accumulated exactly, that hot and cold cores are the extremes and that the
  classes divide the cores. \<open>Plot\<close> matches the header of a file with the plot templates, writes the gnuplot scripts and
  shows that no measurement is left without a plot. Both read the file with the functions of \<open>Validate\<close>, of which the
  programs have copies, and lines of 8192 bytes at most.

  \<^bold>\<open>Process trees\<close> (topdown.c's tracer, proctree.c, phases of both): \<open>Ptrace_Table\<close>, \<open>Ptrace_Text\<close>, \<open>Ptrace_Loop\<close> are
  the tracer as a function of the sequence of stops; \<open>Ptrace_Order\<close> shows that the order in which stops arrive does
  not matter where it must not. \<open>Proc_Model\<close> to \<open>Proc_Walk\<close> are proctree's parser, whose linked heap implements a
  list of edges, \<open>Proc_Totals\<close>, \<open>Proc_Print\<close>, \<open>Proc_Json\<close> its reports, \<open>Proc_Diff\<close> and \<open>Proc_Merge\<close> the comparison
  of two exported runs; \<open>Tree_File\<close> joins both programs: the fork and wait lines the tracer appends
  to a tree file have exactly their effect on the tree proctree builds from it.
  Recursive walks take fuel, the number of nodes, and are shown to finish within it.

  \<^bold>\<open>Affinity\<close> (affinity.c): \<open>Affinity\<close>, \<open>Affinity_Facts\<close>.

  \<^bold>\<open>Not modelled.\<close> The result store (store.c) builds SQL for SQLite, whose tables hold its state; option parsing and the
  multi-pass driver of wspy.c are getopt_long, signals, fork and exec; the inventory of cpu_info.c reads the processor
  and sysfs, and its result is an argument here; error.c prints messages. amd_smi.c, amd_sysfs.c and nvidia_nvml.c only
  call vendor libraries or read single files. src/archive, src/rocm, src/web and the scripts are older versions, vendor
  samples and other languages. Diagnostics that go to the log are left out unless a property speaks of them.
\<close>

end
